(* ===== verification/Hub_Prelude.thy ===== *)
theory Hub_Prelude
  imports Complex_Main "HOL-Library.AList"
begin

text \<open>
  Shared vocabulary of the development: the collections of simplification facts the
  components fill, Go's maps as association lists with the operations the source uses
  on them (read, write, \<^verbatim>\<open>delete\<close>, \<^verbatim>\<open>len\<close>, \<^verbatim>\<open>range\<close>), the interface that every keyed store
  of the program relies on, and a few facts about lists.
\<close>

named_theorems go_map_simps "reads of Go maps after writes and deletes"
named_theorems hub_defs "unfoldings of small accessors of the model"

section \<open>Go maps\<close>

text \<open>
  A Go map is a list of key/value pairs with distinct keys; the order of the list stands
  for the (unspecified) order in which \<^verbatim>\<open>range\<close> visits it. A \<^verbatim>\<open>nil\<close> map reads as the empty one.
\<close>

type_synonym ('k, 'v) gomap = "('k \<times> 'v) list"

definition gm_get :: "('k, 'v) gomap \<Rightarrow> 'k \<Rightarrow> 'v option" where
  "gm_get m k = map_of m k"

definition gm_put :: "('k, 'v) gomap \<Rightarrow> 'k \<Rightarrow> 'v \<Rightarrow> ('k, 'v) gomap" where
  "gm_put m k v = AList.update k v m"

definition gm_del :: "('k, 'v) gomap \<Rightarrow> 'k \<Rightarrow> ('k, 'v) gomap" where
  "gm_del m k = AList.delete k m"

definition gm_len :: "('k, 'v) gomap \<Rightarrow> nat" where
  "gm_len m = length m"

definition gm_keys :: "('k, 'v) gomap \<Rightarrow> 'k list" where
  "gm_keys m = map fst m"

definition gm_ok :: "('k, 'v) gomap \<Rightarrow> bool" where
  "gm_ok m \<longleftrightarrow> distinct (gm_keys m)"

lemma gm_get_empty [simp, go_map_simps]: "gm_get [] k = None"
  by (simp add: gm_get_def)

lemma gm_get_put [simp, go_map_simps]:
  "gm_get (gm_put m k v) k' = (if k' = k then Some v else gm_get m k')"
  by (simp add: gm_get_def gm_put_def update_conv')

lemma gm_get_del [simp, go_map_simps]:
  "gm_get (gm_del m k) k' = (if k' = k then None else gm_get m k')"
  by (simp add: gm_get_def gm_del_def delete_conv')

lemma gm_ok_empty [simp]: "gm_ok []"
  by (simp add: gm_ok_def gm_keys_def)

lemma gm_ok_put [simp]: "gm_ok m \<Longrightarrow> gm_ok (gm_put m k v)"
  by (simp add: gm_ok_def gm_keys_def gm_put_def distinct_update)

lemma gm_ok_del [simp]: "gm_ok m \<Longrightarrow> gm_ok (gm_del m k)"
  by (simp add: gm_ok_def gm_keys_def gm_del_def distinct_delete)

lemma gm_keys_iff: "k \<in> set (gm_keys m) \<longleftrightarrow> gm_get m k \<noteq> None"
  by (simp add: gm_keys_def gm_get_def map_of_eq_None_iff image_iff)

lemma gm_len_card: "gm_ok m \<Longrightarrow> gm_len m = card (set (gm_keys m))"
  using distinct_card [of "gm_keys m"] by (simp add: gm_ok_def gm_len_def gm_keys_def)

lemma gm_len_put:
  "gm_ok m \<Longrightarrow> gm_len (gm_put m k v) = (if gm_get m k = None then Suc (gm_len m) else gm_len m)"
proof -
  assume ok: "gm_ok m"
  have keys: "set (gm_keys (gm_put m k v)) = insert k (set (gm_keys m))"
    by (auto simp: gm_keys_iff split: if_splits)
  show ?thesis
    using ok by (simp add: gm_len_card keys card_insert_if gm_keys_iff)
qed

lemma gm_len_del:
  "gm_ok m \<Longrightarrow> gm_len (gm_del m k) = (if gm_get m k = None then gm_len m else gm_len m - 1)"
proof -
  assume ok: "gm_ok m"
  have keys: "set (gm_keys (gm_del m k)) = set (gm_keys m) - {k}"
    by (auto simp: gm_keys_iff split: if_splits)
  show ?thesis
    using ok by (simp add: gm_len_card keys card_Diff_singleton_if gm_keys_iff)
qed

lemma gm_get_SomeD: "gm_get m k = Some v \<Longrightarrow> (k, v) \<in> set m"
  by (simp add: gm_get_def map_of_SomeD)

lemma gm_get_map [simp, go_map_simps]:
  "gm_get (map (\<lambda>(k, v). (k, f v)) m) k = map_option f (gm_get m k)"
  by (simp add: gm_get_def map_of_map)

lemma find_app: "find P (xs @ ys) = (case find P xs of None \<Rightarrow> find P ys | Some x \<Rightarrow> Some x)"
  by (induction xs) auto

lemma gm_get_fold_put:
  "gm_get (fold (\<lambda>x m. gm_put m (key x) (val x)) xs m) k =
     (case find (\<lambda>x. key x = k) (rev xs) of None \<Rightarrow> gm_get m k | Some x \<Rightarrow> Some (val x))"
proof (induction xs arbitrary: m)
  case Nil
  then show ?case by simp
next
  case (Cons x xs)
  show ?case by (simp add: Cons find_app split: option.splits)
qed

lemma gm_get_fold_put_const:
  "gm_get (fold (\<lambda>x m. gm_put m (key x) v) xs m) k =
     (if k \<in> key ` set xs then Some v else gm_get m k)"
  by (induction xs arbitrary: m) auto

lemma gm_ok_fold_put: "gm_ok m \<Longrightarrow> gm_ok (fold (\<lambda>x m. gm_put m (key x) (val x)) xs m)"
  by (induction xs arbitrary: m) auto

section \<open>The interface of a keyed store\<close>

text \<open>
  What the components that keep one record per key (breakers per channel, request queues
  per client, quotas per user) rely on: a read sees the last write, other keys are
  untouched, and every operation keeps the representation invariant.
\<close>

locale keyed_store =
  fixes get :: "'m \<Rightarrow> 'k \<Rightarrow> 'v option"
    and put :: "'m \<Rightarrow> 'k \<Rightarrow> 'v \<Rightarrow> 'm"
    and del :: "'m \<Rightarrow> 'k \<Rightarrow> 'm"
    and ok :: "'m \<Rightarrow> bool"
  assumes get_put: "get (put m k v) k' = (if k' = k then Some v else get m k')"
    and get_del: "get (del m k) k' = (if k' = k then None else get m k')"
    and ok_put: "ok m \<Longrightarrow> ok (put m k v)"
    and ok_del: "ok m \<Longrightarrow> ok (del m k)"
begin

definition modify :: "'m \<Rightarrow> 'k \<Rightarrow> ('v \<Rightarrow> 'v) \<Rightarrow> 'm" where
  "modify m k f = (case get m k of None \<Rightarrow> m | Some v \<Rightarrow> put m k (f v))"

lemma get_modify:
  "get (modify m k f) k' = (if k' = k then map_option f (get m k) else get m k')"
  by (auto simp: modify_def get_put split: option.splits)

lemma ok_modify: "ok m \<Longrightarrow> ok (modify m k f)"
  by (simp add: modify_def ok_put split: option.splits)

lemma get_put_del_same: "get (put (del m k) k v) k' = get (put m k v) k'"
  by (simp add: get_put get_del)

lemma get_fold_del: "get (fold (\<lambda>k m. del m k) ks m) k' = (if k' \<in> set ks then None else get m k')"
  by (induction ks arbitrary: m) (auto simp: get_del)

lemma ok_fold_del: "ok m \<Longrightarrow> ok (fold (\<lambda>k m. del m k) ks m)"
  by (induction ks arbitrary: m) (auto simp: ok_del)

end

interpretation gm: keyed_store gm_get gm_put gm_del gm_ok
  by unfold_locales auto

lemma gm_get_Cons: "gm_get ((i, v) # m) k = (if k = i then Some v else gm_get m k)"
  by (simp add: gm_get_def)

lemma gm_fold_modify:
  "gm_ok s \<Longrightarrow> gm_get (fold (\<lambda>(i, v) m. gm.modify m i (f v)) s m) k =
     (case gm_get s k of None \<Rightarrow> gm_get m k | Some v \<Rightarrow> map_option (f v) (gm_get m k))"
proof (induction s arbitrary: m)
  case Nil
  then show ?case by (simp add: gm_get_def)
next
  case (Cons e s)
  obtain i v where e: "e = (i, v)" by (cases e)
  have i: "gm_get s i = None" and ok: "gm_ok s"
    using Cons.prems by (auto simp: e gm_ok_def gm_keys_def gm_get_def map_of_eq_None_iff)
  show ?case
    using Cons.IH [OF ok] i by (auto simp: e gm.get_modify gm_get_Cons split: option.splits)
qed

text \<open>Sums over the entries of a map.\<close>

lemma gm_sum_put:
  fixes f :: "'k \<times> 'v \<Rightarrow> int"
  shows "gm_get m k = Some v \<Longrightarrow> sum_list (map f (gm_put m k w)) = sum_list (map f m) - f (k, v) + f (k, w)"
proof (induction m)
  case (Cons e m)
  then show ?case by (cases e) (auto simp: gm_get_def gm_put_def)
qed simp

lemma gm_sum_new:
  fixes f :: "'k \<times> 'v \<Rightarrow> int"
  shows "gm_get m k = None \<Longrightarrow> sum_list (map f (gm_put m k w)) = sum_list (map f m) + f (k, w)"
proof (induction m)
  case (Cons e m)
  then show ?case by (cases e) (auto simp: gm_get_def gm_put_def split: if_splits)
qed (simp add: gm_put_def)

section \<open>Lists\<close>

lemma sum_list_filter_split:
  "sum_list (map f xs) = sum_list (map f (filter P xs)) + sum_list (map f (filter (\<lambda>x. \<not> P x) xs))"
  for f :: "'a \<Rightarrow> int"
  by (induction xs) auto

lemma sum_list_nonneg_le:
  "(\<And>x. x \<in> set xs \<Longrightarrow> 0 \<le> f x) \<Longrightarrow> x \<in> set xs \<Longrightarrow> f x \<le> sum_list (map f xs)"
  for f :: "'a \<Rightarrow> int"
proof (induction xs)
  case Nil
  then show ?case by simp
next
  case (Cons y ys)
  have "0 \<le> sum_list (map f ys)"
    using Cons.prems(1) by (intro sum_list_nonneg) auto
  then show ?case using Cons by fastforce
qed

end
