(* ===== verification/Go_Base.thy ===== *)
theory Go_Base
  imports Hub_Prelude
begin

text \<open>
  The part of Go's language and standard library that the modelled code uses: 64-bit
  integers with their wrap-around, truncating division, and the functions of
  \<^verbatim>\<open>strings\<close> and \<^verbatim>\<open>strconv\<close> on byte strings. Strings are byte strings, as in Go; case mapping and
  space trimming are those of the ASCII range (bytes from 128 on are left as they are).
\<close>

section \<open>Machine integers\<close>

definition wrap64 :: "int \<Rightarrow> int" where
  "wrap64 x = (x + 2 ^ 63) mod 2 ^ 64 - 2 ^ 63"

definition int64_ok :: "int \<Rightarrow> bool" where
  "int64_ok x \<longleftrightarrow> - (2 ^ 63) \<le> x \<and> x < 2 ^ 63"

lemma wrap64_id [simp]: "int64_ok x \<Longrightarrow> wrap64 x = x"
  by (simp add: wrap64_def int64_ok_def)

lemma int64_ok_wrap64 [simp]: "int64_ok (wrap64 x)"
proof -
  have "0 \<le> (x + 2 ^ 63) mod 2 ^ 64" "(x + 2 ^ 63) mod 2 ^ 64 < (2 ^ 64 :: int)"
    by simp_all
  then show ?thesis by (simp add: wrap64_def int64_ok_def)
qed

text \<open>Go's \<^verbatim>\<open>/\<close> truncates towards zero; a zero divisor panics.\<close>

definition go_quot :: "int \<Rightarrow> int \<Rightarrow> int" where
  "go_quot a b = sgn a * sgn b * (\<bar>a\<bar> div \<bar>b\<bar>)"

lemma go_quot_nonneg: "0 \<le> a \<Longrightarrow> 0 < b \<Longrightarrow> go_quot a b = a div b"
  by (cases "a = 0") (simp_all add: go_quot_def)

text \<open>
  The outcome of a call that may return an error or panic. The message of an error is kept
  only where the code reads it.
\<close>

datatype 'a res = Ok 'a | Err string | Panic

section \<open>Strings\<close>

definition is_space :: "char \<Rightarrow> bool" where
  "is_space c \<longleftrightarrow> c = CHR '' '' \<or> (9 \<le> (of_char c :: nat) \<and> (of_char c :: nat) \<le> 13)"

text \<open>\<^verbatim>\<open>strings.Split\<close> with a one-byte separator: never empty.\<close>

fun go_split :: "char \<Rightarrow> string \<Rightarrow> string list" where
  "go_split c [] = [[]]"
| "go_split c (x # xs) =
     (if x = c then [] # go_split c xs
      else (case go_split c xs of [] \<Rightarrow> [[x]] | p # ps \<Rightarrow> (x # p) # ps))"

fun go_join :: "char \<Rightarrow> string list \<Rightarrow> string" where
  "go_join c [] = []"
| "go_join c [p] = p"
| "go_join c (p # q # ps) = p @ c # go_join c (q # ps)"

definition go_trim :: "(char \<Rightarrow> bool) \<Rightarrow> string \<Rightarrow> string" where
  "go_trim P s = rev (dropWhile P (rev (dropWhile P s)))"

definition go_trim_space :: "string \<Rightarrow> string" where
  "go_trim_space s = go_trim is_space s"

definition go_has_prefix :: "string \<Rightarrow> string \<Rightarrow> bool" where
  "go_has_prefix s p \<longleftrightarrow> take (length p) s = p"

definition go_has_suffix :: "string \<Rightarrow> string \<Rightarrow> bool" where
  "go_has_suffix s p \<longleftrightarrow> go_has_prefix (rev s) (rev p)"

definition go_trim_prefix :: "string \<Rightarrow> string \<Rightarrow> string" where
  "go_trim_prefix s p = (if go_has_prefix s p then drop (length p) s else s)"

fun go_contains :: "string \<Rightarrow> string \<Rightarrow> bool" where
  "go_contains [] p \<longleftrightarrow> p = []"
| "go_contains (x # xs) p \<longleftrightarrow> go_has_prefix (x # xs) p \<or> go_contains xs p"

definition lower_char :: "char \<Rightarrow> char" where
  "lower_char c = (let n = (of_char c :: nat) in
     if 65 \<le> n \<and> n \<le> 90 then char_of (n + 32) else c)"

definition go_to_lower :: "string \<Rightarrow> string" where
  "go_to_lower s = map lower_char s"

lemma go_split_nonempty [simp]: "go_split c s \<noteq> []"
  by (induction s) (auto split: list.splits)

lemma go_join_Cons: "ps \<noteq> [] \<Longrightarrow> go_join c (p # ps) = p @ c # go_join c ps"
  by (cases ps) auto

lemma go_join_push: "go_join c ((x # p) # ps) = x # go_join c (p # ps)"
  by (cases ps) auto

lemma go_join_split [simp]: "go_join c (go_split c s) = s"
  by (induction s) (auto simp: go_join_Cons go_join_push split: list.splits)

lemma go_split_no_sep: "p \<in> set (go_split c s) \<Longrightarrow> c \<notin> set p"
  by (induction s arbitrary: p) (auto split: list.splits if_splits)

lemma go_split_simple: "c \<notin> set s \<Longrightarrow> go_split c s = [s]"
  by (induction s) auto

lemma go_split_append_sep:
  "c \<notin> set p \<Longrightarrow> go_split c (p @ c # s) = p # go_split c s"
  by (induction p) auto

lemma go_split_join:
  "ps \<noteq> [] \<Longrightarrow> (\<forall>p \<in> set ps. c \<notin> set p) \<Longrightarrow> go_split c (go_join c ps) = ps"
  by (induction c ps rule: go_join.induct) (auto simp: go_split_simple go_split_append_sep)

lemma go_has_prefix_iff: "go_has_prefix s p \<longleftrightarrow> (\<exists>r. s = p @ r)"
  by (metis append_eq_conv_conj append_take_drop_id go_has_prefix_def)

lemma go_has_suffix_iff: "go_has_suffix s p \<longleftrightarrow> (\<exists>r. s = r @ p)"
  unfolding go_has_suffix_def go_has_prefix_iff
  by (metis rev_append rev_rev_ident)

lemma go_contains_iff: "go_contains s p \<longleftrightarrow> (\<exists>a b. s = a @ p @ b)"
proof (induction s)
  case Nil
  then show ?case by auto
next
  case (Cons x xs)
  have "(\<exists>a b. x # xs = a @ p @ b) \<longleftrightarrow>
      (\<exists>b. x # xs = p @ b) \<or> (\<exists>a b. xs = a @ p @ b)"
    by (metis append_Cons append_Nil list.exhaust list.inject)
  then show ?case using Cons by (simp add: go_has_prefix_iff)
qed

lemma lower_char_idem [simp]: "lower_char (lower_char c) = lower_char c"
proof (cases "65 \<le> (of_char c :: nat) \<and> (of_char c :: nat) \<le> 90")
  case True
  then have "(of_char (char_of (of_char c + 32 :: nat) :: char) :: nat) = of_char c + 32"
    by simp
  with True show ?thesis by (simp add: lower_char_def Let_def)
qed (auto simp: lower_char_def Let_def)

lemma go_to_lower_idem [simp]: "go_to_lower (go_to_lower s) = go_to_lower s"
  by (simp add: go_to_lower_def)

section \<open>Numbers in strings\<close>

definition is_digit :: "char \<Rightarrow> bool" where
  "is_digit c \<longleftrightarrow> 48 \<le> (of_char c :: nat) \<and> (of_char c :: nat) \<le> 57"

definition digit_val :: "char \<Rightarrow> int" where
  "digit_val c = of_char c - 48"

definition digits_val :: "string \<Rightarrow> int" where
  "digits_val s = foldl (\<lambda>a c. 10 * a + digit_val c) 0 s"

text \<open>
  \<^verbatim>\<open>strconv.ParseInt(s, 10, 64)\<close> and, on a 64-bit platform, \<^verbatim>\<open>strconv.Atoi\<close>: an optional sign
  and at least one digit; a value outside the int64 range is an error.
\<close>

definition go_parse_int :: "string \<Rightarrow> int option" where
  "go_parse_int s =
     (let neg = (s \<noteq> [] \<and> hd s = CHR ''-'');
          ds = (if s \<noteq> [] \<and> (hd s = CHR ''-'' \<or> hd s = CHR ''+'') then tl s else s)
      in if ds = [] \<or> \<not> list_all is_digit ds then None
         else (let v = (if neg then - digits_val ds else digits_val ds)
               in if int64_ok v then Some v else None))"

lemma go_parse_int_ok: "go_parse_int s = Some v \<Longrightarrow> int64_ok v"
  by (auto simp: go_parse_int_def Let_def split: if_splits)

text \<open>\<^verbatim>\<open>strconv.Itoa\<close>.\<close>

fun nat_digits :: "nat \<Rightarrow> string" where
  "nat_digits n = (if n < 10 then [char_of (n + 48)] else nat_digits (n div 10) @ [char_of (n mod 10 + 48)])"

declare nat_digits.simps [simp del]

definition go_itoa :: "int \<Rightarrow> string" where
  "go_itoa i = (if i < 0 then CHR ''-'' # nat_digits (nat (- i)) else nat_digits (nat i))"

lemma nat_digits_nonempty [simp]: "nat_digits n \<noteq> []"
  by (subst nat_digits.simps) simp

lemma of_char_digit: "n < 10 \<Longrightarrow> (of_char (char_of (n + 48 :: nat) :: char) :: nat) = n + 48"
  by simp

lemma is_digit_char [simp]: "n < 10 \<Longrightarrow> is_digit (char_of (n + 48 :: nat))"
  by (simp add: is_digit_def)

lemma digit_val_char [simp]: "n < 10 \<Longrightarrow> digit_val (char_of (n + 48 :: nat)) = int n"
proof -
  assume n: "n < 10"
  have "(of_char (char_of (n + 48 :: nat) :: char) :: int)
      = int (of_char (char_of (n + 48 :: nat) :: char))"
    by (simp only: of_nat_of_char)
  also have "\<dots> = int (n + 48)" using n by (simp only: of_char_digit)
  finally show ?thesis by (simp add: digit_val_def)
qed

lemma nat_digits_all: "list_all is_digit (nat_digits n)"
proof (induction n rule: nat_digits.induct)
  case (1 n)
  then show ?case by (cases "n < 10") (subst nat_digits.simps, simp)+
qed

lemma digits_val_snoc: "digits_val (s @ [c]) = 10 * digits_val s + digit_val c"
  by (simp add: digits_val_def)

lemma digits_val_nat_digits: "digits_val (nat_digits n) = int n"
proof (induction n rule: nat_digits.induct)
  case (1 n)
  show ?case
  proof (cases "n < 10")
    case True
    then show ?thesis by (subst nat_digits.simps) (simp add: digits_val_def)
  next
    case False
    with 1 have "digits_val (nat_digits (n div 10)) = int (n div 10)" by simp
    with False show ?thesis
      by (subst nat_digits.simps) (simp add: digits_val_snoc, arith)
  qed
qed

lemma go_parse_itoa: "int64_ok i \<Longrightarrow> go_parse_int (go_itoa i) = Some i"
proof -
  assume ok: "int64_ok i"
  have notsign: "is_digit (hd (nat_digits n))" for n
    using nat_digits_all [of n] nat_digits_nonempty [of n]
    by (cases "nat_digits n") auto
  have "hd (nat_digits n) \<noteq> CHR ''-''" "hd (nat_digits n) \<noteq> CHR ''+''" for n
    using notsign [of n] by (auto simp: is_digit_def)
  then show ?thesis
    using ok by (simp add: go_parse_int_def go_itoa_def nat_digits_all digits_val_nat_digits Let_def)
qed

lemma go_itoa_inj: "int64_ok i \<Longrightarrow> int64_ok j \<Longrightarrow> go_itoa i = go_itoa j \<longleftrightarrow> i = j"
  by (metis go_parse_itoa option.inject)

end
