(* ===== verification/Circuit_Breaker.thy ===== *)
theory Circuit_Breaker
  imports Go_Base
begin

text \<open>
  The per-channel circuit breakers of \<^verbatim>\<open>internal/pkg/resilience/circuitbreaker.go\<close>: the
  three-state machine of one breaker, the registry that holds one breaker per channel,
  the contract the relay loop relies on (locale \<open>request_gate\<close>) and its interpretation on
  the registry. Times are nanoseconds; \<^verbatim>\<open>time.Now()\<close> is an argument of every operation that
  reads the clock. The locks make every operation atomic, so an execution is a sequence of
  operations.
\<close>

section \<open>One breaker\<close>

datatype cb_state = StateClosed | StateOpen | StateHalfOpen

fun cb_state_String :: "cb_state \<Rightarrow> string" where
  "cb_state_String StateClosed = ''closed''"
| "cb_state_String StateOpen = ''open''"
| "cb_state_String StateHalfOpen = ''half_open''"

record cb_config =
  cfg_Threshold :: int
  cfg_Timeout :: int
  cfg_OnStateChange :: bool  \<comment> \<open>whether a callback is installed\<close>

definition cb_DefaultConfig :: "(string \<Rightarrow> string) \<Rightarrow> cb_config" where
  "cb_DefaultConfig getenv =
     (let threshold =
            (let v = getenv ''CB_THRESHOLD'' in
             if v \<noteq> [] then (case go_parse_int v of
                 Some n \<Rightarrow> if 0 < n then n else 5
               | None \<Rightarrow> 5) else 5);
          timeout =
            (let v = getenv ''CB_TIMEOUT_SEC'' in
             if v \<noteq> [] then (case go_parse_int v of
                 Some n \<Rightarrow> if 0 < n then wrap64 (n * 1000000000) else 30 * 1000000000
               | None \<Rightarrow> 30 * 1000000000) else 30 * 1000000000)
      in \<lparr>cfg_Threshold = threshold, cfg_Timeout = timeout, cfg_OnStateChange = False\<rparr>)"

record breaker =
  cb_state :: cb_state
  consecutiveFails :: int
  lastFailTime :: int
  cb_threshold :: int
  cb_timeout :: int

definition cb_allow :: "int \<Rightarrow> breaker \<Rightarrow> bool \<times> breaker" where
  "cb_allow now b =
     (case cb_state b of
        StateClosed \<Rightarrow> (True, b)
      | StateOpen \<Rightarrow>
          if cb_timeout b \<le> now - lastFailTime b
          then (True, b\<lparr>cb_state := StateHalfOpen\<rparr>)
          else (False, b)
      | StateHalfOpen \<Rightarrow> (False, b))"

definition cb_recordSuccess :: "breaker \<Rightarrow> (cb_state \<times> cb_state) \<times> breaker" where
  "cb_recordSuccess b =
     ((cb_state b, StateClosed), b\<lparr>consecutiveFails := 0, cb_state := StateClosed\<rparr>)"

definition cb_recordFailure :: "int \<Rightarrow> breaker \<Rightarrow> (cb_state \<times> cb_state) \<times> breaker" where
  "cb_recordFailure now b =
     (let prev = cb_state b;
          b1 = b\<lparr>consecutiveFails := consecutiveFails b + 1, lastFailTime := now\<rparr>;
          b2 = (case prev of
                  StateClosed \<Rightarrow>
                    if cb_threshold b1 \<le> consecutiveFails b1 then b1\<lparr>cb_state := StateOpen\<rparr> else b1
                | StateHalfOpen \<Rightarrow> b1\<lparr>cb_state := StateOpen\<rparr>
                | StateOpen \<Rightarrow> b1)
      in ((prev, cb_state b2), b2))"

definition cb_new :: "cb_config \<Rightarrow> breaker" where
  "cb_new cfg = \<lparr>cb_state = StateClosed, consecutiveFails = 0, lastFailTime = 0,
     cb_threshold = cfg_Threshold cfg, cb_timeout = cfg_Timeout cfg\<rparr>"

section \<open>The registry\<close>

record cb_registry =
  cb_breakers :: "(int, breaker) gomap"
  cb_cfg :: cb_config

definition cb_NewRegistry :: "cb_config \<Rightarrow> cb_registry" where
  "cb_NewRegistry cfg = \<lparr>cb_breakers = [], cb_cfg = cfg\<rparr>"

definition cb_getOrCreate :: "cb_registry \<Rightarrow> int \<Rightarrow> breaker \<times> cb_registry" where
  "cb_getOrCreate r channelID =
     (case gm_get (cb_breakers r) channelID of
        Some b \<Rightarrow> (b, r)
      | None \<Rightarrow> (let b = cb_new (cb_cfg r)
                 in (b, r\<lparr>cb_breakers := gm_put (cb_breakers r) channelID b\<rparr>)))"

definition cb_put :: "cb_registry \<Rightarrow> int \<Rightarrow> breaker \<Rightarrow> cb_registry" where
  "cb_put r channelID b = r\<lparr>cb_breakers := gm_put (cb_breakers r) channelID b\<rparr>"

definition cb_Allow :: "cb_registry \<Rightarrow> int \<Rightarrow> int \<Rightarrow> bool \<times> cb_registry" where
  "cb_Allow r now channelID =
     (let (b, r1) = cb_getOrCreate r channelID;
          (ok, b') = cb_allow now b
      in (ok, cb_put r1 channelID b'))"

text \<open>Calls of the callback, in order: channel, previous and new state.\<close>

type_synonym cb_event = "int \<times> cb_state \<times> cb_state"

definition cb_notify :: "cb_registry \<Rightarrow> int \<Rightarrow> cb_state \<times> cb_state \<Rightarrow> cb_event list" where
  "cb_notify r channelID pc =
     (if fst pc \<noteq> snd pc \<and> cfg_OnStateChange (cb_cfg r) then [(channelID, fst pc, snd pc)] else [])"

definition cb_RecordSuccess :: "cb_registry \<Rightarrow> int \<Rightarrow> cb_event list \<times> cb_registry" where
  "cb_RecordSuccess r channelID =
     (let (b, r1) = cb_getOrCreate r channelID;
          (pc, b') = cb_recordSuccess b
      in (cb_notify r channelID pc, cb_put r1 channelID b'))"

definition cb_RecordFailure :: "cb_registry \<Rightarrow> int \<Rightarrow> int \<Rightarrow> cb_event list \<times> cb_registry" where
  "cb_RecordFailure r now channelID =
     (let (b, r1) = cb_getOrCreate r channelID;
          (pc, b') = cb_recordFailure now b
      in (cb_notify r channelID pc, cb_put r1 channelID b'))"

definition cb_GetState :: "cb_registry \<Rightarrow> int \<Rightarrow> cb_state \<times> cb_registry" where
  "cb_GetState r channelID =
     (let (b, r1) = cb_getOrCreate r channelID in (cb_state b, r1))"

definition cb_Cleanup :: "cb_registry \<Rightarrow> int list \<Rightarrow> cb_registry" where
  "cb_Cleanup r active =
     r\<lparr>cb_breakers := fold (\<lambda>id m. if id \<in> set active then m else gm_del m id)
         (gm_keys (cb_breakers r)) (cb_breakers r)\<rparr>"

lemmas cb_op_defs = cb_allow_def cb_recordSuccess_def cb_recordFailure_def cb_new_def

section \<open>Runs of one breaker\<close>

datatype cb_op = OpAllow int | OpSuccess | OpFailure int

fun cb_step :: "breaker \<Rightarrow> cb_op \<Rightarrow> breaker" where
  "cb_step b (OpAllow now) = snd (cb_allow now b)"
| "cb_step b OpSuccess = snd (cb_recordSuccess b)"
| "cb_step b (OpFailure now) = snd (cb_recordFailure now b)"

fun cb_run :: "breaker \<Rightarrow> cb_op list \<Rightarrow> breaker" where
  "cb_run b [] = b"
| "cb_run b (x # xs) = cb_run (cb_step b x) xs"

text \<open>The failures recorded since the last recorded success: what the counter should hold.\<close>

fun failures_since_success :: "cb_op list \<Rightarrow> int" where
  "failures_since_success [] = 0"
| "failures_since_success (OpAllow _ # xs) = failures_since_success xs"
| "failures_since_success (OpFailure _ # xs) = failures_since_success xs + 1"
| "failures_since_success (OpSuccess # xs) = 0"

text \<open>The latest failure time of a history (newest operation first).\<close>

fun last_failure :: "cb_op list \<Rightarrow> int option" where
  "last_failure [] = None"
| "last_failure (OpFailure t # xs) = Some t"
| "last_failure (_ # xs) = last_failure xs"

definition cb_tracks :: "int \<Rightarrow> cb_op list \<Rightarrow> breaker \<Rightarrow> bool" where
  "cb_tracks th h b \<longleftrightarrow> cb_threshold b = th \<and>
     consecutiveFails b = failures_since_success h \<and>
     (cb_state b = StateClosed \<longleftrightarrow> failures_since_success h < max 1 th) \<and>
     (cb_state b \<noteq> StateClosed \<longrightarrow> last_failure h = Some (lastFailTime b))"

lemma failures_nonneg: "0 \<le> failures_since_success h"
  by (induction h rule: failures_since_success.induct) auto

lemma cb_run_append: "cb_run b (xs @ ys) = cb_run (cb_run b xs) ys"
  by (induction xs arbitrary: b) auto

lemma cb_tracks_new: "cb_tracks (cfg_Threshold cfg) [] (cb_new cfg)"
  by (simp add: cb_tracks_def cb_new_def)

lemma cb_tracks_step: "cb_tracks th h b \<Longrightarrow> cb_tracks th (x # h) (cb_step b x)"
  using failures_nonneg [of h]
  by (cases x; cases "cb_state b")
     (auto simp: cb_tracks_def cb_op_defs Let_def max_def split: if_splits)

lemma cb_tracks_run: "cb_tracks th h b \<Longrightarrow> cb_tracks th (rev xs @ h) (cb_run b xs)"
proof (induction xs arbitrary: h b)
  case Nil
  then show ?case by simp
next
  case (Cons x xs)
  from Cons.IH [OF cb_tracks_step [OF Cons.prems]] show ?case by simp
qed

text \<open>
  C18. After any sequence of operations on a fresh breaker (admissions, successes and
  failures in any order, at any times) the breaker is closed exactly when fewer than
  \<^verbatim>\<open>Threshold\<close> failures (at least one) have been recorded since the last success, and the
  counter holds that number.
\<close>

theorem cb_closed_iff_few_failures:
  "consecutiveFails (cb_run (cb_new cfg) xs) = failures_since_success (rev xs) \<and>
   (cb_state (cb_run (cb_new cfg) xs) = StateClosed \<longleftrightarrow>
      failures_since_success (rev xs) < max 1 (cfg_Threshold cfg))"
  using cb_tracks_run [OF cb_tracks_new, of cfg xs] by (simp add: cb_tracks_def)

text \<open>
  The converse direction of the machine: an admission by a breaker that is not closed is
  the probe of the half-open state, a full timeout after the last failure, and while no
  outcome is recorded no other request is admitted.
\<close>

fun is_allow :: "cb_op \<Rightarrow> bool" where
  "is_allow (OpAllow _) = True"
| "is_allow _ = False"

lemma cb_half_open_rejects: "cb_state b = StateHalfOpen \<Longrightarrow> cb_allow now b = (False, b)"
  by (simp add: cb_allow_def)

lemma cb_half_open_stays:
  "cb_state b = StateHalfOpen \<Longrightarrow> list_all is_allow xs \<Longrightarrow> cb_run b xs = b"
proof (induction xs)
  case (Cons x xs)
  then show ?case by (cases x) (auto simp: cb_half_open_rejects)
qed simp

text \<open>
  C19. Admission while tripped. If a breaker reached from a fresh one by any history is not
  closed and admits a request at time \<open>now\<close>, then \<open>now\<close> is at least the timeout after the
  latest recorded failure, and whatever admissions are asked for afterwards are refused
  until an outcome is recorded: at most one probe is in flight.
\<close>

theorem cb_single_probe_after_timeout:
  assumes "cb_state (cb_run (cb_new cfg) xs) \<noteq> StateClosed"
    and "fst (cb_allow now (cb_run (cb_new cfg) xs))"
    and "list_all is_allow ys"
  shows "(\<exists>t. last_failure (rev xs) = Some t \<and> cfg_Timeout cfg \<le> now - t) \<and>
     \<not> fst (cb_allow later (cb_run (cb_new cfg) (xs @ OpAllow now # ys)))"
proof -
  let ?b = "cb_run (cb_new cfg) xs"
  have timeout: "cb_timeout (cb_run b zs) = cb_timeout b" for b zs
  proof (induction zs arbitrary: b)
    case (Cons z zs)
    have "cb_timeout (cb_step b z) = cb_timeout b"
      by (cases z; cases "cb_state b") (auto simp: cb_op_defs Let_def)
    then show ?case using Cons by simp
  qed simp
  have last: "last_failure (rev xs) = Some (lastFailTime ?b)"
    using cb_tracks_run [OF cb_tracks_new, of cfg xs] assms(1) by (simp add: cb_tracks_def)
  have "cb_timeout ?b \<le> now - lastFailTime ?b \<and> cb_state (cb_step ?b (OpAllow now)) = StateHalfOpen"
    using assms(1,2) by (cases "cb_state ?b") (auto simp: cb_allow_def split: if_splits)
  moreover have "cb_timeout ?b = cfg_Timeout cfg"
    using timeout [of "cb_new cfg" xs] by (simp add: cb_new_def)
  ultimately show ?thesis
    using last assms(3) by (auto simp: cb_run_append cb_half_open_stays cb_half_open_rejects)
qed

theorem cb_single_probe_witness:
  "(\<exists>t. last_failure [OpFailure 100, OpFailure 50] = Some t \<and> 30 \<le> 140 - t) \<and>
   \<not> fst (cb_allow 9999
      (cb_run (cb_new \<lparr>cfg_Threshold = 2, cfg_Timeout = 30, cfg_OnStateChange = False\<rparr>)
        ([OpFailure 50, OpFailure 100] @ OpAllow 140 # [OpAllow 500])))"
  using cb_single_probe_after_timeout
    [of "\<lparr>cfg_Threshold = 2, cfg_Timeout = 30, cfg_OnStateChange = False\<rparr>"
        "[OpFailure 50, OpFailure 100]" 140 "[OpAllow 500]" 9999]
  by (simp add: cb_op_defs Let_def)

section \<open>The contract of a request gate\<close>

text \<open>
  What the relay loop needs of its breakers, for any implementation with a state \<open>'g\<close>:
  a closed gate admits and stays closed, a recorded success closes it, the gates of other
  channels are untouched.
\<close>

locale request_gate =
  fixes closed :: "'g \<Rightarrow> int \<Rightarrow> bool"
    and allow :: "'g \<Rightarrow> int \<Rightarrow> int \<Rightarrow> bool \<times> 'g"
    and success :: "'g \<Rightarrow> int \<Rightarrow> 'g"
    and failure :: "'g \<Rightarrow> int \<Rightarrow> int \<Rightarrow> 'g"
  assumes allow_closed: "closed g c \<Longrightarrow> fst (allow g t c)"
    and closed_allow: "closed (snd (allow g t c)) c' \<longleftrightarrow> closed g c'"
    and closed_success: "closed (success g c) c' \<longleftrightarrow> c' = c \<or> closed g c'"
    and failure_other: "c' \<noteq> c \<Longrightarrow> closed (failure g t c) c' \<longleftrightarrow> closed g c'"
    and failure_tripped: "\<not> closed g c \<Longrightarrow> \<not> closed (failure g t c) c"
begin

lemma success_then_admitted: "fst (allow (success g c) t c)"
  by (rule allow_closed) (simp add: closed_success)

lemma failures_elsewhere:
  "closed g c \<Longrightarrow> c \<notin> set cs \<Longrightarrow> closed (fold (\<lambda>d g. failure g t d) cs g) c"
  by (induction cs arbitrary: g) (auto simp: failure_other)

lemma admitted_after_failures_elsewhere:
  "closed g c \<Longrightarrow> c \<notin> set cs \<Longrightarrow> fst (allow (fold (\<lambda>d g. failure g t d) cs g) t' c)"
  by (intro allow_closed failures_elsewhere)

end

definition cb_is_closed :: "cb_registry \<Rightarrow> int \<Rightarrow> bool" where
  "cb_is_closed r c \<longleftrightarrow> cb_state (fst (cb_getOrCreate r c)) = StateClosed"

definition cb_lookup :: "cb_registry \<Rightarrow> int \<Rightarrow> breaker" where
  "cb_lookup r c = fst (cb_getOrCreate r c)"

lemma cb_lookup_getOrCreate [simp]: "cb_lookup (snd (cb_getOrCreate r c)) d = cb_lookup r d"
  by (auto simp: cb_lookup_def cb_getOrCreate_def Let_def split: option.splits)

lemma cb_lookup_put [simp]:
  "cb_lookup (cb_put r c b) d = (if d = c then b else cb_lookup r d)"
  by (auto simp: cb_lookup_def cb_put_def cb_getOrCreate_def Let_def split: option.splits)

lemma cb_lookup_Allow:
  "cb_lookup (snd (cb_Allow r t c)) d = (if d = c then snd (cb_allow t (cb_lookup r c)) else cb_lookup r d)"
  using cb_lookup_getOrCreate [of r c d]
  by (auto simp: cb_Allow_def Let_def split_beta cb_lookup_def [of r c])

lemma cb_lookup_RecordSuccess:
  "cb_lookup (snd (cb_RecordSuccess r c)) d =
     (if d = c then snd (cb_recordSuccess (cb_lookup r c)) else cb_lookup r d)"
  using cb_lookup_getOrCreate [of r c d]
  by (auto simp: cb_RecordSuccess_def Let_def split_beta cb_lookup_def [of r c])

lemma cb_lookup_RecordFailure:
  "cb_lookup (snd (cb_RecordFailure r t c)) d =
     (if d = c then snd (cb_recordFailure t (cb_lookup r c)) else cb_lookup r d)"
  using cb_lookup_getOrCreate [of r c d]
  by (auto simp: cb_RecordFailure_def Let_def split_beta cb_lookup_def [of r c])

lemma cb_Allow_fst: "fst (cb_Allow r t c) = fst (cb_allow t (cb_lookup r c))"
  by (simp add: cb_Allow_def Let_def split_beta cb_lookup_def)

lemma cb_lookup_fresh: "cb_lookup (cb_NewRegistry cfg) c = cb_new cfg"
  by (simp add: cb_lookup_def cb_NewRegistry_def cb_getOrCreate_def Let_def)

lemma cb_is_closed_lookup: "cb_is_closed r c \<longleftrightarrow> cb_state (cb_lookup r c) = StateClosed"
  by (simp add: cb_is_closed_def cb_lookup_def)

lemmas cb_registry_simps = cb_lookup_Allow cb_lookup_RecordSuccess cb_lookup_RecordFailure
  cb_Allow_fst cb_is_closed_lookup

interpretation cbgate: request_gate cb_is_closed cb_Allow "\<lambda>r c. snd (cb_RecordSuccess r c)"
  "\<lambda>r t c. snd (cb_RecordFailure r t c)"
proof unfold_locales
  fix g c t c'
  show "cb_is_closed (snd (cb_Allow g t c)) c' = cb_is_closed g c'"
    by (auto simp: cb_registry_simps cb_allow_def split: cb_state.splits)
qed (auto simp: cb_registry_simps cb_op_defs Let_def split: cb_state.splits)

section \<open>Properties of the registry\<close>

text \<open>
  Channels are isolated: whatever happens on one channel, the breaker of every other
  channel keeps its state, counters and times; the callback is called for the channel
  operated on only, and only on a change of state.
\<close>

theorem cb_registry_isolated:
  assumes "d \<noteq> c"
  shows "cb_lookup (snd (cb_Allow r t c)) d = cb_lookup r d \<and>
     cb_lookup (snd (cb_RecordSuccess r c)) d = cb_lookup r d \<and>
     cb_lookup (snd (cb_RecordFailure r t c)) d = cb_lookup r d \<and>
     (\<forall>ev \<in> set (fst (cb_RecordSuccess r c)) \<union> set (fst (cb_RecordFailure r t c)).
        fst ev = c \<and> fst (snd ev) \<noteq> snd (snd ev))"
  using assms
  by (auto simp: cb_registry_simps cb_RecordSuccess_def cb_RecordFailure_def cb_notify_def Let_def
      split_beta split: if_splits)

theorem cb_registry_isolated_witness:
  "cb_lookup (snd (cb_RecordFailure
      (cb_NewRegistry \<lparr>cfg_Threshold = 1, cfg_Timeout = 30, cfg_OnStateChange = True\<rparr>) 0 7)) 8
   = cb_new \<lparr>cfg_Threshold = 1, cfg_Timeout = 30, cfg_OnStateChange = True\<rparr>"
  using cb_registry_isolated [of 8 7
      "cb_NewRegistry \<lparr>cfg_Threshold = 1, cfg_Timeout = 30, cfg_OnStateChange = True\<rparr>" 0]
  by (simp add: cb_lookup_fresh)

lemma cb_Cleanup_get:
  "gm_get (cb_breakers (cb_Cleanup r active)) c =
     (if c \<in> set active then gm_get (cb_breakers r) c else None)"
proof -
  have "gm_get (fold (\<lambda>id m. if id \<in> set active then m else gm_del m id) ks m) c =
      (if c \<in> set ks \<and> c \<notin> set active then None else gm_get m c)" for ks m
    by (induction ks arbitrary: m) auto
  note fold_get = this [of "gm_keys (cb_breakers r)" "cb_breakers r"]
  show ?thesis by (auto simp: cb_Cleanup_def fold_get gm_keys_iff)
qed

lemma cb_probe_without_outcome_stuck:
  assumes "cb_state b = StateHalfOpen"
  shows "\<not> fst (cb_allow now (cb_run b (map OpAllow ts)))"
  using assms cb_half_open_stays [of b "map OpAllow ts"]
  by (simp add: cb_half_open_rejects list_all_iff)

end
