(* ===== verification/Api_Error.thy ===== *)
theory Api_Error
  imports Go_Base
begin

text \<open>
  The error values of the gateway (\<^verbatim>\<open>internal/pkg/types/error.go\<close>): error codes, the
  \<^verbatim>\<open>NewAPIError\<close> record with its constructors, options and renderings, and the decisions taken on
  them: whether a failed channel is disabled or re-enabled (\<^verbatim>\<open>internal/app/channel.go\<close>), whether
  the relay retries (\<^verbatim>\<open>internal/adapter/handler/relay.go\<close>), how a status code is remapped
  (\<^verbatim>\<open>internal/app/error.go\<close>). The regex-based masking of secrets in messages and the
  Aho-Corasick keyword search are arguments of the definitions that use them.
\<close>

section \<open>Error codes\<close>

datatype error_code =
    ErrorCodeInvalidRequest | ErrorCodeSensitiveWordsDetected
  | ErrorCodeCountTokenFailed | ErrorCodeModelPriceError | ErrorCodeInvalidApiType
  | ErrorCodeJsonMarshalFailed | ErrorCodeDoRequestFailed | ErrorCodeGetChannelFailed
  | ErrorCodeGenRelayInfoFailed
  | ErrorCodeChannelNoAvailableKey | ErrorCodeChannelAllKeysCooling
  | ErrorCodeChannelParamOverrideInvalid | ErrorCodeChannelHeaderOverrideInvalid
  | ErrorCodeChannelModelMappedError | ErrorCodeChannelAwsClientError
  | ErrorCodeChannelInvalidKey | ErrorCodeChannelResponseTimeExceeded
  | ErrorCodeReadRequestBodyFailed | ErrorCodeConvertRequestFailed | ErrorCodeAccessDenied
  | ErrorCodeBadRequestBody
  | ErrorCodeReadResponseBodyFailed | ErrorCodeBadResponseStatusCode | ErrorCodeBadResponse
  | ErrorCodeBadResponseBody | ErrorCodeEmptyResponse | ErrorCodeAwsInvokeError
  | ErrorCodeModelNotFound | ErrorCodePromptBlocked
  | ErrorCodeQueryDataError | ErrorCodeUpdateDataError
  | ErrorCodeInsufficientUserQuota | ErrorCodePreConsumeTokenQuotaFailed
  | ErrorCodeOf string  \<comment> \<open>a conversion \<^verbatim>\<open>ErrorCode(s)\<close>\<close>

fun code_str :: "error_code \<Rightarrow> string" where
  "code_str ErrorCodeInvalidRequest = ''invalid_request''"
| "code_str ErrorCodeSensitiveWordsDetected = ''sensitive_words_detected''"
| "code_str ErrorCodeCountTokenFailed = ''count_token_failed''"
| "code_str ErrorCodeModelPriceError = ''model_price_error''"
| "code_str ErrorCodeInvalidApiType = ''invalid_api_type''"
| "code_str ErrorCodeJsonMarshalFailed = ''json_marshal_failed''"
| "code_str ErrorCodeDoRequestFailed = ''do_request_failed''"
| "code_str ErrorCodeGetChannelFailed = ''get_channel_failed''"
| "code_str ErrorCodeGenRelayInfoFailed = ''gen_relay_info_failed''"
| "code_str ErrorCodeChannelNoAvailableKey = ''channel:no_available_key''"
| "code_str ErrorCodeChannelAllKeysCooling = ''channel:all_keys_cooling''"
| "code_str ErrorCodeChannelParamOverrideInvalid = ''channel:param_override_invalid''"
| "code_str ErrorCodeChannelHeaderOverrideInvalid = ''channel:header_override_invalid''"
| "code_str ErrorCodeChannelModelMappedError = ''channel:model_mapped_error''"
| "code_str ErrorCodeChannelAwsClientError = ''channel:aws_client_error''"
| "code_str ErrorCodeChannelInvalidKey = ''channel:invalid_key''"
| "code_str ErrorCodeChannelResponseTimeExceeded = ''channel:response_time_exceeded''"
| "code_str ErrorCodeReadRequestBodyFailed = ''read_request_body_failed''"
| "code_str ErrorCodeConvertRequestFailed = ''convert_request_failed''"
| "code_str ErrorCodeAccessDenied = ''access_denied''"
| "code_str ErrorCodeBadRequestBody = ''bad_request_body''"
| "code_str ErrorCodeReadResponseBodyFailed = ''read_response_body_failed''"
| "code_str ErrorCodeBadResponseStatusCode = ''bad_response_status_code''"
| "code_str ErrorCodeBadResponse = ''bad_response''"
| "code_str ErrorCodeBadResponseBody = ''bad_response_body''"
| "code_str ErrorCodeEmptyResponse = ''empty_response''"
| "code_str ErrorCodeAwsInvokeError = ''aws_invoke_error''"
| "code_str ErrorCodeModelNotFound = ''model_not_found''"
| "code_str ErrorCodePromptBlocked = ''prompt_blocked''"
| "code_str ErrorCodeQueryDataError = ''query_data_error''"
| "code_str ErrorCodeUpdateDataError = ''update_data_error''"
| "code_str ErrorCodeInsufficientUserQuota = ''insufficient_user_quota''"
| "code_str ErrorCodePreConsumeTokenQuotaFailed = ''pre_consume_token_quota_failed''"
| "code_str (ErrorCodeOf s) = s"

datatype error_type =
    ErrorTypeNewAPIError | ErrorTypeOpenAIError | ErrorTypeClaudeError | ErrorTypeMidjourneyError
  | ErrorTypeGeminiError | ErrorTypeRerankError | ErrorTypeUpstreamError

fun type_str :: "error_type \<Rightarrow> string" where
  "type_str ErrorTypeNewAPIError = ''new_api_error''"
| "type_str ErrorTypeOpenAIError = ''openai_error''"
| "type_str ErrorTypeClaudeError = ''claude_error''"
| "type_str ErrorTypeMidjourneyError = ''midjourney_error''"
| "type_str ErrorTypeGeminiError = ''gemini_error''"
| "type_str ErrorTypeRerankError = ''rerank_error''"
| "type_str ErrorTypeUpstreamError = ''upstream_error''"

section \<open>Error values\<close>

text \<open>
  The \<^verbatim>\<open>Code any\<close> field: \<^verbatim>\<open>nil\<close>, a Go \<^verbatim>\<open>string\<close>, a value of the defined type \<^verbatim>\<open>ErrorCode\<close> (which a
  type assertion or a comparison with a string constant does not match), or another value with its
  \<^verbatim>\<open>%v\<close> rendering.
\<close>

datatype any_code = CodeNil | CodeString string | CodeErrorCode error_code | CodeOther string

fun code_sprint :: "any_code \<Rightarrow> string" where
  "code_sprint CodeNil = ''<nil>''"
| "code_sprint (CodeString s) = s"
| "code_sprint (CodeErrorCode c) = code_str c"
| "code_sprint (CodeOther s) = s"

record openai_error =
  oe_Message :: string
  oe_Type :: string
  oe_Param :: string
  oe_Code :: any_code
  oe_Metadata :: string

record claude_error =
  ce_Type :: string
  ce_Message :: string

datatype relay_error = RelNil | RelOpenAI openai_error | RelClaude claude_error

record new_api_error =
  ae_Err :: "string option"   \<comment> \<open>the message of the wrapped error; \<open>None\<close> for \<^verbatim>\<open>nil\<close>\<close>
  ae_RelayError :: relay_error
  ae_skipRetry :: bool
  ae_recordErrorLog :: "bool option"
  ae_errorType :: error_type
  ae_errorCode :: error_code
  ae_StatusCode :: int
  ae_Metadata :: string
  ae_UpstreamHeader :: "(string \<times> string) list option"
  ae_UpstreamBodyHint :: string
  ae_RetryAfterUnix :: int

text \<open>
  An \<^verbatim>\<open>error\<close> argument: \<^verbatim>\<open>nil\<close>, an error that is or wraps a \<^verbatim>\<open>NewAPIError\<close> (\<^verbatim>\<open>errors.As\<close> finds it), or
  any other error with its message.
\<close>

datatype go_error = ErrNil | ErrPlain string | ErrApi new_api_error

type_synonym err_option = "new_api_error \<Rightarrow> new_api_error"

fun GetErrorCode :: "new_api_error option \<Rightarrow> string" where
  "GetErrorCode None = []"
| "GetErrorCode (Some e) = code_str (ae_errorCode e)"

fun GetErrorType :: "new_api_error option \<Rightarrow> string" where
  "GetErrorType None = []"
| "GetErrorType (Some e) = type_str (ae_errorType e)"

definition api_Error :: "new_api_error \<Rightarrow> string" where
  "api_Error e = (case ae_Err e of None \<Rightarrow> code_str (ae_errorCode e) | Some m \<Rightarrow> m)"

definition MaskSensitiveError :: "(string \<Rightarrow> string) \<Rightarrow> new_api_error \<Rightarrow> string" where
  "MaskSensitiveError msk e =
     (case ae_Err e of None \<Rightarrow> code_str (ae_errorCode e)
      | Some errStr \<Rightarrow> if code_str (ae_errorCode e) = code_str ErrorCodeCountTokenFailed then errStr else msk errStr)"

definition SetMessage :: "string \<Rightarrow> new_api_error \<Rightarrow> new_api_error" where
  "SetMessage message e = e\<lparr>ae_Err := Some message\<rparr>"

definition oe_empty :: openai_error where
  "oe_empty = \<lparr>oe_Message = [], oe_Type = [], oe_Param = [], oe_Code = CodeNil, oe_Metadata = []\<rparr>"

definition ToOpenAIError :: "(string \<Rightarrow> string) \<Rightarrow> new_api_error \<Rightarrow> openai_error" where
  "ToOpenAIError msk e =
     (let result =
        (case ae_errorType e of
           ErrorTypeOpenAIError \<Rightarrow> (case ae_RelayError e of RelOpenAI o' \<Rightarrow> o' | _ \<Rightarrow> oe_empty)
         | ErrorTypeClaudeError \<Rightarrow>
             (case ae_RelayError e of
                RelClaude c \<Rightarrow> oe_empty\<lparr>oe_Message := api_Error e, oe_Type := ce_Type c,
                                  oe_Code := CodeErrorCode (ae_errorCode e)\<rparr>
              | _ \<Rightarrow> oe_empty)
         | _ \<Rightarrow> oe_empty\<lparr>oe_Message := api_Error e, oe_Type := type_str (ae_errorType e),
                  oe_Code := CodeErrorCode (ae_errorCode e)\<rparr>);
        r1 = (if code_str (ae_errorCode e) \<noteq> code_str ErrorCodeCountTokenFailed
              then result\<lparr>oe_Message := msk (oe_Message result)\<rparr> else result)
      in if oe_Message r1 = [] then r1\<lparr>oe_Message := type_str (ae_errorType e)\<rparr> else r1)"

definition ToClaudeError :: "(string \<Rightarrow> string) \<Rightarrow> new_api_error \<Rightarrow> claude_error" where
  "ToClaudeError msk e =
     (let none = \<lparr>ce_Type = [], ce_Message = []\<rparr>;
        result =
        (case ae_errorType e of
           ErrorTypeOpenAIError \<Rightarrow>
             (case ae_RelayError e of
                RelOpenAI o' \<Rightarrow> \<lparr>ce_Type = code_sprint (oe_Code o'), ce_Message = api_Error e\<rparr>
              | _ \<Rightarrow> none)
         | ErrorTypeClaudeError \<Rightarrow> (case ae_RelayError e of RelClaude c \<Rightarrow> c | _ \<Rightarrow> none)
         | _ \<Rightarrow> \<lparr>ce_Type = type_str (ae_errorType e), ce_Message = api_Error e\<rparr>);
        r1 = (if code_str (ae_errorCode e) \<noteq> code_str ErrorCodeCountTokenFailed
              then result\<lparr>ce_Message := msk (ce_Message result)\<rparr> else result)
      in if ce_Message r1 = [] then r1\<lparr>ce_Message := type_str (ae_errorType e)\<rparr> else r1)"

section \<open>Constructors and options\<close>

definition apply_ops :: "err_option list \<Rightarrow> new_api_error \<Rightarrow> new_api_error" where
  "apply_ops ops e = foldl (\<lambda>e f. f e) e ops"

definition ae_zero :: new_api_error where
  "ae_zero = \<lparr>ae_Err = None, ae_RelayError = RelNil, ae_skipRetry = False, ae_recordErrorLog = None,
     ae_errorType = ErrorTypeNewAPIError, ae_errorCode = ErrorCodeOf [], ae_StatusCode = 0,
     ae_Metadata = [], ae_UpstreamHeader = None, ae_UpstreamBodyHint = [], ae_RetryAfterUnix = 0\<rparr>"

definition NewError :: "go_error \<Rightarrow> error_code \<Rightarrow> err_option list \<Rightarrow> new_api_error" where
  "NewError err errorCode ops =
     (case err of
        ErrApi newErr \<Rightarrow> apply_ops ops newErr
      | ErrNil \<Rightarrow> apply_ops ops (ae_zero\<lparr>ae_StatusCode := 500, ae_errorCode := errorCode\<rparr>)
      | ErrPlain m \<Rightarrow> apply_ops ops
          (ae_zero\<lparr>ae_Err := Some m, ae_StatusCode := 500, ae_errorCode := errorCode\<rparr>))"

definition WithOpenAIError :: "openai_error \<Rightarrow> int \<Rightarrow> err_option list \<Rightarrow> new_api_error" where
  "WithOpenAIError oe statusCode ops =
     (let code = (case oe_Code oe of
            CodeString s \<Rightarrow> s
          | CodeNil \<Rightarrow> ''unknown_error''
          | c \<Rightarrow> code_sprint c);
        oe1 = (if oe_Type oe = [] then oe\<lparr>oe_Type := ''upstream_error''\<rparr> else oe);
        e = ae_zero\<lparr>ae_RelayError := RelOpenAI oe1, ae_errorType := ErrorTypeOpenAIError,
              ae_StatusCode := statusCode, ae_Err := Some (oe_Message oe1),
              ae_errorCode := ErrorCodeOf code\<rparr>;
        e1 = (if oe_Metadata oe1 \<noteq> [] then
                (let oe2 = oe1\<lparr>oe_Message := oe_Message oe1 @ '' ('' @ oe_Metadata oe1 @ '')''\<rparr>
                 in e\<lparr>ae_Metadata := oe_Metadata oe1, ae_RelayError := RelOpenAI oe2,
                      ae_Err := Some (oe_Message oe2)\<rparr>)
              else e)
      in apply_ops ops e1)"

definition NewOpenAIError :: "go_error \<Rightarrow> error_code \<Rightarrow> int \<Rightarrow> err_option list \<Rightarrow> new_api_error option" where
  "NewOpenAIError err errorCode statusCode ops =
     (case err of
        ErrApi newErr \<Rightarrow>
          (let e = (if ae_RelayError newErr = RelNil
                    then newErr\<lparr>ae_RelayError := RelOpenAI (oe_empty\<lparr>oe_Message := api_Error newErr,
                           oe_Type := code_str errorCode, oe_Code := CodeErrorCode errorCode\<rparr>)\<rparr>
                    else newErr)
           in Some (apply_ops ops e))
      | ErrPlain m \<Rightarrow> Some (WithOpenAIError (oe_empty\<lparr>oe_Message := m, oe_Type := code_str errorCode,
                         oe_Code := CodeErrorCode errorCode\<rparr>) statusCode ops)
      | ErrNil \<Rightarrow> None)"  \<comment> \<open>\<^verbatim>\<open>err.Error()\<close> on nil panics\<close>

definition InitOpenAIError :: "error_code \<Rightarrow> int \<Rightarrow> err_option list \<Rightarrow> new_api_error" where
  "InitOpenAIError errorCode statusCode ops =
     WithOpenAIError (oe_empty\<lparr>oe_Type := code_str errorCode, oe_Code := CodeErrorCode errorCode\<rparr>) statusCode ops"

definition NewErrorWithStatusCode :: "string \<Rightarrow> error_code \<Rightarrow> int \<Rightarrow> err_option list \<Rightarrow> new_api_error" where
  "NewErrorWithStatusCode m errorCode statusCode ops =
     apply_ops ops (ae_zero\<lparr>ae_Err := Some m,
        ae_RelayError := RelOpenAI (oe_empty\<lparr>oe_Message := m, oe_Type := code_str errorCode\<rparr>),
        ae_errorType := ErrorTypeNewAPIError, ae_StatusCode := statusCode, ae_errorCode := errorCode\<rparr>)"

definition WithClaudeError :: "claude_error \<Rightarrow> int \<Rightarrow> err_option list \<Rightarrow> new_api_error" where
  "WithClaudeError ce statusCode ops =
     (let ce1 = (if ce_Type ce = [] then ce\<lparr>ce_Type := ''upstream_error''\<rparr> else ce)
      in apply_ops ops (ae_zero\<lparr>ae_RelayError := RelClaude ce1, ae_errorType := ErrorTypeClaudeError,
           ae_StatusCode := statusCode, ae_Err := Some (ce_Message ce1),
           ae_errorCode := ErrorCodeOf (ce_Type ce1)\<rparr>))"

definition IsChannelError :: "new_api_error option \<Rightarrow> bool" where
  "IsChannelError err = (case err of None \<Rightarrow> False
     | Some e \<Rightarrow> go_has_prefix (code_str (ae_errorCode e)) ''channel:'')"

definition IsSkipRetryError :: "new_api_error option \<Rightarrow> bool" where
  "IsSkipRetryError err = (case err of None \<Rightarrow> False | Some e \<Rightarrow> ae_skipRetry e)"

definition ErrOptionWithSkipRetry :: err_option where
  "ErrOptionWithSkipRetry e = e\<lparr>ae_skipRetry := True\<rparr>"

definition ErrOptionWithNoRecordErrorLog :: err_option where
  "ErrOptionWithNoRecordErrorLog e = e\<lparr>ae_recordErrorLog := Some False\<rparr>"

definition ErrOptionWithHideErrMsg :: "string \<Rightarrow> err_option" where
  "ErrOptionWithHideErrMsg replaceStr e = e\<lparr>ae_Err := Some replaceStr\<rparr>"

definition IsRecordErrorLog :: "new_api_error option \<Rightarrow> bool" where
  "IsRecordErrorLog err = (case err of None \<Rightarrow> False
     | Some e \<Rightarrow> (case ae_recordErrorLog e of None \<Rightarrow> True | Some b \<Rightarrow> b))"

section \<open>Decisions taken on errors\<close>

definition ChannelTypeGemini :: int where "ChannelTypeGemini = 24"

text \<open>
  \<open>auto_disable\<close> is the flag \<^verbatim>\<open>AutomaticDisableChannelEnabled\<close>, \<open>kw\<close> the keyword search over
  \<^verbatim>\<open>AutomaticDisableKeywords\<close> in a lower-cased message.
\<close>

definition ShouldDisableChannel ::
    "(string \<Rightarrow> string) \<Rightarrow> (string \<Rightarrow> bool) \<Rightarrow> bool \<Rightarrow> int \<Rightarrow> new_api_error option \<Rightarrow> bool" where
  "ShouldDisableChannel msk kw auto_disable channelType err =
     (if \<not> auto_disable then False
      else case err of None \<Rightarrow> False
      | Some e \<Rightarrow>
          if IsChannelError err then True
          else if IsSkipRetryError err then False
          else if ae_StatusCode e = 401 then True
          else if ae_StatusCode e = 403 \<and> channelType = ChannelTypeGemini then True
          else (let oai = ToOpenAIError msk e in
            if oe_Code oai \<in> {CodeString ''invalid_api_key'', CodeString ''account_deactivated'',
                 CodeString ''billing_not_active'', CodeString ''pre_consume_token_quota_failed'',
                 CodeString ''Arrearage''} then True
            else if oe_Type oai \<in> {''insufficient_quota'', ''insufficient_user_quota'',
                 ''authentication_error'', ''permission_error'', ''forbidden''} then True
            else kw (go_to_lower (api_Error e))))"

definition ShouldEnableChannel :: "bool \<Rightarrow> new_api_error option \<Rightarrow> int \<Rightarrow> bool" where
  "ShouldEnableChannel auto_enable newAPIError status =
     (if \<not> auto_enable then False
      else if newAPIError \<noteq> None then False
      else if status \<noteq> 3 then False
      else True)"

definition shouldRetry :: "bool \<Rightarrow> new_api_error option \<Rightarrow> int \<Rightarrow> bool" where
  "shouldRetry specific_channel openaiErr retryTimes =
     (case openaiErr of None \<Rightarrow> False
      | Some e \<Rightarrow>
          if IsChannelError openaiErr then True
          else if IsSkipRetryError openaiErr then False
          else if retryTimes \<le> 0 then False
          else if specific_channel then False
          else if ae_StatusCode e = 429 then True
          else if ae_StatusCode e = 307 then True
          else if go_quot (ae_StatusCode e) 100 = 5
               then \<not> (ae_StatusCode e = 504 \<or> ae_StatusCode e = 524)
          else if ae_StatusCode e = 400 then False
          else if ae_StatusCode e = 408 then False
          else if go_quot (ae_StatusCode e) 100 = 2 then False
          else True)"

record task_error =
  te_StatusCode :: int
  te_LocalError :: bool

definition shouldRetryTaskRelay :: "bool \<Rightarrow> task_error option \<Rightarrow> int \<Rightarrow> bool" where
  "shouldRetryTaskRelay specific_channel taskErr retryTimes =
     (case taskErr of None \<Rightarrow> False
      | Some e \<Rightarrow>
          if retryTimes \<le> 0 then False
          else if specific_channel then False
          else if te_StatusCode e = 429 then True
          else if te_StatusCode e = 307 then True
          else if go_quot (te_StatusCode e) 100 = 5
               then \<not> (te_StatusCode e = 504 \<or> te_StatusCode e = 524)
          else if te_StatusCode e = 400 then False
          else if te_StatusCode e = 408 then False
          else if te_LocalError e then False
          else if go_quot (te_StatusCode e) 100 = 2 then False
          else True)"

text \<open>
  \<^verbatim>\<open>ResetStatusCode\<close>; \<open>parse\<close> is the JSON decoder into a string map (\<open>None\<close>: not such an object).
  A mapped value that is no number becomes status 0, as \<^verbatim>\<open>Atoi\<close>'s error is dropped; a number
  outside the int64 range becomes the nearest bound, which is what \<^verbatim>\<open>Atoi\<close> returns with its error.
\<close>

definition atoi_value :: "string \<Rightarrow> int" where
  "atoi_value s =
     (let neg = (s \<noteq> [] \<and> hd s = CHR ''-'');
          ds = (if s \<noteq> [] \<and> (hd s = CHR ''-'' \<or> hd s = CHR ''+'') then tl s else s)
      in if ds = [] \<or> \<not> list_all is_digit ds then 0
         else if neg then max (- (2 ^ 63)) (- digits_val ds)
         else min (2 ^ 63 - 1) (digits_val ds))"

definition ResetStatusCode ::
    "(string \<Rightarrow> (string, string) gomap option) \<Rightarrow> string \<Rightarrow> new_api_error \<Rightarrow> new_api_error" where
  "ResetStatusCode parse mappingStr e =
     (if mappingStr = [] \<or> mappingStr = ''{}'' then e
      else case parse mappingStr of None \<Rightarrow> e
      | Some m \<Rightarrow>
          if ae_StatusCode e = 200 then e
          else (case gm_get m (go_itoa (ae_StatusCode e)) of
                  None \<Rightarrow> e
                | Some v \<Rightarrow> e\<lparr>ae_StatusCode := atoi_value v\<rparr>))"

lemmas err_op_defs = ErrOptionWithSkipRetry_def ErrOptionWithNoRecordErrorLog_def
  ErrOptionWithHideErrMsg_def apply_ops_def

section \<open>Properties\<close>

lemma IsChannelError_Some:
  "IsChannelError (Some e) \<longleftrightarrow> go_has_prefix (code_str (ae_errorCode e)) ''channel:''"
  by (simp add: IsChannelError_def)

lemma apply_ops_keeps_code:
  "list_all (\<lambda>f. \<forall>e. ae_errorCode (f e) = ae_errorCode e) ops \<Longrightarrow>
   ae_errorCode (apply_ops ops e) = ae_errorCode e"
  by (induction ops arbitrary: e) (auto simp: apply_ops_def)

text \<open>
  C30. The retry decision in full: the relay tries again exactly for channel errors (whatever
  the retries left), and otherwise only with retries left, no pinned channel, no skip mark, and
  a status that is neither 2xx, 400, 408, 504 nor 524.
\<close>

theorem shouldRetry_iff:
  assumes "0 \<le> ae_StatusCode e"
  shows "shouldRetry specific (Some e) n \<longleftrightarrow>
     IsChannelError (Some e) \<or>
     (\<not> ae_skipRetry e \<and> 0 < n \<and> \<not> specific \<and>
      \<not> (200 \<le> ae_StatusCode e \<and> ae_StatusCode e < 300) \<and>
      ae_StatusCode e \<notin> {400, 408, 504, 524})"
proof -
  have "go_quot (ae_StatusCode e) 100 = ae_StatusCode e div 100"
    using assms by (simp add: go_quot_nonneg)
  then show ?thesis by (auto simp: shouldRetry_def IsSkipRetryError_def)
qed

theorem shouldRetry_iff_witness:
  "shouldRetry False (Some (NewError (ErrPlain ''upstream'') ErrorCodeDoRequestFailed [])) 1 \<and>
   \<not> shouldRetry False (Some (NewError (ErrPlain ''upstream'') ErrorCodeDoRequestFailed [ErrOptionWithSkipRetry])) 1"
  using shouldRetry_iff [of "NewError (ErrPlain ''upstream'') ErrorCodeDoRequestFailed []" False 1]
    shouldRetry_iff [of "NewError (ErrPlain ''upstream'') ErrorCodeDoRequestFailed [ErrOptionWithSkipRetry]" False 1]
  by (simp add: NewError_def ae_zero_def IsChannelError_def go_has_prefix_def err_op_defs)

text \<open>
  The pre-consumption case of the disabling rule is dead for the gateway's own errors:
  the code of an error built here renders as a value of the defined type \<^verbatim>\<open>ErrorCode\<close>, which no
  string case of the \<^verbatim>\<open>switch\<close> matches, so without a channel code, a 401 or a Gemini 403 only
  the error type and the keyword search can disable a channel.
\<close>

theorem own_error_code_never_disables:
  assumes "ae_errorType e \<notin> {ErrorTypeOpenAIError, ErrorTypeClaudeError}"
    and "\<not> IsChannelError (Some e)" and "ae_StatusCode e \<notin> {401, 403}"
  shows "ShouldDisableChannel msk kw True t (Some e) \<longleftrightarrow>
     \<not> ae_skipRetry e \<and> kw (go_to_lower (api_Error e))"
proof -
  have "oe_Code (ToOpenAIError msk e) = CodeErrorCode (ae_errorCode e) \<and>
      oe_Type (ToOpenAIError msk e) = type_str (ae_errorType e)"
    using assms(1) by (cases "ae_errorType e") (simp_all add: ToOpenAIError_def oe_empty_def Let_def)
  moreover have "type_str (ae_errorType e) \<notin>
      {''insufficient_quota'', ''insufficient_user_quota'', ''authentication_error'', ''permission_error'', ''forbidden''}"
    by (cases "ae_errorType e") simp_all
  ultimately show ?thesis
    using assms(2,3) by (auto simp: ShouldDisableChannel_def IsSkipRetryError_def Let_def)
qed

theorem own_error_code_never_disables_witness:
  "\<not> ShouldDisableChannel id (\<lambda>_. False) True 1
     (Some (NewError (ErrPlain ''quota'') ErrorCodePreConsumeTokenQuotaFailed []))"
  using own_error_code_never_disables
    [of "NewError (ErrPlain ''quota'') ErrorCodePreConsumeTokenQuotaFailed []" id "\<lambda>_. False" 1]
  by (simp add: NewError_def ae_zero_def IsChannelError_def go_has_prefix_def err_op_defs)

lemma ToOpenAIError_message:
  "oe_Message (ToOpenAIError msk e) \<noteq> [] \<and>
   (code_str (ae_errorCode e) = ''count_token_failed'' \<or>
    oe_Message (ToOpenAIError msk e) = type_str (ae_errorType e) \<or>
    (\<exists>m. oe_Message (ToOpenAIError msk e) = msk m))"
proof -
  have "type_str t \<noteq> []" for t by (cases t) simp_all
  then show ?thesis by (auto simp: ToOpenAIError_def Let_def)
qed

lemma NewError_keeps_inner: "NewError (ErrApi e) c [] = e"
  by (simp add: NewError_def apply_ops_def)

lemma ResetStatusCode_ok_untouched: "ae_StatusCode e = 200 \<Longrightarrow> ResetStatusCode parse m e = e"
  by (auto simp: ResetStatusCode_def split: option.splits)

end
