(* ===== verification/Channel_Entity.thy ===== *)
theory Channel_Entity
  imports Api_Error
begin

text \<open>
  The channel record and its methods (\<^verbatim>\<open>internal/adapter/repo/channel.go\<close>, whose accessors
  \<^verbatim>\<open>internal/domain/entity/channel.go\<close> repeats): accessors, the key list of a multi-key channel,
  and the choice of the next enabled key in its three modes with the two errors of an
  exhausted key pool. The JSON decoders of the library are arguments; a random choice is the
  number the generator returned.
\<close>

section \<open>Data\<close>

definition ChannelStatusUnknown :: int where "ChannelStatusUnknown = 0"
definition ChannelStatusEnabled :: int where "ChannelStatusEnabled = 1"
definition ChannelStatusManuallyDisabled :: int where "ChannelStatusManuallyDisabled = 2"
definition ChannelStatusAutoDisabled :: int where "ChannelStatusAutoDisabled = 3"

lemmas channel_status_defs [hub_defs] = ChannelStatusUnknown_def ChannelStatusEnabled_def
  ChannelStatusManuallyDisabled_def ChannelStatusAutoDisabled_def

record channel_info =
  IsMultiKey :: bool
  MultiKeySize :: int
  MultiKeyStatusList :: "(int, int) gomap"
  MultiKeyDisabledReason :: "(int, string) gomap"
  MultiKeyDisabledTime :: "(int, int) gomap"
  MultiKeyPollingIndex :: int
  MultiKeyMode :: string
  MultiKeyCooldownUntil :: "(int, int) gomap"

record channel =
  ch_Id :: int
  ch_TenantId :: string
  ch_Type :: int
  ch_Key :: string
  ch_OpenAIOrganization :: "string option"
  ch_TestModel :: "string option"
  ch_Status :: int
  ch_Name :: string
  ch_Weight :: "int option"
  ch_CreatedTime :: int
  ch_TestTime :: int
  ch_ResponseTime :: int
  ch_BaseURL :: "string option"
  ch_Other :: string
  ch_Balance :: rat
  ch_BalanceUpdatedTime :: int
  ch_Models :: string
  ch_Group :: string
  ch_UsedQuota :: int
  ch_ModelMapping :: "string option"
  ch_StatusCodeMapping :: "string option"
  ch_Priority :: "int option"
  ch_AutoBan :: "int option"
  ch_OtherInfo :: string
  ch_Tag :: "string option"
  ch_Setting :: "string option"
  ch_ParamOverride :: "string option"
  ch_HeaderOverride :: "string option"
  ch_Remark :: "string option"
  ch_ChannelInfo :: channel_info
  ch_OtherSettings :: string
  ch_ManagedModelsBySync :: string
  ch_LastSyncFetchCount :: int
  ch_Keys :: "string list"

section \<open>Accessors\<close>

definition GetTag :: "channel \<Rightarrow> string" where
  "GetTag c = (case ch_Tag c of None \<Rightarrow> [] | Some t \<Rightarrow> t)"

definition SetTag :: "string \<Rightarrow> channel \<Rightarrow> channel" where
  "SetTag tag c = c\<lparr>ch_Tag := Some tag\<rparr>"

definition GetAutoBan :: "channel \<Rightarrow> bool" where
  "GetAutoBan c = (case ch_AutoBan c of None \<Rightarrow> False | Some n \<Rightarrow> n = 1)"

definition GetPriority :: "channel \<Rightarrow> int" where
  "GetPriority c = (case ch_Priority c of None \<Rightarrow> 0 | Some p \<Rightarrow> p)"

text \<open>\<^verbatim>\<open>int(*channel.Weight)\<close>: a \<^verbatim>\<open>uint\<close> from \<^verbatim>\<open>2^63\<close> on becomes negative.\<close>

definition GetWeight :: "channel \<Rightarrow> int" where
  "GetWeight c = (case ch_Weight c of None \<Rightarrow> 0 | Some w \<Rightarrow> wrap64 w)"

text \<open>
  \<open>base_urls\<close> is the table \<^verbatim>\<open>ChannelBaseURLs\<close>; an index outside it panics (\<open>None\<close>).
\<close>

definition GetBaseURL :: "string list \<Rightarrow> channel \<Rightarrow> string option" where
  "GetBaseURL base_urls c =
     (case ch_BaseURL c of None \<Rightarrow> Some []
      | Some url \<Rightarrow>
          if url = [] then
            (if 0 \<le> ch_Type c \<and> ch_Type c < int (length base_urls)
             then Some (base_urls ! nat (ch_Type c)) else None)
          else Some url)"

definition GetModelMapping :: "channel \<Rightarrow> string" where
  "GetModelMapping c = (case ch_ModelMapping c of None \<Rightarrow> [] | Some m \<Rightarrow> m)"

definition GetStatusCodeMapping :: "channel \<Rightarrow> string" where
  "GetStatusCodeMapping c = (case ch_StatusCodeMapping c of None \<Rightarrow> [] | Some m \<Rightarrow> m)"

definition newline :: char where "newline = CHR 0x0A"

text \<open>\<open>raws\<close> decodes a JSON array into the raw texts of its elements, \<open>None\<close> on an error.\<close>

definition GetKeys :: "(string \<Rightarrow> string list option) \<Rightarrow> channel \<Rightarrow> string list" where
  "GetKeys raws c =
     (if ch_Key c = [] then []
      else if ch_Keys c \<noteq> [] then ch_Keys c
      else (let trimmed = go_trim_space (ch_Key c);
                split = go_split newline (go_trim (\<lambda>x. x = newline) (ch_Key c))
            in if go_has_prefix trimmed ''['' then
                 (case raws trimmed of Some arr \<Rightarrow> arr | None \<Rightarrow> split)
               else split))"

definition GetModels :: "channel \<Rightarrow> string list" where
  "GetModels c = (if ch_Models c = [] then []
     else go_split (CHR '','') (go_trim (\<lambda>x. x = CHR '','') (ch_Models c)))"

definition GetGroups :: "channel \<Rightarrow> string list" where
  "GetGroups c = (if ch_Group c = [] then []
     else map go_trim_space (go_split (CHR '','') (go_trim (\<lambda>x. x = CHR '','') (ch_Group c))))"

definition GetManagedModelsBySync :: "(string \<Rightarrow> string list option) \<Rightarrow> channel \<Rightarrow> string list" where
  "GetManagedModelsBySync strs c =
     (if go_trim_space (ch_ManagedModelsBySync c) = [] then []
      else (case strs (ch_ManagedModelsBySync c) of None \<Rightarrow> [] | Some arr \<Rightarrow> arr))"

definition SetManagedModelsBySync :: "(string list \<Rightarrow> string) \<Rightarrow> string list \<Rightarrow> channel \<Rightarrow> channel" where
  "SetManagedModelsBySync render models c = c\<lparr>ch_ManagedModelsBySync := render models\<rparr>"

text \<open>
  The \<^verbatim>\<open>other_info\<close> text and the JSON library's codec for it; values other than the strings and
  integers the code writes are kept as their raw text.
\<close>

datatype info_val = InfoStr string | InfoInt int | InfoRaw string

record info_codec =
  ic_dec :: "string \<Rightarrow> (string, info_val) gomap option"
  ic_enc :: "(string, info_val) gomap \<Rightarrow> string option"

definition GetOtherInfo :: "info_codec \<Rightarrow> channel \<Rightarrow> (string, info_val) gomap" where
  "GetOtherInfo ic c =
     (if ch_OtherInfo c \<noteq> [] then (case ic_dec ic (ch_OtherInfo c) of None \<Rightarrow> [] | Some m \<Rightarrow> m) else [])"

definition SetOtherInfo :: "info_codec \<Rightarrow> (string, info_val) gomap \<Rightarrow> channel \<Rightarrow> channel" where
  "SetOtherInfo ic m c = (case ic_enc ic m of None \<Rightarrow> c | Some s \<Rightarrow> c\<lparr>ch_OtherInfo := s\<rparr>)"

definition record_status :: "info_codec \<Rightarrow> string \<Rightarrow> int \<Rightarrow> channel \<Rightarrow> channel" where
  "record_status ic reason now c =
     SetOtherInfo ic (gm_put (gm_put (GetOtherInfo ic c) ''status_reason'' (InfoStr reason))
        ''status_time'' (InfoInt now)) c"

section \<open>The next enabled key\<close>

text \<open>The closure \<^verbatim>\<open>getStatus\<close>: a missing entry counts as enabled.\<close>

definition key_status :: "(int, int) gomap \<Rightarrow> nat \<Rightarrow> int" where
  "key_status statusList i =
     (case gm_get statusList (int i) of None \<Rightarrow> ChannelStatusEnabled | Some s \<Rightarrow> s)"

definition enabled_keys :: "(int, int) gomap \<Rightarrow> nat \<Rightarrow> nat list" where
  "enabled_keys statusList n = filter (\<lambda>i. key_status statusList i = ChannelStatusEnabled) [0..<n]"

text \<open>
  The loop over the disabled keys: \<open>None\<close> when a key has no cooldown deadline (the \<^verbatim>\<open>break\<close>
  with \<^verbatim>\<open>allCooling = false\<close>), else the earliest deadline seen so far.
\<close>

fun earliest_cooldown ::
    "(int, int) gomap \<Rightarrow> (int, int) gomap \<Rightarrow> int \<Rightarrow> nat list \<Rightarrow> int option" where
  "earliest_cooldown statusList cooldowns earliest [] = Some earliest"
| "earliest_cooldown statusList cooldowns earliest (i # is) =
     (if key_status statusList i = ChannelStatusEnabled
      then earliest_cooldown statusList cooldowns earliest is
      else (case gm_get cooldowns (int i) of
              None \<Rightarrow> None
            | Some until \<Rightarrow>
                if until \<le> 0 then None
                else earliest_cooldown statusList cooldowns
                       (if earliest = 0 \<or> until < earliest then until else earliest) is))"

definition no_enabled_key_error :: "channel \<Rightarrow> nat \<Rightarrow> new_api_error" where
  "no_enabled_key_error c n =
     (let info = ch_ChannelInfo c; cooldowns = MultiKeyCooldownUntil info;
          none = NewError (ErrPlain ''no enabled keys'') ErrorCodeChannelNoAvailableKey []
      in if 0 < gm_len cooldowns then
           (case earliest_cooldown (MultiKeyStatusList info) cooldowns 0 [0..<n] of
              None \<Rightarrow> none
            | Some earliest \<Rightarrow>
                if 0 < earliest then
                  (NewError (ErrPlain ''all keys cooling'') ErrorCodeChannelAllKeysCooling [])
                    \<lparr>ae_RetryAfterUnix := earliest\<rparr>
                else none)
         else none)"

text \<open>The polling loop: the first enabled index from \<open>start\<close> on, cyclically.\<close>

fun poll_from :: "(int, int) gomap \<Rightarrow> nat \<Rightarrow> nat \<Rightarrow> nat list \<Rightarrow> nat option" where
  "poll_from statusList n start [] = None"
| "poll_from statusList n start (i # is) =
     (let idx = (start + i) mod n
      in if key_status statusList idx = ChannelStatusEnabled then Some idx
         else poll_from statusList n start is)"

definition poll_start :: "int \<Rightarrow> nat \<Rightarrow> nat" where
  "poll_start idx n = (if idx < 0 \<or> int n \<le> idx then 0 else nat idx)"

text \<open>
  \<^verbatim>\<open>GetNextEnabledKey\<close>: the result with the channel as it is left. \<open>pick n\<close> is what \<^verbatim>\<open>rand.Intn(n)\<close>
  returned and \<open>cached\<close> is the result of \<^verbatim>\<open>CacheGetChannelInfo\<close> for the channel.
\<close>

definition GetNextEnabledKey ::
    "(string \<Rightarrow> string list option) \<Rightarrow> (nat \<Rightarrow> nat) \<Rightarrow> go_error + channel_info \<Rightarrow> channel
     \<Rightarrow> (new_api_error + string \<times> nat) \<times> channel" where
  "GetNextEnabledKey raws pick cached c =
     (if \<not> IsMultiKey (ch_ChannelInfo c) then (Inr (ch_Key c, 0), c)
      else
        (let keys = GetKeys raws c; n = length keys;
             statusList = MultiKeyStatusList (ch_ChannelInfo c);
             enabledIdx = enabled_keys statusList n
         in if n = 0 then
              (Inl (NewError (ErrPlain ''no keys available'') ErrorCodeChannelNoAvailableKey []), c)
            else if enabledIdx = [] then (Inl (no_enabled_key_error c n), c)
            else if MultiKeyMode (ch_ChannelInfo c) = ''random'' then
              (let selectedIdx = enabledIdx ! pick (length enabledIdx)
               in (Inr (keys ! selectedIdx, selectedIdx), c))
            else if MultiKeyMode (ch_ChannelInfo c) = ''polling'' then
              (case cached of
                 Inl err \<Rightarrow> (Inl (NewError err ErrorCodeGetChannelFailed [ErrOptionWithSkipRetry]), c)
               | Inr info \<Rightarrow>
                   (case poll_from statusList n (poll_start (MultiKeyPollingIndex info) n) [0..<n] of
                      Some idx \<Rightarrow>
                        (Inr (keys ! idx, idx),
                         c\<lparr>ch_ChannelInfo := (ch_ChannelInfo c)
                             \<lparr>MultiKeyPollingIndex := int ((idx + 1) mod n)\<rparr>\<rparr>)
                    | None \<Rightarrow> (Inr (keys ! hd enabledIdx, hd enabledIdx), c)))
            else (Inr (keys ! hd enabledIdx, hd enabledIdx), c)))"

text \<open>\<^verbatim>\<open>SaveChannelInfo\<close> on the row: the one column it updates.\<close>

definition SaveChannelInfo :: "channel \<Rightarrow> channel \<Rightarrow> channel" where
  "SaveChannelInfo c row = row\<lparr>ch_ChannelInfo := ch_ChannelInfo c\<rparr>"

text \<open>
  The second copy of the pool-exhausted decision, \<^verbatim>\<open>noAvailableKeyError\<close> of the entity package,
  with its early returns, and the entity's own key choice.
\<close>

fun entity_cooldown_loop ::
    "(nat \<Rightarrow> int) \<Rightarrow> (int, int) gomap \<Rightarrow> int \<Rightarrow> nat list \<Rightarrow> new_api_error + int" where
  "entity_cooldown_loop getStatus cooldowns earliest [] = Inr earliest"
| "entity_cooldown_loop getStatus cooldowns earliest (i # is) =
     (if getStatus i = ChannelStatusEnabled
      then entity_cooldown_loop getStatus cooldowns earliest is
      else (case gm_get cooldowns (int i) of
              None \<Rightarrow> Inl (NewError ErrNil ErrorCodeChannelNoAvailableKey [])
            | Some until \<Rightarrow>
                if until \<le> 0 then Inl (NewError ErrNil ErrorCodeChannelNoAvailableKey [])
                else entity_cooldown_loop getStatus cooldowns
                       (if earliest = 0 \<or> until < earliest then until else earliest) is))"

definition noAvailableKeyError :: "channel \<Rightarrow> (nat \<Rightarrow> int) \<Rightarrow> nat \<Rightarrow> new_api_error" where
  "noAvailableKeyError c getStatus keyCount =
     (if keyCount = 0 then NewError ErrNil ErrorCodeChannelNoAvailableKey []
      else
        (let cooldowns = MultiKeyCooldownUntil (ch_ChannelInfo c)
         in if gm_len cooldowns = 0 then NewError ErrNil ErrorCodeChannelNoAvailableKey []
            else (case entity_cooldown_loop getStatus cooldowns 0 [0..<keyCount] of
                    Inl e \<Rightarrow> e
                  | Inr earliest \<Rightarrow>
                      if earliest = 0 then NewError ErrNil ErrorCodeChannelNoAvailableKey []
                      else (NewError ErrNil ErrorCodeChannelAllKeysCooling [])
                             \<lparr>ae_RetryAfterUnix := earliest\<rparr>)))"

definition GetNextEnabledKeyIndex ::
    "(string \<Rightarrow> string list option) \<Rightarrow> (int, int) gomap \<Rightarrow> channel \<Rightarrow> new_api_error + string \<times> nat" where
  "GetNextEnabledKeyIndex raws statusList c =
     (if \<not> IsMultiKey (ch_ChannelInfo c) then Inr (ch_Key c, 0)
      else
        (let keys = GetKeys raws c; enabledIdx = enabled_keys statusList (length keys)
         in if keys = [] then Inl (NewError ErrNil ErrorCodeChannelNoAvailableKey [])
            else if enabledIdx = []
            then Inl (noAvailableKeyError c (key_status statusList) (length keys))
            else Inr (keys ! hd enabledIdx, hd enabledIdx)))"

section \<open>Lemmas\<close>

lemma enabled_keys_set [simp]:
  "i \<in> set (enabled_keys sl n) \<longleftrightarrow> i < n \<and> key_status sl i = ChannelStatusEnabled"
  by (auto simp: enabled_keys_def)

lemma poll_from_Some:
  "poll_from sl n start js = Some idx \<Longrightarrow>
   \<exists>i \<in> set js. idx = (start + i) mod n \<and> key_status sl idx = ChannelStatusEnabled"
  by (induction js) (auto simp: Let_def split: if_splits)

lemma poll_from_None:
  "poll_from sl n start js = None \<longleftrightarrow>
   (\<forall>i \<in> set js. key_status sl ((start + i) mod n) \<noteq> ChannelStatusEnabled)"
  by (induction js) (auto simp: Let_def)

lemma mod_distance: "start < n \<Longrightarrow> j < n \<Longrightarrow> (start + (j + n - start) mod n) mod n = j" for j :: nat
  by (simp add: mod_add_right_eq)

lemma poll_from_total:
  assumes "j < n" "key_status sl j = ChannelStatusEnabled" "start < n"
  shows "\<exists>idx. poll_from sl n start [0..<n] = Some idx"
proof -
  have "(j + n - start) mod n < n" using assms(1) by simp
  moreover have "key_status sl ((start + (j + n - start) mod n) mod n) = ChannelStatusEnabled"
    using assms by (simp add: mod_distance)
  ultimately have "poll_from sl n start [0..<n] \<noteq> None"
    unfolding poll_from_None by (metis atLeastLessThan_iff set_upt zero_le)
  then show ?thesis by blast
qed

text \<open>The index returned is the nearest enabled one: no enabled index is skipped.\<close>

lemma poll_from_nearest:
  "poll_from sl n start [a..<b] = Some idx \<Longrightarrow>
   \<exists>i. a \<le> i \<and> i < b \<and> idx = (start + i) mod n \<and>
     (\<forall>k. a \<le> k \<and> k < i \<longrightarrow> key_status sl ((start + k) mod n) \<noteq> ChannelStatusEnabled)"
proof (induction "b - a" arbitrary: a)
  case 0
  then show ?case by simp
next
  case (Suc d)
  then have ab: "a < b" and diff: "d = b - Suc a" by simp_all
  then have split: "[a..<b] = a # [Suc a..<b]" by (simp add: upt_conv_Cons)
  show ?case
  proof (cases "key_status sl ((start + a) mod n) = ChannelStatusEnabled")
    case True
    then show ?thesis using Suc.prems ab by (intro exI [of _ a]) (simp add: split Let_def)
  next
    case False
    then have "poll_from sl n start [Suc a..<b] = Some idx"
      using Suc.prems by (simp add: split Let_def)
    then obtain i where i: "Suc a \<le> i" "i < b" "idx = (start + i) mod n"
        "\<forall>k. Suc a \<le> k \<and> k < i \<longrightarrow> key_status sl ((start + k) mod n) \<noteq> ChannelStatusEnabled"
      using Suc.hyps(1) [of "Suc a"] diff by blast
    have "key_status sl ((start + k) mod n) \<noteq> ChannelStatusEnabled" if "a \<le> k" "k < i" for k
      using i(4) False that by (cases "k = a") auto
    then show ?thesis using i by (intro exI [of _ i]) auto
  qed
qed

lemma earliest_cooldown_entity:
  "entity_cooldown_loop (key_status sl) cd e js =
     (case earliest_cooldown sl cd e js of
        None \<Rightarrow> Inl (NewError ErrNil ErrorCodeChannelNoAvailableKey [])
      | Some x \<Rightarrow> Inr x)"
  by (induction js arbitrary: e) (auto split: option.splits)

text \<open>The loop computes the minimum of the deadlines of the keys that are not enabled.\<close>

lemma earliest_cooldown_min:
  assumes "earliest_cooldown sl cd e js = Some r" and "0 \<le> e"
  shows "0 \<le> r \<and> (0 < e \<longrightarrow> 0 < r \<and> r \<le> e) \<and>
     (\<forall>i \<in> set js. key_status sl i \<noteq> ChannelStatusEnabled \<longrightarrow>
        (\<exists>u. gm_get cd (int i) = Some u \<and> 0 < u \<and> 0 < r \<and> r \<le> u)) \<and>
     (r = e \<or> (\<exists>i \<in> set js. key_status sl i \<noteq> ChannelStatusEnabled \<and> gm_get cd (int i) = Some r))"
  using assms
proof (induction js arbitrary: e)
  case Nil
  then show ?case by simp
next
  case (Cons i js)
  show ?case
  proof (cases "key_status sl i = ChannelStatusEnabled")
    case True
    with Cons show ?thesis by auto
  next
    case False
    with Cons.prems(1) obtain u where u: "gm_get cd (int i) = Some u" "0 < u"
        "earliest_cooldown sl cd (if e = 0 \<or> u < e then u else e) js = Some r"
      by (auto split: option.splits if_splits)
    let ?e = "if e = 0 \<or> u < e then u else e"
    have e: "0 \<le> ?e" "0 < ?e" "?e \<le> u" "0 < e \<longrightarrow> ?e \<le> e" "?e = u \<or> ?e = e"
      using Cons.prems(2) u(2) by auto
    note ih = Cons.IH [OF u(3) e(1)]
    show ?thesis
    proof (intro conjI)
      show "0 \<le> r" "0 < e \<longrightarrow> 0 < r \<and> r \<le> e"
        using ih e by auto
      show "\<forall>i \<in> set (i # js). key_status sl i \<noteq> ChannelStatusEnabled \<longrightarrow>
          (\<exists>u. gm_get cd (int i) = Some u \<and> 0 < u \<and> 0 < r \<and> r \<le> u)"
        using ih e u(1,2) by auto
      show "r = e \<or> (\<exists>i \<in> set (i # js). key_status sl i \<noteq> ChannelStatusEnabled \<and>
          gm_get cd (int i) = Some r)"
        using ih e(5) u(1) False by auto
    qed
  qed
qed

section \<open>Properties\<close>

text \<open>
  C27. The key chosen for a request is one of the channel's keys at the returned index and is
  enabled, in every mode; the channel is unchanged but for the polling index, which stays a
  valid index. An error is returned only if no key is enabled or, in polling mode, the
  cached channel is gone.
\<close>

theorem GetNextEnabledKey_sound:
  assumes "IsMultiKey (ch_ChannelInfo c)" and "\<forall>n>0. pick n < n"
  shows "case GetNextEnabledKey raws pick cached c of
     (Inr (k, idx), c') \<Rightarrow> idx < length (GetKeys raws c) \<and> k = GetKeys raws c ! idx \<and>
        key_status (MultiKeyStatusList (ch_ChannelInfo c)) idx = ChannelStatusEnabled \<and>
        (\<exists>p. c' = c\<lparr>ch_ChannelInfo := (ch_ChannelInfo c)\<lparr>MultiKeyPollingIndex := p\<rparr>\<rparr> \<and>
             (p = MultiKeyPollingIndex (ch_ChannelInfo c) \<or> 0 \<le> p \<and> p < int (length (GetKeys raws c))))
   | (Inl e, c') \<Rightarrow> c' = c \<and>
        ((\<forall>i < length (GetKeys raws c).
            key_status (MultiKeyStatusList (ch_ChannelInfo c)) i \<noteq> ChannelStatusEnabled) \<or>
         (\<exists>err. cached = Inl err))"
proof -
  let ?sl = "MultiKeyStatusList (ch_ChannelInfo c)"
  let ?n = "length (GetKeys raws c)"
  let ?en = "enabled_keys ?sl ?n"
  have same: "\<exists>p. c = c\<lparr>ch_ChannelInfo := (ch_ChannelInfo c)\<lparr>MultiKeyPollingIndex := p\<rparr>\<rparr> \<and>
      (p = MultiKeyPollingIndex (ch_ChannelInfo c) \<or> 0 \<le> p \<and> p < int ?n)"
    by (intro exI [of _ "MultiKeyPollingIndex (ch_ChannelInfo c)"]) simp
  have mem: "?en \<noteq> [] \<Longrightarrow> hd ?en \<in> set ?en" "?en \<noteq> [] \<Longrightarrow> ?en ! pick (length ?en) \<in> set ?en"
    using assms(2) by (blast intro: hd_in_set, simp del: enabled_keys_set)
  have none: "?en = [] \<Longrightarrow> \<forall>i < ?n. key_status ?sl i \<noteq> ChannelStatusEnabled"
    using enabled_keys_set [of _ ?sl ?n] by auto
  have poll: "poll_from ?sl ?n s [0..<?n] = Some idx \<Longrightarrow> ?n \<noteq> 0 \<Longrightarrow>
      idx < ?n \<and> key_status ?sl idx = ChannelStatusEnabled" for s idx
    by (drule poll_from_Some) auto
  consider (nokeys) "?n = 0" | (noen) "?n \<noteq> 0" "?en = []"
    | (random) "?n \<noteq> 0" "?en \<noteq> []" "MultiKeyMode (ch_ChannelInfo c) = ''random''"
    | (polling) "?n \<noteq> 0" "?en \<noteq> []" "MultiKeyMode (ch_ChannelInfo c) = ''polling''"
    | (other) "?n \<noteq> 0" "?en \<noteq> []" "MultiKeyMode (ch_ChannelInfo c) \<noteq> ''random''"
        "MultiKeyMode (ch_ChannelInfo c) \<noteq> ''polling''"
    by blast
  then show ?thesis
  proof cases
    case nokeys
    then show ?thesis using assms(1) by (simp add: GetNextEnabledKey_def)
  next
    case noen
    then show ?thesis using assms(1) none by (simp add: GetNextEnabledKey_def Let_def)
  next
    case random
    then show ?thesis
      using assms(1) mem(2) same by (simp add: GetNextEnabledKey_def Let_def)
  next
    case other
    then show ?thesis
      using assms(1) mem(1) same by (simp add: GetNextEnabledKey_def Let_def)
  next
    case polling
    show ?thesis
    proof (cases cached)
      case (Inl err)
      then show ?thesis using assms(1) polling by (simp add: GetNextEnabledKey_def Let_def)
    next
      case (Inr info)
      show ?thesis
      proof (cases "poll_from ?sl ?n (poll_start (MultiKeyPollingIndex info) ?n) [0..<?n]")
        case None
        then show ?thesis
          using assms(1) polling Inr mem(1) same by (simp add: GetNextEnabledKey_def Let_def)
      next
        case (Some idx)
        define p where "p = int ((idx + 1) mod ?n)"
        have p: "0 \<le> p" "p < int ?n" using polling(1) by (simp_all add: p_def)
        have g: "GetNextEnabledKey raws pick cached c =
            (Inr (GetKeys raws c ! idx, idx),
             c\<lparr>ch_ChannelInfo := (ch_ChannelInfo c)\<lparr>MultiKeyPollingIndex := p\<rparr>\<rparr>)"
          using assms(1) polling Inr Some by (simp add: GetNextEnabledKey_def Let_def p_def)
        show ?thesis
          unfolding g prod.case sum.case using poll [OF Some polling(1)] p by blast
      qed
    qed
  qed
qed

text \<open>
  One poll of a channel some key of which is enabled: the nearest enabled index from the stored one
  on is returned, and one past it is stored.
\<close>

lemma GetNextEnabledKey_polling:
  assumes "IsMultiKey (ch_ChannelInfo c)" "MultiKeyMode (ch_ChannelInfo c) = ''polling''"
    and "j < length (GetKeys raws c)"
    and "key_status (MultiKeyStatusList (ch_ChannelInfo c)) j = ChannelStatusEnabled"
  shows "\<exists>idx. poll_from (MultiKeyStatusList (ch_ChannelInfo c)) (length (GetKeys raws c))
        (poll_start (MultiKeyPollingIndex info) (length (GetKeys raws c)))
        [0..<length (GetKeys raws c)] = Some idx \<and>
      GetNextEnabledKey raws pick (Inr info) c =
        (Inr (GetKeys raws c ! idx, idx),
         c\<lparr>ch_ChannelInfo := (ch_ChannelInfo c)
             \<lparr>MultiKeyPollingIndex := int ((idx + 1) mod length (GetKeys raws c))\<rparr>\<rparr>)"
proof -
  let ?sl = "MultiKeyStatusList (ch_ChannelInfo c)"
  let ?n = "length (GetKeys raws c)"
  have start: "poll_start (MultiKeyPollingIndex info) ?n < ?n"
    using assms(3) by (auto simp: poll_start_def)
  obtain idx where idx: "poll_from ?sl ?n (poll_start (MultiKeyPollingIndex info) ?n) [0..<?n] = Some idx"
    using poll_from_total [OF assms(3,4) start] by blast
  have "j \<in> set (enabled_keys ?sl ?n)" using assms(3,4) by simp
  then have en: "enabled_keys ?sl ?n \<noteq> []" by (metis empty_iff empty_set)
  have ne: "GetKeys raws c \<noteq> []" using assms(3) by auto
  show ?thesis
    using assms(1,2) ne idx en by (intro exI [of _ idx]) (simp add: GetNextEnabledKey_def Let_def)
qed

definition demo_channel :: channel where
  "demo_channel = \<lparr>ch_Id = 7, ch_TenantId = ''default'', ch_Type = 20, ch_Key = ''a'' @ [newline] @ ''b'',
     ch_OpenAIOrganization = None, ch_TestModel = None, ch_Status = 1, ch_Name = ''pool'',
     ch_Weight = Some 10, ch_CreatedTime = 0, ch_TestTime = 0, ch_ResponseTime = 0, ch_BaseURL = None,
     ch_Other = [], ch_Balance = 0, ch_BalanceUpdatedTime = 0, ch_Models = ''gpt-4o'',
     ch_Group = ''default'', ch_UsedQuota = 0, ch_ModelMapping = None, ch_StatusCodeMapping = None,
     ch_Priority = Some 0, ch_AutoBan = Some 1, ch_OtherInfo = [], ch_Tag = None, ch_Setting = None,
     ch_ParamOverride = None, ch_HeaderOverride = None, ch_Remark = None,
     ch_ChannelInfo = \<lparr>IsMultiKey = True, MultiKeySize = 2, MultiKeyStatusList = [(0, 3)],
        MultiKeyDisabledReason = [], MultiKeyDisabledTime = [], MultiKeyPollingIndex = 0,
        MultiKeyMode = ''polling'', MultiKeyCooldownUntil = [(0, 900)]\<rparr>,
     ch_OtherSettings = [], ch_ManagedModelsBySync = [], ch_LastSyncFetchCount = 0, ch_Keys = []\<rparr>"

lemma demo_keys: "GetKeys raws demo_channel = [''a'', ''b'']"
  by (simp add: GetKeys_def demo_channel_def newline_def go_trim_space_def go_trim_def is_space_def
      go_has_prefix_def Let_def)

theorem GetNextEnabledKey_sound_witness:
  "case GetNextEnabledKey (\<lambda>_. None) (\<lambda>_. 0) (Inr (ch_ChannelInfo demo_channel)) demo_channel of
     (Inr (k, idx), c') \<Rightarrow> idx < 2 \<and> k = [''a'', ''b''] ! idx | (Inl e, c') \<Rightarrow> False"
proof -
  have st: "key_status (MultiKeyStatusList (ch_ChannelInfo demo_channel)) 1 = ChannelStatusEnabled"
    by (simp add: key_status_def demo_channel_def gm_get_def)
  have multi: "IsMultiKey (ch_ChannelInfo demo_channel)"
    by (simp add: demo_channel_def)
  have one: "(1 :: nat) < length (GetKeys (\<lambda>_. None) demo_channel)"
    by (simp add: demo_keys)
  show ?thesis
    using GetNextEnabledKey_sound
      [of demo_channel "\<lambda>_. 0" "\<lambda>_. None" "Inr (ch_ChannelInfo demo_channel)", OF multi] st one
    by (auto simp: demo_keys split: prod.splits sum.splits)
qed

text \<open>
  An exhausted pool is reported as "all keys cooling" exactly when every key carries a
  positive deadline, and then with the earliest of them; the entity package's copy of the
  decision reports the same code and the same deadline.
\<close>

theorem all_keys_cooling_iff:
  assumes "0 < n" and "\<forall>i < n. key_status (MultiKeyStatusList (ch_ChannelInfo c)) i \<noteq> ChannelStatusEnabled"
  shows "(ae_errorCode (no_enabled_key_error c n) = ErrorCodeChannelAllKeysCooling \<longleftrightarrow>
       (\<forall>i < n. \<exists>u. gm_get (MultiKeyCooldownUntil (ch_ChannelInfo c)) (int i) = Some u \<and> 0 < u)) \<and>
     (ae_errorCode (no_enabled_key_error c n) = ErrorCodeChannelAllKeysCooling \<longrightarrow>
       (\<forall>i < n. \<exists>u. gm_get (MultiKeyCooldownUntil (ch_ChannelInfo c)) (int i) = Some u \<and>
          ae_RetryAfterUnix (no_enabled_key_error c n) \<le> u) \<and>
       (\<exists>i < n. gm_get (MultiKeyCooldownUntil (ch_ChannelInfo c)) (int i) =
          Some (ae_RetryAfterUnix (no_enabled_key_error c n)))) \<and>
     ae_errorCode (noAvailableKeyError c (key_status (MultiKeyStatusList (ch_ChannelInfo c))) n) =
       ae_errorCode (no_enabled_key_error c n) \<and>
     ae_RetryAfterUnix (noAvailableKeyError c (key_status (MultiKeyStatusList (ch_ChannelInfo c))) n) =
       ae_RetryAfterUnix (no_enabled_key_error c n)"
proof -
  let ?sl = "MultiKeyStatusList (ch_ChannelInfo c)"
  let ?cd = "MultiKeyCooldownUntil (ch_ChannelInfo c)"
  have len: "gm_get ?cd k = Some u \<Longrightarrow> gm_len ?cd \<noteq> 0" for k u
    by (cases ?cd) (auto simp: gm_len_def)
  have none: "earliest_cooldown ?sl ?cd e js = None \<Longrightarrow>
      \<exists>i \<in> set js. \<not> (\<exists>u. gm_get ?cd (int i) = Some u \<and> 0 < u)" for e js
    by (induction js arbitrary: e) (auto split: option.splits if_splits)
  show ?thesis
  proof (cases "earliest_cooldown ?sl ?cd 0 [0..<n]")
    case None
    from none [OF None] obtain i where "i < n" "\<not> (\<exists>u. gm_get ?cd (int i) = Some u \<and> 0 < u)"
      by auto
    then show ?thesis
      using None assms(1) by (auto simp: no_enabled_key_error_def noAvailableKeyError_def NewError_def
          ae_zero_def apply_ops_def earliest_cooldown_entity Let_def)
  next
    case (Some r)
    have all: "\<forall>i < n. \<exists>u. gm_get ?cd (int i) = Some u \<and> 0 < u \<and> 0 < r \<and> r \<le> u"
      using earliest_cooldown_min [OF Some] assms(2) by auto
    then have pos: "0 < r" "gm_len ?cd \<noteq> 0" using assms(1) len by blast+
    have ex: "\<exists>i < n. gm_get ?cd (int i) = Some r"
      using earliest_cooldown_min [OF Some] pos by auto
    show ?thesis
      using Some all ex pos assms(1) by (auto simp: no_enabled_key_error_def noAvailableKeyError_def
          NewError_def ae_zero_def apply_ops_def earliest_cooldown_entity Let_def)
  qed
qed

theorem all_keys_cooling_witness:
  "ae_errorCode (no_enabled_key_error (demo_channel\<lparr>ch_ChannelInfo := (ch_ChannelInfo demo_channel)
      \<lparr>MultiKeyStatusList := [(0, 3), (1, 3)], MultiKeyCooldownUntil := [(0, 900), (1, 500)]\<rparr>\<rparr>) 2)
    = ErrorCodeChannelAllKeysCooling"
proof -
  let ?c = "demo_channel\<lparr>ch_ChannelInfo := (ch_ChannelInfo demo_channel)
      \<lparr>MultiKeyStatusList := [(0, 3), (1, 3)], MultiKeyCooldownUntil := [(0, 900), (1, 500)]\<rparr>\<rparr>"
  have two: "i < 2 \<Longrightarrow> i = 0 \<or> i = 1" for i :: nat by auto
  have "\<forall>i < 2. key_status (MultiKeyStatusList (ch_ChannelInfo ?c)) i \<noteq> ChannelStatusEnabled"
    by (auto dest!: two simp: key_status_def gm_get_def channel_status_defs)
  from all_keys_cooling_iff [OF _ this] show ?thesis
    by (auto dest!: two simp: gm_get_def demo_channel_def)
qed

end
