(* ===== verification/Channel_Cache.thy ===== *)
theory Channel_Cache
  imports Channel_Entity "HOL-Library.Multiset"
begin

text \<open>
  The in-memory routing table of \<^verbatim>\<open>internal/adapter/repo/channel_cache.go\<close> and the ability table
  of \<^verbatim>\<open>internal/adapter/repo/ability.go\<close>: building the cache from the database, the weighted random
  choice of a channel among the best remaining priority (from the cache and from the
  database), and the cache updates when a channel changes. Locks make each operation atomic;
  the random number a choice draws is an argument, and so are the weight adjustment of the hub
  and the model-name normalisation of \<^verbatim>\<open>ratio_setting\<close>.
\<close>

section \<open>Abilities\<close>

record ability =
  ab_Group :: string
  ab_Model :: string
  ab_ChannelId :: int
  ab_Enabled :: bool
  ab_Priority :: "int option"
  ab_Weight :: int
  ab_Tag :: "string option"

text \<open>
  The double loop of \<^verbatim>\<open>AddAbilities\<close>: one ability per pair of a model and a grp, repeated
  pairs skipped. The set is keyed by \<^verbatim>\<open>group + "|" + model\<close>.
\<close>

definition mk_ability :: "channel \<Rightarrow> string \<Rightarrow> string \<Rightarrow> ability" where
  "mk_ability c grp model =
     \<lparr>ab_Group = grp, ab_Model = model, ab_ChannelId = ch_Id c,
      ab_Enabled = (ch_Status c = ChannelStatusEnabled), ab_Priority = ch_Priority c,
      ab_Weight = GetWeight c mod 2 ^ 64, ab_Tag = ch_Tag c\<rparr>"

fun dedup_pairs :: "string list \<Rightarrow> (string \<times> string) list \<Rightarrow> (string \<times> string) list" where
  "dedup_pairs seen [] = []"
| "dedup_pairs seen ((grp, model) # ps) =
     (let key = grp @ ''|'' @ model
      in if key \<in> set seen then dedup_pairs seen ps
         else (grp, model) # dedup_pairs (key # seen) ps)"

definition channel_pairs :: "channel \<Rightarrow> (string \<times> string) list" where
  "channel_pairs c = concat (map (\<lambda>model. map (\<lambda>grp. (grp, model))
      (go_split (CHR '','') (ch_Group c))) (go_split (CHR '','') (ch_Models c)))"

definition channel_abilities :: "channel \<Rightarrow> ability list" where
  "channel_abilities c = map (\<lambda>(grp, model). mk_ability c grp model)
     (dedup_pairs [] (channel_pairs c))"

text \<open>
  The primary key of the table is (group, model, channel); an insert that conflicts does
  nothing (\<^verbatim>\<open>OnConflict{DoNothing: true}\<close>). The chunks of 50 only batch the statements.
\<close>

definition same_key :: "ability \<Rightarrow> ability \<Rightarrow> bool" where
  "same_key a b \<longleftrightarrow> ab_Group a = ab_Group b \<and> ab_Model a = ab_Model b \<and> ab_ChannelId a = ab_ChannelId b"

definition insert_ability :: "ability \<Rightarrow> ability list \<Rightarrow> ability list" where
  "insert_ability a t = (if \<exists>b \<in> set t. same_key b a then t else t @ [a])"

definition AddAbilities :: "channel \<Rightarrow> ability list \<Rightarrow> ability list" where
  "AddAbilities c t = fold insert_ability (channel_abilities c) t"

definition DeleteAbilities :: "channel \<Rightarrow> ability list \<Rightarrow> ability list" where
  "DeleteAbilities c t = filter (\<lambda>a. ab_ChannelId a \<noteq> ch_Id c) t"

text \<open>
  \<^verbatim>\<open>UpdateAbilities\<close> in its own transaction: \<open>del_ok\<close> and \<open>ins_ok\<close> say whether the two
  statements succeed; a failure rolls the table back.
\<close>

definition UpdateAbilities :: "bool \<Rightarrow> bool \<Rightarrow> channel \<Rightarrow> ability list \<Rightarrow> bool \<times> ability list" where
  "UpdateAbilities del_ok ins_ok c t =
     (if \<not> del_ok then (False, t)
      else (let t1 = filter (\<lambda>a. ab_ChannelId a \<noteq> ch_Id c) t
            in if channel_abilities c = [] then (True, t1)
               else if \<not> ins_ok then (False, t)
               else (True, fold insert_ability (channel_abilities c) t1)))"

definition UpdateAbilityStatus :: "int \<Rightarrow> bool \<Rightarrow> ability list \<Rightarrow> ability list" where
  "UpdateAbilityStatus channelId status t =
     map (\<lambda>a. if ab_ChannelId a = channelId then a\<lparr>ab_Enabled := status\<rparr> else a) t"

definition UpdateAbilityStatusByTag :: "string \<Rightarrow> bool \<Rightarrow> ability list \<Rightarrow> ability list" where
  "UpdateAbilityStatusByTag tag status t =
     map (\<lambda>a. if ab_Tag a = Some tag then a\<lparr>ab_Enabled := status\<rparr> else a) t"

text \<open>\<^verbatim>\<open>Updates(struct)\<close> writes only the non-zero fields: a weight of 0 is not written.\<close>

definition UpdateAbilityByTag ::
    "string \<Rightarrow> string option \<Rightarrow> int option \<Rightarrow> int option \<Rightarrow> ability list \<Rightarrow> ability list" where
  "UpdateAbilityByTag tag newTag priority weight t =
     map (\<lambda>a. if ab_Tag a = Some tag then
        (let a1 = (case newTag of None \<Rightarrow> a | Some nt \<Rightarrow> a\<lparr>ab_Tag := Some nt\<rparr>);
             a2 = (case priority of None \<Rightarrow> a1 | Some p \<Rightarrow> a1\<lparr>ab_Priority := Some p\<rparr>)
         in (case weight of None \<Rightarrow> a2 | Some w \<Rightarrow> if w = 0 then a2 else a2\<lparr>ab_Weight := w\<rparr>))
        else a) t"

section \<open>Weighted choice\<close>

text \<open>
  The loop of \<^verbatim>\<open>GetRandomSatisfiedChannel\<close>: subtract the weights in turn from the random number
  and stop when it becomes negative.
\<close>

fun weighted_index :: "int list \<Rightarrow> int \<Rightarrow> nat option" where
  "weighted_index [] r = None"
| "weighted_index (w # ws) r =
     (let r' = r - w in if r' < 0 then Some 0 else map_option Suc (weighted_index ws r'))"

text \<open>The loop of the database path \<^verbatim>\<open>GetChannel\<close> stops already at zero.\<close>

fun weighted_index_db :: "int list \<Rightarrow> int \<Rightarrow> nat option" where
  "weighted_index_db [] r = None"
| "weighted_index_db (w # ws) r =
     (let r' = r - w in if r' \<le> 0 then Some 0 else map_option Suc (weighted_index_db ws r'))"

text \<open>
  What the callers need of a choice by weight: a draw below the total always chooses one of
  the candidates. A proportional choice moreover gives every candidate exactly its weight in
  draws.
\<close>

locale candidate_choice =
  fixes pickw :: "int list \<Rightarrow> int \<Rightarrow> nat option"
  assumes chooses: "\<forall>w \<in> set ws. 0 \<le> w \<Longrightarrow> 0 \<le> r \<Longrightarrow> r < sum_list ws \<Longrightarrow>
      \<exists>i < length ws. pickw ws r = Some i"
    and in_range: "pickw ws r = Some i \<Longrightarrow> i < length ws"
begin

lemma chosen_member:
  assumes "length xs = length ws" "\<forall>w \<in> set ws. 0 \<le> w" "0 \<le> r" "r < sum_list ws"
  shows "\<exists>i x. pickw ws r = Some i \<and> i < length xs \<and> x = xs ! i \<and> x \<in> set xs"
  using chooses [OF assms(2-4)] assms(1) by auto

end

locale proportional_choice = candidate_choice +
  assumes share: "\<forall>w \<in> set ws. 0 \<le> w \<Longrightarrow> i < length ws \<Longrightarrow>
      int (card {r. 0 \<le> r \<and> r < sum_list ws \<and> pickw ws r = Some i}) = ws ! i"
begin

lemma zero_weight_never:
  assumes "\<forall>w \<in> set ws. 0 \<le> w" "i < length ws" "ws ! i = 0" "0 \<le> r" "r < sum_list ws"
  shows "pickw ws r \<noteq> Some i"
proof
  assume "pickw ws r = Some i"
  then have "r \<in> {r. 0 \<le> r \<and> r < sum_list ws \<and> pickw ws r = Some i}" using assms by simp
  moreover have "finite {r. 0 \<le> r \<and> r < sum_list ws \<and> pickw ws r = Some i}"
    by (rule finite_subset [of _ "{0..<sum_list ws}"]) auto
  ultimately have "0 < card {r. 0 \<le> r \<and> r < sum_list ws \<and> pickw ws r = Some i}"
    by (auto simp: card_gt_0_iff)
  then show False using share [OF assms(1,2)] assms(3) by simp
qed

end

lemma weighted_index_bounds:
  assumes "\<forall>w \<in> set ws. 0 \<le> w" "0 \<le> r"
  shows "weighted_index ws r = Some i \<longleftrightarrow>
     i < length ws \<and> sum_list (take i ws) \<le> r \<and> r < sum_list (take (Suc i) ws)"
  using assms
proof (induction ws arbitrary: r i)
  case Nil
  then show ?case by simp
next
  case (Cons w ws)
  show ?case
  proof (cases "r < w")
    case True
    have nn: "0 \<le> sum_list (take j ws)" for j
      using Cons.prems(1) by (intro sum_list_nonneg) (auto dest: in_set_takeD)
    show ?thesis
    proof (cases i)
      case 0
      then show ?thesis using True Cons.prems by simp
    next
      case (Suc j)
      then show ?thesis using True nn [of j] by simp
    qed
  next
    case False
    then show ?thesis
      using Cons.IH [of "r - w"] Cons.prems by (cases i) auto
  qed
qed

lemma weighted_index_share:
  assumes "\<forall>w \<in> set ws. 0 \<le> w" "i < length ws"
  shows "int (card {r. 0 \<le> r \<and> r < sum_list ws \<and> weighted_index ws r = Some i}) = ws ! i"
proof -
  have app: "sum_list (take (Suc i) ws) = sum_list (take i ws) + ws ! i"
    using assms(2) by (simp add: take_Suc_conv_app_nth)
  have lo: "0 \<le> sum_list (take i ws)"
    using assms(1) by (intro sum_list_nonneg) (auto dest: in_set_takeD)
  have "sum_list ws = sum_list (take (Suc i) ws) + sum_list (drop (Suc i) ws)"
    by (metis append_take_drop_id sum_list_append)
  moreover have "0 \<le> sum_list (drop (Suc i) ws)"
    using assms(1) by (intro sum_list_nonneg) (auto dest: in_set_dropD)
  ultimately have hi: "sum_list (take (Suc i) ws) \<le> sum_list ws" by simp
  have "{r. 0 \<le> r \<and> r < sum_list ws \<and> weighted_index ws r = Some i} =
      {sum_list (take i ws) ..< sum_list (take (Suc i) ws)}"
    using lo hi assms by (auto simp: weighted_index_bounds)
  moreover have "0 \<le> ws ! i" using assms by simp
  ultimately show ?thesis using app by simp
qed

lemma weighted_index_range: "weighted_index ws r = Some i \<Longrightarrow> i < length ws"
  by (induction ws arbitrary: r i) (auto simp: Let_def split: if_splits)

lemma weighted_index_total:
  "\<forall>w \<in> set ws. 0 \<le> w \<Longrightarrow> 0 \<le> r \<Longrightarrow> r < sum_list ws \<Longrightarrow>
   \<exists>i < length ws. weighted_index ws r = Some i"
proof (induction ws arbitrary: r)
  case Nil
  then show ?case by simp
next
  case (Cons w ws)
  show ?case
  proof (cases "r < w")
    case True
    then show ?thesis by simp
  next
    case False
    then obtain i where "i < length ws" "weighted_index ws (r - w) = Some i"
      using Cons.IH [of "r - w"] Cons.prems by auto
    then show ?thesis using False by (intro exI [of _ "Suc i"]) simp
  qed
qed

lemma weighted_index_db_range: "weighted_index_db ws r = Some i \<Longrightarrow> i < length ws"
  by (induction ws arbitrary: r i) (auto simp: Let_def split: if_splits)

lemma weighted_index_db_total:
  "ws \<noteq> [] \<Longrightarrow> r \<le> sum_list ws \<Longrightarrow> \<exists>i < length ws. weighted_index_db ws r = Some i"
proof (induction ws arbitrary: r)
  case Nil
  then show ?case by simp
next
  case (Cons w ws)
  show ?case
  proof (cases "r \<le> w")
    case True
    then show ?thesis by simp
  next
    case False
    then obtain i where "i < length ws" "weighted_index_db ws (r - w) = Some i"
      using Cons.IH [of "r - w"] Cons.prems by (cases "ws = []") auto
    then show ?thesis using False by (intro exI [of _ "Suc i"]) simp
  qed
qed

interpretation cachepick: proportional_choice weighted_index
  by unfold_locales (auto simp: weighted_index_share weighted_index_range intro: weighted_index_total)

interpretation dbpick: candidate_choice weighted_index_db
proof unfold_locales
  fix ws :: "int list" and r :: int
  assume "\<forall>w \<in> set ws. 0 \<le> w" "0 \<le> r" "r < sum_list ws"
  then show "\<exists>i < length ws. weighted_index_db ws r = Some i"
    by (intro weighted_index_db_total) auto
qed (rule weighted_index_db_range)

section \<open>The cache\<close>

record channel_cache =
  group2model2channels :: "(string, (string, int list) gomap) gomap"
  channelsIDM :: "(int, channel) gomap"

definition cache_list :: "channel_cache \<Rightarrow> string \<Rightarrow> string \<Rightarrow> int list" where
  "cache_list cc grp model =
     (case gm_get (group2model2channels cc) grp of None \<Rightarrow> []
      | Some m \<Rightarrow> (case gm_get m model of None \<Rightarrow> [] | Some ids \<Rightarrow> ids))"

text \<open>
  One iteration of the innermost loop of \<^verbatim>\<open>InitChannelCache\<close>: append the channel to the list of
  (grp, model). Writing into the missing inner map of an unknown grp panics (\<open>None\<close>).
\<close>

definition cache_append ::
    "int \<Rightarrow> string \<times> string \<Rightarrow> (string, (string, int list) gomap) gomap
     \<Rightarrow> (string, (string, int list) gomap) gomap option" where
  "cache_append cid gm g2m =
     (case gm_get g2m (fst gm) of None \<Rightarrow> None
      | Some m2c \<Rightarrow>
          (let ids = (case gm_get m2c (snd gm) of None \<Rightarrow> [] | Some l \<Rightarrow> l)
           in Some (gm_put g2m (fst gm) (gm_put m2c (snd gm) (ids @ [cid])))))"

fun cache_append_all ::
    "(int \<times> string \<times> string) list \<Rightarrow> (string, (string, int list) gomap) gomap
     \<Rightarrow> (string, (string, int list) gomap) gomap option" where
  "cache_append_all [] g2m = Some g2m"
| "cache_append_all ((cid, gm) # xs) g2m =
     (case cache_append cid gm g2m of None \<Rightarrow> None | Some g2m' \<Rightarrow> cache_append_all xs g2m')"

text \<open>The triples the three loops visit: enabled channels, their groups, their models.\<close>

definition cache_entries :: "channel list \<Rightarrow> (int \<times> string \<times> string) list" where
  "cache_entries channels =
     concat (map (\<lambda>c. if ch_Status c \<noteq> ChannelStatusEnabled then []
        else concat (map (\<lambda>grp. map (\<lambda>model. (ch_Id c, grp, model))
                (go_split (CHR '','') (ch_Models c))) (go_split (CHR '','') (ch_Group c)))) channels)"

definition keep_polling_index ::
    "(string \<Rightarrow> string list option) \<Rightarrow> (int, channel) gomap \<Rightarrow> channel \<Rightarrow> channel" where
  "keep_polling_index raws old c =
     (if \<not> IsMultiKey (ch_ChannelInfo c) then c
      else
        (let c1 = c\<lparr>ch_Keys := GetKeys raws c\<rparr>
         in if MultiKeyMode (ch_ChannelInfo c) = ''polling'' then
              (case gm_get old (ch_Id c) of None \<Rightarrow> c1
               | Some oc \<Rightarrow>
                   if IsMultiKey (ch_ChannelInfo oc) \<and> MultiKeyMode (ch_ChannelInfo oc) = ''polling''
                   then c1\<lparr>ch_ChannelInfo := (ch_ChannelInfo c1)
                          \<lparr>MultiKeyPollingIndex := MultiKeyPollingIndex (ch_ChannelInfo oc)\<rparr>\<rparr>
                   else c1)
            else c1))"

definition id_priority :: "(int, channel) gomap \<Rightarrow> int \<Rightarrow> int" where
  "id_priority idm cid = (case gm_get idm cid of None \<Rightarrow> 0 | Some c \<Rightarrow> GetPriority c)"

text \<open>
  \<^verbatim>\<open>InitChannelCache\<close>, with the rows of the two tables as arguments. \<^verbatim>\<open>sort.Slice\<close> leaves the order of
  equal priorities open; the model keeps the order of insertion.
\<close>

definition InitChannelCache ::
    "(string \<Rightarrow> string list option) \<Rightarrow> bool \<Rightarrow> channel list \<Rightarrow> ability list \<Rightarrow> channel_cache
     \<Rightarrow> channel_cache option" where
  "InitChannelCache raws MemoryCacheEnabled channels abilities cc =
     (if \<not> MemoryCacheEnabled then Some cc
      else
        (let idm = fold (\<lambda>c m. gm_put m (ch_Id c) c) channels [];
             g2m0 = fold (\<lambda>a m. gm_put m (ab_Group a) []) abilities []
         in case cache_append_all (cache_entries channels) g2m0 of
              None \<Rightarrow> None
            | Some g2m \<Rightarrow>
                Some \<lparr>group2model2channels =
                        map (\<lambda>(g, m2c). (g, map (\<lambda>(m, ids). (m, sort_key (\<lambda>i. - id_priority idm i) ids)) m2c)) g2m,
                      channelsIDM = map (\<lambda>(i, c). (i, keep_polling_index raws (channelsIDM cc) c)) idm\<rparr>))"

definition CacheGetChannel :: "bool \<Rightarrow> (int \<Rightarrow> channel option) \<Rightarrow> int \<Rightarrow> channel_cache \<Rightarrow> channel res" where
  "CacheGetChannel MemoryCacheEnabled db cid cc =
     (if \<not> MemoryCacheEnabled then (case db cid of None \<Rightarrow> Err ''record not found'' | Some c \<Rightarrow> Ok c)
      else (case gm_get (channelsIDM cc) cid of None \<Rightarrow> Err ''channel does not exist'' | Some c \<Rightarrow> Ok c))"

definition CacheGetChannelInfo ::
    "bool \<Rightarrow> (int \<Rightarrow> channel option) \<Rightarrow> int \<Rightarrow> channel_cache \<Rightarrow> channel_info res" where
  "CacheGetChannelInfo MemoryCacheEnabled db cid cc =
     (if \<not> MemoryCacheEnabled
      then (case db cid of None \<Rightarrow> Err ''record not found'' | Some c \<Rightarrow> Ok (ch_ChannelInfo c))
      else (case gm_get (channelsIDM cc) cid of None \<Rightarrow> Err ''channel does not exist''
            | Some c \<Rightarrow> Ok (ch_ChannelInfo c)))"

text \<open>
  \<^verbatim>\<open>CacheUpdateChannelStatus\<close>: a channel that is not enabled leaves every list, but only its
  first occurrence does (the \<^verbatim>\<open>break\<close>), which is \<open>remove1\<close>.
\<close>

definition CacheUpdateChannelStatus :: "bool \<Rightarrow> int \<Rightarrow> int \<Rightarrow> channel_cache \<Rightarrow> channel_cache" where
  "CacheUpdateChannelStatus MemoryCacheEnabled cid status cc =
     (if \<not> MemoryCacheEnabled then cc
      else
        (let cc1 = (case gm_get (channelsIDM cc) cid of None \<Rightarrow> cc
                    | Some c \<Rightarrow> cc\<lparr>channelsIDM := gm_put (channelsIDM cc) cid (c\<lparr>ch_Status := status\<rparr>)\<rparr>)
         in if status \<noteq> ChannelStatusEnabled then
              cc1\<lparr>group2model2channels :=
                 map (\<lambda>(g, m2c). (g, map (\<lambda>(m, ids). (m, remove1 cid ids)) m2c)) (group2model2channels cc1)\<rparr>
            else cc1))"

text \<open>\<^verbatim>\<open>CacheUpdateChannel\<close> reads the old entry for a log line: a channel not in the cache panics.\<close>

definition CacheUpdateChannel :: "bool \<Rightarrow> channel option \<Rightarrow> channel_cache \<Rightarrow> channel_cache option" where
  "CacheUpdateChannel MemoryCacheEnabled channel cc =
     (if \<not> MemoryCacheEnabled then Some cc
      else (case channel of None \<Rightarrow> Some cc
            | Some c \<Rightarrow> (case gm_get (channelsIDM cc) (ch_Id c) of None \<Rightarrow> None
                | Some _ \<Rightarrow> Some (cc\<lparr>channelsIDM := gm_put (channelsIDM cc) (ch_Id c) c\<rparr>))))"

section \<open>Choosing a channel\<close>

text \<open>The ids resolved through \<^verbatim>\<open>channelsIDM\<close>; \<open>None\<close> is the consistency error.\<close>

fun resolve_all :: "(int, channel) gomap \<Rightarrow> int list \<Rightarrow> channel list option" where
  "resolve_all idm [] = Some []"
| "resolve_all idm (i # is) =
     (case gm_get idm i of None \<Rightarrow> None
      | Some c \<Rightarrow> map_option (Cons c) (resolve_all idm is))"

definition unique_priorities :: "channel list \<Rightarrow> int list" where
  "unique_priorities cs = rev (sort (remdups (map GetPriority cs)))"

text \<open>
  The part of \<^verbatim>\<open>GetRandomSatisfiedChannel\<close> after the candidates are known: weights, smoothing
  and the draw. \<open>intn n\<close> is the value of \<^verbatim>\<open>rand.Intn(n)\<close>, which panics unless \<open>0 < n\<close>.
\<close>

definition smoothing :: "int \<Rightarrow> nat \<Rightarrow> int \<times> int \<times> int" where
  "smoothing sumWeight n =
     (if sumWeight = 0 then (int n * 100, 1, 100)
      else if go_quot sumWeight (int n) < 10 then (sumWeight, 100, 0)
      else (sumWeight, 1, 0))"

definition choose_target ::
    "(int list \<Rightarrow> int list \<Rightarrow> int list option) \<Rightarrow> (int \<Rightarrow> int) \<Rightarrow> channel list \<Rightarrow> channel res" where
  "choose_target adjust intn targets =
     (let originalWeights = map GetWeight targets;
          weights = (case adjust (map ch_Id targets) originalWeights of
                       None \<Rightarrow> originalWeights | Some ws \<Rightarrow> ws);
          (sumWeight, smoothingFactor, smoothingAdjustment) = smoothing (sum_list weights) (length targets);
          totalWeight = sumWeight * smoothingFactor
      in if totalWeight \<le> 0 then Panic
         else (case weighted_index (map (\<lambda>w. w * smoothingFactor + smoothingAdjustment) weights) (intn totalWeight) of
                 None \<Rightarrow> Err ''channel not found''
               | Some i \<Rightarrow> if i < length targets then Ok (targets ! i) else Err ''channel not found''))"

definition GetRandomSatisfiedChannel ::
    "(string \<Rightarrow> string) \<Rightarrow> (int list \<Rightarrow> int list \<Rightarrow> int list option) \<Rightarrow> (int \<Rightarrow> int) \<Rightarrow> channel_cache
     \<Rightarrow> string \<Rightarrow> string \<Rightarrow> int \<Rightarrow> channel option res" where
  "GetRandomSatisfiedChannel norm_model adjust intn cc grp model retry =
     (let exact = cache_list cc grp model;
          channels = (if exact = [] then cache_list cc grp (norm_model model) else exact)
      in if channels = [] then Ok None
         else if length channels = 1 then
           (case gm_get (channelsIDM cc) (hd channels) of
              Some c \<Rightarrow> Ok (Some c)
            | None \<Rightarrow> Err ''inconsistent'')
         else
           (case resolve_all (channelsIDM cc) channels of
              None \<Rightarrow> Err ''inconsistent''
            | Some cs \<Rightarrow>
                (let prios = unique_priorities cs;
                     retry' = (if int (length prios) \<le> retry then int (length prios) - 1 else retry)
                 in if retry' < 0 then Panic
                    else
                      (let targetPriority = prios ! nat retry';
                           targets = filter (\<lambda>c. GetPriority c = targetPriority) cs
                       in if targets = [] then Err ''no channel found''
                          else (case choose_target adjust intn targets of
                                  Ok c \<Rightarrow> Ok (Some c) | Err e \<Rightarrow> Err e | Panic \<Rightarrow> Panic)))))"

section \<open>The database path\<close>

definition enabled_abilities :: "ability list \<Rightarrow> string \<Rightarrow> string \<Rightarrow> ability list" where
  "enabled_abilities t grp model =
     filter (\<lambda>a. ab_Group a = grp \<and> ab_Model a = model \<and> ab_Enabled a) t"

text \<open>A \<^verbatim>\<open>NULL\<close> priority is skipped by \<^verbatim>\<open>MAX\<close>, cannot be scanned into an \<^verbatim>\<open>int\<close>, and equals nothing.\<close>

definition getPriority :: "ability list \<Rightarrow> string \<Rightarrow> string \<Rightarrow> int \<Rightarrow> int res" where
  "getPriority t grp model retry =
     (let rows = enabled_abilities t grp model;
          priorities = rev (sort (remdups (map the (filter (\<lambda>p. p \<noteq> None) (map ab_Priority rows)))))
      in if None \<in> set (map ab_Priority rows) then Err ''scan error''
         else if priorities = [] then Err ''inconsistent''
         else if int (length priorities) \<le> retry then Ok (last priorities)
         else if retry < 0 then Panic
         else Ok (priorities ! nat retry))"

definition getChannelQuery :: "ability list \<Rightarrow> string \<Rightarrow> string \<Rightarrow> int \<Rightarrow> ability list res" where
  "getChannelQuery t grp model retry =
     (let rows = enabled_abilities t grp model;
          known = filter (\<lambda>a. ab_Priority a \<noteq> None) rows
      in if retry \<noteq> 0 then
           (case getPriority t grp model retry of
              Err e \<Rightarrow> Err e | Panic \<Rightarrow> Panic
            | Ok p \<Rightarrow> Ok (filter (\<lambda>a. ab_Priority a = Some p) rows))
         else if known = [] then Ok []
         else Ok (filter (\<lambda>a. ab_Priority a = Some (Max (set (map (the \<circ> ab_Priority) known)))) rows))"

text \<open>
  \<^verbatim>\<open>GetChannel\<close>: \<open>rnd n\<close> is \<^verbatim>\<open>common.GetRandomInt(n)\<close>, \<open>db\<close> the lookup of a channel row. If the
  loop chose nothing, the cid stays 0.
\<close>

definition GetChannel ::
    "(int \<Rightarrow> int) \<Rightarrow> (int \<Rightarrow> channel option) \<Rightarrow> ability list \<Rightarrow> string \<Rightarrow> string \<Rightarrow> int
     \<Rightarrow> channel option res" where
  "GetChannel rnd db t grp model retry =
     (case getChannelQuery t grp model retry of
        Err e \<Rightarrow> Err e | Panic \<Rightarrow> Panic
      | Ok rows \<Rightarrow>
          (let abilities = sort_key (\<lambda>a. - ab_Weight a) rows
           in if abilities = [] then Ok None
              else
                (let ws = map (\<lambda>a. ab_Weight a + 10) abilities;
                     cid = (case weighted_index_db ws (rnd (sum_list ws)) of
                             None \<Rightarrow> 0 | Some i \<Rightarrow> ab_ChannelId (abilities ! i))
                 in (case db cid of None \<Rightarrow> Err ''record not found'' | Some c \<Rightarrow> Ok (Some c)))))"

section \<open>Lemmas on building the cache\<close>

definition g2m_list :: "(string, (string, int list) gomap) gomap \<Rightarrow> string \<Rightarrow> string \<Rightarrow> int list" where
  "g2m_list g2m grp model =
     (case gm_get g2m grp of None \<Rightarrow> []
      | Some m \<Rightarrow> (case gm_get m model of None \<Rightarrow> [] | Some ids \<Rightarrow> ids))"

lemma cache_list_g2m: "cache_list cc = g2m_list (group2model2channels cc)"
  by (intro ext) (simp add: cache_list_def g2m_list_def)

lemma g2m_list_map:
  assumes "f [] = []"
  shows "g2m_list (map (\<lambda>(g, m2c). (g, map (\<lambda>(m, ids). (m, f ids)) m2c)) g2m) grp model =
     f (g2m_list g2m grp model)"
  using assms by (auto simp: g2m_list_def split: option.splits)

lemma cache_append_Some:
  assumes "cache_append cid (g, m) g2m = Some g2m'"
  shows "g2m_list g2m' g' m' = g2m_list g2m g' m' @ (if g' = g \<and> m' = m then [cid] else []) \<and>
     (gm_get g2m' g' = None \<longleftrightarrow> gm_get g2m g' = None)"
  using assms by (auto simp: cache_append_def g2m_list_def Let_def split: option.splits if_splits)

lemma cache_append_all_Some:
  assumes "cache_append_all xs g2m = Some g2m'"
  shows "g2m_list g2m' g m = g2m_list g2m g m @ map fst (filter (\<lambda>x. snd x = (g, m)) xs) \<and>
     (gm_get g2m' g = None \<longleftrightarrow> gm_get g2m g = None)"
  using assms
proof (induction xs g2m arbitrary: g2m' rule: cache_append_all.induct)
  case (1 g2m)
  then show ?case by simp
next
  case (2 cid gm xs g2m)
  then obtain g2m1 where a: "cache_append cid gm g2m = Some g2m1" "cache_append_all xs g2m1 = Some g2m'"
    by (auto split: option.splits)
  obtain g0 m0 where gm: "gm = (g0, m0)" by (cases gm)
  from "2.IH" [OF a] cache_append_Some [of cid g0 m0 g2m g2m1 g m] a(1) gm show ?case by auto
qed

lemma cache_append_all_None:
  "cache_append_all xs g2m = None \<longleftrightarrow> (\<exists>x \<in> set xs. gm_get g2m (fst (snd x)) = None)"
proof (induction xs g2m rule: cache_append_all.induct)
  case (1 g2m)
  then show ?case by simp
next
  case (2 cid gm xs g2m)
  obtain g0 m0 where gm: "gm = (g0, m0)" by (cases gm)
  show ?case
  proof (cases "cache_append cid gm g2m")
    case None
    then show ?thesis by (auto simp: cache_append_def Let_def split: option.splits)
  next
    case (Some g2m1)
    then have "gm_get g2m g0 \<noteq> None" by (auto simp: cache_append_def gm split: option.splits)
    then show ?thesis
      using Some "2.IH" [OF Some] cache_append_Some [of cid g0 m0 g2m g2m1] gm by auto
  qed
qed

definition serves :: "channel \<Rightarrow> string \<Rightarrow> string \<Rightarrow> bool" where
  "serves c grp model \<longleftrightarrow> ch_Status c = ChannelStatusEnabled \<and>
     grp \<in> set (go_split (CHR '','') (ch_Group c)) \<and> model \<in> set (go_split (CHR '','') (ch_Models c))"

lemma cache_entries_set:
  "(cid, g, m) \<in> set (cache_entries cs) \<longleftrightarrow> (\<exists>c \<in> set cs. ch_Id c = cid \<and> serves c g m)"
  by (force simp: cache_entries_def serves_def split: if_splits)

lemma g2m_list_empty_groups:
  "g2m_list (fold (\<lambda>a m. gm_put m (ab_Group a) []) ts []) g m = []"
  by (simp add: g2m_list_def gm_get_fold_put_const)

section \<open>Properties\<close>

text \<open>
  Building the cache panics exactly when some enabled channel names a group that no row of
  the ability table has (the write into a missing inner map): a refresh while the ability
  table is empty or behind kills the process.
\<close>

theorem InitChannelCache_panics_iff:
  "InitChannelCache raws True cs ts cc = None \<longleftrightarrow>
     (\<exists>c \<in> set cs. ch_Status c = ChannelStatusEnabled \<and>
        (\<exists>g \<in> set (go_split (CHR '','') (ch_Group c)). g \<notin> ab_Group ` set ts))"
proof -
  have ne: "\<exists>m. m \<in> set (go_split (CHR '','') (ch_Models c))" for c
    by (meson go_split_nonempty last_in_set)
  have "InitChannelCache raws True cs ts cc = None \<longleftrightarrow> cache_append_all (cache_entries cs)
      (fold (\<lambda>a m. gm_put m (ab_Group a) []) ts []) = None"
    by (simp add: InitChannelCache_def Let_def split: option.split)
  also have "\<dots> \<longleftrightarrow> (\<exists>x \<in> set (cache_entries cs). fst (snd x) \<notin> ab_Group ` set ts)"
    by (simp add: cache_append_all_None gm_get_fold_put_const)
  also have "\<dots> \<longleftrightarrow> (\<exists>c \<in> set cs. ch_Status c = ChannelStatusEnabled \<and>
        (\<exists>g \<in> set (go_split (CHR '','') (ch_Group c)). g \<notin> ab_Group ` set ts))"
  proof
    assume "\<exists>x \<in> set (cache_entries cs). fst (snd x) \<notin> ab_Group ` set ts"
    then obtain cid g m where "(cid, g, m) \<in> set (cache_entries cs)" "g \<notin> ab_Group ` set ts" by force
    then show "\<exists>c \<in> set cs. ch_Status c = ChannelStatusEnabled \<and>
        (\<exists>g \<in> set (go_split (CHR '','') (ch_Group c)). g \<notin> ab_Group ` set ts)"
      unfolding cache_entries_set serves_def by blast
  next
    assume "\<exists>c \<in> set cs. ch_Status c = ChannelStatusEnabled \<and>
        (\<exists>g \<in> set (go_split (CHR '','') (ch_Group c)). g \<notin> ab_Group ` set ts)"
    then obtain c g where c: "c \<in> set cs" "ch_Status c = ChannelStatusEnabled"
        "g \<in> set (go_split (CHR '','') (ch_Group c))" "g \<notin> ab_Group ` set ts" by blast
    obtain m where "m \<in> set (go_split (CHR '','') (ch_Models c))" using ne by blast
    with c have "(ch_Id c, g, m) \<in> set (cache_entries cs)"
      unfolding cache_entries_set serves_def by blast
    with c(4) show "\<exists>x \<in> set (cache_entries cs). fst (snd x) \<notin> ab_Group ` set ts" by force
  qed
  finally show ?thesis .
qed

text \<open>
  The routing table is right when it is built: a channel is listed for a group and a model
  exactly when it is enabled and serves both, every list is sorted by falling priority, and
  every listed channel resolves.
\<close>

theorem InitChannelCache_lists:
  assumes "InitChannelCache raws True cs ts cc = Some cc'"
  shows "(cid \<in> set (cache_list cc' g m) \<longleftrightarrow> (\<exists>c \<in> set cs. ch_Id c = cid \<and> serves c g m)) \<and>
     sorted (map (\<lambda>i. - id_priority (channelsIDM cc') i) (cache_list cc' g m)) \<and>
     (cid \<in> set (cache_list cc' g m) \<longrightarrow> gm_get (channelsIDM cc') cid \<noteq> None)"
proof -
  define idm where "idm = fold (\<lambda>c m. gm_put m (ch_Id c) c) cs []"
  define g2m0 where "g2m0 = fold (\<lambda>a m. gm_put m (ab_Group a) ([] :: (string, int list) gomap)) ts []"
  obtain g2m where g2m: "cache_append_all (cache_entries cs) g2m0 = Some g2m"
    and cc': "cc' = \<lparr>group2model2channels =
        map (\<lambda>(g, m2c). (g, map (\<lambda>(m, ids). (m, sort_key (\<lambda>i. - id_priority idm i) ids)) m2c)) g2m,
        channelsIDM = map (\<lambda>(i, c). (i, keep_polling_index raws (channelsIDM cc) c)) idm\<rparr>"
    using assms by (auto simp: InitChannelCache_def Let_def idm_def g2m0_def split: option.splits)
  have list: "cache_list cc' g m = sort_key (\<lambda>i. - id_priority idm i) (g2m_list g2m g m)"
    by (simp add: cache_list_g2m cc' g2m_list_map)
  have set: "set (cache_list cc' g m) = {i. (i, g, m) \<in> set (cache_entries cs)}"
    unfolding list using cache_append_all_Some [OF g2m, of g m]
    by (force simp: g2m0_def g2m_list_empty_groups)
  have prio: "GetPriority (keep_polling_index raws old c) = GetPriority c" for old c
    by (auto simp: keep_polling_index_def GetPriority_def Let_def split: option.splits)
  have idm_get: "gm_get (channelsIDM cc') i =
      map_option (keep_polling_index raws (channelsIDM cc)) (gm_get idm i)" for i
    by (simp add: cc')
  have resolves: "c \<in> set cs \<Longrightarrow> gm_get idm (ch_Id c) \<noteq> None" for c
    unfolding idm_def gm_get_fold_put by (auto simp: find_None_iff split: option.splits)
  have same: "id_priority (channelsIDM cc') = id_priority idm"
    by (intro ext) (simp add: id_priority_def idm_get prio split: option.splits)
  show ?thesis
  proof (intro conjI)
    show "sorted (map (\<lambda>i. - id_priority (channelsIDM cc') i) (cache_list cc' g m))"
      by (simp add: list same)
    show "cid \<in> set (cache_list cc' g m) \<longleftrightarrow> (\<exists>c \<in> set cs. ch_Id c = cid \<and> serves c g m)"
      unfolding set mem_Collect_eq cache_entries_set ..
    then show "cid \<in> set (cache_list cc' g m) \<longrightarrow> gm_get (channelsIDM cc') cid \<noteq> None"
      using resolves by (auto simp: idm_get)
  qed
qed

definition route_channel :: "int \<Rightarrow> int \<Rightarrow> int \<Rightarrow> channel" where
  "route_channel cid prio weight = demo_channel\<lparr>ch_Id := cid, ch_Priority := Some prio,
     ch_Weight := Some weight, ch_Group := ''vip,default'', ch_Models := ''m''\<rparr>"

theorem InitChannelCache_lists_witness:
  "7 \<in> set (cache_list (the (InitChannelCache (\<lambda>_. None) True [route_channel 7 0 1]
      [mk_ability (route_channel 7 0 1) ''vip'' ''m'', mk_ability (route_channel 7 0 1) ''default'' ''m'']
      \<lparr>group2model2channels = [], channelsIDM = []\<rparr>)) ''vip'' ''m'')"
proof -
  let ?cs = "[route_channel 7 0 1]"
  let ?ts = "[mk_ability (route_channel 7 0 1) ''vip'' ''m'', mk_ability (route_channel 7 0 1) ''default'' ''m'']"
  let ?cc = "\<lparr>group2model2channels = [], channelsIDM = []\<rparr>"
  have "\<not> (\<exists>c \<in> set ?cs. ch_Status c = ChannelStatusEnabled \<and>
      (\<exists>g \<in> set (go_split (CHR '','') (ch_Group c)). g \<notin> ab_Group ` set ?ts))"
    by (simp add: route_channel_def demo_channel_def mk_ability_def)
  then have "cache_append_all (cache_entries ?cs) (fold (\<lambda>a m. gm_put m (ab_Group a) []) ?ts []) \<noteq> None"
    by (auto simp: cache_append_all_None gm_get_fold_put_const cache_entries_def split: if_splits)
  then obtain cc' where "InitChannelCache (\<lambda>_. None) True ?cs ?ts ?cc = Some cc'"
    by (auto simp: InitChannelCache_def Let_def split: option.splits)
  from InitChannelCache_lists [OF this, of 7 "''vip''" "''m''"] this show ?thesis
    by (simp add: route_channel_def demo_channel_def serves_def channel_status_defs)
qed

lemma g2m_list_remove1:
  "g2m_list (map (\<lambda>(g, m2c). (g, map (\<lambda>(m, ids). (m, remove1 cid ids)) m2c)) g2m) g m =
     remove1 cid (g2m_list g2m g m)"
  by (rule g2m_list_map) simp

lemma in_remove1_iff: "x \<in> set (remove1 x xs) \<longleftrightarrow> 2 \<le> count_list xs x"
proof (induction xs)
  case (Cons y ys)
  have "x \<in> set ys \<longleftrightarrow> 1 \<le> count_list ys x"
    using count_list_0_iff [of ys x] by linarith
  then show ?case using Cons by auto
qed simp

text \<open>
  Disabling a channel takes it out of exactly those lists in which it occurs once: a
  channel listed twice for a model (a repeated model or group name) stays selectable after it
  has been disabled, as only the first occurrence is removed. Other channels keep their
  places.
\<close>

theorem CacheUpdateChannelStatus_lists:
  assumes "status \<noteq> ChannelStatusEnabled"
  shows "(cid \<in> set (cache_list (CacheUpdateChannelStatus True cid status cc) g m) \<longleftrightarrow>
       2 \<le> count_list (cache_list cc g m) cid) \<and>
     filter (\<lambda>i. i \<noteq> cid) (cache_list (CacheUpdateChannelStatus True cid status cc) g m) =
       filter (\<lambda>i. i \<noteq> cid) (cache_list cc g m)"
proof -
  have "cache_list (CacheUpdateChannelStatus True cid status cc) g m = remove1 cid (cache_list cc g m)"
    using assms by (simp add: CacheUpdateChannelStatus_def cache_list_g2m g2m_list_remove1 Let_def
        split: option.splits)
  moreover have "filter (\<lambda>i. i \<noteq> cid) (remove1 cid xs) = filter (\<lambda>i. i \<noteq> cid) xs" for xs
    by (induction xs) auto
  ultimately show ?thesis by (simp add: in_remove1_iff)
qed

theorem CacheUpdateChannelStatus_lists_witness:
  "7 \<in> set (cache_list (CacheUpdateChannelStatus True 7 3
      \<lparr>group2model2channels = [(''vip'', [(''m'', [7, 7])])], channelsIDM = []\<rparr>) ''vip'' ''m'')"
  using CacheUpdateChannelStatus_lists [of 3 7
      "\<lparr>group2model2channels = [(''vip'', [(''m'', [7, 7])])], channelsIDM = []\<rparr>" "''vip''" "''m''"]
  by (simp add: channel_status_defs cache_list_def gm_get_def)

section \<open>Properties of the choice\<close>

lemma resolve_all_Some:
  "resolve_all idm is = Some cs \<Longrightarrow> map Some cs = map (gm_get idm) is"
  by (induction "is" arbitrary: cs) (auto split: option.splits)

lemma resolve_all_None: "resolve_all idm is = None \<longleftrightarrow> (\<exists>i \<in> set is. gm_get idm i = None)"
  by (induction "is") (auto split: option.splits)

lemma unique_priorities_set [simp]: "set (unique_priorities cs) = GetPriority ` set cs"
  by (simp add: unique_priorities_def)

lemma unique_priorities_desc: "sorted_wrt (>) (unique_priorities cs)"
proof -
  have "sorted_wrt (<) (sort (remdups (map GetPriority cs)))"
    by (simp add: strict_sorted_iff)
  then show ?thesis by (simp add: unique_priorities_def sorted_wrt_rev)
qed

lemma smoothing_effective:
  assumes "\<forall>w \<in> set ws. 0 \<le> w" "ws \<noteq> []" "smoothing (sum_list ws) (length ws) = (s, f, a)"
  shows "sum_list (map (\<lambda>w. w * f + a) ws) = s * f \<and> 0 < s * f \<and> 0 \<le> f \<and> 0 \<le> a"
proof -
  have lin: "sum_list (map (\<lambda>w. w * f + a) ws) = sum_list ws * f + int (length ws) * a"
    by (induction ws) (simp_all add: algebra_simps)
  have nn: "0 \<le> sum_list ws" using assms(1) by (simp add: sum_list_nonneg)
  show ?thesis
  proof (cases "sum_list ws = 0")
    case True
    then have e: "s = int (length ws) * 100" "f = 1" "a = 100"
      using assms(3) by (simp_all add: smoothing_def)
    show ?thesis unfolding lin using assms(2) by (simp add: True e)
  next
    case False
    then show ?thesis using assms(3) lin nn by (auto simp: smoothing_def split: if_splits)
  qed
qed

text \<open>What the code relies on of the hub: one weight per channel, none negative.\<close>

definition adjust_ok :: "(int list \<Rightarrow> int list \<Rightarrow> int list option) \<Rightarrow> bool" where
  "adjust_ok adjust \<longleftrightarrow> (\<forall>ids ws ws'. length ids = length ws \<longrightarrow> (\<forall>w \<in> set ws. 0 \<le> w) \<longrightarrow>
      adjust ids ws = Some ws' \<longrightarrow> length ws' = length ws \<and> (\<forall>w \<in> set ws'. 0 \<le> w))"

definition target_weights :: "(int list \<Rightarrow> int list \<Rightarrow> int list option) \<Rightarrow> channel list \<Rightarrow> int list" where
  "target_weights adjust targets =
     (case adjust (map ch_Id targets) (map GetWeight targets) of
        None \<Rightarrow> map GetWeight targets | Some ws \<Rightarrow> ws)"

lemma target_weights_ok:
  assumes "adjust_ok adjust" "\<forall>c \<in> set targets. 0 \<le> GetWeight c"
  shows "length (target_weights adjust targets) = length targets \<and>
     (\<forall>w \<in> set (target_weights adjust targets). 0 \<le> w)"
proof (cases "adjust (map ch_Id targets) (map GetWeight targets)")
  case None
  then show ?thesis using assms(2) by (simp add: target_weights_def)
next
  case (Some ws)
  have "\<forall>w \<in> set (map GetWeight targets). 0 \<le> w" using assms(2) by simp
  then show ?thesis
    using Some assms(1) unfolding adjust_ok_def target_weights_def by (metis length_map option.simps(5))
qed

lemma choose_target_eq:
  assumes "adjust_ok adjust" "\<forall>c \<in> set targets. 0 \<le> GetWeight c" "targets \<noteq> []"
    and "smoothing (sum_list (target_weights adjust targets)) (length targets) = (s, f, a)"
  shows "choose_target adjust intn targets =
     (case weighted_index (map (\<lambda>w. w * f + a) (target_weights adjust targets)) (intn (s * f)) of
        None \<Rightarrow> Err ''channel not found'' | Some i \<Rightarrow> Ok (targets ! i))"
proof -
  let ?ws = "target_weights adjust targets"
  have ok: "length ?ws = length targets" "\<forall>w \<in> set ?ws. 0 \<le> w"
    using target_weights_ok [OF assms(1,2)] by auto
  then have "0 < s * f"
    using smoothing_effective [of ?ws s f a] assms(3,4) by (cases ?ws) auto
  moreover have "weighted_index (map (\<lambda>w. w * f + a) ?ws) r = Some i \<Longrightarrow> i < length targets" for r i
    using weighted_index_range [of "map (\<lambda>w. w * f + a) ?ws" r i] ok(1) by simp
  ultimately show ?thesis
    unfolding choose_target_def Let_def target_weights_def [symmetric] assms(4) prod.case
    by (auto split: option.splits)
qed

lemma choose_target_Ok:
  assumes "adjust_ok adjust" "\<forall>c \<in> set targets. 0 \<le> GetWeight c" "targets \<noteq> []"
    and "\<And>n. 0 < n \<Longrightarrow> 0 \<le> intn n \<and> intn n < n"
  shows "\<exists>c \<in> set targets. choose_target adjust intn targets = Ok c"
proof -
  let ?ws = "target_weights adjust targets"
  obtain s f a where sm: "smoothing (sum_list ?ws) (length targets) = (s, f, a)"
    by (cases "smoothing (sum_list ?ws) (length targets)") auto
  have ok: "length ?ws = length targets" "\<forall>w \<in> set ?ws. 0 \<le> w"
    using target_weights_ok [OF assms(1,2)] by auto
  then have eff: "sum_list (map (\<lambda>w. w * f + a) ?ws) = s * f" "0 < s * f" "0 \<le> f" "0 \<le> a"
    using smoothing_effective [of ?ws s f a] assms(3) sm by (cases ?ws, auto)+
  have "\<forall>w \<in> set (map (\<lambda>w. w * f + a) ?ws). 0 \<le> w" using ok(2) eff(3,4) by auto
  from cachepick.chosen_member [OF _ this, of targets "intn (s * f)"]
  show ?thesis
    using ok(1) eff assms(4) [OF eff(2)] choose_target_eq [OF assms(1-3) sm, of intn] by auto
qed

text \<open>
  The draw is fair to the weights: of the \<open>s * f\<close> equally likely values of the random
  number, exactly \<open>w * f + a\<close> choose the candidate with weight \<open>w\<close>, where \<open>f\<close> and \<open>a\<close> are the
  smoothing factor and adjustment; with all weights zero every candidate has the same share.
\<close>

theorem choose_target_share:
  assumes "adjust_ok adjust" and "\<forall>c \<in> set targets. 0 \<le> GetWeight c" and "distinct targets"
    and "i < length targets"
    and "smoothing (sum_list (target_weights adjust targets)) (length targets) = (s, f, a)"
  shows "int (card {r. 0 \<le> r \<and> r < s * f \<and> choose_target adjust (\<lambda>_. r) targets = Ok (targets ! i)})
     = target_weights adjust targets ! i * f + a"
proof -
  let ?ws = "target_weights adjust targets"
  let ?es = "map (\<lambda>w. w * f + a) ?ws"
  have ne: "targets \<noteq> []" using assms(4) by auto
  have ok: "length ?ws = length targets" "\<forall>w \<in> set ?ws. 0 \<le> w"
    using target_weights_ok [OF assms(1,2)] by auto
  then have eff: "sum_list ?es = s * f" "0 \<le> f" "0 \<le> a"
    using smoothing_effective [of ?ws s f a] ne assms(5) by (cases ?ws, auto)+
  have nn: "\<forall>w \<in> set ?es. 0 \<le> w" using ok(2) eff(2,3) by auto
  have "choose_target adjust (\<lambda>_. r) targets = Ok (targets ! i) \<longleftrightarrow> weighted_index ?es r = Some i" for r
    unfolding choose_target_eq [OF assms(1,2) ne assms(5)]
    using assms(3,4) weighted_index_range [of ?es r] ok(1)
    by (auto simp: nth_eq_iff_index_eq split: option.splits)
  then have "{r. 0 \<le> r \<and> r < s * f \<and> choose_target adjust (\<lambda>_. r) targets = Ok (targets ! i)} =
      {r. 0 \<le> r \<and> r < sum_list ?es \<and> weighted_index ?es r = Some i}"
    by (simp add: eff(1))
  then show ?thesis
    using cachepick.share [OF nn, of i] assms(4) ok(1) by simp
qed

theorem choose_target_share_witness:
  "int (card {r. 0 \<le> r \<and> r < 40 * 1 \<and>
      choose_target (\<lambda>_ _. None) (\<lambda>_. r) [route_channel 1 0 30, route_channel 2 0 10] = Ok (route_channel 1 0 30)})
   = 30"
proof -
  have w: "GetWeight (route_channel i p k) = wrap64 k" for i p k
    by (simp add: GetWeight_def route_channel_def)
  have neq: "route_channel 1 0 30 \<noteq> route_channel 2 0 10"
    by (simp add: route_channel_def demo_channel_def)
  have ok: "adjust_ok (\<lambda>_ _. None)" by (simp add: adjust_ok_def)
  have tw: "target_weights (\<lambda>_ _. None) [route_channel 1 0 30, route_channel 2 0 10] = [30, 10]"
    by (simp add: target_weights_def w wrap64_def)
  show ?thesis
    using choose_target_share [OF ok, of "[route_channel 1 0 30, route_channel 2 0 10]" 0 40 1 0] neq
    by (simp add: tw w wrap64_def smoothing_def go_quot_def)
qed

text \<open>
  C20. On a consistent cache the selection neither fails nor panics: it returns no channel
  exactly when neither the model nor its normalised name has candidates, and otherwise a
  candidate of the \<open>retry\<close>-th best priority (the worst one once the retries exceed the number
  of priorities).
\<close>

theorem GetRandomSatisfiedChannel_tier:
  fixes cc :: channel_cache and grp model :: string and norm_model :: "string \<Rightarrow> string"
  defines "cands \<equiv> if cache_list cc grp model = [] then cache_list cc grp (norm_model model) else cache_list cc grp model"
  assumes "adjust_ok adjust" and "\<forall>n>0. 0 \<le> intn n \<and> intn n < n" and "0 \<le> retry"
    and "resolve_all (channelsIDM cc) cands = Some cs" and "\<forall>c \<in> set cs. 0 \<le> GetWeight c"
  shows "if cands = [] then GetRandomSatisfiedChannel norm_model adjust intn cc grp model retry = Ok None
     else (\<exists>c \<in> set cs. GetRandomSatisfiedChannel norm_model adjust intn cc grp model retry = Ok (Some c) \<and>
        GetPriority c = unique_priorities cs ! min (nat retry) (length (unique_priorities cs) - 1))"
proof (cases "cands = []")
  case True
  then show ?thesis by (auto simp: GetRandomSatisfiedChannel_def Let_def cands_def)
next
  case ne: False
  have len: "length cs = length cands"
    using resolve_all_Some [OF assms(5)] by (metis length_map)
  let ?p = "unique_priorities cs"
  have pne: "?p \<noteq> []" using ne len by (metis image_is_empty length_0_conv list.set(1) set_empty unique_priorities_set)
  let ?k = "min (nat retry) (length ?p - 1)"
  have k: "?k < length ?p" using pne by (cases ?p) auto
  show ?thesis
  proof (cases "length cands = 1")
    case True
    then obtain i c where one: "cands = [i]" "cs = [c]" "gm_get (channelsIDM cc) i = Some c"
      using resolve_all_Some [OF assms(5)] len by (auto simp: length_Suc_conv)
    moreover have "?p = [GetPriority c]" by (simp add: one unique_priorities_def)
    ultimately show ?thesis
      unfolding GetRandomSatisfiedChannel_def Let_def cands_def [symmetric] by simp
  next
    case False
    let ?targets = "filter (\<lambda>c. GetPriority c = ?p ! ?k) cs"
    have "?p ! ?k \<in> GetPriority ` set cs" using k nth_mem unique_priorities_set by metis
    then have tne: "?targets \<noteq> []" by (auto simp: filter_empty_conv)
    have rt: "(if int (length ?p) \<le> retry then int (length ?p) - 1 else retry) = int ?k"
      using assms(4) k by auto
    have nn: "\<forall>c \<in> set ?targets. 0 \<le> GetWeight c" using assms(6) by auto
    obtain c where c: "c \<in> set ?targets" "choose_target adjust intn ?targets = Ok c"
      using choose_target_Ok [OF assms(2) nn tne, of intn] assms(3) by auto
    have "GetRandomSatisfiedChannel norm_model adjust intn cc grp model retry = Ok (Some c)"
      unfolding GetRandomSatisfiedChannel_def Let_def cands_def [symmetric]
      using ne False tne c(2) assms(5) by (simp add: rt)
    then show ?thesis using ne c(1) by auto
  qed
qed

theorem GetRandomSatisfiedChannel_tier_witness:
  "\<exists>c \<in> set [route_channel 1 5 10, route_channel 2 0 10].
     GetRandomSatisfiedChannel id (\<lambda>_ _. None) (\<lambda>_. 0)
       \<lparr>group2model2channels = [(''vip'', [(''m'', [1, 2])])],
         channelsIDM = [(1, route_channel 1 5 10), (2, route_channel 2 0 10)]\<rparr> ''vip'' ''m'' 1 = Ok (Some c) \<and>
     GetPriority c = 0"
proof -
  have u: "unique_priorities [route_channel 1 5 10, route_channel 2 0 10] = [5, 0]"
    by (simp add: unique_priorities_def GetPriority_def route_channel_def)
  have w: "GetWeight (route_channel i p k) = wrap64 k" for i p k
    by (simp add: GetWeight_def route_channel_def)
  show ?thesis
    using GetRandomSatisfiedChannel_tier [of "\<lambda>_ _. None" "\<lambda>_. 0" 1
        "\<lparr>group2model2channels = [(''vip'', [(''m'', [1, 2])])],
          channelsIDM = [(1, route_channel 1 5 10), (2, route_channel 2 0 10)]\<rparr>" "''vip''" "''m''" id
        "[route_channel 1 5 10, route_channel 2 0 10]"]
    by (simp add: adjust_ok_def cache_list_def gm_get_def u w wrap64_def)
qed

lemma GetChannel_is_candidate:
  assumes "GetChannel rnd db t grp model retry = Ok (Some c)"
    and "\<forall>a \<in> set t. 0 \<le> ab_Weight a" and "\<And>n. 0 < n \<Longrightarrow> 0 \<le> rnd n \<and> rnd n < n"
  shows "\<exists>a \<in> set (enabled_abilities t grp model). db (ab_ChannelId a) = Some c"
proof -
  obtain rows where rows: "getChannelQuery t grp model retry = Ok rows"
    using assms(1) by (auto simp: GetChannel_def split: res.splits)
  have sub: "set rows \<subseteq> set (enabled_abilities t grp model)"
    using rows by (auto simp: getChannelQuery_def Let_def split: if_splits res.splits)
  let ?ab = "sort_key (\<lambda>a. - ab_Weight a) rows"
  let ?ws = "map (\<lambda>a. ab_Weight a + 10) ?ab"
  have ne: "?ab \<noteq> []" using assms(1) rows by (auto simp: GetChannel_def Let_def)
  have nn: "\<forall>w \<in> set ?ws. 0 \<le> w"
    using sub assms(2) by (fastforce simp: enabled_abilities_def)
  have ten: "10 \<le> ab_Weight a + 10" if "a \<in> set ?ab" for a
    using that sub assms(2) by (auto simp: enabled_abilities_def)
  have "ab_Weight (hd ?ab) + 10 \<le> sum_list ?ws"
  proof (rule sum_list_nonneg_le)
    show "0 \<le> ab_Weight x + 10" if "x \<in> set ?ab" for x using ten [OF that] by linarith
  qed (rule hd_in_set [OF ne])
  then have pos: "0 < sum_list ?ws" using ten [OF hd_in_set [OF ne]] by linarith
  obtain i where i: "i < length ?ws" "weighted_index_db ?ws (rnd (sum_list ?ws)) = Some i"
    using dbpick.chooses [OF nn] assms(3) [OF pos] by blast
  then have "?ab ! i \<in> set rows" by (metis length_map nth_mem set_sort)
  then show ?thesis
    using assms(1) rows ne i sub by (auto simp: GetChannel_def Let_def split: option.splits)
qed

section \<open>Polling the keys of a channel\<close>

text \<open>
  One call of \<^verbatim>\<open>GetNextEnabledKey\<close> on a channel fetched with \<^verbatim>\<open>CacheGetChannel\<close>. With the memory
  cache on the caller's pointer is the cache's entry, so what the call leaves behind is in the
  cache; with it off the caller works on a copy of the row, and the deferred \<^verbatim>\<open>SaveChannelInfo\<close> of
  the polling mode writes it back when the database takes the write (\<open>saves\<close>; its error is dropped).
  The lock of the channel makes the call atomic. \<open>None\<close>: the channel does not exist.
\<close>

definition take_key ::
    "bool \<Rightarrow> bool \<Rightarrow> (string \<Rightarrow> string list option) \<Rightarrow> (nat \<Rightarrow> nat) \<Rightarrow> int
     \<Rightarrow> channel_cache \<times> (int \<Rightarrow> channel option)
     \<Rightarrow> (new_api_error + string \<times> nat) option \<times> channel_cache \<times> (int \<Rightarrow> channel option)" where
  "take_key MemoryCacheEnabled saves raws pick cid st =
     (case CacheGetChannel MemoryCacheEnabled (snd st) cid (fst st) of
        Ok c \<Rightarrow>
          (let cached = (case CacheGetChannelInfo MemoryCacheEnabled (snd st) cid (fst st) of
                 Ok info \<Rightarrow> Inr info | Err e \<Rightarrow> Inl (ErrPlain e) | Panic \<Rightarrow> Inl ErrNil);
               (r, c') = GetNextEnabledKey raws pick cached c
           in (Some r,
               if MemoryCacheEnabled
               then ((fst st)\<lparr>channelsIDM := gm_put (channelsIDM (fst st)) cid c'\<rparr>, snd st)
               else if saves \<and> MultiKeyMode (ch_ChannelInfo c) = ''polling''
               then (fst st, (snd st)(cid := map_option (SaveChannelInfo c') (snd st cid)))
               else st))
      | _ \<Rightarrow> (None, st))"

fun take_keys ::
    "bool \<Rightarrow> bool \<Rightarrow> (string \<Rightarrow> string list option) \<Rightarrow> (nat \<Rightarrow> nat) \<Rightarrow> int \<Rightarrow> nat
     \<Rightarrow> channel_cache \<times> (int \<Rightarrow> channel option)
     \<Rightarrow> (new_api_error + string \<times> nat) option list" where
  "take_keys mem saves raws pick cid 0 st = []"
| "take_keys mem saves raws pick cid (Suc k) st =
     (let (r, st') = take_key mem saves raws pick cid st
      in r # take_keys mem saves raws pick cid k st')"

text \<open>The copy of the channel a call works on: the cache's entry or the database's row.\<close>

definition stored_channel ::
    "bool \<Rightarrow> int \<Rightarrow> channel_cache \<times> (int \<Rightarrow> channel option) \<Rightarrow> channel option" where
  "stored_channel mem cid st = (if mem then gm_get (channelsIDM (fst st)) cid else snd st cid)"

lemma take_key_stored:
  assumes "stored_channel mem cid st = Some c" "mem \<or> saves"
    and "IsMultiKey (ch_ChannelInfo c)" "MultiKeyMode (ch_ChannelInfo c) = ''polling''"
    and "GetNextEnabledKey raws pick (Inr (ch_ChannelInfo c)) c =
      (r, c\<lparr>ch_ChannelInfo := (ch_ChannelInfo c)\<lparr>MultiKeyPollingIndex := p\<rparr>\<rparr>)"
  shows "\<exists>st'. take_key mem saves raws pick cid st = (Some r, st') \<and>
      stored_channel mem cid st' =
        Some (c\<lparr>ch_ChannelInfo := (ch_ChannelInfo c)\<lparr>MultiKeyPollingIndex := p\<rparr>\<rparr>)"
  using assms
  by (cases mem) (auto simp: take_key_def stored_channel_def CacheGetChannel_def CacheGetChannelInfo_def
      SaveChannelInfo_def Let_def)

lemma take_keys_reach:
  assumes "stored_channel mem cid st = Some c" "mem \<or> saves"
    and "IsMultiKey (ch_ChannelInfo c)" "MultiKeyMode (ch_ChannelInfo c) = ''polling''"
    and "keys = GetKeys raws c" "sl = MultiKeyStatusList (ch_ChannelInfo c)"
    and "start = poll_start (MultiKeyPollingIndex (ch_ChannelInfo c)) (length keys)"
    and "key_status sl ((start + d) mod length keys) = ChannelStatusEnabled"
    and "d < length keys" "d < k"
  shows "Some (Inr (keys ! ((start + d) mod length keys), (start + d) mod length keys))
    \<in> set (take_keys mem saves raws pick cid k st)"
  using assms
proof (induction d arbitrary: start k st c rule: less_induct)
  case (less d)
  let ?n = "length keys"
  obtain k' where k: "k = Suc k'" using less.prems(10) by (cases k) auto
  have npos: "0 < ?n" using less.prems(9) by linarith
  have "(start + d) mod ?n < length (GetKeys raws c)" using npos less.prems(5) by simp
  from GetNextEnabledKey_polling [OF less.prems(3,4) this, of "ch_ChannelInfo c" pick]
  obtain idx where idx: "poll_from sl ?n start [0..<?n] = Some idx"
      "GetNextEnabledKey raws pick (Inr (ch_ChannelInfo c)) c =
        (Inr (keys ! idx, idx), c\<lparr>ch_ChannelInfo := (ch_ChannelInfo c)
             \<lparr>MultiKeyPollingIndex := int ((idx + 1) mod ?n)\<rparr>\<rparr>)"
    using less.prems(5-8) by auto
  obtain st' where step: "take_key mem saves raws pick cid st = (Some (Inr (keys ! idx, idx)), st')"
      "stored_channel mem cid st' = Some (c\<lparr>ch_ChannelInfo := (ch_ChannelInfo c)
             \<lparr>MultiKeyPollingIndex := int ((idx + 1) mod ?n)\<rparr>\<rparr>)"
    using take_key_stored [OF less.prems(1-4) idx(2)] by blast
  let ?c' = "c\<lparr>ch_ChannelInfo := (ch_ChannelInfo c)\<lparr>MultiKeyPollingIndex := int ((idx + 1) mod ?n)\<rparr>\<rparr>"
  obtain i where i: "i < ?n" "idx = (start + i) mod ?n"
      "\<forall>k < i. key_status sl ((start + k) mod ?n) \<noteq> ChannelStatusEnabled"
    using poll_from_nearest [OF idx(1)] by auto
  have le: "i \<le> d" using i(3) less.prems(8) by (metis not_le)
  show ?case
  proof (cases "i = d")
    case True
    then show ?thesis using step(1) i(2) by (simp add: k)
  next
    case False
    with le have lt: "d - Suc i < d" "Suc i + (d - Suc i) = d" by simp_all
    have eq: "((idx + 1) mod ?n + (d - Suc i)) mod ?n = (start + d) mod ?n"
      using i(2) lt(2) by (metis add.assoc add.commute mod_add_left_eq plus_1_eq_Suc)
    have "Some (Inr (keys ! (((idx + 1) mod ?n + (d - Suc i)) mod ?n), ((idx + 1) mod ?n + (d - Suc i)) mod ?n))
        \<in> set (take_keys mem saves raws pick cid k' st')"
    proof (rule less.IH [OF lt(1) step(2) less.prems(2)])
      show "(idx + 1) mod ?n = poll_start (MultiKeyPollingIndex (ch_ChannelInfo ?c')) ?n"
        using mod_less_divisor [OF npos, of "idx + 1"] by (auto simp: poll_start_def)
      show "key_status sl (((idx + 1) mod ?n + (d - Suc i)) mod ?n) = ChannelStatusEnabled"
        using less.prems(8) unfolding eq .
      show "keys = GetKeys raws ?c'" using less.prems(5) by (simp add: GetKeys_def)
    qed (use less.prems lt k in auto)
    then show ?thesis using step(1) unfolding eq by (simp add: k)
  qed
qed

text \<open>
  C31. Fairness of polling: let a multi-key channel in polling mode be stored (in the memory cache,
  or in its row with saves that succeed), with whatever polling index. Then each of its \<open>n\<close> keys that is
  enabled is returned by some of the next \<open>n\<close> calls of \<^verbatim>\<open>GetNextEnabledKey\<close>, each of which starts from
  the index the previous one stored (no other operation changing the channel in between).
\<close>

theorem polling_fair:
  assumes "stored_channel mem cid st = Some c" and "mem \<or> saves"
    and "IsMultiKey (ch_ChannelInfo c)" and "MultiKeyMode (ch_ChannelInfo c) = ''polling''"
    and "j < length (GetKeys raws c)"
    and "key_status (MultiKeyStatusList (ch_ChannelInfo c)) j = ChannelStatusEnabled"
  shows "Some (Inr (GetKeys raws c ! j, j))
    \<in> set (take_keys mem saves raws pick cid (length (GetKeys raws c)) st)"
proof -
  let ?n = "length (GetKeys raws c)"
  let ?s = "poll_start (MultiKeyPollingIndex (ch_ChannelInfo c)) ?n"
  have s: "?s < ?n" using assms(5) by (auto simp: poll_start_def)
  have d: "(?s + (j + ?n - ?s) mod ?n) mod ?n = j" using mod_distance [OF s assms(5)] .
  have "(j + ?n - ?s) mod ?n < ?n" using assms(5) by (intro mod_less_divisor) linarith
  then show ?thesis
    using take_keys_reach [OF assms(1-4) refl [of "GetKeys raws c"] refl refl,
        where d = "(j + ?n - ?s) mod ?n" and k = ?n and pick = pick] assms(6)
    unfolding d by blast
qed

definition polled_channel :: channel where
  "polled_channel = demo_channel\<lparr>ch_ChannelInfo := (ch_ChannelInfo demo_channel)
     \<lparr>MultiKeyStatusList := [], MultiKeyPollingIndex := 1\<rparr>\<rparr>"

theorem polling_fair_witness:
  "Some (Inr (''a'', 0)) \<in> set (take_keys True True (\<lambda>_. None) (\<lambda>_. 0) 7 2
     (\<lparr>group2model2channels = [], channelsIDM = [(7, polled_channel)]\<rparr>, \<lambda>_. None))"
proof -
  have keys: "GetKeys (\<lambda>_. None) polled_channel = [''a'', ''b'']"
    unfolding demo_keys [of "\<lambda>_. None", symmetric] by (simp add: GetKeys_def polled_channel_def)
  have st: "stored_channel True 7 (\<lparr>group2model2channels = [], channelsIDM = [(7, polled_channel)]\<rparr>, \<lambda>_. None)
      = Some polled_channel"
    by (simp add: stored_channel_def gm_get_Cons)
  have info: "IsMultiKey (ch_ChannelInfo polled_channel)"
      "MultiKeyMode (ch_ChannelInfo polled_channel) = ''polling''"
      "key_status (MultiKeyStatusList (ch_ChannelInfo polled_channel)) 0 = ChannelStatusEnabled"
    by (simp_all add: polled_channel_def demo_channel_def key_status_def)
  have len: "0 < length (GetKeys (\<lambda>_. None) polled_channel)"
    unfolding keys by simp
  show ?thesis
    using polling_fair [OF st _ info(1,2) len info(3), of True "\<lambda>_. 0"]
    by (simp add: keys numeral_2_eq_2 del: take_keys.simps)
qed

end
