(* ===== verification/Cooldown_Parse.thy ===== *)
theory Cooldown_Parse
  imports Go_Base
begin

text \<open>
  When a rate-limited key may be used again: \<^verbatim>\<open>internal/app/openrouter_pool/cooldown.go\<close>. An
  instant is a number of nanoseconds since the Unix epoch, a deadline one of seconds. What
  the code takes from the standard library is an argument: \<open>pf\<close> is \<^verbatim>\<open>ParseFloat\<close> followed by
  the conversion to \<^verbatim>\<open>int64\<close> (\<open>None\<close> on a parse error), \<open>um\<close> the decoding of the body into the
  header map of the error's metadata, in the order in which the loop visits it (\<open>None\<close> on an
  error, no entries for a nil map).
\<close>

section \<open>Instants\<close>

type_synonym go_time = int

definition unix :: "go_time \<Rightarrow> int" where
  "unix t = t div 10 ^ 9"

definition add_seconds :: "go_time \<Rightarrow> int \<Rightarrow> go_time" where
  "add_seconds t s = t + s * 10 ^ 9"

definition cooldownMin :: int where "cooldownMin = 30"
definition cooldownMax :: int where "cooldownMax = 86400"
definition cooldownFallbk :: int where "cooldownFallbk = 60"
definition cooldownDailyTL :: int where "cooldownDailyTL = 86400"

lemmas cooldown_bounds [hub_defs] = cooldownMin_def cooldownMax_def cooldownFallbk_def cooldownDailyTL_def

definition dailyKeywords :: "string list" where
  "dailyKeywords = [''free-models-per-day'', ''free models per day'', ''daily limit'', ''per day'']"

section \<open>The operations\<close>

definition clamp :: "int \<Rightarrow> go_time \<Rightarrow> int" where
  "clamp until now =
     (let low = unix (add_seconds now cooldownMin); high = unix (add_seconds now cooldownMax)
      in if until < low then low else if high < until then high else until)"

definition interpretResetValue :: "(string \<Rightarrow> int option) \<Rightarrow> string \<Rightarrow> go_time \<Rightarrow> int option" where
  "interpretResetValue pf raw now =
     (let r = go_trim_space raw
      in case (case go_parse_int r of Some n \<Rightarrow> Some n | None \<Rightarrow> pf r) of
           None \<Rightarrow> None
         | Some n \<Rightarrow>
             if n \<le> 0 then None
             else (let candidate = (if n < 86400 then wrap64 (unix now + n)
                     else if n < 1000000000000 then n
                     else go_quot n 1000)
                   in if candidate \<le> unix now then None else Some candidate))"

definition positive_seconds :: "string \<Rightarrow> int option" where
  "positive_seconds v =
     (case go_parse_int (go_trim_space v) of Some secs \<Rightarrow> if 0 < secs then Some secs else None | None \<Rightarrow> None)"

text \<open>The loop of \<^verbatim>\<open>extractFromBodyMetadata\<close>.\<close>

fun metadata_loop :: "(string \<Rightarrow> int option) \<Rightarrow> (string \<times> string) list \<Rightarrow> go_time \<Rightarrow> int option" where
  "metadata_loop pf [] now = None"
| "metadata_loop pf ((k, v) # h) now =
     (let lk = go_to_lower k;
          reset = (if lk = ''x-ratelimit-reset'' \<or> lk = ''x-rate-limit-reset''
                   then interpretResetValue pf v now else None)
      in case reset of Some until \<Rightarrow> Some until
         | None \<Rightarrow>
             (case (if lk = ''retry-after'' then positive_seconds v else None) of
                Some secs \<Rightarrow> Some (wrap64 (unix now + secs))
              | None \<Rightarrow> metadata_loop pf h now))"

definition extractFromBodyMetadata ::
    "(string \<Rightarrow> int option) \<Rightarrow> (string \<Rightarrow> (string \<times> string) list option) \<Rightarrow> string \<Rightarrow> go_time \<Rightarrow> int option" where
  "extractFromBodyMetadata pf um body now =
     (case um body of None \<Rightarrow> None | Some h \<Rightarrow> metadata_loop pf h now)"

text \<open>\<open>hdr\<close> is \<^verbatim>\<open>respHeader.Get\<close>, \<open>None\<close> for a nil header map.\<close>

definition header_deadline :: "(string \<Rightarrow> int option) \<Rightarrow> (string \<Rightarrow> string) option \<Rightarrow> go_time \<Rightarrow> int option" where
  "header_deadline pf hdr now =
     (case hdr of None \<Rightarrow> None
      | Some get \<Rightarrow>
          (let v = get ''X-Ratelimit-Reset'';
               reset = (if v \<noteq> [] then interpretResetValue pf v now else None)
           in case reset of Some until \<Rightarrow> Some until
              | None \<Rightarrow>
                  (let ra = get ''Retry-After''
                   in if ra \<noteq> [] then map_option (\<lambda>secs. wrap64 (unix now + secs)) (positive_seconds ra)
                      else None)))"

definition ParseCooldownUntil ::
    "(string \<Rightarrow> int option) \<Rightarrow> (string \<Rightarrow> (string \<times> string) list option) \<Rightarrow> (string \<Rightarrow> string) option
     \<Rightarrow> string \<Rightarrow> go_time \<Rightarrow> int" where
  "ParseCooldownUntil pf um hdr body now =
     (case header_deadline pf hdr now of
        Some until \<Rightarrow> clamp until now
      | None \<Rightarrow>
          (case (if body \<noteq> [] then extractFromBodyMetadata pf um body now else None) of
             Some until \<Rightarrow> clamp until now
           | None \<Rightarrow>
               if body \<noteq> [] \<and> (\<exists>kw \<in> set dailyKeywords. go_contains (go_to_lower body) kw)
               then clamp (unix (add_seconds now cooldownDailyTL)) now
               else clamp (unix (add_seconds now cooldownFallbk)) now))"

section \<open>Lemmas\<close>

lemma unix_add [simp]: "unix (add_seconds t s) = unix t + s"
  by (simp add: unix_def add_seconds_def)

lemma clamp_eq: "clamp u now = max (unix now + 30) (min u (unix now + 86400))"
  by (auto simp: clamp_def hub_defs Let_def)

lemma clamp_bounds: "unix now + 30 \<le> clamp u now \<and> clamp u now \<le> unix now + 86400"
  by (auto simp: clamp_eq)

lemma dropWhile_head: "xs \<noteq> [] \<Longrightarrow> \<not> P (hd xs) \<Longrightarrow> dropWhile P xs = xs"
  by (cases xs) auto

lemma digit_not_space: "is_digit c \<Longrightarrow> \<not> is_space c"
  by (auto simp: is_digit_def is_space_def)

lemma trim_digits: "0 \<le> n \<Longrightarrow> go_trim_space (go_itoa n) = go_itoa n"
proof -
  assume n: "0 \<le> n"
  let ?s = "nat_digits (nat n)"
  have all: "\<forall>c \<in> set ?s. \<not> is_space c"
    using nat_digits_all [of "nat n"] digit_not_space by (auto simp: list_all_iff)
  have "dropWhile is_space ?s = ?s" "dropWhile is_space (rev ?s) = rev ?s"
    using all by (simp_all add: dropWhile_eq_self_iff hd_rev)
  then show ?thesis using n by (simp add: go_trim_space_def go_trim_def go_itoa_def)
qed

lemma itoa_nonempty [simp]: "go_itoa n \<noteq> []"
  by (simp add: go_itoa_def)

section \<open>Properties\<close>

text \<open>
  C32. A cooldown is never lost and never forever: whatever the upstream answered, the deadline
  is between 30 seconds and 24 hours from now.
\<close>

theorem ParseCooldownUntil_bounds:
  "unix now + 30 \<le> ParseCooldownUntil pf um hdr body now \<and>
   ParseCooldownUntil pf um hdr body now \<le> unix now + 86400"
  using clamp_bounds by (simp add: ParseCooldownUntil_def split: option.split)

text \<open>
  The three readings of a reset header agree with the sender: a deadline within the bounds
  that is sent as seconds from now, as Unix seconds or as Unix milliseconds is taken over
  exactly, whatever the body says, provided the clock is past 1970-01-02.
\<close>

theorem reset_header_exact:
  assumes "get ''X-Ratelimit-Reset'' = go_itoa raw"
    and "86400 < unix now" and "unix now < 10 ^ 11" and "unix now + 30 \<le> u" and "u \<le> unix now + 86400"
    and "raw = u - unix now \<and> raw < 86400 \<or> raw = u \<or> raw = u * 1000 + ms \<and> 0 \<le> ms \<and> ms < 1000 \<and> 10 ^ 12 \<le> raw"
  shows "ParseCooldownUntil pf um (Some get) body now = u"
proof -
  have raw: "0 < raw" "int64_ok raw" using assms(2-6) by (auto simp: int64_ok_def)
  have ok: "int64_ok (unix now + raw)" if "raw < 86400" using that raw assms(2,3) by (auto simp: int64_ok_def)
  have "interpretResetValue pf (go_itoa raw) now = Some u"
    using assms(2-6) raw ok
    by (auto simp: interpretResetValue_def trim_digits go_parse_itoa Let_def go_quot_nonneg)
  then have "header_deadline pf (Some get) now = Some u"
    using assms(1) by (simp add: header_deadline_def Let_def)
  then show ?thesis using assms(4,5) by (simp add: ParseCooldownUntil_def clamp_eq)
qed

theorem reset_header_exact_witness:
  "ParseCooldownUntil (\<lambda>_. None) (\<lambda>_. None) (Some (\<lambda>_. go_itoa 1700000100000)) ''per day'' (1700000000 * 10 ^ 9) = 1700000100"
  by (rule reset_header_exact [of _ "1700000100000" _ _ 0]) (simp_all add: unix_def)

text \<open>
  A \<^verbatim>\<open>Retry-After\<close> so large that the sum wraps around is taken as a deadline in the past and
  gives the shortest cooldown, not the longest.
\<close>

lemma retry_after_wraps:
  assumes "get ''X-Ratelimit-Reset'' = []" "get ''Retry-After'' = go_itoa (2 ^ 63 - 1)"
    "0 < unix now" "unix now < 10 ^ 11"
  shows "ParseCooldownUntil pf um (Some get) body now = unix now + 30"
proof -
  have "wrap64 (unix now + (2 ^ 63 - 1)) = unix now - 1 - 2 ^ 63"
  proof -
    have "(unix now + (2 ^ 63 - 1) + 2 ^ 63) mod 2 ^ 64 = (unix now - 1) mod (2 ^ 64 :: int)"
      by (simp add: mod_eq_dvd_iff)
    also have "\<dots> = unix now - 1" using assms(3,4) by (intro mod_pos_pos_trivial) auto
    finally show ?thesis by (simp add: wrap64_def)
  qed
  moreover have "positive_seconds (go_itoa (2 ^ 63 - 1)) = Some (2 ^ 63 - 1)"
    using trim_digits [of "2 ^ 63 - 1"] go_parse_itoa [of "2 ^ 63 - 1"]
    by (simp add: positive_seconds_def int64_ok_def)
  ultimately have "header_deadline pf (Some get) now = Some (unix now - 1 - 2 ^ 63)"
    using assms(1,2) by (simp add: header_deadline_def Let_def)
  then show ?thesis by (simp add: ParseCooldownUntil_def clamp_eq)
qed

end
