(* ===== verification/Key_Pool.thy ===== *)
theory Key_Pool
  imports Channel_Cache Cooldown_Parse
begin

text \<open>
  The key pools of multi-key channels: disabling and enabling single keys
  (\<^verbatim>\<open>handlerMultiKeyUpdate\<close> and \<^verbatim>\<open>UpdateChannelStatus\<close> of \<^verbatim>\<open>internal/adapter/repo/channel.go\<close>),
  marking a rate-limited key with a deadline (\<^verbatim>\<open>channel_pool.go\<close>), and the reaper that re-enables
  keys whose deadline has passed (\<^verbatim>\<open>internal/app/openrouter_pool/reaper.go\<close>). The state is the
  routing cache together with the channel and ability tables; whether a database write
  succeeds is an argument.
\<close>

section \<open>State and environment\<close>

record pool_state =
  ps_cache :: channel_cache
  ps_channels :: "(int, channel) gomap"
  ps_abilities :: "ability list"

record pool_env =
  pe_raws :: "string \<Rightarrow> string list option"   \<comment> \<open>JSON array decoder of \<^verbatim>\<open>GetKeys\<close>\<close>
  pe_codec :: info_codec
  pe_cache_on :: bool   \<comment> \<open>\<^verbatim>\<open>MemoryCacheEnabled\<close>\<close>
  pe_now :: int   \<comment> \<open>\<^verbatim>\<open>GetTimestamp()\<close>, Unix seconds\<close>
  pe_save_ok :: bool
  pe_ability_ok :: bool

text \<open>\<^verbatim>\<open>GetChannelById(id, true)\<close>: rows carry no cached key list.\<close>

definition GetChannelById :: "int \<Rightarrow> pool_state \<Rightarrow> channel option" where
  "GetChannelById cid st = map_option (\<lambda>c. c\<lparr>ch_Keys := []\<rparr>) (gm_get (ps_channels st) cid)"

text \<open>\<^verbatim>\<open>SaveWithoutKey\<close>: every column but the key is written.\<close>

definition SaveWithoutKey :: "pool_env \<Rightarrow> channel \<Rightarrow> pool_state \<Rightarrow> bool \<times> pool_state" where
  "SaveWithoutKey env c st =
     (if ch_Id c = 0 then (False, st)
      else if \<not> pe_save_ok env then (False, st)
      else (True, st\<lparr>ps_channels := gm_put (ps_channels st) (ch_Id c)
              (c\<lparr>ch_Key := (case gm_get (ps_channels st) (ch_Id c) of None \<Rightarrow> [] | Some old \<Rightarrow> ch_Key old)\<rparr>)\<rparr>))"

definition sync_abilities :: "pool_env \<Rightarrow> int \<Rightarrow> bool \<Rightarrow> pool_state \<Rightarrow> pool_state" where
  "sync_abilities env cid status st =
     (if pe_ability_ok env then st\<lparr>ps_abilities := UpdateAbilityStatus cid status (ps_abilities st)\<rparr> else st)"

section \<open>Enabling and disabling one key\<close>

text \<open>The search loop of \<^verbatim>\<open>handlerMultiKeyUpdate\<close>: the index stays 0 when the key is not found.\<close>

fun index_of :: "string \<Rightarrow> string list \<Rightarrow> nat option" where
  "index_of k [] = None"
| "index_of k (x # xs) = (if x = k then Some 0 else map_option Suc (index_of k xs))"

definition key_index_or_zero :: "string \<Rightarrow> string list \<Rightarrow> nat" where
  "key_index_or_zero k keys = (case index_of k keys of None \<Rightarrow> 0 | Some i \<Rightarrow> i)"

definition handlerMultiKeyUpdate :: "pool_env \<Rightarrow> string \<Rightarrow> int \<Rightarrow> string \<Rightarrow> channel \<Rightarrow> channel" where
  "handlerMultiKeyUpdate env usingKey status reason c =
     (let keys = GetKeys (pe_raws env) c
      in if keys = [] then c\<lparr>ch_Status := status\<rparr>
         else
           (let keyIndex = int (key_index_or_zero usingKey keys);
                info = ch_ChannelInfo c;
                info1 = (if status = ChannelStatusEnabled
                   then info\<lparr>MultiKeyStatusList := gm_del (MultiKeyStatusList info) keyIndex\<rparr>
                   else info\<lparr>MultiKeyStatusList := gm_put (MultiKeyStatusList info) keyIndex status,
                             MultiKeyDisabledReason := gm_put (MultiKeyDisabledReason info) keyIndex reason,
                             MultiKeyDisabledTime := gm_put (MultiKeyDisabledTime info) keyIndex (pe_now env)\<rparr>);
                c1 = c\<lparr>ch_ChannelInfo := info1\<rparr>
            in if MultiKeySize info1 \<le> int (gm_len (MultiKeyStatusList info1))
               then record_status (pe_codec env) ''All keys are disabled'' (pe_now env)
                      (c1\<lparr>ch_Status := ChannelStatusAutoDisabled\<rparr>)
               else c1))"

text \<open>
  The cache half of \<^verbatim>\<open>UpdateChannelStatus\<close>: \<open>None\<close> is an early \<^verbatim>\<open>return false\<close>.
\<close>

definition update_status_cache ::
    "pool_env \<Rightarrow> int \<Rightarrow> string \<Rightarrow> int \<Rightarrow> string \<Rightarrow> pool_state \<Rightarrow> pool_state option" where
  "update_status_cache env channelId usingKey status reason st =
     (if \<not> pe_cache_on env then Some st
      else (case gm_get (channelsIDM (ps_cache st)) channelId of
              None \<Rightarrow> None
            | Some c \<Rightarrow>
                if IsMultiKey (ch_ChannelInfo c) then
                  Some (st\<lparr>ps_cache := (ps_cache st)\<lparr>channelsIDM :=
                     gm_put (channelsIDM (ps_cache st)) channelId
                       (handlerMultiKeyUpdate env usingKey status reason c)\<rparr>\<rparr>)
                else if ch_Status c = status then None
                else Some (st\<lparr>ps_cache := CacheUpdateChannelStatus True channelId status (ps_cache st)\<rparr>)))"

definition UpdateChannelStatus ::
    "pool_env \<Rightarrow> int \<Rightarrow> string \<Rightarrow> int \<Rightarrow> string \<Rightarrow> pool_state \<Rightarrow> bool \<times> pool_state" where
  "UpdateChannelStatus env channelId usingKey status reason st =
     (case update_status_cache env channelId usingKey status reason st of
        None \<Rightarrow> (False, st)
      | Some st1 \<Rightarrow>
          (case GetChannelById channelId st1 of
             None \<Rightarrow> (False, st1)
           | Some c \<Rightarrow>
               if ch_Status c = status then (False, st1)
               else
                 (let c1 = (if IsMultiKey (ch_ChannelInfo c)
                            then handlerMultiKeyUpdate env usingKey status reason c
                            else (record_status (pe_codec env) reason (pe_now env) c)\<lparr>ch_Status := status\<rparr>);
                      shouldUpdateAbilities = (if IsMultiKey (ch_ChannelInfo c)
                                               then ch_Status c \<noteq> ch_Status c1 else True);
                      (saved, st2) = SaveWithoutKey env c1 st1;
                      st3 = (if shouldUpdateAbilities
                             then sync_abilities env channelId (status = ChannelStatusEnabled) st2 else st2)
                  in (saved, st3))))"

section \<open>Cooldowns\<close>

definition applyMultiKeyCooldown :: "pool_env \<Rightarrow> string \<Rightarrow> int \<Rightarrow> string \<Rightarrow> channel \<Rightarrow> channel" where
  "applyMultiKeyCooldown env usingKey cooldownUntil reason c =
     (let keys = GetKeys (pe_raws env) c
      in if keys = [] then c
         else (case index_of usingKey keys of
             None \<Rightarrow> c
           | Some i \<Rightarrow>
               (let keyIndex = int i; info = ch_ChannelInfo c;
                    info1 = info\<lparr>MultiKeyStatusList := gm_put (MultiKeyStatusList info) keyIndex ChannelStatusAutoDisabled,
                        MultiKeyDisabledReason := gm_put (MultiKeyDisabledReason info) keyIndex reason,
                        MultiKeyDisabledTime := gm_put (MultiKeyDisabledTime info) keyIndex (pe_now env),
                        MultiKeyCooldownUntil := gm_put (MultiKeyCooldownUntil info) keyIndex cooldownUntil\<rparr>;
                    c1 = c\<lparr>ch_ChannelInfo := info1\<rparr>
                in if MultiKeySize info1 \<le> int (gm_len (MultiKeyStatusList info1))
                   then record_status (pe_codec env) ''All keys are cooling or disabled'' (pe_now env)
                          (c1\<lparr>ch_Status := ChannelStatusAutoDisabled\<rparr>)
                   else c1)))"

definition MarkMultiKeyCooldown ::
    "pool_env \<Rightarrow> int \<Rightarrow> string \<Rightarrow> int \<Rightarrow> string \<Rightarrow> pool_state \<Rightarrow> bool \<times> pool_state" where
  "MarkMultiKeyCooldown env channelId usingKey cooldownUntil reason st =
     (if cooldownUntil \<le> 0 then (False, st)
      else
        (let st1 = (if \<not> pe_cache_on env then Some st
              else (case gm_get (channelsIDM (ps_cache st)) channelId of
                      None \<Rightarrow> None
                    | Some c \<Rightarrow>
                        if \<not> IsMultiKey (ch_ChannelInfo c) then None
                        else Some (st\<lparr>ps_cache := (ps_cache st)\<lparr>channelsIDM :=
                          gm_put (channelsIDM (ps_cache st)) channelId
                            (applyMultiKeyCooldown env usingKey cooldownUntil reason c)\<rparr>\<rparr>)))
         in case st1 of None \<Rightarrow> (False, st)
         | Some st1 \<Rightarrow>
             (case GetChannelById channelId st1 of
                None \<Rightarrow> (False, st1)
              | Some c \<Rightarrow>
                  if \<not> IsMultiKey (ch_ChannelInfo c) then (False, st1)
                  else
                    (let c1 = applyMultiKeyCooldown env usingKey cooldownUntil reason c;
                         (saved, st2) = SaveWithoutKey env c1 st1
                     in if \<not> saved then (False, st2)
                        else (True, if ch_Status c \<noteq> ch_Status c1
                                    then sync_abilities env channelId (ch_Status c1 = ChannelStatusEnabled) st2
                                    else st2)))))"

definition ClearMultiKeyCooldown :: "int \<Rightarrow> channel \<Rightarrow> channel" where
  "ClearMultiKeyCooldown keyIndex c =
     (let info = ch_ChannelInfo c
      in c\<lparr>ch_ChannelInfo := info\<lparr>
            MultiKeyStatusList := gm_del (MultiKeyStatusList info) keyIndex,
            MultiKeyDisabledReason := gm_del (MultiKeyDisabledReason info) keyIndex,
            MultiKeyDisabledTime := gm_del (MultiKeyDisabledTime info) keyIndex,
            MultiKeyCooldownUntil := gm_del (MultiKeyCooldownUntil info) keyIndex\<rparr>\<rparr>)"

definition ChannelTypeOpenRouter :: int where "ChannelTypeOpenRouter = 20"

definition ListOpenRouterMultiKeyChannels :: "pool_state \<Rightarrow> channel list" where
  "ListOpenRouterMultiKeyChannels st =
     filter (\<lambda>c. IsMultiKey (ch_ChannelInfo c))
       (filter (\<lambda>c. ch_Type c = ChannelTypeOpenRouter) (map (\<lambda>(i, c). c\<lparr>ch_Keys := []\<rparr>) (ps_channels st)))"

text \<open>The relay's hook.\<close>

record channel_error =
  cerr_ChannelId :: int
  cerr_ChannelType :: int
  cerr_ChannelName :: string
  cerr_IsMultiKey :: bool
  cerr_AutoBan :: bool
  cerr_UsingKey :: string

definition NewChannelError :: "int \<Rightarrow> int \<Rightarrow> string \<Rightarrow> bool \<Rightarrow> string \<Rightarrow> bool \<Rightarrow> channel_error" where
  "NewChannelError channelId channelType channelName isMultiKey usingKey autoBan =
     \<lparr>cerr_ChannelId = channelId, cerr_ChannelType = channelType, cerr_ChannelName = channelName,
      cerr_IsMultiKey = isMultiKey, cerr_AutoBan = autoBan, cerr_UsingKey = usingKey\<rparr>"

text \<open>\<^verbatim>\<open>Header.Get\<close> on the captured header; \<open>pf\<close>, \<open>um\<close> and \<open>now\<close> are those of the parser.\<close>

definition header_get :: "(string \<times> string) list \<Rightarrow> string \<Rightarrow> string" where
  "header_get h k = (case map_of h k of None \<Rightarrow> [] | Some v \<Rightarrow> v)"

definition MaybeMarkCooldown ::
    "pool_env \<Rightarrow> (string \<Rightarrow> int option) \<Rightarrow> (string \<Rightarrow> (string \<times> string) list option) \<Rightarrow> go_time
     \<Rightarrow> channel_error \<Rightarrow> new_api_error option \<Rightarrow> pool_state \<Rightarrow> pool_state" where
  "MaybeMarkCooldown env pf um now channelErr apiErr st =
     (case apiErr of None \<Rightarrow> st
      | Some e \<Rightarrow>
          if cerr_ChannelType channelErr \<noteq> ChannelTypeOpenRouter then st
          else if \<not> cerr_IsMultiKey channelErr then st
          else if ae_StatusCode e \<noteq> 429 then st
          else if cerr_UsingKey channelErr = [] then st
          else (let until = ParseCooldownUntil pf um (map_option header_get (ae_UpstreamHeader e))
                              (ae_UpstreamBodyHint e) now
                in if until \<le> 0 then st
                   else snd (MarkMultiKeyCooldown env (cerr_ChannelId channelErr) (cerr_UsingKey channelErr)
                      until ''rate limit (auto cooldown)'' st)))"

section \<open>The reaper\<close>

definition expired_keys :: "int \<Rightarrow> (int, int) gomap \<Rightarrow> int list" where
  "expired_keys now cooldowns = map fst (filter (\<lambda>(idx, until). 0 < until \<and> until \<le> now) cooldowns)"

text \<open>
  \<^verbatim>\<open>reapChannel\<close>: the number of keys recovered, whether all database writes succeeded, and the
  new state. The loop deletes entries of the map it ranges over, each its own.
\<close>

definition reapChannel :: "pool_env \<Rightarrow> channel \<Rightarrow> pool_state \<Rightarrow> (int \<times> bool) \<times> pool_state" where
  "reapChannel env c st =
     (if \<not> IsMultiKey (ch_ChannelInfo c) then ((0, True), st)
      else
        (let cooldowns = MultiKeyCooldownUntil (ch_ChannelInfo c)
         in if gm_len cooldowns = 0 then ((0, True), st)
            else
              (let expired = expired_keys (pe_now env) cooldowns;
                   c1 = fold ClearMultiKeyCooldown expired c;
                   recovered = int (length expired)
               in if recovered = 0 then ((0, True), st)
                  else
                    (let changed = (ch_Status c1 = ChannelStatusAutoDisabled \<and>
                           int (gm_len (MultiKeyStatusList (ch_ChannelInfo c1))) < MultiKeySize (ch_ChannelInfo c1));
                         c2 = (if changed then record_status (pe_codec env) ''Pool keys recovered'' (pe_now env)
                                 (c1\<lparr>ch_Status := ChannelStatusEnabled\<rparr>) else c1);
                         (saved, st1) = SaveWithoutKey env c2 st
                     in if \<not> saved then ((recovered, False), st1)
                        else if changed then ((recovered, pe_ability_ok env), sync_abilities env (ch_Id c2) True st1)
                        else ((recovered, True), st1)))))"

text \<open>
  \<^verbatim>\<open>ReapOnce\<close> over the channels listed at the start: \<open>env_of\<close> gives the clock and the database
  outcomes at a channel's turn, \<open>cancelled\<close> whether the context is done then. A failing channel
  does not stop the loop and does not count. The result is whether the loop ended without an
  error, the number of keys recovered (only logged) and the state.
\<close>

fun reap_loop :: "(channel \<Rightarrow> pool_env) \<Rightarrow> (channel \<Rightarrow> bool) \<Rightarrow> channel list \<Rightarrow> int \<Rightarrow> pool_state
    \<Rightarrow> (bool \<times> int) \<times> pool_state" where
  "reap_loop env_of cancelled [] tot st = ((True, tot), st)"
| "reap_loop env_of cancelled (c # cs) tot st =
     (if cancelled c then ((False, tot), st)
      else (case reapChannel (env_of c) c st of
              ((recovered, ok), st') \<Rightarrow>
                 reap_loop env_of cancelled cs (if ok \<and> 0 < recovered then tot + recovered else tot) st'))"

definition ReapOnce :: "bool \<Rightarrow> (channel \<Rightarrow> pool_env) \<Rightarrow> (channel \<Rightarrow> bool) \<Rightarrow> pool_state
    \<Rightarrow> (bool \<times> int) \<times> pool_state" where
  "ReapOnce list_ok env_of cancelled st =
     (if \<not> list_ok then ((False, 0), st)
      else reap_loop env_of cancelled (ListOpenRouterMultiKeyChannels st) 0 st)"

section \<open>Lemmas\<close>

lemma record_status_fields [simp]:
  "ch_ChannelInfo (record_status ic r t c) = ch_ChannelInfo c"
  "ch_Status (record_status ic r t c) = ch_Status c"
  "ch_Id (record_status ic r t c) = ch_Id c"
  "ch_Key (record_status ic r t c) = ch_Key c"
  "ch_Keys (record_status ic r t c) = ch_Keys c"
  by (simp_all add: record_status_def SetOtherInfo_def split: option.split)

lemma applyMultiKeyCooldown_fields [simp]:
  "ch_Id (applyMultiKeyCooldown env k u r c) = ch_Id c"
  "ch_Key (applyMultiKeyCooldown env k u r c) = ch_Key c"
  by (simp_all add: applyMultiKeyCooldown_def Let_def split: option.split)

lemma index_of_Some: "index_of k xs = Some i \<Longrightarrow> i < length xs \<and> xs ! i = k"
  by (induction xs arbitrary: i) (auto split: if_splits)

lemma index_of_None: "index_of k xs = None \<longleftrightarrow> k \<notin> set xs"
  by (induction xs) auto

lemma Clear_fields [simp]:
  "ch_Id (ClearMultiKeyCooldown i c) = ch_Id c"
  "ch_Status (ClearMultiKeyCooldown i c) = ch_Status c"
  "ch_Key (ClearMultiKeyCooldown i c) = ch_Key c"
  by (simp_all add: ClearMultiKeyCooldown_def Let_def)

lemma fold_Clear_fields [simp]:
  "ch_Id (fold ClearMultiKeyCooldown ks c) = ch_Id c"
  "ch_Status (fold ClearMultiKeyCooldown ks c) = ch_Status c"
  "ch_Key (fold ClearMultiKeyCooldown ks c) = ch_Key c"
  by (induction ks arbitrary: c) simp_all

lemma fold_Clear_info:
  "MultiKeyStatusList (ch_ChannelInfo (fold ClearMultiKeyCooldown ks c)) =
     fold (\<lambda>i m. gm_del m i) ks (MultiKeyStatusList (ch_ChannelInfo c))"
  "MultiKeyCooldownUntil (ch_ChannelInfo (fold ClearMultiKeyCooldown ks c)) =
     fold (\<lambda>i m. gm_del m i) ks (MultiKeyCooldownUntil (ch_ChannelInfo c))"
  "MultiKeySize (ch_ChannelInfo (fold ClearMultiKeyCooldown ks c)) = MultiKeySize (ch_ChannelInfo c)"
  by (induction ks arbitrary: c) (simp_all add: ClearMultiKeyCooldown_def Let_def)

lemma expired_keys_set:
  "gm_ok cd \<Longrightarrow> i \<in> set (expired_keys now cd) \<longleftrightarrow> (\<exists>u. gm_get cd i = Some u \<and> 0 < u \<and> u \<le> now)"
  by (force simp: expired_keys_def gm_ok_def gm_keys_def gm_get_def map_of_eq_Some_iff)

lemma SaveWithoutKey_eq:
  "SaveWithoutKey env c st = (True, st') \<longleftrightarrow> ch_Id c \<noteq> 0 \<and> pe_save_ok env \<and>
     st' = st\<lparr>ps_channels := gm_put (ps_channels st) (ch_Id c)
       (c\<lparr>ch_Key := (case gm_get (ps_channels st) (ch_Id c) of None \<Rightarrow> [] | Some old \<Rightarrow> ch_Key old)\<rparr>)\<rparr>"
  by (auto simp: SaveWithoutKey_def)

lemma SaveWithoutKey_get:
  assumes "SaveWithoutKey env c st = (True, st')"
  shows "gm_get (ps_channels st') cid = (if cid = ch_Id c then Some (c\<lparr>ch_Key :=
       (case gm_get (ps_channels st) (ch_Id c) of None \<Rightarrow> [] | Some old \<Rightarrow> ch_Key old)\<rparr>)
     else gm_get (ps_channels st) cid)"
  using assms by (auto simp: SaveWithoutKey_def split: if_splits)

lemma reapChannel_store:
  assumes "reapChannel env c st = ((n, ok), st')" "0 < n" "pe_save_ok env" "ch_Id c \<noteq> 0"
  defines "c1 \<equiv> fold ClearMultiKeyCooldown (expired_keys (pe_now env) (MultiKeyCooldownUntil (ch_ChannelInfo c))) c"
  shows "n = int (length (expired_keys (pe_now env) (MultiKeyCooldownUntil (ch_ChannelInfo c)))) \<and>
    (\<exists>c'. gm_get (ps_channels st') (ch_Id c) = Some c' \<and> ch_ChannelInfo c' = ch_ChannelInfo c1 \<and>
      ch_Status c' = (if ch_Status c = ChannelStatusAutoDisabled \<and>
          int (gm_len (MultiKeyStatusList (ch_ChannelInfo c1))) < MultiKeySize (ch_ChannelInfo c1)
        then ChannelStatusEnabled else ch_Status c))"
proof -
  let ?changed = "ch_Status c1 = ChannelStatusAutoDisabled \<and>
      int (gm_len (MultiKeyStatusList (ch_ChannelInfo c1))) < MultiKeySize (ch_ChannelInfo c1)"
  define c2 where "c2 = (if ?changed then record_status (pe_codec env) ''Pool keys recovered'' (pe_now env)
      (c1\<lparr>ch_Status := ChannelStatusEnabled\<rparr>) else c1)"
  have c2: "ch_Id c2 = ch_Id c" "ch_ChannelInfo c2 = ch_ChannelInfo c1"
    "ch_Status c2 = (if ?changed then ChannelStatusEnabled else ch_Status c)" "ch_Status c1 = ch_Status c"
    by (simp_all add: c2_def c1_def)
  obtain saved st1 where sv: "SaveWithoutKey env c2 st = (saved, st1)" by fastforce
  then have saved: saved using assms(3,4) c2(1) by (auto simp: SaveWithoutKey_def split: if_splits)
  have n: "n = int (length (expired_keys (pe_now env) (MultiKeyCooldownUntil (ch_ChannelInfo c))))"
    and st': "ps_channels st' = ps_channels st1"
    using assms(1,2) sv saved unfolding reapChannel_def Let_def c1_def [symmetric] c2_def [symmetric]
    by (auto simp: sync_abilities_def split: if_splits)
  show ?thesis
    using SaveWithoutKey_get [of env c2 st st1 "ch_Id c"] sv saved st' c2 n by simp
qed

definition key_expired :: "int \<Rightarrow> channel \<Rightarrow> int \<Rightarrow> bool" where
  "key_expired now c i =
     (case gm_get (MultiKeyCooldownUntil (ch_ChannelInfo c)) i of None \<Rightarrow> False | Some u \<Rightarrow> 0 < u \<and> u \<le> now)"

lemma key_expired_set:
  "gm_ok (MultiKeyCooldownUntil (ch_ChannelInfo c)) \<Longrightarrow>
   set (expired_keys now (MultiKeyCooldownUntil (ch_ChannelInfo c))) = {i. key_expired now c i}"
  by (auto simp: expired_keys_set key_expired_def split: option.splits)

lemma expired_keys_distinct: "gm_ok cd \<Longrightarrow> distinct (expired_keys now cd)"
  unfolding expired_keys_def gm_ok_def gm_keys_def by (rule distinct_map_filter)

section \<open>Properties\<close>

text \<open>
  C28. The reaper re-enables exactly the keys whose deadline has passed: after a pass over a
  stored pool that recovers something, the status and the deadline of a key are gone if its
  deadline has expired and untouched otherwise, the count returned is the number of expired
  keys, and an automatically disabled channel is enabled again exactly when some key is up.
\<close>

theorem reapChannel_exact:
  assumes "reapChannel env c st = ((n, ok), st')" and "0 < n" and "pe_save_ok env" and "ch_Id c \<noteq> 0"
    and "gm_ok (MultiKeyCooldownUntil (ch_ChannelInfo c))"
  shows "\<exists>c'. gm_get (ps_channels st') (ch_Id c) = Some c' \<and>
     (\<forall>i. gm_get (MultiKeyStatusList (ch_ChannelInfo c')) i =
        (if key_expired (pe_now env) c i then None else gm_get (MultiKeyStatusList (ch_ChannelInfo c)) i)) \<and>
     (\<forall>i. gm_get (MultiKeyCooldownUntil (ch_ChannelInfo c')) i =
        (if key_expired (pe_now env) c i then None else gm_get (MultiKeyCooldownUntil (ch_ChannelInfo c)) i)) \<and>
     n = int (card {i. key_expired (pe_now env) c i}) \<and>
     ch_Status c' = (if ch_Status c = ChannelStatusAutoDisabled \<and>
         int (gm_len (MultiKeyStatusList (ch_ChannelInfo c'))) < MultiKeySize (ch_ChannelInfo c')
       then ChannelStatusEnabled else ch_Status c)"
proof -
  have card: "card {i. key_expired (pe_now env) c i} =
      length (expired_keys (pe_now env) (MultiKeyCooldownUntil (ch_ChannelInfo c)))"
    using distinct_card [OF expired_keys_distinct [OF assms(5)]] key_expired_set [OF assms(5)] by metis
  obtain c' where c': "gm_get (ps_channels st') (ch_Id c) = Some c'"
    "ch_ChannelInfo c' = ch_ChannelInfo (fold ClearMultiKeyCooldown
       (expired_keys (pe_now env) (MultiKeyCooldownUntil (ch_ChannelInfo c))) c)"
    "ch_Status c' = (if ch_Status c = ChannelStatusAutoDisabled \<and>
         int (gm_len (MultiKeyStatusList (ch_ChannelInfo c'))) < MultiKeySize (ch_ChannelInfo c')
       then ChannelStatusEnabled else ch_Status c)"
    and n: "n = int (length (expired_keys (pe_now env) (MultiKeyCooldownUntil (ch_ChannelInfo c))))"
    using reapChannel_store [OF assms(1-4)] by auto
  show ?thesis
    by (rule exI [of _ c'])
       (simp add: c'(1,3) c'(2) fold_Clear_info gm.get_fold_del key_expired_set [OF assms(5)] n card)
qed

definition demo_env :: "int \<Rightarrow> pool_env" where
  "demo_env now = \<lparr>pe_raws = (\<lambda>_. None), pe_codec = \<lparr>ic_dec = (\<lambda>_. None), ic_enc = (\<lambda>_. None)\<rparr>,
     pe_cache_on = False, pe_now = now, pe_save_ok = True, pe_ability_ok = True\<rparr>"

definition demo_pool :: pool_state where
  "demo_pool = \<lparr>ps_cache = \<lparr>group2model2channels = [], channelsIDM = []\<rparr>, ps_channels = [(7, demo_channel)], ps_abilities = []\<rparr>"

theorem reapChannel_exact_witness:
  "case reapChannel (demo_env 1000) demo_channel demo_pool of ((n, ok), st') \<Rightarrow>
     n = 1 \<and> (\<exists>c'. gm_get (ps_channels st') 7 = Some c' \<and> gm_get (MultiKeyStatusList (ch_ChannelInfo c')) 0 = None)"
proof -
  obtain n ok st' where r: "reapChannel (demo_env 1000) demo_channel demo_pool = ((n, ok), st')"
    by (metis surj_pair)
  have n: "n = 1"
    using r by (simp add: reapChannel_def demo_channel_def demo_env_def gm_len_def expired_keys_def
        SaveWithoutKey_def Let_def split: if_splits)
  have "key_expired 1000 demo_channel 0"
    by (simp add: key_expired_def demo_channel_def gm_get_def)
  moreover have "ch_Id demo_channel = 7" "pe_now (demo_env 1000) = 1000"
    by (simp_all add: demo_channel_def demo_env_def)
  ultimately show ?thesis
    using reapChannel_exact [OF r] n r
    by (auto simp: demo_env_def demo_channel_def gm_ok_def gm_keys_def)
qed

lemma reap_row_status:
  assumes "gm_get (ps_channels st) (ch_Id c) = Some c" "IsMultiKey (ch_ChannelInfo c)" "pe_save_ok env"
    "ch_Id c \<noteq> 0" "gm_ok (MultiKeyCooldownUntil (ch_ChannelInfo c))"
  shows "\<exists>c'. gm_get (ps_channels (snd (reapChannel env c st))) (ch_Id c) = Some c' \<and>
     (\<forall>i. gm_get (MultiKeyStatusList (ch_ChannelInfo c')) i =
        (if key_expired (pe_now env) c i then None else gm_get (MultiKeyStatusList (ch_ChannelInfo c)) i))"
proof -
  obtain n ok st' where r: "reapChannel env c st = ((n, ok), st')" by (metis surj_pair)
  show ?thesis
  proof (cases "0 < n")
    case True
    then show ?thesis using reapChannel_exact [OF r True assms(3-5)] r by auto
  next
    case False
    let ?ex = "expired_keys (pe_now env) (MultiKeyCooldownUntil (ch_ChannelInfo c))"
    have "?ex = []" and "st' = st"
      using r False assms(2) by (auto simp: reapChannel_def Let_def expired_keys_def gm_len_def split: if_splits prod.splits)
    then have "\<not> key_expired (pe_now env) c i" for i
      using key_expired_set [OF assms(5), of "pe_now env"] by simp
    then show ?thesis using r assms(1) \<open>st' = st\<close> by simp
  qed
qed

lemma applyMultiKeyCooldown_effect:
  assumes "index_of k (GetKeys (pe_raws env) c) = Some i"
  shows "gm_get (MultiKeyStatusList (ch_ChannelInfo (applyMultiKeyCooldown env k u r c))) (int i) = Some ChannelStatusAutoDisabled"
    and "MultiKeyCooldownUntil (ch_ChannelInfo (applyMultiKeyCooldown env k u r c)) =
      gm_put (MultiKeyCooldownUntil (ch_ChannelInfo c)) (int i) u"
    and "IsMultiKey (ch_ChannelInfo (applyMultiKeyCooldown env k u r c)) = IsMultiKey (ch_ChannelInfo c)"
proof -
  have "GetKeys (pe_raws env) c \<noteq> []" using assms by auto
  then show "gm_get (MultiKeyStatusList (ch_ChannelInfo (applyMultiKeyCooldown env k u r c))) (int i) = Some ChannelStatusAutoDisabled"
    and "MultiKeyCooldownUntil (ch_ChannelInfo (applyMultiKeyCooldown env k u r c)) =
      gm_put (MultiKeyCooldownUntil (ch_ChannelInfo c)) (int i) u"
    and "IsMultiKey (ch_ChannelInfo (applyMultiKeyCooldown env k u r c)) = IsMultiKey (ch_ChannelInfo c)"
    by (simp_all add: applyMultiKeyCooldown_def Let_def assms)
qed

lemma MarkMultiKeyCooldown_row:
  assumes "MarkMultiKeyCooldown env cid k u r st = (True, st1)" "gm_get (ps_channels st) cid = Some c" "ch_Id c = cid"
  shows "\<exists>key. gm_get (ps_channels st1) cid =
     Some ((applyMultiKeyCooldown env k u r (c\<lparr>ch_Keys := []\<rparr>))\<lparr>ch_Key := key\<rparr>) \<and>
     IsMultiKey (ch_ChannelInfo c) \<and> 0 < u \<and> cid \<noteq> 0"
proof -
  let ?c1 = "applyMultiKeyCooldown env k u r (c\<lparr>ch_Keys := []\<rparr>)"
  have id: "ch_Id ?c1 = cid" using assms(3) by simp
  have "ps_channels st1 = gm_put (ps_channels st) cid (?c1\<lparr>ch_Key := ch_Key c\<rparr>) \<and>
      IsMultiKey (ch_ChannelInfo c) \<and> 0 < u \<and> cid \<noteq> 0"
    using assms(1,2) id unfolding MarkMultiKeyCooldown_def Let_def GetChannelById_def
    by (auto simp: sync_abilities_def SaveWithoutKey_eq split: if_splits option.splits prod.splits)
  then show ?thesis by (intro exI [of _ "ch_Key c"]) simp
qed

text \<open>
  C29. A cooldown lasts exactly until its deadline: a key of a stored pool that was marked until
  \<open>u\<close> is down with that deadline in the database, a later reaper pass before \<open>u\<close> leaves it down,
  and a pass at or after \<open>u\<close> makes it available again.
\<close>

theorem cooldown_until_deadline:
  assumes "MarkMultiKeyCooldown env cid k u r st = (True, st1)"
    and "gm_get (ps_channels st) cid = Some c" and "ch_Id c = cid"
    and "index_of k (GetKeys (pe_raws env) (c\<lparr>ch_Keys := []\<rparr>)) = Some i"
    and "gm_ok (MultiKeyCooldownUntil (ch_ChannelInfo c))" and "pe_save_ok env'"
  shows "\<exists>c1 c2. gm_get (ps_channels st1) cid = Some c1 \<and>
     gm_get (MultiKeyStatusList (ch_ChannelInfo c1)) (int i) = Some ChannelStatusAutoDisabled \<and>
     gm_get (MultiKeyCooldownUntil (ch_ChannelInfo c1)) (int i) = Some u \<and>
     gm_get (ps_channels (snd (reapChannel env' c1 st1))) cid = Some c2 \<and>
     gm_get (MultiKeyStatusList (ch_ChannelInfo c2)) (int i) =
       (if u \<le> pe_now env' then None else Some ChannelStatusAutoDisabled)"
proof -
  let ?c0 = "c\<lparr>ch_Keys := []\<rparr>"
  obtain key where row: "gm_get (ps_channels st1) cid = Some ((applyMultiKeyCooldown env k u r ?c0)\<lparr>ch_Key := key\<rparr>)"
    and multi: "IsMultiKey (ch_ChannelInfo c)" and pos: "0 < u" "cid \<noteq> 0"
    using MarkMultiKeyCooldown_row [OF assms(1-3)] by blast
  define c1 where "c1 = (applyMultiKeyCooldown env k u r ?c0)\<lparr>ch_Key := key\<rparr>"
  have c1: "gm_get (MultiKeyStatusList (ch_ChannelInfo c1)) (int i) = Some ChannelStatusAutoDisabled"
    "MultiKeyCooldownUntil (ch_ChannelInfo c1) = gm_put (MultiKeyCooldownUntil (ch_ChannelInfo c)) (int i) u"
    "IsMultiKey (ch_ChannelInfo c1)" "ch_Id c1 = cid"
    unfolding c1_def using applyMultiKeyCooldown_effect [OF assms(4)] multi assms(3) by simp_all
  obtain c2 where c2: "gm_get (ps_channels (snd (reapChannel env' c1 st1))) cid = Some c2"
    "\<forall>i. gm_get (MultiKeyStatusList (ch_ChannelInfo c2)) i =
        (if key_expired (pe_now env') c1 i then None else gm_get (MultiKeyStatusList (ch_ChannelInfo c1)) i)"
    using reap_row_status [of st1 c1 env'] row assms(5,6) c1 pos(2) c1_def by auto
  show ?thesis
    by (intro exI [of _ c1] exI [of _ c2] conjI)
       (use row c1 c2 pos(1) in \<open>simp_all add: c1_def [symmetric] key_expired_def\<close>)
qed

theorem cooldown_until_deadline_witness:
  "case MarkMultiKeyCooldown (demo_env 10) 7 ''b'' 40 ''rate limit'' demo_pool of (ok, st1) \<Rightarrow>
     ok \<and> (\<exists>c1 c2. gm_get (ps_channels st1) 7 = Some c1 \<and>
       gm_get (ps_channels (snd (reapChannel (demo_env 39) c1 st1))) 7 = Some c2 \<and>
       gm_get (MultiKeyStatusList (ch_ChannelInfo c2)) 1 = Some 3)"
proof -
  obtain ok st1 where m: "MarkMultiKeyCooldown (demo_env 10) 7 ''b'' 40 ''rate limit'' demo_pool = (ok, st1)"
    by (metis surj_pair)
  have "demo_channel\<lparr>ch_Keys := []\<rparr> = demo_channel" by (simp add: demo_channel_def)
  then have row: "GetChannelById 7 demo_pool = Some demo_channel"
    by (simp add: GetChannelById_def demo_pool_def gm_get_def)
  have idx: "index_of ''b'' (GetKeys (pe_raws (demo_env 10)) (demo_channel\<lparr>ch_Keys := []\<rparr>)) = Some 1"
    using \<open>_ = demo_channel\<close> by (simp add: demo_env_def demo_keys)
  have multi: "IsMultiKey (ch_ChannelInfo demo_channel)" "ch_Id demo_channel = 7" by (simp_all add: demo_channel_def)
  have ok
    using m row multi
    by (auto simp: MarkMultiKeyCooldown_def Let_def SaveWithoutKey_def demo_env_def \<open>_ = demo_channel\<close>
        split: if_splits prod.splits)
  then show ?thesis
    using cooldown_until_deadline [of "demo_env 10" 7 "''b''" 40 "''rate limit''" demo_pool st1 demo_channel 1 "demo_env 39"]
      m idx multi(2)
    by (auto simp: demo_pool_def gm_get_def demo_channel_def gm_ok_def gm_keys_def demo_env_def channel_status_defs)
qed

text \<open>
  Disabling or enabling one key of a pool changes the status of that key only - but of the
  first key when the given key is not in the pool -, never touches the deadlines, and takes the
  channel down exactly when no key is left up.
\<close>

theorem handlerMultiKeyUpdate_effect:
  assumes "GetKeys (pe_raws env) c \<noteq> []" and "MultiKeySize (ch_ChannelInfo c) = int n"
    and "j = (if k \<in> set (GetKeys (pe_raws env) c) then the (index_of k (GetKeys (pe_raws env) c)) else 0)"
    and "c' = handlerMultiKeyUpdate env k status r c"
  shows "gm_get (MultiKeyStatusList (ch_ChannelInfo c')) i =
      (if i = int j then if status = ChannelStatusEnabled then None else Some status
       else gm_get (MultiKeyStatusList (ch_ChannelInfo c)) i) \<and>
    MultiKeyCooldownUntil (ch_ChannelInfo c') = MultiKeyCooldownUntil (ch_ChannelInfo c) \<and>
    ch_Status c' = (if n \<le> gm_len (MultiKeyStatusList (ch_ChannelInfo c'))
      then ChannelStatusAutoDisabled else ch_Status c) \<and>
    ch_Key c' = ch_Key c \<and> ch_Id c' = ch_Id c"
proof -
  have j: "key_index_or_zero k (GetKeys (pe_raws env) c) = j"
    using assms(3) index_of_None [of k "GetKeys (pe_raws env) c"]
    by (cases "index_of k (GetKeys (pe_raws env) c)") (auto simp: key_index_or_zero_def)
  have ne: "ChannelStatusEnabled \<noteq> ChannelStatusAutoDisabled" by (simp add: channel_status_defs)
  show ?thesis
    unfolding assms(4) handlerMultiKeyUpdate_def Let_def j using assms(1,2) ne by simp
qed

theorem handlerMultiKeyUpdate_effect_witness:
  "gm_get (MultiKeyStatusList (ch_ChannelInfo
     (handlerMultiKeyUpdate (demo_env 10) ''zz'' 2 ''gone'' demo_channel))) 0 = Some 2"
proof -
  have "GetKeys (pe_raws (demo_env 10)) demo_channel = [''a'', ''b'']" by (simp add: demo_env_def demo_keys)
  then show ?thesis
    using handlerMultiKeyUpdate_effect [of "demo_env 10" demo_channel 2 0 "''zz''" _ 2 "''gone''" 0]
    by (simp add: demo_channel_def channel_status_defs)
qed

text \<open>
  A permanent disable does not survive a pending cooldown: a key that is disabled for good
  while it still carries a deadline is enabled again by the first reaper pass after the deadline.
\<close>

theorem disable_undone_by_reaper:
  assumes "index_of k (GetKeys (pe_raws env) c) = Some i"
    and "gm_get (MultiKeyCooldownUntil (ch_ChannelInfo c)) (int i) = Some u" and "0 < u" and "u \<le> pe_now env'"
    and "c' = handlerMultiKeyUpdate env k ChannelStatusAutoDisabled r c"
    and "gm_get (ps_channels st) (ch_Id c) = Some c'" and "ch_Id c \<noteq> 0" and "pe_save_ok env'"
    and "gm_ok (MultiKeyCooldownUntil (ch_ChannelInfo c))" and "IsMultiKey (ch_ChannelInfo c)"
  shows "gm_get (MultiKeyStatusList (ch_ChannelInfo c')) (int i) = Some ChannelStatusAutoDisabled \<and>
    (\<exists>c2. gm_get (ps_channels (snd (reapChannel env' c' st))) (ch_Id c) = Some c2 \<and>
       gm_get (MultiKeyStatusList (ch_ChannelInfo c2)) (int i) = None)"
proof -
  have ne: "ChannelStatusAutoDisabled \<noteq> ChannelStatusEnabled" by (simp add: channel_status_defs)
  have keys: "GetKeys (pe_raws env) c \<noteq> []" using assms(1) by auto
  have c': "gm_get (MultiKeyStatusList (ch_ChannelInfo c')) (int i) = Some ChannelStatusAutoDisabled"
    "MultiKeyCooldownUntil (ch_ChannelInfo c') = MultiKeyCooldownUntil (ch_ChannelInfo c)"
    "ch_Id c' = ch_Id c" "IsMultiKey (ch_ChannelInfo c')"
    unfolding assms(5) handlerMultiKeyUpdate_def key_index_or_zero_def Let_def
    using assms(1,10) keys ne by simp_all
  show ?thesis
    using reap_row_status [of st c' env'] c' assms(2-4,6-9) by (auto simp: key_expired_def)
qed

theorem disable_undone_by_reaper_witness:
  "let c' = handlerMultiKeyUpdate (demo_env 10) ''a'' 3 ''401'' demo_channel in
     gm_get (MultiKeyStatusList (ch_ChannelInfo c')) 0 = Some 3 \<and>
     (\<exists>c2. gm_get (ps_channels (snd (reapChannel (demo_env 900) c' (demo_pool\<lparr>ps_channels := [(7, c')]\<rparr>)))) 7 = Some c2 \<and>
       gm_get (MultiKeyStatusList (ch_ChannelInfo c2)) 0 = None)"
proof -
  have "index_of ''a'' (GetKeys (pe_raws (demo_env 10)) demo_channel) = Some 0"
    by (simp add: demo_env_def demo_keys)
  then show ?thesis
    using disable_undone_by_reaper [of "''a''" "demo_env 10" demo_channel 0 900 "demo_env 900" _ "''401''"
        "demo_pool\<lparr>ps_channels := [(7, handlerMultiKeyUpdate (demo_env 10) ''a'' 3 ''401'' demo_channel)]\<rparr>"]
    by (simp add: demo_channel_def demo_env_def gm_get_def gm_ok_def gm_keys_def channel_status_defs Let_def)
qed

definition cache_passes :: "pool_env \<Rightarrow> int \<Rightarrow> int \<Rightarrow> pool_state \<Rightarrow> bool" where
  "cache_passes env cid status st =
     (\<not> pe_cache_on env \<or> (case gm_get (channelsIDM (ps_cache st)) cid of None \<Rightarrow> False
        | Some c \<Rightarrow> IsMultiKey (ch_ChannelInfo c) \<or> ch_Status c \<noteq> status))"

text \<open>
  When a status change reaches the database: \<^verbatim>\<open>UpdateChannelStatus\<close> succeeds exactly when the
  cache does not stop it, the row exists with a different channel status and the write succeeds;
  otherwise the channel table is as before. So a key of a pool whose channel already has the
  requested status (re-enabling one key of an enabled channel) is changed in the cache only.
\<close>

theorem UpdateChannelStatus_persists_iff:
  "fst (UpdateChannelStatus env cid k status r st) =
     (cache_passes env cid status st \<and> (case gm_get (ps_channels st) cid of None \<Rightarrow> False
        | Some c \<Rightarrow> ch_Status c \<noteq> status \<and> ch_Id c \<noteq> 0 \<and> pe_save_ok env)) \<and>
   (fst (UpdateChannelStatus env cid k status r st) \<or>
      ps_channels (snd (UpdateChannelStatus env cid k status r st)) = ps_channels st)"
proof -
  have pass: "case update_status_cache env cid k status r st of
      None \<Rightarrow> \<not> cache_passes env cid status st
    | Some st1 \<Rightarrow> cache_passes env cid status st \<and> ps_channels st1 = ps_channels st"
    by (auto simp: update_status_cache_def cache_passes_def split: option.split)
  have hid: "ch_Id (handlerMultiKeyUpdate env k status r c) = ch_Id c" for c
    by (simp add: handlerMultiKeyUpdate_def Let_def)
  have ab: "ps_channels (sync_abilities env cid b s) = ps_channels s" for b s
    by (simp add: sync_abilities_def)
  show ?thesis
  proof (cases "update_status_cache env cid k status r st")
    case None
    then show ?thesis using pass by (simp add: UpdateChannelStatus_def)
  next
    case (Some st1)
    then show ?thesis
      using pass hid ab by (auto simp: UpdateChannelStatus_def GetChannelById_def SaveWithoutKey_def Let_def
          split: option.splits)
  qed
qed

end
