(* ===== verification/Channel_Select.thy ===== *)
theory Channel_Select
  imports Channel_Cache
begin

text \<open>
  Choosing a channel for an attempt of a request: \<^verbatim>\<open>internal/app/channel_select.go\<close>, with the
  groups a user may use (\<^verbatim>\<open>group.go\<close> and \<^verbatim>\<open>pkg/setting/auto_group.go\<close>). A token of the group
  \<^verbatim>\<open>auto\<close> walks through the automatic groups of its user; where it is, is kept in the request
  context. The selection inside one group is the argument \<open>pick\<close>: the cached or the database
  selection of \<^verbatim>\<open>Channel_Cache\<close> with its random numbers.
\<close>

section \<open>Groups\<close>

text \<open>
  \<^verbatim>\<open>GetUserUsableGroups\<close>: \<open>usable\<close> is the configured map, \<open>special\<close> the special settings of the
  user's group in the order the loop visits them. The descriptions are byte strings; \<open>own\<close> is the
  one given to the user's own group.
\<close>

definition special_group :: "string \<times> string \<Rightarrow> (string, string) gomap \<Rightarrow> (string, string) gomap" where
  "special_group e groups =
     (case e of (specialGroup, desc) \<Rightarrow>
        if go_has_prefix specialGroup ''-:'' then gm_del groups (go_trim_prefix specialGroup ''-:'')
        else if go_has_prefix specialGroup ''+:'' then gm_put groups (go_trim_prefix specialGroup ''+:'') desc
        else gm_put groups specialGroup desc)"

definition GetUserUsableGroups ::
    "string \<Rightarrow> (string, string) gomap \<Rightarrow> (string \<Rightarrow> (string \<times> string) list option) \<Rightarrow> string \<Rightarrow> (string, string) gomap" where
  "GetUserUsableGroups own usable special userGroup =
     (if userGroup = [] then usable
      else (let groups = (case special userGroup of None \<Rightarrow> usable | Some es \<Rightarrow> fold special_group es usable)
            in if gm_get groups userGroup = None then gm_put groups userGroup own else groups))"

definition GroupInUserUsableGroups ::
    "string \<Rightarrow> (string, string) gomap \<Rightarrow> (string \<Rightarrow> (string \<times> string) list option) \<Rightarrow> string \<Rightarrow> string \<Rightarrow> bool" where
  "GroupInUserUsableGroups own usable special userGroup groupName =
     (gm_get (GetUserUsableGroups own usable special userGroup) groupName \<noteq> None)"

definition GetUserAutoGroup ::
    "string \<Rightarrow> (string, string) gomap \<Rightarrow> (string \<Rightarrow> (string \<times> string) list option) \<Rightarrow> string list \<Rightarrow> string \<Rightarrow> string list" where
  "GetUserAutoGroup own usable special autoGroups userGroup =
     filter (\<lambda>g. gm_get (GetUserUsableGroups own usable special userGroup) g \<noteq> None) autoGroups"

definition ContainsAutoGroup :: "string list \<Rightarrow> string \<Rightarrow> bool" where
  "ContainsAutoGroup autoGroups g = list_ex (\<lambda>a. a = g) autoGroups"

section \<open>The retry parameter\<close>

record RetryParam =
  rp_TokenGroup :: string
  rp_ModelName :: string
  rp_Retry :: "int option"
  rp_resetNextTry :: bool

definition GetRetry :: "RetryParam \<Rightarrow> int" where
  "GetRetry p = (case rp_Retry p of None \<Rightarrow> 0 | Some r \<Rightarrow> r)"

definition SetRetry :: "int \<Rightarrow> RetryParam \<Rightarrow> RetryParam" where
  "SetRetry r p = p\<lparr>rp_Retry := Some r\<rparr>"

definition IncreaseRetry :: "RetryParam \<Rightarrow> RetryParam" where
  "IncreaseRetry p =
     (if rp_resetNextTry p then p\<lparr>rp_resetNextTry := False\<rparr>
      else p\<lparr>rp_Retry := Some (GetRetry p + 1)\<rparr>)"

definition ResetRetryNextTry :: "RetryParam \<Rightarrow> RetryParam" where
  "ResetRetryNextTry p = p\<lparr>rp_resetNextTry := True\<rparr>"

section \<open>Selection\<close>

text \<open>The keys of the request context that the selection reads or writes.\<close>

record select_ctx =
  sx_UserGroup :: string
  sx_CrossGroupRetry :: bool
  sx_AutoGroupIndex :: "nat option"
  sx_AutoGroupRetryIndex :: "int option"
  sx_AutoGroup :: "string option"

text \<open>
  The loop over the automatic groups from index \<open>i\<close> on; \<open>start\<close> is the index it began with. An
  error of \<open>pick\<close> is dropped, as in the code.
\<close>

fun auto_loop ::
    "(string \<Rightarrow> string \<Rightarrow> int \<Rightarrow> channel option res) \<Rightarrow> int \<Rightarrow> nat \<Rightarrow> nat \<Rightarrow> string list \<Rightarrow> RetryParam \<Rightarrow> select_ctx
     \<Rightarrow> (channel option \<times> string) res \<times> RetryParam \<times> select_ctx" where
  "auto_loop pick retryTimes start i [] p cx = (Ok (None, rp_TokenGroup p), p, cx)"
| "auto_loop pick retryTimes start i (autoGroup # gs) p cx =
     (let priorityRetry = (if start < i then 0 else GetRetry p)
      in case pick autoGroup (rp_ModelName p) priorityRetry of
           Panic \<Rightarrow> (Panic, p, cx)
         | Ok (Some c) \<Rightarrow>
             (let cx1 = cx\<lparr>sx_AutoGroup := Some autoGroup\<rparr>
              in if sx_CrossGroupRetry cx \<and> retryTimes \<le> priorityRetry
                 then (Ok (Some c, autoGroup), ResetRetryNextTry (SetRetry 0 p), cx1\<lparr>sx_AutoGroupIndex := Some (Suc i)\<rparr>)
                 else (Ok (Some c, autoGroup), p, cx1\<lparr>sx_AutoGroupIndex := Some i\<rparr>))
         | _ \<Rightarrow> auto_loop pick retryTimes start (Suc i) gs (SetRetry 0 p)
                  (cx\<lparr>sx_AutoGroupIndex := Some (Suc i), sx_AutoGroupRetryIndex := Some 0\<rparr>))"

definition CacheGetRandomSatisfiedChannel ::
    "(string \<Rightarrow> string \<Rightarrow> int \<Rightarrow> channel option res) \<Rightarrow> int \<Rightarrow> string list \<Rightarrow> (string \<Rightarrow> string list) \<Rightarrow> RetryParam \<Rightarrow> select_ctx
     \<Rightarrow> (channel option \<times> string) res \<times> RetryParam \<times> select_ctx" where
  "CacheGetRandomSatisfiedChannel pick retryTimes allAuto userAuto p cx =
     (if rp_TokenGroup p = ''auto'' then
        (if allAuto = [] then (Err ''auto groups is not enabled'', p, cx)
         else (let start = (case sx_AutoGroupIndex cx of None \<Rightarrow> 0 | Some i \<Rightarrow> i)
               in auto_loop pick retryTimes start start (drop start (userAuto (sx_UserGroup cx))) p cx))
      else (case pick (rp_TokenGroup p) (rp_ModelName p) (GetRetry p) of
              Err e \<Rightarrow> (Err e, p, cx) | Panic \<Rightarrow> (Panic, p, cx)
            | Ok c \<Rightarrow> (Ok (c, rp_TokenGroup p), p, cx)))"

section \<open>Lemmas\<close>

fun_cases auto_loop_NilE: "auto_loop pick n start i [] p cx = r"

lemma auto_loop_found:
  assumes "auto_loop pick n start i gs p cx = (Ok (Some c, g), p', cx')" "start \<le> i"
  shows "\<exists>k < length gs. gs ! k = g \<and>
     pick g (rp_ModelName p) (if start < i + k then 0 else GetRetry p) = Ok (Some c) \<and>
     (\<forall>j < k. \<forall>c'. pick (gs ! j) (rp_ModelName p) (if start < i + j then 0 else GetRetry p) \<noteq> Ok (Some c')) \<and>
     sx_AutoGroup cx' = Some g \<and>
     (if sx_CrossGroupRetry cx \<and> n \<le> (if start < i + k then 0 else GetRetry p)
      then sx_AutoGroupIndex cx' = Some (Suc (i + k)) \<and> GetRetry p' = 0 \<and> rp_resetNextTry p'
      else sx_AutoGroupIndex cx' = Some (i + k) \<and> rp_resetNextTry p' = rp_resetNextTry p \<and>
           GetRetry p' = (if k = 0 then GetRetry p else 0))"
  using assms
proof (induction gs arbitrary: i p cx)
  case Nil
  then show ?case by simp
next
  case (Cons a gs)
  let ?r = "if start < i then 0 else GetRetry p"
  show ?case
  proof (cases "\<exists>c'. pick a (rp_ModelName p) ?r = Ok (Some c')")
    case True
    then show ?thesis
      using Cons.prems by (intro exI [of _ 0])
        (auto simp: Let_def ResetRetryNextTry_def SetRetry_def GetRetry_def split: if_splits)
  next
    case False
    let ?cx = "cx\<lparr>sx_AutoGroupIndex := Some (Suc i), sx_AutoGroupRetryIndex := Some 0\<rparr>"
    have rec: "auto_loop pick n start (Suc i) gs (SetRetry 0 p) ?cx = (Ok (Some c, g), p', cx')"
      using Cons.prems(1) False by (auto simp: Let_def split: res.splits option.splits)
    have le: "start \<le> Suc i" using Cons.prems(2) by simp
    obtain k where k: "k < length gs" "gs ! k = g" "pick g (rp_ModelName p) 0 = Ok (Some c)"
      "\<forall>j < k. \<forall>c'. pick (gs ! j) (rp_ModelName p) 0 \<noteq> Ok (Some c')" "sx_AutoGroup cx' = Some g"
      "if sx_CrossGroupRetry cx \<and> n \<le> 0
       then sx_AutoGroupIndex cx' = Some (Suc (Suc i + k)) \<and> GetRetry p' = 0 \<and> rp_resetNextTry p'
       else sx_AutoGroupIndex cx' = Some (Suc i + k) \<and> rp_resetNextTry p' = rp_resetNextTry p \<and> GetRetry p' = 0"
      using Cons.IH [OF rec le] Cons.prems(2)
      by (auto simp: SetRetry_def GetRetry_def split: if_splits)
    have first: "pick a (rp_ModelName p) ?r \<noteq> Ok (Some c')" for c' using False by simp
    have lt: "start < Suc (i + j)" for j using Cons.prems(2) by simp
    show ?thesis
      using k first lt by (intro exI [of _ "Suc k"]) (simp add: All_less_Suc2 split: if_splits)
  qed
qed

section \<open>Properties\<close>

text \<open>
  An automatic token gets a channel of the first of its groups, counted from where the last
  attempt stopped, that has one: no earlier group has a channel, the current group is asked with
  the retry number of the request and every later one from its best priority, and the next
  attempt stays in the chosen group unless its retries are used up and retrying across groups is
  allowed, in which case it starts afresh with the next group.
\<close>

theorem auto_selects_first_group:
  assumes "CacheGetRandomSatisfiedChannel pick n allAuto userAuto p cx = (Ok (Some c, g), p', cx')"
    and "rp_TokenGroup p = ''auto''" and "groups = userAuto (sx_UserGroup cx)"
    and "start = (case sx_AutoGroupIndex cx of None \<Rightarrow> 0 | Some i \<Rightarrow> i)"
    and "asked = (\<lambda>j. if j = start then GetRetry p else 0)"
  shows "\<exists>k. start \<le> k \<and> k < length groups \<and> groups ! k = g \<and> pick g (rp_ModelName p) (asked k) = Ok (Some c) \<and>
     (\<forall>j. start \<le> j \<and> j < k \<longrightarrow> (\<forall>c'. pick (groups ! j) (rp_ModelName p) (asked j) \<noteq> Ok (Some c'))) \<and>
     sx_AutoGroupIndex cx' = Some (if sx_CrossGroupRetry cx \<and> n \<le> asked k then Suc k else k) \<and>
     GetRetry p' = (if sx_CrossGroupRetry cx \<and> n \<le> asked k then 0 else asked k)"
proof -
  have loop: "auto_loop pick n start start (drop start groups) p cx = (Ok (Some c, g), p', cx')"
    using assms by (auto simp: CacheGetRandomSatisfiedChannel_def Let_def split: if_splits)
  obtain k where k: "k < length (drop start groups)" "drop start groups ! k = g"
    "pick g (rp_ModelName p) (if start < start + k then 0 else GetRetry p) = Ok (Some c)"
    "\<forall>j < k. \<forall>c'. pick (drop start groups ! j) (rp_ModelName p) (if start < start + j then 0 else GetRetry p) \<noteq> Ok (Some c')"
    "if sx_CrossGroupRetry cx \<and> n \<le> (if start < start + k then 0 else GetRetry p)
      then sx_AutoGroupIndex cx' = Some (Suc (start + k)) \<and> GetRetry p' = 0 \<and> rp_resetNextTry p'
      else sx_AutoGroupIndex cx' = Some (start + k) \<and> rp_resetNextTry p' = rp_resetNextTry p \<and>
           GetRetry p' = (if k = 0 then GetRetry p else 0)"
    using auto_loop_found [OF loop order_refl] by blast
  have asked: "asked (start + j) = (if start < start + j then 0 else GetRetry p)" for j
    by (simp add: assms(5))
  show ?thesis
  proof (intro exI [of _ "start + k"] conjI allI impI)
    fix j c' assume j: "start \<le> j \<and> j < start + k"
    then obtain d where "j = start + d" "d < k" by (metis add_less_cancel_left le_iff_add)
    then show "pick (groups ! j) (rp_ModelName p) (asked j) \<noteq> Ok (Some c')"
      using k(1,4) asked [of d] by simp
  qed (use k asked [of k] in \<open>auto split: if_splits\<close>)
qed

theorem auto_selects_first_group_witness:
  "case CacheGetRandomSatisfiedChannel (\<lambda>g m r. if g = ''vip'' then Ok (Some demo_channel) else Ok None) 3
      [''free'', ''vip''] (\<lambda>_. [''free'', ''vip'']) \<lparr>rp_TokenGroup = ''auto'', rp_ModelName = ''m'', rp_Retry = Some 2,
        rp_resetNextTry = False\<rparr> \<lparr>sx_UserGroup = ''u'', sx_CrossGroupRetry = True, sx_AutoGroupIndex = None,
        sx_AutoGroupRetryIndex = None, sx_AutoGroup = None\<rparr> of (r, p', cx') \<Rightarrow> sx_AutoGroupIndex cx' = Some 1 \<and> GetRetry p' = 0"
proof -
  let ?pick = "\<lambda>g m r. if g = ''vip'' then Ok (Some demo_channel) else Ok None :: channel option res"
  let ?p = "\<lparr>rp_TokenGroup = ''auto'', rp_ModelName = ''m'', rp_Retry = Some 2, rp_resetNextTry = False\<rparr> :: RetryParam"
  let ?cx = "\<lparr>sx_UserGroup = ''u'', sx_CrossGroupRetry = True, sx_AutoGroupIndex = None,
        sx_AutoGroupRetryIndex = None, sx_AutoGroup = None\<rparr> :: select_ctx"
  obtain r p' cx' where s: "CacheGetRandomSatisfiedChannel ?pick 3 [''free'', ''vip''] (\<lambda>_. [''free'', ''vip'']) ?p ?cx = (r, p', cx')"
    by (metis surj_pair)
  have r: "r = Ok (Some demo_channel, ''vip'')"
    using s by (auto simp: CacheGetRandomSatisfiedChannel_def Let_def SetRetry_def)
  have gr: "GetRetry ?p = 2" by (simp add: GetRetry_def)
  obtain k where k: "k < length [''free'', ''vip'']" "[''free'', ''vip''] ! k = ''vip''"
    "sx_AutoGroupIndex cx' = Some (if 3 \<le> (if k = 0 then GetRetry ?p else 0) then Suc k else k)"
    "GetRetry p' = (if 3 \<le> (if k = 0 then GetRetry ?p else 0) then 0 else if k = 0 then GetRetry ?p else 0)"
    using auto_selects_first_group [OF s [unfolded r] _ refl refl refl]
    by (simp only: select_ctx.simps RetryParam.simps option.case refl simp_thms) blast
  have "k = 1" using k(1,2) by (cases k) auto
  then show ?thesis using k(3,4) by (simp add: s)
qed

end
