(* ===== verification/User_Ledger.thy ===== *)
theory User_Ledger
  imports Go_Base
begin

text \<open>
  The quota ledger: users and tokens of \<^verbatim>\<open>internal/adapter/repo/user.go\<close> and \<^verbatim>\<open>token.go\<close>, the
  batched updates of \<^verbatim>\<open>utils.go\<close>, the daily quota of \<^verbatim>\<open>user.go\<close> and \<^verbatim>\<open>daily_quota_cron.go\<close>, and
  the validation of a token. A database write takes its outcome as an argument; an update of a
  missing row writes nothing and succeeds. Redis copies of the rows are not modelled. Quotas
  are unbounded integers.
\<close>

section \<open>Rows\<close>

record user =
  us_Id :: int
  us_TenantId :: string
  us_Username :: string
  us_DisplayName :: string
  us_Role :: int
  us_Status :: int
  us_Email :: string
  us_AccessToken :: "string option"
  us_Quota :: int
  us_UsedQuota :: int
  us_RequestCount :: int
  us_Group :: string
  us_DailyQuota :: int
  us_DailyUsed :: int
  us_LastDailyReset :: int
  us_BaseGroup :: string
  us_FallbackGroup :: string
  us_Setting :: string
  us_Remark :: string

record token =
  tk_Id :: int
  tk_UserId :: int
  tk_TenantId :: string
  tk_Key :: string
  tk_Status :: int
  tk_Name :: string
  tk_CreatedTime :: int
  tk_AccessedTime :: int
  tk_ExpiredTime :: int
  tk_RemainQuota :: int
  tk_UnlimitedQuota :: bool
  tk_ModelLimitsEnabled :: bool
  tk_ModelLimits :: string
  tk_AllowIps :: "string option"
  tk_UsedQuota :: int
  tk_Group :: string
  tk_CrossGroupRetry :: bool
  tk_IdentityAccountID :: int

datatype batch_type =
    BatchUpdateTypeUserQuota | BatchUpdateTypeTokenQuota | BatchUpdateTypeUsedQuota
  | BatchUpdateTypeChannelUsedQuota | BatchUpdateTypeRequestCount

text \<open>The constants are numbered by \<^verbatim>\<open>iota\<close>, which orders them.\<close>

primrec batch_iota :: "batch_type \<Rightarrow> nat" where
  "batch_iota BatchUpdateTypeUserQuota = 0"
| "batch_iota BatchUpdateTypeTokenQuota = 1"
| "batch_iota BatchUpdateTypeUsedQuota = 2"
| "batch_iota BatchUpdateTypeChannelUsedQuota = 3"
| "batch_iota BatchUpdateTypeRequestCount = 4"

lemma batch_iota_inj: "batch_iota a = batch_iota b \<Longrightarrow> a = b"
  by (cases a; cases b) simp_all

instantiation batch_type :: linorder
begin

definition less_eq_batch_type :: "batch_type \<Rightarrow> batch_type \<Rightarrow> bool" where
  "less_eq_batch_type a b \<longleftrightarrow> batch_iota a \<le> batch_iota b"

definition less_batch_type :: "batch_type \<Rightarrow> batch_type \<Rightarrow> bool" where
  "less_batch_type a b \<longleftrightarrow> batch_iota a < batch_iota b"

instance
  by standard (auto simp: less_eq_batch_type_def less_batch_type_def intro: batch_iota_inj)

end

text \<open>The loop of \<^verbatim>\<open>batchUpdate\<close> visits the types in the order of their numbers.\<close>

definition batch_types :: "batch_type list" where
  "batch_types = [BatchUpdateTypeUserQuota, BatchUpdateTypeTokenQuota, BatchUpdateTypeUsedQuota,
     BatchUpdateTypeChannelUsedQuota, BatchUpdateTypeRequestCount]"

lemma batch_types_all: "ty \<in> set batch_types"
  by (cases ty) (simp_all add: batch_types_def)

lemma batch_types_sorted: "sorted batch_types \<and> distinct batch_types"
  by (simp add: batch_types_def less_eq_batch_type_def)

lemma batch_types_are_all: "sorted_list_of_set UNIV = batch_types"
proof -
  have "UNIV = set batch_types" using batch_types_all by blast
  then have "sorted_list_of_set UNIV = sorted_list_of_set (set batch_types)" by simp
  also have "\<dots> = batch_types" using batch_types_sorted by (simp only: sorted_list_of_set.idem_if_sorted_distinct)
  finally show ?thesis .
qed

record ledger =
  lg_users :: "(int, user) gomap"
  lg_tokens :: "(int, token) gomap"
  lg_channel_used :: "(int, int) gomap"
  lg_batch :: "batch_type \<Rightarrow> (int, int) gomap"

section \<open>Quota updates\<close>

definition addNewRecord :: "batch_type \<Rightarrow> int \<Rightarrow> int \<Rightarrow> ledger \<Rightarrow> ledger" where
  "addNewRecord ty i v lg =
     (let store = lg_batch lg ty
      in lg\<lparr>lg_batch := (lg_batch lg)(ty := gm_put store i
           (case gm_get store i of None \<Rightarrow> v | Some old \<Rightarrow> old + v))\<rparr>)"

definition increaseUserQuota :: "bool \<Rightarrow> int \<Rightarrow> int \<Rightarrow> ledger \<Rightarrow> bool \<times> ledger" where
  "increaseUserQuota ok i q lg =
     (if ok then (True, lg\<lparr>lg_users := gm.modify (lg_users lg) i (\<lambda>u. u\<lparr>us_Quota := us_Quota u + q\<rparr>)\<rparr>)
      else (False, lg))"

definition decreaseUserQuota :: "bool \<Rightarrow> int \<Rightarrow> int \<Rightarrow> ledger \<Rightarrow> bool \<times> ledger" where
  "decreaseUserQuota ok i q lg =
     (if ok then (True, lg\<lparr>lg_users := gm.modify (lg_users lg) i (\<lambda>u. u\<lparr>us_Quota := us_Quota u - q\<rparr>)\<rparr>)
      else (False, lg))"

definition IncreaseUserQuota :: "bool \<Rightarrow> bool \<Rightarrow> int \<Rightarrow> int \<Rightarrow> bool \<Rightarrow> ledger \<Rightarrow> bool \<times> ledger" where
  "IncreaseUserQuota batch ok i quota db lg =
     (if quota < 0 then (False, lg)
      else if \<not> db \<and> batch then (True, addNewRecord BatchUpdateTypeUserQuota i quota lg)
      else increaseUserQuota ok i quota lg)"

definition DecreaseUserQuota :: "bool \<Rightarrow> bool \<Rightarrow> int \<Rightarrow> int \<Rightarrow> ledger \<Rightarrow> bool \<times> ledger" where
  "DecreaseUserQuota batch ok i quota lg =
     (if quota < 0 then (False, lg)
      else if batch then (True, addNewRecord BatchUpdateTypeUserQuota i (- quota) lg)
      else decreaseUserQuota ok i quota lg)"

definition DeltaUpdateUserQuota :: "bool \<Rightarrow> bool \<Rightarrow> int \<Rightarrow> int \<Rightarrow> ledger \<Rightarrow> bool \<times> ledger" where
  "DeltaUpdateUserQuota batch ok i delta lg =
     (if delta = 0 then (True, lg)
      else if 0 < delta then IncreaseUserQuota batch ok i delta False lg
      else DecreaseUserQuota batch ok i (- delta) lg)"

definition increaseTokenQuota :: "bool \<Rightarrow> int \<Rightarrow> int \<Rightarrow> int \<Rightarrow> ledger \<Rightarrow> bool \<times> ledger" where
  "increaseTokenQuota ok now i q lg =
     (if ok then (True, lg\<lparr>lg_tokens := gm.modify (lg_tokens lg) i (\<lambda>t. t\<lparr>tk_RemainQuota := tk_RemainQuota t + q,
          tk_UsedQuota := tk_UsedQuota t - q, tk_AccessedTime := now\<rparr>)\<rparr>)
      else (False, lg))"

definition decreaseTokenQuota :: "bool \<Rightarrow> int \<Rightarrow> int \<Rightarrow> int \<Rightarrow> ledger \<Rightarrow> bool \<times> ledger" where
  "decreaseTokenQuota ok now i q lg =
     (if ok then (True, lg\<lparr>lg_tokens := gm.modify (lg_tokens lg) i (\<lambda>t. t\<lparr>tk_RemainQuota := tk_RemainQuota t - q,
          tk_UsedQuota := tk_UsedQuota t + q, tk_AccessedTime := now\<rparr>)\<rparr>)
      else (False, lg))"

definition IncreaseTokenQuota :: "bool \<Rightarrow> bool \<Rightarrow> int \<Rightarrow> int \<Rightarrow> int \<Rightarrow> ledger \<Rightarrow> bool \<times> ledger" where
  "IncreaseTokenQuota batch ok now i quota lg =
     (if quota < 0 then (False, lg)
      else if batch then (True, addNewRecord BatchUpdateTypeTokenQuota i quota lg)
      else increaseTokenQuota ok now i quota lg)"

definition DecreaseTokenQuota :: "bool \<Rightarrow> bool \<Rightarrow> int \<Rightarrow> int \<Rightarrow> int \<Rightarrow> ledger \<Rightarrow> bool \<times> ledger" where
  "DecreaseTokenQuota batch ok now i quota lg =
     (if quota < 0 then (False, lg)
      else if batch then (True, addNewRecord BatchUpdateTypeTokenQuota i (- quota) lg)
      else decreaseTokenQuota ok now i quota lg)"

definition updateUserUsedQuotaAndRequestCount :: "bool \<Rightarrow> int \<Rightarrow> int \<Rightarrow> int \<Rightarrow> ledger \<Rightarrow> ledger" where
  "updateUserUsedQuotaAndRequestCount ok i quota count lg =
     (if ok then lg\<lparr>lg_users := gm.modify (lg_users lg) i (\<lambda>u. u\<lparr>us_UsedQuota := us_UsedQuota u + quota,
          us_RequestCount := us_RequestCount u + count\<rparr>)\<rparr> else lg)"

definition UpdateUserUsedQuotaAndRequestCount :: "bool \<Rightarrow> bool \<Rightarrow> int \<Rightarrow> int \<Rightarrow> ledger \<Rightarrow> ledger" where
  "UpdateUserUsedQuotaAndRequestCount batch ok i quota lg =
     (if batch then addNewRecord BatchUpdateTypeRequestCount i 1 (addNewRecord BatchUpdateTypeUsedQuota i quota lg)
      else updateUserUsedQuotaAndRequestCount ok i quota 1 lg)"

definition updateUserUsedQuota :: "bool \<Rightarrow> int \<Rightarrow> int \<Rightarrow> ledger \<Rightarrow> ledger" where
  "updateUserUsedQuota ok i quota lg =
     (if ok then lg\<lparr>lg_users := gm.modify (lg_users lg) i (\<lambda>u. u\<lparr>us_UsedQuota := us_UsedQuota u + quota\<rparr>)\<rparr> else lg)"

definition updateUserRequestCount :: "bool \<Rightarrow> int \<Rightarrow> int \<Rightarrow> ledger \<Rightarrow> ledger" where
  "updateUserRequestCount ok i count lg =
     (if ok then lg\<lparr>lg_users := gm.modify (lg_users lg) i (\<lambda>u. u\<lparr>us_RequestCount := us_RequestCount u + count\<rparr>)\<rparr> else lg)"

definition updateChannelUsedQuota :: "bool \<Rightarrow> int \<Rightarrow> int \<Rightarrow> ledger \<Rightarrow> ledger" where
  "updateChannelUsedQuota ok i quota lg =
     (if ok then lg\<lparr>lg_channel_used := gm.modify (lg_channel_used lg) i (\<lambda>q. q + quota)\<rparr> else lg)"

definition UpdateChannelUsedQuota :: "bool \<Rightarrow> bool \<Rightarrow> int \<Rightarrow> int \<Rightarrow> ledger \<Rightarrow> ledger" where
  "UpdateChannelUsedQuota batch ok i quota lg =
     (if batch then addNewRecord BatchUpdateTypeChannelUsedQuota i quota lg
      else updateChannelUsedQuota ok i quota lg)"

section \<open>The batch updater\<close>

text \<open>
  \<^verbatim>\<open>batchUpdate\<close>: \<open>ok ty i\<close> is the outcome of the write for one entry. A failed write is logged
  and its entry is lost. The entries of one type go to different rows, so the order in which the
  map is visited does not matter.
\<close>

fun flush_entry :: "(batch_type \<Rightarrow> int \<Rightarrow> bool) \<Rightarrow> int \<Rightarrow> batch_type \<Rightarrow> int \<times> int \<Rightarrow> ledger \<Rightarrow> ledger" where
  "flush_entry ok now BatchUpdateTypeUserQuota (i, v) lg = snd (increaseUserQuota (ok BatchUpdateTypeUserQuota i) i v lg)"
| "flush_entry ok now BatchUpdateTypeTokenQuota (i, v) lg = snd (increaseTokenQuota (ok BatchUpdateTypeTokenQuota i) now i v lg)"
| "flush_entry ok now BatchUpdateTypeUsedQuota (i, v) lg = updateUserUsedQuota (ok BatchUpdateTypeUsedQuota i) i v lg"
| "flush_entry ok now BatchUpdateTypeRequestCount (i, v) lg = updateUserRequestCount (ok BatchUpdateTypeRequestCount i) i v lg"
| "flush_entry ok now BatchUpdateTypeChannelUsedQuota (i, v) lg = updateChannelUsedQuota (ok BatchUpdateTypeChannelUsedQuota i) i v lg"

definition flush_type :: "(batch_type \<Rightarrow> int \<Rightarrow> bool) \<Rightarrow> int \<Rightarrow> batch_type \<Rightarrow> ledger \<Rightarrow> ledger" where
  "flush_type ok now ty lg =
     fold (flush_entry ok now ty) (lg_batch lg ty) (lg\<lparr>lg_batch := (lg_batch lg)(ty := [])\<rparr>)"

definition batchUpdate :: "(batch_type \<Rightarrow> int \<Rightarrow> bool) \<Rightarrow> int \<Rightarrow> ledger \<Rightarrow> ledger" where
  "batchUpdate ok now lg =
     (if \<forall>ty \<in> set batch_types. lg_batch lg ty = [] then lg
      else fold (flush_type ok now) batch_types lg)"

section \<open>Effective balances\<close>

text \<open>What a row will hold once the pending batch entries are written.\<close>

definition pend :: "ledger \<Rightarrow> batch_type \<Rightarrow> int \<Rightarrow> int" where
  "pend lg ty i = (case gm_get (lg_batch lg ty) i of None \<Rightarrow> 0 | Some v \<Rightarrow> v)"

definition eff_user :: "ledger \<Rightarrow> int \<Rightarrow> (int \<times> int \<times> int) option" where
  "eff_user lg i = map_option (\<lambda>u. (us_Quota u + pend lg BatchUpdateTypeUserQuota i,
     us_UsedQuota u + pend lg BatchUpdateTypeUsedQuota i,
     us_RequestCount u + pend lg BatchUpdateTypeRequestCount i)) (gm_get (lg_users lg) i)"

definition eff_token :: "ledger \<Rightarrow> int \<Rightarrow> (int \<times> int) option" where
  "eff_token lg i = map_option (\<lambda>t. (tk_RemainQuota t + pend lg BatchUpdateTypeTokenQuota i,
     tk_UsedQuota t - pend lg BatchUpdateTypeTokenQuota i)) (gm_get (lg_tokens lg) i)"

definition eff_channel :: "ledger \<Rightarrow> int \<Rightarrow> int option" where
  "eff_channel lg i = map_option (\<lambda>q. q + pend lg BatchUpdateTypeChannelUsedQuota i) (gm_get (lg_channel_used lg) i)"

definition ledger_ok :: "ledger \<Rightarrow> bool" where
  "ledger_ok lg \<longleftrightarrow> (\<forall>ty. gm_ok (lg_batch lg ty))"

definition user_quota :: "ledger \<Rightarrow> int \<Rightarrow> int option" where
  "user_quota lg i = map_option fst (eff_user lg i)"

definition token_quota :: "ledger \<Rightarrow> int \<Rightarrow> int option" where
  "token_quota lg i = map_option fst (eff_token lg i)"

lemmas eff_defs = eff_user_def eff_token_def eff_channel_def

lemma pend_addNewRecord:
  "pend (addNewRecord ty i v lg) ty' j = pend lg ty' j + (if ty' = ty \<and> j = i then v else 0)"
  by (simp add: pend_def addNewRecord_def Let_def split: option.split)

lemma addNewRecord_rows [simp]:
  "lg_users (addNewRecord ty i v lg) = lg_users lg"
  "lg_tokens (addNewRecord ty i v lg) = lg_tokens lg"
  "lg_channel_used (addNewRecord ty i v lg) = lg_channel_used lg"
  by (simp_all add: addNewRecord_def Let_def)

lemma ledger_ok_addNewRecord [simp]: "ledger_ok lg \<Longrightarrow> ledger_ok (addNewRecord ty i v lg)"
  by (simp add: ledger_ok_def addNewRecord_def Let_def)

lemma pend_rows [simp]:
  "pend (lg\<lparr>lg_users := us\<rparr>) = pend lg" "pend (lg\<lparr>lg_tokens := ts\<rparr>) = pend lg"
  "pend (lg\<lparr>lg_channel_used := cs\<rparr>) = pend lg"
  by (simp_all add: pend_def fun_eq_iff)

lemma ledger_ok_rows [simp]:
  "ledger_ok (lg\<lparr>lg_users := us\<rparr>) = ledger_ok lg" "ledger_ok (lg\<lparr>lg_tokens := ts\<rparr>) = ledger_ok lg"
  "ledger_ok (lg\<lparr>lg_channel_used := cs\<rparr>) = ledger_ok lg"
  by (simp_all add: ledger_ok_def)

section \<open>Accounts\<close>

text \<open>
  What billing relies on of an account: a successful increase or decrease moves the balance of
  one account by the amount, a failed one changes nothing.
\<close>

locale account_ledger =
  fixes inc :: "int \<Rightarrow> int \<Rightarrow> 's \<Rightarrow> bool \<times> 's"
    and dec :: "int \<Rightarrow> int \<Rightarrow> 's \<Rightarrow> bool \<times> 's"
    and bal :: "'s \<Rightarrow> int \<Rightarrow> int option"
  assumes inc_bal: "inc i q s = (True, s') \<Longrightarrow>
      bal s' j = map_option (\<lambda>b. if j = i then b + q else b) (bal s j)"
    and dec_bal: "dec i q s = (True, s') \<Longrightarrow>
      bal s' j = map_option (\<lambda>b. if j = i then b - q else b) (bal s j)"
    and inc_fail: "inc i q s = (False, s') \<Longrightarrow> s' = s"
    and dec_fail: "dec i q s = (False, s') \<Longrightarrow> s' = s"
begin

text \<open>A signed movement, as billing makes it.\<close>

definition move :: "int \<Rightarrow> int \<Rightarrow> 's \<Rightarrow> bool \<times> 's" where
  "move i q s = (if 0 < q then dec i q s else inc i (- q) s)"

definition undo :: "int \<Rightarrow> int \<Rightarrow> 's \<Rightarrow> bool \<times> 's" where
  "undo i q s = (if 0 < q then inc i q s else dec i (- q) s)"

lemma move_bal:
  "move i q s = (ok, s') \<Longrightarrow>
   bal s' j = map_option (\<lambda>b. if j = i \<and> ok then b - q else b) (bal s j)"
  by (cases ok; cases "bal s j") (auto simp: move_def inc_bal dec_bal dest: inc_fail dec_fail split: if_splits)

lemma undo_bal:
  "undo i q s = (ok, s') \<Longrightarrow>
   bal s' j = map_option (\<lambda>b. if j = i \<and> ok then b + q else b) (bal s j)"
  by (cases ok; cases "bal s j") (auto simp: undo_def inc_bal dec_bal dest: inc_fail dec_fail split: if_splits)

lemma move_undo:
  "move i q s = (True, s1) \<Longrightarrow> undo i q s1 = (True, s2) \<Longrightarrow> bal s2 j = bal s j"
  using move_bal [of i q s True s1 j] undo_bal [of i q s1 True s2 j]
  by (cases "bal s j") auto

end

interpretation user_account: account_ledger
  "\<lambda>i q. IncreaseUserQuota batch ok i q db" "DecreaseUserQuota batch ok" user_quota
  for batch ok db
  by unfold_locales
     (auto simp: IncreaseUserQuota_def DecreaseUserQuota_def increaseUserQuota_def decreaseUserQuota_def user_quota_def
       eff_user_def pend_addNewRecord gm.get_modify option.map_comp comp_def split: if_splits intro!: option.map_cong0)

interpretation token_account: account_ledger
  "IncreaseTokenQuota batch ok now" "DecreaseTokenQuota batch ok now" token_quota
  for batch ok now
  by unfold_locales
     (auto simp: IncreaseTokenQuota_def DecreaseTokenQuota_def increaseTokenQuota_def decreaseTokenQuota_def token_quota_def
       eff_token_def pend_addNewRecord gm.get_modify option.map_comp comp_def split: if_splits intro!: option.map_cong0)

section \<open>Batching\<close>

text \<open>Moving the entries of one type into the rows does not change any effective balance.\<close>

lemma fold_flush_users:
  "fold (flush_entry (\<lambda>_ _. True) now BatchUpdateTypeUserQuota) s lg =
     lg\<lparr>lg_users := fold (\<lambda>(i, v) m. gm.modify m i (\<lambda>u. u\<lparr>us_Quota := us_Quota u + v\<rparr>)) s (lg_users lg)\<rparr>"
  "fold (flush_entry (\<lambda>_ _. True) now BatchUpdateTypeUsedQuota) s lg =
     lg\<lparr>lg_users := fold (\<lambda>(i, v) m. gm.modify m i (\<lambda>u. u\<lparr>us_UsedQuota := us_UsedQuota u + v\<rparr>)) s (lg_users lg)\<rparr>"
  "fold (flush_entry (\<lambda>_ _. True) now BatchUpdateTypeRequestCount) s lg =
     lg\<lparr>lg_users := fold (\<lambda>(i, v) m. gm.modify m i (\<lambda>u. u\<lparr>us_RequestCount := us_RequestCount u + v\<rparr>)) s (lg_users lg)\<rparr>"
  by (induction s arbitrary: lg)
     (auto simp: increaseUserQuota_def updateUserUsedQuota_def updateUserRequestCount_def)

lemma fold_flush_tokens:
  "fold (flush_entry (\<lambda>_ _. True) now BatchUpdateTypeTokenQuota) s lg =
     lg\<lparr>lg_tokens := fold (\<lambda>(i, v) m. gm.modify m i (\<lambda>t. t\<lparr>tk_RemainQuota := tk_RemainQuota t + v,
          tk_UsedQuota := tk_UsedQuota t - v, tk_AccessedTime := now\<rparr>)) s (lg_tokens lg)\<rparr>"
  "fold (flush_entry (\<lambda>_ _. True) now BatchUpdateTypeChannelUsedQuota) s lg =
     lg\<lparr>lg_channel_used := fold (\<lambda>(i, v) m. gm.modify m i (\<lambda>q. q + v)) s (lg_channel_used lg)\<rparr>"
  by (induction s arbitrary: lg) (auto simp: increaseTokenQuota_def updateChannelUsedQuota_def)

lemma flush_type_batch:
  "lg_batch (flush_type (\<lambda>_ _. True) now ty lg) = (lg_batch lg)(ty := [])"
  by (cases ty) (simp_all add: flush_type_def fold_flush_users fold_flush_tokens)

lemma flush_type_eff:
  assumes "ledger_ok lg"
  shows "eff_user (flush_type (\<lambda>_ _. True) now ty lg) = eff_user lg \<and>
     eff_token (flush_type (\<lambda>_ _. True) now ty lg) = eff_token lg \<and>
     eff_channel (flush_type (\<lambda>_ _. True) now ty lg) = eff_channel lg"
proof -
  have ok: "gm_ok (lg_batch lg ty)" using assms by (simp add: ledger_ok_def)
  have none: "gm_get [] = (\<lambda>_. None)" by (simp add: gm_get_def fun_eq_iff)
  show ?thesis
    using ok by (cases ty) (auto simp: flush_type_def fold_flush_users fold_flush_tokens eff_defs pend_def
        gm_fold_modify fun_eq_iff none option.map_comp comp_def split: option.splits)
qed

lemma batchUpdate_eff:
  assumes "ledger_ok lg"
  shows "eff_user (batchUpdate (\<lambda>_ _. True) now lg) = eff_user lg \<and>
     eff_token (batchUpdate (\<lambda>_ _. True) now lg) = eff_token lg \<and>
     eff_channel (batchUpdate (\<lambda>_ _. True) now lg) = eff_channel lg \<and>
     (\<forall>ty i. pend (batchUpdate (\<lambda>_ _. True) now lg) ty i = 0)"
proof -
  have fold: "ledger_ok lg \<Longrightarrow> eff_user (fold (flush_type (\<lambda>_ _. True) now) tys lg) = eff_user lg \<and>
     eff_token (fold (flush_type (\<lambda>_ _. True) now) tys lg) = eff_token lg \<and>
     eff_channel (fold (flush_type (\<lambda>_ _. True) now) tys lg) = eff_channel lg \<and>
     lg_batch (fold (flush_type (\<lambda>_ _. True) now) tys lg) = (\<lambda>ty. if ty \<in> set tys then [] else lg_batch lg ty)" for tys lg
  proof (induction tys arbitrary: lg)
    case Nil
    then show ?case by simp
  next
    case (Cons ty tys)
    have "ledger_ok (flush_type (\<lambda>_ _. True) now ty lg)"
      using Cons.prems by (simp add: ledger_ok_def flush_type_batch gm_ok_def gm_keys_def)
    then show ?case
      using Cons.IH [of "flush_type (\<lambda>_ _. True) now ty lg"] flush_type_eff [OF Cons.prems]
      by (simp add: flush_type_batch fun_eq_iff)
  qed
  show ?thesis
    using fold [OF assms, of batch_types] batch_types_all
    by (auto simp: batchUpdate_def pend_def gm_get_def)
qed

text \<open>The operations that go through the batch, as data.\<close>

datatype ledger_op = OpUser int int | OpToken int int | OpUsed int int | OpChannel int int

fun run_op :: "bool \<Rightarrow> int \<Rightarrow> ledger_op \<Rightarrow> ledger \<Rightarrow> ledger" where
  "run_op batch now (OpUser i d) lg = snd (DeltaUpdateUserQuota batch True i d lg)"
| "run_op batch now (OpToken i d) lg =
     (if 0 \<le> d then snd (IncreaseTokenQuota batch True now i d lg) else snd (DecreaseTokenQuota batch True now i (- d) lg))"
| "run_op batch now (OpUsed i q) lg = UpdateUserUsedQuotaAndRequestCount batch True i q lg"
| "run_op batch now (OpChannel i q) lg = UpdateChannelUsedQuota batch True i q lg"

lemmas direct_ops = DeltaUpdateUserQuota_def IncreaseUserQuota_def DecreaseUserQuota_def increaseUserQuota_def
  decreaseUserQuota_def IncreaseTokenQuota_def DecreaseTokenQuota_def increaseTokenQuota_def decreaseTokenQuota_def
  UpdateUserUsedQuotaAndRequestCount_def updateUserUsedQuotaAndRequestCount_def UpdateChannelUsedQuota_def
  updateChannelUsedQuota_def

lemma run_op_eff:
  assumes "eff_user lg = eff_user lg'" "eff_token lg = eff_token lg'" "eff_channel lg = eff_channel lg'"
  shows "eff_user (run_op b now op lg) = eff_user (run_op b' now' op lg') \<and>
    eff_token (run_op b now op lg) = eff_token (run_op b' now' op lg') \<and>
    eff_channel (run_op b now op lg) = eff_channel (run_op b' now' op lg')"
proof -
  have "eff_user (run_op b now op lg) = (case op of
        OpUser i d \<Rightarrow> (\<lambda>k. map_option (\<lambda>(q, u, r). (if k = i then q + d else q, u, r)) (eff_user lg k))
      | OpUsed i d \<Rightarrow> (\<lambda>k. map_option (\<lambda>(q, u, r). (q, if k = i then u + d else u, if k = i then r + 1 else r)) (eff_user lg k))
      | _ \<Rightarrow> eff_user lg)"
    "eff_token (run_op b now op lg) = (case op of
        OpToken i d \<Rightarrow> (\<lambda>k. map_option (\<lambda>(q, u). (if k = i then q + d else q, if k = i then u - d else u)) (eff_token lg k))
      | _ \<Rightarrow> eff_token lg)"
    "eff_channel (run_op b now op lg) = (case op of
        OpChannel i d \<Rightarrow> (\<lambda>k. map_option (\<lambda>q. if k = i then q + d else q) (eff_channel lg k))
      | _ \<Rightarrow> eff_channel lg)" for b now lg
    by (cases op; auto simp: direct_ops eff_defs pend_addNewRecord gm.get_modify fun_eq_iff option.map_comp comp_def
        intro!: option.map_cong0)+
  then show ?thesis using assms by (cases op) simp_all
qed

lemma run_op_ok: "ledger_ok lg \<Longrightarrow> ledger_ok (run_op True now op lg)"
  by (cases op) (simp_all add: DeltaUpdateUserQuota_def IncreaseUserQuota_def DecreaseUserQuota_def IncreaseTokenQuota_def
      DecreaseTokenQuota_def UpdateUserUsedQuotaAndRequestCount_def UpdateChannelUsedQuota_def)

lemma run_op_direct_pend: "pend (run_op False now op lg) = pend lg"
  by (cases op) (simp_all add: direct_ops)

lemma run_ops_ok: "ledger_ok lg \<Longrightarrow> ledger_ok (fold (run_op True now) ops lg)"
  by (induction ops arbitrary: lg) (simp_all add: run_op_ok)

lemma run_ops_direct_pend: "pend (fold (run_op False now) ops lg) = pend lg"
  by (induction ops arbitrary: lg) (simp_all add: run_op_direct_pend)

lemma run_ops_eff:
  assumes "eff_user lg = eff_user lg'" "eff_token lg = eff_token lg'" "eff_channel lg = eff_channel lg'"
  shows "eff_user (fold (run_op b now) ops lg) = eff_user (fold (run_op b' now') ops lg') \<and>
    eff_token (fold (run_op b now) ops lg) = eff_token (fold (run_op b' now') ops lg') \<and>
    eff_channel (fold (run_op b now) ops lg) = eff_channel (fold (run_op b' now') ops lg')"
  using assms
proof (induction ops arbitrary: lg lg')
  case Nil
  then show ?case by simp
next
  case (Cons op ops)
  show ?case
    using Cons.IH [of "run_op b now op lg" "run_op b' now' op lg'"]
      run_op_eff [OF Cons.prems, of b now op b' now'] by simp
qed

lemma eff_settled:
  assumes "\<forall>ty i. pend lg ty i = 0"
  shows "eff_user lg i = map_option (\<lambda>u. (us_Quota u, us_UsedQuota u, us_RequestCount u)) (gm_get (lg_users lg) i)"
    "eff_token lg i = map_option (\<lambda>t. (tk_RemainQuota t, tk_UsedQuota t)) (gm_get (lg_tokens lg) i)"
    "eff_channel lg i = gm_get (lg_channel_used lg) i"
  using assms by (simp_all add: eff_defs option.map_ident)

text \<open>
  C12. Batching loses nothing: after any sequence of quota operations done in batch mode and one
  flush whose writes succeed, every balance and counter of every user, token and channel is what
  the same operations write directly.
\<close>

theorem batch_refines_direct:
  assumes "ledger_ok lg" and "\<forall>ty i. pend lg ty i = 0"
    and "batched = batchUpdate (\<lambda>_ _. True) now (fold (run_op True now) ops lg)"
    and "direct = fold (run_op False now) ops lg"
  shows "map_option (\<lambda>u. (us_Quota u, us_UsedQuota u, us_RequestCount u)) (gm_get (lg_users batched) i) =
       map_option (\<lambda>u. (us_Quota u, us_UsedQuota u, us_RequestCount u)) (gm_get (lg_users direct) i) \<and>
     map_option (\<lambda>t. (tk_RemainQuota t, tk_UsedQuota t)) (gm_get (lg_tokens batched) i) =
       map_option (\<lambda>t. (tk_RemainQuota t, tk_UsedQuota t)) (gm_get (lg_tokens direct) i) \<and>
     gm_get (lg_channel_used batched) i = gm_get (lg_channel_used direct) i"
proof -
  have settled: "\<forall>ty i. pend batched ty i = 0" "\<forall>ty i. pend direct ty i = 0"
    using batchUpdate_eff [OF run_ops_ok [OF assms(1)]] assms(2,3,4) by (auto simp: run_ops_direct_pend)
  have "eff_user batched = eff_user direct \<and> eff_token batched = eff_token direct \<and>
      eff_channel batched = eff_channel direct"
    unfolding assms(3,4) using batchUpdate_eff [OF run_ops_ok [OF assms(1)]] run_ops_eff by simp
  then show ?thesis
    using eff_settled [OF settled(1), of i] eff_settled [OF settled(2), of i] by (metis)
qed

definition demo_user :: user where
  "demo_user = \<lparr>us_Id = 1, us_TenantId = ''default'', us_Username = ''u'', us_DisplayName = ''u'', us_Role = 1,
     us_Status = 1, us_Email = [], us_AccessToken = None, us_Quota = 1000, us_UsedQuota = 0, us_RequestCount = 0,
     us_Group = ''default'', us_DailyQuota = 0, us_DailyUsed = 0, us_LastDailyReset = 0, us_BaseGroup = [],
     us_FallbackGroup = [], us_Setting = [], us_Remark = []\<rparr>"

definition demo_token :: token where
  "demo_token = \<lparr>tk_Id = 5, tk_UserId = 1, tk_TenantId = ''default'', tk_Key = ''k5'', tk_Status = 1, tk_Name = ''t'',
     tk_CreatedTime = 0, tk_AccessedTime = 0, tk_ExpiredTime = -1, tk_RemainQuota = 500, tk_UnlimitedQuota = False,
     tk_ModelLimitsEnabled = False, tk_ModelLimits = [], tk_AllowIps = None, tk_UsedQuota = 0, tk_Group = [],
     tk_CrossGroupRetry = False, tk_IdentityAccountID = 9\<rparr>"

definition demo_ledger :: ledger where
  "demo_ledger = \<lparr>lg_users = [(1, demo_user)], lg_tokens = [(5, demo_token)], lg_channel_used = [(7, 0)],
     lg_batch = (\<lambda>_. [])\<rparr>"

lemma demo_ledger_ok [simp]: "ledger_ok demo_ledger" "pend demo_ledger ty i = 0"
  by (simp_all add: ledger_ok_def demo_ledger_def gm_ok_def gm_keys_def pend_def gm_get_def)

theorem batch_refines_direct_witness:
  "map_option us_Quota (gm_get (lg_users (batchUpdate (\<lambda>_ _. True) 9
     (fold (run_op True 9) [OpUser 1 (-30), OpToken 5 (-30), OpUser 1 10] demo_ledger))) 1) = Some 980"
proof -
  let ?ops = "[OpUser 1 (-30), OpToken 5 (-30), OpUser 1 10]"
  let ?b = "batchUpdate (\<lambda>_ _. True) 9 (fold (run_op True 9) ?ops demo_ledger)"
  let ?d = "fold (run_op False 9) ?ops demo_ledger"
  have "map_option (\<lambda>u. (us_Quota u, us_UsedQuota u, us_RequestCount u)) (gm_get (lg_users ?b) 1) =
      map_option (\<lambda>u. (us_Quota u, us_UsedQuota u, us_RequestCount u)) (gm_get (lg_users ?d) 1)"
    using batch_refines_direct [of demo_ledger ?b 9 ?ops ?d 1] by simp
  moreover have "gm_get (lg_users ?d) 1 = Some (demo_user\<lparr>us_Quota := 980\<rparr>)"
    by (simp add: direct_ops demo_ledger_def gm.get_modify) (simp add: gm_get_def demo_user_def)
  ultimately show ?thesis by auto
qed

end
