(* ===== verification/Daily_Quota.thy ===== *)
theory Daily_Quota
  imports User_Ledger
begin

text \<open>
  Subscription users have a quota per UTC day: the daily part of \<^verbatim>\<open>internal/adapter/repo/user.go\<close>
  and \<^verbatim>\<open>daily_quota_cron.go\<close>. \<open>ok\<close> gives the outcome of each database statement, \<open>now\<close> the Unix
  second the calls read.
\<close>

section \<open>Operations\<close>

datatype daily_stmt =
    StInfo | StInfoAgain | StIncrease | StReset | StRestoreRead | StRestoreWrite | StSwitchRead | StSwitchWrite

record DailyQuotaInfo =
  dq_UserID :: int
  dq_DailyQuota :: int
  dq_DailyUsed :: int
  dq_DailyRemaining :: int
  dq_LastDailyReset :: int
  dq_BaseGroup :: string
  dq_FallbackGroup :: string
  dq_CurrentGroup :: string
  dq_IsUsingFallback :: bool
  dq_NeedsReset :: bool

definition NeedsDailyReset :: "int \<Rightarrow> int \<Rightarrow> bool" where
  "NeedsDailyReset now lastResetTimestamp =
     (if lastResetTimestamp = 0 then True
      else go_quot lastResetTimestamp 86400 < go_quot now 86400)"

definition today_start :: "int \<Rightarrow> int" where
  "today_start now = go_quot now 86400 * 86400"

definition daily_info :: "int \<Rightarrow> user \<Rightarrow> DailyQuotaInfo" where
  "daily_info now u =
     \<lparr>dq_UserID = us_Id u, dq_DailyQuota = us_DailyQuota u, dq_DailyUsed = us_DailyUsed u,
      dq_DailyRemaining = (if 0 < us_DailyQuota u then max 0 (us_DailyQuota u - us_DailyUsed u) else -1),
      dq_LastDailyReset = us_LastDailyReset u, dq_BaseGroup = us_BaseGroup u,
      dq_FallbackGroup = us_FallbackGroup u, dq_CurrentGroup = us_Group u,
      dq_IsUsingFallback = (us_FallbackGroup u \<noteq> [] \<and> us_Group u = us_FallbackGroup u),
      dq_NeedsReset = NeedsDailyReset now (us_LastDailyReset u)\<rparr>"

definition GetUserDailyQuotaInfo :: "bool \<Rightarrow> int \<Rightarrow> int \<Rightarrow> ledger \<Rightarrow> DailyQuotaInfo option" where
  "GetUserDailyQuotaInfo okr now userId lg =
     (if okr then map_option (daily_info now) (gm_get (lg_users lg) userId) else None)"

definition update_user :: "int \<Rightarrow> (user \<Rightarrow> user) \<Rightarrow> ledger \<Rightarrow> ledger" where
  "update_user i f lg = lg\<lparr>lg_users := gm.modify (lg_users lg) i f\<rparr>"

definition IncreaseDailyUsed :: "bool \<Rightarrow> int \<Rightarrow> int \<Rightarrow> ledger \<Rightarrow> bool \<times> ledger" where
  "IncreaseDailyUsed okw userId amount lg =
     (if amount < 0 then (False, lg)
      else if \<not> okw then (False, lg)
      else (True, update_user userId (\<lambda>u. u\<lparr>us_DailyUsed := us_DailyUsed u + amount\<rparr>) lg))"

definition ResetDailyQuota :: "bool \<Rightarrow> int \<Rightarrow> int \<Rightarrow> ledger \<Rightarrow> bool \<times> ledger" where
  "ResetDailyQuota okw now userId lg =
     (if \<not> okw then (False, lg)
      else (True, update_user userId (\<lambda>u. if us_LastDailyReset u < today_start now
              then u\<lparr>us_DailyUsed := 0, us_LastDailyReset := now\<rparr> else u) lg))"

definition SwitchToFallbackGroup :: "(daily_stmt \<Rightarrow> bool) \<Rightarrow> int \<Rightarrow> ledger \<Rightarrow> bool \<times> ledger" where
  "SwitchToFallbackGroup ok userId lg =
     (case (if ok StSwitchRead then gm_get (lg_users lg) userId else None) of
        None \<Rightarrow> (False, lg)
      | Some u \<Rightarrow>
          if us_FallbackGroup u = [] \<or> us_Group u = us_FallbackGroup u then (True, lg)
          else if \<not> ok StSwitchWrite then (False, lg)
          else (True, update_user userId (\<lambda>u'. u'\<lparr>us_Group := us_FallbackGroup u\<rparr>) lg))"

definition RestoreToBaseGroup :: "(daily_stmt \<Rightarrow> bool) \<Rightarrow> int \<Rightarrow> ledger \<Rightarrow> bool \<times> ledger" where
  "RestoreToBaseGroup ok userId lg =
     (case (if ok StRestoreRead then gm_get (lg_users lg) userId else None) of
        None \<Rightarrow> (False, lg)
      | Some u \<Rightarrow>
          if us_BaseGroup u = [] \<or> us_Group u = us_BaseGroup u then (True, lg)
          else if \<not> ok StRestoreWrite then (False, lg)
          else (True, update_user userId (\<lambda>u'. u'\<lparr>us_Group := us_BaseGroup u\<rparr>) lg))"

definition ProcessDailyQuotaReset :: "(daily_stmt \<Rightarrow> bool) \<Rightarrow> int \<Rightarrow> int \<Rightarrow> ledger \<Rightarrow> bool \<times> ledger" where
  "ProcessDailyQuotaReset ok now userId lg =
     (case ResetDailyQuota (ok StReset) now userId lg of
        (False, lg1) \<Rightarrow> (False, lg1)
      | (True, lg1) \<Rightarrow> RestoreToBaseGroup ok userId lg1)"

text \<open>The first \<open>limit\<close> rows that match, in the order of the table.\<close>

definition GetUsersNeedingDailyReset :: "int \<Rightarrow> nat \<Rightarrow> ledger \<Rightarrow> user list" where
  "GetUsersNeedingDailyReset now limit lg =
     take limit (filter (\<lambda>u. 0 < us_DailyQuota u \<and>
         (us_LastDailyReset u < today_start now \<or> us_LastDailyReset u = 0)) (map snd (lg_users lg)))"

definition processDailyQuotaResets :: "(int \<Rightarrow> daily_stmt \<Rightarrow> bool) \<Rightarrow> bool \<Rightarrow> int \<Rightarrow> ledger \<Rightarrow> ledger" where
  "processDailyQuotaResets ok okr now lg =
     (if \<not> okr then lg
      else fold (\<lambda>u lg. snd (ProcessDailyQuotaReset (ok (us_Id u)) now (us_Id u) lg))
             (GetUsersNeedingDailyReset now 100 lg) lg)"

text \<open>
  \<^verbatim>\<open>CheckAndHandleDailyQuotaExhaustion\<close>: whether the user is to be limited (\<open>None\<close> on an error).
\<close>

definition switch_if_exhausted :: "(daily_stmt \<Rightarrow> bool) \<Rightarrow> DailyQuotaInfo \<Rightarrow> int \<Rightarrow> int \<Rightarrow> ledger \<Rightarrow> bool option \<times> ledger" where
  "switch_if_exhausted ok info userId quotaToConsume lg =
     (if dq_DailyQuota info < dq_DailyUsed info + quotaToConsume then
        (Some True, if \<not> dq_IsUsingFallback info \<and> dq_FallbackGroup info \<noteq> []
                    then snd (SwitchToFallbackGroup ok userId lg) else lg)
      else (Some False, lg))"

definition CheckAndHandleDailyQuotaExhaustion ::
    "(daily_stmt \<Rightarrow> bool) \<Rightarrow> int \<Rightarrow> int \<Rightarrow> int \<Rightarrow> ledger \<Rightarrow> bool option \<times> ledger" where
  "CheckAndHandleDailyQuotaExhaustion ok now userId quotaToConsume lg =
     (case GetUserDailyQuotaInfo (ok StInfo) now userId lg of
        None \<Rightarrow> (None, lg)
      | Some info \<Rightarrow>
          if dq_DailyQuota info \<le> 0 then (Some False, lg)
          else if dq_NeedsReset info then
            (let lg1 = snd (ProcessDailyQuotaReset ok now userId lg)
             in case GetUserDailyQuotaInfo (ok StInfoAgain) now userId lg1 of
                  None \<Rightarrow> (None, lg1)
                | Some info1 \<Rightarrow> switch_if_exhausted ok info1 userId quotaToConsume lg1)
          else switch_if_exhausted ok info userId quotaToConsume lg)"

definition PostConsumeDailyQuota :: "(daily_stmt \<Rightarrow> bool) \<Rightarrow> int \<Rightarrow> int \<Rightarrow> int \<Rightarrow> ledger \<Rightarrow> bool \<times> ledger" where
  "PostConsumeDailyQuota ok now userId quotaConsumed lg =
     (if quotaConsumed \<le> 0 then (True, lg)
      else (case IncreaseDailyUsed (ok StIncrease) userId quotaConsumed lg of
              (False, lg1) \<Rightarrow> (False, lg1)
            | (True, lg1) \<Rightarrow>
                (case GetUserDailyQuotaInfo (ok StInfo) now userId lg1 of
                   None \<Rightarrow> (False, lg1)
                 | Some info \<Rightarrow>
                     if dq_DailyQuota info \<le> 0 then (True, lg1)
                     else if dq_DailyQuota info \<le> dq_DailyUsed info \<and> \<not> dq_IsUsingFallback info
                             \<and> dq_FallbackGroup info \<noteq> []
                     then SwitchToFallbackGroup ok userId lg1
                     else (True, lg1))))"

section \<open>Lemmas\<close>

lemma get_update_user [simp]:
  "gm_get (lg_users (update_user i f lg)) j =
     (if j = i then map_option f (gm_get (lg_users lg) i) else gm_get (lg_users lg) j)"
  by (simp add: update_user_def gm.get_modify)

lemma update_user_rest [simp]:
  "lg_tokens (update_user i f lg) = lg_tokens lg"
  "lg_batch (update_user i f lg) = lg_batch lg"
  "lg_channel_used (update_user i f lg) = lg_channel_used lg"
  by (simp_all add: update_user_def)

lemma needs_reset_iff:
  "0 < now \<Longrightarrow> 0 \<le> ts \<Longrightarrow> 86400 \<le> now \<Longrightarrow> NeedsDailyReset now ts \<longleftrightarrow> ts < today_start now"
proof -
  assume a: "0 < now" "0 \<le> ts" "86400 \<le> now"
  have "1 \<le> now div 86400" using a by simp
  moreover have "ts div 86400 < now div 86400 \<longleftrightarrow> ts < now div 86400 * 86400"
    using div_mult_mod_eq [of ts 86400] pos_mod_bound [of 86400 ts] pos_mod_sign [of 86400 ts] by linarith
  ultimately have "ts = 0 \<or> ts div 86400 < now div 86400 \<longleftrightarrow> ts < now div 86400 * 86400"
    using a by linarith
  then show ?thesis using a by (auto simp: NeedsDailyReset_def today_start_def go_quot_nonneg)
qed

text \<open>What the daily operations do to the quota columns of a user: nothing.\<close>

lemma daily_keeps_quota:
  "map_option us_Quota (gm_get (lg_users (snd (PostConsumeDailyQuota ok now i q lg))) j) =
     map_option us_Quota (gm_get (lg_users lg) j)"
  by (auto simp: PostConsumeDailyQuota_def IncreaseDailyUsed_def SwitchToFallbackGroup_def option.map_comp comp_def
      split: option.splits prod.splits bool.splits if_splits)

lemma daily_keeps_rest:
  "lg_tokens (snd (PostConsumeDailyQuota ok now i q lg)) = lg_tokens lg"
  "lg_batch (snd (PostConsumeDailyQuota ok now i q lg)) = lg_batch lg"
  by (auto simp: PostConsumeDailyQuota_def IncreaseDailyUsed_def SwitchToFallbackGroup_def
      split: option.splits prod.splits bool.splits)

section \<open>Properties\<close>

text \<open>
  The daily check decides on the usage of the current UTC day: with the database up, a user
  with a daily quota is limited exactly when the usage (none, if the last reset was on an earlier
  day) plus the request exceeds the quota; a limited user who has a fallback group is in it
  afterwards.
\<close>

theorem daily_check_iff:
  assumes "gm_get (lg_users lg) i = Some u" and "0 < us_DailyQuota u"
    and "86400 \<le> now" and "0 \<le> us_LastDailyReset u"
    and "used = (if us_LastDailyReset u < today_start now then 0 else us_DailyUsed u)"
    and "CheckAndHandleDailyQuotaExhaustion (\<lambda>_. True) now i q lg = (r, lg')"
  shows "r = Some (us_DailyQuota u < used + q) \<and>
    (\<exists>u'. gm_get (lg_users lg') i = Some u' \<and> us_DailyUsed u' = used \<and>
       (us_DailyQuota u < used + q \<and> us_FallbackGroup u \<noteq> [] \<longrightarrow> us_Group u' = us_FallbackGroup u))"
proof -
  have needs: "NeedsDailyReset now (us_LastDailyReset u) \<longleftrightarrow> us_LastDailyReset u < today_start now"
    using needs_reset_iff assms(3,4) by simp
  show ?thesis
    using assms(1,2,5,6) needs
    by (auto simp: CheckAndHandleDailyQuotaExhaustion_def GetUserDailyQuotaInfo_def daily_info_def switch_if_exhausted_def
        ProcessDailyQuotaReset_def ResetDailyQuota_def RestoreToBaseGroup_def SwitchToFallbackGroup_def Let_def
        split: if_splits)
qed

definition demo_daily :: ledger where
  "demo_daily = demo_ledger\<lparr>lg_users := [(1, demo_user\<lparr>us_DailyQuota := 100, us_DailyUsed := 90,
     us_LastDailyReset := 1700000000, us_FallbackGroup := ''free''\<rparr>)]\<rparr>"

theorem daily_check_iff_witness:
  "fst (CheckAndHandleDailyQuotaExhaustion (\<lambda>_. True) 1700000001 1 20 demo_daily) = Some True \<and>
   fst (CheckAndHandleDailyQuotaExhaustion (\<lambda>_. True) 1700100000 1 20 demo_daily) = Some False"
proof -
  let ?u = "demo_user\<lparr>us_DailyQuota := 100, us_DailyUsed := 90, us_LastDailyReset := 1700000000,
     us_FallbackGroup := ''free''\<rparr>"
  have u: "gm_get (lg_users demo_daily) 1 = Some ?u" by (simp add: demo_daily_def gm_get_def)
  have "fst (CheckAndHandleDailyQuotaExhaustion (\<lambda>_. True) 1700000001 1 20 demo_daily) = Some True"
    using daily_check_iff [OF u, of 1700000001 90 20] by (cases "CheckAndHandleDailyQuotaExhaustion (\<lambda>_. True) 1700000001 1 20 demo_daily")
      (simp add: today_start_def go_quot_nonneg)
  moreover have "fst (CheckAndHandleDailyQuotaExhaustion (\<lambda>_. True) 1700100000 1 20 demo_daily) = Some False"
    using daily_check_iff [OF u, of 1700100000 0 20] by (cases "CheckAndHandleDailyQuotaExhaustion (\<lambda>_. True) 1700100000 1 20 demo_daily")
      (simp add: today_start_def go_quot_nonneg)
  ultimately show ?thesis by simp
qed

text \<open>
  The only place where a daily quota takes effect: with the database up, recording a
  consumption adds it to the usage of the day and moves the user to the fallback group exactly
  when the usage has reached the quota and there is a fallback group; otherwise the group is kept.
\<close>

theorem post_consume_daily:
  assumes "gm_get (lg_users lg) i = Some u" and "0 < q"
    and "PostConsumeDailyQuota (\<lambda>_. True) now i q lg = (done, lg')"
  shows "done \<and> (\<exists>u'. gm_get (lg_users lg') i = Some u' \<and> us_DailyUsed u' = us_DailyUsed u + q \<and>
     us_Group u' = (if 0 < us_DailyQuota u \<and> us_DailyQuota u \<le> us_DailyUsed u + q \<and> us_FallbackGroup u \<noteq> []
       then us_FallbackGroup u else us_Group u))"
  using assms
  by (auto simp: PostConsumeDailyQuota_def IncreaseDailyUsed_def GetUserDailyQuotaInfo_def daily_info_def
      SwitchToFallbackGroup_def split: if_splits)

theorem post_consume_daily_witness:
  "\<exists>u'. gm_get (lg_users (snd (PostConsumeDailyQuota (\<lambda>_. True) 1700000001 1 10 demo_daily))) 1 = Some u' \<and>
     us_Group u' = ''free''"
proof -
  let ?u = "demo_user\<lparr>us_DailyQuota := 100, us_DailyUsed := 90, us_LastDailyReset := 1700000000,
     us_FallbackGroup := ''free''\<rparr>"
  have u: "gm_get (lg_users demo_daily) 1 = Some ?u" by (simp add: demo_daily_def gm_get_def)
  show ?thesis
    using post_consume_daily [OF u, of 10 1700000001]
    by (cases "PostConsumeDailyQuota (\<lambda>_. True) 1700000001 1 10 demo_daily") (auto split: if_splits)
qed

end
