(* ===== verification/Wallet_Breaker.thy ===== *)
theory Wallet_Breaker
  imports Go_Base
begin

text \<open>
  The circuit breaker around the calls to the billing platform:
  \<^verbatim>\<open>internal/pkg/common/billing_breaker.go\<close>. Each operation holds the mutex, the call itself does
  not, so calls overlap: the step relation below interleaves them. Times are in nanoseconds.
\<close>

section \<open>State and operations\<close>

datatype wb_state = WbClosed | WbOpen | WbHalfOpen

record platform_breaker =
  wb_consecutiveFails :: nat
  wb_lastFailTime :: int
  wb_state :: wb_state
  wb_threshold :: nat
  wb_timeout :: int

definition billingBreaker :: platform_breaker where
  "billingBreaker = \<lparr>wb_consecutiveFails = 0, wb_lastFailTime = 0, wb_state = WbClosed,
     wb_threshold = 3, wb_timeout = 15000000000\<rparr>"

definition BillingBreakerAllow :: "int \<Rightarrow> platform_breaker \<Rightarrow> bool \<times> platform_breaker" where
  "BillingBreakerAllow now b =
     (case wb_state b of
        WbClosed \<Rightarrow> (True, b)
      | WbOpen \<Rightarrow> if wb_timeout b \<le> now - wb_lastFailTime b then (True, b\<lparr>wb_state := WbHalfOpen\<rparr>) else (False, b)
      | WbHalfOpen \<Rightarrow> (False, b))"

definition BillingBreakerSuccess :: "platform_breaker \<Rightarrow> platform_breaker" where
  "BillingBreakerSuccess b = b\<lparr>wb_consecutiveFails := 0, wb_state := WbClosed\<rparr>"

definition BillingBreakerFailure :: "int \<Rightarrow> platform_breaker \<Rightarrow> platform_breaker" where
  "BillingBreakerFailure now b =
     (let b1 = b\<lparr>wb_consecutiveFails := Suc (wb_consecutiveFails b), wb_lastFailTime := now\<rparr>
      in case wb_state b of
           WbClosed \<Rightarrow> if wb_threshold b \<le> wb_consecutiveFails b1 then b1\<lparr>wb_state := WbOpen\<rparr> else b1
         | WbHalfOpen \<Rightarrow> b1\<lparr>wb_state := WbOpen\<rparr>
         | WbOpen \<Rightarrow> b1)"

text \<open>
  The wrapped calls without interleaving: \<open>call\<close> is the answer of the platform (\<open>None\<close> on an
  error), \<open>t0\<close> and \<open>t1\<close> the times before and after it.
\<close>

definition with_breaker :: "int \<Rightarrow> int \<Rightarrow> 'a option \<Rightarrow> platform_breaker \<Rightarrow> 'a option \<times> platform_breaker" where
  "with_breaker t0 t1 call b =
     (case BillingBreakerAllow t0 b of
        (False, b1) \<Rightarrow> (None, b1)
      | (True, b1) \<Rightarrow>
          (case call of None \<Rightarrow> (None, BillingBreakerFailure t1 b1)
           | Some r \<Rightarrow> (Some r, BillingBreakerSuccess b1)))"

definition PreAuthorizeWithBreaker :: "int \<Rightarrow> int \<Rightarrow> int option \<Rightarrow> platform_breaker \<Rightarrow> int option \<times> platform_breaker" where
  "PreAuthorizeWithBreaker = with_breaker"

definition SettleWithBreaker :: "int \<Rightarrow> int \<Rightarrow> unit option \<Rightarrow> platform_breaker \<Rightarrow> unit option \<times> platform_breaker" where
  "SettleWithBreaker = with_breaker"

definition ReleaseWithBreaker :: "int \<Rightarrow> int \<Rightarrow> unit option \<Rightarrow> platform_breaker \<Rightarrow> unit option \<times> platform_breaker" where
  "ReleaseWithBreaker = with_breaker"

section \<open>Interleaved calls\<close>

text \<open>The breaker with the number of calls in flight.\<close>

inductive wb_step :: "platform_breaker \<times> nat \<Rightarrow> platform_breaker \<times> nat \<Rightarrow> bool" where
  begin_call: "BillingBreakerAllow now b = (True, b') \<Longrightarrow> wb_step (b, n) (b', Suc n)"
| rejected: "BillingBreakerAllow now b = (False, b') \<Longrightarrow> wb_step (b, n) (b', n)"
| call_ok: "wb_step (b, Suc n) (BillingBreakerSuccess b, n)"
| call_failed: "wb_step (b, Suc n) (BillingBreakerFailure now b, n)"

inductive wb_reachable :: "platform_breaker \<times> nat \<Rightarrow> bool" where
  start: "wb_reachable (billingBreaker, 0)"
| step: "wb_reachable s \<Longrightarrow> wb_step s s' \<Longrightarrow> wb_reachable s'"

inductive_cases wb_stepE [elim!]: "wb_step (b, n) s'"
inductive_simps wb_step_idle: "wb_step (b, 0) (b', n)"

lemmas wb_op_defs = BillingBreakerAllow_def BillingBreakerSuccess_def BillingBreakerFailure_def

definition wb_inv :: "platform_breaker \<times> nat \<Rightarrow> bool" where
  "wb_inv s \<longleftrightarrow> (case s of (b, n) \<Rightarrow>
     wb_threshold b = 3 \<and> wb_timeout b = 15000000000 \<and>
     (wb_state b = WbHalfOpen \<longrightarrow> 0 < n) \<and>
     (wb_state b = WbClosed \<longrightarrow> wb_consecutiveFails b < 3) \<and>
     (wb_state b \<noteq> WbClosed \<longrightarrow> 3 \<le> wb_consecutiveFails b))"

lemma wb_inv_step: "wb_step s s' \<Longrightarrow> wb_inv s \<Longrightarrow> wb_inv s'"
  by (cases s) (auto simp: wb_inv_def wb_op_defs Let_def split: wb_state.splits if_splits)

lemma wb_inv_reachable: "wb_reachable s \<Longrightarrow> wb_inv s"
proof (induction rule: wb_reachable.induct)
  case start
  then show ?case by (simp add: wb_inv_def billingBreaker_def)
next
  case (step s s')
  then show ?case using wb_inv_step by blast
qed

section \<open>Properties\<close>

text \<open>
  The billing breaker cannot wedge: however calls overlap, it is closed exactly while fewer
  than three failures have been recorded since the last success, it waits for a probe only while
  a call is in flight, and once no call is in flight and 15 seconds have passed since the last
  failure the next call is admitted.
\<close>

theorem wallet_breaker_never_wedges:
  assumes "wb_reachable (b, n)"
  shows "(wb_state b = WbClosed \<longleftrightarrow> wb_consecutiveFails b < 3) \<and>
    (n = 0 \<longrightarrow> wb_state b \<noteq> WbHalfOpen) \<and>
    (n = 0 \<longrightarrow> 15000000000 \<le> now - wb_lastFailTime b \<longrightarrow> fst (BillingBreakerAllow now b))"
  using wb_inv_reachable [OF assms]
  by (auto simp: wb_inv_def BillingBreakerAllow_def split: wb_state.splits)

definition tripped :: platform_breaker where
  "tripped = BillingBreakerFailure 3 (BillingBreakerFailure 2 (BillingBreakerFailure 1 billingBreaker))"

theorem wallet_breaker_never_wedges_witness:
  "wb_state tripped = WbOpen \<and> fst (BillingBreakerAllow 15000000003 tripped)"
proof -
  have call: "wb_reachable (b, 0) \<Longrightarrow> wb_state b = WbClosed \<Longrightarrow> wb_reachable (BillingBreakerFailure t b, 0)" for b t
    by (rule wb_reachable.step [OF wb_reachable.step [OF _ wb_step.begin_call [of 0 b b 0]] wb_step.call_failed])
       (simp_all add: BillingBreakerAllow_def)
  have "wb_reachable (tripped, 0)"
    unfolding tripped_def
    by (intro call wb_reachable.start) (simp_all add: billingBreaker_def BillingBreakerFailure_def Let_def)
  then show ?thesis
    using wallet_breaker_never_wedges [of tripped 0 15000000003]
    by (simp add: tripped_def billingBreaker_def BillingBreakerFailure_def Let_def)
qed

text \<open>Without overlap a call always leaves the breaker closed or open, and its answer is passed on.\<close>

lemma with_breaker_settles:
  "wb_state b \<noteq> WbHalfOpen \<Longrightarrow> wb_state (snd (with_breaker t0 t1 call b)) \<noteq> WbHalfOpen"
  by (auto simp: with_breaker_def wb_op_defs Let_def split: wb_state.splits option.splits)

lemma with_breaker_answer:
  "fst (with_breaker t0 t1 call b) = Some r \<Longrightarrow> call = Some r"
  by (auto simp: with_breaker_def split: prod.splits bool.splits option.splits)

end
