(* ===== verification/Usage_Pricing.thy ===== *)
theory Usage_Pricing
  imports Go_Base
begin

text \<open>
  What a request costs, in quota units: the estimate before the request
  (\<^verbatim>\<open>internal/app/relay/helper/price.go\<close>), the tool prices
  (\<^verbatim>\<open>internal/pkg/setting/operation_setting/tools.go\<close>), and the final quota of text requests
  (\<^verbatim>\<open>postConsumeQuota\<close> of \<^verbatim>\<open>internal/app/relay/compatible_handler.go\<close>), of audio requests
  (\<^verbatim>\<open>calculateAudioQuota\<close> of \<^verbatim>\<open>internal/app/quota.go\<close>) and of Claude requests.

  Numbers: values of the decimal library are exact rationals; its division, which rounds to 16
  digits, is the argument \<open>dv\<close>. A \<^verbatim>\<open>float64\<close> is the rational it stands for, and every operation
  on floats is followed by the rounding \<open>fl\<close>, an argument too. The ratio tables are read through
  a record of lookups.
\<close>

section \<open>Rounding\<close>

text \<open>\<^verbatim>\<open>decimal.Round(0)\<close> rounds half away from zero; \<^verbatim>\<open>IntPart\<close> and \<^verbatim>\<open>int(f)\<close> truncate.\<close>

definition round_half_away :: "rat \<Rightarrow> int" where
  "round_half_away x = (if 0 \<le> x then \<lfloor>x + 1 / 2\<rfloor> else - \<lfloor>- x + 1 / 2\<rfloor>)"

definition trunc :: "rat \<Rightarrow> int" where
  "trunc x = (if 0 \<le> x then \<lfloor>x\<rfloor> else - \<lfloor>- x\<rfloor>)"

lemma round_half_away_int [simp]: "round_half_away (of_int n) = n"
proof -
  have f: "\<lfloor>(of_int m :: rat) + 1 / 2\<rfloor> = m" for m by linarith
  show ?thesis using f [of n] f [of "- n"] by (simp add: round_half_away_def)
qed

lemma round_half_away_mono: "x \<le> y \<Longrightarrow> round_half_away x \<le> round_half_away y"
proof -
  assume xy: "x \<le> y"
  show ?thesis
  proof (cases "0 \<le> x")
    case True
    then show ?thesis using xy by (auto simp: round_half_away_def intro: floor_mono)
  next
    case False
    have "0 \<le> \<lfloor>1 / 2 - x\<rfloor>" using False by simp
    moreover have "0 \<le> y \<Longrightarrow> 0 \<le> \<lfloor>y + 1 / 2\<rfloor>" by simp
    ultimately show ?thesis
      using False xy floor_mono [of "1 / 2 - y" "1 / 2 - x"]
      by (cases "0 \<le> y") (simp_all add: round_half_away_def, linarith)
  qed
qed

lemma trunc_int [simp]: "trunc (of_int n) = n"
  by (simp add: trunc_def flip: of_int_minus)

section \<open>Prices of tools\<close>

definition WebSearchPriceHigh :: rat where "WebSearchPriceHigh = 25"
definition WebSearchPrice :: rat where "WebSearchPrice = 10"
definition FileSearchPrice :: rat where "FileSearchPrice = 5 / 2"
definition ClaudeWebSearchPrice :: rat where "ClaudeWebSearchPrice = 10"

definition GetClaudeWebSearchPricePerThousand :: rat where
  "GetClaudeWebSearchPricePerThousand = ClaudeWebSearchPrice"

definition GetWebSearchPricePerThousand :: "string \<Rightarrow> string \<Rightarrow> rat" where
  "GetWebSearchPricePerThousand modelName contextSize =
     (if go_has_prefix modelName ''o3'' \<or> go_has_prefix modelName ''o4'' \<or> go_has_prefix modelName ''gpt-5''
      then WebSearchPrice else WebSearchPriceHigh)"

definition GetFileSearchPricePerThousand :: rat where
  "GetFileSearchPricePerThousand = FileSearchPrice"

definition GetGeminiInputAudioPricePerMillionTokens :: "string \<Rightarrow> rat" where
  "GetGeminiInputAudioPricePerMillionTokens modelName =
     (if go_has_prefix modelName ''gemini-2.5-flash-preview-native-audio'' then 3
      else if go_has_prefix modelName ''gemini-2.5-flash-preview-lite'' then 1 / 2
      else if go_has_prefix modelName ''gemini-2.5-flash-preview'' then 1
      else if go_has_prefix modelName ''gemini-2.5-flash'' then 1
      else if go_has_prefix modelName ''gemini-2.0-flash'' then 7 / 10
      else if go_has_prefix modelName ''gemini-robotics-er-1.5'' then 1
      else 0)"

definition GetGPTImage1PriceOnceCall :: "string \<Rightarrow> string \<Rightarrow> rat" where
  "GetGPTImage1PriceOnceCall quality dims =
     (let row = (\<lambda>sq wide. if dims = ''1024x1024'' then sq
            else if dims = ''1024x1536'' \<or> dims = ''1536x1024'' then wide else 167 / 1000)
      in if quality = ''low'' then row (11 / 1000) (16 / 1000)
         else if quality = ''medium'' then row (42 / 1000) (63 / 1000)
         else if quality = ''high'' then row (167 / 1000) (25 / 100)
         else 167 / 1000)"

section \<open>The estimate\<close>

record GroupRatioInfo =
  gr_GroupRatio :: rat
  gr_GroupSpecialRatio :: rat
  gr_HasSpecialRatio :: bool

record PriceData =
  pd_FreeModel :: bool
  pd_ModelPrice :: rat
  pd_ModelRatio :: rat
  pd_CompletionRatio :: rat
  pd_CacheRatio :: rat
  pd_CacheCreationRatio :: rat
  pd_CacheCreation5mRatio :: rat
  pd_CacheCreation1hRatio :: rat
  pd_ImageRatio :: rat
  pd_AudioRatio :: rat
  pd_AudioCompletionRatio :: rat
  pd_OtherRatios :: "(string, rat) gomap"
  pd_UsePrice :: bool
  pd_QuotaToPreConsume :: int
  pd_GroupRatioInfo :: GroupRatioInfo

text \<open>The lookups of \<^verbatim>\<open>ratio_setting\<close>; the second part of a pair is the \<^verbatim>\<open>ok\<close> of the code.\<close>

record ratio_tables =
  rt_model_price :: "string \<Rightarrow> rat \<times> bool"
  rt_default_price :: "string \<Rightarrow> rat option"
  rt_model_ratio :: "string \<Rightarrow> rat \<times> bool"
  rt_completion :: "string \<Rightarrow> rat"
  rt_cache :: "string \<Rightarrow> rat"
  rt_create_cache :: "string \<Rightarrow> rat"
  rt_image :: "string \<Rightarrow> rat"
  rt_audio :: "string \<Rightarrow> rat"
  rt_audio_completion :: "string \<Rightarrow> rat"
  rt_group :: "string \<Rightarrow> rat"
  rt_group_group :: "string \<Rightarrow> string \<Rightarrow> rat option"

text \<open>\<^verbatim>\<open>HandleGroupRatio\<close>: \<open>auto\<close> is the \<^verbatim>\<open>auto_group\<close> of the request; the using group is returned updated.\<close>

definition HandleGroupRatio :: "ratio_tables \<Rightarrow> string option \<Rightarrow> string \<Rightarrow> string \<Rightarrow> GroupRatioInfo \<times> string" where
  "HandleGroupRatio rt auto userGroup usingGroup =
     (let using = (case auto of None \<Rightarrow> usingGroup | Some g \<Rightarrow> g)
      in (case rt_group_group rt userGroup using of
            Some r \<Rightarrow> \<lparr>gr_GroupRatio = r, gr_GroupSpecialRatio = r, gr_HasSpecialRatio = True\<rparr>
          | None \<Rightarrow> \<lparr>gr_GroupRatio = rt_group rt using, gr_GroupSpecialRatio = -1, gr_HasSpecialRatio = False\<rparr>,
          using))"

record price_env =
  pe_preConsumed :: int         \<comment> \<open>\<^verbatim>\<open>common.PreConsumedQuota\<close>\<close>
  pe_quotaPerUnit :: rat
  pe_acceptUnset :: bool
  pe_freePreConsume :: bool     \<comment> \<open>\<^verbatim>\<open>EnableFreeModelPreConsume\<close>\<close>
  pe_multiplier1h :: rat        \<comment> \<open>the float constant \<^verbatim>\<open>6 / 3.75\<close>\<close>

text \<open>
  \<^verbatim>\<open>ModelPriceHelper\<close>: \<open>None\<close> is the error for a model without a price. \<open>maxTokens\<close> and
  \<open>imagePriceRatio\<close> come from the request.
\<close>

definition ModelPriceHelper ::
    "(rat \<Rightarrow> rat) \<Rightarrow> price_env \<Rightarrow> ratio_tables \<Rightarrow> GroupRatioInfo \<Rightarrow> string \<Rightarrow> int \<Rightarrow> int \<Rightarrow> rat \<Rightarrow> PriceData option" where
  "ModelPriceHelper fl pe rt gri model promptTokens maxTokens imagePriceRatio =
     (let (modelPrice0, usePrice) = rt_model_price rt model;
          group_ratio = gr_GroupRatio gri;
          free = (\<lambda>zero. \<not> pe_freePreConsume pe \<and> (group_ratio = 0 \<or> zero))
      in if \<not> usePrice then
           (let preConsumedTokens = max promptTokens (pe_preConsumed pe) + (if maxTokens \<noteq> 0 then maxTokens else 0);
                (modelRatio, success) = rt_model_ratio rt model
            in if \<not> success \<and> \<not> pe_acceptUnset pe then None
               else (let ratio = fl (modelRatio * group_ratio);
                         pre = trunc (fl (fl (of_int preConsumedTokens) * ratio));
                         cc = rt_create_cache rt model
                     in Some \<lparr>pd_FreeModel = free (modelRatio = 0), pd_ModelPrice = modelPrice0, pd_ModelRatio = modelRatio,
                          pd_CompletionRatio = rt_completion rt model, pd_CacheRatio = rt_cache rt model,
                          pd_CacheCreationRatio = cc, pd_CacheCreation5mRatio = cc,
                          pd_CacheCreation1hRatio = fl (cc * pe_multiplier1h pe), pd_ImageRatio = rt_image rt model,
                          pd_AudioRatio = rt_audio rt model, pd_AudioCompletionRatio = rt_audio_completion rt model,
                          pd_OtherRatios = [], pd_UsePrice = False,
                          pd_QuotaToPreConsume = (if free (modelRatio = 0) then 0 else pre), pd_GroupRatioInfo = gri\<rparr>))
         else
           (let modelPrice = (if imagePriceRatio \<noteq> 0 then fl (modelPrice0 * imagePriceRatio) else modelPrice0);
                pre = trunc (fl (fl (modelPrice * pe_quotaPerUnit pe) * group_ratio))
            in Some \<lparr>pd_FreeModel = free (modelPrice = 0), pd_ModelPrice = modelPrice, pd_ModelRatio = 0,
                 pd_CompletionRatio = 0, pd_CacheRatio = 0, pd_CacheCreationRatio = 0, pd_CacheCreation5mRatio = 0,
                 pd_CacheCreation1hRatio = 0, pd_ImageRatio = 0, pd_AudioRatio = 0, pd_AudioCompletionRatio = 0,
                 pd_OtherRatios = [], pd_UsePrice = True,
                 pd_QuotaToPreConsume = (if free (modelPrice = 0) then 0 else pre), pd_GroupRatioInfo = gri\<rparr>))"

definition AddOtherRatio :: "string \<Rightarrow> rat \<Rightarrow> PriceData \<Rightarrow> PriceData" where
  "AddOtherRatio key ratio p =
     (if ratio \<le> 0 then p else p\<lparr>pd_OtherRatios := gm_put (pd_OtherRatios p) key ratio\<rparr>)"

definition ModelPriceHelperPerCall :: "(rat \<Rightarrow> rat) \<Rightarrow> price_env \<Rightarrow> ratio_tables \<Rightarrow> GroupRatioInfo \<Rightarrow> string \<Rightarrow> rat \<times> int" where
  "ModelPriceHelperPerCall fl pe rt gri model =
     (let (price, success) = rt_model_price rt model;
          modelPrice = (if success then price
            else (case rt_default_price rt model of None \<Rightarrow> fl (1 / 10) | Some p \<Rightarrow> p))
      in (modelPrice, trunc (fl (fl (modelPrice * pe_quotaPerUnit pe) * gr_GroupRatio gri))))"

definition ContainPriceOrRatio :: "ratio_tables \<Rightarrow> string \<Rightarrow> bool" where
  "ContainPriceOrRatio rt model = (snd (rt_model_price rt model) \<or> snd (rt_model_ratio rt model))"

section \<open>Text requests\<close>

record text_usage =
  tu_PromptTokens :: int
  tu_CompletionTokens :: int
  tu_CachedTokens :: int
  tu_CachedCreationTokens :: int
  tu_ImageTokens :: int
  tu_AudioTokens :: int

text \<open>
  Tool calls of a request: \<open>tl_Responses\<close> says that \<^verbatim>\<open>ResponsesUsageInfo\<close> is present; the counts
  are 0 for a tool that is not listed.
\<close>

record tool_calls =
  tl_Responses :: bool
  tl_WebSearchCount :: int
  tl_WebSearchSize :: string
  tl_ChatSearchSize :: string      \<comment> \<open>\<^verbatim>\<open>chat_completion_web_search_context_size\<close>\<close>
  tl_FileSearchCount :: int
  tl_ClaudeWebSearchCount :: int
  tl_ImageCall :: "(string \<times> string) option"   \<comment> \<open>quality and size\<close>

definition ChannelTypeAnthropic :: int where "ChannelTypeAnthropic = 14"

definition int_part :: "rat \<Rightarrow> int" where
  "int_part x = wrap64 (trunc x)"

definition group_ratio :: "PriceData \<Rightarrow> rat" where
  "group_ratio p = gr_GroupRatio (pd_GroupRatioInfo p)"

definition web_search_quota :: "(rat \<Rightarrow> rat \<Rightarrow> rat) \<Rightarrow> rat \<Rightarrow> string \<Rightarrow> rat \<Rightarrow> tool_calls \<Rightarrow> rat" where
  "web_search_quota dv qpu model g t =
     (if tl_Responses t then
        (if 0 < tl_WebSearchCount t
         then dv (GetWebSearchPricePerThousand model (tl_WebSearchSize t) * of_int (tl_WebSearchCount t)) 1000 * g * qpu
         else 0)
      else if go_has_suffix model ''search-preview'' then
        dv (GetWebSearchPricePerThousand model
              (if tl_ChatSearchSize t = [] then ''medium'' else tl_ChatSearchSize t)) 1000 * g * qpu
      else 0)"

text \<open>Computed for the log, but not part of the sum below.\<close>

definition claude_web_search_quota :: "(rat \<Rightarrow> rat \<Rightarrow> rat) \<Rightarrow> rat \<Rightarrow> rat \<Rightarrow> tool_calls \<Rightarrow> rat" where
  "claude_web_search_quota dv qpu g t =
     (if 0 < tl_ClaudeWebSearchCount t
      then dv GetClaudeWebSearchPricePerThousand 1000 * g * qpu * of_int (tl_ClaudeWebSearchCount t) else 0)"

definition file_search_quota :: "(rat \<Rightarrow> rat \<Rightarrow> rat) \<Rightarrow> rat \<Rightarrow> rat \<Rightarrow> tool_calls \<Rightarrow> rat" where
  "file_search_quota dv qpu g t =
     (if tl_Responses t \<and> 0 < tl_FileSearchCount t
      then dv (GetFileSearchPricePerThousand * of_int (tl_FileSearchCount t)) 1000 * g * qpu else 0)"

definition image_call_quota :: "rat \<Rightarrow> rat \<Rightarrow> tool_calls \<Rightarrow> rat" where
  "image_call_quota qpu g t =
     (case tl_ImageCall t of None \<Rightarrow> 0 | Some (quality, dims) \<Rightarrow> GetGPTImage1PriceOnceCall quality dims * g * qpu)"

text \<open>The token part: the base quota and the separate quota of audio input.\<close>

definition separate_audio :: "string \<Rightarrow> text_usage \<Rightarrow> bool" where
  "separate_audio model u \<longleftrightarrow> tu_AudioTokens u \<noteq> 0 \<and> 0 < GetGeminiInputAudioPricePerMillionTokens model"

definition base_tokens :: "string \<Rightarrow> int \<Rightarrow> text_usage \<Rightarrow> rat" where
  "base_tokens model channelType u =
     of_int (tu_PromptTokens u
       - (if channelType \<noteq> ChannelTypeAnthropic then tu_CachedTokens u + tu_CachedCreationTokens u else 0)
       - tu_ImageTokens u - (if separate_audio model u then tu_AudioTokens u else 0))"

definition token_quota_of :: "string \<Rightarrow> int \<Rightarrow> PriceData \<Rightarrow> text_usage \<Rightarrow> rat" where
  "token_quota_of model channelType p u =
     (let ratio = pd_ModelRatio p * group_ratio p;
          promptQuota = base_tokens model channelType u + of_int (tu_CachedTokens u) * pd_CacheRatio p
            + of_int (tu_ImageTokens u) * pd_ImageRatio p + of_int (tu_CachedCreationTokens u) * pd_CacheCreationRatio p;
          q = (promptQuota + of_int (tu_CompletionTokens u) * pd_CompletionRatio p) * ratio
      in if ratio \<noteq> 0 \<and> q \<le> 0 then 1 else q)"

definition audio_input_quota :: "(rat \<Rightarrow> rat \<Rightarrow> rat) \<Rightarrow> rat \<Rightarrow> string \<Rightarrow> rat \<Rightarrow> text_usage \<Rightarrow> rat" where
  "audio_input_quota dv qpu model g u =
     (if separate_audio model u
      then dv (GetGeminiInputAudioPricePerMillionTokens model) 1000000 * of_int (tu_AudioTokens u) * g * qpu else 0)"

definition text_quota_decimal ::
    "(rat \<Rightarrow> rat \<Rightarrow> rat) \<Rightarrow> rat \<Rightarrow> string \<Rightarrow> int \<Rightarrow> PriceData \<Rightarrow> text_usage \<Rightarrow> tool_calls \<Rightarrow> rat" where
  "text_quota_decimal dv qpu model channelType p u t =
     (let g = group_ratio p;
          tokens = (if pd_UsePrice p then pd_ModelPrice p * qpu * g else token_quota_of model channelType p u);
          audio = (if pd_UsePrice p then 0 else audio_input_quota dv qpu model g u);
          total_quota = tokens + web_search_quota dv qpu model g t + file_search_quota dv qpu g t + audio + image_call_quota qpu g t
      in fold (\<lambda>(k, r) q. q * r) (pd_OtherRatios p) total_quota)"

definition text_charge ::
    "(rat \<Rightarrow> rat \<Rightarrow> rat) \<Rightarrow> rat \<Rightarrow> string \<Rightarrow> int \<Rightarrow> PriceData \<Rightarrow> text_usage \<Rightarrow> tool_calls \<Rightarrow> int" where
  "text_charge dv qpu model channelType p u t =
     (let quota = int_part (of_int (round_half_away (text_quota_decimal dv qpu model channelType p u t)))
      in if tu_PromptTokens u + tu_CompletionTokens u = 0 then 0
         else if pd_ModelRatio p * group_ratio p \<noteq> 0 \<and> quota = 0 then 1
         else quota)"

section \<open>Audio and Claude requests\<close>

record QuotaInfo =
  qi_InputText :: int
  qi_InputAudio :: int
  qi_OutputText :: int
  qi_OutputAudio :: int
  qi_ModelName :: string
  qi_UsePrice :: bool
  qi_ModelPrice :: rat
  qi_ModelRatio :: rat
  qi_GroupRatio :: rat

definition calculateAudioQuota :: "ratio_tables \<Rightarrow> rat \<Rightarrow> QuotaInfo \<Rightarrow> int" where
  "calculateAudioQuota rt qpu info =
     (if qi_UsePrice info then int_part (qi_ModelPrice info * qpu * qi_GroupRatio info)
      else (let completionRatio = rt_completion rt (qi_ModelName info);
                audioRatio = rt_audio rt (qi_ModelName info);
                audioCompletionRatio = rt_audio_completion rt (qi_ModelName info);
                ratio = qi_GroupRatio info * qi_ModelRatio info;
                q = (of_int (qi_InputText info) + of_int (qi_OutputText info) * completionRatio
                     + of_int (qi_InputAudio info) * audioRatio
                     + of_int (qi_OutputAudio info) * audioRatio * audioCompletionRatio) * ratio;
                quota = (if ratio \<noteq> 0 \<and> q \<le> 0 then 1 else q)
            in int_part (of_int (round_half_away quota))))"

definition hasCustomModelRatio :: "(string \<Rightarrow> rat option) \<Rightarrow> string \<Rightarrow> rat \<Rightarrow> bool" where
  "hasCustomModelRatio defaults modelName currentRatio =
     (case defaults modelName of None \<Rightarrow> True | Some d \<Rightarrow> currentRatio \<noteq> d)"

record claude_usage =
  cu_PromptTokens :: int
  cu_CompletionTokens :: int
  cu_CachedTokens :: int
  cu_CacheCreationTokens :: int
  cu_CacheCreation5m :: int
  cu_CacheCreation1h :: int
  cu_Cost :: rat    \<comment> \<open>0 when there is none\<close>

text \<open>\<open>rnd\<close> is \<^verbatim>\<open>math.Round\<close> followed by the conversion to \<^verbatim>\<open>int\<close>, with its treatment of a zero divisor.\<close>

definition CalcOpenRouterCacheCreateTokens ::
    "(rat \<Rightarrow> rat) \<Rightarrow> (rat \<Rightarrow> rat \<Rightarrow> int) \<Rightarrow> rat \<Rightarrow> claude_usage \<Rightarrow> PriceData \<Rightarrow> int" where
  "CalcOpenRouterCacheCreateTokens fl rnd qpu u p =
     (if pd_CacheCreationRatio p = 1 then 0
      else (let quotaPrice = fl (pd_ModelRatio p / qpu);
                createPrice = fl (quotaPrice * pd_CacheCreationRatio p);
                readPrice = fl (quotaPrice * pd_CacheRatio p);
                completionPrice = fl (quotaPrice * pd_CompletionRatio p)
            in rnd (fl (fl (fl (cu_Cost u - fl (fl (of_int (cu_PromptTokens u)) * quotaPrice))
                        + fl (fl (of_int (cu_CachedTokens u)) * fl (quotaPrice - readPrice)))
                     - fl (fl (of_int (cu_CompletionTokens u)) * completionPrice)))
                   (fl (createPrice - quotaPrice))))"

text \<open>
  The quota of \<^verbatim>\<open>PostClaudeConsumeQuota\<close> with the prompt tokens it leaves (the cached and created
  ones taken off for OpenRouter).
\<close>

definition claude_tokens ::
    "(rat \<Rightarrow> rat) \<Rightarrow> (rat \<Rightarrow> rat \<Rightarrow> int) \<Rightarrow> (string \<Rightarrow> rat option) \<Rightarrow> rat \<Rightarrow> string \<Rightarrow> bool \<Rightarrow> PriceData \<Rightarrow> claude_usage \<Rightarrow> int \<times> int" where
  "claude_tokens fl rnd defaults qpu model openRouter p u =
     (if \<not> openRouter then (cu_PromptTokens u, cu_CacheCreationTokens u)
      else (let prompt = cu_PromptTokens u - cu_CachedTokens u;
                custom = (pd_UsePrice p \<or> hasCustomModelRatio defaults model (pd_ModelRatio p));
                maybe = CalcOpenRouterCacheCreateTokens fl rnd qpu u p;
                created = (if cu_CacheCreationTokens u = 0 \<and> pd_CacheCreationRatio p \<noteq> 1 \<and> cu_Cost u \<noteq> 0 \<and> \<not> custom
                             \<and> 0 \<le> maybe \<and> maybe \<le> prompt
                           then maybe else cu_CacheCreationTokens u)
            in (prompt - created, created)))"

definition claude_charge ::
    "(rat \<Rightarrow> rat) \<Rightarrow> (rat \<Rightarrow> rat \<Rightarrow> int) \<Rightarrow> (string \<Rightarrow> rat option) \<Rightarrow> rat \<Rightarrow> string \<Rightarrow> bool \<Rightarrow> PriceData \<Rightarrow> claude_usage \<Rightarrow> int" where
  "claude_charge fl rnd defaults qpu model openRouter p u =
     (let (prompt, created) = claude_tokens fl rnd defaults qpu model openRouter p u;
          f = (\<lambda>n. fl (of_int n));
          remaining = created - cu_CacheCreation5m u - cu_CacheCreation1h u;
          q1 = fl (f prompt + fl (f (cu_CachedTokens u) * pd_CacheRatio p));
          q2 = fl (q1 + fl (f (cu_CacheCreation5m u) * pd_CacheCreation5mRatio p));
          q3 = fl (q2 + fl (f (cu_CacheCreation1h u) * pd_CacheCreation1hRatio p));
          q4 = (if 0 < remaining then fl (q3 + fl (f remaining * pd_CacheCreationRatio p)) else q3);
          q5 = fl (q4 + fl (f (cu_CompletionTokens u) * pd_CompletionRatio p));
          tokens = fl (fl (q5 * group_ratio p) * pd_ModelRatio p);
          priced = fl (fl (pd_ModelPrice p * qpu) * group_ratio p);
          q = (if pd_UsePrice p then priced else tokens);
          quota = (if pd_ModelRatio p \<noteq> 0 \<and> q \<le> 0 then 1 else q)
      in if prompt + cu_CompletionTokens u = 0 then 0 else trunc quota)"

section \<open>Lemmas\<close>

text \<open>What the code relies on of the decimal library's division: it keeps signs.\<close>

definition dv_ok :: "(rat \<Rightarrow> rat \<Rightarrow> rat) \<Rightarrow> bool" where
  "dv_ok dv \<longleftrightarrow> (\<forall>x y. 0 \<le> x \<longrightarrow> 0 < y \<longrightarrow> 0 \<le> dv x y)"

lemma prices_nonneg:
  "0 < GetWebSearchPricePerThousand model sz" "0 < GetFileSearchPricePerThousand"
  "0 \<le> GetGeminiInputAudioPricePerMillionTokens model" "0 < GetGPTImage1PriceOnceCall quality dims"
  by (auto simp: GetWebSearchPricePerThousand_def WebSearchPrice_def WebSearchPriceHigh_def
      GetFileSearchPricePerThousand_def FileSearchPrice_def GetGeminiInputAudioPricePerMillionTokens_def
      GetGPTImage1PriceOnceCall_def Let_def)

lemma tool_quotas_nonneg:
  assumes "dv_ok dv" "0 \<le> qpu" "0 \<le> g"
  shows "0 \<le> web_search_quota dv qpu model g t" "0 \<le> file_search_quota dv qpu g t" "0 \<le> image_call_quota qpu g t"
    "0 \<le> tu_AudioTokens u \<Longrightarrow> 0 \<le> audio_input_quota dv qpu model g u"
  using assms prices_nonneg(1,2,4) [THEN less_imp_le] prices_nonneg(3)
  by (auto simp: dv_ok_def web_search_quota_def file_search_quota_def image_call_quota_def audio_input_quota_def
      intro!: mult_nonneg_nonneg split: option.split)

lemma other_ratios_pos:
  "(\<forall>(k, r) \<in> set ors. 0 < r) \<Longrightarrow> 0 < q \<Longrightarrow> 0 < fold (\<lambda>(k, r) q. q * r) ors (q :: rat)"
  by (induction ors arbitrary: q) auto

lemma token_quota_pos:
  "0 < pd_ModelRatio p * group_ratio p \<Longrightarrow> 0 < token_quota_of model ct p u"
  by (auto simp: token_quota_of_def Let_def)

lemma round_half_away_nonneg: "0 \<le> x \<Longrightarrow> 0 \<le> round_half_away x"
  by (simp add: round_half_away_def)

lemma int_part_of_int: "int64_ok n \<Longrightarrow> int_part (of_int n) = n"
  by (simp add: int_part_def)

section \<open>Properties\<close>

text \<open>
  Text requests are never free by rounding: with a positive ratio and non-negative prices a
  request that used tokens is charged at least 1, whatever its cached, image, audio and tool
  parts are, as long as the amount fits 64 bits.
\<close>

theorem text_charge_at_least_one:
  assumes "\<not> pd_UsePrice p" and "0 < pd_ModelRatio p * group_ratio p" and "0 \<le> group_ratio p" and "0 \<le> qpu"
    and "dv_ok dv" and "0 \<le> tu_AudioTokens u" and "\<forall>(k, r) \<in> set (pd_OtherRatios p). 0 < r"
    and "tu_PromptTokens u + tu_CompletionTokens u \<noteq> 0"
    and "int64_ok (round_half_away (text_quota_decimal dv qpu model ct p u t))"
  shows "1 \<le> text_charge dv qpu model ct p u t"
proof -
  have "0 < text_quota_decimal dv qpu model ct p u t"
    unfolding text_quota_decimal_def Let_def
    using token_quota_pos [OF assms(2), of model ct u] tool_quotas_nonneg [OF assms(5,4,3)] assms(1,6)
    by (intro other_ratios_pos [OF assms(7)]) (simp add: add_pos_nonneg)
  then have "0 \<le> round_half_away (text_quota_decimal dv qpu model ct p u t)"
    by (simp add: round_half_away_nonneg)
  then show ?thesis
    using assms(2,8,9) by (auto simp: text_charge_def Let_def int_part_of_int)
qed

definition demo_price :: PriceData where
  "demo_price = \<lparr>pd_FreeModel = False, pd_ModelPrice = 0, pd_ModelRatio = 1 / 10, pd_CompletionRatio = 4,
     pd_CacheRatio = 1 / 10, pd_CacheCreationRatio = 1, pd_CacheCreation5mRatio = 1, pd_CacheCreation1hRatio = 1,
     pd_ImageRatio = 1, pd_AudioRatio = 1, pd_AudioCompletionRatio = 1, pd_OtherRatios = [], pd_UsePrice = False,
     pd_QuotaToPreConsume = 0,
     pd_GroupRatioInfo = \<lparr>gr_GroupRatio = 1, gr_GroupSpecialRatio = -1, gr_HasSpecialRatio = False\<rparr>\<rparr>"

definition demo_usage :: text_usage where
  "demo_usage = \<lparr>tu_PromptTokens = 1, tu_CompletionTokens = 0, tu_CachedTokens = 0, tu_CachedCreationTokens = 0,
     tu_ImageTokens = 0, tu_AudioTokens = 0\<rparr>"

definition no_tools :: tool_calls where
  "no_tools = \<lparr>tl_Responses = False, tl_WebSearchCount = 0, tl_WebSearchSize = [], tl_ChatSearchSize = [],
     tl_FileSearchCount = 0, tl_ClaudeWebSearchCount = 0, tl_ImageCall = None\<rparr>"

theorem text_charge_at_least_one_witness:
  "1 \<le> text_charge (/) 500000 ''gpt-4o'' 1 demo_price demo_usage no_tools"
proof (rule text_charge_at_least_one)
  have "text_quota_decimal (/) 500000 ''gpt-4o'' 1 demo_price demo_usage no_tools = 1 / 10"
    by (simp add: text_quota_decimal_def token_quota_of_def base_tokens_def separate_audio_def web_search_quota_def
        file_search_quota_def image_call_quota_def audio_input_quota_def demo_price_def demo_usage_def no_tools_def
        group_ratio_def go_has_suffix_def go_has_prefix_def Let_def)
  then show "int64_ok (round_half_away (text_quota_decimal (/) 500000 ''gpt-4o'' 1 demo_price demo_usage no_tools))"
    by (simp add: round_half_away_def int64_ok_def)
qed (simp_all add: demo_price_def demo_usage_def group_ratio_def dv_ok_def)

text \<open>
  Claude web searches cost nothing: the charge of a text request does not depend on their
  number, although their quota is computed and, for any positive number, is positive.
\<close>

theorem claude_web_search_not_charged:
  assumes "0 < n" and "0 < qpu" and "0 < g" and "0 < dv GetClaudeWebSearchPricePerThousand 1000"
  shows "text_charge dv qpu model ct p u (t\<lparr>tl_ClaudeWebSearchCount := n\<rparr>) = text_charge dv qpu model ct p u t \<and>
    0 < claude_web_search_quota dv qpu g (t\<lparr>tl_ClaudeWebSearchCount := n\<rparr>)"
proof -
  let ?t = "t\<lparr>tl_ClaudeWebSearchCount := n\<rparr>"
  have "web_search_quota dv qpu model g' ?t = web_search_quota dv qpu model g' t" for g'
    by (simp add: web_search_quota_def cong: if_cong)
  moreover have "file_search_quota dv qpu g' ?t = file_search_quota dv qpu g' t" for g'
    by (simp add: file_search_quota_def cong: if_cong)
  moreover have "image_call_quota qpu g' ?t = image_call_quota qpu g' t" for g'
    by (simp add: image_call_quota_def)
  ultimately have "text_quota_decimal dv qpu model ct p u ?t = text_quota_decimal dv qpu model ct p u t"
    by (simp only: text_quota_decimal_def)
  then show ?thesis
    using assms by (simp only: text_charge_def) (simp add: claude_web_search_quota_def)
qed

theorem claude_web_search_not_charged_witness:
  "text_charge (/) 500000 ''claude'' 14 demo_price demo_usage (no_tools\<lparr>tl_ClaudeWebSearchCount := 5\<rparr>) =
     text_charge (/) 500000 ''claude'' 14 demo_price demo_usage no_tools \<and>
   0 < claude_web_search_quota (/) 500000 1 (no_tools\<lparr>tl_ClaudeWebSearchCount := 5\<rparr>)"
  by (rule claude_web_search_not_charged)
     (simp_all add: GetClaudeWebSearchPricePerThousand_def ClaudeWebSearchPrice_def)

text \<open>
  The audio quota is not monotone: with a non-zero ratio no tokens at all cost 1, but tokens
  whose quota is below one half cost nothing.
\<close>

theorem audio_quota_small:
  assumes "\<not> qi_UsePrice info"
    and "q = (of_int (qi_InputText info) + of_int (qi_OutputText info) * rt_completion rt (qi_ModelName info)
       + of_int (qi_InputAudio info) * rt_audio rt (qi_ModelName info)
       + of_int (qi_OutputAudio info) * rt_audio rt (qi_ModelName info) * rt_audio_completion rt (qi_ModelName info))
       * (qi_GroupRatio info * qi_ModelRatio info)"
    and "qi_GroupRatio info * qi_ModelRatio info \<noteq> 0"
  shows "(q = 0 \<longrightarrow> calculateAudioQuota rt qpu info = 1) \<and> (0 < q \<and> q < 1 / 2 \<longrightarrow> calculateAudioQuota rt qpu info = 0)"
proof -
  have one: "round_half_away 1 = 1" using round_half_away_int [of 1] by simp
  have small: "0 < q \<Longrightarrow> q < 1 / 2 \<Longrightarrow> round_half_away q = 0"
    by (simp add: round_half_away_def floor_eq_iff)
  have eq: "calculateAudioQuota rt qpu info = int_part (of_int (round_half_away (if q \<le> 0 then 1 else q)))"
    unfolding calculateAudioQuota_def Let_def using assms by simp
  show ?thesis
    using one small int_part_of_int [of 1] int_part_of_int [of 0] by (auto simp: eq int64_ok_def)
qed

definition demo_tables :: ratio_tables where
  "demo_tables = \<lparr>rt_model_price = (\<lambda>m. if m = ''dall-e-3'' then (1 / 25, True) else (-1, False)), rt_default_price = (\<lambda>_. None),
     rt_model_ratio = (\<lambda>_. (1 / 10, True)), rt_completion = (\<lambda>_. 4), rt_cache = (\<lambda>_. 1 / 10), rt_create_cache = (\<lambda>_. 1),
     rt_image = (\<lambda>_. 1), rt_audio = (\<lambda>_. 1), rt_audio_completion = (\<lambda>_. 1), rt_group = (\<lambda>_. 1), rt_group_group = (\<lambda>_ _. None)\<rparr>"

theorem audio_quota_small_witness:
  "calculateAudioQuota demo_tables 500000 \<lparr>qi_InputText = 1, qi_InputAudio = 0, qi_OutputText = 0, qi_OutputAudio = 0,
     qi_ModelName = ''m'', qi_UsePrice = False, qi_ModelPrice = 0, qi_ModelRatio = 1 / 10, qi_GroupRatio = 1\<rparr> = 0"
  using audio_quota_small [of "\<lparr>qi_InputText = 1, qi_InputAudio = 0, qi_OutputText = 0, qi_OutputAudio = 0,
     qi_ModelName = ''m'', qi_UsePrice = False, qi_ModelPrice = 0, qi_ModelRatio = 1 / 10, qi_GroupRatio = 1\<rparr>"
     "1 / 10" demo_tables 500000]
  by (simp add: demo_tables_def)

text \<open>The estimate of a fixed-price model is the price itself.\<close>

lemma fixed_price_estimate:
  assumes "ModelPriceHelper fl pe rt gri model prompt mx 0 = Some p" "snd (rt_model_price rt model)"
    "fl (fst (rt_model_price rt model) * pe_quotaPerUnit pe) = fst (rt_model_price rt model) * pe_quotaPerUnit pe"
    "fl (fst (rt_model_price rt model) * pe_quotaPerUnit pe * gr_GroupRatio gri) = of_int n"
    "fst (rt_model_price rt model) * pe_quotaPerUnit pe * gr_GroupRatio gri = of_int n"
    "n \<noteq> 0" "int64_ok n" "tu_PromptTokens u + tu_CompletionTokens u \<noteq> 0"
  shows "pd_QuotaToPreConsume p = n \<and>
    text_charge dv (pe_quotaPerUnit pe) model ct p u (no_tools\<lparr>tl_Responses := True\<rparr>) = n"
proof -
  obtain price where price: "rt_model_price rt model = (price, True)"
    using assms(2) by (cases "rt_model_price rt model") auto
  have "price \<noteq> 0" "gr_GroupRatio gri \<noteq> 0" using assms(5,6) price by auto
  then have p: "pd_QuotaToPreConsume p = n" "pd_UsePrice p" "pd_ModelPrice p = price" "pd_OtherRatios p = []"
    "pd_ModelRatio p = 0" "group_ratio p = gr_GroupRatio gri"
    using assms(1,3,4,6) price by (auto simp: ModelPriceHelper_def group_ratio_def Let_def)
  show ?thesis
    using p assms(5-8) price
    by (simp add: text_charge_def text_quota_decimal_def web_search_quota_def file_search_quota_def image_call_quota_def
        no_tools_def int_part_of_int Let_def)
qed

end
