(* ===== verification/Quota_Billing.thy ===== *)
theory Quota_Billing
  imports Api_Error Daily_Quota Wallet_Breaker Usage_Pricing
begin

text \<open>
  Billing a relayed request: pre-consumption, settlement and refund of
  \<^verbatim>\<open>internal/app/pre_consume_quota.go\<close> and \<^verbatim>\<open>quota.go\<close>. A request changes the local ledger and, for
  tokens linked to an account of the billing platform, freezes, settles or releases money there;
  the platform is not part of the repository, so what reaches it is recorded as a list of events
  and its answers are arguments, as are the outcomes of database statements and the values read
  from Redis. Amounts sent to the platform are kept in quota units (the code divides them by
  \<^verbatim>\<open>QuotaPerUnit\<close>). Texts of error messages are abbreviated.
\<close>

section \<open>State and environment\<close>

record relay_info =
  ri_UserId :: int
  ri_TokenId :: int
  ri_TokenKey :: string
  ri_IsPlayground :: bool
  ri_TokenUnlimited :: bool
  ri_IdentityAccountID :: int
  ri_PlatformPreAuthID :: int
  ri_FinalPreConsumedQuota :: int
  ri_UserQuota :: int
  ri_WarningThreshold :: int   \<comment> \<open>\<^verbatim>\<open>int(UserSetting.QuotaWarningThreshold)\<close>\<close>

datatype bill_event =
    EvPreAuth int int          \<comment> \<open>account, estimated quota; the platform was asked\<close>
  | EvSettle int int bool      \<comment> \<open>pre-auth, quota, accepted\<close>
  | EvRelease int bool
  | EvOutboxSettle int int int bool   \<comment> \<open>account, pre-auth, quota, row written\<close>
  | EvOutboxRelease int int bool
  | EvDebit int int            \<comment> \<open>account, quota (asynchronous)\<close>
  | EvUsage int int
  | EvNotify int               \<comment> \<open>low-quota mail for the user\<close>
  | EvInvalidate int

record bill_state =
  bs_ledger :: ledger
  bs_breaker :: platform_breaker
  bs_events :: "bill_event list"

record bill_env =
  be_batch :: bool
  be_now :: int
  be_t0 :: int
  be_t1 :: int
  be_user_ok :: bool
  be_token_ok :: bool
  be_comp_ok :: bool
  be_daily_ok :: "daily_stmt \<Rightarrow> bool"
  be_used_ok :: bool
  be_outbox_ok :: bool
  be_call_ok :: bool           \<comment> \<open>answer of settle or release\<close>
  be_preauth :: "int option"   \<comment> \<open>answer of the pre-authorisation\<close>
  be_unified :: bool           \<comment> \<open>\<^verbatim>\<open>BillingUnifiedEnabled\<close>\<close>
  be_skip :: bool              \<comment> \<open>\<^verbatim>\<open>ShouldSkipPreAuth\<close>\<close>
  be_cached_quota :: "int option"
  be_cached_token :: "token option"
  be_read_ok :: bool
  be_token_quota :: int        \<comment> \<open>\<^verbatim>\<open>token_quota\<close> of the request context\<close>
  be_trust :: int              \<comment> \<open>\<^verbatim>\<open>GetTrustQuota()\<close>\<close>
  be_remind :: int             \<comment> \<open>\<^verbatim>\<open>QuotaRemindThreshold\<close>\<close>

definition emit :: "bill_event list \<Rightarrow> bill_state \<Rightarrow> bill_state" where
  "emit evs st = st\<lparr>bs_events := bs_events st @ evs\<rparr>"

text \<open>Running a ledger operation inside the billing state.\<close>

definition on_ledger :: "(ledger \<Rightarrow> bool \<times> ledger) \<Rightarrow> bill_state \<Rightarrow> bool \<times> bill_state" where
  "on_ledger f st = (case f (bs_ledger st) of (ok, lg) \<Rightarrow> (ok, st\<lparr>bs_ledger := lg\<rparr>))"

section \<open>Reads\<close>

definition GetUserQuota :: "bill_env \<Rightarrow> int \<Rightarrow> ledger \<Rightarrow> int option" where
  "GetUserQuota env i lg =
     (case be_cached_quota env of Some q \<Rightarrow> Some q
      | None \<Rightarrow> if be_read_ok env
                then Some (case gm_get (lg_users lg) i of None \<Rightarrow> 0 | Some u \<Rightarrow> us_Quota u) else None)"

definition GetTokenByKey :: "bill_env \<Rightarrow> string \<Rightarrow> ledger \<Rightarrow> token option" where
  "GetTokenByKey env key lg =
     (case be_cached_token env of Some t \<Rightarrow> Some t
      | None \<Rightarrow> if be_read_ok env then find (\<lambda>t. tk_Key t = key) (map snd (lg_tokens lg)) else None)"

section \<open>Pre-authorisation at the platform\<close>

definition EnqueueRelease :: "bill_env \<Rightarrow> int \<Rightarrow> int \<Rightarrow> bill_state \<Rightarrow> bill_state" where
  "EnqueueRelease env account preAuth = emit [EvOutboxRelease account preAuth (be_outbox_ok env)]"

definition EnqueueSettle :: "bill_env \<Rightarrow> int \<Rightarrow> int \<Rightarrow> int \<Rightarrow> bill_state \<Rightarrow> bill_state" where
  "EnqueueSettle env account preAuth quota = emit [EvOutboxSettle account preAuth quota (be_outbox_ok env)]"

definition releasePlatformPreAuth :: "bill_env \<Rightarrow> relay_info \<Rightarrow> bill_state \<Rightarrow> bill_state" where
  "releasePlatformPreAuth env ri st =
     (let preAuth = ri_PlatformPreAuthID ri
      in if preAuth \<le> 0 then st
         else (let reached = fst (BillingBreakerAllow (be_t0 env) (bs_breaker st));
                   (answer, b) = ReleaseWithBreaker (be_t0 env) (be_t1 env)
                     (if be_call_ok env then Some () else None) (bs_breaker st);
                   st1 = emit (if reached then [EvRelease preAuth (be_call_ok env)] else []) (st\<lparr>bs_breaker := b\<rparr>)
               in if answer = None then EnqueueRelease env (ri_IdentityAccountID ri) preAuth st1 else st1))"

definition platformPreAuthorize ::
    "bill_env \<Rightarrow> int \<Rightarrow> relay_info \<Rightarrow> bill_state \<Rightarrow> new_api_error option \<times> relay_info \<times> bill_state" where
  "platformPreAuthorize env estimatedQuota ri st =
     (if be_skip env then (None, ri, st)
      else (let reached = fst (BillingBreakerAllow (be_t0 env) (bs_breaker st));
                (answer, b) = PreAuthorizeWithBreaker (be_t0 env) (be_t1 env) (be_preauth env) (bs_breaker st);
                st1 = emit (if reached then [EvPreAuth (ri_IdentityAccountID ri) estimatedQuota] else [])
                        (st\<lparr>bs_breaker := b\<rparr>)
            in case answer of
                 None \<Rightarrow> (Some (NewErrorWithStatusCode ''insufficient balance or billing service unavailable''
                     ErrorCodeInsufficientUserQuota 402 [ErrOptionWithSkipRetry, ErrOptionWithNoRecordErrorLog]), ri, st1)
               | Some preAuth \<Rightarrow> (None, ri\<lparr>ri_PlatformPreAuthID := preAuth\<rparr>, st1)))"

section \<open>Settlement\<close>

text \<open>\<^verbatim>\<open>checkAndSendQuotaNotify\<close>.\<close>

definition checkAndSendQuotaNotify :: "bill_env \<Rightarrow> relay_info \<Rightarrow> int \<Rightarrow> int \<Rightarrow> bill_state \<Rightarrow> bill_state" where
  "checkAndSendQuotaNotify env ri quota preConsumedQuota st =
     (let threshold = (if ri_WarningThreshold ri \<noteq> 0 then ri_WarningThreshold ri else be_remind env)
      in if ri_UserQuota ri - (quota + preConsumedQuota) < threshold then emit [EvNotify (ri_UserId ri)] st else st)"

text \<open>Phase 5 of \<^verbatim>\<open>PostConsumeQuota\<close>; \<open>consistent\<close> says that the local ledger was updated.\<close>

definition settle_platform ::
    "bill_env \<Rightarrow> bool \<Rightarrow> int \<Rightarrow> relay_info \<Rightarrow> bill_state \<Rightarrow> relay_info \<times> bill_state" where
  "settle_platform env consistent totalQuota ri st =
     (if \<not> (0 < ri_IdentityAccountID ri \<and> 0 < totalQuota) then (ri, st)
      else (let account = ri_IdentityAccountID ri; preAuth = ri_PlatformPreAuthID ri
            in if 0 < preAuth then
                 (let st2 = (if \<not> consistent then releasePlatformPreAuth env ri st
                       else (let reached = fst (BillingBreakerAllow (be_t0 env) (bs_breaker st));
                                 (answer, b) = SettleWithBreaker (be_t0 env) (be_t1 env)
                                   (if be_call_ok env then Some () else None) (bs_breaker st);
                                 st1 = emit (if reached then [EvSettle preAuth totalQuota (be_call_ok env)] else [])
                                         (st\<lparr>bs_breaker := b\<rparr>)
                             in if answer = None then EnqueueSettle env account preAuth totalQuota st1
                                else emit [EvInvalidate account] st1))
                  in (ri\<lparr>ri_PlatformPreAuthID := 0\<rparr>, emit [EvUsage account totalQuota] st2))
               else (ri, emit [EvDebit account totalQuota, EvUsage account totalQuota] st)))"

text \<open>Phases 1 to 3: the user, the daily usage, and the token with its compensation.\<close>

definition post_local ::
    "bill_env \<Rightarrow> relay_info \<Rightarrow> int \<Rightarrow> ledger \<Rightarrow> (bool \<times> bool) \<times> ledger" where
  "post_local env ri quota lg =
     (case (if 0 < quota then DecreaseUserQuota (be_batch env) (be_user_ok env) (ri_UserId ri) quota lg
            else IncreaseUserQuota (be_batch env) (be_user_ok env) (ri_UserId ri) (- quota) False lg) of
        (False, lg1) \<Rightarrow> ((False, False), lg1)
      | (True, lg1) \<Rightarrow>
          (let lg2 = (if 0 < quota then snd (PostConsumeDailyQuota (be_daily_ok env) (be_now env) (ri_UserId ri) quota lg1)
                      else lg1)
           in if ri_IsPlayground ri then ((True, True), lg2)
              else (case (if 0 < quota then DecreaseTokenQuota (be_batch env) (be_token_ok env) (be_now env) (ri_TokenId ri) quota lg2
                          else IncreaseTokenQuota (be_batch env) (be_token_ok env) (be_now env) (ri_TokenId ri) (- quota) lg2) of
                      (True, lg3) \<Rightarrow> ((True, True), lg3)
                    | (False, lg3) \<Rightarrow>
                        ((True, False), snd (if 0 < quota
                           then IncreaseUserQuota (be_batch env) (be_comp_ok env) (ri_UserId ri) quota False lg3
                           else DecreaseUserQuota (be_batch env) (be_comp_ok env) (ri_UserId ri) (- quota) lg3)))))"

definition PostConsumeQuota ::
    "bill_env \<Rightarrow> int \<Rightarrow> int \<Rightarrow> bool \<Rightarrow> relay_info \<Rightarrow> bill_state \<Rightarrow> bool \<times> relay_info \<times> bill_state" where
  "PostConsumeQuota env quota preConsumedQuota sendEmail ri st =
     (case post_local env ri quota (bs_ledger st) of
        ((False, _), lg) \<Rightarrow> (False, ri, st\<lparr>bs_ledger := lg\<rparr>)
      | ((True, consistent), lg) \<Rightarrow>
          (let st1 = st\<lparr>bs_ledger := lg\<rparr>;
               st2 = (if sendEmail \<and> quota + preConsumedQuota \<noteq> 0
                      then checkAndSendQuotaNotify env ri quota preConsumedQuota st1 else st1);
               (ri', st3) = settle_platform env consistent (quota + preConsumedQuota) ri st2
           in (consistent, ri', st3)))"

section \<open>Refund\<close>

definition ReturnPreConsumedQuota :: "bill_env \<Rightarrow> relay_info \<Rightarrow> bill_state \<Rightarrow> relay_info \<times> bill_state" where
  "ReturnPreConsumedQuota env ri st =
     (let (ri1, st1) = (if ri_FinalPreConsumedQuota ri \<noteq> 0
            then snd (PostConsumeQuota env (- ri_FinalPreConsumedQuota ri) 0 False ri st) else (ri, st))
      in (ri1, releasePlatformPreAuth env ri1 st1))"

section \<open>Pre-consumption\<close>

definition PreConsumeTokenQuota :: "bill_env \<Rightarrow> relay_info \<Rightarrow> int \<Rightarrow> ledger \<Rightarrow> bool \<times> ledger" where
  "PreConsumeTokenQuota env ri quota lg =
     (if quota < 0 then (False, lg)
      else if ri_IsPlayground ri then (True, lg)
      else (case GetTokenByKey env (ri_TokenKey ri) lg of
              None \<Rightarrow> (False, lg)
            | Some t \<Rightarrow>
                if \<not> ri_TokenUnlimited ri \<and> tk_RemainQuota t < quota then (False, lg)
                else DecreaseTokenQuota (be_batch env) (be_token_ok env) (be_now env) (ri_TokenId ri) quota lg))"

definition release_and_clear :: "bill_env \<Rightarrow> relay_info \<Rightarrow> bill_state \<Rightarrow> relay_info \<times> bill_state" where
  "release_and_clear env ri st = (ri\<lparr>ri_PlatformPreAuthID := 0\<rparr>, releasePlatformPreAuth env ri st)"

text \<open>\<^verbatim>\<open>PreConsumeQuota\<close> from the check of the local quota on.\<close>

definition preconsume_local ::
    "bill_env \<Rightarrow> int \<Rightarrow> relay_info \<Rightarrow> bill_state \<Rightarrow> new_api_error option \<times> relay_info \<times> bill_state" where
  "preconsume_local env preConsumedQuota ri st =
     (case GetUserQuota env (ri_UserId ri) (bs_ledger st) of
        None \<Rightarrow> (Some (NewError (ErrPlain ''query'') ErrorCodeQueryDataError [ErrOptionWithSkipRetry]), ri, st)
      | Some userQuota \<Rightarrow>
          if userQuota \<le> 0 \<or> userQuota - preConsumedQuota < 0 then
            (Some (NewErrorWithStatusCode ''insufficient quota'' ErrorCodeInsufficientUserQuota 402
               [ErrOptionWithSkipRetry, ErrOptionWithNoRecordErrorLog]), release_and_clear env ri st)
          else
            (let ri1 = ri\<lparr>ri_UserQuota := userQuota\<rparr>;
                 pre = (if be_trust env < userQuota \<and> (ri_TokenUnlimited ri \<or> be_trust env < be_token_quota env)
                        then 0 else preConsumedQuota)
             in if pre \<le> 0 then (None, ri1\<lparr>ri_FinalPreConsumedQuota := pre\<rparr>, st)
                else (case on_ledger (PreConsumeTokenQuota env ri1 pre) st of
                        (False, st1) \<Rightarrow>
                          (Some (NewErrorWithStatusCode ''token quota'' ErrorCodePreConsumeTokenQuotaFailed 402
                             [ErrOptionWithSkipRetry, ErrOptionWithNoRecordErrorLog]), release_and_clear env ri1 st1)
                      | (True, st1) \<Rightarrow>
                          (case on_ledger (DecreaseUserQuota (be_batch env) (be_user_ok env) (ri_UserId ri1) pre) st1 of
                             (False, st2) \<Rightarrow>
                               (Some (NewError (ErrPlain ''update'') ErrorCodeUpdateDataError [ErrOptionWithSkipRetry]),
                                release_and_clear env ri1 st2)
                           | (True, st2) \<Rightarrow> (None, ri1\<lparr>ri_FinalPreConsumedQuota := pre\<rparr>, st2)))))"

definition PreConsumeQuota ::
    "bill_env \<Rightarrow> int \<Rightarrow> relay_info \<Rightarrow> bill_state \<Rightarrow> new_api_error option \<times> relay_info \<times> bill_state" where
  "PreConsumeQuota env preConsumedQuota ri st =
     (if \<not> 0 < ri_PlatformPreAuthID ri \<and> be_unified env \<and> 0 < ri_IdentityAccountID ri \<and> 0 < preConsumedQuota
      then (case platformPreAuthorize env preConsumedQuota ri st of
              (Some e, ri1, st1) \<Rightarrow> (Some e, ri1, st1)
            | (None, ri1, st1) \<Rightarrow> preconsume_local env preConsumedQuota ri1 st1)
      else preconsume_local env preConsumedQuota ri st)"

section \<open>After the response\<close>

text \<open>The common tail of the settlement functions.\<close>

definition settle_delta :: "bill_env \<Rightarrow> int \<Rightarrow> relay_info \<Rightarrow> bill_state \<Rightarrow> relay_info \<times> bill_state" where
  "settle_delta env quota ri st =
     (let quotaDelta = quota - ri_FinalPreConsumedQuota ri
      in if quotaDelta \<noteq> 0 then snd (PostConsumeQuota env quotaDelta (ri_FinalPreConsumedQuota ri) True ri st)
         else (ri, st))"

definition record_usage :: "bill_env \<Rightarrow> int \<Rightarrow> int \<Rightarrow> relay_info \<Rightarrow> bill_state \<Rightarrow> bill_state" where
  "record_usage env channelId quota ri st =
     st\<lparr>bs_ledger := UpdateChannelUsedQuota (be_batch env) (be_used_ok env) channelId quota
         (UpdateUserUsedQuotaAndRequestCount (be_batch env) (be_used_ok env) (ri_UserId ri) quota (bs_ledger st))\<rparr>"

text \<open>\<open>tokens\<close> is the number of tokens the guard of each function looks at.\<close>

definition settle_usage :: "bill_env \<Rightarrow> int \<Rightarrow> int \<Rightarrow> int \<Rightarrow> relay_info \<Rightarrow> bill_state \<Rightarrow> relay_info \<times> bill_state" where
  "settle_usage env channelId tokens quota ri st =
     (if tokens = 0 then settle_delta env 0 ri st
      else settle_delta env quota ri (record_usage env channelId quota ri st))"

definition postConsumeQuota ::
    "bill_env \<Rightarrow> (rat \<Rightarrow> rat \<Rightarrow> rat) \<Rightarrow> rat \<Rightarrow> string \<Rightarrow> int \<Rightarrow> int \<Rightarrow> PriceData \<Rightarrow> int \<Rightarrow> text_usage option \<Rightarrow> tool_calls
     \<Rightarrow> relay_info \<Rightarrow> bill_state \<Rightarrow> relay_info \<times> bill_state" where
  "postConsumeQuota env dv qpu model channelType channelId p estimated usage tools ri st =
     (let u = (case usage of Some u \<Rightarrow> u
            | None \<Rightarrow> \<lparr>tu_PromptTokens = estimated, tu_CompletionTokens = 0, tu_CachedTokens = 0,
                tu_CachedCreationTokens = 0, tu_ImageTokens = 0, tu_AudioTokens = 0\<rparr>)
      in settle_usage env channelId (tu_PromptTokens u + tu_CompletionTokens u)
           (text_charge dv qpu model channelType p u tools) ri st)"

definition PostClaudeConsumeQuota ::
    "bill_env \<Rightarrow> (rat \<Rightarrow> rat) \<Rightarrow> (rat \<Rightarrow> rat \<Rightarrow> int) \<Rightarrow> (string \<Rightarrow> rat option) \<Rightarrow> rat \<Rightarrow> string \<Rightarrow> bool \<Rightarrow> int \<Rightarrow> PriceData
     \<Rightarrow> claude_usage \<Rightarrow> relay_info \<Rightarrow> bill_state \<Rightarrow> relay_info \<times> bill_state" where
  "PostClaudeConsumeQuota env fl rnd defaults qpu model openRouter channelId p u ri st =
     settle_usage env channelId (fst (claude_tokens fl rnd defaults qpu model openRouter p u) + cu_CompletionTokens u)
       (claude_charge fl rnd defaults qpu model openRouter p u) ri st"

definition PostAudioConsumeQuota ::
    "bill_env \<Rightarrow> ratio_tables \<Rightarrow> rat \<Rightarrow> int \<Rightarrow> QuotaInfo \<Rightarrow> int \<Rightarrow> relay_info \<Rightarrow> bill_state \<Rightarrow> relay_info \<times> bill_state" where
  "PostAudioConsumeQuota env rt qpu channelId info totalTokens ri st =
     settle_usage env channelId totalTokens (calculateAudioQuota rt qpu info) ri st"

text \<open>A realtime session is paid for while it runs; at the end only the counters are updated.\<close>

definition PostWssConsumeQuota ::
    "bill_env \<Rightarrow> ratio_tables \<Rightarrow> rat \<Rightarrow> int \<Rightarrow> QuotaInfo \<Rightarrow> int \<Rightarrow> relay_info \<Rightarrow> bill_state \<Rightarrow> bill_state" where
  "PostWssConsumeQuota env rt qpu channelId info totalTokens ri st =
     (if totalTokens = 0 then st else record_usage env channelId (calculateAudioQuota rt qpu info) ri st)"

definition PreWssConsumeQuota ::
    "bill_env \<Rightarrow> ratio_tables \<Rightarrow> rat \<Rightarrow> QuotaInfo \<Rightarrow> relay_info \<Rightarrow> bill_state \<Rightarrow> bool \<times> relay_info \<times> bill_state" where
  "PreWssConsumeQuota env rt qpu info ri st =
     (if qi_UsePrice info then (True, ri, st)
      else (case (GetUserQuota env (ri_UserId ri) (bs_ledger st),
                  GetTokenByKey env (go_trim_prefix (ri_TokenKey ri) ''sk-'') (bs_ledger st)) of
              (Some userQuota, Some t) \<Rightarrow>
                (let quota = calculateAudioQuota rt qpu info
                 in if userQuota < quota then (False, ri, st)
                    else if \<not> tk_UnlimitedQuota t \<and> tk_RemainQuota t < quota then (False, ri, st)
                    else PostConsumeQuota env quota 0 False ri st)
            | _ \<Rightarrow> (False, ri, st)))"

section \<open>Lemmas\<close>

lemma emit_ledger [simp]: "bs_ledger (emit evs st) = bs_ledger st" "bs_breaker (emit evs st) = bs_breaker st"
  by (simp_all add: emit_def)

lemma releasePlatformPreAuth_ledger [simp]: "bs_ledger (releasePlatformPreAuth env ri st) = bs_ledger st"
  by (simp add: releasePlatformPreAuth_def EnqueueRelease_def Let_def split: prod.split)

lemma settle_platform_ledger [simp]: "bs_ledger (snd (settle_platform env c q ri st)) = bs_ledger st"
  by (simp add: settle_platform_def EnqueueSettle_def Let_def split: prod.split)

lemma notify_ledger [simp]: "bs_ledger (checkAndSendQuotaNotify env ri q p st) = bs_ledger st"
  by (simp add: checkAndSendQuotaNotify_def Let_def)

lemma settle_platform_info:
  "ri_FinalPreConsumedQuota (fst (settle_platform env c q ri st)) = ri_FinalPreConsumedQuota ri"
  "ri_UserId (fst (settle_platform env c q ri st)) = ri_UserId ri"
  by (simp_all add: settle_platform_def Let_def)

lemma PostConsumeQuota_ledger:
  "PostConsumeQuota env q pre se ri st = (ok, ri', st') \<Longrightarrow>
     bs_ledger st' = snd (post_local env ri q (bs_ledger st)) \<and>
     (ok \<longleftrightarrow> fst (fst (post_local env ri q (bs_ledger st))) \<and> snd (fst (post_local env ri q (bs_ledger st))))"
proof -
  assume p: "PostConsumeQuota env q pre se ri st = (ok, ri', st')"
  obtain a c lg where l: "post_local env ri q (bs_ledger st) = ((a, c), lg)" by (metis surj_pair)
  have s: "bs_ledger st3 = lg" if "settle_platform env c t ri st2 = (r, st3)" "bs_ledger st2 = lg" for t r st2 st3
    using settle_platform_ledger [of env c t ri st2] that by simp
  show ?thesis
    using p l s by (cases a) (auto simp: PostConsumeQuota_def Let_def split: prod.splits if_splits)
qed

text \<open>The two kinds of account do not touch each other, nor does the daily usage.\<close>

lemma user_ops_token_quota:
  "token_quota (snd (IncreaseUserQuota b ok i q db lg)) = token_quota lg"
  "token_quota (snd (DecreaseUserQuota b ok i q lg)) = token_quota lg"
  by (auto simp: IncreaseUserQuota_def DecreaseUserQuota_def increaseUserQuota_def decreaseUserQuota_def token_quota_def
      eff_token_def pend_addNewRecord fun_eq_iff)

lemma token_ops_user_quota:
  "user_quota (snd (IncreaseTokenQuota b ok now i q lg)) = user_quota lg"
  "user_quota (snd (DecreaseTokenQuota b ok now i q lg)) = user_quota lg"
  by (auto simp: IncreaseTokenQuota_def DecreaseTokenQuota_def increaseTokenQuota_def decreaseTokenQuota_def user_quota_def
      eff_user_def pend_addNewRecord fun_eq_iff)

lemma daily_user_quota: "user_quota (snd (PostConsumeDailyQuota ok now i q lg)) = user_quota lg"
proof
  fix j
  have eq: "user_quota lg j = map_option (\<lambda>q. q + pend lg BatchUpdateTypeUserQuota j)
      (map_option us_Quota (gm_get (lg_users lg) j))" for lg
    by (simp add: user_quota_def eff_user_def option.map_comp comp_def)
  show "user_quota (snd (PostConsumeDailyQuota ok now i q lg)) j = user_quota lg j"
    unfolding eq using daily_keeps_quota [of ok now i q lg j] daily_keeps_rest(2) [of ok now i q lg]
    by (simp add: pend_def)
qed

lemma daily_token_quota: "token_quota (snd (PostConsumeDailyQuota ok now i q lg)) = token_quota lg"
  using daily_keeps_rest [of ok now i q lg] by (simp add: token_quota_def eff_token_def pend_def fun_eq_iff)

lemmas cross_quota = user_ops_token_quota token_ops_user_quota daily_user_quota daily_token_quota

lemma post_local_alt:
  "post_local env ri quota lg =
     (case user_account.move (be_batch env) (be_user_ok env) False (ri_UserId ri) quota lg of
        (False, lg1) \<Rightarrow> ((False, False), lg1)
      | (True, lg1) \<Rightarrow>
          (let lg2 = (if 0 < quota then snd (PostConsumeDailyQuota (be_daily_ok env) (be_now env) (ri_UserId ri) quota lg1)
                      else lg1)
           in if ri_IsPlayground ri then ((True, True), lg2)
              else (case token_account.move (be_batch env) (be_token_ok env) (be_now env) (ri_TokenId ri) quota lg2 of
                      (True, lg3) \<Rightarrow> ((True, True), lg3)
                    | (False, lg3) \<Rightarrow>
                        ((True, False), snd (user_account.undo (be_batch env) (be_comp_ok env) False (ri_UserId ri) quota lg3)))))"
  unfolding post_local_def user_account.move_def token_account.move_def user_account.undo_def by (rule refl)

lemma move_other:
  "token_quota (snd (user_account.move b ok db i q lg)) = token_quota lg"
  "token_quota (snd (user_account.undo b ok db i q lg)) = token_quota lg"
  "user_quota (snd (token_account.move b ok now i q lg)) = user_quota lg"
  by (simp_all add: user_account.move_def user_account.undo_def token_account.move_def cross_quota)

text \<open>A movement succeeds exactly when it is batched or its write succeeds.\<close>

lemma move_result:
  "fst (user_account.move b ok False i q lg) \<longleftrightarrow> b \<or> ok"
  "fst (user_account.undo b ok False i q lg) \<longleftrightarrow> b \<or> ok"
  "fst (token_account.move b ok now i q lg) \<longleftrightarrow> b \<or> ok"
  by (auto simp: user_account.move_def user_account.undo_def token_account.move_def IncreaseUserQuota_def DecreaseUserQuota_def
      IncreaseTokenQuota_def DecreaseTokenQuota_def increaseUserQuota_def decreaseUserQuota_def increaseTokenQuota_def
      decreaseTokenQuota_def)

definition shift :: "int \<Rightarrow> int \<Rightarrow> (int \<Rightarrow> int option) \<Rightarrow> int \<Rightarrow> int option" where
  "shift i q f j = map_option (\<lambda>b. if j = i then b - q else b) (f j)"

lemma shift_zero [simp]: "shift i 0 f = f"
  by (simp add: shift_def fun_eq_iff option.map_ident cong: if_cong)

lemma shift_shift [simp]: "shift i p (shift i q f) = shift i (p + q) f"
  by (auto simp: shift_def fun_eq_iff option.map_comp comp_def intro!: option.map_cong0)

lemma user_move_shift: "user_quota (snd (user_account.move b ok False i q lg)) = shift i (if b \<or> ok then q else 0) (user_quota lg)"
proof
  fix j
  obtain r lg' where m: "user_account.move b ok False i q lg = (r, lg')" by fastforce
  then have "r = (b \<or> ok)" using move_result(1) [of b ok i q lg] by simp
  then show "user_quota (snd (user_account.move b ok False i q lg)) j = shift i (if b \<or> ok then q else 0) (user_quota lg) j"
    using user_account.move_bal [OF m, of j] m by (cases "user_quota lg j") (auto simp: shift_def)
qed

lemma user_undo_shift: "user_quota (snd (user_account.undo b ok False i q lg)) = shift i (if b \<or> ok then - q else 0) (user_quota lg)"
proof
  fix j
  obtain r lg' where m: "user_account.undo b ok False i q lg = (r, lg')" by fastforce
  then have "r = (b \<or> ok)" using move_result(2) [of b ok i q lg] by simp
  then show "user_quota (snd (user_account.undo b ok False i q lg)) j = shift i (if b \<or> ok then - q else 0) (user_quota lg) j"
    using user_account.undo_bal [OF m, of j] m by (cases "user_quota lg j") (auto simp: shift_def)
qed

lemma token_move_shift: "token_quota (snd (token_account.move b ok now i q lg)) = shift i (if b \<or> ok then q else 0) (token_quota lg)"
proof
  fix j
  obtain r lg' where m: "token_account.move b ok now i q lg = (r, lg')" by fastforce
  then have "r = (b \<or> ok)" using move_result(3) [of b ok now i q lg] by simp
  then show "token_quota (snd (token_account.move b ok now i q lg)) j = shift i (if b \<or> ok then q else 0) (token_quota lg) j"
    using token_account.move_bal [OF m, of j] m by (cases "token_quota lg j") (auto simp: shift_def)
qed

text \<open>The outcome of the local part: who moved, by how much, and what is reported.\<close>

lemma post_local_outcome:
  fixes env ri q lg
  defines "user_ok \<equiv> be_batch env \<or> be_user_ok env" and "token_ok \<equiv> be_batch env \<or> be_token_ok env"
    and "comp_ok \<equiv> be_batch env \<or> be_comp_ok env"
  shows "fst (post_local env ri q lg) = (user_ok, user_ok \<and> (ri_IsPlayground ri \<or> token_ok)) \<and>
    user_quota (snd (post_local env ri q lg)) =
      shift (ri_UserId ri) (if user_ok \<and> (ri_IsPlayground ri \<or> token_ok \<or> \<not> comp_ok) then q else 0) (user_quota lg) \<and>
    token_quota (snd (post_local env ri q lg)) =
      shift (ri_TokenId ri) (if user_ok \<and> \<not> ri_IsPlayground ri \<and> token_ok then q else 0) (token_quota lg)"
proof -
  let ?um = "user_account.move (be_batch env) (be_user_ok env) False (ri_UserId ri) q lg"
  let ?lg2 = "if 0 < q then snd (PostConsumeDailyQuota (be_daily_ok env) (be_now env) (ri_UserId ri) q (snd ?um)) else snd ?um"
  let ?tm = "token_account.move (be_batch env) (be_token_ok env) (be_now env) (ri_TokenId ri) q ?lg2"
  have lg2: "user_quota ?lg2 = user_quota (snd ?um)" "token_quota ?lg2 = token_quota lg"
    by (simp_all add: daily_user_quota daily_token_quota move_other)
  have um: "?um = (user_ok, snd ?um)"
    using move_result(1) [of "be_batch env" "be_user_ok env" "ri_UserId ri" q lg] by (simp add: user_ok_def prod_eq_iff)
  have tm: "?tm = (token_ok, snd ?tm)"
    using move_result(3) [of "be_batch env" "be_token_ok env" "be_now env" "ri_TokenId ri" q ?lg2]
    by (simp add: token_ok_def prod_eq_iff)
  have uq: "user_quota (snd ?um) = shift (ri_UserId ri) (if user_ok then q else 0) (user_quota lg)"
    unfolding user_ok_def by (rule user_move_shift)
  have tq: "token_quota (snd ?tm) = shift (ri_TokenId ri) (if token_ok then q else 0) (token_quota lg)"
    unfolding token_ok_def using lg2(2) token_move_shift [of "be_batch env" "be_token_ok env" "be_now env" "ri_TokenId ri" q ?lg2] by simp
  show ?thesis
  proof (cases user_ok)
    case False
    then show ?thesis
      using uq move_other(1) [of "be_batch env" "be_user_ok env" False "ri_UserId ri" q lg]
      by (subst (1 2 3) post_local_alt, subst (1 2 3) um) simp
  next
    case u: True
    show ?thesis
    proof (cases "ri_IsPlayground ri")
      case True
      then show ?thesis
        using u uq lg2 by (subst (1 2 3) post_local_alt, subst (1 2 3) um) (simp add: Let_def)
    next
      case False
      have eq: "post_local env ri q lg = (if token_ok then ((True, True), snd ?tm)
          else ((True, False), snd (user_account.undo (be_batch env) (be_comp_ok env) False (ri_UserId ri) q (snd ?tm))))"
        by (subst post_local_alt, subst um, simp only: u prod.case bool.case Let_def False if_False, subst tm)
           (cases token_ok; simp)
      show ?thesis
        using u uq tq lg2 False move_other(3) [of "be_batch env" "be_token_ok env" "be_now env" "ri_TokenId ri" q ?lg2]
        by (cases token_ok) (simp_all add: eq user_undo_shift move_other(2) comp_ok_def)
    qed
  qed
qed

definition same_ids :: "relay_info \<Rightarrow> relay_info \<Rightarrow> bool" where
  "same_ids ri ri' \<longleftrightarrow> ri_UserId ri' = ri_UserId ri \<and> ri_TokenId ri' = ri_TokenId ri \<and>
     ri_IsPlayground ri' = ri_IsPlayground ri \<and> ri_IdentityAccountID ri' = ri_IdentityAccountID ri"

lemma decrease_as_move:
  "0 < q \<Longrightarrow> DecreaseTokenQuota b ok now i q lg = token_account.move b ok now i q lg"
  "0 < q \<Longrightarrow> DecreaseUserQuota b ok i q lg = user_account.move b ok False i q lg"
  by (simp_all add: token_account.move_def user_account.move_def)

lemma PreConsumeTokenQuota_effect:
  assumes "PreConsumeTokenQuota env ri q lg = (ok, lg')" "0 < q"
  shows "user_quota lg' = user_quota lg \<and>
    token_quota lg' = shift (ri_TokenId ri) (if ok \<and> \<not> ri_IsPlayground ri then q else 0) (token_quota lg)"
proof (cases "ok \<and> \<not> ri_IsPlayground ri")
  case True
  then have d: "DecreaseTokenQuota (be_batch env) (be_token_ok env) (be_now env) (ri_TokenId ri) q lg = (True, lg')"
    using assms by (auto simp: PreConsumeTokenQuota_def split: if_splits option.splits)
  then have "be_batch env \<or> be_token_ok env"
    using move_result(3) [of "be_batch env" "be_token_ok env" "be_now env" "ri_TokenId ri" q lg] assms(2)
    by (simp add: decrease_as_move)
  then show ?thesis
    using True d cross_quota(4) [of "be_batch env" "be_token_ok env" "be_now env" "ri_TokenId ri" q lg]
      token_move_shift [of "be_batch env" "be_token_ok env" "be_now env" "ri_TokenId ri" q lg] assms(2)
    by (auto simp: decrease_as_move)
next
  case False
  then have "lg' = lg"
    using assms token_account.dec_fail [of "be_batch env" "be_token_ok env" "be_now env" "ri_TokenId ri" q lg lg']
    by (auto simp: PreConsumeTokenQuota_def split: if_splits option.splits)
  then show ?thesis using False by auto
qed

lemma on_ledger_ledger: "on_ledger f st = (ok, st') \<Longrightarrow> f (bs_ledger st) = (ok, bs_ledger st')"
  by (auto simp: on_ledger_def split: prod.splits)

lemma preconsume_local_effect:
  assumes "preconsume_local env p ri st = (e, ri1, st1)" "0 \<le> p"
  shows "same_ids ri ri1 \<and>
    user_quota (bs_ledger st1) =
      shift (ri_UserId ri) (if e = None then ri_FinalPreConsumedQuota ri1 else 0) (user_quota (bs_ledger st)) \<and>
    (e = None \<longrightarrow> 0 \<le> ri_FinalPreConsumedQuota ri1 \<and> ri_PlatformPreAuthID ri1 = ri_PlatformPreAuthID ri \<and>
       token_quota (bs_ledger st1) = shift (ri_TokenId ri)
         (if ri_IsPlayground ri then 0 else ri_FinalPreConsumedQuota ri1) (token_quota (bs_ledger st)))"
proof (cases "GetUserQuota env (ri_UserId ri) (bs_ledger st)")
  case None
  then show ?thesis using assms by (auto simp: preconsume_local_def same_ids_def)
next
  case (Some uq)
  let ?r1 = "ri\<lparr>ri_UserQuota := uq\<rparr>"
  let ?pre = "if be_trust env < uq \<and> (ri_TokenUnlimited ri \<or> be_trust env < be_token_quota env) then 0 else p"
  show ?thesis
  proof (cases "uq \<le> 0 \<or> uq - p < 0 \<or> ?pre \<le> 0")
    case True
    then show ?thesis
      using assms Some by (auto simp: preconsume_local_def Let_def release_and_clear_def same_ids_def split: if_splits)
  next
    case False
    obtain a s1 where tk: "on_ledger (PreConsumeTokenQuota env ?r1 ?pre) st = (a, s1)" by fastforce
    have t: "user_quota (bs_ledger s1) = user_quota (bs_ledger st)"
      "token_quota (bs_ledger s1) = shift (ri_TokenId ri) (if a \<and> \<not> ri_IsPlayground ri then ?pre else 0) (token_quota (bs_ledger st))"
      using PreConsumeTokenQuota_effect [OF on_ledger_ledger [OF tk]] False by auto
    obtain b s2 where us: "on_ledger (DecreaseUserQuota (be_batch env) (be_user_ok env) (ri_UserId ri) ?pre) s1 = (b, s2)"
      by fastforce
    have d: "user_account.move (be_batch env) (be_user_ok env) False (ri_UserId ri) ?pre (bs_ledger s1) = (b, bs_ledger s2)"
      using on_ledger_ledger [OF us] False by (simp add: decrease_as_move)
    have b: "b = (be_batch env \<or> be_user_ok env)"
      using move_result(1) [of "be_batch env" "be_user_ok env" "ri_UserId ri" ?pre "bs_ledger s1"] d by simp
    have u: "user_quota (bs_ledger s2) = shift (ri_UserId ri) (if b then ?pre else 0) (user_quota (bs_ledger st))"
      "token_quota (bs_ledger s2) = token_quota (bs_ledger s1)"
      using user_move_shift [of "be_batch env" "be_user_ok env" "ri_UserId ri" ?pre "bs_ledger s1"] d b t(1)
        move_other(1) [of "be_batch env" "be_user_ok env" False "ri_UserId ri" ?pre "bs_ledger s1"] by simp_all
    have res: "preconsume_local env p ri st =
        (if \<not> a then (Some (NewErrorWithStatusCode ''token quota'' ErrorCodePreConsumeTokenQuotaFailed 402
             [ErrOptionWithSkipRetry, ErrOptionWithNoRecordErrorLog]), release_and_clear env ?r1 s1)
         else if \<not> b then (Some (NewError (ErrPlain ''update'') ErrorCodeUpdateDataError [ErrOptionWithSkipRetry]),
             release_and_clear env ?r1 s2)
         else (None, ?r1\<lparr>ri_FinalPreConsumedQuota := ?pre\<rparr>, s2))"
      using Some False tk us by (cases a; cases b) (simp_all add: preconsume_local_def)
    show ?thesis
      using assms(1) res t u False by (cases a; cases b) (auto simp: release_and_clear_def same_ids_def)
  qed
qed

lemma platformPreAuthorize_ledger:
  assumes "platformPreAuthorize env p ri st = (e, ri1, st1)"
  shows "same_ids ri ri1 \<and> bs_ledger st1 = bs_ledger st \<and>
    (e \<noteq> None \<longrightarrow> ri1 = ri) \<and> ri_FinalPreConsumedQuota ri1 = ri_FinalPreConsumedQuota ri"
  using assms by (auto simp: platformPreAuthorize_def same_ids_def Let_def split: if_splits prod.splits option.splits)

lemma PreConsumeQuota_effect:
  assumes "PreConsumeQuota env p ri st = (e, ri1, st1)" "0 \<le> p"
  shows "same_ids ri ri1 \<and>
    user_quota (bs_ledger st1) =
      shift (ri_UserId ri) (if e = None then ri_FinalPreConsumedQuota ri1 else 0) (user_quota (bs_ledger st)) \<and>
    (e = None \<longrightarrow> 0 \<le> ri_FinalPreConsumedQuota ri1 \<and>
       token_quota (bs_ledger st1) = shift (ri_TokenId ri)
         (if ri_IsPlayground ri then 0 else ri_FinalPreConsumedQuota ri1) (token_quota (bs_ledger st)))"
proof (cases "\<not> 0 < ri_PlatformPreAuthID ri \<and> be_unified env \<and> 0 < ri_IdentityAccountID ri \<and> 0 < p")
  case False
  then have "preconsume_local env p ri st = (e, ri1, st1)" using assms(1) by (simp only: PreConsumeQuota_def if_False)
  then show ?thesis using preconsume_local_effect [OF _ assms(2)] by blast
next
  case True
  obtain e0 r0 s0 where pp: "platformPreAuthorize env p ri st = (e0, r0, s0)" by (metis surj_pair)
  note f = platformPreAuthorize_ledger [OF pp]
  show ?thesis
  proof (cases e0)
    case None
    then have "preconsume_local env p r0 s0 = (e, ri1, st1)" using True pp assms(1) by (simp add: PreConsumeQuota_def)
    from preconsume_local_effect [OF this assms(2)] f show ?thesis by (auto simp: same_ids_def)
  next
    case (Some x)
    then show ?thesis using True pp assms(1) f by (auto simp: PreConsumeQuota_def same_ids_def)
  qed
qed

text \<open>All writes of a settlement succeed (or are batched).\<close>

definition writes_ok :: "bill_env \<Rightarrow> bool" where
  "writes_ok env \<longleftrightarrow> be_batch env \<or> be_user_ok env \<and> be_token_ok env"

lemma PostConsumeQuota_effect:
  assumes "PostConsumeQuota env q pre se ri st = (ok, ri', st')" "writes_ok env"
  shows "ok \<and> user_quota (bs_ledger st') = shift (ri_UserId ri) q (user_quota (bs_ledger st)) \<and>
    token_quota (bs_ledger st') = shift (ri_TokenId ri) (if ri_IsPlayground ri then 0 else q) (token_quota (bs_ledger st))"
  using PostConsumeQuota_ledger [OF assms(1)] post_local_outcome [of env ri q "bs_ledger st"] assms(2)
  by (auto simp: writes_ok_def)

lemma PostConsumeQuota_info:
  "PostConsumeQuota env q pre se ri st = (ok, ri', st') \<Longrightarrow>
   same_ids ri ri' \<and> ri_FinalPreConsumedQuota ri' = ri_FinalPreConsumedQuota ri"
  by (auto simp: PostConsumeQuota_def settle_platform_def same_ids_def Let_def split: prod.splits bool.splits if_splits)

lemma settle_delta_exact: "q = ri_FinalPreConsumedQuota ri \<Longrightarrow> settle_delta env q ri st = (ri, st)"
  by (simp add: settle_delta_def)

lemma settle_delta_effect:
  assumes "settle_delta env q ri st = (ri', st')" "writes_ok env"
  defines "d \<equiv> q - ri_FinalPreConsumedQuota ri"
  shows "user_quota (bs_ledger st') = shift (ri_UserId ri) d (user_quota (bs_ledger st)) \<and>
    token_quota (bs_ledger st') = shift (ri_TokenId ri) (if ri_IsPlayground ri then 0 else d) (token_quota (bs_ledger st)) \<and>
    same_ids ri ri' \<and> ri_FinalPreConsumedQuota ri' = ri_FinalPreConsumedQuota ri"
proof (cases "d = 0")
  case True
  then show ?thesis using assms(1) by (auto simp: settle_delta_def d_def same_ids_def)
next
  case False
  obtain ok where pc: "PostConsumeQuota env d (ri_FinalPreConsumedQuota ri) True ri st = (ok, ri', st')"
    using assms(1) False
    by (cases "PostConsumeQuota env d (ri_FinalPreConsumedQuota ri) True ri st") (auto simp: settle_delta_def d_def Let_def)
  from PostConsumeQuota_effect [OF pc assms(2)] PostConsumeQuota_info [OF pc] show ?thesis by blast
qed

lemma refund_effect:
  assumes "ReturnPreConsumedQuota env ri st = (ri', st')" "writes_ok env"
  defines "d \<equiv> - ri_FinalPreConsumedQuota ri"
  shows "user_quota (bs_ledger st') = shift (ri_UserId ri) d (user_quota (bs_ledger st)) \<and>
    token_quota (bs_ledger st') = shift (ri_TokenId ri) (if ri_IsPlayground ri then 0 else d) (token_quota (bs_ledger st)) \<and>
    same_ids ri ri' \<and> ri_FinalPreConsumedQuota ri' = ri_FinalPreConsumedQuota ri"
proof (cases "d = 0")
  case True
  then show ?thesis using assms(1) by (auto simp: ReturnPreConsumedQuota_def d_def same_ids_def)
next
  case False
  obtain ok a b where pc: "PostConsumeQuota env d 0 False ri st = (ok, a, b)" by (metis surj_pair)
  have "a = ri'" "bs_ledger st' = bs_ledger b"
    using assms(1) False pc by (auto simp: ReturnPreConsumedQuota_def d_def)
  with PostConsumeQuota_effect [OF pc assms(2)] PostConsumeQuota_info [OF pc] show ?thesis by simp
qed

section \<open>Properties\<close>

text \<open>
  C2. Settlement moves the user and the token together. Whatever writes fail, the quota of a user
  and of a token change by the settled amount or not at all; both change when success is reported
  (only the user for the playground); and when an error is reported the token is untouched, and
  the user is charged without the token only if the compensating write failed as well.
\<close>

theorem settlement_moves_together:
  assumes "PostConsumeQuota env q pre se ri st = (ok, ri', st')"
  shows "\<exists>um tm. user_quota (bs_ledger st') = shift (ri_UserId ri) (if um then q else 0) (user_quota (bs_ledger st)) \<and>
     token_quota (bs_ledger st') = shift (ri_TokenId ri) (if tm then q else 0) (token_quota (bs_ledger st)) \<and>
     (ok \<longrightarrow> um \<and> (tm \<longleftrightarrow> \<not> ri_IsPlayground ri)) \<and>
     (\<not> ok \<longrightarrow> \<not> tm \<and> (um \<longrightarrow> \<not> be_batch env \<and> \<not> be_token_ok env \<and> \<not> be_comp_ok env))"
  using PostConsumeQuota_ledger [OF assms] post_local_outcome [of env ri q "bs_ledger st"]
  by (intro exI [of _ "(be_batch env \<or> be_user_ok env) \<and> (ri_IsPlayground ri \<or> (be_batch env \<or> be_token_ok env) \<or> \<not> (be_batch env \<or> be_comp_ok env))"]
        exI [of _ "(be_batch env \<or> be_user_ok env) \<and> \<not> ri_IsPlayground ri \<and> (be_batch env \<or> be_token_ok env)"])
     auto

lemma demo_balances: "user_quota demo_ledger 1 = Some 1000" "token_quota demo_ledger 5 = Some 500"
  by (simp_all add: user_quota_def token_quota_def eff_user_def eff_token_def)
     (simp_all add: demo_ledger_def gm_get_def demo_user_def demo_token_def)

definition demo_bill_env :: bill_env where
  "demo_bill_env = \<lparr>be_batch = False, be_now = 1700000001, be_t0 = 0, be_t1 = 1, be_user_ok = True, be_token_ok = True,
     be_comp_ok = True, be_daily_ok = (\<lambda>_. True), be_used_ok = True, be_outbox_ok = True, be_call_ok = True,
     be_preauth = Some 77, be_unified = True, be_skip = False, be_cached_quota = None, be_cached_token = None,
     be_read_ok = True, be_token_quota = 0, be_trust = 5000000, be_remind = 0\<rparr>"

definition demo_info :: relay_info where
  "demo_info = \<lparr>ri_UserId = 1, ri_TokenId = 5, ri_TokenKey = ''k5'', ri_IsPlayground = False, ri_TokenUnlimited = False,
     ri_IdentityAccountID = 9, ri_PlatformPreAuthID = 0, ri_FinalPreConsumedQuota = 0, ri_UserQuota = 0,
     ri_WarningThreshold = 0\<rparr>"

definition demo_bill :: bill_state where
  "demo_bill = \<lparr>bs_ledger = demo_ledger, bs_breaker = billingBreaker, bs_events = []\<rparr>"

lemma demo_fields: "bs_ledger demo_bill = demo_ledger" "ri_UserId demo_info = 1" "ri_TokenId demo_info = 5"
  "\<not> ri_IsPlayground demo_info"
  by (simp_all add: demo_bill_def demo_info_def)

theorem settlement_moves_together_witness:
  "\<not> fst (PostConsumeQuota (demo_bill_env\<lparr>be_token_ok := False\<rparr>) 30 0 False demo_info demo_bill) \<and>
   token_quota (bs_ledger (snd (snd (PostConsumeQuota (demo_bill_env\<lparr>be_token_ok := False\<rparr>) 30 0 False demo_info demo_bill))))
     = token_quota demo_ledger"
proof -
  let ?env = "demo_bill_env\<lparr>be_token_ok := False\<rparr>"
  obtain ok ri' st' where p: "PostConsumeQuota ?env 30 0 False demo_info demo_bill = (ok, ri', st')" by (metis surj_pair)
  have "\<not> ok"
    using PostConsumeQuota_ledger [OF p] post_local_outcome [of ?env demo_info 30 demo_ledger]
    by (simp add: demo_bill_env_def demo_info_def demo_bill_def)
  then show ?thesis
    using settlement_moves_together [OF p] p by (auto simp: demo_bill_def)
qed

lemma demo_preconsume:
  "\<exists>ri1 st1. PreConsumeQuota demo_bill_env 100 demo_info demo_bill = (None, ri1, st1) \<and> ri_FinalPreConsumedQuota ri1 = 100"
  by (simp add: PreConsumeQuota_def demo_bill_env_def demo_info_def demo_bill_def platformPreAuthorize_def
      PreAuthorizeWithBreaker_def with_breaker_def BillingBreakerAllow_def billingBreaker_def preconsume_local_def
      GetUserQuota_def demo_ledger_def gm_get_def demo_user_def on_ledger_def PreConsumeTokenQuota_def GetTokenByKey_def
      demo_token_def DecreaseTokenQuota_def decreaseTokenQuota_def DecreaseUserQuota_def decreaseUserQuota_def Let_def)

text \<open>
  C3. A successful request is charged exactly what it cost: after pre-consumption and settlement
  with quota \<open>q\<close>, all writes of the settlement succeeding, the user has paid \<open>q\<close> and so has the
  token (unless it is the playground), whether or not the estimate was taken in advance.
\<close>

theorem request_charged_exactly:
  assumes "PreConsumeQuota env p ri st = (None, ri1, st1)" and "0 \<le> p"
    and "settle_delta env' q ri1 st1 = (ri2, st2)" and "writes_ok env'"
  shows "user_quota (bs_ledger st2) = shift (ri_UserId ri) q (user_quota (bs_ledger st)) \<and>
    token_quota (bs_ledger st2) = shift (ri_TokenId ri) (if ri_IsPlayground ri then 0 else q) (token_quota (bs_ledger st))"
  using PreConsumeQuota_effect [OF assms(1,2)] settle_delta_effect [OF assms(3,4)] by (auto simp: same_ids_def)

theorem request_charged_exactly_witness:
  "let (e, ri1, st1) = PreConsumeQuota demo_bill_env 100 demo_info demo_bill; (ri2, st2) = settle_delta demo_bill_env 40 ri1 st1
   in e = None \<and> user_quota (bs_ledger st2) 1 = Some 960 \<and> token_quota (bs_ledger st2) 5 = Some 460"
proof -
  obtain e ri1 st1 where p: "PreConsumeQuota demo_bill_env 100 demo_info demo_bill = (e, ri1, st1)" by (metis surj_pair)
  obtain ri2 st2 where s: "settle_delta demo_bill_env 40 ri1 st1 = (ri2, st2)" by fastforce
  have e: "e = None" using p demo_preconsume by auto
  have "writes_ok demo_bill_env" by (simp add: writes_ok_def demo_bill_env_def)
  from request_charged_exactly [OF p [unfolded e] _ s this] show ?thesis
    by (simp add: p e s shift_def demo_fields demo_balances)
qed

text \<open>
  What a refusal leaves on the token: nothing, unless the write for the user failed after the token's; then the
  token keeps the charge.
\<close>

lemma refusal_codes [simp]:
  "ae_errorCode (NewErrorWithStatusCode m code n [ErrOptionWithSkipRetry, ErrOptionWithNoRecordErrorLog]) = code"
  "ae_errorCode (NewError (ErrPlain m) code [ErrOptionWithSkipRetry]) = code"
  by (simp_all add: NewErrorWithStatusCode_def NewError_def apply_ops_def ErrOptionWithSkipRetry_def
      ErrOptionWithNoRecordErrorLog_def)

definition refused_token :: "bill_env \<Rightarrow> int \<Rightarrow> relay_info \<Rightarrow> new_api_error \<Rightarrow> int" where
  "refused_token env p ri e = (if ae_errorCode e = ErrorCodeUpdateDataError \<and> \<not> ri_IsPlayground ri then p else 0)"

lemma preconsume_local_refused:
  assumes "preconsume_local env p ri st = (Some e, ri1, st1)"
  shows "token_quota (bs_ledger st1) = shift (ri_TokenId ri) (refused_token env p ri e) (token_quota (bs_ledger st)) \<and>
    (ae_errorCode e = ErrorCodeUpdateDataError \<longrightarrow> \<not> be_batch env \<and> \<not> be_user_ok env)"
proof (cases "GetUserQuota env (ri_UserId ri) (bs_ledger st)")
  case None
  then show ?thesis using assms by (auto simp: preconsume_local_def refused_token_def)
next
  case (Some uq)
  let ?r1 = "ri\<lparr>ri_UserQuota := uq\<rparr>"
  let ?pre = "if be_trust env < uq \<and> (ri_TokenUnlimited ri \<or> be_trust env < be_token_quota env) then 0 else p"
  obtain a t where tk: "on_ledger (PreConsumeTokenQuota env ?r1 ?pre) st = (a, t)" by fastforce
  obtain b t2 where us: "on_ledger (DecreaseUserQuota (be_batch env) (be_user_ok env) (ri_UserId ri) ?pre) t = (b, t2)" by fastforce
  show ?thesis
  proof (cases "uq \<le> 0 \<or> uq - p < 0 \<or> ?pre \<le> 0")
    case True
    then show ?thesis
      using assms Some by (auto simp: preconsume_local_def Let_def release_and_clear_def refused_token_def split: if_splits)
  next
    case False
    then have pre: "0 < ?pre" "?pre = p" by (auto split: if_splits)
    have b: "b = (be_batch env \<or> be_user_ok env)"
      using pre on_ledger_ledger [OF us] move_result(1) [of "be_batch env" "be_user_ok env" "ri_UserId ri" ?pre "bs_ledger t"]
      by (simp add: decrease_as_move)
    have t: "token_quota (bs_ledger t) = shift (ri_TokenId ri) (if a \<and> \<not> ri_IsPlayground ri then p else 0) (token_quota (bs_ledger st))"
      using PreConsumeTokenQuota_effect [OF on_ledger_ledger [OF tk] pre(1)] pre(2) by simp
    have t2: "token_quota (bs_ledger t2) = token_quota (bs_ledger t)"
      using on_ledger_ledger [OF us] pre move_other(1) [of "be_batch env" "be_user_ok env" False "ri_UserId ri" ?pre "bs_ledger t"]
      by (simp add: decrease_as_move)
    have "preconsume_local env p ri st =
      (if \<not> a then (Some (NewErrorWithStatusCode ''token quota'' ErrorCodePreConsumeTokenQuotaFailed 402
           [ErrOptionWithSkipRetry, ErrOptionWithNoRecordErrorLog]), release_and_clear env ?r1 t)
       else if \<not> b then (Some (NewError (ErrPlain ''update'') ErrorCodeUpdateDataError [ErrOptionWithSkipRetry]),
           release_and_clear env ?r1 t2)
       else (None, ?r1\<lparr>ri_FinalPreConsumedQuota := ?pre\<rparr>, t2))"
      using Some tk us False by (cases a; cases b) (simp_all add: preconsume_local_def)
    then show ?thesis using assms b t t2 by (cases a; cases b) (auto simp: release_and_clear_def refused_token_def)
  qed
qed

lemma PreConsumeQuota_refused:
  assumes "PreConsumeQuota env p ri st = (Some e, ri1, st1)"
  shows "token_quota (bs_ledger st1) = shift (ri_TokenId ri) (refused_token env p ri e) (token_quota (bs_ledger st)) \<and>
    (ae_errorCode e = ErrorCodeUpdateDataError \<longrightarrow> \<not> be_batch env \<and> \<not> be_user_ok env)"
proof (cases "\<not> 0 < ri_PlatformPreAuthID ri \<and> be_unified env \<and> 0 < ri_IdentityAccountID ri \<and> 0 < p")
  case False
  then have "preconsume_local env p ri st = (Some e, ri1, st1)" using assms by (simp only: PreConsumeQuota_def if_False)
  then show ?thesis by (rule preconsume_local_refused)
next
  case True
  obtain e0 r0 s0 where pp: "platformPreAuthorize env p ri st = (e0, r0, s0)" by (metis surj_pair)
  note f = platformPreAuthorize_ledger [OF pp]
  show ?thesis
  proof (cases e0)
    case None
    then have "preconsume_local env p r0 s0 = (Some e, ri1, st1)" using True pp assms by (simp add: PreConsumeQuota_def)
    from preconsume_local_refused [OF this] f show ?thesis by (simp add: same_ids_def refused_token_def)
  next
    case (Some x)
    then have "x = e" "s0 = st1" using True pp assms by (simp_all add: PreConsumeQuota_def)
    moreover have "ae_errorCode x = ErrorCodeInsufficientUserQuota"
      using pp Some by (auto simp: platformPreAuthorize_def Let_def split: if_splits prod.splits option.splits)
    ultimately show ?thesis using f by (simp add: refused_token_def)
  qed
qed

text \<open>
  C4. What a failed request costs. After a successful pre-consumption the refund, its writes succeeding, restores the
  quota of the user and of the token. A pre-consumption that is refused has charged the user nothing, and
  the token nothing either, except in one case: the error is "update data error", which is given only when the write for the
  user failed; then the token stays charged with the estimate (the playground's token is not).
\<close>

theorem failed_request_refunded:
  assumes "PreConsumeQuota env p ri st = (e, ri1, st1)" and "0 \<le> p"
    and "ReturnPreConsumedQuota env' ri1 st1 = (ri2, st2)" and "writes_ok env'"
  shows "case e of
      None \<Rightarrow> user_quota (bs_ledger st2) = user_quota (bs_ledger st) \<and> token_quota (bs_ledger st2) = token_quota (bs_ledger st)
    | Some err \<Rightarrow> user_quota (bs_ledger st1) = user_quota (bs_ledger st) \<and>
        (if ae_errorCode err = ErrorCodeUpdateDataError
         then \<not> be_batch env \<and> \<not> be_user_ok env \<and>
           token_quota (bs_ledger st1) = shift (ri_TokenId ri) (if ri_IsPlayground ri then 0 else p) (token_quota (bs_ledger st))
         else token_quota (bs_ledger st1) = token_quota (bs_ledger st))"
proof (cases e)
  case None
  then show ?thesis
    using PreConsumeQuota_effect [OF assms(1,2)] refund_effect [OF assms(3,4)] by (auto simp: same_ids_def)
next
  case (Some err)
  then show ?thesis
    using PreConsumeQuota_effect [OF assms(1,2)] PreConsumeQuota_refused [OF assms(1) [unfolded Some]]
    by (auto simp: refused_token_def)
qed

theorem failed_request_refunded_witness:
  "let (e, ri1, st1) = PreConsumeQuota demo_bill_env 100 demo_info demo_bill;
       (ri2, st2) = ReturnPreConsumedQuota demo_bill_env ri1 st1
   in (e = None \<longrightarrow> user_quota (bs_ledger st2) = user_quota demo_ledger) \<and> user_quota demo_ledger 1 = Some 1000"
proof -
  obtain e ri1 st1 where p: "PreConsumeQuota demo_bill_env 100 demo_info demo_bill = (e, ri1, st1)" by (metis surj_pair)
  obtain ri2 st2 where s: "ReturnPreConsumedQuota demo_bill_env ri1 st1 = (ri2, st2)" by fastforce
  have "writes_ok demo_bill_env" by (simp add: writes_ok_def demo_bill_env_def)
  from failed_request_refunded [OF p _ s this] show ?thesis
    by (cases e) (simp_all add: p s demo_fields demo_balances)
qed

definition about :: "int \<Rightarrow> bill_event \<Rightarrow> bool" where
  "about preAuth ev = (case ev of EvSettle i q ok \<Rightarrow> i = preAuth | EvRelease i ok \<Rightarrow> i = preAuth
     | EvOutboxSettle a i q ok \<Rightarrow> i = preAuth | EvOutboxRelease a i ok \<Rightarrow> i = preAuth | _ \<Rightarrow> False)"

lemma release_handles:
  assumes "0 < ri_PlatformPreAuthID ri"
  shows "\<exists>ev evs. bs_events (releasePlatformPreAuth env ri st) = bs_events st @ ev # evs \<and> about (ri_PlatformPreAuthID ri) ev"
  using assms
  by (auto simp: releasePlatformPreAuth_def ReleaseWithBreaker_def with_breaker_def EnqueueRelease_def emit_def Let_def about_def
      split: prod.splits bool.splits)

lemma settle_platform_handles:
  assumes "0 < ri_PlatformPreAuthID ri" "0 < ri_IdentityAccountID ri" "0 < q"
  shows "ri_PlatformPreAuthID (fst (settle_platform env c q ri st)) = 0 \<and>
    (\<exists>ev evs. bs_events (snd (settle_platform env c q ri st)) = bs_events st @ ev # evs \<and> about (ri_PlatformPreAuthID ri) ev)"
proof (cases c)
  case False
  obtain ev evs where "bs_events (releasePlatformPreAuth env ri st) = bs_events st @ ev # evs" "about (ri_PlatformPreAuthID ri) ev"
    using release_handles [OF assms(1)] by blast
  then show ?thesis using assms False by (simp add: settle_platform_def emit_def Let_def)
next
  case True
  obtain ans b where w: "SettleWithBreaker (be_t0 env) (be_t1 env) (if be_call_ok env then Some () else None) (bs_breaker st) = (ans, b)"
    by fastforce
  have rej: "\<not> fst (BillingBreakerAllow (be_t0 env) (bs_breaker st)) \<Longrightarrow> ans = None"
    using w by (auto simp: SettleWithBreaker_def with_breaker_def split: prod.splits bool.splits)
  have ev: "about (ri_PlatformPreAuthID ri) (EvSettle (ri_PlatformPreAuthID ri) q ok)"
    "about (ri_PlatformPreAuthID ri) (EvOutboxSettle a (ri_PlatformPreAuthID ri) q ok)" for a ok
    by (simp_all add: about_def)
  show ?thesis
    using assms True w rej ev
    by (cases "fst (BillingBreakerAllow (be_t0 env) (bs_breaker st))"; cases ans)
       (simp_all add: settle_platform_def EnqueueSettle_def emit_def Let_def)
qed

text \<open>
  C15. When a pre-authorisation is dealt with: the settlement of a request with a frozen amount
  settles, releases or queues it exactly when the final quota is positive and differs from the
  pre-consumed one. If the estimate was exact, or the request cost nothing, the settlement does
  not touch it and nothing is sent to the platform.
\<close>

theorem preauth_settled_iff:
  assumes "0 < ri_PlatformPreAuthID ri" and "0 < ri_IdentityAccountID ri" and "be_batch env \<or> be_user_ok env"
    and "settle_delta env q ri st = (ri', st')"
  shows "(ri_PlatformPreAuthID ri' = 0 \<longleftrightarrow> q \<noteq> ri_FinalPreConsumedQuota ri \<and> 0 < q) \<and>
    (filter (about (ri_PlatformPreAuthID ri)) (bs_events st') \<noteq> filter (about (ri_PlatformPreAuthID ri)) (bs_events st)
      \<longleftrightarrow> q \<noteq> ri_FinalPreConsumedQuota ri \<and> 0 < q)"
proof (cases "q = ri_FinalPreConsumedQuota ri")
  case True
  then show ?thesis using assms by (auto simp: settle_delta_def)
next
  case False
  let ?F = "ri_FinalPreConsumedQuota ri"
  obtain a c lg where l: "post_local env ri (q - ?F) (bs_ledger st) = ((a, c), lg)" by (metis surj_pair)
  have a: a using post_local_outcome [of env ri "q - ?F" "bs_ledger st"] l assms(3) by simp
  define st2 where "st2 = (if q - ?F + ?F \<noteq> 0 then checkAndSendQuotaNotify env ri (q - ?F) ?F (st\<lparr>bs_ledger := lg\<rparr>)
      else st\<lparr>bs_ledger := lg\<rparr>)"
  have res: "(ri', st') = settle_platform env c q ri st2"
    using assms(4) False l a by (auto simp: settle_delta_def PostConsumeQuota_def st2_def Let_def split: prod.splits)
  have st2: "filter (about (ri_PlatformPreAuthID ri)) (bs_events st2) = filter (about (ri_PlatformPreAuthID ri)) (bs_events st)"
    by (auto simp: st2_def checkAndSendQuotaNotify_def emit_def Let_def about_def)
  show ?thesis
  proof (cases "0 < q")
    case True
    have "fst (settle_platform env c q ri st2) = ri'" "snd (settle_platform env c q ri st2) = st'"
      unfolding res [symmetric] by simp_all
    then obtain ev evs where "bs_events st' = bs_events st2 @ ev # evs" "about (ri_PlatformPreAuthID ri) ev"
      "ri_PlatformPreAuthID ri' = 0"
      using settle_platform_handles [OF assms(1,2) True, of env c st2] by auto
    then show ?thesis using False True st2 by simp
  next
    case q: False
    then have "ri' = ri" "st' = st2" using res by (auto simp: settle_platform_def)
    then show ?thesis using q st2 assms(1) by auto
  qed
qed

theorem preauth_settled_iff_witness:
  "ri_PlatformPreAuthID (fst (settle_delta demo_bill_env 100
      (demo_info\<lparr>ri_PlatformPreAuthID := 77, ri_FinalPreConsumedQuota := 100\<rparr>) demo_bill)) \<noteq> 0 \<and>
   ri_PlatformPreAuthID (fst (settle_delta demo_bill_env 101
      (demo_info\<lparr>ri_PlatformPreAuthID := 77, ri_FinalPreConsumedQuota := 100\<rparr>) demo_bill)) = 0"
proof -
  let ?ri = "demo_info\<lparr>ri_PlatformPreAuthID := 77, ri_FinalPreConsumedQuota := 100\<rparr>"
  have h: "0 < ri_PlatformPreAuthID ?ri" "0 < ri_IdentityAccountID ?ri" "be_batch demo_bill_env \<or> be_user_ok demo_bill_env"
    by (simp_all add: demo_info_def demo_bill_env_def)
  have f: "ri_FinalPreConsumedQuota ?ri = 100" by simp
  show ?thesis
    using preauth_settled_iff [OF h, of 100 demo_bill, OF prod.collapse [symmetric]]
      preauth_settled_iff [OF h, of 101 demo_bill, OF prod.collapse [symmetric]] f
    by simp
qed

text \<open>
  Refused requests: when pre-consumption fails, a pre-authorisation it created has been
  released and forgotten, except when the quota of the user could not be read; and the token has
  not been charged, except when charging the user failed after it.
\<close>

theorem refusal_releases:
  assumes "PreConsumeQuota env p ri st = (Some e, ri', st')" and "ri_PlatformPreAuthID ri = 0" and "0 \<le> p"
  shows "(ri_PlatformPreAuthID ri' \<noteq> 0 \<longrightarrow> be_cached_quota env = None \<and> \<not> be_read_ok env) \<and>
    (be_batch env \<or> be_user_ok env \<longrightarrow> token_quota (bs_ledger st') = token_quota (bs_ledger st))"
proof -
  have unread: "GetUserQuota env i lg = None \<longleftrightarrow> be_cached_quota env = None \<and> \<not> be_read_ok env" for i lg
    by (simp add: GetUserQuota_def split: option.split)
  have loc: "(ri_PlatformPreAuthID r1 \<noteq> 0 \<longrightarrow> be_cached_quota env = None \<and> \<not> be_read_ok env) \<and>
      (be_batch env \<or> be_user_ok env \<longrightarrow> token_quota (bs_ledger s1) = token_quota (bs_ledger s))"
    if l: "preconsume_local env p r s = (Some e, r1, s1)" for r s r1 s1
  proof (cases "GetUserQuota env (ri_UserId r) (bs_ledger s)")
    case None
    then show ?thesis using l unread by (auto simp: preconsume_local_def)
  next
    case (Some uq)
    let ?r1 = "r\<lparr>ri_UserQuota := uq\<rparr>"
    let ?pre = "if be_trust env < uq \<and> (ri_TokenUnlimited r \<or> be_trust env < be_token_quota env) then 0 else p"
    obtain a t where tk: "on_ledger (PreConsumeTokenQuota env ?r1 ?pre) s = (a, t)" by fastforce
    obtain b t2 where us: "on_ledger (DecreaseUserQuota (be_batch env) (be_user_ok env) (ri_UserId r) ?pre) t = (b, t2)" by fastforce
    have b: "b = (be_batch env \<or> be_user_ok env)" if "0 < ?pre"
      using that on_ledger_ledger [OF us] move_result(1) [of "be_batch env" "be_user_ok env" "ri_UserId r" ?pre "bs_ledger t"]
      by (simp add: decrease_as_move)
    have t: "token_quota (bs_ledger t) = token_quota (bs_ledger s)" if "\<not> a" "0 < ?pre"
      using PreConsumeTokenQuota_effect [OF on_ledger_ledger [OF tk] that(2)] that by simp
    show ?thesis
    proof (cases "uq \<le> 0 \<or> uq - p < 0 \<or> ?pre \<le> 0")
      case True
      then show ?thesis using l Some by (auto simp: preconsume_local_def Let_def release_and_clear_def split: if_splits)
    next
      case False
      then have "preconsume_local env p r s =
        (if \<not> a then (Some (NewErrorWithStatusCode ''token quota'' ErrorCodePreConsumeTokenQuotaFailed 402
             [ErrOptionWithSkipRetry, ErrOptionWithNoRecordErrorLog]), release_and_clear env ?r1 t)
         else if \<not> b then (Some (NewError (ErrPlain ''update'') ErrorCodeUpdateDataError [ErrOptionWithSkipRetry]),
             release_and_clear env ?r1 t2)
         else (None, ?r1\<lparr>ri_FinalPreConsumedQuota := ?pre\<rparr>, t2))"
        using Some tk us by (cases a; cases b) (simp_all add: preconsume_local_def)
      then show ?thesis using l b t False by (cases a; cases b) (auto simp: release_and_clear_def)
    qed
  qed
  show ?thesis
  proof (cases "\<not> 0 < ri_PlatformPreAuthID ri \<and> be_unified env \<and> 0 < ri_IdentityAccountID ri \<and> 0 < p")
    case False
    then show ?thesis using loc assms(1) by (simp only: PreConsumeQuota_def if_False)
  next
    case True
    obtain e0 r0 s0 where pp: "platformPreAuthorize env p ri st = (e0, r0, s0)" by (metis surj_pair)
    note f = platformPreAuthorize_ledger [OF pp]
    show ?thesis
    proof (cases e0)
      case None
      then have "preconsume_local env p r0 s0 = (Some e, ri', st')" using True pp assms(1) by (simp add: PreConsumeQuota_def)
      from loc [OF this] f show ?thesis by simp
    next
      case (Some x)
      then show ?thesis using True pp assms(1,2) f by (auto simp: PreConsumeQuota_def)
    qed
  qed
qed

theorem refusal_releases_witness:
  "let (e, ri1, st1) = PreConsumeQuota demo_bill_env 2000 demo_info demo_bill
   in e \<noteq> None \<and> ri_PlatformPreAuthID ri1 = 0 \<and> token_quota (bs_ledger st1) = token_quota demo_ledger"
proof -
  obtain e ri1 st1 where p: "PreConsumeQuota demo_bill_env 2000 demo_info demo_bill = (e, ri1, st1)" by (metis surj_pair)
  have e: "e \<noteq> None"
    using p by (auto simp: PreConsumeQuota_def demo_bill_env_def demo_info_def demo_bill_def platformPreAuthorize_def
        PreAuthorizeWithBreaker_def with_breaker_def BillingBreakerAllow_def billingBreaker_def preconsume_local_def
        GetUserQuota_def demo_ledger_def gm_get_def demo_user_def Let_def)
  then obtain x where x: "e = Some x" by blast
  have ok: "be_batch demo_bill_env \<or> be_user_ok demo_bill_env" "be_read_ok demo_bill_env" "ri_PlatformPreAuthID demo_info = 0"
    by (simp_all add: demo_bill_env_def demo_info_def)
  from refusal_releases [OF p [unfolded x] ok(3)] ok x show ?thesis by (simp add: p demo_fields)
qed

lemma record_usage_quota: "user_quota (bs_ledger (record_usage env ch q ri st)) = user_quota (bs_ledger st)"
  by (auto simp: record_usage_def UpdateChannelUsedQuota_def updateChannelUsedQuota_def UpdateUserUsedQuotaAndRequestCount_def
      updateUserUsedQuotaAndRequestCount_def user_quota_def eff_user_def pend_addNewRecord fun_eq_iff option.map_comp comp_def
      gm.get_modify intro!: option.map_cong0)

section \<open>Consequences\<close>

text \<open>The refund is not idempotent: called again on the request it left, it pays the estimate out once more.\<close>

lemma refund_twice:
  assumes "ReturnPreConsumedQuota env ri st = (ri1, st1)" "ReturnPreConsumedQuota env ri1 st1 = (ri2, st2)"
    "writes_ok env"
  shows "user_quota (bs_ledger st2) =
    shift (ri_UserId ri) (- 2 * ri_FinalPreConsumedQuota ri) (user_quota (bs_ledger st))"
  using refund_effect [OF assms(1,3)] refund_effect [OF assms(2,3)] by (simp add: same_ids_def)

text \<open>
  So the frozen amount of a request to a fixed-price model, whose estimate is its price, is never
  settled when the estimate was taken in advance.
\<close>

lemma fixed_price_never_settled:
  assumes "ModelPriceHelper fl pe rt gri model prompt mx 0 = Some p" "snd (rt_model_price rt model)"
    "fl (fst (rt_model_price rt model) * pe_quotaPerUnit pe) = fst (rt_model_price rt model) * pe_quotaPerUnit pe"
    "fl (fst (rt_model_price rt model) * pe_quotaPerUnit pe * gr_GroupRatio gri) = of_int n"
    "fst (rt_model_price rt model) * pe_quotaPerUnit pe * gr_GroupRatio gri = of_int n"
    "n \<noteq> 0" "int64_ok n" "tu_PromptTokens u + tu_CompletionTokens u \<noteq> 0"
    and "0 < ri_PlatformPreAuthID ri" "ri_FinalPreConsumedQuota ri = pd_QuotaToPreConsume p"
    and "postConsumeQuota env dv (pe_quotaPerUnit pe) model ct ch p est (Some u) (no_tools\<lparr>tl_Responses := True\<rparr>) ri st = (ri', st')"
  shows "ri_PlatformPreAuthID ri' \<noteq> 0"
proof -
  have "text_charge dv (pe_quotaPerUnit pe) model ct p u (no_tools\<lparr>tl_Responses := True\<rparr>) = ri_FinalPreConsumedQuota ri"
    using fixed_price_estimate [OF assms(1-8), of dv ct] assms(10) by simp
  then obtain s where "settle_delta env (ri_FinalPreConsumedQuota ri) ri s = (ri', st')"
    using assms(8,11) by (auto simp: postConsumeQuota_def settle_usage_def)
  then show ?thesis using settle_delta_exact [of "ri_FinalPreConsumedQuota ri" ri env s] assms(9) by simp
qed

end
