(* ===== verification/Realtime_Session.thy ===== *)
theory Realtime_Session
  imports Quota_Billing
begin

text \<open>
  Realtime sessions: \<^verbatim>\<open>WssHelper\<close> of \<^verbatim>\<open>internal/app/relay/websocket.go\<close>, \<^verbatim>\<open>OpenaiRealtimeHandler\<close>
  and \<^verbatim>\<open>preConsumeUsage\<close> of \<^verbatim>\<open>internal/adapter/provider/openai/relay-openai.go\<close> (the OpenAI adaptor is the
  only one with a realtime mode), and the amounts that \<^verbatim>\<open>PreWssConsumeQuota\<close> and \<^verbatim>\<open>PostWssConsumeQuota\<close>
  compute. The messages that the two readers handle are an argument, in the order in which they are
  handled: for each what the token counter answers (\<open>None\<close> is its error), whether the message could be passed on,
  and how the database behaves. What a reader still does after the session has ended is left out.
\<close>

section \<open>Usage\<close>

record realtime_usage =
  ru_TotalTokens :: int
  ru_InputTokens :: int
  ru_OutputTokens :: int
  ru_InCached :: int
  ru_InText :: int
  ru_InAudio :: int
  ru_OutText :: int
  ru_OutAudio :: int

definition no_usage :: realtime_usage where
  "no_usage = \<lparr>ru_TotalTokens = 0, ru_InputTokens = 0, ru_OutputTokens = 0, ru_InCached = 0, ru_InText = 0, ru_InAudio = 0,
     ru_OutText = 0, ru_OutAudio = 0\<rparr>"

text \<open>The sums \<^verbatim>\<open>totalUsage.X += usage.X\<close>, field by field.\<close>

definition add_usage :: "realtime_usage \<Rightarrow> realtime_usage \<Rightarrow> realtime_usage" where
  "add_usage t u = \<lparr>ru_TotalTokens = ru_TotalTokens t + ru_TotalTokens u, ru_InputTokens = ru_InputTokens t + ru_InputTokens u,
     ru_OutputTokens = ru_OutputTokens t + ru_OutputTokens u, ru_InCached = ru_InCached t + ru_InCached u,
     ru_InText = ru_InText t + ru_InText u, ru_InAudio = ru_InAudio t + ru_InAudio u,
     ru_OutText = ru_OutText t + ru_OutText u, ru_OutAudio = ru_OutAudio t + ru_OutAudio u\<rparr>"

text \<open>Tokens counted by the hub itself, for a message of the client or the upstream.\<close>

definition count_input :: "int \<times> int \<Rightarrow> realtime_usage \<Rightarrow> realtime_usage" where
  "count_input c u = u\<lparr>ru_TotalTokens := ru_TotalTokens u + (fst c + snd c), ru_InputTokens := ru_InputTokens u + (fst c + snd c),
     ru_InText := ru_InText u + fst c, ru_InAudio := ru_InAudio u + snd c\<rparr>"

definition count_output :: "int \<times> int \<Rightarrow> realtime_usage \<Rightarrow> realtime_usage" where
  "count_output c u = u\<lparr>ru_TotalTokens := ru_TotalTokens u + (fst c + snd c), ru_OutputTokens := ru_OutputTokens u + (fst c + snd c),
     ru_OutText := ru_OutText u + fst c, ru_OutAudio := ru_OutAudio u + snd c\<rparr>"

section \<open>The session\<close>

text \<open>Text and audio tokens counted; whether the message could be passed on.\<close>

datatype realtime_event =
    RtClient "(int \<times> int) option" bool        \<comment> \<open>a message of the client\<close>
  | RtDone realtime_usage bool               \<comment> \<open>\<^verbatim>\<open>response.done\<close> with a usage\<close>
  | RtDoneLocal "(int \<times> int) option" bool     \<comment> \<open>\<^verbatim>\<open>response.done\<close> without one\<close>
  | RtSession bool                           \<comment> \<open>\<^verbatim>\<open>session.created\<close>, \<^verbatim>\<open>session.updated\<close>\<close>
  | RtOther "(int \<times> int) option" bool         \<comment> \<open>any other message of the upstream\<close>
  | RtStop                                   \<comment> \<open>a connection closes or cannot be read or decoded, or the request is cancelled\<close>

record wss_env =
  wz_tables :: ratio_tables
  wz_qpu :: rat
  wz_auto :: "string option"
  wz_UserGroup :: string
  wz_UsingGroup :: string
  wz_OriginModel :: string
  wz_UpstreamModel :: string
  wz_UsePrice :: bool                        \<comment> \<open>\<^verbatim>\<open>relayInfo.UsePrice\<close>\<close>
  wz_PriceData :: PriceData
  wz_events :: "(bill_env \<times> realtime_event) list"
  wz_final :: "bill_env \<times> bill_env"
  wz_post :: bill_env

record wss_state =
  wt_usage :: realtime_usage
  wt_local :: realtime_usage
  wt_sum :: realtime_usage
  wt_info :: relay_info
  wt_bill :: bill_state
  wt_log :: "int list"                       \<comment> \<open>the amounts logged by \<^verbatim>\<open>PreWssConsumeQuota\<close>\<close>

text \<open>The amounts: during the session by the name that was asked for, at the end by the upstream's.\<close>

definition pre_wss_info :: "wss_env \<Rightarrow> realtime_usage \<Rightarrow> QuotaInfo" where
  "pre_wss_info we u = \<lparr>qi_InputText = ru_InText u, qi_InputAudio = ru_InAudio u, qi_OutputText = ru_OutText u,
     qi_OutputAudio = ru_OutAudio u, qi_ModelName = wz_OriginModel we, qi_UsePrice = wz_UsePrice we, qi_ModelPrice = 0,
     qi_ModelRatio = fst (rt_model_ratio (wz_tables we) (wz_OriginModel we)),
     qi_GroupRatio = gr_GroupRatio (fst (HandleGroupRatio (wz_tables we) (wz_auto we) (wz_UserGroup we) (wz_UsingGroup we)))\<rparr>"

definition post_wss_info :: "wss_env \<Rightarrow> realtime_usage \<Rightarrow> QuotaInfo" where
  "post_wss_info we u = \<lparr>qi_InputText = ru_InText u, qi_InputAudio = ru_InAudio u, qi_OutputText = ru_OutText u,
     qi_OutputAudio = ru_OutAudio u, qi_ModelName = wz_UpstreamModel we, qi_UsePrice = pd_UsePrice (wz_PriceData we),
     qi_ModelPrice = 0, qi_ModelRatio = pd_ModelRatio (wz_PriceData we),
     qi_GroupRatio = gr_GroupRatio (pd_GroupRatioInfo (wz_PriceData we))\<rparr>"

definition preConsumeUsage :: "wss_env \<Rightarrow> bill_env \<Rightarrow> realtime_usage \<Rightarrow> wss_state \<Rightarrow> bool \<times> wss_state" where
  "preConsumeUsage we env u z =
     (let info = pre_wss_info we u;
          (ok, ri, b) = PreWssConsumeQuota env (wz_tables we) (wz_qpu we) info (wt_info z) (wt_bill z)
      in (ok, z\<lparr>wt_sum := add_usage (wt_sum z) u, wt_info := ri, wt_bill := b,
            wt_log := (if ok \<and> \<not> wz_UsePrice we then wt_log z @ [calculateAudioQuota (wz_tables we) (wz_qpu we) info]
                       else wt_log z)\<rparr>))"

text \<open>One message; \<open>False\<close> ends the session.\<close>

fun realtime_event_step :: "wss_env \<Rightarrow> bill_env \<Rightarrow> realtime_event \<Rightarrow> wss_state \<Rightarrow> bool \<times> wss_state" where
  "realtime_event_step we env (RtClient None passed) z = (False, z)"
| "realtime_event_step we env (RtClient (Some c) passed) z = (passed, z\<lparr>wt_local := count_input c (wt_local z)\<rparr>)"
| "realtime_event_step we env (RtDone u passed) z =
     (let z1 = z\<lparr>wt_usage := add_usage (wt_usage z) u\<rparr>
      in case preConsumeUsage we env (wt_usage z1) z1 of
           (False, z2) \<Rightarrow> (False, z2)
         | (True, z2) \<Rightarrow> (passed, z2\<lparr>wt_usage := no_usage, wt_local := no_usage\<rparr>))"
| "realtime_event_step we env (RtDoneLocal None passed) z = (False, z)"
| "realtime_event_step we env (RtDoneLocal (Some c) passed) z =
     (let z1 = z\<lparr>wt_local := count_input c (wt_local z)\<rparr>
      in case preConsumeUsage we env (wt_local z1) z1 of
           (False, z2) \<Rightarrow> (False, z2)
         | (True, z2) \<Rightarrow> (passed, z2\<lparr>wt_local := no_usage\<rparr>))"
| "realtime_event_step we env (RtSession passed) z = (passed, z)"
| "realtime_event_step we env (RtOther None passed) z = (False, z)"
| "realtime_event_step we env (RtOther (Some c) passed) z = (passed, z\<lparr>wt_local := count_output c (wt_local z)\<rparr>)"
| "realtime_event_step we env RtStop z = (False, z)"

fun realtime_loop :: "wss_env \<Rightarrow> (bill_env \<times> realtime_event) list \<Rightarrow> wss_state \<Rightarrow> wss_state" where
  "realtime_loop we [] z = z"
| "realtime_loop we ((env, ev) # evs) z =
     (case realtime_event_step we env ev z of
        (True, z') \<Rightarrow> realtime_loop we evs z'
      | (False, z') \<Rightarrow> z')"

text \<open>At the end what was not billed yet is billed, without regard to errors.\<close>

definition OpenaiRealtimeHandler :: "wss_env \<Rightarrow> relay_info \<Rightarrow> bill_state \<Rightarrow> wss_state" where
  "OpenaiRealtimeHandler we ri b =
     (let z = realtime_loop we (wz_events we)
            \<lparr>wt_usage = no_usage, wt_local = no_usage, wt_sum = no_usage, wt_info = ri, wt_bill = b, wt_log = []\<rparr>;
          z1 = (if ru_TotalTokens (wt_usage z) \<noteq> 0 then snd (preConsumeUsage we (fst (wz_final we)) (wt_usage z) z) else z)
      in if ru_TotalTokens (wt_local z1) \<noteq> 0 then snd (preConsumeUsage we (snd (wz_final we)) (wt_local z1) z1) else z1)"

text \<open>
  \<^verbatim>\<open>WssHelper\<close> once the upstream is connected: the session and the final accounting. The first component
  is the log of the amounts consumed.
\<close>

definition WssHelper :: "wss_env \<Rightarrow> int \<Rightarrow> relay_info \<Rightarrow> bill_state \<Rightarrow> int list \<times> relay_info \<times> bill_state" where
  "WssHelper we channelId ri b =
     (let z = OpenaiRealtimeHandler we ri b
      in (wt_log z, wt_info z,
          PostWssConsumeQuota (wz_post we) (wz_tables we) (wz_qpu we) channelId (post_wss_info we (wt_sum z))
            (ru_TotalTokens (wt_sum z)) (wt_info z) (wt_bill z)))"

section \<open>What a session costs\<close>

definition wss_writes_ok :: "wss_env \<Rightarrow> bool" where
  "wss_writes_ok we \<longleftrightarrow> (\<forall>(env, ev) \<in> set (wz_events we). writes_ok env) \<and>
     writes_ok (fst (wz_final we)) \<and> writes_ok (snd (wz_final we))"

text \<open>
  How far a state of the session is from its beginning: the user has paid what the log says, and the
  information of the request is the same up to the pre-authorisation.
\<close>

definition wss_paid :: "relay_info \<Rightarrow> bill_state \<Rightarrow> wss_state \<Rightarrow> bool" where
  "wss_paid ri b z \<longleftrightarrow> same_ids ri (wt_info z) \<and> ri_FinalPreConsumedQuota (wt_info z) = ri_FinalPreConsumedQuota ri \<and>
     user_quota (bs_ledger (wt_bill z)) = shift (ri_UserId ri) (sum_list (wt_log z)) (user_quota (bs_ledger b))"

lemma PreWss_effect:
  assumes "PreWssConsumeQuota env rt qpu info ri st = (ok, ri', st')" "writes_ok env"
  shows "same_ids ri ri' \<and> ri_FinalPreConsumedQuota ri' = ri_FinalPreConsumedQuota ri \<and>
    user_quota (bs_ledger st') = shift (ri_UserId ri)
      (if ok \<and> \<not> qi_UsePrice info then calculateAudioQuota rt qpu info else 0) (user_quota (bs_ledger st))"
proof -
  have "ri' = ri \<and> st' = st \<and> (ok \<longrightarrow> qi_UsePrice info) \<or>
      \<not> qi_UsePrice info \<and> PostConsumeQuota env (calculateAudioQuota rt qpu info) 0 False ri st = (ok, ri', st')"
    using assms(1) by (auto simp: PreWssConsumeQuota_def Let_def split: option.splits if_splits)
  then show ?thesis
  proof (elim disjE conjE)
    assume "ri' = ri" "st' = st" "ok \<longrightarrow> qi_UsePrice info"
    then show ?thesis by (auto simp: same_ids_def)
  next
    assume "\<not> qi_UsePrice info" and p: "PostConsumeQuota env (calculateAudioQuota rt qpu info) 0 False ri st = (ok, ri', st')"
    then show ?thesis using PostConsumeQuota_effect [OF p assms(2)] PostConsumeQuota_info [OF p] by simp
  qed
qed

lemma preConsumeUsage_paid:
  assumes "wss_paid ri b z" "writes_ok env" "preConsumeUsage we env u z = (ok, z')"
  shows "wss_paid ri b z'"
proof -
  obtain ok' ri' b' where p: "PreWssConsumeQuota env (wz_tables we) (wz_qpu we) (pre_wss_info we u) (wt_info z) (wt_bill z) = (ok', ri', b')"
    by (metis surj_pair)
  show ?thesis
    using assms(1,3) PreWss_effect [OF p assms(2)] p
    by (auto simp: preConsumeUsage_def wss_paid_def same_ids_def pre_wss_info_def Let_def add.commute)
qed

lemma wss_paid_counters [simp]:
  "wss_paid ri b (z\<lparr>wt_usage := u\<rparr>) = wss_paid ri b z" "wss_paid ri b (z\<lparr>wt_local := u\<rparr>) = wss_paid ri b z"
  by (simp_all add: wss_paid_def)

lemma realtime_event_paid:
  assumes "wss_paid ri b z" "writes_ok env" "realtime_event_step we env ev z = (go, z')"
  shows "wss_paid ri b z'"
  using assms
  by (cases "(we, env, ev, z)" rule: realtime_event_step.cases)
    (auto simp: Let_def split: prod.splits bool.splits dest: preConsumeUsage_paid [rotated 2])

lemma realtime_loop_paid:
  "wss_paid ri b z \<Longrightarrow> \<forall>(env, ev) \<in> set evs. writes_ok env \<Longrightarrow> wss_paid ri b (realtime_loop we evs z)"
proof (induction evs arbitrary: z)
  case (Cons x evs)
  obtain env ev where x: "x = (env, ev)" by fastforce
  obtain go z' where s: "realtime_event_step we env ev z = (go, z')" by fastforce
  have "wss_paid ri b z'" using realtime_event_paid [OF Cons.prems(1) _ s] Cons.prems(2) x by auto
  then show ?case using Cons.IH [of z'] Cons.prems(2) x s by (cases go) auto
qed simp

lemma OpenaiRealtimeHandler_paid:
  assumes "wss_writes_ok we"
  shows "wss_paid ri b (OpenaiRealtimeHandler we ri b)"
proof -
  define z where "z = realtime_loop we (wz_events we)
      \<lparr>wt_usage = no_usage, wt_local = no_usage, wt_sum = no_usage, wt_info = ri, wt_bill = b, wt_log = []\<rparr>"
  have z: "wss_paid ri b z"
    unfolding z_def using assms by (intro realtime_loop_paid) (auto simp: wss_paid_def same_ids_def wss_writes_ok_def)
  have next_paid: "wss_paid ri b (snd (preConsumeUsage we env u z'))" if "wss_paid ri b z'" "writes_ok env" for env u z'
    using preConsumeUsage_paid [OF that] by (metis prod.collapse)
  have w: "writes_ok (fst (wz_final we))" "writes_ok (snd (wz_final we))" using assms by (simp_all add: wss_writes_ok_def)
  show ?thesis
    unfolding OpenaiRealtimeHandler_def z_def [symmetric] Let_def
    using next_paid z w by simp
qed

lemma WssHelper_effect:
  assumes "WssHelper we channelId ri b = (paid, ri', b')" "wss_writes_ok we"
  shows "same_ids ri ri' \<and> ri_FinalPreConsumedQuota ri' = ri_FinalPreConsumedQuota ri \<and>
    user_quota (bs_ledger b') = shift (ri_UserId ri) (sum_list paid) (user_quota (bs_ledger b))"
  using OpenaiRealtimeHandler_paid [OF assms(2), of ri b] assms(1)
  by (auto simp: WssHelper_def wss_paid_def PostWssConsumeQuota_def record_usage_quota Let_def split: if_splits)

lemma add_usage_zero [simp]: "add_usage no_usage u = u"
  by (simp add: add_usage_def no_usage_def)

text \<open>A turn that the session survives is paid once, by the usage of the upstream, and nothing is left to bill.\<close>

lemma turn_billed:
  assumes "realtime_event_step we env (RtDone u passed) z = (True, z')" "wt_usage z = no_usage" "\<not> wz_UsePrice we"
  shows "wt_log z' = wt_log z @ [calculateAudioQuota (wz_tables we) (wz_qpu we) (pre_wss_info we u)] \<and>
    wt_usage z' = no_usage \<and> wt_local z' = no_usage"
  using assms by (auto simp: preConsumeUsage_def Let_def split: prod.splits bool.splits)

text \<open>
  A turn whose payment fails is not forgotten: at the end of the session its usage is presented again, and what the
  hub counted itself for the same turn is presented after it.
\<close>

lemma failed_turn_kept:
  assumes "realtime_event_step we env (RtDone u True) z = (False, z')" "wt_usage z = no_usage"
  shows "wt_usage z' = u \<and> wt_local z' = wt_local z"
  using assms by (auto simp: preConsumeUsage_def Let_def split: prod.splits bool.splits)

text \<open>
  A realtime session is charged its estimate on top of its consumption: every answer is paid
  when it arrives, and the final accounting, which only updates the counters, does not give the
  pre-consumed quota back.
\<close>

theorem realtime_session_cost:
  assumes "PreConsumeQuota env p ri st = (None, ri1, st1)" and "0 \<le> p"
    and "WssHelper we channelId ri1 st1 = (paid, ri2, st2)" and "wss_writes_ok we"
  shows "user_quota (bs_ledger st2) =
    shift (ri_UserId ri) (ri_FinalPreConsumedQuota ri1 + sum_list paid) (user_quota (bs_ledger st))"
  using PreConsumeQuota_effect [OF assms(1,2)] WssHelper_effect [OF assms(3,4)]
  by (auto simp: same_ids_def add.commute)

text \<open>The balances of the user and the token are found in the cache.\<close>

definition demo_wss_bill :: bill_env where
  "demo_wss_bill = demo_bill_env\<lparr>be_cached_quota := Some 900, be_cached_token := Some demo_token\<rparr>"

definition demo_price_data :: PriceData where
  "demo_price_data = \<lparr>pd_FreeModel = False, pd_ModelPrice = -1, pd_ModelRatio = 1, pd_CompletionRatio = 1, pd_CacheRatio = 1,
     pd_CacheCreationRatio = 1, pd_CacheCreation5mRatio = 1, pd_CacheCreation1hRatio = 1, pd_ImageRatio = 1, pd_AudioRatio = 1,
     pd_AudioCompletionRatio = 1, pd_OtherRatios = [], pd_UsePrice = False, pd_QuotaToPreConsume = 100,
     pd_GroupRatioInfo = \<lparr>gr_GroupRatio = 1, gr_GroupSpecialRatio = -1, gr_HasSpecialRatio = False\<rparr>\<rparr>"

text \<open>One turn of twenty text tokens; then the client hangs up.\<close>

definition demo_turn :: realtime_usage where
  "demo_turn = no_usage\<lparr>ru_TotalTokens := 20, ru_InputTokens := 20, ru_InText := 20\<rparr>"

definition demo_wss_env :: wss_env where
  "demo_wss_env = \<lparr>wz_tables = demo_tables, wz_qpu = 500000, wz_auto = None, wz_UserGroup = ''u'', wz_UsingGroup = ''u'',
     wz_OriginModel = ''m'', wz_UpstreamModel = ''m'', wz_UsePrice = False, wz_PriceData = demo_price_data,
     wz_events = [(demo_wss_bill, RtClient (Some (3, 0)) True), (demo_wss_bill, RtDone demo_turn True), (demo_wss_bill, RtStop)],
     wz_final = (demo_wss_bill, demo_wss_bill), wz_post = demo_bill_env\<rparr>"

lemma demo_audio: "calculateAudioQuota demo_tables 500000 (pre_wss_info demo_wss_env demo_turn) = 2"
  using round_half_away_int [of 2]
  by (simp add: calculateAudioQuota_def pre_wss_info_def demo_wss_env_def demo_turn_def no_usage_def demo_tables_def
      HandleGroupRatio_def int_part_def trunc_def wrap64_def)

lemma demo_session:
  "fst (WssHelper demo_wss_env 3 ri st) = [2] \<and> wss_writes_ok demo_wss_env"
proof -
  have w: "writes_ok demo_wss_bill" by (simp add: writes_ok_def demo_wss_bill_def demo_bill_env_def)
  have "\<exists>ri' st'. PreWssConsumeQuota demo_wss_bill demo_tables 500000 (pre_wss_info demo_wss_env demo_turn) ri st = (True, ri', st')" for ri st
  proof -
    obtain ok ri' st' where pc: "PostConsumeQuota demo_wss_bill 2 0 False ri st = (ok, ri', st')" by (metis surj_pair)
    have "qi_UsePrice (pre_wss_info demo_wss_env demo_turn) = False" by (simp add: pre_wss_info_def demo_wss_env_def)
    then show ?thesis
      using pc PostConsumeQuota_effect [OF pc w]
      by (simp add: PreWssConsumeQuota_def GetUserQuota_def GetTokenByKey_def demo_wss_bill_def demo_token_def demo_audio)
  qed
  then obtain ri' st' where p: "PreWssConsumeQuota demo_wss_bill demo_tables 500000 (pre_wss_info demo_wss_env demo_turn) ri st = (True, ri', st')"
    by blast
  have we: "wz_tables demo_wss_env = demo_tables" "wz_qpu demo_wss_env = 500000" "\<not> wz_UsePrice demo_wss_env"
    "wz_events demo_wss_env = [(demo_wss_bill, RtClient (Some (3, 0)) True), (demo_wss_bill, RtDone demo_turn True), (demo_wss_bill, RtStop)]"
    "wz_final demo_wss_env = (demo_wss_bill, demo_wss_bill)"
    by (simp_all add: demo_wss_env_def)
  have "wt_log (OpenaiRealtimeHandler demo_wss_env ri st) = [2]"
    by (simp add: OpenaiRealtimeHandler_def we p preConsumeUsage_def demo_audio Let_def, simp add: no_usage_def)
  then show ?thesis using w by (simp add: WssHelper_def wss_writes_ok_def we Let_def)
qed

theorem realtime_session_cost_witness:
  "\<exists>ri1 st1 paid ri2 st2. PreConsumeQuota demo_bill_env 100 demo_info demo_bill = (None, ri1, st1) \<and>
     WssHelper demo_wss_env 3 ri1 st1 = (paid, ri2, st2) \<and> user_quota (bs_ledger st2) 1 = Some 898"
proof -
  obtain ri1 st1 where p: "PreConsumeQuota demo_bill_env 100 demo_info demo_bill = (None, ri1, st1)"
    "ri_FinalPreConsumedQuota ri1 = 100"
    using demo_preconsume by blast
  obtain ri2 st2 where s: "WssHelper demo_wss_env 3 ri1 st1 = ([2], ri2, st2)"
    using demo_session [of ri1 st1] by (metis prod.collapse)
  have "wss_writes_ok demo_wss_env" using demo_session by blast
  from realtime_session_cost [OF p(1) _ s this] show ?thesis
    using p s by (auto simp: shift_def demo_fields demo_balances)
qed

end
