(* ===== verification/Relay_Loop.thy ===== *)
theory Relay_Loop
  imports Circuit_Breaker Key_Pool Channel_Select Realtime_Session
begin

text \<open>
  One relayed request: \<^verbatim>\<open>Relay\<close> of \<^verbatim>\<open>internal/adapter/handler/relay.go\<close> with its retry loop,
  \<^verbatim>\<open>getChannel\<close>, \<^verbatim>\<open>processChannelError\<close> and the deferred refund and error response, and the part
  of \<^verbatim>\<open>SetupContextForSelectedChannel\<close> (\<^verbatim>\<open>internal/adapter/middleware/distributor.go\<close>) that the
  loop reads back. What other requests and the upstream do between the steps is an argument
  that depends on the number of the attempt: the selection inside a group, the choice of a key,
  the clock, the body and the answer of the upstream. Every helper that talks to the upstream
  first sets \<^verbatim>\<open>ChannelMeta\<close> (\<^verbatim>\<open>InitChannelMeta\<close>) and, when it succeeds, settles the quota; for the realtime
  format it is \<^verbatim>\<open>WssHelper\<close>, which pays while the session runs (theory \<open>Realtime_Session\<close>).
  Goroutines started on the way are recorded in order; metrics and logs are left out.
\<close>

section \<open>State and environment\<close>

record ctx_channel =
  cc_Id :: int
  cc_Type :: int
  cc_Name :: string
  cc_AutoBan :: bool
  cc_IsMultiKey :: bool
  cc_MultiKeyIndex :: nat
  cc_Key :: string

datatype relay_action =
    ActDisable channel_error string       \<comment> \<open>\<^verbatim>\<open>DisableChannel\<close> in a goroutine\<close>
  | ActCooldown channel_error new_api_error   \<comment> \<open>\<^verbatim>\<open>MaybeMarkCooldown\<close> in a goroutine\<close>
  | ActErrorLog int
  | ActOutcome int bool                   \<comment> \<open>\<^verbatim>\<open>hub.RecordRelayOutcome\<close>\<close>

record relay_st =
  rs_param :: RetryParam
  rs_sel :: select_ctx
  rs_meta :: bool             \<comment> \<open>\<^verbatim>\<open>info.ChannelMeta != nil\<close>\<close>
  rs_ctx :: ctx_channel
  rs_UsingGroup :: string
  rs_GroupRatio :: "GroupRatioInfo option"
  rs_breakers :: cb_registry
  rs_used :: "int list"
  rs_actions :: "relay_action list"
  rs_err :: "new_api_error option"
  rs_info :: relay_info
  rs_bill :: bill_state
  rs_attempts :: nat
  rs_paid :: "int list"       \<comment> \<open>the amounts a realtime session has logged as consumed\<close>

record relay_env =
  re_retryTimes :: int
  re_allAuto :: "string list"
  re_userAuto :: "string \<Rightarrow> string list"
  re_pick :: "nat \<Rightarrow> string \<Rightarrow> string \<Rightarrow> int \<Rightarrow> channel option res"
  re_key :: "nat \<Rightarrow> channel \<Rightarrow> new_api_error + string \<times> nat"   \<comment> \<open>\<^verbatim>\<open>GetNextEnabledKey\<close>\<close>
  re_tables :: ratio_tables
  re_UserGroup :: string
  re_allowTime :: "nat \<Rightarrow> int"
  re_failTime :: "nat \<Rightarrow> int"
  re_body :: "nat \<Rightarrow> (bool \<times> string) option"     \<comment> \<open>an error reading the body: too large, message\<close>
  re_upstream :: "nat \<Rightarrow> channel \<Rightarrow> string \<Rightarrow> new_api_error option"
  re_charge :: "nat \<Rightarrow> int"          \<comment> \<open>the final quota of a successful answer\<close>
  re_billEnv :: "nat \<Rightarrow> bill_env"
  re_realtime :: bool               \<comment> \<open>\<^verbatim>\<open>relayFormat\<close> is \<^verbatim>\<open>RelayFormatOpenAIRealtime\<close>\<close>
  re_session :: "nat \<Rightarrow> wss_env"     \<comment> \<open>the session of a successful connection\<close>
  re_specific :: bool               \<comment> \<open>\<^verbatim>\<open>specific_channel_id\<close> is set\<close>
  re_mask :: "string \<Rightarrow> string"
  re_keyword :: "string \<Rightarrow> bool"
  re_autoDisable :: bool
  re_errorLog :: bool

section \<open>Choosing a channel\<close>

definition zero_info :: channel_info where
  "zero_info = \<lparr>IsMultiKey = False, MultiKeySize = 0, MultiKeyStatusList = [], MultiKeyDisabledReason = [],
     MultiKeyDisabledTime = [], MultiKeyPollingIndex = 0, MultiKeyMode = [], MultiKeyCooldownUntil = []\<rparr>"

text \<open>The literal of \<^verbatim>\<open>getChannel\<close>: the fields it does not name have their zero values.\<close>

definition context_channel :: "ctx_channel \<Rightarrow> channel" where
  "context_channel cx = \<lparr>ch_Id = cc_Id cx, ch_TenantId = [], ch_Type = cc_Type cx, ch_Key = [],
     ch_OpenAIOrganization = None, ch_TestModel = None, ch_Status = 0, ch_Name = cc_Name cx, ch_Weight = None,
     ch_CreatedTime = 0, ch_TestTime = 0, ch_ResponseTime = 0, ch_BaseURL = None, ch_Other = [], ch_Balance = 0,
     ch_BalanceUpdatedTime = 0, ch_Models = [], ch_Group = [], ch_UsedQuota = 0, ch_ModelMapping = None,
     ch_StatusCodeMapping = None, ch_Priority = None, ch_AutoBan = Some (if cc_AutoBan cx then 1 else 0),
     ch_OtherInfo = [], ch_Tag = None, ch_Setting = None, ch_ParamOverride = None, ch_HeaderOverride = None,
     ch_Remark = None, ch_ChannelInfo = zero_info, ch_OtherSettings = [], ch_ManagedModelsBySync = [],
     ch_LastSyncFetchCount = 0, ch_Keys = []\<rparr>"

definition SetupContextForSelectedChannel ::
    "relay_env \<Rightarrow> nat \<Rightarrow> channel \<Rightarrow> ctx_channel \<Rightarrow> new_api_error option \<times> ctx_channel" where
  "SetupContextForSelectedChannel env k c cx =
     (let cx1 = cx\<lparr>cc_Id := ch_Id c, cc_Name := ch_Name c, cc_Type := ch_Type c, cc_AutoBan := GetAutoBan c\<rparr>
      in case re_key env k c of
           Inl e \<Rightarrow> (Some e, cx1)
         | Inr (key, idx) \<Rightarrow>
             (None, if IsMultiKey (ch_ChannelInfo c)
                    then cx1\<lparr>cc_IsMultiKey := True, cc_MultiKeyIndex := idx, cc_Key := key\<rparr>
                    else cx1\<lparr>cc_IsMultiKey := False, cc_Key := key\<rparr>))"

text \<open>\<open>None\<close> in the first component is a panic of the selection.\<close>

definition getChannel :: "relay_env \<Rightarrow> nat \<Rightarrow> relay_st \<Rightarrow> (new_api_error + channel) option \<times> relay_st" where
  "getChannel env k st =
     (if \<not> rs_meta st then (Some (Inr (context_channel (rs_ctx st))), st)
      else (let (r, p, sx) = CacheGetRandomSatisfiedChannel (re_pick env k) (re_retryTimes env) (re_allAuto env)
                  (re_userAuto env) (rs_param st) (rs_sel st)
            in if r = Panic then (None, st\<lparr>rs_param := p, rs_sel := sx\<rparr>)
               else (let (gri, ug) = HandleGroupRatio (re_tables env) (sx_AutoGroup sx) (re_UserGroup env) (rs_UsingGroup st);
                         st1 = st\<lparr>rs_param := p, rs_sel := sx, rs_GroupRatio := Some gri, rs_UsingGroup := ug\<rparr>
                     in case r of
                          Ok (Some c, g) \<Rightarrow>
                            (case SetupContextForSelectedChannel env k c (rs_ctx st1) of
                               (Some e, cx) \<Rightarrow> (Some (Inl e), st1\<lparr>rs_ctx := cx\<rparr>)
                             | (None, cx) \<Rightarrow> (Some (Inr c), st1\<lparr>rs_ctx := cx\<rparr>))
                        | Ok (None, g) \<Rightarrow> (Some (Inl (NewError (ErrPlain ''no channel (retry)'')
                             ErrorCodeGetChannelFailed [ErrOptionWithSkipRetry])), st1)
                        | Err m \<Rightarrow> (Some (Inl (NewError (ErrPlain m)
                             ErrorCodeGetChannelFailed [ErrOptionWithSkipRetry])), st1)
                        | Panic \<Rightarrow> (None, st1))))"

definition addUsedChannel :: "int \<Rightarrow> relay_st \<Rightarrow> relay_st" where
  "addUsedChannel i st = st\<lparr>rs_used := rs_used st @ [i]\<rparr>"

definition processChannelError :: "relay_env \<Rightarrow> channel_error \<Rightarrow> new_api_error \<Rightarrow> relay_st \<Rightarrow> relay_st" where
  "processChannelError env ce e st = st\<lparr>rs_actions := rs_actions st @
     (if ShouldDisableChannel (re_mask env) (re_keyword env) (re_autoDisable env) (cerr_ChannelType ce) (Some e)
         \<and> cerr_AutoBan ce
      then [ActDisable ce (api_Error e)] else [])
     @ [ActCooldown ce e]
     @ (if re_errorLog env \<and> IsRecordErrorLog (Some e) then [ActErrorLog (cc_Id (rs_ctx st))] else [])\<rparr>"

section \<open>The retry loop\<close>

datatype loop_end = LoopSuccess | LoopEnd | LoopPanic

text \<open>
  What a helper does with the quota once the upstream has answered: a realtime session is paid for while it runs, every
  other format is settled against its estimate at the end.
\<close>

definition helper_bill :: "relay_env \<Rightarrow> nat \<Rightarrow> int \<Rightarrow> relay_info \<Rightarrow> bill_state \<Rightarrow> int list \<times> relay_info \<times> bill_state" where
  "helper_bill env k channelId ri b =
     (if re_realtime env then WssHelper (re_session env k) channelId ri b
      else ([], settle_delta (re_billEnv env k) (re_charge env k) ri b))"

text \<open>
  One turn of the loop: \<open>None\<close> goes on to the next turn, \<open>Some e\<close> leaves the loop.
\<close>

definition relay_attempt :: "relay_env \<Rightarrow> relay_st \<Rightarrow> loop_end option \<times> relay_st" where
  "relay_attempt env st =
     (let k = rs_attempts st
      in case getChannel env k (st\<lparr>rs_attempts := Suc k\<rparr>) of
           (None, st1) \<Rightarrow> (Some LoopPanic, st1)
         | (Some (Inl e), st1) \<Rightarrow> (Some LoopEnd, st1\<lparr>rs_err := Some e\<rparr>)
         | (Some (Inr c), st1) \<Rightarrow>
             (let (allowed, br) = cb_Allow (rs_breakers st1) (re_allowTime env k) (ch_Id c);
                  st2 = st1\<lparr>rs_breakers := br\<rparr>
              in if \<not> allowed then (None, st2)
                 else (let st3 = addUsedChannel (ch_Id c) st2
                       in case re_body env k of
                            Some (large, m) \<Rightarrow> (Some LoopEnd, st3\<lparr>rs_err := Some (NewErrorWithStatusCode m
                               ErrorCodeReadRequestBodyFailed (if large then 413 else 400) [ErrOptionWithSkipRetry])\<rparr>)
                          | None \<Rightarrow>
                              (let st4 = st3\<lparr>rs_meta := True\<rparr>
                               in case re_upstream env k c (cc_Key (rs_ctx st4)) of
                                    None \<Rightarrow>
                                      (let (paid, ri, b) = helper_bill env k (ch_Id c) (rs_info st4) (rs_bill st4)
                                       in (Some LoopSuccess, st4\<lparr>rs_err := None, rs_info := ri, rs_bill := b, rs_paid := paid,
                                             rs_breakers := snd (cb_RecordSuccess (rs_breakers st4) (ch_Id c)),
                                             rs_actions := rs_actions st4 @ [ActOutcome (ch_Id c) True]\<rparr>))
                                  | Some e \<Rightarrow>
                                      (let st5 = st4\<lparr>rs_err := Some e,
                                             rs_breakers := snd (cb_RecordFailure (rs_breakers st4) (re_failTime env k) (ch_Id c)),
                                             rs_actions := rs_actions st4 @ [ActOutcome (ch_Id c) False]\<rparr>;
                                           st6 = processChannelError env (NewChannelError (ch_Id c) (ch_Type c) (ch_Name c)
                                             (IsMultiKey (ch_ChannelInfo c)) (cc_Key (rs_ctx st5)) (GetAutoBan c)) e st5
                                       in (if shouldRetry (re_specific env) (Some e) (re_retryTimes env - GetRetry (rs_param st6))
                                           then None else Some LoopEnd, st6))))))"

partial_function (option) relay_loop :: "relay_env \<Rightarrow> relay_st \<Rightarrow> (loop_end \<times> relay_st) option" where
  "relay_loop env st =
     (if GetRetry (rs_param st) \<le> re_retryTimes env
      then (case relay_attempt env st of
              (Some e, st') \<Rightarrow> Some (e, st')
            | (None, st') \<Rightarrow> relay_loop env (st'\<lparr>rs_param := IncreaseRetry (rs_param st')\<rparr>))
      else Some (LoopEnd, st))"

section \<open>The request\<close>

record relay_request =
  rq_upgrade :: "string option"           \<comment> \<open>an error of the websocket upgrade\<close>
  rq_validate :: "(bool \<times> string) option"   \<comment> \<open>an error of the request: body too large, message\<close>
  rq_genInfo :: "string option"
  rq_sensitive :: bool
  rq_tokens :: "string option"
  rq_price :: "string option"
  rq_free :: bool
  rq_estimate :: int
  rq_preEnv :: bill_env
  rq_refundEnv :: bill_env
  rq_requestId :: "string \<Rightarrow> string"       \<comment> \<open>\<^verbatim>\<open>MessageWithRequestId\<close>\<close>
  rq_now :: int

text \<open>The checks before any quota is taken, in their order.\<close>

definition prep_error :: "relay_request \<Rightarrow> new_api_error option" where
  "prep_error rq =
     (case rq_validate rq of
        Some (large, m) \<Rightarrow> Some (if large then NewErrorWithStatusCode m ErrorCodeReadRequestBodyFailed 413 [ErrOptionWithSkipRetry]
                              else NewError (ErrPlain m) ErrorCodeInvalidRequest [])
      | None \<Rightarrow> (case rq_genInfo rq of
          Some m \<Rightarrow> Some (NewError (ErrPlain m) ErrorCodeGenRelayInfoFailed [])
        | None \<Rightarrow> if rq_sensitive rq then Some (NewError ErrNil ErrorCodeSensitiveWordsDetected [])
          else (case rq_tokens rq of
            Some m \<Rightarrow> Some (NewError (ErrPlain m) ErrorCodeCountTokenFailed [])
          | None \<Rightarrow> (case rq_price rq of
              Some m \<Rightarrow> Some (NewError (ErrPlain m) ErrorCodeModelPriceError [])
            | None \<Rightarrow> None))))"

datatype relay_response =
    RespNothing                    \<comment> \<open>no error was written; the upstream answer, if there was one, stands\<close>
  | RespWsError
  | RespCooling int                \<comment> \<open>503 with \<^verbatim>\<open>Retry-After\<close>\<close>
  | RespError int new_api_error

definition deferred_response :: "relay_request \<Rightarrow> new_api_error option \<Rightarrow> relay_response" where
  "deferred_response rq err =
     (case err of None \<Rightarrow> RespNothing
      | Some e \<Rightarrow>
          (let e1 = SetMessage (rq_requestId rq (api_Error e)) e
           in if ae_errorCode e1 = ErrorCodeChannelAllKeysCooling \<and> 0 < ae_RetryAfterUnix e1
              then (let secs = ae_RetryAfterUnix e1 - rq_now rq in RespCooling (if secs < 1 then 30 else secs))
              else RespError (ae_StatusCode e1) e1))"

definition deferred_refund :: "relay_request \<Rightarrow> relay_st \<Rightarrow> relay_st" where
  "deferred_refund rq st =
     (if rs_err st \<noteq> None \<and> ri_FinalPreConsumedQuota (rs_info st) \<noteq> 0
      then (let (ri, b) = ReturnPreConsumedQuota (rq_refundEnv rq) (rs_info st) (rs_bill st)
            in st\<lparr>rs_info := ri, rs_bill := b\<rparr>)
      else st)"

text \<open>\<open>None\<close> would be a loop that does not end; it does not happen.\<close>

definition Relay :: "relay_env \<Rightarrow> relay_request \<Rightarrow> relay_st \<Rightarrow> (relay_response \<times> loop_end option \<times> relay_st) option" where
  "Relay env rq st =
     (if rq_upgrade rq \<noteq> None then Some (RespWsError, None, st)
      else case prep_error rq of
        Some e \<Rightarrow> Some (deferred_response rq (Some e), None, st\<lparr>rs_err := Some e\<rparr>)
      | None \<Rightarrow>
          (let (e, ri, b) = (if rq_free rq then (None, rs_info st, rs_bill st)
                 else PreConsumeQuota (rq_preEnv rq) (rq_estimate rq) (rs_info st) (rs_bill st));
               st1 = st\<lparr>rs_info := ri, rs_bill := b, rs_err := e\<rparr>
           in if e \<noteq> None then Some (deferred_response rq e, None, st1)
              else (case relay_loop env st1 of
                      None \<Rightarrow> None
                    | Some (end_of, st2) \<Rightarrow>
                        (let st3 = deferred_refund rq st2
                         in Some (deferred_response rq (rs_err st3), Some end_of, st3)))))"

section \<open>Termination\<close>

text \<open>
  What still lies ahead: the groups after the current one, and the retries left in it.
\<close>

definition groups_left :: "relay_env \<Rightarrow> relay_st \<Rightarrow> nat" where
  "groups_left env st = length (re_userAuto env (sx_UserGroup (rs_sel st))) -
     (case sx_AutoGroupIndex (rs_sel st) of None \<Rightarrow> 0 | Some i \<Rightarrow> i)"

definition turns_left :: "relay_env \<Rightarrow> relay_st \<Rightarrow> nat" where
  "turns_left env st = nat (re_retryTimes env + 1 - GetRetry (rs_param st)) + (if rp_resetNextTry (rs_param st) then 1 else 0)"

lemma IncreaseRetry_turns:
  "GetRetry p \<le> n \<Longrightarrow>
   nat (n + 1 - GetRetry (IncreaseRetry p)) + (if rp_resetNextTry (IncreaseRetry p) then 1 else 0)
     < nat (n + 1 - GetRetry p) + (if rp_resetNextTry p then 1 else 0)"
  by (auto simp: IncreaseRetry_def GetRetry_def split: option.splits)

lemma auto_loop_user: "auto_loop pick n start i gs p cx = (r, p', cx') \<Longrightarrow> sx_UserGroup cx' = sx_UserGroup cx"
  by (induction gs arbitrary: i p cx) (auto simp: Let_def split: res.splits option.splits if_splits)

text \<open>After a selection that found a channel, either the group and the retry counter are kept or the group index has grown.\<close>

lemma selection_progress:
  assumes "CacheGetRandomSatisfiedChannel pick n allAuto userAuto p sx = (Ok (Some c, g), p', sx')"
  shows "sx_UserGroup sx' = sx_UserGroup sx \<and>
    (let pos = \<lambda>s. case sx_AutoGroupIndex s of None \<Rightarrow> 0 | Some i \<Rightarrow> i
     in GetRetry p' = GetRetry p \<and> rp_resetNextTry p' = rp_resetNextTry p \<and> pos sx' = pos sx \<or>
        pos sx < length (userAuto (sx_UserGroup sx)) \<and> pos sx < pos sx')"
proof (cases "rp_TokenGroup p = ''auto''")
  case False
  then show ?thesis
    using assms by (auto simp: CacheGetRandomSatisfiedChannel_def Let_def split: res.splits)
next
  case True
  define start where "start = (case sx_AutoGroupIndex sx of None \<Rightarrow> 0 | Some i \<Rightarrow> i)"
  have loop: "auto_loop pick n start start (drop start (userAuto (sx_UserGroup sx))) p sx = (Ok (Some c, g), p', sx')"
    using assms True by (auto simp: CacheGetRandomSatisfiedChannel_def start_def Let_def split: if_splits)
  have start: "(case sx_AutoGroupIndex sx of None \<Rightarrow> 0 | Some i \<Rightarrow> i) = start" by (simp add: start_def)
  from auto_loop_found [OF loop order_refl] obtain k where k: "k < length (drop start (userAuto (sx_UserGroup sx)))"
    "if sx_CrossGroupRetry sx \<and> n \<le> (if start < start + k then 0 else GetRetry p)
      then sx_AutoGroupIndex sx' = Some (Suc (start + k)) \<and> GetRetry p' = 0 \<and> rp_resetNextTry p'
      else sx_AutoGroupIndex sx' = Some (start + k) \<and> rp_resetNextTry p' = rp_resetNextTry p \<and>
           GetRetry p' = (if k = 0 then GetRetry p else 0)"
    by blast
  show ?thesis
    unfolding Let_def start using k auto_loop_user [OF loop]
    by (cases "k = 0") (auto split: if_splits)
qed

lemma getChannel_progress:
  assumes "getChannel env k st = (Some (Inr c), st')"
  shows "rs_param st' = rs_param st \<and> rs_sel st' = rs_sel st \<or>
    (\<exists>g. CacheGetRandomSatisfiedChannel (re_pick env k) (re_retryTimes env) (re_allAuto env) (re_userAuto env)
       (rs_param st) (rs_sel st) = (Ok (Some c, g), rs_param st', rs_sel st'))"
proof (cases "rs_meta st")
  case False
  then show ?thesis using assms by (auto simp: getChannel_def)
next
  case True
  obtain r p sx where s: "CacheGetRandomSatisfiedChannel (re_pick env k) (re_retryTimes env) (re_allAuto env)
      (re_userAuto env) (rs_param st) (rs_sel st) = (r, p, sx)" by (metis surj_pair)
  show ?thesis
    using assms True s
    by (auto simp: getChannel_def Let_def split: prod.splits res.splits option.splits if_splits)
qed

lemma relay_attempt_continues:
  assumes "relay_attempt env st = (None, st')"
  shows "\<exists>c st1. getChannel env (rs_attempts st) (st\<lparr>rs_attempts := Suc (rs_attempts st)\<rparr>) = (Some (Inr c), st1) \<and>
    rs_param st' = rs_param st1 \<and> rs_sel st' = rs_sel st1"
  using assms unfolding relay_attempt_def
  by (auto simp: Let_def addUsedChannel_def processChannelError_def
      split: prod.splits option.splits sum.splits if_splits)

text \<open>A selection followed by an increase of the retry counter makes progress.\<close>

lemma getChannel_turn:
  assumes g: "getChannel env k st = (Some (Inr c), st1)" "rs_param st2 = IncreaseRetry (rs_param st1)" "rs_sel st2 = rs_sel st1"
    and "GetRetry (rs_param st) \<le> re_retryTimes env"
  shows "groups_left env st2 < groups_left env st \<or>
    groups_left env st2 = groups_left env st \<and> turns_left env st2 < turns_left env st"
proof -
  have keep: "turns_left env st2 < turns_left env st"
    if "GetRetry (rs_param st1) = GetRetry (rs_param st)" "rp_resetNextTry (rs_param st1) = rp_resetNextTry (rs_param st)"
    using IncreaseRetry_turns [of "rs_param st1" "re_retryTimes env"] that assms(4) g(2)
    by (simp add: turns_left_def)
  from getChannel_progress [OF g(1)] show ?thesis
  proof
    assume a: "rs_param st1 = rs_param st \<and>
        rs_sel st1 = rs_sel st"
    then have "groups_left env st2 = groups_left env st" using g by (simp add: groups_left_def )
    then show ?thesis using keep a by simp
  next
    assume "\<exists>gr. CacheGetRandomSatisfiedChannel (re_pick env k) (re_retryTimes env) (re_allAuto env) (re_userAuto env)
       (rs_param st) (rs_sel st) =
       (Ok (Some c, gr), rs_param st1, rs_sel st1)"
    then obtain gr where sel: "CacheGetRandomSatisfiedChannel (re_pick env k) (re_retryTimes env) (re_allAuto env)
       (re_userAuto env) (rs_param st) (rs_sel st) = (Ok (Some c, gr), rs_param st1, rs_sel st1)" by auto
    let ?pos = "\<lambda>s. case sx_AutoGroupIndex s of None \<Rightarrow> 0 | Some i \<Rightarrow> i"
    have user: "sx_UserGroup (rs_sel st1) = sx_UserGroup (rs_sel st)"
      and cases: "GetRetry (rs_param st1) = GetRetry (rs_param st) \<and> rp_resetNextTry (rs_param st1) = rp_resetNextTry (rs_param st)
        \<and> ?pos (rs_sel st1) = ?pos (rs_sel st) \<or>
        ?pos (rs_sel st) < length (re_userAuto env (sx_UserGroup (rs_sel st))) \<and> ?pos (rs_sel st) < ?pos (rs_sel st1)"
      using selection_progress [OF sel] by (simp_all only: Let_def)
    have gl: "groups_left env st2 = length (re_userAuto env (sx_UserGroup (rs_sel st))) - ?pos (rs_sel st1)"
      "groups_left env st = length (re_userAuto env (sx_UserGroup (rs_sel st))) - ?pos (rs_sel st)"
      using g user by (simp_all add: groups_left_def )
    from cases show ?thesis
    proof
      assume "GetRetry (rs_param st1) = GetRetry (rs_param st) \<and> rp_resetNextTry (rs_param st1) = rp_resetNextTry (rs_param st)
        \<and> ?pos (rs_sel st1) = ?pos (rs_sel st)"
      then show ?thesis using keep gl by simp
    next
      assume "?pos (rs_sel st) < length (re_userAuto env (sx_UserGroup (rs_sel st))) \<and> ?pos (rs_sel st) < ?pos (rs_sel st1)"
      then show ?thesis using gl by linarith
    qed
  qed
qed

lemma turn_decreases:
  assumes "relay_attempt env st = (None, st')" "GetRetry (rs_param st) \<le> re_retryTimes env"
  defines "st2 \<equiv> st'\<lparr>rs_param := IncreaseRetry (rs_param st')\<rparr>"
  shows "groups_left env st2 < groups_left env st \<or>
    groups_left env st2 = groups_left env st \<and> turns_left env st2 < turns_left env st"
proof -
  let ?s = "st\<lparr>rs_attempts := Suc (rs_attempts st)\<rparr>"
  obtain c st1 where g: "getChannel env (rs_attempts st) ?s = (Some (Inr c), st1)" "rs_param st' = rs_param st1" "rs_sel st' = rs_sel st1"
    using relay_attempt_continues [OF assms(1)] by blast
  from getChannel_turn [OF g(1), of st2] show ?thesis
    using g assms(2) by (simp add: st2_def groups_left_def turns_left_def)
qed

lemma relay_loop_total: "\<exists>r. relay_loop env st = Some r"
proof (induction st rule: wf_induct_rule [OF wf_measures [of "[groups_left env, turns_left env]"]])
  case (1 st)
  show ?case
  proof (cases "GetRetry (rs_param st) \<le> re_retryTimes env")
    case False
    then show ?thesis by (subst relay_loop.simps) simp
  next
    case True
    obtain r st' where a: "relay_attempt env st = (r, st')" by fastforce
    show ?thesis
    proof (cases r)
      case None
      let ?st2 = "st'\<lparr>rs_param := IncreaseRetry (rs_param st')\<rparr>"
      have "(?st2, st) \<in> measures [groups_left env, turns_left env]"
        using turn_decreases [of env st st'] a None True by auto
      then show ?thesis using 1 a None True by (subst relay_loop.simps) simp
    next
      case (Some e)
      then show ?thesis using a True by (subst relay_loop.simps) simp
    qed
  qed
qed

section \<open>Money and the loop\<close>

lemma relay_attempt_bill:
  assumes "relay_attempt env st = (r, st')"
  shows "if r = Some LoopSuccess
    then rs_err st' = None \<and> rs_attempts st' = Suc (rs_attempts st) \<and>
      (\<exists>cid. helper_bill env (rs_attempts st) cid (rs_info st) (rs_bill st) = (rs_paid st', rs_info st', rs_bill st'))
    else rs_info st' = rs_info st \<and> rs_bill st' = rs_bill st"
proof -
  have gc: "rs_info s' = rs_info s \<and> rs_bill s' = rs_bill s \<and> rs_attempts s' = rs_attempts s"
    if "getChannel env k s = (x, s')" for k s x s'
    using that by (auto simp: getChannel_def Let_def split: prod.splits res.splits option.splits if_splits)
  obtain x st1 where g: "getChannel env (rs_attempts st) (st\<lparr>rs_attempts := Suc (rs_attempts st)\<rparr>) = (x, st1)" by fastforce
  show ?thesis
    using assms g gc [OF g] unfolding relay_attempt_def
    by (auto simp: Let_def addUsedChannel_def processChannelError_def split: prod.splits option.splits sum.splits if_splits)
qed

lemma relay_loop_bill:
  assumes "relay_loop env st = Some (e, st')"
  shows "if e = LoopSuccess
    then rs_err st' = None \<and> (\<exists>k. rs_attempts st' = Suc k \<and>
      (\<exists>cid. helper_bill env k cid (rs_info st) (rs_bill st) = (rs_paid st', rs_info st', rs_bill st')))
    else rs_info st' = rs_info st \<and> rs_bill st' = rs_bill st"
  using assms
proof (induction st rule: wf_induct_rule [OF wf_measures [of "[groups_left env, turns_left env]"]])
  case (1 st)
  show ?case
  proof (cases "GetRetry (rs_param st) \<le> re_retryTimes env")
    case False
    then have "e = LoopEnd" "st' = st" using 1(2) by (simp_all add: relay_loop.simps)
    then show ?thesis by simp
  next
    case True
    obtain r s where a: "relay_attempt env st = (r, s)" by fastforce
    show ?thesis
    proof (cases r)
      case None
      let ?st2 = "s\<lparr>rs_param := IncreaseRetry (rs_param s)\<rparr>"
      have m: "(?st2, st) \<in> measures [groups_left env, turns_left env]"
        using turn_decreases [of env st s] a None True by auto
      have l: "relay_loop env ?st2 = Some (e, st')"
        using 1(2) a None True by (subst (asm) relay_loop.simps) simp
      have eq: "rs_info ?st2 = rs_info st" "rs_bill ?st2 = rs_bill st" using relay_attempt_bill [OF a] None by simp_all
      from 1(1) [OF m l] show ?thesis unfolding eq .
    next
      case (Some x)
      then have "e = x" "st' = s" using 1(2) a True by (simp_all add: relay_loop.simps)
      then show ?thesis using relay_attempt_bill [OF a] Some by auto
    qed
  qed
qed

text \<open>What the helper's accounting costs.\<close>

definition helper_writes_ok :: "relay_env \<Rightarrow> bool" where
  "helper_writes_ok env \<longleftrightarrow> (\<forall>k. if re_realtime env then wss_writes_ok (re_session env k) else writes_ok (re_billEnv env k))"

lemma helper_bill_effect:
  assumes "helper_bill env k cid ri b = (paid, ri', b')" "helper_writes_ok env"
  shows "ri_FinalPreConsumedQuota ri' = ri_FinalPreConsumedQuota ri \<and>
    user_quota (bs_ledger b') = shift (ri_UserId ri)
      (if re_realtime env then sum_list paid else re_charge env k - ri_FinalPreConsumedQuota ri) (user_quota (bs_ledger b))"
proof (cases "re_realtime env")
  case True
  then have "WssHelper (re_session env k) cid ri b = (paid, ri', b')" "wss_writes_ok (re_session env k)"
    using assms by (simp_all add: helper_bill_def helper_writes_ok_def)
  from WssHelper_effect [OF this] True show ?thesis by simp
next
  case False
  then have "settle_delta (re_billEnv env k) (re_charge env k) ri b = (ri', b')" "writes_ok (re_billEnv env k)"
    using assms by (simp_all add: helper_bill_def helper_writes_ok_def)
  from settle_delta_effect [OF this] False show ?thesis by simp
qed

lemma deferred_refund_effect:
  assumes "writes_ok (rq_refundEnv rq)"
  shows "user_quota (bs_ledger (rs_bill (deferred_refund rq st))) =
      shift (ri_UserId (rs_info st)) (if rs_err st = None then 0 else - ri_FinalPreConsumedQuota (rs_info st))
        (user_quota (bs_ledger (rs_bill st))) \<and>
    ri_FinalPreConsumedQuota (rs_info (deferred_refund rq st)) = ri_FinalPreConsumedQuota (rs_info st) \<and>
    rs_err (deferred_refund rq st) = rs_err st \<and> rs_attempts (deferred_refund rq st) = rs_attempts st"
proof (cases "rs_err st \<noteq> None \<and> ri_FinalPreConsumedQuota (rs_info st) \<noteq> 0")
  case False
  then have "deferred_refund rq st = st" by (auto simp: deferred_refund_def)
  then show ?thesis using False by auto
next
  case True
  obtain ri b where r: "ReturnPreConsumedQuota (rq_refundEnv rq) (rs_info st) (rs_bill st) = (ri, b)" by fastforce
  show ?thesis using refund_effect [OF r assms] True r by (auto simp: deferred_refund_def)
qed

text \<open>A request that reaches the loop: what it took in advance, how the loop ended, and what followed.\<close>

lemma Relay_loop_reached:
  assumes "Relay env rq st = Some (resp, Some end_of, st')"
  obtains ri b st2 where
    "(if rq_free rq then (None, rs_info st, rs_bill st)
      else PreConsumeQuota (rq_preEnv rq) (rq_estimate rq) (rs_info st) (rs_bill st)) = (None, ri, b)"
    "relay_loop env (st\<lparr>rs_info := ri, rs_bill := b, rs_err := None\<rparr>) = Some (end_of, st2)"
    "st' = deferred_refund rq st2" "resp = deferred_response rq (rs_err st')"
proof -
  obtain e ri b where pc: "(if rq_free rq then (None, rs_info st, rs_bill st)
      else PreConsumeQuota (rq_preEnv rq) (rq_estimate rq) (rs_info st) (rs_bill st)) = (e, ri, b)"
    by (metis surj_pair)
  have c: "rq_upgrade rq = None" "prep_error rq = None"
    using assms by (cases "rq_upgrade rq"; cases "prep_error rq"; simp add: Relay_def)+
  have e: "e = None" using assms c pc by (cases e) (simp_all add: Relay_def Let_def)
  obtain x st2 where l: "relay_loop env (st\<lparr>rs_info := ri, rs_bill := b, rs_err := None\<rparr>) = Some (x, st2)"
    using relay_loop_total by (metis surj_pair)
  have "x = end_of" "st' = deferred_refund rq st2" "resp = deferred_response rq (rs_err st')"
    using assms c pc e l by (auto simp: Relay_def Let_def)
  then show thesis using that pc e l by blast
qed

lemma Relay_enters_loop:
  assumes "rq_upgrade rq = None" "prep_error rq = None" "\<not> rq_free rq"
    "PreConsumeQuota (rq_preEnv rq) (rq_estimate rq) (rs_info st) (rs_bill st) = (None, ri, b)"
    "relay_loop env (st\<lparr>rs_info := ri, rs_bill := b, rs_err := None\<rparr>) = Some (e, st2)"
  shows "\<exists>resp st'. Relay env rq st = Some (resp, Some e, st')"
  using assms by (simp add: Relay_def Let_def)

lemma first_attempt_succeeds:
  assumes "\<not> rs_meta st" "GetRetry (rs_param st) \<le> re_retryTimes env"
    "fst (cb_Allow (rs_breakers st) (re_allowTime env (rs_attempts st)) (cc_Id (rs_ctx st)))"
    "re_body env (rs_attempts st) = None" "\<And>c k. re_upstream env (rs_attempts st) c k = None"
  shows "\<exists>st'. relay_loop env st = Some (LoopSuccess, st') \<and> rs_attempts st' = Suc (rs_attempts st)"
proof -
  obtain br where br: "cb_Allow (rs_breakers st) (re_allowTime env (rs_attempts st)) (cc_Id (rs_ctx st)) = (True, br)"
    using assms(3) by (cases "cb_Allow (rs_breakers st) (re_allowTime env (rs_attempts st)) (cc_Id (rs_ctx st))") simp
  have "fst (relay_attempt env st) = Some LoopSuccess"
    using assms br
    by (simp add: relay_attempt_def getChannel_def context_channel_def addUsedChannel_def Let_def split: prod.split)
  then obtain st' where a: "relay_attempt env st = (Some LoopSuccess, st')" by (metis prod.collapse)
  show ?thesis using assms(2) a relay_attempt_bill [OF a] by (simp add: relay_loop.simps)
qed

lemma no_response_iff: "deferred_response rq err = RespNothing \<longleftrightarrow> err = None"
  by (auto simp: deferred_response_def Let_def split: option.split)

section \<open>A channel whose breaker is open\<close>

lemma cb_rejected_unchanged: "\<not> fst (cb_allow now b) \<Longrightarrow> snd (cb_allow now b) = b"
  by (auto simp: cb_allow_def Let_def split: cb_state.splits if_splits)

lemma cb_rejects_again:
  "\<not> fst (cb_Allow r t c) \<Longrightarrow> cb_lookup (snd (cb_Allow r t c)) c = cb_lookup r c"
  using cb_rejected_unchanged [of t "cb_lookup r c"] by (simp add: cb_Allow_fst cb_lookup_Allow)

lemma relay_loop_first_open:
  assumes "\<not> rs_meta st"
    "\<forall>k. \<not> fst (cb_allow (re_allowTime env k) (cb_lookup (rs_breakers st) (cc_Id (rs_ctx st))))"
    "relay_loop env st = Some (e, st')"
  shows "e = LoopEnd \<and> rs_err st' = rs_err st \<and> rs_used st' = rs_used st \<and> rs_actions st' = rs_actions st \<and> \<not> rs_meta st' \<and>
    rs_info st' = rs_info st \<and> rs_bill st' = rs_bill st"
  using assms
proof (induction st rule: measure_induct_rule [of "turns_left env"])
  case (less st)
  show ?case
  proof (cases "GetRetry (rs_param st) \<le> re_retryTimes env")
    case False
    then have "e = LoopEnd" "st' = st" using less.prems(3) by (simp_all add: relay_loop.simps)
    then show ?thesis using less.prems(1) by simp
  next
    case True
    let ?k = "rs_attempts st" and ?c = "cc_Id (rs_ctx st)"
    have rej: "\<not> fst (cb_Allow (rs_breakers st) (re_allowTime env ?k) ?c)"
      using less.prems(2) by (simp add: cb_Allow_fst)
    obtain br where br: "cb_Allow (rs_breakers st) (re_allowTime env ?k) ?c = (False, br)"
      using rej by (cases "cb_Allow (rs_breakers st) (re_allowTime env ?k) ?c") simp
    have look: "cb_lookup br ?c = cb_lookup (rs_breakers st) ?c" using cb_rejects_again [OF rej] br by simp
    let ?s = "st\<lparr>rs_attempts := Suc ?k, rs_breakers := br\<rparr>"
    have a: "relay_attempt env st = (None, ?s)"
      using less.prems(1) br by (simp add: relay_attempt_def getChannel_def context_channel_def)
    let ?st2 = "?s\<lparr>rs_param := IncreaseRetry (rs_param ?s)\<rparr>"
    have "turns_left env ?st2 < turns_left env st"
      using IncreaseRetry_turns [OF True] by (simp add: turns_left_def)
    moreover have "relay_loop env ?st2 = Some (e, st')"
      using less.prems(3) a True by (subst (asm) relay_loop.simps) simp
    ultimately show ?thesis using less.IH [of ?st2] less.prems(1,2) look by simp
  qed
qed

section \<open>A sample request\<close>

definition demo_relay_env :: relay_env where
  "demo_relay_env = \<lparr>re_retryTimes = 2, re_allAuto = [], re_userAuto = (\<lambda>_. []), re_pick = (\<lambda>_ _ _ _. Ok None),
     re_key = (\<lambda>_ c. Inr (ch_Key c, 0)),
     re_tables = demo_tables, re_UserGroup = ''u'', re_allowTime = (\<lambda>_. 100), re_failTime = (\<lambda>_. 101), re_body = (\<lambda>_. None), re_upstream = (\<lambda>_ _ _. None),
     re_charge = (\<lambda>_. 40), re_billEnv = (\<lambda>_. demo_bill_env), re_realtime = False,
     re_session = (\<lambda>_. demo_wss_env), re_specific = False, re_mask = (\<lambda>s. s), re_keyword = (\<lambda>_. False),
     re_autoDisable = True, re_errorLog = False\<rparr>"

definition demo_request :: relay_request where
  "demo_request = \<lparr>rq_upgrade = None, rq_validate = None, rq_genInfo = None, rq_sensitive = False, rq_tokens = None,
     rq_price = None, rq_free = False, rq_estimate = 100, rq_preEnv = demo_bill_env, rq_refundEnv = demo_bill_env,
     rq_requestId = (\<lambda>s. s), rq_now = 100\<rparr>"

definition demo_relay_st :: "cb_registry \<Rightarrow> relay_st" where
  "demo_relay_st br = \<lparr>rs_param = \<lparr>rp_TokenGroup = ''u'', rp_ModelName = ''m'', rp_Retry = Some 0, rp_resetNextTry = False\<rparr>,
     rs_sel = \<lparr>sx_UserGroup = ''u'', sx_CrossGroupRetry = False, sx_AutoGroupIndex = None,
       sx_AutoGroupRetryIndex = None, sx_AutoGroup = None\<rparr>,
     rs_meta = False,
     rs_ctx = \<lparr>cc_Id = 3, cc_Type = 1, cc_Name = ''c'', cc_AutoBan = True, cc_IsMultiKey = False, cc_MultiKeyIndex = 0, cc_Key = ''k''\<rparr>,
     rs_UsingGroup = ''u'', rs_GroupRatio = None, rs_breakers = br, rs_used = [], rs_actions = [], rs_err = None,
     rs_info = demo_info, rs_bill = demo_bill, rs_attempts = 0, rs_paid = []\<rparr>"

lemma demo_request_checks: "rq_upgrade demo_request = None" "prep_error demo_request = None" "\<not> rq_free demo_request"
  "rq_preEnv demo_request = demo_bill_env" "rq_estimate demo_request = 100" "rq_refundEnv demo_request = demo_bill_env"
  by (simp_all add: demo_request_def prep_error_def)

text \<open>A registry in which the breaker of channel 3 has just opened.\<close>

definition demo_open :: cb_registry where
  "demo_open = \<lparr>cb_breakers = [(3, \<lparr>cb_state = StateOpen, consecutiveFails = 5, lastFailTime = 90, cb_threshold = 5,
     cb_timeout = 60\<rparr>)], cb_cfg = (cb_DefaultConfig (\<lambda>_. []))\<rparr>"

section \<open>Properties\<close>

text \<open>
  C17. Every request ends: whatever channels are selected, breakers and upstreams answer, and
  however often the automatic groups reset the retry counter, the retry loop terminates and the
  request gets its deferred refund and response.
\<close>

theorem relay_terminates: "\<exists>resp e st'. Relay env rq st = Some (resp, e, st')"
proof -
  have loop: "\<exists>e s'. relay_loop env s = Some (e, s')" for s
    using relay_loop_total [of env s] by (metis surj_pair)
  obtain e ri b where pc: "(if rq_free rq then (None, rs_info st, rs_bill st)
      else PreConsumeQuota (rq_preEnv rq) (rq_estimate rq) (rs_info st) (rs_bill st)) = (e, ri, b)"
    by (metis surj_pair)
  obtain end_of st2 where l: "relay_loop env (st\<lparr>rs_info := ri, rs_bill := b, rs_err := e\<rparr>) = Some (end_of, st2)"
    using loop by blast
  show ?thesis
  proof (cases "rq_upgrade rq")
    case None
    show ?thesis
    proof (cases "prep_error rq")
      case None
      then show ?thesis using pc l \<open>rq_upgrade rq = None\<close> by (cases e) (simp_all add: Relay_def Let_def)
    qed (simp add: Relay_def None)
  qed (simp add: Relay_def)
qed

text \<open>
  C1. What a request costs: let every write of its settlement, its realtime session and its refund succeed. A request
  that entered the retry loop has cost its user, if an attempt succeeded, exactly the final quota of that attempt's
  answer; for the realtime format instead the whole pre-consumed estimate and, on top of it, the amounts its
  session logged as consumed. If it ended with an error it has cost nothing, and if the loop ran out of turns without ever recording
  an error, the whole pre-consumed estimate. No error is written to the client exactly in the cases without a recorded error.
\<close>

theorem relay_charges:
  assumes "Relay env rq st = Some (resp, Some end_of, st')" and "0 \<le> rq_estimate rq"
    and "rq_free rq \<longrightarrow> ri_FinalPreConsumedQuota (rs_info st) = 0"
    and "helper_writes_ok env" and "writes_ok (rq_refundEnv rq)"
  shows "\<exists>q. user_quota (bs_ledger (rs_bill st')) = shift (ri_UserId (rs_info st)) q (user_quota (bs_ledger (rs_bill st))) \<and>
    (resp = RespNothing \<longleftrightarrow> rs_err st' = None) \<and>
    (if end_of = LoopSuccess
     then rs_err st' = None \<and> (\<exists>k. rs_attempts st' = Suc k \<and>
       q = (if re_realtime env then ri_FinalPreConsumedQuota (rs_info st') + sum_list (rs_paid st') else re_charge env k))
     else q = (if rs_err st' = None then ri_FinalPreConsumedQuota (rs_info st') else 0))"
proof -
  obtain ri b st2 where r: "(if rq_free rq then (None, rs_info st, rs_bill st)
      else PreConsumeQuota (rq_preEnv rq) (rq_estimate rq) (rs_info st) (rs_bill st)) = (None, ri, b)"
    "relay_loop env (st\<lparr>rs_info := ri, rs_bill := b, rs_err := None\<rparr>) = Some (end_of, st2)"
    "st' = deferred_refund rq st2" "resp = deferred_response rq (rs_err st')"
    by (rule Relay_loop_reached [OF assms(1)])
  let ?uid = "ri_UserId (rs_info st)" and ?F = "ri_FinalPreConsumedQuota ri"
  have pre: "ri_UserId ri = ?uid \<and> user_quota (bs_ledger b) = shift ?uid ?F (user_quota (bs_ledger (rs_bill st)))"
    using r(1) assms(3) PreConsumeQuota_effect [of "rq_preEnv rq" "rq_estimate rq" "rs_info st" "rs_bill st" None ri b] assms(2)
    by (auto simp: same_ids_def split: if_splits)
  note d = deferred_refund_effect [OF assms(5), of st2] and l = relay_loop_bill [OF r(2)]
  have resp: "resp = RespNothing \<longleftrightarrow> rs_err st' = None" using r(4) no_response_iff by simp
  show ?thesis
  proof (cases "end_of = LoopSuccess")
    case True
    then obtain k cid where k: "rs_err st2 = None" "rs_attempts st2 = Suc k"
      "helper_bill env k cid ri b = (rs_paid st2, rs_info st2, rs_bill st2)" using l by auto
    have st': "st' = st2" using r(3) k(1) by (simp add: deferred_refund_def)
    let ?q = "if re_realtime env then ?F + sum_list (rs_paid st2) else re_charge env k"
    from helper_bill_effect [OF k(3) assms(4)] pre
    have "user_quota (bs_ledger (rs_bill st')) = shift ?uid ?q (user_quota (bs_ledger (rs_bill st)))"
      and "ri_FinalPreConsumedQuota (rs_info st2) = ?F"
      by (simp_all add: st' add.commute)
    then show ?thesis using True k st' resp by (intro exI [of _ ?q]) simp
  next
    case False
    then have "rs_info st2 = ri" "rs_bill st2 = b" using l by simp_all
    then show ?thesis using d pre r(3) resp False
      by (intro exI [of _ "if rs_err st' = None then ri_FinalPreConsumedQuota (rs_info st') else 0"]) simp
  qed
qed

theorem relay_charges_witness:
  "\<exists>resp st'. Relay demo_relay_env demo_request (demo_relay_st (cb_NewRegistry (cb_DefaultConfig (\<lambda>_. [])))) = Some (resp, Some LoopSuccess, st') \<and>
     user_quota (bs_ledger (rs_bill st')) 1 = Some 960"
proof -
  let ?st = "demo_relay_st (cb_NewRegistry (cb_DefaultConfig (\<lambda>_. [])))"
  obtain ri b where pc: "PreConsumeQuota demo_bill_env 100 demo_info demo_bill = (None, ri, b)"
    using demo_preconsume by blast
  have st: "rs_info ?st = demo_info" "rs_bill ?st = demo_bill" by (simp_all add: demo_relay_st_def)
  have "fst (cb_Allow (cb_NewRegistry (cb_DefaultConfig (\<lambda>_. []))) 100 3)"
    by (simp add: cb_Allow_fst cb_lookup_fresh cb_allow_def cb_new_def)
  then obtain st2 where l: "relay_loop demo_relay_env (?st\<lparr>rs_info := ri, rs_bill := b, rs_err := None\<rparr>) = Some (LoopSuccess, st2)"
    using first_attempt_succeeds [of "?st\<lparr>rs_info := ri, rs_bill := b, rs_err := None\<rparr>" demo_relay_env]
    by (auto simp: demo_relay_st_def demo_relay_env_def GetRetry_def)
  obtain resp st' where R: "Relay demo_relay_env demo_request ?st = Some (resp, Some LoopSuccess, st')"
    using Relay_enters_loop [of demo_request ?st ri b, OF _ _ _ _ l] demo_request_checks pc st by auto
  have w: "writes_ok demo_bill_env" by (simp add: writes_ok_def demo_bill_env_def)
  have e: "helper_writes_ok demo_relay_env" "\<not> re_realtime demo_relay_env" "re_charge demo_relay_env k = 40" for k
    using w by (simp_all add: demo_relay_env_def helper_writes_ok_def)
  from relay_charges [OF R] w e have "user_quota (bs_ledger (rs_bill st')) = shift 1 40 (user_quota demo_ledger)"
    by (auto simp: demo_request_checks st demo_fields)
  then show ?thesis using R by (auto simp: shift_def demo_balances)
qed

text \<open>
  A request whose first channel has an open breaker fails silently: until an attempt has
  reached a helper, \<^verbatim>\<open>getChannel\<close> returns the channel chosen by the distributor again and again, so
  when its breaker rejects it at every turn no other channel is tried, the loop ends without an
  error, nothing is written to the client, and the pre-consumed quota is kept.
\<close>

theorem first_channel_open_fails_silently:
  assumes "Relay env rq st = Some (resp, Some end_of, st')" and "\<not> rs_meta st"
    and "\<forall>k. \<not> fst (cb_Allow (rs_breakers st) (re_allowTime env k) (cc_Id (rs_ctx st)))"
  shows "end_of = LoopEnd \<and> resp = RespNothing \<and> rs_err st' = None \<and> rs_used st' = rs_used st \<and>
    rs_actions st' = rs_actions st \<and>
    (rs_info st', rs_bill st') = (if rq_free rq then (rs_info st, rs_bill st)
       else snd (PreConsumeQuota (rq_preEnv rq) (rq_estimate rq) (rs_info st) (rs_bill st)))"
proof -
  obtain ri b st2 where r: "(if rq_free rq then (None, rs_info st, rs_bill st)
      else PreConsumeQuota (rq_preEnv rq) (rq_estimate rq) (rs_info st) (rs_bill st)) = (None, ri, b)"
    "relay_loop env (st\<lparr>rs_info := ri, rs_bill := b, rs_err := None\<rparr>) = Some (end_of, st2)"
    "st' = deferred_refund rq st2" "resp = deferred_response rq (rs_err st')"
    by (rule Relay_loop_reached [OF assms(1)])
  have l: "end_of = LoopEnd" "rs_err st2 = None" "rs_used st2 = rs_used st" "rs_actions st2 = rs_actions st"
    "rs_info st2 = ri" "rs_bill st2 = b"
    using relay_loop_first_open [OF _ _ r(2)] assms(2,3) by (simp_all add: cb_Allow_fst)
  have "st' = st2" using r(3) l(2) by (simp add: deferred_refund_def)
  then show ?thesis using l r(1,4) no_response_iff by (auto split: if_splits)
qed

theorem first_channel_open_witness:
  "\<exists>st'. Relay demo_relay_env demo_request (demo_relay_st demo_open) = Some (RespNothing, Some LoopEnd, st') \<and>
     ri_FinalPreConsumedQuota (rs_info st') = 100 \<and> rs_used st' = []"
proof -
  let ?st = "demo_relay_st demo_open"
  obtain ri b where pc: "PreConsumeQuota demo_bill_env 100 demo_info demo_bill = (None, ri, b)" "ri_FinalPreConsumedQuota ri = 100"
    using demo_preconsume by blast
  have st: "rs_info ?st = demo_info" "rs_bill ?st = demo_bill" "\<not> rs_meta ?st" "rs_used ?st = []"
    by (simp_all add: demo_relay_st_def)
  obtain e st2 where l: "relay_loop demo_relay_env (?st\<lparr>rs_info := ri, rs_bill := b, rs_err := None\<rparr>) = Some (e, st2)"
    using relay_loop_total by (metis surj_pair)
  obtain resp st' where R: "Relay demo_relay_env demo_request ?st = Some (resp, Some e, st')"
    using Relay_enters_loop [of demo_request ?st ri b, OF _ _ _ _ l] demo_request_checks pc st by auto
  have "\<not> fst (cb_Allow demo_open 100 3)"
    by (simp add: cb_Allow_def cb_getOrCreate_def demo_open_def gm_get_def cb_allow_def)
  then have rej: "\<forall>k. \<not> fst (cb_Allow (rs_breakers ?st) (re_allowTime demo_relay_env k) (cc_Id (rs_ctx ?st)))"
    by (simp add: demo_relay_st_def demo_relay_env_def)
  from first_channel_open_fails_silently [OF R st(3) rej] show ?thesis
    using R pc by (auto simp: demo_request_checks st)
qed

end
