(* ===== verification/Net_Addr.thy ===== *)
theory Net_Addr
  imports Go_Base "HOL-Library.Word"
begin

text \<open>
  The part of Go's package \<^verbatim>\<open>net\<close> that the access checks use: addresses, their parsing and printing,
  and networks. An address is kept in its 16-byte form, as \<^verbatim>\<open>net.ParseIP\<close> returns it; an IPv4 address
  is the mapped form \<^verbatim>\<open>::ffff:a.b.c.d\<close>, which is what \<^verbatim>\<open>To4\<close>, \<^verbatim>\<open>Equal\<close> and \<^verbatim>\<open>Contains\<close> make of both of
  its forms.
\<close>

unbundle bit_operations_syntax

section \<open>Addresses\<close>

type_synonym ip = "128 word"

definition v4 :: "32 word \<Rightarrow> ip" where
  "v4 x = push_bit 32 0xFFFF OR ucast x"

definition To4 :: "ip \<Rightarrow> 32 word option" where
  "To4 ip = (if drop_bit 32 ip = 0xFFFF then Some (ucast ip) else None)"

definition v4_of_octets :: "nat list \<Rightarrow> 32 word" where
  "v4_of_octets os = foldl (\<lambda>a b. push_bit 8 a OR of_nat b) 0 os"

text \<open>\<^verbatim>\<open>net.IPv4(a, b, c, d)\<close>.\<close>

definition IPv4 :: "nat \<Rightarrow> nat \<Rightarrow> nat \<Rightarrow> nat \<Rightarrow> ip" where
  "IPv4 a b c d = v4 (v4_of_octets [a, b, c, d])"

definition ip_of_groups :: "16 word list \<Rightarrow> ip" where
  "ip_of_groups gs = foldl (\<lambda>a g. push_bit 16 a OR ucast g) 0 gs"

definition ip_group :: "ip \<Rightarrow> nat \<Rightarrow> 16 word" where
  "ip_group ip i = ucast (drop_bit (112 - 16 * i) ip)"

section \<open>Parsing\<close>

definition parse_octet :: "string \<Rightarrow> nat option" where
  "parse_octet p =
     (if p = [] \<or> \<not> list_all is_digit p \<or> (1 < length p \<and> hd p = CHR ''0'') \<or> 255 < digits_val p
      then None else Some (nat (digits_val p)))"

definition parse_v4_fields :: "string \<Rightarrow> 32 word option" where
  "parse_v4_fields s =
     (case map parse_octet (go_split (CHR ''.'') s) of
        [Some a, Some b, Some c, Some d] \<Rightarrow> Some (v4_of_octets [a, b, c, d])
      | _ \<Rightarrow> None)"

definition hex_digit :: "char \<Rightarrow> nat option" where
  "hex_digit c =
     (let n = (of_char c :: nat)
      in if 48 \<le> n \<and> n \<le> 57 then Some (n - 48)
         else if 97 \<le> n \<and> n \<le> 102 then Some (n - 87)
         else if 65 \<le> n \<and> n \<le> 70 then Some (n - 55) else None)"

definition hex_val :: "string \<Rightarrow> nat" where
  "hex_val h = foldl (\<lambda>a c. 16 * a + (case hex_digit c of None \<Rightarrow> 0 | Some d \<Rightarrow> d)) 0 h"

text \<open>
  The loop over the groups: room for \<open>n\<close> more groups, the groups so far, the number of groups before
  \<^verbatim>\<open>::\<close> and the rest of the string.
\<close>

fun v6_loop :: "nat \<Rightarrow> 16 word list \<Rightarrow> nat option \<Rightarrow> string \<Rightarrow> (16 word list \<times> nat option \<times> string) option" where
  "v6_loop 0 gs e s = Some (gs, e, s)"
| "v6_loop (Suc n) gs e s =
     (let h = takeWhile (\<lambda>c. hex_digit c \<noteq> None) s; r = drop (length h) s; gs1 = gs @ [of_nat (hex_val h)]
      in if h = [] \<or> 4 < length h then None
         else if r \<noteq> [] \<and> hd r = CHR ''.'' then
           (if (e = None \<and> length gs \<noteq> 6) \<or> 6 < length gs then None
            else (case parse_v4_fields s of
                    None \<Rightarrow> None
                  | Some x \<Rightarrow> Some (gs @ [ucast (drop_bit 16 x), ucast x], e, [])))
         else if r = [] then Some (gs1, e, [])
         else if hd r \<noteq> CHR '':'' \<or> tl r = [] then None
         else if hd (tl r) = CHR '':'' then
           (if e \<noteq> None then None
            else if tl (tl r) = [] then Some (gs1, Some (length gs1), [])
            else v6_loop n gs1 (Some (length gs1)) (tl (tl r)))
         else v6_loop n gs1 e (tl r))"

definition parse_v6 :: "string \<Rightarrow> ip option" where
  "parse_v6 s =
     (if s = ''::'' then Some 0
      else (case (if go_has_prefix s ''::'' then v6_loop 8 [] (Some 0) (drop 2 s) else v6_loop 8 [] None s) of
              None \<Rightarrow> None
            | Some (gs, e, rest) \<Rightarrow>
                if rest \<noteq> [] then None
                else (case e of
                        None \<Rightarrow> if length gs < 8 then None else Some (ip_of_groups gs)
                      | Some k \<Rightarrow> if length gs < 8
                          then Some (ip_of_groups (take k gs @ replicate (8 - length gs) 0 @ drop k gs))
                          else None)))"

text \<open>
  \<^verbatim>\<open>netip.ParseAddr\<close> without a zone; the flag tells whether the address was written as IPv4. The first
  dot or colon decides. A zone, or a percent sign elsewhere, is an error for \<^verbatim>\<open>net.ParseIP\<close> and
  \<^verbatim>\<open>net.ParseCIDR\<close>.
\<close>

definition parse_addr :: "string \<Rightarrow> (ip \<times> bool) option" where
  "parse_addr s =
     (if CHR ''%'' \<in> set s then None
      else (case find (\<lambda>c. c = CHR ''.'' \<or> c = CHR '':'') s of
              None \<Rightarrow> None
            | Some c \<Rightarrow>
                if c = CHR ''.'' then map_option (\<lambda>x. (v4 x, True)) (parse_v4_fields s)
                else map_option (\<lambda>ip. (ip, False)) (parse_v6 s)))"

definition net_ParseIP :: "string \<Rightarrow> ip option" where
  "net_ParseIP s = map_option fst (parse_addr s)"

section \<open>Printing\<close>

definition v4_String :: "32 word \<Rightarrow> string" where
  "v4_String x = go_join (CHR ''.'') (map (\<lambda>i. nat_digits (unat (drop_bit (24 - 8 * i) x AND 255))) [0..<4])"

definition hex_char :: "nat \<Rightarrow> char" where
  "hex_char d = ''0123456789abcdef'' ! d"

fun nat_hex :: "nat \<Rightarrow> string" where
  "nat_hex n = (if n < 16 then [hex_char n] else nat_hex (n div 16) @ [hex_char (n mod 16)])"

declare nat_hex.simps [simp del]

text \<open>The first longest run of at least two zero groups is written \<^verbatim>\<open>::\<close>.\<close>

definition zero_run :: "16 word list \<Rightarrow> nat \<times> nat" where
  "zero_run gs = fold (\<lambda>i (zs, ze). let l = length (takeWhile (\<lambda>g. g = 0) (drop i gs))
                                     in if 2 \<le> l \<and> ze - zs < l then (i, i + l) else (zs, ze)) [0..<8] (255, 255)"

definition v6_String :: "16 word list \<Rightarrow> string" where
  "v6_String gs =
     (case zero_run gs of (zs, ze) \<Rightarrow>
        concat (map (\<lambda>i. if i = zs then ''::'' else if zs < i \<and> i < ze then []
                         else (if 0 < i \<and> i \<noteq> ze then '':'' else []) @ nat_hex (unat (gs ! i))) [0..<8]))"

definition ip_String :: "ip \<Rightarrow> string" where
  "ip_String ip = (case To4 ip of Some x \<Rightarrow> v4_String x | None \<Rightarrow> v6_String (map (ip_group ip) [0..<8]))"

section \<open>Networks\<close>

datatype ip_mask = Mask4 "32 word" | Mask16 ip

record ipnet =
  net_IP :: ip
  net_Mask :: ip_mask

text \<open>\<^verbatim>\<open>net.CIDRMask\<close>: \<open>n\<close> ones followed by zeros.\<close>

definition CIDRMask4 :: "nat \<Rightarrow> 32 word" where
  "CIDRMask4 n = NOT (mask (32 - n))"

definition CIDRMask16 :: "nat \<Rightarrow> ip" where
  "CIDRMask16 n = NOT (mask (128 - n))"

text \<open>A run of digits; values from \<open>0xFFFFFF\<close> on are refused.\<close>

definition net_dtoi :: "string \<Rightarrow> nat option" where
  "net_dtoi s = (if s = [] \<or> \<not> list_all is_digit s \<or> 0xFFFFFF \<le> digits_val s then None else Some (nat (digits_val s)))"

text \<open>
  \<^verbatim>\<open>net.ParseCIDR\<close>: an address and a prefix length, cut at the first slash. The network of an IPv4
  prefix has four bytes, that of any other prefix sixteen.
\<close>

definition ParseCIDR :: "string \<Rightarrow> (ip \<times> ipnet) option" where
  "ParseCIDR s =
     (let addr = takeWhile (\<lambda>c. c \<noteq> CHR ''/'') s
      in if CHR ''/'' \<notin> set s then None
         else (case (parse_addr addr, net_dtoi (drop (Suc (length addr)) s)) of
                 (Some (ip, is4), Some n) \<Rightarrow>
                   if (if is4 then 32 else 128) < n then None
                   else if is4 then Some (ip, \<lparr>net_IP = v4 (ucast ip AND CIDRMask4 n), net_Mask = Mask4 (CIDRMask4 n)\<rparr>)
                   else Some (ip, \<lparr>net_IP = ip AND CIDRMask16 n, net_Mask = Mask16 (CIDRMask16 n)\<rparr>)
               | _ \<Rightarrow> None))"

text \<open>\<^verbatim>\<open>IPNet.Contains\<close>: an IPv4 address is only in a network whose own address is one.\<close>

definition ipnet_Contains :: "ipnet \<Rightarrow> ip \<Rightarrow> bool" where
  "ipnet_Contains n ip =
     (case To4 (net_IP n) of
        Some nn \<Rightarrow> (let m = (case net_Mask n of Mask4 m \<Rightarrow> m | Mask16 m \<Rightarrow> ucast m)
                    in case To4 ip of Some x \<Rightarrow> nn AND m = x AND m | None \<Rightarrow> False)
      | None \<Rightarrow> (case net_Mask n of
                   Mask16 m \<Rightarrow> To4 ip = None \<and> net_IP n AND m = ip AND m
                 | Mask4 m \<Rightarrow> False))"

definition IsLoopback :: "ip \<Rightarrow> bool" where
  "IsLoopback ip = (case To4 ip of Some x \<Rightarrow> drop_bit 24 x = 127 | None \<Rightarrow> ip = 1)"

definition IsLinkLocalUnicast :: "ip \<Rightarrow> bool" where
  "IsLinkLocalUnicast ip =
     (case To4 ip of Some x \<Rightarrow> drop_bit 24 x = 169 \<and> drop_bit 16 x AND 255 = 254
      | None \<Rightarrow> drop_bit 120 ip = 0xFE \<and> drop_bit 112 ip AND 0xC0 = 0x80)"

definition IsLinkLocalMulticast :: "ip \<Rightarrow> bool" where
  "IsLinkLocalMulticast ip =
     (case To4 ip of Some x \<Rightarrow> drop_bit 24 x = 224 \<and> drop_bit 16 x AND 255 = 0 \<and> drop_bit 8 x AND 255 = 0
      | None \<Rightarrow> drop_bit 120 ip = 0xFF \<and> drop_bit 112 ip AND 0x0F = 0x02)"

section \<open>Lemmas\<close>

lemma v4_mask: "v4 x = push_bit 32 (mask 16) OR ucast x"
  by (simp add: v4_def mask_eq_exp_minus_1)

lemma bit_v4: "bit (v4 x) n \<longleftrightarrow> (if n < 32 then bit x n else n < 48)"
  unfolding v4_mask bit_or_iff bit_push_bit_iff bit_mask_iff bit_ucast_iff
  by (auto dest: bit_imp_le_length)

lemma To4_v4 [simp]: "To4 (v4 x) = Some x"
proof -
  have "drop_bit 32 (v4 x) = (mask 16 :: ip)"
    by (rule bit_word_eqI) (simp only: bit_drop_bit_eq bit_v4 bit_mask_iff possible_bit_word o_def, auto)
  moreover have "ucast (v4 x) = x"
    by (rule bit_word_eqI) (simp add: bit_v4 bit_ucast_iff)
  ultimately show ?thesis by (simp add: To4_def mask_eq_exp_minus_1)
qed

lemma To4_Some: "To4 ip = Some x \<longleftrightarrow> ip = v4 x"
proof
  assume a: "To4 ip = Some x"
  then have d: "drop_bit 32 ip = 0xFFFF" and x: "x = ucast ip" by (auto simp: To4_def split: if_splits)
  show "ip = v4 x"
  proof (rule bit_word_eqI)
    fix n assume n: "n < LENGTH(128)"
    show "bit ip n \<longleftrightarrow> bit (v4 x) n"
    proof (cases "n < 32")
      case True
      then show ?thesis by (simp add: bit_v4 x bit_ucast_iff)
    next
      case False
      then have "bit ip n \<longleftrightarrow> bit (drop_bit 32 ip) (n - 32)" by (simp add: bit_drop_bit_eq)
      also have "\<dots> \<longleftrightarrow> bit (drop_bit 32 (v4 x)) (n - 32)" using To4_v4 [of x] d by (simp add: To4_def split: if_splits)
      finally show ?thesis using False by (simp add: bit_drop_bit_eq)
    qed
  qed
qed simp

lemma v4_inj [simp]: "v4 x = v4 y \<longleftrightarrow> x = y"
  by (metis To4_v4 option.inject)

lemma and_high_mask: "x AND NOT (mask k) = y AND NOT (mask k) \<longleftrightarrow> drop_bit k x = drop_bit k y"
  for x y :: "'a::len word"
proof
  assume a: "x AND NOT (mask k) = y AND NOT (mask k)"
  show "drop_bit k x = drop_bit k y"
  proof (rule bit_word_eqI)
    fix n assume "n < LENGTH('a)"
    have "bit (x AND NOT (mask k)) (k + n) = bit (y AND NOT (mask k)) (k + n)" using a by simp
    then show "bit (drop_bit k x) n = bit (drop_bit k y) n"
      by (auto simp: bit_drop_bit_eq bit_and_iff bit_not_iff bit_mask_iff add.commute dest: bit_imp_le_length)
  qed
next
  assume a: "drop_bit k x = drop_bit k y"
  show "x AND NOT (mask k) = y AND NOT (mask k)"
  proof (rule bit_word_eqI)
    fix n assume "n < LENGTH('a)"
    have "bit (drop_bit k x) (n - k) = bit (drop_bit k y) (n - k)" using a by simp
    then show "bit (x AND NOT (mask k)) n = bit (y AND NOT (mask k)) n"
      by (auto simp: bit_drop_bit_eq bit_and_iff bit_not_iff bit_mask_iff)
  qed
qed

text \<open>An IPv4 network contains exactly the IPv4 addresses with its prefix.\<close>

lemma Contains_v4:
  assumes "n \<le> 32"
  shows "ipnet_Contains \<lparr>net_IP = v4 (a AND CIDRMask4 n), net_Mask = Mask4 (CIDRMask4 n)\<rparr> ip \<longleftrightarrow>
    (\<exists>x. ip = v4 x \<and> drop_bit (32 - n) x = drop_bit (32 - n) a)"
proof -
  have "a AND CIDRMask4 n = x AND CIDRMask4 n \<longleftrightarrow> drop_bit (32 - n) x = drop_bit (32 - n) a" for x
    unfolding CIDRMask4_def by (auto simp: and_high_mask)
  then show ?thesis
    by (cases "To4 ip") (auto simp: ipnet_Contains_def and.assoc To4_Some)
qed

text \<open>What is printed for an IPv4 address parses to it.\<close>

lemma nat_digits_hd: "10 \<le> n \<Longrightarrow> hd (nat_digits n) \<noteq> CHR ''0''"
proof (induction n rule: nat_digits.induct)
  case (1 n)
  have e: "hd (nat_digits n) = hd (nat_digits (n div 10))"
    using 1(2) by (subst nat_digits.simps) simp
  show ?case
  proof (cases "n < 100")
    case True
    then have d: "n div 10 < 10" "0 < n div 10" using 1(2) by auto
    then have "nat_digits (n div 10) = [char_of (n div 10 + 48)]" by (subst nat_digits.simps) simp
    moreover have "char_of (n div 10 + 48) \<noteq> CHR ''0''"
    proof
      assume "char_of (n div 10 + 48) = CHR ''0''"
      then have "(of_char (char_of (n div 10 + 48 :: nat) :: char) :: nat) = of_char (CHR ''0'')" by simp
      then show False using d by (simp only: of_char_digit) simp
    qed
    ultimately show ?thesis using e by simp
  next
    case False
    then show ?thesis using 1 e by simp
  qed
qed

lemma nat_digits_short: "n < 10 \<Longrightarrow> length (nat_digits n) = 1"
  by (subst nat_digits.simps) simp

lemma parse_octet_digits: "n \<le> 255 \<Longrightarrow> parse_octet (nat_digits n) = Some n"
  using nat_digits_hd [of n] nat_digits_short [of n]
  by (cases "n < 10") (auto simp: parse_octet_def nat_digits_all digits_val_nat_digits)

lemma nat_digits_set: "c \<in> set (nat_digits n) \<Longrightarrow> is_digit c"
  using nat_digits_all [of n] by (auto simp: list_all_iff)

lemma v4_octets: "v4_of_octets (map (\<lambda>i. unat (drop_bit (24 - 8 * i) x AND 255)) [0..<4]) = x"
proof -
  have m: "(255 :: 32 word) = mask 8" by (simp add: mask_eq_exp_minus_1)
  have u: "[0..<4] = [0, 1, 2, 3 :: nat]" by (simp add: upt_rec)
  show ?thesis
    unfolding v4_of_octets_def m u
  proof (rule bit_word_eqI)
    fix n assume n: "n < LENGTH(32)"
    then consider "n < 8" | j where "n = 8 + j" "j < 8" | j where "n = 16 + j" "j < 8" | j where "n = 24 + j" "j < 8"
      using le_Suc_ex [of 8 n] le_Suc_ex [of 16 n] le_Suc_ex [of 24 n] by fastforce
    then show "bit (foldl (\<lambda>a b. push_bit 8 a OR of_nat b) (0 :: 32 word)
        (map (\<lambda>i. unat (drop_bit (24 - 8 * i) x AND mask 8)) [0, 1, 2, 3])) n = bit x n"
      by cases (simp_all del: push_bit_numeral add: bit_or_iff bit_push_bit_iff bit_and_iff bit_mask_iff bit_drop_bit_eq)
  qed
qed

lemma v4_String_parts:
  "v4_String x = go_join (CHR ''.'') (map nat_digits (map (\<lambda>i. unat (drop_bit (24 - 8 * i) x AND 255)) [0..<4]))"
  by (simp add: v4_String_def o_def)

lemma octet_le: "unat (w AND 255 :: 32 word) \<le> 255"
proof -
  have "w AND 255 \<le> (255 :: 32 word)" by (rule word_and_le1)
  then show ?thesis by (simp add: word_le_nat_alt)
qed

lemma parse_v4_String: "parse_v4_fields (v4_String x) = Some x"
proof -
  let ?o = "\<lambda>i. unat (drop_bit (24 - 8 * i) x AND 255)"
  have "go_split (CHR ''.'') (v4_String x) = map nat_digits (map ?o [0..<4])"
    unfolding v4_String_parts by (rule go_split_join) (auto dest: nat_digits_set simp: is_digit_def)
  then have "map parse_octet (go_split (CHR ''.'') (v4_String x)) = map (\<lambda>i. Some (?o i)) [0..<4]"
    by (simp add: parse_octet_digits octet_le)
  then show ?thesis
    using v4_octets [of x] by (simp add: parse_v4_fields_def upt_rec)
qed

lemma go_join_set: "set (go_join c ps) \<subseteq> insert c (\<Union> (set ` set ps))"
  by (induction c ps rule: go_join.induct) auto

lemma v4_String_chars:
  assumes "c \<in> set (v4_String x)"
  shows "is_digit c \<or> c = CHR ''.''"
proof -
  define os where "os = map (\<lambda>i. unat (drop_bit (24 - 8 * i) x AND 255)) [0..<4]"
  have "c \<in> insert (CHR ''.'') (\<Union> (set ` set (map nat_digits os)))"
    by (rule subsetD [OF go_join_set assms [unfolded v4_String_parts, folded os_def]])
  then show ?thesis by (auto dest: nat_digits_set)
qed

lemma v4_String_dot: "CHR ''.'' \<in> set (v4_String x)"
  by (simp add: v4_String_def upt_rec)

lemma find_only:
  assumes "\<forall>c \<in> set s. P c \<longrightarrow> c = a" "P a" "a \<in> set s"
  shows "find P s = Some a"
proof (cases "find P s")
  case None
  then show ?thesis using assms(2,3) by (simp add: find_None_iff)
next
  case (Some c)
  then have "c \<in> set s \<and> P c" by (auto simp: find_Some_iff)
  then show ?thesis using Some assms(1) by auto
qed

lemma parse_addr_v4_String: "parse_addr (v4_String x) = Some (v4 x, True)"
proof -
  have "find (\<lambda>c. c = CHR ''.'' \<or> c = CHR '':'') (v4_String x) = Some (CHR ''.'')"
    by (rule find_only) (auto simp: v4_String_dot dest!: v4_String_chars simp: is_digit_def)
  moreover have "CHR ''%'' \<notin> set (v4_String x)" by (auto dest!: v4_String_chars simp: is_digit_def)
  ultimately show ?thesis by (simp add: parse_addr_def parse_v4_String)
qed

lemma takeWhile_stop: "c \<notin> set p \<Longrightarrow> takeWhile (\<lambda>x. x \<noteq> c) (p @ c # s) = p"
  by (induction p) auto

lemma net_dtoi_digits: "n < 0xFFFFFF \<Longrightarrow> net_dtoi (nat_digits n) = Some n"
  by (simp add: net_dtoi_def nat_digits_all digits_val_nat_digits)

lemma ucast_v4 [simp]: "ucast (v4 x) = x"
  using To4_v4 [of x] by (simp add: To4_def split: if_splits)

lemma ParseCIDR_v4:
  assumes "n \<le> 32"
  shows "ParseCIDR (v4_String a @ CHR ''/'' # nat_digits n) =
    Some (v4 a, \<lparr>net_IP = v4 (a AND CIDRMask4 n), net_Mask = Mask4 (CIDRMask4 n)\<rparr>)"
proof -
  have t: "takeWhile (\<lambda>c. c \<noteq> CHR ''/'') (v4_String a @ CHR ''/'' # nat_digits n) = v4_String a"
    by (rule takeWhile_stop) (auto dest!: v4_String_chars simp: is_digit_def)
  show ?thesis
    using assms by (simp add: ParseCIDR_def t Let_def parse_addr_v4_String net_dtoi_digits)
qed

end
