(* ===== verification/Net_Guard.thy ===== *)
theory Net_Guard
  imports Net_Addr
begin

text \<open>
  The network guards: IP lists of tokens (\<^verbatim>\<open>internal/pkg/common/ip.go\<close>) and the protection of outgoing
  requests (\<^verbatim>\<open>ssrf_protection.go\<close>). \<^verbatim>\<open>url.Parse\<close> and the resolver \<^verbatim>\<open>net.LookupIP\<close> are arguments; an error
  is a value without its text.
\<close>

section \<open>IP lists\<close>

definition IsIP :: "string \<Rightarrow> bool" where
  "IsIP s \<longleftrightarrow> net_ParseIP s \<noteq> None"

definition ParseIP :: "string \<Rightarrow> ip option" where
  "ParseIP s = net_ParseIP s"

definition private_v4 :: "(ip \<times> nat) list \<Rightarrow> ipnet list" where
  "private_v4 = map (\<lambda>(ip, n). \<lparr>net_IP = ip, net_Mask = Mask4 (CIDRMask4 n)\<rparr>)"

definition IsPrivateIP :: "ip \<Rightarrow> bool" where
  "IsPrivateIP ip \<longleftrightarrow>
     (IsLoopback ip \<or> IsLinkLocalUnicast ip \<or> IsLinkLocalMulticast ip) \<or>
     list_ex (\<lambda>n. ipnet_Contains n ip) (private_v4 [(IPv4 10 0 0 0, 8), (IPv4 172 16 0 0, 12), (IPv4 192 168 0 0, 16)])"

fun IsIpInCIDRList :: "ip \<Rightarrow> string list \<Rightarrow> bool" where
  "IsIpInCIDRList ip [] = False"
| "IsIpInCIDRList ip (cidr # cidrList) =
     (case ParseCIDR cidr of
        None \<Rightarrow> (case net_ParseIP cidr of
                   Some whitelistIP \<Rightarrow> if ip = whitelistIP then True else IsIpInCIDRList ip cidrList
                 | None \<Rightarrow> IsIpInCIDRList ip cidrList)
      | Some (_, network) \<Rightarrow> if ipnet_Contains network ip then True else IsIpInCIDRList ip cidrList)"

section \<open>Protection of outgoing requests\<close>

record SSRFProtection =
  sp_AllowPrivateIp :: bool
  sp_DomainFilterMode :: bool
  sp_DomainList :: "string list"
  sp_IpFilterMode :: bool
  sp_IpList :: "string list"
  sp_AllowedPorts :: "int list"
  sp_ApplyIPFilterForDomain :: bool

definition isPrivateIP :: "ip \<Rightarrow> bool" where
  "isPrivateIP ip \<longleftrightarrow>
     (IsLoopback ip \<or> IsLinkLocalUnicast ip \<or> IsLinkLocalMulticast ip) \<or>
     list_ex (\<lambda>n. ipnet_Contains n ip) (private_v4
       [(IPv4 10 0 0 0, 8), (IPv4 172 16 0 0, 12), (IPv4 192 168 0 0, 16), (IPv4 127 0 0 0, 8),
        (IPv4 169 254 0 0, 16), (IPv4 224 0 0 0, 4), (IPv4 240 0 0 0, 4)]) \<or>
     (To4 ip = None \<and> (ip = 1 \<or> go_has_prefix (ip_String ip) ''fe80:'' \<or>
        go_has_prefix (ip_String ip) ''fc'' \<or> go_has_prefix (ip_String ip) ''fd''))"

text \<open>The ports of one entry of the configuration; a blank entry has none.\<close>

definition port_entry :: "string \<Rightarrow> int list option" where
  "port_entry entry =
     (let config = go_trim_space entry
      in if config = [] then Some []
         else if go_contains config ''-'' then
           (case go_split (CHR ''-'') config of
              [a, b] \<Rightarrow> (case (go_parse_int (go_trim_space a), go_parse_int (go_trim_space b)) of
                  (Some startPort, Some endPort) \<Rightarrow>
                    if endPort < startPort then None
                    else if startPort < 1 \<or> 65535 < startPort \<or> endPort < 1 \<or> 65535 < endPort then None
                    else Some [startPort..endPort]
                | _ \<Rightarrow> None)
            | _ \<Rightarrow> None)
         else (case go_parse_int config of
                 None \<Rightarrow> None
               | Some port \<Rightarrow> if port < 1 \<or> 65535 < port then None else Some [port]))"

fun parsePortRanges :: "string list \<Rightarrow> int list option" where
  "parsePortRanges [] = Some []"
| "parsePortRanges (config # portConfigs) =
     (case port_entry config of
        None \<Rightarrow> None
      | Some ports \<Rightarrow> (case parsePortRanges portConfigs of None \<Rightarrow> None | Some rest \<Rightarrow> Some (ports @ rest)))"

definition isAllowedPort :: "SSRFProtection \<Rightarrow> int \<Rightarrow> bool" where
  "isAllowedPort p port \<longleftrightarrow> sp_AllowedPorts p = [] \<or> list_ex (\<lambda>a. port = a) (sp_AllowedPorts p)"

definition domain_matches :: "string \<Rightarrow> string \<Rightarrow> bool" where
  "domain_matches domain entry =
     (let item = go_to_lower (go_trim_space entry)
      in if item = [] then False
         else if domain = item then True
         else if go_has_prefix item ''*.''
         then go_has_suffix domain (CHR ''.'' # go_trim_prefix item ''*.'') \<or> domain = go_trim_prefix item ''*.''
         else False)"

definition isDomainListed :: "string \<Rightarrow> string list \<Rightarrow> bool" where
  "isDomainListed domain dl \<longleftrightarrow> dl \<noteq> [] \<and> list_ex (domain_matches (go_to_lower domain)) dl"

definition isDomainAllowed :: "SSRFProtection \<Rightarrow> string \<Rightarrow> bool" where
  "isDomainAllowed p domain =
     (let listed = isDomainListed domain (sp_DomainList p) in if sp_DomainFilterMode p then listed else \<not> listed)"

definition isIPListed :: "ip \<Rightarrow> string list \<Rightarrow> bool" where
  "isIPListed ip il = (if il = [] then False else IsIpInCIDRList ip il)"

definition IsIPAccessAllowed :: "SSRFProtection \<Rightarrow> ip \<Rightarrow> bool" where
  "IsIPAccessAllowed p ip =
     (if isPrivateIP ip \<and> \<not> sp_AllowPrivateIp p then False
      else (let listed = isIPListed ip (sp_IpList p) in if sp_IpFilterMode p then listed else \<not> listed))"

text \<open>The fields of \<^verbatim>\<open>url.URL\<close> that are read.\<close>

record url =
  url_Scheme :: string
  url_Host :: string

definition digits_port :: "string \<Rightarrow> bool" where
  "digits_port port \<longleftrightarrow> port = [] \<or> (hd port = CHR '':'' \<and> list_all is_digit (tl port))"

text \<open>The parts of a string around the last colon.\<close>

definition before_last_colon :: "string \<Rightarrow> string" where
  "before_last_colon s = rev (drop 1 (dropWhile (\<lambda>c. c \<noteq> CHR '':'') (rev s)))"

definition after_last_colon :: "string \<Rightarrow> string" where
  "after_last_colon s = rev (takeWhile (\<lambda>c. c \<noteq> CHR '':'') (rev s))"

text \<open>\<^verbatim>\<open>URL.Hostname\<close>.\<close>

definition url_Hostname :: "url \<Rightarrow> string" where
  "url_Hostname u =
     (let s = url_Host u;
          host = (if CHR '':'' \<in> set s \<and> digits_port (CHR '':'' # after_last_colon s) then before_last_colon s else s)
      in if go_has_prefix host ''['' \<and> go_has_suffix host '']'' then tl (butlast host) else host)"

text \<open>\<^verbatim>\<open>net.SplitHostPort\<close>.\<close>

definition SplitHostPort :: "string \<Rightarrow> (string \<times> string) option" where
  "SplitHostPort s =
     (if CHR '':'' \<notin> set s then None
      else if hd s = CHR ''['' then
        (let inner = takeWhile (\<lambda>c. c \<noteq> CHR '']'') s; rest = drop (length inner) s
         in if rest = [] then None
            else if tl rest = [] then None
            else if tl rest \<noteq> CHR '':'' # after_last_colon s then None
            else if CHR ''['' \<in> set (tl s) \<or> CHR '']'' \<in> set (tl rest) then None
            else Some (tl inner, after_last_colon s))
      else (let host = before_last_colon s
            in if CHR '':'' \<in> set host \<or> CHR ''['' \<in> set s \<or> CHR '']'' \<in> set s then None
               else Some (host, after_last_colon s)))"

datatype ssrf_error =
    InvalidURLFormat | UnsupportedProtocol | InvalidPort | PortNotAllowed
  | PrivateIPNotAllowed | IpNotInWhitelist | IpInBlacklist
  | DomainNotInWhitelist | DomainInBlacklist | DNSResolutionFailed | InvalidPortConfiguration

fun check_resolved :: "SSRFProtection \<Rightarrow> ip list \<Rightarrow> ssrf_error option" where
  "check_resolved p [] = None"
| "check_resolved p (ip # ips) =
     (if \<not> IsIPAccessAllowed p ip then
        (if isPrivateIP ip \<and> \<not> sp_AllowPrivateIp p then Some PrivateIPNotAllowed
         else if sp_IpFilterMode p then Some IpNotInWhitelist else Some IpInBlacklist)
      else check_resolved p ips)"

definition url_host_port :: "url \<Rightarrow> string \<times> string" where
  "url_host_port u =
     (case SplitHostPort (url_Host u) of
        Some hp \<Rightarrow> hp
      | None \<Rightarrow> (url_Hostname u, if url_Scheme u = ''https'' then ''443'' else ''80''))"

definition ValidateURL ::
    "(string \<Rightarrow> url option) \<Rightarrow> (string \<Rightarrow> ip list option) \<Rightarrow> SSRFProtection \<Rightarrow> string \<Rightarrow> ssrf_error option" where
  "ValidateURL parse lookupIP p urlStr =
     (case parse urlStr of
        None \<Rightarrow> Some InvalidURLFormat
      | Some u \<Rightarrow>
          if url_Scheme u \<noteq> ''http'' \<and> url_Scheme u \<noteq> ''https'' then Some UnsupportedProtocol
          else (case url_host_port u of (host, portStr) \<Rightarrow>
             (case go_parse_int portStr of
                None \<Rightarrow> Some InvalidPort
              | Some port \<Rightarrow>
                  if \<not> isAllowedPort p port then Some PortNotAllowed
                  else (case net_ParseIP host of
                     Some ip \<Rightarrow>
                       if \<not> IsIPAccessAllowed p ip then
                         (if isPrivateIP ip then Some PrivateIPNotAllowed
                          else if sp_IpFilterMode p then Some IpNotInWhitelist else Some IpInBlacklist)
                       else None
                   | None \<Rightarrow>
                       if \<not> isDomainAllowed p host then
                         (if sp_DomainFilterMode p then Some DomainNotInWhitelist else Some DomainInBlacklist)
                       else if \<not> sp_ApplyIPFilterForDomain p then None
                       else (case lookupIP host of
                               None \<Rightarrow> Some DNSResolutionFailed
                             | Some ips \<Rightarrow> check_resolved p ips)))))"

text \<open>The protection built from the settings.\<close>

definition fetch_protection :: "bool \<Rightarrow> bool \<Rightarrow> bool \<Rightarrow> string list \<Rightarrow> string list \<Rightarrow> int list \<Rightarrow> bool \<Rightarrow> SSRFProtection" where
  "fetch_protection allowPrivateIp domainFilterMode ipFilterMode domainList ipList ports applyIPFilterForDomain =
     \<lparr>sp_AllowPrivateIp = allowPrivateIp, sp_DomainFilterMode = domainFilterMode, sp_DomainList = domainList,
      sp_IpFilterMode = ipFilterMode, sp_IpList = ipList, sp_AllowedPorts = ports,
      sp_ApplyIPFilterForDomain = applyIPFilterForDomain\<rparr>"

definition ValidateURLWithFetchSetting ::
    "(string \<Rightarrow> url option) \<Rightarrow> (string \<Rightarrow> ip list option) \<Rightarrow> string \<Rightarrow> bool \<Rightarrow> bool \<Rightarrow> bool \<Rightarrow> bool
     \<Rightarrow> string list \<Rightarrow> string list \<Rightarrow> string list \<Rightarrow> bool \<Rightarrow> ssrf_error option" where
  "ValidateURLWithFetchSetting parse lookupIP urlStr enableSSRFProtection allowPrivateIp domainFilterMode ipFilterMode
     domainList ipList allowedPorts applyIPFilterForDomain =
     (if \<not> enableSSRFProtection then None
      else (case parsePortRanges allowedPorts of
              None \<Rightarrow> Some InvalidPortConfiguration
            | Some ports \<Rightarrow> ValidateURL parse lookupIP
                (fetch_protection allowPrivateIp domainFilterMode ipFilterMode domainList ipList ports applyIPFilterForDomain) urlStr))"

section \<open>Lemmas: printed addresses\<close>

definition zero_run_ok :: "16 word list \<Rightarrow> nat \<times> nat \<Rightarrow> bool" where
  "zero_run_ok gs r \<longleftrightarrow> r = (255, 255) \<or> (fst r + 2 \<le> snd r \<and> fst r < length gs \<and> gs ! fst r = 0)"

lemma zero_run_ok: "zero_run_ok gs (zero_run gs)"
proof -
  have "zero_run_ok gs (fold (\<lambda>i (zs, ze). let l = length (takeWhile (\<lambda>g. g = 0) (drop i gs))
      in if 2 \<le> l \<and> ze - zs < l then (i, i + l) else (zs, ze)) is r)" if "zero_run_ok gs r" for "is" r
    using that
  proof (induction "is" arbitrary: r)
    case (Cons i "is")
    let ?l = "length (takeWhile (\<lambda>g. g = 0) (drop i gs))"
    have "i < length gs \<and> gs ! i = 0" if "2 \<le> ?l"
    proof -
      have ne: "takeWhile (\<lambda>g. g = 0) (drop i gs) \<noteq> []" using that by auto
      then have i: "i < length gs" by (cases "i < length gs") auto
      then have "drop i gs = gs ! i # drop (Suc i) gs" by (simp add: Cons_nth_drop_Suc)
      then show ?thesis using ne i by (auto split: if_splits)
    qed
    then have "zero_run_ok gs ((\<lambda>(zs, ze). if 2 \<le> ?l \<and> ze - zs < ?l then (i, i + ?l) else (zs, ze)) r)"
      using Cons.prems by (auto simp: zero_run_ok_def split: prod.split)
    then show ?case using Cons.IH by (simp add: Let_def)
  qed simp
  then show ?thesis by (simp add: zero_run_def zero_run_ok_def)
qed

lemma v6_String_start:
  assumes "length gs = 8"
  shows "\<exists>r. v6_String gs = (if gs ! 0 = 0 then r else nat_hex (unat (gs ! 0)) @ CHR '':'' # r) \<and>
    (gs ! 0 = 0 \<longrightarrow> r \<noteq> [] \<and> (hd r = CHR '':'' \<or> hd r = CHR ''0''))"
proof -
  obtain zs ze where z: "zero_run gs = (zs, ze)" by fastforce
  define piece where "piece i = (if i = zs then ''::'' else if zs < i \<and> i < ze then []
      else (if 0 < i \<and> i \<noteq> ze then '':'' else []) @ nat_hex (unat (gs ! i)))" for i
  have ok: "(zs = 255 \<and> ze = 255) \<or> (zs + 2 \<le> ze \<and> gs ! zs = 0)" using zero_run_ok [of gs] by (auto simp: z zero_run_ok_def)
  have s: "v6_String gs = piece 0 @ piece 1 @ concat (map piece [2..<8])"
  proof -
    have "[0..<8] = 0 # 1 # [2..<8 :: nat]" by (simp add: upt_rec)
    moreover have "v6_String gs = concat (map piece [0..<8])" by (simp only: v6_String_def z prod.case piece_def [abs_def])
    ultimately show ?thesis by (simp only: list.map concat.simps)
  qed
  show ?thesis
  proof (cases "gs ! 0 = 0")
    case True
    have "nat_hex 0 = ''0''" by (subst nat_hex.simps) (simp add: hex_char_def)
    then have "piece 0 \<noteq> [] \<and> (hd (piece 0) = CHR '':'' \<or> hd (piece 0) = CHR ''0'')" using True ok by (auto simp: piece_def)
    then show ?thesis using True s by auto
  next
    case False
    then have "zs \<noteq> 0" using ok by (cases "zs = 0") auto
    then have "piece 0 = nat_hex (unat (gs ! 0))" "\<exists>p. piece 1 = CHR '':'' # p" using ok by (auto simp: piece_def)
    then show ?thesis using False s by auto
  qed
qed

lemma below_16: "d < (16 :: nat) \<longleftrightarrow> d \<in> {0, 1, 2, 3, 4, 5, 6, 7, 8, 9, 10, 11, 12, 13, 14, 15}"
  unfolding insert_iff empty_iff by presburger

lemma hex_char_f: "d < 16 \<Longrightarrow> hex_char d = CHR ''f'' \<longleftrightarrow> d = 15"
  and hex_char_c: "d < 16 \<Longrightarrow> hex_char d = CHR ''c'' \<longleftrightarrow> d = 12"
  and hex_char_d: "d < 16 \<Longrightarrow> hex_char d = CHR ''d'' \<longleftrightarrow> d = 13"
  and hex_char_nocolon: "d < 16 \<Longrightarrow> hex_char d \<noteq> CHR '':''"
  and hex_digit_char: "d < 16 \<Longrightarrow> hex_digit (hex_char d) = Some d"
  by (auto simp: hex_char_def hex_digit_def below_16)

lemma hex_val_snoc: "hex_val (h @ [c]) = 16 * hex_val h + (case hex_digit c of None \<Rightarrow> 0 | Some d \<Rightarrow> d)"
  by (simp add: hex_val_def)

lemma hex_val_nat_hex: "hex_val (nat_hex n) = n"
proof (induction n rule: nat_hex.induct)
  case (1 n)
  show ?case
  proof (cases "n < 16")
    case True
    then show ?thesis by (subst nat_hex.simps) (simp add: hex_val_def hex_digit_char)
  next
    case False
    then show ?thesis using 1 by (subst nat_hex.simps) (simp add: hex_val_snoc hex_digit_char)
  qed
qed

lemma nat_hex_nocolon: "CHR '':'' \<notin> set (nat_hex n)"
proof (induction n rule: nat_hex.induct)
  case (1 n)
  have "hex_char (n mod 16) \<noteq> CHR '':''" "n < 16 \<Longrightarrow> hex_char n \<noteq> CHR '':''" by (simp_all add: hex_char_nocolon)
  then show ?case using 1 by (subst nat_hex.simps) (auto simp: eq_commute)
qed

lemma nat_hex_nonempty [simp]: "nat_hex n \<noteq> []"
  by (subst nat_hex.simps) simp

lemma nat_hex_take2:
  "take 2 (nat_hex n) = (if n < 16 then [hex_char n] else if n < 256 then [hex_char (n div 16), hex_char (n mod 16)]
     else take 2 (nat_hex (n div 16)))"
proof -
  have long: "2 \<le> length (nat_hex m)" if "16 \<le> m" for m
    using that by (subst nat_hex.simps) (auto simp: Suc_le_eq numeral_2_eq_2)
  show ?thesis
  proof (cases "n < 256")
    case True
    then have "n div 16 < 16" by auto
    then have "nat_hex (n div 16) = [hex_char (n div 16)]" by (subst nat_hex.simps) simp
    then show ?thesis using True by (subst nat_hex.simps) auto
  next
    case False
    then show ?thesis using long [of "n div 16"] by (subst nat_hex.simps) simp
  qed
qed

lemma nat_hex_two:
  assumes "n < 65536"
  shows "take 2 (nat_hex n) = ''fc'' \<longleftrightarrow> n = 0xFC \<or> n div 16 = 0xFC \<or> n div 256 = 0xFC"
    and "take 2 (nat_hex n) = ''fd'' \<longleftrightarrow> n = 0xFD \<or> n div 16 = 0xFD \<or> n div 256 = 0xFD"
proof -
  have two: "take 2 (nat_hex m) = [CHR ''f'', c] \<longleftrightarrow> m = 0xF0 + k"
    if "16 \<le> m" "m < 256" "\<And>d. d < 16 \<Longrightarrow> hex_char d = c \<longleftrightarrow> d = k" "k < 16" for m k c
  proof -
    have d: "m div 16 < 16" "m mod 16 < 16" using that(2) by auto
    have "take 2 (nat_hex m) = [hex_char (m div 16), hex_char (m mod 16)]"
      using that(1,2) nat_hex_take2 [of m] by simp
    then have "take 2 (nat_hex m) = [CHR ''f'', c] \<longleftrightarrow> m div 16 = 15 \<and> m mod 16 = k"
      by (simp only: list.inject hex_char_f [OF d(1)] that(3) [OF d(2)] simp_thms)
    also have "\<dots> \<longleftrightarrow> m = 0xF0 + k"
    proof
      assume "m div 16 = 15 \<and> m mod 16 = k"
      then show "m = 0xF0 + k" using div_mult_mod_eq [of m 16] by simp
    next
      assume m: "m = 0xF0 + k"
      then have "m = 15 * 16 + k" by simp
      then show "m div 16 = 15 \<and> m mod 16 = k" using that(4) by (simp only: div_mult_self3 mod_mult_self3) simp
    qed
    finally show ?thesis .
  qed
  have all: "take 2 (nat_hex n) = [CHR ''f'', c] \<longleftrightarrow> n = 0xF0 + k \<or> n div 16 = 0xF0 + k \<or> n div 256 = 0xF0 + k"
    if c: "\<And>d. d < 16 \<Longrightarrow> hex_char d = c \<longleftrightarrow> d = k" and k: "k < 16" for k c
  proof -
    consider "n < 16" | "16 \<le> n" "n < 256" | "256 \<le> n" "n < 4096" | "4096 \<le> n" by linarith
    then show ?thesis
    proof cases
      case 1 then show ?thesis by (subst nat_hex_take2) auto
    next
      case 2 then show ?thesis using two [OF 2 c k] by auto
    next
      case 3
      then have "take 2 (nat_hex n) = take 2 (nat_hex (n div 16))" by (subst nat_hex_take2) simp
      moreover have "16 \<le> n div 16" "n div 16 < 256" "n \<noteq> 0xF0 + k" "n div 256 \<noteq> 0xF0 + k" using 3 k by auto
      ultimately show ?thesis using two [of "n div 16", OF _ _ c k] by simp
    next
      case 4
      then have "take 2 (nat_hex n) = take 2 (nat_hex (n div 256))"
      proof -
        have "\<not> n < 16" "\<not> n < 256" "\<not> n div 16 < 16" "\<not> n div 16 < 256" using 4 by auto
        then have "take 2 (nat_hex n) = take 2 (nat_hex (n div 16 div 16))"
          using nat_hex_take2 [of n] nat_hex_take2 [of "n div 16"] by (simp only: if_False)
        then show ?thesis by (simp add: div_mult2_eq [symmetric])
      qed
      moreover have "16 \<le> n div 256" "n div 256 < 256" "n \<noteq> 0xF0 + k" "n div 16 \<noteq> 0xF0 + k" using 4 assms k by auto
      ultimately show ?thesis using two [of "n div 256", OF _ _ c k] by simp
    qed
  qed
  show "take 2 (nat_hex n) = ''fc'' \<longleftrightarrow> n = 0xFC \<or> n div 16 = 0xFC \<or> n div 256 = 0xFC" using all [of "CHR ''c''" 12, OF hex_char_c] by simp
  show "take 2 (nat_hex n) = ''fd'' \<longleftrightarrow> n = 0xFD \<or> n div 16 = 0xFD \<or> n div 256 = 0xFD" using all [of "CHR ''d''" 13, OF hex_char_d] by simp
qed

text \<open>A printed group in front of a colon, or of nothing, starts with two letters iff they are its first digits.\<close>

lemma hex_prefix: "a \<noteq> CHR '':'' \<Longrightarrow> b \<noteq> CHR '':'' \<Longrightarrow> go_has_prefix (h @ CHR '':'' # r) [a, b] \<longleftrightarrow> take 2 h = [a, b]"
  by (cases h; cases "tl h") (auto simp: go_has_prefix_def)

lemma v6_prefix:
  assumes "length gs = 8"
  shows "go_has_prefix (v6_String gs) ''fc'' \<longleftrightarrow> take 2 (nat_hex (unat (gs ! 0))) = ''fc''"
    and "go_has_prefix (v6_String gs) ''fd'' \<longleftrightarrow> take 2 (nat_hex (unat (gs ! 0))) = ''fd''"
    and "go_has_prefix (v6_String gs) ''fe80:'' \<Longrightarrow> gs ! 0 = 0xFE80"
proof -
  obtain r where r: "v6_String gs = (if gs ! 0 = 0 then r else nat_hex (unat (gs ! 0)) @ CHR '':'' # r)"
    "gs ! 0 = 0 \<longrightarrow> r \<noteq> [] \<and> (hd r = CHR '':'' \<or> hd r = CHR ''0'')"
    using v6_String_start [OF assms] by blast
  have zero: "\<not> go_has_prefix (v6_String gs) (CHR ''f'' # s)" "take 2 (nat_hex (unat (gs ! 0))) \<noteq> CHR ''f'' # s" if "gs ! 0 = 0" for s
  proof -
    show "\<not> go_has_prefix (v6_String gs) (CHR ''f'' # s)" using r that by (cases r) (auto simp: go_has_prefix_def)
    show "take 2 (nat_hex (unat (gs ! 0))) \<noteq> CHR ''f'' # s" using that by (subst nat_hex.simps) (simp add: hex_char_def)
  qed
  show "go_has_prefix (v6_String gs) ''fc'' \<longleftrightarrow> take 2 (nat_hex (unat (gs ! 0))) = ''fc''"
    "go_has_prefix (v6_String gs) ''fd'' \<longleftrightarrow> take 2 (nat_hex (unat (gs ! 0))) = ''fd''"
    using r zero by (cases "gs ! 0 = 0"; simp add: hex_prefix)+
  assume p: "go_has_prefix (v6_String gs) ''fe80:''"
  then have nz: "gs ! 0 \<noteq> 0" using zero(1) [of "''e80:''"] by blast
  then obtain q where q: "nat_hex (unat (gs ! 0)) @ CHR '':'' # r = ''fe80'' @ CHR '':'' # q"
    using p r by (auto simp: go_has_prefix_iff)
  have "nat_hex (unat (gs ! 0)) = ''fe80''"
    using q nat_hex_nocolon takeWhile_stop [of "CHR '':''" "nat_hex (unat (gs ! 0))" r] takeWhile_stop [of "CHR '':''" "''fe80''" q] by simp
  then have "hex_val (nat_hex (unat (gs ! 0))) = 0xFE80" by (simp add: hex_val_def hex_digit_def)
  then have "unat (gs ! 0) = unat (0xFE80 :: 16 word)" by (simp add: hex_val_nat_hex)
  then show "gs ! 0 = 0xFE80" by (rule unsigned_word_eqI)
qed

section \<open>Lemmas: the private ranges\<close>

text \<open>The addresses that the guard refuses, by number.\<close>

definition private_range :: "ip \<Rightarrow> bool" where
  "private_range ip \<longleftrightarrow>
     (case To4 ip of
        Some x \<Rightarrow> drop_bit 24 x \<in> {10, 127} \<or> drop_bit 20 x = 0xAC1 \<or> drop_bit 16 x \<in> {0xC0A8, 0xA9FE} \<or>
                  drop_bit 28 x \<in> {0xE, 0xF}
      | None \<Rightarrow> (let g = unat (ip_group ip 0)
                 in ip = 1 \<or> (0xFE80 \<le> g \<and> g < 0xFEC0) \<or> (g div 256 = 0xFF \<and> g mod 16 = 2) \<or>
                    {g, g div 16, g div 256} \<inter> {0xFC, 0xFD} \<noteq> {}))"

lemma unat_shift: "unat (drop_bit n w) = unat w div 2 ^ n" for w :: "'a::len word"
  unfolding unat_drop_bit_eq by (rule drop_bit_eq_div)

lemma shift_eq: "drop_bit n w = k \<longleftrightarrow> unat w div 2 ^ n = unat k" for w :: "'a::len word"
  by (metis unat_shift unsigned_word_eqI)

lemma and_255: "unat (w AND 255) = unat w mod 256" for w :: "'a::len word"
proof -
  have e: "w AND 255 = take_bit 8 w" unfolding take_bit_eq_mask by (simp add: mask_eq_exp_minus_1)
  have "unat (take_bit 8 w) = take_bit 8 (unat w)" by (rule unsigned_take_bit_eq)
  then show ?thesis unfolding e by (simp only: take_bit_eq_mod) simp
qed

lemma and_255_eq: "w AND 255 = k \<longleftrightarrow> unat w mod 256 = unat k" for w :: "'a::len word"
  by (metis and_255 unsigned_word_eqI)

lemma private_v4_Contains:
  "n \<le> 32 \<Longrightarrow> ipnet_Contains \<lparr>net_IP = v4 a, net_Mask = Mask4 (CIDRMask4 n)\<rparr> ip \<longleftrightarrow>
    (\<exists>x. To4 ip = Some x \<and> drop_bit (32 - n) x = drop_bit (32 - n) a)"
  unfolding ipnet_Contains_def CIDRMask4_def by (auto simp: and_high_mask To4_Some split: option.splits)

lemma isPrivateIP_v4: "isPrivateIP (v4 x) \<longleftrightarrow> private_range (v4 x)"
proof -
  have d: "unat x div 2 ^ 24 = unat x div 2 ^ 16 div 256" "unat x div 2 ^ 28 = unat x div 2 ^ 24 div 16"
    by (simp_all add: div_mult2_eq [symmetric])
  have "unat x div 2 ^ 24 = 169 \<and> unat x div 2 ^ 16 mod 256 = 254 \<Longrightarrow> unat x div 2 ^ 16 = 0xA9FE"
    using div_mult_mod_eq [of "unat x div 2 ^ 16" 256] unfolding d(1) by linarith
  moreover have "unat x div 2 ^ 24 = 224 \<Longrightarrow> unat x div 2 ^ 28 = 14" unfolding d(2) by simp
  ultimately show ?thesis
    unfolding isPrivateIP_def private_range_def private_v4_def IPv4_def v4_of_octets_def
      IsLoopback_def IsLinkLocalUnicast_def IsLinkLocalMulticast_def
    by (simp add: private_v4_Contains shift_eq and_255_eq unat_shift, auto)
qed

lemma and_C0: "w AND 0xC0 = 0x80 \<longleftrightarrow> unat w div 64 mod 4 = 2" for w :: ip
proof -
  have c: "(0xC0 :: ip) = push_bit 6 (mask 2)" "(0x80 :: ip) = push_bit 6 2" by (simp_all add: mask_eq_exp_minus_1)
  have "w AND 0xC0 = push_bit 6 (take_bit 2 (drop_bit 6 w))"
    unfolding c(1) by (rule bit_word_eqI) (simp only: bit_and_iff bit_push_bit_iff bit_mask_iff bit_take_bit_iff bit_drop_bit_eq possible_bit_word o_def, auto)
  then have "w AND 0xC0 = 0x80 \<longleftrightarrow> push_bit 6 (take_bit 2 (drop_bit 6 w)) = push_bit 6 2" unfolding c(2) by simp
  also have "\<dots> \<longleftrightarrow> take_bit 2 (drop_bit 6 w) = 2"
  proof
    assume "push_bit 6 (take_bit 2 (drop_bit 6 w)) = push_bit 6 (2 :: ip)"
    then have "drop_bit 6 (push_bit 6 (take_bit 2 (drop_bit 6 w))) = drop_bit 6 (push_bit 6 (2 :: ip))" by (rule arg_cong)
    moreover have "drop_bit 6 (push_bit 6 (take_bit 2 v)) = take_bit 2 v" for v :: ip
      by (rule bit_word_eqI) (simp only: bit_drop_bit_eq bit_push_bit_iff bit_take_bit_iff possible_bit_word o_def, auto)
    ultimately show "take_bit 2 (drop_bit 6 w) = 2" by simp
  qed simp
  also have "\<dots> \<longleftrightarrow> unat (take_bit 2 (drop_bit 6 w)) = unat (2 :: ip)" by (metis unsigned_word_eqI)
  also have "\<dots> \<longleftrightarrow> unat w div 64 mod 4 = 2"
    unfolding unsigned_take_bit_eq unat_shift by (simp add: take_bit_eq_mod)
  finally show ?thesis .
qed

lemma and_0F_eq: "w AND 0x0F = 2 \<longleftrightarrow> unat w mod 16 = 2" for w :: ip
proof -
  have "w AND 0x0F = take_bit 4 w" unfolding take_bit_eq_mask by (simp add: mask_eq_exp_minus_1)
  moreover have "unat (take_bit 4 w) = unat w mod 16" unfolding unsigned_take_bit_eq by (simp add: take_bit_eq_mod)
  moreover have "unat (2 :: ip) = 2" by simp
  ultimately show ?thesis by (metis unsigned_word_eqI)
qed

lemma ip_group_0: "unat (ip_group ip 0) = unat ip div 2 ^ 112" "unat ip div 2 ^ 112 < 65536"
proof -
  have "unat ip < 2 ^ 128" using unsigned_less [of ip] by simp
  then show l: "unat ip div 2 ^ 112 < 65536" by (simp add: less_mult_imp_div_less)
  show "unat (ip_group ip 0) = unat ip div 2 ^ 112"
    using l unfolding ip_group_def unsigned_ucast_eq unat_shift by (simp add: take_bit_nat_eq_self)
qed

lemma isPrivateIP_v6:
  assumes "To4 ip = None"
  shows "isPrivateIP ip \<longleftrightarrow> private_range ip"
proof -
  let ?gs = "map (ip_group ip) [0..<8]"
  define g where "g = unat (ip_group ip 0)"
  have g: "unat ip div 2 ^ 112 = g" "g < 65536" using ip_group_0 [of ip] by (simp_all add: g_def)
  have sh: "unat (drop_bit 112 ip) = g" by (simp only: unat_shift g(1))
  have g0: "?gs ! 0 = ip_group ip 0" by simp
  have str: "ip_String ip = v6_String ?gs" using assms by (simp add: ip_String_def)
  have top: "drop_bit 120 ip = k \<longleftrightarrow> g div 256 = unat k" for k
    unfolding shift_eq g(1) [symmetric] by (simp add: div_mult2_eq [symmetric])
  have fc: "go_has_prefix (ip_String ip) ''fc'' \<longleftrightarrow> g = 0xFC \<or> g div 16 = 0xFC \<or> g div 256 = 0xFC"
    and fd: "go_has_prefix (ip_String ip) ''fd'' \<longleftrightarrow> g = 0xFD \<or> g div 16 = 0xFD \<or> g div 256 = 0xFD"
    using v6_prefix(1,2) [of ?gs] nat_hex_two [OF g(2)] unfolding str g0 g_def [symmetric] by simp_all
  have fe: "go_has_prefix (ip_String ip) ''fe80:'' \<Longrightarrow> g = 0xFE80"
    using v6_prefix(3) [of ?gs] unfolding str g0 by (simp add: g_def)
  have ll: "IsLinkLocalUnicast ip \<longleftrightarrow> 0xFE80 \<le> g \<and> g < 0xFEC0"
  proof -
    have "IsLinkLocalUnicast ip \<longleftrightarrow> g div 256 = 0xFE \<and> g div 64 mod 4 = 2"
      using assms by (simp add: IsLinkLocalUnicast_def top and_C0 sh)
    also have "\<dots> \<longleftrightarrow> g div 64 div 4 = 0xFE \<and> g div 64 mod 4 = 2" by (simp add: div_mult2_eq [symmetric])
    also have "\<dots> \<longleftrightarrow> g div 64 = 0x3FA"
    proof
      assume "g div 64 div 4 = 0xFE \<and> g div 64 mod 4 = 2"
      then show "g div 64 = 0x3FA" using div_mult_mod_eq [of "g div 64" 4] by linarith
    qed simp
    also have "\<dots> \<longleftrightarrow> 0xFE80 \<le> g \<and> g < 0xFEC0" using div_mult_mod_eq [of g 64] mod_less_divisor [of 64 g] by linarith
    finally show ?thesis .
  qed
  have mc: "IsLinkLocalMulticast ip \<longleftrightarrow> g div 256 = 0xFF \<and> g mod 16 = 2"
    using assms by (simp add: IsLinkLocalMulticast_def top and_0F_eq sh)
  have no4: "\<not> list_ex (\<lambda>n. ipnet_Contains n ip) (private_v4 ns)" if "\<forall>(a, n) \<in> set ns. To4 a \<noteq> None" for ns
    using that assms by (induction ns) (auto simp: private_v4_def ipnet_Contains_def)
  have "isPrivateIP ip \<longleftrightarrow> ip = 1 \<or> (0xFE80 \<le> g \<and> g < 0xFEC0) \<or> (g div 256 = 0xFF \<and> g mod 16 = 2) \<or>
      (g = 0xFC \<or> g div 16 = 0xFC \<or> g div 256 = 0xFC) \<or> (g = 0xFD \<or> g div 16 = 0xFD \<or> g div 256 = 0xFD)"
    unfolding isPrivateIP_def ll mc fc fd using assms fe no4 by (auto simp: IsLoopback_def IPv4_def)
  also have "\<dots> \<longleftrightarrow> private_range ip"
    using assms by (auto simp: private_range_def g_def [symmetric])
  finally show ?thesis .
qed

section \<open>Lemmas: lists, ports and domains\<close>

lemma IsIpInCIDRList_iff:
  "IsIpInCIDRList ip l \<longleftrightarrow> (\<exists>e \<in> set l. case ParseCIDR e of None \<Rightarrow> net_ParseIP e = Some ip | Some (_, n) \<Rightarrow> ipnet_Contains n ip)"
  by (induction ip l rule: IsIpInCIDRList.induct) (auto split: option.split)

text \<open>An entry for IPv4: an address, alone or with a prefix length.\<close>

definition v4_entry :: "32 word \<times> nat option \<Rightarrow> string" where
  "v4_entry e = (case e of (a, None) \<Rightarrow> v4_String a | (a, Some n) \<Rightarrow> v4_String a @ CHR ''/'' # nat_digits n)"

definition v4_entry_covers :: "32 word \<times> nat option \<Rightarrow> 32 word \<Rightarrow> bool" where
  "v4_entry_covers e x = (case e of (a, None) \<Rightarrow> x = a | (a, Some n) \<Rightarrow> drop_bit (32 - n) x = drop_bit (32 - n) a)"

lemma ParseCIDR_alone: "ParseCIDR (v4_String a) = None"
  by (auto simp: ParseCIDR_def Let_def is_digit_def dest!: v4_String_chars)

lemma v4_entry_meaning:
  assumes "case snd e of None \<Rightarrow> True | Some n \<Rightarrow> n \<le> 32"
  shows "(case ParseCIDR (v4_entry e) of None \<Rightarrow> net_ParseIP (v4_entry e) = Some ip | Some (_, n) \<Rightarrow> ipnet_Contains n ip) \<longleftrightarrow>
    (\<exists>x. ip = v4 x \<and> v4_entry_covers e x)"
proof (cases e)
  case (Pair a o')
  show ?thesis
  proof (cases o')
    case None
    then show ?thesis using Pair
      by (auto simp: v4_entry_def v4_entry_covers_def ParseCIDR_alone net_ParseIP_def parse_addr_v4_String)
  next
    case (Some n)
    then have "n \<le> 32" using assms Pair by simp
    then show ?thesis using Pair Some
      by (simp add: v4_entry_def v4_entry_covers_def ParseCIDR_v4 Contains_v4)
  qed
qed

lemma port_entry_bounds: "port_entry e = Some ps \<Longrightarrow> p \<in> set ps \<Longrightarrow> 1 \<le> p \<and> p \<le> 65535"
  by (auto simp: port_entry_def Let_def split: if_splits list.splits option.splits)

lemma parsePortRanges_bounds: "parsePortRanges cs = Some ps \<Longrightarrow> p \<in> set ps \<Longrightarrow> 1 \<le> p \<and> p \<le> 65535"
  by (induction cs arbitrary: ps) (auto split: option.splits dest: port_entry_bounds)

lemma check_resolved_None: "check_resolved p ips = None \<longleftrightarrow> (\<forall>ip \<in> set ips. IsIPAccessAllowed p ip)"
  by (induction ips) auto

text \<open>What a protection lets through, stated without the order of the checks.\<close>

definition url_permitted :: "(string \<Rightarrow> ip list option) \<Rightarrow> SSRFProtection \<Rightarrow> url \<Rightarrow> bool" where
  "url_permitted lookupIP p u \<longleftrightarrow>
     url_Scheme u \<in> {''http'', ''https''} \<and>
     (\<exists>port. go_parse_int (snd (url_host_port u)) = Some port \<and> isAllowedPort p port) \<and>
     (case net_ParseIP (fst (url_host_port u)) of
        Some ip \<Rightarrow> IsIPAccessAllowed p ip
      | None \<Rightarrow> isDomainAllowed p (fst (url_host_port u)) \<and>
          (sp_ApplyIPFilterForDomain p \<longrightarrow>
             (\<exists>ips. lookupIP (fst (url_host_port u)) = Some ips \<and> (\<forall>ip \<in> set ips. IsIPAccessAllowed p ip))))"

lemma ValidateURL_None:
  "ValidateURL parse lookupIP p s = None \<longleftrightarrow> (\<exists>u. parse s = Some u \<and> url_permitted lookupIP p u)"
proof (cases "parse s")
  case (Some u)
  obtain host port where hp: "url_host_port u = (host, port)" by fastforce
  show ?thesis
    using Some hp by (cases "net_ParseIP host"; cases "go_parse_int port"; cases "lookupIP host")
      (auto simp: ValidateURL_def url_permitted_def check_resolved_None split: if_splits)
qed (simp add: ValidateURL_def)

lemma IsIPAccessAllowed_public: "IsIPAccessAllowed p ip \<Longrightarrow> \<not> sp_AllowPrivateIp p \<Longrightarrow> \<not> private_range ip"
proof -
  assume "IsIPAccessAllowed p ip" "\<not> sp_AllowPrivateIp p"
  then have "\<not> isPrivateIP ip" by (auto simp: IsIPAccessAllowed_def)
  then show "\<not> private_range ip"
    by (cases "To4 ip") (auto simp: isPrivateIP_v6 isPrivateIP_v4 To4_Some)
qed

section \<open>Properties\<close>

text \<open>
  The private addresses of the guard, found there with masks and with prefixes of the printed
  form, are exactly these ranges: 10/8, 127/8, 172.16/12, 192.168/16, 169.254/16 and 224/3 of IPv4;
  the loopback address, fe80::/10, link-local multicast, and every address whose first group, printed
  without leading zeros, begins with fc or fd.
\<close>

theorem isPrivateIP_ranges: "isPrivateIP ip \<longleftrightarrow> private_range ip"
  by (cases "To4 ip") (auto simp: isPrivateIP_v6 isPrivateIP_v4 To4_Some)

text \<open>
  A list of IPv4 entries admits exactly the IPv4 addresses, in either form, that equal an entry or
  share the prefix of one; no other address is admitted.
\<close>

theorem cidr_list_covers:
  assumes "\<forall>e \<in> set es. case snd e of None \<Rightarrow> True | Some n \<Rightarrow> n \<le> 32"
  shows "IsIpInCIDRList ip (map v4_entry es) \<longleftrightarrow> (\<exists>x. ip = v4 x \<and> (\<exists>e \<in> set es. v4_entry_covers e x))"
  unfolding IsIpInCIDRList_iff using assms by (auto simp: v4_entry_meaning)

theorem cidr_list_covers_witness:
  "IsIpInCIDRList (v4 0x0A000105) (map v4_entry [(0xC0A80001, None), (0x0A000100, Some 24)]) \<and>
   \<not> IsIpInCIDRList (v4 0x0A000205) (map v4_entry [(0xC0A80001, None), (0x0A000100, Some 24)])"
  by (subst (1 2) cidr_list_covers) (simp_all add: v4_entry_covers_def)

text \<open>
  C14. A URL passes the enabled protection exactly when its scheme is http or https, its port is
  allowed, its host is an admitted address, or an admitted domain whose addresses are all admitted
  if they are to be checked. Unless private addresses are allowed, no address it was checked against
  is private; the allowed ports lie between 1 and 65535.
\<close>

theorem ssrf_guard:
  assumes "parsePortRanges allowedPorts = Some ports"
  shows "(ValidateURLWithFetchSetting parse lookupIP s True priv dmode imode domainList ipList allowedPorts applyIP = None \<longleftrightarrow>
      (\<exists>u. parse s = Some u \<and> url_permitted lookupIP (fetch_protection priv dmode imode domainList ipList ports applyIP) u)) \<and>
    (\<forall>ip. IsIPAccessAllowed (fetch_protection priv dmode imode domainList ipList ports applyIP) ip \<and> \<not> priv
      \<longrightarrow> \<not> private_range ip) \<and>
    (\<forall>port \<in> set ports. 1 \<le> port \<and> port \<le> 65535)"
proof -
  let ?p = "fetch_protection priv dmode imode domainList ipList ports applyIP"
  have "\<forall>ip. IsIPAccessAllowed ?p ip \<and> \<not> priv \<longrightarrow> \<not> private_range ip"
    using IsIPAccessAllowed_public [of ?p] by (auto simp: fetch_protection_def)
  moreover have "ValidateURLWithFetchSetting parse lookupIP s True priv dmode imode domainList ipList allowedPorts applyIP
      = ValidateURL parse lookupIP ?p s"
    by (simp add: ValidateURLWithFetchSetting_def assms)
  ultimately show ?thesis
    using parsePortRanges_bounds [OF assms] by (simp only: ValidateURL_None) blast
qed

definition demo_url :: "string \<Rightarrow> url option" where
  "demo_url s = Some \<lparr>url_Scheme = ''http'', url_Host = s\<rparr>"

theorem ssrf_guard_witness:
  "ValidateURLWithFetchSetting demo_url (\<lambda>_. None) ''192.168.1.1:80'' True False False False [] [] [''80'', ''8000-8001''] True \<noteq> None"
proof -
  have ports: "parsePortRanges [''80'', ''8000-8001''] = Some [80, 8000, 8001]"
    by (simp add: port_entry_def go_trim_space_def go_trim_def is_space_def go_has_prefix_def go_parse_int_def is_digit_def
        digits_val_def digit_val_def int64_ok_def upto.simps)
  let ?u = "\<lparr>url_Scheme = ''http'', url_Host = ''192.168.1.1:80''\<rparr>"
  have "net_ParseIP ''192.168.1.1'' = Some (v4 0xC0A80101)"
    by (simp add: net_ParseIP_def parse_addr_def parse_v4_fields_def parse_octet_def is_digit_def digits_val_def digit_val_def v4_of_octets_def)
  moreover have "url_host_port ?u = (''192.168.1.1'', ''80'')"
    by (simp add: url_host_port_def SplitHostPort_def before_last_colon_def after_last_colon_def)
  moreover have "private_range (v4 0xC0A80101)" by (simp add: private_range_def)
  ultimately show ?thesis
    using ssrf_guard [OF ports, where s = "''192.168.1.1:80''" and parse = demo_url and lookupIP = "\<lambda>_. None"
      and priv = False and dmode = False and domainList = "[]" and imode = False and ipList = "[]" and applyIP = True]
    by (auto simp: demo_url_def url_permitted_def)
qed

section \<open>What the guard does not see\<close>

text \<open>
  The unspecified addresses, the shared range 100.64/10 and the translated addresses 64:ff9b::/96
  are not private for it; fc::1, which is not a unique local address, is.
\<close>

lemma not_seen_as_private:
  "\<not> private_range (v4 0)" "\<not> private_range 0" "\<not> private_range (v4 0x64400001)"
  "private_range (ip_of_groups [0xFC, 0, 0, 0, 0, 0, 0, 1])"
  by (simp_all add: private_range_def To4_def ip_of_groups_def ip_group_def v4_def)

text \<open>A trailing dot names the same host but is not found in the list of domains.\<close>

lemma trailing_dot_not_listed:
  "isDomainListed ''evil.com'' [''evil.com'', ''*.evil.com'']"
  "\<not> isDomainListed ''evil.com.'' [''evil.com'', ''*.evil.com'']"
  by (simp_all add: isDomainListed_def domain_matches_def go_to_lower_def lower_char_def go_trim_space_def go_trim_def is_space_def
      go_has_prefix_def go_has_suffix_def go_trim_prefix_def Let_def)

text \<open>A network written for IPv6 contains no IPv4 address, not even \<^verbatim>\<open>::/0\<close>.\<close>

lemma v6_all_has_no_v4: "ParseCIDR ''::/0'' = Some (0, n) \<Longrightarrow> \<not> ipnet_Contains n (v4 x)"
proof -
  have "To4 0 = None" by (simp add: To4_def)
  then show "ParseCIDR ''::/0'' = Some (0, n) \<Longrightarrow> \<not> ipnet_Contains n (v4 x)"
    by (auto simp: ParseCIDR_def parse_addr_def parse_v6_def net_dtoi_def is_digit_def digits_val_def digit_val_def ipnet_Contains_def)
qed

end
