(* ===== verification/Model_Ratio.thy ===== *)
theory Model_Ratio
  imports Usage_Pricing
begin

text \<open>
  The ratio tables of \<^verbatim>\<open>internal/pkg/setting/ratio_setting\<close>: matching of model names, the lookups with
  their fallbacks (\<^verbatim>\<open>model_ratio.go\<close>, \<^verbatim>\<open>model_family.go\<close>, \<^verbatim>\<open>cache_ratio.go\<close>, \<^verbatim>\<open>group_ratio.go\<close>), and the
  built-in completion ratios. The configurable maps are a record; the built-in tables of numbers that
  fill them at start are data. The record of lookups that \<open>Usage_Pricing\<close> reads is built from them.
  Floats are rationals, with a rounding \<open>fl\<close> where the code computes or a literal is no float.
\<close>

section \<open>Names\<close>

definition handleThinkingBudgetModel :: "string \<Rightarrow> string \<Rightarrow> string \<Rightarrow> string" where
  "handleThinkingBudgetModel name prefix wildcard =
     (if go_has_prefix name prefix \<and> go_contains name ''-thinking-'' then wildcard else name)"

definition FormatMatchingModelName :: "string \<Rightarrow> string" where
  "FormatMatchingModelName name0 =
     (let name1 = (if go_has_prefix name0 ''gemini-2.5-flash-lite''
                   then handleThinkingBudgetModel name0 ''gemini-2.5-flash-lite'' ''gemini-2.5-flash-lite-thinking-*''
                   else if go_has_prefix name0 ''gemini-2.5-flash''
                   then handleThinkingBudgetModel name0 ''gemini-2.5-flash'' ''gemini-2.5-flash-thinking-*''
                   else if go_has_prefix name0 ''gemini-2.5-pro''
                   then handleThinkingBudgetModel name0 ''gemini-2.5-pro'' ''gemini-2.5-pro-thinking-*''
                   else name0);
          name2 = (if go_has_prefix name1 ''gpt-4-gizmo'' then ''gpt-4-gizmo-*'' else name1)
      in if go_has_prefix name2 ''gpt-4o-gizmo'' then ''gpt-4o-gizmo-*'' else name2)"

section \<open>Families of models\<close>

definition modelFamilyRules :: "(rat \<Rightarrow> rat) \<Rightarrow> (string \<times> string \<times> rat) list" where
  "modelFamilyRules fl = [
    (''gemini-'', ''flash-lite'', fl (1 / 20)), (''gemini-'', ''flash-image'', fl (3 / 40)),
    (''gemini-'', ''flash'', fl (3 / 40)), (''gemini-'', ''pro-image'', 5 / 8), (''gemini-'', ''pro'', 5 / 8),
    (''gemini-'', ''embedding'', fl (3 / 40)), (''gemini-'', [], fl (3 / 40)), (''claude-'', ''haiku'', 1 / 2),
    (''claude-'', ''sonnet'', 3 / 2), (''claude-'', ''opus'', 15 / 2), (''claude-'', [], 3 / 2),
    (''gpt-'', ''nano'', fl (1 / 20)), (''gpt-'', ''mini'', fl (1 / 5)), (''gpt-'', ''turbo'', 5),
    (''gpt-'', [], 5 / 4), (''o1-'', ''pro'', 75), (''o1-'', ''mini'', fl (11 / 20)), (''o1-'', [], 15 / 2),
    (''o3-'', ''pro'', 10), (''o3-'', ''mini'', fl (11 / 20)), (''o3-'', [], 1),
    (''o4-'', ''mini'', fl (11 / 20)), (''o4-'', [], 1), (''deepseek-'', ''chat'', fl (7 / 100)),
    (''deepseek-'', ''coder'', fl (7 / 100)), (''deepseek-'', ''reasoner'', fl (11 / 40)),
    (''deepseek-'', [], fl (7 / 100)), (''qwen-'', ''turbo'', fl (43 / 50)), (''qwen-'', ''plus'', 10),
    (''qwen-'', ''max'', 10), (''qwen-'', [], fl (43 / 50)), (''glm-'', ''4-flash'', 0),
    (''glm-'', ''4-air'', fl (7 / 100)), (''glm-'', ''4'', fl (357 / 100)), (''glm-'', [], fl (9 / 25)),
    (''moonshot-'', [], fl (43 / 50)), (''doubao-'', ''lite'', fl (7 / 500)),
    (''doubao-'', ''pro'', fl (57 / 1000)), (''doubao-'', [], fl (57 / 1000))]"

fun family_find :: "string \<Rightarrow> (string \<times> string \<times> rat) list \<Rightarrow> (string \<times> string \<times> rat) option" where
  "family_find lower [] = None"
| "family_find lower ((prefix, tier, ratio) # rules) =
     (if \<not> go_has_prefix lower prefix then family_find lower rules
      else if tier = [] \<or> go_contains (drop (length prefix) lower) tier then Some (prefix, tier, ratio)
      else family_find lower rules)"

definition ModelFamilyFallback :: "(rat \<Rightarrow> rat) \<Rightarrow> string \<Rightarrow> rat option" where
  "ModelFamilyFallback fl name =
     (case family_find (go_to_lower name) (modelFamilyRules fl) of None \<Rightarrow> None | Some (p, t, ratio) \<Rightarrow> Some ratio)"

definition trim_dash :: "string \<Rightarrow> string" where
  "trim_dash s = (if go_has_suffix s ''-'' then butlast s else s)"

definition GetModelFamilyName :: "(rat \<Rightarrow> rat) \<Rightarrow> string \<Rightarrow> string" where
  "GetModelFamilyName fl name =
     (case family_find (go_to_lower name) (modelFamilyRules fl) of
        None \<Rightarrow> []
      | Some (prefix, tier, r) \<Rightarrow> if tier = [] then trim_dash prefix else trim_dash prefix @ ''-'' @ tier)"

section \<open>The tables\<close>

record ratio_settings =
  st_modelPrice :: "(string, rat) gomap"
  st_defaultModelPrice :: "(string, rat) gomap"
  st_modelRatio :: "(string, rat) gomap"
  st_completionRatio :: "(string, rat) gomap"
  st_cacheRatio :: "(string, rat) gomap"
  st_createCacheRatio :: "(string, rat) gomap"     \<comment> \<open>\<^verbatim>\<open>defaultCreateCacheRatio\<close>\<close>
  st_imageRatio :: "(string, rat) gomap"
  st_audioRatio :: "(string, rat) gomap"
  st_audioCompletionRatio :: "(string, rat) gomap"
  st_groupRatio :: "(string, rat) gomap"
  st_groupGroupRatio :: "(string, (string, rat) gomap) gomap"
  st_fallbackMarkup :: rat
  st_selfUseMode :: bool

definition GetModelPrice :: "ratio_settings \<Rightarrow> string \<Rightarrow> rat \<times> bool" where
  "GetModelPrice rs name =
     (case gm_get (st_modelPrice rs) (FormatMatchingModelName name) of None \<Rightarrow> (-1, False) | Some price \<Rightarrow> (price, True))"

definition fallback_markup :: "ratio_settings \<Rightarrow> rat" where
  "fallback_markup rs = (if st_fallbackMarkup rs \<le> 0 then 1 else st_fallbackMarkup rs)"

definition GetModelRatio :: "(rat \<Rightarrow> rat) \<Rightarrow> ratio_settings \<Rightarrow> string \<Rightarrow> rat \<times> bool \<times> string" where
  "GetModelRatio fl rs name0 =
     (let name = FormatMatchingModelName name0
      in case gm_get (st_modelRatio rs) name of
           Some ratio \<Rightarrow> (ratio, True, name)
         | None \<Rightarrow> (case ModelFamilyFallback fl name of
                      Some baseRatio \<Rightarrow> (fl (baseRatio * fallback_markup rs), True, name)
                    | None \<Rightarrow> (75 / 2, st_selfUseMode rs, name)))"

record PricingSource =
  ps_Source :: string
  ps_Ratio :: rat
  ps_Family :: string
  ps_BaseRatio :: rat
  ps_Markup :: rat

text \<open>The fields a composite literal leaves out have their zero values.\<close>

definition zero_source :: PricingSource where
  "zero_source = \<lparr>ps_Source = [], ps_Ratio = 0, ps_Family = [], ps_BaseRatio = 0, ps_Markup = 0\<rparr>"

definition GetModelPricingSource :: "(rat \<Rightarrow> rat) \<Rightarrow> ratio_settings \<Rightarrow> string \<Rightarrow> PricingSource" where
  "GetModelPricingSource fl rs name0 =
     (let name = FormatMatchingModelName name0
      in case gm_get (st_modelRatio rs) name of
           Some ratio \<Rightarrow> zero_source\<lparr>ps_Source := ''explicit'', ps_Ratio := ratio\<rparr>
         | None \<Rightarrow> (case ModelFamilyFallback fl name of
                      Some baseRatio \<Rightarrow>
                        \<lparr>ps_Source = ''family_fallback'', ps_Ratio = fl (baseRatio * fallback_markup rs),
                         ps_Family = GetModelFamilyName fl name, ps_BaseRatio = baseRatio,
                         ps_Markup = fallback_markup rs\<rparr>
                    | None \<Rightarrow> zero_source\<lparr>ps_Source := ''none''\<rparr>))"

definition GetModelRatioOrPrice :: "(rat \<Rightarrow> rat) \<Rightarrow> ratio_settings \<Rightarrow> string \<Rightarrow> rat \<times> bool \<times> bool" where
  "GetModelRatioOrPrice fl rs model =
     (let (price, usePrice) = GetModelPrice rs model
      in if usePrice then (price, True, True)
         else (let (modelRatio, success, n) = GetModelRatio fl rs model
               in if success then (modelRatio, False, True) else (75 / 2, False, False)))"

section \<open>Completion ratios\<close>

text \<open>
  The built-in ratios; the flag tells that the configured table is not asked. One definition per
  vendor, in the order of the branches; \<open>None\<close> falls through to the next.
\<close>

definition gpt_completion :: "string \<Rightarrow> rat \<times> bool" where
  "gpt_completion name =
     (if go_has_prefix name ''gpt-4o'' then
        (if name = ''gpt-4o-2024-05-13'' then (3, True)
         else if go_has_prefix name ''gpt-4o-mini-tts'' then (20, False) else (4, False))
      else if go_has_prefix name ''gpt-5'' then (8, True)
      else if go_has_prefix name ''gpt-4.5-preview'' then (2, True)
      else if go_has_prefix name ''gpt-4-turbo'' \<or> go_has_suffix name ''gpt-4-1106'' \<or> go_has_suffix name ''gpt-4-1105'' then (3, True)
      else (2, False))"

definition claude_completion :: "string \<Rightarrow> (rat \<times> bool) option" where
  "claude_completion name =
     (if go_contains name ''claude-3'' then Some (5, True)
      else if go_contains name ''claude-sonnet-4'' \<or> go_contains name ''claude-opus-4'' \<or> go_contains name ''claude-haiku-4''
      then Some (5, True)
      else if go_contains name ''claude-instant-1'' \<or> go_contains name ''claude-2'' then Some (3, True) else None)"

definition gpt35_completion :: "(rat \<Rightarrow> rat) \<Rightarrow> string \<Rightarrow> rat \<times> bool" where
  "gpt35_completion fl name =
     (if name = ''gpt-3.5-turbo'' \<or> go_has_suffix name ''0125'' then (3, True)
      else if go_has_suffix name ''1106'' then (2, True) else (fl (4 / 3), True))"

definition gemini_completion :: "(rat \<Rightarrow> rat) \<Rightarrow> string \<Rightarrow> rat \<times> bool" where
  "gemini_completion fl name =
     (if go_has_prefix name ''gemini-1.5'' then (4, True)
      else if go_has_prefix name ''gemini-2.0'' then (4, True)
      else if go_has_prefix name ''gemini-2.5-pro'' then (8, False)
      else if go_has_prefix name ''gemini-2.5-flash'' then
        (if go_has_prefix name ''gemini-2.5-flash-preview''
         then (if go_has_suffix name ''-nothinking'' then (4, False) else (fl (70 / 3), False))
         else if go_has_prefix name ''gemini-2.5-flash-lite'' then (4, False)
         else (fl (25 / 3), False))
      else if go_has_prefix name ''gemini-robotics-er-1.5'' then (fl (25 / 3), False)
      else if go_has_prefix name ''gemini-3-pro'' then
        (if go_has_prefix name ''gemini-3-pro-image'' then (60, False) else (6, False))
      else if go_has_prefix name ''gemini-3-flash'' then (4, False)
      else if go_has_prefix name ''gemini-3.1-flash-lite'' then (4, False)
      else if go_has_prefix name ''gemini-3.1-flash'' then (4, False)
      else (4, False))"

definition other_completion :: "(rat \<Rightarrow> rat) \<Rightarrow> string \<Rightarrow> rat \<times> bool" where
  "other_completion fl name =
     (if go_has_prefix name ''command'' then
        (if name = ''command-r'' then (3, True)
         else if name = ''command-r-plus'' then (5, True)
         else if name = ''command-r-08-2024'' then (4, True)
         else if name = ''command-r-plus-08-2024'' then (4, True)
         else (4, False))
      else if go_has_prefix name ''ERNIE-Speed-'' then (2, True)
      else if go_has_prefix name ''ERNIE-Lite-'' then (2, True)
      else if go_has_prefix name ''ERNIE-Character'' then (2, True)
      else if go_has_prefix name ''ERNIE-Functions'' then (2, True)
      else if name = ''llama2-70b-4096'' then (5 / 4, True)
      else if name = ''llama3-8b-8192'' then (2, True)
      else if name = ''llama3-70b-8192'' then (fl (79 / 59), True)
      else (1, False))"

definition getHardcodedCompletionModelRatio :: "(rat \<Rightarrow> rat) \<Rightarrow> string \<Rightarrow> rat \<times> bool" where
  "getHardcodedCompletionModelRatio fl name =
     (if go_has_suffix name ''-all'' \<or> go_has_suffix name ''-gizmo-*'' then (2, False)
      else if go_has_prefix name ''gpt-'' then gpt_completion name
      else if go_has_prefix name ''o1'' \<or> go_has_prefix name ''o3'' then (4, True)
      else if name = ''chatgpt-4o-latest'' then (3, True)
      else (case claude_completion name of
              Some r \<Rightarrow> r
            | None \<Rightarrow>
                if go_has_prefix name ''gpt-3.5'' then gpt35_completion fl name
                else if go_has_prefix name ''mistral-'' then (3, True)
                else if go_has_prefix name ''gemini-'' then gemini_completion fl name
                else other_completion fl name))"

definition GetCompletionRatio :: "(rat \<Rightarrow> rat) \<Rightarrow> ratio_settings \<Rightarrow> string \<Rightarrow> rat" where
  "GetCompletionRatio fl rs name0 =
     (let name = FormatMatchingModelName name0;
          configured = gm_get (st_completionRatio rs) name;
          (hardCodedRatio, contain) = getHardcodedCompletionModelRatio fl name
      in if CHR ''/'' \<in> set name \<and> configured \<noteq> None then the configured
         else if contain then hardCodedRatio
         else (case configured of Some ratio \<Rightarrow> ratio | None \<Rightarrow> hardCodedRatio))"

section \<open>The other lookups\<close>

definition ratio_or :: "rat \<Rightarrow> (string, rat) gomap \<Rightarrow> string \<Rightarrow> rat" where
  "ratio_or d m name = (case gm_get m name of None \<Rightarrow> d | Some r \<Rightarrow> r)"

definition GetAudioRatio :: "ratio_settings \<Rightarrow> string \<Rightarrow> rat" where
  "GetAudioRatio rs name = ratio_or 1 (st_audioRatio rs) (FormatMatchingModelName name)"

definition GetAudioCompletionRatio :: "ratio_settings \<Rightarrow> string \<Rightarrow> rat" where
  "GetAudioCompletionRatio rs name = ratio_or 1 (st_audioCompletionRatio rs) (FormatMatchingModelName name)"

definition ContainsAudioRatio :: "ratio_settings \<Rightarrow> string \<Rightarrow> bool" where
  "ContainsAudioRatio rs name \<longleftrightarrow> gm_get (st_audioRatio rs) (FormatMatchingModelName name) \<noteq> None"

definition ContainsAudioCompletionRatio :: "ratio_settings \<Rightarrow> string \<Rightarrow> bool" where
  "ContainsAudioCompletionRatio rs name \<longleftrightarrow> gm_get (st_audioCompletionRatio rs) (FormatMatchingModelName name) \<noteq> None"

text \<open>The lookups for images and caches take the name as it is.\<close>

definition GetImageRatio :: "ratio_settings \<Rightarrow> string \<Rightarrow> rat \<times> bool" where
  "GetImageRatio rs name = (case gm_get (st_imageRatio rs) name of None \<Rightarrow> (1, False) | Some r \<Rightarrow> (r, True))"

definition GetCacheRatio :: "ratio_settings \<Rightarrow> string \<Rightarrow> rat \<times> bool" where
  "GetCacheRatio rs name = (case gm_get (st_cacheRatio rs) name of None \<Rightarrow> (1, False) | Some r \<Rightarrow> (r, True))"

definition GetCreateCacheRatio :: "ratio_settings \<Rightarrow> string \<Rightarrow> rat \<times> bool" where
  "GetCreateCacheRatio rs name = (case gm_get (st_createCacheRatio rs) name of None \<Rightarrow> (5 / 4, False) | Some r \<Rightarrow> (r, True))"

definition ContainsGroupRatio :: "ratio_settings \<Rightarrow> string \<Rightarrow> bool" where
  "ContainsGroupRatio rs name \<longleftrightarrow> gm_get (st_groupRatio rs) name \<noteq> None"

definition GetGroupRatio :: "ratio_settings \<Rightarrow> string \<Rightarrow> rat" where
  "GetGroupRatio rs name = ratio_or 1 (st_groupRatio rs) name"

definition GetGroupGroupRatio :: "ratio_settings \<Rightarrow> string \<Rightarrow> string \<Rightarrow> rat \<times> bool" where
  "GetGroupGroupRatio rs userGroup usingGroup =
     (case gm_get (st_groupGroupRatio rs) userGroup of
        None \<Rightarrow> (-1, False)
      | Some gp \<Rightarrow> (case gm_get gp usingGroup of None \<Rightarrow> (-1, False) | Some ratio \<Rightarrow> (ratio, True)))"

text \<open>An unmarshalled map of group ratios is accepted when none is negative.\<close>

definition CheckGroupRatio :: "(string, rat) gomap \<Rightarrow> bool" where
  "CheckGroupRatio m \<longleftrightarrow> list_all (\<lambda>(name, ratio). \<not> ratio < 0) m"

text \<open>The record that the pricing reads.\<close>

definition ratio_tables_of :: "(rat \<Rightarrow> rat) \<Rightarrow> ratio_settings \<Rightarrow> ratio_tables" where
  "ratio_tables_of fl rs = \<lparr>
     rt_model_price = GetModelPrice rs,
     rt_default_price = gm_get (st_defaultModelPrice rs),
     rt_model_ratio = (\<lambda>n. let (r, ok, m) = GetModelRatio fl rs n in (r, ok)),
     rt_completion = GetCompletionRatio fl rs,
     rt_cache = fst \<circ> GetCacheRatio rs,
     rt_create_cache = fst \<circ> GetCreateCacheRatio rs,
     rt_image = fst \<circ> GetImageRatio rs,
     rt_audio = GetAudioRatio rs,
     rt_audio_completion = GetAudioCompletionRatio rs,
     rt_group = GetGroupRatio rs,
     rt_group_group = (\<lambda>u g. let (r, ok) = GetGroupGroupRatio rs u g in if ok then Some r else None)\<rparr>"

section \<open>Lemmas\<close>

definition wildcards :: "string list" where
  "wildcards = [''gemini-2.5-flash-lite-thinking-*'', ''gemini-2.5-flash-thinking-*'', ''gemini-2.5-pro-thinking-*'',
     ''gpt-4-gizmo-*'', ''gpt-4o-gizmo-*'']"

lemma Format_cases: "FormatMatchingModelName n = n \<or> FormatMatchingModelName n \<in> set wildcards"
proof -
  define n1 where "n1 = (if go_has_prefix n ''gemini-2.5-flash-lite''
      then handleThinkingBudgetModel n ''gemini-2.5-flash-lite'' ''gemini-2.5-flash-lite-thinking-*''
      else if go_has_prefix n ''gemini-2.5-flash''
      then handleThinkingBudgetModel n ''gemini-2.5-flash'' ''gemini-2.5-flash-thinking-*''
      else if go_has_prefix n ''gemini-2.5-pro''
      then handleThinkingBudgetModel n ''gemini-2.5-pro'' ''gemini-2.5-pro-thinking-*''
      else n)"
  define n2 where "n2 = (if go_has_prefix n1 ''gpt-4-gizmo'' then ''gpt-4-gizmo-*'' else n1)"
  have F: "FormatMatchingModelName n = (if go_has_prefix n2 ''gpt-4o-gizmo'' then ''gpt-4o-gizmo-*'' else n2)"
    unfolding FormatMatchingModelName_def n2_def n1_def Let_def by (rule refl)
  have w: "''gpt-4-gizmo-*'' \<in> set wildcards" "''gpt-4o-gizmo-*'' \<in> set wildcards" by (simp_all add: wildcards_def)
  have "n1 = n \<or> n1 \<in> set wildcards" unfolding n1_def handleThinkingBudgetModel_def wildcards_def by simp
  then have "n2 = n \<or> n2 \<in> set wildcards" unfolding n2_def using w(1) by (cases "go_has_prefix n1 ''gpt-4-gizmo''") (simp_all only: if_True if_False simp_thms)
  then show ?thesis unfolding F using w(2) by (cases "go_has_prefix n2 ''gpt-4o-gizmo''") (simp_all only: if_True if_False simp_thms)
qed

lemma Format_wildcards: "w \<in> set wildcards \<Longrightarrow> FormatMatchingModelName w = w"
proof -
  have "list_all (\<lambda>w. FormatMatchingModelName w = w) wildcards" by code_simp
  then show "w \<in> set wildcards \<Longrightarrow> FormatMatchingModelName w = w" by (simp add: list_all_iff)
qed

lemma Format_idem: "FormatMatchingModelName (FormatMatchingModelName n) = FormatMatchingModelName n"
  using Format_cases [of n] Format_wildcards by auto

lemma family_find_mem: "family_find lower rules = Some r \<Longrightarrow> r \<in> set rules"
  by (induction lower rules rule: family_find.induct) (auto split: if_splits)

lemma family_name_nonempty: "(p, t, r) \<in> set (modelFamilyRules fl) \<Longrightarrow> trim_dash p \<noteq> []"
  by (auto simp: modelFamilyRules_def trim_dash_def go_has_suffix_def go_has_prefix_def)

text \<open>A family is named exactly when there is a fallback.\<close>

lemma family_name_iff: "GetModelFamilyName fl name \<noteq> [] \<longleftrightarrow> ModelFamilyFallback fl name \<noteq> None"
  by (auto simp: GetModelFamilyName_def ModelFamilyFallback_def split: option.split
      dest!: family_find_mem family_name_nonempty)

text \<open>The ratio \<open>GetModelRatio\<close> finds, read off the source that is shown.\<close>

lemma GetModelRatio_source:
  "GetModelRatio fl rs name =
     (let ps = GetModelPricingSource fl rs name
      in if ps_Source ps = ''none'' then (75 / 2, st_selfUseMode rs, FormatMatchingModelName name)
         else (ps_Ratio ps, True, FormatMatchingModelName name))"
  by (simp add: GetModelRatio_def GetModelPricingSource_def zero_source_def Let_def split: option.split)

lemma pricing_source_shape:
  "let ps = GetModelPricingSource fl rs name
   in (ps_Source ps = ''family_fallback'' \<longleftrightarrow> ps_Family ps \<noteq> []) \<and>
      (ps_Source ps = ''none'' \<longrightarrow> ps_Ratio ps = 0)"
  using family_name_iff [of fl "FormatMatchingModelName name"]
  by (auto simp: GetModelPricingSource_def zero_source_def Let_def split: option.split)

text \<open>The lookups depend on the matching name only.\<close>

lemma lookups_matching_name:
  "GetModelPrice rs (FormatMatchingModelName n) = GetModelPrice rs n"
  "GetModelRatio fl rs (FormatMatchingModelName n) = GetModelRatio fl rs n"
  "GetModelPricingSource fl rs (FormatMatchingModelName n) = GetModelPricingSource fl rs n"
  "GetCompletionRatio fl rs (FormatMatchingModelName n) = GetCompletionRatio fl rs n"
  "GetAudioRatio rs (FormatMatchingModelName n) = GetAudioRatio rs n"
  "GetAudioCompletionRatio rs (FormatMatchingModelName n) = GetAudioCompletionRatio rs n"
  by (simp_all add: GetModelPrice_def GetModelRatio_def GetModelPricingSource_def GetCompletionRatio_def GetAudioRatio_def
      GetAudioCompletionRatio_def Format_idem)

text \<open>A row of a table whose name is not its own matching name is never read.\<close>

lemma dead_rows: "FormatMatchingModelName k \<noteq> k \<Longrightarrow> FormatMatchingModelName n \<noteq> k"
  by (metis Format_idem)

lemma default_row_dead: "FormatMatchingModelName n \<noteq> ''gemini-2.5-flash-lite-preview-thinking-*''"
  by (rule dead_rows) (simp add: FormatMatchingModelName_def handleThinkingBudgetModel_def go_has_prefix_def)

text \<open>Names of the family gpt never get past their own branch.\<close>

lemma gpt_prefix_mono: "go_has_prefix name (p @ q) \<Longrightarrow> go_has_prefix name p"
  by (auto simp: go_has_prefix_iff)

lemma gpt35_not_reached:
  assumes "go_has_prefix name ''gpt-3.5''"
  shows "getHardcodedCompletionModelRatio fl name =
    (if \<not> go_has_suffix name ''-all'' \<and> \<not> go_has_suffix name ''-gizmo-*'' \<and>
        (go_has_suffix name ''gpt-4-1106'' \<or> go_has_suffix name ''gpt-4-1105'') then (3, True) else (2, False))"
proof -
  obtain r where r: "name = ''gpt-3.5'' @ r" using assms by (auto simp: go_has_prefix_iff)
  have "go_has_prefix name ''gpt-''" "\<not> go_has_prefix name ''gpt-4o''" "\<not> go_has_prefix name ''gpt-5''"
    "\<not> go_has_prefix name ''gpt-4.5-preview''" "\<not> go_has_prefix name ''gpt-4-turbo''"
    by (simp_all add: r go_has_prefix_def)
  then show ?thesis by (simp add: getHardcodedCompletionModelRatio_def gpt_completion_def)
qed

section \<open>Properties\<close>

text \<open>
  C33. What the pricing page shows against what a request is billed. A model with a fixed price is
  billed by that price, whatever source is shown. A model without one is billed the ratio that is
  shown, unless the source is "none": then the page shows 0, the request is refused when neither
  self-use mode is on nor the user accepts models without a ratio, and is otherwise billed 37.5. The
  source "family_fallback" is shown exactly with the name of a family.
\<close>

theorem pricing_source_billed:
  "let ps = GetModelPricingSource fl rs name; unknown = (ps_Source ps = ''none'');
       (price, usePrice) = GetModelPrice rs name
   in (ps_Source ps = ''family_fallback'' \<longleftrightarrow> ps_Family ps \<noteq> []) \<and>
      (if unknown then ps_Ratio ps = 0 else True) \<and>
      (case ModelPriceHelper fl pe (ratio_tables_of fl rs) gri name promptTokens maxTokens ipr of
         None \<Rightarrow> \<not> usePrice \<and> unknown \<and> \<not> st_selfUseMode rs \<and> \<not> pe_acceptUnset pe
       | Some pd \<Rightarrow>
           if usePrice
           then pd_UsePrice pd \<and> pd_ModelPrice pd = (if ipr = 0 then price else fl (price * ipr)) \<and> pd_ModelRatio pd = 0
           else \<not> pd_UsePrice pd \<and> pd_ModelRatio pd = (if unknown then 75 / 2 else ps_Ratio ps) \<and>
                (if unknown then st_selfUseMode rs \<or> pe_acceptUnset pe else True))"
proof -
  obtain price use where price: "GetModelPrice rs name = (price, use)" by (metis prod.exhaust)
  obtain r ok n where ratio: "GetModelRatio fl rs name = (r, ok, n)" by (metis prod.exhaust)
  obtain res where res: "ModelPriceHelper fl pe (ratio_tables_of fl rs) gri name promptTokens maxTokens ipr = res"
    by simp
  have helper: "case res of
      None \<Rightarrow> \<not> use \<and> \<not> ok \<and> \<not> pe_acceptUnset pe
    | Some pd \<Rightarrow> if use
        then pd_UsePrice pd \<and> pd_ModelRatio pd = 0 \<and> pd_ModelPrice pd = (if ipr = 0 then price else fl (price * ipr))
        else \<not> pd_UsePrice pd \<and> pd_ModelRatio pd = r \<and> (ok \<or> pe_acceptUnset pe)"
    unfolding res [symmetric]
    by (cases use; cases ok; cases "pe_acceptUnset pe")
      (simp_all add: ModelPriceHelper_def ratio_tables_of_def price ratio Let_def)
  have src: "r = (if ps_Source (GetModelPricingSource fl rs name) = ''none'' then 75 / 2
                  else ps_Ratio (GetModelPricingSource fl rs name))"
      "ok = (ps_Source (GetModelPricingSource fl rs name) = ''none'' \<longrightarrow> st_selfUseMode rs)"
    using GetModelRatio_source [of fl rs name] ratio by (simp_all add: Let_def split: if_splits)
  show ?thesis
    using helper src pricing_source_shape [of fl rs name] unfolding res price Let_def prod.case
    by (cases res; cases use; cases "ps_Source (GetModelPricingSource fl rs name) = ''none''") simp_all
qed

text \<open>
  The branch for gpt-3.5 is never reached: every such name, gpt-3.5-turbo included, is decided by
  the branch for gpt- before it, which answers 2 and lets the table overrule it (or 3, for names that
  end like a gpt-4 snapshot), so its completion ratio is 2 unless the table has one.
\<close>

theorem gpt35_completion_unreached:
  assumes "go_has_prefix name ''gpt-3.5''" "CHR ''/'' \<notin> set name"
    "\<not> go_has_suffix name ''gpt-4-1106''" "\<not> go_has_suffix name ''gpt-4-1105''"
  shows "GetCompletionRatio fl rs name = ratio_or 2 (st_completionRatio rs) name"
proof -
  obtain r where r: "name = ''gpt-3.5'' @ r" using assms(1) by (auto simp: go_has_prefix_iff)
  have "FormatMatchingModelName name = name" by (simp add: FormatMatchingModelName_def r go_has_prefix_def)
  moreover have "getHardcodedCompletionModelRatio fl name = (2, False)"
    using gpt35_not_reached [OF assms(1)] assms(3,4) by simp
  ultimately show ?thesis by (simp add: GetCompletionRatio_def ratio_or_def assms(2) split: option.split)
qed

definition demo_settings :: ratio_settings where
  "demo_settings = \<lparr>st_modelPrice = [], st_defaultModelPrice = [], st_modelRatio = [], st_completionRatio = [],
     st_cacheRatio = [], st_createCacheRatio = [], st_imageRatio = [], st_audioRatio = [], st_audioCompletionRatio = [],
     st_groupRatio = [], st_groupGroupRatio = [], st_fallbackMarkup = 5 / 4, st_selfUseMode = False\<rparr>"

theorem gpt35_completion_unreached_witness:
  "GetCompletionRatio id demo_settings ''gpt-3.5-turbo'' = 2 \<and> gpt35_completion id ''gpt-3.5-turbo'' = (3, True)"
  using gpt35_completion_unreached [of "''gpt-3.5-turbo''" id demo_settings]
  by (simp add: ratio_or_def demo_settings_def go_has_prefix_def go_has_suffix_def gpt35_completion_def)

end
