(* ===== verification/Token_Access.thy ===== *)
theory Token_Access
  imports Net_Guard User_Ledger Channel_Select Model_Ratio
begin

text \<open>
  Access by token: \<^verbatim>\<open>internal/adapter/middleware/auth.go\<close> (\<^verbatim>\<open>TokenAuth\<close>, \<^verbatim>\<open>SetupContextForToken\<close>,
  \<^verbatim>\<open>PlaygroundAuth\<close>, \<^verbatim>\<open>authHelper\<close>) and the validation and limits of a token in
  \<^verbatim>\<open>internal/adapter/repo/token.go\<close>. Copies in Redis and the outcome of database statements are
  arguments. An abort is its status with a reason instead of the message.
\<close>

section \<open>Tokens\<close>

definition TokenStatusEnabled :: int where "TokenStatusEnabled = 1"
definition TokenStatusDisabled :: int where "TokenStatusDisabled = 2"
definition TokenStatusExpired :: int where "TokenStatusExpired = 3"
definition TokenStatusExhausted :: int where "TokenStatusExhausted = 4"
definition UserStatusEnabled :: int where "UserStatusEnabled = 1"
definition UserStatusDisabled :: int where "UserStatusDisabled = 2"
definition RoleCommonUser :: int where "RoleCommonUser = 1"
definition RoleAdminUser :: int where "RoleAdminUser = 10"
definition RoleRootUser :: int where "RoleRootUser = 100"

definition GetIpLimits :: "token \<Rightarrow> string list" where
  "GetIpLimits t =
     (case tk_AllowIps t of
        None \<Rightarrow> []
      | Some ips \<Rightarrow>
          (let cleanIps = filter (\<lambda>c. c \<noteq> CHR '' '') ips
           in if cleanIps = [] then []
              else filter (\<lambda>ip. ip \<noteq> [])
                (map (\<lambda>ip. filter (\<lambda>c. c \<noteq> CHR '','') (go_trim_space ip)) (go_split newline cleanIps))))"

definition GetModelLimits :: "token \<Rightarrow> string list" where
  "GetModelLimits t = (if tk_ModelLimits t = [] then [] else go_split (CHR '','') (tk_ModelLimits t))"

definition GetModelLimitsMap :: "token \<Rightarrow> (string, bool) gomap" where
  "GetModelLimitsMap t = fold (\<lambda>l m. gm_put m l True) (GetModelLimits t) []"

record token_env =
  te_redis :: bool
  te_cached_token :: "string \<Rightarrow> token option"
  te_db_ok :: bool
  te_update_ok :: bool
  te_now :: int
  te_cached_user :: "int \<Rightarrow> user option"      \<comment> \<open>\<^verbatim>\<open>cacheGetUserBase\<close>; nothing without Redis\<close>
  te_user_ok :: bool
  te_role_ok :: bool
  te_own :: string
  te_usable :: "(string, string) gomap"
  te_special :: "string \<Rightarrow> (string \<times> string) list option"
  te_ratios :: ratio_settings

datatype token_error =
    TkNoKey | TkExhausted | TkExpired | TkUnavailable | TkQuotaExhausted int | TkInvalid | TkInvalidDatabase

text \<open>The lookup by key: \<open>Inl True\<close> is a row that does not exist, \<open>Inl False\<close> another error.\<close>

definition lookup_token :: "token_env \<Rightarrow> string \<Rightarrow> ledger \<Rightarrow> bool + token" where
  "lookup_token env key lg =
     (case (if te_redis env then te_cached_token env key else None) of
        Some t \<Rightarrow> Inr t
      | None \<Rightarrow> if \<not> te_db_ok env then Inl False
          else (case find (\<lambda>t. tk_Key t = key) (map snd (lg_tokens lg)) of None \<Rightarrow> Inl True | Some t \<Rightarrow> Inr t))"

definition SelectUpdate :: "bool \<Rightarrow> token \<Rightarrow> ledger \<Rightarrow> ledger" where
  "SelectUpdate ok t lg =
     (if ok then lg\<lparr>lg_tokens := gm.modify (lg_tokens lg) (tk_Id t)
        (\<lambda>r. r\<lparr>tk_AccessedTime := tk_AccessedTime t, tk_Status := tk_Status t\<rparr>)\<rparr>
      else lg)"

text \<open>The token whose status changes, unless a Redis copy is in use.\<close>

definition mark_token :: "token_env \<Rightarrow> int \<Rightarrow> token \<Rightarrow> ledger \<Rightarrow> token \<times> ledger" where
  "mark_token env status t lg =
     (if te_redis env then (t, lg)
      else (let t1 = t\<lparr>tk_Status := status\<rparr> in (t1, SelectUpdate (te_update_ok env) t1 lg)))"

text \<open>The messages quote the first and the last three bytes of the key, which panics for shorter keys.\<close>

definition ValidateUserToken ::
    "token_env \<Rightarrow> string \<Rightarrow> ledger \<Rightarrow> (token option \<times> token_error option) res \<times> ledger" where
  "ValidateUserToken env key lg =
     (if key = [] then (Ok (None, Some TkNoKey), lg)
      else (case lookup_token env key lg of
        Inl missing \<Rightarrow> (Ok (None, Some (if missing then TkInvalid else TkInvalidDatabase)), lg)
      | Inr t \<Rightarrow>
          if tk_Status t = TokenStatusExhausted then
            (if length key < 3 then Panic else Ok (Some t, Some TkExhausted), lg)
          else if tk_Status t = TokenStatusExpired then (Ok (Some t, Some TkExpired), lg)
          else if tk_Status t \<noteq> TokenStatusEnabled then (Ok (Some t, Some TkUnavailable), lg)
          else if tk_ExpiredTime t \<noteq> -1 \<and> tk_ExpiredTime t < te_now env then
            (let (t1, lg1) = mark_token env TokenStatusExpired t lg in (Ok (Some t1, Some TkExpired), lg1))
          else if \<not> tk_UnlimitedQuota t \<and> tk_RemainQuota t \<le> 0 then
            (let (t1, lg1) = mark_token env TokenStatusExhausted t lg
             in (if length key < 3 then Panic else Ok (Some t1, Some (TkQuotaExhausted (tk_RemainQuota t))), lg1))
          else (Ok (Some t, None), lg)))"

section \<open>The credential in a request\<close>

record auth_request =
  aq_ws_protocol :: string      \<comment> \<open>header \<^verbatim>\<open>Sec-WebSocket-Protocol\<close>\<close>
  aq_path :: string
  aq_x_api_key :: string
  aq_query_key :: string
  aq_x_goog :: string
  aq_Authorization :: string
  aq_mj_secret :: string
  aq_client_ip :: string
  aq_id :: int                  \<comment> \<open>\<^verbatim>\<open>id\<close> in the context, 0 if it is not set\<close>
  aq_account :: "int option"    \<comment> \<open>\<^verbatim>\<open>identity_account_id\<close> in the context\<close>

definition ws_key :: "string \<Rightarrow> string" where
  "ws_key header =
     (case find (\<lambda>part. go_has_prefix part ''openai-insecure-api-key'') (map go_trim_space (go_split (CHR '','') header)) of
        None \<Rightarrow> header
      | Some part \<Rightarrow> go_trim_prefix part ''openai-insecure-api-key.'')"

text \<open>The header \<^verbatim>\<open>Authorization\<close> after the rewriting for websockets, Anthropic and Gemini clients.\<close>

definition authorization :: "auth_request \<Rightarrow> string" where
  "authorization r =
     (let a1 = (if aq_ws_protocol r \<noteq> [] then ''Bearer '' @ ws_key (aq_ws_protocol r) else aq_Authorization r);
          a2 = (if (go_contains (aq_path r) ''/v1/messages'' \<or> go_contains (aq_path r) ''/v1/models'') \<and> aq_x_api_key r \<noteq> []
                then ''Bearer '' @ aq_x_api_key r else a1);
          gemini = go_has_prefix (aq_path r) ''/v1beta/models'' \<or> go_has_prefix (aq_path r) ''/v1beta/openai/models'' \<or>
                   go_has_prefix (aq_path r) ''/v1/models/'';
          a3 = (if gemini \<and> aq_query_key r \<noteq> [] then ''Bearer '' @ aq_query_key r else a2)
      in if gemini \<and> aq_x_goog r \<noteq> [] then ''Bearer '' @ aq_x_goog r else a3)"

definition strip_bearer :: "string \<Rightarrow> string" where
  "strip_bearer key =
     (if go_has_prefix key ''Bearer '' \<or> go_has_prefix key ''bearer '' then go_trim_space (drop 7 key) else key)"

definition key_parts :: "auth_request \<Rightarrow> string list" where
  "key_parts r =
     (let key = strip_bearer (authorization r);
          key1 = (if key = [] \<or> key = ''midjourney-proxy'' then strip_bearer (aq_mj_secret r) else key)
      in go_split (CHR ''-'') (go_trim_prefix key1 ''sk-''))"

section \<open>The context of a token\<close>

record gin_ctx =
  gx_id :: int
  gx_token_id :: int
  gx_token_key :: string
  gx_token_name :: string
  gx_token_unlimited_quota :: bool
  gx_token_quota :: "int option"
  gx_model_limit_enabled :: bool
  gx_model_limit :: "(string, bool) gomap option"
  gx_token_group :: string
  gx_cross_group_retry :: bool
  gx_account :: "int option"
  gx_specific_channel_id :: "string option"
  gx_user :: "user option"          \<comment> \<open>what \<^verbatim>\<open>UserBaseWriteContext\<close> wrote\<close>
  gx_using_group :: string

definition empty_ctx :: "auth_request \<Rightarrow> gin_ctx" where
  "empty_ctx r = \<lparr>gx_id = aq_id r, gx_token_id = 0, gx_token_key = [], gx_token_name = [],
     gx_token_unlimited_quota = False, gx_token_quota = None, gx_model_limit_enabled = False, gx_model_limit = None,
     gx_token_group = [], gx_cross_group_retry = False, gx_account = aq_account r, gx_specific_channel_id = None,
     gx_user = None, gx_using_group = []\<rparr>"

definition IsAdmin :: "token_env \<Rightarrow> int \<Rightarrow> ledger \<Rightarrow> bool" where
  "IsAdmin env userId lg \<longleftrightarrow> userId \<noteq> 0 \<and> te_role_ok env \<and>
     RoleAdminUser \<le> (case gm_get (lg_users lg) userId of None \<Rightarrow> 0 | Some u \<Rightarrow> us_Role u)"

definition GetUserCache :: "token_env \<Rightarrow> int \<Rightarrow> ledger \<Rightarrow> user option" where
  "GetUserCache env userId lg =
     (case te_cached_user env userId of
        Some u \<Rightarrow> Some u
      | None \<Rightarrow> if userId = 0 \<or> \<not> te_user_ok env then None else gm_get (lg_users lg) userId)"

datatype auth_reason =
    ReToken token_error | ReClientIP | ReIPNotAllowed | ReUserUnavailable | ReUserBanned
  | ReGroupForbidden | ReGroupDeprecated | ReSpecificChannel
  | ReNotLoggedIn | ReSession | ReNoToken | ReTokenDisabled

datatype 'a gate = Pass 'a | AuthAbort int auth_reason

text \<open>\<open>False\<close> is the error for a channel named by a user who is no administrator.\<close>

definition SetupContextForToken :: "token_env \<Rightarrow> token \<Rightarrow> string list \<Rightarrow> ledger \<Rightarrow> gin_ctx \<Rightarrow> bool \<times> gin_ctx" where
  "SetupContextForToken env t parts lg cx =
     (let cx1 = cx\<lparr>gx_id := tk_UserId t, gx_token_id := tk_Id t, gx_token_key := tk_Key t, gx_token_name := tk_Name t,
                   gx_token_unlimited_quota := tk_UnlimitedQuota t\<rparr>;
          cx2 = (if \<not> tk_UnlimitedQuota t then cx1\<lparr>gx_token_quota := Some (tk_RemainQuota t)\<rparr> else cx1);
          cx3 = (if tk_ModelLimitsEnabled t
                 then cx2\<lparr>gx_model_limit_enabled := True, gx_model_limit := Some (GetModelLimitsMap t)\<rparr>
                 else cx2\<lparr>gx_model_limit_enabled := False\<rparr>);
          cx4 = cx3\<lparr>gx_token_group := tk_Group t, gx_cross_group_retry := tk_CrossGroupRetry t\<rparr>;
          cx5 = (if 0 < tk_IdentityAccountID t \<and> gx_account cx4 = None
                 then cx4\<lparr>gx_account := Some (tk_IdentityAccountID t)\<rparr> else cx4)
      in if 1 < length parts then
           (if IsAdmin env (tk_UserId t) lg then (True, cx5\<lparr>gx_specific_channel_id := Some (parts ! 1)\<rparr>) else (False, cx5))
         else (True, cx5))"

text \<open>The group a request uses, or why it may not.\<close>

definition token_group :: "token_env \<Rightarrow> user \<Rightarrow> token \<Rightarrow> auth_reason + string" where
  "token_group env u t =
     (if tk_Group t = [] then Inr (us_Group u)
      else if gm_get (GetUserUsableGroups (te_own env) (te_usable env) (te_special env) (us_Group u)) (tk_Group t) = None
      then Inl ReGroupForbidden
      else if \<not> ContainsGroupRatio (te_ratios env) (tk_Group t) \<and> tk_Group t \<noteq> ''auto'' then Inl ReGroupDeprecated
      else Inr (tk_Group t))"

definition TokenAuth :: "token_env \<Rightarrow> auth_request \<Rightarrow> ledger \<Rightarrow> gin_ctx gate res \<times> ledger" where
  "TokenAuth env r lg =
     (let parts = key_parts r; (v, lg1) = ValidateUserToken env (hd parts) lg
      in case v of
           Panic \<Rightarrow> (Panic, lg1)
         | Err m \<Rightarrow> (Err m, lg1)
         | Ok (_, Some e) \<Rightarrow> (Ok (AuthAbort 401 (ReToken e)), lg1)
         | Ok (None, None) \<Rightarrow> (Panic, lg1)
         | Ok (Some t, None) \<Rightarrow>
             (let cx = (empty_ctx r)\<lparr>gx_id := if aq_id r = 0 then tk_UserId t else aq_id r\<rparr>;
                  allowIps = GetIpLimits t;
                  ip = net_ParseIP (aq_client_ip r)
              in if allowIps \<noteq> [] \<and> ip = None then (Ok (AuthAbort 403 ReClientIP), lg1)
                 else if allowIps \<noteq> [] \<and> \<not> IsIpInCIDRList (the ip) allowIps then (Ok (AuthAbort 403 ReIPNotAllowed), lg1)
                 else (case GetUserCache env (tk_UserId t) lg1 of
                         None \<Rightarrow> (Ok (AuthAbort 500 ReUserUnavailable), lg1)
                       | Some u \<Rightarrow>
                           if us_Status u \<noteq> UserStatusEnabled then (Ok (AuthAbort 403 ReUserBanned), lg1)
                           else (case token_group env u t of
                                   Inl e \<Rightarrow> (Ok (AuthAbort 403 e), lg1)
                                 | Inr g \<Rightarrow>
                                     (case SetupContextForToken env t parts lg1 (cx\<lparr>gx_user := Some u, gx_using_group := g\<rparr>) of
                                        (True, cx1) \<Rightarrow> (Ok (Pass cx1), lg1)
                                      | (False, _) \<Rightarrow> (Ok (AuthAbort 403 ReSpecificChannel), lg1))))))"

section \<open>The playground\<close>

text \<open>
  A session instead of a token: its user id (\<open>None\<close> without one, \<open>Some None\<close> when it is no number),
  the answer for the user's newest tokens, and the key generated for a default token (\<open>None\<close> when
  that fails), with its row id.
\<close>

record playground_env =
  pg_session_id :: "int option option"
  pg_list_ok :: bool
  pg_new_key :: "(string \<times> int) option"

definition newest_token :: "int \<Rightarrow> ledger \<Rightarrow> token option" where
  "newest_token userId lg =
     (case sort_key (\<lambda>t. - tk_Id t) (filter (\<lambda>t. tk_UserId t = userId) (map snd (lg_tokens lg))) of
        [] \<Rightarrow> None | t # ts \<Rightarrow> Some t)"

definition default_token :: "int \<Rightarrow> int \<Rightarrow> string \<Rightarrow> int \<Rightarrow> token" where
  "default_token now userId key i = \<lparr>tk_Id = i, tk_UserId = userId, tk_TenantId = ''default'', tk_Key = key,
     tk_Status = TokenStatusEnabled, tk_Name = ''default'', tk_CreatedTime = now, tk_AccessedTime = now,
     tk_ExpiredTime = -1, tk_RemainQuota = 0, tk_UnlimitedQuota = True, tk_ModelLimitsEnabled = False,
     tk_ModelLimits = [], tk_AllowIps = None, tk_UsedQuota = 0, tk_Group = [], tk_CrossGroupRetry = False,
     tk_IdentityAccountID = 0\<rparr>"

definition AutoCreateDefaultToken :: "bool \<Rightarrow> int \<Rightarrow> int \<Rightarrow> (string \<times> int) option \<Rightarrow> ledger \<Rightarrow> token option \<times> ledger" where
  "AutoCreateDefaultToken insert_ok now userId key lg =
     (case key of
        None \<Rightarrow> (None, lg)
      | Some (k, i) \<Rightarrow>
          if insert_ok then (let t = default_token now userId k i in (Some t, lg\<lparr>lg_tokens := gm_put (lg_tokens lg) i t\<rparr>))
          else (None, lg))"

definition PlaygroundAuth :: "token_env \<Rightarrow> playground_env \<Rightarrow> auth_request \<Rightarrow> ledger \<Rightarrow> gin_ctx gate res \<times> ledger" where
  "PlaygroundAuth env pg r lg =
     (if aq_Authorization r \<noteq> [] then TokenAuth env r lg
      else (case pg_session_id pg of
        None \<Rightarrow> (Ok (AuthAbort 401 ReNotLoggedIn), lg)
      | Some None \<Rightarrow> (Ok (AuthAbort 401 ReSession), lg)
      | Some (Some userId) \<Rightarrow>
          (let (t, lg1) = (case (if pg_list_ok pg then newest_token userId lg else None) of
                             Some t \<Rightarrow> (Some t, lg)
                           | None \<Rightarrow> AutoCreateDefaultToken (te_update_ok env) (te_now env) userId (pg_new_key pg) lg)
           in case t of
                None \<Rightarrow> (Ok (AuthAbort 500 ReNoToken), lg1)
              | Some t \<Rightarrow>
                  if tk_Status t \<noteq> TokenStatusEnabled then (Ok (AuthAbort 403 ReTokenDisabled), lg1)
                  else (Ok (Pass (snd (SetupContextForToken env t [] lg1 ((empty_ctx r)\<lparr>gx_id := tk_UserId t\<rparr>)))), lg1))))"

section \<open>Token or JWT\<close>

text \<open>The token branch of \<^verbatim>\<open>FlexAuth\<close>: the user, the token and its name that the context gets.\<close>

definition flexAuthViaToken :: "token_env \<Rightarrow> string \<Rightarrow> ledger \<Rightarrow> (int \<times> int \<times> string) gate res \<times> ledger" where
  "flexAuthViaToken env rawKey lg =
     (let key = hd (go_split (CHR ''-'') (go_trim_prefix rawKey ''sk-'')); (v, lg1) = ValidateUserToken env key lg
      in case v of
           Panic \<Rightarrow> (Panic, lg1)
         | Err m \<Rightarrow> (Err m, lg1)
         | Ok (_, Some e) \<Rightarrow> (Ok (AuthAbort 401 (ReToken e)), lg1)
         | Ok (None, None) \<Rightarrow> (Panic, lg1)
         | Ok (Some t, None) \<Rightarrow>
             (case GetUserCache env (tk_UserId t) lg1 of
                None \<Rightarrow> (Ok (AuthAbort 500 ReUserUnavailable), lg1)
              | Some u \<Rightarrow> if us_Status u \<noteq> UserStatusEnabled then (Ok (AuthAbort 403 ReUserBanned), lg1)
                          else (Ok (Pass (tk_UserId t, tk_Id t, tk_Name t)), lg1)))"

section \<open>Lemmas\<close>

lemmas token_status_defs = TokenStatusEnabled_def TokenStatusDisabled_def TokenStatusExpired_def TokenStatusExhausted_def

definition token_valid :: "token_env \<Rightarrow> token \<Rightarrow> bool" where
  "token_valid env t \<longleftrightarrow> tk_Status t = TokenStatusEnabled \<and> (tk_ExpiredTime t = -1 \<or> te_now env \<le> tk_ExpiredTime t) \<and>
     (tk_UnlimitedQuota t \<or> 0 < tk_RemainQuota t)"

lemma ValidateUserToken_valid:
  "ValidateUserToken env key lg = (Ok (v, None), lg') \<longleftrightarrow>
     lg' = lg \<and> key \<noteq> [] \<and> (\<exists>t. v = Some t \<and> lookup_token env key lg = Inr t \<and> token_valid env t)"
  by (cases "lookup_token env key lg")
    (auto simp: ValidateUserToken_def token_valid_def token_status_defs Let_def split: prod.split)

lemma ValidateUserToken_not_Err: "fst (ValidateUserToken env key lg) \<noteq> Err m"
  by (auto simp: ValidateUserToken_def Let_def split: prod.split sum.split)

text \<open>The error of a token that was found is the first of the checks that fails.\<close>

lemma ValidateUserToken_long_keys:
  "3 \<le> length key \<Longrightarrow> fst (ValidateUserToken env key lg) \<noteq> Panic"
  by (auto simp: ValidateUserToken_def Let_def split: prod.split sum.split)

text \<open>Validation writes nothing but the status and access time of the token it refuses.\<close>

lemma ValidateUserToken_writes:
  assumes "ValidateUserToken env key lg = (r, lg')"
  shows "lg_users lg' = lg_users lg \<and> lg_batch lg' = lg_batch lg \<and> lg_channel_used lg' = lg_channel_used lg \<and>
    (lg' = lg \<or> (\<exists>t. lookup_token env key lg = Inr t \<and> \<not> token_valid env t \<and> \<not> te_redis env \<and>
       (\<exists>st \<in> {TokenStatusExpired, TokenStatusExhausted}. lg' = SelectUpdate (te_update_ok env) (t\<lparr>tk_Status := st\<rparr>) lg)))"
  using assms by (cases "lookup_token env key lg")
    (auto simp: ValidateUserToken_def mark_token_def SelectUpdate_def token_valid_def token_status_defs Let_def
      split: if_splits)

lemma key_parts_nonempty: "key_parts r \<noteq> []"
  by (simp add: key_parts_def Let_def)

text \<open>Where the request comes from and who may use which channel.\<close>

definition ip_admitted :: "token \<Rightarrow> string \<Rightarrow> bool" where
  "ip_admitted t clientIp \<longleftrightarrow> GetIpLimits t = [] \<or>
     (\<exists>ip. net_ParseIP clientIp = Some ip \<and> IsIpInCIDRList ip (GetIpLimits t))"

lemma SetupContextForToken_passes:
  "fst (SetupContextForToken env t parts lg cx) \<longleftrightarrow> (1 < length parts \<longrightarrow> IsAdmin env (tk_UserId t) lg)"
  by (simp add: SetupContextForToken_def Let_def)

definition access_granted :: "token_env \<Rightarrow> auth_request \<Rightarrow> ledger \<Rightarrow> token \<Rightarrow> user \<Rightarrow> string \<Rightarrow> bool" where
  "access_granted env r lg t u g \<longleftrightarrow>
     hd (key_parts r) \<noteq> [] \<and> lookup_token env (hd (key_parts r)) lg = Inr t \<and> token_valid env t \<and>
     ip_admitted t (aq_client_ip r) \<and> GetUserCache env (tk_UserId t) lg = Some u \<and> us_Status u = UserStatusEnabled \<and>
     token_group env u t = Inr g \<and> (1 < length (key_parts r) \<longrightarrow> IsAdmin env (tk_UserId t) lg)"

lemma case_flag: "(case p of (True, x) \<Rightarrow> f x | (False, y) \<Rightarrow> b) = (if fst p then f (snd p) else b)"
  by (cases p) simp

lemma TokenAuth_passes:
  "TokenAuth env r lg = (Ok (Pass cx), lg') \<longleftrightarrow>
     lg' = lg \<and> (\<exists>t u g. access_granted env r lg t u g \<and>
       cx = snd (SetupContextForToken env t (key_parts r) lg
              ((empty_ctx r)\<lparr>gx_id := if aq_id r = 0 then tk_UserId t else aq_id r, gx_user := Some u, gx_using_group := g\<rparr>)))"
proof (cases "ValidateUserToken env (hd (key_parts r)) lg")
  case (Pair v lg1)
  show ?thesis
  proof (cases "\<exists>t. v = Ok (Some t, None)")
    case True
    then obtain t where t: "ValidateUserToken env (hd (key_parts r)) lg = (Ok (Some t, None), lg1)" using Pair by blast
    have val: "lg1 = lg" "hd (key_parts r) \<noteq> []" "lookup_token env (hd (key_parts r)) lg = Inr t" "token_valid env t"
      using t by (auto simp: ValidateUserToken_valid)
    have granted: "access_granted env r lg t' u g \<longleftrightarrow> t' = t \<and> ip_admitted t (aq_client_ip r) \<and>
        GetUserCache env (tk_UserId t) lg = Some u \<and> us_Status u = UserStatusEnabled \<and> token_group env u t = Inr g \<and>
        (1 < length (key_parts r) \<longrightarrow> IsAdmin env (tk_UserId t) lg)" for t' u g
      using val(2-4) by (auto simp: access_granted_def)
    define cx0 where "cx0 = (empty_ctx r)\<lparr>gx_id := if aq_id r = 0 then tk_UserId t else aq_id r\<rparr>"
    have ip: "(if L \<noteq> [] \<and> i = None then A else if L \<noteq> [] \<and> \<not> IsIpInCIDRList (the i) L then B else C) =
        (if L = [] \<or> (\<exists>a. i = Some a \<and> IsIpInCIDRList a L) then C else if i = None then A else B)" for L i and A B C :: "gin_ctx gate res \<times> ledger"
      by (cases i) auto
    show ?thesis
      unfolding TokenAuth_def Let_def t val(1) prod.case res.case option.case case_flag SetupContextForToken_passes ip
        ip_admitted_def [symmetric] cx0_def [symmetric] granted
      by (cases "GetUserCache env (tk_UserId t) lg") (auto simp: cx0_def split: sum.split)
  next
    case False
    have "\<not> access_granted env r lg t u g" for t u g
    proof
      assume "access_granted env r lg t u g"
      then have "ValidateUserToken env (hd (key_parts r)) lg = (Ok (Some t, None), lg)"
        by (auto simp: access_granted_def ValidateUserToken_valid)
      then show False using Pair False by auto
    qed
    moreover have "TokenAuth env r lg \<noteq> (Ok (Pass cx), lg')"
      using Pair False unfolding TokenAuth_def Let_def
      by (cases v) (auto split: option.splits)
    ultimately show ?thesis by blast
  qed
qed

lemma setup_fields:
  "cx = snd (SetupContextForToken env t parts lg cx0) \<Longrightarrow>
   gx_id cx = tk_UserId t \<and> gx_token_id cx = tk_Id t \<and> gx_token_key cx = tk_Key t \<and> gx_token_name cx = tk_Name t \<and>
   gx_cross_group_retry cx = tk_CrossGroupRetry t \<and>
   gx_token_unlimited_quota cx = tk_UnlimitedQuota t \<and> gx_token_group cx = tk_Group t \<and>
   gx_using_group cx = gx_using_group cx0 \<and> gx_user cx = gx_user cx0 \<and>
   gx_model_limit_enabled cx = tk_ModelLimitsEnabled t \<and>
   gx_model_limit cx = (if tk_ModelLimitsEnabled t then Some (GetModelLimitsMap t) else gx_model_limit cx0) \<and>
   gx_token_quota cx = (if tk_UnlimitedQuota t then gx_token_quota cx0 else Some (tk_RemainQuota t)) \<and>
   gx_specific_channel_id cx = (if 1 < length parts \<and> IsAdmin env (tk_UserId t) lg then Some (parts ! 1) else gx_specific_channel_id cx0) \<and>
   gx_account cx = (if 0 < tk_IdentityAccountID t \<and> gx_account cx0 = None then Some (tk_IdentityAccountID t) else gx_account cx0)"
  by (simp add: SetupContextForToken_def Let_def split: if_splits)

text \<open>
  What later middlewares may rely on: the types and the dependencies between the keys of a context.
  The quota of a limited token is there and positive, the map of models is there exactly when the
  limit is on, the user is enabled, and a channel is named only by an administrator.
\<close>

definition ctx_typed :: "token_env \<Rightarrow> ledger \<Rightarrow> gin_ctx \<Rightarrow> bool" where
  "ctx_typed env lg cx \<longleftrightarrow>
     (gx_model_limit_enabled cx \<longleftrightarrow> gx_model_limit cx \<noteq> None) \<and>
     (gx_token_unlimited_quota cx \<longleftrightarrow> gx_token_quota cx = None) \<and>
     (\<forall>q. gx_token_quota cx = Some q \<longrightarrow> 0 < q) \<and>
     (\<exists>u. gx_user cx = Some u \<and> us_Status u = UserStatusEnabled) \<and>
     (gx_specific_channel_id cx \<noteq> None \<longrightarrow> IsAdmin env (gx_id cx) lg)"

lemma granted_ctx_typed:
  assumes "access_granted env r lg t u g" "gx_user cx0 = Some u" "gx_model_limit cx0 = None" "gx_token_quota cx0 = None"
    "gx_specific_channel_id cx0 = None" "cx = snd (SetupContextForToken env t (key_parts r) lg cx0)"
  shows "ctx_typed env lg cx"
  using assms(1-5) setup_fields [OF assms(6)] by (auto simp: ctx_typed_def access_granted_def token_valid_def)

text \<open>
  The context of the token \<open>t\<close> and the user \<open>u\<close>: key by key the values of the two rows and of the
  request.
\<close>

definition ctx_matches :: "auth_request \<Rightarrow> token \<Rightarrow> user \<Rightarrow> gin_ctx \<Rightarrow> bool" where
  "ctx_matches r t u cx \<longleftrightarrow>
     gx_id cx = tk_UserId t \<and> gx_token_id cx = tk_Id t \<and> gx_token_key cx = tk_Key t \<and> gx_token_name cx = tk_Name t \<and>
     gx_token_unlimited_quota cx = tk_UnlimitedQuota t \<and>
     gx_token_quota cx = (if tk_UnlimitedQuota t then None else Some (tk_RemainQuota t)) \<and>
     gx_model_limit_enabled cx = tk_ModelLimitsEnabled t \<and>
     gx_model_limit cx = (if tk_ModelLimitsEnabled t then Some (GetModelLimitsMap t) else None) \<and>
     gx_token_group cx = tk_Group t \<and> gx_cross_group_retry cx = tk_CrossGroupRetry t \<and>
     gx_account cx = (case aq_account r of Some a \<Rightarrow> Some a
        | None \<Rightarrow> if 0 < tk_IdentityAccountID t then Some (tk_IdentityAccountID t) else None) \<and>
     gx_specific_channel_id cx = (if 1 < length (key_parts r) then Some (key_parts r ! 1) else None) \<and>
     gx_user cx = Some u \<and> gx_using_group cx = (if tk_Group t = [] then us_Group u else tk_Group t)"

lemma find_SomeD: "find P xs = Some x \<Longrightarrow> x \<in> set xs \<and> P x"
  by (metis find_Some_iff nth_mem)

lemma granted_ctx_matches:
  assumes "access_granted env r lg t u g"
    "cx = snd (SetupContextForToken env t (key_parts r) lg
       ((empty_ctx r)\<lparr>gx_id := i, gx_user := Some u, gx_using_group := g\<rparr>))"
  shows "ctx_matches r t u cx"
proof -
  have g: "g = (if tk_Group t = [] then us_Group u else tk_Group t)"
    "1 < length (key_parts r) \<Longrightarrow> IsAdmin env (tk_UserId t) lg"
    using assms(1) by (auto simp: access_granted_def token_group_def split: if_splits)
  show ?thesis
    using setup_fields [OF assms(2)] g unfolding ctx_matches_def
    by (cases "aq_account r") (simp_all add: empty_ctx_def)
qed

section \<open>Properties\<close>

text \<open>
  C5. A request passes exactly when its credential is the key of a token that is enabled, not expired
  and not used up, its address is one the token admits, the user of the token exists and is enabled,
  the group of the token may be used by the user and has a ratio (or is auto), and a channel is named
  in the key only by an administrator; then nothing is written and the context carries the token.
\<close>

theorem token_access_iff:
  "((\<exists>cx lg'. TokenAuth env r lg = (Ok (Pass cx), lg')) \<longleftrightarrow> (\<exists>t u g. access_granted env r lg t u g)) \<and>
   (TokenAuth env r lg = (Ok (Pass cx), lg') \<longrightarrow> lg' = lg \<and>
     (\<exists>t u g. access_granted env r lg t u g \<and> gx_id cx = tk_UserId t \<and> gx_token_id cx = tk_Id t \<and> gx_using_group cx = g \<and>
        gx_user cx = Some u \<and> gx_model_limit cx = (if tk_ModelLimitsEnabled t then Some (GetModelLimitsMap t) else None)))"
proof -
  have fields: "gx_id cx = tk_UserId t \<and> gx_token_id cx = tk_Id t \<and> gx_using_group cx = g \<and> gx_user cx = Some u \<and>
      gx_model_limit cx = (if tk_ModelLimitsEnabled t then Some (GetModelLimitsMap t) else None)"
    if "cx = snd (SetupContextForToken env t (key_parts r) lg
          ((empty_ctx r)\<lparr>gx_id := if aq_id r = 0 then tk_UserId t else aq_id r, gx_user := Some u, gx_using_group := g\<rparr>))" for t u g
    using setup_fields [OF that] by (simp add: empty_ctx_def)
  show ?thesis unfolding TokenAuth_passes using fields by blast
qed

text \<open>
  C34. The context of an admitted request holds the values of the token its key names and of that
  token's user, key by key: identifiers, name, quota, model limits, groups, account, named channel. They are the
  values of the rows of the ledger where no Redis copy of the token and no cached copy of the user is
  in use, and of those copies otherwise. The context is also well typed: a limited token's quota
  is there and positive, the map of models is there exactly when the limit is on, the user is there and
  enabled, and a channel is named only by an administrator.
\<close>

theorem token_context_typed:
  assumes "TokenAuth env r lg = (Ok (Pass cx), lg')"
  shows "\<exists>t u. lookup_token env (hd (key_parts r)) lg = Inr t \<and> token_valid env t \<and>
      GetUserCache env (tk_UserId t) lg = Some u \<and> ctx_matches r t u cx \<and> ctx_typed env lg cx \<and>
      (te_redis env \<or> t \<in> snd ` set (lg_tokens lg) \<and> tk_Key t = hd (key_parts r)) \<and>
      (te_cached_user env (tk_UserId t) \<noteq> None \<or> gm_get (lg_users lg) (tk_UserId t) = Some u)"
proof -
  obtain t u g where g: "access_granted env r lg t u g"
    and cx: "cx = snd (SetupContextForToken env t (key_parts r) lg
       ((empty_ctx r)\<lparr>gx_id := if aq_id r = 0 then tk_UserId t else aq_id r, gx_user := Some u, gx_using_group := g\<rparr>))"
    using assms by (auto simp: TokenAuth_passes)
  have "ctx_typed env lg cx" using g cx by (intro granted_ctx_typed) (simp_all add: empty_ctx_def)
  moreover have "te_redis env \<or> t \<in> snd ` set (lg_tokens lg) \<and> tk_Key t = hd (key_parts r)"
    using g by (auto simp: access_granted_def lookup_token_def dest!: find_SomeD split: if_splits option.splits)
  moreover have "te_cached_user env (tk_UserId t) \<noteq> None \<or> gm_get (lg_users lg) (tk_UserId t) = Some u"
    using g by (auto simp: access_granted_def GetUserCache_def split: if_splits option.splits)
  ultimately show ?thesis
    using g granted_ctx_matches [OF g cx] by (auto simp: access_granted_def)
qed

text \<open>
  The playground asks for less: with a session, the newest token of the user is taken if its
  status is enabled, whether or not it has expired, is used up, may be used from this address, or its
  user is banned; and no group is set.
\<close>

theorem playground_unchecked:
  assumes "aq_Authorization r = []" "pg_session_id pg = Some (Some userId)" "pg_list_ok pg"
    "newest_token userId lg = Some t" "tk_Status t = TokenStatusEnabled"
  shows "\<exists>cx. PlaygroundAuth env pg r lg = (Ok (Pass cx), lg) \<and> gx_id cx = tk_UserId t \<and> gx_token_id cx = tk_Id t \<and>
    gx_user cx = None \<and> gx_using_group cx = []"
proof -
  define cx where "cx = snd (SetupContextForToken env t [] lg ((empty_ctx r)\<lparr>gx_id := tk_UserId t\<rparr>))"
  have "PlaygroundAuth env pg r lg = (Ok (Pass cx), lg)"
    using assms by (simp add: PlaygroundAuth_def cx_def)
  then show ?thesis using setup_fields [OF cx_def] by (simp add: empty_ctx_def)
qed

section \<open>Examples\<close>

definition demo_token_env :: token_env where
  "demo_token_env = \<lparr>te_redis = False, te_cached_token = (\<lambda>_. None), te_db_ok = True, te_update_ok = True, te_now = 1000,
     te_cached_user = (\<lambda>_. None), te_user_ok = True, te_role_ok = True, te_own = [], te_usable = [], te_special = (\<lambda>_. None),
     te_ratios = demo_settings\<rparr>"

definition demo_auth_request :: auth_request where
  "demo_auth_request = \<lparr>aq_ws_protocol = [], aq_path = ''/v1/chat/completions'', aq_x_api_key = [], aq_query_key = [],
     aq_x_goog = [], aq_Authorization = ''Bearer sk-abcd'', aq_mj_secret = [], aq_client_ip = ''10.0.0.9'', aq_id = 0,
     aq_account = None\<rparr>"

definition access_token_row :: token where
  "access_token_row = (default_token 0 7 ''abcd'' 5)\<lparr>tk_AllowIps := Some ''10.0.0.0/8'', tk_ExpiredTime := 2000,
     tk_ModelLimitsEnabled := True, tk_ModelLimits := ''gpt-4o,o3''\<rparr>"

definition access_user_row :: user where
  "access_user_row = \<lparr>us_Id = 7, us_TenantId = ''default'', us_Username = ''ann'', us_DisplayName = [], us_Role = 1,
     us_Status = UserStatusEnabled, us_Email = [], us_AccessToken = None, us_Quota = 10, us_UsedQuota = 0, us_RequestCount = 0,
     us_Group = ''vip'', us_DailyQuota = 0, us_DailyUsed = 0, us_LastDailyReset = 0, us_BaseGroup = [], us_FallbackGroup = [],
     us_Setting = [], us_Remark = []\<rparr>"

definition access_ledger :: ledger where
  "access_ledger = \<lparr>lg_users = [(7, access_user_row)], lg_tokens = [(5, access_token_row)], lg_channel_used = [], lg_batch = (\<lambda>_. [])\<rparr>"

lemma demo_granted: "access_granted demo_token_env demo_auth_request access_ledger access_token_row access_user_row ''vip''"
proof -
  have k: "key_parts demo_auth_request = [''abcd'']" by code_simp
  have ip: "ip_admitted access_token_row ''10.0.0.9''"
  proof -
    have "GetIpLimits access_token_row = [''10.0.0.0/8'']" by code_simp
    moreover have "net_ParseIP ''10.0.0.9'' = Some (v4 0x0A000009)" by code_simp
    moreover have "IsIpInCIDRList (v4 0x0A000009) [''10.0.0.0/8'']" by code_simp
    ultimately show ?thesis by (simp add: ip_admitted_def)
  qed
  show ?thesis
    using k ip by (simp add: access_granted_def lookup_token_def demo_token_env_def access_ledger_def access_token_row_def
        default_token_def token_valid_def GetUserCache_def gm_get_def access_user_row_def token_group_def demo_auth_request_def)
qed

theorem token_access_iff_witness:
  "\<exists>cx. TokenAuth demo_token_env demo_auth_request access_ledger = (Ok (Pass cx), access_ledger) \<and> gx_using_group cx = ''vip''"
proof -
  obtain cx lg' where c: "TokenAuth demo_token_env demo_auth_request access_ledger = (Ok (Pass cx), lg')"
    using token_access_iff [of demo_token_env demo_auth_request access_ledger] demo_granted by blast
  then obtain t u g where g: "access_granted demo_token_env demo_auth_request access_ledger t u g" "gx_using_group cx = g" "lg' = access_ledger"
    using token_access_iff [of demo_token_env demo_auth_request access_ledger cx lg'] by blast
  have "g = ''vip''" using g(1) demo_granted by (auto simp: access_granted_def)
  then show ?thesis using c g by blast
qed

theorem token_context_typed_witness:
  "\<exists>cx. TokenAuth demo_token_env demo_auth_request access_ledger = (Ok (Pass cx), access_ledger) \<and>
     ctx_matches demo_auth_request access_token_row access_user_row cx \<and> gx_using_group cx = ''vip''"
proof -
  obtain cx where c: "TokenAuth demo_token_env demo_auth_request access_ledger = (Ok (Pass cx), access_ledger)"
    using demo_granted by (auto simp: TokenAuth_passes)
  have "lookup_token demo_token_env (hd (key_parts demo_auth_request)) access_ledger = Inr access_token_row"
    "GetUserCache demo_token_env (tk_UserId access_token_row) access_ledger = Some access_user_row"
    using demo_granted by (simp_all add: access_granted_def)
  then have m: "ctx_matches demo_auth_request access_token_row access_user_row cx"
    using token_context_typed [OF c] by auto
  then have "gx_using_group cx = ''vip''"
    by (simp add: ctx_matches_def access_user_row_def access_token_row_def default_token_def)
  with m c show ?thesis by blast
qed

definition banned_ledger :: ledger where
  "banned_ledger = access_ledger\<lparr>lg_users := [(7, access_user_row\<lparr>us_Status := UserStatusDisabled\<rparr>)],
     lg_tokens := [(5, access_token_row\<lparr>tk_ExpiredTime := 10\<rparr>)]\<rparr>"

theorem playground_unchecked_witness:
  "(\<exists>cx. PlaygroundAuth demo_token_env \<lparr>pg_session_id = Some (Some 7), pg_list_ok = True, pg_new_key = None\<rparr>
      (demo_auth_request\<lparr>aq_Authorization := []\<rparr>) banned_ledger = (Ok (Pass cx), banned_ledger) \<and> gx_id cx = 7) \<and>
   (\<forall>cx lg'. TokenAuth demo_token_env demo_auth_request banned_ledger \<noteq> (Ok (Pass cx), lg'))"
proof
  let ?t = "access_token_row\<lparr>tk_ExpiredTime := 10\<rparr>"
  have "newest_token 7 banned_ledger = Some ?t"
    by (simp add: newest_token_def banned_ledger_def access_token_row_def default_token_def)
  moreover have "tk_Status ?t = TokenStatusEnabled" "tk_UserId ?t = 7" by (simp_all add: access_token_row_def default_token_def)
  ultimately show "\<exists>cx. PlaygroundAuth demo_token_env \<lparr>pg_session_id = Some (Some 7), pg_list_ok = True, pg_new_key = None\<rparr>
      (demo_auth_request\<lparr>aq_Authorization := []\<rparr>) banned_ledger = (Ok (Pass cx), banned_ledger) \<and> gx_id cx = 7"
    using playground_unchecked [of "demo_auth_request\<lparr>aq_Authorization := []\<rparr>"
        "\<lparr>pg_session_id = Some (Some 7), pg_list_ok = True, pg_new_key = None\<rparr>" 7 banned_ledger ?t demo_token_env] by auto
  have "\<not> access_granted demo_token_env demo_auth_request banned_ledger t u g" for t u g
    by (auto simp: access_granted_def lookup_token_def demo_token_env_def banned_ledger_def token_valid_def access_token_row_def
        default_token_def split: if_splits)
  then show "\<forall>cx lg'. TokenAuth demo_token_env demo_auth_request banned_ledger \<noteq> (Ok (Pass cx), lg')"
    by (auto simp: TokenAuth_passes)
qed

end
