(* ===== verification/Request_Model.thy ===== *)
theory Request_Model
  imports Go_Base
begin

text \<open>
  Which model a request asks for: \<^verbatim>\<open>getModelRequest\<close> of \<^verbatim>\<open>internal/adapter/middleware/distributor.go\<close>,
  the relay modes of \<^verbatim>\<open>internal/adapter/provider/constant/relay_mode.go\<close>, the model names of tasks
  (\<^verbatim>\<open>internal/app/midjourney.go\<close>, \<^verbatim>\<open>task.go\<close>) and the mapping of model names of a channel
  (\<^verbatim>\<open>internal/app/relay/helper/model_mapped.go\<close>). What decoding the body gives is an argument.
\<close>

section \<open>Relay modes\<close>

datatype relay_mode =
    RelayModeUnknown | RelayModeChatCompletions | RelayModeCompletions | RelayModeEmbeddings | RelayModeModerations
  | RelayModeImagesGenerations | RelayModeImagesEdits | RelayModeEdits
  | RelayModeMidjourneyImagine | RelayModeMidjourneyDescribe | RelayModeMidjourneyBlend | RelayModeMidjourneyChange
  | RelayModeMidjourneySimpleChange | RelayModeMidjourneyNotify | RelayModeMidjourneyTaskFetch
  | RelayModeMidjourneyTaskImageSeed | RelayModeMidjourneyTaskFetchByCondition | RelayModeMidjourneyAction
  | RelayModeMidjourneyModal | RelayModeMidjourneyShorten | RelayModeSwapFace | RelayModeMidjourneyUpload
  | RelayModeMidjourneyVideo | RelayModeMidjourneyEdits
  | RelayModeAudioSpeech | RelayModeAudioTranscription | RelayModeAudioTranslation
  | RelayModeSunoFetch | RelayModeSunoFetchByID | RelayModeSunoSubmit
  | RelayModeVideoFetchByID | RelayModeVideoSubmit | RelayModeMusicSubmit | RelayModeMusicFetchByID
  | RelayModeRerank | RelayModeResponses | RelayModeRealtime | RelayModeGemini

definition Path2RelayModeMidjourney :: "string \<Rightarrow> relay_mode" where
  "Path2RelayModeMidjourney path =
     (if go_has_suffix path ''/mj/submit/action'' then RelayModeMidjourneyAction
      else if go_has_suffix path ''/mj/submit/modal'' then RelayModeMidjourneyModal
      else if go_has_suffix path ''/mj/submit/shorten'' then RelayModeMidjourneyShorten
      else if go_has_suffix path ''/mj/insight-face/swap'' then RelayModeSwapFace
      else if go_has_suffix path ''/submit/upload-discord-images'' then RelayModeMidjourneyUpload
      else if go_has_suffix path ''/mj/submit/imagine'' then RelayModeMidjourneyImagine
      else if go_has_suffix path ''/mj/submit/video'' then RelayModeMidjourneyVideo
      else if go_has_suffix path ''/mj/submit/edits'' then RelayModeMidjourneyEdits
      else if go_has_suffix path ''/mj/submit/blend'' then RelayModeMidjourneyBlend
      else if go_has_suffix path ''/mj/submit/describe'' then RelayModeMidjourneyDescribe
      else if go_has_suffix path ''/mj/notify'' then RelayModeMidjourneyNotify
      else if go_has_suffix path ''/mj/submit/change'' then RelayModeMidjourneyChange
      else if go_has_suffix path ''/mj/submit/simple-change'' then RelayModeMidjourneyChange
      else if go_has_suffix path ''/fetch'' then RelayModeMidjourneyTaskFetch
      else if go_has_suffix path ''/image-seed'' then RelayModeMidjourneyTaskImageSeed
      else if go_has_suffix path ''/list-by-condition'' then RelayModeMidjourneyTaskFetchByCondition
      else RelayModeUnknown)"

definition Path2RelayMode :: "string \<Rightarrow> relay_mode" where
  "Path2RelayMode path =
     (if go_has_prefix path ''/v1/chat/completions'' \<or> go_has_prefix path ''/pg/chat/completions'' then RelayModeChatCompletions
      else if go_has_prefix path ''/v1/completions'' then RelayModeCompletions
      else if go_has_prefix path ''/v1/embeddings'' then RelayModeEmbeddings
      else if go_has_suffix path ''embeddings'' then RelayModeEmbeddings
      else if go_has_prefix path ''/v1/moderations'' then RelayModeModerations
      else if go_has_prefix path ''/v1/images/generations'' then RelayModeImagesGenerations
      else if go_has_prefix path ''/v1/images/edits'' then RelayModeImagesEdits
      else if go_has_prefix path ''/v1/edits'' then RelayModeEdits
      else if go_has_prefix path ''/v1/responses'' then RelayModeResponses
      else if go_has_prefix path ''/v1/audio/speech'' then RelayModeAudioSpeech
      else if go_has_prefix path ''/v1/audio/transcriptions'' then RelayModeAudioTranscription
      else if go_has_prefix path ''/v1/audio/translations'' then RelayModeAudioTranslation
      else if go_has_prefix path ''/v1/rerank'' then RelayModeRerank
      else if go_has_prefix path ''/v1/realtime'' then RelayModeRealtime
      else if go_has_prefix path ''/v1beta/models'' \<or> go_has_prefix path ''/v1/models'' then RelayModeGemini
      else if go_has_prefix path ''/mj'' then Path2RelayModeMidjourney path
      else RelayModeUnknown)"

definition Path2RelayMusic :: "string \<Rightarrow> string \<Rightarrow> relay_mode" where
  "Path2RelayMusic meth path =
     (if meth = ''POST'' \<and> go_has_suffix path ''/audio/music'' then RelayModeMusicSubmit
      else if meth = ''GET'' \<and> go_contains path ''/audio/music/'' then RelayModeMusicFetchByID
      else RelayModeUnknown)"

definition Path2RelaySuno :: "string \<Rightarrow> string \<Rightarrow> relay_mode" where
  "Path2RelaySuno meth path =
     (if meth = ''POST'' \<and> go_has_suffix path ''/fetch'' then RelayModeSunoFetch
      else if meth = ''GET'' \<and> go_contains path ''/fetch/'' then RelayModeSunoFetchByID
      else if go_contains path ''/submit/'' then RelayModeSunoSubmit
      else RelayModeUnknown)"

section \<open>Models of tasks\<close>

definition CoverActionToModelName :: "string \<Rightarrow> string" where
  "CoverActionToModelName mjAction = (if mjAction = ''SWAP_FACE'' then ''swap_face'' else ''mj_'' @ go_to_lower mjAction)"

definition CoverTaskActionToModelName :: "string \<Rightarrow> string \<Rightarrow> string" where
  "CoverTaskActionToModelName platform action = go_to_lower platform @ ''_'' @ go_to_lower action"

record mj_request =
  mj_CustomId :: string
  mj_Action :: string
  mj_Index :: int
  mj_TaskId :: string
  mj_Content :: string

text \<open>\<^verbatim>\<open>strings.Split\<close> with a separator of any positive length; \<open>k\<close> bytes of a separator are left to skip.\<close>

fun split_on :: "nat \<Rightarrow> string \<Rightarrow> string \<Rightarrow> string list" where
  "split_on k sep [] = [[]]"
| "split_on (Suc k) sep (c # s) = split_on k sep s"
| "split_on 0 sep (c # s) =
     (if go_has_prefix (c # s) sep then [] # split_on (length sep - 1) sep s
      else (case split_on 0 sep s of [] \<Rightarrow> [[c]] | p # ps \<Rightarrow> (c # p) # ps))"

text \<open>An element that is not there is a panic.\<close>

definition nth_res :: "'a list \<Rightarrow> nat \<Rightarrow> 'a res" where
  "nth_res xs i = (if i < length xs then Ok (xs ! i) else Panic)"

text \<open>The index at the end of a custom id.\<close>

definition custom_index :: "string list \<Rightarrow> string \<Rightarrow> mj_request \<Rightarrow> mj_request res" where
  "custom_index splits action r =
     (case nth_res splits 3 of
        Ok s \<Rightarrow> (case go_parse_int s of
                   None \<Rightarrow> Err ''index_parse_failed'' | Some i \<Rightarrow> Ok (r\<lparr>mj_Index := i, mj_Action := action\<rparr>))
      | _ \<Rightarrow> Panic)"

definition CoverPlusActionToNormalAction :: "mj_request \<Rightarrow> mj_request res" where
  "CoverPlusActionToNormalAction r =
     (if mj_CustomId r = [] then Err ''custom_id_is_required''
      else (let splits = split_on 0 ''::'' (mj_CustomId r)
            in case (case nth_res splits 1 of Ok s \<Rightarrow> (if s = ''JOB'' then nth_res splits 2 else Ok s) | _ \<Rightarrow> Panic) of
                 Ok action \<Rightarrow>
                   (if action = [] then Err ''unknown_action''
                    else if go_contains action ''upsample'' then custom_index splits ''UPSCALE'' r
                    else if go_contains action ''variation'' then
                      (if action = ''variation'' then custom_index splits ''VARIATION'' r
                       else if action = ''low_variation'' then Ok (r\<lparr>mj_Index := 1, mj_Action := ''LOW_VARIATION''\<rparr>)
                       else if action = ''high_variation'' then Ok (r\<lparr>mj_Index := 1, mj_Action := ''HIGH_VARIATION''\<rparr>)
                       else Ok (r\<lparr>mj_Index := 1\<rparr>))
                    else if go_contains action ''pan'' then Ok (r\<lparr>mj_Index := 1, mj_Action := ''PAN''\<rparr>)
                    else if go_contains action ''reroll'' then Ok (r\<lparr>mj_Index := 1, mj_Action := ''REROLL''\<rparr>)
                    else if action = ''Outpaint'' then Ok (r\<lparr>mj_Index := 1, mj_Action := ''ZOOM''\<rparr>)
                    else if action = ''CustomZoom'' then Ok (r\<lparr>mj_Index := 1, mj_Action := ''CUSTOM_ZOOM''\<rparr>)
                    else if action = ''Inpaint'' then Ok (r\<lparr>mj_Index := 1, mj_Action := ''INPAINT''\<rparr>)
                    else Err ''unknown_action'')
               | _ \<Rightarrow> Panic))"

text \<open>The task and the action of a short form like \<^verbatim>\<open>1320098173412546 U2\<close>; \<open>Ok None\<close> is \<^verbatim>\<open>nil\<close>.\<close>

definition ConvertSimpleChangeParams :: "string \<Rightarrow> (string \<times> string \<times> int) option res" where
  "ConvertSimpleChangeParams content =
     (case go_split (CHR '' '') content of
        [task, act] \<Rightarrow>
          (case go_to_lower act of
             [] \<Rightarrow> Panic
           | c # rest \<Rightarrow>
               if c = CHR ''u'' \<or> c = CHR ''v'' then
                 (case rest of
                    [] \<Rightarrow> Panic
                  | d # _ \<Rightarrow> (case go_parse_int [d] of
                      None \<Rightarrow> Ok None
                    | Some i \<Rightarrow> if i < 1 \<or> 4 < i then Ok None
                                else Ok (Some (task, if c = CHR ''u'' then ''UPSCALE'' else ''VARIATION'', i))))
               else if c # rest = ''r'' then Ok (Some (task, ''REROLL'', 0))
               else Ok None)
      | _ \<Rightarrow> Ok None)"

text \<open>\<open>Ok None\<close> is the empty name of the requests that fetch or notify.\<close>

definition GetMjRequestModel :: "relay_mode \<Rightarrow> mj_request \<Rightarrow> string option res" where
  "GetMjRequestModel mode r =
     (let named = (\<lambda>action. Ok (Some (CoverActionToModelName action)))
      in case mode of
           RelayModeMidjourneyAction \<Rightarrow>
             (case CoverPlusActionToNormalAction r of
                Ok r1 \<Rightarrow> named (mj_Action r1) | Err e \<Rightarrow> Err e | Panic \<Rightarrow> Panic)
         | RelayModeMidjourneyImagine \<Rightarrow> named ''IMAGINE''
         | RelayModeMidjourneyVideo \<Rightarrow> named ''VIDEO''
         | RelayModeMidjourneyEdits \<Rightarrow> named ''EDITS''
         | RelayModeMidjourneyDescribe \<Rightarrow> named ''DESCRIBE''
         | RelayModeMidjourneyBlend \<Rightarrow> named ''BLEND''
         | RelayModeMidjourneyShorten \<Rightarrow> named ''SHORTEN''
         | RelayModeMidjourneyChange \<Rightarrow> named (mj_Action r)
         | RelayModeMidjourneyModal \<Rightarrow> named ''MODAL''
         | RelayModeSwapFace \<Rightarrow> named ''SWAP_FACE''
         | RelayModeMidjourneyUpload \<Rightarrow> named ''UPLOAD''
         | RelayModeMidjourneySimpleChange \<Rightarrow>
             (case ConvertSimpleChangeParams (mj_Content r) of
                Ok None \<Rightarrow> Err ''invalid_request''
              | Ok (Some (task, action, i)) \<Rightarrow> named action
              | Err e \<Rightarrow> Err e | Panic \<Rightarrow> Panic)
         | RelayModeMidjourneyTaskFetch \<Rightarrow> Ok None
         | RelayModeMidjourneyTaskFetchByCondition \<Rightarrow> Ok None
         | RelayModeMidjourneyNotify \<Rightarrow> Ok None
         | _ \<Rightarrow> Err ''unknown_relay_action'')"

section \<open>The model of a request\<close>

text \<open>
  A request as this code sees it: \<open>mq_body\<close> is what decoding the body into the model and the group
  gives (\<open>None\<close> an error), \<open>mq_mj\<close> what decoding it as a Midjourney request gives; decoding leaves the
  body readable, so it may be done again.
\<close>

record model_query =
  mq_path :: string
  mq_method :: string
  mq_content_type :: string
  mq_body :: "(string \<times> string) option"
  mq_mj :: "mj_request option"
  mq_action_param :: string
  mq_model_param :: string
  mq_query_model :: string
  mq_relay_mode :: "relay_mode option"     \<comment> \<open>\<^verbatim>\<open>relay_mode\<close> of the context\<close>

text \<open>What is found out, with the keys of the context that are set.\<close>

record model_route =
  mr_Model :: string
  mr_Group :: string
  mr_select :: bool                        \<comment> \<open>\<^verbatim>\<open>shouldSelectChannel\<close>\<close>
  mr_relay_mode :: "relay_mode option"
  mr_platform :: "string option"
  mr_token_group :: "string option"

definition start_route :: "model_query \<Rightarrow> model_route" where
  "start_route q = \<lparr>mr_Model = [], mr_Group = [], mr_select = True, mr_relay_mode = mq_relay_mode q,
     mr_platform = None, mr_token_group = None\<rparr>"

definition extractModelNameFromGeminiPath :: "string \<Rightarrow> string" where
  "extractModelNameFromGeminiPath path =
     (case split_on 0 ''/models/'' path of
        p # q # ps \<Rightarrow> takeWhile (\<lambda>c. c \<noteq> CHR '':'') (drop (length p + 8) path)
      | _ \<Rightarrow> [])"

text \<open>The body's model, or the error of decoding it.\<close>

definition body_model :: "model_query \<Rightarrow> model_route \<Rightarrow> model_route res" where
  "body_model q r = (case mq_body q of None \<Rightarrow> Err ''invalid request'' | Some (m, g) \<Rightarrow> Ok (r\<lparr>mr_Model := m\<rparr>))"

definition mj_route :: "model_query \<Rightarrow> model_route \<Rightarrow> model_route res" where
  "mj_route q r =
     (let mode = Path2RelayModeMidjourney (mq_path q)
      in if mode \<in> {RelayModeMidjourneyTaskFetch, RelayModeMidjourneyTaskFetchByCondition, RelayModeMidjourneyNotify,
                     RelayModeMidjourneyTaskImageSeed}
         then Ok (r\<lparr>mr_select := False, mr_relay_mode := Some mode\<rparr>)
         else (case mq_mj q of
                 None \<Rightarrow> Err ''invalid midjourney request''
               | Some m \<Rightarrow> (case GetMjRequestModel mode m of
                   Panic \<Rightarrow> Panic
                 | Err e \<Rightarrow> Err e
                 | Ok None \<Rightarrow> Ok (r\<lparr>mr_select := False, mr_relay_mode := Some mode\<rparr>)
                 | Ok (Some name) \<Rightarrow> Ok (r\<lparr>mr_Model := name, mr_relay_mode := Some mode\<rparr>))))"

definition music_route :: "model_query \<Rightarrow> model_route \<Rightarrow> model_route res" where
  "music_route q r =
     (let mode = Path2RelayMusic (mq_method q) (mq_path q);
          r1 = r\<lparr>mr_platform := Some ''music'', mr_relay_mode := Some mode\<rparr>
      in if mode = RelayModeMusicFetchByID then Ok (r1\<lparr>mr_select := False\<rparr>)
         else if mode = RelayModeMusicSubmit then
           (case body_model q r1 of
              Ok r2 \<Rightarrow> Ok (if mr_Model r2 = [] then r2\<lparr>mr_Model := ''music_generate''\<rparr> else r2)
            | e \<Rightarrow> e)
         else Ok r1)"

definition suno_route :: "model_query \<Rightarrow> model_route \<Rightarrow> model_route res" where
  "suno_route q r =
     (let mode = Path2RelaySuno (mq_method q) (mq_path q);
          r1 = r\<lparr>mr_platform := Some ''suno'', mr_relay_mode := Some mode\<rparr>
      in if mode = RelayModeSunoFetch \<or> mode = RelayModeSunoFetchByID then Ok (r1\<lparr>mr_select := False\<rparr>)
         else Ok (r1\<lparr>mr_Model := CoverTaskActionToModelName ''suno'' (mq_action_param q)\<rparr>))"

definition videos_route :: "model_query \<Rightarrow> model_route \<Rightarrow> model_route res" where
  "videos_route q r =
     (if mq_method q = ''POST'' then body_model q (r\<lparr>mr_relay_mode := Some RelayModeVideoSubmit\<rparr>)
      else if mq_method q = ''GET'' then Ok (r\<lparr>mr_relay_mode := Some RelayModeVideoFetchByID, mr_select := False\<rparr>)
      else Ok (r\<lparr>mr_relay_mode := Some RelayModeUnknown\<rparr>))"

definition generations_route :: "model_query \<Rightarrow> model_route \<Rightarrow> model_route res" where
  "generations_route q r =
     (let set_mode = \<lambda>mode r. if mr_relay_mode r = None then r\<lparr>mr_relay_mode := Some mode\<rparr> else r
      in if mq_method q = ''POST'' then body_model q (set_mode RelayModeVideoSubmit r)
         else if mq_method q = ''GET'' then Ok (set_mode RelayModeVideoFetchByID (r\<lparr>mr_select := False\<rparr>))
         else Ok (set_mode RelayModeUnknown r))"

text \<open>The branches on the path.\<close>

definition path_route :: "model_query \<Rightarrow> model_route \<Rightarrow> model_route res" where
  "path_route q r =
     (let path = mq_path q
      in if go_contains path ''/mj/'' then mj_route q r
         else if go_contains path ''/v1/audio/music'' then music_route q r
         else if go_contains path ''/suno/'' then suno_route q r
         else if go_contains path ''/v1/videos/'' \<and> go_has_suffix path ''/remix''
         then Ok (r\<lparr>mr_relay_mode := Some RelayModeVideoSubmit, mr_select := False\<rparr>)
         else if go_contains path ''/v1/videos'' then videos_route q r
         else if go_contains path ''/v1/video/generations'' then generations_route q r
         else if go_has_prefix path ''/v1beta/models/'' \<or> go_has_prefix path ''/v1/models/'' then
           Ok (r\<lparr>mr_Model := extractModelNameFromGeminiPath path, mr_relay_mode := Some RelayModeGemini\<rparr>)
         else if \<not> go_has_prefix path ''/v1/audio/transcriptions'' \<and> \<not> go_contains (mq_content_type q) ''multipart/form-data''
         then body_model q r
         else Ok r)"

text \<open>\<^verbatim>\<open>Context.ContentType\<close>: the header up to the first blank or semicolon.\<close>

definition content_type :: "model_query \<Rightarrow> string" where
  "content_type q = takeWhile (\<lambda>c. c \<noteq> CHR '' '' \<and> c \<noteq> CHR '';'') (mq_content_type q)"

definition or_default :: "string \<Rightarrow> string \<Rightarrow> string" where
  "or_default d m = (if m = [] then d else m)"

text \<open>The body's model if it can be read and is not empty, else the one found so far.\<close>

definition try_body :: "model_query \<Rightarrow> string \<Rightarrow> string" where
  "try_body q m = (case mq_body q of Some (b, g) \<Rightarrow> if b \<noteq> [] then b else m | None \<Rightarrow> m)"

definition images_model :: "model_query \<Rightarrow> string \<Rightarrow> string" where
  "images_model q m =
     (if go_has_prefix (mq_path q) ''/v1/images/generations'' then or_default ''dall-e'' m
      else if go_has_prefix (mq_path q) ''/v1/images/edits'' \<and>
              (content_type q = ''application/x-www-form-urlencoded'' \<or> content_type q = ''multipart/form-data'')
      then try_body q m
      else m)"

definition audio_adjust :: "model_query \<Rightarrow> model_route \<Rightarrow> model_route" where
  "audio_adjust q r =
     (let path = mq_path q
      in if \<not> go_has_prefix path ''/v1/audio'' then r
         else if go_has_prefix path ''/v1/audio/speech'' then
           r\<lparr>mr_Model := or_default ''tts-1'' (mr_Model r), mr_relay_mode := Some RelayModeAudioSpeech\<rparr>
         else if go_has_prefix path ''/v1/audio/translations'' then
           r\<lparr>mr_Model := or_default ''whisper-1'' (try_body q (mr_Model r)), mr_relay_mode := Some RelayModeAudioTranslation\<rparr>
         else if go_has_prefix path ''/v1/audio/transcriptions'' then
           r\<lparr>mr_Model := or_default ''whisper-1'' (try_body q (mr_Model r)), mr_relay_mode := Some RelayModeAudioTranscription\<rparr>
         else r\<lparr>mr_relay_mode := Some RelayModeAudioSpeech\<rparr>)"

definition getModelRequest :: "model_query \<Rightarrow> model_route res" where
  "getModelRequest q =
     (case path_route q (start_route q) of
        Ok r \<Rightarrow>
          (let path = mq_path q;
               r1 = (if go_has_prefix path ''/v1/realtime'' then r\<lparr>mr_Model := mq_query_model q\<rparr> else r);
               r2 = (if go_has_prefix path ''/v1/moderations'' then r1\<lparr>mr_Model := or_default ''text-moderation-stable'' (mr_Model r1)\<rparr> else r1);
               r3 = (if go_has_suffix path ''embeddings'' then r2\<lparr>mr_Model := or_default (mq_model_param q) (mr_Model r2)\<rparr> else r2);
               r4 = r3\<lparr>mr_Model := images_model q (mr_Model r3)\<rparr>;
               r5 = audio_adjust q r4
           in if go_has_prefix path ''/pg/chat/completions'' then
                (case mq_body q of
                   None \<Rightarrow> Err ''invalid request''
                 | Some (m, g) \<Rightarrow> Ok (r5\<lparr>mr_Model := m, mr_Group := g, mr_token_group := Some g\<rparr>))
              else Ok r5)
      | e \<Rightarrow> e)"

text \<open>The mode a relay works with: that of the path, else that of the context.\<close>

definition info_RelayMode :: "string \<Rightarrow> relay_mode option \<Rightarrow> relay_mode" where
  "info_RelayMode path ctx =
     (if Path2RelayMode path = RelayModeUnknown then (case ctx of None \<Rightarrow> RelayModeUnknown | Some m \<Rightarrow> m)
      else Path2RelayMode path)"

text \<open>\<^verbatim>\<open>taskRelayHandler\<close>: whether a task is fetched or submitted.\<close>

definition taskRelayHandler_fetches :: "relay_mode \<Rightarrow> bool" where
  "taskRelayHandler_fetches mode \<longleftrightarrow>
     mode \<in> {RelayModeSunoFetch, RelayModeSunoFetchByID, RelayModeVideoFetchByID, RelayModeMusicFetchByID}"

section \<open>Mapping to the model of the upstream\<close>

text \<open>
  The state of the helper: the original and the upstream name and whether the name is mapped; the
  last is what \<^verbatim>\<open>SetModelName\<close> writes into the request (\<open>None\<close> when it is not called).
\<close>

record mapped_info =
  mi_OriginModelName :: string
  mi_UpstreamModelName :: string
  mi_IsModelMapped :: bool
  mi_request_model :: "string option"

datatype map_end = ChainEnd string bool | ChainSelf | ChainCycle

definition unvisited :: "(string, string) gomap \<Rightarrow> string list \<Rightarrow> nat" where
  "unvisited modelMap visited = card (snd ` set modelMap - set visited)"

lemma unvisited_less: "gm_get m k = Some v \<Longrightarrow> v \<notin> set visited \<Longrightarrow> unvisited m (v # visited) < unvisited m visited"
proof -
  assume a: "gm_get m k = Some v" "v \<notin> set visited"
  then have "v \<in> snd ` set m - set visited" using gm_get_SomeD [OF a(1)] by force
  moreover have "snd ` set m - set (v # visited) = (snd ` set m - set visited) - {v}" by auto
  ultimately show ?thesis unfolding unvisited_def by (metis List.finite_set finite_Diff finite_imageI card_Diff1_less)
qed

text \<open>
  The loop: the names left unvisited bound it. \<open>ChainSelf\<close> is the return for a name that is mapped to
  itself at once.
\<close>

function map_loop :: "(string, string) gomap \<Rightarrow> string \<Rightarrow> string list \<Rightarrow> string \<Rightarrow> bool \<Rightarrow> map_end" where
  "map_loop modelMap origin visited current mapped =
     (case gm_get modelMap current of
        None \<Rightarrow> ChainEnd current mapped
      | Some next \<Rightarrow>
          if next = [] then ChainEnd current mapped
          else if next \<in> set visited then
            (if next = current then (if current = origin then ChainSelf else ChainEnd current True) else ChainCycle)
          else map_loop modelMap origin (next # visited) next True)"
  by pat_completeness auto

termination
  by (relation "measure (\<lambda>(m, o', visited, c, b). unvisited m visited)") (auto intro: unvisited_less)

declare map_loop.simps [simp del]

text \<open>\<open>mapping\<close> is the decoded mapping: \<open>Some None\<close> does not decode, \<open>None\<close> is an empty one. The flag is false for an error.\<close>

definition ModelMappedHelper :: "(string, string) gomap option option \<Rightarrow> bool \<Rightarrow> mapped_info \<Rightarrow> bool \<times> mapped_info" where
  "ModelMappedHelper mapping has_request info =
     (let finish = \<lambda>i. (True, if has_request then i\<lparr>mi_request_model := Some (mi_UpstreamModelName i)\<rparr> else i)
      in case mapping of
           None \<Rightarrow> finish info
         | Some None \<Rightarrow> (False, info)
         | Some (Some modelMap) \<Rightarrow>
             (case map_loop modelMap (mi_OriginModelName info) [mi_OriginModelName info] (mi_OriginModelName info) (mi_IsModelMapped info) of
                ChainSelf \<Rightarrow> (True, info\<lparr>mi_IsModelMapped := False\<rparr>)
              | ChainCycle \<Rightarrow> (False, info\<lparr>mi_IsModelMapped := True\<rparr>)
              | ChainEnd current mapped \<Rightarrow>
                  (let i1 = info\<lparr>mi_IsModelMapped := mapped\<rparr>
                   in finish (if mapped then i1\<lparr>mi_UpstreamModelName := current\<rparr> else i1))))"

section \<open>Lemmas\<close>

text \<open>One step along a mapping; the ends of chains are its fixed points.\<close>

definition map_step :: "(string, string) gomap \<Rightarrow> string \<Rightarrow> string" where
  "map_step m x = (case gm_get m x of None \<Rightarrow> x | Some y \<Rightarrow> if y = [] then x else y)"

definition chain_ok :: "(string, string) gomap \<Rightarrow> string \<Rightarrow> string list \<Rightarrow> string \<Rightarrow> bool" where
  "chain_ok m origin visited current \<longleftrightarrow> origin \<in> set visited \<and> current \<in> set visited \<and>
     (\<forall>x \<in> set visited. \<exists>n. (map_step m ^^ n) origin = x) \<and>
     (\<forall>x \<in> set visited. x \<noteq> current \<longrightarrow> map_step m x \<in> set visited \<and> map_step m x \<noteq> x)"

lemma chain_ok_step:
  assumes "chain_ok m origin visited current" "map_step m current = next" "next \<notin> set visited"
  shows "chain_ok m origin (next # visited) next"
proof -
  obtain n where "(map_step m ^^ n) origin = current" using assms(1) by (auto simp: chain_ok_def)
  then have "(map_step m ^^ Suc n) origin = next" using assms(2) by simp
  then have r: "\<exists>k. (map_step m ^^ k) origin = next" by blast
  show ?thesis
    using assms(1,3) r unfolding chain_ok_def assms(2) [symmetric] by auto
qed

text \<open>A chain that comes back to a visited name never ends.\<close>

lemma chain_cycle:
  assumes "chain_ok m origin visited current" "map_step m current \<in> set visited" "map_step m current \<noteq> current"
  shows "map_step m ((map_step m ^^ n) origin) \<noteq> (map_step m ^^ n) origin"
proof -
  have "(map_step m ^^ n) origin \<in> set visited"
  proof (induction n)
    case 0
    then show ?case using assms(1) by (simp add: chain_ok_def)
  next
    case (Suc n)
    then show ?case using assms(1,2) by (cases "(map_step m ^^ n) origin = current") (auto simp: chain_ok_def)
  qed
  then show ?thesis using assms(1,3) by (cases "(map_step m ^^ n) origin = current") (auto simp: chain_ok_def)
qed

lemma map_loop_end:
  "chain_ok m origin visited current \<Longrightarrow> (mapped \<longleftrightarrow> b \<or> current \<noteq> origin) \<Longrightarrow>
   (case map_loop m origin visited current mapped of
      ChainCycle \<Rightarrow> \<forall>n. map_step m ((map_step m ^^ n) origin) \<noteq> (map_step m ^^ n) origin
    | ChainSelf \<Rightarrow> gm_get m origin = Some origin
    | ChainEnd c mp \<Rightarrow> map_step m c = c \<and> (\<exists>n. (map_step m ^^ n) origin = c) \<and> (mp \<longleftrightarrow> b \<or> c \<noteq> origin))"
proof (induction m origin visited current mapped rule: map_loop.induct)
  case (1 m origin visited current mapped)
  have reach: "\<exists>n. (map_step m ^^ n) origin = current" using "1.prems"(1) by (auto simp: chain_ok_def)
  show ?case
  proof (cases "gm_get m current = None \<or> gm_get m current = Some []")
    case True
    then have "map_loop m origin visited current mapped = ChainEnd current mapped" "map_step m current = current"
      by (auto simp: map_loop.simps map_step_def)
    then show ?thesis using reach "1.prems"(2) by simp
  next
    case False
    then obtain nxt where nxt: "gm_get m current = Some nxt" "nxt \<noteq> []" by auto
    then have step: "map_step m current = nxt" by (simp add: map_step_def)
    show ?thesis
    proof (cases "nxt \<in> set visited")
      case False
      have "chain_ok m origin (nxt # visited) nxt" by (rule chain_ok_step [OF "1.prems"(1) step False])
      moreover have "nxt \<noteq> origin" using False "1.prems"(1) by (auto simp: chain_ok_def)
      ultimately show ?thesis using "1.IH" [OF nxt False] False nxt by (simp add: map_loop.simps [of m origin visited current])
    next
      case True
      then show ?thesis
        using chain_cycle [OF "1.prems"(1)] nxt step reach by (auto simp: map_loop.simps [of m origin visited current])
    qed
  qed
qed

lemma chain_ok_start: "chain_ok m origin [origin] origin"
  by (auto simp: chain_ok_def intro: exI [of _ 0])

text \<open>No path has the mode of a simple change.\<close>

lemma no_simple_change: "Path2RelayModeMidjourney path \<noteq> RelayModeMidjourneySimpleChange"
  by (simp add: Path2RelayModeMidjourney_def)

text \<open>Where the decoding of a custom id goes out of range.\<close>

definition custom_id_short :: "string \<Rightarrow> bool" where
  "custom_id_short customId =
     (let s = split_on 0 ''::'' customId
      in length s < 2 \<or> (s ! 1 = ''JOB'' \<and> length s < 3) \<or>
         (length s < 4 \<and> (let a = (if s ! 1 = ''JOB'' then s ! 2 else s ! 1) in go_contains a ''upsample'' \<or> a = ''variation'')))"

lemma plus_branches:
  "(if e then Err m else if u then X
    else if w then (if v then Y else if l then Ok a1 else if h then Ok a2 else Ok a3)
    else if p then Ok a4 else if rr then Ok a5 else if o1 then Ok a6 else if o2 then Ok a7 else if o3 then Ok a8 else Err m2)
   = Panic \<longleftrightarrow> \<not> e \<and> (u \<and> X = Panic \<or> \<not> u \<and> w \<and> v \<and> Y = Panic)"
  by simp

lemma contains_empty: "go_contains [] p \<longleftrightarrow> p = []"
  by simp

lemma CoverPlus_panics: "CoverPlusActionToNormalAction r = Panic \<longleftrightarrow> mj_CustomId r \<noteq> [] \<and> custom_id_short (mj_CustomId r)"
proof -
  have ci: "custom_index s act r = Panic \<longleftrightarrow> length s < 4" for s act
    by (auto simp: custom_index_def nth_res_def split: option.split)
  have var: "go_contains ''variation'' ''variation''" "\<not> go_contains ''variation'' ''upsample''" by code_simp+
  let ?s = "split_on 0 ''::'' (mj_CustomId r)"
  let ?a = "if ?s ! 1 = ''JOB'' then ?s ! 2 else ?s ! 1"
  show ?thesis
  proof (cases "mj_CustomId r = [] \<or> length ?s < 2 \<or> (?s ! 1 = ''JOB'' \<and> length ?s < 3)")
    case True
    show ?thesis
    proof (cases "mj_CustomId r = []")
      case False
      then have short: "length ?s < 2 \<or> (?s ! 1 = ''JOB'' \<and> length ?s < 3)" using True by blast
      then have p: "(case nth_res ?s 1 of Ok s \<Rightarrow> (if s = ''JOB'' then nth_res ?s 2 else Ok s) | _ \<Rightarrow> Panic) = Panic"
        by (auto simp: nth_res_def)
      have "custom_id_short (mj_CustomId r)" using short unfolding custom_id_short_def Let_def by blast
      then show ?thesis using False unfolding CoverPlusActionToNormalAction_def Let_def p res.case by simp
    qed (simp add: CoverPlusActionToNormalAction_def)
  next
    case False
    then have a: "(case nth_res ?s 1 of Ok s \<Rightarrow> (if s = ''JOB'' then nth_res ?s 2 else Ok s) | _ \<Rightarrow> Panic) = Ok ?a"
    proof (cases "?s ! 1 = ''JOB''")
      case True
      then have l: "1 < length ?s" "2 < length ?s" using False by auto
      show ?thesis unfolding nth_res_def if_P [OF l(1)] if_P [OF l(2)] res.case if_P [OF True] by (rule refl)
    next
      case not_job: False
      then have l: "1 < length ?s" using False by auto
      show ?thesis unfolding nth_res_def if_P [OF l] res.case if_not_P [OF not_job] by (rule refl)
    qed
    have "CoverPlusActionToNormalAction r = Panic \<longleftrightarrow> length ?s < 4 \<and> (go_contains ?a ''upsample'' \<or> ?a = ''variation'')"
    proof -
      have "CoverPlusActionToNormalAction r = Panic \<longleftrightarrow> ?a \<noteq> [] \<and> (go_contains ?a ''upsample'' \<and> length ?s < 4 \<or>
          \<not> go_contains ?a ''upsample'' \<and> go_contains ?a ''variation'' \<and> ?a = ''variation'' \<and> length ?s < 4)"
      proof -
        have ne: "mj_CustomId r \<noteq> []" using False by blast
        show ?thesis
          unfolding CoverPlusActionToNormalAction_def Let_def if_not_P [OF ne] a res.case plus_branches ci by blast
      qed
      moreover have "go_contains b ''upsample'' \<Longrightarrow> b \<noteq> []" for b by (cases b) simp_all
      moreover have "b = ''variation'' \<Longrightarrow> b \<noteq> [] \<and> go_contains b ''variation'' \<and> \<not> go_contains b ''upsample''" for b
        using var by simp
      ultimately show ?thesis by blast
    qed
    then show ?thesis using False by (simp add: custom_id_short_def Let_def)
  qed
qed

section \<open>Properties\<close>

text \<open>
  C35. The mapping of model names follows its chain to the end: the helper ends for every mapping,
  fails exactly when the chain from the original name never ends (and the mapping can be read), and
  otherwise takes the name at the end of the chain as the upstream's; the name is marked as mapped
  unless the chain is empty. A name mapped to itself is left as it is.
\<close>

theorem model_mapping_end:
  assumes "\<not> mi_IsModelMapped info"
  shows "(case ModelMappedHelper (Some (Some m)) True info of (ok, i) \<Rightarrow>
    (ok \<longleftrightarrow> (\<exists>n. map_step m ((map_step m ^^ n) (mi_OriginModelName info)) = (map_step m ^^ n) (mi_OriginModelName info))) \<and>
    (ok \<longrightarrow> (\<exists>n c. c = (map_step m ^^ n) (mi_OriginModelName info) \<and> map_step m c = c \<and>
       (mi_IsModelMapped i \<longleftrightarrow> c \<noteq> mi_OriginModelName info) \<and>
       mi_UpstreamModelName i = (if c = mi_OriginModelName info then mi_UpstreamModelName info else c))))"
proof -
  let ?o = "mi_OriginModelName info"
  let ?L = "map_loop m ?o [?o] ?o False"
  have e: "case ?L of ChainCycle \<Rightarrow> \<forall>n. map_step m ((map_step m ^^ n) ?o) \<noteq> (map_step m ^^ n) ?o
      | ChainSelf \<Rightarrow> gm_get m ?o = Some ?o
      | ChainEnd c mp \<Rightarrow> map_step m c = c \<and> (\<exists>n. (map_step m ^^ n) ?o = c) \<and> (mp \<longleftrightarrow> c \<noteq> ?o)"
    using map_loop_end [OF chain_ok_start [of m ?o], of False False] by (simp split: map_end.splits)
  show ?thesis
  proof (cases ?L)
    case (ChainEnd c mp)
    obtain ok i where h: "ModelMappedHelper (Some (Some m)) True info = (ok, i)" by fastforce
    then have i: "ok" "mi_IsModelMapped i = mp" "mi_UpstreamModelName i = (if mp then c else mi_UpstreamModelName info)"
      using ChainEnd assms by (cases mp; auto simp: ModelMappedHelper_def Let_def)+
    have c: "map_step m c = c" "\<exists>n. c = (map_step m ^^ n) ?o" "mp \<longleftrightarrow> c \<noteq> ?o" using e ChainEnd by auto
    then have "mi_UpstreamModelName i = (if c = ?o then mi_UpstreamModelName info else c)" using i(3) by simp
    then show ?thesis unfolding h prod.case using i(1,2) c by metis
  next
    case ChainSelf
    obtain ok i where h: "ModelMappedHelper (Some (Some m)) True info = (ok, i)" by fastforce
    then have i: "ok" "\<not> mi_IsModelMapped i" "mi_UpstreamModelName i = mi_UpstreamModelName info"
      using ChainSelf assms by (auto simp: ModelMappedHelper_def Let_def)
    have "map_step m ?o = ?o" "?o = (map_step m ^^ 0) ?o" using e ChainSelf by (simp_all add: map_step_def)
    then show ?thesis unfolding h prod.case using i by metis
  next
    case ChainCycle
    then have "\<not> fst (ModelMappedHelper (Some (Some m)) True info)" using assms by (simp add: ModelMappedHelper_def Let_def)
    moreover have "\<forall>n. map_step m ((map_step m ^^ n) ?o) \<noteq> (map_step m ^^ n) ?o" using e ChainCycle by simp
    ultimately show ?thesis by (cases "ModelMappedHelper (Some (Some m)) True info") simp
  qed
qed

definition demo_mapped :: mapped_info where
  "demo_mapped = \<lparr>mi_OriginModelName = ''a'', mi_UpstreamModelName = ''a'', mi_IsModelMapped = False, mi_request_model = None\<rparr>"

theorem model_mapping_end_witness:
  "fst (ModelMappedHelper (Some (Some [(''a'', ''b''), (''b'', ''c'')])) True demo_mapped) \<and>
   \<not> fst (ModelMappedHelper (Some (Some [(''a'', ''b''), (''b'', ''a'')])) True demo_mapped)"
proof -
  let ?m = "[(''a'', ''b''), (''b'', ''a'')]"
  have "(map_step ?m ^^ n) ''a'' \<in> {''a'', ''b''}" for n
    by (induction n) (auto simp: map_step_def gm_get_def)
  then have "map_step ?m ((map_step ?m ^^ n) ''a'') \<noteq> (map_step ?m ^^ n) ''a''" for n
    by (auto simp: map_step_def gm_get_def)
  moreover have "map_step [(''a'', ''b''), (''b'', ''c'')] ((map_step [(''a'', ''b''), (''b'', ''c'')] ^^ 2) ''a'') =
      (map_step [(''a'', ''b''), (''b'', ''c'')] ^^ 2) ''a''"
    by (simp add: map_step_def gm_get_def numeral_2_eq_2)
  ultimately show ?thesis
    using model_mapping_end [of demo_mapped "[(''a'', ''b''), (''b'', ''c'')]"] model_mapping_end [of demo_mapped ?m]
    by (auto simp: demo_mapped_def split: prod.splits)
qed

text \<open>
  A music task is never fetched: the branch for music sets its mode, but the branch for audio at
  the end replaces it by that of speech, so the handler of tasks submits whatever is asked for below
  /v1/audio/music.
\<close>

theorem music_never_fetched:
  assumes "go_has_prefix (mq_path q) ''/v1/audio/music''" and "getModelRequest q = Ok r"
  shows "mr_relay_mode r = Some RelayModeAudioSpeech \<and>
    \<not> taskRelayHandler_fetches (info_RelayMode (mq_path q) (mr_relay_mode r))"
proof -
  obtain rest where path: "mq_path q = ''/v1/audio/music'' @ rest" using assms(1) by (auto simp: go_has_prefix_iff)
  have pre: "go_has_prefix (mq_path q) ''/v1/audio''" "\<not> go_has_prefix (mq_path q) ''/v1/audio/speech''"
    "\<not> go_has_prefix (mq_path q) ''/v1/audio/translations''" "\<not> go_has_prefix (mq_path q) ''/v1/audio/transcriptions''"
    "\<not> go_has_prefix (mq_path q) ''/pg/chat/completions''"
    by (simp_all add: path go_has_prefix_def)
  have adj: "mr_relay_mode (audio_adjust q r') = Some RelayModeAudioSpeech" for r'
    using pre by (simp add: audio_adjust_def)
  have mode: "mr_relay_mode r = Some RelayModeAudioSpeech"
    using assms(2) adj pre(5) unfolding getModelRequest_def Let_def by (auto split: res.splits simp del: go_contains.simps)
  have "Path2RelayMode (mq_path q) \<in> {RelayModeEmbeddings, RelayModeUnknown}"
    using pre by (simp add: Path2RelayMode_def path go_has_prefix_def)
  then show ?thesis using mode by (auto simp: info_RelayMode_def taskRelayHandler_fetches_def)
qed

definition demo_music :: model_query where
  "demo_music = \<lparr>mq_path = ''/v1/audio/music/7'', mq_method = ''GET'', mq_content_type = [], mq_body = None, mq_mj = None,
     mq_action_param = [], mq_model_param = [], mq_query_model = [], mq_relay_mode = None\<rparr>"

theorem music_never_fetched_witness:
  "\<exists>r. getModelRequest demo_music = Ok r \<and> \<not> mr_select r \<and> Path2RelayMusic ''GET'' ''/v1/audio/music/7'' = RelayModeMusicFetchByID \<and>
     \<not> taskRelayHandler_fetches (info_RelayMode ''/v1/audio/music/7'' (mr_relay_mode r))"
proof -
  have "case getModelRequest demo_music of Ok r \<Rightarrow> \<not> mr_select r | _ \<Rightarrow> False" by code_simp
  then obtain r where r: "getModelRequest demo_music = Ok r" "\<not> mr_select r" by (cases "getModelRequest demo_music") auto
  moreover have "Path2RelayMusic ''GET'' ''/v1/audio/music/7'' = RelayModeMusicFetchByID" by code_simp
  moreover have p: "mq_path demo_music = ''/v1/audio/music/7''" by (simp add: demo_music_def)
  moreover have "\<not> taskRelayHandler_fetches (info_RelayMode ''/v1/audio/music/7'' (mr_relay_mode r))"
  proof -
    have "go_has_prefix (mq_path demo_music) ''/v1/audio/music''" by (simp add: p go_has_prefix_def)
    then show ?thesis using music_never_fetched [OF _ r(1)] unfolding p by blast
  qed
  ultimately show ?thesis by blast
qed

text \<open>
  Finding the model of a request panics exactly for a Midjourney action whose custom id, decoded
  from the body, has too few parts for the action it names; no check stands before the indexing.
\<close>

theorem model_request_panics_iff:
  "getModelRequest q = Panic \<longleftrightarrow>
     go_contains (mq_path q) ''/mj/'' \<and> Path2RelayModeMidjourney (mq_path q) = RelayModeMidjourneyAction \<and>
     (\<exists>r. mq_mj q = Some r \<and> mj_CustomId r \<noteq> [] \<and> custom_id_short (mj_CustomId r))"
proof -
  have body: "body_model q r \<noteq> Panic" for r by (simp add: body_model_def split: option.split prod.split)
  have others: "music_route q r \<noteq> Panic" "suno_route q r \<noteq> Panic" "videos_route q r \<noteq> Panic" "generations_route q r \<noteq> Panic" for r
    using body by (auto simp: music_route_def suno_route_def videos_route_def generations_route_def Let_def split: res.split)
  have mj: "mj_route q r \<noteq> Panic \<longleftrightarrow> \<not> (Path2RelayModeMidjourney (mq_path q) = RelayModeMidjourneyAction \<and>
      (\<exists>m. mq_mj q = Some m \<and> CoverPlusActionToNormalAction m = Panic))" for r
    using no_simple_change [of "mq_path q"]
    by (cases "Path2RelayModeMidjourney (mq_path q)")
      (auto simp: mj_route_def GetMjRequestModel_def Let_def split: option.split res.split)
  have "getModelRequest q = Panic \<longleftrightarrow> path_route q (start_route q) = Panic"
    by (auto simp: getModelRequest_def Let_def split: res.split option.split prod.split)
  also have "\<dots> \<longleftrightarrow> go_contains (mq_path q) ''/mj/'' \<and> mj_route q (start_route q) = Panic"
    using others body by (simp add: path_route_def Let_def)
  finally show ?thesis using mj [of "start_route q"] CoverPlus_panics by auto
qed

end
