(* ===== verification/Distributor.thy ===== *)
theory Distributor
  imports Relay_Loop Token_Access Request_Model
begin

text \<open>
  The distributor, \<^verbatim>\<open>Distribute\<close> of \<^verbatim>\<open>internal/adapter/middleware/distributor.go\<close>: it stands between
  the access check and the relay and picks the channel of the first attempt. It uses the selection
  and the keys of the relay's environment at attempt 0. An abort is its status with a reason.
\<close>

section \<open>The distributor\<close>

datatype dist_reason =
    DrInvalidRequest | DrChannelId | DrChannelDisabled | DrNoModels | DrModelForbidden | DrNoModelName
  | DrPlayground | DrGroupForbidden | DrSelectFailed | DrNoChannel

text \<open>What goes on to the relay; the error of setting up the channel is dropped by the code.\<close>

record dist_out =
  do_route :: model_route
  do_channel :: "channel option"
  do_setup_error :: "new_api_error option"
  do_ctx :: ctx_channel
  do_gin :: gin_ctx
  do_sel :: select_ctx

datatype dist_result = DistPass dist_out | DistAbort int dist_reason

text \<open>
  The channel rows, the group in the body of a playground request (\<open>None\<close> when it cannot be decoded),
  and the usable groups.
\<close>

record dist_env =
  de_channel :: "int \<Rightarrow> channel option"
  de_pg_group :: "string option"
  de_own :: string
  de_usable :: "(string, string) gomap"
  de_special :: "string \<Rightarrow> (string \<times> string) list option"

text \<open>The check of the token's models; \<open>None\<close> lets the request through.\<close>

definition model_limit_error :: "gin_ctx \<Rightarrow> string \<Rightarrow> dist_reason option" where
  "model_limit_error cx model =
     (if gx_model_limit_enabled cx then
        (case gx_model_limit cx of
           None \<Rightarrow> Some DrNoModels
         | Some limits \<Rightarrow> if gm_get limits (FormatMatchingModelName model) = None then Some DrModelForbidden else None)
      else None)"

text \<open>The group that is used: the playground may name another one.\<close>

definition playground_group :: "dist_env \<Rightarrow> string \<Rightarrow> string \<Rightarrow> int \<times> dist_reason + string" where
  "playground_group de path usingGroup =
     (if \<not> go_has_prefix path ''/pg/chat/completions'' then Inr usingGroup
      else (case de_pg_group de of
              None \<Rightarrow> Inl (400, DrPlayground)
            | Some g \<Rightarrow>
                if g = [] then Inr usingGroup
                else if \<not> GroupInUserUsableGroups (de_own de) (de_usable de) (de_special de) usingGroup g \<and> g \<noteq> usingGroup
                then Inl (403, DrGroupForbidden)
                else Inr g))"

definition setup_channel :: "relay_env \<Rightarrow> channel option \<Rightarrow> ctx_channel \<Rightarrow> new_api_error option \<times> ctx_channel" where
  "setup_channel env c cc =
     (case c of
        None \<Rightarrow> (Some (NewError (ErrPlain ''channel is nil'') ErrorCodeGetChannelFailed [ErrOptionWithSkipRetry]), cc)
      | Some c \<Rightarrow> SetupContextForSelectedChannel env 0 c cc)"

definition dist_pass ::
    "relay_env \<Rightarrow> model_route \<Rightarrow> channel option \<Rightarrow> gin_ctx \<Rightarrow> select_ctx \<Rightarrow> ctx_channel \<Rightarrow> dist_result" where
  "dist_pass env r c cx sx cc =
     (let (e, cc1) = setup_channel env c cc
      in DistPass \<lparr>do_route = r, do_channel = c, do_setup_error = e, do_ctx = cc1, do_gin = cx, do_sel = sx\<rparr>)"

definition pinned_channel :: "relay_env \<Rightarrow> dist_env \<Rightarrow> model_route \<Rightarrow> string \<Rightarrow> gin_ctx \<Rightarrow> select_ctx \<Rightarrow> ctx_channel \<Rightarrow> dist_result" where
  "pinned_channel env de r channelId cx sx cc =
     (case go_parse_int channelId of
        None \<Rightarrow> DistAbort 400 DrChannelId
      | Some i \<Rightarrow> (case de_channel de i of
          None \<Rightarrow> DistAbort 400 DrChannelId
        | Some c \<Rightarrow> if ch_Status c \<noteq> ChannelStatusEnabled then DistAbort 403 DrChannelDisabled
                    else dist_pass env r (Some c) cx sx cc))"

definition Distribute ::
    "relay_env \<Rightarrow> dist_env \<Rightarrow> model_query \<Rightarrow> gin_ctx \<Rightarrow> select_ctx \<Rightarrow> ctx_channel \<Rightarrow> dist_result res" where
  "Distribute env de q cx0 sx cc =
     (case getModelRequest q of
        Panic \<Rightarrow> Panic
      | Err m \<Rightarrow> Ok (DistAbort 400 DrInvalidRequest)
      | Ok r \<Rightarrow>
          (let cx = (case mr_token_group r of None \<Rightarrow> cx0 | Some g \<Rightarrow> cx0\<lparr>gx_token_group := g\<rparr>)
           in case gx_specific_channel_id cx of
                Some channelId \<Rightarrow> Ok (pinned_channel env de r channelId cx sx cc)
              | None \<Rightarrow>
                  (case model_limit_error cx (mr_Model r) of
                     Some e \<Rightarrow> Ok (DistAbort 403 e)
                   | None \<Rightarrow>
                       if \<not> mr_select r then Ok (dist_pass env r None cx sx cc)
                       else if mr_Model r = [] then Ok (DistAbort 400 DrNoModelName)
                       else (case playground_group de (mq_path q) (gx_using_group cx) of
                               Inl (st, e) \<Rightarrow> Ok (DistAbort st e)
                             | Inr usingGroup \<Rightarrow>
                                 (let cx1 = cx\<lparr>gx_using_group := usingGroup\<rparr>;
                                      (sel, p, sx1) = CacheGetRandomSatisfiedChannel (re_pick env 0) (re_retryTimes env)
                                        (re_allAuto env) (re_userAuto env)
                                        \<lparr>rp_TokenGroup = usingGroup, rp_ModelName = mr_Model r, rp_Retry = Some 0, rp_resetNextTry = False\<rparr> sx
                                  in case sel of
                                       Panic \<Rightarrow> Panic
                                     | Err m \<Rightarrow> Ok (DistAbort 503 DrSelectFailed)
                                     | Ok (None, g) \<Rightarrow> Ok (DistAbort 503 DrNoChannel)
                                     | Ok (Some c, g) \<Rightarrow> Ok (dist_pass env r (Some c) cx1 sx1 cc))))))"

section \<open>Lemmas\<close>

lemma GetModelLimitsMap_get: "gm_get (GetModelLimitsMap t) m = (if m \<in> set (GetModelLimits t) then Some True else None)"
  using gm_get_fold_put_const [of "\<lambda>l. l" True "GetModelLimits t" "[]" m] by (simp add: GetModelLimitsMap_def)

lemma dist_pass_fields:
  "dist_pass env r c cx sx cc = DistPass o' \<Longrightarrow>
   do_route o' = r \<and> do_channel o' = c \<and> do_gin o' = cx \<and> do_sel o' = sx \<and> (do_setup_error o', do_ctx o') = setup_channel env c cc"
  by (auto simp: dist_pass_def split: prod.splits)

lemma Distribute_Pass:
  assumes "Distribute env de q cx0 sx cc = Ok (DistPass o')"
  shows "\<exists>r cx c sx1. getModelRequest q = Ok r \<and> dist_pass env r c cx sx1 cc = DistPass o' \<and>
    gx_specific_channel_id cx = gx_specific_channel_id cx0 \<and> gx_model_limit cx = gx_model_limit cx0 \<and>
    (case gx_specific_channel_id cx0 of
       Some s \<Rightarrow> (\<exists>i c'. go_parse_int s = Some i \<and> de_channel de i = Some c' \<and> ch_Status c' = ChannelStatusEnabled \<and> c = Some c')
     | None \<Rightarrow> model_limit_error cx0 (mr_Model r) = None \<and> (if mr_select r then c \<noteq> None \<and> mr_Model r \<noteq> [] else c = None))"
proof -
  obtain r where r: "getModelRequest q = Ok r" using assms by (auto simp: Distribute_def split: res.splits)
  define cx where "cx = (case mr_token_group r of None \<Rightarrow> cx0 | Some g \<Rightarrow> cx0\<lparr>gx_token_group := g\<rparr>)"
  have cx: "gx_specific_channel_id cx = gx_specific_channel_id cx0" "gx_model_limit cx = gx_model_limit cx0"
    "model_limit_error cx m = model_limit_error cx0 m" for m
    by (simp_all add: cx_def model_limit_error_def split: option.split)
  show ?thesis
  proof (cases "gx_specific_channel_id cx0")
    case (Some s)
    then have p: "pinned_channel env de r s cx sx cc = DistPass o'"
      using assms by (simp add: Distribute_def r cx_def [symmetric] cx)
    then obtain i c' where "go_parse_int s = Some i" "de_channel de i = Some c'" "ch_Status c' = ChannelStatusEnabled"
      "dist_pass env r (Some c') cx sx cc = DistPass o'"
      by (auto simp: pinned_channel_def split: option.splits if_splits)
    then show ?thesis using r cx Some by auto
  next
    case None
    then have ok: "model_limit_error cx0 (mr_Model r) = None"
      using assms by (auto simp: Distribute_def r cx_def [symmetric] cx split: option.splits)
    show ?thesis
    proof (cases "mr_select r")
      case False
      then have "dist_pass env r None cx sx cc = DistPass o'"
        using assms None ok by (simp add: Distribute_def r cx_def [symmetric] cx)
      then show ?thesis using r cx None ok False by auto
    next
      case True
      have m: "mr_Model r \<noteq> []" using assms None ok True by (auto simp: Distribute_def r cx_def [symmetric] cx)
      obtain g where g: "playground_group de (mq_path q) (gx_using_group cx) = Inr g"
        using assms None ok True m by (auto simp: Distribute_def r cx_def [symmetric] cx split: sum.splits)
      obtain sel p sx1 where sel: "CacheGetRandomSatisfiedChannel (re_pick env 0) (re_retryTimes env) (re_allAuto env) (re_userAuto env)
          \<lparr>rp_TokenGroup = g, rp_ModelName = mr_Model r, rp_Retry = Some 0, rp_resetNextTry = False\<rparr> sx = (sel, p, sx1)"
        by (metis surj_pair)
      then obtain c h where "sel = Ok (Some c, h)" "dist_pass env r (Some c) (cx\<lparr>gx_using_group := g\<rparr>) sx1 cc = DistPass o'"
        using assms None ok True m g
        by (auto simp: Distribute_def r cx_def [symmetric] cx Let_def split: res.splits option.splits)
      then show ?thesis using r cx None ok True m
        by (intro exI [of _ r] exI [of _ "cx\<lparr>gx_using_group := g\<rparr>"] exI [of _ "Some c"] exI [of _ sx1]) auto
    qed
  qed
qed

lemma setup_key_error:
  "re_key env 0 c = Inl e \<Longrightarrow> setup_channel env (Some c) cc = (Some e, cc') \<Longrightarrow>
   cc_Key cc' = cc_Key cc \<and> cc_Id cc' = ch_Id c \<and> cc_MultiKeyIndex cc' = cc_MultiKeyIndex cc"
  by (auto simp: setup_channel_def SetupContextForSelectedChannel_def Let_def)

lemma setup_key_error_result: "re_key env 0 c = Inl e \<Longrightarrow> fst (setup_channel env (Some c) cc) = Some e"
  by (simp add: setup_channel_def SetupContextForSelectedChannel_def Let_def)

lemma Distribute_picks:
  assumes "getModelRequest q = Ok r" "mr_token_group r = None" "gx_specific_channel_id cx = None"
    "model_limit_error cx (mr_Model r) = None" "mr_select r" "mr_Model r \<noteq> []"
    "\<not> go_has_prefix (mq_path q) ''/pg/chat/completions''" "gx_using_group cx \<noteq> ''auto''"
    "re_pick env 0 (gx_using_group cx) (mr_Model r) 0 = Ok (Some c)"
  shows "Distribute env de q cx sx cc = Ok (dist_pass env r (Some c) cx sx cc)"
  using assms by (simp add: Distribute_def playground_group_def CacheGetRandomSatisfiedChannel_def GetRetry_def)

text \<open>
  A token with a list of models cannot ask for its tasks: a request without a model is looked up under
  the empty name.
\<close>

lemma limited_token_cannot_fetch:
  assumes "getModelRequest q = Ok r" "mr_Model r = []" "mr_token_group r = None" "gx_specific_channel_id cx = None"
    "gx_model_limit_enabled cx" "gx_model_limit cx = Some (GetModelLimitsMap t)" "[] \<notin> set (GetModelLimits t)"
  shows "Distribute env de q cx sx cc = Ok (DistAbort 403 DrModelForbidden)"
proof -
  have "FormatMatchingModelName [] = []" by code_simp
  then show ?thesis using assms by (simp add: Distribute_def model_limit_error_def GetModelLimitsMap_get)
qed

text \<open>An entry that is not its own matching name admits nothing.\<close>

lemma listed_name_not_admitted:
  "tk_ModelLimits t = ''gemini-2.5-pro-thinking-1024'' \<Longrightarrow>
   gm_get (GetModelLimitsMap t) (FormatMatchingModelName ''gemini-2.5-pro-thinking-1024'') = None"
proof -
  have f: "FormatMatchingModelName ''gemini-2.5-pro-thinking-1024'' = ''gemini-2.5-pro-thinking-*''" by code_simp
  assume "tk_ModelLimits t = ''gemini-2.5-pro-thinking-1024''"
  then have "GetModelLimits t = [''gemini-2.5-pro-thinking-1024'']" by (simp add: GetModelLimits_def)
  then show ?thesis by (simp add: f GetModelLimitsMap_get)
qed

section \<open>A sample request\<close>

definition demo_chat :: model_query where
  "demo_chat = \<lparr>mq_path = ''/v1/chat/completions'', mq_method = ''POST'', mq_content_type = ''application/json'',
     mq_body = Some (''gpt-4o'', []), mq_mj = None, mq_action_param = [], mq_model_param = [], mq_query_model = [],
     mq_relay_mode = None\<rparr>"

definition demo_dist_env :: dist_env where
  "demo_dist_env = \<lparr>de_channel = (\<lambda>_. None), de_pg_group = None, de_own = [], de_usable = [], de_special = (\<lambda>_. None)\<rparr>"

definition pool_env :: relay_env where
  "pool_env = demo_relay_env\<lparr>re_pick := (\<lambda>_ _ _ _. Ok (Some demo_channel))\<rparr>"

text \<open>Every key of the pool is cooling down.\<close>

definition cooling_env :: relay_env where
  "cooling_env = pool_env\<lparr>re_key := (\<lambda>_ _. Inl (NewError (ErrPlain ''cooling'') ErrorCodeChannelAllKeysCooling []))\<rparr>"

abbreviation new_ctx :: ctx_channel where
  "new_ctx \<equiv> \<lparr>cc_Id = 0, cc_Type = 0, cc_Name = [], cc_AutoBan = False, cc_IsMultiKey = False, cc_MultiKeyIndex = 0, cc_Key = []\<rparr>"

definition demo_sel :: select_ctx where
  "demo_sel = \<lparr>sx_UserGroup = ''u'', sx_CrossGroupRetry = False, sx_AutoGroupIndex = None, sx_AutoGroupRetryIndex = None,
     sx_AutoGroup = None\<rparr>"

lemma demo_chat_route:
  "\<exists>r. getModelRequest demo_chat = Ok r \<and> mr_token_group r = None \<and> mr_select r \<and> mr_Model r = ''gpt-4o'' \<and>
       \<not> go_has_prefix (mq_path demo_chat) ''/pg/chat/completions''"
proof -
  have "case getModelRequest demo_chat of
      Ok r \<Rightarrow> mr_token_group r = None \<and> mr_select r \<and> mr_Model r = ''gpt-4o'' \<and> \<not> go_has_prefix (mq_path demo_chat) ''/pg/chat/completions''
    | _ \<Rightarrow> False" by code_simp
  then show ?thesis by (cases "getModelRequest demo_chat") auto
qed

lemma gpt4o_listed: "FormatMatchingModelName ''gpt-4o'' \<in> set (GetModelLimits access_token_row)" by code_simp

lemma demo_key_parts: "length (key_parts demo_auth_request) = 1" by code_simp

section \<open>Properties\<close>

text \<open>
  C6. The models of a token hold from the access check to the relay: a request that passes both
  middlewares with a token whose list of models is on asks for a model whose matching name is in the
  list, unless an administrator named the channel in the key, which skips the list.
\<close>

theorem model_limits_enforced:
  assumes "TokenAuth tenv r lg = (Ok (Pass cx), lg')" and "Distribute env de q cx sx cc = Ok (DistPass o')"
  shows "\<exists>t u g. access_granted tenv r lg t u g \<and>
    (tk_ModelLimitsEnabled t \<longrightarrow> FormatMatchingModelName (mr_Model (do_route o')) \<in> set (GetModelLimits t) \<or>
       (1 < length (key_parts r) \<and> IsAdmin tenv (tk_UserId t) lg))"
proof -
  obtain t u g where t: "access_granted tenv r lg t u g"
    and cx: "cx = snd (SetupContextForToken tenv t (key_parts r) lg
       ((empty_ctx r)\<lparr>gx_id := if aq_id r = 0 then tk_UserId t else aq_id r, gx_user := Some u, gx_using_group := g\<rparr>))"
    using assms(1) by (auto simp: TokenAuth_passes)
  note f = setup_fields [OF cx]
  obtain rt cx1 c sx1 where d: "dist_pass env rt c cx1 sx1 cc = DistPass o'"
    "case gx_specific_channel_id cx of
       Some s \<Rightarrow> (\<exists>i c'. go_parse_int s = Some i \<and> de_channel de i = Some c' \<and> ch_Status c' = ChannelStatusEnabled \<and> c = Some c')
     | None \<Rightarrow> model_limit_error cx (mr_Model rt) = None \<and> (if mr_select rt then c \<noteq> None \<and> mr_Model rt \<noteq> [] else c = None)"
    using Distribute_Pass [OF assms(2)] by blast
  have rt: "do_route o' = rt" using dist_pass_fields [OF d(1)] by blast
  show ?thesis
  proof (cases "1 < length (key_parts r) \<and> IsAdmin tenv (tk_UserId t) lg")
    case False
    then have "gx_specific_channel_id cx = None" using f by (auto simp: empty_ctx_def)
    then have "model_limit_error cx (mr_Model rt) = None" using d(2) by simp
    then have "tk_ModelLimitsEnabled t \<longrightarrow> FormatMatchingModelName (mr_Model rt) \<in> set (GetModelLimits t)"
      using f by (auto simp: model_limit_error_def GetModelLimitsMap_get split: if_splits)
    then show ?thesis using t rt by blast
  qed (use t in blast)
qed

theorem model_limits_enforced_witness:
  "\<exists>cx o'. TokenAuth demo_token_env demo_auth_request access_ledger = (Ok (Pass cx), access_ledger) \<and>
     Distribute pool_env demo_dist_env demo_chat cx demo_sel new_ctx = Ok (DistPass o') \<and>
     FormatMatchingModelName (mr_Model (do_route o')) \<in> set (GetModelLimits access_token_row)"
proof -
  obtain r where r: "getModelRequest demo_chat = Ok r" "mr_token_group r = None" "mr_select r" "mr_Model r = ''gpt-4o''"
    "\<not> go_has_prefix (mq_path demo_chat) ''/pg/chat/completions''" using demo_chat_route by blast
  obtain cx where t: "TokenAuth demo_token_env demo_auth_request access_ledger = (Ok (Pass cx), access_ledger)"
    and cx: "cx = snd (SetupContextForToken demo_token_env access_token_row (key_parts demo_auth_request) access_ledger
       ((empty_ctx demo_auth_request)\<lparr>gx_id := if aq_id demo_auth_request = 0 then tk_UserId access_token_row else aq_id demo_auth_request,
         gx_user := Some access_user_row, gx_using_group := ''vip''\<rparr>))"
    using demo_granted by (auto simp: TokenAuth_passes)
  have "model_limit_error cx ''gpt-4o'' = None"
    using setup_fields [OF cx] gpt4o_listed by (auto simp: model_limit_error_def GetModelLimitsMap_get)
  moreover have "gx_specific_channel_id cx = None" "gx_using_group cx = ''vip''"
    using setup_fields [OF cx] demo_key_parts by (auto simp: empty_ctx_def)
  ultimately have "Distribute pool_env demo_dist_env demo_chat cx demo_sel new_ctx = Ok (dist_pass pool_env r (Some demo_channel) cx demo_sel new_ctx)"
    using r by (intro Distribute_picks) (simp_all add: pool_env_def)
  then obtain o' where o: "Distribute pool_env demo_dist_env demo_chat cx demo_sel new_ctx = Ok (DistPass o')"
    by (auto simp: dist_pass_def split: prod.splits)
  have "access_granted demo_token_env demo_auth_request access_ledger t u g \<Longrightarrow> t = access_token_row" for t u g
    using demo_granted by (auto simp: access_granted_def)
  moreover have "tk_ModelLimitsEnabled access_token_row" by (simp add: access_token_row_def)
  ultimately show ?thesis using model_limits_enforced [OF t o] t o demo_key_parts by auto
qed

text \<open>
  A channel whose keys are all cooling is called all the same: the distributor drops the error of
  setting it up, and the first attempt of the relay takes the channel from the context, so the
  upstream is called once with whatever key the context had before (none in a new request), and its
  answer, not the error with the time to retry, is what the attempt ends with.
\<close>

theorem cooling_pool_called:
  assumes "Distribute env de q cx sx cc = Ok (DistPass o')" and "do_channel o' = Some c" and "re_key env 0 c = Inl e"
    and "rs_ctx st = do_ctx o'" and "\<not> rs_meta st" and "rs_attempts st = 0"
    and "fst (cb_Allow (rs_breakers st) (re_allowTime env 0) (ch_Id c))" and "re_body env 0 = None"
  shows "do_setup_error o' = Some e \<and>
    (case relay_attempt env st of (res, st') \<Rightarrow>
       rs_used st' = rs_used st @ [ch_Id c] \<and>
       rs_err st' = re_upstream env 0 (context_channel (do_ctx o')) (cc_Key cc) \<and>
       (rs_err st' = None \<longrightarrow> res = Some LoopSuccess))"
proof -
  obtain r cx1 sx1 where d: "dist_pass env r (Some c) cx1 sx1 cc = DistPass o'"
    using Distribute_Pass [OF assms(1)] dist_pass_fields assms(2) by metis
  have s: "setup_channel env (Some c) cc = (do_setup_error o', do_ctx o')" using dist_pass_fields [OF d] by simp
  then have e: "do_setup_error o' = Some e" using setup_key_error_result [OF assms(3), of cc] by simp
  have k: "cc_Key (do_ctx o') = cc_Key cc" "cc_Id (do_ctx o') = ch_Id c"
    using setup_key_error [OF assms(3)] s e by auto
  obtain br where br: "cb_Allow (rs_breakers st) (re_allowTime env 0) (ch_Id c) = (True, br)"
    using assms(7) by (cases "cb_Allow (rs_breakers st) (re_allowTime env 0) (ch_Id c)") auto
  have ch: "ch_Id (context_channel (do_ctx o')) = ch_Id c" by (simp add: context_channel_def k(2))
  have g: "getChannel env 0 (st\<lparr>rs_attempts := Suc 0\<rparr>) = (Some (Inr (context_channel (do_ctx o'))), st\<lparr>rs_attempts := Suc 0\<rparr>)"
    using assms(5) by (simp add: getChannel_def assms(4))
  show ?thesis
  proof (cases "re_upstream env 0 (context_channel (do_ctx o')) (cc_Key cc)")
    case None
    then show ?thesis using e
      by (simp add: relay_attempt_def assms(6) g br ch addUsedChannel_def assms(4,8) k(1) split: prod.split)
  next
    case (Some err)
    then show ?thesis using e
      by (simp add: relay_attempt_def assms(6) g br ch addUsedChannel_def assms(4,8) k(1) processChannelError_def Let_def split: prod.split)
  qed
qed

theorem cooling_pool_called_witness:
  "\<exists>o' r st. Distribute cooling_env demo_dist_env demo_chat ((empty_ctx demo_auth_request)\<lparr>gx_using_group := ''vip''\<rparr>) demo_sel new_ctx
       = Ok (DistPass o') \<and> do_setup_error o' \<noteq> None \<and> relay_attempt cooling_env
         ((demo_relay_st (cb_NewRegistry (cb_DefaultConfig (\<lambda>_. []))))\<lparr>rs_ctx := do_ctx o'\<rparr>) = (r, st) \<and>
       rs_used st = [7] \<and> r = Some LoopSuccess"
proof -
  let ?cx = "(empty_ctx demo_auth_request)\<lparr>gx_using_group := ''vip''\<rparr>"
  obtain r where r: "getModelRequest demo_chat = Ok r" "mr_token_group r = None" "mr_select r" "mr_Model r = ''gpt-4o''"
    "\<not> go_has_prefix (mq_path demo_chat) ''/pg/chat/completions''" using demo_chat_route by blast
  have "Distribute cooling_env demo_dist_env demo_chat ?cx demo_sel new_ctx = Ok (dist_pass cooling_env r (Some demo_channel) ?cx demo_sel new_ctx)"
    using r by (intro Distribute_picks) (simp_all add: cooling_env_def pool_env_def empty_ctx_def model_limit_error_def)
  then obtain o' where o: "Distribute cooling_env demo_dist_env demo_chat ?cx demo_sel new_ctx = Ok (DistPass o')"
    and p: "dist_pass cooling_env r (Some demo_channel) ?cx demo_sel new_ctx = DistPass o'"
    by (auto simp: dist_pass_def split: prod.splits)
  have c: "do_channel o' = Some demo_channel" using dist_pass_fields [OF p] by blast
  let ?st = "(demo_relay_st (cb_NewRegistry (cb_DefaultConfig (\<lambda>_. []))))\<lparr>rs_ctx := do_ctx o'\<rparr>"
  have k: "re_key cooling_env 0 demo_channel = Inl (NewError (ErrPlain ''cooling'') ErrorCodeChannelAllKeysCooling [])"
    "re_body cooling_env 0 = None" "re_upstream cooling_env k ch s = None" for k ch s
    by (simp_all add: cooling_env_def pool_env_def demo_relay_env_def)
  have a: "fst (cb_Allow (rs_breakers ?st) (re_allowTime cooling_env 0) (ch_Id demo_channel))"
    by (simp add: demo_relay_st_def cb_Allow_def cb_getOrCreate_def cb_NewRegistry_def gm_get_def cb_allow_def cb_new_def Let_def)
  have s: "\<not> rs_meta ?st" "rs_attempts ?st = 0" "rs_used ?st = []" "rs_ctx ?st = do_ctx o'" by (simp_all add: demo_relay_st_def)
  have i: "ch_Id demo_channel = 7" by (simp add: demo_channel_def)
  show ?thesis using cooling_pool_called [OF o c k(1) s(4,1,2) a k(2)] o k(3) s(3) i by (auto split: prod.splits)
qed

end
