(* ===== verification/Session_Auth.thy ===== *)
theory Session_Auth
  imports Token_Access
begin

text \<open>
  Access by session or access token: \<^verbatim>\<open>authHelper\<close> and its roles in
  \<^verbatim>\<open>internal/adapter/middleware/auth.go\<close>. What a session holds has no static type, so its values are
  a sum; the session store, the identity service and the database are arguments.
\<close>

section \<open>Values of a session\<close>

datatype sess_val = SvNil | SvInt int | SvStr string | SvOther

record session =
  sn_username :: sess_val
  sn_role :: sess_val
  sn_id :: sess_val
  sn_status :: sess_val
  sn_group :: sess_val

definition IsValidateRole :: "int \<Rightarrow> bool" where
  "IsValidateRole role \<longleftrightarrow> role = 0 \<or> role = RoleCommonUser \<or> role = 5 \<or> role = RoleAdminUser \<or> role = RoleRootUser"

definition validUserInfo :: "string \<Rightarrow> int \<Rightarrow> bool" where
  "validUserInfo username role = (if go_trim_space username = [] then False else if \<not> IsValidateRole role then False else True)"

text \<open>\<^verbatim>\<open>strings.Replace(s, p, "", 1)\<close>: the first occurrence is removed.\<close>

fun remove_first :: "string \<Rightarrow> string \<Rightarrow> string" where
  "remove_first p [] = []"
| "remove_first p (c # s) = (if go_has_prefix (c # s) p then drop (length p) (c # s) else c # remove_first p s)"

definition ValidateAccessToken :: "bool \<Rightarrow> string \<Rightarrow> ledger \<Rightarrow> user option" where
  "ValidateAccessToken db_ok t lg =
     (if t = [] \<or> \<not> db_ok then None
      else find (\<lambda>u. us_AccessToken u = Some (remove_first ''Bearer '' t)) (map snd (lg_users lg)))"

text \<open>
  The identity service: the account of a session token it accepts, and the user that the account
  belongs to.
\<close>

record session_env =
  se_session :: session
  se_identity :: "string \<Rightarrow> (int \<times> user) option"
  se_db_ok :: bool
  se_tokens :: token_env               \<comment> \<open>for \<^verbatim>\<open>GetUserCache\<close>\<close>

record session_request =
  sq_Authorization :: string
  sq_api_user :: string                \<comment> \<open>header \<^verbatim>\<open>lurus-api-User\<close>\<close>
  sq_new_api_user :: string            \<comment> \<open>header \<^verbatim>\<open>New-Api-User\<close>\<close>

text \<open>Who the request claims to be: username, role, id and status, the account, and whether an access token was used.\<close>

record claim =
  cl_username :: sess_val
  cl_role :: sess_val
  cl_id :: sess_val
  cl_status :: sess_val
  cl_account :: "int option"
  cl_access_token :: bool

definition claim_of_user :: "user \<Rightarrow> int option \<Rightarrow> claim" where
  "claim_of_user u account = \<lparr>cl_username = SvStr (us_Username u), cl_role = SvInt (us_Role u), cl_id = SvInt (us_Id u),
     cl_status = SvInt (us_Status u), cl_account = account, cl_access_token = True\<rparr>"

datatype session_reason =
    SrNoCredential | SrInvalidUser | SrInvalidToken | SrUserIdFormat | SrUserIdMismatch | SrSessionData | SrBanned | SrRole

definition session_claim :: "session_env \<Rightarrow> session_request \<Rightarrow> ledger \<Rightarrow> (int \<times> session_reason) + claim" where
  "session_claim env r lg =
     (let sn = se_session env; a = sq_Authorization r
      in if sn_username sn \<noteq> SvNil then
           Inr \<lparr>cl_username = sn_username sn, cl_role = sn_role sn, cl_id = sn_id sn, cl_status = sn_status sn,
                cl_account = None, cl_access_token = False\<rparr>
         else if a = [] then Inl (401, SrNoCredential)
         else (case se_identity env (strip_bearer a) of
                 Some (account, u) \<Rightarrow> Inr (claim_of_user u (Some account))
               | None \<Rightarrow> (case ValidateAccessToken (se_db_ok env) a lg of
                   Some u \<Rightarrow>
                     if us_Username u = [] then Inl (200, SrInvalidToken)
                     else if \<not> validUserInfo (us_Username u) (us_Role u) then Inl (200, SrInvalidUser)
                     else Inr (claim_of_user u None)
                 | None \<Rightarrow> Inl (200, SrInvalidToken))))"

record session_ctx =
  sc_username :: sess_val
  sc_role :: sess_val
  sc_id :: sess_val
  sc_group :: sess_val
  sc_account :: "int option"
  sc_use_access_token :: bool
  sc_tenant :: "(string \<times> int) option"

definition authHelper :: "session_env \<Rightarrow> int \<Rightarrow> session_request \<Rightarrow> ledger \<Rightarrow> (int \<times> session_reason) + session_ctx" where
  "authHelper env minRole r lg =
     (case session_claim env r lg of
        Inl e \<Rightarrow> Inl e
      | Inr cl \<Rightarrow>
          (let apiUserIdStr = (if sq_api_user r = [] then sq_new_api_user r else sq_api_user r);
               apiUserId = go_parse_int apiUserIdStr
           in if apiUserIdStr \<noteq> [] \<and> apiUserId = None then Inl (401, SrUserIdFormat)
              else if apiUserIdStr \<noteq> [] \<and> cl_id cl \<noteq> SvInt (the apiUserId) then Inl (401, SrUserIdMismatch)
              else (case cl_status cl of
                SvInt statusVal \<Rightarrow>
                  if statusVal = UserStatusDisabled then Inl (200, SrBanned)
                  else (case cl_role cl of
                    SvInt roleVal \<Rightarrow>
                      if roleVal < minRole then Inl (200, SrRole)
                      else (case cl_username cl of
                        SvStr usernameVal \<Rightarrow>
                          if \<not> validUserInfo usernameVal roleVal then Inl (200, SrInvalidUser)
                          else (let cx = \<lparr>sc_username = cl_username cl, sc_role = cl_role cl, sc_id = cl_id cl,
                                          sc_group = sn_group (se_session env), sc_account = cl_account cl,
                                          sc_use_access_token = cl_access_token cl, sc_tenant = None\<rparr>
                                in case cl_id cl of
                                     SvInt userId \<Rightarrow>
                                       Inr (cx\<lparr>sc_tenant := Some (case GetUserCache (se_tokens env) userId lg of
                                                  Some u \<Rightarrow> if us_TenantId u \<noteq> [] then us_TenantId u else ''default''
                                                | None \<Rightarrow> ''default'', userId)\<rparr>)
                                   | _ \<Rightarrow> Inl (401, SrSessionData))
                      | _ \<Rightarrow> Inl (401, SrSessionData))
                  | _ \<Rightarrow> Inl (401, SrSessionData))
              | _ \<Rightarrow> Inl (401, SrSessionData))))"

definition UserAuth :: "session_env \<Rightarrow> session_request \<Rightarrow> ledger \<Rightarrow> (int \<times> session_reason) + session_ctx" where
  "UserAuth env = authHelper env RoleCommonUser"

definition AdminAuth :: "session_env \<Rightarrow> session_request \<Rightarrow> ledger \<Rightarrow> (int \<times> session_reason) + session_ctx" where
  "AdminAuth env = authHelper env RoleAdminUser"

definition RootAuth :: "session_env \<Rightarrow> session_request \<Rightarrow> ledger \<Rightarrow> (int \<times> session_reason) + session_ctx" where
  "RootAuth env = authHelper env RoleRootUser"

section \<open>Lemmas\<close>

lemma sess_cases: "(case v of SvInt i \<Rightarrow> f i | _ \<Rightarrow> Inl e) = Inr x \<longleftrightarrow> (\<exists>i. v = SvInt i \<and> f i = Inr x)"
  "(case v of SvStr s \<Rightarrow> g s | _ \<Rightarrow> Inl e) = Inr x \<longleftrightarrow> (\<exists>s. v = SvStr s \<and> g s = Inr x)"
  by (cases v; simp)+

lemma if_Inl: "(if b then Inl e else y) = Inr x \<longleftrightarrow> \<not> b \<and> y = Inr x"
  by simp

text \<open>The checks that a request has passed, one after the other.\<close>

definition claim_passes :: "session_env \<Rightarrow> int \<Rightarrow> session_request \<Rightarrow> ledger \<Rightarrow> session_ctx \<Rightarrow> claim \<Rightarrow> bool" where
  "claim_passes env minRole r lg cx cl \<longleftrightarrow>
     (let h = (if sq_api_user r = [] then sq_new_api_user r else sq_api_user r)
      in h = [] \<or> (\<exists>i. go_parse_int h = Some i \<and> cl_id cl = SvInt i)) \<and>
     (\<exists>st. cl_status cl = SvInt st \<and> st \<noteq> UserStatusDisabled) \<and>
     (\<exists>role name uid. cl_role cl = SvInt role \<and> minRole \<le> role \<and> cl_username cl = SvStr name \<and> validUserInfo name role \<and>
        cl_id cl = SvInt uid \<and>
        cx = \<lparr>sc_username = SvStr name, sc_role = SvInt role, sc_id = SvInt uid, sc_group = sn_group (se_session env),
          sc_account = cl_account cl, sc_use_access_token = cl_access_token cl,
          sc_tenant = Some (case GetUserCache (se_tokens env) uid lg of
             Some u \<Rightarrow> if us_TenantId u \<noteq> [] then us_TenantId u else ''default'' | None \<Rightarrow> ''default'', uid)\<rparr>)"

lemma authHelper_passes:
  "authHelper env minRole r lg = Inr cx \<longleftrightarrow> (\<exists>cl. session_claim env r lg = Inr cl \<and> claim_passes env minRole r lg cx cl)"
proof (cases "session_claim env r lg")
  case (Inr cl)
  let ?h = "if sq_api_user r = [] then sq_new_api_user r else sq_api_user r"
  have hdr: "\<not> (?h \<noteq> [] \<and> go_parse_int ?h = None) \<and> \<not> (?h \<noteq> [] \<and> cl_id cl \<noteq> SvInt (the (go_parse_int ?h))) \<longleftrightarrow>
      ?h = [] \<or> (\<exists>i. go_parse_int ?h = Some i \<and> cl_id cl = SvInt i)"
    by (cases "go_parse_int ?h") auto
  show ?thesis
    unfolding authHelper_def Inr sum.case Let_def if_Inl sess_cases claim_passes_def hdr [symmetric]
    by (auto simp: not_less)
qed (simp add: authHelper_def)

lemma authHelper_more: "authHelper env m r lg = Inr cx \<Longrightarrow> m' \<le> m \<Longrightarrow> authHelper env m' r lg = Inr cx"
  unfolding authHelper_passes claim_passes_def by (blast intro: order_trans)

lemma validUserInfo_iff: "validUserInfo name role \<longleftrightarrow> go_trim_space name \<noteq> [] \<and> IsValidateRole role"
  by (simp add: validUserInfo_def)

section \<open>Properties\<close>

text \<open>
  What passes is well typed: whatever a session holds, a request that passes has a string as
  username that is not blank, a valid role of at least the required level, an integer as id that
  equals the id of the header when there is one, and a tenant for that id. Of the three gates each
  stricter one admits no request that a laxer one refuses.
\<close>

theorem session_typed:
  assumes "authHelper env minRole r lg = Inr cx"
  shows "(\<exists>name role uid tenant. sc_username cx = SvStr name \<and> go_trim_space name \<noteq> [] \<and> sc_role cx = SvInt role \<and>
      minRole \<le> role \<and> IsValidateRole role \<and> sc_id cx = SvInt uid \<and> sc_tenant cx = Some (tenant, uid) \<and> tenant \<noteq> [] \<and>
      (sq_api_user r \<noteq> [] \<longrightarrow> go_parse_int (sq_api_user r) = Some uid)) \<and>
    (\<forall>m \<le> minRole. authHelper env m r lg = Inr cx)"
proof
  show "\<forall>m \<le> minRole. authHelper env m r lg = Inr cx" using authHelper_more [OF assms] by blast
  show "\<exists>name role uid tenant. sc_username cx = SvStr name \<and> go_trim_space name \<noteq> [] \<and> sc_role cx = SvInt role \<and>
      minRole \<le> role \<and> IsValidateRole role \<and> sc_id cx = SvInt uid \<and> sc_tenant cx = Some (tenant, uid) \<and> tenant \<noteq> [] \<and>
      (sq_api_user r \<noteq> [] \<longrightarrow> go_parse_int (sq_api_user r) = Some uid)"
    using assms unfolding authHelper_passes claim_passes_def Let_def
    by (auto simp: validUserInfo_iff split: if_splits option.splits)
qed

definition demo_session_env :: session_env where
  "demo_session_env = \<lparr>se_session = \<lparr>sn_username = SvStr ''ann'', sn_role = SvInt 10, sn_id = SvInt 7, sn_status = SvInt 1,
     sn_group = SvStr ''vip''\<rparr>, se_identity = (\<lambda>_. None), se_db_ok = True, se_tokens = demo_token_env\<rparr>"

theorem session_typed_witness:
  "\<exists>cx. AdminAuth demo_session_env \<lparr>sq_Authorization = [], sq_api_user = ''7'', sq_new_api_user = []\<rparr> access_ledger = Inr cx \<and>
     UserAuth demo_session_env \<lparr>sq_Authorization = [], sq_api_user = ''7'', sq_new_api_user = []\<rparr> access_ledger = Inr cx \<and>
     sc_tenant cx = Some (''default'', 7)"
proof -
  let ?r = "\<lparr>sq_Authorization = [], sq_api_user = ''7'', sq_new_api_user = []\<rparr>"
  obtain cx where c: "authHelper demo_session_env RoleAdminUser ?r access_ledger = Inr cx" and t: "sc_tenant cx = Some (''default'', 7)"
  proof -
    have "go_parse_int ''7'' = Some 7" by code_simp
    moreover have "validUserInfo ''ann'' 10" by code_simp
    moreover have "GetUserCache demo_token_env 7 access_ledger = Some access_user_row"
      by (simp add: GetUserCache_def demo_token_env_def access_ledger_def gm_get_def)
    ultimately show ?thesis
      using that by (simp add: authHelper_def session_claim_def demo_session_env_def RoleAdminUser_def UserStatusDisabled_def access_user_row_def)
  qed
  have "authHelper demo_session_env RoleCommonUser ?r access_ledger = Inr cx"
    using session_typed [OF c] by (simp add: RoleAdminUser_def RoleCommonUser_def)
  then show ?thesis using c t by (auto simp: AdminAuth_def UserAuth_def)
qed

end
