(* ===== verification/Rate_Limit.thy ===== *)
theory Rate_Limit
  imports Go_Base
begin

text \<open>
  Rate limiting: the in-memory limiter of \<^verbatim>\<open>internal/pkg/common/rate-limit.go\<close>, the middlewares of
  \<^verbatim>\<open>internal/adapter/middleware/rate-limit.go\<close> and \<^verbatim>\<open>model-rate-limit.go\<close>, and the settings of
  \<^verbatim>\<open>internal/pkg/setting/rate_limit.go\<close>. The limiter keeps one queue of admission times per key; it
  is compared with a reference that remembers every admission. Redis is a service: its commands are
  a record of functions on an opaque state. Times are seconds for the in-memory limiter and
  milliseconds for Redis.
\<close>

section \<open>The in-memory limiter\<close>

record rate_limiter =
  rl_store :: "(string, int list) gomap option"   \<comment> \<open>\<open>None\<close> is the \<^verbatim>\<open>nil\<close> map\<close>
  rl_expiration :: int                             \<comment> \<open>nanoseconds\<close>
  rl_sweeper :: bool                               \<comment> \<open>the goroutine \<^verbatim>\<open>clearExpiredItems\<close> runs\<close>

definition rl_zero :: rate_limiter where
  "rl_zero = \<lparr>rl_store = None, rl_expiration = 0, rl_sweeper = False\<rparr>"

definition rl_Init :: "int \<Rightarrow> rate_limiter \<Rightarrow> rate_limiter" where
  "rl_Init expirationDuration l =
     (if rl_store l = None
      then l\<lparr>rl_store := Some [], rl_expiration := expirationDuration,
             rl_sweeper := rl_sweeper l \<or> 0 < expirationDuration\<rparr>
      else l)"

text \<open>\<^verbatim>\<open>int64(d.Seconds())\<close>.\<close>

definition rl_seconds :: "int \<Rightarrow> int" where
  "rl_seconds d = go_quot d 1000000000"

definition rl_expired :: "int \<Rightarrow> int \<Rightarrow> int list \<Rightarrow> bool" where
  "rl_expired now expiration queue \<longleftrightarrow> queue = [] \<or> rl_seconds expiration < now - List.last queue"

text \<open>One round of \<^verbatim>\<open>clearExpiredItems\<close>.\<close>

definition clearExpiredItems :: "int \<Rightarrow> rate_limiter \<Rightarrow> rate_limiter" where
  "clearExpiredItems now l =
     (case rl_store l of None \<Rightarrow> l
      | Some st \<Rightarrow> l\<lparr>rl_store := Some (fold (\<lambda>k m. if rl_expired now (rl_expiration l) (case gm_get m k of None \<Rightarrow> [] | Some q \<Rightarrow> q)
                                           then gm_del m k else m) (gm_keys st) st)\<rparr>)"

definition rl_Request :: "int \<Rightarrow> string \<Rightarrow> int \<Rightarrow> int \<Rightarrow> rate_limiter \<Rightarrow> bool res \<times> rate_limiter" where
  "rl_Request now key maxRequestNum duration l =
     (let st = (case rl_store l of None \<Rightarrow> [] | Some st \<Rightarrow> st)
      in case gm_get st key of
           Some queue \<Rightarrow>
             if int (length queue) < maxRequestNum
             then (Ok True, l\<lparr>rl_store := Some (gm_put st key (queue @ [now]))\<rparr>)
             else if queue = [] then (Panic, l)
             else if duration \<le> now - hd queue
             then (Ok True, l\<lparr>rl_store := Some (gm_put st key (tl queue @ [now]))\<rparr>)
             else (Ok False, l)
         | None \<Rightarrow>
             if maxRequestNum < 0 \<or> rl_store l = None then (Panic, l)
             else (Ok True, l\<lparr>rl_store := Some (gm_put st key [now])\<rparr>))"

section \<open>The reference: all admissions are remembered\<close>

text \<open>
  A request is admitted if fewer than \<open>n\<close> requests were admitted so far, or the one \<open>n\<close> admissions ago
  lies at least the window back. The log has the oldest admission first.
\<close>

definition ref_admits :: "int \<Rightarrow> nat \<Rightarrow> int \<Rightarrow> int list \<Rightarrow> bool" where
  "ref_admits now n duration adm \<longleftrightarrow> length adm < n \<or> duration \<le> now - adm ! (length adm - n)"

datatype rl_event = RlReq string int | RlSweep int

fun rl_time :: "rl_event \<Rightarrow> int" where
  "rl_time (RlReq k t) = t"
| "rl_time (RlSweep t) = t"

fun rl_run :: "(string \<Rightarrow> int \<times> int) \<Rightarrow> rl_event list \<Rightarrow> rate_limiter \<Rightarrow> bool res list" where
  "rl_run cfg [] l = []"
| "rl_run cfg (RlReq k t # es) l =
     (let (r, l') = rl_Request t k (fst (cfg k)) (snd (cfg k)) l in r # rl_run cfg es l')"
| "rl_run cfg (RlSweep t # es) l = rl_run cfg es (clearExpiredItems t l)"

text \<open>A limit below one still admits one request per window.\<close>

definition rl_slots :: "int \<Rightarrow> nat" where
  "rl_slots maxRequestNum = nat (max 1 maxRequestNum)"

fun ref_run :: "(string \<Rightarrow> int \<times> int) \<Rightarrow> rl_event list \<Rightarrow> (string \<Rightarrow> int list) \<Rightarrow> bool res list" where
  "ref_run cfg [] adm = []"
| "ref_run cfg (RlReq k t # es) adm =
     (let ok = ref_admits t (rl_slots (fst (cfg k))) (snd (cfg k)) (adm k)
      in Ok ok # ref_run cfg es (if ok then adm(k := adm k @ [t]) else adm))"
| "ref_run cfg (RlSweep t # es) adm = ref_run cfg es adm"

section \<open>The limiter follows the reference\<close>

definition rl_queue :: "rate_limiter \<Rightarrow> string \<Rightarrow> int list" where
  "rl_queue l k = (case rl_store l of None \<Rightarrow> [] | Some st \<Rightarrow> (case gm_get st k of None \<Rightarrow> [] | Some q \<Rightarrow> q))"

text \<open>
  The queue is the end of the log; what is missing in front of a queue that is not full is older
  than the window.
\<close>

definition rl_follows :: "nat \<Rightarrow> int \<Rightarrow> int \<Rightarrow> int list \<Rightarrow> int list \<Rightarrow> bool" where
  "rl_follows n duration now q adm \<longleftrightarrow> sorted adm \<and> (\<forall>x \<in> set adm. x \<le> now) \<and> length q \<le> n \<and>
     (\<exists>p. adm = p @ q \<and> (length q = n \<or> (\<forall>x \<in> set p. duration \<le> now - x)))"

definition rl_wf :: "rate_limiter \<Rightarrow> bool" where
  "rl_wf l \<longleftrightarrow> (case rl_store l of None \<Rightarrow> False | Some st \<Rightarrow> gm_ok st \<and> (\<forall>k q. gm_get st k = Some q \<longrightarrow> q \<noteq> []))"

lemma rl_follows_later: "rl_follows n d now q adm \<Longrightarrow> now \<le> now' \<Longrightarrow> rl_follows n d now' q adm"
  unfolding rl_follows_def by (metis diff_right_mono order_trans)

lemma rl_follows_admits:
  assumes "rl_follows n d now q adm" "0 < n"
  shows "ref_admits now n d adm \<longleftrightarrow> length q < n \<or> d \<le> now - hd q"
proof -
  obtain p where p: "adm = p @ q" "length q = n \<or> (\<forall>x \<in> set p. d \<le> now - x)" "length q \<le> n"
    using assms(1) by (auto simp: rl_follows_def)
  show ?thesis
  proof (cases "length q = n")
    case True
    then have "adm ! (length adm - n) = hd q" using p(1) assms(2) by (simp add: nth_append hd_conv_nth flip: length_greater_0_conv)
    then show ?thesis using True p(1) by (simp add: ref_admits_def)
  next
    case False
    have "d \<le> now - adm ! (length adm - n)" if "\<not> length adm < n"
    proof -
      have "length adm - n < length p" using that False p(1,3) by auto
      then have "adm ! (length adm - n) \<in> set p" using p(1) by (simp add: nth_append)
      then show ?thesis using p(2) False by blast
    qed
    then show ?thesis using False p(3) by (auto simp: ref_admits_def)
  qed
qed

lemma rl_follows_push:
  assumes "rl_follows n d now q adm" "0 < n" "length q < n \<or> d \<le> now - hd q"
  shows "rl_follows n d now ((if length q < n then q else tl q) @ [now]) (adm @ [now])"
proof -
  obtain p where p: "adm = p @ q" "length q = n \<or> (\<forall>x \<in> set p. d \<le> now - x)" "length q \<le> n"
    using assms(1) by (auto simp: rl_follows_def)
  have s: "sorted (adm @ [now])" "\<forall>x \<in> set (adm @ [now]). x \<le> now"
    using assms(1) by (auto simp: rl_follows_def sorted_append)
  show ?thesis
  proof (cases "length q < n")
    case True
    then have "adm @ [now] = p @ (q @ [now]) \<and> (\<forall>x \<in> set p. d \<le> now - x)" using p by auto
    then show ?thesis using s True unfolding rl_follows_def by auto
  next
    case False
    then have q: "length q = n" "q = hd q # tl q" using p(3) assms(2) by (auto simp flip: length_greater_0_conv)
    have "adm @ [now] = (p @ [hd q]) @ (tl q @ [now])" using p(1) q(2) by simp
    moreover have "length (tl q @ [now]) = n" using q(1) assms(2) by simp
    ultimately show ?thesis using s False unfolding rl_follows_def by auto
  qed
qed

lemma rl_follows_forget:
  assumes "rl_follows n d now q adm" "rl_expired now e q" "d \<le> rl_seconds e + 1"
  shows "rl_follows n d now [] adm"
proof -
  obtain p where p: "adm = p @ q" "length q = n \<or> (\<forall>x \<in> set p. d \<le> now - x)"
    using assms(1) by (auto simp: rl_follows_def)
  have "\<forall>x \<in> set adm. d \<le> now - x" if "q \<noteq> []"
  proof
    fix x assume "x \<in> set adm"
    moreover have "adm = butlast adm @ [List.last q]" using p(1) that by (metis append_butlast_last_id append_is_Nil_conv last_appendR)
    moreover have "sorted adm" using assms(1) by (simp add: rl_follows_def)
    ultimately have "x \<le> List.last q" by (metis Un_iff empty_iff insert_iff list.set(1) list.set(2) order_refl set_append sorted_append)
    then show "d \<le> now - x" using assms(2,3) that by (simp add: rl_expired_def)
  qed
  moreover have "\<forall>x \<in> set adm. d \<le> now - x" if "q = []" "n \<noteq> 0" using p that by simp
  ultimately have "n = 0 \<or> (\<forall>x \<in> set adm. d \<le> now - x)" by blast
  then show ?thesis using assms(1) unfolding rl_follows_def by auto
qed

text \<open>One request, one sweep.\<close>

definition rl_sim :: "(string \<Rightarrow> int \<times> int) \<Rightarrow> int \<Rightarrow> rate_limiter \<Rightarrow> (string \<Rightarrow> int list) \<Rightarrow> bool" where
  "rl_sim cfg now l adm \<longleftrightarrow> rl_wf l \<and>
     (\<forall>k. rl_follows (rl_slots (fst (cfg k))) (snd (cfg k)) now (rl_queue l k) (adm k))"

definition rl_cfg_ok :: "(string \<Rightarrow> int \<times> int) \<Rightarrow> int \<Rightarrow> bool" where
  "rl_cfg_ok cfg expiration \<longleftrightarrow> (\<forall>k. 0 \<le> fst (cfg k) \<and> snd (cfg k) \<le> rl_seconds expiration)"

lemma rl_slots_pos [simp]: "0 < rl_slots n"
  by (simp add: rl_slots_def)

lemma rl_sim_later: "rl_sim cfg now l adm \<Longrightarrow> now \<le> now' \<Longrightarrow> rl_sim cfg now' l adm"
  unfolding rl_sim_def using rl_follows_later by blast

lemma rl_Request_step:
  fixes k :: string and d now :: int
  assumes "rl_wf l" "0 \<le> n"
  defines "q \<equiv> rl_queue l k" and "ok \<equiv> length (rl_queue l k) < rl_slots n \<or> d \<le> now - hd (rl_queue l k)"
  shows "fst (rl_Request now k n d l) = Ok ok \<and> rl_wf (snd (rl_Request now k n d l)) \<and>
    rl_expiration (snd (rl_Request now k n d l)) = rl_expiration l \<and>
    rl_queue (snd (rl_Request now k n d l)) j =
      (if ok \<and> j = k then (if length q < rl_slots n then q else tl q) @ [now] else rl_queue l j)"
proof -
  obtain st where st: "rl_store l = Some st" "gm_ok st" "\<forall>k q. gm_get st k = Some q \<longrightarrow> q \<noteq> []"
    using assms(1) by (auto simp: rl_wf_def split: option.splits)
  show ?thesis
  proof (cases "gm_get st k")
    case None
    then have "q = []" by (simp add: q_def rl_queue_def st(1))
    then show ?thesis using None st assms(2) by (auto simp: rl_Request_def rl_wf_def rl_queue_def ok_def q_def)
  next
    case (Some qq)
    then have q: "q = qq" "qq \<noteq> []" using st by (auto simp: q_def rl_queue_def)
    have len: "int (length qq) < n \<longleftrightarrow> length qq < rl_slots n"
    proof -
      have "0 < length qq" using q(2) by simp
      then show ?thesis using assms(2) unfolding rl_slots_def by linarith
    qed
    have ok: "ok \<longleftrightarrow> int (length qq) < n \<or> d \<le> now - hd qq" using len q(1) by (simp add: ok_def q_def)
    show ?thesis
      unfolding ok using Some st q len by (auto simp: rl_Request_def rl_wf_def rl_queue_def)
  qed
qed

lemma fold_sweep_get:
  "gm_get (fold (\<lambda>k m. if P (gm_get m k) then gm_del m k else m) ks m) k =
     (if k \<in> set ks \<and> P (gm_get m k) then None else gm_get m k)"
  by (induction ks arbitrary: m) auto

lemma fold_sweep_ok: "gm_ok m \<Longrightarrow> gm_ok (fold (\<lambda>k m. if P (gm_get m k) then gm_del m k else m) ks m)"
  by (induction ks arbitrary: m) auto

lemma clearExpiredItems_step:
  assumes "rl_wf l"
  shows "rl_wf (clearExpiredItems now l) \<and> rl_expiration (clearExpiredItems now l) = rl_expiration l \<and>
    rl_queue (clearExpiredItems now l) k = (if rl_expired now (rl_expiration l) (rl_queue l k) then [] else rl_queue l k)"
proof -
  obtain st where st: "rl_store l = Some st" "gm_ok st" "\<forall>k q. gm_get st k = Some q \<longrightarrow> q \<noteq> []"
    using assms by (auto simp: rl_wf_def split: option.splits)
  let ?P = "\<lambda>x. rl_expired now (rl_expiration l) (case x of None \<Rightarrow> [] | Some q \<Rightarrow> q)"
  have get: "gm_get (fold (\<lambda>k m. if ?P (gm_get m k) then gm_del m k else m) (gm_keys st) st) j =
      (if ?P (gm_get st j) then None else gm_get st j)" for j
    using fold_sweep_get [of ?P "gm_keys st" st j] gm_keys_iff [of j st] by (auto simp: rl_expired_def)
  show ?thesis
    using st get fold_sweep_ok [OF st(2), of ?P "gm_keys st"]
    by (auto simp: clearExpiredItems_def rl_wf_def rl_queue_def split: if_splits option.splits)
qed

lemma rl_sim_Request:
  fixes k :: string
  assumes "rl_sim cfg now l adm" "0 \<le> fst (cfg k)"
  defines "ok \<equiv> ref_admits now (rl_slots (fst (cfg k))) (snd (cfg k)) (adm k)"
    and "r \<equiv> rl_Request now k (fst (cfg k)) (snd (cfg k)) l"
  shows "fst r = Ok ok \<and> rl_sim cfg now (snd r) (if ok then adm(k := adm k @ [now]) else adm) \<and>
    rl_expiration (snd r) = rl_expiration l"
proof -
  have wf: "rl_wf l" and fol: "rl_follows (rl_slots (fst (cfg j))) (snd (cfg j)) now (rl_queue l j) (adm j)" for j
    using assms(1) by (simp_all add: rl_sim_def)
  have ok: "ok \<longleftrightarrow> length (rl_queue l k) < rl_slots (fst (cfg k)) \<or> snd (cfg k) \<le> now - hd (rl_queue l k)"
    unfolding ok_def by (rule rl_follows_admits [OF fol rl_slots_pos])
  note step = rl_Request_step [OF wf assms(2), where k = k and d = "snd (cfg k)" and now = now, folded r_def, folded ok]
  have "rl_follows (rl_slots (fst (cfg j))) (snd (cfg j)) now (rl_queue (snd r) j) ((if ok then adm(k := adm k @ [now]) else adm) j)" for j
    using step [of j] fol [of j] rl_follows_push [OF fol rl_slots_pos, of k] ok by (cases "ok \<and> j = k") auto
  then show ?thesis using step by (auto simp: rl_sim_def)
qed

lemma rl_sim_sweep:
  assumes "rl_sim cfg now l adm" "rl_cfg_ok cfg (rl_expiration l)"
  shows "rl_sim cfg now (clearExpiredItems now l) adm"
proof -
  have wf: "rl_wf l" and fol: "rl_follows (rl_slots (fst (cfg j))) (snd (cfg j)) now (rl_queue l j) (adm j)" for j
    using assms(1) by (simp_all add: rl_sim_def)
  have "snd (cfg j) \<le> rl_seconds (rl_expiration l) + 1" for j using assms(2) by (auto simp: rl_cfg_ok_def intro: order_trans)
  then show ?thesis
    using clearExpiredItems_step [OF wf, of now] fol rl_follows_forget [OF fol] by (auto simp: rl_sim_def)
qed

lemma rl_run_ref:
  "\<lbrakk>rl_sim cfg now l adm; rl_cfg_ok cfg (rl_expiration l); sorted (map rl_time es); \<forall>e \<in> set es. now \<le> rl_time e\<rbrakk> \<Longrightarrow>
   rl_run cfg es l = ref_run cfg es adm"
proof (induction es arbitrary: now l adm)
  case (Cons e es)
  have later: "\<forall>e' \<in> set es. rl_time e \<le> rl_time e'" and es: "sorted (map rl_time es)" using Cons.prems(3) by auto
  have sim: "rl_sim cfg (rl_time e) l adm" using Cons.prems(1,4) by (auto intro: rl_sim_later)
  show ?case
  proof (cases e)
    case (RlReq k t)
    obtain r l' where rq: "rl_Request t k (fst (cfg k)) (snd (cfg k)) l = (r, l')" by fastforce
    have "0 \<le> fst (cfg k)" using Cons.prems(2) by (simp add: rl_cfg_ok_def)
    define ok where "ok = ref_admits t (rl_slots (fst (cfg k))) (snd (cfg k)) (adm k)"
    define adm' where "adm' = (if ok then adm(k := adm k @ [t]) else adm)"
    have "r = Ok ok" "rl_sim cfg t l' adm'" "rl_expiration l' = rl_expiration l"
      using rl_sim_Request [of cfg t l adm k] sim \<open>0 \<le> fst (cfg k)\<close> rq RlReq by (simp_all add: ok_def adm'_def)
    moreover have "rl_run cfg es l' = ref_run cfg es adm'"
      by (rule Cons.IH [of t]) (use calculation Cons.prems(2) es later RlReq in simp_all)
    ultimately show ?thesis using RlReq rq by (simp add: Let_def ok_def adm'_def)
  next
    case (RlSweep t)
    have "rl_wf l" using sim by (simp add: rl_sim_def)
    then have "rl_expiration (clearExpiredItems t l) = rl_expiration l" using clearExpiredItems_step by blast
    then show ?thesis
      using Cons.IH [of t "clearExpiredItems t l" adm] rl_sim_sweep [OF sim Cons.prems(2)] Cons.prems(2) es later RlSweep by auto
  qed
qed simp

lemma rl_sim_init: "rl_sim cfg now (rl_Init e rl_zero) (\<lambda>_. [])"
  by (simp add: rl_sim_def rl_Init_def rl_zero_def rl_wf_def rl_follows_def rl_queue_def)

section \<open>The reference keeps to the window\<close>

text \<open>Two admissions that are \<open>n\<close> apart are at least a window apart.\<close>

definition spaced :: "nat \<Rightarrow> int \<Rightarrow> int list \<Rightarrow> bool" where
  "spaced n d adm \<longleftrightarrow> sorted adm \<and> (\<forall>i. i + n < length adm \<longrightarrow> d \<le> adm ! (i + n) - adm ! i)"

lemma spaced_push:
  assumes "spaced n d adm" "\<forall>x \<in> set adm. x \<le> now" "ref_admits now n d adm" "0 < n"
  shows "spaced n d (adm @ [now])"
  unfolding spaced_def
proof (intro conjI allI impI)
  show "sorted (adm @ [now])" using assms(1,2) by (auto simp: spaced_def sorted_append)
next
  fix i assume i: "i + n < length (adm @ [now])"
  show "d \<le> (adm @ [now]) ! (i + n) - (adm @ [now]) ! i"
  proof (cases "i + n < length adm")
    case True
    then show ?thesis using assms(1) by (simp add: spaced_def nth_append)
  next
    case False
    then have "i = length adm - n" "n \<le> length adm" "i + n = length adm" using i by auto
    then show ?thesis using assms(3,4) by (auto simp: ref_admits_def nth_append)
  qed
qed

lemma spaced_window:
  assumes "spaced n d adm"
  shows "length (filter (\<lambda>x. a \<le> x \<and> x < a + d) adm) \<le> n"
proof (rule ccontr)
  let ?P = "\<lambda>x. a \<le> x \<and> x < a + d"
  let ?I = "{i. i < length adm \<and> ?P (adm ! i)}"
  assume "\<not> length (filter ?P adm) \<le> n"
  then have card: "n < card ?I" by (simp add: length_filter_conv_card)
  have fin: "finite ?I" by simp
  define lo where "lo = Min ?I"
  have ne: "?I \<noteq> {}"
  proof
    assume e: "?I = {}"
    have "card ?I = 0" unfolding e by (rule card.empty)
    then show False using card by linarith
  qed
  then have lo: "lo \<in> ?I" unfolding lo_def by (rule Min_in [OF fin])
  have "\<exists>j \<in> ?I. lo + n \<le> j"
  proof (rule ccontr)
    assume "\<not> (\<exists>j \<in> ?I. lo + n \<le> j)"
    then have "?I \<subseteq> {lo..<lo + n}" using Min_le [OF fin] by (force simp: lo_def)
    then have "card ?I \<le> card {lo..<lo + n}" by (rule card_mono [rotated]) simp
    then show False using card by simp
  qed
  then obtain j where j: "j \<in> ?I" "lo + n \<le> j" by blast
  have "adm ! (lo + n) \<le> adm ! j" using assms j by (auto simp: spaced_def intro: sorted_nth_mono)
  moreover have "d \<le> adm ! (lo + n) - adm ! lo" using assms j by (auto simp: spaced_def)
  ultimately show False using lo j(1) by auto
qed

text \<open>The times at which requests for a key were admitted.\<close>

fun rl_admitted :: "string \<Rightarrow> rl_event list \<Rightarrow> bool res list \<Rightarrow> int list" where
  "rl_admitted k [] rs = []"
| "rl_admitted k (RlSweep t # es) rs = rl_admitted k es rs"
| "rl_admitted k (RlReq j t # es) [] = []"
| "rl_admitted k (RlReq j t # es) (r # rs) =
     (if j = k \<and> r = Ok True then t # rl_admitted k es rs else rl_admitted k es rs)"

lemma ref_run_spaced:
  "\<lbrakk>sorted (map rl_time es); \<forall>e \<in> set es. \<forall>x \<in> set (adm k). x \<le> rl_time e; spaced (rl_slots (fst (cfg k))) (snd (cfg k)) (adm k)\<rbrakk> \<Longrightarrow>
   spaced (rl_slots (fst (cfg k))) (snd (cfg k)) (adm k @ rl_admitted k es (ref_run cfg es adm))"
proof (induction es arbitrary: adm)
  case (Cons e es)
  have later: "\<forall>e' \<in> set es. rl_time e \<le> rl_time e'" and es: "sorted (map rl_time es)" using Cons.prems(1) by auto
  show ?case
  proof (cases e)
    case (RlSweep t)
    then show ?thesis using Cons.IH [of adm] Cons.prems es by simp
  next
    case (RlReq j t)
    define ok where "ok = ref_admits t (rl_slots (fst (cfg j))) (snd (cfg j)) (adm j)"
    show ?thesis
    proof (cases "j = k \<and> ok")
      case True
      have "spaced (rl_slots (fst (cfg k))) (snd (cfg k)) (adm k @ [t])"
        by (rule spaced_push) (use Cons.prems(2,3) True RlReq in \<open>auto simp: ok_def\<close>)
      moreover define adm' where "adm' = adm(k := adm k @ [t])"
      ultimately have "spaced (rl_slots (fst (cfg k))) (snd (cfg k)) (adm' k @ rl_admitted k es (ref_run cfg es adm'))"
        by (intro Cons.IH) (use Cons.prems(2) es later RlReq in \<open>auto simp: adm'_def\<close>)
      then show ?thesis using RlReq True by (auto simp: ok_def adm'_def Let_def)
    next
      case False
      define adm' where "adm' = (if ok then adm(j := adm j @ [t]) else adm)"
      have same: "adm' k = adm k" using False by (auto simp: adm'_def)
      have "spaced (rl_slots (fst (cfg k))) (snd (cfg k)) (adm' k @ rl_admitted k es (ref_run cfg es adm'))"
        by (rule Cons.IH) (use Cons.prems(2,3) es in \<open>simp_all add: same\<close>)
      then show ?thesis using RlReq False by (auto simp: ok_def adm'_def same Let_def split: if_splits)
    qed
  qed
qed simp

section \<open>Middlewares\<close>

text \<open>
  The answer of a limiting middleware: go on, or abort with a status and, for a limit that was hit,
  the headers \<^verbatim>\<open>X-RateLimit-Limit\<close>, \<^verbatim>\<open>X-RateLimit-Remaining\<close> and \<^verbatim>\<open>Retry-After\<close>.
\<close>

datatype rl_answer = RlNext | RlAbort int "(int \<times> int \<times> int) option"

definition setRateLimitResponseHeaders :: "int \<Rightarrow> int \<Rightarrow> int \<Rightarrow> (int \<times> int \<times> int) option" where
  "setRateLimitResponseHeaders limit remaining retryAfterSec = Some (limit, remaining, retryAfterSec)"

definition memoryRateLimiter :: "int \<Rightarrow> string \<Rightarrow> int \<Rightarrow> int \<Rightarrow> string \<Rightarrow> rate_limiter \<Rightarrow> rl_answer res \<times> rate_limiter" where
  "memoryRateLimiter now clientIP maxRequestNum duration msk l =
     (case rl_Request now (msk @ clientIP) maxRequestNum duration l of
        (Ok True, l1) \<Rightarrow> (Ok RlNext, l1)
      | (Ok False, l1) \<Rightarrow> (Ok (RlAbort 429 (setRateLimitResponseHeaders maxRequestNum 0 duration)), l1)
      | (Err m, l1) \<Rightarrow> (Err m, l1)
      | (Panic, l1) \<Rightarrow> (Panic, l1))"

text \<open>
  The Redis commands the code sends: list length (an error is \<open>None\<close>), the time of the oldest element
  (\<open>None\<close> when it does not parse), push, trim to the newest, refresh of the expiry, and the token
  bucket script with the requested tokens, the rate and the capacity.
\<close>

record 'r redis =
  rd_LLen :: "'r \<Rightarrow> string \<Rightarrow> int option"
  rd_oldest :: "'r \<Rightarrow> string \<Rightarrow> int option"
  rd_LPush :: "string \<Rightarrow> int \<Rightarrow> 'r \<Rightarrow> 'r"
  rd_LTrim :: "string \<Rightarrow> int \<Rightarrow> 'r \<Rightarrow> 'r"
  rd_Expire :: "string \<Rightarrow> int \<Rightarrow> 'r \<Rightarrow> 'r"
  rd_bucket :: "string \<Rightarrow> int \<Rightarrow> int \<Rightarrow> int \<Rightarrow> 'r \<Rightarrow> bool option \<times> 'r"

text \<open>\<^verbatim>\<open>RateLimitKeyExpirationDuration\<close>, 20 minutes in nanoseconds.\<close>

definition RateLimitKeyExpirationDuration :: int where
  "RateLimitKeyExpirationDuration = 20 * 60 * 1000000000"

definition redisRateLimiter :: "'r redis \<Rightarrow> int \<Rightarrow> string \<Rightarrow> int \<Rightarrow> int \<Rightarrow> string \<Rightarrow> 'r \<Rightarrow> rl_answer \<times> 'r" where
  "redisRateLimiter rd now clientIP maxRequestNum duration msk r =
     (let key = ''rateLimit:'' @ msk @ clientIP; keep = rd_Expire rd key RateLimitKeyExpirationDuration
      in case rd_LLen rd r key of
           None \<Rightarrow> (RlAbort 500 None, r)
         | Some listLength \<Rightarrow>
             if listLength < maxRequestNum then (RlNext, keep (rd_LPush rd key now r))
             else (case rd_oldest rd r key of
                     None \<Rightarrow> (RlAbort 500 None, r)
                   | Some oldTime \<Rightarrow>
                       (let elapsed = go_quot (now - oldTime) 1000
                        in if elapsed < duration
                           then (RlAbort 429 (setRateLimitResponseHeaders maxRequestNum 0 (duration - elapsed)), keep r)
                           else (RlNext, keep (rd_LTrim rd key (maxRequestNum - 1) (rd_LPush rd key now r))))))"

text \<open>\<^verbatim>\<open>rateLimitFactory\<close>: which limiter a route uses, and the initialisation of the in-memory one.\<close>

definition rateLimitFactory ::
    "'r redis option \<Rightarrow> int \<Rightarrow> string \<Rightarrow> int \<Rightarrow> int \<Rightarrow> string \<Rightarrow> rate_limiter \<times> 'r \<Rightarrow> rl_answer res \<times> rate_limiter \<times> 'r" where
  "rateLimitFactory rdb now clientIP maxRequestNum duration msk s =
     (case rdb of
        Some rd \<Rightarrow> (let (a, r) = redisRateLimiter rd (now * 1000) clientIP maxRequestNum duration msk (snd s) in (Ok a, fst s, r))
      | None \<Rightarrow> (let (a, l) = memoryRateLimiter now clientIP maxRequestNum duration msk
                    (rl_Init RateLimitKeyExpirationDuration (fst s)) in (a, l, snd s)))"

section \<open>Limits per model request\<close>

definition ModelRequestRateLimitCountMark :: string where "ModelRequestRateLimitCountMark = ''MRRL''"
definition ModelRequestRateLimitSuccessCountMark :: string where "ModelRequestRateLimitSuccessCountMark = ''MRRLS''"

definition checkRedisRateLimit :: "'r redis \<Rightarrow> int \<Rightarrow> int \<Rightarrow> string \<Rightarrow> int \<Rightarrow> int \<Rightarrow> 'r \<Rightarrow> bool option \<times> 'r" where
  "checkRedisRateLimit rd now expiry key maxCount duration r =
     (if maxCount = 0 then (Some True, r)
      else (case rd_LLen rd r key of
              None \<Rightarrow> (None, r)
            | Some len \<Rightarrow>
                if len < maxCount then (Some True, r)
                else (case rd_oldest rd r key of
                        None \<Rightarrow> (None, r)
                      | Some oldTime \<Rightarrow>
                          if go_quot (now - oldTime) 1000 < duration then (Some False, rd_Expire rd key expiry r)
                          else (Some True, r))))"

definition recordRedisRequest :: "'r redis \<Rightarrow> int \<Rightarrow> int \<Rightarrow> string \<Rightarrow> int \<Rightarrow> 'r \<Rightarrow> 'r" where
  "recordRedisRequest rd now expiry key maxCount r =
     (if maxCount = 0 then r
      else rd_Expire rd key expiry (rd_LTrim rd key (maxCount - 1) (rd_LPush rd key now r)))"

text \<open>
  The handlers run the rest of the chain, whose final status is \<open>status\<close>. After the answer for the
  total limit the code does not return; the chain is aborted, so nothing further runs and the status
  is 429.
\<close>

definition redisRateLimitHandler ::
    "'r redis \<Rightarrow> int \<Rightarrow> int \<Rightarrow> int \<Rightarrow> int \<Rightarrow> int \<Rightarrow> string \<Rightarrow> int \<Rightarrow> 'r \<Rightarrow> rl_answer \<times> 'r" where
  "redisRateLimitHandler rd now expiry duration totalMaxCount successMaxCount userId status r =
     (let successKey = ''rateLimit:'' @ ModelRequestRateLimitSuccessCountMark @ '':'' @ userId
      in case checkRedisRateLimit rd now expiry successKey successMaxCount duration r of
           (None, r1) \<Rightarrow> (RlAbort 500 None, r1)
         | (Some False, r1) \<Rightarrow> (RlAbort 429 (setRateLimitResponseHeaders successMaxCount 0 duration), r1)
         | (Some True, r1) \<Rightarrow>
             (let chain = \<lambda>st r2. if st < 400 then recordRedisRequest rd now expiry successKey successMaxCount r2 else r2
              in if 0 < totalMaxCount then
                   (case rd_bucket rd (''rateLimit:'' @ userId) duration totalMaxCount (totalMaxCount * duration) r1 of
                      (None, r2) \<Rightarrow> (RlAbort 500 None, r2)
                    | (Some False, r2) \<Rightarrow> (RlAbort 429 (setRateLimitResponseHeaders totalMaxCount 0 duration), chain 429 r2)
                    | (Some True, r2) \<Rightarrow> (RlNext, chain status r2))
                 else (RlNext, chain status r1)))"

definition memoryRateLimitHandler ::
    "int \<Rightarrow> int \<Rightarrow> int \<Rightarrow> int \<Rightarrow> string \<Rightarrow> int \<Rightarrow> rate_limiter \<Rightarrow> rl_answer res \<times> rate_limiter" where
  "memoryRateLimitHandler now duration totalMaxCount successMaxCount userId status l =
     (let totalKey = ModelRequestRateLimitCountMark @ userId;
          successKey = ModelRequestRateLimitSuccessCountMark @ userId;
          check = \<lambda>l1. (case rl_Request now (successKey @ ''_check'') successMaxCount duration l1 of
             (Ok True, l2) \<Rightarrow>
               if status < 400 then
                 (case rl_Request now successKey successMaxCount duration l2 of
                    (Panic, l3) \<Rightarrow> (Panic, l3) | (_, l3) \<Rightarrow> (Ok RlNext, l3))
               else (Ok RlNext, l2)
           | (Ok False, l2) \<Rightarrow> (Ok (RlAbort 429 (setRateLimitResponseHeaders successMaxCount 0 duration)), l2)
           | (_, l2) \<Rightarrow> (Panic, l2))
      in if 0 < totalMaxCount then
           (case rl_Request now totalKey totalMaxCount duration l of
              (Ok True, l1) \<Rightarrow> check l1
            | (Ok False, l1) \<Rightarrow> (Ok (RlAbort 429 (setRateLimitResponseHeaders totalMaxCount 0 duration)), l1)
            | (_, l1) \<Rightarrow> (Panic, l1))
         else check l)"

record rl_settings =
  rs_Enabled :: bool
  rs_DurationMinutes :: int
  rs_Count :: int
  rs_SuccessCount :: int
  rs_Group :: "(string, int \<times> int) gomap"

definition GetGroupRateLimit :: "rl_settings \<Rightarrow> string \<Rightarrow> int \<times> int \<times> bool" where
  "GetGroupRateLimit cfg grp =
     (case gm_get (rs_Group cfg) grp of None \<Rightarrow> (0, 0, False) | Some (t, s) \<Rightarrow> (t, s, True))"

text \<open>\<open>False\<close> when a pair of limits of the configured map is refused.\<close>

definition CheckModelRequestRateLimitGroup :: "(string, int \<times> int) gomap \<Rightarrow> bool" where
  "CheckModelRequestRateLimitGroup limits =
     list_all (\<lambda>(grp, t, s). \<not> (t < 0 \<or> s < 1) \<and> \<not> (2147483647 < t \<or> 2147483647 < s)) limits"

definition ModelRequestRateLimit ::
    "'r redis option \<Rightarrow> rl_settings \<Rightarrow> int \<Rightarrow> string \<Rightarrow> string \<Rightarrow> string \<Rightarrow> int \<Rightarrow> rate_limiter \<times> 'r
     \<Rightarrow> rl_answer res \<times> rate_limiter \<times> 'r" where
  "ModelRequestRateLimit rdb cfg now tokenGroup userGroup userId status s =
     (if \<not> rs_Enabled cfg then (Ok RlNext, s)
      else (let duration = rs_DurationMinutes cfg * 60;
                grp = (if tokenGroup = [] then userGroup else tokenGroup);
                (groupTotal, groupSuccess, found) = GetGroupRateLimit cfg grp;
                totalMax = (if found then groupTotal else rs_Count cfg);
                successMax = (if found then groupSuccess else rs_SuccessCount cfg);
                expiry = rs_DurationMinutes cfg * 60 * 1000000000
            in case rdb of
                 Some rd \<Rightarrow> (let (a, r) = redisRateLimitHandler rd (now * 1000) expiry duration totalMax successMax userId status (snd s)
                              in (Ok a, fst s, r))
               | None \<Rightarrow> (let (a, l) = memoryRateLimitHandler now duration totalMax successMax userId status (rl_Init expiry (fst s))
                              in (a, l, snd s))))"

lemma rl_run_start:
  assumes "rl_cfg_ok cfg e" "sorted (map rl_time es)" "\<forall>x \<in> set es. start \<le> rl_time x"
  shows "rl_run cfg es (rl_Init e rl_zero) = ref_run cfg es (\<lambda>_. [])"
  by (rule rl_run_ref [OF rl_sim_init _ assms(2,3)]) (simp add: rl_Init_def rl_zero_def assms(1))

lemma rl_starts: "\<exists>start. \<forall>x \<in> set es. start \<le> rl_time x"
  by (rule exI [of _ "Min (insert 0 (set (map rl_time es)))"]) simp

section \<open>Properties\<close>

text \<open>
  C13. The in-memory limiter is a sliding window: its bounded queues, which the sweeper may drop,
  give the same answers as remembering every admission, for any interleaving of requests and sweeps
  in time order, provided that no limit is negative and no window is longer than the expiry of the keys (a longer window
  is forgotten by the sweep: \<open>long_window_forgotten\<close>).
\<close>

theorem rate_limiter_equivalent:
  assumes "sorted (map rl_time es)" and "rl_cfg_ok cfg expiration"
  shows "rl_run cfg es (rl_Init expiration rl_zero) = ref_run cfg es (\<lambda>_. [])"
  using rl_starts [of es] rl_run_start [OF assms(2,1)] by blast

definition demo_cfg :: "string \<Rightarrow> int \<times> int" where
  "demo_cfg k = (2, 60)"

lemma demo_cfg_ok: "rl_cfg_ok demo_cfg RateLimitKeyExpirationDuration"
  by (simp add: rl_cfg_ok_def demo_cfg_def RateLimitKeyExpirationDuration_def rl_seconds_def go_quot_def)

theorem rate_limiter_equivalent_witness:
  "rl_run demo_cfg [RlReq ''a'' 0, RlReq ''a'' 1, RlReq ''a'' 59, RlSweep 60, RlReq ''a'' 60, RlReq ''a'' 60]
     (rl_Init RateLimitKeyExpirationDuration rl_zero) = [Ok True, Ok True, Ok False, Ok True, Ok False]"
  by (subst rate_limiter_equivalent [OF _ demo_cfg_ok]) (simp_all add: demo_cfg_def ref_admits_def rl_slots_def)

text \<open>
  No window is overrun: however requests and sweeps are interleaved in time order, at most
  \<open>max 1 maxRequestNum\<close> requests for a key are admitted in any interval of the length of its window,
  as long as no window is longer than the expiry of the keys.
\<close>

theorem rate_limit_window:
  assumes "sorted (map rl_time es)" and "rl_cfg_ok cfg expiration"
  shows "length (filter (\<lambda>t. a \<le> t \<and> t < a + snd (cfg k))
      (rl_admitted k es (rl_run cfg es (rl_Init expiration rl_zero)))) \<le> rl_slots (fst (cfg k))"
proof -
  have "rl_run cfg es (rl_Init expiration rl_zero) = ref_run cfg es (\<lambda>_. [])"
    using rl_starts [of es] rl_run_start [OF assms(2,1)] by blast
  moreover have "spaced (rl_slots (fst (cfg k))) (snd (cfg k)) (rl_admitted k es (ref_run cfg es (\<lambda>_. [])))"
    using ref_run_spaced [of es "\<lambda>_. []" k cfg] assms(1) by (simp add: spaced_def)
  ultimately show ?thesis using spaced_window by metis
qed

theorem rate_limit_window_witness:
  "length (filter (\<lambda>t. 0 \<le> t \<and> t < 60) (rl_admitted ''a'' [RlReq ''a'' 0, RlReq ''a'' 1, RlReq ''a'' 59]
     (rl_run demo_cfg [RlReq ''a'' 0, RlReq ''a'' 1, RlReq ''a'' 59] (rl_Init RateLimitKeyExpirationDuration rl_zero)))) \<le> 2"
  using rate_limit_window [OF _ demo_cfg_ok, of "[RlReq ''a'' 0, RlReq ''a'' 1, RlReq ''a'' 59]" 0 "''a''"]
  by (simp add: demo_cfg_def rl_slots_def)

section \<open>Consequences\<close>

text \<open>
  Longer windows lose their limit: a sweep after the expiry forgets admissions that still count. The
  expiry is that of the first initialisation, 20 minutes when a route limiter comes first, whatever
  the window of the model limits is.
\<close>

lemma long_window_forgotten:
  "rl_run (\<lambda>_. (1, 3600)) [RlReq ''u'' 0, RlSweep 1201, RlReq ''u'' 1201] (rl_Init RateLimitKeyExpirationDuration rl_zero)
     = [Ok True, Ok True]"
  by (simp add: rl_Init_def rl_zero_def rl_Request_def clearExpiredItems_def rl_expired_def rl_seconds_def go_quot_def
      RateLimitKeyExpirationDuration_def gm_keys_def gm_put_def gm_get_def gm_del_def)

lemma rl_Init_first: "rl_store l \<noteq> None \<Longrightarrow> rl_Init e l = l"
  by (auto simp: rl_Init_def)

text \<open>A limit of zero admits everything through Redis, and one request per window in memory.\<close>

lemma zero_success_limit:
  "checkRedisRateLimit rd now expiry key 0 duration r = (Some True, r)"
  "fst (rl_Request 10 k 0 60 (snd (rl_Request 0 k 0 60 (rl_Init e rl_zero)))) = Ok False"
  by (simp_all add: checkRedisRateLimit_def rl_Request_def rl_Init_def rl_zero_def gm_put_def gm_get_def)

text \<open>
  In memory the limit of successful requests counts all of them: the answers do not depend on how
  the requests ended, because only the key of the check is asked, and it records every request.
\<close>

definition rl_agree :: "string \<Rightarrow> rate_limiter \<Rightarrow> rate_limiter \<Rightarrow> bool" where
  "rl_agree k l m \<longleftrightarrow> rl_wf l \<and> rl_wf m \<and> (\<forall>j. j \<noteq> k \<longrightarrow> rl_queue l j = rl_queue m j)"

fun mem_run :: "int \<Rightarrow> int \<Rightarrow> int \<Rightarrow> string \<Rightarrow> (int \<times> int) list \<Rightarrow> rate_limiter \<Rightarrow> rl_answer res list" where
  "mem_run duration tot suc userId [] l = []"
| "mem_run duration tot suc userId ((now, status) # reqs) l =
     (let (a, l') = memoryRateLimitHandler now duration tot suc userId status l in a # mem_run duration tot suc userId reqs l')"

lemma rl_agree_Request:
  assumes "rl_agree k l m" "j \<noteq> k" "0 \<le> n"
  shows "fst (rl_Request now j n d l) = fst (rl_Request now j n d m) \<and>
    fst (rl_Request now j n d l) \<in> {Ok True, Ok False} \<and>
    rl_agree k (snd (rl_Request now j n d l)) (snd (rl_Request now j n d m))"
proof -
  have wf: "rl_wf l" "rl_wf m" and q: "rl_queue l i = rl_queue m i" if "i \<noteq> k" for i
    using assms(1) that by (auto simp: rl_agree_def)
  note s = rl_Request_step [OF wf(1) assms(3), where k = j and d = d and now = now]
    rl_Request_step [OF wf(2) assms(3), where k = j and d = d and now = now]
  show ?thesis
    using s [OF assms(2)] q assms(2) by (simp add: rl_agree_def)
qed

lemma success_key_alone:
  "ModelRequestRateLimitCountMark @ u \<noteq> ModelRequestRateLimitSuccessCountMark @ u"
  "(ModelRequestRateLimitSuccessCountMark @ u) @ ''_check'' \<noteq> ModelRequestRateLimitSuccessCountMark @ u"
  by (auto simp: ModelRequestRateLimitCountMark_def ModelRequestRateLimitSuccessCountMark_def dest!: arg_cong [of _ _ length])

lemma rl_agree_success:
  assumes "rl_agree k l m" "0 \<le> n" "0 \<le> n'"
  shows "rl_agree k (snd (rl_Request now k n d l)) m" "rl_agree k l (snd (rl_Request now k n d m))"
    "fst (rl_Request now k n d l) \<noteq> Panic"
proof -
  have wf: "rl_wf l" "rl_wf m" using assms(1) by (auto simp: rl_agree_def)
  note s = rl_Request_step [OF wf(1) assms(2), where k = k and d = d and now = now]
    rl_Request_step [OF wf(2) assms(2), where k = k and d = d and now = now]
  show "rl_agree k (snd (rl_Request now k n d l)) m" "rl_agree k l (snd (rl_Request now k n d m))"
    "fst (rl_Request now k n d l) \<noteq> Panic"
    using s assms(1) by (simp_all add: rl_agree_def)
qed

lemma memory_handler_agree:
  assumes "rl_agree (ModelRequestRateLimitSuccessCountMark @ u) l m" "0 \<le> suc"
  shows "fst (memoryRateLimitHandler now d tot suc u st l) = fst (memoryRateLimitHandler now d tot suc u st' m) \<and>
    rl_agree (ModelRequestRateLimitSuccessCountMark @ u)
      (snd (memoryRateLimitHandler now d tot suc u st l)) (snd (memoryRateLimitHandler now d tot suc u st' m))"
proof -
  let ?s = "ModelRequestRateLimitSuccessCountMark @ u"
  define check where "check = (\<lambda>status l1. (case rl_Request now (?s @ ''_check'') suc d l1 of
       (Ok True, l2) \<Rightarrow> if status < (400 :: int) then (case rl_Request now ?s suc d l2 of
            (Panic, l3) \<Rightarrow> (Panic, l3) | (_, l3) \<Rightarrow> (Ok RlNext, l3)) else (Ok RlNext, l2)
     | (Ok False, l2) \<Rightarrow> (Ok (RlAbort 429 (setRateLimitResponseHeaders suc 0 d)), l2)
     | (_, l2) \<Rightarrow> (Panic, l2)))"
  have rec: "(if status < (400 :: int) then (case rl_Request now ?s suc d l2 of
        (Panic, l3) \<Rightarrow> (Panic, l3) | (_, l3) \<Rightarrow> (Ok RlNext, l3)) else (Ok RlNext, l2)) =
      (Ok RlNext, if status < 400 then snd (rl_Request now ?s suc d l2) else l2)"
    if "rl_agree ?s l2 m2" for status l2 m2
    using rl_agree_success(3) [OF that assms(2) assms(2), of now d] by (auto split: prod.split res.split)
  have chk: "fst (check a l1) = fst (check b m1) \<and> rl_agree ?s (snd (check a l1)) (snd (check b m1))"
    if ag: "rl_agree ?s l1 m1" for a b l1 m1
  proof -
    obtain r l2 where l2: "rl_Request now (?s @ ''_check'') suc d l1 = (r, l2)" by fastforce
    obtain r' m2 where m2: "rl_Request now (?s @ ''_check'') suc d m1 = (r', m2)" by fastforce
    have r: "r' = r" "r = Ok True \<or> r = Ok False" and ag2: "rl_agree ?s l2 m2"
      using rl_agree_Request [OF ag success_key_alone(2) assms(2), of now d] l2 m2 by auto
    have ag3: "rl_agree ?s m2 l2" using ag2 by (auto simp: rl_agree_def)
    have "rl_agree ?s (if a < 400 then snd (rl_Request now ?s suc d l2) else l2) (if b < 400 then snd (rl_Request now ?s suc d m2) else m2)"
      using ag2 rl_agree_success(1) [OF ag2 assms(2) assms(2)] rl_agree_success(2) [OF ag2 assms(2) assms(2)]
        rl_agree_success(2) [OF rl_agree_success(1) [OF ag2 assms(2) assms(2)] assms(2) assms(2)] by simp
    note both = this
    show ?thesis
    proof (cases "r = Ok True")
      case True
      have "check a l1 = (Ok RlNext, if a < 400 then snd (rl_Request now ?s suc d l2) else l2)"
        unfolding check_def l2 True prod.case res.case bool.case by (rule rec [OF ag2])
      moreover have "check b m1 = (Ok RlNext, if b < 400 then snd (rl_Request now ?s suc d m2) else m2)"
        unfolding check_def m2 r(1) True prod.case res.case bool.case by (rule rec [OF ag3])
      ultimately show ?thesis using both by simp
    next
      case False
      then have "r = Ok False" using r(2) by blast
      then have "check a l1 = (Ok (RlAbort 429 (setRateLimitResponseHeaders suc 0 d)), l2)"
        "check b m1 = (Ok (RlAbort 429 (setRateLimitResponseHeaders suc 0 d)), m2)"
        unfolding check_def l2 m2 r(1) by simp_all
      then show ?thesis using ag2 by simp
    qed
  qed
  have h: "memoryRateLimitHandler now d tot suc u status l1 =
      (if 0 < tot then (case rl_Request now (ModelRequestRateLimitCountMark @ u) tot d l1 of
           (Ok True, l2) \<Rightarrow> check status l2
         | (Ok False, l2) \<Rightarrow> (Ok (RlAbort 429 (setRateLimitResponseHeaders tot 0 d)), l2)
         | (_, l2) \<Rightarrow> (Panic, l2))
       else check status l1)" for status l1
    unfolding memoryRateLimitHandler_def check_def Let_def by (rule refl)
  show ?thesis
  proof (cases "0 < tot")
    case False
    then show ?thesis using chk [OF assms(1)] by (simp add: h)
  next
    case True
    obtain r l2 where l2: "rl_Request now (ModelRequestRateLimitCountMark @ u) tot d l = (r, l2)" by fastforce
    obtain r' m2 where m2: "rl_Request now (ModelRequestRateLimitCountMark @ u) tot d m = (r', m2)" by fastforce
    have r: "r' = r" "r = Ok True \<or> r = Ok False" and ag2: "rl_agree ?s l2 m2"
      using rl_agree_Request [OF assms(1) success_key_alone(1), of tot now d] True l2 m2 by auto
    show ?thesis using True r l2 m2 chk [OF ag2] ag2 by (auto simp: h)
  qed
qed

lemma mem_run_agree:
  "\<lbrakk>rl_agree (ModelRequestRateLimitSuccessCountMark @ u) l m; 0 \<le> suc; map fst reqs = map fst reqs'\<rbrakk> \<Longrightarrow>
   mem_run d tot suc u reqs l = mem_run d tot suc u reqs' m"
proof (induction reqs arbitrary: reqs' l m)
  case (Cons r reqs)
  obtain now st where r: "r = (now, st)" by fastforce
  then obtain st' rest where r': "reqs' = (now, st') # rest" "map fst reqs = map fst rest" using Cons.prems(3) by (cases reqs') auto
  show ?case
    using memory_handler_agree [OF Cons.prems(1,2), of now d tot st st'] Cons.IH Cons.prems(2) r r'
    by (auto simp: Let_def split: prod.split)
qed simp

lemma success_limit_counts_failures:
  "\<lbrakk>rl_wf l; 0 \<le> suc; map fst reqs = map fst reqs'\<rbrakk> \<Longrightarrow> mem_run d tot suc u reqs l = mem_run d tot suc u reqs' l"
  by (rule mem_run_agree) (simp_all add: rl_agree_def)

end
