(* ===== verification/Billing_Outbox.thy ===== *)
theory Billing_Outbox
  imports Go_Base
begin

text \<open>
  The outbox of the billing platform, \<^verbatim>\<open>internal/app/billing_outbox.go\<close> with the row type of
  \<^verbatim>\<open>internal/domain/entity/billing_outbox.go\<close>: settlements and releases that could not be
  delivered are stored as rows, and a worker retries the due ones with exponential backoff. The
  answers of the platform, the clock (in nanoseconds) and the outcome of each write are arguments;
  the calls that reached the platform are recorded in order. Two workers are modelled as two claims
  before the first write, since the claiming query runs outside a transaction.
\<close>

section \<open>Rows\<close>

record outbox_entry =
  ob_ID :: int
  ob_AccountID :: int
  ob_PreAuthID :: int
  ob_Action :: string
  ob_AmountLB :: rat
  ob_Status :: string
  ob_RetryCount :: int
  ob_NextRetry :: int
  ob_Error :: string

definition outboxMaxRetries :: int where "outboxMaxRetries = 10"

datatype outbox_call = CallSettle int rat | CallRelease int

type_synonym outbox = "outbox_entry list"

text \<open>The row that \<^verbatim>\<open>EnqueueSettle\<close> and \<^verbatim>\<open>EnqueueRelease\<close> create; the database numbers the rows.\<close>

definition next_id :: "outbox \<Rightarrow> int" where
  "next_id tbl = fold max (map ob_ID tbl) 0 + 1"

definition outbox_entry_of :: "int \<Rightarrow> int \<Rightarrow> int \<Rightarrow> string \<Rightarrow> rat \<Rightarrow> int \<Rightarrow> outbox_entry" where
  "outbox_entry_of i accountID preAuthID action amountLB now =
     \<lparr>ob_ID = i, ob_AccountID = accountID, ob_PreAuthID = preAuthID, ob_Action = action, ob_AmountLB = amountLB,
      ob_Status = ''pending'', ob_RetryCount = 0, ob_NextRetry = now, ob_Error = []\<rparr>"

text \<open>The unique index over pre-authorisation and action makes a second row for the same pair an error.\<close>

definition outbox_create :: "bool \<Rightarrow> int \<Rightarrow> int \<Rightarrow> int \<Rightarrow> string \<Rightarrow> rat \<Rightarrow> outbox \<Rightarrow> bool \<times> outbox" where
  "outbox_create ok now accountID preAuthID action amountLB tbl =
     (if \<not> ok \<or> list_ex (\<lambda>e. ob_PreAuthID e = preAuthID \<and> ob_Action e = action) tbl then (False, tbl)
      else (True, tbl @ [outbox_entry_of (next_id tbl) accountID preAuthID action amountLB now]))"

definition outbox_settle :: "bool \<Rightarrow> int \<Rightarrow> int \<Rightarrow> int \<Rightarrow> rat \<Rightarrow> outbox \<Rightarrow> bool \<times> outbox" where
  "outbox_settle ok now accountID preAuthID amountLB = outbox_create ok now accountID preAuthID ''settle'' amountLB"

definition outbox_release :: "bool \<Rightarrow> int \<Rightarrow> int \<Rightarrow> int \<Rightarrow> outbox \<Rightarrow> bool \<times> outbox" where
  "outbox_release ok now accountID preAuthID = outbox_create ok now accountID preAuthID ''release'' 0"

section \<open>The worker\<close>

definition outbox_claim :: "int \<Rightarrow> outbox \<Rightarrow> outbox_entry list" where
  "outbox_claim now tbl =
     take 50 (sort_key ob_NextRetry (filter (\<lambda>e. ob_Status e = ''pending'' \<and> ob_NextRetry e \<le> now) tbl))"

text \<open>The switch over the action: the call made, if any, and its error.\<close>

definition outbox_deliver :: "(outbox_entry \<Rightarrow> string option) \<Rightarrow> outbox_entry \<Rightarrow> outbox_call list \<times> string option" where
  "outbox_deliver answer e =
     (if ob_Action e = ''settle'' then ([CallSettle (ob_PreAuthID e) (ob_AmountLB e)], answer e)
      else if ob_Action e = ''release'' then ([CallRelease (ob_PreAuthID e)], answer e)
      else ([], Some (''unknown action: '' @ ob_Action e)))"

definition outbox_backoff :: "int \<Rightarrow> int" where
  "outbox_backoff n = 2 ^ nat n * 5 * 1000000000"

text \<open>What the update writes into a row \<open>r\<close> that is still pending; \<open>e\<close> is the copy read by the claim.\<close>

definition outbox_update :: "int \<Rightarrow> string option \<Rightarrow> outbox_entry \<Rightarrow> outbox_entry \<Rightarrow> outbox_entry" where
  "outbox_update now err e r =
     (case err of
        None \<Rightarrow> r\<lparr>ob_Status := ''done'', ob_Error := []\<rparr>
      | Some m \<Rightarrow>
          (let n = ob_RetryCount e + 1
           in if outboxMaxRetries \<le> n
              then r\<lparr>ob_RetryCount := n, ob_NextRetry := ob_NextRetry e, ob_Status := ''failed'', ob_Error := m\<rparr>
              else r\<lparr>ob_RetryCount := n, ob_NextRetry := now + outbox_backoff n, ob_Status := ''pending'', ob_Error := m\<rparr>))"

record outbox_env =
  oe_claim_ok :: bool
  oe_now :: int
  oe_answer :: "outbox_entry \<Rightarrow> string option"
  oe_clock :: "outbox_entry \<Rightarrow> int"
  oe_write_ok :: "outbox_entry \<Rightarrow> bool"

definition outbox_process :: "outbox_env \<Rightarrow> outbox_entry \<Rightarrow> outbox \<times> outbox_call list \<Rightarrow> outbox \<times> outbox_call list" where
  "outbox_process env e s =
     (case (s, outbox_deliver (oe_answer env) e) of
        ((tbl, calls), (made, err)) \<Rightarrow>
          (if oe_write_ok env e
           then map (\<lambda>r. if ob_ID r = ob_ID e \<and> ob_Status r = ''pending''
                         then outbox_update (oe_clock env e) err e r else r) tbl
           else tbl, calls @ made))"

definition ProcessBillingOutbox :: "outbox_env \<Rightarrow> outbox \<times> outbox_call list \<Rightarrow> outbox \<times> outbox_call list" where
  "ProcessBillingOutbox env s =
     (if oe_claim_ok env then fold (outbox_process env) (outbox_claim (oe_now env) (fst s)) s else s)"

text \<open>Two workers that both claim before either has written.\<close>

definition two_workers :: "outbox_env \<Rightarrow> outbox_env \<Rightarrow> outbox \<times> outbox_call list \<Rightarrow> outbox \<times> outbox_call list" where
  "two_workers env1 env2 s =
     fold (outbox_process env2) (outbox_claim (oe_now env2) (fst s))
       (fold (outbox_process env1) (outbox_claim (oe_now env1) (fst s)) s)"

section \<open>Reachable tables\<close>

text \<open>The call that belongs to a row, and how often it has been made.\<close>

definition call_of :: "outbox_entry \<Rightarrow> outbox_call" where
  "call_of e = (if ob_Action e = ''settle'' then CallSettle (ob_PreAuthID e) (ob_AmountLB e) else CallRelease (ob_PreAuthID e))"

definition calls_for :: "outbox_entry \<Rightarrow> outbox_call list \<Rightarrow> int" where
  "calls_for e calls = int (length (filter (\<lambda>c. c = call_of e) calls))"

inductive ob_step :: "outbox \<times> outbox_call list \<Rightarrow> outbox \<times> outbox_call list \<Rightarrow> bool" where
  ob_settle: "ob_step (tbl, calls) (snd (outbox_settle ok now a p amt tbl), calls)"
| ob_release: "ob_step (tbl, calls) (snd (outbox_release ok now a p tbl), calls)"
| ob_work: "\<forall>e. oe_write_ok env e \<Longrightarrow> ob_step s (ProcessBillingOutbox env s)"

inductive ob_reachable :: "outbox \<times> outbox_call list \<Rightarrow> bool" where
  ob_init: "ob_reachable ([], [])"
| ob_next: "ob_reachable s \<Longrightarrow> ob_step s s' \<Longrightarrow> ob_reachable s'"

inductive_cases ob_stepE [elim!]: "ob_step s s'"

definition ob_row_ok :: "outbox_call list \<Rightarrow> outbox_entry \<Rightarrow> bool" where
  "ob_row_ok calls e \<longleftrightarrow> (ob_Action e = ''settle'' \<or> ob_Action e = ''release'') \<and>
     calls_for e calls = ob_RetryCount e + (if ob_Status e = ''done'' then 1 else 0) \<and>
     0 \<le> ob_RetryCount e \<and>
     (ob_Status e = ''failed'' \<and> ob_RetryCount e = outboxMaxRetries \<or>
      (ob_Status e = ''pending'' \<or> ob_Status e = ''done'') \<and> ob_RetryCount e < outboxMaxRetries)"

definition ob_inv :: "outbox \<times> outbox_call list \<Rightarrow> bool" where
  "ob_inv s \<longleftrightarrow> distinct (map ob_ID (fst s)) \<and> distinct (map (\<lambda>e. (ob_PreAuthID e, ob_Action e)) (fst s)) \<and>
     (\<forall>e \<in> set (fst s). ob_row_ok (snd s) e) \<and> set (snd s) \<subseteq> call_of ` set (fst s)"

lemma next_id_fresh: "e \<in> set tbl \<Longrightarrow> ob_ID e < next_id tbl"
proof -
  have "ob_ID e \<le> fold max (map ob_ID tbl) x \<and> x \<le> fold max (map ob_ID tbl) x" if "e \<in> set tbl" for x
    using that
  proof (induction tbl arbitrary: x)
    case (Cons a tbl)
    have mono: "y \<le> fold max (map ob_ID zs) y" for y :: int and zs
      by (induction zs arbitrary: y) (auto intro: order_trans [OF max.cobounded2])
    show ?case
      using Cons mono [of "max (ob_ID a) x" tbl] by auto
  qed simp
  then show "e \<in> set tbl \<Longrightarrow> ob_ID e < next_id tbl" by (force simp: next_id_def)
qed

lemma call_of_inj:
  "\<lbrakk>ob_Action e = ''settle'' \<or> ob_Action e = ''release''; ob_Action f = ''settle'' \<or> ob_Action f = ''release'';
    call_of e = call_of f\<rbrakk> \<Longrightarrow> ob_PreAuthID e = ob_PreAuthID f \<and> ob_Action e = ob_Action f"
  by (auto simp: call_of_def split: if_splits)

lemma outbox_create_inv:
  assumes "ob_inv (tbl, calls)" "action = ''settle'' \<or> action = ''release''"
  shows "ob_inv (snd (outbox_create ok now a p action amt tbl), calls)"
proof (cases "\<not> ok \<or> list_ex (\<lambda>e. ob_PreAuthID e = p \<and> ob_Action e = action) tbl")
  case True
  then have "snd (outbox_create ok now a p action amt tbl) = tbl" by (auto simp: outbox_create_def)
  then show ?thesis using assms(1) by simp
next
  case False
  let ?e = "outbox_entry_of (next_id tbl) a p action amt now"
  have e: "ob_PreAuthID ?e = p" "ob_Action ?e = action" "ob_ID ?e = next_id tbl" "ob_Status ?e = ''pending''" "ob_RetryCount ?e = 0"
    by (simp_all add: outbox_entry_of_def)
  have none: "\<forall>f \<in> set tbl. \<not> (ob_PreAuthID f = p \<and> ob_Action f = action)" using False by (simp add: list_ex_iff)
  have "call_of ?e \<notin> set calls"
  proof
    assume "call_of ?e \<in> set calls"
    then obtain f where f: "f \<in> set tbl" "call_of ?e = call_of f" using assms(1) by (auto simp: ob_inv_def)
    then have "ob_Action f = ''settle'' \<or> ob_Action f = ''release''" using assms(1) by (auto simp: ob_inv_def ob_row_ok_def)
    from call_of_inj [OF _ this f(2)] show False using e f(1) none assms(2) by auto
  qed
  then have "filter (\<lambda>c. c = call_of ?e) calls = []" by (auto simp: filter_empty_conv)
  then have row: "ob_row_ok calls ?e" using e assms(2) by (auto simp: ob_row_ok_def calls_for_def outboxMaxRetries_def)
  have "snd (outbox_create ok now a p action amt tbl) = tbl @ [?e]" using False by (simp add: outbox_create_def)
  moreover have "distinct (map ob_ID (tbl @ [?e]))" using assms(1) e(3) next_id_fresh [of _ tbl] by (fastforce simp: ob_inv_def)
  moreover have "distinct (map (\<lambda>e. (ob_PreAuthID e, ob_Action e)) (tbl @ [?e]))"
    using assms(1) e none by (auto simp: ob_inv_def)
  ultimately show ?thesis using assms(1) row by (auto simp: ob_inv_def)
qed

section \<open>One delivery\<close>

lemma calls_for_append: "calls_for e (calls @ [c]) = calls_for e calls + (if c = call_of e then 1 else 0)"
  by (simp add: calls_for_def)

lemma outbox_update_key:
  "ob_ID (outbox_update now err e r) = ob_ID r" "ob_PreAuthID (outbox_update now err e r) = ob_PreAuthID r"
  "ob_Action (outbox_update now err e r) = ob_Action r" "ob_AmountLB (outbox_update now err e r) = ob_AmountLB r"
  by (auto simp: outbox_update_def Let_def split: option.split)

lemma outbox_update_call: "call_of (outbox_update now err e r) = call_of r"
  by (simp add: call_of_def outbox_update_key)

lemma outbox_update_row:
  assumes "ob_row_ok calls e" "ob_Status e = ''pending''"
  shows "ob_row_ok (calls @ [call_of e]) (outbox_update now err e e)"
proof -
  let ?r = "outbox_update now err e e"
  have "ob_Action ?r = ob_Action e" "calls_for ?r (calls @ [call_of e]) = calls_for e calls + 1"
    by (simp_all add: outbox_update_key calls_for_append) (simp add: calls_for_def outbox_update_call)
  moreover have "ob_RetryCount ?r = ob_RetryCount e + (if err = None then 0 else 1)"
    "ob_Status ?r = (if err = None then ''done'' else if outboxMaxRetries \<le> ob_RetryCount e + 1 then ''failed'' else ''pending'')"
    by (auto simp: outbox_update_def Let_def split: option.split)
  ultimately show ?thesis
    using assms by (auto simp: ob_row_ok_def outboxMaxRetries_def)
qed

lemma outbox_process_row:
  assumes "ob_inv (tbl, calls)" "e \<in> set tbl" "ob_Status e = ''pending''" "oe_write_ok env e"
    "outbox_process env e (tbl, calls) = (tbl', calls')"
  shows "ob_inv (tbl', calls') \<and> (\<forall>f \<in> set tbl. ob_ID f \<noteq> ob_ID e \<longrightarrow> f \<in> set tbl')"
proof -
  obtain err where d: "outbox_deliver (oe_answer env) e = ([call_of e], err)"
    using assms(1,2) by (auto simp: outbox_deliver_def call_of_def ob_inv_def ob_row_ok_def)
  let ?u = "\<lambda>r. if ob_ID r = ob_ID e \<and> ob_Status r = ''pending'' then outbox_update (oe_clock env e) err e r else r"
  have t: "tbl' = map ?u tbl" "calls' = calls @ [call_of e]"
    using assms(4,5) d by (auto simp: outbox_process_def)
  have inj: "f = e" if "f \<in> set tbl" "ob_ID f = ob_ID e" for f
    using assms(1,2) that by (auto simp: ob_inv_def distinct_map inj_on_def)
  have key: "map ob_ID (map ?u tbl) = map ob_ID tbl"
    "map (\<lambda>r. (ob_PreAuthID r, ob_Action r)) (map ?u tbl) = map (\<lambda>r. (ob_PreAuthID r, ob_Action r)) tbl"
    by (simp_all add: outbox_update_key)
  have row: "ob_row_ok (calls @ [call_of e]) (?u f)" if f: "f \<in> set tbl" for f
  proof (cases "f = e")
    case True
    then show ?thesis using outbox_update_row [of calls e] assms(1,2,3) by (auto simp: ob_inv_def)
  next
    case False
    have "call_of e \<noteq> call_of f"
    proof
      assume c: "call_of e = call_of f"
      have "ob_Action e = ''settle'' \<or> ob_Action e = ''release''" "ob_Action f = ''settle'' \<or> ob_Action f = ''release''"
        using assms(1,2) f by (auto simp: ob_inv_def ob_row_ok_def)
      from call_of_inj [OF this c] show False
        using assms(1,2) f False by (auto simp: ob_inv_def distinct_map inj_on_def)
    qed
    then show ?thesis using assms(1) f False inj [OF f] by (auto simp: ob_inv_def ob_row_ok_def calls_for_append)
  qed
  have sub: "set (calls @ [call_of e]) \<subseteq> call_of ` set (map ?u tbl)"
  proof -
    have "call_of (?u f) = call_of f" for f by (simp add: outbox_update_call)
    then have "map call_of (map ?u tbl) = map call_of tbl" by (simp only: map_map o_def)
    then have "call_of ` set (map ?u tbl) = call_of ` set tbl" by (metis set_map)
    then show ?thesis using assms(1,2) by (auto simp: ob_inv_def)
  qed
  have "ob_inv (map ?u tbl, calls @ [call_of e])"
  proof -
    have "\<forall>f \<in> set (map ?u tbl). ob_row_ok (calls @ [call_of e]) f"
      unfolding set_map using row by blast
    then show ?thesis
      using assms(1) sub unfolding ob_inv_def fst_conv snd_conv key by blast
  qed
  moreover have "f \<in> set (map ?u tbl)" if "f \<in> set tbl" "ob_ID f \<noteq> ob_ID e" for f
    using that by force
  ultimately show ?thesis using t by blast
qed

lemma outbox_fold_inv:
  assumes "\<forall>e. oe_write_ok env e"
  shows "ob_inv s \<Longrightarrow> distinct (map ob_ID es) \<Longrightarrow> \<forall>e \<in> set es. e \<in> set (fst s) \<and> ob_Status e = ''pending'' \<Longrightarrow>
    ob_inv (fold (outbox_process env) es s)"
proof (induction es arbitrary: s)
  case (Cons e es)
  obtain tbl' calls' where p: "outbox_process env e (fst s, snd s) = (tbl', calls')" by fastforce
  from outbox_process_row [OF _ _ _ _ p] Cons.prems assms
  have "ob_inv (tbl', calls')" "\<forall>f \<in> set (fst s). ob_ID f \<noteq> ob_ID e \<longrightarrow> f \<in> set tbl'" by simp_all
  moreover have "\<forall>f \<in> set es. f \<in> set tbl' \<and> ob_Status f = ''pending''"
    using Cons.prems(2,3) calculation(2) by (auto simp: image_iff)
  ultimately show ?case using Cons.IH [of "(tbl', calls')"] Cons.prems(2) p by simp
qed simp

lemma outbox_claim_mem: "e \<in> set (outbox_claim now tbl) \<Longrightarrow> e \<in> set tbl \<and> ob_Status e = ''pending'' \<and> ob_NextRetry e \<le> now"
  by (auto simp: outbox_claim_def dest: in_set_takeD)

lemma outbox_claim_distinct: "distinct (map ob_ID tbl) \<Longrightarrow> distinct (map ob_ID (outbox_claim now tbl))"
proof -
  assume d: "distinct (map ob_ID tbl)"
  have "set (outbox_claim now tbl) \<subseteq> set tbl" by (auto dest: outbox_claim_mem)
  moreover have "distinct (outbox_claim now tbl)" using d by (simp add: outbox_claim_def distinct_map)
  ultimately show ?thesis using d by (auto simp: distinct_map intro: inj_on_subset)
qed

lemma ob_step_inv: "ob_inv s \<Longrightarrow> ob_step s s' \<Longrightarrow> ob_inv s'"
  by (erule ob_stepE)
     (auto simp: outbox_settle_def outbox_release_def ProcessBillingOutbox_def outbox_create_inv
       intro!: outbox_fold_inv outbox_claim_distinct dest: outbox_claim_mem, simp add: ob_inv_def)

lemma ob_reachable_inv: "ob_reachable s \<Longrightarrow> ob_inv s"
proof (induction rule: ob_reachable.induct)
  case ob_init
  show ?case by (simp add: ob_inv_def)
next
  case (ob_next s s')
  show ?case by (rule ob_step_inv [OF ob_next.IH ob_next.hyps(2)])
qed

section \<open>Properties\<close>

text \<open>
  C16. One worker, whose rounds run one after the other and whose writes succeed, makes a bounded number
  of attempts: the number of calls made for a row is its retry counter, plus one once it is delivered, and never
  exceeds ten; a row is given up exactly when ten attempts have failed, and rows that are done or given up are
  not called again. (Two workers that both claim a row before either has updated it break the count:
  \<open>two_workers_call_twice\<close>.)
\<close>

theorem outbox_bounded:
  assumes "ob_reachable (tbl, calls)" and "e \<in> set tbl"
  shows "calls_for e calls = ob_RetryCount e + (if ob_Status e = ''done'' then 1 else 0) \<and>
    calls_for e calls \<le> outboxMaxRetries \<and>
    (ob_Status e = ''failed'' \<longleftrightarrow> ob_RetryCount e = outboxMaxRetries) \<and>
    (ob_Status e = ''pending'' \<or> ob_Status e = ''done'' \<or> ob_Status e = ''failed'') \<and>
    (e \<in> set (outbox_claim now tbl) \<longrightarrow> calls_for e calls < outboxMaxRetries)"
proof -
  have r: "ob_row_ok calls e" using ob_reachable_inv [OF assms(1)] assms(2) by (auto simp: ob_inv_def)
  have "calls_for e calls < outboxMaxRetries" if "e \<in> set (outbox_claim now tbl)"
    using r outbox_claim_mem [OF that] by (auto simp: ob_row_ok_def)
  then show ?thesis using r by (auto simp: ob_row_ok_def)
qed

text \<open>A settlement that the platform answers only at the second attempt.\<close>

definition demo_outbox :: "outbox \<times> outbox_call list" where
  "demo_outbox = (snd (outbox_settle True 0 9 77 (1 / 10) []), [])"

definition demo_oenv :: "int \<Rightarrow> outbox_env" where
  "demo_oenv now = \<lparr>oe_claim_ok = True, oe_now = now, oe_answer = (\<lambda>e. if ob_RetryCount e = 0 then Some ''down'' else None),
     oe_clock = (\<lambda>_. now), oe_write_ok = (\<lambda>_. True)\<rparr>"

definition demo_row :: outbox_entry where
  "demo_row = \<lparr>ob_ID = 1, ob_AccountID = 9, ob_PreAuthID = 77, ob_Action = ''settle'', ob_AmountLB = 1 / 10,
     ob_Status = ''pending'', ob_RetryCount = 0, ob_NextRetry = 0, ob_Error = []\<rparr>"

lemma demo_outbox_eq: "demo_outbox = ([demo_row], [])"
  by (simp add: demo_outbox_def outbox_settle_def outbox_create_def outbox_entry_of_def next_id_def demo_row_def)

lemma demo_outbox_run: "ProcessBillingOutbox (demo_oenv 5) demo_outbox =
  ([demo_row\<lparr>ob_RetryCount := 1, ob_NextRetry := 10000000005, ob_Error := ''down''\<rparr>], [CallSettle 77 (1 / 10)])"
  unfolding demo_outbox_eq
  by (simp add: demo_row_def ProcessBillingOutbox_def demo_oenv_def outbox_claim_def outbox_process_def outbox_deliver_def
      outbox_update_def outbox_backoff_def outboxMaxRetries_def)

theorem outbox_bounded_witness:
  "calls_for (demo_row\<lparr>ob_RetryCount := 1, ob_NextRetry := 10000000005, ob_Error := ''down''\<rparr>) [CallSettle 77 (1 / 10)] = 1"
proof -
  have s1: "ob_step ([], []) demo_outbox" unfolding demo_outbox_def by (rule ob_settle)
  have s2: "ob_step demo_outbox (ProcessBillingOutbox (demo_oenv 5) demo_outbox)"
    by (rule ob_work) (simp add: demo_oenv_def)
  let ?e = "demo_row\<lparr>ob_RetryCount := 1, ob_NextRetry := 10000000005, ob_Error := ''down''\<rparr>"
  have "ob_reachable ([?e], [CallSettle 77 (1 / 10)])"
    using ob_next [OF ob_next [OF ob_init s1] s2] unfolding demo_outbox_run .
  moreover have "?e \<in> set [?e]" "ob_RetryCount ?e = 1" "ob_Status ?e \<noteq> ''done''" by (simp_all add: demo_row_def)
  ultimately show ?thesis using outbox_bounded [of "[?e]" "[CallSettle 77 (1 / 10)]" ?e] by presburger
qed

lemma outbox_fold_calls:
  "snd (fold (outbox_process env) es s) = snd s @ concat (map (\<lambda>e. fst (outbox_deliver (oe_answer env) e)) es)"
proof (induction es arbitrary: s)
  case (Cons e es)
  have "snd (outbox_process env e s) = snd s @ fst (outbox_deliver (oe_answer env) e)"
    by (auto simp: outbox_process_def split: prod.splits)
  then show ?case using Cons by simp
qed simp

lemma calls_for_round:
  assumes "e \<in> set es" "ob_Action e = ''settle'' \<or> ob_Action e = ''release''"
  shows "calls_for e calls + 1 \<le> calls_for e (calls @ concat (map (\<lambda>f. fst (outbox_deliver answer f)) es))"
proof -
  have "[call_of e] = fst (outbox_deliver answer e)" using assms(2) by (auto simp: outbox_deliver_def call_of_def)
  then have "call_of e \<in> set (concat (map (\<lambda>f. fst (outbox_deliver answer f)) es))"
    using assms(1) by (auto intro!: bexI [of _ e]) (metis list.set_intros(1))
  then have "0 < length (filter (\<lambda>c. c = call_of e) (concat (map (\<lambda>f. fst (outbox_deliver answer f)) es)))"
    by (auto simp: filter_empty_conv)
  then have "1 \<le> length (filter (\<lambda>c. c = call_of e) (concat (map (\<lambda>f. fst (outbox_deliver answer f)) es)))" by linarith
  then show ?thesis unfolding calls_for_def filter_append length_append by linarith
qed

text \<open>
  The row locks do not prevent double processing: the claiming query is a statement of its own,
  so when two workers both claim a due row before one of them has updated it, its action is sent to
  the platform twice, even if the first call succeeded.
\<close>

theorem two_workers_call_twice:
  assumes "e \<in> set (outbox_claim (oe_now env1) tbl)" and "e \<in> set (outbox_claim (oe_now env2) tbl)"
    and "ob_Action e = ''settle'' \<or> ob_Action e = ''release''"
  shows "calls_for e calls + 2 \<le> calls_for e (snd (two_workers env1 env2 (tbl, calls)))"
  using calls_for_round [OF assms(1,3), of calls "oe_answer env1"]
    calls_for_round [OF assms(2,3), of "snd (fold (outbox_process env1) (outbox_claim (oe_now env1) tbl) (tbl, calls))" "oe_answer env2"]
  by (simp add: two_workers_def outbox_fold_calls)

theorem two_workers_call_twice_witness:
  "2 \<le> calls_for demo_row (snd (two_workers (demo_oenv 5) (demo_oenv 6) ([demo_row], [])))"
proof -
  have "demo_row \<in> set (outbox_claim (oe_now (demo_oenv 5)) [demo_row])" "demo_row \<in> set (outbox_claim (oe_now (demo_oenv 6)) [demo_row])"
    "ob_Action demo_row = ''settle'' \<or> ob_Action demo_row = ''release''"
    by (simp_all add: outbox_claim_def demo_oenv_def demo_row_def)
  from two_workers_call_twice [OF this, of "[]"] show ?thesis by (simp add: calls_for_def)
qed

end
