(* ===== verification/Task_Poll.thy ===== *)
theory Task_Poll
  imports Quota_Billing Model_Ratio
begin

text \<open>
  Asynchronous tasks (videos, music) after their submission: the rows of
  \<^verbatim>\<open>internal/adapter/repo/task.go\<close> and the polling round of \<^verbatim>\<open>internal/adapter/handler/task.go\<close> and
  \<^verbatim>\<open>task_video.go\<close>, which reads the unfinished tasks, asks their upstreams, writes the rows back and
  returns the quota of failed tasks. Answers of the upstreams, decoded, and the outcome of every
  database statement are arguments. The pointers the code shares between the list of tasks and the
  map \<^verbatim>\<open>taskM\<close> are the entries of one map. Logs and the timestamps written by the ORM are left out.
\<close>

section \<open>Rows\<close>

abbreviation TaskStatusNotStart :: string where "TaskStatusNotStart \<equiv> ''NOT_START''"
abbreviation TaskStatusSubmitted :: string where "TaskStatusSubmitted \<equiv> ''SUBMITTED''"
abbreviation TaskStatusQueued :: string where "TaskStatusQueued \<equiv> ''QUEUED''"
abbreviation TaskStatusInProgress :: string where "TaskStatusInProgress \<equiv> ''IN_PROGRESS''"
abbreviation TaskStatusFailure :: string where "TaskStatusFailure \<equiv> ''FAILURE''"
abbreviation TaskStatusSuccess :: string where "TaskStatusSuccess \<equiv> ''SUCCESS''"

record task =
  ts_ID :: int
  ts_TaskID :: string
  ts_Platform :: string
  ts_UserId :: int
  ts_Group :: string
  ts_ChannelId :: int
  ts_Quota :: int
  ts_Action :: string
  ts_Status :: string
  ts_FailReason :: string
  ts_SubmitTime :: int
  ts_StartTime :: int
  ts_FinishTime :: int
  ts_Progress :: string
  ts_OriginModelName :: string
  ts_UpstreamModelName :: string
  ts_PrivateKey :: string
  ts_Data :: string

type_synonym task_rows = "(int, task) gomap"

definition task_unfinished :: "task \<Rightarrow> bool" where
  "task_unfinished t \<longleftrightarrow> ts_Progress t \<noteq> ''100%'' \<and> ts_Status t \<noteq> TaskStatusFailure \<and> ts_Status t \<noteq> TaskStatusSuccess"

text \<open>A failed query gives no tasks.\<close>

definition GetAllUnFinishSyncTasks :: "bool \<Rightarrow> nat \<Rightarrow> task_rows \<Rightarrow> task list" where
  "GetAllUnFinishSyncTasks ok limit rows =
     (if ok then take limit (sort_key ts_ID (filter task_unfinished (map snd rows))) else [])"

definition GetByTaskId :: "bool \<Rightarrow> int \<Rightarrow> string \<Rightarrow> task_rows \<Rightarrow> task option option" where
  "GetByTaskId ok userId taskId rows =
     (if taskId = [] then Some None
      else if \<not> ok then None
      else (case sort_key ts_ID (filter (\<lambda>t. ts_UserId t = userId \<and> ts_TaskID t = taskId) (map snd rows)) of
              [] \<Rightarrow> Some None | t # ts \<Rightarrow> Some (Some t)))"

definition Task_Update :: "bool \<Rightarrow> task \<Rightarrow> task_rows \<Rightarrow> task_rows" where
  "Task_Update ok t rows = (if ok then gm_put rows (ts_ID t) t else rows)"

definition TaskBulkUpdate :: "bool \<Rightarrow> string list \<Rightarrow> (task \<Rightarrow> task) \<Rightarrow> task_rows \<Rightarrow> task_rows" where
  "TaskBulkUpdate ok taskIds f rows =
     (if ok \<and> taskIds \<noteq> [] then map (\<lambda>(i, t). (i, if ts_TaskID t \<in> set taskIds then f t else t)) rows else rows)"

definition TaskBulkUpdateByID :: "bool \<Rightarrow> int list \<Rightarrow> (task \<Rightarrow> task) \<Rightarrow> task_rows \<Rightarrow> task_rows" where
  "TaskBulkUpdateByID ok ids f rows =
     (if ok \<and> ids \<noteq> [] then map (\<lambda>(i, t). (i, if ts_ID t \<in> set ids then f t else t)) rows else rows)"

text \<open>The columns that a bulk update of a lost task writes.\<close>

definition fail_columns :: "task \<Rightarrow> task" where
  "fail_columns t = t\<lparr>ts_Status := TaskStatusFailure, ts_Progress := ''100%''\<rparr>"

text \<open>The state of a round: the rows, the map \<^verbatim>\<open>taskM\<close> and the ledger.\<close>

record poll_st =
  ps_rows :: task_rows
  ps_mem :: "(string, task) gomap"
  ps_ledger :: ledger

section \<open>One video task\<close>

record task_info =
  ti_Status :: string
  ti_Reason :: string
  ti_Url :: string
  ti_Progress :: string
  ti_TotalTokens :: int

definition FailTaskInfo :: "string \<Rightarrow> task_info" where
  "FailTaskInfo reason = \<lparr>ti_Status = ''FAILURE'', ti_Reason = reason, ti_Url = [], ti_Progress = [], ti_TotalTokens = 0\<rparr>"

text \<open>
  What the upstream answers: nothing that can be read, the task of another gateway of this kind, or a
  result parsed by the adaptor with the redacted body.
\<close>

datatype video_answer = VideoUnreadable | VideoNewApi task | VideoParsed task_info string

record video_env =
  ve_answer :: video_answer
  ve_now :: int
  ve_model :: "string \<Rightarrow> string option"     \<comment> \<open>the string \<^verbatim>\<open>model\<close> of the task's data\<close>
  ve_fl :: "rat \<Rightarrow> rat"
  ve_settings :: ratio_settings
  ve_user_read :: bool
  ve_batch :: bool
  ve_charge_ok :: bool
  ve_back_ok :: bool
  ve_used_ok :: bool
  ve_save_ok :: bool
  ve_refund_ok :: bool

definition video_result :: "video_answer \<Rightarrow> task \<Rightarrow> (task_info \<times> task) option" where
  "video_result a t =
     (case a of
        VideoUnreadable \<Rightarrow> None
      | VideoNewApi d \<Rightarrow>
          Some (\<lparr>ti_Status = ts_Status d, ti_Reason = ts_FailReason d, ti_Url = ts_FailReason d, ti_Progress = ts_Progress d,
                 ti_TotalTokens = 0\<rparr>, t\<lparr>ts_Data := ts_Data d\<rparr>)
      | VideoParsed ti body \<Rightarrow> Some (ti, t\<lparr>ts_Data := body\<rparr>))"

text \<open>The quota by tokens of a finished task; \<open>None\<close> keeps the price of the submission.\<close>

definition video_actual :: "video_env \<Rightarrow> task_info \<Rightarrow> task \<Rightarrow> ledger \<Rightarrow> int option" where
  "video_actual env ti t lg =
     (if ti_TotalTokens ti \<le> 0 then None
      else (case ve_model env (ts_Data t) of
              None \<Rightarrow> None
            | Some m \<Rightarrow>
                if m = [] then None
                else (case GetModelRatio (ve_fl env) (ve_settings env) m of (modelRatio, hasRatio, nm) \<Rightarrow>
                  if \<not> (hasRatio \<and> 0 < modelRatio) then None
                  else (let group = (if ts_Group t \<noteq> [] then ts_Group t
                                     else if \<not> ve_user_read env then []
                                     else (case gm_get (lg_users lg) (ts_UserId t) of None \<Rightarrow> [] | Some u \<Rightarrow> us_Group u));
                            (special, hasSpecial) = GetGroupGroupRatio (ve_settings env) group group;
                            ratio = (if hasSpecial then special else GetGroupRatio (ve_settings env) group)
                        in if group = [] then None
                           else Some (trunc (ve_fl env (ve_fl env (ve_fl env (of_int (ti_TotalTokens ti)) * modelRatio) * ratio)))))))"

definition video_recalc :: "video_env \<Rightarrow> task_info \<Rightarrow> task \<Rightarrow> ledger \<Rightarrow> task \<times> ledger" where
  "video_recalc env ti t lg =
     (case video_actual env ti t lg of
        None \<Rightarrow> (t, lg)
      | Some actualQuota \<Rightarrow>
          (let quotaDelta = actualQuota - ts_Quota t
           in if 0 < quotaDelta then
                (case DecreaseUserQuota (ve_batch env) (ve_charge_ok env) (ts_UserId t) quotaDelta lg of
                   (False, lg1) \<Rightarrow> (t, lg1)
                 | (True, lg1) \<Rightarrow>
                     (t\<lparr>ts_Quota := actualQuota\<rparr>,
                      UpdateChannelUsedQuota (ve_batch env) (ve_used_ok env) (ts_ChannelId t) quotaDelta
                        (UpdateUserUsedQuotaAndRequestCount (ve_batch env) (ve_used_ok env) (ts_UserId t) quotaDelta lg1)))
              else if quotaDelta < 0 then
                (case IncreaseUserQuota (ve_batch env) (ve_back_ok env) (ts_UserId t) (- quotaDelta) False lg of
                   (False, lg1) \<Rightarrow> (t, lg1)
                 | (True, lg1) \<Rightarrow> (t\<lparr>ts_Quota := actualQuota\<rparr>, lg1))
              else (t, lg)))"

text \<open>
  The switch over the status: the task, the ledger, whether the quota is to be returned, and the
  progress of the result; \<open>None\<close> is an unknown status.
\<close>

definition video_switch :: "video_env \<Rightarrow> task_info \<Rightarrow> task \<Rightarrow> ledger \<Rightarrow> (task \<times> ledger \<times> bool \<times> string) option" where
  "video_switch env ti t0 lg =
     (let t = t0\<lparr>ts_Status := ti_Status ti\<rparr>; finish = (if ts_FinishTime t = 0 then ve_now env else ts_FinishTime t)
      in if ti_Status ti = TaskStatusSubmitted then Some (t\<lparr>ts_Progress := ''10%''\<rparr>, lg, False, ti_Progress ti)
         else if ti_Status ti = TaskStatusQueued then Some (t\<lparr>ts_Progress := ''20%''\<rparr>, lg, False, ti_Progress ti)
         else if ti_Status ti = TaskStatusInProgress then
           Some (t\<lparr>ts_Progress := ''30%'', ts_StartTime := (if ts_StartTime t = 0 then ve_now env else ts_StartTime t)\<rparr>,
                 lg, False, ti_Progress ti)
         else if ti_Status ti = TaskStatusSuccess then
           (let t1 = t\<lparr>ts_Progress := ''100%'', ts_FinishTime := finish,
                  ts_FailReason := (if 5 < length (ti_Url ti) \<and> take 5 (ti_Url ti) = ''data:'' then ts_FailReason t else ti_Url ti)\<rparr>;
                (t2, lg2) = video_recalc env ti t1 lg
            in Some (t2, lg2, False, ti_Progress ti))
         else if ti_Status ti = TaskStatusFailure then
           Some (t\<lparr>ts_Progress := ''100%'', ts_FinishTime := finish, ts_FailReason := ti_Reason ti\<rparr>, lg,
                 ts_Quota t0 \<noteq> 0 \<and> ts_Status t0 \<noteq> TaskStatusFailure, ''100%'')
         else None)"

text \<open>The flag is false for an error.\<close>

definition updateVideoSingleTask :: "video_env \<Rightarrow> string \<Rightarrow> poll_st \<Rightarrow> bool \<times> poll_st" where
  "updateVideoSingleTask env taskId st =
     (case gm_get (ps_mem st) taskId of
        None \<Rightarrow> (False, st)
      | Some t \<Rightarrow>
          (case video_result (ve_answer env) t of
             None \<Rightarrow> (False, st)
           | Some (ti0, t1) \<Rightarrow>
               (let ti = (if ti_Status ti0 = [] then FailTaskInfo ''upstream returned empty status'' else ti0)
                in case video_switch env ti t1 (ps_ledger st) of
                     None \<Rightarrow> (False, st\<lparr>ps_mem := gm_put (ps_mem st) taskId (t1\<lparr>ts_Status := ti_Status ti\<rparr>)\<rparr>)
                   | Some (t2, lg, refund, progress) \<Rightarrow>
                       (let t3 = (if progress \<noteq> [] then t2\<lparr>ts_Progress := progress\<rparr> else t2);
                            lg1 = (if ve_save_ok env \<and> refund
                                   then snd (IncreaseUserQuota (ve_batch env) (ve_refund_ok env) (ts_UserId t3) (ts_Quota t) False lg)
                                   else lg)
                        in (True, \<lparr>ps_rows = Task_Update (ve_save_ok env) t3 (ps_rows st),
                                   ps_mem = gm_put (ps_mem st) taskId t3, ps_ledger = lg1\<rparr>)))))"

section \<open>Video tasks of a channel\<close>

text \<open>
  \<open>channel\<close> says whether the channel is found, \<open>adaptor\<close> whether the platform has an adaptor; \<open>env k\<close> is
  what the \<open>k\<close>-th task meets.
\<close>

fun video_tasks :: "(nat \<Rightarrow> video_env) \<Rightarrow> nat \<Rightarrow> string list \<Rightarrow> poll_st \<Rightarrow> poll_st" where
  "video_tasks env k [] st = st"
| "video_tasks env k (taskId # ids) st = video_tasks env (Suc k) ids (snd (updateVideoSingleTask (env k) taskId st))"

definition updateVideoTaskAll :: "bool \<Rightarrow> bool \<Rightarrow> bool \<Rightarrow> string \<Rightarrow> (nat \<Rightarrow> video_env) \<Rightarrow> string list \<Rightarrow> poll_st \<Rightarrow> poll_st" where
  "updateVideoTaskAll channel adaptor bulk_ok reason env taskIds st =
     (if taskIds = [] then st
      else if \<not> channel then
        st\<lparr>ps_rows := TaskBulkUpdate bulk_ok taskIds (\<lambda>t. (fail_columns t)\<lparr>ts_FailReason := reason\<rparr>) (ps_rows st)\<rparr>
      else if \<not> adaptor then st
      else video_tasks env 0 taskIds st)"

section \<open>Music tasks of a channel\<close>

record suno_item =
  su_TaskID :: string
  su_Status :: string
  su_FailReason :: string
  su_SubmitTime :: int
  su_StartTime :: int
  su_FinishTime :: int
  su_Data :: string

text \<open>\<open>marshal\<close> is the text \<^verbatim>\<open>json.Marshal\<close> gives for the data; the code compares its sorted bytes.\<close>

definition checkTaskNeedUpdate :: "(string \<Rightarrow> string) \<Rightarrow> task \<Rightarrow> suno_item \<Rightarrow> bool" where
  "checkTaskNeedUpdate marshal t n \<longleftrightarrow>
     ts_SubmitTime t \<noteq> su_SubmitTime n \<or> ts_StartTime t \<noteq> su_StartTime n \<or> ts_FinishTime t \<noteq> su_FinishTime n \<or>
     ts_Status t \<noteq> su_Status n \<or> ts_FailReason t \<noteq> su_FailReason n \<or>
     ((ts_Status t = TaskStatusFailure \<or> ts_Status t = TaskStatusSuccess) \<and> ts_Progress t \<noteq> ''100%'') \<or>
     sort_key (of_char :: char \<Rightarrow> nat) (marshal (ts_Data t)) \<noteq> sort_key (of_char :: char \<Rightarrow> nat) (marshal (su_Data n))"

record suno_env =
  sv_marshal :: "string \<Rightarrow> string"
  sv_batch :: bool
  sv_refund_ok :: bool
  sv_save_ok :: bool

text \<open>The fields taken from an item.\<close>

definition suno_merge :: "suno_item \<Rightarrow> task \<Rightarrow> task" where
  "suno_merge n t = t\<lparr>
     ts_Status := (if su_Status n \<noteq> [] then su_Status n else ts_Status t),
     ts_FailReason := (if su_FailReason n \<noteq> [] then su_FailReason n else ts_FailReason t),
     ts_SubmitTime := (if su_SubmitTime n \<noteq> 0 then su_SubmitTime n else ts_SubmitTime t),
     ts_StartTime := (if su_StartTime n \<noteq> 0 then su_StartTime n else ts_StartTime t),
     ts_FinishTime := (if su_FinishTime n \<noteq> 0 then su_FinishTime n else ts_FinishTime t)\<rparr>"

text \<open>
  The loop body. \<open>err\<close> is the variable of that name: whether the last statement that set it failed,
  which is the refund or the write of a previous item.
\<close>

definition suno_item_step :: "suno_env \<Rightarrow> suno_item \<Rightarrow> bool \<times> poll_st \<Rightarrow> (bool \<times> poll_st) res" where
  "suno_item_step env n s =
     (case s of (err, st) \<Rightarrow>
      case gm_get (ps_mem st) (su_TaskID n) of
        None \<Rightarrow> Panic
      | Some t \<Rightarrow>
          if \<not> checkTaskNeedUpdate (sv_marshal env) t n then Ok (err, st)
          else (let t1 = suno_merge n t;
                    failed = su_FailReason n \<noteq> [] \<or> ts_Status t1 = TaskStatusFailure;
                    lg = (if failed \<and> \<not> err \<and> ts_Quota t1 \<noteq> 0
                          then snd (IncreaseUserQuota (sv_batch env) (sv_refund_ok env) (ts_UserId t1) (ts_Quota t1) False (ps_ledger st))
                          else ps_ledger st);
                    t2 = t1\<lparr>ts_Progress := (if failed \<or> su_Status n = TaskStatusSuccess then ''100%'' else ts_Progress t1),
                            ts_Data := su_Data n\<rparr>
                in Ok (\<not> sv_save_ok env, \<lparr>ps_rows = Task_Update (sv_save_ok env) t2 (ps_rows st),
                       ps_mem = gm_put (ps_mem st) (su_TaskID n) t2, ps_ledger = lg\<rparr>)))"

fun suno_items :: "(nat \<Rightarrow> suno_env) \<Rightarrow> nat \<Rightarrow> suno_item list \<Rightarrow> bool \<times> poll_st \<Rightarrow> (bool \<times> poll_st) res" where
  "suno_items env k [] s = Ok s"
| "suno_items env k (n # ns) s =
     (case suno_item_step (env k) n s of Ok s1 \<Rightarrow> suno_items env (Suc k) ns s1 | Err m \<Rightarrow> Err m | Panic \<Rightarrow> Panic)"

text \<open>
  \<open>base\<close> is the channel's base URL, which the code dereferences; \<open>answer\<close> is \<open>None\<close> when the upstream
  cannot be asked, does not answer properly or reports no success.
\<close>

definition updateSunoTaskAll ::
    "bool \<Rightarrow> string option \<Rightarrow> bool \<Rightarrow> bool \<Rightarrow> string \<Rightarrow> suno_item list option \<Rightarrow> (nat \<Rightarrow> suno_env) \<Rightarrow> string list \<Rightarrow> poll_st
     \<Rightarrow> poll_st res" where
  "updateSunoTaskAll channel base adaptor bulk_ok reason answer env taskIds st =
     (if taskIds = [] then Ok st
      else if \<not> channel then
        Ok (st\<lparr>ps_rows := TaskBulkUpdate bulk_ok taskIds (\<lambda>t. (fail_columns t)\<lparr>ts_FailReason := reason\<rparr>) (ps_rows st)\<rparr>)
      else if \<not> adaptor then Ok st
      else (case base of
              None \<Rightarrow> Panic
            | Some b \<Rightarrow>
                (case answer of
                   None \<Rightarrow> Ok st
                 | Some items \<Rightarrow>
                     (case suno_items env 0 items (False, st) of
                        Ok (err, st1) \<Rightarrow> Ok st1 | Err m \<Rightarrow> Err m | Panic \<Rightarrow> Panic))))"

section \<open>A round\<close>

text \<open>What a channel of a platform meets in a round.\<close>

record channel_poll =
  cp_channel :: bool
  cp_base :: "string option"
  cp_adaptor :: bool
  cp_bulk_ok :: bool
  cp_reason :: string
  cp_suno_answer :: "suno_item list option"
  cp_suno :: "nat \<Rightarrow> suno_env"
  cp_video :: "nat \<Rightarrow> video_env"

definition UpdateTaskByPlatform :: "string \<Rightarrow> channel_poll \<Rightarrow> string list \<Rightarrow> poll_st \<Rightarrow> poll_st res" where
  "UpdateTaskByPlatform platform cp ids st =
     (if platform = ''mj'' then Ok st
      else if platform = ''suno'' then
        updateSunoTaskAll (cp_channel cp) (cp_base cp) (cp_adaptor cp) (cp_bulk_ok cp) (cp_reason cp) (cp_suno_answer cp) (cp_suno cp) ids st
      else Ok (updateVideoTaskAll (cp_channel cp) (cp_adaptor cp) (cp_bulk_ok cp) (cp_reason cp) (cp_video cp) ids st))"

text \<open>The tasks of a platform with an id at the upstream: \<^verbatim>\<open>taskM\<close>, and the ids by channel.\<close>

definition task_map :: "task list \<Rightarrow> (string, task) gomap" where
  "task_map ts = fold (\<lambda>t m. gm_put m (ts_TaskID t) t) (filter (\<lambda>t. ts_TaskID t \<noteq> []) ts) []"

definition channel_ids :: "task list \<Rightarrow> int \<Rightarrow> string list" where
  "channel_ids ts ch = map ts_TaskID (filter (\<lambda>t. ts_TaskID t \<noteq> [] \<and> ts_ChannelId t = ch) ts)"

definition null_ids :: "task list \<Rightarrow> int list" where
  "null_ids ts = map ts_ID (filter (\<lambda>t. ts_TaskID t = []) ts)"

fun channels_loop :: "(int \<Rightarrow> channel_poll) \<Rightarrow> string \<Rightarrow> task list \<Rightarrow> int list \<Rightarrow> poll_st \<Rightarrow> poll_st res" where
  "channels_loop cp platform ts [] st = Ok st"
| "channels_loop cp platform ts (ch # chs) st =
     (case UpdateTaskByPlatform platform (cp ch) (channel_ids ts ch) st of
        Ok st1 \<Rightarrow> channels_loop cp platform ts chs st1 | Err m \<Rightarrow> Err m | Panic \<Rightarrow> Panic)"

text \<open>
  One platform of a round: tasks without an id are failed, the others are polled channel by channel,
  in the order \<open>chs\<close> in which Go visits the map.
\<close>

definition platform_round :: "(int \<Rightarrow> channel_poll) \<Rightarrow> bool \<Rightarrow> string \<Rightarrow> int list \<Rightarrow> task list \<Rightarrow> poll_st \<Rightarrow> poll_st res" where
  "platform_round cp null_ok platform chs ts st =
     channels_loop cp platform ts chs
       (st\<lparr>ps_rows := TaskBulkUpdateByID null_ok (null_ids ts) fail_columns (ps_rows st), ps_mem := task_map ts\<rparr>)"

fun platforms_loop ::
    "(string \<Rightarrow> int \<Rightarrow> channel_poll) \<Rightarrow> bool \<Rightarrow> (string \<Rightarrow> int list) \<Rightarrow> task list \<Rightarrow> string list \<Rightarrow> poll_st \<Rightarrow> poll_st res" where
  "platforms_loop cp null_ok chs ts [] st = Ok st"
| "platforms_loop cp null_ok chs ts (p # ps) st =
     (case platform_round (cp p) null_ok p (chs p) (filter (\<lambda>t. ts_Platform t = p) ts) st of
        Ok st1 \<Rightarrow> platforms_loop cp null_ok chs ts ps st1 | Err m \<Rightarrow> Err m | Panic \<Rightarrow> Panic)"

text \<open>
  A tick of \<^verbatim>\<open>UpdateTaskBulkWithContext\<close> that is not cancelled; \<open>platforms\<close> and \<open>chs\<close> are the orders in
  which the maps are visited.
\<close>

definition UpdateTaskBulk ::
    "(string \<Rightarrow> int \<Rightarrow> channel_poll) \<Rightarrow> bool \<Rightarrow> bool \<Rightarrow> nat \<Rightarrow> string list \<Rightarrow> (string \<Rightarrow> int list) \<Rightarrow> poll_st \<Rightarrow> poll_st res" where
  "UpdateTaskBulk cp query_ok null_ok limit platforms chs st =
     platforms_loop cp null_ok chs (GetAllUnFinishSyncTasks query_ok limit (ps_rows st)) platforms st"

section \<open>Lemmas\<close>

text \<open>What a task has taken from its user and not given back.\<close>

definition task_charge :: "task \<Rightarrow> int" where
  "task_charge t = (if ts_Status t = TaskStatusFailure then 0 else ts_Quota t)"

definition user_charges :: "task_rows \<Rightarrow> int \<Rightarrow> int" where
  "user_charges rows u = sum_list (map (\<lambda>(i, t). if ts_UserId t = u then task_charge t else 0) rows)"

text \<open>The balance of a user together with what his tasks hold.\<close>

definition holdings :: "poll_st \<Rightarrow> int \<Rightarrow> int option" where
  "holdings st u = map_option (\<lambda>b. b + user_charges (ps_rows st) u) (user_quota (ps_ledger st) u)"

lemma user_charges_put:
  "gm_get rows i = Some r \<Longrightarrow> ts_UserId t = ts_UserId r \<Longrightarrow>
   user_charges (gm_put rows i t) u = user_charges rows u + (if u = ts_UserId r then task_charge t - task_charge r else 0)"
  by (simp add: user_charges_def gm_sum_put)

lemma holdings_step:
  assumes "gm_get (ps_rows st) i = Some r" "ts_UserId t = ts_UserId r"
    and "user_quota (ps_ledger st') = shift (ts_UserId r) (task_charge t - task_charge r) (user_quota (ps_ledger st))"
    and "ps_rows st' = gm_put (ps_rows st) i t"
  shows "holdings st' = holdings st"
proof
  fix u
  show "holdings st' u = holdings st u"
    by (cases "user_quota (ps_ledger st) u") (auto simp: holdings_def assms(3,4) user_charges_put [OF assms(1,2)] shift_def)
qed

text \<open>The ledger of a poll.\<close>

lemma refund_quota:
  "0 \<le> q \<Longrightarrow> b \<or> ok \<Longrightarrow> user_quota (snd (IncreaseUserQuota b ok i q False lg)) = shift i (- q) (user_quota lg)"
  using user_move_shift [of b ok i "- q" lg] by (simp add: user_account.move_def)

lemma usage_quota:
  "user_quota (UpdateChannelUsedQuota b ok c q lg) = user_quota lg"
  "user_quota (UpdateUserUsedQuotaAndRequestCount b ok i q lg) = user_quota lg"
  "token_quota (UpdateChannelUsedQuota b ok c q lg) = token_quota lg"
  "token_quota (UpdateUserUsedQuotaAndRequestCount b ok i q lg) = token_quota lg"
  by (auto simp: fun_eq_iff user_quota_def token_quota_def eff_user_def eff_token_def UpdateChannelUsedQuota_def updateChannelUsedQuota_def
      UpdateUserUsedQuotaAndRequestCount_def updateUserUsedQuotaAndRequestCount_def pend_addNewRecord gm.get_modify
      option.map_comp comp_def)

lemma video_recalc_effect:
  assumes "video_recalc env ti t lg = (t', lg')"
  shows "user_quota lg' = shift (ts_UserId t) (ts_Quota t' - ts_Quota t) (user_quota lg) \<and> token_quota lg' = token_quota lg \<and>
    t' = t\<lparr>ts_Quota := ts_Quota t'\<rparr>"
proof (cases "video_actual env ti t lg")
  case None
  then show ?thesis using assms by (simp add: video_recalc_def)
next
  case (Some a)
  let ?d = "a - ts_Quota t"
  show ?thesis
  proof (cases "0 < ?d")
    case True
    obtain ok lg1 where d: "DecreaseUserQuota (ve_batch env) (ve_charge_ok env) (ts_UserId t) ?d lg = (ok, lg1)" by fastforce
    have "user_quota lg1 = shift (ts_UserId t) (if ok then ?d else 0) (user_quota lg)" "token_quota lg1 = token_quota lg"
      using user_move_shift [of "ve_batch env" "ve_charge_ok env" "ts_UserId t" ?d lg] user_ops_token_quota(2) [of "ve_batch env" "ve_charge_ok env" "ts_UserId t" ?d lg]
        move_result(1) [of "ve_batch env" "ve_charge_ok env" "ts_UserId t" ?d lg] True d
      by (auto simp: user_account.move_def)
    then show ?thesis using assms Some True d by (cases ok) (auto simp: video_recalc_def usage_quota Let_def)
  next
    case False
    show ?thesis
    proof (cases "?d < 0")
      case True
      obtain ok lg1 where d: "IncreaseUserQuota (ve_batch env) (ve_back_ok env) (ts_UserId t) (- ?d) False lg = (ok, lg1)" by fastforce
      have "user_quota lg1 = shift (ts_UserId t) (if ok then ?d else 0) (user_quota lg)" "token_quota lg1 = token_quota lg"
        using user_move_shift [of "ve_batch env" "ve_back_ok env" "ts_UserId t" ?d lg] user_ops_token_quota(1) [of "ve_batch env" "ve_back_ok env" "ts_UserId t" "- ?d" False lg]
          move_result(1) [of "ve_batch env" "ve_back_ok env" "ts_UserId t" ?d lg] True d
        by (auto simp: user_account.move_def)
      then show ?thesis using assms Some True d by (cases ok) (auto simp: video_recalc_def Let_def)
    qed (use assms Some False in \<open>auto simp: video_recalc_def Let_def\<close>)
  qed
qed

text \<open>A poll keeps the keys of a task.\<close>

definition same_task :: "task \<Rightarrow> task \<Rightarrow> bool" where
  "same_task t t' \<longleftrightarrow> ts_ID t' = ts_ID t \<and> ts_TaskID t' = ts_TaskID t \<and> ts_UserId t' = ts_UserId t"

lemma video_result_same:
  "video_result a t = Some (ti, t') \<Longrightarrow>
   same_task t t' \<and> ts_Quota t' = ts_Quota t \<and> ts_Status t' = ts_Status t"
  by (auto simp: video_result_def same_task_def split: video_answer.splits)

lemma video_switch_effect:
  assumes "video_switch env ti t lg = Some (t', lg', refund, prog)"
  shows "same_task t t' \<and> ts_Status t' = ti_Status ti \<and> token_quota lg' = token_quota lg \<and>
    user_quota lg' = shift (ts_UserId t) (ts_Quota t' - ts_Quota t) (user_quota lg) \<and>
    (ti_Status ti = TaskStatusFailure \<longrightarrow> ts_Quota t' = ts_Quota t \<and> (refund \<longleftrightarrow> ts_Quota t \<noteq> 0 \<and> ts_Status t \<noteq> TaskStatusFailure)) \<and>
    (ti_Status ti \<noteq> TaskStatusFailure \<longrightarrow> \<not> refund) \<and>
    (ti_Status ti \<noteq> TaskStatusSuccess \<longrightarrow> ts_Quota t' = ts_Quota t)"
proof (cases "ti_Status ti = TaskStatusSuccess")
  case True
  let ?t1 = "(t\<lparr>ts_Status := ti_Status ti\<rparr>)\<lparr>ts_Progress := ''100%'', ts_FinishTime := (if ts_FinishTime t = 0 then ve_now env else ts_FinishTime t),
      ts_FailReason := (if 5 < length (ti_Url ti) \<and> take 5 (ti_Url ti) = ''data:'' then ts_FailReason t else ti_Url ti)\<rparr>"
  obtain t2 lg2 where r: "video_recalc env ti ?t1 lg = (t2, lg2)" by fastforce
  then have e: "t' = t2" "lg' = lg2" "\<not> refund" using assms True by (auto simp: video_switch_def Let_def cong: if_cong)
  note eff = video_recalc_effect [OF r]
  have "ts_ID t2 = ts_ID t \<and> ts_TaskID t2 = ts_TaskID t \<and> ts_UserId t2 = ts_UserId t \<and> ts_Status t2 = ti_Status ti"
    by (subst (1 2 3 4) eff [THEN conjunct2, THEN conjunct2]) simp
  then show ?thesis using e eff True by (simp add: same_task_def)
next
  case False
  then show ?thesis using assms by (auto simp: video_switch_def Let_def same_task_def split: if_splits)
qed

text \<open>One poll, whatever the upstream answers, with the row and the refund written.\<close>

lemma updateVideoSingleTask_effect:
  assumes "gm_get (ps_mem st) taskId = Some t" "updateVideoSingleTask env taskId st = (b, st')"
    and "ve_save_ok env" "ve_batch env \<or> ve_refund_ok env" "0 \<le> ts_Quota t" "ts_Status t \<noteq> TaskStatusFailure"
  shows "\<exists>t'. same_task t t' \<and> (\<forall>k. gm_get (ps_mem st') k = (if k = taskId then Some t' else gm_get (ps_mem st) k)) \<and>
    ps_rows st' = (if b then gm_put (ps_rows st) (ts_ID t) t' else ps_rows st) \<and>
    user_quota (ps_ledger st') = shift (ts_UserId t) (task_charge t' - task_charge t) (user_quota (ps_ledger st)) \<and>
    token_quota (ps_ledger st') = token_quota (ps_ledger st) \<and>
    (b \<longrightarrow> task_unfinished t' \<longrightarrow> 0 \<le> ts_Quota t')"
proof (cases "video_result (ve_answer env) t")
  case None
  then show ?thesis using assms(1,2) by (intro exI [of _ t]) (auto simp: updateVideoSingleTask_def same_task_def)
next
  case (Some r)
  obtain ti0 t1 where r: "video_result (ve_answer env) t = Some (ti0, t1)" using Some by (cases r) auto
  note t1 = video_result_same [OF r]
  define ti where "ti = (if ti_Status ti0 = [] then FailTaskInfo ''upstream returned empty status'' else ti0)"
  show ?thesis
  proof (cases "video_switch env ti t1 (ps_ledger st)")
    case None
    then have "ti_Status ti \<noteq> TaskStatusFailure" by (auto simp: video_switch_def Let_def)
    moreover have "b = False" "st' = st\<lparr>ps_mem := gm_put (ps_mem st) taskId (t1\<lparr>ts_Status := ti_Status ti\<rparr>)\<rparr>"
      using assms(1,2) r None by (auto simp: updateVideoSingleTask_def ti_def [symmetric] Let_def)
    ultimately show ?thesis using t1 assms(6)
      by (intro exI [of _ "t1\<lparr>ts_Status := ti_Status ti\<rparr>"]) (auto simp: same_task_def task_charge_def)
  next
    case (Some w)
    obtain t2 lg refund prog where w: "video_switch env ti t1 (ps_ledger st) = Some (t2, lg, refund, prog)" using Some by (cases w) auto
    note t2 = video_switch_effect [OF w]
    define t3 where "t3 = (if prog \<noteq> [] then t2\<lparr>ts_Progress := prog\<rparr> else t2)"
    have t3: "ts_ID t3 = ts_ID t2" "ts_TaskID t3 = ts_TaskID t2" "ts_UserId t3 = ts_UserId t2" "ts_Quota t3 = ts_Quota t2"
      "ts_Status t3 = ts_Status t2" by (simp_all add: t3_def)
    have st': "b = True" "ps_rows st' = gm_put (ps_rows st) (ts_ID t3) t3" "ps_mem st' = gm_put (ps_mem st) taskId t3"
      "ps_ledger st' = (if refund then snd (IncreaseUserQuota (ve_batch env) (ve_refund_ok env) (ts_UserId t3) (ts_Quota t) False lg) else lg)"
      using assms(1,2,3) r w by (auto simp: updateVideoSingleTask_def ti_def [symmetric] t3_def [symmetric] Let_def Task_Update_def)
    have s: "same_task t t3" using t1 t2 t3 by (auto simp: same_task_def)
    have c: "ts_Quota t3 = ts_Quota t2" "ts_Status t3 = ti_Status ti" "task_charge t = ts_Quota t" "ts_UserId t3 = ts_UserId t"
      using t3 t2 t1 assms(6) by (auto simp: task_charge_def same_task_def)
    have u: "user_quota (ps_ledger st') = shift (ts_UserId t) (task_charge t3 - task_charge t) (user_quota (ps_ledger st))"
    proof (cases "ti_Status ti = TaskStatusFailure")
      case True
      then have "task_charge t3 = 0" "refund \<longleftrightarrow> ts_Quota t \<noteq> 0" "user_quota lg = user_quota (ps_ledger st)"
        using t2 t1 c(2) assms(6) by (auto simp: task_charge_def)
      then show ?thesis using st'(4) c(3,4) refund_quota [OF assms(5,4), of "ts_UserId t" lg] by auto
    next
      case False
      then have "\<not> refund" "task_charge t3 = ts_Quota t2" using t2 c(1,2) by (auto simp: task_charge_def)
      then show ?thesis using st'(4) t2 t1 c(3) by (simp add: same_task_def)
    qed
    have k: "token_quota (ps_ledger st') = token_quota (ps_ledger st)" using st'(4) t2 user_ops_token_quota(1) by auto
    have n: "task_unfinished t3 \<longrightarrow> 0 \<le> ts_Quota t3"
      using t2 t1 c assms(5) by (auto simp: task_unfinished_def)
    show ?thesis using st' s u k n by (intro exI [of _ t3]) (auto simp: same_task_def)
  qed
qed

subsection \<open>Rounds\<close>

text \<open>Rows keyed by their ids, with no negative quota in an unfinished task.\<close>

definition rows_wf :: "task_rows \<Rightarrow> bool" where
  "rows_wf rows \<longleftrightarrow> gm_ok rows \<and>
     (\<forall>i t. gm_get rows i = Some t \<longrightarrow> ts_ID t = i \<and> (task_unfinished t \<longrightarrow> 0 \<le> ts_Quota t))"

text \<open>Tasks still to be polled: their rows are as they were read.\<close>

definition fresh_rows :: "poll_st \<Rightarrow> task set \<Rightarrow> bool" where
  "fresh_rows st us \<longleftrightarrow> (\<forall>t \<in> us. gm_get (ps_rows st) (ts_ID t) = Some t \<and> task_unfinished t)"

definition fresh_mem :: "poll_st \<Rightarrow> task set \<Rightarrow> bool" where
  "fresh_mem st us \<longleftrightarrow> (\<forall>t \<in> us. gm_get (ps_mem st) (ts_TaskID t) = Some t)"

definition ids_apart :: "task list \<Rightarrow> bool" where
  "ids_apart ts \<longleftrightarrow> distinct (map ts_ID ts) \<and> distinct (map ts_TaskID ts)"

definition writes_good :: "(nat \<Rightarrow> video_env) \<Rightarrow> bool" where
  "writes_good env \<longleftrightarrow> (\<forall>k. ve_save_ok (env k) \<and> (ve_batch (env k) \<or> ve_refund_ok (env k)))"

text \<open>The balances after a stretch of polling that worked on the rows \<open>ids\<close> only.\<close>

definition balanced :: "int set \<Rightarrow> poll_st \<Rightarrow> poll_st \<Rightarrow> bool" where
  "balanced ids st st' \<longleftrightarrow> holdings st' = holdings st \<and> token_quota (ps_ledger st') = token_quota (ps_ledger st) \<and>
     rows_wf (ps_rows st') \<and> (\<forall>i. i \<notin> ids \<longrightarrow> gm_get (ps_rows st') i = gm_get (ps_rows st) i)"

lemma balanced_refl: "rows_wf (ps_rows st) \<Longrightarrow> balanced ids st st"
  by (simp add: balanced_def)

lemma balanced_trans: "balanced a st st1 \<Longrightarrow> balanced b st1 st2 \<Longrightarrow> balanced (a \<union> b) st st2"
  by (simp add: balanced_def)

lemma balanced_mono: "balanced a st st' \<Longrightarrow> a \<subseteq> b \<Longrightarrow> balanced b st st'"
  by (auto simp: balanced_def)

lemma video_poll_balanced:
  assumes "rows_wf (ps_rows st)" "fresh_rows st {t}" "fresh_mem st {t}" "ve_save_ok env" "ve_batch env \<or> ve_refund_ok env"
    and "updateVideoSingleTask env (ts_TaskID t) st = (b, st')"
  shows "balanced {ts_ID t} st st' \<and> (\<forall>k. k \<noteq> ts_TaskID t \<longrightarrow> gm_get (ps_mem st') k = gm_get (ps_mem st) k)"
proof -
  have r: "gm_get (ps_rows st) (ts_ID t) = Some t" "gm_get (ps_mem st) (ts_TaskID t) = Some t" "task_unfinished t"
    using assms(2,3) by (simp_all add: fresh_rows_def fresh_mem_def)
  then have q: "0 \<le> ts_Quota t" "ts_Status t \<noteq> TaskStatusFailure"
    using assms(1) by (auto simp: rows_wf_def task_unfinished_def)
  obtain t' where t': "same_task t t'" "\<forall>k. gm_get (ps_mem st') k = (if k = ts_TaskID t then Some t' else gm_get (ps_mem st) k)"
    "ps_rows st' = (if b then gm_put (ps_rows st) (ts_ID t) t' else ps_rows st)"
    "user_quota (ps_ledger st') = shift (ts_UserId t) (task_charge t' - task_charge t) (user_quota (ps_ledger st))"
    "token_quota (ps_ledger st') = token_quota (ps_ledger st)" "b \<longrightarrow> task_unfinished t' \<longrightarrow> 0 \<le> ts_Quota t'"
    using updateVideoSingleTask_effect [OF r(2) assms(6,4,5) q] by blast
  have ub: "holdings st' = holdings st"
  proof (cases b)
    case True
    then show ?thesis using holdings_step [OF r(1) _ t'(4)] t'(1,3) by (simp add: same_task_def)
  next
    case False
    have "ps_ledger st' = ps_ledger st"
      using assms(6) r(2) False by (auto simp: updateVideoSingleTask_def Let_def split: option.splits prod.splits)
    then show ?thesis using t'(3) False by (simp add: holdings_def fun_eq_iff)
  qed
  have "rows_wf (ps_rows st')"
    using assms(1) t'(1,3,6) by (auto simp: rows_wf_def same_task_def split: if_splits)
  then show ?thesis using ub t' by (auto simp: balanced_def)
qed

lemma video_tasks_balanced:
  assumes "rows_wf (ps_rows st)" "fresh_rows st (set us)" "fresh_mem st (set us)" "ids_apart us" "writes_good env"
  shows "balanced (ts_ID ` set us) st (video_tasks env k (map ts_TaskID us) st) \<and>
    (\<forall>i. i \<notin> ts_TaskID ` set us \<longrightarrow> gm_get (ps_mem (video_tasks env k (map ts_TaskID us) st)) i = gm_get (ps_mem st) i)"
  using assms
proof (induction us arbitrary: k st)
  case Nil
  then show ?case by (simp add: balanced_refl)
next
  case (Cons t us)
  obtain b st1 where st1: "updateVideoSingleTask (env k) (ts_TaskID t) st = (b, st1)" by fastforce
  have p: "balanced {ts_ID t} st st1" "\<forall>i. i \<noteq> ts_TaskID t \<longrightarrow> gm_get (ps_mem st1) i = gm_get (ps_mem st) i"
    using video_poll_balanced [OF Cons.prems(1) _ _ _ _ st1] Cons.prems(2,3,5)
    by (simp_all add: fresh_rows_def fresh_mem_def writes_good_def)
  have f: "fresh_rows st1 (set us)" "fresh_mem st1 (set us)" "ids_apart us" "rows_wf (ps_rows st1)"
    using p Cons.prems(2,3,4) by (auto simp: fresh_rows_def fresh_mem_def ids_apart_def balanced_def image_iff)
  have r: "balanced (ts_ID ` set us) st1 (video_tasks env (Suc k) (map ts_TaskID us) st1)"
    "\<forall>i. i \<notin> ts_TaskID ` set us \<longrightarrow> gm_get (ps_mem (video_tasks env (Suc k) (map ts_TaskID us) st1)) i = gm_get (ps_mem st1) i"
    using Cons.IH [OF f(4,1,2,3) Cons.prems(5), of "Suc k"] by blast+
  show ?case using balanced_trans [OF p(1) r(1)] r(2) p(2) by (simp add: st1)
qed

lemma distinct_filters:
  "distinct (map f xs) \<Longrightarrow> distinct (map f (filter P xs))"
  "distinct (map f xs) \<Longrightarrow> (\<And>x. P x \<Longrightarrow> \<not> Q x) \<Longrightarrow> f ` set (filter P xs) \<inter> f ` set (filter Q xs) = {}"
  by (induction xs) auto

text \<open>The tasks of the channels that are still to be visited.\<close>

abbreviation on_channels :: "task list \<Rightarrow> int set \<Rightarrow> task list" where
  "on_channels ts chs \<equiv> filter (\<lambda>t. ts_TaskID t \<noteq> [] \<and> ts_ChannelId t \<in> chs) ts"

definition polls_good :: "channel_poll \<Rightarrow> bool" where
  "polls_good cp \<longleftrightarrow> cp_channel cp \<and> writes_good (cp_video cp)"

lemma channels_loop_balanced:
  assumes "rows_wf (ps_rows st)" "ids_apart ts" "fresh_rows st (set (on_channels ts (set chs)))"
    "fresh_mem st (set (on_channels ts (set chs)))" "distinct chs" "p \<noteq> ''suno''" "\<forall>ch. polls_good (cp ch)"
  shows "\<exists>st'. channels_loop cp p ts chs st = Ok st' \<and> balanced (ts_ID ` set ts) st st'"
  using assms
proof (induction chs arbitrary: st)
  case Nil
  then show ?case by (simp add: balanced_refl)
next
  case (Cons ch chs)
  let ?us = "on_channels ts {ch}"
  have us: "channel_ids ts ch = map ts_TaskID ?us" by (simp add: channel_ids_def)
  have apart: "ids_apart ?us" using Cons.prems(2) by (simp add: ids_apart_def distinct_filters)
  have sub: "set ?us \<subseteq> set (on_channels ts (set (ch # chs)))" "set (on_channels ts (set chs)) \<subseteq> set (on_channels ts (set (ch # chs)))"
    by auto
  have fr: "fresh_rows st (set ?us)" "fresh_mem st (set ?us)"
    using Cons.prems(3,4) sub(1) by (auto simp: fresh_rows_def fresh_mem_def)
  define st1 where "st1 = (if p = ''mj'' \<or> ?us = [] \<or> \<not> cp_adaptor (cp ch) then st else video_tasks (cp_video (cp ch)) 0 (map ts_TaskID ?us) st)"
  have step: "UpdateTaskByPlatform p (cp ch) (channel_ids ts ch) st = Ok st1"
    using Cons.prems(6,7) unfolding us by (simp add: UpdateTaskByPlatform_def updateVideoTaskAll_def polls_good_def st1_def)
  have b: "balanced (ts_ID ` set ?us) st st1 \<and> (\<forall>i. i \<notin> ts_TaskID ` set ?us \<longrightarrow> gm_get (ps_mem st1) i = gm_get (ps_mem st) i)"
    using video_tasks_balanced [OF Cons.prems(1) fr apart, of "cp_video (cp ch)" 0] Cons.prems(1,7)
    by (auto simp: st1_def balanced_refl polls_good_def)
  have dis: "f ` set ?us \<inter> f ` set (on_channels ts (set chs)) = {}" if "distinct (map f ts)" for f :: "task \<Rightarrow> 'z"
    by (rule distinct_filters(2) [OF that]) (use Cons.prems(5) in auto)
  have keep: "gm_get (ps_rows st1) (ts_ID t) = Some t \<and> task_unfinished t \<and> gm_get (ps_mem st1) (ts_TaskID t) = Some t"
    if t: "t \<in> set (on_channels ts (set chs))" for t
  proof -
    have "ts_ID t \<notin> ts_ID ` set ?us" using dis [of ts_ID] Cons.prems(2) t unfolding ids_apart_def by blast
    moreover have "ts_TaskID t \<notin> ts_TaskID ` set ?us" using dis [of ts_TaskID] Cons.prems(2) t unfolding ids_apart_def by blast
    moreover have "gm_get (ps_rows st) (ts_ID t) = Some t \<and> task_unfinished t \<and> gm_get (ps_mem st) (ts_TaskID t) = Some t"
      using Cons.prems(3,4) sub(2) t unfolding fresh_rows_def fresh_mem_def by blast
    ultimately show ?thesis using b unfolding balanced_def by simp
  qed
  then have "fresh_rows st1 (set (on_channels ts (set chs)))" "fresh_mem st1 (set (on_channels ts (set chs)))"
    unfolding fresh_rows_def fresh_mem_def by blast+
  moreover have "rows_wf (ps_rows st1)" using b by (simp add: balanced_def)
  ultimately obtain st' where st': "channels_loop cp p ts chs st1 = Ok st'" "balanced (ts_ID ` set ts) st1 st'"
    using Cons.IH [of st1] Cons.prems(2,5,6,7) by auto
  have "balanced (ts_ID ` set ts) st st'"
    by (rule balanced_mono [OF balanced_trans [OF conjunct1 [OF b] st'(2)]]) auto
  then show ?case using st'(1) step by simp
qed

lemma find_distinct:
  "distinct (map f xs) \<Longrightarrow> x \<in> set xs \<Longrightarrow> find (\<lambda>y. f y = f x) xs = Some x"
  by (induction xs) auto

lemma task_map_get: "distinct (map ts_TaskID ts) \<Longrightarrow> t \<in> set ts \<Longrightarrow> ts_TaskID t \<noteq> [] \<Longrightarrow> gm_get (task_map ts) (ts_TaskID t) = Some t"
proof -
  assume a: "distinct (map ts_TaskID ts)" "t \<in> set ts" "ts_TaskID t \<noteq> []"
  let ?fs = "filter (\<lambda>t. ts_TaskID t \<noteq> []) ts"
  have "distinct (map ts_TaskID (rev ?fs))" "t \<in> set (rev ?fs)"
    using a distinct_filters(1) [OF a(1)] by (simp_all add: rev_map [symmetric])
  from find_distinct [OF this] show ?thesis unfolding task_map_def gm_get_fold_put by simp
qed

lemma platforms_loop_balanced:
  assumes "rows_wf (ps_rows st)" "ids_apart ts" "fresh_rows st {t \<in> set ts. ts_Platform t \<in> set ps}" "distinct ps"
    "\<forall>t \<in> set ts. ts_TaskID t \<noteq> []" "\<forall>p ch. polls_good (cp p ch)" "''suno'' \<notin> set ps" "\<forall>p. distinct (chs p)"
  shows "\<exists>st'. platforms_loop cp null_ok chs ts ps st = Ok st' \<and> balanced (ts_ID ` set ts) st st'"
  using assms
proof (induction ps arbitrary: st)
  case Nil
  then show ?case by (simp add: balanced_refl)
next
  case (Cons p ps)
  let ?us = "filter (\<lambda>t. ts_Platform t = p) ts"
  let ?st = "st\<lparr>ps_mem := task_map ?us\<rparr>"
  have apart: "ids_apart ?us" using Cons.prems(2) by (simp add: ids_apart_def distinct_filters)
  have nulls: "null_ids ?us = []" using Cons.prems(5) by (auto simp: null_ids_def filter_empty_conv)
  have fresh: "fresh_rows ?st (set (on_channels ?us (set (chs p))))" "fresh_mem ?st (set (on_channels ?us (set (chs p))))"
    using Cons.prems(3) apart task_map_get [of ?us] by (auto simp: fresh_rows_def fresh_mem_def ids_apart_def)
  obtain st1 where st1: "channels_loop (cp p) p ?us (chs p) ?st = Ok st1" "balanced (ts_ID ` set ?us) ?st st1"
    using channels_loop_balanced [OF _ apart fresh, of p "cp p"] Cons.prems(1,6,7,8) by auto
  have b1: "balanced (ts_ID ` set ?us) st st1" using st1(2) by (simp add: balanced_def holdings_def fun_eq_iff)
  have dis: "ts_ID ` set ?us \<inter> ts_ID ` set (filter (\<lambda>t. ts_Platform t \<in> set ps) ts) = {}"
    by (rule distinct_filters(2)) (use Cons.prems(2,4) in \<open>auto simp: ids_apart_def\<close>)
  have "fresh_rows st1 {t \<in> set ts. ts_Platform t \<in> set ps}"
    unfolding fresh_rows_def
  proof
    fix t assume t: "t \<in> {t \<in> set ts. ts_Platform t \<in> set ps}"
    then have "ts_ID t \<notin> ts_ID ` set ?us" using dis by auto
    then show "gm_get (ps_rows st1) (ts_ID t) = Some t \<and> task_unfinished t"
      using b1 Cons.prems(3) t by (auto simp: balanced_def fresh_rows_def)
  qed
  moreover have "rows_wf (ps_rows st1)" using b1 by (simp add: balanced_def)
  ultimately obtain st' where st': "platforms_loop cp null_ok chs ts ps st1 = Ok st'" "balanced (ts_ID ` set ts) st1 st'"
    using Cons.IH [of st1] Cons.prems(2,4,5,6,7,8) by auto
  have r: "platform_round (cp p) null_ok p (chs p) ?us st = Ok st1"
    using st1(1) by (simp add: platform_round_def nulls TaskBulkUpdateByID_def)
  have "balanced (ts_ID ` set ts) st st'"
    by (rule balanced_mono [OF balanced_trans [OF b1 st'(2)]]) auto
  then show ?case using st'(1) r by simp
qed

lemma GetAllUnFinishSyncTasks_ok:
  assumes "rows_wf rows"
  shows "distinct (map ts_ID (GetAllUnFinishSyncTasks ok limit rows))"
    "t \<in> set (GetAllUnFinishSyncTasks ok limit rows) \<Longrightarrow> gm_get rows (ts_ID t) = Some t \<and> task_unfinished t"
proof -
  let ?us = "filter task_unfinished (map snd rows)"
  have key: "ts_ID t = i" if "(i, t) \<in> set rows" for i t
    using that assms by (auto simp: rows_wf_def gm_ok_def gm_keys_def gm_get_def)
  then have eq: "map ts_ID (map snd rows) = map fst rows" by auto
  have d: "distinct (map ts_ID (map snd rows))" unfolding eq using assms by (simp add: rows_wf_def gm_ok_def gm_keys_def)
  then have "inj_on ts_ID (set ?us)" "distinct ?us" by (auto simp: distinct_map inj_on_def)
  then have "distinct (map ts_ID (take limit (sort_key ts_ID ?us)))"
    unfolding distinct_map by (metis distinct_sort distinct_take inj_on_subset set_sort set_take_subset)
  then show "distinct (map ts_ID (GetAllUnFinishSyncTasks ok limit rows))" by (simp add: GetAllUnFinishSyncTasks_def)
  show "t \<in> set (GetAllUnFinishSyncTasks ok limit rows) \<Longrightarrow> gm_get rows (ts_ID t) = Some t \<and> task_unfinished t"
  proof -
    assume "t \<in> set (GetAllUnFinishSyncTasks ok limit rows)"
    then have "t \<in> set (take limit (sort_key ts_ID ?us))" by (simp add: GetAllUnFinishSyncTasks_def split: if_splits)
    then have "t \<in> set ?us" using set_take_subset [of limit "sort_key ts_ID ?us"] by auto
    then obtain i where i: "(i, t) \<in> set rows" "task_unfinished t" by auto
    then have "gm_get rows i = Some t" using assms by (simp add: rows_wf_def gm_ok_def gm_keys_def gm_get_def)
    then show ?thesis using key [OF i(1)] i(2) by simp
  qed
qed

text \<open>With a group of its own, the quota by tokens depends on the data of the task only.\<close>

lemma video_actual_cong:
  "ts_Group t \<noteq> [] \<Longrightarrow> ts_Group t' = ts_Group t \<Longrightarrow> ts_Data t' = ts_Data t \<Longrightarrow> video_actual env ti t' lg' = video_actual env ti t lg"
  by (auto simp: video_actual_def Let_def split: option.splits prod.splits)

lemma video_actual_save [simp]: "video_actual (env\<lparr>ve_save_ok := b\<rparr>) = video_actual env"
proof -
  have f: "ve_model (env\<lparr>ve_save_ok := b\<rparr>) = ve_model env" "ve_fl (env\<lparr>ve_save_ok := b\<rparr>) = ve_fl env"
    "ve_settings (env\<lparr>ve_save_ok := b\<rparr>) = ve_settings env" "ve_user_read (env\<lparr>ve_save_ok := b\<rparr>) = ve_user_read env"
    by simp_all
  show ?thesis unfolding video_actual_def f ..
qed

text \<open>A successful poll that costs more than was taken.\<close>

lemma video_success_step:
  assumes "gm_get (ps_mem st) taskId = Some t" "ve_answer env = VideoParsed ti body" "ti_Status ti = TaskStatusSuccess"
    and "ts_Group t \<noteq> []" "video_actual env ti (t\<lparr>ts_Data := body\<rparr>) (ps_ledger st) = Some a" "ts_Quota t < a"
    and "ve_batch env \<or> ve_charge_ok env"
  shows "\<exists>t'. updateVideoSingleTask env taskId st =
      (True, \<lparr>ps_rows = Task_Update (ve_save_ok env) t' (ps_rows st), ps_mem = gm_put (ps_mem st) taskId t',
        ps_ledger = ps_ledger (snd (updateVideoSingleTask env taskId st))\<rparr>) \<and>
    ts_ID t' = ts_ID t \<and> ts_Quota t' = a \<and> ts_Status t' = TaskStatusSuccess \<and>
    user_quota (ps_ledger (snd (updateVideoSingleTask env taskId st))) = shift (ts_UserId t) (a - ts_Quota t) (user_quota (ps_ledger st))"
proof -
  define t1 where "t1 = (t\<lparr>ts_Data := body, ts_Status := TaskStatusSuccess\<rparr>)\<lparr>ts_Progress := ''100%'',
    ts_FinishTime := (if ts_FinishTime t = 0 then ve_now env else ts_FinishTime t),
    ts_FailReason := (if 5 < length (ti_Url ti) \<and> take 5 (ti_Url ti) = ''data:'' then ts_FailReason t else ti_Url ti)\<rparr>"
  have t1: "ts_Quota t1 = ts_Quota t" "ts_UserId t1 = ts_UserId t" "ts_ID t1 = ts_ID t" "ts_Status t1 = TaskStatusSuccess"
    "ts_Group t1 = ts_Group t" "ts_Data t1 = body" "ts_ChannelId t1 = ts_ChannelId t" by (simp_all add: t1_def)
  have act: "video_actual env ti t1 (ps_ledger st) = Some a"
    using video_actual_cong [of "t\<lparr>ts_Data := body\<rparr>" t1 env ti "ps_ledger st" "ps_ledger st"] assms(4,5) t1 by simp
  obtain t2 lg where r: "video_recalc env ti t1 (ps_ledger st) = (t2, lg)" by fastforce
  obtain ok lg1 where d: "DecreaseUserQuota (ve_batch env) (ve_charge_ok env) (ts_UserId t) (a - ts_Quota t) (ps_ledger st) = (ok, lg1)"
    by fastforce
  have "ok" using move_result(1) [of "ve_batch env" "ve_charge_ok env" "ts_UserId t" "a - ts_Quota t" "ps_ledger st"] d assms(6,7)
    by (simp add: user_account.move_def)
  then have t2: "t2 = t1\<lparr>ts_Quota := a\<rparr>" using r d act assms(6) t1 by (auto simp: video_recalc_def Let_def)
  have lg: "user_quota lg = shift (ts_UserId t) (a - ts_Quota t) (user_quota (ps_ledger st))"
    using video_recalc_effect [OF r] t1 t2 by simp
  define t3 where "t3 = (if ti_Progress ti \<noteq> [] then t2\<lparr>ts_Progress := ti_Progress ti\<rparr> else t2)"
  have t3: "ts_ID t3 = ts_ID t" "ts_Quota t3 = a" "ts_Status t3 = TaskStatusSuccess" by (simp_all add: t3_def t2 t1)
  have "video_switch env ti (t\<lparr>ts_Data := body\<rparr>) (ps_ledger st) = Some (t2, lg, False, ti_Progress ti)"
    using assms(3) r by (simp add: video_switch_def Let_def t1_def cong: if_cong)
  then have "updateVideoSingleTask env taskId st =
      (True, \<lparr>ps_rows = Task_Update (ve_save_ok env) t3 (ps_rows st), ps_mem = gm_put (ps_mem st) taskId t3, ps_ledger = lg\<rparr>)"
    using assms(1,2,3) by (simp add: updateVideoSingleTask_def video_result_def t3_def Let_def)
  then show ?thesis using t3 lg by (intro exI [of _ t3]) simp
qed

lemma suno_step_updates:
  assumes "gm_get (ps_mem st) (su_TaskID n) = Some t" "checkTaskNeedUpdate (sv_marshal env) t n"
    and "failed \<longleftrightarrow> su_FailReason n \<noteq> [] \<or> ts_Status (suno_merge n t) = TaskStatusFailure"
  shows "\<exists>t' st'. suno_item_step env n (err, st) = Ok (\<not> sv_save_ok env, st') \<and>
    ts_ID t' = ts_ID t \<and> ts_Quota t' = ts_Quota t \<and> (failed \<longrightarrow> ts_Progress t' = ''100%'') \<and>
    ps_rows st' = Task_Update (sv_save_ok env) t' (ps_rows st) \<and> ps_mem st' = gm_put (ps_mem st) (su_TaskID n) t' \<and>
    ps_ledger st' = (if failed \<and> \<not> err \<and> ts_Quota t \<noteq> 0
      then snd (IncreaseUserQuota (sv_batch env) (sv_refund_ok env) (ts_UserId t) (ts_Quota t) False (ps_ledger st)) else ps_ledger st)"
proof -
  define t1 where "t1 = suno_merge n t"
  have t1: "ts_ID t1 = ts_ID t" "ts_Quota t1 = ts_Quota t" "ts_UserId t1 = ts_UserId t" by (simp_all add: t1_def suno_merge_def)
  have f: "(su_FailReason n \<noteq> [] \<or> ts_Status t1 = TaskStatusFailure) = failed" using assms(3) by (simp add: t1_def)
  define t2 where "t2 = t1\<lparr>ts_Progress := (if failed \<or> su_Status n = TaskStatusSuccess then ''100%'' else ts_Progress t1), ts_Data := su_Data n\<rparr>"
  have t2: "ts_ID t2 = ts_ID t" "ts_Quota t2 = ts_Quota t" "failed \<longrightarrow> ts_Progress t2 = ''100%''" by (simp_all add: t2_def t1)
  define lg where "lg = (if failed \<and> \<not> err \<and> ts_Quota t \<noteq> 0
      then snd (IncreaseUserQuota (sv_batch env) (sv_refund_ok env) (ts_UserId t) (ts_Quota t) False (ps_ledger st)) else ps_ledger st)"
  have "suno_item_step env n (err, st) = Ok (\<not> sv_save_ok env,
      \<lparr>ps_rows = Task_Update (sv_save_ok env) t2 (ps_rows st), ps_mem = gm_put (ps_mem st) (su_TaskID n) t2, ps_ledger = lg\<rparr>)"
    unfolding suno_item_step_def prod.case assms(1) option.case Let_def t1_def [symmetric] f t1 lg_def [symmetric] t2_def [symmetric]
    using assms(2) by simp
  then show ?thesis using t2 by (intro exI [of _ t2]) (simp add: lg_def)
qed

section \<open>Sample tasks\<close>

definition demo_task :: task where
  "demo_task = \<lparr>ts_ID = 1, ts_TaskID = ''v1'', ts_Platform = ''kling'', ts_UserId = 1, ts_Group = ''vip'', ts_ChannelId = 7,
     ts_Quota = 40, ts_Action = ''generate'', ts_Status = ''SUBMITTED'', ts_FailReason = [], ts_SubmitTime = 5, ts_StartTime = 0,
     ts_FinishTime = 0, ts_Progress = ''10%'', ts_OriginModelName = ''veo'', ts_UpstreamModelName = ''veo'', ts_PrivateKey = [],
     ts_Data = []\<rparr>"

definition demo_poll :: poll_st where
  "demo_poll = \<lparr>ps_rows = [(1, demo_task)], ps_mem = [(''v1'', demo_task)], ps_ledger = demo_ledger\<rparr>"

definition demo_result :: "string \<Rightarrow> int \<Rightarrow> task_info" where
  "demo_result status tokens = \<lparr>ti_Status = status, ti_Reason = ''why'', ti_Url = ''url'', ti_Progress = [], ti_TotalTokens = tokens\<rparr>"

definition demo_video_env :: "task_info \<Rightarrow> bool \<Rightarrow> video_env" where
  "demo_video_env ti save = \<lparr>ve_answer = VideoParsed ti ''data'', ve_now = 9, ve_model = (\<lambda>_. Some ''veo''), ve_fl = id,
     ve_settings = demo_settings\<lparr>st_modelRatio := [(''veo'', 2)]\<rparr>, ve_user_read = True, ve_batch = False, ve_charge_ok = True,
     ve_back_ok = True, ve_used_ok = True, ve_save_ok = save, ve_refund_ok = True\<rparr>"

definition demo_channel_poll :: channel_poll where
  "demo_channel_poll = \<lparr>cp_channel = True, cp_base = None, cp_adaptor = True, cp_bulk_ok = True, cp_reason = [],
     cp_suno_answer = None, cp_suno = (\<lambda>_. \<lparr>sv_marshal = id, sv_batch = False, sv_refund_ok = True, sv_save_ok = True\<rparr>),
     cp_video = (\<lambda>_. demo_video_env (demo_result ''FAILURE'' 0) True)\<rparr>"

lemma demo_rows: "gm_get (ps_rows demo_poll) i = (if i = 1 then Some demo_task else None)"
  by (simp add: demo_poll_def gm_get_def)

lemma demo_unfinished: "task_unfinished demo_task" by (simp add: demo_task_def task_unfinished_def)

lemma demo_query: "GetAllUnFinishSyncTasks True 10 (ps_rows demo_poll) = [demo_task]"
  by (simp add: GetAllUnFinishSyncTasks_def demo_poll_def demo_unfinished)

lemma demo_actual: "video_actual (demo_video_env (demo_result ''SUCCESS'' 30) save) (demo_result ''SUCCESS'' 30) (demo_task\<lparr>ts_Data := d\<rparr>) lg = Some 60"
proof -
  let ?s = "demo_settings\<lparr>st_modelRatio := [(''veo'', 2)]\<rparr>"
  have f: "FormatMatchingModelName ''veo'' = ''veo''" by code_simp
  have r: "GetModelRatio id ?s ''veo'' = (2, True, ''veo'')" by (simp add: GetModelRatio_def f gm_get_def)
  have g: "GetGroupGroupRatio ?s ''vip'' ''vip'' = (-1, False)" "GetGroupRatio ?s ''vip'' = 1"
    by (simp_all add: GetGroupGroupRatio_def GetGroupRatio_def ratio_or_def demo_settings_def)
  have t: "trunc 60 = 60" using trunc_int [of 60] by simp
  show ?thesis by (simp add: video_actual_def demo_video_env_def demo_result_def demo_task_def r g t)
qed

section \<open>Properties\<close>

text \<open>
  Polling neither makes nor loses money: after a round over video tasks, whatever their upstreams
  answer and whichever charges and corrections fail, the balance of every user plus what his tasks
  hold (nothing for a failed task, its quota otherwise) is unchanged, provided the rows and the refunds
  are written and every unfinished task has an upstream id of its own and an existing channel. The
  round returns, and no token gets anything: the quota a failed task took from its token stays taken.
\<close>

theorem video_round_balanced:
  assumes "rows_wf (ps_rows st)"
    and "ids_apart (GetAllUnFinishSyncTasks query_ok limit (ps_rows st))"
    and "\<forall>t \<in> set (GetAllUnFinishSyncTasks query_ok limit (ps_rows st)). ts_TaskID t \<noteq> []"
    and "distinct ps" "''suno'' \<notin> set ps" "\<forall>p. distinct (chs p)" "\<forall>p ch. polls_good (cp p ch)"
  shows "\<exists>st'. UpdateTaskBulk cp query_ok null_ok limit ps chs st = Ok st' \<and>
    holdings st' = holdings st \<and> token_quota (ps_ledger st') = token_quota (ps_ledger st) \<and> rows_wf (ps_rows st')"
proof -
  let ?ts = "GetAllUnFinishSyncTasks query_ok limit (ps_rows st)"
  have "fresh_rows st {t \<in> set ?ts. ts_Platform t \<in> set ps}"
    using GetAllUnFinishSyncTasks_ok(2) [OF assms(1), of _ query_ok limit] by (auto simp: fresh_rows_def)
  from platforms_loop_balanced [OF assms(1,2) this assms(4,3,7,5,6), of null_ok]
  show ?thesis by (auto simp: UpdateTaskBulk_def balanced_def)
qed

theorem video_round_balanced_witness:
  "\<exists>st'. UpdateTaskBulk (\<lambda>_ _. demo_channel_poll) True True 10 [''kling''] (\<lambda>_. [7]) demo_poll = Ok st' \<and>
     holdings st' 1 = Some 1040 \<and> token_quota (ps_ledger st') 5 = Some 500"
proof -
  have wf: "rows_wf (ps_rows demo_poll)"
    unfolding rows_wf_def demo_rows by (auto simp: demo_poll_def demo_task_def gm_ok_def gm_keys_def split: if_splits)
  have h: "holdings demo_poll 1 = Some 1040" "token_quota (ps_ledger demo_poll) 5 = Some 500"
    by (simp_all add: holdings_def demo_poll_def demo_balances user_charges_def task_charge_def demo_task_def)
  have "ids_apart [demo_task]" "ts_TaskID demo_task \<noteq> []" "polls_good demo_channel_poll"
    by (simp_all add: ids_apart_def demo_task_def polls_good_def writes_good_def demo_channel_poll_def demo_video_env_def)
  then show ?thesis
    using video_round_balanced [OF wf, of True 10 "[''kling'']" "\<lambda>_. [7]" "\<lambda>_ _. demo_channel_poll" True] h by (auto simp: demo_query)
qed

text \<open>
  C36. A correction of a finished video task is charged before its row is written, so when that write
  fails the next poll charges it again: the user pays the difference twice, although the row says he
  paid the quota by tokens once.
\<close>

theorem video_correction_charged_twice:
  assumes "gm_get (ps_mem st) taskId = Some t" "ve_answer env = VideoParsed ti body" "ti_Status ti = TaskStatusSuccess"
    and "ts_Group t \<noteq> []" "video_actual env ti (t\<lparr>ts_Data := body\<rparr>) (ps_ledger st) = Some a" "ts_Quota t < a"
    and "ve_batch env \<or> ve_charge_ok env" "\<not> ve_save_ok env"
  shows "case updateVideoSingleTask env taskId st of (b1, st1) \<Rightarrow> ps_rows st1 = ps_rows st \<and>
    (case updateVideoSingleTask (env\<lparr>ve_save_ok := True\<rparr>) taskId (st1\<lparr>ps_mem := ps_mem st\<rparr>) of (b2, st2) \<Rightarrow>
       (\<exists>t'. gm_get (ps_rows st2) (ts_ID t) = Some t' \<and> ts_Quota t' = a \<and> ts_Status t' = TaskStatusSuccess) \<and>
       user_quota (ps_ledger st2) = shift (ts_UserId t) (2 * (a - ts_Quota t)) (user_quota (ps_ledger st)))"
proof -
  obtain t1 st1 where p1: "updateVideoSingleTask env taskId st = (True, st1)" "ps_rows st1 = Task_Update (ve_save_ok env) t1 (ps_rows st)"
    "user_quota (ps_ledger st1) = shift (ts_UserId t) (a - ts_Quota t) (user_quota (ps_ledger st))"
    using video_success_step [OF assms(1-7)] by (metis poll_st.select_convs(1) prod.sel(2))
  let ?s = "st1\<lparr>ps_mem := ps_mem st\<rparr>" and ?e = "env\<lparr>ve_save_ok := True\<rparr>"
  have act: "video_actual ?e ti (t\<lparr>ts_Data := body\<rparr>) (ps_ledger ?s) = Some a"
    using video_actual_cong [of "t\<lparr>ts_Data := body\<rparr>" "t\<lparr>ts_Data := body\<rparr>" env ti "ps_ledger st1" "ps_ledger st"] assms(4,5) by simp
  obtain t2 where p2: "updateVideoSingleTask ?e taskId ?s =
      (True, \<lparr>ps_rows = Task_Update True t2 (ps_rows ?s), ps_mem = gm_put (ps_mem ?s) taskId t2,
        ps_ledger = ps_ledger (snd (updateVideoSingleTask ?e taskId ?s))\<rparr>)"
    "ts_ID t2 = ts_ID t" "ts_Quota t2 = a" "ts_Status t2 = TaskStatusSuccess"
    "user_quota (ps_ledger (snd (updateVideoSingleTask ?e taskId ?s))) = shift (ts_UserId t) (a - ts_Quota t) (user_quota (ps_ledger ?s))"
    using video_success_step [of ?s taskId t ?e ti body a] assms act by auto
  obtain st2 where s2: "updateVideoSingleTask ?e taskId ?s = (True, st2)" "ps_rows st2 = Task_Update True t2 (ps_rows ?s)"
    using p2(1) by (metis poll_st.select_convs(1))
  have "user_quota (ps_ledger st2) = shift (ts_UserId t) (2 * (a - ts_Quota t)) (user_quota (ps_ledger st))"
    using p2(5) p1(3) s2(1) by (simp add: algebra_simps)
  then show ?thesis using p1 s2 p2(2-4) assms(8) by (auto simp: Task_Update_def)
qed

theorem video_correction_charged_twice_witness:
  "case updateVideoSingleTask (demo_video_env (demo_result ''SUCCESS'' 30) False) ''v1'' demo_poll of (b1, st1) \<Rightarrow>
    (case updateVideoSingleTask (demo_video_env (demo_result ''SUCCESS'' 30) True) ''v1'' (st1\<lparr>ps_mem := ps_mem demo_poll\<rparr>) of (b2, st2) \<Rightarrow>
       user_quota (ps_ledger st2) 1 = Some 960)"
proof -
  let ?e = "demo_video_env (demo_result ''SUCCESS'' 30) False"
  have m: "gm_get (ps_mem demo_poll) ''v1'' = Some demo_task" "ps_ledger demo_poll = demo_ledger" by (simp_all add: demo_poll_def gm_get_def)
  have e: "ve_answer ?e = VideoParsed (demo_result ''SUCCESS'' 30) ''data''" "ve_charge_ok ?e" "\<not> ve_save_ok ?e"
    "ti_Status (demo_result ''SUCCESS'' 30) = TaskStatusSuccess" "?e\<lparr>ve_save_ok := True\<rparr> = demo_video_env (demo_result ''SUCCESS'' 30) True"
    by (simp_all add: demo_video_env_def demo_result_def)
  have t: "ts_Group demo_task \<noteq> []" "ts_Quota demo_task = 40" "ts_UserId demo_task = 1" by (simp_all add: demo_task_def)
  show ?thesis
    using video_correction_charged_twice [OF m(1) e(1,4) t(1) demo_actual] e t m(2) demo_balances(1)
    by (auto simp: shift_def split: prod.splits)
qed

text \<open>
  A failed write of one row costs the user of the next failed music task his refund: the loop
  tests the variable \<^verbatim>\<open>err\<close> that the previous item's write has set, so the next item's task is recorded as
  finished, is never polled again, and its quota is not returned.
\<close>

theorem suno_refund_lost:
  assumes "gm_get (ps_mem st) (su_TaskID n1) = Some t1" "gm_get (ps_mem st) (su_TaskID n2) = Some t2" "su_TaskID n1 \<noteq> su_TaskID n2"
    and "checkTaskNeedUpdate (sv_marshal (env 0)) t1 n1" "checkTaskNeedUpdate (sv_marshal (env 1)) t2 n2"
    and "su_FailReason n1 = [] \<and> ts_Status (suno_merge n1 t1) \<noteq> TaskStatusFailure"
    and "su_FailReason n2 \<noteq> [] \<or> ts_Status (suno_merge n2 t2) = TaskStatusFailure"
    and "\<not> sv_save_ok (env 0)" "sv_save_ok (env 1)" "ids \<noteq> []"
  shows "\<exists>st' t'. updateSunoTaskAll True (Some base) True bulk_ok reason (Some [n1, n2]) env ids st = Ok st' \<and>
    ps_ledger st' = ps_ledger st \<and> gm_get (ps_rows st') (ts_ID t2) = Some t' \<and> \<not> task_unfinished t' \<and> ts_Quota t' = ts_Quota t2"
proof -
  obtain a st1 where s1: "suno_item_step (env 0) n1 (False, st) = Ok (True, st1)" "ps_mem st1 = gm_put (ps_mem st) (su_TaskID n1) a"
    "ps_ledger st1 = ps_ledger st"
    using suno_step_updates [OF assms(1,4), of False False] assms(6,8) by auto
  have "gm_get (ps_mem st1) (su_TaskID n2) = Some t2" using assms(2,3) s1(2) by simp
  then obtain b st2 where s2: "suno_item_step (env 1) n2 (True, st1) = Ok (False, st2)" "ps_rows st2 = Task_Update True b (ps_rows st1)"
    "ts_ID b = ts_ID t2" "ts_Quota b = ts_Quota t2" "ts_Progress b = ''100%''" "ps_ledger st2 = ps_ledger st1"
    using suno_step_updates [of st1 n2 t2 "env 1" True True] assms(5,7,9) by auto
  have "updateSunoTaskAll True (Some base) True bulk_ok reason (Some [n1, n2]) env ids st = Ok st2"
    using assms(10) s1(1) s2(1) by (simp add: updateSunoTaskAll_def)
  then show ?thesis using s2 s1(3) by (intro exI [of _ st2] exI [of _ b]) (simp add: Task_Update_def task_unfinished_def)
qed

theorem suno_refund_lost_witness:
  "\<exists>st'. updateSunoTaskAll True (Some []) True True [] (Some
      [\<lparr>su_TaskID = ''a'', su_Status = ''SUCCESS'', su_FailReason = [], su_SubmitTime = 5, su_StartTime = 0, su_FinishTime = 0, su_Data = []\<rparr>,
       \<lparr>su_TaskID = ''b'', su_Status = ''FAILURE'', su_FailReason = ''why'', su_SubmitTime = 5, su_StartTime = 0, su_FinishTime = 0, su_Data = []\<rparr>])
      (\<lambda>k. \<lparr>sv_marshal = (\<lambda>s. s), sv_batch = False, sv_refund_ok = True, sv_save_ok = (k \<noteq> 0)\<rparr>) [''a'', ''b'']
      (demo_poll\<lparr>ps_mem := [(''a'', demo_task), (''b'', demo_task\<lparr>ts_ID := 2\<rparr>)]\<rparr>) = Ok st' \<and>
     user_quota (ps_ledger st') 1 = Some 1000"
proof -
  let ?n1 = "\<lparr>su_TaskID = ''a'', su_Status = ''SUCCESS'', su_FailReason = [], su_SubmitTime = 5, su_StartTime = 0, su_FinishTime = 0, su_Data = []\<rparr>"
  let ?n2 = "\<lparr>su_TaskID = ''b'', su_Status = ''FAILURE'', su_FailReason = ''why'', su_SubmitTime = 5, su_StartTime = 0, su_FinishTime = 0, su_Data = []\<rparr>"
  let ?env = "\<lambda>k :: nat. \<lparr>sv_marshal = (\<lambda>s. s), sv_batch = False, sv_refund_ok = True, sv_save_ok = (k \<noteq> 0)\<rparr>"
  let ?st = "demo_poll\<lparr>ps_mem := [(''a'', demo_task), (''b'', demo_task\<lparr>ts_ID := 2\<rparr>)]\<rparr>"
  have m: "gm_get (ps_mem ?st) (su_TaskID ?n1) = Some demo_task" "gm_get (ps_mem ?st) (su_TaskID ?n2) = Some (demo_task\<lparr>ts_ID := 2\<rparr>)"
    "su_TaskID ?n1 \<noteq> su_TaskID ?n2" by (simp_all add: gm_get_def)
  have c: "checkTaskNeedUpdate (sv_marshal (?env 0)) demo_task ?n1" "checkTaskNeedUpdate (sv_marshal (?env 1)) (demo_task\<lparr>ts_ID := 2\<rparr>) ?n2"
    by (simp_all add: checkTaskNeedUpdate_def demo_task_def)
  have "user_quota (ps_ledger ?st) 1 = Some 1000" by (simp add: demo_poll_def demo_balances)
  then show ?thesis
    using suno_refund_lost [OF m c, of "[''a'', ''b'']" "[]" True "[]"] by (auto simp: suno_merge_def)
qed

section \<open>Other observations\<close>

text \<open>A failed write after the refund of a music task: the row is unfinished still, so the next round refunds again.\<close>

lemma suno_refunded_again:
  assumes "gm_get (ps_mem st) (su_TaskID n) = Some t" "checkTaskNeedUpdate (sv_marshal env) t n"
    and "su_FailReason n \<noteq> [] \<or> ts_Status (suno_merge n t) = TaskStatusFailure"
    and "0 < ts_Quota t" "sv_batch env \<or> sv_refund_ok env" "\<not> sv_save_ok env"
  shows "\<exists>st'. suno_item_step env n (False, st) = Ok (True, st') \<and> ps_rows st' = ps_rows st \<and>
    user_quota (ps_ledger st') = shift (ts_UserId t) (- ts_Quota t) (user_quota (ps_ledger st))"
  using suno_step_updates [OF assms(1,2), of True False] assms(3-6) refund_quota [of "ts_Quota t" "sv_batch env" "sv_refund_ok env" "ts_UserId t" "ps_ledger st"]
  by (auto simp: Task_Update_def)

text \<open>The tasks of a channel that is gone are failed and finished, and their quota is kept.\<close>

lemma no_channel_no_refund:
  assumes "updateVideoTaskAll False adaptor True reason env ids st = st'" "gm_get (ps_rows st) i = Some t" "ts_TaskID t \<in> set ids"
  shows "ps_ledger st' = ps_ledger st \<and> (\<exists>t'. gm_get (ps_rows st') i = Some t' \<and> ts_Status t' = TaskStatusFailure \<and>
    \<not> task_unfinished t' \<and> ts_Quota t' = ts_Quota t)"
  using assms by (auto simp: updateVideoTaskAll_def TaskBulkUpdate_def fail_columns_def task_unfinished_def)

text \<open>So are the tasks that never got an id from their upstream.\<close>

lemma no_id_no_refund:
  assumes "platform_round cp True p [] ts st = Ok st'" "gm_get (ps_rows st) i = Some t" "ts_ID t \<in> set (null_ids ts)"
  shows "ps_ledger st' = ps_ledger st \<and> (\<exists>t'. gm_get (ps_rows st') i = Some t' \<and> ts_Status t' = TaskStatusFailure \<and>
    \<not> task_unfinished t' \<and> ts_Quota t' = ts_Quota t)"
  using assms by (auto simp: platform_round_def TaskBulkUpdateByID_def fail_columns_def task_unfinished_def)

end
