(* ===== verification/Task_Submit.thy ===== *)
theory Task_Submit
  imports Task_Poll Relay_Loop Request_Model
begin

text \<open>
  Submitting and fetching asynchronous tasks: \<^verbatim>\<open>internal/app/relay/relay_task.go\<close> and \<^verbatim>\<open>RelayTask\<close> of
  \<^verbatim>\<open>internal/adapter/handler/relay.go\<close>. A submission picks its channel, checks the balance of the user
  against the price, asks the upstream, writes the task's row and charges the price when all of that
  went well; errors may be retried over other channels, as in \<open>Relay_Loop\<close>. What the adaptors and
  the upstream answer, decoded JSON, and the outcome of database statements are arguments. The base
  URL of a channel travels with its id and is left out; logs are left out.
\<close>

section \<open>State and environment\<close>

abbreviation TaskActionRemix :: string where "TaskActionRemix \<equiv> ''remixGenerate''"
abbreviation ChannelTypeVertexAi :: int where "ChannelTypeVertexAi \<equiv> 41"

text \<open>An error: its code, and its status and locality.\<close>

type_synonym task_err = "string \<times> task_error"

abbreviation local_err :: "string \<Rightarrow> int \<Rightarrow> task_err" where
  "local_err c s \<equiv> (c, \<lparr>te_StatusCode = s, te_LocalError = True\<rparr>)"

abbreviation upstream_err :: "string \<Rightarrow> int \<Rightarrow> task_err" where
  "upstream_err c s \<equiv> (c, \<lparr>te_StatusCode = s, te_LocalError = False\<rparr>)"

text \<open>
  The relay information of a task request over the state of \<open>Relay_Loop\<close> (context of the channel,
  retry parameter, ledger), with the fields of \<^verbatim>\<open>ChannelMeta\<close> that are read, and the rows of tasks.
\<close>

record task_relay =
  tr_rs :: relay_st
  tr_rows :: task_rows
  tr_UserGroup :: string
  tr_OriginModelName :: string
  tr_UpstreamModelName :: string
  tr_Action :: string
  tr_OriginTaskID :: string
  tr_ConsumeQuota :: bool
  tr_OtherRatios :: "(string, rat) gomap"
  tr_ChannelId :: int
  tr_ChannelType :: int
  tr_ApiKey :: string

record task_env =
  tq_path :: string
  tq_video_id :: string
  tq_platform :: string                   \<comment> \<open>\<^verbatim>\<open>platform\<close> of the context\<close>
  tq_model :: string                      \<comment> \<open>\<^verbatim>\<open>original_model\<close> of the context\<close>
  tq_read_ok :: bool
  tq_field :: "string \<Rightarrow> string \<Rightarrow> string option"   \<comment> \<open>a string member of a task's data\<close>
  tq_channel :: "int \<Rightarrow> channel option"   \<comment> \<open>\<^verbatim>\<open>GetChannelById\<close>\<close>
  tq_key :: "channel \<Rightarrow> new_api_error + string \<times> nat"
  tq_validate :: "string \<Rightarrow> task_relay \<Rightarrow> task_err option \<times> string \<times> (string, rat) gomap"
                                          \<comment> \<open>\<^verbatim>\<open>ValidateRequestAndSetAction\<close>: error, action, other ratios\<close>
  tq_fl :: "rat \<Rightarrow> rat"
  tq_settings :: ratio_settings
  tq_patches :: "string list"             \<comment> \<open>\<^verbatim>\<open>TaskPricePatches\<close>\<close>
  tq_build :: "task_relay \<Rightarrow> (string \<times> (string, rat) gomap) option"   \<comment> \<open>\<^verbatim>\<open>BuildRequestBody\<close>, which may write the last two again\<close>
  tq_do :: "int option option"            \<comment> \<open>no answer, or an answer with its status, or neither error nor answer\<close>
  tq_response :: "task_err + string \<times> string"   \<comment> \<open>\<^verbatim>\<open>DoResponse\<close>: the upstream's id and the data\<close>
  tq_insert_ok :: bool
  tq_new_id :: int
  tq_now :: int
  tq_bill :: bill_env

section \<open>Submission\<close>

definition InitChannelMeta :: "task_env \<Rightarrow> task_relay \<Rightarrow> task_relay" where
  "InitChannelMeta env st =
     (let cx = rs_ctx (tr_rs st)
      in st\<lparr>tr_rs := (tr_rs st)\<lparr>rs_meta := True\<rparr>, tr_ChannelId := cc_Id cx, tr_ChannelType := cc_Type cx,
            tr_ApiKey := cc_Key cx, tr_UpstreamModelName := tq_model env\<rparr>)"

datatype task_adaptor = TaSuno | TaMusic | TaAli | TaKling | TaJimeng | TaVertex | TaVidu | TaDoubao | TaSora | TaGemini | TaHailuo

definition type_adaptor :: "int \<Rightarrow> task_adaptor option" where
  "type_adaptor channelType =
     (if channelType = 17 then Some TaAli
      else if channelType = 50 then Some TaKling
      else if channelType = 51 then Some TaJimeng
      else if channelType = ChannelTypeVertexAi then Some TaVertex
      else if channelType = 52 then Some TaVidu
      else if channelType = 54 then Some TaDoubao
      else if channelType = 55 \<or> channelType = 1 then Some TaSora
      else if channelType = ChannelTypeGemini then Some TaGemini
      else if channelType = 35 then Some TaHailuo
      else None)"

definition GetTaskAdaptor :: "string \<Rightarrow> task_adaptor option" where
  "GetTaskAdaptor platform =
     (if platform = ''suno'' then Some TaSuno
      else if platform = ''music'' then Some TaMusic
      else (case go_parse_int platform of Some channelType \<Rightarrow> type_adaptor channelType | None \<Rightarrow> None))"

definition GetTaskPlatform :: "task_env \<Rightarrow> task_relay \<Rightarrow> string" where
  "GetTaskPlatform env st =
     (let channelType = cc_Type (rs_ctx (tr_rs st))
      in if 0 < channelType then go_itoa channelType else tq_platform env)"

text \<open>The model of the origin task where the request has none; the data's model also gives the platform.\<close>

definition origin_model :: "task_env \<Rightarrow> task \<Rightarrow> string \<Rightarrow> string \<Rightarrow> string \<times> string" where
  "origin_model env t platform name =
     (if name \<noteq> [] then (name, platform)
      else if ts_OriginModelName t \<noteq> [] then (ts_OriginModelName t, platform)
      else if ts_UpstreamModelName t \<noteq> [] then (ts_UpstreamModelName t, platform)
      else (case tq_field env (ts_Data t) ''model'' of
              Some m \<Rightarrow> if m \<noteq> [] then (m, ts_Platform t) else (name, platform)
            | None \<Rightarrow> (name, platform)))"

definition remix_ratios :: "task_env \<Rightarrow> task \<Rightarrow> (string, rat) gomap \<Rightarrow> (string, rat) gomap" where
  "remix_ratios env t ratios =
     (let str = \<lambda>f. case tq_field env (ts_Data t) f of None \<Rightarrow> [] | Some s \<Rightarrow> s;
          n = atoi_value (str ''seconds''); seconds = (if n \<le> 0 then 4 else n);
          sz = str ''size''
      in gm_put (gm_put ratios ''seconds'' (of_int seconds)) ''size''
           (if sz = ''1792x1024'' \<or> sz = ''1024x1792'' then tq_fl env (1666667 / 1000000) else 1))"

text \<open>The channel of the origin task, where it is not the one selected.\<close>

definition origin_channel :: "task_env \<Rightarrow> task \<Rightarrow> string \<Rightarrow> task_relay \<Rightarrow> task_err + (string \<times> task_relay)" where
  "origin_channel env t platform st =
     (if ts_ChannelId t = tr_ChannelId st then Inr (platform, st)
      else (case tq_channel env (ts_ChannelId t) of
              None \<Rightarrow> Inl (local_err ''channel_not_found'' 400)
            | Some ch \<Rightarrow>
                if ch_Status ch \<noteq> ChannelStatusEnabled then Inl (local_err ''task_channel_disable'' 400)
                else (case tq_key env ch of
                        Inl e \<Rightarrow> Inl (upstream_err ''channel_no_available_key'' (ae_StatusCode e))
                      | Inr (key, idx) \<Rightarrow>
                          (let rs = tr_rs st
                           in Inr (ts_Platform t, st\<lparr>
                                tr_rs := rs\<lparr>rs_ctx := (rs_ctx rs)\<lparr>cc_Key := key, cc_Type := ch_Type ch, cc_Id := ts_ChannelId t\<rparr>\<rparr>,
                                tr_ChannelId := ts_ChannelId t, tr_ChannelType := ch_Type ch, tr_ApiKey := key\<rparr>)))))"

definition task_origin :: "task_env \<Rightarrow> task_relay \<Rightarrow> task_err + (string \<times> task_relay)" where
  "task_origin env st =
     (if tr_OriginTaskID st = [] then Inr (tq_platform env, st)
      else (case GetByTaskId (tq_read_ok env) (ri_UserId (rs_info (tr_rs st))) (tr_OriginTaskID st) (tr_rows st) of
              None \<Rightarrow> Inl (upstream_err ''get_origin_task_failed'' 500)
            | Some None \<Rightarrow> Inl (local_err ''task_not_exist'' 400)
            | Some (Some t) \<Rightarrow>
                (case origin_model env t (tq_platform env) (tr_OriginModelName st) of (name, platform) \<Rightarrow>
                  (case origin_channel env t platform (st\<lparr>tr_OriginModelName := name\<rparr>) of
                     Inl e \<Rightarrow> Inl e
                   | Inr (platform1, st1) \<Rightarrow>
                       Inr (platform1, if tr_Action st1 = TaskActionRemix
                                       then st1\<lparr>tr_OtherRatios := remix_ratios env t (tr_OtherRatios st1)\<rparr> else st1)))))"

text \<open>The price: a map's ratios are multiplied in the order of the list.\<close>

definition task_model :: "string \<Rightarrow> task_relay \<Rightarrow> string" where
  "task_model platform st =
     (if tr_OriginModelName st = [] then CoverTaskActionToModelName platform (tr_Action st) else tr_OriginModelName st)"

definition task_quota :: "task_env \<Rightarrow> string \<Rightarrow> task_relay \<Rightarrow> int" where
  "task_quota env platform st =
     (let fl = tq_fl env; rs = tq_settings env; name = task_model platform st;
          (price, success) = GetModelPrice rs name;
          modelPrice = (if success then price
            else (case gm_get (st_defaultModelPrice rs) name of None \<Rightarrow> fl (1 / 10) | Some p \<Rightarrow> p));
          using = rs_UsingGroup (tr_rs st);
          (userGroupRatio, hasUserGroupRatio) = GetGroupGroupRatio rs (tr_UserGroup st) using;
          ratio0 = fl (modelPrice * (if hasUserGroupRatio then userGroupRatio else GetGroupRatio rs using));
          ratio = (if name \<in> set (tq_patches env) then ratio0
                   else fold (\<lambda>(k, ra) r. if ra \<noteq> 1 then fl (r * ra) else r) (tr_OtherRatios st) ratio0)
      in trunc (fl (ratio * 500000)))"

definition InitTask :: "task_env \<Rightarrow> string \<Rightarrow> task_relay \<Rightarrow> task" where
  "InitTask env platform st =
     \<lparr>ts_ID = tq_new_id env, ts_TaskID = [], ts_Platform = platform, ts_UserId = ri_UserId (rs_info (tr_rs st)),
      ts_Group = rs_UsingGroup (tr_rs st), ts_ChannelId = tr_ChannelId st, ts_Quota = 0, ts_Action = [],
      ts_Status = TaskStatusNotStart, ts_FailReason = [], ts_SubmitTime = tq_now env, ts_StartTime = 0, ts_FinishTime = 0,
      ts_Progress = ''0%'', ts_OriginModelName = tr_OriginModelName st, ts_UpstreamModelName = tr_UpstreamModelName st,
      ts_PrivateKey = (if tr_ChannelType st = ChannelTypeGemini then tr_ApiKey st else []), ts_Data = []\<rparr>"

text \<open>The deferred charge.\<close>

definition task_charge_price :: "task_env \<Rightarrow> int \<Rightarrow> task_relay \<Rightarrow> task_relay" where
  "task_charge_price env quota st =
     (let rs = tr_rs st;
          (ok, ri, b) = PostConsumeQuota (tq_bill env) quota 0 True (rs_info rs) (rs_bill rs);
          b1 = (if quota \<noteq> 0 then record_usage (tq_bill env) (tr_ChannelId st) quota ri b else b)
      in st\<lparr>tr_rs := rs\<lparr>rs_info := ri, rs_bill := b1\<rparr>\<rparr>)"

text \<open>From the answer of the upstream on.\<close>

definition task_accept :: "task_env \<Rightarrow> string \<Rightarrow> int \<Rightarrow> task_relay \<Rightarrow> task_err option \<times> task_relay" where
  "task_accept env platform quota st =
     (case tq_response env of
        Inl e \<Rightarrow> (Some e, st)
      | Inr (taskID, taskData) \<Rightarrow>
          (let st1 = st\<lparr>tr_ConsumeQuota := True\<rparr>;
               t = (InitTask env platform st1)\<lparr>ts_TaskID := taskID, ts_Quota := quota, ts_Data := taskData, ts_Action := tr_Action st1\<rparr>
           in if \<not> tq_insert_ok env then (Some (upstream_err ''insert_task_failed'' 500), st1)
              else (None, task_charge_price env quota (st1\<lparr>tr_rows := gm_put (tr_rows st1) (ts_ID t) t\<rparr>))))"

definition task_ask :: "task_env \<Rightarrow> string \<Rightarrow> int \<Rightarrow> task_relay \<Rightarrow> task_err option \<times> task_relay" where
  "task_ask env platform quota st =
     (case GetUserQuota (tq_bill env) (ri_UserId (rs_info (tr_rs st))) (bs_ledger (rs_bill (tr_rs st))) of
        None \<Rightarrow> (Some (upstream_err ''get_user_quota_failed'' 500), st)
      | Some userQuota \<Rightarrow>
          if userQuota - quota < 0 then (Some (local_err ''quota_not_enough'' 403), st)
          else (case tq_build env st of
                  None \<Rightarrow> (Some (upstream_err ''build_request_failed'' 500), st)
                | Some (action, ratios) \<Rightarrow>
                    (let st1 = st\<lparr>tr_Action := action, tr_OtherRatios := ratios\<rparr>
                     in case tq_do env of
                          None \<Rightarrow> (Some (upstream_err ''do_request_failed'' 500), st1)
                        | Some None \<Rightarrow> task_accept env platform quota st1
                        | Some (Some status) \<Rightarrow>
                            if status \<noteq> 200 then (Some (upstream_err ''fail_to_fetch_task'' status), st1)
                            else task_accept env platform quota st1)))"

text \<open>Up to the price: the channel, the platform and the adaptor's view of the request.\<close>

definition task_prepare :: "task_env \<Rightarrow> task_relay \<Rightarrow> (task_err \<times> task_relay) + (string \<times> task_relay)" where
  "task_prepare env st0 =
     (let st1 = InitChannelMeta env st0;
          st2 = (if go_contains (tq_path env) ''/v1/videos/'' \<and> go_has_suffix (tq_path env) ''/remix''
                 then st1\<lparr>tr_Action := TaskActionRemix\<rparr> else st1);
          remix = (tr_Action st2 = TaskActionRemix);
          st3 = (if remix then st2\<lparr>tr_OriginTaskID := tq_video_id env\<rparr> else st2)
      in if remix \<and> go_trim_space (tq_video_id env) = [] then Inl (local_err ''invalid_request'' 400, st2)
         else (case task_origin env st3 of
                 Inl e \<Rightarrow> Inl (e, st3)
               | Inr (platform0, st4) \<Rightarrow>
                   (let platform = (if platform0 = [] then GetTaskPlatform env st4 else platform0);
                        st5 = InitChannelMeta env st4
                    in if GetTaskAdaptor platform = None then Inl (local_err ''invalid_api_platform'' 400, st5)
                       else (case tq_validate env platform st5 of (err, action, ratios) \<Rightarrow>
                               (let st6 = st5\<lparr>tr_Action := action, tr_OtherRatios := ratios\<rparr>
                                in case err of Some e \<Rightarrow> Inl (e, st6) | None \<Rightarrow> Inr (platform, st6))))))"

definition RelayTaskSubmit :: "task_env \<Rightarrow> task_relay \<Rightarrow> task_err option \<times> task_relay" where
  "RelayTaskSubmit env st =
     (case task_prepare env st of
        Inl (e, st') \<Rightarrow> (Some e, st')
      | Inr (platform, st') \<Rightarrow> task_ask env platform (task_quota env platform st') st')"

text \<open>
  The adaptor of Vertex AI: a submission leaves the ratios alone; the number of samples asked for
  becomes a ratio when the body is built. \<open>None\<close> is a request without one.
\<close>

definition vertex_BuildRequestBody :: "rat option \<Rightarrow> task_relay \<Rightarrow> (string \<times> (string, rat) gomap) option" where
  "vertex_BuildRequestBody sampleCount st =
     (let n = (case sampleCount of None \<Rightarrow> 1 | Some f \<Rightarrow> trunc f)
      in if n \<le> 0 then None else Some (tr_Action st, [(''sampleCount'', of_int n)]))"

section \<open>Fetching\<close>

datatype fetch_reply =
    ReplyTasks "task list"
  | ReplyVideo string string string string      \<comment> \<open>format, status, id, url\<close>
  | ReplyConverted string                       \<comment> \<open>\<^verbatim>\<open>ConvertToOpenAIVideo\<close>\<close>

record fetch_env =
  fe_user :: int
  fe_id :: string
  fe_ids :: "string list"
  fe_read_ok :: bool
  fe_save_ok :: bool
  fe_openai_path :: bool                    \<comment> \<open>the path begins with \<^verbatim>\<open>/v1/videos/\<close>\<close>
  fe_channel :: "int \<Rightarrow> channel option"
  fe_result :: "task_info option"           \<comment> \<open>the parsed answer of the upstream\<close>
  fe_format :: string
  fe_convert :: "task \<Rightarrow> (task_err + string) option"   \<comment> \<open>\<open>None\<close>: the adaptor does not convert\<close>

definition GetByTaskIds :: "bool \<Rightarrow> int \<Rightarrow> string list \<Rightarrow> task_rows \<Rightarrow> task list option" where
  "GetByTaskIds ok userId taskIds rows =
     (if taskIds = [] then Some []
      else if ok then Some (filter (\<lambda>t. ts_UserId t = userId \<and> ts_TaskID t \<in> set taskIds) (map snd rows)) else None)"

definition sunoFetch :: "fetch_env \<Rightarrow> task_rows \<Rightarrow> task_err + fetch_reply" where
  "sunoFetch env rows =
     (case GetByTaskIds (fe_read_ok env) (fe_user env) (fe_ids env) rows of
        None \<Rightarrow> Inl (upstream_err ''get_tasks_failed'' 500) | Some ts \<Rightarrow> Inr (ReplyTasks ts))"

text \<open>The lookup that the fetches of one task share; \<open>status\<close> is that of a missing task.\<close>

definition fetch_task :: "int \<Rightarrow> fetch_env \<Rightarrow> task_rows \<Rightarrow> task_err + task" where
  "fetch_task status env rows =
     (case GetByTaskId (fe_read_ok env) (fe_user env) (fe_id env) rows of
        None \<Rightarrow> Inl (upstream_err ''get_task_failed'' 500)
      | Some None \<Rightarrow> Inl (local_err ''task_not_exist'' status)
      | Some (Some t) \<Rightarrow> Inr t)"

definition sunoFetchByID :: "fetch_env \<Rightarrow> task_rows \<Rightarrow> task_err + fetch_reply" where
  "sunoFetchByID env rows = map_sum id (\<lambda>t. ReplyTasks [t]) (fetch_task 400 env rows)"

text \<open>A live query of the upstream, for two types of channels only, and what is written back.\<close>

definition video_refresh :: "fetch_env \<Rightarrow> task \<Rightarrow> task option" where
  "video_refresh env t =
     (case fe_channel env (ts_ChannelId t) of
        None \<Rightarrow> None
      | Some ch \<Rightarrow>
          if ch_Type ch \<noteq> ChannelTypeVertexAi \<and> ch_Type ch \<noteq> ChannelTypeGemini then None
          else map_option (\<lambda>ti. t\<lparr>
                 ts_Status := (if ti_Status ti \<noteq> [] then ti_Status ti else ts_Status t),
                 ts_Progress := (if ti_Progress ti \<noteq> [] then ti_Progress ti else ts_Progress t),
                 ts_FailReason := (if ti_Url ti \<noteq> [] \<and> \<not> go_has_prefix (ti_Url ti) ''data:'' then ti_Url ti else ts_FailReason t)\<rparr>)
               (fe_result env))"

definition video_status :: "string \<Rightarrow> string" where
  "video_status status =
     (if status = TaskStatusSuccess then ''succeeded''
      else if status = TaskStatusFailure then ''failed''
      else if status = TaskStatusQueued \<or> status = TaskStatusSubmitted then ''queued''
      else ''processing'')"

definition videoFetchByID :: "fetch_env \<Rightarrow> task_rows \<Rightarrow> (task_err + fetch_reply) \<times> task_rows" where
  "videoFetchByID env rows =
     (case fetch_task 400 env rows of
        Inl e \<Rightarrow> (Inl e, rows)
      | Inr t0 \<Rightarrow>
          (let refreshed = video_refresh env t0;
               t = (case refreshed of None \<Rightarrow> t0 | Some t \<Rightarrow> t);
               rows1 = (if refreshed = None then rows else Task_Update (fe_save_ok env) t rows)
           in (if refreshed \<noteq> None \<and> \<not> fe_openai_path env
               then Inr (ReplyVideo (fe_format env) (video_status (ts_Status t)) (ts_TaskID t) (ts_FailReason t))
               else if fe_openai_path env then
                 (if GetTaskAdaptor (ts_Platform t) = None then Inl (local_err ''invalid_channel_id'' 400)
                  else (case fe_convert env t of
                          None \<Rightarrow> Inl (local_err ''not_implemented'' 501)
                        | Some (Inl e) \<Rightarrow> Inl e
                        | Some (Inr body) \<Rightarrow> Inr (ReplyConverted body)))
               else Inr (ReplyTasks [t]), rows1)))"

text \<open>The status and progress of a music task; \<open>pct\<close> is the number scanned from its progress.\<close>

definition music_status :: "string \<Rightarrow> int option \<Rightarrow> string \<times> int" where
  "music_status status pct =
     (let (s, p) = (if status = TaskStatusSuccess then (''completed'', 100)
                    else if status = TaskStatusFailure then (''failed'', 0)
                    else if status \<in> {TaskStatusQueued, TaskStatusSubmitted, TaskStatusNotStart} then (''queued'', 0)
                    else (''in_progress'', 50))
      in (s, case pct of None \<Rightarrow> p | Some n \<Rightarrow> n))"

section \<open>Retries\<close>

text \<open>A request either fetches or submits; a fetch may change rows.\<close>

definition taskRelayHandler ::
    "relay_mode \<Rightarrow> (task_rows \<Rightarrow> task_err option \<times> task_rows) \<Rightarrow> task_env \<Rightarrow> task_relay \<Rightarrow> task_err option \<times> task_relay" where
  "taskRelayHandler mode fetch env st =
     (if taskRelayHandler_fetches mode
      then (case fetch (tr_rows st) of (err, rows) \<Rightarrow> (err, st\<lparr>tr_rows := rows\<rparr>))
      else RelayTaskSubmit env st)"

text \<open>
  The loop of \<^verbatim>\<open>RelayTask\<close>; \<open>fetch k\<close> and \<open>env k\<close> belong to the \<open>k\<close>-th attempt. The flag of the result is
  true for a panic of the selection.
\<close>

definition task_retries :: "relay_env \<Rightarrow> task_err option \<Rightarrow> task_relay \<Rightarrow> bool" where
  "task_retries renv err st \<longleftrightarrow>
     shouldRetryTaskRelay (re_specific renv) (map_option snd err) (re_retryTimes renv) \<and>
     GetRetry (rs_param (tr_rs st)) < re_retryTimes renv"

text \<open>One turn up to the increase of the counter: \<open>Inl\<close> leaves the loop.\<close>

definition task_turn ::
    "relay_env \<Rightarrow> relay_mode \<Rightarrow> (nat \<Rightarrow> task_rows \<Rightarrow> task_err option \<times> task_rows) \<Rightarrow> (nat \<Rightarrow> task_env) \<Rightarrow> task_relay
     \<Rightarrow> (bool \<times> task_err option \<times> task_relay) + (task_err option \<times> task_relay)" where
  "task_turn renv mode fetch env st =
     (let k = rs_attempts (tr_rs st)
      in case getChannel renv k ((tr_rs st)\<lparr>rs_attempts := Suc k\<rparr>) of
           (None, rs) \<Rightarrow> Inl (True, None, st\<lparr>tr_rs := rs\<rparr>)
         | (Some (Inl e), rs) \<Rightarrow> Inl (False, Some (local_err ''get_channel_failed'' 500), st\<lparr>tr_rs := rs\<rparr>)
         | (Some (Inr c), rs) \<Rightarrow>
             (let st1 = st\<lparr>tr_rs := addUsedChannel (ch_Id c) rs\<rparr>
              in case re_body renv k of
                   Some (large, m) \<Rightarrow> Inl (False, Some (local_err ''read_request_body_failed'' (if large then 413 else 400)), st1)
                 | None \<Rightarrow>
                     (case taskRelayHandler mode (fetch k) (env k) st1 of
                        (err, st2) \<Rightarrow> Inr (err, st2\<lparr>tr_rs := (tr_rs st2)\<lparr>rs_param := IncreaseRetry (rs_param (tr_rs st2))\<rparr>\<rparr>))))"

partial_function (option) task_loop ::
    "relay_env \<Rightarrow> relay_mode \<Rightarrow> (nat \<Rightarrow> task_rows \<Rightarrow> task_err option \<times> task_rows) \<Rightarrow> (nat \<Rightarrow> task_env) \<Rightarrow> task_err option \<Rightarrow> task_relay
     \<Rightarrow> (bool \<times> task_err option \<times> task_relay) option" where
  "task_loop renv mode fetch env err st =
     (if task_retries renv err st
      then (case task_turn renv mode fetch env st of
              Inl r \<Rightarrow> Some r
            | Inr (err', st') \<Rightarrow> task_loop renv mode fetch env err' st')
      else Some (False, err, st))"

definition RelayTask ::
    "relay_env \<Rightarrow> relay_mode \<Rightarrow> (nat \<Rightarrow> task_rows \<Rightarrow> task_err option \<times> task_rows) \<Rightarrow> (nat \<Rightarrow> task_env) \<Rightarrow> task_relay
     \<Rightarrow> (bool \<times> task_err option \<times> task_relay) option" where
  "RelayTask renv mode fetch env st =
     (let rs = (tr_rs st)\<lparr>rs_used := [cc_Id (rs_ctx (tr_rs st))]\<rparr>;
          (err, st1) = taskRelayHandler mode (fetch 0) (env 0) (st\<lparr>tr_rs := rs\<rparr>)
      in task_loop renv mode fetch env err
           (st1\<lparr>tr_rs := (tr_rs st1)\<lparr>rs_attempts := 1,
              rs_param := (rs_param (tr_rs st1))\<lparr>rp_ModelName := tr_OriginModelName st1, rp_Retry := Some 0, rp_resetNextTry := False\<rparr>\<rparr>\<rparr>))"

section \<open>Lemmas\<close>

text \<open>Nothing that costs, and nothing the loop looks at, has changed.\<close>

definition kept :: "task_relay \<Rightarrow> task_relay \<Rightarrow> bool" where
  "kept st st' \<longleftrightarrow> tr_rows st' = tr_rows st \<and> rs_info (tr_rs st') = rs_info (tr_rs st) \<and> rs_bill (tr_rs st') = rs_bill (tr_rs st) \<and>
     rs_param (tr_rs st') = rs_param (tr_rs st) \<and> rs_sel (tr_rs st') = rs_sel (tr_rs st) \<and> rs_attempts (tr_rs st') = rs_attempts (tr_rs st)"

lemma kept_refl [simp]: "kept st st"
  by (simp add: kept_def)

lemma kept_trans [trans]: "kept a b \<Longrightarrow> kept b c \<Longrightarrow> kept a c"
  by (simp add: kept_def)

lemma kept_fields [simp]:
  "kept a (b\<lparr>tr_Action := x\<rparr>) = kept a b" "kept a (b\<lparr>tr_OtherRatios := y\<rparr>) = kept a b" "kept a (b\<lparr>tr_OriginTaskID := z\<rparr>) = kept a b"
  "kept a (b\<lparr>tr_OriginModelName := w\<rparr>) = kept a b" "kept a (b\<lparr>tr_ConsumeQuota := v\<rparr>) = kept a b" "kept a (InitChannelMeta env b) = kept a b"
  by (simp_all add: kept_def InitChannelMeta_def Let_def)

lemma origin_channel_kept: "origin_channel env t p st = Inr (q, st') \<Longrightarrow> kept st st'"
  by (auto simp: origin_channel_def kept_def Let_def split: if_splits option.splits sum.splits)

lemma task_origin_kept:
  assumes "task_origin env st = Inr (p, st')" shows "kept st st'"
proof (cases "tr_OriginTaskID st = []")
  case True
  then show ?thesis using assms by (simp add: task_origin_def)
next
  case False
  then obtain t name q r st1 where o: "origin_model env t (tq_platform env) (tr_OriginModelName st) = (name, q)"
    "origin_channel env t q (st\<lparr>tr_OriginModelName := name\<rparr>) = Inr (r, st1)"
    "st' = (if tr_Action st1 = TaskActionRemix then st1\<lparr>tr_OtherRatios := remix_ratios env t (tr_OtherRatios st1)\<rparr> else st1)"
    using assms by (auto simp: task_origin_def split: option.splits prod.splits sum.splits)
  have "kept (st\<lparr>tr_OriginModelName := name\<rparr>) st1" by (rule origin_channel_kept [OF o(2)])
  then show ?thesis using o(3) by (auto simp: kept_def)
qed

text \<open>What a submission adds: the row of the task and the charge of its quota.\<close>

definition submitted :: "task_env \<Rightarrow> task \<Rightarrow> task_relay \<Rightarrow> task_relay \<Rightarrow> bool" where
  "submitted env t st st' \<longleftrightarrow>
     ts_ID t = tq_new_id env \<and> ts_UserId t = ri_UserId (rs_info (tr_rs st)) \<and> ts_Status t = TaskStatusNotStart \<and> ts_Progress t = ''0%'' \<and>
     tr_rows st' = gm_put (tr_rows st) (tq_new_id env) t \<and>
     (\<exists>ok ri b. PostConsumeQuota (tq_bill env) (ts_Quota t) 0 True (rs_info (tr_rs st)) (rs_bill (tr_rs st)) = (ok, ri, b) \<and>
        rs_info (tr_rs st') = ri \<and> user_quota (bs_ledger (rs_bill (tr_rs st'))) = user_quota (bs_ledger b) \<and>
        token_quota (bs_ledger (rs_bill (tr_rs st'))) = token_quota (bs_ledger b)) \<and>
     rs_param (tr_rs st') = rs_param (tr_rs st) \<and> rs_sel (tr_rs st') = rs_sel (tr_rs st) \<and> rs_attempts (tr_rs st') = rs_attempts (tr_rs st)"

lemma submitted_kept: "submitted env t a b \<Longrightarrow> kept st a \<Longrightarrow> submitted env t st b"
  by (simp add: submitted_def kept_def)

lemma record_usage_token: "token_quota (bs_ledger (record_usage env ch q ri st)) = token_quota (bs_ledger st)"
  by (simp add: record_usage_def usage_quota)

lemma task_charge_price_submitted:
  assumes "st' = task_charge_price env q (st\<lparr>tr_rows := gm_put (tr_rows st) (tq_new_id env) t\<rparr>)"
    and "ts_ID t = tq_new_id env" "ts_UserId t = ri_UserId (rs_info (tr_rs st))" "ts_Status t = TaskStatusNotStart" "ts_Progress t = ''0%''" "ts_Quota t = q"
  shows "submitted env t st st'"
proof -
  obtain ok ri b where p: "PostConsumeQuota (tq_bill env) q 0 True (rs_info (tr_rs st)) (rs_bill (tr_rs st)) = (ok, ri, b)"
    by (metis surj_pair)
  show ?thesis using assms p by (simp add: submitted_def task_charge_price_def record_usage_quota record_usage_token)
qed

lemma task_accept_result:
  assumes "task_accept env p q st = (err, st')"
  shows "(err \<noteq> None \<longrightarrow> kept st st') \<and> (err = None \<longrightarrow> (\<exists>t. submitted env t st st' \<and> ts_Quota t = q))"
proof (cases "tq_response env")
  case (Inl e)
  then show ?thesis using assms by (auto simp: task_accept_def)
next
  case (Inr r)
  obtain i d where r: "r = (i, d)" by fastforce
  let ?st1 = "st\<lparr>tr_ConsumeQuota := True\<rparr>"
  let ?t = "(InitTask env p ?st1)\<lparr>ts_TaskID := i, ts_Quota := q, ts_Data := d, ts_Action := tr_Action ?st1\<rparr>"
  show ?thesis
  proof (cases "tq_insert_ok env")
    case False
    then show ?thesis using assms Inr r by (auto simp: task_accept_def)
  next
    case True
    then have "err = None" "st' = task_charge_price env q (?st1\<lparr>tr_rows := gm_put (tr_rows ?st1) (tq_new_id env) ?t\<rparr>)"
      using assms Inr r by (auto simp: task_accept_def InitTask_def Let_def)
    then have "submitted env ?t ?st1 st'" by (intro task_charge_price_submitted) (simp_all add: InitTask_def)
    then show ?thesis using \<open>err = None\<close> submitted_kept [of env ?t ?st1 st' st] by (intro conjI impI exI [of _ ?t]) simp_all
  qed
qed

lemma task_ask_result:
  assumes "task_ask env p q st = (err, st')"
  shows "(err \<noteq> None \<longrightarrow> kept st st') \<and> (err = None \<longrightarrow> (\<exists>t. submitted env t st st' \<and> ts_Quota t = q))"
proof -
  have "err \<noteq> None \<and> kept st st' \<or> (\<exists>a r. task_accept env p q (st\<lparr>tr_Action := a, tr_OtherRatios := r\<rparr>) = (err, st'))"
    using assms by (auto simp: task_ask_def Let_def split: option.splits if_splits prod.splits)
  then consider "err \<noteq> None" "kept st st'" | st1 where "kept st st1" "task_accept env p q st1 = (err, st')"
    using kept_fields(1,2) kept_refl by metis
  then show ?thesis
  proof cases
    case 2
    then show ?thesis using task_accept_result [OF 2(2)] submitted_kept [OF _ 2(1)] kept_trans [OF 2(1)] by blast
  qed auto
qed

lemma task_prepare_kept:
  assumes "task_prepare env st = r"
  shows "kept st (case r of Inl (e, st') \<Rightarrow> st' | Inr (p, st') \<Rightarrow> st')"
proof -
  let ?st1 = "InitChannelMeta env st"
  define st2 where "st2 = (if go_contains (tq_path env) ''/v1/videos/'' \<and> go_has_suffix (tq_path env) ''/remix''
                 then ?st1\<lparr>tr_Action := TaskActionRemix\<rparr> else ?st1)"
  define remix where "remix = (tr_Action st2 = TaskActionRemix)"
  define st3 where "st3 = (if remix then st2\<lparr>tr_OriginTaskID := tq_video_id env\<rparr> else st2)"
  have k: "kept st st2" "kept st st3" by (simp_all add: st2_def st3_def)
  note def = task_prepare_def [of env st, unfolded Let_def, folded st2_def, folded remix_def, folded st3_def]
  show ?thesis
  proof (cases "remix \<and> go_trim_space (tq_video_id env) = []")
    case True
    then show ?thesis using assms k by (auto simp: def)
  next
    case False
    show ?thesis
    proof (cases "task_origin env st3")
      case (Inl e)
      then show ?thesis using assms k False by (auto simp: def)
    next
      case (Inr o4)
      obtain p0 st4 where r: "o4 = (p0, st4)" by fastforce
      have "kept st st4" using kept_trans [OF k(2) task_origin_kept] Inr r by simp
      then show ?thesis using assms False Inr r by (auto simp: def split: if_splits prod.splits option.splits)
    qed
  qed
qed

lemma RelayTaskSubmit_result:
  assumes "RelayTaskSubmit env st = (err, st')"
  shows "(err \<noteq> None \<longrightarrow> kept st st') \<and> (err = None \<longrightarrow> (\<exists>t. submitted env t st st'))"
proof (cases "task_prepare env st")
  case (Inl r)
  then show ?thesis using task_prepare_kept [OF Inl] assms by (cases r) (auto simp: RelayTaskSubmit_def)
next
  case (Inr r)
  obtain p st6 where r: "r = (p, st6)" by fastforce
  have k: "kept st st6" using task_prepare_kept [OF Inr] r by simp
  have "task_ask env p (task_quota env p st6) st6 = (err, st')" using assms Inr r by (simp add: RelayTaskSubmit_def)
  from task_ask_result [OF this] show ?thesis using submitted_kept [OF _ k] kept_trans [OF k] by blast
qed

subsection \<open>The loop\<close>

lemma handler_loop_state:
  assumes "taskRelayHandler mode fetch env st = (err, st')"
  shows "rs_param (tr_rs st') = rs_param (tr_rs st) \<and> rs_sel (tr_rs st') = rs_sel (tr_rs st) \<and> rs_attempts (tr_rs st') = rs_attempts (tr_rs st)"
proof (cases "taskRelayHandler_fetches mode")
  case True
  then show ?thesis using assms by (auto simp: taskRelayHandler_def split: prod.splits)
next
  case False
  then have "RelayTaskSubmit env st = (err, st')" using assms by (simp add: taskRelayHandler_def)
  from RelayTaskSubmit_result [OF this] show ?thesis by (cases err) (auto simp: kept_def submitted_def)
qed

lemma getChannel_money:
  "getChannel env k s = (x, s') \<Longrightarrow> rs_info s' = rs_info s \<and> rs_bill s' = rs_bill s \<and> rs_attempts s' = rs_attempts s"
  by (auto simp: getChannel_def Let_def split: prod.splits res.splits option.splits if_splits)

text \<open>A turn that goes on: the channel it selected, and the attempt that was made on it.\<close>

lemma task_turn_goes_on:
  assumes "task_turn renv mode fetch env st = Inr (err, st')"
  obtains c rs st2 where "getChannel renv (rs_attempts (tr_rs st)) ((tr_rs st)\<lparr>rs_attempts := Suc (rs_attempts (tr_rs st))\<rparr>) = (Some (Inr c), rs)"
    "taskRelayHandler mode (fetch (rs_attempts (tr_rs st))) (env (rs_attempts (tr_rs st))) (st\<lparr>tr_rs := addUsedChannel (ch_Id c) rs\<rparr>) = (err, st2)"
    "st' = st2\<lparr>tr_rs := (tr_rs st2)\<lparr>rs_param := IncreaseRetry (rs_param (tr_rs st2))\<rparr>\<rparr>"
proof -
  let ?k = "rs_attempts (tr_rs st)"
  obtain x rs where g: "getChannel renv ?k ((tr_rs st)\<lparr>rs_attempts := Suc ?k\<rparr>) = (x, rs)" by fastforce
  obtain c where c: "x = Some (Inr c)" using assms g by (auto simp: task_turn_def Let_def split: option.splits sum.splits)
  have b: "re_body renv ?k = None" using assms g c by (auto simp: task_turn_def Let_def split: option.splits)
  obtain e st2 where h: "taskRelayHandler mode (fetch ?k) (env ?k) (st\<lparr>tr_rs := addUsedChannel (ch_Id c) rs\<rparr>) = (e, st2)" by fastforce
  have "e = err" "st' = st2\<lparr>tr_rs := (tr_rs st2)\<lparr>rs_param := IncreaseRetry (rs_param (tr_rs st2))\<rparr>\<rparr>"
    using assms g c b h by (simp_all add: task_turn_def Let_def)
  then show ?thesis using that g c h by simp
qed

lemma task_turn_progress:
  assumes "task_turn renv mode fetch env st = Inr (err, st')" "GetRetry (rs_param (tr_rs st)) \<le> re_retryTimes renv"
  shows "(tr_rs st', tr_rs st) \<in> measures [groups_left renv, turns_left renv]"
proof -
  let ?s = "(tr_rs st)\<lparr>rs_attempts := Suc (rs_attempts (tr_rs st))\<rparr>"
  obtain c rs st2 where g: "getChannel renv (rs_attempts (tr_rs st)) ?s = (Some (Inr c), rs)"
    "taskRelayHandler mode (fetch (rs_attempts (tr_rs st))) (env (rs_attempts (tr_rs st))) (st\<lparr>tr_rs := addUsedChannel (ch_Id c) rs\<rparr>) = (err, st2)"
    "st' = st2\<lparr>tr_rs := (tr_rs st2)\<lparr>rs_param := IncreaseRetry (rs_param (tr_rs st2))\<rparr>\<rparr>"
    by (rule task_turn_goes_on [OF assms(1)])
  have "rs_param (tr_rs st') = IncreaseRetry (rs_param rs)" "rs_sel (tr_rs st') = rs_sel rs"
    using handler_loop_state [OF g(2)] g(3) by (simp_all add: addUsedChannel_def)
  from getChannel_turn [OF g(1) this] assms(2) show ?thesis by (auto simp: groups_left_def turns_left_def)
qed

text \<open>Induction along the loop.\<close>

lemma task_loop_induct:
  assumes stop: "\<And>err st. \<not> task_retries renv err st \<Longrightarrow> P err st"
    and leave: "\<And>err st r. task_retries renv err st \<Longrightarrow> task_turn renv mode fetch env st = Inl r \<Longrightarrow> P err st"
    and turn: "\<And>err st err' st'. task_retries renv err st \<Longrightarrow> task_turn renv mode fetch env st = Inr (err', st') \<Longrightarrow> P err' st' \<Longrightarrow> P err st"
  shows "P err st"
proof (induction "tr_rs st" arbitrary: err st rule: wf_induct_rule [OF wf_measures [of "[groups_left renv, turns_left renv]"]])
  case (1 st err)
  show ?case
  proof (cases "task_retries renv err st")
    case False
    then show ?thesis by (rule stop)
  next
    case True
    then have le: "GetRetry (rs_param (tr_rs st)) \<le> re_retryTimes renv" by (simp add: task_retries_def)
    show ?thesis
    proof (cases "task_turn renv mode fetch env st")
      case (Inl r)
      then show ?thesis using leave True by blast
    next
      case (Inr r)
      then obtain err' st' where t: "task_turn renv mode fetch env st = Inr (err', st')" by (cases r) auto
      have "P err' st'" using 1 task_turn_progress [OF t le] by blast
      then show ?thesis by (rule turn [OF True t])
    qed
  qed
qed

lemma task_loop_total: "\<exists>r. task_loop renv mode fetch env err st = Some r"
proof (induction err st rule: task_loop_induct [of renv _ mode fetch env])
  case (1 err st)
  then show ?case by (subst task_loop.simps) auto
next
  case (2 err st r)
  then show ?case by (cases r) (subst task_loop.simps, simp)
next
  case (3 err st err' st')
  then show ?case by (subst task_loop.simps) simp
qed

text \<open>A request that submits moves money once, with the task it inserts, or not at all.\<close>

definition task_outcome :: "(nat \<Rightarrow> task_env) \<Rightarrow> bool \<Rightarrow> task_err option \<Rightarrow> task_relay \<Rightarrow> task_relay \<Rightarrow> bool" where
  "task_outcome env panic err st st' \<longleftrightarrow>
     (if panic \<or> err \<noteq> None then tr_rows st' = tr_rows st \<and> rs_info (tr_rs st') = rs_info (tr_rs st) \<and> rs_bill (tr_rs st') = rs_bill (tr_rs st)
      else (\<exists>k t a b. tr_rows a = tr_rows st \<and> rs_info (tr_rs a) = rs_info (tr_rs st) \<and> rs_bill (tr_rs a) = rs_bill (tr_rs st) \<and>
        tr_rows st' = tr_rows b \<and> rs_info (tr_rs st') = rs_info (tr_rs b) \<and> rs_bill (tr_rs st') = rs_bill (tr_rs b) \<and> submitted (env k) t a b))"

lemma submit_outcome:
  assumes "RelayTaskSubmit (env k) a = (err, b)" "tr_rows a = tr_rows st" "rs_info (tr_rs a) = rs_info (tr_rs st)" "rs_bill (tr_rs a) = rs_bill (tr_rs st)"
    and "tr_rows st' = tr_rows b" "rs_info (tr_rs st') = rs_info (tr_rs b)" "rs_bill (tr_rs st') = rs_bill (tr_rs b)"
  shows "task_outcome env False err st st'"
proof (cases err)
  case None
  then show ?thesis using RelayTaskSubmit_result [OF assms(1)] assms(2-) by (auto simp: task_outcome_def)
next
  case (Some e)
  then show ?thesis using RelayTaskSubmit_result [OF assms(1)] assms(2-) by (auto simp: task_outcome_def kept_def)
qed

lemma task_outcome_cong:
  "tr_rows a = tr_rows st \<Longrightarrow> rs_info (tr_rs a) = rs_info (tr_rs st) \<Longrightarrow> rs_bill (tr_rs a) = rs_bill (tr_rs st) \<Longrightarrow>
   task_outcome env p err a st' = task_outcome env p err st st'"
  by (simp add: task_outcome_def)

lemma task_loop_outcome:
  assumes "task_loop renv mode fetch env err st = Some (panic, err', st')" "\<not> taskRelayHandler_fetches mode" "task_outcome env False err st0 st"
  shows "task_outcome env panic err' st0 st'"
  using assms
proof (induction err st rule: task_loop_induct [of renv _ mode fetch env])
  case (1 err st)
  then show ?case by (simp add: task_loop.simps)
next
  case (2 err st r)
  let ?k = "rs_attempts (tr_rs st)"
  obtain e where e: "err = Some e" using 2(1) by (cases err) (auto simp: task_retries_def shouldRetryTaskRelay_def)
  obtain x rs where g: "getChannel renv ?k ((tr_rs st)\<lparr>rs_attempts := Suc ?k\<rparr>) = (x, rs)" by fastforce
  have r: "r = (panic, err', st')" using 2 by (simp add: task_loop.simps)
  have "(panic \<or> err' \<noteq> None) \<and> tr_rows st' = tr_rows st \<and> rs_info (tr_rs st') = rs_info (tr_rs st) \<and> rs_bill (tr_rs st') = rs_bill (tr_rs st)"
    using 2(2) getChannel_money [OF g] r g
    by (auto simp: task_turn_def Let_def addUsedChannel_def split: option.splits sum.splits prod.splits)
  then show ?case using 2(5) e by (auto simp: task_outcome_def)
next
  case (3 err st err1 st1)
  let ?k = "rs_attempts (tr_rs st)"
  obtain e where e: "err = Some e" using 3(1) by (cases err) (auto simp: task_retries_def shouldRetryTaskRelay_def)
  obtain c rs st2 where g: "getChannel renv ?k ((tr_rs st)\<lparr>rs_attempts := Suc ?k\<rparr>) = (Some (Inr c), rs)"
    "taskRelayHandler mode (fetch ?k) (env ?k) (st\<lparr>tr_rs := addUsedChannel (ch_Id c) rs\<rparr>) = (err1, st2)"
    "st1 = st2\<lparr>tr_rs := (tr_rs st2)\<lparr>rs_param := IncreaseRetry (rs_param (tr_rs st2))\<rparr>\<rparr>"
    by (rule task_turn_goes_on [OF 3(2)])
  have "RelayTaskSubmit (env ?k) (st\<lparr>tr_rs := addUsedChannel (ch_Id c) rs\<rparr>) = (err1, st2)"
    using g(2) 3(5) by (simp add: taskRelayHandler_def)
  then have "task_outcome env False err1 st st1"
    by (rule submit_outcome) (use getChannel_money [OF g(1)] g(3) in \<open>simp_all add: addUsedChannel_def\<close>)
  moreover have "tr_rows st = tr_rows st0" "rs_info (tr_rs st) = rs_info (tr_rs st0)" "rs_bill (tr_rs st) = rs_bill (tr_rs st0)"
    using 3(6) e by (simp_all add: task_outcome_def)
  ultimately have "task_outcome env False err1 st0 st1" using task_outcome_cong by metis
  then show ?case using 3(1-5) by (simp add: task_loop.simps)
qed

lemma RelayTask_outcome:
  assumes "RelayTask renv mode fetch env st = Some (panic, err, st')" "\<not> taskRelayHandler_fetches mode"
  shows "task_outcome env panic err st st'"
proof -
  let ?st = "st\<lparr>tr_rs := (tr_rs st)\<lparr>rs_used := [cc_Id (rs_ctx (tr_rs st))]\<rparr>\<rparr>"
  obtain e st1 where h: "RelayTaskSubmit (env 0) ?st = (e, st1)" by fastforce
  let ?st1 = "st1\<lparr>tr_rs := (tr_rs st1)\<lparr>rs_attempts := 1,
              rs_param := (rs_param (tr_rs st1))\<lparr>rp_ModelName := tr_OriginModelName st1, rp_Retry := Some 0, rp_resetNextTry := False\<rparr>\<rparr>\<rparr>"
  have "task_loop renv mode fetch env e ?st1 = Some (panic, err, st')"
    using assms h by (simp add: RelayTask_def taskRelayHandler_def)
  moreover have "task_outcome env False e st ?st1" by (rule submit_outcome [where k = 0 and env = env, OF h]) simp_all
  ultimately show ?thesis using task_loop_outcome assms(2) by blast
qed

subsection \<open>Balances\<close>

text \<open>The rows and the ledger of a request, as the polling rounds see them.\<close>

definition poll_view :: "task_relay \<Rightarrow> poll_st" where
  "poll_view st = \<lparr>ps_rows = tr_rows st, ps_mem = [], ps_ledger = bs_ledger (rs_bill (tr_rs st))\<rparr>"

lemma user_charges_new:
  "gm_get rows i = None \<Longrightarrow> user_charges (gm_put rows i t) u = user_charges rows u + (if u = ts_UserId t then task_charge t else 0)"
  by (simp add: user_charges_def gm_sum_new)

lemma submitted_holdings:
  assumes "submitted env t st st'" "gm_get (tr_rows st) (tq_new_id env) = None" "writes_ok (tq_bill env)"
  shows "holdings (poll_view st') = holdings (poll_view st)"
proof
  fix u
  let ?u = "ri_UserId (rs_info (tr_rs st))"
  obtain ok ri b where p: "PostConsumeQuota (tq_bill env) (ts_Quota t) 0 True (rs_info (tr_rs st)) (rs_bill (tr_rs st)) = (ok, ri, b)"
    "user_quota (bs_ledger (rs_bill (tr_rs st'))) = user_quota (bs_ledger b)"
    using assms(1) by (auto simp: submitted_def)
  have q: "user_quota (bs_ledger (rs_bill (tr_rs st'))) = shift ?u (ts_Quota t) (user_quota (bs_ledger (rs_bill (tr_rs st))))"
    using PostConsumeQuota_effect [OF p(1) assms(3)] p(2) by simp
  have t: "ts_UserId t = ?u" "tr_rows st' = gm_put (tr_rows st) (tq_new_id env) t" "task_charge t = ts_Quota t"
    using assms(1) by (simp_all add: submitted_def task_charge_def)
  show "holdings (poll_view st') u = holdings (poll_view st) u"
    using user_charges_new [OF assms(2), of t u] q t
    by (cases "user_quota (bs_ledger (rs_bill (tr_rs st))) u") (auto simp: holdings_def poll_view_def shift_def)
qed

text \<open>
  The system of tasks: requests for tasks, live queries included, and polling rounds, in any order. A step carries whether it went
  well. A request did when it is no query, its writes of money succeed, the ids of its rows are new and its prices are not
  negative; a round did when it handled no music platform, the channels of all its tasks exist, its tasks have upstream ids, all
  different, and its writes and refunds succeed.
\<close>

definition submit_good :: "relay_mode \<Rightarrow> (nat \<Rightarrow> task_env) \<Rightarrow> task_relay \<Rightarrow> task_relay \<Rightarrow> bool" where
  "submit_good mode env st st' \<longleftrightarrow> \<not> taskRelayHandler_fetches mode \<and>
     (\<forall>k. writes_ok (tq_bill (env k)) \<and> gm_get (tr_rows st) (tq_new_id (env k)) = None) \<and>
     (\<forall>i t. gm_get (tr_rows st') i = Some t \<longrightarrow> gm_get (tr_rows st) i = None \<longrightarrow> 0 \<le> ts_Quota t)"

definition round_good ::
    "(string \<Rightarrow> int \<Rightarrow> channel_poll) \<Rightarrow> string list \<Rightarrow> (string \<Rightarrow> int list) \<Rightarrow> task list \<Rightarrow> bool" where
  "round_good cp ps chs ts \<longleftrightarrow> ids_apart ts \<and> (\<forall>t \<in> set ts. ts_TaskID t \<noteq> []) \<and>
     distinct ps \<and> ''suno'' \<notin> set ps \<and> (\<forall>p. distinct (chs p)) \<and> (\<forall>p ch. polls_good (cp p ch))"

inductive task_system :: "bool \<Rightarrow> poll_st \<Rightarrow> poll_st \<Rightarrow> bool" where
  sys_submit: "task_system (submit_good mode env st st') s (poll_view st')"
    if "RelayTask renv mode fetch env st = Some (panic, err, st')"
      "ps_rows s = tr_rows st" "ps_ledger s = bs_ledger (rs_bill (tr_rs st))"
| sys_poll: "task_system (round_good cp ps chs (GetAllUnFinishSyncTasks query_ok limit (ps_rows s))) s s'"
    if "UpdateTaskBulk cp query_ok null_ok limit ps chs s = Ok s'"

inductive_cases task_systemE: "task_system g s s'"

lemma holdings_mem: "ps_rows a = ps_rows b \<Longrightarrow> ps_ledger a = ps_ledger b \<Longrightarrow> holdings a = holdings b"
  by (simp add: holdings_def fun_eq_iff)

lemma task_system_step:
  assumes "task_system True s s'" "rows_wf (ps_rows s)"
  shows "holdings s' = holdings s \<and> rows_wf (ps_rows s')"
  using assms(1)
proof (cases rule: task_system.cases)
  case (sys_submit renv mode fetch env st panic err st')
  then have g: "submit_good mode env st st'" by simp
  have g1: "\<not> taskRelayHandler_fetches mode" "writes_ok (tq_bill (env k))" "gm_get (tr_rows st) (tq_new_id (env k)) = None"
    "gm_get (tr_rows st') i = Some t \<Longrightarrow> gm_get (tr_rows st) i = None \<Longrightarrow> 0 \<le> ts_Quota t" for k i t
    using g by (auto simp: submit_good_def)
  have same: "holdings (poll_view st) = holdings s" using sys_submit(4,5) by (intro holdings_mem) (simp_all add: poll_view_def)
  have o: "task_outcome env panic err st st'" by (rule RelayTask_outcome [OF sys_submit(3) g1(1)])
  show ?thesis
  proof (cases "panic \<or> err \<noteq> None")
    case True
    then have "ps_rows (poll_view st') = ps_rows s" "holdings (poll_view st') = holdings (poll_view st)"
      using o sys_submit(4) by (auto simp: task_outcome_def poll_view_def)
    then show ?thesis using sys_submit(2) same assms(2) by simp
  next
    case False
    then obtain k t a b where a: "tr_rows a = tr_rows st" "rs_bill (tr_rs a) = rs_bill (tr_rs st)" "tr_rows st' = tr_rows b"
      "rs_bill (tr_rs st') = rs_bill (tr_rs b)" "submitted (env k) t a b"
      using o by (auto simp: task_outcome_def)
    have "holdings (poll_view b) = holdings (poll_view a)" using submitted_holdings [OF a(5)] g1(2,3) a(1) by simp
    moreover have "poll_view b = poll_view st'" "poll_view a = poll_view st" using a by (simp_all add: poll_view_def)
    moreover have rows: "tr_rows st' = gm_put (tr_rows st) (tq_new_id (env k)) t" "ts_ID t = tq_new_id (env k)"
      using a by (simp_all add: submitted_def)
    then have "0 \<le> ts_Quota t" using g1(3) g1(4) [of "tq_new_id (env k)" t] by simp
    ultimately show ?thesis using assms(2) sys_submit(2,4) rows same by (auto simp: rows_wf_def poll_view_def)
  qed
next
  case (sys_poll cp query_ok null_ok limit ps chs)
  then have "round_good cp ps chs (GetAllUnFinishSyncTasks query_ok limit (ps_rows s))" by simp
  then show ?thesis
    using video_round_balanced [OF assms(2), where query_ok = query_ok and limit = limit and ps = ps and chs = chs and cp = cp and null_ok = null_ok]
      sys_poll(2) by (auto simp: round_good_def)
qed

subsection \<open>What does not enter the price\<close>

definition same_cost :: "task_err option \<times> task_relay \<Rightarrow> task_err option \<times> task_relay \<Rightarrow> bool" where
  "same_cost a b \<longleftrightarrow> fst b = fst a \<and> tr_rows (snd b) = tr_rows (snd a) \<and> rs_info (tr_rs (snd b)) = rs_info (tr_rs (snd a)) \<and>
     rs_bill (tr_rs (snd b)) = rs_bill (tr_rs (snd a))"

lemma same_cost_refl [simp]: "same_cost a a"
  by (simp add: same_cost_def)

lemma same_cost_ratios [simp]: "same_cost (e, s\<lparr>tr_OtherRatios := x\<rparr>) (e, s\<lparr>tr_OtherRatios := y\<rparr>)"
  by (simp add: same_cost_def)

lemma accept_ratios: "same_cost (task_accept env p q (s\<lparr>tr_OtherRatios := x\<rparr>)) (task_accept env p q (s\<lparr>tr_OtherRatios := y\<rparr>))"
  by (auto simp: same_cost_def task_accept_def InitTask_def task_charge_price_def Let_def split: sum.split prod.split)

lemma build_fields:
  "tq_path (env\<lparr>tq_build := f\<rparr>) = tq_path env" "tq_video_id (env\<lparr>tq_build := f\<rparr>) = tq_video_id env"
  "tq_platform (env\<lparr>tq_build := f\<rparr>) = tq_platform env" "tq_model (env\<lparr>tq_build := f\<rparr>) = tq_model env"
  "tq_read_ok (env\<lparr>tq_build := f\<rparr>) = tq_read_ok env" "tq_field (env\<lparr>tq_build := f\<rparr>) = tq_field env"
  "tq_channel (env\<lparr>tq_build := f\<rparr>) = tq_channel env" "tq_key (env\<lparr>tq_build := f\<rparr>) = tq_key env"
  "tq_validate (env\<lparr>tq_build := f\<rparr>) = tq_validate env" "tq_fl (env\<lparr>tq_build := f\<rparr>) = tq_fl env"
  "tq_settings (env\<lparr>tq_build := f\<rparr>) = tq_settings env" "tq_patches (env\<lparr>tq_build := f\<rparr>) = tq_patches env"
  "tq_response (env\<lparr>tq_build := f\<rparr>) = tq_response env" "tq_insert_ok (env\<lparr>tq_build := f\<rparr>) = tq_insert_ok env"
  "tq_new_id (env\<lparr>tq_build := f\<rparr>) = tq_new_id env" "tq_now (env\<lparr>tq_build := f\<rparr>) = tq_now env" "tq_bill (env\<lparr>tq_build := f\<rparr>) = tq_bill env"
  "tq_build (env\<lparr>tq_build := f\<rparr>) = f" "tq_do (env\<lparr>tq_build := f\<rparr>) = tq_do env"
  by simp_all

lemma build_irrelevant:
  "InitChannelMeta (env\<lparr>tq_build := f\<rparr>) = InitChannelMeta env" "GetTaskPlatform (env\<lparr>tq_build := f\<rparr>) = GetTaskPlatform env"
  "task_quota (env\<lparr>tq_build := f\<rparr>) = task_quota env" "task_origin (env\<lparr>tq_build := f\<rparr>) = task_origin env"
  "task_accept (env\<lparr>tq_build := f\<rparr>) = task_accept env" "task_prepare (env\<lparr>tq_build := f\<rparr>) = task_prepare env"
  unfolding fun_eq_iff task_prepare_def InitChannelMeta_def GetTaskPlatform_def task_quota_def task_origin_def origin_model_def origin_channel_def
      remix_ratios_def task_accept_def InitTask_def task_charge_price_def build_fields
  by (intro allI refl)+

section \<open>A sample task\<close>

definition demo_task_env :: task_env where
  "demo_task_env = \<lparr>tq_path = ''/v1/videos'', tq_video_id = [], tq_platform = [], tq_model = ''veo'', tq_read_ok = True,
     tq_field = (\<lambda>_ _. None), tq_channel = (\<lambda>_. None), tq_key = (\<lambda>c. Inr (ch_Key c, 0)),
     tq_validate = (\<lambda>_ st. (None, ''generate'', [])), tq_fl = id, tq_settings = demo_settings\<lparr>st_modelPrice := [(''veo'', 3 / 2500)]\<rparr>,
     tq_patches = [], tq_build = (\<lambda>st. Some (tr_Action st, tr_OtherRatios st)), tq_do = Some (Some 200), tq_response = Inr (''v9'', ''data''),
     tq_insert_ok = True, tq_new_id = 9, tq_now = 8, tq_bill = demo_bill_env\<rparr>"

definition demo_task_relay :: task_relay where
  "demo_task_relay = \<lparr>tr_rs = demo_relay_st demo_open, tr_rows = [], tr_UserGroup = ''u'', tr_OriginModelName = ''veo'',
     tr_UpstreamModelName = [], tr_Action = [], tr_OriginTaskID = [], tr_ConsumeQuota = False, tr_OtherRatios = [], tr_ChannelId = 0,
     tr_ChannelType = 0, tr_ApiKey = []\<rparr>"

lemma demo_env_parts:
  "go_contains (tq_path demo_task_env) ''/v1/videos/'' = False" "tq_platform demo_task_env = []" "tq_validate demo_task_env p st = (None, ''generate'', [])"
  "tq_build demo_task_env st = Some (tr_Action st, tr_OtherRatios st)" "tq_do demo_task_env = Some (Some 200)"
  "tq_response demo_task_env = Inr (''v9'', ''data'')" "tq_insert_ok demo_task_env" "tq_new_id demo_task_env = 9" "tq_bill demo_task_env = demo_bill_env"
  by (simp_all add: demo_task_env_def) code_simp

lemma demo_relay_parts:
  "rs_ctx (tr_rs demo_task_relay) = \<lparr>cc_Id = 3, cc_Type = 1, cc_Name = ''c'', cc_AutoBan = True, cc_IsMultiKey = False, cc_MultiKeyIndex = 0, cc_Key = ''k''\<rparr>"
  "tr_OriginTaskID demo_task_relay = []" "tr_Action demo_task_relay = []" "tr_rows demo_task_relay = []" "tr_OriginModelName demo_task_relay = ''veo''"
  "tr_UserGroup demo_task_relay = ''u''" "rs_UsingGroup (tr_rs demo_task_relay) = ''u''"
  "rs_info (tr_rs demo_task_relay) = demo_info" "rs_bill (tr_rs demo_task_relay) = demo_bill"
  by (simp_all add: demo_task_relay_def demo_relay_st_def)

lemma demo_task_quota:
  assumes "tr_OriginModelName st = ''veo''" "tr_OtherRatios st = []" "rs_UsingGroup (tr_rs st) = ''u''" "tr_UserGroup st = ''u''"
  shows "task_quota demo_task_env p st = 600"
proof -
  let ?s = "demo_settings\<lparr>st_modelPrice := [(''veo'', 3 / 2500)]\<rparr>"
  have f: "FormatMatchingModelName ''veo'' = ''veo''" by code_simp
  have g: "GetModelPrice ?s ''veo'' = (3 / 2500, True)" "GetGroupGroupRatio ?s ''u'' ''u'' = (-1, False)" "GetGroupRatio ?s ''u'' = 1"
    by (simp_all add: GetModelPrice_def f gm_get_def GetGroupGroupRatio_def GetGroupRatio_def ratio_or_def demo_settings_def)
  have e: "tq_settings demo_task_env = ?s" "tq_fl demo_task_env = id" by (simp_all add: demo_task_env_def)
  have "trunc (600 :: rat) = 600" using trunc_int [of 600] by simp
  moreover have "tq_patches demo_task_env = []" by (simp add: demo_task_env_def)
  ultimately show ?thesis by (simp add: task_quota_def task_model_def Let_def e g assms)
qed

lemma demo_attempt:
  assumes "\<And>s. f s = Some (tr_Action s, r s)"
  shows "\<exists>t st'. RelayTaskSubmit (demo_task_env\<lparr>tq_build := f\<rparr>) (demo_task_relay\<lparr>tr_rs := (tr_rs demo_task_relay)\<lparr>rs_used := us\<rparr>\<rparr>) = (None, st') \<and>
     tr_rows st' = [(9, t)] \<and> ts_Quota t = 600 \<and> ts_ID t = 9 \<and> ts_TaskID t = ''v9'' \<and> ts_UserId t = 1 \<and> ts_Platform t = ''1'' \<and> task_unfinished t"
proof -
  let ?st = "demo_task_relay\<lparr>tr_rs := (tr_rs demo_task_relay)\<lparr>rs_used := us\<rparr>\<rparr>"
  define st1 where "st1 = InitChannelMeta demo_task_env ?st"
  define st5 where "st5 = (InitChannelMeta demo_task_env st1)\<lparr>tr_Action := ''generate'', tr_OtherRatios := []\<rparr>"
  have a: "GetTaskAdaptor ''1'' = Some TaSora" by code_simp
  have b: "go_itoa 1 = ''1''" by code_simp
  have o: "tr_OriginTaskID st1 = []" "tr_Action st1 = []" "GetTaskPlatform demo_task_env st1 = ''1''"
    by (simp_all add: st1_def InitChannelMeta_def demo_relay_parts GetTaskPlatform_def b Let_def)
  have q: "task_quota demo_task_env p st5 = 600" for p
    by (rule demo_task_quota) (simp_all add: st5_def st1_def InitChannelMeta_def demo_relay_parts Let_def)
  have u: "GetUserQuota demo_bill_env (ri_UserId (rs_info (tr_rs st5))) (bs_ledger (rs_bill (tr_rs st5))) = Some 1000"
    by (simp add: st5_def st1_def InitChannelMeta_def Let_def demo_relay_parts demo_info_def demo_bill_def GetUserQuota_def demo_bill_env_def
        demo_ledger_def gm_get_def demo_user_def)
  have t: "task_origin demo_task_env st1 = Inr ([], st1)" by (simp add: task_origin_def o demo_env_parts)
  have p: "task_prepare demo_task_env ?st = Inr (''1'', st5)"
    unfolding task_prepare_def Let_def st1_def [symmetric] by (simp add: demo_env_parts o t a st5_def)
  have r: "RelayTaskSubmit (demo_task_env\<lparr>tq_build := f\<rparr>) ?st = task_accept demo_task_env ''1'' 600 (st5\<lparr>tr_OtherRatios := r st5\<rparr>)"
    unfolding RelayTaskSubmit_def p task_ask_def build_irrelevant build_fields Let_def by (simp add: demo_env_parts q u assms)
  show ?thesis
    unfolding r by (simp add: task_accept_def demo_env_parts Let_def task_charge_price_def InitTask_def st5_def st1_def InitChannelMeta_def demo_relay_parts
        gm_put_def demo_info_def task_unfinished_def split: prod.splits)
qed

lemma demo_submit:
  "\<exists>t st'. RelayTask demo_relay_env RelayModeVideoSubmit (\<lambda>_ rows. (None, rows)) (\<lambda>_. demo_task_env) demo_task_relay = Some (False, None, st') \<and>
     tr_rows st' = [(9, t)] \<and> ts_Quota t = 600 \<and> ts_ID t = 9 \<and> ts_TaskID t = ''v9'' \<and> ts_UserId t = 1 \<and> ts_Platform t = ''1'' \<and> task_unfinished t"
  using demo_attempt [of "tq_build demo_task_env" tr_OtherRatios "[cc_Id (rs_ctx (tr_rs demo_task_relay))]"] demo_env_parts(4)
  by (auto simp: RelayTask_def taskRelayHandler_def taskRelayHandler_fetches_def Let_def task_loop.simps task_retries_def shouldRetryTaskRelay_def)

section \<open>Properties\<close>

text \<open>
  A request for a task ends, whatever channels are selected and however its attempts fail: the retry
  loop of \<^verbatim>\<open>RelayTask\<close> terminates even when an automatic group resets the retry counter.
\<close>

theorem relay_task_terminates: "\<exists>panic err st'. RelayTask renv mode fetch env st = Some (panic, err, st')"
proof -
  have "\<exists>panic err st'. task_loop renv mode fetch env e s = Some (panic, err, st')" for e s
    using task_loop_total [of renv mode fetch env e s] by (metis surj_pair)
  then show ?thesis by (simp add: RelayTask_def split: prod.split)
qed

text \<open>
  C8. A submission is paid exactly once and exactly as recorded: when a request for a task reports success,
  one row has been inserted and the user and the token have each paid its quota (the token not for the
  playground, and without regard to what it has left); when it reports an error, however many attempts
  were made, neither a row nor a balance has changed.
\<close>

theorem relay_task_charged:
  assumes "RelayTask renv mode fetch env st = Some (False, err, st')" "\<not> taskRelayHandler_fetches mode"
    and "\<forall>k. writes_ok (tq_bill (env k)) \<and> gm_get (tr_rows st) (tq_new_id (env k)) = None"
  shows "case err of
      Some e \<Rightarrow> tr_rows st' = tr_rows st \<and> rs_bill (tr_rs st') = rs_bill (tr_rs st)
    | None \<Rightarrow> \<exists>i t. gm_get (tr_rows st) i = None \<and> tr_rows st' = gm_put (tr_rows st) i t \<and> ts_UserId t = ri_UserId (rs_info (tr_rs st)) \<and>
        user_quota (bs_ledger (rs_bill (tr_rs st'))) = shift (ts_UserId t) (ts_Quota t) (user_quota (bs_ledger (rs_bill (tr_rs st)))) \<and>
        token_quota (bs_ledger (rs_bill (tr_rs st'))) =
          shift (ri_TokenId (rs_info (tr_rs st))) (if ri_IsPlayground (rs_info (tr_rs st)) then 0 else ts_Quota t)
            (token_quota (bs_ledger (rs_bill (tr_rs st))))"
proof (cases err)
  case (Some e)
  then show ?thesis using RelayTask_outcome [OF assms(1,2)] by (simp add: task_outcome_def)
next
  case None
  then obtain k t a b where a: "tr_rows a = tr_rows st" "rs_info (tr_rs a) = rs_info (tr_rs st)" "rs_bill (tr_rs a) = rs_bill (tr_rs st)"
    "tr_rows st' = tr_rows b" "rs_bill (tr_rs st') = rs_bill (tr_rs b)" "submitted (env k) t a b"
    using RelayTask_outcome [OF assms(1,2)] by (auto simp: task_outcome_def)
  then obtain ok ri c where p: "PostConsumeQuota (tq_bill (env k)) (ts_Quota t) 0 True (rs_info (tr_rs st)) (rs_bill (tr_rs st)) = (ok, ri, c)"
    "user_quota (bs_ledger (rs_bill (tr_rs b))) = user_quota (bs_ledger c)" "token_quota (bs_ledger (rs_bill (tr_rs b))) = token_quota (bs_ledger c)"
    by (auto simp: submitted_def)
  have "ts_UserId t = ri_UserId (rs_info (tr_rs st))" "tr_rows st' = gm_put (tr_rows st) (tq_new_id (env k)) t"
    using a by (simp_all add: submitted_def)
  moreover note PostConsumeQuota_effect [OF p(1)]
  ultimately show ?thesis
    unfolding None option.case using p(2,3) a(5) assms(3) by (intro exI [of _ "tq_new_id (env k)"] exI [of _ t]) simp
qed

theorem relay_task_charged_witness:
  "\<exists>st'. RelayTask demo_relay_env RelayModeVideoSubmit (\<lambda>_ rows. (None, rows)) (\<lambda>_. demo_task_env) demo_task_relay = Some (False, None, st') \<and>
     user_quota (bs_ledger (rs_bill (tr_rs st'))) 1 = Some 400 \<and> token_quota (bs_ledger (rs_bill (tr_rs st'))) 5 = Some (- 100)"
proof -
  let ?f = "\<lambda>_ rows. (None, rows)"
  obtain t st' where s: "RelayTask demo_relay_env RelayModeVideoSubmit ?f (\<lambda>_. demo_task_env) demo_task_relay = Some (False, None, st')"
    "tr_rows st' = [(9, t)]" "ts_Quota t = 600" using demo_submit by blast
  have "\<not> taskRelayHandler_fetches RelayModeVideoSubmit"
    "\<forall>k :: nat. writes_ok (tq_bill demo_task_env) \<and> gm_get (tr_rows demo_task_relay) (tq_new_id demo_task_env) = None"
    by (simp_all add: taskRelayHandler_fetches_def demo_env_parts demo_relay_parts writes_ok_def demo_bill_env_def gm_get_def)
  from relay_task_charged [OF s(1) this] s show ?thesis
    by (auto simp: demo_relay_parts demo_fields demo_balances shift_def gm_put_def)
qed

text \<open>
  C7. Submitting and polling neither make nor lose money while nothing goes wrong: along any sequence of steps of the system of tasks
  that all went well, what a user has plus what his tasks hold (nothing for a failed task, its quota otherwise) stays what
  it was. A request for a task, whether it is accepted or refused and after whatever retries, went well when it is no live query, its
  writes of money succeed, the ids of its rows are new and its prices are not negative; a polling round when it handled no music
  platform, every channel of its tasks exists, its tasks have upstream ids, all different, and its writes and refunds succeed. The other
  steps can lose money: \<open>suno_refund_lost\<close>, \<open>no_channel_no_refund\<close>, \<open>no_id_no_refund\<close>, \<open>live_query_loses_refund\<close>.
\<close>

theorem task_system_balanced:
  assumes "(task_system True)\<^sup>*\<^sup>* s s'" "rows_wf (ps_rows s)"
  shows "holdings s' = holdings s \<and> rows_wf (ps_rows s')"
  using assms
proof (induction rule: rtranclp_induct)
  case (step a b)
  then show ?case using task_system_step [OF step(2)] by simp
qed simp

theorem task_system_balanced_witness:
  "\<exists>s'. (task_system True)\<^sup>*\<^sup>* (poll_view demo_task_relay) s' \<and> holdings s' 1 = Some 1000"
proof -
  obtain t st' where s: "RelayTask demo_relay_env RelayModeVideoSubmit (\<lambda>_ rows. (None, rows)) (\<lambda>_. demo_task_env) demo_task_relay = Some (False, None, st')"
    "tr_rows st' = [(9, t)]" "ts_Quota t = 600" "ts_ID t = 9" "ts_TaskID t = ''v9''" "task_unfinished t" "ts_Platform t = ''1''" using demo_submit by blast
  have "submit_good RelayModeVideoSubmit (\<lambda>_. demo_task_env) demo_task_relay st' = True"
    by (auto simp: submit_good_def taskRelayHandler_fetches_def demo_env_parts demo_relay_parts writes_ok_def demo_bill_env_def gm_get_def s split: if_splits)
  then have step: "task_system True (poll_view demo_task_relay) (poll_view st')"
    using sys_submit [OF s(1), of "poll_view demo_task_relay"] by (simp add: poll_view_def)
  have wf: "rows_wf (ps_rows (poll_view demo_task_relay))"
    by (simp add: rows_wf_def poll_view_def demo_relay_parts gm_ok_def gm_keys_def gm_get_def)
  have r: "ps_rows (poll_view st') = [(9, t)]" by (simp add: poll_view_def s)
  have wf1: "rows_wf (ps_rows (poll_view st'))" using task_system_step [OF step wf] by simp
  have q: "GetAllUnFinishSyncTasks True 10 (ps_rows (poll_view st')) = [t]" by (simp add: GetAllUnFinishSyncTasks_def r s)
  have good: "polls_good demo_channel_poll"
    by (simp add: polls_good_def writes_good_def demo_channel_poll_def demo_video_env_def)
  obtain s2 where p: "UpdateTaskBulk (\<lambda>_ _. demo_channel_poll) True True 10 [''1''] (\<lambda>_. [ts_ChannelId t]) (poll_view st') = Ok s2"
    using video_round_balanced [OF wf1, of True 10 "[''1'']" "\<lambda>_. [ts_ChannelId t]" "\<lambda>_ _. demo_channel_poll" True] good s(5)
    by (auto simp: q ids_apart_def)
  have "round_good (\<lambda>_ _. demo_channel_poll) [''1''] (\<lambda>_. [ts_ChannelId t]) (GetAllUnFinishSyncTasks True 10 (ps_rows (poll_view st'))) = True"
    by (simp add: round_good_def q ids_apart_def s(5) good)
  then have "task_system True (poll_view st') s2" using sys_poll [OF p] by simp
  then have run: "(task_system True)\<^sup>*\<^sup>* (poll_view demo_task_relay) s2" using step by (meson r_into_rtranclp rtranclp.rtrancl_into_rtrancl)
  moreover have "holdings (poll_view demo_task_relay) 1 = Some 1000"
    by (simp add: holdings_def poll_view_def demo_relay_parts demo_fields demo_balances user_charges_def)
  ultimately show ?thesis using task_system_balanced [OF run wf] run by auto
qed

text \<open>
  The number of samples of a Vertex video is not paid: the adaptor turns it into a price ratio when it
  builds the body, which is after the price was computed, so a request for any number of samples changes
  rows and balances exactly as a request for one.
\<close>

theorem vertex_samples_free:
  assumes "RelayTaskSubmit env st = (err, st')" "tq_build env = vertex_BuildRequestBody (Some (of_int n))" "1 \<le> n"
  shows "case RelayTaskSubmit (env\<lparr>tq_build := vertex_BuildRequestBody (Some 1)\<rparr>) st of (err1, st1) \<Rightarrow>
    err1 = err \<and> tr_rows st1 = tr_rows st' \<and> rs_info (tr_rs st1) = rs_info (tr_rs st') \<and> rs_bill (tr_rs st1) = rs_bill (tr_rs st')"
proof -
  let ?e = "env\<lparr>tq_build := vertex_BuildRequestBody (Some 1)\<rparr>"
  have "trunc (1 :: rat) = 1" using trunc_int [of 1] by simp
  then have b: "tq_build env s = Some (tr_Action s, [(''sampleCount'', of_int n)])" "tq_build ?e s = Some (tr_Action s, [(''sampleCount'', 1)])" for s
    using assms(2,3) by (simp_all add: vertex_BuildRequestBody_def trunc_int)
  have "same_cost (task_ask env p q s) (task_ask ?e p q s)" for p q s
    using accept_ratios [where env = env and p = p and q = q and s = s and x = "[(''sampleCount'', of_int n)]" and y = "[(''sampleCount'', 1)]"]
    unfolding task_ask_def build_irrelevant build_fields(17,19) b Let_def by (simp split: option.split)
  then have "same_cost (RelayTaskSubmit env st) (RelayTaskSubmit ?e st)"
    unfolding RelayTaskSubmit_def build_irrelevant by (simp split: sum.split prod.split)
  then show ?thesis using assms(1) by (auto simp: same_cost_def split: prod.splits)
qed

theorem vertex_samples_free_witness:
  "\<exists>t st'. RelayTaskSubmit (demo_task_env\<lparr>tq_build := vertex_BuildRequestBody (Some 4)\<rparr>) demo_task_relay = (None, st') \<and>
     tr_rows st' = [(9, t)] \<and> ts_Quota t = 600 \<and>
     rs_bill (tr_rs (snd (RelayTaskSubmit (demo_task_env\<lparr>tq_build := vertex_BuildRequestBody (Some 1)\<rparr>) demo_task_relay))) = rs_bill (tr_rs st')"
proof -
  let ?f = "vertex_BuildRequestBody (Some 4)"
  have "trunc (4 :: rat) = 4" using trunc_int [of 4] by simp
  then have f: "?f s = Some (tr_Action s, [(''sampleCount'', 4)])" for s by (simp add: vertex_BuildRequestBody_def)
  obtain t st' where s: "RelayTaskSubmit (demo_task_env\<lparr>tq_build := ?f\<rparr>) demo_task_relay = (None, st')" "tr_rows st' = [(9, t)]" "ts_Quota t = 600"
    using demo_attempt [of ?f "\<lambda>_. [(''sampleCount'', 4)]" "rs_used (tr_rs demo_task_relay)", OF f] by auto
  show ?thesis using vertex_samples_free [OF s(1), of 4] s by (auto split: prod.splits)
qed

text \<open>
  A user who asks for the state of a failed Gemini or Vertex video loses his refund: the live query
  writes the failure into the row, no polling round looks at a failed row, and nothing is paid back, so
  what the user and his tasks hold falls by the quota of the task.
\<close>

theorem live_query_loses_refund:
  assumes "fetch_task 400 env (ps_rows s) = Inr t" "gm_get (ps_rows s) (ts_ID t) = Some t" "ts_Status t \<noteq> TaskStatusFailure"
    and "fe_channel env (ts_ChannelId t) = Some ch" "ch_Type ch = ChannelTypeGemini \<or> ch_Type ch = ChannelTypeVertexAi"
    and "fe_result env = Some ti" "ti_Status ti = TaskStatusFailure" "fe_save_ok env"
    and "user_quota (ps_ledger s) (ts_UserId t) = Some b"
  shows "let rows = snd (videoFetchByID env (ps_rows s)) in
    (\<exists>t'. gm_get rows (ts_ID t) = Some t' \<and> ts_Quota t' = ts_Quota t \<and> ts_Status t' = TaskStatusFailure \<and> \<not> task_unfinished t') \<and>
    holdings (s\<lparr>ps_rows := rows\<rparr>) (ts_UserId t) = map_option (\<lambda>h. h - ts_Quota t) (holdings s (ts_UserId t))"
proof -
  obtain t' where v: "video_refresh env t = Some t'" "ts_ID t' = ts_ID t" "ts_UserId t' = ts_UserId t" "ts_Quota t' = ts_Quota t"
    "ts_Status t' = TaskStatusFailure"
    using assms(4-7) by (cases "video_refresh env t") (auto simp: video_refresh_def ChannelTypeGemini_def)
  have r: "snd (videoFetchByID env (ps_rows s)) = gm_put (ps_rows s) (ts_ID t) t'"
    using assms(1,8) v by (simp add: videoFetchByID_def Task_Update_def)
  have "task_charge t = ts_Quota t" "task_charge t' = 0" using assms(3) v(5) by (simp_all add: task_charge_def)
  then show ?thesis
    unfolding Let_def r using v assms(9) user_charges_put [OF assms(2) v(3), of "ts_UserId t"]
    by (auto simp: holdings_def task_unfinished_def)
qed

theorem live_query_loses_refund_witness:
  "holdings (demo_poll\<lparr>ps_rows := snd (videoFetchByID \<lparr>fe_user = 1, fe_id = ''v1'', fe_ids = [], fe_read_ok = True, fe_save_ok = True,
      fe_openai_path = False, fe_channel = (\<lambda>_. Some (demo_channel\<lparr>ch_Type := 41\<rparr>)), fe_result = Some (demo_result ''FAILURE'' 0), fe_format = ''mp4'',
      fe_convert = (\<lambda>_. None)\<rparr> (ps_rows demo_poll))\<rparr>) 1 = Some 1000"
proof -
  let ?e = "\<lparr>fe_user = 1, fe_id = ''v1'', fe_ids = [], fe_read_ok = True, fe_save_ok = True,
      fe_openai_path = False, fe_channel = (\<lambda>_. Some (demo_channel\<lparr>ch_Type := 41\<rparr>)), fe_result = Some (demo_result ''FAILURE'' 0), fe_format = ''mp4'',
      fe_convert = (\<lambda>_. None)\<rparr>"
  have f: "fetch_task 400 ?e (ps_rows demo_poll) = Inr demo_task"
    by (simp add: fetch_task_def GetByTaskId_def demo_poll_def demo_task_def)
  have d: "ts_ID demo_task = 1" "ts_UserId demo_task = 1" "ts_Quota demo_task = 40" "ts_Status demo_task \<noteq> TaskStatusFailure"
    by (simp_all add: demo_task_def)
  have h: "holdings demo_poll 1 = Some 1040" "user_quota (ps_ledger demo_poll) 1 = Some 1000"
    by (simp_all add: holdings_def demo_poll_def demo_balances user_charges_def task_charge_def demo_task_def)
  show ?thesis
    using live_query_loses_refund [OF f _ d(4), of "demo_channel\<lparr>ch_Type := 41\<rparr>" "demo_result ''FAILURE'' 0" 1000] h d
    by (simp add: demo_rows demo_result_def Let_def)
qed

section \<open>Other observations\<close>

text \<open>
  The group that was chosen for a token of the group \<open>auto\<close> has no part in the price of a first attempt,
  as \<^verbatim>\<open>HandleGroupRatio\<close> gives it to other requests: the ratio is that of the name \<open>auto\<close>.
\<close>

lemma auto_group_not_priced:
  "task_quota env p (st\<lparr>tr_rs := (tr_rs st)\<lparr>rs_sel := sel\<rparr>\<rparr>) = task_quota env p st"
  "gr_GroupRatio (fst (HandleGroupRatio rt (Some g) u ''auto'')) = (case rt_group_group rt u g of Some r \<Rightarrow> r | None \<Rightarrow> rt_group rt g)"
proof -
  have f: "tr_OriginModelName (st\<lparr>tr_rs := x\<rparr>) = tr_OriginModelName st" "tr_Action (st\<lparr>tr_rs := x\<rparr>) = tr_Action st"
    "tr_UserGroup (st\<lparr>tr_rs := x\<rparr>) = tr_UserGroup st" "tr_OtherRatios (st\<lparr>tr_rs := x\<rparr>) = tr_OtherRatios st"
    "rs_UsingGroup (tr_rs (st\<lparr>tr_rs := (tr_rs st)\<lparr>rs_sel := sel\<rparr>\<rparr>)) = rs_UsingGroup (tr_rs st)" for x by simp_all
  show "task_quota env p (st\<lparr>tr_rs := (tr_rs st)\<lparr>rs_sel := sel\<rparr>\<rparr>) = task_quota env p st"
    unfolding task_quota_def task_model_def f ..
  show "gr_GroupRatio (fst (HandleGroupRatio rt (Some g) u ''auto'')) = (case rt_group_group rt u g of Some r \<Rightarrow> r | None \<Rightarrow> rt_group rt g)"
    by (simp add: HandleGroupRatio_def split: option.split)
qed

end
