(* ===== verification/Midjourney.thy ===== *)
theory Midjourney
  imports Task_Poll Relay_Loop Request_Model
begin

text \<open>
  Midjourney tasks: the rows of \<^verbatim>\<open>internal/adapter/repo/midjourney.go\<close>, their submission and the notifications
  of \<^verbatim>\<open>internal/app/relay/mjproxy_handler.go\<close>, and the polling round of
  \<^verbatim>\<open>internal/adapter/handler/midjourney.go\<close>. Answers of the upstream, decoded, the prices, and the outcome of
  every database statement are arguments; JSON members that are stored as text arrive as text, and
  \<open>urls\<close> is the text \<^verbatim>\<open>json.Marshal\<close> gives for a list of video addresses. Texts of reasons are abbreviated,
  logs are left out.
\<close>

section \<open>Rows\<close>

record midjourney =
  mt_Id :: int
  mt_Code :: int
  mt_UserId :: int
  mt_Action :: string
  mt_MjId :: string
  mt_Prompt :: string
  mt_PromptEn :: string
  mt_Description :: string
  mt_State :: string
  mt_SubmitTime :: int
  mt_StartTime :: int
  mt_FinishTime :: int
  mt_ImageUrl :: string
  mt_VideoUrl :: string
  mt_VideoUrls :: string
  mt_Status :: string
  mt_Progress :: string
  mt_FailReason :: string
  mt_ChannelId :: int
  mt_Quota :: int
  mt_Buttons :: string
  mt_Properties :: string

type_synonym mj_rows = "(int, midjourney) gomap"

definition GetAllUnFinishTasks :: "bool \<Rightarrow> mj_rows \<Rightarrow> midjourney list" where
  "GetAllUnFinishTasks ok rows = (if ok then filter (\<lambda>t. mt_Progress t \<noteq> ''100%'') (map snd rows) else [])"

text \<open>The first row by its id; a failed query finds none.\<close>

definition GetByOnlyMJId :: "bool \<Rightarrow> string \<Rightarrow> mj_rows \<Rightarrow> midjourney option" where
  "GetByOnlyMJId ok mjId rows =
     (if \<not> ok then None
      else (case sort_key mt_Id (filter (\<lambda>t. mt_MjId t = mjId) (map snd rows)) of [] \<Rightarrow> None | t # ts \<Rightarrow> Some t))"

definition GetByMJId :: "bool \<Rightarrow> int \<Rightarrow> string \<Rightarrow> mj_rows \<Rightarrow> midjourney option" where
  "GetByMJId ok userId mjId rows =
     (if \<not> ok then None
      else (case sort_key mt_Id (filter (\<lambda>t. mt_UserId t = userId \<and> mt_MjId t = mjId) (map snd rows)) of
              [] \<Rightarrow> None | t # ts \<Rightarrow> Some t))"

definition MjUpdate :: "bool \<Rightarrow> midjourney \<Rightarrow> mj_rows \<Rightarrow> mj_rows" where
  "MjUpdate ok t rows = (if ok then gm_put rows (mt_Id t) t else rows)"

definition MjInsert :: "bool \<Rightarrow> int \<Rightarrow> midjourney \<Rightarrow> mj_rows \<Rightarrow> mj_rows" where
  "MjInsert ok newId t rows = (if ok then gm_put rows newId (t\<lparr>mt_Id := newId\<rparr>) else rows)"

definition MjBulkUpdate :: "bool \<Rightarrow> string list \<Rightarrow> (midjourney \<Rightarrow> midjourney) \<Rightarrow> mj_rows \<Rightarrow> mj_rows" where
  "MjBulkUpdate ok mjIds f rows =
     (if ok then map (\<lambda>(i, t). (i, if mt_MjId t \<in> set mjIds then f t else t)) rows else rows)"

definition MjBulkUpdateByTaskIds :: "bool \<Rightarrow> int list \<Rightarrow> (midjourney \<Rightarrow> midjourney) \<Rightarrow> mj_rows \<Rightarrow> mj_rows" where
  "MjBulkUpdateByTaskIds ok ids f rows =
     (if ok then map (\<lambda>(i, t). (i, if mt_Id t \<in> set ids then f t else t)) rows else rows)"

definition mj_fail_columns :: "midjourney \<Rightarrow> midjourney" where
  "mj_fail_columns t = t\<lparr>mt_Status := ''FAILURE'', mt_Progress := ''100%''\<rparr>"

section \<open>Polling\<close>

record mj_item =
  mi_MjId :: string
  mi_PromptEn :: string
  mi_State :: string
  mi_SubmitTime :: int
  mi_StartTime :: int
  mi_FinishTime :: int
  mi_ImageUrl :: string
  mi_VideoUrl :: string
  mi_VideoUrls :: "string list"
  mi_Status :: string
  mi_Progress :: string
  mi_FailReason :: string
  mi_Buttons :: "string option"
  mi_Properties :: "string option"

text \<open>The rows, the map \<^verbatim>\<open>taskM\<close> and the ledger.\<close>

record mj_st =
  mj_rows :: mj_rows
  mj_mem :: "(string, midjourney) gomap"
  mj_ledger :: ledger

record mj_poll_env =
  mv_now :: int                        \<comment> \<open>milliseconds\<close>
  mv_urls :: "string list \<Rightarrow> string"
  mv_batch :: bool
  mv_save_ok :: bool
  mv_refund_ok :: bool

definition checkMjTaskNeedUpdate :: "(string list \<Rightarrow> string) \<Rightarrow> midjourney \<Rightarrow> mj_item \<Rightarrow> bool" where
  "checkMjTaskNeedUpdate urls t n \<longleftrightarrow>
     mt_Code t \<noteq> 1 \<or> mt_Progress t \<noteq> mi_Progress n \<or> mt_PromptEn t \<noteq> mi_PromptEn n \<or> mt_State t \<noteq> mi_State n \<or>
     mt_SubmitTime t \<noteq> mi_SubmitTime n \<or> mt_StartTime t \<noteq> mi_StartTime n \<or> mt_FinishTime t \<noteq> mi_FinishTime n \<or>
     mt_ImageUrl t \<noteq> mi_ImageUrl n \<or> mt_Status t \<noteq> mi_Status n \<or> mt_FailReason t \<noteq> mi_FailReason n \<or>
     (mt_Progress t \<noteq> ''100%'' \<and> mi_FailReason n \<noteq> []) \<or> mt_VideoUrl t \<noteq> mi_VideoUrl n \<or>
     (if mi_VideoUrls n \<noteq> [] then mt_VideoUrls t \<noteq> urls (mi_VideoUrls n) else mt_VideoUrls t \<noteq> [])"

text \<open>A task that is older than an hour and not done counts as failed.\<close>

definition mj_timeout :: "int \<Rightarrow> midjourney \<Rightarrow> mj_item \<Rightarrow> mj_item" where
  "mj_timeout now t n =
     (if 3600000 < now - mt_SubmitTime t \<and> mt_Progress t \<noteq> ''100%''
      then n\<lparr>mi_FailReason := ''timed out'', mi_Status := ''FAILURE''\<rparr> else n)"

definition mj_merge :: "(string list \<Rightarrow> string) \<Rightarrow> mj_item \<Rightarrow> midjourney \<Rightarrow> midjourney" where
  "mj_merge urls n t = t\<lparr>
     mt_Code := 1, mt_Progress := mi_Progress n, mt_PromptEn := mi_PromptEn n, mt_State := mi_State n,
     mt_SubmitTime := mi_SubmitTime n, mt_StartTime := mi_StartTime n, mt_FinishTime := mi_FinishTime n,
     mt_ImageUrl := mi_ImageUrl n, mt_Status := mi_Status n, mt_FailReason := mi_FailReason n,
     mt_Properties := (case mi_Properties n of None \<Rightarrow> mt_Properties t | Some s \<Rightarrow> s),
     mt_Buttons := (case mi_Buttons n of None \<Rightarrow> mt_Buttons t | Some s \<Rightarrow> s),
     mt_VideoUrl := mi_VideoUrl n,
     mt_VideoUrls := (if mi_VideoUrls n \<noteq> [] then urls (mi_VideoUrls n) else [])\<rparr>"

definition mj_item_step :: "mj_poll_env \<Rightarrow> mj_item \<Rightarrow> mj_st \<Rightarrow> mj_st res" where
  "mj_item_step env n0 st =
     (case gm_get (mj_mem st) (mi_MjId n0) of
        None \<Rightarrow> Panic
      | Some t \<Rightarrow>
          (let n = mj_timeout (mv_now env) t n0
           in if \<not> checkMjTaskNeedUpdate (mv_urls env) t n then Ok st
              else (let t1 = mj_merge (mv_urls env) n t;
                        failed = (mt_Progress t1 \<noteq> ''100%'' \<and> mi_FailReason n \<noteq> []) \<or> (mt_Progress t1 = ''100%'' \<and> mt_Status t1 = ''FAILURE'');
                        t2 = (if failed then t1\<lparr>mt_Progress := ''100%''\<rparr> else t1);
                        refund = failed \<and> mt_Quota t2 \<noteq> 0
                    in Ok \<lparr>mj_rows = MjUpdate (mv_save_ok env) t2 (mj_rows st), mj_mem = gm_put (mj_mem st) (mi_MjId n) t2,
                           mj_ledger = (if mv_save_ok env \<and> refund
                             then snd (IncreaseUserQuota (mv_batch env) (mv_refund_ok env) (mt_UserId t2) (mt_Quota t2) False (mj_ledger st))
                             else mj_ledger st)\<rparr>)))"

fun mj_items :: "(nat \<Rightarrow> mj_poll_env) \<Rightarrow> nat \<Rightarrow> mj_item list \<Rightarrow> mj_st \<Rightarrow> mj_st res" where
  "mj_items env k [] st = Ok st"
| "mj_items env k (n # ns) st =
     (case mj_item_step (env k) n st of Ok st1 \<Rightarrow> mj_items env (Suc k) ns st1 | Err m \<Rightarrow> Err m | Panic \<Rightarrow> Panic)"

text \<open>What a channel meets: whether it is found, its base URL, and the decoded list of answers, if there is one.\<close>

record mj_channel_poll =
  mc_channel :: bool
  mc_bulk_ok :: bool
  mc_reason :: string
  mc_base :: "string option"
  mc_answer :: "mj_item list option"
  mc_env :: "nat \<Rightarrow> mj_poll_env"

definition mj_channel :: "mj_channel_poll \<Rightarrow> string list \<Rightarrow> mj_st \<Rightarrow> mj_st res" where
  "mj_channel cp taskIds st =
     (if taskIds = [] then Ok st
      else if \<not> mc_channel cp then
        Ok (st\<lparr>mj_rows := MjBulkUpdate (mc_bulk_ok cp) taskIds (\<lambda>t. (mj_fail_columns t)\<lparr>mt_FailReason := mc_reason cp\<rparr>) (mj_rows st)\<rparr>)
      else (case mc_base cp of
              None \<Rightarrow> Panic
            | Some b \<Rightarrow> (case mc_answer cp of None \<Rightarrow> Ok st | Some items \<Rightarrow> mj_items (mc_env cp) 0 items st)))"

fun mj_channels :: "(int \<Rightarrow> mj_channel_poll) \<Rightarrow> midjourney list \<Rightarrow> int list \<Rightarrow> mj_st \<Rightarrow> mj_st res" where
  "mj_channels cp ts [] st = Ok st"
| "mj_channels cp ts (ch # chs) st =
     (case mj_channel (cp ch) (map mt_MjId (filter (\<lambda>t. mt_MjId t \<noteq> [] \<and> mt_ChannelId t = ch) ts)) st of
        Ok st1 \<Rightarrow> mj_channels cp ts chs st1 | Err m \<Rightarrow> Err m | Panic \<Rightarrow> Panic)"

text \<open>A round that is not cancelled; \<open>chs\<close> is the order in which the map of channels is visited.\<close>

definition updateMidjourneyTasks :: "(int \<Rightarrow> mj_channel_poll) \<Rightarrow> bool \<Rightarrow> bool \<Rightarrow> int list \<Rightarrow> mj_st \<Rightarrow> mj_st res" where
  "updateMidjourneyTasks cp query_ok null_ok chs st =
     (let ts = GetAllUnFinishTasks query_ok (mj_rows st);
          nulls = map mt_Id (filter (\<lambda>t. mt_MjId t = []) ts);
          mem = fold (\<lambda>t m. gm_put m (mt_MjId t) t) (filter (\<lambda>t. mt_MjId t \<noteq> []) ts) []
      in if ts = [] then Ok st
         else mj_channels cp ts chs
                (st\<lparr>mj_rows := (if nulls \<noteq> [] then MjBulkUpdateByTaskIds null_ok nulls mj_fail_columns (mj_rows st) else mj_rows st),
                    mj_mem := mem\<rparr>))"

section \<open>Notifications\<close>

text \<open>\<open>None\<close> in the request is a body that cannot be decoded; the result is the error, if there is one.\<close>

definition RelayMidjourneyNotify ::
    "(string list \<Rightarrow> string) \<Rightarrow> bool \<Rightarrow> bool \<Rightarrow> mj_item option \<Rightarrow> mj_rows \<Rightarrow> (int \<times> string) option \<times> mj_rows" where
  "RelayMidjourneyNotify urls read_ok save_ok request rows =
     (case request of
        None \<Rightarrow> (Some (4, ''bind_request_body_failed''), rows)
      | Some n \<Rightarrow>
          (case GetByOnlyMJId read_ok (mi_MjId n) rows of
             None \<Rightarrow> (Some (4, ''midjourney_task_not_found''), rows)
           | Some t \<Rightarrow>
               (let t1 = t\<lparr>mt_Progress := mi_Progress n, mt_PromptEn := mi_PromptEn n, mt_State := mi_State n,
                      mt_SubmitTime := mi_SubmitTime n, mt_StartTime := mi_StartTime n, mt_FinishTime := mi_FinishTime n,
                      mt_ImageUrl := mi_ImageUrl n, mt_VideoUrl := mi_VideoUrl n, mt_VideoUrls := urls (mi_VideoUrls n),
                      mt_Status := mi_Status n, mt_FailReason := mi_FailReason n\<rparr>
                in if save_ok then (None, MjUpdate True t1 rows)
                   else (Some (4, ''update_midjourney_task_failed''), rows))))"

section \<open>Submission\<close>

record mj_response =
  mx_Code :: int
  mx_Description :: string
  mx_Result :: string
  mx_props :: "(string \<times> string) option"   \<comment> \<open>\<^verbatim>\<open>imageUrl\<close> and \<^verbatim>\<open>status\<close> of the properties, where both are strings\<close>

abbreviation mj_error :: "string \<Rightarrow> mj_response" where
  "mj_error d \<equiv> \<lparr>mx_Code = 4, mx_Description = d, mx_Result = [], mx_props = None\<rparr>"

text \<open>
  The answer of the upstream: an error with what is told to the client, an empty body, or a decoded
  response. \<open>DoMidjourneyHttpRequest\<close> gives the status, the response, and whether it is an error.
\<close>

datatype mj_answer = MjFailed string int | MjEmpty int | MjDecoded int mj_response

definition DoMidjourneyHttpRequest :: "mj_answer \<Rightarrow> int \<times> mj_response \<times> bool" where
  "DoMidjourneyHttpRequest a =
     (case a of
        MjFailed d status \<Rightarrow> (status, (mj_error d)\<lparr>mx_Code := 5\<rparr>, True)
      | MjEmpty status \<Rightarrow> (status, (mj_error ''empty_response_body'')\<lparr>mx_Code := 5\<rparr>, False)
      | MjDecoded status r \<Rightarrow> (status, r, False))"

text \<open>The context of a request: its channel, the address and the key that its call uses, and its user.\<close>

record mj_ctx =
  mg_channel_id :: int
  mg_base_url :: string
  mg_key :: string              \<comment> \<open>\<^verbatim>\<open>ContextKeyChannelKey\<close>, sent as \<^verbatim>\<open>mj-api-secret\<close>\<close>
  mg_authorization :: string

record mj_relay =
  mf_ctx :: mj_ctx
  mf_rows :: mj_rows
  mf_info :: relay_info
  mf_bill :: bill_state
  mf_channel :: int             \<comment> \<open>\<^verbatim>\<open>info.ChannelId\<close>\<close>
  mf_sent :: "(string \<times> string) list"   \<comment> \<open>addresses and keys that calls were made with\<close>
  mf_disabled :: "int list"     \<comment> \<open>channels that were disabled\<close>

record mj_env =
  mh_read_ok :: bool
  mh_check_success :: bool      \<comment> \<open>\<^verbatim>\<open>MjActionCheckSuccessEnabled\<close>\<close>
  mh_channel :: "int \<Rightarrow> channel option"
  mh_urls :: "string list"      \<comment> \<open>default addresses of the channel types\<close>
  mh_auto_disable :: bool
  mh_price :: int               \<comment> \<open>\<^verbatim>\<open>ModelPriceHelperPerCall\<close>\<close>
  mh_answer :: mj_answer
  mh_insert_ok :: bool
  mh_new_id :: int
  mh_now :: int                 \<comment> \<open>milliseconds\<close>
  mh_start :: int
  mh_bill :: bill_env

text \<open>The call: where it goes and with which key.\<close>

definition mj_send :: "mj_relay \<Rightarrow> mj_relay" where
  "mj_send st = st\<lparr>mf_sent := mf_sent st @ [(mg_base_url (mf_ctx st), go_trim_prefix (mg_key (mf_ctx st)) ''Bearer '')]\<rparr>"

definition mj_charge :: "mj_env \<Rightarrow> mj_relay \<Rightarrow> mj_relay" where
  "mj_charge env st =
     (let (ok, ri, b) = PostConsumeQuota (mh_bill env) (mh_price env) 0 True (mf_info st) (mf_bill st)
      in st\<lparr>mf_info := ri, mf_bill := record_usage (mh_bill env) (mf_channel st) (mh_price env) ri b\<rparr>)"

text \<open>The row of a new task.\<close>

definition mj_new_row :: "mj_env \<Rightarrow> string \<Rightarrow> string \<Rightarrow> int \<Rightarrow> int \<Rightarrow> mj_response \<Rightarrow> mj_relay \<Rightarrow> midjourney" where
  "mj_new_row env action prompt submit start r st =
     \<lparr>mt_Id = 0, mt_Code = mx_Code r, mt_UserId = ri_UserId (mf_info st), mt_Action = action, mt_MjId = mx_Result r,
      mt_Prompt = prompt, mt_PromptEn = [], mt_Description = mx_Description r, mt_State = [], mt_SubmitTime = submit,
      mt_StartTime = start, mt_FinishTime = 0, mt_ImageUrl = [], mt_VideoUrl = [], mt_VideoUrls = [], mt_Status = [],
      mt_Progress = ''0%'', mt_FailReason = [], mt_ChannelId = mg_channel_id (mf_ctx st), mt_Quota = mh_price env,
      mt_Buttons = [], mt_Properties = []\<rparr>"

text \<open>\<open>images\<close> are the two images of the request.\<close>

definition RelaySwapFace :: "mj_env \<Rightarrow> (string \<times> string) option \<Rightarrow> mj_relay \<Rightarrow> mj_response option \<times> mj_relay" where
  "RelaySwapFace env images st0 =
     (case images of
        None \<Rightarrow> (Some (mj_error ''bind_request_body_failed''), st0)
      | Some (src, tgt) \<Rightarrow>
          (let st = st0\<lparr>mf_channel := mg_channel_id (mf_ctx st0)\<rparr>
           in if src = [] \<or> tgt = [] then (Some (mj_error ''sour_base64_and_target_base64_is_required''), st)
              else (case GetUserQuota (mh_bill env) (ri_UserId (mf_info st)) (bs_ledger (mf_bill st)) of
                      None \<Rightarrow> (Some (mj_error ''query''), st)
                    | Some q \<Rightarrow>
                        if q - mh_price env < 0 then (Some (mj_error ''quota_not_enough''), st)
                        else (let st1 = mj_send st; (status, r, failed) = DoMidjourneyHttpRequest (mh_answer env)
                              in if failed then (Some r, st1)
                                 else (let t = mj_new_row env ''SWAP_FACE'' ''InsightFace'' (mh_start env) (mh_now env) r st1;
                                           st2 = st1\<lparr>mf_rows := MjInsert (mh_insert_ok env) (mh_new_id env) t (mf_rows st1)\<rparr>
                                       in (if mh_insert_ok env then None else Some (mj_error ''insert_midjourney_task_failed''),
                                           if status = 200 \<and> mx_Code r = 1 then mj_charge env st2 else st2))))))"

text \<open>
  The action of a submission: an error, or the request with its action and, where the request continues
  another task, the id of that task.
\<close>

definition mj_action :: "relay_mode \<Rightarrow> string \<Rightarrow> mj_request \<Rightarrow> (mj_request \<times> string option) res" where
  "mj_action mode prompt r =
     (if mode = RelayModeMidjourneyImagine then
        (if prompt = [] then Err ''prompt_is_required'' else Ok (r\<lparr>mj_Action := ''IMAGINE''\<rparr>, None))
      else if mode = RelayModeMidjourneyDescribe then Ok (r\<lparr>mj_Action := ''DESCRIBE''\<rparr>, None)
      else if mode = RelayModeMidjourneyEdits then Ok (r\<lparr>mj_Action := ''EDITS''\<rparr>, None)
      else if mode = RelayModeMidjourneyShorten then Ok (r\<lparr>mj_Action := ''SHORTEN''\<rparr>, None)
      else if mode = RelayModeMidjourneyBlend then Ok (r\<lparr>mj_Action := ''BLEND''\<rparr>, None)
      else if mode = RelayModeMidjourneyUpload then Ok (r\<lparr>mj_Action := ''UPLOAD''\<rparr>, None)
      else if mj_TaskId r = [] then Ok (r, None)
      else if mode = RelayModeMidjourneyChange then
        (if mj_Action r = [] then Err ''action_is_required''
         else if mj_Index r = 0 then Err ''index_is_required''
         else Ok (r, Some (mj_TaskId r)))
      else if mode = RelayModeMidjourneySimpleChange then
        (if mj_Content r = [] then Err ''content_is_required''
         else (case ConvertSimpleChangeParams (mj_Content r) of
                 Ok None \<Rightarrow> Err ''content_parse_failed''
               | Ok (Some (taskId, action, i)) \<Rightarrow> Ok (r\<lparr>mj_Action := action\<rparr>, Some taskId)
               | Err e \<Rightarrow> Err e | Panic \<Rightarrow> Panic))
      else if mode = RelayModeMidjourneyModal then Ok (r\<lparr>mj_Action := ''MODAL''\<rparr>, Some (mj_TaskId r))
      else if mode = RelayModeMidjourneyVideo then Ok (r\<lparr>mj_Action := ''VIDEO''\<rparr>, Some (mj_TaskId r))
      else Ok (r, Some []))"

text \<open>The original task of a request that continues it: its channel is used, its prompt is copied.\<close>

definition mj_origin :: "mj_env \<Rightarrow> relay_mode \<Rightarrow> string \<Rightarrow> mj_relay \<Rightarrow> (string \<times> mj_relay) res" where
  "mj_origin env mode mjId st =
     (case GetByMJId (mh_read_ok env) (ri_UserId (mf_info st)) mjId (mf_rows st) of
        None \<Rightarrow> Err ''task_not_found''
      | Some t \<Rightarrow>
          if mh_check_success env \<and> mt_Status t \<noteq> ''SUCCESS'' \<and> mode \<noteq> RelayModeMidjourneyModal then Err ''task_status_not_success''
          else (case mh_channel env (mt_ChannelId t) of
                  None \<Rightarrow> Err ''get_channel_info_failed''
                | Some ch \<Rightarrow>
                    if ch_Status ch \<noteq> ChannelStatusEnabled then Err ''channel disabled''
                    else (case GetBaseURL (mh_urls env) ch of
                            None \<Rightarrow> Panic
                          | Some url \<Rightarrow>
                              Ok (mt_Prompt t, st\<lparr>mf_ctx := (mf_ctx st)\<lparr>mg_base_url := url, mg_channel_id := mt_ChannelId t,
                                    mg_authorization := ''Bearer '' @ ch_Key ch\<rparr>\<rparr>))))"

text \<open>What the code of a response does to the new row, and the code that is left.\<close>

definition mj_record_code :: "int \<Rightarrow> mj_response \<Rightarrow> midjourney \<Rightarrow> midjourney \<times> int" where
  "mj_record_code now r t =
     (let t1 = (if mx_Code r \<noteq> 1 \<and> mx_Code r \<noteq> 21 \<and> mx_Code r \<noteq> 22 then t\<lparr>mt_FailReason := mx_Description r\<rparr> else t);
          (t2, code) = (case mx_props r of
              Some (imageUrl, status) \<Rightarrow>
                if mx_Code r = 21 then
                  (if status = ''SUCCESS''
                   then (t1\<lparr>mt_ImageUrl := imageUrl, mt_Status := status, mt_Progress := ''100%'', mt_StartTime := now, mt_FinishTime := now\<rparr>, 1)
                   else (t1\<lparr>mt_ImageUrl := imageUrl, mt_Status := status\<rparr>, mx_Code r))
                else (t1, mx_Code r)
            | None \<Rightarrow> (t1, mx_Code r))
      in (if code = 1 \<and> mt_Action t2 = ''UPLOAD'' then t2\<lparr>mt_Progress := ''100%'', mt_Status := ''SUCCESS''\<rparr> else t2, code))"

text \<open>
  From the answer on, with the deferred charge, which also runs when the code panics on a channel that
  is gone; the flag of the result is true for that panic.
\<close>

definition mj_finish :: "mj_env \<Rightarrow> bool \<Rightarrow> string \<Rightarrow> string \<Rightarrow> int \<Rightarrow> mj_response \<Rightarrow> mj_relay \<Rightarrow> (bool \<times> mj_response option) \<times> mj_relay" where
  "mj_finish env consume action prompt status r st =
     (let t = mj_new_row env action prompt (mh_now env) 0 r st;
          deferred = (\<lambda>c s. if c \<and> status = 200 then mj_charge env s else s)
      in if mx_Code r = 3 \<and> mh_channel env (mt_ChannelId t) = None then ((True, None), deferred consume st)
         else (let st1 = (case mh_channel env (mt_ChannelId t) of
                       Some ch \<Rightarrow> if mx_Code r = 3 \<and> GetAutoBan ch \<and> mh_auto_disable env
                                  then st\<lparr>mf_disabled := mf_disabled st @ [mt_ChannelId t]\<rparr> else st
                     | None \<Rightarrow> st);
                   consume1 = (consume \<and> (mx_Code r = 1 \<or> mx_Code r = 21 \<or> mx_Code r = 22));
                   (t1, code) = mj_record_code (mh_now env) r t;
                   st2 = st1\<lparr>mf_rows := MjInsert (mh_insert_ok env) (mh_new_id env) t1 (mf_rows st1)\<rparr>
               in ((False, if mh_insert_ok env then None else Some (mj_error ''insert_midjourney_task_failed'')), deferred consume1 st2)))"

definition mj_submit_action ::
    "mj_env \<Rightarrow> relay_mode \<Rightarrow> string \<Rightarrow> mj_request \<Rightarrow> mj_relay \<Rightarrow> (bool \<times> mj_response option) \<times> mj_relay" where
  "mj_submit_action env mode prompt r st =
     (case mj_action mode prompt r of
        Err e \<Rightarrow> ((False, Some (mj_error e)), st) | Panic \<Rightarrow> ((True, None), st)
      | Ok (r1, origin) \<Rightarrow>
          (case (case origin of None \<Rightarrow> Ok (prompt, st) | Some mjId \<Rightarrow> mj_origin env mode mjId st) of
             Err e \<Rightarrow> ((False, Some (mj_error e)), st) | Panic \<Rightarrow> ((True, None), st)
           | Ok (prompt1, st1) \<Rightarrow>
               (let consume = (mj_Action r1 \<noteq> ''INPAINT'' \<and> mj_Action r1 \<noteq> ''CUSTOM_ZOOM'')
                in case GetUserQuota (mh_bill env) (ri_UserId (mf_info st1)) (bs_ledger (mf_bill st1)) of
                     None \<Rightarrow> ((False, Some (mj_error ''query'')), st1)
                   | Some q \<Rightarrow>
                       if consume \<and> q - mh_price env < 0 then ((False, Some (mj_error ''quota_not_enough'')), st1)
                       else (let st2 = mj_send st1; (status, resp, failed) = DoMidjourneyHttpRequest (mh_answer env)
                             in if failed then ((False, Some resp), st2)
                                else mj_finish env consume (mj_Action r1) prompt1 status resp st2))))"

text \<open>\<open>None\<close> is a body that cannot be decoded.\<close>

definition RelayMidjourneySubmit ::
    "mj_env \<Rightarrow> relay_mode \<Rightarrow> (string \<times> mj_request) option \<Rightarrow> mj_relay \<Rightarrow> (bool \<times> mj_response option) \<times> mj_relay" where
  "RelayMidjourneySubmit env mode request st0 =
     (case request of
        None \<Rightarrow> ((False, Some (mj_error ''bind_request_body_failed'')), st0)
      | Some (prompt, r) \<Rightarrow>
          (let st = st0\<lparr>mf_channel := mg_channel_id (mf_ctx st0)\<rparr>
           in if mode = RelayModeMidjourneyAction then
                (case CoverPlusActionToNormalAction r of
                   Ok r1 \<Rightarrow> mj_submit_action env RelayModeMidjourneyChange prompt r1 st
                 | Err e \<Rightarrow> ((False, Some (mj_error e)), st)
                 | Panic \<Rightarrow> ((True, None), st))
              else mj_submit_action env mode prompt
                     (if mode = RelayModeMidjourneyVideo then r\<lparr>mj_Action := ''VIDEO''\<rparr> else r) st))"

section \<open>Lemmas\<close>

lemma mj_rows_get [simp]: "gm_get (MjUpdate ok t rows) i = (if ok \<and> i = mt_Id t then Some t else gm_get rows i)"
  by (simp add: MjUpdate_def)

lemma mj_charge_effect:
  assumes "writes_ok (mh_bill env)"
  shows "user_quota (bs_ledger (mf_bill (mj_charge env st))) = shift (ri_UserId (mf_info st)) (mh_price env) (user_quota (bs_ledger (mf_bill st)))"
    "mf_rows (mj_charge env st) = mf_rows st" "mf_sent (mj_charge env st) = mf_sent st"
proof -
  obtain ok ri b where p: "PostConsumeQuota (mh_bill env) (mh_price env) 0 True (mf_info st) (mf_bill st) = (ok, ri, b)" by (metis surj_pair)
  show "user_quota (bs_ledger (mf_bill (mj_charge env st))) = shift (ri_UserId (mf_info st)) (mh_price env) (user_quota (bs_ledger (mf_bill st)))"
    using PostConsumeQuota_effect [OF p assms] p by (simp add: mj_charge_def record_usage_quota)
  show "mf_rows (mj_charge env st) = mf_rows st" "mf_sent (mj_charge env st) = mf_sent st" using p by (simp_all add: mj_charge_def)
qed

lemma mj_record_code_keeps:
  "mj_record_code now r t = (t', c) \<Longrightarrow> mt_Quota t' = mt_Quota t \<and> mt_UserId t' = mt_UserId t \<and> mt_MjId t' = mt_MjId t \<and> mt_ChannelId t' = mt_ChannelId t \<and> mt_Action t' = mt_Action t"
  by (auto simp: mj_record_code_def Let_def split: option.splits if_splits)

text \<open>The end of a submission that is reported as a success.\<close>

lemma mj_finish_row:
  assumes "mj_finish env consume action prompt status r st = ((False, None), st')" "writes_ok (mh_bill env)"
  shows "\<exists>t. mf_rows st' = gm_put (mf_rows st) (mh_new_id env) t \<and> mt_Id t = mh_new_id env \<and> mt_Quota t = mh_price env \<and>
    mt_UserId t = ri_UserId (mf_info st) \<and> mt_MjId t = mx_Result r \<and> mt_Action t = action \<and> mf_sent st' = mf_sent st \<and>
    user_quota (bs_ledger (mf_bill st')) = shift (mt_UserId t)
      (if consume \<and> mx_Code r \<in> {1, 21, 22} \<and> status = 200 then mh_price env else 0) (user_quota (bs_ledger (mf_bill st)))"
proof -
  let ?t = "mj_new_row env action prompt (mh_now env) 0 r st"
  obtain t1 code where t1: "mj_record_code (mh_now env) r ?t = (t1, code)" by fastforce
  define st1 where "st1 = (case mh_channel env (mt_ChannelId ?t) of
      Some ch \<Rightarrow> if mx_Code r = 3 \<and> GetAutoBan ch \<and> mh_auto_disable env then st\<lparr>mf_disabled := mf_disabled st @ [mt_ChannelId ?t]\<rparr> else st
    | None \<Rightarrow> st)"
  define st2 where "st2 = st1\<lparr>mf_rows := MjInsert (mh_insert_ok env) (mh_new_id env) t1 (mf_rows st1)\<rparr>"
  have s1: "mf_rows st1 = mf_rows st" "mf_info st1 = mf_info st" "mf_bill st1 = mf_bill st" "mf_sent st1 = mf_sent st"
    by (simp_all add: st1_def split: option.split)
  have np: "\<not> (mx_Code r = 3 \<and> mh_channel env (mt_ChannelId ?t) = None)"
  proof
    assume "mx_Code r = 3 \<and> mh_channel env (mt_ChannelId ?t) = None"
    then show False using assms(1) by (simp add: mj_finish_def Let_def)
  qed
  then have st': "mh_insert_ok env" "st' = (if (consume \<and> (mx_Code r = 1 \<or> mx_Code r = 21 \<or> mx_Code r = 22)) \<and> status = 200 then mj_charge env st2 else st2)"
    using assms(1) by (auto simp: mj_finish_def Let_def t1 st1_def [symmetric] st2_def [symmetric] split: if_splits)
  have k: "mt_Quota t1 = mh_price env" "mt_UserId t1 = ri_UserId (mf_info st)" "mt_MjId t1 = mx_Result r" "mt_Action t1 = action"
    using mj_record_code_keeps [OF t1] by (simp_all add: mj_new_row_def)
  show ?thesis
    using st' k s1 mj_charge_effect [OF assms(2), of st2]
    by (intro exI [of _ "t1\<lparr>mt_Id := mh_new_id env\<rparr>"]) (auto simp: st2_def MjInsert_def)
qed

lemma mj_send_keeps: "mf_rows (mj_send st) = mf_rows st" "mf_info (mj_send st) = mf_info st" "mf_bill (mj_send st) = mf_bill st"
  by (simp_all add: mj_send_def)

lemma mj_origin_keeps:
  "mj_origin env mode i st = Ok (p, st') \<Longrightarrow> mf_rows st' = mf_rows st \<and> mf_info st' = mf_info st \<and> mf_bill st' = mf_bill st \<and>
     mf_sent st' = mf_sent st \<and> mg_key (mf_ctx st') = mg_key (mf_ctx st)"
  by (auto simp: mj_origin_def split: option.splits if_splits)

text \<open>The way of a successful submission.\<close>

lemma mj_submit_action_success:
  assumes "mj_submit_action env mode prompt r st = ((False, None), st')"
  obtains r1 origin prompt1 st1 status resp where "mj_action mode prompt r = Ok (r1, origin)"
    "(case origin of None \<Rightarrow> Ok (prompt, st) | Some mjId \<Rightarrow> mj_origin env mode mjId st) = Ok (prompt1, st1)"
    "DoMidjourneyHttpRequest (mh_answer env) = (status, resp, False)"
    "mj_finish env (mj_Action r1 \<noteq> ''INPAINT'' \<and> mj_Action r1 \<noteq> ''CUSTOM_ZOOM'') (mj_Action r1) prompt1 status resp (mj_send st1) = ((False, None), st')"
proof -
  obtain r1 origin where a: "mj_action mode prompt r = Ok (r1, origin)"
    using assms by (auto simp: mj_submit_action_def split: res.splits)
  obtain prompt1 st1 where o: "(case origin of None \<Rightarrow> Ok (prompt, st) | Some mjId \<Rightarrow> mj_origin env mode mjId st) = Ok (prompt1, st1)"
    using assms by (auto simp: mj_submit_action_def a split: res.splits)
  obtain status resp failed where d: "DoMidjourneyHttpRequest (mh_answer env) = (status, resp, failed)" by (metis surj_pair)
  have f: "\<not> failed \<and> mj_finish env (mj_Action r1 \<noteq> ''INPAINT'' \<and> mj_Action r1 \<noteq> ''CUSTOM_ZOOM'') (mj_Action r1) prompt1 status resp (mj_send st1) = ((False, None), st')"
    using assms unfolding mj_submit_action_def a res.case prod.case o Let_def d by (auto split: option.splits if_splits)
  show ?thesis
  proof (rule that [OF a o])
    show "DoMidjourneyHttpRequest (mh_answer env) = (status, resp, False)" using d f by simp
  qed (use f in simp)
qed

lemma submit_as_action:
  assumes "RelayMidjourneySubmit env mode (Some (prompt, r)) st = ((False, None), st')"
  obtains mode1 r1 where "mj_submit_action env mode1 prompt r1 (st\<lparr>mf_channel := mg_channel_id (mf_ctx st)\<rparr>) = ((False, None), st')"
    "mode \<notin> {RelayModeMidjourneyAction, RelayModeMidjourneyVideo} \<Longrightarrow> mode1 = mode \<and> r1 = r"
  using assms by (auto simp: RelayMidjourneySubmit_def Let_def split: if_splits res.splits)

text \<open>A round that finds one unfinished row, whose channel answers with one item.\<close>

lemma mj_round_single:
  assumes "GetAllUnFinishTasks True (mj_rows st) = [t]" "mt_MjId t \<noteq> []" "mc_channel (cp (mt_ChannelId t))" "mc_base (cp (mt_ChannelId t)) = Some b"
    "mc_answer (cp (mt_ChannelId t)) = Some [n]"
  shows "updateMidjourneyTasks cp True nulls_ok [mt_ChannelId t] st =
     mj_item_step (mc_env (cp (mt_ChannelId t)) 0) n (st\<lparr>mj_rows := mj_rows st, mj_mem := gm_put [] (mt_MjId t) t\<rparr>)"
  using assms by (simp add: updateMidjourneyTasks_def mj_channel_def split: res.split)

text \<open>The refund of an unfinished row whose item, after the check of its age, is a failure.\<close>

lemma mj_step_refund:
  assumes mem: "gm_get (mj_mem st) (mi_MjId n) = Some t" and t: "mt_Progress t \<noteq> ''100%''" "0 < mt_Quota t"
    and n: "mi_Status (mj_timeout (mv_now env) t n) = ''FAILURE''" "mi_Progress n = ''100%''"
    and ok: "mv_save_ok env" "mv_batch env \<or> mv_refund_ok env"
  obtains st' where "mj_item_step env n st = Ok st'" "user_quota (mj_ledger st') = shift (mt_UserId t) (- mt_Quota t) (user_quota (mj_ledger st))"
    "map_option mt_Status (gm_get (mj_rows st') (mt_Id t)) = Some ''FAILURE''"
proof -
  define n1 where "n1 = mj_timeout (mv_now env) t n"
  have n1: "mi_Status n1 = ''FAILURE''" "mi_Progress n1 = ''100%''" "mi_MjId n1 = mi_MjId n"
    using n by (simp_all add: n1_def mj_timeout_def)
  have up: "checkMjTaskNeedUpdate (mv_urls env) t n1" using t(1) n1(2) by (simp add: checkMjTaskNeedUpdate_def)
  define t1 where "t1 = (mj_merge (mv_urls env) n1 t)\<lparr>mt_Progress := ''100%''\<rparr>"
  have t1: "mt_UserId t1 = mt_UserId t" "mt_Quota t1 = mt_Quota t" "mt_Id t1 = mt_Id t" "mt_Status t1 = ''FAILURE''"
    using n1 by (simp_all add: t1_def mj_merge_def)
  have m: "mt_Progress (mj_merge (mv_urls env) n1 t) = ''100%''" "mt_Status (mj_merge (mv_urls env) n1 t) = ''FAILURE''"
    using n1 by (simp_all add: mj_merge_def)
  show ?thesis
  proof (rule that)
    show "mj_item_step env n st = Ok \<lparr>mj_rows = MjUpdate True t1 (mj_rows st), mj_mem = gm_put (mj_mem st) (mi_MjId n) t1,
        mj_ledger = snd (IncreaseUserQuota (mv_batch env) (mv_refund_ok env) (mt_UserId t1) (mt_Quota t1) False (mj_ledger st))\<rparr>"
      using t(2) by (simp add: mj_item_step_def mem Let_def n1_def [symmetric] up m n1 ok t1_def [symmetric] t1)
  qed (use refund_quota [of "mt_Quota t" "mv_batch env" "mv_refund_ok env"] t(2) ok t1 in simp_all)
qed

section \<open>Properties\<close>

definition demo_mj_env :: mj_env where
  "demo_mj_env = \<lparr>mh_read_ok = True, mh_check_success = True, mh_channel = (\<lambda>c. if c = 7 then Some (demo_channel\<lparr>ch_BaseURL := Some ''https://up''\<rparr>) else None),
     mh_urls = [], mh_auto_disable = True, mh_price = 40, mh_answer = MjDecoded 200
       \<lparr>mx_Code = 1, mx_Description = ''ok'', mx_Result = ''m9'', mx_props = None\<rparr>,
     mh_insert_ok = True, mh_new_id = 9, mh_now = 5000000, mh_start = 4000000, mh_bill = demo_bill_env\<rparr>"

definition demo_mj_row :: midjourney where
  "demo_mj_row = \<lparr>mt_Id = 1, mt_Code = 1, mt_UserId = 1, mt_Action = ''IMAGINE'', mt_MjId = ''m1'', mt_Prompt = ''cat'', mt_PromptEn = [],
     mt_Description = [], mt_State = [], mt_SubmitTime = 4000000, mt_StartTime = 4000000, mt_FinishTime = 4500000, mt_ImageUrl = ''u'',
     mt_VideoUrl = [], mt_VideoUrls = [], mt_Status = ''SUCCESS'', mt_Progress = ''100%'', mt_FailReason = [], mt_ChannelId = 7,
     mt_Quota = 40, mt_Buttons = [], mt_Properties = []\<rparr>"

definition demo_mj_relay :: mj_relay where
  "demo_mj_relay = \<lparr>mf_ctx = \<lparr>mg_channel_id = 3, mg_base_url = ''https://three'', mg_key = ''Bearer k3'', mg_authorization = []\<rparr>,
     mf_rows = [], mf_info = demo_info, mf_bill = demo_bill, mf_channel = 0, mf_sent = [], mf_disabled = []\<rparr>"

definition demo_mj_request :: mj_request where
  "demo_mj_request = \<lparr>mj_CustomId = [], mj_Action = ''INPAINT'', mj_Index = 1, mj_TaskId = ''m1'', mj_Content = []\<rparr>"

definition demo_mj_item :: "string \<Rightarrow> string \<Rightarrow> string \<Rightarrow> mj_item" where
  "demo_mj_item i status progress = \<lparr>mi_MjId = i, mi_PromptEn = [], mi_State = [], mi_SubmitTime = 0, mi_StartTime = 0, mi_FinishTime = 0,
     mi_ImageUrl = ''u'', mi_VideoUrl = [], mi_VideoUrls = [], mi_Status = status, mi_Progress = progress, mi_FailReason = [],
     mi_Buttons = None, mi_Properties = None\<rparr>"

definition demo_mj_poll :: "mj_item list \<Rightarrow> mj_channel_poll" where
  "demo_mj_poll items = \<lparr>mc_channel = True, mc_bulk_ok = True, mc_reason = [], mc_base = Some ''https://up'', mc_answer = Some items,
     mc_env = (\<lambda>_. \<lparr>mv_now = 5000000, mv_urls = concat, mv_batch = False, mv_save_ok = True, mv_refund_ok = True\<rparr>)\<rparr>"

text \<open>The parts of the example.\<close>

abbreviation demo_mj_start :: mj_relay where
  "demo_mj_start \<equiv> demo_mj_relay\<lparr>mf_rows := [(1, demo_mj_row)]\<rparr>"

lemma demo_mj_parts [simp]: "mf_info demo_mj_relay = demo_info" "mf_bill demo_mj_relay = demo_bill" "mf_rows demo_mj_relay = []"
  "mf_ctx demo_mj_relay = \<lparr>mg_channel_id = 3, mg_base_url = ''https://three'', mg_key = ''Bearer k3'', mg_authorization = []\<rparr>"
  "mh_bill demo_mj_env = demo_bill_env" "mh_price demo_mj_env = 40" "mh_new_id demo_mj_env = 9" "mh_insert_ok demo_mj_env"
  "mh_read_ok demo_mj_env" "mh_urls demo_mj_env = []"
  "mh_channel demo_mj_env 7 = Some (demo_channel\<lparr>ch_BaseURL := Some ''https://up''\<rparr>)"
  "mh_answer demo_mj_env = MjDecoded 200 \<lparr>mx_Code = 1, mx_Description = ''ok'', mx_Result = ''m9'', mx_props = None\<rparr>"
  by (simp_all add: demo_mj_relay_def demo_mj_env_def)

lemma demo_mj_row_parts [simp]: "mt_Id demo_mj_row = 1" "mt_UserId demo_mj_row = 1" "mt_MjId demo_mj_row = ''m1''"
  "mt_Status demo_mj_row = ''SUCCESS''" "mt_Progress demo_mj_row = ''100%''" "mt_ChannelId demo_mj_row = 7" "mt_Quota demo_mj_row = 40"
  "mt_Prompt demo_mj_row = ''cat''"
  by (simp_all add: demo_mj_row_def)

lemma demo_mj_action: "mj_action RelayModeMidjourneyChange ''cat'' demo_mj_request = Ok (demo_mj_request, Some ''m1'')"
  by (simp add: mj_action_def demo_mj_request_def)

lemma demo_mj_GetByMJId: "GetByMJId True 1 ''m1'' [(1, demo_mj_row)] = Some demo_mj_row"
  by (simp add: GetByMJId_def)

lemma demo_mj_origin: "mj_origin demo_mj_env RelayModeMidjourneyChange ''m1'' (demo_mj_start\<lparr>mf_channel := 3\<rparr>) =
   Ok (''cat'', demo_mj_start\<lparr>mf_channel := 3, mf_ctx := \<lparr>mg_channel_id = 7, mg_base_url = ''https://up'', mg_key = ''Bearer k3'',
     mg_authorization = ''Bearer '' @ ch_Key demo_channel\<rparr>\<rparr>)"
  by (simp add: mj_origin_def demo_fields demo_mj_GetByMJId ChannelStatusEnabled_def GetBaseURL_def demo_channel_def)

lemma demo_mj_submit:
  obtains st' t where "RelayMidjourneySubmit demo_mj_env RelayModeMidjourneyChange (Some (''cat'', demo_mj_request)) demo_mj_start = ((False, None), st')"
    "mf_rows st' = gm_put [(1, demo_mj_row)] 9 t" "mt_Action t = ''INPAINT''" "mt_Progress t = ''0%''" "mt_MjId t = ''m9''" "mt_ChannelId t = 7"
    "mt_UserId t = 1"
proof -
  let ?x = "RelayMidjourneySubmit demo_mj_env RelayModeMidjourneyChange (Some (''cat'', demo_mj_request)) demo_mj_start"
  have a: "mj_Action demo_mj_request = ''INPAINT''" by (simp add: demo_mj_request_def)
  have q: "GetUserQuota demo_bill_env 1 demo_ledger = Some 1000"
    by (simp add: GetUserQuota_def demo_bill_env_def demo_ledger_def gm_get_def demo_user_def)
  have "fst ?x = (False, None) \<and> (\<exists>t. mf_rows (snd ?x) = gm_put [(1, demo_mj_row)] 9 t \<and> mt_Action t = ''INPAINT'' \<and>
      mt_Progress t = ''0%'' \<and> mt_MjId t = ''m9'' \<and> mt_ChannelId t = 7 \<and> mt_UserId t = 1)"
    by (simp add: RelayMidjourneySubmit_def mj_submit_action_def demo_mj_action demo_mj_origin demo_fields q a
        DoMidjourneyHttpRequest_def mj_finish_def Let_def mj_new_row_def mj_record_code_def MjInsert_def mj_send_def split: prod.split)
      (rule exI, rule conjI, rule refl, simp)
  then show ?thesis using that [of "snd ?x"] by (metis prod.collapse)
qed

text \<open>The row and the charge of a successful submission.\<close>

lemma mj_submission_row:
  assumes "RelayMidjourneySubmit env mode (Some (prompt, r)) st = ((False, None), st')" "writes_ok (mh_bill env)"
    "DoMidjourneyHttpRequest (mh_answer env) = (status, resp, False)"
  shows "\<exists>t. mf_rows st' = gm_put (mf_rows st) (mh_new_id env) t \<and> mt_Quota t = mh_price env \<and> mt_UserId t = ri_UserId (mf_info st) \<and>
    mt_MjId t = mx_Result resp \<and>
    user_quota (bs_ledger (mf_bill st')) = shift (mt_UserId t)
      (if mt_Action t \<notin> {''INPAINT'', ''CUSTOM_ZOOM''} \<and> mx_Code resp \<in> {1, 21, 22} \<and> status = 200 then mh_price env else 0)
      (user_quota (bs_ledger (mf_bill st)))"
proof -
  obtain mode1 r0 where a: "mj_submit_action env mode1 prompt r0 (st\<lparr>mf_channel := mg_channel_id (mf_ctx st)\<rparr>) = ((False, None), st')"
    by (rule submit_as_action [OF assms(1)])
  obtain r1 :: mj_request and origin prompt1 st1 status' resp' where
    o: "(case origin of None \<Rightarrow> Ok (prompt, st\<lparr>mf_channel := mg_channel_id (mf_ctx st)\<rparr>)
          | Some mjId \<Rightarrow> mj_origin env mode1 mjId (st\<lparr>mf_channel := mg_channel_id (mf_ctx st)\<rparr>)) = Ok (prompt1, st1)"
    and d: "DoMidjourneyHttpRequest (mh_answer env) = (status', resp', False)"
    and f: "mj_finish env (mj_Action r1 \<noteq> ''INPAINT'' \<and> mj_Action r1 \<noteq> ''CUSTOM_ZOOM'') (mj_Action r1) prompt1 status' resp' (mj_send st1) = ((False, None), st')"
    by (rule mj_submit_action_success [OF a]) blast
  have k: "mf_rows st1 = mf_rows st" "mf_info st1 = mf_info st" "mf_bill st1 = mf_bill st"
    using o mj_origin_keeps by (auto split: option.splits)
  obtain t where t: "mf_rows st' = gm_put (mf_rows st) (mh_new_id env) t" "mt_Quota t = mh_price env" "mt_UserId t = ri_UserId (mf_info st)"
    "mt_MjId t = mx_Result resp'" "mt_Action t = mj_Action r1"
    "user_quota (bs_ledger (mf_bill st')) = shift (mt_UserId t)
      (if (mj_Action r1 \<noteq> ''INPAINT'' \<and> mj_Action r1 \<noteq> ''CUSTOM_ZOOM'') \<and> mx_Code resp' \<in> {1, 21, 22} \<and> status' = 200 then mh_price env else 0)
      (user_quota (bs_ledger (mf_bill st)))"
    using mj_finish_row [OF f assms(2)] by (auto simp: mj_send_keeps k)
  have "status' = status" "resp' = resp" using d assms(3) by simp_all
  with t show ?thesis by (intro exI [of _ t]) (simp add: conj_assoc)
qed

text \<open>
  C37. Every Midjourney submission that succeeds inserts a row that holds the price as its quota; the user pays
  the price exactly when the action is neither a repaint nor a custom zoom, the upstream answered with
  status 200 and its code is one of 1, 21 and 22.
\<close>

theorem mj_submission_charged_iff:
  assumes "RelayMidjourneySubmit env mode (Some (prompt, r)) st = ((False, None), st')" "writes_ok (mh_bill env)"
    "DoMidjourneyHttpRequest (mh_answer env) = (status, resp, False)"
  shows "\<exists>t. mf_rows st' = gm_put (mf_rows st) (mh_new_id env) t \<and> mt_Quota t = mh_price env \<and> mt_UserId t = ri_UserId (mf_info st) \<and>
    mt_MjId t = mx_Result resp \<and>
    user_quota (bs_ledger (mf_bill st')) = shift (mt_UserId t)
      (if mt_Action t \<notin> {''INPAINT'', ''CUSTOM_ZOOM''} \<and> mx_Code resp \<in> {1, 21, 22} \<and> status = 200 then mh_price env else 0)
      (user_quota (bs_ledger (mf_bill st)))"
  by (rule mj_submission_row [OF assms])

theorem mj_submission_charged_iff_witness:
  "case RelayMidjourneySubmit demo_mj_env RelayModeMidjourneyChange (Some (''cat'', demo_mj_request)) demo_mj_start of (r, st') \<Rightarrow>
     \<exists>t. mf_rows st' = gm_put [(1, demo_mj_row)] 9 t \<and> mt_Quota t = 40 \<and> mt_UserId t = 1"
proof -
  obtain st' where s: "RelayMidjourneySubmit demo_mj_env RelayModeMidjourneyChange (Some (''cat'', demo_mj_request)) demo_mj_start = ((False, None), st')"
    by (rule demo_mj_submit)
  show ?thesis
    using mj_submission_charged_iff [OF s, of 200 "\<lparr>mx_Code = 1, mx_Description = ''ok'', mx_Result = ''m9'', mx_props = None\<rparr>"]
    by (auto simp: s writes_ok_def demo_bill_env_def DoMidjourneyHttpRequest_def demo_fields)
qed

text \<open>
  A repaint or a custom zoom is free, and its row still holds the price: when the upstream later reports
  it as failed, the next polling round pays the user a price that was never charged.
\<close>

theorem mj_refund_uncharged:
  assumes "RelayMidjourneySubmit env mode (Some (prompt, r)) st = ((False, None), st')" "writes_ok (mh_bill env)"
    "DoMidjourneyHttpRequest (mh_answer env) = (status, resp, False)" "gm_get (mf_rows st') (mh_new_id env) = Some t"
    "mt_Action t \<in> {''INPAINT'', ''CUSTOM_ZOOM''}" "0 < mh_price env"
    "GetAllUnFinishTasks True (mf_rows st') = [t]" "mt_Progress t \<noteq> ''100%''" "mt_MjId t \<noteq> []"
    "mc_channel (cp (mt_ChannelId t))" "mc_base (cp (mt_ChannelId t)) = Some b" "mc_answer (cp (mt_ChannelId t)) = Some [n]"
    "mi_MjId n = mt_MjId t" "mi_Status n = ''FAILURE''" "mi_Progress n = ''100%''"
    "mv_save_ok (mc_env (cp (mt_ChannelId t)) 0)" "mv_refund_ok (mc_env (cp (mt_ChannelId t)) 0)"
  shows "\<exists>st2. updateMidjourneyTasks cp True nulls_ok [mt_ChannelId t]
       \<lparr>mj_rows = mf_rows st', mj_mem = [], mj_ledger = bs_ledger (mf_bill st')\<rparr> = Ok st2 \<and>
     user_quota (mj_ledger st2) = shift (mt_UserId t) (- mh_price env) (user_quota (bs_ledger (mf_bill st)))"
proof -
  have t: "mt_Quota t = mh_price env" "user_quota (bs_ledger (mf_bill st')) = user_quota (bs_ledger (mf_bill st))"
    using mj_submission_row [OF assms(1-3)] assms(4,5) by auto
  let ?st = "\<lparr>mj_rows = mf_rows st', mj_mem = gm_put [] (mt_MjId t) t, mj_ledger = bs_ledger (mf_bill st')\<rparr>"
  have m: "gm_get (mj_mem ?st) (mi_MjId n) = Some t" using assms(13) by simp
  obtain st2 where s2: "mj_item_step (mc_env (cp (mt_ChannelId t)) 0) n ?st = Ok st2"
    "user_quota (mj_ledger st2) = shift (mt_UserId t) (- mt_Quota t) (user_quota (mj_ledger ?st))"
    by (rule mj_step_refund [OF m, of "mc_env (cp (mt_ChannelId t)) 0"]) (use assms t in \<open>simp_all add: mj_timeout_def\<close>)
  show ?thesis
    using mj_round_single [of "\<lparr>mj_rows = mf_rows st', mj_mem = [], mj_ledger = bs_ledger (mf_bill st')\<rparr>" t cp b n nulls_ok] assms s2 t
    by simp
qed

theorem mj_refund_uncharged_witness:
  "\<exists>st' st2. RelayMidjourneySubmit demo_mj_env RelayModeMidjourneyChange (Some (''cat'', demo_mj_request)) demo_mj_start = ((False, None), st') \<and>
     updateMidjourneyTasks (\<lambda>_. demo_mj_poll [demo_mj_item ''m9'' ''FAILURE'' ''100%'']) True True [7]
       \<lparr>mj_rows = mf_rows st', mj_mem = [], mj_ledger = bs_ledger (mf_bill st')\<rparr> = Ok st2 \<and>
     user_quota (mj_ledger st2) 1 = Some 1040"
proof -
  let ?cp = "\<lambda>_::int. demo_mj_poll [demo_mj_item ''m9'' ''FAILURE'' ''100%'']"
  obtain st' t where s: "RelayMidjourneySubmit demo_mj_env RelayModeMidjourneyChange (Some (''cat'', demo_mj_request)) demo_mj_start = ((False, None), st')"
    and t: "mf_rows st' = gm_put [(1, demo_mj_row)] 9 t" "mt_Action t = ''INPAINT''" "mt_Progress t = ''0%''" "mt_MjId t = ''m9''" "mt_ChannelId t = 7" "mt_UserId t = 1"
    by (rule demo_mj_submit)
  have u: "GetAllUnFinishTasks True (mf_rows st') = [t]" "gm_get (mf_rows st') (mh_new_id demo_mj_env) = Some t"
    using t by (simp_all add: GetAllUnFinishTasks_def gm_put_def gm_get_def)
  show ?thesis
    using mj_refund_uncharged [OF s, of 200 "\<lparr>mx_Code = 1, mx_Description = ''ok'', mx_Result = ''m9'', mx_props = None\<rparr>" t ?cp "''https://up''" "demo_mj_item ''m9'' ''FAILURE'' ''100%''" True]
      s t u demo_balances
    by (auto simp: writes_ok_def demo_bill_env_def DoMidjourneyHttpRequest_def demo_fields demo_mj_poll_def demo_mj_item_def shift_def)
qed

text \<open>
  A notification names no user: any client that may call the relay turns a finished, successful row back
  into an unfinished one, with a submission time of zero, and the next polling round takes the upstream's
  unchanged report of the success for a task that timed out. It marks the row as failed and refunds its quota.
\<close>

theorem mj_notify_refunds_success:
  assumes "rows = [(mt_Id t, t)]" "mt_MjId t \<noteq> []" "0 < mt_Quota t"
    "mi_MjId n = mt_MjId t" "mi_SubmitTime n = 0" "mi_Progress n \<noteq> ''100%''"
    "mc_channel (cp (mt_ChannelId t))" "mc_base (cp (mt_ChannelId t)) = Some b" "mc_answer (cp (mt_ChannelId t)) = Some [it]"
    "mi_MjId it = mt_MjId t" "mi_Progress it = ''100%''"
    "3600000 < mv_now (mc_env (cp (mt_ChannelId t)) 0)"
    "mv_save_ok (mc_env (cp (mt_ChannelId t)) 0)" "mv_refund_ok (mc_env (cp (mt_ChannelId t)) 0)"
  shows "\<exists>rows1 st2. RelayMidjourneyNotify urls True True (Some n) rows = (None, rows1) \<and>
     updateMidjourneyTasks cp True nulls_ok [mt_ChannelId t] \<lparr>mj_rows = rows1, mj_mem = [], mj_ledger = lg\<rparr> = Ok st2 \<and>
     user_quota (mj_ledger st2) = shift (mt_UserId t) (- mt_Quota t) (user_quota lg) \<and>
     map_option mt_Status (gm_get (mj_rows st2) (mt_Id t)) = Some ''FAILURE''"
proof -
  obtain rows1 t1 where r: "RelayMidjourneyNotify urls True True (Some n) rows = (None, rows1)" "rows1 = [(mt_Id t, t1)]"
    and t1: "mt_Id t1 = mt_Id t" "mt_MjId t1 = mt_MjId t" "mt_ChannelId t1 = mt_ChannelId t" "mt_Quota t1 = mt_Quota t"
      "mt_UserId t1 = mt_UserId t" "mt_SubmitTime t1 = 0" "mt_Progress t1 \<noteq> ''100%''"
    using assms(1,4-6) by (simp add: RelayMidjourneyNotify_def GetByOnlyMJId_def MjUpdate_def gm_put_def)
  let ?st = "\<lparr>mj_rows = rows1, mj_mem = gm_put [] (mt_MjId t1) t1, mj_ledger = lg\<rparr>"
  have m: "gm_get (mj_mem ?st) (mi_MjId it) = Some t1" using assms(10) t1 by simp
  obtain st2 where s2: "mj_item_step (mc_env (cp (mt_ChannelId t)) 0) it ?st = Ok st2"
    "user_quota (mj_ledger st2) = shift (mt_UserId t1) (- mt_Quota t1) (user_quota (mj_ledger ?st))"
    "map_option mt_Status (gm_get (mj_rows st2) (mt_Id t1)) = Some ''FAILURE''"
    by (rule mj_step_refund [OF m, of "mc_env (cp (mt_ChannelId t)) 0"]) (use assms t1 in \<open>simp_all add: mj_timeout_def\<close>)
  have u: "GetAllUnFinishTasks True rows1 = [t1]" using r t1 by (simp add: GetAllUnFinishTasks_def)
  show ?thesis
    using r(1) mj_round_single [of "\<lparr>mj_rows = rows1, mj_mem = [], mj_ledger = lg\<rparr>" t1 cp b it nulls_ok] assms s2 t1 u by simp
qed

theorem mj_notify_refunds_success_witness:
  "\<exists>rows1 st2. RelayMidjourneyNotify concat True True (Some (demo_mj_item ''m1'' [] ''50%'')) [(1, demo_mj_row)] = (None, rows1) \<and>
     updateMidjourneyTasks (\<lambda>_. demo_mj_poll [demo_mj_item ''m1'' ''SUCCESS'' ''100%'']) True True [7]
       \<lparr>mj_rows = rows1, mj_mem = [], mj_ledger = demo_ledger\<rparr> = Ok st2 \<and> user_quota (mj_ledger st2) 1 = Some 1040"
  using mj_notify_refunds_success [of "[(1, demo_mj_row)]" demo_mj_row "demo_mj_item ''m1'' [] ''50%''"
      "\<lambda>_. demo_mj_poll [demo_mj_item ''m1'' ''SUCCESS'' ''100%'']" "''https://up''" "demo_mj_item ''m1'' ''SUCCESS'' ''100%''" concat True demo_ledger]
    demo_balances
  by (auto simp: demo_mj_poll_def demo_mj_item_def shift_def)

text \<open>
  A request that continues another task is sent to the address of the task's own channel, but with the
  key of the channel that was selected for the request: the key of the task's channel only reaches the
  \<^verbatim>\<open>Authorization\<close> header of the incoming request, which the call does not read.
\<close>

theorem mj_wrong_key:
  assumes "RelayMidjourneySubmit env mode (Some (prompt, r)) st = ((False, None), st')"
    "mode \<notin> {RelayModeMidjourneyAction, RelayModeMidjourneyVideo}"
    "mj_action mode prompt r = Ok (r1, Some mjId)"
    "GetByMJId (mh_read_ok env) (ri_UserId (mf_info st)) mjId (mf_rows st) = Some t"
    "mh_channel env (mt_ChannelId t) = Some ch" "writes_ok (mh_bill env)"
  shows "\<exists>url. GetBaseURL (mh_urls env) ch = Some url \<and>
    mf_sent st' = mf_sent st @ [(url, go_trim_prefix (mg_key (mf_ctx st)) ''Bearer '')]"
proof -
  have a: "mj_submit_action env mode prompt r (st\<lparr>mf_channel := mg_channel_id (mf_ctx st)\<rparr>) = ((False, None), st')"
    using submit_as_action [OF assms(1)] assms(2) by metis
  obtain r0 :: mj_request and origin prompt1 st1 status resp where b: "mj_action mode prompt r = Ok (r0, origin)"
    "(case origin of None \<Rightarrow> Ok (prompt, st\<lparr>mf_channel := mg_channel_id (mf_ctx st)\<rparr>)
       | Some mjId \<Rightarrow> mj_origin env mode mjId (st\<lparr>mf_channel := mg_channel_id (mf_ctx st)\<rparr>)) = Ok (prompt1, st1)"
    "mj_finish env (mj_Action r0 \<noteq> ''INPAINT'' \<and> mj_Action r0 \<noteq> ''CUSTOM_ZOOM'') (mj_Action r0) prompt1 status resp (mj_send st1) = ((False, None), st')"
    by (rule mj_submit_action_success [OF a]) blast
  have o: "mj_origin env mode mjId (st\<lparr>mf_channel := mg_channel_id (mf_ctx st)\<rparr>) = Ok (prompt1, st1)"
    using b(2) unfolding b(1) [unfolded assms(3) res.inject prod.inject, THEN conjunct2, symmetric] option.case .
  then obtain url where u: "GetBaseURL (mh_urls env) ch = Some url" "mg_base_url (mf_ctx st1) = url"
    using assms(4,5) by (auto simp: mj_origin_def split: option.splits if_splits)
  have "mf_sent st' = mf_sent (mj_send st1)" using mj_finish_row [OF b(3) assms(6)] by auto
  then show ?thesis using u mj_origin_keeps [OF o] by (simp add: mj_send_def)
qed

theorem mj_wrong_key_witness:
  "\<exists>st'. RelayMidjourneySubmit demo_mj_env RelayModeMidjourneyChange (Some (''cat'', demo_mj_request)) demo_mj_start = ((False, None), st') \<and>
     mf_sent st' = [(''https://up'', ''k3'')]"
proof -
  obtain st' t where s: "RelayMidjourneySubmit demo_mj_env RelayModeMidjourneyChange (Some (''cat'', demo_mj_request)) demo_mj_start = ((False, None), st')"
    by (rule demo_mj_submit)
  have k: "go_trim_prefix ''Bearer k3'' ''Bearer '' = ''k3''" by code_simp
  have sent: "mf_sent demo_mj_relay = []" by (simp add: demo_mj_relay_def)
  show ?thesis
    using s mj_wrong_key [OF s _ demo_mj_action, of demo_mj_row] k sent
    by (auto simp: demo_mj_GetByMJId demo_fields GetBaseURL_def writes_ok_def demo_bill_env_def)
qed

end
