(* ===== verification/Stream_Convert.thy ===== *)
theory Stream_Convert
  imports Request_Model
begin

text \<open>
  Streams of OpenAI-compatible upstreams (\<^verbatim>\<open>internal/adapter/provider/openai/relay-openai.go\<close>, \<^verbatim>\<open>helper.go\<close>)
  and their translation for clients of the Claude and Gemini interfaces (\<^verbatim>\<open>internal/app/convert.go\<close>). A chunk
  is the decoded value of one line of the stream; decoding is an argument. An event is what one line
  written to the client says. The indices the code takes the address of do not change between the making
  of an event and its writing, so events hold their values. Errors of writing are ignored, as in the code.
\<close>

section \<open>Chunks\<close>

record oai_usage =
  ou_PromptTokens :: int
  ou_CompletionTokens :: int
  ou_TotalTokens :: int
  ou_PromptCacheHitTokens :: int
  ou_CachedTokens :: int
  ou_CachedCreationTokens :: int
  ou_InputCached :: "int option"     \<comment> \<open>\<^verbatim>\<open>InputTokensDetails.CachedTokens\<close>\<close>

record fn_call =
  fn_Index :: "int option"
  fn_ID :: string
  fn_Name :: string
  fn_Arguments :: string

record stream_delta =
  dl_Content :: "string option"
  dl_ReasoningContent :: "string option"
  dl_Reasoning :: "string option"
  dl_ToolCalls :: "fn_call list option"

record stream_choice =
  so_Delta :: stream_delta
  so_FinishReason :: "string option"
  so_Index :: int

record chunk =
  ck_Id :: string
  ck_Created :: int
  ck_Model :: string
  ck_SystemFingerprint :: "string option"
  ck_Choices :: "stream_choice list"
  ck_Usage :: "oai_usage option"

definition GetContentString :: "stream_delta \<Rightarrow> string" where
  "GetContentString d = (case dl_Content d of None \<Rightarrow> [] | Some s \<Rightarrow> s)"

definition GetReasoningContent :: "stream_delta \<Rightarrow> string" where
  "GetReasoningContent d =
     (case dl_ReasoningContent d of Some s \<Rightarrow> s | None \<Rightarrow> (case dl_Reasoning d of Some s \<Rightarrow> s | None \<Rightarrow> []))"

definition delta_tools :: "stream_delta \<Rightarrow> fn_call list" where
  "delta_tools d = (case dl_ToolCalls d of None \<Rightarrow> [] | Some ts \<Rightarrow> ts)"

definition IsToolCall :: "chunk \<Rightarrow> bool" where
  "IsToolCall c = (case ck_Choices c of [] \<Rightarrow> False | ch # chs \<Rightarrow> delta_tools (so_Delta ch) \<noteq> [])"

definition ValidUsage :: "oai_usage option \<Rightarrow> bool" where
  "ValidUsage u = (case u of None \<Rightarrow> False | Some u \<Rightarrow> ou_PromptTokens u \<noteq> 0 \<or> ou_CompletionTokens u \<noteq> 0)"

text \<open>A reason to finish that is neither missing nor empty.\<close>

definition finish_reason :: "stream_choice \<Rightarrow> string option" where
  "finish_reason ch = (case so_FinishReason ch of None \<Rightarrow> None | Some r \<Rightarrow> if r = [] then None else Some r)"

section \<open>Claude\<close>

datatype claude_block = ToolUseBlock string string | ThinkingBlock | TextBlock

datatype claude_delta = InputJsonDelta string | ThinkingDelta string | TextDelta string

record event_tokens =
  cw_InputTokens :: int
  cw_OutputTokens :: int
  cw_CacheCreation :: int
  cw_CacheRead :: int

datatype claude_event =
    MessageStart string string int       \<comment> \<open>id, model, input tokens\<close>
  | BlockStart int claude_block
  | BlockDelta int claude_delta
  | BlockStop int
  | MessageDelta event_tokens string    \<comment> \<open>usage, stop reason\<close>
  | MessageStop

datatype message_type = LastMessageTypeNone | LastMessageTypeText | LastMessageTypeTools | LastMessageTypeThinking

record claude_convert =
  cv_LastMessagesType :: message_type
  cv_Index :: int
  cv_Usage :: "oai_usage option"
  cv_FinishReason :: string
  cv_Done :: bool

definition stopReasonOpenAI2Claude :: "string \<Rightarrow> string" where
  "stopReasonOpenAI2Claude reason =
     (if reason = ''stop'' then ''end_turn''
      else if reason = ''stop_sequence'' then ''stop_sequence''
      else if reason = ''length'' \<or> reason = ''max_tokens'' then ''max_tokens''
      else if reason = ''tool_calls'' then ''tool_use''
      else reason)"

definition event_tokens :: "oai_usage \<Rightarrow> event_tokens" where
  "event_tokens u = \<lparr>cw_InputTokens = ou_PromptTokens u, cw_OutputTokens = ou_CompletionTokens u,
     cw_CacheCreation = ou_CachedCreationTokens u, cw_CacheRead = ou_CachedTokens u\<rparr>"

text \<open>The events of the end, with the usage that is known.\<close>

definition claude_end :: "oai_usage option \<Rightarrow> claude_convert \<Rightarrow> claude_event list" where
  "claude_end usage cv =
     [BlockStop (cv_Index cv)] @
     (case usage of None \<Rightarrow> [] | Some u \<Rightarrow> [MessageDelta (event_tokens u) (stopReasonOpenAI2Claude (cv_FinishReason cv))]) @
     [MessageStop]"

definition claude_finish :: "chunk \<Rightarrow> claude_convert \<Rightarrow> claude_event list \<times> claude_convert" where
  "claude_finish c cv =
     (claude_end (case ck_Usage c of None \<Rightarrow> cv_Usage cv | Some u \<Rightarrow> Some u) cv, cv\<lparr>cv_Done := True\<rparr>)"

text \<open>A chunk while the count of responses is one.\<close>

definition claude_first :: "int \<Rightarrow> chunk \<Rightarrow> claude_convert \<Rightarrow> claude_event list \<times> claude_convert" where
  "claude_first prompt c cv =
     (let start = [MessageStart (ck_Id c) (ck_Model c) prompt];
          (tools, cv1) = (case ck_Choices c of
              ch # chs \<Rightarrow>
                (case delta_tools (so_Delta ch) of
                   t # ts \<Rightarrow> (BlockStart 0 (ToolUseBlock (fn_ID t) (fn_Name t)) #
                       (if fn_Arguments t \<noteq> [] then [BlockDelta (cv_Index cv) (InputJsonDelta (fn_Arguments t))] else []),
                     cv\<lparr>cv_LastMessagesType := LastMessageTypeTools\<rparr>)
                 | [] \<Rightarrow> ([], cv))
            | [] \<Rightarrow> ([], cv));
          (body, cv2) = (case ck_Choices c of
              [] \<Rightarrow> ([], cv1)
            | ch # chs \<Rightarrow>
                if GetReasoningContent (so_Delta ch) \<noteq> [] then
                  ([BlockStart (cv_Index cv1) ThinkingBlock, BlockDelta (cv_Index cv1) (ThinkingDelta (GetReasoningContent (so_Delta ch)))],
                   cv1\<lparr>cv_LastMessagesType := LastMessageTypeThinking\<rparr>)
                else if GetContentString (so_Delta ch) \<noteq> [] then
                  ([BlockStart (cv_Index cv1) TextBlock, BlockDelta (cv_Index cv1) (TextDelta (GetContentString (so_Delta ch)))],
                   cv1\<lparr>cv_LastMessagesType := LastMessageTypeText\<rparr>)
                else ([], cv1))
      in case (case ck_Choices c of [] \<Rightarrow> None | ch # chs \<Rightarrow> finish_reason ch) of
           None \<Rightarrow> (start @ tools @ body, cv2)
         | Some r \<Rightarrow>
             (let (ending, cv3) = claude_finish c (cv2\<lparr>cv_FinishReason := r\<rparr>) in (start @ tools @ body @ ending, cv3)))"

text \<open>The tool calls of a chunk, from number \<open>i\<close> on; \<open>many\<close> says that there is more than one.\<close>

fun claude_tool_calls :: "bool \<Rightarrow> int \<Rightarrow> fn_call list \<Rightarrow> claude_convert \<Rightarrow> claude_event list \<times> claude_convert" where
  "claude_tool_calls many i [] cv = ([], cv)"
| "claude_tool_calls many i (t # ts) cv =
     (let b = (case fn_Index t of Some k \<Rightarrow> k | None \<Rightarrow> if many then cv_Index cv + i else cv_Index cv);
          start = (if fn_Name t \<noteq> [] then [BlockStart b (ToolUseBlock (fn_ID t) (fn_Name t))] else []);
          args = (if fn_Arguments t \<noteq> [] then [BlockDelta b (InputJsonDelta (fn_Arguments t))] else []);
          (rest, cv1) = claude_tool_calls many (i + 1) ts (cv\<lparr>cv_Index := b\<rparr>)
      in (start @ args @ rest, cv1))"

definition claude_body :: "stream_delta \<Rightarrow> claude_convert \<Rightarrow> claude_event list \<times> claude_convert" where
  "claude_body d cv =
     (if delta_tools d \<noteq> [] then
        (let (stop, cv1) = (if cv_LastMessagesType cv \<noteq> LastMessageTypeTools
               then ([BlockStop (cv_Index cv)], cv\<lparr>cv_Index := cv_Index cv + 1\<rparr>) else ([], cv));
             (calls, cv2) = claude_tool_calls (1 < length (delta_tools d)) 0 (delta_tools d)
               (cv1\<lparr>cv_LastMessagesType := LastMessageTypeTools\<rparr>)
         in (stop @ calls, cv2))
      else if GetReasoningContent d \<noteq> [] then
        ((if cv_LastMessagesType cv \<noteq> LastMessageTypeThinking then [BlockStart (cv_Index cv) ThinkingBlock] else []) @
           [BlockDelta (cv_Index cv) (ThinkingDelta (GetReasoningContent d))],
         cv\<lparr>cv_LastMessagesType := LastMessageTypeThinking\<rparr>)
      else if GetContentString d \<noteq> [] then
        (let (stop, cv1) =
               (if cv_LastMessagesType cv = LastMessageTypeThinking \<or> cv_LastMessagesType cv = LastMessageTypeTools
                then ([BlockStop (cv_Index cv)], cv\<lparr>cv_Index := cv_Index cv + 1\<rparr>) else ([], cv));
             start = (if cv_LastMessagesType cv \<noteq> LastMessageTypeText then [BlockStart (cv_Index cv1) TextBlock] else [])
         in (stop @ start @ [BlockDelta (cv_Index cv1) (TextDelta (GetContentString d))], cv1\<lparr>cv_LastMessagesType := LastMessageTypeText\<rparr>))
      else ([], cv))"

definition claude_next :: "chunk \<Rightarrow> claude_convert \<Rightarrow> claude_event list \<times> claude_convert" where
  "claude_next c cv =
     (case ck_Choices c of
        [] \<Rightarrow> (if cv_Done cv then claude_end (cv_Usage cv) cv else [], cv)
      | ch # chs \<Rightarrow>
          (let cv0 = (case finish_reason ch of None \<Rightarrow> cv | Some r \<Rightarrow> cv\<lparr>cv_FinishReason := r\<rparr>);
               (body, cv1) = claude_body (so_Delta ch) cv0
           in if finish_reason ch \<noteq> None \<or> cv_Done cv1
              then (let (ending, cv2) = claude_finish c cv1 in (body @ ending, cv2))
              else (body, cv1)))"

definition StreamResponseOpenAI2Claude ::
    "int \<Rightarrow> int \<Rightarrow> chunk \<Rightarrow> claude_convert \<Rightarrow> claude_event list \<times> claude_convert" where
  "StreamResponseOpenAI2Claude prompt sendResponseCount c cv =
     (if cv_Done cv then ([], cv)
      else if sendResponseCount = 1 then claude_first prompt c cv
      else claude_next c cv)"

section \<open>Gemini\<close>

text \<open>The arguments of a call: an object that was decoded, or the text of something that was not.\<close>

datatype gemini_args = ArgsObject string | ArgsText string | ArgsNone

datatype gemini_out_part = GeminiText string | GeminiCall string gemini_args

record gemini_candidate =
  gc_Parts :: "gemini_out_part list"
  gc_FinishReason :: "string option"
  gc_Index :: int

record gemini_response =
  gs_Candidates :: "gemini_candidate list"
  gs_PromptTokenCount :: int
  gs_CandidatesTokenCount :: int
  gs_TotalTokenCount :: int

definition gemini_finish :: "string \<Rightarrow> string" where
  "gemini_finish r = (if r = ''stop'' then ''STOP'' else if r = ''length'' then ''MAX_TOKENS''
     else if r = ''content_filter'' then ''SAFETY'' else if r = ''tool_calls'' then ''STOP'' else ''STOP'')"

text \<open>\<open>is_object\<close> says which texts decode as a JSON object.\<close>

definition gemini_call :: "(string \<Rightarrow> bool) \<Rightarrow> string \<Rightarrow> string \<Rightarrow> gemini_out_part" where
  "gemini_call is_object name args =
     GeminiCall name (if args = [] then ArgsNone else if is_object args then ArgsObject args else ArgsText args)"

definition gemini_candidate :: "(string \<Rightarrow> bool) \<Rightarrow> stream_choice \<Rightarrow> gemini_candidate" where
  "gemini_candidate is_object ch =
     \<lparr>gc_Parts = (case dl_ToolCalls (so_Delta ch) of
          Some ts \<Rightarrow> map (\<lambda>t. gemini_call is_object (fn_Name t) (fn_Arguments t)) ts
        | None \<Rightarrow> if GetContentString (so_Delta ch) \<noteq> [] then [GeminiText (GetContentString (so_Delta ch))] else []),
      gc_FinishReason = map_option gemini_finish (so_FinishReason ch),
      gc_Index = so_Index ch\<rparr>"

definition StreamResponseOpenAI2Gemini :: "(string \<Rightarrow> bool) \<Rightarrow> int \<Rightarrow> chunk \<Rightarrow> gemini_response option" where
  "StreamResponseOpenAI2Gemini is_object prompt c =
     (if (\<forall>ch \<in> set (ck_Choices c). GetContentString (so_Delta ch) = [] \<and> delta_tools (so_Delta ch) = [] \<and> so_FinishReason ch = None)
      then None
      else Some \<lparr>gs_Candidates = map (gemini_candidate is_object) (ck_Choices c),
        gs_PromptTokenCount = (case ck_Usage c of None \<Rightarrow> prompt | Some u \<Rightarrow> ou_PromptTokens u),
        gs_CandidatesTokenCount = (case ck_Usage c of None \<Rightarrow> 0 | Some u \<Rightarrow> ou_CompletionTokens u),
        gs_TotalTokenCount = (case ck_Usage c of None \<Rightarrow> prompt | Some u \<Rightarrow> ou_TotalTokens u)\<rparr>)"

section \<open>The stream handler\<close>

datatype relay_format = RelayFormatOpenAI | RelayFormatClaude | RelayFormatGemini | RelayFormatOther

text \<open>What is written to the client: a line of the upstream as it is, or a value that is encoded.\<close>

datatype sse = SseRaw string | SseChunk chunk | SseClaude claude_event | SseGemini gemini_response | SseDone

record thinking_info =
  th_IsFirst :: bool
  th_SendLast :: bool
  th_HasSent :: bool

record stream_info =
  si_SendResponseCount :: int
  si_convert :: claude_convert
  si_thinking :: thinking_info

record stream_env =
  xv_format :: relay_format
  xv_mode :: relay_mode
  xv_model :: string
  xv_prompt :: int                                   \<comment> \<open>\<^verbatim>\<open>GetEstimatePromptTokens\<close>\<close>
  xv_force :: bool
  xv_think :: bool
  xv_include_usage :: bool                           \<comment> \<open>\<^verbatim>\<open>ShouldIncludeUsage\<close>\<close>
  xv_audio :: bool                                   \<comment> \<open>the model's name contains \<^verbatim>\<open>audio\<close>\<close>
  xv_channel_type :: int
  xv_chunk :: "string \<Rightarrow> chunk option"
  xv_chunks :: "string list \<Rightarrow> chunk list option"  \<comment> \<open>all items at once, as an array\<close>
  xv_texts :: "string \<Rightarrow> string list option"        \<comment> \<open>the texts of a chunk of the completions interface\<close>
  xv_all_texts :: "string list \<Rightarrow> string list option"
  xv_usage :: "string \<Rightarrow> oai_usage option"          \<comment> \<open>only the member \<^verbatim>\<open>usage\<close>\<close>
  xv_cached :: "string \<Rightarrow> int option"               \<comment> \<open>\<^verbatim>\<open>extractCachedTokensFromBody\<close>\<close>
  xv_moonshot_cached :: "string \<Rightarrow> int option"
  xv_is_object :: "string \<Rightarrow> bool"
  xv_estimate :: "string \<Rightarrow> int"                    \<comment> \<open>\<^verbatim>\<open>EstimateTokenByModel\<close> for the upstream's model\<close>

definition set_content :: "string \<Rightarrow> stream_choice \<Rightarrow> stream_choice" where
  "set_content s ch = ch\<lparr>so_Delta := (so_Delta ch)\<lparr>dl_Content := Some s, dl_ReasoningContent := None, dl_Reasoning := None\<rparr>\<rparr>"

definition clear_reasoning :: "stream_choice \<Rightarrow> stream_choice" where
  "clear_reasoning ch = ch\<lparr>so_Delta := (so_Delta ch)\<lparr>dl_ReasoningContent := None, dl_Reasoning := None\<rparr>\<rparr>"

text \<open>
  Reasoning as content between tags. The closing tag is sent in the loop over the choices, before the
  first of them is changed.
\<close>

definition think_choices :: "chunk \<Rightarrow> thinking_info \<Rightarrow> chunk list \<times> thinking_info" where
  "think_choices c th =
     (let has_thinking = (\<exists>ch \<in> set (ck_Choices c). GetReasoningContent (so_Delta ch) \<noteq> []);
          has_content = (\<exists>ch \<in> set (ck_Choices c). GetContentString (so_Delta ch) \<noteq> []);
          thinking = concat (map (\<lambda>ch. GetReasoningContent (so_Delta ch)) (ck_Choices c))
      in if th_IsFirst th \<and> has_thinking then
           ([c\<lparr>ck_Choices := map (set_content (''<think>'' @ [CHR 0x0A] @ thinking)) (ck_Choices c)\<rparr>],
            th\<lparr>th_IsFirst := False, th_HasSent := True\<rparr>)
         else if ck_Choices c = [] then ([c], th)
         else (let closing = has_content \<and> \<not> th_SendLast th \<and> th_HasSent th;
                   change = (\<lambda>ch. if GetReasoningContent (so_Delta ch) \<noteq> [] then set_content (GetReasoningContent (so_Delta ch)) ch
                                  else if \<not> has_thinking \<and> \<not> has_content then clear_reasoning ch else ch)
               in ((if closing then [c\<lparr>ck_Choices := map (set_content ([CHR 0x0A] @ ''</think>'' @ [CHR 0x0A])) (ck_Choices c)\<rparr>] else []) @
                     [c\<lparr>ck_Choices := map change (ck_Choices c)\<rparr>],
                   if closing then th\<lparr>th_SendLast := True\<rparr> else th)))"

definition sendStreamData :: "stream_env \<Rightarrow> string \<Rightarrow> stream_info \<Rightarrow> sse list \<times> stream_info" where
  "sendStreamData env data si =
     (if data = [] then ([], si)
      else if \<not> xv_force env \<and> \<not> xv_think env then ([SseRaw data], si)
      else (case xv_chunk env data of
              None \<Rightarrow> ([], si)
            | Some c \<Rightarrow>
                if \<not> xv_think env then ([SseChunk c], si)
                else (let (cs, th) = think_choices c (si_thinking si) in (map SseChunk cs, si\<lparr>si_thinking := th\<rparr>))))"

definition send_claude :: "stream_env \<Rightarrow> chunk \<Rightarrow> stream_info \<Rightarrow> sse list \<times> stream_info" where
  "send_claude env c si =
     (let (evs, cv) = StreamResponseOpenAI2Claude (xv_prompt env) (si_SendResponseCount si) c (si_convert si)
      in (map SseClaude evs, si\<lparr>si_convert := cv\<rparr>))"

definition handleClaudeFormat :: "stream_env \<Rightarrow> string \<Rightarrow> stream_info \<Rightarrow> sse list \<times> stream_info" where
  "handleClaudeFormat env data si =
     (case xv_chunk env data of
        None \<Rightarrow> ([], si)
      | Some c \<Rightarrow> send_claude env c
          (case ck_Usage c of None \<Rightarrow> si | Some u \<Rightarrow> si\<lparr>si_convert := (si_convert si)\<lparr>cv_Usage := Some u\<rparr>\<rparr>))"

definition handleGeminiFormat :: "stream_env \<Rightarrow> string \<Rightarrow> sse list" where
  "handleGeminiFormat env data =
     (case xv_chunk env data of
        None \<Rightarrow> []
      | Some c \<Rightarrow> (case StreamResponseOpenAI2Gemini (xv_is_object env) (xv_prompt env) c of None \<Rightarrow> [] | Some g \<Rightarrow> [SseGemini g]))"

definition HandleStreamFormat :: "stream_env \<Rightarrow> string \<Rightarrow> stream_info \<Rightarrow> sse list \<times> stream_info" where
  "HandleStreamFormat env data si0 =
     (let si = si0\<lparr>si_SendResponseCount := si_SendResponseCount si0 + 1\<rparr>
      in case xv_format env of
           RelayFormatOpenAI \<Rightarrow> sendStreamData env data si
         | RelayFormatClaude \<Rightarrow> handleClaudeFormat env data si
         | RelayFormatGemini \<Rightarrow> (handleGeminiFormat env data, si)
         | RelayFormatOther \<Rightarrow> ([], si))"

text \<open>
  The lines of the stream: an item is held back until the next arrives, so the last one stays. The list
  of lines ends where the connection ends or is given up.
\<close>

record oai_stream =
  os_last :: string
  os_second :: string
  os_items :: "string list"
  os_info :: stream_info
  os_out :: "sse list"

definition oai_item :: "stream_env \<Rightarrow> string \<Rightarrow> oai_stream \<Rightarrow> oai_stream" where
  "oai_item env data os =
     (let (out, si) = (if os_last os \<noteq> [] then HandleStreamFormat env (os_last os) (os_info os) else ([], os_info os));
          os1 = os\<lparr>os_info := si, os_out := os_out os @ out\<rparr>
      in if data = [] then os1
         else os1\<lparr>os_second := (if xv_audio env \<and> os_last os \<noteq> [] then os_last os else os_second os),
                  os_last := data, os_items := os_items os @ [data]\<rparr>)"

text \<open>Which lines are items; \<open>None\<close> ends the reading.\<close>

fun scan_lines :: "string list \<Rightarrow> string list" where
  "scan_lines [] = []"
| "scan_lines (l # ls) =
     (if length l < 6 \<or> (take 5 l \<noteq> ''data:'' \<and> take 6 l \<noteq> ''[DONE]'') then scan_lines ls
      else (let data = go_trim_space (drop 5 l)
            in if data = [] then scan_lines ls
               else if go_has_prefix data ''[DONE]'' then []
               else data # scan_lines ls))"

definition chunk_text :: "chunk \<Rightarrow> string" where
  "chunk_text c = concat (map (\<lambda>ch. GetContentString (so_Delta ch) @ GetReasoningContent (so_Delta ch) @
     concat (map (\<lambda>t. fn_Name t @ fn_Arguments t) (delta_tools (so_Delta ch)))) (ck_Choices c))"

definition chunk_tools :: "chunk \<Rightarrow> int \<Rightarrow> int" where
  "chunk_tools c n = fold (\<lambda>ch k. max k (int (length (delta_tools (so_Delta ch))))) (ck_Choices c) n"

text \<open>One by one, until an item cannot be decoded.\<close>

fun process_each :: "(string \<Rightarrow> chunk option) \<Rightarrow> string list \<Rightarrow> string \<times> int \<Rightarrow> string \<times> int" where
  "process_each dec [] acc = acc"
| "process_each dec (d # ds) (text, n) =
     (case dec d of None \<Rightarrow> (text, n) | Some c \<Rightarrow> process_each dec ds (text @ chunk_text c, chunk_tools c n))"

definition processTokens :: "stream_env \<Rightarrow> string list \<Rightarrow> string \<times> int" where
  "processTokens env items =
     (if xv_mode env = RelayModeChatCompletions then
        (case xv_chunks env items of
           None \<Rightarrow> process_each (xv_chunk env) items ([], 0)
         | Some cs \<Rightarrow> fold (\<lambda>c (text, n). (text @ chunk_text c, chunk_tools c n)) cs ([], 0))
      else if xv_mode env = RelayModeCompletions then
        ((case xv_all_texts env items of
            None \<Rightarrow> concat (map (\<lambda>d. case xv_texts env d of None \<Rightarrow> [] | Some ts \<Rightarrow> concat ts) items)
          | Some ts \<Rightarrow> concat ts), 0)
      else ([], 0))"

abbreviation no_usage :: oai_usage where
  "no_usage \<equiv> \<lparr>ou_PromptTokens = 0, ou_CompletionTokens = 0, ou_TotalTokens = 0, ou_PromptCacheHitTokens = 0,
     ou_CachedTokens = 0, ou_CachedCreationTokens = 0, ou_InputCached = None\<rparr>"

definition ResponseText2Usage :: "stream_env \<Rightarrow> string \<Rightarrow> oai_usage" where
  "ResponseText2Usage env text = no_usage\<lparr>ou_PromptTokens := xv_prompt env, ou_CompletionTokens := xv_estimate env text,
     ou_TotalTokens := xv_prompt env + xv_estimate env text\<rparr>"

definition ChannelTypeMoonshot :: int where "ChannelTypeMoonshot = 25"
definition ChannelTypeZhipu_v4 :: int where "ChannelTypeZhipu_v4 = 26"
definition ChannelTypeDeepSeek :: int where "ChannelTypeDeepSeek = 43"

definition applyUsagePostProcessing :: "stream_env \<Rightarrow> string \<Rightarrow> oai_usage \<Rightarrow> oai_usage" where
  "applyUsagePostProcessing env body u =
     (let hit = (if 0 < ou_PromptCacheHitTokens u then u\<lparr>ou_CachedTokens := ou_PromptCacheHitTokens u\<rparr> else u);
          standard = (case xv_cached env body of Some k \<Rightarrow> u\<lparr>ou_CachedTokens := k\<rparr> | None \<Rightarrow> hit);
          moonshot = (case xv_moonshot_cached env body of Some k \<Rightarrow> u\<lparr>ou_CachedTokens := k\<rparr> | None \<Rightarrow> standard);
          details = (\<lambda>v. case ou_InputCached u of
              Some k \<Rightarrow> if 0 < k then u\<lparr>ou_CachedTokens := k\<rparr> else v | None \<Rightarrow> v)
      in if ou_CachedTokens u \<noteq> 0 then u
         else if xv_channel_type env = ChannelTypeDeepSeek then
           (if ou_PromptCacheHitTokens u \<noteq> 0 then u\<lparr>ou_CachedTokens := ou_PromptCacheHitTokens u\<rparr> else u)
         else if xv_channel_type env = ChannelTypeZhipu_v4 then details standard
         else if xv_channel_type env = ChannelTypeMoonshot then details moonshot
         else u)"

text \<open>
  \<open>handleLastResponse\<close>: the usage and whether it came from the upstream, whether the last item is sent, and
  the fields of a final chunk.
\<close>

definition handleLastResponse :: "stream_env \<Rightarrow> string \<Rightarrow> oai_usage \<times> bool \<Rightarrow> (oai_usage \<times> bool) \<times> bool \<times> chunk" where
  "handleLastResponse env data uc =
     (case xv_chunk env data of
        None \<Rightarrow> (uc, True, \<lparr>ck_Id = [], ck_Created = 0, ck_Model = xv_model env, ck_SystemFingerprint = Some [], ck_Choices = [], ck_Usage = None\<rparr>)
      | Some c \<Rightarrow>
          (let head = \<lparr>ck_Id = ck_Id c, ck_Created = ck_Created c, ck_Model = ck_Model c,
                 ck_SystemFingerprint = Some (case ck_SystemFingerprint c of None \<Rightarrow> [] | Some s \<Rightarrow> s), ck_Choices = [], ck_Usage = None\<rparr>
           in case ck_Usage c of
                Some u \<Rightarrow> if ValidUsage (ck_Usage c)
                  then ((u, True), (xv_include_usage env \<or> (\<exists>ch \<in> set (ck_Choices c). GetContentString (so_Delta ch) \<noteq> [] \<or> GetReasoningContent (so_Delta ch) \<noteq> [])), head)
                  else (uc, True, head)
              | None \<Rightarrow> (uc, True, head)))"

definition HandleFinalResponse ::
    "stream_env \<Rightarrow> string \<Rightarrow> chunk \<Rightarrow> oai_usage \<Rightarrow> bool \<Rightarrow> stream_info \<Rightarrow> sse list \<times> stream_info" where
  "HandleFinalResponse env data head usage contains si =
     (case xv_format env of
        RelayFormatOpenAI \<Rightarrow>
          ((if xv_include_usage env \<and> \<not> contains then [SseChunk (head\<lparr>ck_Usage := Some usage\<rparr>)] else []) @ [SseDone], si)
      | RelayFormatClaude \<Rightarrow>
          (case xv_chunk env data of
             None \<Rightarrow> ([], si)
           | Some c \<Rightarrow>
               (let (out, si1) = send_claude env c (si\<lparr>si_convert := (si_convert si)\<lparr>cv_Usage := Some usage\<rparr>\<rparr>)
                in (out, si1\<lparr>si_convert := (si_convert si1)\<lparr>cv_Done := True\<rparr>\<rparr>)))
      | RelayFormatGemini \<Rightarrow> (handleGeminiFormat env data, si)
      | RelayFormatOther \<Rightarrow> ([], si))"

text \<open>The usage that the request is billed with, and what the client was sent.\<close>

definition OaiStreamHandler :: "stream_env \<Rightarrow> string list \<Rightarrow> stream_info \<Rightarrow> oai_usage \<times> sse list" where
  "OaiStreamHandler env items si0 =
     (let os = fold (oai_item env) items \<lparr>os_last = [], os_second = [], os_items = [], os_info = si0, os_out = []\<rparr>;
          uc0 = (if xv_audio env \<and> os_second os \<noteq> []
                 then (case xv_usage env (os_second os) of
                         Some u \<Rightarrow> if ValidUsage (Some u) then (u, True) else (no_usage, False)
                       | None \<Rightarrow> (no_usage, False))
                 else (no_usage, False));
          ((usage0, contains), send_last, head) = handleLastResponse env (os_last os) uc0;
          (out1, si1) = (if xv_format env = RelayFormatOpenAI \<and> send_last then sendStreamData env (os_last os) (os_info os) else ([], os_info os));
          (text, tools) = processTokens env (os_items os);
          estimate = ResponseText2Usage env text;
          usage1 = (if contains then usage0 else estimate\<lparr>ou_CompletionTokens := ou_CompletionTokens estimate + tools * 7\<rparr>);
          usage = applyUsagePostProcessing env (os_last os) usage1;
          (out2, si2) = HandleFinalResponse env (os_last os) head usage contains si1
      in (usage, os_out os @ out1 @ out2))"

section \<open>The protocol of a Claude stream\<close>

text \<open>
  What a client of the Claude interface accepts: one start of the message, blocks numbered from 0 one after
  the other, deltas of the kind of the open block, the stop reason, and the end. It is the specification
  the translation is measured by.
\<close>

datatype block_kind = KindTool | KindThinking | KindText

datatype protocol = Waiting | Between int | Inside int block_kind | Closing | Ended

fun kind_of_block :: "claude_block \<Rightarrow> block_kind" where
  "kind_of_block (ToolUseBlock i n) = KindTool"
| "kind_of_block ThinkingBlock = KindThinking"
| "kind_of_block TextBlock = KindText"

fun delta_kind :: "claude_delta \<Rightarrow> block_kind" where
  "delta_kind (InputJsonDelta s) = KindTool"
| "delta_kind (ThinkingDelta s) = KindThinking"
| "delta_kind (TextDelta s) = KindText"

fun protocol_step :: "protocol \<Rightarrow> claude_event \<Rightarrow> protocol option" where
  "protocol_step Waiting (MessageStart i m n) = Some (Between 0)"
| "protocol_step (Between n) (BlockStart i b) = (if i = n then Some (Inside n (kind_of_block b)) else None)"
| "protocol_step (Inside n k) (BlockDelta i d) = (if i = n \<and> delta_kind d = k then Some (Inside n k) else None)"
| "protocol_step (Inside n k) (BlockStop i) = (if i = n then Some (Between (n + 1)) else None)"
| "protocol_step (Between n) (MessageDelta u r) = Some Closing"
| "protocol_step Closing MessageStop = Some Ended"
| "protocol_step p e = None"

fun protocol_run :: "protocol \<Rightarrow> claude_event list \<Rightarrow> protocol option" where
  "protocol_run p [] = Some p"
| "protocol_run p (e # es) = Option.bind (protocol_step p e) (\<lambda>q. protocol_run q es)"

lemma protocol_run_append: "protocol_run p (a @ b) = Option.bind (protocol_run p a) (\<lambda>q. protocol_run q b)"
  by (induction a arbitrary: p) simp_all

text \<open>What a user sees of an event: characters, marked as thinking or not.\<close>

fun event_visible :: "claude_event \<Rightarrow> (bool \<times> char) list" where
  "event_visible (BlockDelta i (TextDelta s)) = map (Pair False) s"
| "event_visible (BlockDelta i (ThinkingDelta s)) = map (Pair True) s"
| "event_visible e = []"

definition visible :: "claude_event list \<Rightarrow> (bool \<times> char) list" where "visible es = concat (map event_visible es)"

lemma visible_simps [simp]: "visible [] = []" "visible (e # es) = event_visible e @ visible es" "visible (a @ b) = visible a @ visible b"
  by (simp_all add: visible_def)

section \<open>A machine that emits events and a protocol that accepts them\<close>

text \<open>
  The step of the machine, the acceptor, and a relation between their states that every step on an
  admissible input keeps.
\<close>

locale emitting =
  fixes step :: "'c \<Rightarrow> 's \<Rightarrow> 'e list \<times> 's"
    and run :: "'p \<Rightarrow> 'e list \<Rightarrow> 'p option"
    and admissible :: "'s \<Rightarrow> 'c \<Rightarrow> bool"
    and related :: "'p \<Rightarrow> 's \<Rightarrow> bool"
    and sent :: "'e list \<Rightarrow> 'x list"
    and given :: "'c \<Rightarrow> 'x list"
  assumes run_nil: "run p [] = Some p"
    and run_append: "run p (a @ b) = Option.bind (run p a) (\<lambda>q. run q b)"
    and sent_append: "sent (a @ b) = sent a @ sent b"
    and sent_nil: "sent [] = []"
    and step_accepted: "related p s \<Longrightarrow> admissible s c \<Longrightarrow> \<exists>q. run p (fst (step c s)) = Some q \<and> related q (snd (step c s))"
    and step_sent: "related p s \<Longrightarrow> admissible s c \<Longrightarrow> sent (fst (step c s)) = given c"
begin

fun emit :: "'c list \<Rightarrow> 's \<Rightarrow> 'e list \<times> 's" where
  "emit [] s = ([], s)"
| "emit (c # cs) s = (let (es, s1) = step c s; (fs, s2) = emit cs s1 in (es @ fs, s2))"

fun admissible_all :: "'s \<Rightarrow> 'c list \<Rightarrow> bool" where
  "admissible_all s [] \<longleftrightarrow> True"
| "admissible_all s (c # cs) \<longleftrightarrow> admissible s c \<and> admissible_all (snd (step c s)) cs"

lemma emit_accepted:
  "related p s \<Longrightarrow> admissible_all s cs \<Longrightarrow>
     \<exists>q. run p (fst (emit cs s)) = Some q \<and> related q (snd (emit cs s)) \<and> sent (fst (emit cs s)) = concat (map given cs)"
proof (induction cs arbitrary: p s)
  case Nil
  then show ?case by (simp add: run_nil sent_nil)
next
  case (Cons c cs)
  obtain q where q: "run p (fst (step c s)) = Some q" "related q (snd (step c s))" using step_accepted Cons.prems by force
  then obtain r where "run q (fst (emit cs (snd (step c s)))) = Some r" "related r (snd (emit cs (snd (step c s))))"
    "sent (fst (emit cs (snd (step c s)))) = concat (map given cs)"
    using Cons.IH [of q "snd (step c s)"] Cons.prems(2) by auto
  with q show ?case using step_sent [OF Cons.prems(1)] Cons.prems(2) by (auto simp: Let_def case_prod_beta run_append sent_append)
qed

end

section \<open>Streams of text\<close>

definition chunk_visible :: "chunk \<Rightarrow> (bool \<times> char) list" where
  "chunk_visible c = (case ck_Choices c of [] \<Rightarrow> []
     | ch # chs \<Rightarrow> map (Pair True) (GetReasoningContent (so_Delta ch)) @ map (Pair False) (GetContentString (so_Delta ch)))"

text \<open>A chunk of reasoning or text, not of both, without tool calls; reasoning does not follow text.\<close>

definition plain_chunk :: "bool \<Rightarrow> chunk \<Rightarrow> bool" where
  "plain_chunk seen c = (case ck_Choices c of [] \<Rightarrow> False
     | ch # chs \<Rightarrow> delta_tools (so_Delta ch) = [] \<and>
         (GetReasoningContent (so_Delta ch) = [] \<or> GetContentString (so_Delta ch) = [] \<and> \<not> seen))"

definition chunk_finish :: "chunk \<Rightarrow> string option" where
  "chunk_finish c = (case ck_Choices c of [] \<Rightarrow> None | ch # chs \<Rightarrow> finish_reason ch)"

definition has_text :: "chunk \<Rightarrow> bool" where
  "has_text c = (case ck_Choices c of [] \<Rightarrow> False | ch # chs \<Rightarrow> GetContentString (so_Delta ch) \<noteq> [])"

fun plain_chunks :: "bool \<Rightarrow> chunk list \<Rightarrow> bool" where
  "plain_chunks seen [] = True"
| "plain_chunks seen (c # cs) = (plain_chunk seen c \<and> chunk_finish c = None \<and> plain_chunks (seen \<or> has_text c) cs)"

definition in_block :: "protocol \<Rightarrow> claude_convert \<Rightarrow> bool" where
  "in_block p cv = (\<not> cv_Done cv \<and> (case cv_LastMessagesType cv of
      LastMessageTypeNone \<Rightarrow> p = Between 0 \<and> cv_Index cv = 0
    | LastMessageTypeText \<Rightarrow> p = Inside (cv_Index cv) KindText
    | LastMessageTypeThinking \<Rightarrow> p = Inside (cv_Index cv) KindThinking
    | LastMessageTypeTools \<Rightarrow> False))"

lemma in_block_upd [simp]: "in_block p (cv\<lparr>cv_Usage := u\<rparr>) = in_block p cv" "in_block p (cv\<lparr>cv_FinishReason := r\<rparr>) = in_block p cv"
  by (simp_all add: in_block_def split: message_type.split)

text \<open>The body of a chunk, for every state inside a stream of text.\<close>

lemma claude_body_accepted:
  assumes "in_block p cv" "delta_tools d = []"
    "GetReasoningContent d = [] \<or> GetContentString d = [] \<and> cv_LastMessagesType cv \<noteq> LastMessageTypeText"
  shows "\<exists>q. protocol_run p (fst (claude_body d cv)) = Some q \<and> in_block q (snd (claude_body d cv))"
    "visible (fst (claude_body d cv)) = map (Pair True) (GetReasoningContent d) @ map (Pair False) (GetContentString d)"
    "cv_LastMessagesType (snd (claude_body d cv)) = (if GetReasoningContent d \<noteq> [] then LastMessageTypeThinking
       else if GetContentString d \<noteq> [] then LastMessageTypeText else cv_LastMessagesType cv)"
  using assms by (cases "cv_LastMessagesType cv"; auto simp: claude_body_def in_block_def Let_def)+

text \<open>A chunk as the client's second and later ones are handled, with its usage noted.\<close>

definition note_usage :: "chunk \<Rightarrow> claude_convert \<Rightarrow> claude_convert" where
  "note_usage c cv = (case ck_Usage c of None \<Rightarrow> cv | Some u \<Rightarrow> cv\<lparr>cv_Usage := Some u\<rparr>)"

definition claude_chunk :: "chunk \<Rightarrow> claude_convert \<Rightarrow> claude_event list \<times> claude_convert" where
  "claude_chunk c cv = claude_next c (note_usage c cv)"

lemma note_usage_fields [simp]: "in_block p (note_usage c cv) = in_block p cv" "cv_LastMessagesType (note_usage c cv) = cv_LastMessagesType cv"
  "cv_Done (note_usage c cv) = cv_Done cv" "cv_Index (note_usage c cv) = cv_Index cv"
  by (cases "ck_Usage c"; simp add: note_usage_def)+

lemma claude_chunk_body:
  assumes "ck_Choices c = ch # chs" "chunk_finish c = None" "\<not> cv_Done cv" "delta_tools (so_Delta ch) = []"
  shows "claude_chunk c cv = claude_body (so_Delta ch) (note_usage c cv)"
proof -
  have "\<not> cv_Done (snd (claude_body (so_Delta ch) (note_usage c cv)))" using assms by (simp add: claude_body_def Let_def)
  then show ?thesis using assms by (simp add: claude_chunk_def claude_next_def chunk_finish_def case_prod_beta)
qed

lemma claude_chunk_accepted:
  assumes "in_block p cv" "plain_chunk (cv_LastMessagesType cv = LastMessageTypeText) c" "chunk_finish c = None"
  shows "\<exists>q. protocol_run p (fst (claude_chunk c cv)) = Some q \<and> in_block q (snd (claude_chunk c cv))"
    "visible (fst (claude_chunk c cv)) = chunk_visible c"
    "(cv_LastMessagesType (snd (claude_chunk c cv)) = LastMessageTypeText) = (cv_LastMessagesType cv = LastMessageTypeText \<or> has_text c)"
proof -
  obtain ch chs where c: "ck_Choices c = ch # chs" "delta_tools (so_Delta ch) = []"
    "GetReasoningContent (so_Delta ch) = [] \<or> GetContentString (so_Delta ch) = [] \<and> cv_LastMessagesType cv \<noteq> LastMessageTypeText"
    using assms(2) by (auto simp: plain_chunk_def split: list.splits)
  have d: "\<not> cv_Done cv" using assms(1) by (simp add: in_block_def)
  have b: "claude_chunk c cv = claude_body (so_Delta ch) (note_usage c cv)" by (rule claude_chunk_body [OF c(1) assms(3) d c(2)])
  note * = claude_body_accepted [of p "note_usage c cv" "so_Delta ch"]
  show "\<exists>q. protocol_run p (fst (claude_chunk c cv)) = Some q \<and> in_block q (snd (claude_chunk c cv))"
    "visible (fst (claude_chunk c cv)) = chunk_visible c"
    "(cv_LastMessagesType (snd (claude_chunk c cv)) = LastMessageTypeText) = (cv_LastMessagesType cv = LastMessageTypeText \<or> has_text c)"
    unfolding b using * assms(1) c by (auto simp: chunk_visible_def has_text_def)
qed

interpretation cs: emitting claude_chunk protocol_run
  "\<lambda>cv c. plain_chunk (cv_LastMessagesType cv = LastMessageTypeText) c \<and> chunk_finish c = None" in_block visible chunk_visible
  by unfold_locales (auto simp: protocol_run_append claude_chunk_accepted)

lemma plain_chunks_admissible:
  "in_block p cv \<Longrightarrow> plain_chunks (cv_LastMessagesType cv = LastMessageTypeText) cs \<Longrightarrow> cs.admissible_all cv cs"
proof (induction cs arbitrary: p cv)
  case (Cons c cs)
  then have c: "plain_chunk (cv_LastMessagesType cv = LastMessageTypeText) c" "chunk_finish c = None" by auto
  obtain q where "in_block q (snd (claude_chunk c cv))" using claude_chunk_accepted(1) [OF Cons.prems(1) c] by blast
  moreover have "plain_chunks (cv_LastMessagesType (snd (claude_chunk c cv)) = LastMessageTypeText) cs"
    using Cons.prems(2) claude_chunk_accepted(3) [OF Cons.prems(1) c] by simp
  ultimately show ?case using Cons.IH c by simp
qed simp

text \<open>The first chunk of a stream of text.\<close>

abbreviation claude_initial :: claude_convert where
  "claude_initial \<equiv> \<lparr>cv_LastMessagesType = LastMessageTypeNone, cv_Index = 0, cv_Usage = None, cv_FinishReason = [], cv_Done = False\<rparr>"

lemma claude_initial_in: "in_block (Between 0) claude_initial"
  by (simp add: in_block_def)

lemma claude_first_body:
  assumes "plain_chunk False c" "chunk_finish c = None" "cv_LastMessagesType cv = LastMessageTypeNone" "\<not> cv_Done cv"
  shows "claude_first prompt c (note_usage c cv) =
    (MessageStart (ck_Id c) (ck_Model c) prompt # fst (claude_chunk c cv), snd (claude_chunk c cv))"
proof -
  obtain ch chs where c: "ck_Choices c = ch # chs" "delta_tools (so_Delta ch) = []"
    using assms(1) by (auto simp: plain_chunk_def split: list.splits)
  have f: "finish_reason ch = None" using assms(2) c by (simp add: chunk_finish_def)
  have b: "claude_chunk c cv = claude_body (so_Delta ch) (note_usage c cv)" by (rule claude_chunk_body [OF c(1) assms(2,4) c(2)])
  show ?thesis unfolding b using c f assms(3) by (simp add: claude_first_def claude_body_def Let_def)
qed

text \<open>The last chunk: its body and the events of the end.\<close>

lemma claude_last_chunk:
  assumes "in_block p cv" "plain_chunk (cv_LastMessagesType cv = LastMessageTypeText) c" "chunk_finish c = Some r" "cv_Usage cv \<noteq> None"
    "cv_LastMessagesType cv \<noteq> LastMessageTypeNone \<or> chunk_visible c \<noteq> []"
  shows "\<exists>es i u. fst (claude_next c cv) = es @ [BlockStop i, MessageDelta (event_tokens u) (stopReasonOpenAI2Claude r), MessageStop] \<and>
    Some u = (case ck_Usage c of None \<Rightarrow> cv_Usage cv | Some u \<Rightarrow> Some u) \<and>
    visible es = chunk_visible c \<and> protocol_run p (fst (claude_next c cv)) = Some Ended"
proof -
  obtain ch chs where c: "ck_Choices c = ch # chs" "delta_tools (so_Delta ch) = []" "finish_reason ch = Some r"
    "GetReasoningContent (so_Delta ch) = [] \<or> GetContentString (so_Delta ch) = [] \<and> cv_LastMessagesType cv \<noteq> LastMessageTypeText"
    using assms(2,3) by (auto simp: plain_chunk_def chunk_finish_def split: list.splits)
  let ?cv = "cv\<lparr>cv_FinishReason := r\<rparr>"
  obtain es cv1 where b: "claude_body (so_Delta ch) ?cv = (es, cv1)" by fastforce
  obtain q where q: "protocol_run p es = Some q" "in_block q cv1" "visible es = chunk_visible c"
    and ty: "cv_LastMessagesType cv1 \<noteq> LastMessageTypeNone"
    using claude_body_accepted [of p ?cv "so_Delta ch"] assms(1,5) c b by (auto simp: chunk_visible_def split: if_splits)
  have k: "cv_Usage cv1 = cv_Usage cv" "cv_FinishReason cv1 = r" using b c(2) by (auto simp: claude_body_def Let_def split: if_splits)
  obtain u where u: "(case ck_Usage c of None \<Rightarrow> cv_Usage cv | Some u \<Rightarrow> Some u) = Some u" using assms(4) by (cases "ck_Usage c") auto
  have n: "fst (claude_next c cv) = es @ [BlockStop (cv_Index cv1), MessageDelta (event_tokens u) (stopReasonOpenAI2Claude r), MessageStop]"
    using c b k u by (cases "ck_Usage c"; cases "cv_Usage cv") (simp_all add: claude_next_def claude_finish_def claude_end_def)
  have "protocol_run q [BlockStop (cv_Index cv1), MessageDelta (event_tokens u) (stopReasonOpenAI2Claude r), MessageStop] = Some Ended"
    using q(2) ty by (cases "cv_LastMessagesType cv1") (auto simp: in_block_def)
  then show ?thesis using n u q by (intro exI [of _ es] exI [of _ "cv_Index cv1"] exI [of _ u]) (simp add: protocol_run_append)
qed

section \<open>The handler over a stream\<close>

text \<open>All items that are handed on, one after the other.\<close>

fun handle_all :: "stream_env \<Rightarrow> string list \<Rightarrow> stream_info \<Rightarrow> sse list \<times> stream_info" where
  "handle_all env [] si = ([], si)"
| "handle_all env (d # ds) si = (let (a, si1) = HandleStreamFormat env d si; (b, si2) = handle_all env ds si1 in (a @ b, si2))"

lemma oai_items:
  assumes "\<forall>d \<in> set ds. d \<noteq> []" "os_last os \<noteq> []"
  shows "os_out (fold (oai_item env) ds os) = os_out os @ fst (handle_all env (butlast (os_last os # ds)) (os_info os))"
    "os_info (fold (oai_item env) ds os) = snd (handle_all env (butlast (os_last os # ds)) (os_info os))"
    "os_last (fold (oai_item env) ds os) = List.last (os_last os # ds)"
    "os_items (fold (oai_item env) ds os) = os_items os @ ds"
  using assms by (induction ds arbitrary: os) (simp_all add: oai_item_def Let_def case_prod_beta)

lemma oai_stream_items:
  assumes "\<forall>d \<in> set items. d \<noteq> []" "items \<noteq> []"
    "os = fold (oai_item env) items \<lparr>os_last = [], os_second = [], os_items = [], os_info = si, os_out = []\<rparr>"
  shows "os_out os = fst (handle_all env (butlast items) si)" "os_info os = snd (handle_all env (butlast items) si)"
    "os_last os = List.last items" "os_items os = items"
proof -
  obtain d ds where i: "items = d # ds" using assms(2) by (cases items) auto
  let ?os = "oai_item env d \<lparr>os_last = [], os_second = [], os_items = [], os_info = si, os_out = []\<rparr>"
  have o: "os_last ?os = d" "os_items ?os = [d]" "os_info ?os = si" "os_out ?os = []"
    using assms(1) i by (simp_all add: oai_item_def)
  have f: "os = fold (oai_item env) ds ?os" using assms(3) i by simp
  have d: "\<forall>d \<in> set ds. d \<noteq> []" "os_last ?os \<noteq> []" using assms(1) i o by simp_all
  show "os_out os = fst (handle_all env (butlast items) si)" "os_info os = snd (handle_all env (butlast items) si)"
    "os_last os = List.last items" "os_items os = items"
    using oai_items [OF d, of env] o f i by simp_all
qed

text \<open>The items of a Claude stream after the first.\<close>

lemma handle_all_claude:
  assumes "xv_format env = RelayFormatClaude" "map (xv_chunk env) ds = map Some cs" "1 \<le> si_SendResponseCount si"
    "\<not> cv_Done (si_convert si)" "cs.admissible_all (si_convert si) cs" "in_block p (si_convert si)"
  shows "fst (handle_all env ds si) = map SseClaude (fst (cs.emit cs (si_convert si))) \<and>
    si_convert (snd (handle_all env ds si)) = snd (cs.emit cs (si_convert si)) \<and>
    si_SendResponseCount (snd (handle_all env ds si)) = si_SendResponseCount si + int (length cs)"
  using assms
proof (induction ds arbitrary: cs si p)
  case (Cons d ds)
  then obtain c cs' where cs: "cs = c # cs'" "xv_chunk env d = Some c" "map (xv_chunk env) ds = map Some cs'" by (cases cs) auto
  let ?si = "snd (HandleStreamFormat env d si)"
  have h: "fst (HandleStreamFormat env d si) = map SseClaude (fst (claude_chunk c (si_convert si)))"
    "si_convert ?si = snd (claude_chunk c (si_convert si))" "si_SendResponseCount ?si = si_SendResponseCount si + 1"
    using Cons.prems(1,3,4) cs(2)
    by (simp_all add: HandleStreamFormat_def handleClaudeFormat_def send_claude_def StreamResponseOpenAI2Claude_def claude_chunk_def
        note_usage_def Let_def case_prod_beta split: option.split)
  obtain q where q: "in_block q (si_convert ?si)"
    using claude_chunk_accepted(1) [OF Cons.prems(6)] Cons.prems(5) cs(1) h(2) by auto
  then have "\<not> cv_Done (si_convert ?si)" by (simp add: in_block_def)
  then show ?case
    using Cons.IH [of cs' ?si q] Cons.prems cs h q by (simp add: Let_def case_prod_beta)
qed simp

text \<open>The kind of the last block after a stream of text.\<close>

lemma claude_chunk_none:
  assumes "in_block p cv" "plain_chunk (cv_LastMessagesType cv = LastMessageTypeText) c" "chunk_finish c = None"
  shows "(cv_LastMessagesType (snd (claude_chunk c cv)) = LastMessageTypeNone) = (cv_LastMessagesType cv = LastMessageTypeNone \<and> chunk_visible c = [])"
proof -
  obtain ch chs where c: "ck_Choices c = ch # chs" "delta_tools (so_Delta ch) = []"
    using assms(2) by (auto simp: plain_chunk_def split: list.splits)
  have b: "claude_chunk c cv = claude_body (so_Delta ch) (note_usage c cv)"
    using claude_chunk_body [OF c(1) assms(3) _ c(2)] assms(1) by (simp add: in_block_def)
  show ?thesis unfolding b using c by (simp add: claude_body_def Let_def chunk_visible_def)
qed

lemma emit_kinds:
  assumes "in_block p cv" "cs.admissible_all cv cs"
  shows "(cv_LastMessagesType (snd (cs.emit cs cv)) = LastMessageTypeNone) = (cv_LastMessagesType cv = LastMessageTypeNone \<and> (\<forall>c \<in> set cs. chunk_visible c = []))"
    "(cv_LastMessagesType (snd (cs.emit cs cv)) = LastMessageTypeText) = (cv_LastMessagesType cv = LastMessageTypeText \<or> (\<exists>c \<in> set cs. has_text c))"
  using assms
proof (induction cs arbitrary: p cv)
  case (Cons c cs)
  {
    case 1
    then have c: "plain_chunk (cv_LastMessagesType cv = LastMessageTypeText) c" "chunk_finish c = None" by auto
    obtain q where "in_block q (snd (claude_chunk c cv))" using claude_chunk_accepted(1) [OF 1(1) c] by blast
    then show ?case using Cons.IH(1) [of q "snd (claude_chunk c cv)"] 1(2) claude_chunk_none [OF 1(1) c] by (auto simp: Let_def case_prod_beta)
  next
    case 2
    then have c: "plain_chunk (cv_LastMessagesType cv = LastMessageTypeText) c" "chunk_finish c = None" by auto
    obtain q where "in_block q (snd (claude_chunk c cv))" using claude_chunk_accepted(1) [OF 2(1) c] by blast
    then show ?case using Cons.IH(2) [of q "snd (claude_chunk c cv)"] 2(2) claude_chunk_accepted(3) [OF 2(1) c] by (auto simp: Let_def case_prod_beta)
  }
qed simp_all

text \<open>The handler on the lines of a Claude stream: what the items but the last emit, and the final events.\<close>

lemma claude_handler:
  assumes "xv_format env = RelayFormatClaude" "\<forall>d \<in> set items. d \<noteq> []" "items \<noteq> []" "xv_chunk env (List.last items) = Some c"
  shows "\<exists>usage. fst (OaiStreamHandler env items si) = usage \<and> snd (OaiStreamHandler env items si) =
     fst (handle_all env (butlast items) si) @
     (let si1 = snd (handle_all env (butlast items) si)
      in map SseClaude (fst (StreamResponseOpenAI2Claude (xv_prompt env) (si_SendResponseCount si1) c ((si_convert si1)\<lparr>cv_Usage := Some usage\<rparr>))))"
proof -
  define os where "os = fold (oai_item env) items \<lparr>os_last = [], os_second = [], os_items = [], os_info = si, os_out = []\<rparr>"
  note o = oai_stream_items [OF assms(2,3) os_def]
  show ?thesis
    unfolding OaiStreamHandler_def os_def [symmetric] Let_def
    using assms(1,4) o by (simp add: HandleFinalResponse_def send_claude_def Let_def case_prod_beta)
qed

text \<open>All items of a stream of text but the last.\<close>

lemma handle_text_items:
  assumes "xv_format env = RelayFormatClaude" "map (xv_chunk env) (d # ds) = map Some (c # cs)" "plain_chunks False (c # cs)"
    "si_SendResponseCount si = 0" "si_convert si = claude_initial"
  shows "\<exists>es cv q. fst (handle_all env (d # ds) si) = map SseClaude es \<and> si_convert (snd (handle_all env (d # ds) si)) = cv \<and>
    cv = snd (cs.emit (c # cs) claude_initial) \<and>
    si_SendResponseCount (snd (handle_all env (d # ds) si)) = 1 + int (length cs) \<and>
    protocol_run Waiting es = Some q \<and> in_block q cv \<and> visible es = concat (map chunk_visible (c # cs)) \<and>
    (cv_LastMessagesType cv = LastMessageTypeNone) = (\<forall>c \<in> set (c # cs). chunk_visible c = []) \<and>
    (cv_LastMessagesType cv = LastMessageTypeText) = (\<exists>c \<in> set (c # cs). has_text c)"
proof -
  have c: "plain_chunk False c" "chunk_finish c = None" "xv_chunk env d = Some c" "map (xv_chunk env) ds = map Some cs" using assms by auto
  have f: "claude_first (xv_prompt env) c (note_usage c claude_initial) =
      (MessageStart (ck_Id c) (ck_Model c) (xv_prompt env) # fst (claude_chunk c claude_initial), snd (claude_chunk c claude_initial))"
    by (rule claude_first_body) (use c in simp_all)
  let ?si = "snd (HandleStreamFormat env d si)"
  have h: "fst (HandleStreamFormat env d si) = map SseClaude (MessageStart (ck_Id c) (ck_Model c) (xv_prompt env) # fst (claude_chunk c claude_initial))"
    "si_convert ?si = snd (claude_chunk c claude_initial)" "si_SendResponseCount ?si = 1"
    using f assms(1,4,5) c(3)
    by (cases "ck_Usage c"; simp add: HandleStreamFormat_def handleClaudeFormat_def send_claude_def StreamResponseOpenAI2Claude_def
        note_usage_def Let_def case_prod_beta)+
  have adm: "cs.admissible_all claude_initial (c # cs)"
    by (rule plain_chunks_admissible [OF claude_initial_in]) (use assms(3) in simp)
  obtain q0 where q0: "protocol_run (Between 0) (fst (claude_chunk c claude_initial)) = Some q0" "in_block q0 (si_convert ?si)"
    using claude_chunk_accepted(1) [OF claude_initial_in] c h(2) by auto
  have r: "fst (handle_all env ds ?si) = map SseClaude (fst (cs.emit cs (si_convert ?si))) \<and>
      si_convert (snd (handle_all env ds ?si)) = snd (cs.emit cs (si_convert ?si)) \<and>
      si_SendResponseCount (snd (handle_all env ds ?si)) = si_SendResponseCount ?si + int (length cs)"
    by (rule handle_all_claude [OF assms(1) c(4) _ _ _ q0(2)]) (use h adm q0(2) in \<open>simp_all add: in_block_def\<close>)
  let ?e = "cs.emit (c # cs) claude_initial"
  have e: "fst ?e = fst (claude_chunk c claude_initial) @ fst (cs.emit cs (si_convert ?si))" "snd ?e = snd (cs.emit cs (si_convert ?si))"
    using h(2) by (simp_all add: Let_def case_prod_beta)
  obtain q where q: "protocol_run (Between 0) (fst ?e) = Some q" "in_block q (snd ?e)" "visible (fst ?e) = concat (map chunk_visible (c # cs))"
    using cs.emit_accepted [OF claude_initial_in adm] by blast
  show ?thesis
    using r h e q emit_kinds [OF claude_initial_in adm]
    by (intro exI [of _ "MessageStart (ck_Id c) (ck_Model c) (xv_prompt env) # fst ?e"] exI [of _ "snd ?e"] exI [of _ q])
      (simp add: Let_def case_prod_beta)
qed

lemma handle_all_append:
  "handle_all env (a @ b) si = (let (x, si1) = handle_all env a si; (y, si2) = handle_all env b si1 in (x @ y, si2))"
  by (induction a arbitrary: si) (simp_all add: Let_def case_prod_beta)

text \<open>The end of the protocol is final, and a second start is never accepted.\<close>

lemma protocol_closed:
  "protocol_run Ended es = Some q \<Longrightarrow> q = Ended"
  "protocol_run Closing es = Some q \<Longrightarrow> q = Closing \<or> q = Ended"
proof -
  show e: "protocol_run Ended es = Some q \<Longrightarrow> q = Ended" for es q by (cases es) simp_all
  show "protocol_run Closing es = Some q \<Longrightarrow> q = Closing \<or> q = Ended"
  proof (cases es)
    case (Cons a list)
    then show "protocol_run Closing es = Some q \<Longrightarrow> ?thesis" using e [of list q] by (cases a) simp_all
  qed simp
qed

lemma protocol_open_no_delta:
  "protocol_run p es = Some q \<Longrightarrow> MessageDelta u r \<in> set es \<Longrightarrow> q = Closing \<or> q = Ended"
proof (induction es arbitrary: p)
  case (Cons e es)
  obtain p1 where p1: "protocol_step p e = Some p1" "protocol_run p1 es = Some q" using Cons.prems(1) by (auto simp: bind_eq_Some_conv)
  show ?case
  proof (cases "MessageDelta u r \<in> set es")
    case False
    then have "e = MessageDelta u r" using Cons.prems(2) by auto
    then have "p1 = Closing" using p1(1) by (cases p) simp_all
    then show ?thesis using protocol_closed(2) p1(2) by blast
  qed (use Cons.IH p1 in blast)
qed simp

fun is_start :: "claude_event \<Rightarrow> bool" where
  "is_start (MessageStart i m n) = True"
| "is_start e = False"

abbreviation starts :: "claude_event list \<Rightarrow> nat" where
  "starts es \<equiv> length (filter is_start es)"

lemma protocol_no_start:
  "p \<noteq> Waiting \<Longrightarrow> protocol_run p es = Some q \<Longrightarrow> starts es = 0 \<and> q \<noteq> Waiting"
proof (induction es arbitrary: p)
  case (Cons e es)
  obtain p1 where p1: "protocol_step p e = Some p1" "protocol_run p1 es = Some q" using Cons.prems(2) by (auto simp: bind_eq_Some_conv)
  have "p1 \<noteq> Waiting \<and> \<not> is_start e" using p1(1) Cons.prems(1) by (cases p; cases e) (auto split: if_splits)
  then show ?case using Cons.IH [of p1] p1(2) by simp
qed simp

lemma protocol_one_start:
  assumes "protocol_run Waiting es = Some q" "q \<noteq> Waiting"
  shows "starts es = 1"
proof (cases es)
  case (Cons e es')
  then obtain p1 where p1: "protocol_step Waiting e = Some p1" "protocol_run p1 es' = Some q" using assms(1) by (auto simp: bind_eq_Some_conv)
  have "is_start e \<and> p1 \<noteq> Waiting" using p1(1) by (cases e) auto
  then show ?thesis using protocol_no_start [of p1 es' q] p1(2) Cons by simp
qed (use assms in simp)

text \<open>Only the branch for the first response starts a message.\<close>

lemma claude_tool_calls_events:
  "list_all (\<lambda>e. \<not> is_start e \<and> e \<noteq> MessageStop) (fst (claude_tool_calls many i ts cv))"
  "cv_Done (snd (claude_tool_calls many i ts cv)) = cv_Done cv"
  by (induction ts arbitrary: i cv) (simp_all add: Let_def case_prod_beta)

lemma claude_body_events:
  "\<forall>e \<in> set (fst (claude_body d cv)). \<not> is_start e \<and> e \<noteq> MessageStop" "cv_Done (snd (claude_body d cv)) = cv_Done cv"
  using claude_tool_calls_events by (auto simp: claude_body_def Let_def case_prod_beta list_all_iff)

lemma claude_finish_events:
  "\<forall>e \<in> set (fst (claude_finish c cv)). \<not> is_start e" "MessageStop \<in> set (fst (claude_finish c cv))" "cv_Done (snd (claude_finish c cv))"
  by (auto simp: claude_finish_def claude_end_def split: option.split)

lemma claude_next_events:
  assumes "\<not> cv_Done cv"
  shows "\<forall>e \<in> set (fst (claude_next c cv)). \<not> is_start e"
    "(MessageStop \<in> set (fst (claude_next c cv))) = (chunk_finish c \<noteq> None)"
    "cv_Done (snd (claude_next c cv)) = (chunk_finish c \<noteq> None)"
proof -
  have "(\<forall>e \<in> set (fst (claude_next c cv)). \<not> is_start e) \<and> (MessageStop \<in> set (fst (claude_next c cv))) = (chunk_finish c \<noteq> None) \<and>
      cv_Done (snd (claude_next c cv)) = (chunk_finish c \<noteq> None)"
  proof (cases "ck_Choices c")
    case (Cons ch chs)
    define cv0 where "cv0 = (case finish_reason ch of None \<Rightarrow> cv | Some r \<Rightarrow> cv\<lparr>cv_FinishReason := r\<rparr>)"
    have d: "\<not> cv_Done cv0" using assms by (simp add: cv0_def split: option.split)
    show ?thesis
      using claude_body_events [of "so_Delta ch" cv0] claude_finish_events [of c "snd (claude_body (so_Delta ch) cv0)"] d Cons
      unfolding claude_next_def chunk_finish_def Cons list.case cv0_def [symmetric] Let_def by (auto simp: case_prod_beta)
  qed (use assms in \<open>simp add: claude_next_def chunk_finish_def\<close>)
  then show "\<forall>e \<in> set (fst (claude_next c cv)). \<not> is_start e" "(MessageStop \<in> set (fst (claude_next c cv))) = (chunk_finish c \<noteq> None)"
    "cv_Done (snd (claude_next c cv)) = (chunk_finish c \<noteq> None)" by blast+
qed

lemma claude_first_events:
  assumes "\<not> cv_Done cv"
  shows "starts (fst (claude_first prompt c cv)) = 1"
    "(MessageStop \<in> set (fst (claude_first prompt c cv))) = (chunk_finish c \<noteq> None)"
    "cv_Done (snd (claude_first prompt c cv)) = (chunk_finish c \<noteq> None)"
proof -
  have "starts (fst (claude_first prompt c cv)) = 1 \<and> (MessageStop \<in> set (fst (claude_first prompt c cv))) = (chunk_finish c \<noteq> None) \<and>
      cv_Done (snd (claude_first prompt c cv)) = (chunk_finish c \<noteq> None)"
    using assms
    by (cases "ck_Choices c"; cases "chunk_finish c")
      (auto simp: claude_first_def chunk_finish_def claude_finish_def claude_end_def Let_def split: list.split option.split)
  then show "starts (fst (claude_first prompt c cv)) = 1"
    "(MessageStop \<in> set (fst (claude_first prompt c cv))) = (chunk_finish c \<noteq> None)"
    "cv_Done (snd (claude_first prompt c cv)) = (chunk_finish c \<noteq> None)" by blast+
qed

text \<open>One response, whatever the state.\<close>

lemma claude_response_events:
  "StreamResponseOpenAI2Claude prompt n c cv = (es, cv') \<Longrightarrow>
     (MessageStop \<in> set es) = (\<not> cv_Done cv \<and> chunk_finish c \<noteq> None) \<and> cv_Done cv' = (cv_Done cv \<or> chunk_finish c \<noteq> None) \<and>
     starts es = (if \<not> cv_Done cv \<and> n = 1 then 1 else 0)"
proof (cases "cv_Done cv")
  case False
  assume a: "StreamResponseOpenAI2Claude prompt n c cv = (es, cv')"
  show ?thesis
  proof (cases "n = 1")
    case True
    then show ?thesis using a False claude_first_events [OF False, of prompt c] by (simp add: StreamResponseOpenAI2Claude_def)
  next
    case n: False
    then have "fst (claude_next c cv) = es" "snd (claude_next c cv) = cv'" using a False by (simp_all add: StreamResponseOpenAI2Claude_def)
    then show ?thesis using False n claude_next_events [OF False, of c] by (auto simp: filter_empty_conv)
  qed
qed (simp add: StreamResponseOpenAI2Claude_def)

lemma handle_all_stops:
  assumes "xv_format env = RelayFormatClaude" "map (xv_chunk env) ds = map Some cs"
  shows "\<exists>es. fst (handle_all env ds si) = map SseClaude es \<and>
    (MessageStop \<in> set es) = (\<not> cv_Done (si_convert si) \<and> (\<exists>c \<in> set cs. chunk_finish c \<noteq> None)) \<and>
    cv_Done (si_convert (snd (handle_all env ds si))) = (cv_Done (si_convert si) \<or> (\<exists>c \<in> set cs. chunk_finish c \<noteq> None))"
  using assms
proof (induction ds arbitrary: cs si)
  case (Cons d ds)
  then obtain c cs' where cs: "cs = c # cs'" "xv_chunk env d = Some c" "map (xv_chunk env) ds = map Some cs'" by (cases cs) auto
  obtain es cv' where e: "StreamResponseOpenAI2Claude (xv_prompt env) (si_SendResponseCount si + 1) c (note_usage c (si_convert si)) = (es, cv')"
    by fastforce
  have h: "fst (HandleStreamFormat env d si) = map SseClaude es" "si_convert (snd (HandleStreamFormat env d si)) = cv'"
    using e Cons.prems(1) cs(2)
    by (cases "ck_Usage c"; simp add: HandleStreamFormat_def handleClaudeFormat_def send_claude_def note_usage_def Let_def)+
  obtain fs where fs: "fst (handle_all env ds (snd (HandleStreamFormat env d si))) = map SseClaude fs"
    "(MessageStop \<in> set fs) = (\<not> cv_Done cv' \<and> (\<exists>c \<in> set cs'. chunk_finish c \<noteq> None))"
    "cv_Done (si_convert (snd (handle_all env ds (snd (HandleStreamFormat env d si))))) = (cv_Done cv' \<or> (\<exists>c \<in> set cs'. chunk_finish c \<noteq> None))"
    using Cons.IH [OF Cons.prems(1) cs(3), of "snd (HandleStreamFormat env d si)"] h by auto
  have r: "(MessageStop \<in> set es) = (\<not> cv_Done (si_convert si) \<and> chunk_finish c \<noteq> None)" "cv_Done cv' = (cv_Done (si_convert si) \<or> chunk_finish c \<noteq> None)"
    using claude_response_events [OF e] by simp_all
  show ?case
    using h fs r cs(1) by (intro exI [of _ "es @ fs"]) (auto simp: Let_def case_prod_beta)
qed simp

text \<open>A state inside a block never accepts the end at once, nor a second block without a stop.\<close>

lemma in_block_no_stop:
  "in_block p cv \<Longrightarrow> protocol_run p (claude_end None (cv\<lparr>cv_FinishReason := r\<rparr>)) = None"
  by (cases "cv_LastMessagesType cv") (simp_all add: in_block_def claude_end_def)

lemma claude_body_usage: "delta_tools d = [] \<Longrightarrow> cv_Usage (snd (claude_body d cv)) = cv_Usage cv"
  by (simp add: claude_body_def Let_def)

lemma emit_no_usage:
  assumes "in_block p cv" "cs.admissible_all cv cs" "\<forall>c \<in> set cs. ck_Usage c = None" "cv_Usage cv = None"
  shows "cv_Usage (snd (cs.emit cs cv)) = None"
  using assms
proof (induction cs arbitrary: p cv)
  case (Cons c cs)
  then have c: "plain_chunk (cv_LastMessagesType cv = LastMessageTypeText) c" "chunk_finish c = None" by auto
  obtain ch chs where ch: "ck_Choices c = ch # chs" "delta_tools (so_Delta ch) = []" using c(1) by (auto simp: plain_chunk_def split: list.splits)
  have b: "claude_chunk c cv = claude_body (so_Delta ch) (note_usage c cv)"
    using claude_chunk_body [OF ch(1) c(2) _ ch(2)] Cons.prems(1) by (simp add: in_block_def)
  obtain q where q: "in_block q (snd (claude_chunk c cv))" using claude_chunk_accepted(1) [OF Cons.prems(1) c] by blast
  have u: "cv_Usage (snd (claude_chunk c cv)) = None" unfolding b using claude_body_usage [OF ch(2)] Cons.prems(3,4) by (simp add: note_usage_def)
  show ?case using Cons.IH [OF q] Cons.prems u by (simp add: Let_def case_prod_beta)
qed simp

section \<open>Reasoning as content\<close>

fun sse_content :: "sse \<Rightarrow> string" where
  "sse_content (SseChunk c) = concat (map (\<lambda>ch. GetContentString (so_Delta ch)) (ck_Choices c))"
| "sse_content e = []"

abbreviation sent_content :: "sse list \<Rightarrow> string" where
  "sent_content es \<equiv> concat (map sse_content es)"

definition chunk_reasoning :: "chunk \<Rightarrow> string" where
  "chunk_reasoning c = concat (map (\<lambda>ch. GetReasoningContent (so_Delta ch)) (ck_Choices c))"

definition chunk_content :: "chunk \<Rightarrow> string" where
  "chunk_content c = concat (map (\<lambda>ch. GetContentString (so_Delta ch)) (ck_Choices c))"

lemma set_content_parts [simp]: "GetContentString (so_Delta (set_content s ch)) = s" "GetContentString (so_Delta (clear_reasoning ch)) = GetContentString (so_Delta ch)"
  by (simp_all add: set_content_def clear_reasoning_def GetContentString_def)

text \<open>The closing tag.\<close>

abbreviation think_end :: string where "think_end \<equiv> [CHR 0x0A] @ ''</think>'' @ [CHR 0x0A]"

lemma think_step:
  assumes "ck_Choices c = [ch]" "th_HasSent th" "\<not> th_IsFirst th" "chunk_reasoning c = [] \<or> chunk_content c = []"
  shows "sent_content (map SseChunk (fst (think_choices c th))) =
      (if chunk_content c \<noteq> [] \<and> \<not> th_SendLast th then think_end else []) @ chunk_reasoning c @ chunk_content c"
    "snd (think_choices c th) = (if chunk_content c \<noteq> [] then th\<lparr>th_SendLast := True\<rparr> else th)"
  using assms by (auto simp: think_choices_def Let_def chunk_reasoning_def chunk_content_def)

text \<open>What is sent for chunks that hold reasoning or content; \<open>shut\<close> says that the closing tag has been sent.\<close>

fun think_text :: "bool \<Rightarrow> chunk list \<Rightarrow> string" where
  "think_text shut [] = []"
| "think_text shut (c # cs) = (if chunk_content c \<noteq> [] \<and> \<not> shut then think_end else []) @ chunk_reasoning c @ chunk_content c @
     think_text (shut \<or> chunk_content c \<noteq> []) cs"

lemma think_text_simps:
  "\<forall>c \<in> set cs. chunk_content c = [] \<Longrightarrow> think_text shut (cs @ ds) = concat (map chunk_reasoning cs) @ think_text shut ds"
  "\<forall>c \<in> set cs. chunk_reasoning c = [] \<Longrightarrow> think_text True cs = concat (map chunk_content cs)"
  by (induction cs) simp_all

lemma think_send:
  assumes "xv_format env = RelayFormatOpenAI" "xv_think env" "d \<noteq> []" "xv_chunk env d = Some c"
  shows "fst (HandleStreamFormat env d si) = map SseChunk (fst (think_choices c (si_thinking si)))"
    "si_thinking (snd (HandleStreamFormat env d si)) = snd (think_choices c (si_thinking si))"
    "fst (sendStreamData env d si) = map SseChunk (fst (think_choices c (si_thinking si)))"
  using assms by (simp_all add: HandleStreamFormat_def sendStreamData_def Let_def case_prod_beta)

lemma think_handle:
  assumes "xv_format env = RelayFormatOpenAI" "xv_think env" "\<forall>d \<in> set ds. d \<noteq> []" "map (xv_chunk env) ds = map Some cs"
    "\<forall>c \<in> set cs. \<exists>ch. ck_Choices c = [ch]" "\<forall>c \<in> set cs. chunk_reasoning c = [] \<or> chunk_content c = []"
    "th_HasSent (si_thinking si)" "\<not> th_IsFirst (si_thinking si)"
  shows "sent_content (fst (handle_all env ds si)) = think_text (th_SendLast (si_thinking si)) cs \<and>
    si_thinking (snd (handle_all env ds si)) = (si_thinking si)\<lparr>th_SendLast := th_SendLast (si_thinking si) \<or> (\<exists>c \<in> set cs. chunk_content c \<noteq> [])\<rparr>"
  using assms
proof (induction ds arbitrary: cs si)
  case (Cons d ds)
  obtain c cs' where cs: "cs = c # cs'" "xv_chunk env d = Some c" "map (xv_chunk env) ds = map Some cs'"
    using Cons.prems(4) by (cases cs) auto
  obtain ch where ch: "ck_Choices c = [ch]" using Cons.prems(5) cs(1) by auto
  have e: "chunk_reasoning c = [] \<or> chunk_content c = []" using Cons.prems(6) cs(1) by simp
  note st = think_step [OF ch Cons.prems(7,8) e] and se = think_send [OF Cons.prems(1,2) _ cs(2), of si]
  let ?si = "snd (HandleStreamFormat env d si)"
  have t: "si_thinking ?si = (if chunk_content c \<noteq> [] then (si_thinking si)\<lparr>th_SendLast := True\<rparr> else si_thinking si)"
    "sent_content (fst (HandleStreamFormat env d si)) =
      (if chunk_content c \<noteq> [] \<and> \<not> th_SendLast (si_thinking si) then think_end else []) @ chunk_reasoning c @ chunk_content c"
    using st se Cons.prems(3) by simp_all
  have "sent_content (fst (handle_all env ds ?si)) = think_text (th_SendLast (si_thinking ?si)) cs'"
    "si_thinking (snd (handle_all env ds ?si)) = (si_thinking ?si)\<lparr>th_SendLast := th_SendLast (si_thinking ?si) \<or> (\<exists>c \<in> set cs'. chunk_content c \<noteq> [])\<rparr>"
    using Cons.IH [of cs' ?si] Cons.prems cs t(1) by simp_all
  then show ?case using t cs(1) by (auto simp: Let_def case_prod_beta)
qed simp

section \<open>Examples\<close>

definition demo_chunk :: "string option \<Rightarrow> string option \<Rightarrow> fn_call list option \<Rightarrow> string option \<Rightarrow> oai_usage option \<Rightarrow> chunk" where
  "demo_chunk content reasoning tools finish usage = \<lparr>ck_Id = ''x'', ck_Created = 0, ck_Model = ''m'', ck_SystemFingerprint = None,
     ck_Choices = [\<lparr>so_Delta = \<lparr>dl_Content = content, dl_ReasoningContent = reasoning, dl_Reasoning = None, dl_ToolCalls = tools\<rparr>,
       so_FinishReason = finish, so_Index = 0\<rparr>], ck_Usage = usage\<rparr>"

definition demo_tool :: fn_call where
  "demo_tool = \<lparr>fn_Index = Some 0, fn_ID = ''t'', fn_Name = ''f'', fn_Arguments = ''{}''\<rparr>"

abbreviation demo_usage :: oai_usage where
  "demo_usage \<equiv> no_usage\<lparr>ou_PromptTokens := 9, ou_CompletionTokens := 4, ou_TotalTokens := 13\<rparr>"

text \<open>A first item, text, reasoning, the end, usage without choices, and a tool call.\<close>

definition demo_chunk_of :: "string \<Rightarrow> chunk option" where
  "demo_chunk_of d =
     (if d = ''first'' then Some (demo_chunk (Some []) None None None None)
      else if d = ''text'' then Some (demo_chunk (Some ''hi'') None None None None)
      else if d = ''think'' then Some (demo_chunk None (Some ''hm'') None None None)
      else if d = ''end'' then Some (demo_chunk None None None (Some ''stop'') None)
      else if d = ''usage'' then Some ((demo_chunk None None None None (Some demo_usage))\<lparr>ck_Choices := []\<rparr>)
      else if d = ''tool'' then Some (demo_chunk None None (Some [demo_tool]) None None)
      else None)"

definition demo_stream_env :: "relay_format \<Rightarrow> relay_mode \<Rightarrow> stream_env" where
  "demo_stream_env fmt mode = \<lparr>xv_format = fmt, xv_mode = mode, xv_model = ''m'', xv_prompt = 9, xv_force = False, xv_think = False,
     xv_include_usage = False, xv_audio = False, xv_channel_type = 1, xv_chunk = demo_chunk_of,
     xv_chunks = (\<lambda>ds. if None \<in> set (map demo_chunk_of ds) then None else Some (map (\<lambda>d. the (demo_chunk_of d)) ds)),
     xv_texts = (\<lambda>_. None), xv_all_texts = (\<lambda>_. None), xv_usage = (\<lambda>_. None), xv_cached = (\<lambda>_. None), xv_moonshot_cached = (\<lambda>_. None),
     xv_is_object = (\<lambda>_. True), xv_estimate = (\<lambda>s. int (length s))\<rparr>"

definition demo_stream_info :: stream_info where
  "demo_stream_info = \<lparr>si_SendResponseCount = 0, si_convert = claude_initial, si_thinking = \<lparr>th_IsFirst = True, th_SendLast = False, th_HasSent = False\<rparr>\<rparr>"

lemma demo_stream_parts [simp]: "xv_format (demo_stream_env f m) = f" "xv_mode (demo_stream_env f m) = m" "\<not> xv_audio (demo_stream_env f m)"
  "xv_chunk (demo_stream_env f m) = demo_chunk_of" "xv_estimate (demo_stream_env f m) s = int (length s)"
  "si_SendResponseCount demo_stream_info = 0" "si_convert demo_stream_info = claude_initial"
  by (simp_all add: demo_stream_env_def demo_stream_info_def)

lemma demo_chunks [simp]: "demo_chunk_of ''first'' = Some (demo_chunk (Some []) None None None None)"
  "demo_chunk_of ''text'' = Some (demo_chunk (Some ''hi'') None None None None)"
  "demo_chunk_of ''think'' = Some (demo_chunk None (Some ''hm'') None None None)"
  "demo_chunk_of ''end'' = Some (demo_chunk None None None (Some ''stop'') None)"
  "demo_chunk_of ''usage'' = Some ((demo_chunk None None None None (Some demo_usage))\<lparr>ck_Choices := []\<rparr>)"
  by (simp_all add: demo_chunk_of_def)

lemma demo_chunk_facts [simp]:
  "chunk_finish (demo_chunk c r t f u) = (case f of None \<Rightarrow> None | Some s \<Rightarrow> if s = [] then None else Some s)"
  "ck_Usage (demo_chunk c r t f u) = u"
  "plain_chunk seen (demo_chunk c r None f u) = (r = None \<or> r = Some [] \<or> (c = None \<or> c = Some []) \<and> \<not> seen)"
  "has_text (demo_chunk c r t f u) = (c \<noteq> None \<and> c \<noteq> Some [])"
  "chunk_visible (demo_chunk c r t f u) = (case r of None \<Rightarrow> [] | Some s \<Rightarrow> map (Pair True) s) @ (case c of None \<Rightarrow> [] | Some s \<Rightarrow> map (Pair False) s)"
  by (auto simp: demo_chunk_def chunk_finish_def finish_reason_def plain_chunk_def delta_tools_def GetReasoningContent_def GetContentString_def
      has_text_def chunk_visible_def split: option.split)

section \<open>Properties\<close>

text \<open>
  C9. A stream of reasoning and text without tool calls, each chunk with a choice and not with both, in which no
  reasoning comes after text, of three items or more that all decode, some of whose chunks shows a character, and whose last item, and only that one, gives a reason
  to finish: a client of the Claude interface gets a message that the protocol accepts from start to end, that shows
  every character of the stream, in order, as reasoning or text, and that ends with the translated reason and
  the usage of the last item or, if it has none, the usage the request is billed with. (When a usage chunk follows the
  one that finishes, the client gets neither: \<open>claude_stop_reason_lost\<close>.)
\<close>

theorem claude_text_stream:
  assumes "xv_format env = RelayFormatClaude" "items = d # ds @ [dn]" "\<forall>d \<in> set items. d \<noteq> []"
    "map (xv_chunk env) (d # ds) = map Some (c # cs)" "cs \<noteq> []" "xv_chunk env dn = Some cn"
    "plain_chunks False (c # cs)" "plain_chunk (\<exists>c \<in> set (c # cs). has_text c) cn" "chunk_finish cn = Some r"
    "\<exists>c \<in> set (c # cs @ [cn]). chunk_visible c \<noteq> []"
    "si_SendResponseCount si = 0" "si_convert si = claude_initial"
  shows "\<exists>evs es i. snd (OaiStreamHandler env items si) = map SseClaude evs \<and> protocol_run Waiting evs = Some Ended \<and>
    visible evs = concat (map chunk_visible (c # cs @ [cn])) \<and>
    evs = es @ [BlockStop i, MessageDelta (event_tokens (case ck_Usage cn of None \<Rightarrow> fst (OaiStreamHandler env items si) | Some u \<Rightarrow> u))
      (stopReasonOpenAI2Claude r), MessageStop]"
proof -
  let ?si = "snd (handle_all env (d # ds) si)"
  let ?usage = "fst (OaiStreamHandler env items si)"
  let ?cv = "(si_convert ?si)\<lparr>cv_Usage := Some ?usage\<rparr>"
  have l: "butlast items = d # ds" "List.last items = dn" "items \<noteq> []" using assms(2) by simp_all
  obtain es cv q where t: "fst (handle_all env (d # ds) si) = map SseClaude es" "si_convert ?si = cv"
    "si_SendResponseCount ?si = 1 + int (length cs)" "protocol_run Waiting es = Some q" "in_block q cv"
    "visible es = concat (map chunk_visible (c # cs))"
    "(cv_LastMessagesType cv = LastMessageTypeNone) = (\<forall>c \<in> set (c # cs). chunk_visible c = [])"
    "(cv_LastMessagesType cv = LastMessageTypeText) = (\<exists>c \<in> set (c # cs). has_text c)"
    using handle_text_items [OF assms(1,4,7,11,12)] by metis
  have h: "snd (OaiStreamHandler env items si) = map SseClaude es @
      map SseClaude (fst (StreamResponseOpenAI2Claude (xv_prompt env) (si_SendResponseCount ?si) cn ?cv))"
    using claude_handler [OF assms(1,3) l(3), of cn si] assms(6) l t(1) by (auto simp: Let_def)
  have "si_SendResponseCount ?si \<noteq> 1" using t(3) assms(5) by simp
  then have n: "StreamResponseOpenAI2Claude (xv_prompt env) (si_SendResponseCount ?si) cn ?cv = claude_next cn ?cv"
    using t(2,5) by (simp add: StreamResponseOpenAI2Claude_def in_block_def)
  have ty: "cv_LastMessagesType ?cv \<noteq> LastMessageTypeNone \<or> chunk_visible cn \<noteq> []" using t(2,7) assms(10) by auto
  have ib: "in_block q ?cv" using t(2,5) by simp
  have pl: "plain_chunk (cv_LastMessagesType ?cv = LastMessageTypeText) cn" using assms(8) t(2,8) by simp
  obtain fs i u where f: "fst (claude_next cn ?cv) = fs @ [BlockStop i, MessageDelta (event_tokens u) (stopReasonOpenAI2Claude r), MessageStop]"
    "Some u = (case ck_Usage cn of None \<Rightarrow> cv_Usage ?cv | Some u \<Rightarrow> Some u)" "visible fs = chunk_visible cn"
    "protocol_run q (fst (claude_next cn ?cv)) = Some Ended"
    using claude_last_chunk [OF ib pl assms(9) _ ty] by auto
  have u: "u = (case ck_Usage cn of None \<Rightarrow> ?usage | Some u \<Rightarrow> u)" using f(2) by (cases "ck_Usage cn") simp_all
  show ?thesis
    using h n t f unfolding u
    by (intro exI [of _ "es @ fst (claude_next cn ?cv)"] exI [of _ "es @ fs"] exI [of _ i]) (simp add: protocol_run_append)
qed

theorem claude_text_stream_witness:
  "\<exists>evs. snd (OaiStreamHandler (demo_stream_env RelayFormatClaude RelayModeUnknown) [''first'', ''think'', ''text'', ''end''] demo_stream_info) =
     map SseClaude evs \<and> protocol_run Waiting evs = Some Ended \<and> visible evs = [(True, CHR ''h''), (True, CHR ''m''), (False, CHR ''h''), (False, CHR ''i'')]"
  using claude_text_stream [of "demo_stream_env RelayFormatClaude RelayModeUnknown" "[''first'', ''think'', ''text'', ''end'']" "''first''" "[''think'', ''text'']"
      "''end''" "demo_chunk (Some []) None None None None" "[demo_chunk None (Some ''hm'') None None None, demo_chunk (Some ''hi'') None None None None]"
      "demo_chunk None None None (Some ''stop'') None" "''stop''" demo_stream_info]
  by fastforce

text \<open>
  With the option that the code always sets for such requests, the usage comes in an item of its own
  after the reason to finish. Then the client never learns why the message stopped, nor the usage, and the protocol rejects
  the stream.
\<close>

theorem claude_stop_reason_lost:
  assumes "xv_format env = RelayFormatClaude" "items = d # ds @ [df, du]" "\<forall>d \<in> set items. d \<noteq> []"
    "map (xv_chunk env) (d # ds) = map Some (c # cs)" "xv_chunk env df = Some cf" "xv_chunk env du = Some cu"
    "plain_chunks False (c # cs)" "\<forall>c \<in> set (c # cs @ [cf]). ck_Usage c = None"
    "plain_chunk (\<exists>c \<in> set (c # cs). has_text c) cf" "chunk_finish cf = Some r"
    "si_SendResponseCount si = 0" "si_convert si = claude_initial"
  shows "\<exists>evs. snd (OaiStreamHandler env items si) = map SseClaude evs \<and> MessageStop \<in> set evs \<and>
    (\<forall>u s. MessageDelta u s \<notin> set evs) \<and> protocol_run Waiting evs = None"
proof -
  let ?si = "snd (handle_all env (d # ds) si)"
  obtain es cv q where t: "fst (handle_all env (d # ds) si) = map SseClaude es" "si_convert ?si = cv"
    "cv = snd (cs.emit (c # cs) claude_initial)" "si_SendResponseCount ?si = 1 + int (length cs)"
    "protocol_run Waiting es = Some q" "in_block q cv" "(cv_LastMessagesType cv = LastMessageTypeText) = (\<exists>c \<in> set (c # cs). has_text c)"
    using handle_text_items [OF assms(1,4,7,11,12)] by metis
  have adm: "cs.admissible_all claude_initial (c # cs)"
    by (rule plain_chunks_admissible [OF claude_initial_in]) (use assms(7) in simp)
  have nu: "cv_Usage cv = None" unfolding t(3) by (rule emit_no_usage [OF claude_initial_in adm]) (use assms(8) in simp_all)
  obtain ch chs where ch: "ck_Choices cf = ch # chs" "delta_tools (so_Delta ch) = []" "finish_reason ch = Some r"
    "GetReasoningContent (so_Delta ch) = [] \<or> GetContentString (so_Delta ch) = [] \<and> cv_LastMessagesType cv \<noteq> LastMessageTypeText"
    using assms(9,10) t(7) by (auto simp: plain_chunk_def chunk_finish_def split: list.splits)
  define cv0 where "cv0 = cv\<lparr>cv_FinishReason := r\<rparr>"
  obtain bs cv1 where b: "claude_body (so_Delta ch) cv0 = (bs, cv1)" by fastforce
  obtain q1 where q1: "protocol_run q bs = Some q1" "in_block q1 cv1"
    using claude_body_accepted(1) [of q cv0 "so_Delta ch"] t(6) ch b by (auto simp: cv0_def)
  have k: "cv_Usage cv1 = None" using claude_body_usage [OF ch(2), of cv0] nu b by (simp add: cv0_def)
  have n: "claude_next cf cv = (bs @ claude_end None cv1, cv1\<lparr>cv_Done := True\<rparr>)"
    using ch b k assms(8) by (simp add: claude_next_def claude_finish_def cv0_def)
  have d: "\<not> cv_Done cv" "ck_Usage cf = None" using t(6) assms(8) by (simp_all add: in_block_def)
  have "si_SendResponseCount ?si + 1 \<noteq> 1" using t(4) by simp
  then have f: "fst (HandleStreamFormat env df ?si) = map SseClaude (bs @ claude_end None cv1)"
    "cv_Done (si_convert (snd (HandleStreamFormat env df ?si)))"
    using n d t(2) assms(1,5)
    by (simp_all add: HandleStreamFormat_def handleClaudeFormat_def send_claude_def StreamResponseOpenAI2Claude_def Let_def)
  have l: "butlast items = (d # ds) @ [df]" "List.last items = du" "items \<noteq> []" using assms(2) by (simp_all add: butlast_append)
  have one: "handle_all env [df] ?si = HandleStreamFormat env df ?si" by (simp add: Let_def case_prod_beta)
  have ap: "handle_all env (butlast items) si =
      (map SseClaude (es @ bs @ claude_end None cv1), snd (HandleStreamFormat env df ?si))"
    unfolding l(1) handle_all_append case_prod_beta Let_def one using t(1) f(1) by simp
  have h: "snd (OaiStreamHandler env items si) = map SseClaude (es @ bs @ claude_end None cv1)"
    using claude_handler [OF assms(1,3) l(3), of cu si] f(2) assms(6)
    unfolding l(2) ap by (auto simp: StreamResponseOpenAI2Claude_def Let_def)
  have e: "protocol_run q1 (claude_end None cv1) = None"
    using q1(2) by (cases "cv_LastMessagesType cv1") (simp_all add: in_block_def claude_end_def)
  have nd: "MessageDelta u s \<notin> set (es @ bs)" for u s
    using protocol_open_no_delta [of Waiting "es @ bs" q1 u s] t(5) q1
    by (cases "cv_LastMessagesType cv1") (auto simp: protocol_run_append in_block_def)
  show ?thesis
    using h nd e t(5) q1(1) by (intro exI [of _ "es @ bs @ claude_end None cv1"]) (auto simp: protocol_run_append claude_end_def)
qed

theorem claude_stop_reason_lost_witness:
  "\<exists>evs. snd (OaiStreamHandler (demo_stream_env RelayFormatClaude RelayModeUnknown) [''first'', ''text'', ''end'', ''usage''] demo_stream_info) =
     map SseClaude evs \<and> MessageStop \<in> set evs \<and> protocol_run Waiting evs = None"
  using claude_stop_reason_lost [of "demo_stream_env RelayFormatClaude RelayModeUnknown" "[''first'', ''text'', ''end'', ''usage'']" "''first''" "[''text'']"
      "''end''" "''usage''" "demo_chunk (Some []) None None None None" "[demo_chunk (Some ''hi'') None None None None]"
      "demo_chunk None None None (Some ''stop'') None" "(demo_chunk None None None None (Some demo_usage))\<lparr>ck_Choices := []\<rparr>" "''stop''" demo_stream_info]
  by fastforce

text \<open>
  A client of the Claude interface is told that the message is over exactly when some item carries a
  reason to finish: a stream that ends without one, cut off or closed by its final marker, leaves the message open.
\<close>

theorem claude_stream_ends_iff:
  assumes "xv_format env = RelayFormatClaude" "\<forall>d \<in> set items. d \<noteq> []" "items \<noteq> []" "map (xv_chunk env) items = map Some cs"
    "\<not> cv_Done (si_convert si)"
  shows "\<exists>evs. snd (OaiStreamHandler env items si) = map SseClaude evs \<and>
    (MessageStop \<in> set evs \<longleftrightarrow> (\<exists>c \<in> set cs. chunk_finish c \<noteq> None))"
proof -
  obtain ds d where i: "items = ds @ [d]" using assms(3) rev_exhaust by blast
  then obtain cs' c where cs: "cs = cs' @ [c]" "map (xv_chunk env) ds = map Some cs'" "xv_chunk env d = Some c"
    using assms(4) by (cases cs rule: rev_cases) auto
  let ?si = "snd (handle_all env ds si)"
  obtain es where es: "fst (handle_all env ds si) = map SseClaude es"
    "(MessageStop \<in> set es) = (\<exists>c \<in> set cs'. chunk_finish c \<noteq> None)" "cv_Done (si_convert ?si) = (\<exists>c \<in> set cs'. chunk_finish c \<noteq> None)"
    using handle_all_stops [OF assms(1) cs(2), of si] assms(5) by auto
  obtain fs cv where fs: "StreamResponseOpenAI2Claude (xv_prompt env) (si_SendResponseCount ?si) c
      ((si_convert ?si)\<lparr>cv_Usage := Some (fst (OaiStreamHandler env items si))\<rparr>) = (fs, cv)" by fastforce
  have "snd (OaiStreamHandler env items si) = map SseClaude (es @ fs)"
    using claude_handler [OF assms(1-3), of c si] i cs(3) es(1) fs by (auto simp: Let_def)
  then show ?thesis using es claude_response_events [OF fs] cs(1) by (intro exI [of _ "es @ fs"]) auto
qed

theorem claude_stream_ends_iff_witness:
  "\<exists>evs. snd (OaiStreamHandler (demo_stream_env RelayFormatClaude RelayModeUnknown) [''first'', ''text''] demo_stream_info) = map SseClaude evs \<and>
     MessageStop \<notin> set evs"
  using claude_stream_ends_iff [of "demo_stream_env RelayFormatClaude RelayModeUnknown" "[''first'', ''text'']"
      "[demo_chunk (Some []) None None None None, demo_chunk (Some ''hi'') None None None None]" demo_stream_info]
  by fastforce

text \<open>
  Streams of one or two items are never accepted: with one, no message is started; with two, of which the
  first does not finish, it is started twice, because the last item is handled before the count of
  responses is raised.
\<close>

theorem claude_short_streams:
  assumes "xv_format env = RelayFormatClaude" "\<forall>d \<in> set items. d \<noteq> []" "map (xv_chunk env) items = map Some cs" "chunk_finish (hd cs) = None \<or> length cs = 1"
    "length items = 1 \<or> length items = 2" "si_SendResponseCount si = 0" "\<not> cv_Done (si_convert si)"
  shows "\<exists>evs. snd (OaiStreamHandler env items si) = map SseClaude evs \<and> starts evs = 2 * (length items - 1) \<and>
    protocol_run Waiting evs \<noteq> Some Ended"
proof -
  have ne: "items \<noteq> []" using assms(5) by auto
  have "\<exists>evs. snd (OaiStreamHandler env items si) = map SseClaude evs \<and> starts evs = 2 * (length items - 1)"
  proof (cases "length items = 1")
    case True
    then obtain d where d: "items = [d]" by (cases items) auto
    then obtain c where c: "xv_chunk env d = Some c" using assms(3) by auto
    obtain fs cv where fs: "StreamResponseOpenAI2Claude (xv_prompt env) (si_SendResponseCount si) c
      ((si_convert si)\<lparr>cv_Usage := Some (fst (OaiStreamHandler env items si))\<rparr>) = (fs, cv)" by fastforce
    have "snd (OaiStreamHandler env items si) = map SseClaude fs"
      using claude_handler [OF assms(1,2) ne, of c si] d c fs by (auto simp: Let_def)
    then show ?thesis using claude_response_events [OF fs] assms(6) True by (intro exI [of _ fs]) simp
  next
    case False
    then obtain d1 d2 where d: "items = [d1, d2]" using assms(5) by (cases items; cases "tl items") auto
    then obtain c1 c2 where c: "xv_chunk env d1 = Some c1" "xv_chunk env d2 = Some c2" "cs = [c1, c2]" using assms(3) by auto
    obtain es cv where e: "StreamResponseOpenAI2Claude (xv_prompt env) 1 c1 (note_usage c1 (si_convert si)) = (es, cv)" by fastforce
    have r: "starts es = 1" "\<not> cv_Done cv" using claude_response_events [OF e] assms(4,7) c(3) by simp_all
    have h: "fst (handle_all env [d1] si) = map SseClaude es" "si_convert (snd (handle_all env [d1] si)) = cv"
      "si_SendResponseCount (snd (handle_all env [d1] si)) = 1"
      using e assms(1,6) c(1)
      by (cases "ck_Usage c1"; simp add: HandleStreamFormat_def handleClaudeFormat_def send_claude_def note_usage_def Let_def case_prod_beta)+
    obtain fs cv' where fs: "StreamResponseOpenAI2Claude (xv_prompt env) 1 c2 (cv\<lparr>cv_Usage := Some (fst (OaiStreamHandler env items si))\<rparr>) = (fs, cv')"
      by fastforce
    have "starts fs = 1" using claude_response_events [OF fs] r(2) by simp
    moreover have "snd (OaiStreamHandler env items si) = map SseClaude (es @ fs)"
      using claude_handler [OF assms(1,2) ne, of c2 si] d c h fs by (auto simp: Let_def simp del: handle_all.simps)
    ultimately show ?thesis using r d by (intro exI [of _ "es @ fs"]) simp
  qed
  then show ?thesis using protocol_one_start assms(5) by fastforce
qed

theorem claude_short_streams_witness:
  "\<exists>evs. snd (OaiStreamHandler (demo_stream_env RelayFormatClaude RelayModeUnknown) [''text'', ''end''] demo_stream_info) = map SseClaude evs \<and>
     starts evs = 2"
  using claude_short_streams [of "demo_stream_env RelayFormatClaude RelayModeUnknown" "[''text'', ''end'']"
      "[demo_chunk (Some ''hi'') None None None None, demo_chunk None None None (Some ''stop'') None]" demo_stream_info]
  by fastforce

text \<open>
  Tool calls are numbered by the upstream from 0, and the translation takes their number for that of the
  block. So the protocol rejects every call that follows reasoning or text, whose block has a number that is taken,
  and every call that is not in the first item and follows nothing, since it stops a block that was never started.
\<close>

theorem claude_tools_rejected:
  assumes "in_block p cv" "ck_Choices c = ch # chs" "delta_tools (so_Delta ch) = t # ts" "fn_Name t \<noteq> []"
    "fn_Index t = Some 0 \<and> cv_LastMessagesType cv \<noteq> LastMessageTypeNone \<and> 0 \<le> cv_Index cv \<or>
     cv_LastMessagesType cv = LastMessageTypeNone"
  shows "protocol_run p (fst (claude_next c cv)) = None"
proof -
  define cv0 where "cv0 = (case finish_reason ch of None \<Rightarrow> cv | Some r \<Rightarrow> cv\<lparr>cv_FinishReason := r\<rparr>)"
  have cv0: "in_block p cv0" "cv_LastMessagesType cv0 = cv_LastMessagesType cv" "cv_Index cv0 = cv_Index cv"
    using assms(1) by (simp_all add: cv0_def split: option.split)
  have ty: "cv_LastMessagesType cv \<noteq> LastMessageTypeTools" using assms(1) by (auto simp: in_block_def)
  have b: "protocol_run p (fst (claude_body (so_Delta ch) cv0)) = None"
    using cv0 ty assms(3-5)
    by (cases "cv_LastMessagesType cv") (auto simp: claude_body_def in_block_def Let_def case_prod_beta)
  then show ?thesis
    unfolding claude_next_def assms(2) list.case cv0_def [symmetric] by (simp add: Let_def case_prod_beta protocol_run_append)
qed

theorem claude_tools_rejected_witness:
  "protocol_run (Inside 0 KindText) (fst (claude_next (demo_chunk None None (Some [demo_tool]) None None)
     (claude_initial\<lparr>cv_LastMessagesType := LastMessageTypeText\<rparr>))) = None"
  using claude_tools_rejected [of "Inside 0 KindText" "claude_initial\<lparr>cv_LastMessagesType := LastMessageTypeText\<rparr>"
      "demo_chunk None None (Some [demo_tool]) None None" "hd (ck_Choices (demo_chunk None None (Some [demo_tool]) None None))" "[]" demo_tool "[]"]
  by (simp add: in_block_def demo_chunk_def demo_tool_def delta_tools_def)

text \<open>
  A chat stream is billed with the usage of its last item, if that is valid, and else with an estimate of
  all its text, reasoning, tool names and arguments, plus seven tokens for each of the largest number of
  tool calls in one choice; usage that comes in an earlier item is ignored.
\<close>

theorem stream_usage_billed:
  assumes "xv_mode env = RelayModeChatCompletions" "\<not> xv_audio env" "\<forall>d \<in> set items. d \<noteq> []" "items \<noteq> []"
    "map (xv_chunk env) items = map Some cs" "xv_chunks env items = Some cs"
  shows "fst (OaiStreamHandler env items si) = applyUsagePostProcessing env (List.last items)
    (if ValidUsage (ck_Usage (List.last cs)) then the (ck_Usage (List.last cs))
     else (ResponseText2Usage env (concat (map chunk_text cs)))\<lparr>ou_CompletionTokens :=
       xv_estimate env (concat (map chunk_text cs)) + fold chunk_tools cs 0 * 7\<rparr>)"
proof -
  define os where "os = fold (oai_item env) items \<lparr>os_last = [], os_second = [], os_items = [], os_info = si, os_out = []\<rparr>"
  note o = oai_stream_items [OF assms(3,4) os_def]
  have l: "xv_chunk env (List.last items) = Some (List.last cs)"
    using assms(4,5) last_map [of items "xv_chunk env"] last_map [of cs Some] by fastforce
  have "fold (\<lambda>c (text, n). (text @ chunk_text c, chunk_tools c n)) cs (w, n) = (w @ concat (map chunk_text cs), fold chunk_tools cs n)"
    for w n by (induction cs arbitrary: w n) simp_all
  then have t: "processTokens env items = (concat (map chunk_text cs), fold chunk_tools cs 0)"
    using assms(1,6) by (simp add: processTokens_def)
  show ?thesis
    unfolding OaiStreamHandler_def os_def [symmetric] Let_def o(3,4) t handleLastResponse_def l
    using assms(2) by (cases "ck_Usage (List.last cs)"; cases "ValidUsage (ck_Usage (List.last cs))")
      (simp_all add: case_prod_beta ResponseText2Usage_def Let_def ValidUsage_def)
qed

theorem stream_usage_billed_witness:
  "ou_CompletionTokens (fst (OaiStreamHandler (demo_stream_env RelayFormatOpenAI RelayModeChatCompletions) [''first'', ''text'', ''usage''] demo_stream_info)) = 4"
  using stream_usage_billed [of "demo_stream_env RelayFormatOpenAI RelayModeChatCompletions" "[''first'', ''text'', ''usage'']"
      "[demo_chunk (Some []) None None None None, demo_chunk (Some ''hi'') None None None None, (demo_chunk None None None None (Some demo_usage))\<lparr>ck_Choices := []\<rparr>]"
      demo_stream_info]
  by (simp add: demo_stream_env_def ValidUsage_def applyUsagePostProcessing_def ChannelTypeDeepSeek_def ChannelTypeZhipu_v4_def ChannelTypeMoonshot_def)

text \<open>
  A stream for a client of the Claude interface whose last item has no usage is billed with no
  completion tokens at all, whatever it said: the mode of its path is unknown, and no text is counted then.
\<close>

theorem claude_stream_unbilled:
  assumes "xv_mode env = Path2RelayMode ''/v1/messages''" "\<not> xv_audio env" "xv_estimate env [] = 0"
    "\<forall>d \<in> set items. d \<noteq> []" "items \<noteq> []" "xv_chunk env (List.last items) = Some c" "\<not> ValidUsage (ck_Usage c)"
  shows "ou_CompletionTokens (fst (OaiStreamHandler env items si)) = 0"
proof -
  define os where "os = fold (oai_item env) items \<lparr>os_last = [], os_second = [], os_items = [], os_info = si, os_out = []\<rparr>"
  note o = oai_stream_items [OF assms(4,5) os_def]
  have "Path2RelayMode ''/v1/messages'' = RelayModeUnknown" by code_simp
  then have m: "xv_mode env = RelayModeUnknown" using assms(1) by simp
  have p: "processTokens env items = ([], 0)" by (simp add: processTokens_def m)
  have k: "ou_CompletionTokens (applyUsagePostProcessing env b u) = ou_CompletionTokens u" for b u
    by (simp add: applyUsagePostProcessing_def Let_def split: option.split)
  show ?thesis
    unfolding OaiStreamHandler_def os_def [symmetric] Let_def o(3,4) p handleLastResponse_def assms(6)
    using assms(2,3,7) by (cases "ck_Usage c") (simp_all add: case_prod_beta ResponseText2Usage_def k)
qed

theorem claude_stream_unbilled_witness:
  "ou_CompletionTokens (fst (OaiStreamHandler (demo_stream_env RelayFormatClaude (Path2RelayMode ''/v1/messages'')) [''first'', ''text'', ''end''] demo_stream_info)) = 0"
  using claude_stream_unbilled [of "demo_stream_env RelayFormatClaude (Path2RelayMode ''/v1/messages'')" "[''first'', ''text'', ''end'']"
      "demo_chunk None None None (Some ''stop'') None" demo_stream_info]
  by (simp add: ValidUsage_def)

text \<open>
  With the option that turns reasoning into content, a client of the OpenAI interface reads the reasoning of
  a stream between tags, then its text: nothing is lost or doubled, and the closing tag comes right before the text.
\<close>

theorem think_to_content:
  assumes "xv_format env = RelayFormatOpenAI" "xv_think env" "items = d # ds" "\<forall>d \<in> set items. d \<noteq> []"
    "map (xv_chunk env) items = map Some (c # rs @ ts)" "\<forall>c \<in> set (c # rs @ ts). \<exists>ch. ck_Choices c = [ch]"
    "chunk_reasoning c \<noteq> []" "\<forall>c \<in> set (c # rs). chunk_content c = []" "\<forall>c \<in> set ts. chunk_reasoning c = []"
    "ts \<noteq> []" "chunk_content (hd ts) \<noteq> []" "th_IsFirst (si_thinking si)" "\<not> th_SendLast (si_thinking si)"
  shows "sent_content (fst (handle_all env items si)) =
    ''<think>'' @ [CHR 0x0A] @ concat (map chunk_reasoning (c # rs)) @ think_end @ concat (map chunk_content ts)"
proof -
  obtain ch where ch: "ck_Choices c = [ch]" using assms(6) by auto
  have c: "xv_chunk env d = Some c" "map (xv_chunk env) ds = map Some (rs @ ts)" using assms(3,5) by simp_all
  note se = think_send [OF assms(1,2) _ c(1), of si]
  let ?si = "snd (HandleStreamFormat env d si)"
  have f: "sent_content (fst (HandleStreamFormat env d si)) = ''<think>'' @ [CHR 0x0A] @ chunk_reasoning c"
    "th_HasSent (si_thinking ?si)" "\<not> th_IsFirst (si_thinking ?si)" "\<not> th_SendLast (si_thinking ?si)"
    using se assms(3,4,7,12,13) ch by (simp_all add: think_choices_def chunk_reasoning_def Let_def)
  obtain t ts' where t: "ts = t # ts'" using assms(10) by (cases ts) auto
  have "sent_content (fst (handle_all env ds ?si)) = think_text (th_SendLast (si_thinking ?si)) (rs @ ts)"
    by (rule think_handle [OF assms(1,2) _ c(2), THEN conjunct1]) (use assms f in auto)
  also have "\<dots> = concat (map chunk_reasoning rs) @ think_end @ concat (map chunk_content ts)"
    using think_text_simps(1) [of rs] think_text_simps(2) [of ts'] assms(8,9,11) f(4) t by simp
  finally show ?thesis using f(1) assms(3) by (simp add: Let_def case_prod_beta)
qed

theorem think_to_content_witness:
  "sent_content (fst (handle_all ((demo_stream_env RelayFormatOpenAI RelayModeChatCompletions)\<lparr>xv_think := True\<rparr>) [''think'', ''text'', ''end''] demo_stream_info)) =
     ''<think>'' @ [CHR 0x0A] @ ''hm'' @ think_end @ ''hi''"
  using think_to_content [of "(demo_stream_env RelayFormatOpenAI RelayModeChatCompletions)\<lparr>xv_think := True\<rparr>" "[''think'', ''text'', ''end'']" "''think''"
      "[''text'', ''end'']" "demo_chunk None (Some ''hm'') None None None" "[]"
      "[demo_chunk (Some ''hi'') None None None None, demo_chunk None None None (Some ''stop'') None]" demo_stream_info]
  by (simp add: demo_chunk_def chunk_reasoning_def chunk_content_def GetReasoningContent_def GetContentString_def demo_stream_info_def)

end
