(* ===== verification/Claude_Relay.thy ===== *)
theory Claude_Relay
  imports Stream_Convert
begin

text \<open>
  Claude as an upstream (\<^verbatim>\<open>internal/adapter/provider/claude/relay-claude.go\<close>): its answers and the events of its
  streams translated for clients of the OpenAI interface, and the usage a stream is billed with. Texts that
  the code keeps as JSON are texts; decoding is an argument. A pointer the code follows without a test is a
  panic where it is nil. The handler of a stream runs in a goroutine of its own, without a recovery, so a panic in it ends the
  process.
\<close>

section \<open>Data\<close>

record claude_usage_in =
  cn_InputTokens :: int
  cn_CacheCreation :: int
  cn_CacheRead :: int
  cn_OutputTokens :: int
  cn_5m :: int           \<comment> \<open>\<^verbatim>\<open>GetCacheCreation5mTokens\<close>\<close>
  cn_1h :: int
  cn_WebSearch :: int    \<comment> \<open>0 without \<^verbatim>\<open>ServerToolUse\<close>\<close>

record claude_source =
  sr_Type :: string
  sr_MediaType :: string
  sr_Data :: "string option"
  sr_Url :: string

datatype any_content = AnyNil | AnyString string | AnyOther string

record claude_media =
  cm_Type :: string
  cm_Text :: "string option"
  cm_Model :: string
  cm_Source :: "claude_source option"
  cm_Usage :: "claude_usage_in option"
  cm_StopReason :: "string option"
  cm_PartialJson :: "string option"
  cm_Thinking :: "string option"
  cm_CacheControl :: string
  cm_Id :: string
  cm_Name :: string
  cm_Input :: string
  cm_Content :: any_content
  cm_ToolUseId :: string

abbreviation empty_media :: claude_media where
  "empty_media \<equiv> \<lparr>cm_Type = [], cm_Text = None, cm_Model = [], cm_Source = None, cm_Usage = None, cm_StopReason = None, cm_PartialJson = None,
     cm_Thinking = None, cm_CacheControl = [], cm_Id = [], cm_Name = [], cm_Input = [], cm_Content = AnyNil, cm_ToolUseId = []\<rparr>"

definition GetText :: "claude_media \<Rightarrow> string" where
  "GetText m = (case cm_Text m of None \<Rightarrow> [] | Some s \<Rightarrow> s)"

text \<open>\<open>cr_Error\<close> is the type and the message that \<^verbatim>\<open>GetClaudeError\<close> finds.\<close>

record claude_response =
  cr_Id :: string
  cr_Type :: string
  cr_Content :: "claude_media list"
  cr_Completion :: string
  cr_StopReason :: string
  cr_Model :: string
  cr_Error :: "(string \<times> string) option"
  cr_Usage :: "claude_usage_in option"
  cr_Index :: "int option"
  cr_ContentBlock :: "claude_media option"
  cr_Delta :: "claude_media option"
  cr_Message :: "claude_media option"

definition stopReasonClaude2OpenAI :: "string \<Rightarrow> string" where
  "stopReasonClaude2OpenAI reason =
     (if reason = ''stop_sequence'' then ''stop''
      else if reason = ''end_turn'' then ''stop''
      else if reason = ''max_tokens'' then ''length''
      else if reason = ''tool_use'' then ''tool_calls''
      else reason)"

section \<open>Events\<close>

abbreviation empty_delta :: stream_delta where
  "empty_delta \<equiv> \<lparr>dl_Content = None, dl_ReasoningContent = None, dl_Reasoning = None, dl_ToolCalls = None\<rparr>"

definition openai_finish :: "string \<Rightarrow> string option" where
  "openai_finish reason = (if stopReasonClaude2OpenAI reason \<noteq> ''null'' then Some (stopReasonClaude2OpenAI reason) else None)"

text \<open>The number of the tool call that an event belongs to.\<close>

definition tool_index :: "claude_response \<Rightarrow> int" where
  "tool_index r = (case cr_Index r of None \<Rightarrow> 0 | Some i \<Rightarrow> if i - 1 < 0 then 0 else i - 1)"

text \<open>What a type of event gives: id and model, the delta, and the reason to finish; \<open>None\<close> is no response.\<close>

definition claude_choice :: "claude_response \<Rightarrow> (string \<times> string \<times> stream_delta \<times> fn_call list \<times> string option) option res" where
  "claude_choice r =
     (if cr_Type r = ''message_start'' then
        (case cr_Message r of
           None \<Rightarrow> Panic
         | Some m \<Rightarrow> Ok (Some (cm_Id m, cm_Model m, empty_delta\<lparr>dl_Content := Some []\<rparr>, [], None)))
      else if cr_Type r = ''content_block_start'' then
        (case cr_ContentBlock r of
           None \<Rightarrow> Ok None
         | Some b \<Rightarrow> Ok (Some ([], cr_Model r,
             (if cm_Type b = ''text'' \<and> cm_Text b \<noteq> None then empty_delta\<lparr>dl_Content := cm_Text b\<rparr> else empty_delta),
             (if cm_Type b = ''tool_use''
              then [\<lparr>fn_Index = Some (tool_index r), fn_ID = cm_Id b, fn_Name = cm_Name b, fn_Arguments = []\<rparr>] else []), None)))
      else if cr_Type r = ''content_block_delta'' then
        (case cr_Delta r of
           None \<Rightarrow> Ok (Some ([], cr_Model r, empty_delta, [], None))
         | Some d \<Rightarrow>
             (if cm_Type d = ''input_json_delta'' then
                (case cm_PartialJson d of
                   None \<Rightarrow> Panic
                 | Some s \<Rightarrow> Ok (Some ([], cr_Model r, empty_delta\<lparr>dl_Content := cm_Text d\<rparr>,
                     [\<lparr>fn_Index = Some (tool_index r), fn_ID = [], fn_Name = [], fn_Arguments = s\<rparr>], None)))
              else Ok (Some ([], cr_Model r,
                (empty_delta\<lparr>dl_Content := cm_Text d\<rparr>)
                  \<lparr>dl_ReasoningContent := (if cm_Type d = ''signature_delta'' then Some [CHR 0x0A]
                     else if cm_Type d = ''thinking_delta'' then cm_Thinking d else None)\<rparr>, [], None))))
      else if cr_Type r = ''message_delta'' then
        Ok (Some ([], cr_Model r, empty_delta, [],
          (case cr_Delta r of None \<Rightarrow> None
           | Some d \<Rightarrow> (case cm_StopReason d of None \<Rightarrow> None | Some s \<Rightarrow> openai_finish s))))
      else Ok None)"

definition StreamResponseClaude2OpenAI :: "bool \<Rightarrow> claude_response \<Rightarrow> chunk option res" where
  "StreamResponseClaude2OpenAI completion r =
     (if completion then
        Ok (Some \<lparr>ck_Id = [], ck_Created = 0, ck_Model = cr_Model r, ck_SystemFingerprint = None,
          ck_Choices = [\<lparr>so_Delta = empty_delta\<lparr>dl_Content := Some (cr_Completion r)\<rparr>, so_FinishReason = openai_finish (cr_StopReason r), so_Index = 0\<rparr>],
          ck_Usage = None\<rparr>)
      else (case claude_choice r of
              Ok (Some (i, m, d, tools, fin)) \<Rightarrow>
                Ok (Some \<lparr>ck_Id = i, ck_Created = 0, ck_Model = m, ck_SystemFingerprint = None,
                  ck_Choices = [\<lparr>so_Delta = (if tools \<noteq> [] then d\<lparr>dl_Content := None, dl_ToolCalls := Some tools\<rparr> else d),
                    so_FinishReason = fin, so_Index = 0\<rparr>], ck_Usage = None\<rparr>)
            | Ok None \<Rightarrow> Ok None | Err e \<Rightarrow> Err e | Panic \<Rightarrow> Panic))"

section \<open>Usage of a stream\<close>

record claude_stream_usage = oai_usage +
  ou_5m :: int
  ou_1h :: int

record claude_info =
  ci_ResponseId :: string
  ci_Created :: int
  ci_Model :: string
  ci_Text :: string
  ci_Usage :: claude_stream_usage
  ci_Done :: bool

definition text_usage :: "int \<Rightarrow> int \<Rightarrow> claude_stream_usage" where
  "text_usage prompt tokens = \<lparr>ou_PromptTokens = prompt, ou_CompletionTokens = tokens, ou_TotalTokens = prompt + tokens,
     ou_PromptCacheHitTokens = 0, ou_CachedTokens = 0, ou_CachedCreationTokens = 0, ou_InputCached = None, ou_5m = 0, ou_1h = 0\<rparr>"

text \<open>The flag says whether the event goes on to the client.\<close>

definition FormatClaudeResponseInfo :: "bool \<Rightarrow> claude_response \<Rightarrow> claude_info \<Rightarrow> (bool \<times> claude_info) res" where
  "FormatClaudeResponseInfo completion r ci =
     (if completion then Ok (True, ci\<lparr>ci_Text := ci_Text ci @ cr_Completion r\<rparr>)
      else if cr_Type r = ''message_start'' then
        (case cr_Message r of
           None \<Rightarrow> Panic
         | Some m \<Rightarrow>
             (case cm_Usage m of
                None \<Rightarrow> Panic
              | Some u \<Rightarrow> Ok (True, ci\<lparr>ci_ResponseId := cm_Id m, ci_Model := cm_Model m,
                  ci_Usage := (ci_Usage ci)\<lparr>ou_PromptTokens := cn_InputTokens u, ou_CachedTokens := cn_CacheRead u,
                    ou_CachedCreationTokens := cn_CacheCreation u, ou_CompletionTokens := cn_OutputTokens u,
                    ou_5m := cn_5m u, ou_1h := cn_1h u\<rparr>\<rparr>)))
      else if cr_Type r = ''content_block_delta'' then
        (case cr_Delta r of
           None \<Rightarrow> Panic
         | Some d \<Rightarrow> Ok (True, ci\<lparr>ci_Text := ci_Text ci @ (case cm_Text d of None \<Rightarrow> [] | Some s \<Rightarrow> s) @
             (case cm_Thinking d of None \<Rightarrow> [] | Some s \<Rightarrow> s)\<rparr>))
      else if cr_Type r = ''message_delta'' then
        (case cr_Usage r of
           None \<Rightarrow> Panic
         | Some u \<Rightarrow>
             (let p = (if 0 < cn_InputTokens u then cn_InputTokens u else ou_PromptTokens (ci_Usage ci))
              in Ok (True, ci\<lparr>ci_Usage := (ci_Usage ci)\<lparr>ou_PromptTokens := p, ou_CompletionTokens := cn_OutputTokens u,
                   ou_TotalTokens := p + cn_OutputTokens u\<rparr>, ci_Done := True\<rparr>)))
      else if cr_Type r = ''content_block_start'' then Ok (True, ci)
      else Ok (False, ci))"

text \<open>What is written: a chunk, the text \<^verbatim>\<open>null\<close>, a line of the upstream with the type of its event, or the end.\<close>

datatype relay_out = OutChunk chunk | OutNull | OutEvent string string | OutDone

record claude_env =
  ce_completion :: bool
  ce_format :: relay_format
  ce_decode :: "string \<Rightarrow> claude_response option"
  ce_estimate :: "string \<Rightarrow> string \<Rightarrow> int"   \<comment> \<open>by model\<close>
  ce_prompt :: int
  ce_include_usage :: bool

text \<open>One item of the stream; the state is the information, the upstream's model, and what was written.\<close>

type_synonym claude_state = "claude_info \<times> string \<times> relay_out list"

definition HandleStreamResponseData :: "claude_env \<Rightarrow> string \<Rightarrow> claude_state \<Rightarrow> claude_state res" where
  "HandleStreamResponseData env data st =
     (let (ci, model, out) = st
      in case ce_decode env data of
           None \<Rightarrow> Err ''bad_response_body''
         | Some r \<Rightarrow>
             if (case cr_Error r of None \<Rightarrow> False | Some (ty, m) \<Rightarrow> ty \<noteq> []) then Err ''claude_error''
             else if ce_format env = RelayFormatClaude then
               (case FormatClaudeResponseInfo (ce_completion env) r ci of
                  Ok (sent, ci1) \<Rightarrow> Ok (ci1,
                    (if \<not> ce_completion env \<and> cr_Type r = ''message_start''
                     then (case cr_Message r of None \<Rightarrow> model | Some m \<Rightarrow> cm_Model m) else model),
                    out @ [OutEvent (cr_Type r) data])
                | Err e \<Rightarrow> Err e | Panic \<Rightarrow> Panic)
             else if ce_format env = RelayFormatOpenAI then
               (case StreamResponseClaude2OpenAI (ce_completion env) r of
                  Ok response \<Rightarrow>
                    (case FormatClaudeResponseInfo (ce_completion env) r ci of
                       Ok (sent, ci1) \<Rightarrow>
                         if \<not> sent then Ok (ci1, model, out)
                         else Ok (ci1, model, out @ [case response of
                             None \<Rightarrow> OutNull
                           | Some c \<Rightarrow> OutChunk (c\<lparr>ck_Id := ci_ResponseId ci1, ck_Created := ci_Created ci1, ck_Model := ci_Model ci1\<rparr>)])
                     | Err e \<Rightarrow> Err e | Panic \<Rightarrow> Panic)
                | Err e \<Rightarrow> Err e | Panic \<Rightarrow> Panic)
             else Ok st)"

fun claude_items :: "claude_env \<Rightarrow> string list \<Rightarrow> claude_state \<Rightarrow> claude_state res" where
  "claude_items env [] st = Ok st"
| "claude_items env (d # ds) st =
     (case HandleStreamResponseData env d st of Ok st1 \<Rightarrow> claude_items env ds st1 | Err e \<Rightarrow> Err e | Panic \<Rightarrow> Panic)"

definition HandleStreamFinalResponse :: "claude_env \<Rightarrow> claude_state \<Rightarrow> claude_state" where
  "HandleStreamFinalResponse env st =
     (let (ci, model, out) = st;
          ci1 = (if ce_completion env then ci\<lparr>ci_Usage := text_usage (ce_prompt env) (ce_estimate env model (ci_Text ci))\<rparr>
                 else if ou_CompletionTokens (ci_Usage ci) = 0 \<or> \<not> ci_Done ci
                 then ci\<lparr>ci_Usage := text_usage (ou_PromptTokens (ci_Usage ci)) (ce_estimate env model (ci_Text ci))\<rparr>
                 else ci)
      in (ci1, model, out @
           (if ce_format env = RelayFormatOpenAI then
              (if ce_include_usage env then
                 [OutChunk \<lparr>ck_Id = ci_ResponseId ci1, ck_Created = ci_Created ci1, ck_Model = model, ck_SystemFingerprint = None,
                    ck_Choices = [], ck_Usage = Some (oai_usage.truncate (ci_Usage ci1))\<rparr>] else []) @ [OutDone]
            else [])))"

text \<open>The usage that the request is billed with, and what was written.\<close>

definition ClaudeStreamHandler :: "claude_env \<Rightarrow> string list \<Rightarrow> claude_state \<Rightarrow> (claude_stream_usage \<times> relay_out list) res" where
  "ClaudeStreamHandler env items st =
     (case claude_items env items st of
        Ok st1 \<Rightarrow> (let (ci, model, out) = HandleStreamFinalResponse env st1 in Ok (ci_Usage ci, out))
      | Err e \<Rightarrow> Err e | Panic \<Rightarrow> Panic)"

section \<open>The structures of the events that the hub itself makes\<close>

abbreviation empty_response :: claude_response where
  "empty_response \<equiv> \<lparr>cr_Id = [], cr_Type = [], cr_Content = [], cr_Completion = [], cr_StopReason = [], cr_Model = [], cr_Error = None,
     cr_Usage = None, cr_Index = None, cr_ContentBlock = None, cr_Delta = None, cr_Message = None\<rparr>"

definition tokens_in :: "event_tokens \<Rightarrow> claude_usage_in" where
  "tokens_in u = \<lparr>cn_InputTokens = cw_InputTokens u, cn_CacheCreation = cw_CacheCreation u, cn_CacheRead = cw_CacheRead u,
     cn_OutputTokens = cw_OutputTokens u, cn_5m = 0, cn_1h = 0, cn_WebSearch = 0\<rparr>"

fun block_struct :: "claude_block \<Rightarrow> claude_media" where
  "block_struct (ToolUseBlock i n) = empty_media\<lparr>cm_Id := i, cm_Type := ''tool_use'', cm_Name := n, cm_Input := ''{}''\<rparr>"
| "block_struct ThinkingBlock = empty_media\<lparr>cm_Type := ''thinking'', cm_Thinking := Some []\<rparr>"
| "block_struct TextBlock = empty_media\<lparr>cm_Type := ''text'', cm_Text := Some []\<rparr>"

fun delta_struct :: "claude_delta \<Rightarrow> claude_media" where
  "delta_struct (InputJsonDelta s) = empty_media\<lparr>cm_Type := ''input_json_delta'', cm_PartialJson := Some s\<rparr>"
| "delta_struct (ThinkingDelta s) = empty_media\<lparr>cm_Type := ''thinking_delta'', cm_Thinking := Some s\<rparr>"
| "delta_struct (TextDelta s) = empty_media\<lparr>cm_Type := ''text_delta'', cm_Text := Some s\<rparr>"

fun event_struct :: "claude_event \<Rightarrow> claude_response" where
  "event_struct (MessageStart i m n) = empty_response\<lparr>cr_Type := ''message_start'', cr_Message := Some (empty_media\<lparr>cm_Id := i, cm_Model := m,
     cm_Type := ''message'', cm_Usage := Some (tokens_in \<lparr>cw_InputTokens = n, cw_OutputTokens = 0, cw_CacheCreation = 0, cw_CacheRead = 0\<rparr>)\<rparr>)\<rparr>"
| "event_struct (BlockStart i b) = empty_response\<lparr>cr_Type := ''content_block_start'', cr_Index := Some i, cr_ContentBlock := Some (block_struct b)\<rparr>"
| "event_struct (BlockDelta i d) = empty_response\<lparr>cr_Type := ''content_block_delta'', cr_Index := Some i, cr_Delta := Some (delta_struct d)\<rparr>"
| "event_struct (BlockStop i) = empty_response\<lparr>cr_Type := ''content_block_stop'', cr_Index := Some i\<rparr>"
| "event_struct (MessageDelta u r) = empty_response\<lparr>cr_Type := ''message_delta'', cr_Usage := Some (tokens_in u),
     cr_Delta := Some (empty_media\<lparr>cm_StopReason := Some r\<rparr>)\<rparr>"
| "event_struct MessageStop = empty_response\<lparr>cr_Type := ''message_stop''\<rparr>"

section \<open>Relaying the events\<close>




text \<open>What an event does to the information.\<close>

fun event_info :: "claude_event \<Rightarrow> claude_info \<Rightarrow> claude_info" where
  "event_info (MessageStart i m n) ci = ci\<lparr>ci_ResponseId := i, ci_Model := m, ci_Usage := (ci_Usage ci)\<lparr>ou_PromptTokens := n, ou_CachedTokens := 0,
     ou_CachedCreationTokens := 0, ou_CompletionTokens := 0, ou_5m := 0, ou_1h := 0\<rparr>\<rparr>"
| "event_info (BlockDelta i (TextDelta s)) ci = ci\<lparr>ci_Text := ci_Text ci @ s\<rparr>"
| "event_info (BlockDelta i (ThinkingDelta s)) ci = ci\<lparr>ci_Text := ci_Text ci @ s\<rparr>"
| "event_info (MessageDelta u r) ci =
     (let p = (if 0 < cw_InputTokens u then cw_InputTokens u else ou_PromptTokens (ci_Usage ci))
      in ci\<lparr>ci_Usage := (ci_Usage ci)\<lparr>ou_PromptTokens := p, ou_CompletionTokens := cw_OutputTokens u, ou_TotalTokens := p + cw_OutputTokens u\<rparr>,
            ci_Done := True\<rparr>)"
| "event_info e ci = ci"

fun event_finish :: "claude_event \<Rightarrow> string option" where
  "event_finish (MessageDelta u r) = (if r = [] then None else openai_finish r)"
| "event_finish e = None"



text \<open>An accepted stream has one reason to stop, and the usage that comes with it is what counts.\<close>

lemma event_info_kept:
  "e \<noteq> MessageStop \<Longrightarrow> protocol_step p e = Some q \<Longrightarrow> q \<noteq> Closing \<Longrightarrow> ci_Done (event_info e ci) = ci_Done ci \<and> event_finish e = None"
  by (cases p; cases e; cases "case e of BlockDelta i d \<Rightarrow> d | _ \<Rightarrow> TextDelta []") (auto split: if_splits)


text \<open>Reasons to stop survive the way through both translations.\<close>

lemma stop_reasons:
  "r \<in> {''stop'', ''length'', ''tool_calls''} \<Longrightarrow> stopReasonClaude2OpenAI (stopReasonOpenAI2Claude r) = r"
  by (auto simp: stopReasonOpenAI2Claude_def stopReasonClaude2OpenAI_def)


section \<open>Properties\<close>


definition demo_claude_env :: claude_env where
  "demo_claude_env = \<lparr>ce_completion = False, ce_format = RelayFormatOpenAI,
     ce_decode = (\<lambda>d. if d = ''s'' then Some (event_struct (MessageStart ''x'' ''m'' 9))
       else if d = ''b'' then Some (event_struct (BlockStart 0 TextBlock)) else if d = ''d'' then Some (event_struct (BlockDelta 0 (TextDelta ''hi'')))
       else if d = ''e'' then Some (event_struct (BlockStop 0))
       else if d = ''f'' then Some (event_struct (MessageDelta \<lparr>cw_InputTokens = 9, cw_OutputTokens = 4, cw_CacheCreation = 0, cw_CacheRead = 0\<rparr> ''end_turn''))
       else Some (event_struct MessageStop)), ce_estimate = (\<lambda>_ s. int (length s)), ce_prompt = 9, ce_include_usage = False\<rparr>"

definition demo_claude_info :: claude_info where
  "demo_claude_info = \<lparr>ci_ResponseId = ''id'', ci_Created = 0, ci_Model = ''m'', ci_Text = [], ci_Usage = text_usage 0 0, ci_Done = False\<rparr>"




text \<open>
  A stream that is cut off before its final usage is billed with an estimate, in which the tokens read
  from and written to the cache, which the first event has told, are none: only the uncached part of the prompt counts.
\<close>

theorem claude_cut_off:
  assumes "\<not> ce_completion env" "ce_format env = RelayFormatClaude" "ce_decode env d = Some r" "cr_Error r = None" "cr_Type r = ''message_start''"
    "cr_Message r = Some m" "cm_Usage m = Some u"
    "\<forall>x \<in> set ds. \<exists>q. ce_decode env x = Some q \<and> cr_Error q = None \<and> cr_Delta q \<noteq> None \<and> cr_Type q \<notin> {''message_start'', ''message_delta''}"
    "ClaudeStreamHandler env (d # ds) (ci, model, out) = Ok (usage, out')" "\<not> ci_Done ci"
  shows "ou_PromptTokens usage = cn_InputTokens u \<and> ou_CachedTokens usage = 0 \<and> ou_CachedCreationTokens usage = 0"
proof -
  have keep: "claude_items env ds st = Ok st' \<Longrightarrow> ci_Usage (fst st') = ci_Usage (fst st) \<and> ci_Done (fst st') = ci_Done (fst st)"
    if "\<forall>x \<in> set ds. \<exists>q. ce_decode env x = Some q \<and> cr_Error q = None \<and> cr_Delta q \<noteq> None \<and> cr_Type q \<notin> {''message_start'', ''message_delta''}"
    for ds st st'
    using that
  proof (induction ds arbitrary: st)
    case (Cons x ds)
    then obtain q where q: "ce_decode env x = Some q" "cr_Error q = None" "cr_Delta q \<noteq> None" "cr_Type q \<notin> {''message_start'', ''message_delta''}"
      by auto
    obtain st1 where st1: "HandleStreamResponseData env x st = Ok st1" "claude_items env ds st1 = Ok st'"
      using Cons.prems(1) by (auto split: res.splits)
    have "ci_Usage (fst st1) = ci_Usage (fst st) \<and> ci_Done (fst st1) = ci_Done (fst st)"
      using st1(1) q assms(1,2) by (auto simp: HandleStreamResponseData_def FormatClaudeResponseInfo_def Let_def split: prod.splits res.splits if_splits option.splits)
    then show ?case using Cons.IH [OF st1(2)] Cons.prems(2) by simp
  qed simp
  obtain st1 st2 where s: "HandleStreamResponseData env d (ci, model, out) = Ok st1" "claude_items env ds st1 = Ok st2"
    "usage = ci_Usage (fst (HandleStreamFinalResponse env st2))"
    using assms(9) by (auto simp: ClaudeStreamHandler_def Let_def split: res.splits prod.splits)
  have "ou_PromptTokens (ci_Usage (fst st1)) = cn_InputTokens u \<and> \<not> ci_Done (fst st1)"
    using s(1) assms(1-7,10) by (auto simp: HandleStreamResponseData_def FormatClaudeResponseInfo_def)
  then show ?thesis
    using keep [OF assms(8) s(2)] s(3) assms(1)
    by (cases st2) (simp add: HandleStreamFinalResponse_def text_usage_def Let_def)
qed

definition demo_cached :: claude_response where
  "demo_cached = empty_response\<lparr>cr_Type := ''message_start'', cr_Message := Some (empty_media\<lparr>cm_Usage := Some
     \<lparr>cn_InputTokens = 9, cn_CacheCreation = 100, cn_CacheRead = 5000, cn_OutputTokens = 1, cn_5m = 0, cn_1h = 0, cn_WebSearch = 0\<rparr>\<rparr>)\<rparr>"

definition demo_cut_env :: claude_env where
  "demo_cut_env = demo_claude_env\<lparr>ce_format := RelayFormatClaude,
     ce_decode := (\<lambda>d. if d = ''s'' then Some demo_cached else Some (event_struct (BlockDelta 0 (TextDelta ''hi''))))\<rparr>"

theorem claude_cut_off_witness:
  "\<exists>usage out. ClaudeStreamHandler demo_cut_env [''s'', ''d''] (demo_claude_info, ''m'', []) = Ok (usage, out) \<and>
     ou_PromptTokens usage = 9 \<and> ou_CachedTokens usage = 0"
proof -
  obtain usage out where h: "ClaudeStreamHandler demo_cut_env [''s'', ''d''] (demo_claude_info, ''m'', []) = Ok (usage, out)"
    by (simp add: ClaudeStreamHandler_def HandleStreamResponseData_def HandleStreamFinalResponse_def FormatClaudeResponseInfo_def demo_cut_env_def
        demo_claude_env_def demo_cached_def Let_def)
  have "ou_PromptTokens usage = 9 \<and> ou_CachedTokens usage = 0 \<and> ou_CachedCreationTokens usage = 0"
    using claude_cut_off [OF _ _ _ _ _ _ _ _ h, of demo_cached "the (cr_Message demo_cached)" "the (cm_Usage (the (cr_Message demo_cached)))"]
    by (simp add: demo_cut_env_def demo_claude_env_def demo_cached_def demo_claude_info_def)
  then show ?thesis using h by blast
qed

text \<open>
  An item of a Claude stream panics exactly when it is decoded, is no error, and starts a message without its
  usage, is a delta of a block without its content, or of a message without its usage, or (for a client of the
  OpenAI interface) is a part of a tool call without its text. Nothing recovers from it.
\<close>

theorem claude_item_panics_iff:
  assumes "\<not> ce_completion env" "ce_format env = RelayFormatOpenAI"
  shows "HandleStreamResponseData env data st = Panic \<longleftrightarrow>
    (\<exists>r. ce_decode env data = Some r \<and> (case cr_Error r of None \<Rightarrow> True | Some (ty, m) \<Rightarrow> ty = []) \<and>
      (cr_Type r = ''message_start'' \<and> (case cr_Message r of None \<Rightarrow> True | Some m \<Rightarrow> cm_Usage m = None) \<or>
       cr_Type r = ''content_block_delta'' \<and>
         (case cr_Delta r of None \<Rightarrow> True | Some d \<Rightarrow> cm_Type d = ''input_json_delta'' \<and> cm_PartialJson d = None) \<or>
       cr_Type r = ''message_delta'' \<and> cr_Usage r = None))"
proof (cases "ce_decode env data")
  case (Some r)
  obtain ci m out where st: "st = (ci, m, out)" by (cases st) auto
  have c: "ce_completion env = False" using assms(1) by simp
  show ?thesis
  proof (cases "case cr_Error r of None \<Rightarrow> True | Some (ty, m) \<Rightarrow> ty = []")
    case True
    then have "\<not> (case cr_Error r of None \<Rightarrow> False | Some (ty, m) \<Rightarrow> ty \<noteq> [])" by (auto split: option.splits)
    then have h: "HandleStreamResponseData env data st =
       (case StreamResponseClaude2OpenAI False r of
          Ok response \<Rightarrow> (case FormatClaudeResponseInfo False r ci of
              Ok (sent, ci1) \<Rightarrow> if \<not> sent then Ok (ci1, m, out) else Ok (ci1, m, out @ [case response of None \<Rightarrow> OutNull
                | Some c \<Rightarrow> OutChunk (c\<lparr>ck_Id := ci_ResponseId ci1, ck_Created := ci_Created ci1, ck_Model := ci_Model ci1\<rparr>)])
            | Err e \<Rightarrow> Err e | Panic \<Rightarrow> Panic)
        | Err e \<Rightarrow> Err e | Panic \<Rightarrow> Panic)"
      using assms(2) Some unfolding HandleStreamResponseData_def st c by simp
    show ?thesis
      using True Some
      by (simp add: h StreamResponseClaude2OpenAI_def claude_choice_def FormatClaudeResponseInfo_def Let_def split: option.split)
  qed (use Some st in \<open>auto simp: HandleStreamResponseData_def split: option.splits\<close>)
qed (cases st, simp add: HandleStreamResponseData_def)

theorem claude_item_panics_iff_witness:
  "HandleStreamResponseData (demo_claude_env\<lparr>ce_decode := (\<lambda>_. Some (empty_response\<lparr>cr_Type := ''message_delta''\<rparr>))\<rparr>) ''x''
     (demo_claude_info, ''m'', []) = Panic"
  by (subst claude_item_panics_iff) (simp_all add: demo_claude_env_def)

text \<open>
  The numbers of the tool calls of a message: those of the first two blocks are the same, so two calls without a text before them
  are taken for one.
\<close>

lemma tool_index_collides:
  assumes "cr_Index r = Some i" "cr_Index q = Some j" "0 \<le> i" "i < j"
  shows "tool_index r = tool_index q \<longleftrightarrow> i = 0 \<and> j = 1"
  using assms by (auto simp: tool_index_def)

end
