(* ===== verification/Format_Convert.thy ===== *)
theory Format_Convert
  imports Claude_Relay
begin

text \<open>
  Requests between the interfaces of OpenAI, Claude and Gemini (\<^verbatim>\<open>internal/app/convert.go\<close>,
  \<^verbatim>\<open>internal/adapter/provider/claude/relay-claude.go\<close>) and the answers that are not streamed. Dynamically typed members
  are datatypes of what the code tells apart; JSON the code only passes on is its text; decoders, downloads and settings are
  arguments.
\<close>

section \<open>OpenAI requests\<close>

datatype oai_media =
    OmText string string             \<comment> \<open>text, cache control\<close>
  | OmImage string string string     \<comment> \<open>url, detail, MIME type\<close>
  | OmOther string                   \<comment> \<open>audio, a file or a video, which has no image\<close>

datatype oai_content = OcNil | OcString string | OcMedia "oai_media list"

record oai_tool_call =
  ot_ID :: string
  ot_Name :: string
  ot_Arguments :: string

record oai_message =
  om_Role :: string
  om_Content :: oai_content
  om_Name :: "string option"
  om_ToolCalls :: "oai_tool_call list option"
  om_ToolCallId :: string

datatype json_value = JNull | JString string | JOther string

record oai_function =
  of_Name :: string
  of_Description :: string
  of_Parameters :: "(string, json_value) gomap option"   \<comment> \<open>\<open>None\<close> where they are no object\<close>

datatype stop_value = StopNil | StopString string | StopStrings "string list" | StopValues "json_value list" | StopOther

datatype tool_choice = TcNil | TcString string | TcFunction string | TcOther

record oai_request =
  or_Model :: string
  or_Messages :: "oai_message list"
  or_MaxTokens :: int
  or_MaxCompletionTokens :: int
  or_Temperature :: "rat option"
  or_TopP :: rat
  or_TopK :: int
  or_N :: int
  or_Stream :: bool
  or_Stop :: stop_value
  or_Tools :: "oai_function list"
  or_ToolChoice :: tool_choice
  or_Parallel :: "bool option"
  or_WebSearch :: "string option"          \<comment> \<open>the search context size\<close>
  or_ReasoningEffort :: string
  or_Reasoning :: "int res option"         \<comment> \<open>the decoded budget of the member \<^verbatim>\<open>reasoning\<close>\<close>

abbreviation text_message :: "string \<Rightarrow> string \<Rightarrow> oai_message" where
  "text_message role s \<equiv> \<lparr>om_Role = role, om_Content = OcString s, om_Name = None, om_ToolCalls = None, om_ToolCallId = []\<rparr>"

definition ParseContent :: "oai_message \<Rightarrow> oai_media list" where
  "ParseContent m = (case om_Content m of OcNil \<Rightarrow> [] | OcString s \<Rightarrow> [OmText s []] | OcMedia ps \<Rightarrow> ps)"

definition IsStringContent :: "oai_message \<Rightarrow> bool" where
  "IsStringContent m = (case om_Content m of OcString s \<Rightarrow> True | _ \<Rightarrow> False)"

fun media_text :: "oai_media \<Rightarrow> string" where
  "media_text (OmText s cc) = s"
| "media_text m = []"

fun is_text :: "oai_media \<Rightarrow> bool" where
  "is_text (OmText s cc) = True"
| "is_text m = False"

text \<open>The text of a message that was decoded.\<close>

definition StringContent :: "oai_message \<Rightarrow> string" where
  "StringContent m = (case om_Content m of OcNil \<Rightarrow> [] | OcString s \<Rightarrow> s | OcMedia ps \<Rightarrow> concat (map media_text ps))"

definition GetMaxTokens :: "oai_request \<Rightarrow> int" where
  "GetMaxTokens r = (if or_MaxCompletionTokens r \<noteq> 0 then or_MaxCompletionTokens r else or_MaxTokens r)"

section \<open>Claude requests\<close>

datatype message_content = McNil | McString string | McParts "claude_media list" | McOther

record claude_message =
  cl_Role :: string
  cl_Content :: message_content

record claude_tool =
  ct_Name :: string
  ct_Description :: string
  ct_InputSchema :: "(string, json_value) gomap"

datatype claude_tool_item = ClaudeFunction claude_tool | ClaudeWebSearch int   \<comment> \<open>at most so many uses, 0 for any\<close>

record claude_tool_choice =
  cx_Type :: string
  cx_Name :: string
  cx_DisableParallel :: bool

record claude_request =
  cq_Model :: string
  cq_System :: message_content
  cq_Messages :: "claude_message list"
  cq_MaxTokens :: int
  cq_StopSequences :: "string list"
  cq_Temperature :: "rat option"
  cq_TopP :: rat
  cq_TopK :: int
  cq_Stream :: bool
  cq_Tools :: "claude_tool_item list"
  cq_ToolChoice :: "claude_tool_choice option"
  cq_Thinking :: "(string \<times> int option) option"   \<comment> \<open>type, budget\<close>

text \<open>\<open>Any2Type\<close> on a content.\<close>

definition parse_content :: "message_content \<Rightarrow> claude_media list option" where
  "parse_content c = (case c of McNil \<Rightarrow> Some [] | McParts ps \<Rightarrow> Some ps | _ \<Rightarrow> None)"

abbreviation parsed :: "message_content \<Rightarrow> claude_media list" where
  "parsed c \<equiv> (case parse_content c of None \<Rightarrow> [] | Some ps \<Rightarrow> ps)"

fun find_tool_name :: "string \<Rightarrow> claude_media list \<Rightarrow> string option" where
  "find_tool_name i [] = None"
| "find_tool_name i (m # ms) = (if cm_Id m = i then Some (cm_Name m) else find_tool_name i ms)"

definition SearchToolNameByToolCallId :: "claude_request \<Rightarrow> string \<Rightarrow> string" where
  "SearchToolNameByToolCallId r i =
     (case find_tool_name i (concat (map (\<lambda>m. parsed (cl_Content m)) (cq_Messages r))) of None \<Rightarrow> [] | Some n \<Rightarrow> n)"

section \<open>From Claude to OpenAI\<close>

record convert_info =
  iv_openrouter :: bool
  iv_OriginModelName :: string
  iv_UpstreamModelName :: string

text \<open>
  The parts of a message, sorted: texts and images, tool calls, and the messages of tool results. \<open>enc\<close> encodes
  the content of a result that is no string.
\<close>

fun claude_parts :: "claude_request \<Rightarrow> claude_media list \<Rightarrow> (oai_media list \<times> oai_tool_call list \<times> oai_message list) res" where
  "claude_parts r [] = Ok ([], [], [])"
| "claude_parts r (m # ms) =
     (case claude_parts r ms of
        Err e \<Rightarrow> Err e
      | Panic \<Rightarrow> Panic
      | Ok (media, calls, results) \<Rightarrow>
          (if cm_Type m = ''text'' then Ok (OmText (GetText m) (cm_CacheControl m) # media, calls, results)
           else if cm_Type m = ''image'' then
             (case cm_Source m of
                None \<Rightarrow> Panic
              | Some s \<Rightarrow> Ok (OmImage (''data:'' @ sr_MediaType s @ '';base64,'' @
                  (case sr_Data s of None \<Rightarrow> ''%!s(<nil>)'' | Some d \<Rightarrow> d)) [] [] # media, calls, results))
           else if cm_Type m = ''tool_use'' then
             Ok (media, \<lparr>ot_ID = cm_Id m, ot_Name = cm_Name m, ot_Arguments = cm_Input m\<rparr> # calls, results)
           else if cm_Type m = ''tool_result'' then
             Ok (media, calls, \<lparr>om_Role = ''tool'',
               om_Content = OcString (case cm_Content m of AnyString s \<Rightarrow> s | AnyOther s \<Rightarrow> s | AnyNil \<Rightarrow> ''null''),
               om_Name = Some (if cm_Name m = [] then SearchToolNameByToolCallId r (cm_ToolUseId m) else cm_Name m),
               om_ToolCalls = None, om_ToolCallId = cm_ToolUseId m\<rparr> # results)
           else Ok (media, calls, results)))"

definition claude_to_openai :: "claude_request \<Rightarrow> claude_message \<Rightarrow> oai_message list res" where
  "claude_to_openai r m =
     (case cl_Content m of
        McString s \<Rightarrow> Ok [text_message (cl_Role m) s]
      | c \<Rightarrow>
          (case parse_content c of
             None \<Rightarrow> Err ''parse content''
           | Some ps \<Rightarrow>
               (case claude_parts r ps of
                  Err e \<Rightarrow> Err e
                | Panic \<Rightarrow> Panic
                | Ok (media, calls, results) \<Rightarrow>
                    (let msg = \<lparr>om_Role = cl_Role m,
                           om_Content = (if media \<noteq> [] \<and> calls = [] then OcMedia media else OcNil), om_Name = None,
                           om_ToolCalls = (if calls \<noteq> [] then Some calls else None), om_ToolCallId = []\<rparr>
                     in Ok (results @ (if ParseContent msg \<noteq> [] \<or> om_ToolCalls msg \<noteq> None then [msg] else []))))))"

fun all_messages :: "('a \<Rightarrow> oai_message list res) \<Rightarrow> 'a list \<Rightarrow> oai_message list res" where
  "all_messages f [] = Ok []"
| "all_messages f (m # ms) =
     (case f m of Err e \<Rightarrow> Err e | Panic \<Rightarrow> Panic
      | Ok a \<Rightarrow> (case all_messages f ms of Err e \<Rightarrow> Err e | Panic \<Rightarrow> Panic | Ok b \<Rightarrow> Ok (a @ b)))"

definition claude_system :: "convert_info \<Rightarrow> message_content \<Rightarrow> oai_message list" where
  "claude_system info sys =
     (case sys of
        McNil \<Rightarrow> []
      | McString s \<Rightarrow> if s \<noteq> [] then [text_message ''system'' s] else []
      | c \<Rightarrow>
          (case parsed c of
             [] \<Rightarrow> []
           | ps \<Rightarrow>
               if iv_openrouter info \<and> go_has_prefix (iv_UpstreamModelName info) ''anthropic/claude''
               then [(text_message ''system'' [])\<lparr>om_Content := OcMedia (map (\<lambda>m. OmText (GetText m) (cm_CacheControl m)) ps)\<rparr>]
               else [text_message ''system'' (concat (map GetText ps))]))"

text \<open>The functions among the tools; the schema of a web search tool is not read.\<close>

definition claude_functions :: "claude_tool_item list \<Rightarrow> oai_function list" where
  "claude_functions ts = map (\<lambda>t. case t of
     ClaudeFunction f \<Rightarrow> \<lparr>of_Name = ct_Name f, of_Description = ct_Description f, of_Parameters = Some (ct_InputSchema f)\<rparr>
   | ClaudeWebSearch n \<Rightarrow> \<lparr>of_Name = ''web_search'', of_Description = [], of_Parameters = None\<rparr>) ts"

definition ClaudeToOpenAIRequest :: "convert_info \<Rightarrow> claude_request \<Rightarrow> oai_request res" where
  "ClaudeToOpenAIRequest info r =
     (let thinking = (case cq_Thinking r of Some (ty, b) \<Rightarrow> ty = ''enabled'' | None \<Rightarrow> False);
          budget = (case cq_Thinking r of Some (ty, Some b) \<Rightarrow> b | _ \<Rightarrow> 0);
          model = (if thinking \<and> \<not> iv_openrouter info \<and> go_has_suffix (iv_OriginModelName info) ''-thinking'' \<and>
                      \<not> go_has_suffix (cq_Model r) ''-thinking'' then cq_Model r @ ''-thinking'' else cq_Model r)
      in case all_messages (claude_to_openai r) (cq_Messages r) of
           Err e \<Rightarrow> Err e
         | Panic \<Rightarrow> Panic
         | Ok ms \<Rightarrow>
             Ok \<lparr>or_Model = model, or_Messages = claude_system info (cq_System r) @ ms, or_MaxTokens = cq_MaxTokens r,
               or_MaxCompletionTokens = 0, or_Temperature = cq_Temperature r, or_TopP = cq_TopP r, or_TopK = 0, or_N = 0, or_Stream = cq_Stream r,
               or_Stop = (case cq_StopSequences r of [] \<Rightarrow> StopNil | [s] \<Rightarrow> StopString s | ss \<Rightarrow> StopStrings ss),
               or_Tools = claude_functions (cq_Tools r), or_ToolChoice = TcNil, or_Parallel = None, or_WebSearch = None,
               or_ReasoningEffort = [], or_Reasoning = (if thinking \<and> iv_openrouter info then Some (Ok budget) else None)\<rparr>)"

section \<open>From OpenAI to Claude\<close>

record claude_convert_env =
  kv_fetch :: "string \<Rightarrow> (string \<times> string) res"       \<comment> \<open>\<^verbatim>\<open>GetFileBase64FromUrl\<close>: MIME type, data\<close>
  kv_decode :: "string \<Rightarrow> (string \<times> string) res"      \<comment> \<open>\<^verbatim>\<open>DecodeBase64ImageData\<close>: format, data\<close>
  kv_object :: "string \<Rightarrow> string option"               \<comment> \<open>arguments that are an object\<close>
  kv_encode :: "oai_media list \<Rightarrow> string"              \<comment> \<open>content of a tool message as JSON\<close>
  kv_default_max :: "string \<Rightarrow> int"
  kv_adapter :: bool
  kv_budget :: "int \<Rightarrow> int"                            \<comment> \<open>the share of the tokens for thinking\<close>
  kv_preserve :: "string \<Rightarrow> bool"

text \<open>Adjacent messages of one role whose contents are strings become one.\<close>

definition fmt_message :: "oai_message \<Rightarrow> oai_message" where
  "fmt_message m = \<lparr>om_Role = om_Role m, om_Content = om_Content m, om_Name = None,
     om_ToolCalls = (if om_Role m = ''assistant'' then om_ToolCalls m else None),
     om_ToolCallId = (if om_Role m = ''tool'' then om_ToolCallId m else [])\<rparr>"

definition merges :: "oai_message \<Rightarrow> oai_message \<Rightarrow> bool" where
  "merges lst m \<longleftrightarrow> om_Role lst = om_Role m \<and> om_Role lst \<noteq> ''tool'' \<and> IsStringContent lst \<and> IsStringContent m"

definition fmt_next :: "oai_message \<Rightarrow> oai_message \<Rightarrow> oai_message" where
  "fmt_next lst m =
     (let f = (if merges lst m
               then (fmt_message m)\<lparr>om_Content := OcString (go_trim (\<lambda>c. c = CHR 0x22) (StringContent lst @ '' '' @ StringContent m))\<rparr>
               else fmt_message m)
      in if om_Content f = OcNil then f\<lparr>om_Content := OcString ''...''\<rparr> else f)"

fun fmt_messages :: "oai_message list \<Rightarrow> oai_message \<Rightarrow> oai_message list \<Rightarrow> oai_message list" where
  "fmt_messages acc lst [] = acc"
| "fmt_messages acc lst (m # ms) =
     fmt_messages ((if merges lst m then butlast acc else acc) @ [fmt_next lst m]) (fmt_next lst m) ms"

abbreviation text_part :: "string \<Rightarrow> claude_media" where
  "text_part s \<equiv> empty_media\<lparr>cm_Type := ''text'', cm_Text := Some s\<rparr>"

definition tool_result :: "claude_convert_env \<Rightarrow> oai_message \<Rightarrow> claude_media" where
  "tool_result env m = empty_media\<lparr>cm_Type := ''tool_result'', cm_ToolUseId := om_ToolCallId m,
     cm_Content := (case om_Content m of OcNil \<Rightarrow> AnyNil | OcString s \<Rightarrow> AnyString s | OcMedia ps \<Rightarrow> AnyOther (kv_encode env ps))\<rparr>"

fun claude_part :: "claude_convert_env \<Rightarrow> oai_media \<Rightarrow> claude_media res" where
  "claude_part env (OmText s cc) = Ok (text_part s)"
| "claude_part env (OmOther ty) = Panic"
| "claude_part env (OmImage url detail mime) =
     (case (if go_has_prefix url ''http'' then kv_fetch env url
            else (case kv_decode env url of Ok (f, d) \<Rightarrow> Ok (''image/'' @ f, d) | Err e \<Rightarrow> Err e | Panic \<Rightarrow> Panic)) of
        Ok (mt, d) \<Rightarrow> Ok (empty_media\<lparr>cm_Type := ''image'', cm_Source := Some \<lparr>sr_Type = ''base64'', sr_MediaType = mt, sr_Data = Some d, sr_Url = []\<rparr>\<rparr>)
      | Err e \<Rightarrow> Err e | Panic \<Rightarrow> Panic)"

fun claude_part_list :: "claude_convert_env \<Rightarrow> oai_media list \<Rightarrow> claude_media list res" where
  "claude_part_list env [] = Ok []"
| "claude_part_list env (p # ps) =
     (case claude_part env p of Err e \<Rightarrow> Err e | Panic \<Rightarrow> Panic
      | Ok a \<Rightarrow> (case claude_part_list env ps of Err e \<Rightarrow> Err e | Panic \<Rightarrow> Panic | Ok b \<Rightarrow> Ok (a # b)))"

definition tool_uses :: "claude_convert_env \<Rightarrow> oai_tool_call list \<Rightarrow> claude_media list" where
  "tool_uses env cs = List.map_filter (\<lambda>c. map_option (\<lambda>input. empty_media\<lparr>cm_Type := ''tool_use'', cm_Id := ot_ID c, cm_Name := ot_Name c, cm_Input := input\<rparr>)
     (kv_object env (ot_Arguments c))) cs"

text \<open>A message of another role than system, after the messages \<open>acc\<close>.\<close>

definition claude_message :: "claude_convert_env \<Rightarrow> claude_message list \<Rightarrow> oai_message \<Rightarrow> claude_message list res" where
  "claude_message env acc m =
     (if om_Role m = ''tool'' then
        (case rev acc of
           l # ls \<Rightarrow>
             if cl_Role l = ''user'' then
               (case cl_Content l of
                  McString s \<Rightarrow> Ok (butlast acc @ [l\<lparr>cl_Content := McParts [text_part s, tool_result env m]\<rparr>])
                | McParts ps \<Rightarrow> Ok (butlast acc @ [l\<lparr>cl_Content := McParts (ps @ [tool_result env m])\<rparr>])
                | _ \<Rightarrow> Panic)
             else Ok (acc @ [\<lparr>cl_Role = ''user'', cl_Content = McParts [tool_result env m]\<rparr>])
         | [] \<Rightarrow> Ok [\<lparr>cl_Role = ''user'', cl_Content = McParts [tool_result env m]\<rparr>])
      else if IsStringContent m \<and> om_ToolCalls m = None then
        Ok (acc @ [\<lparr>cl_Role = om_Role m, cl_Content = McString (StringContent m)\<rparr>])
      else
        (case claude_part_list env (ParseContent m) of
           Err e \<Rightarrow> Err e
         | Panic \<Rightarrow> Panic
         | Ok ps \<Rightarrow> Ok (acc @ [\<lparr>cl_Role = om_Role m,
             cl_Content = McParts (ps @ tool_uses env (case om_ToolCalls m of None \<Rightarrow> [] | Some cs \<Rightarrow> cs))\<rparr>])))"

fun claude_messages :: "claude_convert_env \<Rightarrow> claude_message list \<Rightarrow> bool \<Rightarrow> string list \<Rightarrow> oai_message list \<Rightarrow> (claude_message list \<times> string list) res" where
  "claude_messages env acc first sys [] = Ok (acc, sys)"
| "claude_messages env acc first sys (m # ms) =
     (if om_Role m = ''system'' then
        claude_messages env acc first
          (sys @ (if IsStringContent m then [StringContent m] else map media_text (filter is_text (ParseContent m)))) ms
      else
        (case claude_message env (if first \<and> om_Role m \<noteq> ''user''
               then acc @ [\<lparr>cl_Role = ''user'', cl_Content = McParts [text_part ''...'']\<rparr>] else acc) m of
           Err e \<Rightarrow> Err e
         | Panic \<Rightarrow> Panic
         | Ok acc1 \<Rightarrow> claude_messages env acc1 False sys ms))"

definition mapToolChoice :: "tool_choice \<Rightarrow> bool option \<Rightarrow> claude_tool_choice option" where
  "mapToolChoice choice parallel =
     (let c = (case choice of
           TcString s \<Rightarrow>
             if s = ''auto'' then Some \<lparr>cx_Type = ''auto'', cx_Name = [], cx_DisableParallel = False\<rparr>
             else if s = ''required'' then Some \<lparr>cx_Type = ''any'', cx_Name = [], cx_DisableParallel = False\<rparr>
             else if s = ''none'' then Some \<lparr>cx_Type = ''none'', cx_Name = [], cx_DisableParallel = False\<rparr>
             else None
         | TcFunction n \<Rightarrow> Some \<lparr>cx_Type = ''tool'', cx_Name = n, cx_DisableParallel = False\<rparr>
         | _ \<Rightarrow> None)
      in case parallel of
           None \<Rightarrow> c
         | Some b \<Rightarrow> Some ((case c of None \<Rightarrow> \<lparr>cx_Type = ''auto'', cx_Name = [], cx_DisableParallel = False\<rparr> | Some x \<Rightarrow> x)
             \<lparr>cx_DisableParallel := \<not> b\<rparr>))"

text \<open>A member of a schema, \<^verbatim>\<open>null\<close> if it is missing.\<close>

definition member :: "(string, json_value) gomap \<Rightarrow> string \<Rightarrow> json_value" where
  "member m k = (case gm_get m k of None \<Rightarrow> JNull | Some v \<Rightarrow> v)"

definition claude_schema :: "(string, json_value) gomap \<Rightarrow> (string, json_value) gomap res" where
  "claude_schema params =
     (let rest = filter (\<lambda>(k, v). k \<notin> {''type'', ''properties'', ''required''}) params;
          base = (''properties'', member params ''properties'') # (''required'', member params ''required'') # rest
      in case member params ''type'' of
           JNull \<Rightarrow> Ok base
         | JString s \<Rightarrow> Ok ((''type'', JString s) # base)
         | JOther j \<Rightarrow> Panic)"

fun claude_tools :: "oai_function list \<Rightarrow> claude_tool_item list res" where
  "claude_tools [] = Ok []"
| "claude_tools (f # fs) =
     (case of_Parameters f of
        None \<Rightarrow> claude_tools fs
      | Some params \<Rightarrow>
          (case claude_schema params of
             Ok schema \<Rightarrow>
               (case claude_tools fs of
                  Ok ts \<Rightarrow> Ok (ClaudeFunction \<lparr>ct_Name = of_Name f, ct_Description = of_Description f, ct_InputSchema = schema\<rparr> # ts)
                | Err e \<Rightarrow> Err e | Panic \<Rightarrow> Panic)
           | Err e \<Rightarrow> Err e | Panic \<Rightarrow> Panic))"

definition web_search_uses :: "string \<Rightarrow> int" where
  "web_search_uses sz = (if sz = ''low'' then 1 else if sz = ''medium'' then 5 else if sz = ''high'' then 10 else 0)"

fun stop_strings :: "json_value list \<Rightarrow> string list res" where
  "stop_strings [] = Ok []"
| "stop_strings (v # vs) =
     (case v of JString s \<Rightarrow> (case stop_strings vs of Ok ss \<Rightarrow> Ok (s # ss) | Err e \<Rightarrow> Err e | Panic \<Rightarrow> Panic) | _ \<Rightarrow> Panic)"

text \<open>Only a string or decoded values are told apart; a slice of strings, which the other translation makes, is dropped.\<close>

definition claude_stop :: "stop_value \<Rightarrow> string list res" where
  "claude_stop v = (case v of StopString s \<Rightarrow> Ok [s] | StopValues vs \<Rightarrow> stop_strings vs | _ \<Rightarrow> Ok [])"

definition effort_thinking :: "string \<Rightarrow> (string \<times> int option) option \<Rightarrow> (string \<times> int option) option" where
  "effort_thinking effort t = (if effort = ''low'' then Some (''enabled'', Some 1280) else if effort = ''medium'' then Some (''enabled'', Some 2048)
     else if effort = ''high'' then Some (''enabled'', Some 4096) else t)"

definition go_trim_suffix :: "string \<Rightarrow> string \<Rightarrow> string" where
  "go_trim_suffix s suf = rev (go_trim_prefix (rev s) (rev suf))"

definition adapts_thinking :: "claude_convert_env \<Rightarrow> oai_request \<Rightarrow> bool" where
  "adapts_thinking env r \<longleftrightarrow> kv_adapter env \<and> go_has_suffix (or_Model r) ''-thinking''"

definition claude_max_tokens :: "claude_convert_env \<Rightarrow> oai_request \<Rightarrow> int" where
  "claude_max_tokens env r =
     (let m = (if GetMaxTokens r = 0 then kv_default_max env (or_Model r) else GetMaxTokens r)
      in if adapts_thinking env r \<and> m < 1280 then 1280 else m)"

definition claude_thinking :: "claude_convert_env \<Rightarrow> oai_request \<Rightarrow> (string \<times> int option) option res" where
  "claude_thinking env r =
     (let t = effort_thinking (or_ReasoningEffort r)
          (if adapts_thinking env r then Some (''enabled'', Some (kv_budget env (claude_max_tokens env r))) else None)
      in case or_Reasoning r of
           None \<Rightarrow> Ok t
         | Some (Ok b) \<Rightarrow> Ok (if 0 < b then Some (''enabled'', Some b) else t)
         | Some (Err e) \<Rightarrow> Err e
         | Some Panic \<Rightarrow> Panic)"

definition RequestOpenAI2ClaudeMessage :: "claude_convert_env \<Rightarrow> oai_request \<Rightarrow> claude_request res" where
  "RequestOpenAI2ClaudeMessage env r =
     (case claude_tools (or_Tools r) of
        Err e \<Rightarrow> Err e
      | Panic \<Rightarrow> Panic
      | Ok tools \<Rightarrow>
          (case claude_thinking env r of
             Err e \<Rightarrow> Err e
           | Panic \<Rightarrow> Panic
           | Ok thinking \<Rightarrow>
               (case claude_stop (or_Stop r) of
                  Err e \<Rightarrow> Err e
                | Panic \<Rightarrow> Panic
                | Ok stop \<Rightarrow>
                    (case claude_messages env [] True [] (fmt_messages [] (text_message ''tool'' []) (or_Messages r)) of
                       Err e \<Rightarrow> Err e
                     | Panic \<Rightarrow> Panic
                     | Ok (ms, sys) \<Rightarrow>
                         Ok \<lparr>cq_Model = (if adapts_thinking env r \<and> \<not> kv_preserve env (or_Model r)
                              then go_trim_suffix (or_Model r) ''-thinking'' else or_Model r),
                           cq_System = (if sys \<noteq> [] then McParts (map text_part sys) else McNil), cq_Messages = ms,
                           cq_MaxTokens = claude_max_tokens env r, cq_StopSequences = stop,
                           cq_Temperature = (if adapts_thinking env r then Some 1 else or_Temperature r),
                           cq_TopP = (if adapts_thinking env r then 0 else or_TopP r), cq_TopK = or_TopK r, cq_Stream = or_Stream r,
                           cq_Tools = tools @ (case or_WebSearch r of None \<Rightarrow> [] | Some sz \<Rightarrow> [ClaudeWebSearch (web_search_uses sz)]),
                           cq_ToolChoice = (if or_ToolChoice r \<noteq> TcNil \<or> or_Parallel r \<noteq> None
                              then mapToolChoice (or_ToolChoice r) (or_Parallel r) else None),
                           cq_Thinking = thinking\<rparr>))))"

text \<open>The prompt of the old completion interface.\<close>

fun complete_prompt :: "string \<Rightarrow> oai_message list \<Rightarrow> string" where
  "complete_prompt prompt [] = prompt @ [CHR 0x0A, CHR 0x0A] @ ''Assistant:''"
| "complete_prompt prompt (m # ms) = complete_prompt
     (if om_Role m = ''user'' then prompt @ [CHR 0x0A, CHR 0x0A] @ ''Human: '' @ StringContent m
      else if om_Role m = ''assistant'' then prompt @ [CHR 0x0A, CHR 0x0A] @ ''Assistant: '' @ StringContent m
      else if om_Role m = ''system'' then (if prompt = [] then StringContent m else prompt)
      else prompt) ms"

section \<open>Answers\<close>

record oai_choice =
  oc_Index :: int
  oc_Message :: oai_message
  oc_ReasoningContent :: string
  oc_FinishReason :: string

record oai_response =
  op_Id :: string
  op_Model :: string
  op_Choices :: "oai_choice list"
  op_PromptTokens :: int
  op_CompletionTokens :: int

definition call_media :: "(string \<Rightarrow> string option) \<Rightarrow> oai_tool_call \<Rightarrow> claude_media" where
  "call_media obj c = empty_media\<lparr>cm_Type := ''tool_use'', cm_Id := ot_ID c, cm_Name := ot_Name c,
     cm_Input := (case obj (ot_Arguments c) of Some input \<Rightarrow> input | None \<Rightarrow> ot_Arguments c)\<rparr>"

definition choice_media :: "(string \<Rightarrow> string option) \<Rightarrow> oai_choice \<Rightarrow> claude_media list" where
  "choice_media obj ch =
     (if oc_FinishReason ch = ''tool_calls''
      then map (call_media obj) (case om_ToolCalls (oc_Message ch) of None \<Rightarrow> [] | Some cs \<Rightarrow> cs)
      else [text_part (StringContent (oc_Message ch))])"

definition ResponseOpenAI2Claude :: "(string \<Rightarrow> string option) \<Rightarrow> oai_response \<Rightarrow> claude_response" where
  "ResponseOpenAI2Claude obj r = empty_response\<lparr>cr_Id := op_Id r, cr_Type := ''message'', cr_Model := op_Model r,
     cr_Content := concat (map (choice_media obj) (op_Choices r)),
     cr_StopReason := (case rev (op_Choices r) of [] \<Rightarrow> [] | ch # chs \<Rightarrow> stopReasonOpenAI2Claude (oc_FinishReason ch)),
     cr_Usage := Some \<lparr>cn_InputTokens = op_PromptTokens r, cn_CacheCreation = 0, cn_CacheRead = 0, cn_OutputTokens = op_CompletionTokens r,
       cn_5m = 0, cn_1h = 0, cn_WebSearch = 0\<rparr>\<rparr>"

definition media_call :: "claude_media \<Rightarrow> oai_tool_call" where
  "media_call m = \<lparr>ot_ID = cm_Id m, ot_Name = cm_Name m, ot_Arguments = cm_Input m\<rparr>"

text \<open>
  The last text and the last reasoning of an answer count; the text is that of the first part where no part
  is a text. The reasoning of the first part is overwritten in any case. The old completion interface has a choice of its own
  before the one that every answer gets; the id made up for it is random.
\<close>

definition ResponseClaude2OpenAI :: "bool \<Rightarrow> claude_response \<Rightarrow> oai_response" where
  "ResponseClaude2OpenAI completion r =
     (let content = (if completion then [] else cr_Content r);
          first = (case cr_Content r of [] \<Rightarrow> [] | m # ms \<Rightarrow> GetText m);
          response = fold (\<lambda>m t. if cm_Type m = ''text'' then GetText m else t) content first;
          thinking = fold (\<lambda>m t. if cm_Type m = ''thinking'' then (case cm_Thinking m of None \<Rightarrow> t | Some s \<Rightarrow> s) else t) content [];
          tools = map media_call (filter (\<lambda>m. cm_Type m = ''tool_use'') content);
          finish = stopReasonClaude2OpenAI (cr_StopReason r)
      in \<lparr>op_Id = (if completion then ''chatcmpl-'' else cr_Id r), op_Model = cr_Model r,
          op_Choices = (if completion
              then [\<lparr>oc_Index = 0, oc_Message = text_message ''assistant'' (go_trim_prefix (cr_Completion r) '' ''), oc_ReasoningContent = [],
                oc_FinishReason = finish\<rparr>] else []) @
            [\<lparr>oc_Index = 0, oc_Message = (text_message ''assistant'' response)\<lparr>om_ToolCalls := (if tools \<noteq> [] then Some tools else None)\<rparr>,
              oc_ReasoningContent = thinking, oc_FinishReason = finish\<rparr>],
          op_PromptTokens = 0, op_CompletionTokens = 0\<rparr>)"

text \<open>
  An answer that is not streamed, for a client of the given interface: the usage, the number of web searches that is kept
  for the billing, and what is sent. The usage of the answer is read a last time for its searches in both modes.
\<close>

definition HandleClaudeResponseData ::
    "claude_env \<Rightarrow> string \<Rightarrow> string \<Rightarrow> (claude_stream_usage \<times> int \<times> (oai_response, string) sum) res" where
  "HandleClaudeResponseData env model data =
     (case ce_decode env data of
        None \<Rightarrow> Err ''bad_response_body''
      | Some r \<Rightarrow>
          if (case cr_Error r of None \<Rightarrow> False | Some (ty, m) \<Rightarrow> ty \<noteq> []) then Err ''claude_error''
          else (case cr_Usage r of
                  None \<Rightarrow> Panic
                | Some u \<Rightarrow>
                    (let usage = (if ce_completion env then text_usage (ce_prompt env) (ce_estimate env model (cr_Completion r))
                           else (text_usage (cn_InputTokens u) (cn_OutputTokens u))\<lparr>ou_CachedTokens := cn_CacheRead u,
                             ou_CachedCreationTokens := cn_CacheCreation u, ou_5m := cn_5m u, ou_1h := cn_1h u\<rparr>)
                     in Ok (usage, if 0 < cn_WebSearch u then cn_WebSearch u else 0,
                          if ce_format env = RelayFormatOpenAI
                          then Inl ((ResponseClaude2OpenAI (ce_completion env) r)
                            \<lparr>op_PromptTokens := ou_PromptTokens usage, op_CompletionTokens := ou_CompletionTokens usage\<rparr>)
                          else if ce_format env = RelayFormatClaude then Inr data else Inr []))))"

text \<open>The interface that an upstream's model is called with, and its address.\<close>

definition claude_completion_mode :: "string \<Rightarrow> bool" where
  "claude_completion_mode model \<longleftrightarrow> go_has_prefix model ''claude-2'' \<or> go_has_prefix model ''claude-instant''"

definition claude_request_url :: "bool \<Rightarrow> string \<Rightarrow> bool \<Rightarrow> string" where
  "claude_request_url completion base beta =
     base @ (if completion then ''/v1/complete'' else ''/v1/messages'') @ (if beta then ''?beta=true'' else [])"

section \<open>Gemini\<close>

datatype gemini_part =
    GpText string                     \<comment> \<open>a text that is not empty\<close>
  | GpInline string string            \<comment> \<open>MIME type, data\<close>
  | GpFile string string              \<comment> \<open>MIME type, uri\<close>
  | GpCall string string              \<comment> \<open>name, arguments as JSON\<close>
  | GpResponse string string          \<comment> \<open>name, response as JSON\<close>
  | GpNothing

record gemini_content =
  ge_Role :: string
  ge_Parts :: "gemini_part list"

record gemini_request =
  gq_Contents :: "gemini_content list"
  gq_System :: "gemini_content option"
  gq_Temperature :: "rat option"
  gq_TopP :: rat
  gq_TopK :: rat
  gq_MaxOutputTokens :: int
  gq_CandidateCount :: int
  gq_StopSequences :: "string list"
  gq_stop_room :: nat                            \<comment> \<open>the capacity of the slice of stop sequences\<close>
  gq_Tools :: "oai_function list option list"    \<comment> \<open>the declarations of each tool, where they can be decoded\<close>

definition convertGeminiRoleToOpenAI :: "string \<Rightarrow> string" where
  "convertGeminiRoleToOpenAI role = (if role = ''user'' then ''user'' else if role = ''model'' then ''assistant''
     else if role = ''function'' then ''function'' else ''user'')"

text \<open>The parts of a content from a state of media, tool calls and messages of tool results.\<close>

fun gemini_parts :: "gemini_part list \<Rightarrow> oai_media list \<times> oai_tool_call list \<times> oai_message list \<Rightarrow> oai_media list \<times> oai_tool_call list \<times> oai_message list" where
  "gemini_parts [] st = st"
| "gemini_parts (p # ps) (media, calls, results) = gemini_parts ps
     (case p of
        GpText s \<Rightarrow> (media @ [OmText s []], calls, results)
      | GpInline mt d \<Rightarrow> (media @ [OmImage (''data:'' @ mt @ '';base64,'' @ d) ''auto'' mt], calls, results)
      | GpFile mt uri \<Rightarrow> (media @ [OmImage uri ''auto'' mt], calls, results)
      | GpCall n args \<Rightarrow> (media, calls @ [\<lparr>ot_ID = ''call_'' @ go_itoa (int (length calls) + 1), ot_Name = n, ot_Arguments = args\<rparr>], results)
      | GpResponse n resp \<Rightarrow> (media, calls, results @ [(text_message ''tool'' resp)\<lparr>om_ToolCallId := ''call_'' @ go_itoa (int (length calls))\<rparr>])
      | GpNothing \<Rightarrow> (media, calls, results))"

definition gemini_message :: "gemini_content \<Rightarrow> oai_message list" where
  "gemini_message c =
     (let (media, calls, results) = gemini_parts (ge_Parts c) ([], [], []);
          content = (if calls \<noteq> [] then OcNil
            else (case media of [OmText s cc] \<Rightarrow> OcString s | [] \<Rightarrow> OcNil | ms \<Rightarrow> OcMedia ms));
          msg = \<lparr>om_Role = convertGeminiRoleToOpenAI (ge_Role c), om_Content = content, om_Name = None,
            om_ToolCalls = (if calls \<noteq> [] then Some calls else None), om_ToolCallId = []\<rparr>
      in results @ (if ParseContent msg \<noteq> [] \<or> om_ToolCalls msg \<noteq> None then [msg] else []))"

fun join_lines :: "string list \<Rightarrow> string" where
  "join_lines [] = []"
| "join_lines [s] = s"
| "join_lines (s # ss) = s @ [CHR 0x0A] @ join_lines ss"

definition extractTextFromGeminiParts :: "gemini_part list \<Rightarrow> string" where
  "extractTextFromGeminiParts ps = join_lines (List.map_filter (\<lambda>p. case p of GpText s \<Rightarrow> Some s | _ \<Rightarrow> None) ps)"

text \<open>
  The first four stop sequences: the expression slices up to index 4, which needs room for four; what lies between
  the length and 4 is empty strings.
\<close>

definition gemini_stop :: "nat \<Rightarrow> string list \<Rightarrow> stop_value res" where
  "gemini_stop room ss =
     (if ss = [] then Ok StopNil
      else if room < 4 then Panic
      else Ok (StopStrings (take 4 (ss @ replicate 4 []))))"

text \<open>\<open>top_k\<close> is the conversion of a float to \<^verbatim>\<open>int\<close>.\<close>

definition GeminiToOpenAIRequest :: "(rat \<Rightarrow> int) \<Rightarrow> string \<Rightarrow> bool \<Rightarrow> gemini_request \<Rightarrow> oai_request res" where
  "GeminiToOpenAIRequest top_k model stream r =
     (case gemini_stop (gq_stop_room r) (gq_StopSequences r) of
        Err e \<Rightarrow> Err e
      | Panic \<Rightarrow> Panic
      | Ok stop \<Rightarrow>
          Ok \<lparr>or_Model = model,
            or_Messages = (case gq_System r of None \<Rightarrow> [] | Some c \<Rightarrow> [text_message ''system'' (extractTextFromGeminiParts (ge_Parts c))]) @
              concat (map gemini_message (gq_Contents r)),
            or_MaxTokens = (if 0 < gq_MaxOutputTokens r then gq_MaxOutputTokens r else 0), or_MaxCompletionTokens = 0,
            or_Temperature = gq_Temperature r, or_TopP = (if 0 < gq_TopP r then gq_TopP r else 0),
            or_TopK = (if 0 < gq_TopK r then top_k (gq_TopK r) else 0), or_N = (if 0 < gq_CandidateCount r then gq_CandidateCount r else 0),
            or_Stream = stream, or_Stop = stop,
            or_Tools = concat (map (\<lambda>t. case t of None \<Rightarrow> [] | Some fs \<Rightarrow> fs) (gq_Tools r)),
            or_ToolChoice = TcNil, or_Parallel = None, or_WebSearch = None, or_ReasoningEffort = [], or_Reasoning = None\<rparr>)"

definition ResponseOpenAI2Gemini :: "(string \<Rightarrow> bool) \<Rightarrow> oai_response \<Rightarrow> gemini_response" where
  "ResponseOpenAI2Gemini is_object r =
     \<lparr>gs_Candidates = map (\<lambda>ch. \<lparr>gc_Parts =
          (case (case om_ToolCalls (oc_Message ch) of None \<Rightarrow> [] | Some cs \<Rightarrow> cs) of
             [] \<Rightarrow> if StringContent (oc_Message ch) \<noteq> [] then [GeminiText (StringContent (oc_Message ch))] else []
           | cs \<Rightarrow> map (\<lambda>c. gemini_call is_object (ot_Name c) (ot_Arguments c)) cs),
          gc_FinishReason = Some (gemini_finish (oc_FinishReason ch)), gc_Index = oc_Index ch\<rparr>) (op_Choices r),
      gs_PromptTokenCount = op_PromptTokens r, gs_CandidatesTokenCount = op_CompletionTokens r,
      gs_TotalTokenCount = op_PromptTokens r + op_CompletionTokens r\<rparr>"

section \<open>Conversations of text\<close>

text \<open>Messages of alternating roles, each a string; a system message may come first.\<close>

fun chat :: "string \<Rightarrow> oai_message list \<Rightarrow> bool" where
  "chat role [] = True"
| "chat role (m # ms) = (om_Role m \<noteq> role \<and> om_Role m \<notin> {''tool'', ''system''} \<and> (\<exists>s. m = text_message (om_Role m) s) \<and> chat (om_Role m) ms)"

lemma fmt_chat:
  "chat (om_Role lst) ms \<Longrightarrow> fmt_messages acc lst ms = acc @ ms"
proof (induction ms arbitrary: acc lst)
  case (Cons m ms)
  obtain s where m: "m = text_message (om_Role m) s" using Cons.prems by auto
  have n: "\<not> merges lst m" using Cons.prems by (auto simp: merges_def)
  have f: "fmt_next lst m = m"
    unfolding fmt_next_def using n by (subst (1 2 3 4) m) (simp add: fmt_message_def Let_def)
  show ?case using Cons.IH [of m "acc @ [m]"] Cons.prems n f by simp
qed simp

text \<open>What a message of a conversation becomes.\<close>

definition chat_message :: "oai_message \<Rightarrow> claude_message" where
  "chat_message m = \<lparr>cl_Role = om_Role m, cl_Content = McString (StringContent m)\<rparr>"

lemma claude_chat:
  assumes "chat role ms" "\<not> first \<or> ms = [] \<or> om_Role (hd ms) = ''user''"
  shows "claude_messages env acc first sys ms = Ok (acc @ map chat_message ms, sys)"
  using assms
proof (induction ms arbitrary: role acc first)
  case (Cons m ms)
  obtain s where m: "m = text_message (om_Role m) s" "om_Role m \<noteq> ''tool''" "om_Role m \<noteq> ''system''" using Cons.prems(1) by auto
  have c: "IsStringContent m" "om_ToolCalls m = None" by (subst m(1), simp add: IsStringContent_def)+
  have "claude_message env acc m = Ok (acc @ [chat_message m])" using m(2) c by (simp add: claude_message_def chat_message_def)
  moreover have nf: "\<not> (first \<and> om_Role m \<noteq> ''user'')" using Cons.prems(2) by auto
  ultimately show ?case
    using Cons.IH [of "om_Role m" False "acc @ [chat_message m]"] Cons.prems(1)
    unfolding claude_messages.simps(2) if_not_P [OF m(3)] if_not_P [OF nf] by simp
qed simp

lemma openai_chat:
  assumes "chat role ms"
  shows "all_messages (claude_to_openai r) (map chat_message ms) = Ok ms"
  using assms
proof (induction ms arbitrary: role)
  case (Cons m ms)
  obtain s where m: "m = text_message (om_Role m) s" using Cons.prems by auto
  have "claude_to_openai r (chat_message m) = Ok [text_message (om_Role m) (StringContent m)]"
    by (simp add: claude_to_openai_def chat_message_def)
  moreover have "text_message (om_Role m) (StringContent m) = m" by (subst (2 3) m) (simp add: StringContent_def)
  ultimately show ?case using Cons.IH [of "om_Role m"] Cons.prems by simp
qed simp

lemma request_messages:
  assumes "RequestOpenAI2ClaudeMessage env r = Ok c"
  shows "\<exists>ms sys. claude_messages env [] True [] (fmt_messages [] (text_message ''tool'' []) (or_Messages r)) = Ok (ms, sys) \<and> cq_Messages c = ms \<and>
    cq_System c = (if sys \<noteq> [] then McParts (map text_part sys) else McNil)"
proof -
  obtain tools where t: "claude_tools (or_Tools r) = Ok tools"
    using assms by (cases "claude_tools (or_Tools r)") (simp_all add: RequestOpenAI2ClaudeMessage_def)
  obtain th where h: "claude_thinking env r = Ok th"
    using assms by (cases "claude_thinking env r") (simp_all add: RequestOpenAI2ClaudeMessage_def t)
  obtain stop where s: "claude_stop (or_Stop r) = Ok stop"
    using assms by (cases "claude_stop (or_Stop r)") (simp_all add: RequestOpenAI2ClaudeMessage_def t h)
  let ?m = "claude_messages env [] True [] (fmt_messages [] (text_message ''tool'' []) (or_Messages r))"
  obtain ms sys where m: "?m = Ok (ms, sys)"
    using assms unfolding RequestOpenAI2ClaudeMessage_def t h s res.case by (cases ?m) (simp_all split: prod.splits)
  have "cq_Messages c = ms \<and> cq_System c = (if sys \<noteq> [] then McParts (map text_part sys) else McNil)"
    using assms unfolding RequestOpenAI2ClaudeMessage_def t h s m res.case prod.case res.inject
    by (elim subst) (simp only: claude_request.select_convs simp_thms)
  then show ?thesis using m by blast
qed

lemma request_options:
  assumes "RequestOpenAI2ClaudeMessage env r = Ok c"
  shows "(\<not> adapts_thinking env r \<longrightarrow> cq_Temperature c = or_Temperature r \<and> cq_TopP c = or_TopP r) \<and> cq_Stream c = or_Stream r"
  using assms unfolding RequestOpenAI2ClaudeMessage_def
  by (auto split: res.splits prod.splits)

text \<open>The first message for Claude is a user's.\<close>

lemma claude_message_first:
  assumes "claude_message env acc m = Ok acc1" "acc = [] \<longrightarrow> om_Role m \<in> {''user'', ''tool''}" "acc = [] \<or> cl_Role (hd acc) = ''user''"
  shows "acc1 \<noteq> [] \<and> cl_Role (hd acc1) = ''user''"
proof (cases "om_Role m = ''tool''")
  case True
  show ?thesis
  proof (cases "rev acc")
    case Nil
    then show ?thesis using assms(1) True by (auto simp: claude_message_def)
  next
    case (Cons l ls)
    then have a: "acc = rev ls @ [l]" by (metis rev.simps(2) rev_rev_ident)
    have u: "cl_Role (hd (rev ls @ [l])) = ''user''" using assms(3) a by simp
    have "\<exists>x xs. acc1 = rev ls @ x # xs \<and> cl_Role x = cl_Role l"
      using assms(1) True unfolding claude_message_def a by (auto split: if_splits message_content.splits)
    then show ?thesis using u by (cases "rev ls") auto
  qed
next
  case False
  then have "\<exists>x. acc1 = acc @ [x] \<and> cl_Role x = om_Role m"
    using assms(1) by (auto simp: claude_message_def split: if_splits res.splits)
  then show ?thesis using assms(2,3) False by (cases acc) auto
qed

lemma claude_messages_first:
  assumes "claude_messages env acc first sys ms = Ok (cs, sys')" "acc = [] \<or> cl_Role (hd acc) = ''user''" "first \<longleftrightarrow> acc = []"
  shows "cs = [] \<or> cl_Role (hd cs) = ''user''"
  using assms
proof (induction ms arbitrary: acc first sys)
  case (Cons m ms)
  show ?case
  proof (cases "om_Role m = ''system''")
    case True
    then show ?thesis using Cons.IH Cons.prems by simp
  next
    case False
    define acc0 where "acc0 = (if first \<and> om_Role m \<noteq> ''user'' then acc @ [\<lparr>cl_Role = ''user'', cl_Content = McParts [text_part ''...'']\<rparr>] else acc)"
    obtain acc1 where a: "claude_message env acc0 m = Ok acc1" "claude_messages env acc1 False sys ms = Ok (cs, sys')"
      using Cons.prems(1) False by (auto simp: acc0_def split: res.splits)
    have "acc1 \<noteq> [] \<and> cl_Role (hd acc1) = ''user''"
      by (rule claude_message_first [OF a(1)]) (use Cons.prems(2,3) in \<open>auto simp: acc0_def\<close>)
    then show ?thesis using Cons.IH [OF a(2)] by simp
  qed
qed simp

text \<open>The parts of a message, sorted without a panic.\<close>

lemma claude_parts_sorted:
  assumes "\<forall>p \<in> set ps. cm_Type p = ''image'' \<longrightarrow> cm_Source p \<noteq> None"
  shows "\<exists>media calls results. claude_parts r ps = Ok (media, calls, results) \<and>
    map ot_ID calls = map cm_Id (filter (\<lambda>p. cm_Type p = ''tool_use'') ps) \<and>
    map om_ToolCallId results = map cm_ToolUseId (filter (\<lambda>p. cm_Type p = ''tool_result'') ps) \<and> (\<forall>m \<in> set results. om_Role m = ''tool'')"
  using assms by (induction ps) (auto split: option.split)

lemma claude_parts_no_error: "claude_parts r ps \<noteq> Err e"
proof (induction ps)
  case (Cons p ps)
  then show ?case by (cases "claude_parts r ps") (simp_all split: option.split prod.split)
qed simp

lemma claude_parts_panic: "claude_parts r ps = Panic \<longleftrightarrow> (\<exists>p \<in> set ps. cm_Type p = ''image'' \<and> cm_Source p = None)"
proof
  assume "claude_parts r ps = Panic"
  then show "\<exists>p \<in> set ps. cm_Type p = ''image'' \<and> cm_Source p = None"
    using claude_parts_sorted [of ps r] by fastforce
next
  assume "\<exists>p \<in> set ps. cm_Type p = ''image'' \<and> cm_Source p = None"
  then show "claude_parts r ps = Panic"
  proof (induction ps)
    case (Cons p ps)
    then show ?case using claude_parts_no_error [of r ps] by (cases "claude_parts r ps") auto
  qed simp
qed

text \<open>Numbers of Gemini calls: those of a content count from 1, and its results have the number of the calls before them.\<close>

lemma gemini_parts_ids:
  assumes "gemini_parts ps (media, calls, results) = (media', calls', results')"
    "\<forall>c \<in> set calls. \<exists>k. ot_ID c = ''call_'' @ go_itoa (int k + 1)" "\<forall>m \<in> set results. om_ToolCallId m = ''call_0''"
    "calls = [] \<or> (\<forall>p \<in> set ps. \<forall>n resp. p \<noteq> GpResponse n resp)" "results = [] \<or> (\<forall>p \<in> set ps. \<forall>n args. p \<noteq> GpCall n args)"
    "(\<forall>p \<in> set ps. \<forall>n resp. p \<noteq> GpResponse n resp) \<or> (\<forall>p \<in> set ps. \<forall>n args. p \<noteq> GpCall n args)"
  shows "(\<forall>c \<in> set calls'. \<exists>k. ot_ID c = ''call_'' @ go_itoa (int k + 1)) \<and> (\<forall>m \<in> set results'. om_ToolCallId m = ''call_0'')"
  using assms
proof (induction ps arbitrary: media calls results)
  case (Cons p ps)
  have z: "''call_'' @ go_itoa 0 = ''call_0''" by code_simp
  show ?case
  proof (cases p)
    case (GpCall n args)
    then show ?thesis using Cons.prems by (intro Cons.IH [of media "calls @ [\<lparr>ot_ID = ''call_'' @ go_itoa (int (length calls) + 1), ot_Name = n, ot_Arguments = args\<rparr>]" results]) auto
  next
    case (GpResponse n resp)
    then have e: "calls = []" using Cons.prems(4) by auto
    show ?thesis
      using Cons.prems GpResponse z unfolding e
      by (intro Cons.IH [of media "[]" "results @ [(text_message ''tool'' resp)\<lparr>om_ToolCallId := ''call_'' @ go_itoa 0\<rparr>]"]) auto
  qed (use Cons.prems Cons.IH in auto)
qed simp

lemma call_id_not_zero: "''call_'' @ go_itoa (int k + 1) \<noteq> ''call_0''"
proof
  assume "''call_'' @ go_itoa (int k + 1) = ''call_0''"
  then have "go_itoa (int k + 1) = ''0''" by simp
  then have "digits_val (nat_digits (nat (int k + 1))) = digits_val ''0''" by (simp add: go_itoa_def)
  moreover have "digits_val ''0'' = 0" by code_simp
  ultimately show False by (simp add: digits_val_nat_digits)
qed

text \<open>Adjacent messages of one role: the calls of the first have no part in what follows.\<close>

lemma fmt_messages_prefix: "\<exists>acc' lst'. \<forall>xs. fmt_messages acc lst (pre @ xs) = fmt_messages acc' lst' xs"
proof (induction pre arbitrary: acc lst)
  case (Cons m pre)
  show ?case using Cons.IH [of "(if merges lst m then butlast acc else acc) @ [fmt_next lst m]" "fmt_next lst m"] by simp
qed auto

lemma fmt_next_string:
  assumes "om_Role a \<noteq> ''tool''" "IsStringContent a"
  shows "om_Role (fmt_next lst a) = om_Role a" "IsStringContent (fmt_next lst a)"
    "om_Content (fmt_next lst (a\<lparr>om_ToolCalls := x\<rparr>)) = om_Content (fmt_next lst a)"
  using assms by (auto simp: fmt_next_def fmt_message_def IsStringContent_def StringContent_def merges_def Let_def split: oai_content.splits)

lemma fmt_next_content:
  assumes "om_Role a = om_Role b" "om_Content a = om_Content b"
  shows "merges a m = merges b m" "fmt_next a m = fmt_next b m"
proof -
  show m: "merges a m = merges b m" using assms by (simp add: merges_def IsStringContent_def)
  have "StringContent a = StringContent b" using assms by (simp add: StringContent_def)
  then show "fmt_next a m = fmt_next b m" by (simp only: fmt_next_def m)
qed

lemma merged_calls:
  assumes "om_Role a \<noteq> ''tool''" "om_Role b = om_Role a" "IsStringContent a" "IsStringContent b"
  shows "fmt_messages acc lst (a\<lparr>om_ToolCalls := x\<rparr> # b # ms) = fmt_messages acc lst (a # b # ms)"
proof -
  let ?a = "a\<lparr>om_ToolCalls := x\<rparr>"
  have a: "om_Role ?a \<noteq> ''tool''" "IsStringContent ?a" using assms by (simp_all add: IsStringContent_def)
  note f = fmt_next_string [OF assms(1,3)] fmt_next_string(1,2) [OF a]
  have m: "merges (fmt_next lst a) b" "merges (fmt_next lst ?a) b"
    using f assms(1,2,4) by (auto simp: merges_def)
  have "fmt_next (fmt_next lst ?a) b = fmt_next (fmt_next lst a) b"
    by (rule fmt_next_content(2)) (use f in simp_all)
  moreover have "merges lst ?a = merges lst a" by (simp add: merges_def IsStringContent_def)
  ultimately show ?thesis using m by simp
qed

lemma chat_role: "chat r ms \<Longrightarrow> ms = [] \<or> om_Role (hd ms) \<noteq> r' \<Longrightarrow> chat r' ms"
  by (cases ms) auto

lemma fmt_system_chat:
  assumes "sys = [] \<or> (\<exists>s. sys = [text_message ''system'' s])" "chat ''system'' ms"
  shows "fmt_messages [] (text_message ''tool'' []) (sys @ ms) = sys @ ms"
  using assms(1)
proof (elim disjE exE)
  assume e: "sys = []"
  have "chat (om_Role (text_message ''tool'' [])) ms" by (rule chat_role [OF assms(2)]) (use assms(2) in \<open>cases ms; auto\<close>)
  then show ?thesis using fmt_chat [of "text_message ''tool'' []" ms "[]"] e by simp
next
  fix s assume e: "sys = [text_message ''system'' s]"
  have "fmt_next (text_message ''tool'' []) (text_message ''system'' s) = text_message ''system'' s"
    by (simp add: fmt_next_def merges_def fmt_message_def)
  then show ?thesis using fmt_chat [of "text_message ''system'' s" ms "[text_message ''system'' s]"] assms(2) e
    by (simp add: merges_def)
qed

lemma claude_system_chat:
  assumes "sys = [] \<or> (\<exists>s. sys = [text_message ''system'' s])" "chat ''system'' ms" "ms = [] \<or> om_Role (hd ms) = ''user''"
  shows "\<exists>ss. claude_messages env [] True [] (sys @ ms) = Ok (map chat_message ms, ss) \<and>
    sys = (if ss = [] then [] else [text_message ''system'' (concat ss)])"
  using assms(1)
proof (elim disjE exE)
  assume "sys = []"
  then show ?thesis using claude_chat [OF assms(2), of True env "[]" "[]"] assms(3) by simp
next
  fix s assume "sys = [text_message ''system'' s]"
  then show ?thesis using claude_chat [OF assms(2), of True env "[]" "[s]"] assms(3)
    by (simp add: IsStringContent_def StringContent_def)
qed

lemma request_cong:
  assumes "fmt_messages [] (text_message ''tool'' []) xs = fmt_messages [] (text_message ''tool'' []) ys"
  shows "RequestOpenAI2ClaudeMessage env (r\<lparr>or_Messages := xs\<rparr>) = RequestOpenAI2ClaudeMessage env (r\<lparr>or_Messages := ys\<rparr>)"
proof -
  have e: "adapts_thinking env (r\<lparr>or_Messages := zs\<rparr>) = adapts_thinking env r"
    "claude_max_tokens env (r\<lparr>or_Messages := zs\<rparr>) = claude_max_tokens env r"
    "claude_thinking env (r\<lparr>or_Messages := zs\<rparr>) = claude_thinking env r" for zs
    by (simp_all add: adapts_thinking_def claude_max_tokens_def GetMaxTokens_def claude_thinking_def)
  have u: "or_Tools (r\<lparr>or_Messages := zs\<rparr>) = or_Tools r" "or_Stop (r\<lparr>or_Messages := zs\<rparr>) = or_Stop r"
    "or_Messages (r\<lparr>or_Messages := zs\<rparr>) = zs" "or_Model (r\<lparr>or_Messages := zs\<rparr>) = or_Model r"
    "or_Temperature (r\<lparr>or_Messages := zs\<rparr>) = or_Temperature r" "or_TopP (r\<lparr>or_Messages := zs\<rparr>) = or_TopP r"
    "or_TopK (r\<lparr>or_Messages := zs\<rparr>) = or_TopK r" "or_Stream (r\<lparr>or_Messages := zs\<rparr>) = or_Stream r"
    "or_WebSearch (r\<lparr>or_Messages := zs\<rparr>) = or_WebSearch r" "or_ToolChoice (r\<lparr>or_Messages := zs\<rparr>) = or_ToolChoice r"
    "or_Parallel (r\<lparr>or_Messages := zs\<rparr>) = or_Parallel r" for zs
    by simp_all
  show ?thesis unfolding RequestOpenAI2ClaudeMessage_def e u assms by (rule refl)
qed

text \<open>The ids the translation of a Gemini content makes up.\<close>

lemma gemini_results:
  assumes "gemini_parts ps (media, calls, results) = (media', calls', results')"
    "\<forall>m \<in> set results. om_Role m = ''tool'' \<and> om_ToolCalls m = None"
  shows "\<forall>m \<in> set results'. om_Role m = ''tool'' \<and> om_ToolCalls m = None"
  using assms
proof (induction ps arbitrary: media calls results)
  case (Cons p ps)
  obtain me ca re where st: "gemini_parts (p # ps) (media, calls, results) = gemini_parts ps (me, ca, re)"
    "\<forall>m \<in> set re. om_Role m = ''tool'' \<and> om_ToolCalls m = None"
    using Cons.prems(2) by (cases p) auto
  show ?case by (rule Cons.IH [OF _ st(2)]) (use Cons.prems(1) st(1) in simp)
qed simp

lemma gemini_message_ids:
  assumes "(\<forall>p \<in> set (ge_Parts c). \<forall>n resp. p \<noteq> GpResponse n resp) \<or> (\<forall>p \<in> set (ge_Parts c). \<forall>n args. p \<noteq> GpCall n args)"
    "m \<in> set (gemini_message c)"
  shows "(om_Role m = ''tool'' \<longrightarrow> om_ToolCallId m = ''call_0'') \<and>
    (\<forall>calls t. om_ToolCalls m = Some calls \<and> t \<in> set calls \<longrightarrow> (\<exists>k. ot_ID t = ''call_'' @ go_itoa (int k + 1)))"
proof -
  obtain media calls results where g: "gemini_parts (ge_Parts c) ([], [], []) = (media, calls, results)"
    by (cases "gemini_parts (ge_Parts c) ([], [], [])") auto
  have i: "\<forall>t \<in> set calls. \<exists>k. ot_ID t = ''call_'' @ go_itoa (int k + 1)" "\<forall>m \<in> set results. om_ToolCallId m = ''call_0''"
    using gemini_parts_ids [OF g] assms(1) by auto
  have role: "convertGeminiRoleToOpenAI (ge_Role c) \<noteq> ''tool''" by (simp add: convertGeminiRoleToOpenAI_def)
  have "m \<in> set results \<or> om_Role m = convertGeminiRoleToOpenAI (ge_Role c) \<and> om_ToolCalls m = (if calls \<noteq> [] then Some calls else None)"
    using assms(2) unfolding gemini_message_def g prod.case Let_def by (auto split: if_splits)
  then show ?thesis using i role gemini_results [OF g] by (auto split: if_splits)
qed

section \<open>Properties\<close>

text \<open>
  C10. A conversation of text from a client of the OpenAI interface, at most one system message and then messages whose
  contents are strings, the first of the user and each of another role than the one before it (none of them system or
  tool), that the hub accepts for Claude and translates back for an upstream other than OpenRouter, has the messages it had:
  every role, every text, in order, with the system message first, whatever the other members of the request are; the
  stream flag is kept, and so are temperature and top_p unless thinking is adapted. (Outside these conditions neighbours
  are merged and a first message of the user is put in.)
\<close>

lemma chat_roundtrip:
  assumes "or_Messages r = sys @ ms" "sys = [] \<or> (\<exists>s. sys = [text_message ''system'' s])"
    "chat ''system'' ms" "ms = [] \<or> om_Role (hd ms) = ''user''"
    "RequestOpenAI2ClaudeMessage env r = Ok c" "\<not> iv_openrouter info"
  shows "\<exists>r'. ClaudeToOpenAIRequest info c = Ok r' \<and> or_Messages r' = or_Messages r \<and>
    (\<not> adapts_thinking env r \<longrightarrow> or_Temperature r' = or_Temperature r \<and> or_TopP r' = or_TopP r) \<and> or_Stream r' = or_Stream r"
proof -
  obtain ss where ss: "claude_messages env [] True [] (sys @ ms) = Ok (map chat_message ms, ss)"
    "sys = (if ss = [] then [] else [text_message ''system'' (concat ss)])"
    using claude_system_chat [OF assms(2-4)] by blast
  have c: "cq_Messages c = map chat_message ms" "cq_System c = (if ss \<noteq> [] then McParts (map text_part ss) else McNil)"
    using request_messages [OF assms(5)] unfolding assms(1) fmt_system_chat [OF assms(2,3)] ss(1) by auto
  have "claude_system info (cq_System c) = sys"
    unfolding c(2) ss(2) using assms(6)
    by (cases ss) (simp_all add: claude_system_def parse_content_def GetText_def comp_def)
  then show ?thesis
    using openai_chat [OF assms(3)] request_options [OF assms(5)] unfolding ClaudeToOpenAIRequest_def c(1) assms(1) by (simp add: Let_def)
qed

abbreviation plain_env :: claude_convert_env where
  "plain_env \<equiv> \<lparr>kv_fetch = (\<lambda>u. Err ''offline''), kv_decode = (\<lambda>u. Ok (''png'', u)), kv_object = Some, kv_encode = (\<lambda>ps. ''[]''),
     kv_default_max = (\<lambda>m. 8192), kv_adapter = True, kv_budget = (\<lambda>n. n * 4 div 5), kv_preserve = (\<lambda>m. False)\<rparr>"

abbreviation plain_request :: "oai_message list \<Rightarrow> oai_request" where
  "plain_request ms \<equiv> \<lparr>or_Model = ''claude'', or_Messages = ms, or_MaxTokens = 100, or_MaxCompletionTokens = 0, or_Temperature = None, or_TopP = 0,
     or_TopK = 0, or_N = 0, or_Stream = True, or_Stop = StopNil, or_Tools = [], or_ToolChoice = TcNil, or_Parallel = None,
     or_WebSearch = None, or_ReasoningEffort = [], or_Reasoning = None\<rparr>"

lemma plain_converts:
  assumes "case claude_messages plain_env [] True [] (fmt_messages [] (text_message ''tool'' []) ms) of Ok x \<Rightarrow> True | _ \<Rightarrow> False"
  shows "\<exists>c. RequestOpenAI2ClaudeMessage plain_env (plain_request ms) = Ok c"
  using assms by (cases "claude_messages plain_env [] True [] (fmt_messages [] (text_message ''tool'' []) ms)") (auto simp add: RequestOpenAI2ClaudeMessage_def claude_thinking_def effort_thinking_def claude_stop_def adapts_thinking_def)

lemma chat_roundtrip_witness:
  "\<exists>c r'. RequestOpenAI2ClaudeMessage plain_env (plain_request [text_message ''system'' ''Be brief.'', text_message ''user'' ''Hi'',
      text_message ''assistant'' ''Hello'', text_message ''user'' ''Bye'']) = Ok c \<and>
    ClaudeToOpenAIRequest \<lparr>iv_openrouter = False, iv_OriginModelName = ''claude'', iv_UpstreamModelName = ''claude''\<rparr> c = Ok r' \<and>
    length (or_Messages r') = 4"
proof -
  let ?ms = "[text_message ''user'' ''Hi'', text_message ''assistant'' ''Hello'', text_message ''user'' ''Bye'']"
  let ?sys = "[text_message ''system'' ''Be brief.'']"
  have "case claude_messages plain_env [] True [] (fmt_messages [] (text_message ''tool'' []) (?sys @ ?ms)) of Ok x \<Rightarrow> True | _ \<Rightarrow> False"
    by code_simp
  then obtain c where c: "RequestOpenAI2ClaudeMessage plain_env (plain_request (?sys @ ?ms)) = Ok c" using plain_converts by blast
  show ?thesis
    using chat_roundtrip [of "plain_request (?sys @ ?ms)" ?sys ?ms plain_env c
      "\<lparr>iv_openrouter = False, iv_OriginModelName = ''claude'', iv_UpstreamModelName = ''claude''\<rparr>"] c by auto
qed

text \<open>
  The conversation that Claude gets begins with a user, whatever the messages of the client are: a leading message of
  the assistant, of a tool or of any other role comes after a user's message.
\<close>

lemma claude_first_user:
  assumes "RequestOpenAI2ClaudeMessage env r = Ok c"
  shows "cq_Messages c = [] \<or> cl_Role (hd (cq_Messages c)) = ''user''"
proof -
  obtain ms sys where m: "claude_messages env [] True [] (fmt_messages [] (text_message ''tool'' []) (or_Messages r)) = Ok (ms, sys)" "cq_Messages c = ms"
    using request_messages [OF assms] by blast
  show ?thesis unfolding m(2) by (rule claude_messages_first [OF m(1)]) simp_all
qed

lemma claude_first_user_witness:
  "\<exists>c. RequestOpenAI2ClaudeMessage plain_env (plain_request [text_message ''assistant'' ''Hello'']) = Ok c \<and>
    (cq_Messages c = [] \<or> cl_Role (hd (cq_Messages c)) = ''user'')"
proof -
  have "case claude_messages plain_env [] True [] (fmt_messages [] (text_message ''tool'' []) [text_message ''assistant'' ''Hello'']) of
      Ok x \<Rightarrow> True | _ \<Rightarrow> False"
    by code_simp
  then obtain c where "RequestOpenAI2ClaudeMessage plain_env (plain_request [text_message ''assistant'' ''Hello'']) = Ok c"
    using plain_converts by blast
  then show ?thesis using claude_first_user by blast
qed

text \<open>
  Two neighbouring messages of one role whose contents are strings become one for Claude, and the tool calls of the
  first are lost: the translation does not depend on them, whatever surrounds the two.
\<close>

lemma merge_loses_calls:
  assumes "om_Role a = ''assistant''" "om_Role b = ''assistant''" "IsStringContent a" "IsStringContent b"
  shows "RequestOpenAI2ClaudeMessage env (r\<lparr>or_Messages := pre @ a\<lparr>om_ToolCalls := calls\<rparr> # b # post\<rparr>) =
    RequestOpenAI2ClaudeMessage env (r\<lparr>or_Messages := pre @ a # b # post\<rparr>)"
proof -
  obtain acc lst where p: "\<And>xs. fmt_messages [] (text_message ''tool'' []) (pre @ xs) = fmt_messages acc lst xs"
    using fmt_messages_prefix [of "[]" "text_message ''tool'' []" pre] by blast
  have "fmt_messages [] (text_message ''tool'' []) (pre @ a\<lparr>om_ToolCalls := calls\<rparr> # b # post) =
      fmt_messages [] (text_message ''tool'' []) (pre @ a # b # post)"
    unfolding p by (rule merged_calls) (use assms in simp_all)
  then show ?thesis by (rule request_cong)
qed

lemma merge_loses_calls_witness:
  "RequestOpenAI2ClaudeMessage plain_env (plain_request [(text_message ''assistant'' ''I look.'')\<lparr>om_ToolCalls := Some [\<lparr>ot_ID = ''call_1'', ot_Name = ''f'', ot_Arguments = ''{}''\<rparr>]\<rparr>,
      text_message ''assistant'' ''Wait.'']) =
    RequestOpenAI2ClaudeMessage plain_env (plain_request [text_message ''assistant'' ''I look.'', text_message ''assistant'' ''Wait.''])"
  using merge_loses_calls [where r = "plain_request []" and pre = "[]" and post = "[]" and env = plain_env and
    a = "text_message ''assistant'' ''I look.''" and b = "text_message ''assistant'' ''Wait.''" and
    calls = "Some [\<lparr>ot_ID = ''call_1'', ot_Name = ''f'', ot_Arguments = ''{}''\<rparr>]"]
  by (simp add: IsStringContent_def)

text \<open>
  A message of a Claude client that has parts: its tool calls and the results of tools keep their ids in order, results
  first, as messages of role tool. A message with a tool call has no content for the OpenAI interface, so its texts and
  images are lost. An image without a source, and nothing else, ends the handler in a panic.
\<close>

lemma claude_parts_translated:
  assumes "cl_Content m = McParts ps"
  shows "(claude_to_openai r m = Panic \<longleftrightarrow> (\<exists>p \<in> set ps. cm_Type p = ''image'' \<and> cm_Source p = None)) \<and>
    (\<forall>msgs. claude_to_openai r m = Ok msgs \<and> (\<exists>p \<in> set ps. cm_Type p = ''tool_use'') \<longrightarrow>
      (\<exists>results calls. msgs = results @ [\<lparr>om_Role = cl_Role m, om_Content = OcNil, om_Name = None, om_ToolCalls = Some calls, om_ToolCallId = []\<rparr>] \<and>
        map ot_ID calls = map cm_Id (filter (\<lambda>p. cm_Type p = ''tool_use'') ps) \<and>
        map om_ToolCallId results = map cm_ToolUseId (filter (\<lambda>p. cm_Type p = ''tool_result'') ps) \<and> (\<forall>t \<in> set results. om_Role t = ''tool'')))"
proof (cases "\<exists>p \<in> set ps. cm_Type p = ''image'' \<and> cm_Source p = None")
  case True
  then show ?thesis using assms claude_parts_panic [of r ps] by (simp add: claude_to_openai_def parse_content_def)
next
  case False
  then obtain media calls results where s: "claude_parts r ps = Ok (media, calls, results)"
    "map ot_ID calls = map cm_Id (filter (\<lambda>p. cm_Type p = ''tool_use'') ps)"
    "map om_ToolCallId results = map cm_ToolUseId (filter (\<lambda>p. cm_Type p = ''tool_result'') ps)" "\<forall>m \<in> set results. om_Role m = ''tool''"
    using claude_parts_sorted [of ps r] by auto
  have "calls \<noteq> []" if "\<exists>p \<in> set ps. cm_Type p = ''tool_use''" using s(2) that by (auto simp: filter_empty_conv)
  then show ?thesis using False assms s by (auto simp: claude_to_openai_def parse_content_def Let_def)
qed

abbreviation plain_claude :: claude_request where
  "plain_claude \<equiv> \<lparr>cq_Model = ''claude'', cq_System = McNil, cq_Messages = [], cq_MaxTokens = 100, cq_StopSequences = [], cq_Temperature = None,
     cq_TopP = 0, cq_TopK = 0, cq_Stream = False, cq_Tools = [], cq_ToolChoice = None, cq_Thinking = None\<rparr>"

lemma claude_parts_translated_witness:
  "\<exists>results calls. claude_to_openai plain_claude \<lparr>cl_Role = ''assistant'', cl_Content = McParts [text_part ''I look.'', empty_media\<lparr>cm_Type := ''tool_use'', cm_Id := ''t1''\<rparr>]\<rparr> =
     Ok (results @ [\<lparr>om_Role = ''assistant'', om_Content = OcNil, om_Name = None, om_ToolCalls = Some calls, om_ToolCallId = []\<rparr>])"
proof -
  let ?m = "\<lparr>cl_Role = ''assistant'', cl_Content = McParts [text_part ''I look.'', empty_media\<lparr>cm_Type := ''tool_use'', cm_Id := ''t1''\<rparr>]\<rparr>"
  obtain msgs where "claude_to_openai plain_claude ?m = Ok msgs" by (simp add: claude_to_openai_def parse_content_def Let_def)
  then show ?thesis using claude_parts_translated [of ?m "[text_part ''I look.'', empty_media\<lparr>cm_Type := ''tool_use'', cm_Id := ''t1''\<rparr>]" plain_claude] by auto
qed

text \<open>
  Gemini calls have no ids, so the translation makes them up for each content anew. In a conversation where the calls
  and the responses of tools are in different contents, as the interface has it, no response has the id of any call.
\<close>

lemma gemini_results_orphaned:
  assumes "\<forall>c \<in> set (gq_Contents g). (\<forall>p \<in> set (ge_Parts c). \<forall>n resp. p \<noteq> GpResponse n resp) \<or> (\<forall>p \<in> set (ge_Parts c). \<forall>n args. p \<noteq> GpCall n args)"
    "GeminiToOpenAIRequest top_k model stream g = Ok r" "m \<in> set (or_Messages r)" "om_Role m = ''tool''"
    "a \<in> set (or_Messages r)" "om_ToolCalls a = Some calls" "t \<in> set calls"
  shows "om_ToolCallId m \<noteq> ot_ID t"
proof -
  have o: "x \<in> set (concat (map gemini_message (gq_Contents g))) \<or> om_Role x = ''system'' \<and> om_ToolCalls x = None" if "x \<in> set (or_Messages r)" for x
    using assms(2) that by (auto simp: GeminiToOpenAIRequest_def split: res.splits option.splits)
  obtain c where c: "c \<in> set (gq_Contents g)" "m \<in> set (gemini_message c)" using o [OF assms(3)] assms(4) by auto
  obtain d where d: "d \<in> set (gq_Contents g)" "a \<in> set (gemini_message d)" using o [OF assms(5)] assms(6) by auto
  have "om_ToolCallId m = ''call_0''" using gemini_message_ids [OF bspec [OF assms(1) c(1)] c(2)] assms(4) by simp
  moreover have "\<exists>k. ot_ID t = ''call_'' @ go_itoa (int k + 1)"
    using gemini_message_ids [OF bspec [OF assms(1) d(1)] d(2)] assms(6,7) by simp
  ultimately show ?thesis using call_id_not_zero by metis
qed

abbreviation plain_gemini :: "gemini_content list \<Rightarrow> gemini_request" where
  "plain_gemini cs \<equiv> \<lparr>gq_Contents = cs, gq_System = None, gq_Temperature = None, gq_TopP = 0, gq_TopK = 0, gq_MaxOutputTokens = 0,
     gq_CandidateCount = 0, gq_StopSequences = [], gq_stop_room = 0, gq_Tools = []\<rparr>"

lemma gemini_results_orphaned_witness:
  "\<exists>r. GeminiToOpenAIRequest (\<lambda>q. 0) ''m'' True (plain_gemini [\<lparr>ge_Role = ''model'', ge_Parts = [GpCall ''f'' ''{}'']\<rparr>,
      \<lparr>ge_Role = ''user'', ge_Parts = [GpResponse ''f'' ''{}'']\<rparr>]) = Ok r \<and>
    om_ToolCallId (or_Messages r ! 1) \<noteq> ot_ID (hd (the (om_ToolCalls (or_Messages r ! 0))))"
proof -
  let ?g = "plain_gemini [\<lparr>ge_Role = ''model'', ge_Parts = [GpCall ''f'' ''{}'']\<rparr>, \<lparr>ge_Role = ''user'', ge_Parts = [GpResponse ''f'' ''{}'']\<rparr>]"
  obtain r where r: "GeminiToOpenAIRequest (\<lambda>q. 0) ''m'' True ?g = Ok r" by (simp add: GeminiToOpenAIRequest_def gemini_stop_def)
  then have "or_Messages r = concat (map gemini_message (gq_Contents ?g))" by (auto simp: GeminiToOpenAIRequest_def gemini_stop_def)
  moreover have "concat (map gemini_message (gq_Contents ?g)) =
      [(text_message ''assistant'' [])\<lparr>om_Content := OcNil, om_ToolCalls := Some [\<lparr>ot_ID = ''call_1'', ot_Name = ''f'', ot_Arguments = ''{}''\<rparr>]\<rparr>,
       (text_message ''tool'' ''{}'')\<lparr>om_ToolCallId := ''call_0''\<rparr>]"
    by code_simp
  ultimately have ms: "or_Messages r = [(text_message ''assistant'' [])\<lparr>om_Content := OcNil, om_ToolCalls := Some [\<lparr>ot_ID = ''call_1'', ot_Name = ''f'', ot_Arguments = ''{}''\<rparr>]\<rparr>,
       (text_message ''tool'' ''{}'')\<lparr>om_ToolCallId := ''call_0''\<rparr>]" by simp
  have "om_ToolCallId ((text_message ''tool'' ''{}'')\<lparr>om_ToolCallId := ''call_0''\<rparr>) \<noteq> ot_ID \<lparr>ot_ID = ''call_1'', ot_Name = ''f'', ot_Arguments = ''{}''\<rparr>"
    by (rule gemini_results_orphaned [OF _ r, where a = "or_Messages r ! 0" and
      calls = "[\<lparr>ot_ID = ''call_1'', ot_Name = ''f'', ot_Arguments = ''{}''\<rparr>]"]) (simp_all add: ms)
  then show ?thesis using r ms by (intro exI [of _ r]) simp
qed

text \<open>
  A Gemini request with stop sequences is translated only if the decoder left their slice room for four: otherwise
  the handler ends in a panic. Without stop sequences it never does.
\<close>

lemma gemini_stop_panics_iff:
  "GeminiToOpenAIRequest top_k model stream g = Panic \<longleftrightarrow> gq_StopSequences g \<noteq> [] \<and> gq_stop_room g < 4"
  by (simp add: GeminiToOpenAIRequest_def gemini_stop_def)

lemma fold_last_text:
  "fold (\<lambda>m t. if cm_Type m = ''text'' then GetText m else t) ms t =
     (case rev (filter (\<lambda>m. cm_Type m = ''text'') ms) of [] \<Rightarrow> t | m # ps \<Rightarrow> GetText m)"
  by (induction ms rule: rev_induct) auto

text \<open>
  What a client of the OpenAI interface gets of an answer of Claude that is not streamed: one choice, with the text
  of the last text part only, every tool call in order with its id, name and arguments, and the translated reason to stop;
  the usage is billed with all of its cached tokens, and the web searches are counted.
\<close>

lemma claude_answer_translated:
  assumes "ce_decode env data = Some r" "cr_Error r = None" "cr_Usage r = Some u" "\<not> ce_completion env" "ce_format env = RelayFormatOpenAI"
    "filter (\<lambda>m. cm_Type m = ''text'') (cr_Content r) = texts @ [lst]"
  shows "\<exists>usage answer ch. HandleClaudeResponseData env model data = Ok (usage, max 0 (cn_WebSearch u), Inl answer) \<and> op_Choices answer = [ch] \<and>
    StringContent (oc_Message ch) = GetText lst \<and> oc_FinishReason ch = stopReasonClaude2OpenAI (cr_StopReason r) \<and>
    (case om_ToolCalls (oc_Message ch) of None \<Rightarrow> [] | Some cs \<Rightarrow> cs) = map media_call (filter (\<lambda>m. cm_Type m = ''tool_use'') (cr_Content r)) \<and>
    ou_PromptTokens usage = cn_InputTokens u \<and> ou_CompletionTokens usage = cn_OutputTokens u \<and>
    ou_TotalTokens usage = cn_InputTokens u + cn_OutputTokens u \<and> ou_CachedTokens usage = cn_CacheRead u \<and> ou_CachedCreationTokens usage = cn_CacheCreation u \<and>
    op_PromptTokens answer = cn_InputTokens u \<and> op_CompletionTokens answer = cn_OutputTokens u"
  using assms
  by (simp add: HandleClaudeResponseData_def ResponseClaude2OpenAI_def fold_last_text StringContent_def text_usage_def Let_def)

abbreviation plain_claude_env :: "bool \<Rightarrow> claude_response \<Rightarrow> claude_env" where
  "plain_claude_env completion r \<equiv> \<lparr>ce_completion = completion, ce_format = RelayFormatOpenAI, ce_decode = (\<lambda>d. Some r), ce_estimate = (\<lambda>m s. int (length s)),
     ce_prompt = 10, ce_include_usage = False\<rparr>"

lemma claude_answer_translated_witness:
  "\<exists>usage answer ch. HandleClaudeResponseData (plain_claude_env False (empty_response\<lparr>cr_Content := [text_part ''I look it up.'', text_part ''It is 7.''],
      cr_Usage := Some \<lparr>cn_InputTokens = 5, cn_CacheCreation = 0, cn_CacheRead = 0, cn_OutputTokens = 9, cn_5m = 0, cn_1h = 0, cn_WebSearch = 0\<rparr>\<rparr>)) ''claude'' ''x'' =
    Ok (usage, 0, Inl answer) \<and> op_Choices answer = [ch] \<and> StringContent (oc_Message ch) = ''It is 7.''"
proof -
  let ?u = "\<lparr>cn_InputTokens = 5, cn_CacheCreation = 0, cn_CacheRead = 0, cn_OutputTokens = 9, cn_5m = 0, cn_1h = 0, cn_WebSearch = 0\<rparr>"
  let ?r = "empty_response\<lparr>cr_Content := [text_part ''I look it up.'', text_part ''It is 7.''], cr_Usage := Some ?u\<rparr>"
  have "GetText (text_part ''It is 7.'') = ''It is 7.''" by (simp add: GetText_def)
  then show ?thesis
    using claude_answer_translated [of "plain_claude_env False ?r" "''x''" ?r ?u "[text_part ''I look it up.'']" "text_part ''It is 7.''" "''claude''"]
    by fastforce
qed

text \<open>
  The handler of an answer that is not streamed ends in a panic exactly when the answer, decoded and no error, has no
  usage. The answers of the old completion interface are read that way too, although the usage they are billed with is an
  estimate.
\<close>

lemma claude_answer_panics_iff:
  "HandleClaudeResponseData env model data = Panic \<longleftrightarrow>
    (\<exists>r. ce_decode env data = Some r \<and> (cr_Error r = None \<or> fst (the (cr_Error r)) = []) \<and> cr_Usage r = None)"
  by (auto simp: HandleClaudeResponseData_def Let_def split: option.splits)

end
