(* ===== verification/Balance_Ops.thy ===== *)
theory Balance_Ops
  imports Token_Access Usage_Pricing
begin

text \<open>
  Operations that put quota into an account: redemption codes (\<^verbatim>\<open>internal/adapter/repo/redemption.go\<close>,
  \<^verbatim>\<open>adapter/handler/redemption.go\<close>, \<^verbatim>\<open>v2_redemption.go\<close>), the adjustments and top-ups of other services
  (\<^verbatim>\<open>internal_api.go\<close>), transfers from the wallet of the billing platform (\<^verbatim>\<open>v2_billing.go\<close>,
  \<^verbatim>\<open>pkg/common/identity_client.go\<close>) and the exchange of currencies (\<^verbatim>\<open>internal_currency.go\<close>,
  \<^verbatim>\<open>pkg/currency\<close>). Outcomes of database statements and what the platform does with a call are
  arguments; texts of messages are reasons.
\<close>

section \<open>State\<close>

record redemption =
  rd_Id :: int
  rd_UserId :: int
  rd_TenantId :: string
  rd_Key :: string
  rd_Status :: int
  rd_Name :: string
  rd_Quota :: int
  rd_CreatedTime :: int
  rd_RedeemedTime :: int
  rd_UsedUserId :: int
  rd_ExpiredTime :: int
  rd_Deleted :: bool

definition RedemptionCodeStatusEnabled :: int where "RedemptionCodeStatusEnabled = 1"
definition RedemptionCodeStatusDisabled :: int where "RedemptionCodeStatusDisabled = 2"
definition RedemptionCodeStatusUsed :: int where "RedemptionCodeStatusUsed = 3"

record exchange =
  ex_UserId :: int
  ex_SourceAmount :: rat
  ex_TargetAmount :: int
  ex_ExchangeRate :: rat
  ex_VIPLevel :: int
  ex_VIPBonus :: rat
  ex_ReferenceId :: string

record balance_log =
  bl_UserId :: int
  bl_Type :: int
  bl_Content :: string

definition LogTypeTopup :: int where "LogTypeTopup = 1"
definition LogTypeSystem :: int where "LogTypeSystem = 4"

record balance_db =
  bd_ledger :: ledger
  bd_logs :: "balance_log list"
  bd_redemptions :: "(int, redemption) gomap"
  bd_exchanges :: "exchange list"

record balance_env =
  bv_now :: int
  bv_per_unit :: rat                      \<comment> \<open>\<^verbatim>\<open>QuotaPerUnit\<close>\<close>
  bv_fl :: "rat \<Rightarrow> rat"
  bv_batch :: bool
  bv_escape :: "char option"              \<comment> \<open>the escape of \<^verbatim>\<open>LIKE\<close>, a backslash except for SQLite\<close>
  bv_count_ok :: bool                     \<comment> \<open>outcomes of the statements\<close>
  bv_user_ok :: bool
  bv_credit_ok :: bool
  bv_row_ok :: bool
  bv_commit_ok :: bool
  bv_log_ok :: bool
  bv_key_name :: string
  bv_log_quota :: "int \<Rightarrow> string"
  bv_text :: "int \<Rightarrow> int \<Rightarrow> string"     \<comment> \<open>the other texts with two numbers\<close>

datatype balance_answer =
    BaFail int string          \<comment> \<open>status, reason\<close>
  | BaRepeat int               \<comment> \<open>already done; the quota now\<close>
  | BaGranted int int          \<comment> \<open>amount, the quota now\<close>

definition row_quota :: "int \<Rightarrow> ledger \<Rightarrow> int" where
  "row_quota i lg = (case gm_get (lg_users lg) i of None \<Rightarrow> 0 | Some u \<Rightarrow> us_Quota u)"

definition GetUserById :: "balance_env \<Rightarrow> int \<Rightarrow> balance_db \<Rightarrow> user option" where
  "GetUserById env i db = (if i = 0 \<or> \<not> bv_user_ok env then None else gm_get (lg_users (bd_ledger db)) i)"

definition RecordLog :: "balance_env \<Rightarrow> int \<Rightarrow> int \<Rightarrow> string \<Rightarrow> balance_db \<Rightarrow> balance_db" where
  "RecordLog env i ty content db =
     (if bv_log_ok env then db\<lparr>bd_logs := bd_logs db @ [\<lparr>bl_UserId = i, bl_Type = ty, bl_Content = content\<rparr>]\<rparr> else db)"

section \<open>LIKE\<close>

fun tails :: "'a list \<Rightarrow> 'a list list" where
  "tails [] = [[]]"
| "tails (x # xs) = (x # xs) # tails xs"

text \<open>
  SQL's pattern: \<open>%\<close> is any text, \<open>_\<close> any character, and the character after the escape is itself. Letters match in
  their case, as in PostgreSQL; the other databases also ignore it, so that they find more.
\<close>

fun sql_like :: "char option \<Rightarrow> string \<Rightarrow> string \<Rightarrow> bool" where
  "sql_like esc [] t = (t = [])"
| "sql_like esc (p # ps) t =
     (if Some p = esc then
        (case ps of [] \<Rightarrow> False | q # qs \<Rightarrow> (case t of [] \<Rightarrow> False | c # cs \<Rightarrow> q = c \<and> sql_like esc qs cs))
      else if p = CHR ''%'' then list_ex (sql_like esc ps) (tails t)
      else (case t of [] \<Rightarrow> False | c # cs \<Rightarrow> (p = CHR ''_'' \<or> p = c) \<and> sql_like esc ps cs))"

definition topup_seen :: "balance_env \<Rightarrow> int \<Rightarrow> string \<Rightarrow> balance_db \<Rightarrow> bool" where
  "topup_seen env i tag db \<longleftrightarrow> bv_count_ok env \<and>
     list_ex (\<lambda>l. bl_UserId l = i \<and> bl_Type l = LogTypeTopup \<and> sql_like (bv_escape env) (''%'' @ tag @ ''%'') (bl_Content l)) (bd_logs db)"

section \<open>Adjustments and top-ups by other services\<close>

text \<open>A request whose required members are missing does not bind; zero counts as missing.\<close>

definition InternalAdjustQuota :: "balance_env \<Rightarrow> int \<Rightarrow> int \<Rightarrow> string \<Rightarrow> balance_db \<Rightarrow> balance_answer \<times> balance_db" where
  "InternalAdjustQuota env i amount reason db =
     (if i = 0 \<or> amount = 0 \<or> reason = [] then (BaFail 400 ''invalid request'', db)
      else if i < 0 then (BaFail 400 ''invalid user id'', db)
      else (case GetUserById env i db of
              None \<Rightarrow> (BaFail 404 ''user not found'', db)
            | Some u \<Rightarrow>
                (let (ok, lg) = (if 0 < amount then IncreaseUserQuota (bv_batch env) (bv_credit_ok env) i amount True (bd_ledger db)
                       else DecreaseUserQuota (bv_batch env) (bv_credit_ok env) i (wrap64 (- amount)) (bd_ledger db))
                 in if \<not> ok then (BaFail 500 ''failed to adjust'', db\<lparr>bd_ledger := lg\<rparr>)
                    else (BaGranted amount (row_quota i lg), RecordLog env i LogTypeSystem
                      (''Internal API adjusted quota by '' @ bv_log_quota env amount @ '' via key: '' @ bv_key_name env @ ''. Reason: '' @ reason)
                      (db\<lparr>bd_ledger := lg\<rparr>)))))"

record topup_request =
  tq_UserId :: int
  tq_AmountRmb :: rat
  tq_OrderId :: string
  tq_Reason :: string

definition order_tag :: "string \<Rightarrow> string" where
  "order_tag order = ''Order ID: '' @ order"

definition topup_content :: "balance_env \<Rightarrow> int \<Rightarrow> string \<Rightarrow> string \<Rightarrow> string" where
  "topup_content env q reason order =
     ''Internal API topped up '' @ bv_log_quota env q @ '' via key: '' @ bv_key_name env @ ''. Reason: '' @ reason @
     (if order \<noteq> [] then ''. '' @ order_tag order else [])"

definition topup_amount :: "balance_env \<Rightarrow> rat \<Rightarrow> int" where
  "topup_amount env amount = trunc (bv_fl env (amount * bv_per_unit env))"

text \<open>What comes after the question whether the order was seen.\<close>

definition topup_credit :: "balance_env \<Rightarrow> topup_request \<Rightarrow> balance_db \<Rightarrow> balance_answer \<times> balance_db" where
  "topup_credit env req db =
     (case GetUserById env (tq_UserId req) db of
        None \<Rightarrow> (BaFail 404 ''user not found'', db)
      | Some u \<Rightarrow>
          (let q = topup_amount env (tq_AmountRmb req);
               (ok, lg) = IncreaseUserQuota (bv_batch env) (bv_credit_ok env) (tq_UserId req) q True (bd_ledger db)
           in if \<not> ok then (BaFail 500 ''failed to top up'', db\<lparr>bd_ledger := lg\<rparr>)
              else (BaGranted q (row_quota (tq_UserId req) lg),
                RecordLog env (tq_UserId req) LogTypeTopup (topup_content env q (tq_Reason req) (tq_OrderId req)) (db\<lparr>bd_ledger := lg\<rparr>))))"

definition topup_valid :: "topup_request \<Rightarrow> bool" where
  "topup_valid req \<longleftrightarrow> tq_UserId req \<noteq> 0 \<and> tq_AmountRmb req \<noteq> 0 \<and> tq_Reason req \<noteq> []"

definition InternalTopupBalance :: "balance_env \<Rightarrow> topup_request \<Rightarrow> balance_db \<Rightarrow> balance_answer \<times> balance_db" where
  "InternalTopupBalance env req db =
     (if \<not> topup_valid req then (BaFail 400 ''invalid request'', db)
      else if tq_UserId req \<le> 0 then (BaFail 400 ''invalid user id'', db)
      else if tq_AmountRmb req \<le> 0 then (BaFail 400 ''amount must be positive'', db)
      else if tq_OrderId req \<noteq> [] \<and> topup_seen env (tq_UserId req) (order_tag (tq_OrderId req)) db
      then (BaRepeat (row_quota (tq_UserId req) (bd_ledger db)), db)
      else topup_credit env req db)"

section \<open>Transfers from the wallet\<close>

text \<open>
  The platform: whether there is a connection for remote procedure calls, whether a web address is configured, and for
  each possible call whether it is applied to the wallet and what is replied: an answer with its flag of success,
  a lack of balance, or any other failure, which a lost reply is too.
\<close>

datatype wallet_reply = WrAnswer bool | WrInsufficient | WrFailed

record wallet_service =
  ws_grpc :: bool
  ws_url :: bool
  ws_grpc_debit :: "bool \<times> wallet_reply"
  ws_http_debit :: "bool \<times> wallet_reply"
  ws_grpc_credit :: "bool \<times> wallet_reply"
  ws_http_credit :: "bool \<times> wallet_reply"

abbreviation times_applied :: "bool \<times> wallet_reply \<Rightarrow> nat" where
  "times_applied a \<equiv> (if fst a then 1 else 0)"

text \<open>How often the wallet was changed, and the reply.\<close>

definition DebitWallet :: "wallet_service \<Rightarrow> nat \<times> wallet_reply" where
  "DebitWallet ws = (if \<not> ws_url ws then (0, WrFailed) else (times_applied (ws_http_debit ws), snd (ws_http_debit ws)))"

definition DebitWalletGRPC :: "wallet_service \<Rightarrow> nat \<times> wallet_reply" where
  "DebitWalletGRPC ws =
     (if \<not> ws_grpc ws then DebitWallet ws
      else (case snd (ws_grpc_debit ws) of
              WrAnswer s \<Rightarrow> (times_applied (ws_grpc_debit ws), WrAnswer s)
            | _ \<Rightarrow> (times_applied (ws_grpc_debit ws) + fst (DebitWallet ws), snd (DebitWallet ws))))"

definition CreditWallet :: "wallet_service \<Rightarrow> nat \<times> bool" where
  "CreditWallet ws = (if \<not> ws_url ws then (0, False) else (times_applied (ws_http_credit ws), case snd (ws_http_credit ws) of WrAnswer s \<Rightarrow> True | _ \<Rightarrow> False))"

definition CreditWalletGRPC :: "wallet_service \<Rightarrow> nat \<times> bool" where
  "CreditWalletGRPC ws =
     (if \<not> ws_grpc ws then CreditWallet ws
      else (case snd (ws_grpc_credit ws) of
              WrAnswer s \<Rightarrow> (times_applied (ws_grpc_credit ws), True)
            | _ \<Rightarrow> (times_applied (ws_grpc_credit ws) + fst (CreditWallet ws), snd (CreditWallet ws))))"

record transfer_request =
  tr_UserId :: int
  tr_AccountId :: int          \<comment> \<open>0 without a linked account\<close>
  tr_IdempotencyKey :: string
  tr_AmountCNY :: rat

definition transfer_tag :: "string \<Rightarrow> string" where
  "transfer_tag key = ''[IK:'' @ key @ '']''"

text \<open>The answer, the debits and credits of the wallet that took place, and the database.\<close>

definition TopUpV2 :: "balance_env \<Rightarrow> wallet_service \<Rightarrow> transfer_request \<Rightarrow> balance_db \<Rightarrow> balance_answer \<times> nat \<times> nat \<times> balance_db" where
  "TopUpV2 env ws req db =
     (if tr_AccountId req = 0 then (BaFail 503 ''account not linked'', 0, 0, db)
      else if tr_IdempotencyKey req = [] then (BaFail 400 ''idempotency key required'', 0, 0, db)
      else if tr_AmountCNY req \<le> 0 then (BaFail 400 ''invalid request'', 0, 0, db)
      else if tr_AmountCNY req < 1 \<or> 10000 < tr_AmountCNY req then (BaFail 400 ''amount out of range'', 0, 0, db)
      else if topup_seen env (tr_UserId req) (transfer_tag (tr_IdempotencyKey req)) db
      then (BaRepeat (row_quota (tr_UserId req) (bd_ledger db)), 0, 0, db)
      else (case DebitWalletGRPC ws of
              (n, WrInsufficient) \<Rightarrow> (BaFail 400 ''insufficient balance'', n, 0, db)
            | (n, WrFailed) \<Rightarrow> (BaFail 503 ''wallet unavailable'', n, 0, db)
            | (n, WrAnswer s) \<Rightarrow>
                (let q = topup_amount env (tr_AmountCNY req);
                     (ok, lg) = IncreaseUserQuota (bv_batch env) (bv_credit_ok env) (tr_UserId req) q True (bd_ledger db)
                 in if \<not> ok then (BaFail 500 ''failed, wallet refunded'', n, fst (CreditWalletGRPC ws), db\<lparr>bd_ledger := lg\<rparr>)
                    else (BaGranted q (row_quota (tr_UserId req) lg), n, 0, RecordLog env (tr_UserId req) LogTypeTopup
                      (bv_text env q (row_quota (tr_UserId req) lg) @ transfer_tag (tr_IdempotencyKey req)) (db\<lparr>bd_ledger := lg\<rparr>)))))"

section \<open>Exchange of currencies\<close>

definition VIPBonusRate :: "int \<Rightarrow> rat" where
  "VIPBonusRate vip = (if 4 \<le> vip then 12 / 10 else if 3 \<le> vip then 115 / 100 else if 2 \<le> vip then 11 / 10
     else if 1 \<le> vip then 105 / 100 else 1)"

definition LucToLutAmount :: "balance_env \<Rightarrow> rat \<Rightarrow> rat \<Rightarrow> int" where
  "LucToLutAmount env luc discount =
     (if luc \<le> 0 then 0
      else \<lfloor>bv_fl env (bv_fl env (luc * bv_per_unit env) * (if discount \<le> 0 then 1 else discount))\<rfloor>)"

definition CalculateExchange :: "balance_env \<Rightarrow> rat \<Rightarrow> int \<Rightarrow> int \<times> rat \<times> rat" where
  "CalculateExchange env luc vip =
     (LucToLutAmount env luc (VIPBonusRate vip), bv_fl env (bv_per_unit env * VIPBonusRate vip), VIPBonusRate vip)"

record exchange_request =
  xq_UserId :: int
  xq_LucAmount :: rat
  xq_VIPLevel :: int
  xq_ReferenceId :: string

text \<open>The transaction: the reference of an exchange is unique in its table.\<close>

definition exchange_commit :: "balance_env \<Rightarrow> exchange_request \<Rightarrow> balance_db \<Rightarrow> balance_answer \<times> balance_db" where
  "exchange_commit env req db =
     (let (target, rate, bonus) = CalculateExchange env (xq_LucAmount req) (xq_VIPLevel req)
      in if target \<le> 0 then (BaFail 400 ''amount too small'', db)
         else if \<not> bv_row_ok env \<or> list_ex (\<lambda>e. ex_ReferenceId e = xq_ReferenceId req) (bd_exchanges db) then (BaFail 500 ''failed to record'', db)
         else (let (ok, lg) = increaseUserQuota (bv_credit_ok env) (xq_UserId req) target (bd_ledger db)
               in if \<not> ok \<or> \<not> bv_commit_ok env then (BaFail 500 ''failed to exchange'', db)
                  else (BaGranted target (row_quota (xq_UserId req) lg),
                    RecordLog env (xq_UserId req) LogTypeTopup (bv_text env target (xq_VIPLevel req) @ xq_ReferenceId req)
                      (db\<lparr>bd_ledger := lg, bd_exchanges := bd_exchanges db @ [\<lparr>ex_UserId = xq_UserId req, ex_SourceAmount = xq_LucAmount req,
                        ex_TargetAmount = target, ex_ExchangeRate = rate, ex_VIPLevel = xq_VIPLevel req, ex_VIPBonus = bonus,
                        ex_ReferenceId = xq_ReferenceId req\<rparr>]\<rparr>))))"

text \<open>The tests before it; \<open>None\<close> lets the transaction go on.\<close>

definition exchange_check :: "balance_env \<Rightarrow> exchange_request \<Rightarrow> balance_db \<Rightarrow> balance_answer option" where
  "exchange_check env req db =
     (if xq_UserId req = 0 \<or> xq_LucAmount req = 0 \<or> xq_ReferenceId req = [] then Some (BaFail 400 ''invalid request'')
      else if xq_UserId req \<le> 0 then Some (BaFail 400 ''invalid user id'')
      else if xq_LucAmount req \<le> 0 \<or> 100000 < xq_LucAmount req then Some (BaFail 400 ''amount out of range'')
      else if bv_count_ok env \<and> list_ex (\<lambda>e. ex_ReferenceId e = xq_ReferenceId req) (bd_exchanges db)
      then Some (BaRepeat (row_quota (xq_UserId req) (bd_ledger db)))
      else (case GetUserById env (xq_UserId req) db of
              None \<Rightarrow> Some (BaFail 404 ''user not found'')
            | Some u \<Rightarrow> if us_Status u = UserStatusDisabled then Some (BaFail 403 ''user disabled'') else None))"

definition InternalExchangeLucToLut :: "balance_env \<Rightarrow> exchange_request \<Rightarrow> balance_db \<Rightarrow> balance_answer \<times> balance_db" where
  "InternalExchangeLucToLut env req db =
     (case exchange_check env req db of Some a \<Rightarrow> (a, db) | None \<Rightarrow> exchange_commit env req db)"

section \<open>Redemption codes\<close>

text \<open>
  The reading half of a redemption: the row of the code and its tests. \<open>First\<close> does not see deleted rows. The lock that the
  code asks for with \<^verbatim>\<open>gorm:query_option\<close> is an option of an older release of the database package; the model has
  none.
\<close>

definition redeem_read :: "balance_env \<Rightarrow> string \<Rightarrow> int \<Rightarrow> balance_db \<Rightarrow> redemption res" where
  "redeem_read env key userId db =
     (case (if bv_row_ok env then find (\<lambda>r. \<not> rd_Deleted r \<and> rd_Key r = key) (map snd (bd_redemptions db)) else None) of
        None \<Rightarrow> Err ''invalid code''
      | Some r \<Rightarrow>
          if rd_Status r \<noteq> RedemptionCodeStatusEnabled then Err ''code is used''
          else if rd_ExpiredTime r \<noteq> 0 \<and> rd_ExpiredTime r < bv_now env then Err ''code is expired''
          else (case (if bv_user_ok env then gm_get (lg_users (bd_ledger db)) userId else None) of
                  None \<Rightarrow> Err ''no such user''
                | Some u \<Rightarrow>
                    if rd_TenantId r \<noteq> ''default'' \<and> us_TenantId u \<noteq> rd_TenantId r then Err ''other tenant'' else Ok r))"

text \<open>The writing half, of the row that was read.\<close>

definition redeem_write :: "balance_env \<Rightarrow> int \<Rightarrow> redemption \<Rightarrow> balance_db \<Rightarrow> int res \<times> balance_db" where
  "redeem_write env userId r db =
     (let (ok, lg) = increaseUserQuota (bv_credit_ok env) userId (rd_Quota r) (bd_ledger db)
      in if \<not> ok \<or> \<not> bv_commit_ok env then (Err ''redemption failed'', db)
         else (Ok (rd_Quota r), RecordLog env userId LogTypeTopup (bv_text env (rd_Quota r) (rd_Id r))
           (db\<lparr>bd_ledger := lg, bd_redemptions := gm_put (bd_redemptions db) (rd_Id r)
             (r\<lparr>rd_RedeemedTime := bv_now env, rd_Status := RedemptionCodeStatusUsed, rd_UsedUserId := userId\<rparr>)\<rparr>)))"

definition Redeem :: "balance_env \<Rightarrow> string \<Rightarrow> int \<Rightarrow> balance_db \<Rightarrow> int res \<times> balance_db" where
  "Redeem env key userId db =
     (if key = [] then (Err ''no code'', db)
      else if userId = 0 then (Err ''invalid user id'', db)
      else (case redeem_read env key userId db of
              Err e \<Rightarrow> (Err e, db)
            | Panic \<Rightarrow> (Panic, db)
            | Ok r \<Rightarrow> redeem_write env userId r db))"

definition RedeemCodeV2 :: "balance_env \<Rightarrow> string \<Rightarrow> string \<Rightarrow> int \<Rightarrow> balance_db \<Rightarrow> int res \<times> balance_db" where
  "RedeemCodeV2 env key code userId db =
     (let c = (if key = [] then code else key)
      in if c = [] then (Err ''code required'', db)
         else if length c \<noteq> 32 then (Err ''invalid format'', db)
         else Redeem env c userId db)"

subsection \<open>Their administration\<close>

text \<open>Creation fills members that are zero with the defaults of their columns. The key of a row is unique, deleted rows included.\<close>

definition RedemptionInsert :: "bool \<Rightarrow> int \<Rightarrow> redemption \<Rightarrow> balance_db \<Rightarrow> bool \<times> balance_db" where
  "RedemptionInsert ok i r db =
     (if \<not> ok \<or> rd_TenantId r = [] \<or> list_ex (\<lambda>x. rd_Key x = rd_Key r) (map snd (bd_redemptions db)) then (False, db)
      else (True, db\<lparr>bd_redemptions := gm_put (bd_redemptions db) i (r\<lparr>rd_Id := i,
        rd_Status := (if rd_Status r = 0 then RedemptionCodeStatusEnabled else rd_Status r),
        rd_Quota := (if rd_Quota r = 0 then 100 else rd_Quota r)\<rparr>)\<rparr>))"

definition GetRedemptionById :: "bool \<Rightarrow> int \<Rightarrow> balance_db \<Rightarrow> redemption option" where
  "GetRedemptionById ok i db =
     (if i = 0 \<or> \<not> ok then None
      else (case gm_get (bd_redemptions db) i of None \<Rightarrow> None | Some r \<Rightarrow> if rd_Deleted r then None else Some r))"

definition RedemptionUpdate :: "bool \<Rightarrow> redemption \<Rightarrow> balance_db \<Rightarrow> bool \<times> balance_db" where
  "RedemptionUpdate ok r db =
     (if \<not> ok then (False, db)
      else (True, db\<lparr>bd_redemptions := gm.modify (bd_redemptions db) (rd_Id r)
        (\<lambda>x. x\<lparr>rd_Name := rd_Name r, rd_Status := rd_Status r, rd_Quota := rd_Quota r, rd_RedeemedTime := rd_RedeemedTime r,
               rd_ExpiredTime := rd_ExpiredTime r\<rparr>)\<rparr>))"

definition RedemptionDelete :: "bool \<Rightarrow> int \<Rightarrow> balance_db \<Rightarrow> bool \<times> balance_db" where
  "RedemptionDelete ok i db =
     (if \<not> ok then (False, db) else (True, db\<lparr>bd_redemptions := gm.modify (bd_redemptions db) i (\<lambda>x. x\<lparr>rd_Deleted := True\<rparr>)\<rparr>))"

definition DeleteRedemptionById :: "bool \<Rightarrow> bool \<Rightarrow> int \<Rightarrow> balance_db \<Rightarrow> bool \<times> balance_db" where
  "DeleteRedemptionById found_ok ok i db =
     (case GetRedemptionById found_ok i db of None \<Rightarrow> (False, db) | Some r \<Rightarrow> RedemptionDelete ok i db)"

definition invalid_redemption :: "int \<Rightarrow> redemption \<Rightarrow> bool" where
  "invalid_redemption now r \<longleftrightarrow> rd_Status r \<in> {RedemptionCodeStatusUsed, RedemptionCodeStatusDisabled} \<or>
     (rd_Status r = RedemptionCodeStatusEnabled \<and> rd_ExpiredTime r \<noteq> 0 \<and> rd_ExpiredTime r < now)"

definition DeleteInvalidRedemptions :: "bool \<Rightarrow> int \<Rightarrow> balance_db \<Rightarrow> nat \<times> balance_db" where
  "DeleteInvalidRedemptions ok now db =
     (if \<not> ok then (0, db)
      else (length (filter (\<lambda>(i, r). \<not> rd_Deleted r \<and> invalid_redemption now r) (bd_redemptions db)),
        db\<lparr>bd_redemptions := map (\<lambda>(i, r). (i, if invalid_redemption now r then r\<lparr>rd_Deleted := True\<rparr> else r)) (bd_redemptions db)\<rparr>))"

definition validateExpiredTime :: "int \<Rightarrow> int \<Rightarrow> bool" where
  "validateExpiredTime now expired \<longleftrightarrow> \<not> (expired \<noteq> 0 \<and> expired < now)"

text \<open>The number of characters of a text in UTF-8, as decoding leaves it.\<close>

definition rune_count :: "string \<Rightarrow> nat" where
  "rune_count s = length (filter (\<lambda>c. \<not> (128 \<le> (of_char c :: nat) \<and> (of_char c :: nat) < 192)) s)"

text \<open>For each code its key, the number the database gives it and the outcome of the insertion.\<close>

fun add_codes :: "redemption \<Rightarrow> (string \<times> int \<times> bool) list \<Rightarrow> balance_db \<Rightarrow> string list \<times> bool \<times> balance_db" where
  "add_codes r [] db = ([], True, db)"
| "add_codes r ((key, i, ok) # cs) db =
     (case RedemptionInsert ok i (r\<lparr>rd_Key := key\<rparr>) db of
        (False, db1) \<Rightarrow> ([], False, db1)
      | (True, db1) \<Rightarrow> (let (keys, fine, db2) = add_codes r cs db1 in (key # keys, fine, db2)))"

definition new_code :: "int \<Rightarrow> string \<Rightarrow> string \<Rightarrow> int \<Rightarrow> int \<Rightarrow> int \<Rightarrow> int \<Rightarrow> redemption" where
  "new_code userId tenant name status now quota expired = \<lparr>rd_Id = 0, rd_UserId = userId, rd_TenantId = tenant, rd_Key = [], rd_Status = status,
     rd_Name = name, rd_Quota = quota, rd_CreatedTime = now, rd_RedeemedTime = 0, rd_UsedUserId = 0, rd_ExpiredTime = expired, rd_Deleted = False\<rparr>"

definition AddRedemption ::
    "balance_env \<Rightarrow> int \<Rightarrow> string \<Rightarrow> string \<Rightarrow> int \<Rightarrow> int \<Rightarrow> int \<Rightarrow> (nat \<Rightarrow> string \<times> int \<times> bool) \<Rightarrow> balance_db \<Rightarrow> string list \<times> bool \<times> balance_db" where
  "AddRedemption env userId tenant name cnt quota expired code db =
     (if rune_count name = 0 \<or> 20 < rune_count name \<or> cnt \<le> 0 \<or> 100 < cnt \<or> \<not> validateExpiredTime (bv_now env) expired
      then ([], False, db)
      else add_codes (new_code userId (if tenant = [] then ''default'' else tenant) name 0 (bv_now env) quota expired)
        (map code [0..<nat cnt]) db)"

text \<open>A code whose insertion fails is left out.\<close>

fun create_codes :: "redemption \<Rightarrow> (string \<times> int \<times> bool) list \<Rightarrow> balance_db \<Rightarrow> string list \<times> balance_db" where
  "create_codes r [] db = ([], db)"
| "create_codes r ((key, i, ok) # cs) db =
     (case RedemptionInsert ok i (r\<lparr>rd_Key := key\<rparr>) db of
        (False, db1) \<Rightarrow> create_codes r cs db1
      | (True, db1) \<Rightarrow> (let (keys, db2) = create_codes r cs db1 in (key # keys, db2)))"

definition CreateRedemptionV2 ::
    "balance_env \<Rightarrow> bool \<Rightarrow> int \<Rightarrow> string \<Rightarrow> string \<Rightarrow> int \<Rightarrow> int \<Rightarrow> int \<Rightarrow> (nat \<Rightarrow> string \<times> int \<times> bool) \<Rightarrow> balance_db \<Rightarrow> string list res \<times> balance_db" where
  "CreateRedemptionV2 env admin userId tenant name quota cnt expired code db =
     (if \<not> admin then (Err ''forbidden'', db)
      else if name = [] \<or> quota < 1 \<or> cnt < 1 \<or> 100 < cnt then (Err ''invalid request'', db)
      else if 50 < length name then (Err ''name too long'', db)
      else if trunc (bv_fl env (1000000000 * bv_per_unit env)) < quota then (Err ''quota too large'', db)
      else if \<not> validateExpiredTime (bv_now env) expired then (Err ''expires in the past'', db)
      else (let (keys, db1) = create_codes (new_code userId tenant name RedemptionCodeStatusEnabled (bv_now env) quota expired) (map code [0..<nat cnt]) db
            in if keys = [] then (Err ''no code created'', db1) else (Ok keys, db1)))"

text \<open>An update of the status alone, or of everything else.\<close>

definition UpdateRedemption :: "balance_env \<Rightarrow> bool \<Rightarrow> redemption \<Rightarrow> balance_db \<Rightarrow> bool \<times> balance_db" where
  "UpdateRedemption env status_only req db =
     (case GetRedemptionById (bv_row_ok env) (rd_Id req) db of
        None \<Rightarrow> (False, db)
      | Some r \<Rightarrow>
          if \<not> status_only \<and> \<not> validateExpiredTime (bv_now env) (rd_ExpiredTime req) then (False, db)
          else RedemptionUpdate (bv_commit_ok env)
            (if status_only then r\<lparr>rd_Status := rd_Status req\<rparr>
             else r\<lparr>rd_Name := rd_Name req, rd_Quota := rd_Quota req, rd_ExpiredTime := rd_ExpiredTime req\<rparr>) db)"

definition DeleteRedemptionV2 :: "balance_env \<Rightarrow> bool \<Rightarrow> string \<Rightarrow> int \<Rightarrow> balance_db \<Rightarrow> bool \<times> balance_db" where
  "DeleteRedemptionV2 env admin tenant i db =
     (if \<not> admin then (False, db)
      else (case GetRedemptionById (bv_row_ok env) i db of
              None \<Rightarrow> (False, db)
            | Some r \<Rightarrow> if rd_TenantId r \<noteq> tenant then (False, db) else RedemptionDelete (bv_commit_ok env) i db))"

definition maskRedemptionKey :: "string \<Rightarrow> string" where
  "maskRedemptionKey key = (if length key \<le> 8 then ''****'' else take 4 key @ ''************************'' @ drop (length key - 4) key)"

subsection \<open>Their listing\<close>

text \<open>All rows that are not deleted, of every tenant, the newest first; the page and their number.\<close>

definition redemption_page :: "(redemption \<Rightarrow> bool) \<Rightarrow> nat \<Rightarrow> nat \<Rightarrow> balance_db \<Rightarrow> redemption list \<times> nat" where
  "redemption_page P start num db =
     (let rows = filter (\<lambda>r. \<not> rd_Deleted r \<and> P r) (map snd (bd_redemptions db))
      in (take num (drop start (rev (sort_key rd_Id rows))), length rows))"

definition GetAllRedemptions :: "bool \<Rightarrow> nat \<Rightarrow> nat \<Rightarrow> balance_db \<Rightarrow> (redemption list \<times> nat) option" where
  "GetAllRedemptions ok start num db = (if ok then Some (redemption_page (\<lambda>_. True) start num db) else None)"

definition SearchRedemptions :: "bool \<Rightarrow> char option \<Rightarrow> string \<Rightarrow> nat \<Rightarrow> nat \<Rightarrow> balance_db \<Rightarrow> (redemption list \<times> nat) option" where
  "SearchRedemptions ok esc keyword start num db =
     (if \<not> ok then None
      else Some (redemption_page
        (\<lambda>r. (case go_parse_int keyword of Some i \<Rightarrow> rd_Id r = i | None \<Rightarrow> False) \<or> sql_like esc (keyword @ ''%'') (rd_Name r)) start num db))"

text \<open>The page and its size come as numbers, with 0 for what does not parse.\<close>

definition ListRedemptionsV2 :: "balance_env \<Rightarrow> bool \<Rightarrow> int \<Rightarrow> int \<Rightarrow> string \<Rightarrow> balance_db \<Rightarrow> (redemption list \<times> nat) res" where
  "ListRedemptionsV2 env admin page page_size keyword db =
     (if \<not> admin then Err ''forbidden''
      else (let p = (if page < 1 then 1 else page);
                n = nat (if page_size < 1 \<or> 100 < page_size then 20 else page_size);
                start = nat (p - 1) * n
            in (case (if keyword \<noteq> [] then SearchRedemptions (bv_row_ok env) (bv_escape env) keyword start n db
                      else GetAllRedemptions (bv_row_ok env) start n db) of
                  None \<Rightarrow> Err ''failed to read''
                | Some (rows, cnt) \<Rightarrow>
                    Ok (map (\<lambda>r. if rd_Status r = RedemptionCodeStatusEnabled then r\<lparr>rd_Key := maskRedemptionKey (rd_Key r)\<rparr> else r) rows, cnt))))"

section \<open>Patterns\<close>

lemma mem_tails: "s \<in> set (tails t) \<longleftrightarrow> (\<exists>a. t = a @ s)"
proof (induction t)
  case (Cons x t)
  then show ?case by (auto simp: Cons_eq_append_conv)
qed auto

abbreviation unescaped :: "char option \<Rightarrow> string \<Rightarrow> bool" where
  "unescaped esc p \<equiv> \<forall>c \<in> set p. Some c \<noteq> esc"

lemma sql_like_append:
  "sql_like esc p t \<Longrightarrow> unescaped esc p \<Longrightarrow> sql_like esc q u \<Longrightarrow> sql_like esc (p @ q) (t @ u)"
proof (induction p arbitrary: t)
  case (Cons c p)
  show ?case
  proof (cases "c = CHR ''%''")
    case True
    then obtain a s where s: "t = a @ s" "sql_like esc p s" using Cons.prems(1,2) by (auto simp: list_ex_iff mem_tails)
    have "sql_like esc (p @ q) (s @ u)" using Cons.IH [OF s(2)] Cons.prems(2,3) by simp
    then show ?thesis using True Cons.prems(2) s(1) by (auto simp: list_ex_iff mem_tails)
  next
    case False
    then show ?thesis using Cons by (cases t) auto
  qed
qed simp

lemma sql_like_any: "esc \<noteq> Some (CHR ''%'') \<Longrightarrow> sql_like esc ''%'' t"
  by (auto simp: list_ex_iff mem_tails)

text \<open>A pattern matches itself, whatever wildcards it has.\<close>

lemma sql_like_self: "unescaped esc p \<Longrightarrow> sql_like esc p p"
proof (induction p)
  case (Cons c p)
  then show ?case by (cases "c = CHR ''%''") (auto simp: list_ex_iff mem_tails intro!: bexI [of _ p] exI [of _ "[c]"])
qed simp

lemma sql_like_inside:
  assumes "unescaped esc p" "esc \<noteq> Some (CHR ''%'')"
  shows "sql_like esc (''%'' @ p @ ''%'') (a @ p @ b)"
  using sql_like_append [OF sql_like_any [OF assms(2), of a] _ sql_like_append [OF sql_like_self [OF assms(1)] assms(1) sql_like_any [OF assms(2), of b]]] assms(2)
  by simp

lemma topup_seen_logged:
  assumes "\<lparr>bl_UserId = i, bl_Type = LogTypeTopup, bl_Content = a @ tag @ b\<rparr> \<in> set (bd_logs db)"
    "unescaped (bv_escape env) tag" "bv_escape env \<noteq> Some (CHR ''%'')" "bv_count_ok env"
  shows "topup_seen env i tag db"
  unfolding topup_seen_def list_ex_iff
  by (intro conjI assms(4) bexI [OF _ assms(1)]) (simp_all only: balance_log.simps simp_thms sql_like_inside [OF assms(2,3), of a b])

section \<open>Movements of quota\<close>

definition shift_quota :: "int \<Rightarrow> int \<Rightarrow> int \<Rightarrow> int option \<Rightarrow> int option" where
  "shift_quota i q j b = map_option (\<lambda>v. if j = i then v + q else v) b"

lemma direct_credit:
  "increaseUserQuota ok i q lg = (True, lg') \<Longrightarrow> user_quota lg' j = shift_quota i q j (user_quota lg j)"
  by (cases ok) (auto simp: increaseUserQuota_def user_quota_def eff_user_def gm.get_modify shift_quota_def option.map_comp comp_def intro!: option.map_cong0 split: if_splits)

lemma db_credit:
  assumes "IncreaseUserQuota batch ok i q True lg = (True, lg')"
  shows "user_quota lg' j = shift_quota i q j (user_quota lg j)"
  using user_account.inc_bal [where batch = batch and ok = ok and db = True, OF assms, of j] by (simp add: shift_quota_def)

lemma db_credit_fail: "IncreaseUserQuota batch ok i q True lg = (False, lg') \<Longrightarrow> lg' = lg"
  by (rule user_account.inc_fail)

lemma db_debit_fail: "DecreaseUserQuota batch ok i q lg = (False, lg') \<Longrightarrow> lg' = lg"
  by (rule user_account.dec_fail)

lemma RecordLog_parts [simp]:
  "bd_ledger (RecordLog env i ty s db) = bd_ledger db" "bd_redemptions (RecordLog env i ty s db) = bd_redemptions db"
  "bd_exchanges (RecordLog env i ty s db) = bd_exchanges db"
  by (simp_all add: RecordLog_def)

text \<open>A top-up that is granted, and its log.\<close>

lemma topup_granted:
  assumes "InternalTopupBalance env req db = (BaGranted q k, db')"
  shows "topup_valid req \<and> 0 < tq_UserId req \<and> 0 < tq_AmountRmb req \<and> q = topup_amount env (tq_AmountRmb req) \<and>
    user_quota (bd_ledger db') j = shift_quota (tq_UserId req) q j (user_quota (bd_ledger db) j) \<and>
    (bv_log_ok env \<longrightarrow> \<lparr>bl_UserId = tq_UserId req, bl_Type = LogTypeTopup, bl_Content = topup_content env q (tq_Reason req) (tq_OrderId req)\<rparr> \<in> set (bd_logs db'))"
proof -
  have v: "topup_valid req" "0 < tq_UserId req" "0 < tq_AmountRmb req" "topup_credit env req db = (BaGranted q k, db')"
    using assms by (auto simp: InternalTopupBalance_def split: if_splits)
  obtain lg where c: "IncreaseUserQuota (bv_batch env) (bv_credit_ok env) (tq_UserId req) q True (bd_ledger db) = (True, lg)"
    "q = topup_amount env (tq_AmountRmb req)"
    "db' = RecordLog env (tq_UserId req) LogTypeTopup (topup_content env q (tq_Reason req) (tq_OrderId req)) (db\<lparr>bd_ledger := lg\<rparr>)"
    using v(4) by (auto simp: topup_credit_def Let_def split: option.splits prod.splits if_splits)
  have "user_quota (bd_ledger db') j = shift_quota (tq_UserId req) q j (user_quota (bd_ledger db) j)"
    using db_credit [OF c(1), of j] unfolding c(3) by simp
  then show ?thesis using v(1-3) c(2) unfolding c(3) by (simp add: RecordLog_def)
qed

lemma order_logged:
  assumes "\<lparr>bl_UserId = i, bl_Type = LogTypeTopup, bl_Content = topup_content env q reason (order @ rest)\<rparr> \<in> set (bd_logs db)" "order \<noteq> []"
    "bv_escape env2 \<in> {None, Some (CHR 0x5C)}" "CHR 0x5C \<notin> set order" "bv_count_ok env2"
  shows "topup_seen env2 i (order_tag order) db"
proof (rule topup_seen_logged [where b = rest])
  have "topup_content env q reason (order @ rest) =
      (''Internal API topped up '' @ bv_log_quota env q @ '' via key: '' @ bv_key_name env @ ''. Reason: '' @ reason @ ''. '') @ order_tag order @ rest"
    using assms(2) by (simp add: topup_content_def order_tag_def)
  then show "\<lparr>bl_UserId = i, bl_Type = LogTypeTopup, bl_Content = (''Internal API topped up '' @ bv_log_quota env q @ '' via key: '' @ bv_key_name env @ ''. Reason: '' @ reason @ ''. '') @ order_tag order @ rest\<rparr> \<in> set (bd_logs db)"
    using assms(1) by simp
  show "unescaped (bv_escape env2) (order_tag order)" "bv_escape env2 \<noteq> Some CHR ''%''"
    using assms(3,4) by (auto simp: order_tag_def)
qed (rule assms(5))

lemma user_quota_None: "user_quota lg i = None \<longleftrightarrow> gm_get (lg_users lg) i = None"
  by (simp add: user_quota_def eff_user_def)

lemma topup_credit_again:
  assumes "topup_credit env req db = (BaGranted q k, db')" "user_quota (bd_ledger db1) (tq_UserId req) \<noteq> None"
  shows "\<exists>k1 db2. topup_credit env req db1 = (BaGranted q k1, db2) \<and> (\<forall>j. user_quota (bd_ledger db2) j = shift_quota (tq_UserId req) q j (user_quota (bd_ledger db1) j))"
proof -
  obtain lg where c: "IncreaseUserQuota (bv_batch env) (bv_credit_ok env) (tq_UserId req) q True (bd_ledger db) = (True, lg)"
    "q = topup_amount env (tq_AmountRmb req)" "GetUserById env (tq_UserId req) db \<noteq> None"
    using assms(1) by (auto simp: topup_credit_def Let_def split: option.splits prod.splits if_splits)
  obtain u where u: "GetUserById env (tq_UserId req) db1 = Some u"
    using c(3) assms(2) by (auto simp: GetUserById_def user_quota_None split: if_splits)
  obtain lg1 where lg1: "IncreaseUserQuota (bv_batch env) (bv_credit_ok env) (tq_UserId req) q True (bd_ledger db1) = (True, lg1)"
    using c(1) by (auto simp: IncreaseUserQuota_def increaseUserQuota_def split: if_splits)
  show ?thesis using db_credit [OF lg1] u lg1 c(2) by (simp add: topup_credit_def Let_def)
qed

subsection \<open>The wallet\<close>





definition codes_ok :: "balance_db \<Rightarrow> bool" where
  "codes_ok db \<longleftrightarrow> gm_ok (bd_redemptions db) \<and> (\<forall>i r. gm_get (bd_redemptions db) i = Some r \<longrightarrow> rd_Id r = i)"

section \<open>A sample account\<close>

definition demo_balance :: balance_db where
  "demo_balance = \<lparr>bd_ledger = demo_ledger\<lparr>lg_users := [(1, demo_user), (2, demo_user\<lparr>us_Id := 2\<rparr>)]\<rparr>, bd_logs = [],
     bd_redemptions = [(4, \<lparr>rd_Id = 4, rd_UserId = 9, rd_TenantId = ''default'', rd_Key = ''abc'', rd_Status = RedemptionCodeStatusEnabled,
       rd_Name = ''gift'', rd_Quota = 50, rd_CreatedTime = 10, rd_RedeemedTime = 0, rd_UsedUserId = 0, rd_ExpiredTime = 0, rd_Deleted = False\<rparr>)],
     bd_exchanges = []\<rparr>"

definition demo_balance_env :: balance_env where
  "demo_balance_env = \<lparr>bv_now = 1000, bv_per_unit = 500000, bv_fl = id, bv_batch = False, bv_escape = Some (CHR 0x5C), bv_count_ok = True,
     bv_user_ok = True, bv_credit_ok = True, bv_row_ok = True, bv_commit_ok = True, bv_log_ok = True, bv_key_name = ''ops'',
     bv_log_quota = (\<lambda>_. ''$1''), bv_text = (\<lambda>_ _. ''text'')\<rparr>"

definition demo_topup :: topup_request where
  "demo_topup = \<lparr>tq_UserId = 1, tq_AmountRmb = 2, tq_OrderId = ''N15'', tq_Reason = ''paid''\<rparr>"

definition demo_wallet :: wallet_service where
  "demo_wallet = \<lparr>ws_grpc = True, ws_url = True, ws_grpc_debit = (True, WrAnswer True), ws_http_debit = (True, WrAnswer True),
     ws_grpc_credit = (True, WrAnswer True), ws_http_credit = (True, WrAnswer True)\<rparr>"

definition demo_transfer :: transfer_request where
  "demo_transfer = \<lparr>tr_UserId = 1, tr_AccountId = 77, tr_IdempotencyKey = ''k1'', tr_AmountCNY = 2\<rparr>"

lemma demo_env_members [simp]:
  "bv_now demo_balance_env = 1000" "bv_per_unit demo_balance_env = 500000" "bv_fl demo_balance_env = id" "\<not> bv_batch demo_balance_env"
  "bv_escape demo_balance_env = Some (CHR 0x5C)" "bv_count_ok demo_balance_env" "bv_user_ok demo_balance_env" "bv_credit_ok demo_balance_env"
  "bv_row_ok demo_balance_env" "bv_commit_ok demo_balance_env" "bv_log_ok demo_balance_env"
  by (simp_all add: demo_balance_env_def)

lemma demo_amount [simp]: "topup_amount demo_balance_env 2 = 1000000"
  using trunc_int [of 1000000] by (simp add: topup_amount_def)

lemma demo_quota [simp]: "user_quota (bd_ledger demo_balance) 1 = Some 1000" "user_quota (bd_ledger demo_balance) 2 = Some 1000"
  by (simp_all add: demo_balance_def user_quota_def eff_user_def pend_def gm_get_def demo_user_def demo_ledger_def)

lemma demo_get_user [simp]: "GetUserById demo_balance_env 1 demo_balance = Some demo_user"
  by (simp add: GetUserById_def demo_balance_def gm_get_def)

lemma demo_topup_granted:
  assumes "tq_UserId req = 1" "tq_AmountRmb req = 2" "tq_Reason req \<noteq> []"
  shows "\<exists>k db. InternalTopupBalance demo_balance_env req demo_balance = (BaGranted 1000000 k, db)"
  using assms by (simp add: InternalTopupBalance_def topup_valid_def topup_seen_def topup_credit_def demo_balance_def GetUserById_def gm_get_def
      IncreaseUserQuota_def increaseUserQuota_def Let_def)

lemma demo_codes: "codes_ok demo_balance"
  by (auto simp: codes_ok_def demo_balance_def gm_ok_def gm_keys_def gm_get_def split: if_splits)

lemma demo_transferred: "\<exists>k db. TopUpV2 demo_balance_env demo_wallet demo_transfer demo_balance = (BaGranted 1000000 k, 1, 0, db)"
  by (simp add: TopUpV2_def demo_transfer_def demo_wallet_def topup_seen_def DebitWalletGRPC_def demo_balance_def
      IncreaseUserQuota_def increaseUserQuota_def Let_def)

section \<open>Properties\<close>

text \<open>
  A top-up with the number of an order happens once: after it was granted and logged, every later request of the user
  with this number, from any state in which the log is still there, is answered as done and changes nothing.
\<close>

lemma topup_once:
  assumes "InternalTopupBalance env req db = (BaGranted q k, db1)" "tq_OrderId req \<noteq> []" "bv_log_ok env"
    "set (bd_logs db1) \<subseteq> set (bd_logs db2)" "tq_UserId req2 = tq_UserId req" "tq_OrderId req2 = tq_OrderId req"
    "topup_valid req2" "0 < tq_AmountRmb req2"
    "bv_escape env2 \<in> {None, Some (CHR 0x5C)}" "CHR 0x5C \<notin> set (tq_OrderId req)" "bv_count_ok env2"
  shows "InternalTopupBalance env2 req2 db2 = (BaRepeat (row_quota (tq_UserId req) (bd_ledger db2)), db2)"
proof -
  note g = topup_granted [OF assms(1), of 0]
  have "topup_seen env2 (tq_UserId req) (order_tag (tq_OrderId req)) db2"
    using order_logged [of "tq_UserId req" env q "tq_Reason req" "tq_OrderId req" "[]" db2 env2] g assms(2-4,9-11) by auto
  then show ?thesis using g assms(2,5-8) by (simp add: InternalTopupBalance_def)
qed

theorem topup_once_witness:
  "\<exists>db. fst (InternalTopupBalance demo_balance_env demo_topup demo_balance) = BaGranted 1000000 (row_quota 1 (bd_ledger db)) \<and>
     InternalTopupBalance demo_balance_env demo_topup db = (BaRepeat (row_quota 1 (bd_ledger db)), db)"
proof -
  obtain k db where g: "InternalTopupBalance demo_balance_env demo_topup demo_balance = (BaGranted 1000000 k, db)"
    using demo_topup_granted [of demo_topup] by (auto simp: demo_topup_def)
  then have "k = row_quota 1 (bd_ledger db)"
    by (auto simp: InternalTopupBalance_def topup_credit_def demo_topup_def Let_def split: if_splits option.splits prod.splits)
  then show ?thesis using topup_once [OF g, of db demo_topup demo_balance_env] g by (auto simp: demo_topup_def topup_valid_def)
qed

text \<open>
  The log is searched for a text, so a number that begins another's is lost: once an order was granted, an order whose
  number is a beginning of its number is answered as done, although nothing was ever paid in for it.
\<close>

lemma topup_swallowed:
  assumes "InternalTopupBalance env req db = (BaGranted q k, db1)" "tq_OrderId req = order @ rest" "order \<noteq> []" "bv_log_ok env"
    "tq_UserId req2 = tq_UserId req" "tq_OrderId req2 = order" "topup_valid req2" "0 < tq_AmountRmb req2"
    "bv_escape env2 \<in> {None, Some (CHR 0x5C)}" "CHR 0x5C \<notin> set order" "bv_count_ok env2"
  shows "InternalTopupBalance env2 req2 db1 = (BaRepeat (row_quota (tq_UserId req) (bd_ledger db1)), db1)"
proof -
  note g = topup_granted [OF assms(1), of 0]
  have "topup_seen env2 (tq_UserId req) (order_tag order) db1"
    using order_logged [of "tq_UserId req" env q "tq_Reason req" order rest db1 env2] g assms(2-4,9-11) by auto
  then show ?thesis using g assms(3,5-8) by (simp add: InternalTopupBalance_def)
qed

theorem topup_swallowed_witness:
  "\<exists>db. fst (InternalTopupBalance demo_balance_env demo_topup demo_balance) = BaGranted 1000000 (row_quota 1 (bd_ledger db)) \<and>
     InternalTopupBalance demo_balance_env (demo_topup\<lparr>tq_OrderId := ''N1''\<rparr>) db = (BaRepeat (row_quota 1 (bd_ledger db)), db)"
proof -
  obtain k db where g: "InternalTopupBalance demo_balance_env demo_topup demo_balance = (BaGranted 1000000 k, db)"
    using demo_topup_granted [of demo_topup] by (auto simp: demo_topup_def)
  then have "k = row_quota 1 (bd_ledger db)"
    by (auto simp: InternalTopupBalance_def topup_credit_def demo_topup_def Let_def split: if_splits option.splits prod.splits)
  then show ?thesis
    using topup_swallowed [OF g, of "''N1''" "''5''" "demo_topup\<lparr>tq_OrderId := ''N1''\<rparr>" demo_balance_env] g by (auto simp: demo_topup_def topup_valid_def)
qed

text \<open>
  The question whether an order was seen and the credit are two steps. Two requests with one number that both ask before either
  is logged are both granted: what the second does after its question does not depend on the log.
\<close>

lemma topup_race:
  assumes "InternalTopupBalance env req db = (BaGranted q k, db1)" "InternalTopupBalance env req2 db = (BaGranted q2 k2, db2)"
    "tq_UserId req2 = tq_UserId req" "tq_OrderId req2 = tq_OrderId req" "user_quota (bd_ledger db) (tq_UserId req) = Some b"
  shows "\<exists>k3 db3. topup_credit env req2 db1 = (BaGranted q2 k3, db3) \<and> user_quota (bd_ledger db3) (tq_UserId req) = Some (b + q + q2)"
proof -
  have c: "topup_credit env req2 db = (BaGranted q2 k2, db2)" using assms(2) by (auto simp: InternalTopupBalance_def split: if_splits)
  have u: "user_quota (bd_ledger db1) (tq_UserId req) = Some (b + q)"
    using topup_granted [OF assms(1), of "tq_UserId req"] assms(5) by (simp add: shift_quota_def)
  then show ?thesis using topup_credit_again [OF c, of db1] assms(3) by (auto simp: shift_quota_def)
qed

theorem topup_race_witness:
  "\<exists>db1 k db3. fst (InternalTopupBalance demo_balance_env demo_topup demo_balance) = BaGranted 1000000 (row_quota 1 (bd_ledger db1)) \<and>
     topup_credit demo_balance_env demo_topup db1 = (BaGranted 1000000 k, db3) \<and> user_quota (bd_ledger db3) 1 = Some 2001000"
proof -
  obtain k db where g: "InternalTopupBalance demo_balance_env demo_topup demo_balance = (BaGranted 1000000 k, db)"
    using demo_topup_granted [of demo_topup] by (auto simp: demo_topup_def)
  then have "k = row_quota 1 (bd_ledger db)"
    by (auto simp: InternalTopupBalance_def topup_credit_def demo_topup_def Let_def split: if_splits option.splits prod.splits)
  then show ?thesis using topup_race [OF g g refl refl, of 1000] g by (auto simp: demo_topup_def)
qed

text \<open>
  An adjustment that is granted moves what the account will hold by exactly the amount, up or down and past zero, and
  no other account; one that is refused moves nothing.
\<close>

lemma adjust_exact:
  assumes "int64_ok amount"
  shows "user_quota (bd_ledger (snd (InternalAdjustQuota env i amount reason db))) j =
     (case fst (InternalAdjustQuota env i amount reason db) of
        BaGranted a k \<Rightarrow> shift_quota i amount j (user_quota (bd_ledger db) j)
      | _ \<Rightarrow> user_quota (bd_ledger db) j)"
proof (cases "i = 0 \<or> amount = 0 \<or> reason = [] \<or> i < 0 \<or> GetUserById env i db = None")
  case True
  then show ?thesis by (auto simp: InternalAdjustQuota_def)
next
  case False
  then obtain u where u: "GetUserById env i db = Some u" by auto
  show ?thesis
  proof (cases "0 < amount")
    case True
    then show ?thesis using False u db_credit [of "bv_batch env" "bv_credit_ok env" i amount "bd_ledger db" _ j] db_credit_fail [of "bv_batch env" "bv_credit_ok env" i amount "bd_ledger db"]
      by (cases "IncreaseUserQuota (bv_batch env) (bv_credit_ok env) i amount True (bd_ledger db)") (auto simp: InternalAdjustQuota_def)
  next
    case neg: False
    obtain ok lg where d: "DecreaseUserQuota (bv_batch env) (bv_credit_ok env) i (wrap64 (- amount)) (bd_ledger db) = (ok, lg)" by fastforce
    have w: "wrap64 (- amount) = - amount" if "0 \<le> wrap64 (- amount)"
    proof (cases "amount = - (2 ^ 63)")
      case True
      then show ?thesis using that by (simp add: wrap64_def)
    next
      case False
      then have "int64_ok (- amount)" using assms neg by (simp add: int64_ok_def)
      then show ?thesis by simp
    qed
    show ?thesis
    proof (cases ok)
      case True
      have "0 \<le> wrap64 (- amount)" using d True by (auto simp: DecreaseUserQuota_def split: if_splits)
      then have "user_quota lg j = shift_quota i amount j (user_quota (bd_ledger db) j)"
        using user_account.dec_bal [where batch = "bv_batch env" and ok = "bv_credit_ok env", of i "wrap64 (- amount)" "bd_ledger db" lg j] d True
        unfolding w [OF \<open>0 \<le> wrap64 (- amount)\<close>]
        by (cases "user_quota (bd_ledger db) j") (auto simp: shift_quota_def)
      then show ?thesis using False neg u d True by (simp add: InternalAdjustQuota_def)
    next
      case False': False
      then have "lg = bd_ledger db" using d by (metis (full_types) db_debit_fail)
      then show ?thesis using False neg u d False' by (simp add: InternalAdjustQuota_def)
    qed
  qed
qed

theorem adjust_exact_witness:
  "user_quota (bd_ledger (snd (InternalAdjustQuota demo_balance_env 1 (- 1500) ''correction'' demo_balance))) 1 = Some (- 500)"
proof -
  have "\<exists>k. fst (InternalAdjustQuota demo_balance_env 1 (- 1500) ''correction'' demo_balance) = BaGranted (- 1500) k"
    by (simp add: InternalAdjustQuota_def wrap64_def DecreaseUserQuota_def decreaseUserQuota_def Let_def)
  then show ?thesis using adjust_exact [of "- 1500" demo_balance_env 1 "''correction''" demo_balance 1]
    by (auto simp: int64_ok_def shift_quota_def)
qed



text \<open>
  The platform is not asked for more than an answer: a debit that is answered without success is granted, with nothing taken
  from the wallet; a debit whose answer is lost is made a second time over the web, so the wallet pays twice for one credit.
\<close>

lemma transfer_unreliable:
  assumes "TopUpV2 env ws req db = (BaGranted q k, n, m, db')"
  shows "TopUpV2 env (ws\<lparr>ws_grpc := True, ws_grpc_debit := (False, WrAnswer False)\<rparr>) req db = (BaGranted q k, 0, 0, db') \<and>
    TopUpV2 env (ws\<lparr>ws_grpc := True, ws_url := True, ws_grpc_debit := (True, WrFailed), ws_http_debit := (True, WrAnswer True)\<rparr>) req db =
      (BaGranted q k, 2, 0, db')"
proof -
  obtain n0 r where d: "DebitWalletGRPC ws = (n0, r)" by fastforce
  have e: "DebitWalletGRPC (ws\<lparr>ws_grpc := True, ws_grpc_debit := (False, WrAnswer False)\<rparr>) = (0, WrAnswer False)"
    "DebitWalletGRPC (ws\<lparr>ws_grpc := True, ws_url := True, ws_grpc_debit := (True, WrFailed), ws_http_debit := (True, WrAnswer True)\<rparr>) = (2, WrAnswer True)"
    by (simp_all add: DebitWalletGRPC_def DebitWallet_def)
  show ?thesis
    using assms unfolding TopUpV2_def e d
    by (cases r) (auto simp: Let_def split: if_splits prod.splits)
qed

theorem transfer_unreliable_witness:
  "\<exists>k db. TopUpV2 demo_balance_env (demo_wallet\<lparr>ws_grpc := True, ws_grpc_debit := (False, WrAnswer False)\<rparr>) demo_transfer demo_balance =
     (BaGranted 1000000 k, 0, 0, db)"
proof -
  obtain k db where t: "TopUpV2 demo_balance_env demo_wallet demo_transfer demo_balance = (BaGranted 1000000 k, 1, 0, db)"
    using demo_transferred by blast
  show ?thesis using transfer_unreliable [OF t] by blast
qed

subsection \<open>Exchanges and codes\<close>

definition exchanged :: "int \<Rightarrow> balance_db \<Rightarrow> int" where
  "exchanged j db = sum_list (map ex_TargetAmount (filter (\<lambda>e. ex_UserId e = j) (bd_exchanges db)))"

text \<open>Transactions of requests, one after the other, each with the answer it got to its tests at an earlier time.\<close>

definition exchange_all :: "(balance_env \<times> exchange_request) list \<Rightarrow> balance_db \<Rightarrow> balance_db" where
  "exchange_all reqs db = fold (\<lambda>(env, req) d. snd (exchange_commit env req d)) reqs db"

lemma exchange_step:
  assumes "exchange_commit env req db = (a, db')" "distinct (map ex_ReferenceId (bd_exchanges db))"
  shows "distinct (map ex_ReferenceId (bd_exchanges db')) \<and>
    user_quota (bd_ledger db') j = map_option (\<lambda>v. v + (exchanged j db' - exchanged j db)) (user_quota (bd_ledger db) j)"
proof -
  obtain target rate bonus where c: "CalculateExchange env (xq_LucAmount req) (xq_VIPLevel req) = (target, rate, bonus)" by (cases "CalculateExchange env (xq_LucAmount req) (xq_VIPLevel req)") auto
  obtain ok lg where i: "increaseUserQuota (bv_credit_ok env) (xq_UserId req) target (bd_ledger db) = (ok, lg)" by fastforce
  show ?thesis
  proof (cases "target \<le> 0 \<or> \<not> bv_row_ok env \<or> list_ex (\<lambda>e. ex_ReferenceId e = xq_ReferenceId req) (bd_exchanges db) \<or> \<not> ok \<or> \<not> bv_commit_ok env")
    case True
    then have "db' = db" using assms(1) c i by (auto simp: exchange_commit_def Let_def split: if_splits)
    then show ?thesis using assms(2) by (cases "user_quota (bd_ledger db) j") auto
  next
    case False
    obtain e where e: "bd_ledger db' = lg" "bd_exchanges db' = bd_exchanges db @ [e]" "ex_ReferenceId e = xq_ReferenceId req" "ex_UserId e = xq_UserId req" "ex_TargetAmount e = target"
      using assms(1) c i False by (auto simp: exchange_commit_def Let_def)
    have q: "user_quota lg j = shift_quota (xq_UserId req) target j (user_quota (bd_ledger db) j)" using i False by (metis (full_types) direct_credit)
    have "distinct (map ex_ReferenceId (bd_exchanges db'))" using assms(2) e(2,3) False by (auto simp: list_ex_iff)
    moreover have "exchanged j db' - exchanged j db = (if j = xq_UserId req then target else 0)" by (simp add: exchanged_def e)
    ultimately show ?thesis using q e(1) by (cases "user_quota (bd_ledger db) j") (auto simp: shift_quota_def)
  qed
qed

definition redeemed :: "int \<Rightarrow> balance_db \<Rightarrow> int" where
  "redeemed j db = sum_list (map (\<lambda>(i, r). if rd_Status r = RedemptionCodeStatusUsed \<and> rd_UsedUserId r = j then rd_Quota r else 0) (bd_redemptions db))"

lemma redeem_read_row:
  assumes "redeem_read env key userId db = Ok r" "codes_ok db"
  shows "gm_get (bd_redemptions db) (rd_Id r) = Some r \<and> rd_Status r = RedemptionCodeStatusEnabled \<and> rd_Key r = key \<and> \<not> rd_Deleted r \<and>
    user_quota (bd_ledger db) userId \<noteq> None"
proof -
  have f: "find (\<lambda>r. \<not> rd_Deleted r \<and> rd_Key r = key) (map snd (bd_redemptions db)) = Some r"
    using assms(1) by (auto simp: redeem_read_def split: if_splits option.splits)
  then have "r \<in> set (map snd (bd_redemptions db))" "\<not> rd_Deleted r" "rd_Key r = key" by (auto simp: find_Some_iff)
  moreover then obtain i where "gm_get (bd_redemptions db) i = Some r"
    using assms(2) by (auto simp: codes_ok_def gm_ok_def gm_keys_def gm_get_def)
  ultimately show ?thesis using assms by (auto simp: codes_ok_def redeem_read_def user_quota_None split: if_splits option.splits)
qed

definition used_code :: "balance_env \<Rightarrow> int \<Rightarrow> redemption \<Rightarrow> redemption" where
  "used_code env userId r = r\<lparr>rd_RedeemedTime := bv_now env, rd_Status := RedemptionCodeStatusUsed, rd_UsedUserId := userId\<rparr>"

lemma redeem_write_cases:
  assumes "redeem_write env userId r db = (a, db')"
  shows "(\<exists>e. a = Err e) \<and> db' = db \<or>
    a = Ok (rd_Quota r) \<and> bd_redemptions db' = gm_put (bd_redemptions db) (rd_Id r) (used_code env userId r) \<and>
      (\<forall>j. user_quota (bd_ledger db') j = shift_quota userId (rd_Quota r) j (user_quota (bd_ledger db) j))"
proof -
  obtain ok lg where i: "increaseUserQuota (bv_credit_ok env) userId (rd_Quota r) (bd_ledger db) = (ok, lg)" by fastforce
  have q: "ok \<Longrightarrow> user_quota lg j = shift_quota userId (rd_Quota r) j (user_quota (bd_ledger db) j)" for j using i by (metis (full_types) direct_credit)
  show ?thesis using assms i q by (auto simp: redeem_write_def used_code_def Let_def split: if_splits)
qed

lemma redeem_step:
  assumes "Redeem env key userId db = (a, db')" "codes_ok db"
  shows "codes_ok db' \<and> user_quota (bd_ledger db') j = map_option (\<lambda>v. v + (redeemed j db' - redeemed j db)) (user_quota (bd_ledger db) j) \<and>
    (\<forall>i r. gm_get (bd_redemptions db) i = Some r \<and> rd_Status r \<noteq> RedemptionCodeStatusEnabled \<longrightarrow> gm_get (bd_redemptions db') i = Some r)"
proof (cases "db' = db")
  case True
  then show ?thesis using assms(2) by (cases "user_quota (bd_ledger db) j") auto
next
  case False
  then obtain r where r: "redeem_read env key userId db = Ok r" "redeem_write env userId r db = (a, db')"
    using assms(1) by (auto simp: Redeem_def split: if_splits res.splits)
  note row = redeem_read_row [OF r(1) assms(2)]
  have w: "bd_redemptions db' = gm_put (bd_redemptions db) (rd_Id r) (used_code env userId r)"
    "user_quota (bd_ledger db') j = shift_quota userId (rd_Quota r) j (user_quota (bd_ledger db) j)"
    using redeem_write_cases [OF r(2)] False by auto
  have "redeemed j db' - redeemed j db = (if j = userId then rd_Quota r else 0)"
    unfolding redeemed_def w(1) using row by (simp add: gm_sum_put used_code_def RedemptionCodeStatusEnabled_def RedemptionCodeStatusUsed_def)
  moreover have "codes_ok db'" using assms(2) row by (auto simp: codes_ok_def w(1) used_code_def split: if_splits)
  ultimately show ?thesis using row w by (cases "user_quota (bd_ledger db) j") (auto simp: shift_quota_def)
qed

fun redeem_all :: "(balance_env \<times> string \<times> int) list \<Rightarrow> balance_db \<Rightarrow> balance_db" where
  "redeem_all [] db = db"
| "redeem_all ((env, key, userId) # reqs) db = redeem_all reqs (snd (Redeem env key userId db))"

text \<open>
  C38. Redemptions one after the other, each run to its end before the next begins, of any codes by any users with any
  failures of the database: what an account gains is the sum of the codes that are now marked as used by it, and a code
  that is not enabled never changes, so none is paid twice. (Two redemptions that overlap can both be paid: \<open>redeem_race\<close>.)
\<close>

lemma redeem_conserves:
  assumes "codes_ok db"
  shows "user_quota (bd_ledger (redeem_all reqs db)) j = map_option (\<lambda>v. v + (redeemed j (redeem_all reqs db) - redeemed j db)) (user_quota (bd_ledger db) j) \<and>
    (\<forall>i r. gm_get (bd_redemptions db) i = Some r \<and> rd_Status r \<noteq> RedemptionCodeStatusEnabled \<longrightarrow> gm_get (bd_redemptions (redeem_all reqs db)) i = Some r)"
  using assms
proof (induction reqs arbitrary: db)
  case Nil
  then show ?case by (cases "user_quota (bd_ledger db) j") auto
next
  case (Cons q reqs)
  obtain env key userId where q: "q = (env, key, userId)" by (cases q)
  obtain a db1 where d: "Redeem env key userId db = (a, db1)" by fastforce
  note st = redeem_step [OF d Cons.prems]
  show ?case using Cons.IH [of db1] st q d by (cases "user_quota (bd_ledger db) j") auto
qed

theorem redeem_conserves_witness:
  "user_quota (bd_ledger (redeem_all [(demo_balance_env, ''abc'', 1), (demo_balance_env, ''abc'', 2)] demo_balance)) 1 =
     Some (1000 + (redeemed 1 (redeem_all [(demo_balance_env, ''abc'', 1), (demo_balance_env, ''abc'', 2)] demo_balance) - 0))"
proof -
  have "redeemed 1 demo_balance = 0" by (simp add: redeemed_def demo_balance_def RedemptionCodeStatusEnabled_def RedemptionCodeStatusUsed_def)
  then show ?thesis
    using redeem_conserves [OF demo_codes, of "[(demo_balance_env, ''abc'', 1), (demo_balance_env, ''abc'', 2)]" 1] by simp
qed

text \<open>
  Nothing holds the row of a code between its reading and its writing: two users who read it at the same time are both
  paid the whole code, and its row names the second only.
\<close>

lemma redeem_race:
  assumes "codes_ok db" "redeem_read env1 key u1 db = Ok r" "redeem_read env2 key u2 db = Ok r" "u1 \<noteq> u2"
    "bv_credit_ok env1" "bv_commit_ok env1" "bv_credit_ok env2" "bv_commit_ok env2"
  shows "\<exists>db1 db2. redeem_write env1 u1 r db = (Ok (rd_Quota r), db1) \<and> redeem_write env2 u2 r db1 = (Ok (rd_Quota r), db2) \<and>
    (\<forall>j \<in> {u1, u2}. user_quota (bd_ledger db2) j = map_option (\<lambda>v. v + rd_Quota r) (user_quota (bd_ledger db) j)) \<and>
    gm_get (bd_redemptions db2) (rd_Id r) = Some (used_code env2 u2 r)"
proof -
  obtain db1 where d1: "redeem_write env1 u1 r db = (Ok (rd_Quota r), db1)" using assms(5,6) by (simp add: redeem_write_def increaseUserQuota_def Let_def)
  obtain db2 where d2: "redeem_write env2 u2 r db1 = (Ok (rd_Quota r), db2)" using assms(7,8) by (simp add: redeem_write_def increaseUserQuota_def Let_def)
  show ?thesis using redeem_write_cases [OF d1] redeem_write_cases [OF d2] d1 d2 assms(4)
    by (intro exI [of _ db1] exI [of _ db2]) (auto simp: shift_quota_def option.map_comp comp_def)
qed

theorem redeem_race_witness:
  "\<exists>r db1 db2. redeem_read demo_balance_env ''abc'' 1 demo_balance = Ok r \<and> redeem_write demo_balance_env 1 r demo_balance = (Ok (rd_Quota r), db1) \<and>
     redeem_write demo_balance_env 2 r db1 = (Ok (rd_Quota r), db2) \<and> user_quota (bd_ledger db2) 1 = Some 1050 \<and> user_quota (bd_ledger db2) 2 = Some 1050"
proof -
  obtain r where r: "redeem_read demo_balance_env ''abc'' 1 demo_balance = Ok r" "redeem_read demo_balance_env ''abc'' 2 demo_balance = Ok r" "rd_Quota r = 50"
    by (simp add: redeem_read_def demo_balance_def gm_get_def)
  show ?thesis using redeem_race [OF demo_codes r(1,2)] r(1,3) by auto
qed

text \<open>
  Exchanges are paid once: in any order of the transactions of any requests, whatever their tests were told, references stay distinct
  and what an account gains is the sum of its recorded exchanges.
\<close>

lemma exchange_once:
  assumes "distinct (map ex_ReferenceId (bd_exchanges db))"
  shows "distinct (map ex_ReferenceId (bd_exchanges (exchange_all reqs db))) \<and>
    user_quota (bd_ledger (exchange_all reqs db)) j = map_option (\<lambda>v. v + (exchanged j (exchange_all reqs db) - exchanged j db)) (user_quota (bd_ledger db) j)"
  using assms
proof (induction reqs arbitrary: db)
  case Nil
  then show ?case by (cases "user_quota (bd_ledger db) j") (auto simp: exchange_all_def)
next
  case (Cons q reqs)
  obtain env req where q: "q = (env, req)" by (cases q)
  obtain a db1 where d: "exchange_commit env req db = (a, db1)" by fastforce
  have e: "exchange_all (q # reqs) db = exchange_all reqs db1" by (simp add: exchange_all_def q d)
  show ?case using Cons.IH [of db1] exchange_step [OF d Cons.prems, of j] unfolding e by (cases "user_quota (bd_ledger db) j") auto
qed

theorem exchange_once_witness:
  "user_quota (bd_ledger (exchange_all [(demo_balance_env, \<lparr>xq_UserId = 1, xq_LucAmount = 2, xq_VIPLevel = 0, xq_ReferenceId = ''r1''\<rparr>),
      (demo_balance_env, \<lparr>xq_UserId = 1, xq_LucAmount = 2, xq_VIPLevel = 0, xq_ReferenceId = ''r1''\<rparr>)] demo_balance)) 1 = Some 1001000"
proof -
  let ?r = "\<lparr>xq_UserId = 1, xq_LucAmount = 2, xq_VIPLevel = 0, xq_ReferenceId = ''r1''\<rparr>"
  have "exchanged 1 demo_balance = 0" by (simp add: exchanged_def demo_balance_def)
  moreover have "exchanged 1 (exchange_all [(demo_balance_env, ?r), (demo_balance_env, ?r)] demo_balance) = 1000000"
    by (simp add: exchange_all_def exchange_commit_def CalculateExchange_def LucToLutAmount_def VIPBonusRate_def exchanged_def demo_balance_def
        increaseUserQuota_def RecordLog_def Let_def)
  ultimately show ?thesis using exchange_once [of demo_balance "[(demo_balance_env, ?r), (demo_balance_env, ?r)]" 1] by (simp add: demo_balance_def [THEN arg_cong [where f = bd_exchanges]])
qed

end
