(* ===== verification/User_Identity.thy ===== *)
theory User_Identity
  imports Balance_Ops
begin

text \<open>
  Who a request belongs to: the plugin that scopes statements to a tenant (\<^verbatim>\<open>internal/adapter/repo/tenant_plugin.go\<close>),
  tenants (\<^verbatim>\<open>repo/tenant.go\<close>), identities of the login service and their accounts (\<^verbatim>\<open>repo/user_mapping.go\<close>), the
  middleware that signs them in (\<^verbatim>\<open>adapter/middleware/zitadel_auth.go\<close>) with its cache of public keys, and the
  accounts made by other services (\<^verbatim>\<open>adapter/handler/internal_api_ext.go\<close>). Verification of a token with a
  given key belongs to a third-party package and is an argument, as are the answers of the service that publishes the
  keys and the outcomes of database statements.
\<close>

section \<open>Statements of a tenant\<close>

text \<open>What the plugin reads of a statement's context; a tenant that is not set is the empty text.\<close>

record tenant_ctx =
  tc_skip :: bool
  tc_tenant :: string

definition no_tenant :: tenant_ctx where "no_tenant = \<lparr>tc_skip = False, tc_tenant = []\<rparr>"

definition WithTenantID :: "tenant_ctx \<Rightarrow> string \<Rightarrow> tenant_ctx" where
  "WithTenantID c t = c\<lparr>tc_tenant := t\<rparr>"

definition WithoutTenantIsolation :: "tenant_ctx \<Rightarrow> tenant_ctx" where
  "WithoutTenantIsolation c = c\<lparr>tc_skip := True\<rparr>"

definition hasTenantIDColumn :: "string \<Rightarrow> bool" where
  "hasTenantIDColumn table \<longleftrightarrow> table \<in> {''users'', ''tokens'', ''channels'', ''topups'', ''subscriptions'', ''redemptions'', ''passkeys'', ''twofa''}"

text \<open>The tenant a query is restricted to, if any; updates and deletions are restricted alike.\<close>

definition beforeQuery :: "tenant_ctx \<Rightarrow> string \<Rightarrow> string option" where
  "beforeQuery c table =
     (if tc_skip c then None
      else if tc_tenant c = [] then None
      else if \<not> hasTenantIDColumn table then None
      else Some (tc_tenant c))"



text \<open>The tenant of a new row; \<open>None\<close> refuses the statement.\<close>

definition beforeCreate :: "tenant_ctx \<Rightarrow> string \<Rightarrow> string \<Rightarrow> string option" where
  "beforeCreate c table row_tenant =
     (if tc_skip c then Some row_tenant
      else if \<not> hasTenantIDColumn table then Some row_tenant
      else if tc_tenant c = [] then None
      else Some (tc_tenant c))"




definition in_scope :: "string option \<Rightarrow> string \<times> 'a \<Rightarrow> bool" where
  "in_scope sc r = (case sc of None \<Rightarrow> True | Some t \<Rightarrow> fst r = t)"








section \<open>Tenants, accounts and identities\<close>

record tenant =
  tn_Id :: string
  tn_ZitadelOrgID :: string
  tn_Slug :: string
  tn_Name :: string
  tn_Status :: int
  tn_PlanType :: string
  tn_MaxUsers :: int
  tn_MaxQuota :: int
  tn_CreatedAt :: int

definition TenantStatusEnabled :: int where "TenantStatusEnabled = 1"
definition TenantStatusDisabled :: int where "TenantStatusDisabled = 2"
definition TenantStatusSuspended :: int where "TenantStatusSuspended = 3"

definition IsEnabled :: "tenant \<Rightarrow> bool" where
  "IsEnabled t \<longleftrightarrow> tn_Status t = TenantStatusEnabled"

record id_map =
  im_Id :: int
  im_LurusUserID :: int
  im_ZitadelUserID :: string
  im_TenantID :: string
  im_Email :: string
  im_DisplayName :: string
  im_PreferredUsername :: string
  im_IsActive :: bool

record claims =
  cl_Sub :: string
  cl_Email :: string
  cl_EmailVerified :: bool
  cl_Name :: string
  cl_PreferredUsername :: string
  cl_OrgID :: string
  cl_OrgDomain :: string
  cl_ResourceOwnerName :: string
  cl_Issuer :: string
  cl_Roles :: "string list"

text \<open>Accounts and tokens are the rows of the ledger. Deleted accounts and tenants keep what their unique columns hold.\<close>

record id_db =
  ib_bal :: balance_db
  ib_tenants :: "(string, tenant) gomap"
  ib_maps :: "(int, id_map) gomap"
  ib_gone :: "user list"
  ib_gone_tenants :: "tenant list"

abbreviation ib_users :: "id_db \<Rightarrow> (int, user) gomap" where
  "ib_users db \<equiv> lg_users (bd_ledger (ib_bal db))"

abbreviation ib_tokens :: "id_db \<Rightarrow> (int, token) gomap" where
  "ib_tokens db \<equiv> lg_tokens (bd_ledger (ib_bal db))"

definition set_users :: "(int, user) gomap \<Rightarrow> id_db \<Rightarrow> id_db" where
  "set_users us db = db\<lparr>ib_bal := (ib_bal db)\<lparr>bd_ledger := (bd_ledger (ib_bal db))\<lparr>lg_users := us\<rparr>\<rparr>\<rparr>"

definition set_tokens :: "(int, token) gomap \<Rightarrow> id_db \<Rightarrow> id_db" where
  "set_tokens ts db = db\<lparr>ib_bal := (ib_bal db)\<lparr>bd_ledger := (bd_ledger (ib_bal db))\<lparr>lg_tokens := ts\<rparr>\<rparr>\<rparr>"

record id_env =
  ie_bal :: balance_env                 \<comment> \<open>outcomes of reading accounts\<close>
  ie_now :: int
  ie_stamp :: string                    \<comment> \<open>the time as 14 digits\<close>
  ie_tenant_ok :: bool                  \<comment> \<open>outcomes of the other statements\<close>
  ie_map_read :: bool
  ie_user_read :: bool
  ie_count_ok :: bool
  ie_create_ok :: bool
  ie_map_ok :: bool
  ie_update_ok :: bool
  ie_begin_ok :: bool
  ie_commit_ok :: bool
  ie_user_id :: int                     \<comment> \<open>the numbers the database gives to new rows\<close>
  ie_map_id :: int
  ie_token_id :: int
  ie_new_key :: "string option"
  ie_config :: "string \<Rightarrow> string \<Rightarrow> string option"   \<comment> \<open>configuration of a tenant\<close>
  ie_auto_tenant :: bool
  ie_auto_user :: bool

subsection \<open>Tenants\<close>

definition GetTenantByID :: "id_env \<Rightarrow> string \<Rightarrow> id_db \<Rightarrow> tenant option" where
  "GetTenantByID env i db = (if ie_tenant_ok env then gm_get (ib_tenants db) i else None)"

definition GetTenantBySlug :: "id_env \<Rightarrow> string \<Rightarrow> id_db \<Rightarrow> tenant option" where
  "GetTenantBySlug env slug db = (if ie_tenant_ok env then find (\<lambda>t. tn_Slug t = slug) (map snd (ib_tenants db)) else None)"

definition GetTenantByZitadelOrgID :: "id_env \<Rightarrow> string \<Rightarrow> id_db \<Rightarrow> tenant option" where
  "GetTenantByZitadelOrgID env org db = (if ie_tenant_ok env then find (\<lambda>t. tn_ZitadelOrgID t = org) (map snd (ib_tenants db)) else None)"

definition GenerateID :: "id_env \<Rightarrow> string" where
  "GenerateID env = ''tenant-'' @ ie_stamp env"

text \<open>Number, organisation and slug are unique.\<close>

definition CreateTenantFromZitadel :: "id_env \<Rightarrow> string \<Rightarrow> string \<Rightarrow> string \<Rightarrow> id_db \<Rightarrow> tenant option \<times> id_db" where
  "CreateTenantFromZitadel env org slug name db =
     (case GetTenantByZitadelOrgID env org db of
        Some t \<Rightarrow> (Some t, db)
      | None \<Rightarrow>
          (let t = \<lparr>tn_Id = GenerateID env, tn_ZitadelOrgID = org, tn_Slug = slug, tn_Name = name, tn_Status = TenantStatusEnabled,
                     tn_PlanType = ''free'', tn_MaxUsers = 100, tn_MaxQuota = 1000000, tn_CreatedAt = ie_now env\<rparr>
           in if \<not> ie_create_ok env \<or>
                 (\<exists>x \<in> set (map snd (ib_tenants db) @ ib_gone_tenants db). tn_Id x = tn_Id t \<or> tn_ZitadelOrgID x = org \<or> tn_Slug x = slug)
              then (None, db)
              else (Some t, db\<lparr>ib_tenants := gm_put (ib_tenants db) (tn_Id t) t\<rparr>)))"

definition UpdateTenant :: "bool \<Rightarrow> string \<Rightarrow> (tenant \<Rightarrow> tenant) \<Rightarrow> id_db \<Rightarrow> id_db" where
  "UpdateTenant ok i f db = (if ok then db\<lparr>ib_tenants := gm.modify (ib_tenants db) i f\<rparr> else db)"

definition DisableTenant :: "bool \<Rightarrow> string \<Rightarrow> id_db \<Rightarrow> id_db" where
  "DisableTenant ok i = UpdateTenant ok i (\<lambda>t. t\<lparr>tn_Status := TenantStatusDisabled\<rparr>)"

definition EnableTenant :: "bool \<Rightarrow> string \<Rightarrow> id_db \<Rightarrow> id_db" where
  "EnableTenant ok i = UpdateTenant ok i (\<lambda>t. t\<lparr>tn_Status := TenantStatusEnabled\<rparr>)"

definition SuspendTenant :: "bool \<Rightarrow> string \<Rightarrow> id_db \<Rightarrow> id_db" where
  "SuspendTenant ok i = UpdateTenant ok i (\<lambda>t. t\<lparr>tn_Status := TenantStatusSuspended\<rparr>)"

definition DeleteTenant :: "bool \<Rightarrow> string \<Rightarrow> id_db \<Rightarrow> id_db" where
  "DeleteTenant ok i db =
     (case gm_get (ib_tenants db) i of
        None \<Rightarrow> db
      | Some t \<Rightarrow> if ok then db\<lparr>ib_tenants := gm_del (ib_tenants db) i, ib_gone_tenants := t # ib_gone_tenants db\<rparr> else db)"

definition GetTenantUserCount :: "id_env \<Rightarrow> string \<Rightarrow> id_db \<Rightarrow> nat option" where
  "GetTenantUserCount env i db =
     (if ie_count_ok env then Some (length (filter (\<lambda>m. im_TenantID m = i) (map snd (ib_maps db)))) else None)"

definition TenantCanAddUser :: "id_env \<Rightarrow> tenant \<Rightarrow> id_db \<Rightarrow> bool option" where
  "TenantCanAddUser env t db = map_option (\<lambda>n. int n < tn_MaxUsers t) (GetTenantUserCount env (tn_Id t) db)"

definition GetTenantConfigInt :: "id_env \<Rightarrow> string \<Rightarrow> string \<Rightarrow> int \<Rightarrow> int" where
  "GetTenantConfigInt env i key d =
     (case ie_config env i key of None \<Rightarrow> d | Some v \<Rightarrow> (case go_parse_int v of None \<Rightarrow> d | Some n \<Rightarrow> n))"

subsection \<open>Identities\<close>

text \<open>\<^verbatim>\<open>First\<close> takes the row with the least number.\<close>

definition GetUserMappingByZitadelID :: "id_env \<Rightarrow> string \<Rightarrow> string \<Rightarrow> id_db \<Rightarrow> id_map option" where
  "GetUserMappingByZitadelID env sub tenant db =
     (case (if ie_map_read env
            then sort_key im_Id (filter (\<lambda>m. im_ZitadelUserID m = sub \<and> im_TenantID m = tenant \<and> im_IsActive m) (map snd (ib_maps db))) else []) of
        [] \<Rightarrow> None | m # _ \<Rightarrow> Some m)"

definition CreateUserMapping ::
    "id_env \<Rightarrow> int \<Rightarrow> string \<Rightarrow> string \<Rightarrow> string \<Rightarrow> string \<Rightarrow> string \<Rightarrow> id_db \<Rightarrow> id_map option \<times> id_db" where
  "CreateUserMapping env userId sub tenant email name preferred db =
     (case GetUserMappingByZitadelID env sub tenant db of
        Some m \<Rightarrow>
          (let m1 = m\<lparr>im_Email := email, im_DisplayName := name, im_PreferredUsername := preferred\<rparr>
           in (if ie_map_ok env then (Some m1, db\<lparr>ib_maps := gm_put (ib_maps db) (im_Id m) m1\<rparr>) else (None, db)))
      | None \<Rightarrow>
          (let m = \<lparr>im_Id = ie_map_id env, im_LurusUserID = userId, im_ZitadelUserID = sub, im_TenantID = tenant, im_Email = email,
                     im_DisplayName = name, im_PreferredUsername = preferred, im_IsActive = True\<rparr>
           in (if ie_map_ok env then (Some m, db\<lparr>ib_maps := gm_put (ib_maps db) (im_Id m) m\<rparr>) else (None, db))))"

definition UpdateUserMapping :: "bool \<Rightarrow> int \<Rightarrow> (id_map \<Rightarrow> id_map) \<Rightarrow> id_db \<Rightarrow> id_db" where
  "UpdateUserMapping ok i f db = (if ok then db\<lparr>ib_maps := gm.modify (ib_maps db) i f\<rparr> else db)"

definition DeactivateUserMapping :: "bool \<Rightarrow> int \<Rightarrow> id_db \<Rightarrow> id_db" where
  "DeactivateUserMapping ok i = UpdateUserMapping ok i (\<lambda>m. m\<lparr>im_IsActive := False\<rparr>)"

definition SyncUserDataFromZitadel :: "bool \<Rightarrow> int \<Rightarrow> string \<Rightarrow> string \<Rightarrow> string \<Rightarrow> id_db \<Rightarrow> id_db" where
  "SyncUserDataFromZitadel ok i email name preferred =
     UpdateUserMapping ok i (\<lambda>m. m\<lparr>im_Email := email, im_DisplayName := name, im_PreferredUsername := preferred\<rparr>)"

definition GetUserByZitadelID :: "id_env \<Rightarrow> string \<Rightarrow> string \<Rightarrow> id_db \<Rightarrow> (user \<times> id_map) option" where
  "GetUserByZitadelID env sub tenant db =
     (case GetUserMappingByZitadelID env sub tenant db of
        None \<Rightarrow> None
      | Some m \<Rightarrow> map_option (\<lambda>u. (u, m)) (GetUserById (ie_bal env) (im_LurusUserID m) (ib_bal db)))"

subsection \<open>Free user names\<close>

text \<open>Numbered candidates, tried from a number on; those that are taken are among the names of a finite table.\<close>

lemma nat_digits_inj: "nat_digits m = nat_digits n \<longleftrightarrow> m = n"
  by (metis digits_val_nat_digits of_nat_eq_iff)

lemma free_measure:
  assumes "\<And>i j x. cand i = Some x \<Longrightarrow> cand j = Some x \<Longrightarrow> i = j" "cand k = Some x" "x \<in> set names"
  shows "card {j. Suc k \<le> j \<and> (\<exists>x \<in> set names. cand j = Some x)} < card {j. k \<le> j \<and> (\<exists>x \<in> set names. cand j = Some x)}"
proof (rule psubset_card_mono)
  have "inj_on (\<lambda>j. the (cand j)) {j. \<exists>x \<in> set names. cand j = Some x}"
    using assms(1) by (auto simp: inj_on_def)
  moreover have "(\<lambda>j. the (cand j)) ` {j. \<exists>x \<in> set names. cand j = Some x} \<subseteq> set names" by auto
  ultimately have "finite {j. \<exists>x \<in> set names. cand j = Some x}" using finite_imageD finite_subset by blast
  then show "finite {j. k \<le> j \<and> (\<exists>x \<in> set names. cand j = Some x)}" by (rule rev_finite_subset) auto
  show "{j. Suc k \<le> j \<and> (\<exists>x \<in> set names. cand j = Some x)} \<subset> {j. k \<le> j \<and> (\<exists>x \<in> set names. cand j = Some x)}"
  proof
    show "{j. Suc k \<le> j \<and> (\<exists>x \<in> set names. cand j = Some x)} \<subseteq> {j. k \<le> j \<and> (\<exists>x \<in> set names. cand j = Some x)}" by auto
    have "k \<in> {j. k \<le> j \<and> (\<exists>x \<in> set names. cand j = Some x)}" using assms(2,3) by auto
    moreover have "k \<notin> {j. Suc k \<le> j \<and> (\<exists>x \<in> set names. cand j = Some x)}" by simp
    ultimately show "{j. Suc k \<le> j \<and> (\<exists>x \<in> set names. cand j = Some x)} \<noteq> {j. k \<le> j \<and> (\<exists>x \<in> set names. cand j = Some x)}" by metis
  qed
qed

definition suffixed :: "string \<Rightarrow> nat \<Rightarrow> string" where
  "suffixed base k = base @ ''_'' @ nat_digits k"

lemma suffixed_inj: "suffixed base i = suffixed base j \<longleftrightarrow> i = j"
  by (simp add: suffixed_def nat_digits_inj)

function free_name :: "string list \<Rightarrow> string \<Rightarrow> nat \<Rightarrow> string" where
  "free_name names base k = (if suffixed base k \<in> set names then free_name names base (Suc k) else suffixed base k)"
  by pat_completeness auto
termination
  by (relation "measure (\<lambda>(names, base, k). card {j. k \<le> j \<and> (\<exists>x \<in> set names. Some (suffixed base j) = Some x)})")
     (auto intro: free_measure simp: suffixed_inj simp del: Suc_le_eq option.inject)

declare free_name.simps [simp del]

text \<open>The names of the tenant's accounts; a count that fails is 0.\<close>

definition tenant_names :: "string \<Rightarrow> id_db \<Rightarrow> string list" where
  "tenant_names tenant db = map us_Username (filter (\<lambda>u. in_scope (beforeQuery (WithTenantID no_tenant tenant) ''users'') (us_TenantId u, u)) (map snd (ib_users db)))"

definition ensureUniqueUsername :: "id_env \<Rightarrow> string \<Rightarrow> string \<Rightarrow> id_db \<Rightarrow> string" where
  "ensureUniqueUsername env base tenant db =
     (if \<not> ie_count_ok env \<or> base \<notin> set (tenant_names tenant db) then base else free_name (tenant_names tenant db) base 2)"

subsection \<open>Accounts\<close>

text \<open>
  A statement that creates an account: the plugin, and the column of names, which is unique over all tenants and over
  deleted accounts.
\<close>

definition create_user :: "tenant_ctx \<Rightarrow> bool \<Rightarrow> int \<Rightarrow> user \<Rightarrow> id_db \<Rightarrow> user option \<times> id_db" where
  "create_user c ok i u db =
     (case beforeCreate c ''users'' (us_TenantId u) of
        None \<Rightarrow> (None, db)
      | Some t \<Rightarrow>
          if \<not> ok \<or> (\<exists>x \<in> set (map snd (ib_users db) @ ib_gone db). us_Username x = us_Username u) then (None, db)
          else (let u1 = u\<lparr>us_Id := i, us_TenantId := t\<rparr> in (Some u1, set_users (gm_put (ib_users db) i u1) db)))"

definition delete_user :: "bool \<Rightarrow> int \<Rightarrow> id_db \<Rightarrow> bool \<times> id_db" where
  "delete_user ok i db =
     (if \<not> ok then (False, db)
      else (case gm_get (ib_users db) i of
              None \<Rightarrow> (True, db)
            | Some u \<Rightarrow> (True, (set_users (gm_del (ib_users db) i) db)\<lparr>ib_gone := u # ib_gone db\<rparr>)))"

definition new_user :: "string \<Rightarrow> string \<Rightarrow> string \<Rightarrow> string \<Rightarrow> int \<Rightarrow> string \<Rightarrow> user" where
  "new_user name email display grp quota tenant = \<lparr>us_Id = 0, us_TenantId = tenant, us_Username = name, us_DisplayName = display,
     us_Role = RoleCommonUser, us_Status = UserStatusEnabled, us_Email = email, us_AccessToken = None, us_Quota = quota, us_UsedQuota = 0,
     us_RequestCount = 0, us_Group = grp, us_DailyQuota = 0, us_DailyUsed = 0, us_LastDailyReset = 0, us_BaseGroup = [],
     us_FallbackGroup = [], us_Setting = [], us_Remark = []\<rparr>"

text \<open>The account with the highest role among all enabled ones with an address, in any tenant.\<close>

definition email_match :: "id_env \<Rightarrow> string \<Rightarrow> id_db \<Rightarrow> user option" where
  "email_match env email db =
     (case (if ie_user_read env
            then sort_key (\<lambda>u. - us_Role u) (sort_key us_Id (filter (\<lambda>u. us_Email u = email \<and> us_Status u = UserStatusEnabled) (map snd (ib_users db)))) else []) of
        [] \<Rightarrow> None | u # _ \<Rightarrow> Some u)"

definition CreateUserFromZitadelClaims :: "id_env \<Rightarrow> claims \<Rightarrow> string \<Rightarrow> id_db \<Rightarrow> user res \<times> id_db" where
  "CreateUserFromZitadelClaims env cl tenant db =
     (case GetUserMappingByZitadelID env (cl_Sub cl) tenant db of
        Some m \<Rightarrow> (case GetUserById (ie_bal env) (im_LurusUserID m) (ib_bal db) of None \<Rightarrow> (Err ''user not found'', db) | Some u \<Rightarrow> (Ok u, db))
      | None \<Rightarrow>
          (case (if cl_Email cl \<noteq> [] then email_match env (cl_Email cl) db else None) of
             Some u \<Rightarrow>
               (case CreateUserMapping env (us_Id u) (cl_Sub cl) tenant (cl_Email cl) (cl_Name cl) (cl_PreferredUsername cl) db of
                  (None, db1) \<Rightarrow> (Err ''failed to create mapping'', db1)
                | (Some m, db1) \<Rightarrow>
                    if us_DisplayName u = [] \<and> cl_Name cl \<noteq> []
                    then (Ok (u\<lparr>us_DisplayName := cl_Name cl\<rparr>),
                      if ie_update_ok env then set_users (gm.modify (ib_users db1) (us_Id u) (\<lambda>x. x\<lparr>us_DisplayName := cl_Name cl\<rparr>)) db1 else db1)
                    else (Ok u, db1))
           | None \<Rightarrow>
               (case GetTenantByID env tenant db of
                  None \<Rightarrow> (Err ''tenant not found'', db)
                | Some tn \<Rightarrow>
                    (case TenantCanAddUser env tn db of
                       None \<Rightarrow> (Err ''count failed'', db)
                     | Some False \<Rightarrow> (Err ''tenant is full'', db)
                     | Some True \<Rightarrow>
                         (let name = ensureUniqueUsername env (if cl_PreferredUsername cl = [] then cl_Email cl else cl_PreferredUsername cl) tenant db;
                              quota = GetTenantConfigInt env tenant ''quota.new_user_quota'' 10000
                          in case create_user (WithTenantID no_tenant tenant) (ie_create_ok env) (ie_user_id env)
                               (new_user name (cl_Email cl) (cl_Name cl) ''default'' quota []) db of
                               (None, db1) \<Rightarrow> (Err ''failed to create user'', db1)
                             | (Some u, db1) \<Rightarrow>
                                 (case CreateUserMapping env (us_Id u) (cl_Sub cl) tenant (cl_Email cl) (cl_Name cl) (cl_PreferredUsername cl) db1 of
                                    (None, db2) \<Rightarrow> (Err ''failed to create mapping'', snd (delete_user (ie_update_ok env) (us_Id u) db2))
                                  | (Some m, db2) \<Rightarrow> (Ok u, db2)))))))"

section \<open>Signing in\<close>

definition mapZitadelUserToLurus :: "id_env \<Rightarrow> claims \<Rightarrow> id_db \<Rightarrow> (string \<times> int) res \<times> id_db" where
  "mapZitadelUserToLurus env cl db =
     (case (case GetTenantByZitadelOrgID env (cl_OrgID cl) db of
              Some t \<Rightarrow> (Some t, db)
            | None \<Rightarrow> if ie_auto_tenant env then CreateTenantFromZitadel env (cl_OrgID cl) (cl_OrgDomain cl) (cl_ResourceOwnerName cl) db
                else (None, db)) of
        (None, db1) \<Rightarrow> (Err ''no tenant'', db1)
      | (Some t, db1) \<Rightarrow>
          if \<not> IsEnabled t then (Err ''tenant is disabled or suspended'', db1)
          else (case GetUserMappingByZitadelID env (cl_Sub cl) (tn_Id t) db1 of
                  None \<Rightarrow>
                    if ie_auto_user env then
                      (case CreateUserFromZitadelClaims env cl (tn_Id t) db1 of
                         (Ok u, db2) \<Rightarrow> (Ok (tn_Id t, us_Id u), db2)
                       | (Err e, db2) \<Rightarrow> (Err ''failed to create user'', db2)
                       | (Panic, db2) \<Rightarrow> (Panic, db2))
                    else (Err ''no mapping'', db1)
                | Some m \<Rightarrow>
                    (Ok (tn_Id t, im_LurusUserID m),
                     SyncUserDataFromZitadel (ie_update_ok env) (im_Id m) (cl_Email cl) (cl_Name cl) (cl_PreferredUsername cl) db1)))"

subsection \<open>The public keys\<close>

text \<open>
  The cache of keys: the keys, the time of the last fetch that succeeded, and whether a fetch is going on. A fetch answers
  the published keys, each with its type and, if it decodes, its value; \<open>None\<close> is any failure before that.
\<close>

record 'k jwks =
  jk_publicKeys :: "(string, 'k) gomap"
  jk_lastUpdate :: "int option"
  jk_refreshing :: bool

type_synonym 'k fetched = "(string \<times> string \<times> 'k option) list option"

definition minRefreshInterval :: int where "minRefreshInterval = 30"

definition refreshKeys :: "int \<Rightarrow> 'k fetched \<Rightarrow> 'k jwks \<Rightarrow> bool \<times> 'k jwks" where
  "refreshKeys now answer m =
     (case answer of
        None \<Rightarrow> (False, m)
      | Some ks \<Rightarrow>
          (let keys = fold (\<lambda>(kid, kty, k) acc. if kty \<noteq> ''RSA'' then acc else (case k of None \<Rightarrow> acc | Some v \<Rightarrow> gm_put acc kid v)) ks []
           in if keys = [] then (False, m) else (True, m\<lparr>jk_publicKeys := keys, jk_lastUpdate := Some now\<rparr>)))"

definition getKey :: "string \<Rightarrow> 'k jwks \<Rightarrow> 'k option" where
  "getKey kid m = gm_get (jk_publicKeys m) kid"

text \<open>Whether a fetch took place or is taking place, whether it failed, and whether this call made one.\<close>

definition tryRefreshKeys :: "int \<Rightarrow> 'k fetched \<Rightarrow> 'k jwks \<Rightarrow> bool \<times> bool \<times> bool \<times> 'k jwks" where
  "tryRefreshKeys now answer m =
     (if jk_refreshing m then (True, False, False, m)
      else if (case jk_lastUpdate m of None \<Rightarrow> False | Some t \<Rightarrow> now - t < minRefreshInterval) then (False, False, False, m)
      else (let (ok, m1) = refreshKeys now answer m in (True, \<not> ok, True, m1)))"

definition getKeyWithRefresh :: "int \<Rightarrow> 'k fetched \<Rightarrow> string \<Rightarrow> 'k jwks \<Rightarrow> 'k option \<times> bool \<times> 'k jwks" where
  "getKeyWithRefresh now answer kid m =
     (case getKey kid m of
        Some k \<Rightarrow> (Some k, False, m)
      | None \<Rightarrow>
          (let (refreshed, failed, fetch, m1) = tryRefreshKeys now answer m
           in if failed then (None, fetch, m1)
              else if \<not> refreshed then (None, fetch, m1)
              else (getKey kid m1, fetch, m1)))"

subsection \<open>The middleware\<close>

text \<open>
  A token as the third-party package reads it: whether it is signed with RSA, the number of its key, and its claims if the signature
  verifies with a key and its times are right.
\<close>

record 'k zitadel_env =
  ze_enabled :: bool
  ze_issuer :: string
  ze_method_rsa :: "string \<Rightarrow> bool"
  ze_kid :: "string \<Rightarrow> string option"
  ze_verify :: "string \<Rightarrow> 'k \<Rightarrow> claims option"
  ze_fetch :: "'k fetched"
  ze_id :: id_env
  ze_account :: "string \<Rightarrow> int option"     \<comment> \<open>account of the platform, by subject\<close>

text \<open>Members of a session have dynamic types; \<open>zs_expires\<close> is the expiry if it is an int64.\<close>

record zitadel_session =
  zs_id :: "int option"
  zs_token :: "string option"
  zs_expires :: "int option"

record zitadel_request =
  zq_authorization :: string
  zq_session :: "zitadel_session option"   \<comment> \<open>\<open>None\<close> without a session store\<close>
  zq_tenant_slug :: string

record tenant_context =
  tx_TenantID :: string
  tx_UserID :: int
  tx_ZitadelUserID :: string
  tx_Email :: string
  tx_Username :: string
  tx_Roles :: "string list"

text \<open>What the middleware leaves in the request's context; \<open>zc_id\<close> is the member \<^verbatim>\<open>id\<close> that older handlers read.\<close>

record zitadel_ctx =
  zc_tenant_context :: tenant_context
  zc_id :: "int option"
  zc_identity_account_id :: "int option"

definition session_context :: "id_env \<Rightarrow> string \<Rightarrow> user \<Rightarrow> id_db \<Rightarrow> zitadel_ctx" where
  "session_context env slug u db =
     \<lparr>zc_tenant_context = \<lparr>tx_TenantID = (case GetTenantBySlug env slug db of None \<Rightarrow> ''default'' | Some t \<Rightarrow> tn_Id t), tx_UserID = us_Id u,
        tx_ZitadelUserID = [], tx_Email = us_Email u, tx_Username = us_Username u, tx_Roles = []\<rparr>,
      zc_id = Some (us_Id u), zc_identity_account_id = None\<rparr>"

definition handleSessionFallback :: "id_env \<Rightarrow> zitadel_request \<Rightarrow> id_db \<Rightarrow> zitadel_ctx option" where
  "handleSessionFallback env req db =
     (case zq_session req of
        None \<Rightarrow> None
      | Some s \<Rightarrow>
          (case zs_id s of
             None \<Rightarrow> None
           | Some i \<Rightarrow>
               if i = 0 then None
               else if (case zs_token s of None \<Rightarrow> False | Some t \<Rightarrow> t \<noteq> []) \<and> ie_now env < (case zs_expires s of None \<Rightarrow> 0 | Some e \<Rightarrow> e)
               then map_option (\<lambda>u. session_context env (zq_tenant_slug req) u db) (GetUserById (ie_bal env) i (ib_bal db))
               else if 0 < i
               then map_option (\<lambda>u. session_context env (zq_tenant_slug req) u db) (GetUserById (ie_bal env) i (ib_bal db))
               else None))"

definition bearer_token :: "string \<Rightarrow> string" where
  "bearer_token auth =
     (let s = go_trim_prefix ''bearer '' (go_trim_prefix ''Bearer '' auth) in if auth = [] \<or> s = auth then [] else s)"

datatype zitadel_answer = ZaAbort int string | ZaNext zitadel_ctx

definition ZitadelAuth :: "'k zitadel_env \<Rightarrow> zitadel_request \<Rightarrow> 'k jwks \<times> id_db \<Rightarrow> zitadel_answer \<times> 'k jwks \<times> id_db" where
  "ZitadelAuth ze req st =
     (if \<not> ze_enabled ze then (ZaAbort 503 ''not enabled'', st)
      else (let tok = bearer_token (zq_authorization req) in
        if tok = [] then
          (case handleSessionFallback (ze_id ze) req (snd st) of
             Some c \<Rightarrow> (ZaNext c, st) | None \<Rightarrow> (ZaAbort 401 ''authentication required'', st))
        else
          (let (key, m) = (if \<not> ze_method_rsa ze tok then (None, fst st)
                 else (case ze_kid ze tok of
                         None \<Rightarrow> (None, fst st)
                       | Some kid \<Rightarrow> (let (k, fetch, m1) = getKeyWithRefresh (ie_now (ze_id ze)) (ze_fetch ze) kid (fst st) in (k, m1))))
           in case (case key of None \<Rightarrow> None | Some k \<Rightarrow> ze_verify ze tok k) of
                None \<Rightarrow> (ZaAbort 401 ''invalid token'', m, snd st)
              | Some cl \<Rightarrow>
                  if cl_Issuer cl \<noteq> ze_issuer ze then (ZaAbort 401 ''invalid issuer'', m, snd st)
                  else (case mapZitadelUserToLurus (ze_id ze) cl (snd st) of
                          (Ok (t, i), db) \<Rightarrow>
                            (ZaNext \<lparr>zc_tenant_context = \<lparr>tx_TenantID = t, tx_UserID = i, tx_ZitadelUserID = cl_Sub cl, tx_Email = cl_Email cl,
                               tx_Username = cl_PreferredUsername cl, tx_Roles = cl_Roles cl\<rparr>,
                               zc_id = None, zc_identity_account_id = ze_account ze (cl_Sub cl)\<rparr>, m, db)
                        | (_, db) \<Rightarrow> (ZaAbort 500 ''user identity mapping failed'', m, db)))))"

definition RequireRole :: "string \<Rightarrow> tenant_context option \<Rightarrow> int option" where
  "RequireRole role c = (case c of None \<Rightarrow> Some 401 | Some x \<Rightarrow> if role \<in> set (tx_Roles x) then None else Some 403)"

definition RequireAnyRole :: "string list \<Rightarrow> tenant_context option \<Rightarrow> int option" where
  "RequireAnyRole roles c =
     (case c of None \<Rightarrow> Some 401 | Some x \<Rightarrow> if list_ex (\<lambda>r. r \<in> set roles) (tx_Roles x) then None else Some 403)"

section \<open>Accounts made by other services\<close>

text \<open>A user name made of a subject: its first 20 bytes, with an underscore for each character that is no letter or digit.\<close>

definition name_char :: "char \<Rightarrow> bool" where
  "name_char c \<longleftrightarrow> (let b = (of_char c :: nat) in 97 \<le> b \<and> b \<le> 122 \<or> 65 \<le> b \<and> b \<le> 90 \<or> 48 \<le> b \<and> b \<le> 57 \<or> b = 95)"

text \<open>How many bytes the first character of a text takes in UTF-8; a byte that starts none is taken alone.\<close>

fun bytes_within :: "(nat \<times> nat) list \<Rightarrow> string \<Rightarrow> bool" where
  "bytes_within [] s = True"
| "bytes_within (b # bs) [] = False"
| "bytes_within (b # bs) (c # s) = (fst b \<le> of_char c \<and> of_char c \<le> snd b \<and> bytes_within bs s)"

definition rune_width :: "char \<Rightarrow> string \<Rightarrow> nat" where
  "rune_width c s =
     (let b = (of_char c :: nat)
      in if 194 \<le> b \<and> b \<le> 223 \<and> bytes_within [(128, 191)] s then 2
         else if 224 \<le> b \<and> b \<le> 239 \<and> bytes_within [(if b = 224 then 160 else 128, if b = 237 then 159 else 191), (128, 191)] s then 3
         else if 240 \<le> b \<and> b \<le> 244 \<and> bytes_within [(if b = 240 then 144 else 128, if b = 244 then 143 else 191), (128, 191), (128, 191)] s then 4
         else 1)"

fun sanitize :: "string \<Rightarrow> string" where
  "sanitize [] = []"
| "sanitize (c # s) = (if name_char c then c else CHR ''_'') # sanitize (drop (rune_width c s - 1) s)"

definition provision_base :: "string \<Rightarrow> string" where
  "provision_base sub = (let s = sanitize (take 20 (''u_'' @ sub)) in if s = [] then ''u_provisioned'' else s)"

text \<open>
  Numbered names of at most 20 bytes; \<open>None\<close> where the slice has a negative bound.
\<close>

definition provision_candidate :: "string \<Rightarrow> nat \<Rightarrow> string option" where
  "provision_candidate base k =
     (let s = ''_'' @ nat_digits k
      in if length (base @ s) \<le> 20 then Some (base @ s)
         else if 20 < length s then None
         else Some (take (20 - length s) base @ s))"

lemma digit_suffix:
  assumes "a @ ''_'' @ nat_digits i = b @ ''_'' @ nat_digits j"
  shows "i = j"
proof -
  have no: "CHR ''_'' \<notin> set (nat_digits k)" for k
    using nat_digits_all [of k] by (auto simp: list_all_iff is_digit_def)
  have d: "dropWhile ((\<noteq>) CHR ''_'') (rev (a @ ''_'' @ nat_digits k)) = CHR ''_'' # rev a" "takeWhile ((\<noteq>) CHR ''_'') (rev (a @ ''_'' @ nat_digits k)) = rev (nat_digits k)" for a k
    using no [of k] by (auto simp: dropWhile_append takeWhile_append)
  have "nat_digits i = nat_digits j" using d(2) [of a i] d(2) [of b j] assms by (metis rev_rev_ident)
  then show ?thesis by (simp add: nat_digits_inj)
qed

lemma provision_candidate_suffix: "provision_candidate base k = Some x \<Longrightarrow> \<exists>a. x = a @ ''_'' @ nat_digits k"
  unfolding provision_candidate_def Let_def by (auto simp only: option.inject option.distinct split: if_splits)

lemma provision_candidate_inj: "provision_candidate base i = Some x \<Longrightarrow> provision_candidate base j = Some x \<Longrightarrow> i = j"
  by (metis provision_candidate_suffix digit_suffix)

function provision_name :: "string list \<Rightarrow> string \<Rightarrow> nat \<Rightarrow> string res" where
  "provision_name names base k =
     (case provision_candidate base k of
        None \<Rightarrow> Panic
      | Some x \<Rightarrow> if x \<in> set names then provision_name names base (Suc k) else Ok x)"
  by pat_completeness auto
termination
  by (relation "measure (\<lambda>(names, base, k). card {j. k \<le> j \<and> (\<exists>x \<in> set names. provision_candidate base j = Some x)})")
     (auto intro: free_measure provision_candidate_inj simp del: Suc_le_eq)

declare provision_name.simps [simp del]

text \<open>An answer: a failure with its status, or an account and whether it was there before.\<close>

type_synonym account_answer = "int \<times> string + bool \<times> user"

record create_request =
  cq_Username :: string
  cq_Email :: string
  cq_DisplayName :: string
  cq_Group :: string
  cq_Quota :: int
  cq_IdempotencyKey :: string

definition by_name :: "string \<Rightarrow> id_db \<Rightarrow> user option" where
  "by_name name db = find (\<lambda>u. us_Username u = name) (map snd (ib_users db))"

definition InternalCreateUser :: "id_env \<Rightarrow> create_request \<Rightarrow> id_db \<Rightarrow> account_answer \<times> id_db" where
  "InternalCreateUser env req db =
     (let name = go_trim_space (cq_Username req) in
      if cq_Username req = [] then (Inl (400, ''invalid request''), db)
      else if length name < 3 \<or> 20 < length name then (Inl (400, ''username must be 3-20 characters''), db)
      else if \<not> list_all name_char name then (Inl (400, ''invalid characters''), db)
      else if cq_Email req \<noteq> [] \<and> \<not> go_contains (cq_Email req) ''@'' then (Inl (400, ''invalid email''), db)
      else (case (if cq_IdempotencyKey req \<noteq> [] \<and> ie_user_read env then by_name name db else None) of
              Some u \<Rightarrow> (Inr (True, u), db)
            | None \<Rightarrow>
                if ie_count_ok env \<and> by_name name db \<noteq> None then (Inl (409, ''username exists''), db)
                else if ie_count_ok env \<and> cq_Email req \<noteq> [] \<and> list_ex (\<lambda>u. us_Email u = cq_Email req) (map snd (ib_users db))
                then (Inl (409, ''email exists''), db)
                else (case create_user no_tenant (ie_create_ok env) (ie_user_id env)
                        (new_user name (cq_Email req) (if cq_DisplayName req = [] then name else cq_DisplayName req)
                          (if cq_Group req = [] then ''default'' else cq_Group req) (cq_Quota req) []) db of
                        (None, db1) \<Rightarrow> (Inl (500, ''failed to create user''), db1)
                      | (Some u, db1) \<Rightarrow> (Inr (False, u), db1))))"

definition InternalDeleteUser :: "id_env \<Rightarrow> int \<Rightarrow> id_db \<Rightarrow> (int \<times> string) option \<times> id_db" where
  "InternalDeleteUser env i db =
     (if i \<le> 0 then (Some (400, ''invalid user id''), db)
      else (case GetUserById (ie_bal env) i (ib_bal db) of
              None \<Rightarrow> (Some (404, ''user not found''), db)
            | Some u \<Rightarrow>
                if RoleRootUser \<le> us_Role u then (Some (403, ''cannot delete admin/root user''), db)
                else (case delete_user (ie_update_ok env) i db of
                        (False, db1) \<Rightarrow> (Some (500, ''failed to delete user''), db1)
                      | (True, db1) \<Rightarrow> (None, db1))))"

record update_request =
  uq_DisplayName :: "string option"
  uq_Email :: "string option"
  uq_Status :: "int option"
  uq_Group :: "string option"

definition set_opt :: "'a option \<Rightarrow> 'a \<Rightarrow> 'a" where
  "set_opt new old = (case new of None \<Rightarrow> old | Some x \<Rightarrow> x)"

definition InternalUpdateUser :: "id_env \<Rightarrow> int \<Rightarrow> update_request \<Rightarrow> id_db \<Rightarrow> (int \<times> string) option \<times> id_db" where
  "InternalUpdateUser env i req db =
     (if i \<le> 0 then (Some (400, ''invalid user id''), db)
      else if uq_DisplayName req = None \<and> uq_Email req = None \<and> uq_Status req = None \<and> uq_Group req = None
      then (Some (400, ''no fields to update''), db)
      else (case GetUserById (ie_bal env) i (ib_bal db) of
              None \<Rightarrow> (Some (404, ''user not found''), db)
            | Some u \<Rightarrow>
                if \<not> ie_update_ok env then (Some (500, ''failed to update user''), db)
                else (None, set_users (gm.modify (ib_users db) i (\<lambda>x. x\<lparr>us_DisplayName := set_opt (uq_DisplayName req) (us_DisplayName x),
                  us_Email := set_opt (uq_Email req) (us_Email x), us_Status := set_opt (uq_Status req) (us_Status x),
                  us_Group := set_opt (uq_Group req) (us_Group x)\<rparr>)) db)))"

record provision_request =
  pv_ZitadelSub :: string
  pv_Email :: string
  pv_DisplayName :: string
  pv_TenantID :: string
  pv_Group :: string
  pv_InitialQuota :: int
  pv_CreateInitialToken :: bool
  pv_InitialTokenName :: string

definition provision_token :: "id_env \<Rightarrow> provision_request \<Rightarrow> int \<Rightarrow> string \<Rightarrow> string \<Rightarrow> string \<Rightarrow> token" where
  "provision_token env req userId tenant grp key =
     \<lparr>tk_Id = ie_token_id env, tk_UserId = userId, tk_TenantId = tenant, tk_Key = key, tk_Status = TokenStatusEnabled,
      tk_Name = (if pv_InitialTokenName req = [] then ''Default Key'' else pv_InitialTokenName req), tk_CreatedTime = ie_now env,
      tk_AccessedTime = ie_now env, tk_ExpiredTime = -1, tk_RemainQuota = pv_InitialQuota req, tk_UnlimitedQuota = (pv_InitialQuota req = 0),
      tk_ModelLimitsEnabled = False, tk_ModelLimits = [], tk_AllowIps = None, tk_UsedQuota = 0, tk_Group = grp,
      tk_CrossGroupRetry = False, tk_IdentityAccountID = 0\<rparr>"

text \<open>The transaction; its answer is the account, a failure or a panic.\<close>

definition provision_commit :: "id_env \<Rightarrow> provision_request \<Rightarrow> string \<Rightarrow> id_db \<Rightarrow> account_answer res \<times> id_db" where
  "provision_commit env req tenant db =
     (let base = provision_base (pv_ZitadelSub req);
          grp = (if pv_Group req = [] then ''default'' else pv_Group req);
          display = (if pv_DisplayName req = [] then hd (go_split CHR ''@'' (pv_Email req)) else pv_DisplayName req);
          names = map us_Username (filter (\<lambda>u. us_TenantId u = tenant) (map snd (ib_users db)))
      in case (if \<not> ie_count_ok env \<or> base \<notin> set names then Ok base else provision_name names base 2) of
           Ok name \<Rightarrow>
             (case create_user no_tenant (ie_create_ok env) (ie_user_id env) (new_user name (pv_Email req) display grp (pv_InitialQuota req) tenant) db of
                (None, db1) \<Rightarrow> (Ok (Inl (500, ''failed to create user'')), db)
              | (Some u, db1) \<Rightarrow>
                  (let m = \<lparr>im_Id = ie_map_id env, im_LurusUserID = us_Id u, im_ZitadelUserID = pv_ZitadelSub req, im_TenantID = tenant,
                             im_Email = pv_Email req, im_DisplayName = display, im_PreferredUsername = name, im_IsActive = True\<rparr>;
                       db2 = db1\<lparr>ib_maps := gm_put (ib_maps db1) (im_Id m) m\<rparr>
                   in if \<not> ie_map_ok env then (Ok (Inl (500, ''failed to create identity mapping'')), db)
                      else if pv_CreateInitialToken req then
                        (case ie_new_key env of
                           None \<Rightarrow> (Ok (Inl (500, ''failed to generate token key'')), db)
                         | Some key \<Rightarrow>
                             (case beforeCreate no_tenant ''tokens'' tenant of
                                None \<Rightarrow> (Ok (Inl (500, ''failed to create initial token'')), db)
                              | Some t \<Rightarrow>
                                  if \<not> ie_update_ok env \<or> \<not> ie_commit_ok env then (Ok (Inl (500, ''failed to create initial token'')), db)
                                  else (Ok (Inr (False, u)), set_tokens (gm_put (ib_tokens db2) (ie_token_id env) (provision_token env req (us_Id u) t grp key)) db2)))
                      else if \<not> ie_commit_ok env then (Ok (Inl (500, ''failed to commit'')), db)
                      else (Ok (Inr (False, u)), db2)))
         | Err e \<Rightarrow> (Err e, db)
         | Panic \<Rightarrow> (Panic, db))"

definition InternalProvisionUser :: "id_env \<Rightarrow> provision_request \<Rightarrow> id_db \<Rightarrow> account_answer res \<times> id_db" where
  "InternalProvisionUser env req db =
     (if pv_ZitadelSub req = [] \<or> pv_Email req = [] then (Ok (Inl (400, ''invalid request'')), db)
      else if \<not> go_contains (pv_Email req) ''@'' then (Ok (Inl (400, ''invalid email'')), db)
      else (let tenant = (if pv_TenantID req = [] then ''default'' else pv_TenantID req)
            in case GetUserByZitadelID env (pv_ZitadelSub req) tenant db of
                 Some (u, m) \<Rightarrow> (Ok (Inr (True, u)), db)
               | None \<Rightarrow>
                   if \<not> ie_begin_ok env then (Ok (Inl (500, ''failed to begin transaction'')), db)
                   else provision_commit env req tenant db))"

section \<open>Scopes\<close>



section \<open>Names\<close>

lemma free_name_least:
  "\<exists>k' \<ge> k. free_name names base k = suffixed base k' \<and> suffixed base k' \<notin> set names \<and> (\<forall>j. k \<le> j \<and> j < k' \<longrightarrow> suffixed base j \<in> set names)"
proof (induction names base k rule: free_name.induct)
  case (1 names base k)
  show ?case
  proof (cases "suffixed base k \<in> set names")
    case True
    then obtain k' where k': "Suc k \<le> k'" "free_name names base (Suc k) = suffixed base k'" "suffixed base k' \<notin> set names"
      "\<forall>j. Suc k \<le> j \<and> j < k' \<longrightarrow> suffixed base j \<in> set names" using 1 by blast
    have "\<forall>j. k \<le> j \<and> j < k' \<longrightarrow> suffixed base j \<in> set names" using k'(4) True by (metis Suc_leI le_neq_implies_less)
    then show ?thesis using k' True by (subst free_name.simps) (auto intro: Suc_leD)
  next
    case False
    then show ?thesis by (subst free_name.simps) (auto intro!: exI [of _ k])
  qed
qed

section \<open>Rows of identities\<close>

definition maps_ok :: "id_db \<Rightarrow> bool" where
  "maps_ok db \<longleftrightarrow> gm_ok (ib_maps db) \<and> (\<forall>i m. gm_get (ib_maps db) i = Some m \<longrightarrow> im_Id m = i)"

lemma map_rows:
  assumes "maps_ok db"
  shows "m \<in> set (map snd (ib_maps db)) \<longleftrightarrow> gm_get (ib_maps db) (im_Id m) = Some m"
proof
  assume "m \<in> set (map snd (ib_maps db))"
  then obtain i where "(i, m) \<in> set (ib_maps db)" by auto
  then have "gm_get (ib_maps db) i = Some m" using assms by (simp add: maps_ok_def gm_ok_def gm_keys_def gm_get_def)
  then show "gm_get (ib_maps db) (im_Id m) = Some m" using assms by (simp add: maps_ok_def)
next
  assume "gm_get (ib_maps db) (im_Id m) = Some m"
  then have "(im_Id m, m) \<in> set (ib_maps db)" by (rule gm_get_SomeD)
  then show "m \<in> set (map snd (ib_maps db))" by force
qed

definition first_map :: "string \<Rightarrow> string \<Rightarrow> id_db \<Rightarrow> id_map \<Rightarrow> bool" where
  "first_map sub tenant db m \<longleftrightarrow>
     gm_get (ib_maps db) (im_Id m) = Some m \<and> im_ZitadelUserID m = sub \<and> im_TenantID m = tenant \<and> im_IsActive m \<and>
     (\<forall>i x. gm_get (ib_maps db) i = Some x \<and> im_ZitadelUserID x = sub \<and> im_TenantID x = tenant \<and> im_IsActive x \<longrightarrow> im_Id m \<le> i)"

lemma mapping_first:
  assumes "maps_ok db" "ie_map_read env"
  shows "GetUserMappingByZitadelID env sub tenant db = Some m \<longleftrightarrow> first_map sub tenant db m"
proof -
  let ?P = "\<lambda>m. im_ZitadelUserID m = sub \<and> im_TenantID m = tenant \<and> im_IsActive m"
  let ?rs = "sort_key im_Id (filter ?P (map snd (ib_maps db)))"
  have mem: "x \<in> set ?rs \<longleftrightarrow> gm_get (ib_maps db) (im_Id x) = Some x \<and> ?P x" for x
    using map_rows [OF assms(1), of x] by auto
  have g: "GetUserMappingByZitadelID env sub tenant db = (case ?rs of [] \<Rightarrow> None | m # _ \<Rightarrow> Some m)"
    using assms(2) by (simp add: GetUserMappingByZitadelID_def)
  have id: "gm_get (ib_maps db) i = Some x \<Longrightarrow> im_Id x = i" for i x using assms(1) by (simp add: maps_ok_def)
  have sorted: "sorted (map im_Id ?rs)" by simp
  show ?thesis
  proof (cases ?rs)
    case Nil
    then have "\<not> first_map sub tenant db m" using mem [of m] by (auto simp: first_map_def)
    then show ?thesis using g Nil by simp
  next
    case (Cons r rs)
    have r: "gm_get (ib_maps db) (im_Id r) = Some r \<and> ?P r" using mem [of r] Cons by simp
    have least: "\<forall>x \<in> set ?rs. im_Id r \<le> im_Id x" using sorted unfolding Cons by auto
    have "im_Id r \<le> i" if x: "gm_get (ib_maps db) i = Some x" "?P x" for i x
    proof -
      have "x \<in> set ?rs" using mem [of x] x id [OF x(1)] by simp
      then show ?thesis using least id [OF x(1)] by blast
    qed
    then have fr: "first_map sub tenant db r" using r by (simp add: first_map_def)
    have "first_map sub tenant db m \<Longrightarrow> r = m"
      using fr unfolding first_map_def by (metis order_antisym option.inject)
    then show ?thesis using g Cons fr by auto
  qed
qed

text \<open>A change of the table that keeps whom its rows identify, and numbers new rows after the old ones.\<close>

definition same_identity :: "id_map \<Rightarrow> id_map \<Rightarrow> bool" where
  "same_identity m m' \<longleftrightarrow> im_ZitadelUserID m' = im_ZitadelUserID m \<and> im_TenantID m' = im_TenantID m \<and>
     im_LurusUserID m' = im_LurusUserID m \<and> im_IsActive m' = im_IsActive m \<and> im_Id m' = im_Id m"

definition maps_extend :: "id_db \<Rightarrow> id_db \<Rightarrow> bool" where
  "maps_extend db db' \<longleftrightarrow> maps_ok db' \<and>
     (\<forall>i m. gm_get (ib_maps db) i = Some m \<longrightarrow> (\<exists>m'. gm_get (ib_maps db') i = Some m' \<and> same_identity m m')) \<and>
     (\<forall>i. gm_get (ib_maps db') i \<noteq> None \<and> gm_get (ib_maps db) i = None \<longrightarrow> (\<forall>j. gm_get (ib_maps db) j \<noteq> None \<longrightarrow> j < i))"

lemma extend_refl: "maps_ok db \<Longrightarrow> ib_maps db' = ib_maps db \<Longrightarrow> maps_extend db db'"
  by (auto simp: maps_extend_def maps_ok_def same_identity_def)

lemma extend_first:
  assumes "maps_extend db db'" "first_map sub tenant db m"
  shows "\<exists>m'. first_map sub tenant db' m' \<and> im_LurusUserID m' = im_LurusUserID m"
proof -
  obtain m' where m': "gm_get (ib_maps db') (im_Id m) = Some m'" "same_identity m m'"
    using assms unfolding maps_extend_def first_map_def by blast
  have "im_Id m' \<le> i" if x: "gm_get (ib_maps db') i = Some x" "im_ZitadelUserID x = sub" "im_TenantID x = tenant" "im_IsActive x" for i x
  proof (cases "gm_get (ib_maps db) i")
    case None
    then have "im_Id m < i" using assms x(1) unfolding maps_extend_def first_map_def by blast
    then show ?thesis using m'(2) by (simp add: same_identity_def)
  next
    case (Some y)
    then have "same_identity y x" using assms(1) x(1) unfolding maps_extend_def by (metis option.inject)
    then show ?thesis using assms(2) Some x(2-4) m'(2) unfolding first_map_def same_identity_def by metis
  qed
  then have "first_map sub tenant db' m'" using m' assms(2) by (simp add: first_map_def same_identity_def)
  then show ?thesis using m'(2) by (auto simp: same_identity_def)
qed

definition maps_fresh :: "id_env \<Rightarrow> id_db \<Rightarrow> bool" where
  "maps_fresh env db \<longleftrightarrow> (\<forall>j. gm_get (ib_maps db) j \<noteq> None \<longrightarrow> j < ie_map_id env)"

lemma sync_extends:
  assumes "maps_ok db"
  shows "maps_extend db (SyncUserDataFromZitadel ok i e n p db)"
  using assms by (auto simp: maps_extend_def maps_ok_def same_identity_def SyncUserDataFromZitadel_def UpdateUserMapping_def gm.get_modify intro: gm.ok_modify)

lemma put_extends:
  assumes "maps_ok db" "ib_maps db' = gm_put (ib_maps db) (im_Id m') m'"
    "\<And>m. gm_get (ib_maps db) (im_Id m') = Some m \<Longrightarrow> same_identity m m'"
    "gm_get (ib_maps db) (im_Id m') = None \<Longrightarrow> \<forall>j. gm_get (ib_maps db) j \<noteq> None \<longrightarrow> j < im_Id m'"
  shows "maps_extend db db'"
proof -
  have g: "gm_get (ib_maps db') i = (if i = im_Id m' then Some m' else gm_get (ib_maps db) i)" for i by (simp add: assms(2))
  have "maps_ok db'" using assms(1) by (simp add: maps_ok_def assms(2))
  moreover have "\<exists>x. gm_get (ib_maps db') i = Some x \<and> same_identity m x" if "gm_get (ib_maps db) i = Some m" for i m
    using that assms(3) unfolding g by (cases "i = im_Id m'") (simp_all add: same_identity_def)
  ultimately show ?thesis unfolding maps_extend_def g using assms(4) by (metis option.distinct(1))
qed

lemma create_mapping_extends:
  assumes "CreateUserMapping env u sub tenant e n p db = (r, db')" "maps_ok db" "maps_fresh env db"
  shows "maps_extend db db' \<and> ib_tenants db' = ib_tenants db"
proof (cases "ie_map_ok env")
  case False
  then have "db' = db" using assms(1) by (auto simp: CreateUserMapping_def Let_def split: option.splits)
  then show ?thesis using extend_refl [OF assms(2)] by simp
next
  case ok: True
  show ?thesis
  proof (cases "GetUserMappingByZitadelID env sub tenant db")
    case None
    have "maps_extend db db'"
      by (rule put_extends [OF assms(2), where m' = "\<lparr>im_Id = ie_map_id env, im_LurusUserID = u, im_ZitadelUserID = sub, im_TenantID = tenant,
            im_Email = e, im_DisplayName = n, im_PreferredUsername = p, im_IsActive = True\<rparr>"])
         (use assms None ok in \<open>auto simp: CreateUserMapping_def Let_def maps_fresh_def\<close>)
    then show ?thesis using assms(1) None ok by (auto simp: CreateUserMapping_def Let_def)
  next
    case (Some m)
    then have "ie_map_read env" by (auto simp: GetUserMappingByZitadelID_def split: if_splits)
    then have "gm_get (ib_maps db) (im_Id m) = Some m" using Some mapping_first [OF assms(2)] by (simp add: first_map_def)
    then have "maps_extend db db'"
      by (intro put_extends [OF assms(2), where m' = "m\<lparr>im_Email := e, im_DisplayName := n, im_PreferredUsername := p\<rparr>"])
         (use assms(1) Some ok in \<open>auto simp: CreateUserMapping_def Let_def same_identity_def\<close>)
    then show ?thesis using assms(1) Some ok by (auto simp: CreateUserMapping_def Let_def)
  qed
qed

lemma set_users_parts [simp]: "ib_maps (set_users us db) = ib_maps db" "ib_tenants (set_users us db) = ib_tenants db"
  by (simp_all add: set_users_def)

lemma create_user_parts: "create_user c ok i u db = (r, db') \<Longrightarrow> ib_maps db' = ib_maps db \<and> ib_tenants db' = ib_tenants db"
  by (auto simp: create_user_def Let_def split: option.splits if_splits)

lemma delete_user_parts [simp]: "ib_maps (snd (delete_user ok i db)) = ib_maps db" "ib_tenants (snd (delete_user ok i db)) = ib_tenants db"
  by (auto simp: delete_user_def split: option.splits)

lemma extend_same: "maps_extend db db' \<Longrightarrow> ib_maps db0 = ib_maps db \<Longrightarrow> ib_maps db1 = ib_maps db' \<Longrightarrow> maps_extend db0 db1"
  by (simp add: maps_extend_def maps_ok_def)

lemma claims_extend:
  assumes "CreateUserFromZitadelClaims env cl tenant db = (r, db')" "maps_ok db" "maps_fresh env db"
  shows "maps_extend db db' \<and> ib_tenants db' = ib_tenants db"
proof (cases "GetUserMappingByZitadelID env (cl_Sub cl) tenant db")
  case (Some m)
  then have "db' = db" using assms(1) by (auto simp: CreateUserFromZitadelClaims_def split: option.splits)
  then show ?thesis using assms(2) extend_refl by simp
next
  case None
  note refl = extend_refl [OF assms(2)]
  show ?thesis
  proof (cases "if cl_Email cl \<noteq> [] then email_match env (cl_Email cl) db else None")
    case (Some u)
    obtain x db1 where c: "CreateUserMapping env (us_Id u) (cl_Sub cl) tenant (cl_Email cl) (cl_Name cl) (cl_PreferredUsername cl) db = (x, db1)" by fastforce
    note e = create_mapping_extends [OF c assms(2,3)]
    have "ib_maps db' = ib_maps db1 \<and> ib_tenants db' = ib_tenants db1"
      using assms(1) None Some c by (auto simp: CreateUserFromZitadelClaims_def split: option.splits if_splits)
    then show ?thesis using e extend_same [of db db1 db db'] by simp
  next
    case no: None
    let ?n = "ensureUniqueUsername env (if cl_PreferredUsername cl = [] then cl_Email cl else cl_PreferredUsername cl) tenant db"
    let ?u = "new_user ?n (cl_Email cl) (cl_Name cl) ''default'' (GetTenantConfigInt env tenant ''quota.new_user_quota'' 10000) []"
    obtain a db1 where u: "create_user (WithTenantID no_tenant tenant) (ie_create_ok env) (ie_user_id env) ?u db = (a, db1)" by fastforce
    note parts = create_user_parts [OF u]
    show ?thesis
    proof (cases "db' = db \<or> db' = db1")
      case True
      then show ?thesis using refl parts by auto
    next
      case False
      then obtain tn v where t: "GetTenantByID env tenant db = Some tn" "TenantCanAddUser env tn db = Some True" "a = Some v"
        using assms(1) None no u by (auto simp: CreateUserFromZitadelClaims_def Let_def split: option.splits bool.splits prod.splits if_splits)
      obtain x db2 where c: "CreateUserMapping env (us_Id v) (cl_Sub cl) tenant (cl_Email cl) (cl_Name cl) (cl_PreferredUsername cl) db1 = (x, db2)" by fastforce
      have c2: "ib_maps db' = ib_maps db2 \<and> ib_tenants db' = ib_tenants db2"
        using assms(1) None no u t c by (auto simp: CreateUserFromZitadelClaims_def Let_def split: option.splits)
      have "maps_ok db1" "maps_fresh env db1" using assms(2,3) parts by (simp_all add: maps_ok_def maps_fresh_def)
      then show ?thesis using create_mapping_extends [OF c] c2 parts extend_same [of db1 db2 db db'] by simp
    qed
  qed
qed

definition tenants_ok :: "id_db \<Rightarrow> bool" where
  "tenants_ok db \<longleftrightarrow> (\<forall>(i, t) \<in> set (ib_tenants db). tn_Id t = i)"

abbreviation org_tenant :: "string \<Rightarrow> id_db \<Rightarrow> tenant option" where
  "org_tenant org db \<equiv> find (\<lambda>t. tn_ZitadelOrgID t = org) (map snd (ib_tenants db))"

lemma update_new: "k \<notin> fst ` set m \<Longrightarrow> AList.update k v m = m @ [(k, v)]"
  by (induction m) auto

text \<open>A new tenant has an organisation of its own, and does not disturb the search for others.\<close>

lemma create_tenant:
  assumes "CreateTenantFromZitadel env org slug name db = (r, db')" "tenants_ok db"
  shows "tenants_ok db' \<and> ib_maps db' = ib_maps db \<and>
    (\<forall>o2 t. org_tenant o2 db = Some t \<longrightarrow> org_tenant o2 db' = Some t) \<and> (r \<noteq> None \<longrightarrow> org_tenant org db' = r)"
proof (cases "GetTenantByZitadelOrgID env org db")
  case (Some t)
  then show ?thesis using assms by (auto simp: CreateTenantFromZitadel_def GetTenantByZitadelOrgID_def split: if_splits)
next
  case None
  let ?t = "\<lparr>tn_Id = GenerateID env, tn_ZitadelOrgID = org, tn_Slug = slug, tn_Name = name, tn_Status = TenantStatusEnabled,
     tn_PlanType = ''free'', tn_MaxUsers = 100, tn_MaxQuota = 1000000, tn_CreatedAt = ie_now env\<rparr>"
  show ?thesis
  proof (cases "\<not> ie_create_ok env \<or> (\<exists>x \<in> set (map snd (ib_tenants db) @ ib_gone_tenants db). tn_Id x = GenerateID env \<or> tn_ZitadelOrgID x = org \<or> tn_Slug x = slug)")
    case True
    then have "r = None" "db' = db" using assms(1) None unfolding CreateTenantFromZitadel_def by (simp_all add: Let_def)
    then show ?thesis using assms(2) by simp
  next
    case False
    then have r: "r = Some ?t" "db' = db\<lparr>ib_tenants := gm_put (ib_tenants db) (GenerateID env) ?t\<rparr>"
      using assms(1) None unfolding CreateTenantFromZitadel_def by (simp_all add: Let_def)
    have "GenerateID env \<notin> fst ` set (ib_tenants db)" using False assms(2) by (force simp: tenants_ok_def)
    then have e: "ib_tenants db' = ib_tenants db @ [(GenerateID env, ?t)]" by (simp add: r(2) gm_put_def update_new)
    have "org_tenant org db = None" using False by (auto simp: find_None_iff)
    then have "org_tenant org db' = r" by (simp add: e find_app r(1))
    moreover have "org_tenant o2 db = Some t \<Longrightarrow> org_tenant o2 db' = Some t" for o2 t by (simp add: e find_app)
    moreover have "tenants_ok db'" using assms(2) unfolding tenants_ok_def e by auto
    moreover have "ib_maps db' = ib_maps db" by (simp add: r(2))
    ultimately show ?thesis by blast
  qed
qed

definition id_ok :: "id_db \<Rightarrow> bool" where
  "id_ok db \<longleftrightarrow> maps_ok db \<and> tenants_ok db"

lemma find_tenant:
  assumes "(case GetTenantByZitadelOrgID env org db of Some t \<Rightarrow> (Some t, db)
      | None \<Rightarrow> if auto then CreateTenantFromZitadel env org slug name db else (None, db)) = (r, db')" "tenants_ok db"
  shows "tenants_ok db' \<and> ib_maps db' = ib_maps db \<and>
    (\<forall>o2 t. org_tenant o2 db = Some t \<longrightarrow> org_tenant o2 db' = Some t) \<and> (r \<noteq> None \<longrightarrow> org_tenant org db' = r)"
proof (cases "GetTenantByZitadelOrgID env org db")
  case (Some t)
  then show ?thesis using assms by (auto simp: GetTenantByZitadelOrgID_def split: if_splits)
next
  case None
  then show ?thesis using assms create_tenant [of env org slug name db r db'] by (auto split: if_splits)
qed

lemma signin_extends:
  assumes "mapZitadelUserToLurus env cl db = (r, db')" "id_ok db" "maps_fresh env db"
  shows "maps_extend db db' \<and> tenants_ok db' \<and> (\<forall>o2 t. org_tenant o2 db = Some t \<longrightarrow> org_tenant o2 db' = Some t)"
proof -
  let ?f = "case GetTenantByZitadelOrgID env (cl_OrgID cl) db of Some t \<Rightarrow> (Some t, db)
      | None \<Rightarrow> if ie_auto_tenant env then CreateTenantFromZitadel env (cl_OrgID cl) (cl_OrgDomain cl) (cl_ResourceOwnerName cl) db else (None, db)"
  obtain tn db1 where t: "?f = (tn, db1)" by fastforce
  have ok: "maps_ok db" "tenants_ok db" using assms(2) by (simp_all add: id_ok_def)
  note ft = find_tenant [OF t ok(2)]
  have ok1: "maps_ok db1" "maps_fresh env db1" using ok(1) ft assms(3) by (simp_all add: maps_ok_def maps_fresh_def)
  obtain u db2 where c: "CreateUserFromZitadelClaims env cl (tn_Id (the tn)) db1 = (u, db2)" by fastforce
  note ce = claims_extend [OF c ok1]
  note m = assms(1) [unfolded mapZitadelUserToLurus_def t]
  consider "db' = db1" | "db' = db2" | i where "db' = SyncUserDataFromZitadel (ie_update_ok env) i (cl_Email cl) (cl_Name cl) (cl_PreferredUsername cl) db1"
    using m c by (auto split: option.splits if_splits prod.splits res.splits)
  then show ?thesis
  proof cases
    case 1
    then show ?thesis using ft extend_refl ok(1) by auto
  next
    case 2
    then show ?thesis using ft ce extend_same [of db1 db2 db db2] by (simp add: tenants_ok_def)
  next
    case (3 i)
    have "ib_tenants db' = ib_tenants db1" by (simp add: 3 SyncUserDataFromZitadel_def UpdateUserMapping_def)
    then show ?thesis using ft 3 sync_extends [OF ok1(1)] extend_same [of db1 db' db db'] by (simp add: tenants_ok_def)
  qed
qed

lemma mapping_none:
  assumes "maps_ok db" "ie_map_read env" "GetUserMappingByZitadelID env sub tenant db = None" "gm_get (ib_maps db) i = Some x"
  shows "\<not> (im_ZitadelUserID x = sub \<and> im_TenantID x = tenant \<and> im_IsActive x)"
proof
  assume "im_ZitadelUserID x = sub \<and> im_TenantID x = tenant \<and> im_IsActive x"
  moreover have "x \<in> set (map snd (ib_maps db))" using assms(1,4) map_rows [of db x] by (simp add: maps_ok_def)
  ultimately have "x \<in> set (sort_key im_Id (filter (\<lambda>m. im_ZitadelUserID m = sub \<and> im_TenantID m = tenant \<and> im_IsActive m) (map snd (ib_maps db))))"
    by simp
  then obtain r rs where "sort_key im_Id (filter (\<lambda>m. im_ZitadelUserID m = sub \<and> im_TenantID m = tenant \<and> im_IsActive m) (map snd (ib_maps db))) = r # rs"
    by (meson list.set_cases)
  then show False using assms(2,3) by (simp add: GetUserMappingByZitadelID_def)
qed

lemma create_mapping_first:
  assumes "CreateUserMapping env u sub tenant e n p db = (Some m, db')" "maps_ok db" "ie_map_read env"
    "GetUserMappingByZitadelID env sub tenant db = None"
  shows "first_map sub tenant db' m \<and> im_LurusUserID m = u"
proof -
  have m: "im_LurusUserID m = u" "im_ZitadelUserID m = sub" "im_TenantID m = tenant" "im_IsActive m" "ib_maps db' = gm_put (ib_maps db) (im_Id m) m"
    using assms(1,4) by (auto simp: CreateUserMapping_def Let_def split: if_splits)
  have g: "gm_get (ib_maps db') i = (if i = im_Id m then Some m else gm_get (ib_maps db) i)" for i by (simp add: m(5))
  have "i = im_Id m" if "gm_get (ib_maps db') i = Some x" "im_ZitadelUserID x = sub \<and> im_TenantID x = tenant \<and> im_IsActive x" for i x
    using that mapping_none [OF assms(2,3,4), of i x] unfolding g by (metis)
  then have "\<forall>i x. gm_get (ib_maps db') i = Some x \<and> im_ZitadelUserID x = sub \<and> im_TenantID x = tenant \<and> im_IsActive x \<longrightarrow> im_Id m \<le> i"
    by (metis order_refl)
  moreover have "gm_get (ib_maps db') (im_Id m) = Some m" by (simp add: g)
  ultimately have "first_map sub tenant db' m" unfolding first_map_def using m(2-4) by blast
  then show ?thesis using m(1) by blast
qed

lemma mapping_same: "ib_maps db' = ib_maps db \<Longrightarrow> GetUserMappingByZitadelID env sub tenant db' = GetUserMappingByZitadelID env sub tenant db"
  by (simp add: GetUserMappingByZitadelID_def)

lemma first_map_same: "ib_maps db' = ib_maps db \<Longrightarrow> first_map sub tenant db' = first_map sub tenant db"
  by (simp add: first_map_def fun_eq_iff)

lemma claims_first:
  assumes "CreateUserFromZitadelClaims env cl tenant db = (Ok u, db')" "maps_ok db" "ie_map_read env"
    "GetUserMappingByZitadelID env (cl_Sub cl) tenant db = None"
  shows "\<exists>m. first_map (cl_Sub cl) tenant db' m \<and> im_LurusUserID m = us_Id u"
proof (cases "if cl_Email cl \<noteq> [] then email_match env (cl_Email cl) db else None")
  case (Some v)
  obtain x db1 where c: "CreateUserMapping env (us_Id v) (cl_Sub cl) tenant (cl_Email cl) (cl_Name cl) (cl_PreferredUsername cl) db = (x, db1)" by fastforce
  then obtain m where m: "x = Some m" "us_Id u = us_Id v" "ib_maps db' = ib_maps db1"
    using assms(1,4) Some by (cases x) (auto simp: CreateUserFromZitadelClaims_def split: if_splits)
  then show ?thesis using create_mapping_first [OF c [unfolded m(1)] assms(2-4)] first_map_same [OF m(3)] by auto
next
  case no: None
  let ?n = "ensureUniqueUsername env (if cl_PreferredUsername cl = [] then cl_Email cl else cl_PreferredUsername cl) tenant db"
  let ?u = "new_user ?n (cl_Email cl) (cl_Name cl) ''default'' (GetTenantConfigInt env tenant ''quota.new_user_quota'' 10000) []"
  obtain a db1 where d: "create_user (WithTenantID no_tenant tenant) (ie_create_ok env) (ie_user_id env) ?u db = (a, db1)" by fastforce
  note parts = create_user_parts [OF d]
  obtain x db2 where c: "CreateUserMapping env (us_Id u) (cl_Sub cl) tenant (cl_Email cl) (cl_Name cl) (cl_PreferredUsername cl) db1 = (x, db2)" by fastforce
  obtain m where m: "a = Some u" "x = Some m" "db' = db2"
    using assms(1,4) no d c by (auto simp: CreateUserFromZitadelClaims_def Let_def split: option.splits bool.splits prod.splits)
  have "maps_ok db1" "GetUserMappingByZitadelID env (cl_Sub cl) tenant db1 = None"
    using assms(2,4) parts mapping_same [of db1 db] by (simp_all add: maps_ok_def)
  then show ?thesis using create_mapping_first [OF c [unfolded m(2)] _ assms(3)] m(3) by auto
qed

lemma signin_result:
  assumes "mapZitadelUserToLurus env cl db = (Ok (t, i), db')" "id_ok db" "ie_map_read env"
  shows "\<exists>tn m. org_tenant (cl_OrgID cl) db' = Some tn \<and> tn_Id tn = t \<and> IsEnabled tn \<and> first_map (cl_Sub cl) t db' m \<and> im_LurusUserID m = i"
proof -
  let ?f = "case GetTenantByZitadelOrgID env (cl_OrgID cl) db of Some t \<Rightarrow> (Some t, db)
      | None \<Rightarrow> if ie_auto_tenant env then CreateTenantFromZitadel env (cl_OrgID cl) (cl_OrgDomain cl) (cl_ResourceOwnerName cl) db else (None, db)"
  have ok: "maps_ok db" "tenants_ok db" using assms(2) by (simp_all add: id_ok_def)
  note m = assms(1) [unfolded mapZitadelUserToLurus_def]
  obtain tn db1 where t: "?f = (Some tn, db1)" "IsEnabled tn" using m by (cases ?f) (auto split: option.splits if_splits)
  note ft = find_tenant [OF t(1) ok(2)]
  have ok1: "maps_ok db1" using ok(1) ft by (simp add: maps_ok_def)
  note m = m [unfolded t(1) prod.case option.case]
  show ?thesis
  proof (cases "GetUserMappingByZitadelID env (cl_Sub cl) (tn_Id tn) db1")
    case (Some x)
    then have fm: "first_map (cl_Sub cl) (tn_Id tn) db1 x" using mapping_first [OF ok1 assms(3)] by simp
    have e: "t = tn_Id tn" "i = im_LurusUserID x"
      "db' = SyncUserDataFromZitadel (ie_update_ok env) (im_Id x) (cl_Email cl) (cl_Name cl) (cl_PreferredUsername cl) db1"
      using m t(2) Some by auto
    have "ib_tenants db' = ib_tenants db1" by (simp add: e SyncUserDataFromZitadel_def UpdateUserMapping_def)
    then show ?thesis using extend_first [OF sync_extends [OF ok1] fm] e ft t(2) by (metis option.distinct(1))
  next
    case None
    then obtain u db2 where c: "CreateUserFromZitadelClaims env cl (tn_Id tn) db1 = (Ok u, db2)" "t = tn_Id tn" "i = us_Id u" "db' = db2"
      using m t(2) by (auto split: if_splits prod.splits res.splits)
    have "ib_tenants db' = ib_tenants db1"
      using c by (auto simp: CreateUserFromZitadelClaims_def CreateUserMapping_def Let_def dest: create_user_parts split: option.splits bool.splits prod.splits if_splits)
    then show ?thesis using claims_first [OF c(1) ok1 assms(3) None] c ft t(2) by auto
  qed
qed

inductive sign_in :: "id_db \<Rightarrow> id_db \<Rightarrow> bool" where
  "mapZitadelUserToLurus env cl db = (r, db') \<Longrightarrow> maps_fresh env db \<Longrightarrow> sign_in db db'"

lemma later_sign_ins:
  assumes "sign_in\<^sup>*\<^sup>* db db'" "id_ok db" "org_tenant org db = Some tn" "first_map sub t db m"
  shows "id_ok db' \<and> org_tenant org db' = Some tn \<and> (\<exists>m'. first_map sub t db' m' \<and> im_LurusUserID m' = im_LurusUserID m)"
  using assms(1)
proof induction
  case base
  then show ?case using assms(2-4) by blast
next
  case (step db1 db2)
  obtain env cl r where s: "mapZitadelUserToLurus env cl db1 = (r, db2)" "maps_fresh env db1" using step.hyps(2) by cases auto
  have "id_ok db1" using step.IH by blast
  note e = signin_extends [OF s(1) this s(2)]
  obtain m' where "first_map sub t db1 m'" "im_LurusUserID m' = im_LurusUserID m" using step.IH by blast
  then show ?case using e step.IH extend_first [of db1 db2 sub t m'] by (auto simp: id_ok_def maps_extend_def)
qed

section \<open>A sample tenant\<close>

definition demo_tenant :: tenant where
  "demo_tenant = \<lparr>tn_Id = ''t1'', tn_ZitadelOrgID = ''o1'', tn_Slug = ''s1'', tn_Name = ''One'', tn_Status = TenantStatusEnabled,
     tn_PlanType = ''free'', tn_MaxUsers = 100, tn_MaxQuota = 1000000, tn_CreatedAt = 0\<rparr>"

definition demo_root :: user where
  "demo_root = demo_user\<lparr>us_Id := 9, us_Username := ''root'', us_Role := RoleRootUser, us_Email := ''a@b''\<rparr>"

definition demo_id_db :: id_db where
  "demo_id_db = \<lparr>ib_bal = demo_balance\<lparr>bd_ledger := demo_ledger\<lparr>lg_users := [(1, demo_user), (9, demo_root)]\<rparr>\<rparr>,
     ib_tenants = [(''t1'', demo_tenant)], ib_maps = [(3, \<lparr>im_Id = 3, im_LurusUserID = 1, im_ZitadelUserID = ''z1'', im_TenantID = ''t1'',
       im_Email = [], im_DisplayName = [], im_PreferredUsername = [], im_IsActive = True\<rparr>)], ib_gone = [], ib_gone_tenants = []\<rparr>"

definition demo_id_env :: id_env where
  "demo_id_env = \<lparr>ie_bal = demo_balance_env, ie_now = 1000, ie_stamp = ''20250101000000'', ie_tenant_ok = True, ie_map_read = True,
     ie_user_read = True, ie_count_ok = True, ie_create_ok = True, ie_map_ok = True, ie_update_ok = True, ie_begin_ok = True, ie_commit_ok = True,
     ie_user_id = 20, ie_map_id = 30, ie_token_id = 40, ie_new_key = Some ''k'', ie_config = (\<lambda>_ _. None), ie_auto_tenant = False, ie_auto_user = True\<rparr>"

definition demo_claims :: "string \<Rightarrow> claims" where
  "demo_claims sub = \<lparr>cl_Sub = sub, cl_Email = ''a@b'', cl_EmailVerified = False, cl_Name = ''N'', cl_PreferredUsername = ''root'', cl_OrgID = ''o1'',
     cl_OrgDomain = ''s1'', cl_ResourceOwnerName = ''One'', cl_Issuer = ''iss'', cl_Roles = []\<rparr>"

definition demo_zitadel :: "unit zitadel_env" where
  "demo_zitadel = \<lparr>ze_enabled = True, ze_issuer = ''iss'', ze_method_rsa = (\<lambda>_. True), ze_kid = (\<lambda>_. None), ze_verify = (\<lambda>_ _. None),
     ze_fetch = None, ze_id = demo_id_env, ze_account = (\<lambda>_. None)\<rparr>"

lemma demo_id_members [simp]:
  "ie_bal demo_id_env = demo_balance_env" "ie_now demo_id_env = 1000" "ie_tenant_ok demo_id_env" "ie_map_read demo_id_env" "ie_user_read demo_id_env"
  "ie_count_ok demo_id_env" "ie_map_ok demo_id_env" "ie_update_ok demo_id_env" "ie_map_id demo_id_env = 30" "ie_auto_user demo_id_env"
  by (simp_all add: demo_id_env_def)

lemma demo_claim_members [simp]:
  "cl_Sub (demo_claims sub) = sub" "cl_Email (demo_claims sub) = ''a@b''" "cl_OrgID (demo_claims sub) = ''o1''"
  "cl_PreferredUsername (demo_claims sub) = ''root''"
  by (simp_all add: demo_claims_def)

lemma demo_id_rows:
  "GetTenantByZitadelOrgID demo_id_env ''o1'' demo_id_db = Some demo_tenant" "IsEnabled demo_tenant" "tn_Id demo_tenant = ''t1''"
  "GetUserMappingByZitadelID demo_id_env ''z9'' ''t1'' demo_id_db = None"
  "\<exists>m. GetUserMappingByZitadelID demo_id_env ''z1'' ''t1'' demo_id_db = Some m \<and> im_LurusUserID m = 1"
  "demo_root \<in> set (map snd (ib_users demo_id_db))"
  by (simp_all add: GetTenantByZitadelOrgID_def demo_id_db_def demo_tenant_def IsEnabled_def GetUserMappingByZitadelID_def)

lemma demo_id_ok: "id_ok demo_id_db" "maps_fresh demo_id_env demo_id_db"
  by (auto simp: id_ok_def maps_ok_def tenants_ok_def maps_fresh_def demo_id_db_def demo_tenant_def gm_ok_def gm_keys_def gm_get_def split: if_splits)

section \<open>Properties\<close>




text \<open>
  C24. Signing in is stable under other sign-ins: once an identity was signed in to a tenant as an account, then after any sequence of
  sign-ins of anybody, to any tenants and with any failures, and of nothing but sign-ins, the same identity is signed in to the same tenant as
  the same account, when its tenant and its mapping can be read. Administrators who disable, suspend or delete the tenant or
  deactivate the mapping in between are outside the statement: they are meant to end the access.
\<close>

theorem signin_stable:
  assumes "id_ok db" "maps_fresh env db" "ie_map_read env" "mapZitadelUserToLurus env cl db = (Ok (t, i), db1)" "sign_in\<^sup>*\<^sup>* db1 db2"
    "ie_tenant_ok env2" "ie_map_read env2" "cl_Sub cl2 = cl_Sub cl" "cl_OrgID cl2 = cl_OrgID cl"
  shows "fst (mapZitadelUserToLurus env2 cl2 db2) = Ok (t, i)"
proof -
  obtain tn m where r: "org_tenant (cl_OrgID cl) db1 = Some tn" "tn_Id tn = t" "IsEnabled tn" "first_map (cl_Sub cl) t db1 m" "im_LurusUserID m = i"
    using signin_result [OF assms(4,1,3)] by blast
  have "id_ok db1" using signin_extends [OF assms(4,1,2)] by (simp add: id_ok_def maps_extend_def)
  then obtain m' where l: "id_ok db2" "org_tenant (cl_OrgID cl) db2 = Some tn" "first_map (cl_Sub cl) t db2 m'" "im_LurusUserID m' = i"
    using later_sign_ins [OF assms(5) _ r(1,4)] r(5) by auto
  have "GetUserMappingByZitadelID env2 (cl_Sub cl) t db2 = Some m'" using mapping_first [of db2 env2] l assms(7) by (simp add: id_ok_def)
  moreover have "GetTenantByZitadelOrgID env2 (cl_OrgID cl) db2 = Some tn" using l(2) assms(6) by (simp add: GetTenantByZitadelOrgID_def)
  ultimately show ?thesis using r(2,3) l(4) assms(8,9) by (simp add: mapZitadelUserToLurus_def)
qed

theorem signin_stable_witness:
  "fst (mapZitadelUserToLurus demo_id_env (demo_claims ''z1'') (snd (mapZitadelUserToLurus demo_id_env (demo_claims ''z1'') demo_id_db))) = Ok (''t1'', 1)"
proof -
  obtain db1 where s: "mapZitadelUserToLurus demo_id_env (demo_claims ''z1'') demo_id_db = (Ok (''t1'', 1), db1)"
    using demo_id_rows by (auto simp: mapZitadelUserToLurus_def)
  show ?thesis using signin_stable [OF demo_id_ok _ s rtranclp.rtrancl_refl, of demo_id_env "demo_claims ''z1''"] s by simp
qed

text \<open>
  The fallback to the address takes over accounts: an identity that is new to its tenant and claims the address of an enabled account,
  of whatever tenant and role, verified or not, is signed in as an account with this address and at least this role.
\<close>

theorem email_takeover:
  assumes "GetTenantByZitadelOrgID env (cl_OrgID cl) db = Some tn" "IsEnabled tn" "GetUserMappingByZitadelID env (cl_Sub cl) (tn_Id tn) db = None"
    "ie_auto_user env" "ie_map_ok env" "ie_user_read env" "v \<in> set (map snd (ib_users db))" "us_Status v = UserStatusEnabled" "us_Email v = cl_Email cl" "cl_Email cl \<noteq> []"
  shows "\<exists>u \<in> set (map snd (ib_users db)). us_Email u = cl_Email cl \<and> us_Role v \<le> us_Role u \<and>
    fst (mapZitadelUserToLurus env (cl\<lparr>cl_EmailVerified := False\<rparr>) db) = Ok (tn_Id tn, us_Id u)"
proof -
  let ?rows = "sort_key (\<lambda>u. - us_Role u) (sort_key us_Id (filter (\<lambda>u. us_Email u = cl_Email cl \<and> us_Status u = UserStatusEnabled) (map snd (ib_users db))))"
  have "v \<in> set ?rows" using assms(7-9) by simp
  then obtain u us where us: "?rows = u # us" by (meson list.set_cases)
  have "sorted (map (\<lambda>u. - us_Role u) ?rows)" by simp
  then have "\<forall>x \<in> set ?rows. us_Role x \<le> us_Role u" unfolding us by auto
  then have role: "us_Role v \<le> us_Role u" using \<open>v \<in> set ?rows\<close> by blast
  have "u \<in> set ?rows" unfolding us by simp
  then have u: "u \<in> set (map snd (ib_users db))" "us_Email u = cl_Email cl" by simp_all
  have "email_match env (cl_Email cl) db = Some u" using assms(6) us by (simp add: email_match_def)
  then have "fst (mapZitadelUserToLurus env (cl\<lparr>cl_EmailVerified := False\<rparr>) db) = Ok (tn_Id tn, us_Id u)"
    using assms(1-5,10) by (auto simp: mapZitadelUserToLurus_def CreateUserFromZitadelClaims_def CreateUserMapping_def Let_def)
  then show ?thesis using u role by blast
qed

theorem email_takeover_witness:
  "\<exists>u \<in> set (map snd (ib_users demo_id_db)). RoleRootUser \<le> us_Role u \<and>
    fst (mapZitadelUserToLurus demo_id_env (demo_claims ''z9''\<lparr>cl_EmailVerified := False\<rparr>) demo_id_db) = Ok (''t1'', us_Id u)"
  using email_takeover [of demo_id_env "demo_claims ''z9''" demo_id_db demo_tenant demo_root] demo_id_rows
  by (auto simp: demo_root_def demo_user_def UserStatusEnabled_def)

text \<open>
  A ban does not end signing in: what an identity with a mapping is signed in as does not depend on the accounts at all, so
  a disabled or a deleted one is signed in as before.
\<close>

theorem banned_signs_in:
  assumes "GetTenantByZitadelOrgID env (cl_OrgID cl) db = Some tn" "IsEnabled tn" "GetUserMappingByZitadelID env (cl_Sub cl) (tn_Id tn) db = Some m"
  shows "fst (mapZitadelUserToLurus env cl (set_users us db)) = Ok (tn_Id tn, im_LurusUserID m)"
proof -
  have "GetTenantByZitadelOrgID env (cl_OrgID cl) (set_users us db) = Some tn" using assms(1) by (cases "ie_tenant_ok env") (simp_all add: GetTenantByZitadelOrgID_def)
  moreover have "GetUserMappingByZitadelID env (cl_Sub cl) (tn_Id tn) (set_users us db) = Some m" using assms(3) by (metis mapping_same set_users_parts(1))
  ultimately show ?thesis using assms(2) by (simp add: mapZitadelUserToLurus_def)
qed

theorem banned_signs_in_witness:
  "fst (mapZitadelUserToLurus demo_id_env (demo_claims ''z1'') (set_users [] demo_id_db)) = Ok (''t1'', 1)"
proof -
  obtain m where "GetUserMappingByZitadelID demo_id_env ''z1'' ''t1'' demo_id_db = Some m" "im_LurusUserID m = 1" using demo_id_rows by blast
  then show ?thesis using banned_signs_in [of demo_id_env "demo_claims ''z1''" demo_id_db demo_tenant m "[]"] demo_id_rows(1-3) by simp
qed

text \<open>
  A session reaches every tenant: without a token, a session that names an account is let in as this account to the tenant of the
  address of the request, whichever tenant the account belongs to, whatever its status, and whether or not the login has expired.
\<close>

theorem session_any_tenant:
  assumes "ze_enabled ze" "bearer_token (zq_authorization req) = []" "zq_session req = Some s" "zs_id s = Some i" "0 < i"
    "GetUserById (ie_bal (ze_id ze)) i (ib_bal (snd st)) = Some u" "GetTenantBySlug (ze_id ze) (zq_tenant_slug req) (snd st) = Some t"
  shows "\<exists>c. ZitadelAuth ze req st = (ZaNext c, st) \<and> tx_TenantID (zc_tenant_context c) = tn_Id t \<and>
    tx_UserID (zc_tenant_context c) = us_Id u \<and> zc_id c = Some (us_Id u)"
  using assms by (simp add: ZitadelAuth_def handleSessionFallback_def session_context_def)

theorem session_any_tenant_witness:
  "\<exists>c. ZitadelAuth demo_zitadel \<lparr>zq_authorization = [], zq_session = Some \<lparr>zs_id = Some 1, zs_token = None, zs_expires = Some 5\<rparr>, zq_tenant_slug = ''s1''\<rparr>
      (\<lparr>jk_publicKeys = [], jk_lastUpdate = None, jk_refreshing = False\<rparr>, demo_id_db) =
      (ZaNext c, \<lparr>jk_publicKeys = [], jk_lastUpdate = None, jk_refreshing = False\<rparr>, demo_id_db) \<and>
    tx_TenantID (zc_tenant_context c) = ''t1'' \<and> tx_UserID (zc_tenant_context c) = 1 \<and> us_TenantId demo_user = ''default''"
proof -
  have "GetUserById demo_balance_env 1 (ib_bal demo_id_db) = Some demo_user" by (simp add: GetUserById_def demo_id_db_def gm_get_def)
  moreover have "GetTenantBySlug demo_id_env ''s1'' demo_id_db = Some demo_tenant" by (simp add: GetTenantBySlug_def demo_id_db_def demo_tenant_def)
  moreover have "ze_enabled demo_zitadel" "ze_id demo_zitadel = demo_id_env" by (simp_all add: demo_zitadel_def)
  moreover have "us_Id demo_user = 1" "us_TenantId demo_user = ''default''" by (simp_all add: demo_user_def)
  ultimately show ?thesis
    using session_any_tenant [of demo_zitadel "\<lparr>zq_authorization = [], zq_session = Some \<lparr>zs_id = Some 1, zs_token = None, zs_expires = Some 5\<rparr>, zq_tenant_slug = ''s1''\<rparr>"
        "\<lparr>zs_id = Some 1, zs_token = None, zs_expires = Some 5\<rparr>" 1
        "(\<lparr>jk_publicKeys = [], jk_lastUpdate = None, jk_refreshing = False\<rparr>, demo_id_db)" demo_user demo_tenant] demo_id_rows(3)
    by (auto simp: bearer_token_def)
qed

text \<open>
  Accounts of other services are never made: the statement that creates one carries no tenant, so it is refused, and both
  operations leave the database as it was and never answer a new account.
\<close>

theorem internal_accounts_never_made:
  shows "snd (InternalCreateUser env req db) = db \<and> (\<forall>u. fst (InternalCreateUser env req db) \<noteq> Inr (False, u)) \<and>
    snd (InternalProvisionUser env preq db) = db \<and> (\<forall>u. fst (InternalProvisionUser env preq db) \<noteq> Ok (Inr (False, u)))"
proof -
  have c: "create_user no_tenant ok i u db = (None, db)" for ok i u
    by (simp add: create_user_def beforeCreate_def no_tenant_def hasTenantIDColumn_def)
  have "snd (InternalCreateUser env req db) = db \<and> (\<forall>u. fst (InternalCreateUser env req db) \<noteq> Inr (False, u))"
    by (auto simp: InternalCreateUser_def c Let_def split: option.splits)
  moreover have "snd (provision_commit env preq t db) = db \<and> (\<forall>u. fst (provision_commit env preq t db) \<noteq> Ok (Inr (False, u)))" for t
    by (auto simp: provision_commit_def c Let_def split: res.splits)
  ultimately show ?thesis by (auto simp: InternalProvisionUser_def Let_def split: option.splits)
qed

text \<open>
  A user name is looked up in one tenant but is unique in all: an identity without mapping and without an account of its address
  cannot be given an account when another tenant has its name, whatever else happens.
\<close>

theorem name_of_other_tenant:
  assumes "GetUserMappingByZitadelID env (cl_Sub cl) tenant db = None" "cl_Email cl = [] \<or> email_match env (cl_Email cl) db = None"
    "v \<in> set (map snd (ib_users db))" "us_Username v = cl_PreferredUsername cl" "cl_PreferredUsername cl \<notin> set (tenant_names tenant db)"
    "cl_PreferredUsername cl \<noteq> []"
  shows "\<exists>e. CreateUserFromZitadelClaims env cl tenant db = (Err e, db)"
proof -
  have "ensureUniqueUsername env (cl_PreferredUsername cl) tenant db = cl_PreferredUsername cl" using assms(5) by (simp add: ensureUniqueUsername_def)
  moreover have "create_user c ok i (new_user (cl_PreferredUsername cl) e d g q x) db = (None, db)" for c ok i e d g q x
    using assms(3,4) by (auto simp: create_user_def new_user_def split: option.splits)
  ultimately show ?thesis using assms(1,2,6) by (auto simp: CreateUserFromZitadelClaims_def Let_def split: option.splits bool.splits)
qed

theorem name_of_other_tenant_witness:
  "\<exists>e. CreateUserFromZitadelClaims (demo_id_env\<lparr>ie_user_read := False\<rparr>) (demo_claims ''z9'') ''t1'' demo_id_db = (Err e, demo_id_db)"
proof -
  have "''root'' \<notin> set (tenant_names ''t1'' demo_id_db)"
    by (simp add: tenant_names_def demo_id_db_def demo_root_def demo_user_def in_scope_def beforeQuery_def WithTenantID_def no_tenant_def hasTenantIDColumn_def)
  then show ?thesis
    using name_of_other_tenant [of "demo_id_env\<lparr>ie_user_read := False\<rparr>" "demo_claims ''z9''" "''t1''" demo_id_db demo_root] demo_id_rows(4,6)
    by (simp add: email_match_def demo_root_def GetUserMappingByZitadelID_def)
qed

text \<open>
  A name that is made unique is free in the tenant, and is the name itself or the first free one with a number.
\<close>

theorem unique_name_least:
  assumes "ie_count_ok env"
  shows "ensureUniqueUsername env base tenant db \<notin> set (tenant_names tenant db) \<and>
    (ensureUniqueUsername env base tenant db = base \<or>
     (\<exists>k \<ge> 2. ensureUniqueUsername env base tenant db = suffixed base k \<and> base \<in> set (tenant_names tenant db) \<and>
        (\<forall>j. 2 \<le> j \<and> j < k \<longrightarrow> suffixed base j \<in> set (tenant_names tenant db))))"
  using assms free_name_least [of 2 "tenant_names tenant db" base] by (auto simp: ensureUniqueUsername_def)

theorem unique_name_least_witness:
  "ensureUniqueUsername demo_id_env ''root'' ''default'' demo_id_db \<notin> set (tenant_names ''default'' demo_id_db)"
  using unique_name_least [of demo_id_env "''root''" "''default''" demo_id_db] by simp

text \<open>
  The limit on fetches of keys counts from the last one that succeeded: a lookup fetches exactly if the key is unknown, no fetch is
  going on and none has succeeded in the last 30 seconds; one that fails leaves no trace, so the next lookup fetches again.
\<close>

theorem key_fetch_iff:
  assumes "getKeyWithRefresh now answer kid m = (k, fetch, m')"
  shows "(fetch \<longleftrightarrow> getKey kid m = None \<and> \<not> jk_refreshing m \<and> (\<forall>t. jk_lastUpdate m = Some t \<longrightarrow> 30 \<le> now - t)) \<and>
    (k \<noteq> None \<longrightarrow> k = getKey kid m') \<and> (answer = None \<longrightarrow> m' = m \<and> k = getKey kid m)"
  using assms
  by (auto simp: getKeyWithRefresh_def tryRefreshKeys_def refreshKeys_def minRefreshInterval_def Let_def split: option.splits if_splits prod.splits)

theorem key_fetch_iff_witness:
  "\<exists>k m'. getKeyWithRefresh 1000 None ''a'' \<lparr>jk_publicKeys = [(''b'', ())], jk_lastUpdate = Some 960, jk_refreshing = False\<rparr> = (k, True, m')"
proof -
  obtain k fetch m' where g: "getKeyWithRefresh 1000 None ''a'' \<lparr>jk_publicKeys = [(''b'', ())], jk_lastUpdate = Some 960, jk_refreshing = False\<rparr> = (k, fetch, m')"
    by (metis prod_cases3)
  show ?thesis using key_fetch_iff [OF g] g by (simp add: getKey_def gm_get_def)
qed

end
