(* ===== verification/Token_Manage.thy ===== *)
theory Token_Manage
  imports User_Identity
begin

text \<open>
  How users manage their tokens (\<^verbatim>\<open>internal/adapter/handler/token.go\<close>, \<^verbatim>\<open>app/token_service.go\<close>, \<^verbatim>\<open>adapter/repo/token.go\<close>)
  and how other services do (\<^verbatim>\<open>adapter/handler/internal_api_ext.go\<close>), on the rows of the ledger. Decoded requests are
  records; outcomes of statements, random keys and new numbers are arguments. Audit records are not modelled.
\<close>

section \<open>Rows\<close>

record tokens_env =
  tm_now :: int
  tm_per_unit :: rat
  tm_fl :: "rat \<Rightarrow> rat"
  tm_new_key :: "string option"
  tm_new_id :: int
  tm_read_ok :: bool
  tm_write_ok :: bool
  tm_commit_ok :: bool

definition GetTokenByIds :: "tokens_env \<Rightarrow> int \<Rightarrow> int \<Rightarrow> ledger \<Rightarrow> token option" where
  "GetTokenByIds env i userId lg =
     (if i = 0 \<or> userId = 0 \<or> \<not> tm_read_ok env then None
      else (case gm_get (lg_tokens lg) i of None \<Rightarrow> None | Some t \<Rightarrow> if tk_UserId t = userId then Some t else None))"

definition GetTokenById :: "tokens_env \<Rightarrow> int \<Rightarrow> ledger \<Rightarrow> token option" where
  "GetTokenById env i lg = (if i = 0 \<or> \<not> tm_read_ok env then None else gm_get (lg_tokens lg) i)"

text \<open>Creation fills members that are zero with the defaults of their columns: the status and the expiry.\<close>

definition TokenInsert :: "tokens_env \<Rightarrow> token \<Rightarrow> ledger \<Rightarrow> token option \<times> ledger" where
  "TokenInsert env t lg =
     (case beforeCreate (WithTenantID no_tenant (tk_TenantId t)) ''tokens'' (tk_TenantId t) of
        None \<Rightarrow> (None, lg)
      | Some tenant \<Rightarrow>
          if \<not> tm_write_ok env then (None, lg)
          else (let t1 = t\<lparr>tk_Id := tm_new_id env, tk_TenantId := tenant,
                  tk_Status := (if tk_Status t = 0 then TokenStatusEnabled else tk_Status t),
                  tk_ExpiredTime := (if tk_ExpiredTime t = 0 then -1 else tk_ExpiredTime t)\<rparr>
                in (Some t1, lg\<lparr>lg_tokens := gm_put (lg_tokens lg) (tm_new_id env) t1\<rparr>)))"

definition TokenUpdate :: "tokens_env \<Rightarrow> token \<Rightarrow> ledger \<Rightarrow> bool \<times> ledger" where
  "TokenUpdate env t lg =
     (if \<not> tm_write_ok env then (False, lg)
      else (True, lg\<lparr>lg_tokens := gm.modify (lg_tokens lg) (tk_Id t) (\<lambda>r. r\<lparr>tk_Name := tk_Name t, tk_Status := tk_Status t,
        tk_ExpiredTime := tk_ExpiredTime t, tk_RemainQuota := tk_RemainQuota t, tk_UnlimitedQuota := tk_UnlimitedQuota t,
        tk_ModelLimitsEnabled := tk_ModelLimitsEnabled t, tk_ModelLimits := tk_ModelLimits t, tk_AllowIps := tk_AllowIps t,
        tk_Group := tk_Group t, tk_CrossGroupRetry := tk_CrossGroupRetry t\<rparr>)\<rparr>))"

definition TokenDelete :: "tokens_env \<Rightarrow> int \<Rightarrow> ledger \<Rightarrow> bool \<times> ledger" where
  "TokenDelete env i lg = (if \<not> tm_write_ok env then (False, lg) else (True, lg\<lparr>lg_tokens := gm_del (lg_tokens lg) i\<rparr>))"

definition DeleteTokenById :: "tokens_env \<Rightarrow> int \<Rightarrow> int \<Rightarrow> ledger \<Rightarrow> bool \<times> ledger" where
  "DeleteTokenById env i userId lg =
     (case GetTokenByIds env i userId lg of None \<Rightarrow> (False, lg) | Some t \<Rightarrow> TokenDelete env (tk_Id t) lg)"

text \<open>A transaction that removes those of the tokens that are the user's.\<close>

definition BatchDeleteTokens :: "tokens_env \<Rightarrow> int list \<Rightarrow> int \<Rightarrow> ledger \<Rightarrow> nat option \<times> ledger" where
  "BatchDeleteTokens env ids userId lg =
     (let mine = filter (\<lambda>(i, t). tk_UserId t = userId \<and> i \<in> set ids) (lg_tokens lg)
      in if ids = [] \<or> \<not> tm_read_ok env \<or> \<not> tm_write_ok env \<or> \<not> tm_commit_ok env then (None, lg)
         else (Some (length mine), lg\<lparr>lg_tokens := filter (\<lambda>(i, t). \<not> (tk_UserId t = userId \<and> i \<in> set ids)) (lg_tokens lg)\<rparr>))"

section \<open>Rules\<close>

definition ValidateTokenName :: "string \<Rightarrow> bool" where
  "ValidateTokenName name \<longleftrightarrow> length name \<le> 50"

definition max_token_quota :: "tokens_env \<Rightarrow> int" where
  "max_token_quota env = trunc (tm_fl env (1000000000 * tm_per_unit env))"

definition ValidateTokenQuota :: "tokens_env \<Rightarrow> int \<Rightarrow> bool \<Rightarrow> bool" where
  "ValidateTokenQuota env q unlimited \<longleftrightarrow> unlimited \<or> \<not> (q < 0 \<or> max_token_quota env < q)"

definition CanEnableToken :: "int \<Rightarrow> token \<Rightarrow> bool" where
  "CanEnableToken now t \<longleftrightarrow>
     \<not> (tk_Status t = TokenStatusExpired \<and> tk_ExpiredTime t \<le> now \<and> tk_ExpiredTime t \<noteq> -1) \<and>
     \<not> (tk_Status t = TokenStatusExhausted \<and> tk_RemainQuota t \<le> 0 \<and> \<not> tk_UnlimitedQuota t)"

definition GetTenantIdFromContext :: "string \<Rightarrow> string" where
  "GetTenantIdFromContext t = (if t = [] then ''default'' else t)"

definition BuildCleanToken :: "tokens_env \<Rightarrow> int \<Rightarrow> string \<Rightarrow> token \<Rightarrow> string \<Rightarrow> token" where
  "BuildCleanToken env userId tenant t key =
     \<lparr>tk_Id = 0, tk_UserId = userId, tk_TenantId = tenant, tk_Key = key, tk_Status = 0, tk_Name = tk_Name t, tk_CreatedTime = tm_now env,
      tk_AccessedTime = tm_now env, tk_ExpiredTime = tk_ExpiredTime t, tk_RemainQuota = tk_RemainQuota t, tk_UnlimitedQuota = tk_UnlimitedQuota t,
      tk_ModelLimitsEnabled = tk_ModelLimitsEnabled t, tk_ModelLimits = tk_ModelLimits t, tk_AllowIps = tk_AllowIps t, tk_UsedQuota = 0,
      tk_Group = tk_Group t, tk_CrossGroupRetry = tk_CrossGroupRetry t, tk_IdentityAccountID = 0\<rparr>"

definition ApplyTokenUpdate :: "token \<Rightarrow> token \<Rightarrow> token" where
  "ApplyTokenUpdate target src = target\<lparr>tk_Name := tk_Name src, tk_ExpiredTime := tk_ExpiredTime src, tk_RemainQuota := tk_RemainQuota src,
     tk_UnlimitedQuota := tk_UnlimitedQuota src, tk_ModelLimitsEnabled := tk_ModelLimitsEnabled src, tk_ModelLimits := tk_ModelLimits src,
     tk_AllowIps := tk_AllowIps src, tk_Group := tk_Group src, tk_CrossGroupRetry := tk_CrossGroupRetry src\<rparr>"

section \<open>The user's operations\<close>

definition AddToken :: "tokens_env \<Rightarrow> int \<Rightarrow> string \<Rightarrow> token \<Rightarrow> ledger \<Rightarrow> token res \<times> ledger" where
  "AddToken env userId tenant t lg =
     (if \<not> ValidateTokenName (tk_Name t) then (Err ''name too long'', lg)
      else if \<not> ValidateTokenQuota env (tk_RemainQuota t) (tk_UnlimitedQuota t) then (Err ''quota out of range'', lg)
      else (case tm_new_key env of
              None \<Rightarrow> (Err ''no key'', lg)
            | Some key \<Rightarrow>
                (case TokenInsert env (BuildCleanToken env userId (GetTenantIdFromContext tenant) t key) lg of
                   (None, lg1) \<Rightarrow> (Err ''failed to insert'', lg1)
                 | (Some t1, lg1) \<Rightarrow> (Ok t1, lg1))))"

definition UpdateToken :: "tokens_env \<Rightarrow> int \<Rightarrow> bool \<Rightarrow> token \<Rightarrow> ledger \<Rightarrow> token res \<times> ledger" where
  "UpdateToken env userId status_only t lg =
     (if \<not> ValidateTokenName (tk_Name t) then (Err ''name too long'', lg)
      else if \<not> ValidateTokenQuota env (tk_RemainQuota t) (tk_UnlimitedQuota t) then (Err ''quota out of range'', lg)
      else (case GetTokenByIds env (tk_Id t) userId lg of
              None \<Rightarrow> (Err ''not found'', lg)
            | Some old \<Rightarrow>
                if tk_Status t = TokenStatusEnabled \<and> \<not> CanEnableToken (tm_now env) old then (Err ''cannot be enabled'', lg)
                else (let t1 = (if status_only then old\<lparr>tk_Status := tk_Status t\<rparr> else ApplyTokenUpdate old t)
                      in case TokenUpdate env t1 lg of
                           (False, lg1) \<Rightarrow> (Err ''failed to update'', lg1)
                         | (True, lg1) \<Rightarrow> (Ok t1, lg1))))"

text \<open>One request of a user.\<close>

datatype token_op =
    TrAdd string token
  | TrUpdate bool token
  | TrDelete int
  | TrDeleteBatch "int list"

fun token_request :: "tokens_env \<Rightarrow> int \<Rightarrow> token_op \<Rightarrow> ledger \<Rightarrow> ledger" where
  "token_request env userId (TrAdd tenant t) lg = snd (AddToken env userId tenant t lg)"
| "token_request env userId (TrUpdate status_only t) lg = snd (UpdateToken env userId status_only t lg)"
| "token_request env userId (TrDelete i) lg = snd (DeleteTokenById env i userId lg)"
| "token_request env userId (TrDeleteBatch ids) lg = snd (BatchDeleteTokens env ids userId lg)"

section \<open>Tokens made by other services\<close>

record new_token_request =
  ntq_UserId :: int
  ntq_Name :: string
  ntq_UnlimitedQuota :: bool
  ntq_RemainQuota :: int
  ntq_IdempotencyKey :: string

definition InternalCreateToken :: "tokens_env \<Rightarrow> new_token_request \<Rightarrow> ledger \<Rightarrow> (int \<times> string + bool \<times> token) \<times> ledger" where
  "InternalCreateToken env req lg =
     (if ntq_UserId req = 0 \<or> ntq_Name req = [] then (Inl (400, ''invalid request''), lg)
      else (case (if tm_read_ok env then gm_get (lg_users lg) (ntq_UserId req) else None) of
              None \<Rightarrow> (Inl (404, ''user not found''), lg)
            | Some u \<Rightarrow>
                if us_Status u = UserStatusDisabled then (Inl (403, ''user is disabled''), lg)
                else (case (if ntq_IdempotencyKey req \<noteq> []
                            then find (\<lambda>t. tk_UserId t = ntq_UserId req \<and> tk_Name t = ntq_Name req) (sort_key tk_Id (map snd (lg_tokens lg))) else None) of
                        Some t \<Rightarrow> (Inr (True, t), lg)
                      | None \<Rightarrow>
                          (case tm_new_key env of
                             None \<Rightarrow> (Inl (500, ''no key''), lg)
                           | Some key \<Rightarrow>
                               (case TokenInsert env \<lparr>tk_Id = 0, tk_UserId = ntq_UserId req, tk_TenantId = us_TenantId u, tk_Key = key,
                                    tk_Status = TokenStatusEnabled, tk_Name = ntq_Name req, tk_CreatedTime = tm_now env, tk_AccessedTime = tm_now env,
                                    tk_ExpiredTime = -1, tk_RemainQuota = ntq_RemainQuota req, tk_UnlimitedQuota = ntq_UnlimitedQuota req,
                                    tk_ModelLimitsEnabled = False, tk_ModelLimits = [], tk_AllowIps = None, tk_UsedQuota = 0, tk_Group = us_Group u,
                                    tk_CrossGroupRetry = False, tk_IdentityAccountID = 0\<rparr> lg of
                                  (None, lg1) \<Rightarrow> (Inl (500, ''failed to create''), lg1)
                                | (Some t, lg1) \<Rightarrow> (Inr (False, t), lg1))))))"

record token_change =
  tg_Name :: "string option"
  tg_Status :: "int option"
  tg_ExpiredTime :: "int option"
  tg_RemainQuota :: "int option"
  tg_UnlimitedQuota :: "bool option"
  tg_ModelLimitsEnabled :: "bool option"
  tg_ModelLimits :: "string option"
  tg_AllowIps :: "string option"
  tg_Group :: "string option"
  tg_CrossGroupRetry :: "bool option"

definition InternalUpdateToken :: "tokens_env \<Rightarrow> int \<Rightarrow> token_change \<Rightarrow> ledger \<Rightarrow> (int \<times> string) option \<times> ledger" where
  "InternalUpdateToken env i req lg =
     (if i \<le> 0 then (Some (400, ''invalid token id''), lg)
      else (case GetTokenById env i lg of
              None \<Rightarrow> (Some (404, ''token not found''), lg)
            | Some t \<Rightarrow>
                if (case tg_Name req of None \<Rightarrow> False | Some n \<Rightarrow> \<not> ValidateTokenName n) then (Some (400, ''name too long''), lg)
                else (case TokenUpdate env (t\<lparr>tk_Name := set_opt (tg_Name req) (tk_Name t), tk_Status := set_opt (tg_Status req) (tk_Status t),
                         tk_ExpiredTime := set_opt (tg_ExpiredTime req) (tk_ExpiredTime t), tk_RemainQuota := set_opt (tg_RemainQuota req) (tk_RemainQuota t),
                         tk_UnlimitedQuota := set_opt (tg_UnlimitedQuota req) (tk_UnlimitedQuota t),
                         tk_ModelLimitsEnabled := set_opt (tg_ModelLimitsEnabled req) (tk_ModelLimitsEnabled t),
                         tk_ModelLimits := set_opt (tg_ModelLimits req) (tk_ModelLimits t),
                         tk_AllowIps := (case tg_AllowIps req of None \<Rightarrow> tk_AllowIps t | Some s \<Rightarrow> Some s),
                         tk_Group := set_opt (tg_Group req) (tk_Group t), tk_CrossGroupRetry := set_opt (tg_CrossGroupRetry req) (tk_CrossGroupRetry t)\<rparr>) lg of
                        (False, lg1) \<Rightarrow> (Some (500, ''failed to update''), lg1)
                      | (True, lg1) \<Rightarrow> (None, lg1))))"

definition InternalDeleteToken :: "tokens_env \<Rightarrow> int \<Rightarrow> ledger \<Rightarrow> (int \<times> string) option \<times> ledger" where
  "InternalDeleteToken env i lg =
     (if i \<le> 0 then (Some (400, ''invalid token id''), lg)
      else (case GetTokenById env i lg of
              None \<Rightarrow> (Some (404, ''token not found''), lg)
            | Some t \<Rightarrow>
                (case TokenDelete env (tk_Id t) lg of
                   (False, lg1) \<Rightarrow> (Some (500, ''failed to delete''), lg1)
                 | (True, lg1) \<Rightarrow> (None, lg1))))"

text \<open>What is reported of a token: granted, used, available, and the expiry with 0 for never.\<close>

definition InternalGetTokenUsage :: "tokens_env \<Rightarrow> int \<Rightarrow> ledger \<Rightarrow> (int \<times> int \<times> int \<times> int) option" where
  "InternalGetTokenUsage env i lg =
     (if i \<le> 0 then None
      else map_option (\<lambda>t. (tk_RemainQuota t + tk_UsedQuota t, tk_UsedQuota t, tk_RemainQuota t, if tk_ExpiredTime t = -1 then 0 else tk_ExpiredTime t))
        (GetTokenById env i lg))"

text \<open>
  The account of the platform of each token that has none, found through the identities of its user; the answers of the platform and
  the outcome of each update are functions.
\<close>

definition account_of_user :: "(string \<Rightarrow> int option) \<Rightarrow> id_map list \<Rightarrow> int \<Rightarrow> int option" where
  "account_of_user platform ms u =
     (case filter (\<lambda>m. im_LurusUserID m = u \<and> im_IsActive m \<and> im_ZitadelUserID m \<noteq> [] \<and> platform (im_ZitadelUserID m) \<noteq> None) ms of
        [] \<Rightarrow> None | m # _ \<Rightarrow> platform (im_ZitadelUserID m))"

definition InternalBackfillTokenAccountIDs :: "(string \<Rightarrow> int option) \<Rightarrow> (int \<Rightarrow> bool) \<Rightarrow> id_map list \<Rightarrow> ledger \<Rightarrow> ledger" where
  "InternalBackfillTokenAccountIDs platform ok ms lg =
     lg\<lparr>lg_tokens := map (\<lambda>(i, t). (i,
        if tk_IdentityAccountID t = 0 \<and> ok i then
          (case account_of_user platform ms (tk_UserId t) of
             None \<Rightarrow> t | Some a \<Rightarrow> if a \<le> 0 then t else t\<lparr>tk_IdentityAccountID := a\<rparr>)
        else t)) (lg_tokens lg)\<rparr>"

section \<open>Rows of one user\<close>

definition tokens_ok :: "ledger \<Rightarrow> bool" where
  "tokens_ok lg \<longleftrightarrow> gm_ok (lg_tokens lg) \<and> (\<forall>i t. gm_get (lg_tokens lg) i = Some t \<longrightarrow> tk_Id t = i)"

lemma own_token: "GetTokenByIds env i u lg = Some t \<Longrightarrow> gm_get (lg_tokens lg) i = Some t \<and> tk_UserId t = u"
  by (auto simp: GetTokenByIds_def split: if_splits option.splits)

lemma gm_get_filter: "gm_ok m \<Longrightarrow> gm_get (filter P m) i = (case gm_get m i of None \<Rightarrow> None | Some v \<Rightarrow> if P (i, v) then Some v else None)"
proof (induction m)
  case (Cons x m)
  obtain j v where x: "x = (j, v)" by (cases x)
  have "gm_ok m" "gm_get m j = None" using Cons.prems by (auto simp: x gm_ok_def gm_keys_def gm_get_def map_of_eq_None_iff)
  then show ?case using Cons.IH by (auto simp: x gm_get_def split: option.splits)
qed (simp add: gm_get_def)

lemma gm_ok_filter: "gm_ok m \<Longrightarrow> gm_ok (filter P m)"
  by (auto simp: gm_ok_def gm_keys_def intro: distinct_map_filter)

lemma TokenUpdate_row:
  "TokenUpdate env t lg = (ok, lg') \<Longrightarrow> gm_get (lg_tokens lg') i =
     (if ok \<and> i = tk_Id t then map_option (\<lambda>r. r\<lparr>tk_Name := tk_Name t, tk_Status := tk_Status t,
        tk_ExpiredTime := tk_ExpiredTime t, tk_RemainQuota := tk_RemainQuota t, tk_UnlimitedQuota := tk_UnlimitedQuota t,
        tk_ModelLimitsEnabled := tk_ModelLimitsEnabled t, tk_ModelLimits := tk_ModelLimits t, tk_AllowIps := tk_AllowIps t,
        tk_Group := tk_Group t, tk_CrossGroupRetry := tk_CrossGroupRetry t\<rparr>) (gm_get (lg_tokens lg) i)
      else gm_get (lg_tokens lg) i)"
  by (auto simp: TokenUpdate_def gm.get_modify split: if_splits)

lemma TokenUpdate_ok: "TokenUpdate env t lg = (ok, lg') \<Longrightarrow> tokens_ok lg \<Longrightarrow> tokens_ok lg'"
  unfolding tokens_ok_def TokenUpdate_row by (auto simp: TokenUpdate_def gm.get_modify intro: gm.ok_modify split: if_splits)

lemma AddToken_cases:
  assumes "AddToken env u tenant t lg = (r, lg')"
  shows "lg' = lg \<and> (\<exists>e. r = Err e) \<or>
    (\<exists>t1. r = Ok t1 \<and> lg_tokens lg' = gm_put (lg_tokens lg) (tk_Id t1) t1 \<and> tk_Id t1 = tm_new_id env \<and> tk_UserId t1 = u \<and>
      tk_Status t1 = TokenStatusEnabled \<and> tk_ExpiredTime t1 = (if tk_ExpiredTime t = 0 then -1 else tk_ExpiredTime t) \<and>
      tk_RemainQuota t1 = tk_RemainQuota t \<and> tk_UnlimitedQuota t1 = tk_UnlimitedQuota t \<and>
      ValidateTokenQuota env (tk_RemainQuota t) (tk_UnlimitedQuota t))"
  using assms by (auto simp: AddToken_def TokenInsert_def BuildCleanToken_def Let_def split: if_splits option.splits)

lemma UpdateToken_cases:
  assumes "UpdateToken env u so t lg = (r, lg')" "tokens_ok lg"
  shows "lg' = lg \<and> (\<exists>e. r = Err e) \<or>
    (\<exists>old t1. r = Ok t1 \<and> gm_get (lg_tokens lg) (tk_Id t) = Some old \<and> tk_UserId old = u \<and> tk_Id t1 = tk_Id t \<and>
      t1 = (if so then old\<lparr>tk_Status := tk_Status t\<rparr> else ApplyTokenUpdate old t) \<and>
      (\<forall>i. gm_get (lg_tokens lg') i = (if i = tk_Id t then Some t1 else gm_get (lg_tokens lg) i)) \<and> tokens_ok lg' \<and>
      ValidateTokenQuota env (tk_RemainQuota t) (tk_UnlimitedQuota t))"
proof (cases "GetTokenByIds env (tk_Id t) u lg")
  case None
  then show ?thesis using assms(1) by (auto simp: UpdateToken_def split: if_splits)
next
  case (Some old)
  note o = own_token [OF Some]
  let ?t1 = "if so then old\<lparr>tk_Status := tk_Status t\<rparr> else ApplyTokenUpdate old t"
  obtain ok lg1 where w: "TokenUpdate env ?t1 lg = (ok, lg1)" by fastforce
  have id: "tk_Id ?t1 = tk_Id t" using o assms(2) by (simp add: tokens_ok_def ApplyTokenUpdate_def)
  have row: "gm_get (lg_tokens lg1) i = (if ok \<and> i = tk_Id t then Some ?t1 else gm_get (lg_tokens lg) i)" for i
    using TokenUpdate_row [OF w, of i] o id by (auto simp: ApplyTokenUpdate_def split: if_splits)
  show ?thesis
  proof (cases "lg' = lg \<and> (\<exists>e. r = Err e)")
    case False
    have f: "\<not> ok \<Longrightarrow> lg1 = lg" using w by (auto simp: TokenUpdate_def split: if_splits)
    have "r = Ok ?t1" "lg' = lg1" "ok" "ValidateTokenQuota env (tk_RemainQuota t) (tk_UnlimitedQuota t)"
      using assms(1) Some w False f by (auto simp: UpdateToken_def Let_def split: if_splits bool.splits prod.splits)
    then show ?thesis using o id row TokenUpdate_ok [OF w assms(2)] by (intro disjI2 exI [of _ old] exI [of _ ?t1]) simp
  qed simp
qed

lemma request_of_other:
  assumes "tokens_ok lg" "gm_get (lg_tokens lg) i = Some t" "tk_UserId t \<noteq> u" "tm_new_id env \<noteq> i"
  shows "gm_get (lg_tokens (token_request env u req lg)) i = Some t \<and> tokens_ok (token_request env u req lg)"
proof (cases req)
  case (TrAdd tenant x)
  obtain r lg' where a: "AddToken env u tenant x lg = (r, lg')" by fastforce
  show ?thesis using AddToken_cases [OF a] assms TrAdd a by (auto simp: tokens_ok_def split: if_splits)
next
  case (TrUpdate so x)
  obtain r lg' where a: "UpdateToken env u so x lg = (r, lg')" by fastforce
  show ?thesis using UpdateToken_cases [OF a assms(1)] assms TrUpdate a by auto
next
  case (TrDelete k)
  show ?thesis
  proof (cases "GetTokenByIds env k u lg")
    case None
    then show ?thesis using assms TrDelete by (simp add: DeleteTokenById_def)
  next
    case (Some x)
    then have "gm_get (lg_tokens lg) k = Some x" "tk_UserId x = u" "tk_Id x = k" using own_token [OF Some] assms(1) by (auto simp: tokens_ok_def)
    then show ?thesis using assms TrDelete Some by (auto simp: DeleteTokenById_def TokenDelete_def tokens_ok_def)
  qed
next
  case (TrDeleteBatch ids)
  then show ?thesis using assms by (auto simp: BatchDeleteTokens_def tokens_ok_def gm_get_filter gm_ok_filter Let_def split: option.splits if_splits)
qed

fun token_requests :: "(tokens_env \<times> int \<times> token_op) list \<Rightarrow> ledger \<Rightarrow> ledger" where
  "token_requests [] lg = lg"
| "token_requests ((env, u, req) # rs) lg = token_requests rs (token_request env u req lg)"

section \<open>Properties\<close>

text \<open>
  C25. Tokens belong to their user: whatever others ask for, in any order and with any failures, a token stays as it is.
\<close>

theorem token_ownership:
  assumes "tokens_ok lg" "gm_get (lg_tokens lg) i = Some t" "\<forall>(env, u, req) \<in> set rs. u \<noteq> tk_UserId t \<and> tm_new_id env \<noteq> i"
  shows "gm_get (lg_tokens (token_requests rs lg)) i = Some t"
  using assms
proof (induction rs arbitrary: lg)
  case (Cons q rs)
  obtain env u req where q: "q = (env, u, req)" by (cases q)
  have "gm_get (lg_tokens (token_request env u req lg)) i = Some t \<and> tokens_ok (token_request env u req lg)"
    by (rule request_of_other [OF Cons.prems(1,2)]) (use Cons.prems(3) q in auto)
  then show ?case using Cons.IH Cons.prems(3) by (simp add: q)
qed simp

theorem token_ownership_witness:
  "gm_get (lg_tokens (token_requests [(\<lparr>tm_now = 0, tm_per_unit = 1, tm_fl = id, tm_new_key = None, tm_new_id = 6, tm_read_ok = True, tm_write_ok = True,
     tm_commit_ok = True\<rparr>, 2, TrDelete 5)] demo_ledger)) 5 = Some demo_token"
  by (rule token_ownership) (auto simp: tokens_ok_def gm_ok_def gm_keys_def gm_get_def demo_ledger_def demo_token_def split: if_splits)

definition quota_bounded :: "tokens_env \<Rightarrow> int \<Rightarrow> token \<Rightarrow> ledger \<Rightarrow> bool" where
  "quota_bounded env u t lg \<longleftrightarrow> gm_get (lg_tokens lg) (tk_Id t) = Some t \<and> tk_UserId t = u \<and>
     (tk_UnlimitedQuota t \<or> 0 \<le> tk_RemainQuota t \<and> tk_RemainQuota t \<le> max_token_quota env)"

text \<open>
  A token that a user makes or changes as a whole has a quota within bounds or none at all, and belongs to the user. An
  expiry of 0 means never when the token is made, but 1970 when it is changed.
\<close>

theorem token_quota_bounds:
  assumes "tokens_ok lg"
  shows "(case AddToken env u tenant t lg of
       (Ok t1, lg1) \<Rightarrow> quota_bounded env u t1 lg1 \<and> (tk_ExpiredTime t = 0 \<longrightarrow> tk_ExpiredTime t1 = -1) | (_, lg1) \<Rightarrow> lg1 = lg) \<and>
     (case UpdateToken env u False t lg of
       (Ok t1, lg1) \<Rightarrow> quota_bounded env u t1 lg1 \<and> (tk_ExpiredTime t = 0 \<longrightarrow> tk_ExpiredTime t1 = 0) | (_, lg1) \<Rightarrow> lg1 = lg)"
proof -
  obtain r lg1 where a: "AddToken env u tenant t lg = (r, lg1)" by fastforce
  obtain r2 lg2 where b: "UpdateToken env u False t lg = (r2, lg2)" by fastforce
  show ?thesis using AddToken_cases [OF a] UpdateToken_cases [OF b assms] unfolding a b
    by (auto simp: ValidateTokenQuota_def ApplyTokenUpdate_def quota_bounded_def)
qed

theorem token_quota_bounds_witness:
  "\<exists>r lg1. AddToken \<lparr>tm_now = 0, tm_per_unit = 1, tm_fl = id, tm_new_key = Some ''n'', tm_new_id = 6, tm_read_ok = True, tm_write_ok = True,
     tm_commit_ok = True\<rparr> 2 [] (demo_token\<lparr>tk_ExpiredTime := 0\<rparr>) demo_ledger = (Ok r, lg1) \<and> tk_ExpiredTime r = -1 \<and> tk_UserId r = 2"
proof -
  let ?e = "\<lparr>tm_now = 0, tm_per_unit = 1, tm_fl = id, tm_new_key = Some ''n'', tm_new_id = 6, tm_read_ok = True, tm_write_ok = True, tm_commit_ok = True\<rparr>"
  have "tokens_ok demo_ledger" by (auto simp: tokens_ok_def gm_ok_def gm_keys_def gm_get_def demo_ledger_def demo_token_def split: if_splits)
  moreover have "\<exists>r lg1. AddToken ?e 2 [] (demo_token\<lparr>tk_ExpiredTime := 0\<rparr>) demo_ledger = (Ok r, lg1)"
    using trunc_int [of 1000000000] by (simp add: AddToken_def ValidateTokenName_def ValidateTokenQuota_def max_token_quota_def demo_token_def TokenInsert_def BuildCleanToken_def
        GetTenantIdFromContext_def beforeCreate_def WithTenantID_def no_tenant_def Let_def)
  ultimately show ?thesis using token_quota_bounds [where lg = demo_ledger and env = ?e and u = 2 and tenant = "[]" and t = "demo_token\<lparr>tk_ExpiredTime := 0\<rparr>"] by (auto simp: quota_bounded_def)
qed

end
