(* ===== verification/Internal_Access.thy ===== *)
theory Internal_Access
  imports Token_Manage
begin

text \<open>
  Other services and their keys: keys with scopes (\<^verbatim>\<open>internal/domain/entity/internal_api_key.go\<close>,
  \<^verbatim>\<open>adapter/repo/internal_api_key.go\<close>), their administration (\<^verbatim>\<open>adapter/handler/internal_api.go\<close>), the middlewares
  (\<^verbatim>\<open>adapter/middleware/internal_api_auth.go\<close>) and the table of routes (\<^verbatim>\<open>handler/router/internal-api-router.go\<close>) over
  the operations of \<open>Balance_Ops\<close>, \<open>User_Identity\<close> and \<open>Token_Manage\<close>. The hash of keys is an argument. The scopes of a row
  are the decoded text of its column, and none if it does not decode.
\<close>

section \<open>Keys\<close>

definition ScopeUserRead :: string where "ScopeUserRead = ''user:read''"
definition ScopeUserWrite :: string where "ScopeUserWrite = ''user:write''"
definition ScopeUserDelete :: string where "ScopeUserDelete = ''user:delete''"
definition ScopeSubscriptionRead :: string where "ScopeSubscriptionRead = ''subscription:read''"
definition ScopeSubscriptionWrite :: string where "ScopeSubscriptionWrite = ''subscription:write''"
definition ScopeQuotaRead :: string where "ScopeQuotaRead = ''quota:read''"
definition ScopeQuotaWrite :: string where "ScopeQuotaWrite = ''quota:write''"
definition ScopeBalanceRead :: string where "ScopeBalanceRead = ''balance:read''"
definition ScopeBalanceWrite :: string where "ScopeBalanceWrite = ''balance:write''"
definition ScopeTokenRead :: string where "ScopeTokenRead = ''token:read''"
definition ScopeTokenWrite :: string where "ScopeTokenWrite = ''token:write''"
definition ScopeCurrencyRead :: string where "ScopeCurrencyRead = ''currency:read''"
definition ScopeCurrencyExchange :: string where "ScopeCurrencyExchange = ''currency:exchange''"
definition ScopeAuthLogin :: string where "ScopeAuthLogin = ''auth:login''"
definition ScopeLogRead :: string where "ScopeLogRead = ''log:read''"
definition ScopeModelRead :: string where "ScopeModelRead = ''model:read''"
definition ScopeAll :: string where "ScopeAll = ''*''"

lemmas scope_defs = ScopeUserRead_def ScopeUserWrite_def ScopeUserDelete_def ScopeSubscriptionRead_def ScopeSubscriptionWrite_def
  ScopeQuotaRead_def ScopeQuotaWrite_def ScopeBalanceRead_def ScopeBalanceWrite_def ScopeTokenRead_def ScopeTokenWrite_def
  ScopeCurrencyRead_def ScopeCurrencyExchange_def ScopeAuthLogin_def ScopeLogRead_def ScopeModelRead_def ScopeAll_def

definition GetAvailableScopes :: "string list" where
  "GetAvailableScopes = [ScopeUserRead, ScopeUserWrite, ScopeUserDelete, ScopeSubscriptionRead, ScopeSubscriptionWrite, ScopeQuotaRead,
     ScopeQuotaWrite, ScopeBalanceRead, ScopeBalanceWrite, ScopeTokenRead, ScopeTokenWrite, ScopeCurrencyRead, ScopeCurrencyExchange,
     ScopeLogRead, ScopeModelRead, ScopeAuthLogin, ScopeAll]"

record internal_key =
  ik_Id :: int
  ik_Name :: string
  ik_KeyHash :: string
  ik_KeyPrefix :: string
  ik_Scopes :: "string list option"     \<comment> \<open>\<open>None\<close> does not decode\<close>
  ik_CreatedBy :: int
  ik_ExpiresAt :: int
  ik_Enabled :: bool
  ik_Description :: string

type_synonym key_table = "(int, internal_key) gomap"

definition GetScopes :: "internal_key \<Rightarrow> string list" where
  "GetScopes k = (case ik_Scopes k of None \<Rightarrow> [] | Some ss \<Rightarrow> ss)"

definition HasScope :: "internal_key \<Rightarrow> string \<Rightarrow> bool" where
  "HasScope k scope \<longleftrightarrow> list_ex (\<lambda>s. s = ScopeAll \<or> s = scope) (GetScopes k)"

record key_env =
  ke_now :: int
  ke_hash :: "string \<Rightarrow> string"
  ke_random :: string                   \<comment> \<open>32 characters\<close>
  ke_id :: int
  ke_read_ok :: bool
  ke_write_ok :: bool

text \<open>Hashes are unique in the table.\<close>

definition CreateInternalApiKey :: "key_env \<Rightarrow> string \<Rightarrow> string list \<Rightarrow> int \<Rightarrow> int \<Rightarrow> string \<Rightarrow> key_table \<Rightarrow> (string \<times> internal_key) option \<times> key_table" where
  "CreateInternalApiKey env name scopes by expires descr ks =
     (let key = ''lurus_ik_'' @ ke_random env;
          k = \<lparr>ik_Id = ke_id env, ik_Name = name, ik_KeyHash = ke_hash env key, ik_KeyPrefix = take 16 key, ik_Scopes = Some scopes,
                ik_CreatedBy = by, ik_ExpiresAt = expires, ik_Enabled = True, ik_Description = descr\<rparr>
      in if \<not> ke_write_ok env \<or> list_ex (\<lambda>x. ik_KeyHash x = ik_KeyHash k) (map snd ks) then (None, ks)
         else (Some (key, k), gm_put ks (ke_id env) k))"

definition ValidateInternalApiKey :: "key_env \<Rightarrow> string \<Rightarrow> key_table \<Rightarrow> internal_key option" where
  "ValidateInternalApiKey env key ks =
     (case (if ke_read_ok env then find (\<lambda>k. ik_KeyHash k = ke_hash env key \<and> ik_Enabled k) (map snd ks) else None) of
        None \<Rightarrow> None
      | Some k \<Rightarrow> if 0 < ik_ExpiresAt k \<and> ik_ExpiresAt k < ke_now env then None else Some k)"

definition DeleteInternalApiKey :: "key_env \<Rightarrow> int \<Rightarrow> key_table \<Rightarrow> bool \<times> key_table" where
  "DeleteInternalApiKey env i ks = (if \<not> ke_write_ok env then (False, ks) else (True, gm_del ks i))"

definition ToggleInternalApiKey :: "key_env \<Rightarrow> int \<Rightarrow> key_table \<Rightarrow> bool \<times> key_table" where
  "ToggleInternalApiKey env i ks =
     (case (if ke_read_ok env then gm_get ks i else None) of
        None \<Rightarrow> (False, ks)
      | Some k \<Rightarrow> if \<not> ke_write_ok env then (False, ks) else (True, gm.modify ks i (\<lambda>x. x\<lparr>ik_Enabled := \<not> ik_Enabled k\<rparr>)))"

definition UpdateInternalApiKey :: "key_env \<Rightarrow> int \<Rightarrow> string \<Rightarrow> string list \<Rightarrow> int \<Rightarrow> string \<Rightarrow> key_table \<Rightarrow> bool \<times> key_table" where
  "UpdateInternalApiKey env i name scopes expires descr ks =
     (if \<not> ke_write_ok env then (False, ks)
      else (True, gm.modify ks i (\<lambda>x. x\<lparr>ik_Name := name, ik_Scopes := Some scopes, ik_ExpiresAt := expires, ik_Description := descr\<rparr>)))"

section \<open>Their administration\<close>

text \<open>The scopes of a request may be missing; the number of a key is the decoded one.\<close>

definition AdminCreateApiKey :: "key_env \<Rightarrow> int \<Rightarrow> int \<Rightarrow> string \<Rightarrow> string list option \<Rightarrow> int \<Rightarrow> string \<Rightarrow> key_table \<Rightarrow> int \<times> key_table" where
  "AdminCreateApiKey env admin role name given expires descr ks =
     (case given of
        None \<Rightarrow> (400, ks)
      | Some scopes \<Rightarrow>
          if name = [] then (400, ks)
          else if list_ex (\<lambda>s. s = ScopeAll) scopes \<and> role \<noteq> RoleRootUser then (403, ks)
          else (case CreateInternalApiKey env name scopes admin expires descr ks of
                  (None, ks1) \<Rightarrow> (500, ks1) | (Some _, ks1) \<Rightarrow> (200, ks1)))"

definition AdminUpdateApiKey :: "key_env \<Rightarrow> int \<Rightarrow> int \<Rightarrow> string \<Rightarrow> string list option \<Rightarrow> int \<Rightarrow> string \<Rightarrow> key_table \<Rightarrow> int \<times> key_table" where
  "AdminUpdateApiKey env role i name given expires descr ks =
     (case given of
        None \<Rightarrow> (400, ks)
      | Some scopes \<Rightarrow>
          if name = [] then (400, ks)
          else if list_ex (\<lambda>s. s = ScopeAll) scopes \<and> role \<noteq> RoleRootUser then (403, ks)
          else (case UpdateInternalApiKey env i name scopes expires descr ks of
                  (False, ks1) \<Rightarrow> (500, ks1) | (True, ks1) \<Rightarrow> (200, ks1)))"

definition AdminDeleteApiKey :: "key_env \<Rightarrow> int \<Rightarrow> key_table \<Rightarrow> int \<times> key_table" where
  "AdminDeleteApiKey env i ks = (case DeleteInternalApiKey env i ks of (False, ks1) \<Rightarrow> (500, ks1) | (True, ks1) \<Rightarrow> (200, ks1))"

definition AdminToggleApiKey :: "key_env \<Rightarrow> int \<Rightarrow> key_table \<Rightarrow> int \<times> key_table" where
  "AdminToggleApiKey env i ks = (case ToggleInternalApiKey env i ks of (False, ks1) \<Rightarrow> (500, ks1) | (True, ks1) \<Rightarrow> (200, ks1))"

datatype key_admin_op =
    KaCreate int string "string list option" int string
  | KaUpdate int string "string list option" int string
  | KaDelete int
  | KaToggle int

fun key_admin :: "key_env \<Rightarrow> int \<Rightarrow> key_admin_op \<Rightarrow> key_table \<Rightarrow> key_table" where
  "key_admin env role (KaCreate admin name scopes expires descr) ks = snd (AdminCreateApiKey env admin role name scopes expires descr ks)"
| "key_admin env role (KaUpdate i name scopes expires descr) ks = snd (AdminUpdateApiKey env role i name scopes expires descr ks)"
| "key_admin env role (KaDelete i) ks = snd (AdminDeleteApiKey env i ks)"
| "key_admin env role (KaToggle i) ks = snd (AdminToggleApiKey env i ks)"

section \<open>Requests\<close>

text \<open>The operations of the routes; those that only read are one for each scope.\<close>

datatype internal_op =
    OpReadUser | OpReadTokens | OpReadQuota | OpReadBalance | OpReadCurrency | OpReadLogs | OpReadModels
  | OpCreateUser create_request | OpUpdateUser int update_request | OpProvisionUser provision_request
  | OpDeleteUser int
  | OpCreateToken new_token_request | OpUpdateToken int token_change | OpDeleteToken int
  | OpAdjustQuota int int string
  | OpTopup topup_request
  | OpExchange exchange_request
  | OpBackfill "string \<Rightarrow> int option" "int \<Rightarrow> bool"

fun route_scope :: "internal_op \<Rightarrow> string" where
  "route_scope OpReadUser = ScopeUserRead"
| "route_scope OpReadTokens = ScopeTokenRead"
| "route_scope OpReadQuota = ScopeQuotaRead"
| "route_scope OpReadBalance = ScopeBalanceRead"
| "route_scope OpReadCurrency = ScopeCurrencyRead"
| "route_scope OpReadLogs = ScopeLogRead"
| "route_scope OpReadModels = ScopeModelRead"
| "route_scope (OpCreateUser _) = ScopeUserWrite"
| "route_scope (OpUpdateUser _ _) = ScopeUserWrite"
| "route_scope (OpProvisionUser _) = ScopeUserWrite"
| "route_scope (OpDeleteUser _) = ScopeUserDelete"
| "route_scope (OpCreateToken _) = ScopeTokenWrite"
| "route_scope (OpUpdateToken _ _) = ScopeTokenWrite"
| "route_scope (OpDeleteToken _) = ScopeTokenWrite"
| "route_scope (OpAdjustQuota _ _ _) = ScopeQuotaWrite"
| "route_scope (OpTopup _) = ScopeBalanceWrite"
| "route_scope (OpExchange _) = ScopeCurrencyExchange"
| "route_scope (OpBackfill _ _) = ScopeAll"

definition on_ledger :: "(ledger \<Rightarrow> ledger) \<Rightarrow> id_db \<Rightarrow> id_db" where
  "on_ledger f db = db\<lparr>ib_bal := (ib_bal db)\<lparr>bd_ledger := f (bd_ledger (ib_bal db))\<rparr>\<rparr>"

definition on_balance :: "(balance_db \<Rightarrow> balance_db) \<Rightarrow> id_db \<Rightarrow> id_db" where
  "on_balance f db = db\<lparr>ib_bal := f (ib_bal db)\<rparr>"

text \<open>What an operation does to the database.\<close>

fun run_op :: "id_env \<Rightarrow> tokens_env \<Rightarrow> internal_op \<Rightarrow> id_db \<Rightarrow> id_db" where
  "run_op env te (OpCreateUser req) db = snd (InternalCreateUser env req db)"
| "run_op env te (OpUpdateUser i req) db = snd (InternalUpdateUser env i req db)"
| "run_op env te (OpProvisionUser req) db = snd (InternalProvisionUser env req db)"
| "run_op env te (OpDeleteUser i) db = snd (InternalDeleteUser env i db)"
| "run_op env te (OpCreateToken req) db = on_ledger (\<lambda>lg. snd (InternalCreateToken te req lg)) db"
| "run_op env te (OpUpdateToken i req) db = on_ledger (\<lambda>lg. snd (InternalUpdateToken te i req lg)) db"
| "run_op env te (OpDeleteToken i) db = on_ledger (\<lambda>lg. snd (InternalDeleteToken te i lg)) db"
| "run_op env te (OpAdjustQuota i amount reason) db = on_balance (\<lambda>b. snd (InternalAdjustQuota (ie_bal env) i amount reason b)) db"
| "run_op env te (OpTopup req) db = on_balance (\<lambda>b. snd (InternalTopupBalance (ie_bal env) req b)) db"
| "run_op env te (OpExchange req) db = on_balance (\<lambda>b. snd (InternalExchangeLucToLut (ie_bal env) req b)) db"
| "run_op env te (OpBackfill platform ok) db = on_ledger (InternalBackfillTokenAccountIDs platform ok (map snd (ib_maps db))) db"
| "run_op env te op db = db"

text \<open>The middlewares: the key of the request, then the scope of the route.\<close>

definition InternalApiAuth :: "key_env \<Rightarrow> string \<Rightarrow> key_table \<Rightarrow> int + internal_key" where
  "InternalApiAuth env key ks =
     (if key = [] then Inl 401 else (case ValidateInternalApiKey env key ks of None \<Rightarrow> Inl 401 | Some k \<Rightarrow> Inr k))"

definition RequireScope :: "string \<Rightarrow> internal_key option \<Rightarrow> int option" where
  "RequireScope scope k = (case k of None \<Rightarrow> Some 403 | Some k \<Rightarrow> if HasScope k scope then None else Some 403)"

definition RequireAnyScope :: "string list \<Rightarrow> internal_key option \<Rightarrow> int option" where
  "RequireAnyScope scopes k = (case k of None \<Rightarrow> Some 403 | Some k \<Rightarrow> if list_ex (HasScope k) scopes then None else Some 403)"

definition internal_request :: "key_env \<Rightarrow> id_env \<Rightarrow> tokens_env \<Rightarrow> string \<Rightarrow> internal_op \<Rightarrow> key_table \<Rightarrow> id_db \<Rightarrow> int option \<times> id_db" where
  "internal_request env ie te key op ks db =
     (case InternalApiAuth env key ks of
        Inl e \<Rightarrow> (Some e, db)
      | Inr k \<Rightarrow> (case RequireScope (route_scope op) (Some k) of Some e \<Rightarrow> (Some e, db) | None \<Rightarrow> (None, run_op ie te op db)))"

fun internal_requests :: "string \<Rightarrow> key_table \<Rightarrow> (key_env \<times> id_env \<times> tokens_env \<times> internal_op) list \<Rightarrow> id_db \<Rightarrow> id_db" where
  "internal_requests key ks [] db = db"
| "internal_requests key ks ((env, ie, te, op) # rs) db = internal_requests key ks rs (snd (internal_request env ie te key op ks db))"

section \<open>What operations keep\<close>

lemma id_quota_users: "lg_users lg' = lg_users lg \<Longrightarrow> lg_batch lg' = lg_batch lg \<Longrightarrow> user_quota lg' = user_quota lg"
  by (simp add: fun_eq_iff user_quota_def eff_user_def pend_def)

lemma create_refused: "create_user no_tenant ok i u db = (None, db)"
  by (simp add: create_user_def beforeCreate_def no_tenant_def hasTenantIDColumn_def)

lemma InternalCreateUser_keeps: "snd (InternalCreateUser env req db) = db"
  by (auto simp: InternalCreateUser_def create_refused Let_def split: option.splits)

lemma provision_commit_keeps: "snd (provision_commit env req tenant db) = db"
  by (auto simp: provision_commit_def create_refused Let_def split: res.splits)

lemma InternalProvisionUser_keeps: "snd (InternalProvisionUser env req db) = db"
  by (auto simp: InternalProvisionUser_def provision_commit_keeps Let_def split: option.splits)

abbreviation quotas :: "id_db \<Rightarrow> int \<Rightarrow> int option" where
  "quotas db \<equiv> user_quota (bd_ledger (ib_bal db))"

lemma InternalUpdateUser_quotas: "quotas (snd (InternalUpdateUser env i req db)) = quotas db"
  by (auto simp: InternalUpdateUser_def set_users_def user_quota_def eff_user_def pend_def fun_eq_iff gm.get_modify option.map_comp comp_def
      intro!: option.map_cong0 split: option.splits)

definition same_users :: "ledger \<Rightarrow> ledger \<Rightarrow> bool" where
  "same_users lg lg' \<longleftrightarrow> lg_users lg' = lg_users lg \<and> lg_batch lg' = lg_batch lg"

lemma token_writes_users:
  "TokenInsert te t lg = (r, lg1) \<Longrightarrow> same_users lg lg1"
  "TokenUpdate te t lg = (ok, lg2) \<Longrightarrow> same_users lg lg2"
  "TokenDelete te i lg = (ok, lg3) \<Longrightarrow> same_users lg lg3"
  by (auto simp: same_users_def TokenInsert_def TokenUpdate_def TokenDelete_def Let_def split: option.splits if_splits)

lemma same_users_refl: "same_users lg lg"
  by (simp add: same_users_def)

lemma token_ops_users:
  "same_users lg (snd (InternalCreateToken te req lg))"
  "same_users lg (snd (InternalUpdateToken te i ch lg))"
  "same_users lg (snd (InternalDeleteToken te i lg))"
  subgoal unfolding InternalCreateToken_def by (auto simp: same_users_refl intro: token_writes_users(1) split: option.split prod.split)
  subgoal unfolding InternalUpdateToken_def by (auto simp: same_users_refl intro: token_writes_users(2) split: option.split bool.split prod.split)
  subgoal unfolding InternalDeleteToken_def by (auto simp: same_users_refl intro: token_writes_users(3) split: option.split bool.split prod.split)
  done

lemma on_ledger_quotas:
  assumes "same_users (bd_ledger (ib_bal db)) (f (bd_ledger (ib_bal db)))"
  shows "quotas (on_ledger f db) = quotas db"
proof -
  have "quotas (on_ledger f db) = user_quota (f (bd_ledger (ib_bal db)))" unfolding on_ledger_def by simp
  then show ?thesis using id_quota_users assms unfolding same_users_def by metis
qed

definition moves_quota :: "internal_op \<Rightarrow> bool" where
  "moves_quota op \<longleftrightarrow> route_scope op \<in> {ScopeQuotaWrite, ScopeBalanceWrite, ScopeCurrencyExchange, ScopeUserDelete}"

lemma backfill_users: "same_users lg (InternalBackfillTokenAccountIDs platform ok ms lg)"
  by (simp add: same_users_def InternalBackfillTokenAccountIDs_def)

lemma other_ops_quotas:
  assumes "\<not> moves_quota op"
  shows "quotas (run_op env te op db) = quotas db"
proof (cases op)
  case (OpUpdateUser i req)
  show ?thesis unfolding OpUpdateUser run_op.simps by (rule InternalUpdateUser_quotas)
next
  case (OpCreateToken req)
  show ?thesis unfolding OpCreateToken run_op.simps by (rule on_ledger_quotas) (rule token_ops_users)
next
  case (OpUpdateToken i req)
  show ?thesis unfolding OpUpdateToken run_op.simps by (rule on_ledger_quotas) (rule token_ops_users)
next
  case (OpDeleteToken i)
  show ?thesis unfolding OpDeleteToken run_op.simps by (rule on_ledger_quotas) (rule token_ops_users)
next
  case (OpBackfill p ok)
  show ?thesis unfolding OpBackfill run_op.simps by (rule on_ledger_quotas) (rule backfill_users)
qed (use assms in \<open>simp_all add: moves_quota_def InternalCreateUser_keeps InternalProvisionUser_keeps\<close>)

lemma wildcard_kept:
  assumes "role \<noteq> RoleRootUser" "gm_get (key_admin env role op ks) i = Some k" "ScopeAll \<in> set (GetScopes k)"
  shows "\<exists>k0. gm_get ks i = Some k0 \<and> GetScopes k0 = GetScopes k \<and> ik_KeyHash k0 = ik_KeyHash k"
proof (cases op)
  case (KaCreate admin name given expires descr)
  then show ?thesis using assms
    by (auto simp: AdminCreateApiKey_def CreateInternalApiKey_def GetScopes_def list_ex_iff Let_def split: if_splits option.splits)
next
  case (KaUpdate j name given expires descr)
  then show ?thesis using assms
    by (auto simp: AdminUpdateApiKey_def UpdateInternalApiKey_def GetScopes_def list_ex_iff gm.get_modify split: if_splits option.splits)
next
  case (KaDelete j)
  then show ?thesis using assms by (auto simp: AdminDeleteApiKey_def DeleteInternalApiKey_def split: if_splits)
next
  case (KaToggle j)
  then show ?thesis using assms
    by (auto simp: AdminToggleApiKey_def ToggleInternalApiKey_def GetScopes_def gm.get_modify split: if_splits option.splits)
qed

fun key_admins :: "(key_env \<times> int \<times> key_admin_op) list \<Rightarrow> key_table \<Rightarrow> key_table" where
  "key_admins [] ks = ks"
| "key_admins ((env, role, op) # ops) ks = key_admins ops (key_admin env role op ks)"

section \<open>Keys of a request\<close>

lemma InternalApiAuth_row:
  "InternalApiAuth env key ks = Inr k \<Longrightarrow> k \<in> set (map snd ks) \<and> ik_KeyHash k = ke_hash env key \<and> ik_Enabled k \<and>
     \<not> (0 < ik_ExpiresAt k \<and> ik_ExpiresAt k < ke_now env) \<and> key \<noteq> [] \<and> ke_read_ok env"
  by (auto simp: InternalApiAuth_def ValidateInternalApiKey_def find_Some_iff split: if_splits option.splits)

lemma find_unique: "distinct (map f xs) \<Longrightarrow> x \<in> set xs \<Longrightarrow> P x \<Longrightarrow> find (\<lambda>y. f y = f x \<and> P y) xs = Some x"
  by (induction xs) auto

lemma InternalApiAuth_row_conv:
  assumes "distinct (map ik_KeyHash (map snd ks))" "k \<in> set (map snd ks)" "ik_KeyHash k = ke_hash env key" "ik_Enabled k"
    "\<not> (0 < ik_ExpiresAt k \<and> ik_ExpiresAt k < ke_now env)" "key \<noteq> []" "ke_read_ok env"
  shows "InternalApiAuth env key ks = Inr k"
  using find_unique [OF assms(1,2), where P = ik_Enabled] assms(3-) by (simp add: InternalApiAuth_def ValidateInternalApiKey_def)

lemma internal_request_runs:
  "fst (internal_request env ie te key op ks db) = None \<longleftrightarrow> (\<exists>k. InternalApiAuth env key ks = Inr k \<and> HasScope k (route_scope op))"
  "fst (internal_request env ie te key op ks db) = None \<Longrightarrow> snd (internal_request env ie te key op ks db) = run_op ie te op db"
  "fst (internal_request env ie te key op ks db) \<noteq> None \<Longrightarrow> snd (internal_request env ie te key op ks db) = db"
  by (auto simp: internal_request_def RequireScope_def split: sum.splits option.splits if_splits)

lemma internal_request_errors: "fst (internal_request env ie te key op ks db) \<in> {None, Some 401, Some 403}"
  unfolding internal_request_def InternalApiAuth_def RequireScope_def by (simp split: option.split)

definition usable :: "key_env \<Rightarrow> string \<Rightarrow> string \<Rightarrow> internal_key \<Rightarrow> bool" where
  "usable env key scope k \<longleftrightarrow> ik_KeyHash k = ke_hash env key \<and> ik_Enabled k \<and> \<not> (0 < ik_ExpiresAt k \<and> ik_ExpiresAt k < ke_now env) \<and>
     (scope \<in> set (GetScopes k) \<or> ScopeAll \<in> set (GetScopes k))"

lemma HasScope_iff: "HasScope k scope \<longleftrightarrow> scope \<in> set (GetScopes k) \<or> ScopeAll \<in> set (GetScopes k)"
  by (auto simp: HasScope_def list_ex_iff)

section \<open>Properties\<close>

text \<open>
  A request of another service runs exactly when its key is one of the table, enabled, not expired, and has the scope of the route
  or all of them; if it does not run, nothing changes.
\<close>

theorem internal_access_iff:
  assumes "distinct (map ik_KeyHash (map snd ks))"
  shows "internal_request env ie te key op ks db =
     (if key \<noteq> [] \<and> ke_read_ok env \<and> (\<exists>k \<in> set (map snd ks). usable env key (route_scope op) k)
      then (None, run_op ie te op db) else (fst (internal_request env ie te key op ks db), db)) \<and>
    (fst (internal_request env ie te key op ks db) \<noteq> None \<longrightarrow> fst (internal_request env ie te key op ks db) \<in> {Some 401, Some 403})"
proof -
  have runs: "(\<exists>k. InternalApiAuth env key ks = Inr k \<and> HasScope k (route_scope op)) \<longleftrightarrow>
      key \<noteq> [] \<and> ke_read_ok env \<and> (\<exists>k \<in> set (map snd ks). usable env key (route_scope op) k)"
  proof
    assume "\<exists>k. InternalApiAuth env key ks = Inr k \<and> HasScope k (route_scope op)"
    then obtain k where k: "InternalApiAuth env key ks = Inr k" "HasScope k (route_scope op)" by blast
    show "key \<noteq> [] \<and> ke_read_ok env \<and> (\<exists>k \<in> set (map snd ks). usable env key (route_scope op) k)"
      using InternalApiAuth_row [OF k(1)] k(2) unfolding usable_def HasScope_iff by blast
  next
    assume r: "key \<noteq> [] \<and> ke_read_ok env \<and> (\<exists>k \<in> set (map snd ks). usable env key (route_scope op) k)"
    then obtain k where k: "k \<in> set (map snd ks)" "usable env key (route_scope op) k" by blast
    then have "InternalApiAuth env key ks = Inr k" using r by (intro InternalApiAuth_row_conv [OF assms]) (simp_all add: usable_def)
    then show "\<exists>k. InternalApiAuth env key ks = Inr k \<and> HasScope k (route_scope op)" using k(2) unfolding usable_def HasScope_iff by blast
  qed
  show ?thesis
  proof (cases "fst (internal_request env ie te key op ks db) = None")
    case True
    then have "internal_request env ie te key op ks db = (None, run_op ie te op db)" using internal_request_runs(2) by (metis prod.collapse)
    then show ?thesis using True runs internal_request_runs(1) by (metis fst_conv)
  next
    case False
    then have "snd (internal_request env ie te key op ks db) = db" by (rule internal_request_runs(3))
    then show ?thesis using False runs internal_request_runs(1) internal_request_errors [of env ie te key op ks db] by (metis prod.collapse insertE)
  qed
qed

definition no_quota_scope :: "internal_key \<Rightarrow> bool" where
  "no_quota_scope k \<longleftrightarrow> list_all (\<lambda>s. s \<notin> {ScopeQuotaWrite, ScopeBalanceWrite, ScopeCurrencyExchange, ScopeUserDelete, ScopeAll}) (GetScopes k)"

lemma no_quota_op: "no_quota_scope k \<Longrightarrow> HasScope k (route_scope op) \<Longrightarrow> \<not> moves_quota op"
  by (auto simp: no_quota_scope_def HasScope_iff moves_quota_def list_all_iff)

text \<open>
  C26. Balances need a scope: with a key that may not write quotas or balances, exchange currency or delete accounts, no sequence of
  requests, whatever fails in it, changes the quota of any account.
\<close>

theorem balances_need_scope:
  assumes "\<forall>(env, ie, te, op) \<in> set rs. \<forall>k \<in> set (map snd ks). ik_KeyHash k = ke_hash env key \<longrightarrow> no_quota_scope k"
  shows "user_quota (bd_ledger (ib_bal (internal_requests key ks rs db))) = user_quota (bd_ledger (ib_bal db))"
  using assms
proof (induction rs arbitrary: db)
  case (Cons r rs)
  obtain env ie te op where r: "r = (env, ie, te, op)" by (cases r)
  let ?q = "internal_request env ie te key op ks db"
  have "quotas (snd ?q) = quotas db"
  proof (cases "fst ?q")
    case None
    then obtain k where k: "InternalApiAuth env key ks = Inr k" "HasScope k (route_scope op)" using internal_request_runs(1) by blast
    then have "no_quota_scope k" using InternalApiAuth_row [OF k(1)] Cons.prems by (auto simp: r)
    then show ?thesis using no_quota_op [OF _ k(2)] other_ops_quotas internal_request_runs(2) [OF None] by metis
  next
    case (Some e)
    then have "fst ?q \<noteq> None" by simp
    then show ?thesis using internal_request_runs(3) by metis
  qed
  moreover have "quotas (internal_requests key ks rs (snd ?q)) = quotas (snd ?q)" using Cons.prems by (intro Cons.IH) simp
  ultimately show ?case unfolding r internal_requests.simps by (rule trans [rotated])
qed simp

text \<open>
  Only the root account makes keys of all scopes: after any administration by others, a key with all scopes had them before.
\<close>

theorem wildcard_only_root:
  assumes "\<forall>(env, role, op) \<in> set ops. role \<noteq> RoleRootUser" "gm_get (key_admins ops ks) i = Some k" "ScopeAll \<in> set (GetScopes k)"
  shows "\<exists>k0. gm_get ks i = Some k0 \<and> ScopeAll \<in> set (GetScopes k0) \<and> ik_KeyHash k0 = ik_KeyHash k"
  using assms
proof (induction ops arbitrary: ks)
  case (Cons x ops)
  obtain env role op where x: "x = (env, role, op)" by (cases x)
  obtain k0 where "gm_get (key_admin env role op ks) i = Some k0" "ScopeAll \<in> set (GetScopes k0)" "ik_KeyHash k0 = ik_KeyHash k"
    using Cons x by fastforce
  moreover have "role \<noteq> RoleRootUser" using Cons.prems(1) by (simp add: x)
  ultimately show ?case using wildcard_kept by metis
qed simp

section \<open>Examples\<close>

definition demo_internal_key :: "string list \<Rightarrow> internal_key" where
  "demo_internal_key scopes = \<lparr>ik_Id = 1, ik_Name = ''svc'', ik_KeyHash = ''k'', ik_KeyPrefix = ''k'', ik_Scopes = Some scopes, ik_CreatedBy = 9,
     ik_ExpiresAt = 0, ik_Enabled = True, ik_Description = []\<rparr>"

definition demo_key_env :: key_env where
  "demo_key_env = \<lparr>ke_now = 1000, ke_hash = id, ke_random = ''r'', ke_id = 2, ke_read_ok = True, ke_write_ok = True\<rparr>"

definition demo_tokens_env :: tokens_env where
  "demo_tokens_env = \<lparr>tm_now = 0, tm_per_unit = 1, tm_fl = id, tm_new_key = None, tm_new_id = 6, tm_read_ok = True, tm_write_ok = True,
     tm_commit_ok = True\<rparr>"

definition demo_topup :: topup_request where
  "demo_topup = \<lparr>tq_UserId = 1, tq_AmountRmb = 10, tq_OrderId = ''o'', tq_Reason = []\<rparr>"

lemmas demo_key_defs = demo_internal_key_def demo_key_env_def scope_defs

theorem internal_access_iff_witness:
  "fst (internal_request demo_key_env demo_id_env demo_tokens_env ''k'' OpReadUser [(1, demo_internal_key [ScopeUserRead])] demo_id_db) = None \<and>
   fst (internal_request demo_key_env demo_id_env demo_tokens_env ''k'' (OpTopup demo_topup) [(1, demo_internal_key [ScopeUserRead])] demo_id_db) = Some 403"
proof -
  have "usable demo_key_env ''k'' (route_scope OpReadUser) (demo_internal_key [ScopeUserRead])"
    by (simp add: usable_def GetScopes_def demo_key_defs)
  moreover have "fst (internal_request demo_key_env demo_id_env demo_tokens_env ''k'' (OpTopup demo_topup) [(1, demo_internal_key [ScopeUserRead])] demo_id_db) = Some 403"
    by (simp add: internal_request_def InternalApiAuth_def ValidateInternalApiKey_def RequireScope_def HasScope_def GetScopes_def demo_key_defs)
  ultimately show ?thesis
    using internal_access_iff [of "[(1, demo_internal_key [ScopeUserRead])]" demo_key_env demo_id_env demo_tokens_env "''k''" OpReadUser demo_id_db] by (simp add: demo_key_env_def)
qed

theorem balances_need_scope_witness:
  "user_quota (bd_ledger (ib_bal (internal_requests ''k'' [(1, demo_internal_key [ScopeUserWrite])] [(demo_key_env, demo_id_env, demo_tokens_env, OpDeleteUser 1)] demo_id_db)))
     = user_quota (bd_ledger (ib_bal demo_id_db))"
  by (rule balances_need_scope) (simp add: no_quota_scope_def GetScopes_def demo_key_defs)

theorem wildcard_only_root_witness:
  "\<exists>k0. gm_get [(1::int, demo_internal_key [ScopeAll])] 1 = Some k0 \<and> ScopeAll \<in> set (GetScopes k0) \<and> ik_KeyHash k0 = ''k''"
proof -
  have "\<exists>k0. gm_get [(1::int, demo_internal_key [ScopeAll])] 1 = Some k0 \<and> ScopeAll \<in> set (GetScopes k0) \<and>
      ik_KeyHash k0 = ik_KeyHash (demo_internal_key [ScopeAll]\<lparr>ik_Enabled := False\<rparr>)"
    by (rule wildcard_only_root [where ops = "[(demo_key_env, RoleAdminUser, KaToggle 1)]"])
      (simp_all add: RoleAdminUser_def RoleRootUser_def AdminToggleApiKey_def ToggleInternalApiKey_def demo_internal_key_def demo_key_env_def
        gm.get_modify gm_get_Cons GetScopes_def)
  then show ?thesis by (simp add: demo_internal_key_def)
qed

end
