(* ===== verification/Channel_Manage.thy ===== *)
theory Channel_Manage
  imports Internal_Access Key_Pool
begin

text \<open>
  How administrators manage channels (\<^verbatim>\<open>internal/adapter/handler/channel.go\<close> over \<^verbatim>\<open>adapter/repo/channel.go\<close> and
  \<^verbatim>\<open>adapter/repo/ability.go\<close>): adding, changing, copying and deleting them, their tags, and the keys of a pool, on the tables
  of channels and abilities and the routing cache. Decoded requests are records; the JSON decoders, the outcomes of statements and
  new numbers are arguments. An answer is \<open>Ok\<close>, a message, or the panic of rebuilding the cache.
\<close>

section \<open>Environment and rows\<close>

datatype json_key = KeyText string | KeyOther string

record manage_env =
  me_pool :: pool_env
  me_read_ok :: bool
  me_update_ok :: bool
  me_reload_ok :: bool
  me_delete_ok :: bool
  me_begin_ok :: bool
  me_commit_ok :: bool
  me_del_ok :: bool                                  \<comment> \<open>old abilities deleted\<close>
  me_ins_ok :: bool                                  \<comment> \<open>new abilities written\<close>
  me_new_id :: "nat \<Rightarrow> int"                          \<comment> \<open>numbers of new rows\<close>
  me_setting_ok :: "string \<Rightarrow> bool"
  me_regions :: "string \<Rightarrow> string list option"       \<comment> \<open>names with a value\<close>
  me_vertex :: "string \<Rightarrow> json_key list option"
  me_vertex_type :: "string \<Rightarrow> string option"
  me_json_valid :: "string \<Rightarrow> bool"

abbreviation ChannelTypeVertex :: int where "ChannelTypeVertex \<equiv> 41"

abbreviation "me_raws env \<equiv> pe_raws (me_pool env)"

text \<open>\<^verbatim>\<open>Updates\<close> with a struct writes the members that are not zero.\<close>

definition upd_text :: "string \<Rightarrow> string \<Rightarrow> string" where "upd_text x old = (if x = [] then old else x)"

definition upd_num :: "'a::zero \<Rightarrow> 'a \<Rightarrow> 'a" where "upd_num x old = (if x = 0 then old else x)"

definition upd_ptr :: "'a option \<Rightarrow> 'a option \<Rightarrow> 'a option" where "upd_ptr x old = (case x of None \<Rightarrow> old | Some _ \<Rightarrow> x)"

definition zero_info :: channel_info where
  "zero_info = \<lparr>IsMultiKey = False, MultiKeySize = 0, MultiKeyStatusList = [], MultiKeyDisabledReason = [], MultiKeyDisabledTime = [],
     MultiKeyPollingIndex = 0, MultiKeyMode = [], MultiKeyCooldownUntil = []\<rparr>"

definition zero_channel :: channel where
  "zero_channel = \<lparr>ch_Id = 0, ch_TenantId = [], ch_Type = 0, ch_Key = [], ch_OpenAIOrganization = None, ch_TestModel = None, ch_Status = 0,
     ch_Name = [], ch_Weight = None, ch_CreatedTime = 0, ch_TestTime = 0, ch_ResponseTime = 0, ch_BaseURL = None, ch_Other = [], ch_Balance = 0,
     ch_BalanceUpdatedTime = 0, ch_Models = [], ch_Group = [], ch_UsedQuota = 0, ch_ModelMapping = None, ch_StatusCodeMapping = None,
     ch_Priority = None, ch_AutoBan = None, ch_OtherInfo = [], ch_Tag = None, ch_Setting = None, ch_ParamOverride = None,
     ch_HeaderOverride = None, ch_Remark = None, ch_ChannelInfo = zero_info, ch_OtherSettings = [], ch_ManagedModelsBySync = [],
     ch_LastSyncFetchCount = 0, ch_Keys = []\<rparr>"

definition updates :: "channel \<Rightarrow> channel \<Rightarrow> channel" where
  "updates c row = row\<lparr>ch_TenantId := upd_text (ch_TenantId c) (ch_TenantId row), ch_Type := upd_num (ch_Type c) (ch_Type row),
     ch_Key := upd_text (ch_Key c) (ch_Key row), ch_OpenAIOrganization := upd_ptr (ch_OpenAIOrganization c) (ch_OpenAIOrganization row),
     ch_TestModel := upd_ptr (ch_TestModel c) (ch_TestModel row), ch_Status := upd_num (ch_Status c) (ch_Status row),
     ch_Name := upd_text (ch_Name c) (ch_Name row), ch_Weight := upd_ptr (ch_Weight c) (ch_Weight row),
     ch_CreatedTime := upd_num (ch_CreatedTime c) (ch_CreatedTime row), ch_TestTime := upd_num (ch_TestTime c) (ch_TestTime row),
     ch_ResponseTime := upd_num (ch_ResponseTime c) (ch_ResponseTime row), ch_BaseURL := upd_ptr (ch_BaseURL c) (ch_BaseURL row),
     ch_Other := upd_text (ch_Other c) (ch_Other row), ch_Balance := upd_num (ch_Balance c) (ch_Balance row),
     ch_BalanceUpdatedTime := upd_num (ch_BalanceUpdatedTime c) (ch_BalanceUpdatedTime row),
     ch_Models := upd_text (ch_Models c) (ch_Models row), ch_Group := upd_text (ch_Group c) (ch_Group row),
     ch_UsedQuota := upd_num (ch_UsedQuota c) (ch_UsedQuota row), ch_ModelMapping := upd_ptr (ch_ModelMapping c) (ch_ModelMapping row),
     ch_StatusCodeMapping := upd_ptr (ch_StatusCodeMapping c) (ch_StatusCodeMapping row),
     ch_Priority := upd_ptr (ch_Priority c) (ch_Priority row), ch_AutoBan := upd_ptr (ch_AutoBan c) (ch_AutoBan row),
     ch_OtherInfo := upd_text (ch_OtherInfo c) (ch_OtherInfo row), ch_Tag := upd_ptr (ch_Tag c) (ch_Tag row),
     ch_Setting := upd_ptr (ch_Setting c) (ch_Setting row), ch_ParamOverride := upd_ptr (ch_ParamOverride c) (ch_ParamOverride row),
     ch_HeaderOverride := upd_ptr (ch_HeaderOverride c) (ch_HeaderOverride row), ch_Remark := upd_ptr (ch_Remark c) (ch_Remark row),
     ch_ChannelInfo := (if ch_ChannelInfo c = zero_info then ch_ChannelInfo row else ch_ChannelInfo c),
     ch_OtherSettings := upd_text (ch_OtherSettings c) (ch_OtherSettings row),
     ch_ManagedModelsBySync := upd_text (ch_ManagedModelsBySync c) (ch_ManagedModelsBySync row),
     ch_LastSyncFetchCount := upd_num (ch_LastSyncFetchCount c) (ch_LastSyncFetchCount row)\<rparr>"

text \<open>What a new row gets for the members that are zero.\<close>

definition column_defaults :: "channel \<Rightarrow> channel" where
  "column_defaults c = c\<lparr>ch_Status := upd_num (ch_Status c) 1, ch_Weight := upd_ptr (ch_Weight c) (Some 0),
     ch_BaseURL := upd_ptr (ch_BaseURL c) (Some []), ch_Group := upd_text (ch_Group c) ''default'',
     ch_StatusCodeMapping := upd_ptr (ch_StatusCodeMapping c) (Some []), ch_Priority := upd_ptr (ch_Priority c) (Some 0),
     ch_AutoBan := upd_ptr (ch_AutoBan c) (Some 1)\<rparr>"

section \<open>Changing a channel\<close>

text \<open>The keys as \<^verbatim>\<open>Update\<close> counts them.\<close>

definition stored_keys :: "(string \<Rightarrow> string list option) \<Rightarrow> string \<Rightarrow> string list" where
  "stored_keys raws key =
     (if key = [] then []
      else (let trimmed = go_trim_space key;
                arr = (if go_has_prefix trimmed ''['' then (case raws trimmed of None \<Rightarrow> [] | Some ks \<Rightarrow> ks) else [])
            in if arr = [] then go_split newline (go_trim (\<lambda>x. x = newline) key) else arr))"

definition resized :: "manage_env \<Rightarrow> pool_state \<Rightarrow> channel \<Rightarrow> channel" where
  "resized env st c =
     (let info = ch_ChannelInfo c
      in if \<not> IsMultiKey info then c
         else (let key = (if ch_Key c \<noteq> [] then ch_Key c
                          else (case (if me_read_ok env then GetChannelById (ch_Id c) st else None) of None \<Rightarrow> [] | Some e \<Rightarrow> ch_Key e));
                   n = int (length (stored_keys (me_raws env) key))
               in c\<lparr>ch_ChannelInfo := info\<lparr>MultiKeySize := n, MultiKeyStatusList := filter (\<lambda>(i, s). i < n) (MultiKeyStatusList info)\<rparr>\<rparr>))"

definition ChannelUpdate :: "manage_env \<Rightarrow> channel \<Rightarrow> pool_state \<Rightarrow> bool \<times> pool_state" where
  "ChannelUpdate env c st =
     (let c1 = resized env st c
      in if ch_Id c = 0 \<or> \<not> me_update_ok env then (False, st)
         else (let st1 = st\<lparr>ps_channels := gm.modify (ps_channels st) (ch_Id c) (updates c1)\<rparr>;
                   c2 = (case (if me_reload_ok env then GetChannelById (ch_Id c) st1 else None) of None \<Rightarrow> c1 | Some r \<Rightarrow> r);
                   (ok, ab) = UpdateAbilities (me_del_ok env) (me_ins_ok env) c2 (ps_abilities st1)
               in (ok, st1\<lparr>ps_abilities := ab\<rparr>)))"

definition reinit :: "manage_env \<Rightarrow> pool_state \<Rightarrow> pool_state option" where
  "reinit env st =
     map_option (\<lambda>cc. st\<lparr>ps_cache := cc\<rparr>)
       (InitChannelCache (me_raws env) (pe_cache_on (me_pool env)) (map snd (ps_channels st)) (ps_abilities st) (ps_cache st))"

definition finish :: "manage_env \<Rightarrow> 'a \<Rightarrow> pool_state \<Rightarrow> 'a res \<times> pool_state" where
  "finish env x st = (case reinit env st of None \<Rightarrow> (Panic, st) | Some st1 \<Rightarrow> (Ok x, st1))"

section \<open>The keys of a pool\<close>

record key_row =
  kr_Index :: nat
  kr_Status :: int
  kr_DisabledTime :: int
  kr_Reason :: string
  kr_KeyPreview :: string

definition key_rows :: "string list \<Rightarrow> channel_info \<Rightarrow> key_row list" where
  "key_rows keys info = map (\<lambda>(i, key). let s = key_status (MultiKeyStatusList info) i in
     \<lparr>kr_Index = i, kr_Status = s,
      kr_DisabledTime = (if s \<noteq> 1 then (case gm_get (MultiKeyDisabledTime info) (int i) of None \<Rightarrow> 0 | Some t \<Rightarrow> t) else 0),
      kr_Reason = (if s \<noteq> 1 then (case gm_get (MultiKeyDisabledReason info) (int i) of None \<Rightarrow> [] | Some r \<Rightarrow> r) else []),
      kr_KeyPreview = (if 10 < length key then take 10 key @ ''...'' else key)\<rparr>) (enumerate 0 keys)"

record key_page =
  kp_Keys :: "key_row list"
  kp_Total :: int
  kp_Page :: int
  kp_PageSize :: int
  kp_TotalPages :: int
  kp_EnabledCount :: int
  kp_ManualDisabledCount :: int
  kp_AutoDisabledCount :: int

text \<open>One page of rows: its number, the number of pages and the rows, or the panic of slicing them.\<close>

definition row_page :: "key_row list \<Rightarrow> int \<Rightarrow> int \<Rightarrow> (int \<times> int \<times> key_row list) res" where
  "row_page rows page sz =
     (let n = int (length rows);
          pages0 = go_quot (wrap64 (wrap64 (n + sz) - 1)) sz;
          pages = (if pages0 = 0 then 1 else pages0);
          page1 = (if pages < page then pages else page);
          start = wrap64 (wrap64 (page1 - 1) * sz);
          stop0 = wrap64 (start + sz);
          stop = (if n < stop0 then n else stop0)
      in if n \<le> start then Ok (page1, pages, [])
         else if start < 0 \<or> stop < start then Panic
         else Ok (page1, pages, take (nat (stop - start)) (drop (nat start) rows)))"

definition get_key_status :: "string list \<Rightarrow> channel_info \<Rightarrow> int \<Rightarrow> int \<Rightarrow> int option \<Rightarrow> key_page res" where
  "get_key_status keys info page0 size0 status =
     (let page = (if page0 \<le> 0 then 1 else page0);
          sz = (if size0 \<le> 0 then 50 else size0);
          rows = key_rows keys info;
          kept = (case status of None \<Rightarrow> rows | Some s \<Rightarrow> filter (\<lambda>r. kr_Status r = s) rows);
          number = (\<lambda>s. int (length (filter (\<lambda>r. kr_Status r = s) rows)))
      in case row_page kept page sz of
           Ok (page1, pages, ks) \<Rightarrow> Ok \<lparr>kp_Keys = ks, kp_Total = int (length kept), kp_Page = page1, kp_PageSize = sz, kp_TotalPages = pages,
             kp_EnabledCount = number 1, kp_ManualDisabledCount = number 2, kp_AutoDisabledCount = number 3\<rparr>
         | Err e \<Rightarrow> Err e
         | Panic \<Rightarrow> Panic)"

text \<open>The entries of the keys that stay, at their new places.\<close>

definition reindex :: "nat list \<Rightarrow> (nat \<Rightarrow> 'v \<Rightarrow> bool) \<Rightarrow> (int, 'v) gomap \<Rightarrow> (int, 'v) gomap" where
  "reindex kept P m = concat (map (\<lambda>(j, i). case gm_get m (int i) of None \<Rightarrow> [] | Some v \<Rightarrow> if P i v then [(int j, v)] else []) (enumerate 0 kept))"

definition keep_keys :: "string list \<Rightarrow> nat list \<Rightarrow> (nat \<Rightarrow> bool) \<Rightarrow> channel \<Rightarrow> channel" where
  "keep_keys keys kept noted c =
     (let info = ch_ChannelInfo c
      in c\<lparr>ch_Key := go_join newline (map (\<lambda>i. keys ! i) kept),
           ch_ChannelInfo := info\<lparr>MultiKeySize := int (length kept),
             MultiKeyStatusList := reindex kept (\<lambda>i s. s \<noteq> 1) (MultiKeyStatusList info),
             MultiKeyDisabledTime := reindex kept (\<lambda>i t. noted i) (MultiKeyDisabledTime info),
             MultiKeyDisabledReason := reindex kept (\<lambda>i r. noted i) (MultiKeyDisabledReason info)\<rparr>\<rparr>)"

definition disable_keys :: "channel_info \<Rightarrow> int list \<Rightarrow> channel_info" where
  "disable_keys info is = info\<lparr>MultiKeyStatusList := fold (\<lambda>i m. gm_put m i 2) is (MultiKeyStatusList info)\<rparr>"

datatype key_action =
    GetKeyStatus int int "int option"
  | DisableKey "int option"
  | EnableKey "int option"
  | EnableAllKeys
  | DisableAllKeys
  | DeleteKey "int option"
  | DeleteDisabledKeys
  | OtherAction

datatype key_answer = KnPage key_page | KnCount int | KnDone

definition update_keys :: "manage_env \<Rightarrow> key_answer \<Rightarrow> channel \<Rightarrow> pool_state \<Rightarrow> key_answer res \<times> pool_state" where
  "update_keys env x c st =
     (case ChannelUpdate env c st of (False, st1) \<Rightarrow> (Err ''update failed'', st1) | (True, st1) \<Rightarrow> finish env x st1)"

definition key_in_range :: "int option \<Rightarrow> channel_info \<Rightarrow> int option" where
  "key_in_range k info = (case k of None \<Rightarrow> None | Some i \<Rightarrow> if i < 0 \<or> MultiKeySize info \<le> i then None else Some i)"

definition disable_key :: "manage_env \<Rightarrow> int option \<Rightarrow> channel \<Rightarrow> pool_state \<Rightarrow> key_answer res \<times> pool_state" where
  "disable_key env k c st =
     (case key_in_range k (ch_ChannelInfo c) of
        None \<Rightarrow> (Err ''no such key'', st)
      | Some i \<Rightarrow> update_keys env KnDone (c\<lparr>ch_ChannelInfo := disable_keys (ch_ChannelInfo c) [i]\<rparr>) st)"

definition enable_key :: "manage_env \<Rightarrow> int option \<Rightarrow> channel \<Rightarrow> pool_state \<Rightarrow> key_answer res \<times> pool_state" where
  "enable_key env k c st =
     (case key_in_range k (ch_ChannelInfo c) of
        None \<Rightarrow> (Err ''no such key'', st)
      | Some i \<Rightarrow> update_keys env KnDone (c\<lparr>ch_ChannelInfo := (ch_ChannelInfo c)
          \<lparr>MultiKeyStatusList := gm_del (MultiKeyStatusList (ch_ChannelInfo c)) i,
           MultiKeyDisabledTime := gm_del (MultiKeyDisabledTime (ch_ChannelInfo c)) i,
           MultiKeyDisabledReason := gm_del (MultiKeyDisabledReason (ch_ChannelInfo c)) i\<rparr>\<rparr>) st)"

definition enable_all_keys :: "manage_env \<Rightarrow> channel \<Rightarrow> pool_state \<Rightarrow> key_answer res \<times> pool_state" where
  "enable_all_keys env c st =
     update_keys env (KnCount (int (gm_len (MultiKeyStatusList (ch_ChannelInfo c))))) (c\<lparr>ch_ChannelInfo := (ch_ChannelInfo c)
       \<lparr>MultiKeyStatusList := [], MultiKeyDisabledTime := [], MultiKeyDisabledReason := []\<rparr>\<rparr>) st"

definition disable_all_keys :: "manage_env \<Rightarrow> channel \<Rightarrow> pool_state \<Rightarrow> key_answer res \<times> pool_state" where
  "disable_all_keys env c st =
     (let info = ch_ChannelInfo c;
          up = filter (\<lambda>i. key_status (MultiKeyStatusList info) i = 1) [0..<nat (MultiKeySize info)]
      in if up = [] then (Err ''no key to disable'', st)
         else update_keys env (KnCount (int (length up))) (c\<lparr>ch_ChannelInfo := disable_keys info (map int up)\<rparr>) st)"

definition delete_key :: "manage_env \<Rightarrow> int option \<Rightarrow> channel \<Rightarrow> pool_state \<Rightarrow> key_answer res \<times> pool_state" where
  "delete_key env k c st =
     (case key_in_range k (ch_ChannelInfo c) of
        None \<Rightarrow> (Err ''no such key'', st)
      | Some d \<Rightarrow>
          (let keys = GetKeys (me_raws env) c;
               kept = filter (\<lambda>i. int i \<noteq> d) [0..<length keys]
           in if kept = [] then (Err ''last key'', st)
              else update_keys env KnDone (keep_keys keys kept (\<lambda>_. True) c) st))"

definition delete_disabled_keys :: "manage_env \<Rightarrow> channel \<Rightarrow> pool_state \<Rightarrow> key_answer res \<times> pool_state" where
  "delete_disabled_keys env c st =
     (let keys = GetKeys (me_raws env) c;
          status = key_status (MultiKeyStatusList (ch_ChannelInfo c));
          kept = filter (\<lambda>i. status i \<noteq> 3) [0..<length keys];
          deleted = int (length keys) - int (length kept)
      in if deleted = 0 then (Err ''no key to delete'', st)
         else update_keys env (KnCount deleted) (keep_keys keys kept (\<lambda>i. status i \<noteq> 1) c) st)"

lemmas key_action_defs = disable_key_def enable_key_def enable_all_keys_def disable_all_keys_def delete_key_def delete_disabled_keys_def

text \<open>The part under the lock, on a row that was read before.\<close>

fun manage_keys :: "manage_env \<Rightarrow> key_action \<Rightarrow> channel \<Rightarrow> pool_state \<Rightarrow> key_answer res \<times> pool_state" where
  "manage_keys env (GetKeyStatus page sz status) c st =
     (case get_key_status (GetKeys (me_raws env) c) (ch_ChannelInfo c) page sz status of
        Ok p \<Rightarrow> (Ok (KnPage p), st) | Err e \<Rightarrow> (Err e, st) | Panic \<Rightarrow> (Panic, st))"
| "manage_keys env (DisableKey k) c st = disable_key env k c st"
| "manage_keys env (EnableKey k) c st = enable_key env k c st"
| "manage_keys env EnableAllKeys c st = enable_all_keys env c st"
| "manage_keys env DisableAllKeys c st = disable_all_keys env c st"
| "manage_keys env (DeleteKey k) c st = delete_key env k c st"
| "manage_keys env DeleteDisabledKeys c st = delete_disabled_keys env c st"
| "manage_keys env OtherAction c st = (Err ''unknown action'', st)"

definition ManageMultiKeys :: "manage_env \<Rightarrow> int \<Rightarrow> key_action \<Rightarrow> pool_state \<Rightarrow> key_answer res \<times> pool_state" where
  "ManageMultiKeys env cid action st =
     (case (if me_read_ok env then GetChannelById cid st else None) of
        None \<Rightarrow> (Err ''no such channel'', st)
      | Some c \<Rightarrow> if \<not> IsMultiKey (ch_ChannelInfo c) then (Err ''not a pool'', st) else manage_keys env action c st)"

section \<open>Adding channels\<close>

definition validateChannel :: "manage_env \<Rightarrow> bool \<Rightarrow> channel \<Rightarrow> string option" where
  "validateChannel env isAdd c =
     (if (case ch_Setting c of None \<Rightarrow> False | Some s \<Rightarrow> s \<noteq> [] \<and> \<not> me_setting_ok env s) then Some ''settings do not decode''
      else if isAdd \<and> ch_Key c = [] then Some ''channel cannot be empty''
      else if isAdd \<and> list_ex (\<lambda>m. 255 < length m) (GetModels c) then Some ''name of a model too long''
      else if ch_Type c = ChannelTypeVertex then
        (if ch_Other c = [] then Some ''no region''
         else (case me_regions env (ch_Other c) of
                 None \<Rightarrow> Some ''regions do not decode''
               | Some rs \<Rightarrow> if ''default'' \<in> set rs then None else Some ''no default region''))
      else None)"

definition getVertexArrayKeys :: "manage_env \<Rightarrow> string \<Rightarrow> string list option" where
  "getVertexArrayKeys env keys =
     (if keys = [] then Some []
      else (case me_vertex env keys of
              None \<Rightarrow> None
            | Some ks \<Rightarrow>
                (let clean = filter (\<lambda>k. k \<noteq> []) (map (\<lambda>k. case k of KeyText s \<Rightarrow> go_trim_space s | KeyOther s \<Rightarrow> s) ks)
                 in if clean = [] then None else Some clean)))"

text \<open>Settings that do not decode are reset, and the channel at hand is saved as it is.\<close>

definition ChannelSave :: "manage_env \<Rightarrow> channel \<Rightarrow> pool_state \<Rightarrow> pool_state" where
  "ChannelSave env c st =
     (if ch_Id c = 0 \<or> \<not> me_update_ok env then st else st\<lparr>ps_channels := gm.modify (ps_channels st) (ch_Id c) (\<lambda>_. c\<lparr>ch_Keys := []\<rparr>)\<rparr>)"

definition GetOtherSettings :: "manage_env \<Rightarrow> channel \<Rightarrow> pool_state \<Rightarrow> string \<times> channel \<times> pool_state" where
  "GetOtherSettings env c st =
     (if ch_OtherSettings c = [] then ([], c, st)
      else (case me_vertex_type env (ch_OtherSettings c) of
              Some t \<Rightarrow> (t, c, st)
            | None \<Rightarrow> (let c1 = c\<lparr>ch_OtherSettings := ''{}''\<rparr> in ([], c1, ChannelSave env c1 st))))"

definition takes_vertex_keys :: "manage_env \<Rightarrow> channel \<Rightarrow> pool_state \<Rightarrow> bool \<times> channel \<times> pool_state" where
  "takes_vertex_keys env c st =
     (if ch_Type c \<noteq> ChannelTypeVertex then (False, c, st)
      else (case GetOtherSettings env c st of (t, c1, st1) \<Rightarrow> (t \<noteq> ''api_key'', c1, st1)))"

record add_request =
  ar_Mode :: string
  ar_MultiKeyMode :: string
  ar_BatchAddSetKeyPrefix2Name :: bool
  ar_Channel :: "channel option"

definition line_keys :: "string \<Rightarrow> string list" where
  "line_keys s = map go_trim_space (filter (\<lambda>k. k \<noteq> []) (go_split newline s))"

text \<open>The keys of the rows to add and the channel they are copied from.\<close>

definition add_keys :: "manage_env \<Rightarrow> add_request \<Rightarrow> channel \<Rightarrow> pool_state \<Rightarrow> (string list \<times> channel) res \<times> pool_state" where
  "add_keys env req c st =
     (if ar_Mode req = ''multi_to_single'' then
        (let c1 = c\<lparr>ch_ChannelInfo := (ch_ChannelInfo c)\<lparr>IsMultiKey := True, MultiKeyMode := ar_MultiKeyMode req\<rparr>\<rparr>
         in case takes_vertex_keys env c1 st of (vertex, c2, st1) \<Rightarrow>
            (case (if vertex then getVertexArrayKeys env (ch_Key c2) else Some (line_keys (ch_Key c2))) of
               None \<Rightarrow> (Err ''keys do not decode'', st1)
             | Some ks \<Rightarrow>
                 (let c3 = c2\<lparr>ch_Key := go_join newline ks, ch_ChannelInfo := (ch_ChannelInfo c2)\<lparr>MultiKeySize := int (length ks)\<rparr>\<rparr>
                  in (Ok ([ch_Key c3], c3), st1))))
      else if ar_Mode req = ''batch'' then
        (case takes_vertex_keys env c st of (vertex, c2, st1) \<Rightarrow>
           (case (if vertex then getVertexArrayKeys env (ch_Key c2) else Some (go_split newline (ch_Key c2))) of
              None \<Rightarrow> (Err ''keys do not decode'', st1) | Some ks \<Rightarrow> (Ok (ks, c2), st1)))
      else if ar_Mode req = ''single'' then (Ok ([ch_Key c], c), st)
      else (Err ''unknown mode'', st))"

text \<open>One row for each key; the loop writes into the channel it copies from.\<close>

fun add_rows :: "bool \<Rightarrow> string list \<Rightarrow> channel \<Rightarrow> channel list" where
  "add_rows prefixed [] c = []"
| "add_rows prefixed (k # ks) c =
     (if k = [] then add_rows prefixed ks c
      else (let c1 = c\<lparr>ch_Key := k, ch_Name := (if prefixed then ch_Name c @ '' '' @ take 8 k else ch_Name c)\<rparr>
            in c1 # add_rows prefixed ks c1))"

fun insert_rows :: "(channel \<times> int) list \<Rightarrow> (int, channel) gomap \<times> ability list \<Rightarrow> ((int, channel) gomap \<times> ability list) option" where
  "insert_rows [] (rows, ab) = Some (rows, ab)"
| "insert_rows ((c, i) # cs) (rows, ab) =
     (let j = (if ch_Id c \<noteq> 0 then ch_Id c else i);
          r = (column_defaults c)\<lparr>ch_Id := j, ch_Keys := []\<rparr>
      in if gm_get rows j \<noteq> None then None else insert_rows cs (gm_put rows j r, AddAbilities r ab))"

text \<open>All rows are of one tenant, the first one's, which is that of the statements.\<close>

definition BatchInsertChannels :: "manage_env \<Rightarrow> channel list \<Rightarrow> pool_state \<Rightarrow> bool \<times> pool_state" where
  "BatchInsertChannels env cs st =
     (if cs = [] then (True, st)
      else if \<not> me_begin_ok env then (False, st)
      else (case beforeCreate (WithTenantID no_tenant (ch_TenantId (hd cs))) ''channels'' (ch_TenantId (hd cs)) of
              None \<Rightarrow> (False, st)
            | Some t \<Rightarrow>
                if \<not> me_update_ok env \<or> \<not> me_ins_ok env \<or> \<not> me_commit_ok env then (False, st)
                else (case insert_rows (zip cs (map (me_new_id env) [0..<length cs])) (ps_channels st, ps_abilities st) of
                        None \<Rightarrow> (False, st)
                      | Some (rows, ab) \<Rightarrow> (True, st\<lparr>ps_channels := rows, ps_abilities := ab\<rparr>))))"

definition AddChannel :: "manage_env \<Rightarrow> string \<Rightarrow> add_request \<Rightarrow> pool_state \<Rightarrow> unit res \<times> pool_state" where
  "AddChannel env tenant req st =
     (case ar_Channel req of
        None \<Rightarrow> (Panic, st)
      | Some c0 \<Rightarrow>
          (case validateChannel env True c0 of
             Some e \<Rightarrow> (Err e, st)
           | None \<Rightarrow>
               (case add_keys env req (c0\<lparr>ch_CreatedTime := pe_now (me_pool env)\<rparr>) st of
                  (Ok (keys, c), st1) \<Rightarrow>
                    (case BatchInsertChannels env (add_rows (ar_BatchAddSetKeyPrefix2Name req \<and> 1 < length keys) keys
                            (c\<lparr>ch_TenantId := GetTenantIdFromContext tenant\<rparr>)) st1 of
                       (False, st2) \<Rightarrow> (Err ''insert failed'', st2) | (True, st2) \<Rightarrow> (Ok (), st2))
                | (Err e, st1) \<Rightarrow> (Err e, st1)
                | (Panic, st1) \<Rightarrow> (Panic, st1))))"

definition CopyChannel :: "manage_env \<Rightarrow> int \<Rightarrow> string \<Rightarrow> bool \<Rightarrow> pool_state \<Rightarrow> int res \<times> pool_state" where
  "CopyChannel env cid suffix reset st =
     (case (if me_read_ok env then GetChannelById cid st else None) of
        None \<Rightarrow> (Err ''no such channel'', st)
      | Some c \<Rightarrow>
          (let c1 = c\<lparr>ch_Id := 0, ch_CreatedTime := pe_now (me_pool env), ch_Name := ch_Name c @ suffix, ch_TestTime := 0, ch_ResponseTime := 0\<rparr>;
               c2 = (if reset then c1\<lparr>ch_Balance := 0, ch_UsedQuota := 0\<rparr> else c1)
           in case BatchInsertChannels env [c2] st of
                (False, st1) \<Rightarrow> (Err ''insert failed'', st1) | (True, st1) \<Rightarrow> finish env (ch_Id c2) st1))"

section \<open>Changing a channel\<close>

record update_channel_request =
  ur_Channel :: channel
  ur_MultiKeyMode :: "string option"
  ur_KeyMode :: "string option"

definition existing_keys :: "manage_env \<Rightarrow> string \<Rightarrow> string list" where
  "existing_keys env key =
     (if go_has_prefix (go_trim_space key) ''['' then (case me_raws env (go_trim_space key) of None \<Rightarrow> [] | Some ks \<Rightarrow> ks)
      else go_split newline (go_trim (\<lambda>x. x = newline) key))"

definition append_keys :: "manage_env \<Rightarrow> string \<Rightarrow> channel \<Rightarrow> pool_state \<Rightarrow> channel res \<times> pool_state" where
  "append_keys env old c st =
     (if old = [] then (Ok c, st)
      else (case takes_vertex_keys env c st of (vertex, c1, st1) \<Rightarrow>
              (case (if vertex then (if go_has_prefix (go_trim_space (ch_Key c1)) ''['' then getVertexArrayKeys env (ch_Key c1) else Some [ch_Key c1])
                     else Some (filter (\<lambda>k. k \<noteq> []) (map go_trim_space (go_split newline (ch_Key c1))))) of
                 None \<Rightarrow> (Err ''keys do not decode'', st1)
               | Some new \<Rightarrow> (Ok (c1\<lparr>ch_Key := go_join newline (existing_keys env old @ new)\<rparr>), st1))))"

definition patched :: "update_channel_request \<Rightarrow> channel \<Rightarrow> channel" where
  "patched req old = (ur_Channel req)\<lparr>ch_ChannelInfo := (case ur_MultiKeyMode req of
     None \<Rightarrow> ch_ChannelInfo old | Some m \<Rightarrow> if m = [] then ch_ChannelInfo old else (ch_ChannelInfo old)\<lparr>MultiKeyMode := m\<rparr>)\<rparr>"

definition merged_keys :: "manage_env \<Rightarrow> update_channel_request \<Rightarrow> channel \<Rightarrow> channel \<Rightarrow> pool_state \<Rightarrow> channel res \<times> pool_state" where
  "merged_keys env req old c st =
     (if ur_KeyMode req = Some ''append'' \<and> IsMultiKey (ch_ChannelInfo c) then append_keys env (ch_Key old) c st else (Ok c, st))"

definition UpdateChannel :: "manage_env \<Rightarrow> update_channel_request \<Rightarrow> pool_state \<Rightarrow> unit res \<times> pool_state" where
  "UpdateChannel env req st =
     (case validateChannel env False (ur_Channel req) of
        Some e \<Rightarrow> (Err e, st)
      | None \<Rightarrow>
          (case (if me_read_ok env then GetChannelById (ch_Id (ur_Channel req)) st else None) of
             None \<Rightarrow> (Err ''no such channel'', st)
           | Some old \<Rightarrow>
               (case merged_keys env req old (patched req old) st of
                  (Ok c, st1) \<Rightarrow> (case ChannelUpdate env c st1 of (False, st2) \<Rightarrow> (Err ''update failed'', st2) | (True, st2) \<Rightarrow> finish env () st2)
                | (Err e, st1) \<Rightarrow> (Err e, st1)
                | (Panic, st1) \<Rightarrow> (Panic, st1))))"

section \<open>Deleting channels\<close>

definition ChannelDelete :: "manage_env \<Rightarrow> int \<Rightarrow> pool_state \<Rightarrow> bool \<times> pool_state" where
  "ChannelDelete env cid st =
     (if cid = 0 \<or> \<not> me_delete_ok env then (False, st)
      else (let st1 = st\<lparr>ps_channels := gm_del (ps_channels st) cid\<rparr>
            in if \<not> me_del_ok env then (False, st1)
               else (True, st1\<lparr>ps_abilities := filter (\<lambda>a. ab_ChannelId a \<noteq> cid) (ps_abilities st1)\<rparr>)))"

definition DeleteChannel :: "manage_env \<Rightarrow> int \<Rightarrow> pool_state \<Rightarrow> unit res \<times> pool_state" where
  "DeleteChannel env cid st =
     (case ChannelDelete env cid st of (False, st1) \<Rightarrow> (Err ''delete failed'', st1) | (True, st1) \<Rightarrow> finish env () st1)"

definition disabled_row :: "channel \<Rightarrow> bool" where
  "disabled_row c \<longleftrightarrow> ch_Status c = ChannelStatusAutoDisabled \<or> ch_Status c = ChannelStatusManuallyDisabled"

definition DeleteDisabledChannel :: "manage_env \<Rightarrow> pool_state \<Rightarrow> int res \<times> pool_state" where
  "DeleteDisabledChannel env st =
     (if \<not> me_delete_ok env then (Err ''delete failed'', st)
      else finish env (int (length (filter (\<lambda>(i, c). disabled_row c) (ps_channels st))))
             (st\<lparr>ps_channels := filter (\<lambda>(i, c). \<not> disabled_row c) (ps_channels st)\<rparr>))"

definition BatchDeleteChannels :: "manage_env \<Rightarrow> int list \<Rightarrow> pool_state \<Rightarrow> bool \<times> pool_state" where
  "BatchDeleteChannels env ids st =
     (if ids = [] then (True, st)
      else if \<not> me_begin_ok env \<or> \<not> me_delete_ok env \<or> \<not> me_del_ok env \<or> \<not> me_commit_ok env then (False, st)
      else (True, st\<lparr>ps_channels := filter (\<lambda>(i, c). i \<notin> set ids) (ps_channels st),
                     ps_abilities := filter (\<lambda>a. ab_ChannelId a \<notin> set ids) (ps_abilities st)\<rparr>))"

definition DeleteChannelBatch :: "manage_env \<Rightarrow> int list \<Rightarrow> pool_state \<Rightarrow> int res \<times> pool_state" where
  "DeleteChannelBatch env ids st =
     (if ids = [] then (Err ''bad request'', st)
      else (case BatchDeleteChannels env ids st of
              (False, st1) \<Rightarrow> (Err ''delete failed'', st1) | (True, st1) \<Rightarrow> finish env (int (length ids)) st1))"

section \<open>Tags\<close>

definition on_rows :: "(channel \<Rightarrow> bool) \<Rightarrow> (channel \<Rightarrow> channel) \<Rightarrow> pool_state \<Rightarrow> pool_state" where
  "on_rows P f st = st\<lparr>ps_channels := map (\<lambda>(i, c). (i, if P c then f c else c)) (ps_channels st)\<rparr>"

definition set_status_by_tag :: "manage_env \<Rightarrow> string \<Rightarrow> bool \<Rightarrow> pool_state \<Rightarrow> bool \<times> pool_state" where
  "set_status_by_tag env tag up st =
     (if \<not> me_update_ok env then (False, st)
      else (let st1 = on_rows (\<lambda>c. ch_Tag c = Some tag)
                  (\<lambda>c. c\<lparr>ch_Status := (if up then ChannelStatusEnabled else ChannelStatusManuallyDisabled)\<rparr>) st
            in if \<not> me_ins_ok env then (False, st1)
               else (True, st1\<lparr>ps_abilities := UpdateAbilityStatusByTag tag up (ps_abilities st1)\<rparr>)))"

definition EnableTagChannels :: "manage_env \<Rightarrow> string \<Rightarrow> pool_state \<Rightarrow> unit res \<times> pool_state" where
  "EnableTagChannels env tag st =
     (if tag = [] then (Err ''bad request'', st)
      else (case set_status_by_tag env tag True st of (False, st1) \<Rightarrow> (Err ''update failed'', st1) | (True, st1) \<Rightarrow> finish env () st1))"

definition DisableTagChannels :: "manage_env \<Rightarrow> string \<Rightarrow> pool_state \<Rightarrow> unit res \<times> pool_state" where
  "DisableTagChannels env tag st =
     (if tag = [] then (Err ''bad request'', st)
      else (case set_status_by_tag env tag False st of (False, st1) \<Rightarrow> (Err ''update failed'', st1) | (True, st1) \<Rightarrow> finish env () st1))"

record tag_edit =
  et_Tag :: string
  et_NewTag :: "string option"
  et_Priority :: "int option"
  et_Weight :: "int option"
  et_ModelMapping :: "string option"
  et_Models :: "string option"
  et_Groups :: "string option"
  et_ParamOverride :: "string option"
  et_HeaderOverride :: "string option"

definition given_text :: "string option \<Rightarrow> string option" where
  "given_text x = (case x of None \<Rightarrow> None | Some s \<Rightarrow> if s = [] then None else Some s)"

definition tag_update :: "tag_edit \<Rightarrow> channel" where
  "tag_update e = zero_channel\<lparr>ch_Tag := (if et_NewTag e = Some (et_Tag e) then None else et_NewTag e),
     ch_ModelMapping := given_text (et_ModelMapping e), ch_Models := set_opt (et_Models e) [], ch_Group := set_opt (et_Groups e) [],
     ch_Priority := et_Priority e, ch_Weight := et_Weight e, ch_ParamOverride := et_ParamOverride e, ch_HeaderOverride := et_HeaderOverride e\<rparr>"

definition refresh_abilities :: "manage_env \<Rightarrow> channel list \<Rightarrow> ability list \<Rightarrow> ability list" where
  "refresh_abilities env cs ab = fold (\<lambda>c t. snd (UpdateAbilities (me_del_ok env) (me_ins_ok env) c t)) cs ab"

definition EditChannelByTag :: "manage_env \<Rightarrow> tag_edit \<Rightarrow> pool_state \<Rightarrow> bool \<times> pool_state" where
  "EditChannelByTag env e st =
     (if \<not> me_update_ok env then (False, st)
      else (let st1 = on_rows (\<lambda>c. ch_Tag c = Some (et_Tag e)) (updates (tag_update e)) st
            in if given_text (et_Models e) \<noteq> None \<or> given_text (et_Groups e) \<noteq> None then
                 (True, if me_read_ok env
                        then st1\<lparr>ps_abilities := refresh_abilities env
                               (filter (\<lambda>c. ch_Tag c = Some (set_opt (et_NewTag e) (et_Tag e))) (map snd (ps_channels st1))) (ps_abilities st1)\<rparr>
                        else st1)
               else if \<not> me_ins_ok env then (False, st1)
               else (True, st1\<lparr>ps_abilities := UpdateAbilityByTag (et_Tag e) (et_NewTag e) (et_Priority e) (et_Weight e) (ps_abilities st1)\<rparr>)))"

definition bad_override :: "manage_env \<Rightarrow> string option \<Rightarrow> bool" where
  "bad_override env x = (case x of None \<Rightarrow> False | Some s \<Rightarrow> go_trim_space s \<noteq> [] \<and> \<not> me_json_valid env (go_trim_space s))"

definition EditTagChannels :: "manage_env \<Rightarrow> tag_edit \<Rightarrow> pool_state \<Rightarrow> unit res \<times> pool_state" where
  "EditTagChannels env e st =
     (if et_Tag e = [] then (Err ''no tag'', st)
      else if bad_override env (et_ParamOverride e) then (Err ''parameters are not JSON'', st)
      else if bad_override env (et_HeaderOverride e) then (Err ''headers are not JSON'', st)
      else (case EditChannelByTag env (e\<lparr>et_ParamOverride := map_option go_trim_space (et_ParamOverride e),
                     et_HeaderOverride := map_option go_trim_space (et_HeaderOverride e)\<rparr>) st of
              (False, st1) \<Rightarrow> (Err ''update failed'', st1) | (True, st1) \<Rightarrow> finish env () st1))"

text \<open>The tags are written inside a transaction; the channels whose abilities are rebuilt are read outside, as they were before it.\<close>

definition BatchSetChannelTag :: "manage_env \<Rightarrow> int list \<Rightarrow> string option \<Rightarrow> pool_state \<Rightarrow> bool \<times> pool_state" where
  "BatchSetChannelTag env ids tag st =
     (let st1 = on_rows (\<lambda>c. ch_Id c \<in> set ids) (\<lambda>c. c\<lparr>ch_Tag := tag\<rparr>) st;
          before = filter (\<lambda>c. ch_Id c \<in> set ids) (map snd (ps_channels st))
      in if \<not> me_begin_ok env \<or> \<not> me_update_ok env \<or> \<not> me_read_ok env \<or>
            before \<noteq> [] \<and> (\<not> me_del_ok env \<or> \<not> me_ins_ok env) \<or> \<not> me_commit_ok env then (False, st)
         else (True, st1\<lparr>ps_abilities := refresh_abilities env before (ps_abilities st1)\<rparr>))"

definition BatchSetTag :: "manage_env \<Rightarrow> int list \<Rightarrow> string option \<Rightarrow> pool_state \<Rightarrow> int res \<times> pool_state" where
  "BatchSetTag env ids tag st =
     (if ids = [] then (Err ''bad request'', st)
      else (case BatchSetChannelTag env ids tag st of
              (False, st1) \<Rightarrow> (Err ''update failed'', st1) | (True, st1) \<Rightarrow> finish env (int (length ids)) st1))"

text \<open>Rebuilding all abilities; the counts are of the channels that succeed and fail.\<close>

definition FixAbility :: "manage_env \<Rightarrow> pool_state \<Rightarrow> (int \<times> int) res \<times> pool_state" where
  "FixAbility env st =
     (if \<not> me_delete_ok env then (Err ''truncate failed'', st)
      else (let st1 = st\<lparr>ps_abilities := []\<rparr>; cs = map snd (ps_channels st); n = int (length cs)
            in if \<not> me_read_ok env then (Err ''read failed'', st1)
               else if cs = [] then (Ok (0, 0), st1)
               else if \<not> me_del_ok env \<or> \<not> me_ins_ok env then finish env (0, n) st1
               else finish env (n, 0) (st1\<lparr>ps_abilities := fold AddAbilities cs []\<rparr>)))"

section \<open>Rows and abilities\<close>

text \<open>The abilities of the table are those of the rows of the channels.\<close>

definition in_sync :: "pool_state \<Rightarrow> bool" where
  "in_sync st \<longleftrightarrow> gm_ok (ps_channels st) \<and> (\<forall>i c. gm_get (ps_channels st) i = Some c \<longrightarrow> ch_Id c = i) \<and>
     (\<forall>a. a \<in> set (ps_abilities st) \<longleftrightarrow>
        (case gm_get (ps_channels st) (ab_ChannelId a) of None \<Rightarrow> False | Some c \<Rightarrow> a \<in> set (channel_abilities c)))"

lemma channel_abilities_id: "a \<in> set (channel_abilities c) \<Longrightarrow> ab_ChannelId a = ch_Id c"
  by (auto simp: channel_abilities_def mk_ability_def)

lemma same_key_unique: "a \<in> set (channel_abilities c) \<Longrightarrow> b \<in> set (channel_abilities c) \<Longrightarrow> same_key a b \<Longrightarrow> a = b"
  by (auto simp: channel_abilities_def mk_ability_def same_key_def)

lemma channel_abilities_cong:
  "ch_Id c = ch_Id d \<Longrightarrow> ch_Models c = ch_Models d \<Longrightarrow> ch_Group c = ch_Group d \<Longrightarrow> ch_Status c = ch_Status d \<Longrightarrow> ch_Priority c = ch_Priority d \<Longrightarrow>
     ch_Weight c = ch_Weight d \<Longrightarrow> ch_Tag c = ch_Tag d \<Longrightarrow> channel_abilities c = channel_abilities d"
  by (simp add: channel_abilities_def channel_pairs_def mk_ability_def GetWeight_def case_prod_unfold)

lemma insert_abilities_set:
  assumes "\<forall>a \<in> set t. ab_ChannelId a \<noteq> ch_Id c \<or> a \<in> set (channel_abilities c)" "set xs \<subseteq> set (channel_abilities c)"
  shows "set (fold insert_ability xs t) = set t \<union> set xs"
  using assms
proof (induction xs arbitrary: t)
  case (Cons x xs)
  have x: "x \<in> set (channel_abilities c)" "ab_ChannelId x = ch_Id c" using Cons.prems(2) channel_abilities_id by auto
  have old: "b \<in> set t \<Longrightarrow> same_key b x \<Longrightarrow> b = x" for b
    using Cons.prems(1) x same_key_unique unfolding same_key_def by metis
  have "set (insert_ability x t) = insert x (set t)" using old by (auto simp: insert_ability_def)
  moreover have "set (fold insert_ability xs (insert_ability x t)) = set (insert_ability x t) \<union> set xs"
    by (rule Cons.IH) (use Cons.prems x \<open>set (insert_ability x t) = insert x (set t)\<close> in auto)
  ultimately show ?case by simp
qed simp

lemma AddAbilities_set: "\<forall>a \<in> set t. ab_ChannelId a \<noteq> ch_Id c \<Longrightarrow> set (AddAbilities c t) = set t \<union> set (channel_abilities c)"
  unfolding AddAbilities_def by (rule insert_abilities_set [where c = c]) auto

lemma UpdateAbilities_set:
  "set (snd (UpdateAbilities True True c t)) = {a \<in> set t. ab_ChannelId a \<noteq> ch_Id c} \<union> set (channel_abilities c)"
proof -
  have "set (fold insert_ability (channel_abilities c) (filter (\<lambda>a. ab_ChannelId a \<noteq> ch_Id c) t)) =
      set (filter (\<lambda>a. ab_ChannelId a \<noteq> ch_Id c) t) \<union> set (channel_abilities c)"
    by (rule insert_abilities_set [where c = c]) auto
  then show ?thesis unfolding UpdateAbilities_def Let_def by (cases "channel_abilities c = []") simp_all
qed

lemma UpdateAbilities_ok: "fst (UpdateAbilities True True c t)"
  by (simp add: UpdateAbilities_def Let_def)

text \<open>A row is replaced and its abilities are rebuilt.\<close>

lemma in_sync_row:
  assumes "in_sync st" "ch_Id r = i" "gm_ok rows" "\<And>j. gm_get rows j = (if j = i then Some r else gm_get (ps_channels st) j)"
    "set ab = {a \<in> set (ps_abilities st). ab_ChannelId a \<noteq> i} \<union> set (channel_abilities r)"
  shows "in_sync (st\<lparr>ps_channels := rows, ps_abilities := ab\<rparr>)"
  unfolding in_sync_def
proof (intro conjI allI impI, goal_cases)
  case 1
  show ?case using assms(3) by simp
next
  case (2 j c)
  then show ?case using assms(1,2,4) by (auto simp: in_sync_def split: if_splits)
next
  case (3 a)
  show ?case using assms(1,2) channel_abilities_id [of a r] unfolding in_sync_def by (auto simp: assms(4,5))
qed

lemma in_sync_cache: "in_sync (st\<lparr>ps_cache := cc\<rparr>) = in_sync st"
  by (simp add: in_sync_def)

lemma in_sync_finish: "in_sync (snd (finish env x st)) = in_sync st"
  by (auto simp: finish_def reinit_def in_sync_cache split: option.splits)

definition steady :: "manage_env \<Rightarrow> bool" where
  "steady env \<longleftrightarrow> me_read_ok env \<and> me_update_ok env \<and> me_reload_ok env \<and> me_delete_ok env \<and> me_begin_ok env \<and> me_commit_ok env \<and>
     me_del_ok env \<and> me_ins_ok env \<and> (\<forall>s. me_vertex_type env s \<noteq> None)"

lemma updates_id: "ch_Id (updates c row) = ch_Id row"
  by (simp add: updates_def)

lemma ChannelUpdate_steady:
  assumes "steady env" "ch_Id c \<noteq> 0" "gm_get (ps_channels st) (ch_Id c) = Some row"
  shows "ChannelUpdate env c st = (True, st\<lparr>ps_channels := gm_put (ps_channels st) (ch_Id c) (updates (resized env st c) row),
     ps_abilities := snd (UpdateAbilities True True ((updates (resized env st c) row)\<lparr>ch_Keys := []\<rparr>) (ps_abilities st))\<rparr>)"
  using assms UpdateAbilities_ok [of "(updates (resized env st c) row)\<lparr>ch_Keys := []\<rparr>" "ps_abilities st"]
  by (simp add: ChannelUpdate_def steady_def Let_def GetChannelById_def gm.modify_def case_prod_unfold)

lemma in_sync_ChannelUpdate:
  assumes "steady env" "in_sync st" "gm_get (ps_channels st) (ch_Id c) = Some row"
  shows "in_sync (snd (ChannelUpdate env c st))"
proof (cases "ch_Id c = 0")
  case True
  then show ?thesis using assms(2) by (simp add: ChannelUpdate_def Let_def)
next
  case False
  let ?r = "updates (resized env st c) row"
  have id: "ch_Id row = ch_Id c" using assms(2,3) by (simp add: in_sync_def)
  have ab: "channel_abilities (?r\<lparr>ch_Keys := []\<rparr>) = channel_abilities ?r" by (rule channel_abilities_cong) simp_all
  show ?thesis unfolding ChannelUpdate_steady [OF assms(1) False assms(3)] snd_conv
    by (rule in_sync_row [OF assms(2), where i = "ch_Id c" and r = ?r])
      (use assms(2) id in \<open>simp_all add: updates_id in_sync_def UpdateAbilities_set ab\<close>)
qed

lemma in_sync_UpdateKeys:
  assumes "steady env" "in_sync st" "gm_get (ps_channels st) (ch_Id c) = Some row"
  shows "in_sync (snd (update_keys env x c st))"
proof -
  obtain ok st1 where u: "ChannelUpdate env c st = (ok, st1)" by fastforce
  have "in_sync st1" using in_sync_ChannelUpdate [OF assms] u by simp
  then show ?thesis unfolding update_keys_def u by (simp add: in_sync_finish split: bool.split)
qed

lemma in_sync_manage_keys:
  assumes "steady env" "in_sync st" "gm_get (ps_channels st) (ch_Id c) = Some row"
  shows "in_sync (snd (manage_keys env action c st))"
proof (cases action)
  case (GetKeyStatus page sz status)
  then show ?thesis using assms(2) by (simp split: res.split)
next
  case (DisableKey k)
  then show ?thesis using assms(2) by (auto simp: key_action_defs split: option.split intro!: in_sync_UpdateKeys [OF assms(1,2), where row = row] simp: assms(3))
next
  case (EnableKey k)
  then show ?thesis using assms(2) by (auto simp: key_action_defs split: option.split intro!: in_sync_UpdateKeys [OF assms(1,2), where row = row] simp: assms(3))
next
  case EnableAllKeys
  then show ?thesis by (auto simp: key_action_defs intro!: in_sync_UpdateKeys [OF assms(1,2), where row = row] simp: assms(3))
next
  case DisableAllKeys
  then show ?thesis using assms(2) by (auto simp: key_action_defs Let_def intro!: in_sync_UpdateKeys [OF assms(1,2), where row = row] simp: assms(3))
next
  case (DeleteKey k)
  then show ?thesis using assms(2)
    by (auto simp: key_action_defs Let_def keep_keys_def split: option.split intro!: in_sync_UpdateKeys [OF assms(1,2), where row = row] simp: assms(3))
next
  case DeleteDisabledKeys
  then show ?thesis using assms(2)
    by (auto simp: key_action_defs Let_def keep_keys_def intro!: in_sync_UpdateKeys [OF assms(1,2), where row = row] simp: assms(3))
qed (use assms(2) in simp)

lemma GetChannelById_row: "in_sync st \<Longrightarrow> GetChannelById i st = Some c \<Longrightarrow> \<exists>row. gm_get (ps_channels st) (ch_Id c) = Some row \<and> ch_Id c = i"
  by (auto simp: GetChannelById_def in_sync_def)

lemma in_sync_ManageMultiKeys:
  assumes "steady env" "in_sync st"
  shows "in_sync (snd (ManageMultiKeys env i action st))"
proof (cases "if me_read_ok env then GetChannelById i st else None")
  case (Some c)
  then obtain row where "gm_get (ps_channels st) (ch_Id c) = Some row" using GetChannelById_row [OF assms(2)] by (auto split: if_splits)
  from in_sync_manage_keys [OF assms this] show ?thesis using assms(2) by (simp only: ManageMultiKeys_def Some option.case) simp
qed (use assms(2) in \<open>simp only: ManageMultiKeys_def option.case snd_conv\<close>)

lemma in_sync_insert_rows:
  "insert_rows cs (rows, ab) = Some (rows', ab') \<Longrightarrow> in_sync (st\<lparr>ps_channels := rows, ps_abilities := ab\<rparr>) \<Longrightarrow>
     in_sync (st\<lparr>ps_channels := rows', ps_abilities := ab'\<rparr>)"
proof (induction cs arbitrary: rows ab)
  case (Cons x cs)
  obtain c i where x: "x = (c, i)" by (cases x)
  define j where "j = (if ch_Id c \<noteq> 0 then ch_Id c else i)"
  define r where "r = (column_defaults c)\<lparr>ch_Id := j, ch_Keys := []\<rparr>"
  have new: "gm_get rows j = None" and rest: "insert_rows cs (gm_put rows j r, AddAbilities r ab) = Some (rows', ab')"
    using Cons.prems(1) by (auto simp: x Let_def j_def [symmetric] r_def [symmetric] split: if_splits)
  have id: "ch_Id r = j" by (simp add: r_def)
  have none: "\<forall>a \<in> set ab. ab_ChannelId a \<noteq> ch_Id r"
  proof (intro ballI notI)
    fix a
    assume "a \<in> set ab" "ab_ChannelId a = ch_Id r"
    then show False using Cons.prems(2) new id by (auto simp: in_sync_def split: option.splits)
  qed
  have same: "set ab = {a \<in> set ab. ab_ChannelId a \<noteq> j}" using none id by auto
  have "in_sync (st\<lparr>ps_channels := rows, ps_abilities := ab\<rparr>\<lparr>ps_channels := gm_put rows j r, ps_abilities := AddAbilities r ab\<rparr>)"
  proof (rule in_sync_row [OF Cons.prems(2) id])
    show "gm_ok (gm_put rows j r)" using Cons.prems(2) by (simp add: in_sync_def)
    show "gm_get (gm_put rows j r) k = (if k = j then Some r else gm_get (ps_channels (st\<lparr>ps_channels := rows, ps_abilities := ab\<rparr>)) k)" for k by simp
    show "set (AddAbilities r ab) = {a \<in> set (ps_abilities (st\<lparr>ps_channels := rows, ps_abilities := ab\<rparr>)). ab_ChannelId a \<noteq> j} \<union> set (channel_abilities r)"
      unfolding AddAbilities_set [OF none] using same by simp
  qed
  then show ?case using Cons.IH [OF rest] by simp
qed simp

lemma in_sync_BatchInsert: "in_sync st \<Longrightarrow> in_sync (snd (BatchInsertChannels env cs st))"
  using in_sync_insert_rows [where st = st and rows = "ps_channels st" and ab = "ps_abilities st"]
  unfolding BatchInsertChannels_def by (auto split: option.split)

lemma takes_vertex_steady:
  assumes "steady env"
  shows "\<exists>v. takes_vertex_keys env c st = (v, c, st)"
proof -
  obtain t where "me_vertex_type env (ch_OtherSettings c) = Some t" using assms unfolding steady_def by blast
  then show ?thesis by (auto simp: takes_vertex_keys_def GetOtherSettings_def)
qed

lemma add_keys_steady: "steady env \<Longrightarrow> snd (add_keys env req c st) = st"
  using takes_vertex_steady [of env c st]
    takes_vertex_steady [of env "c\<lparr>ch_ChannelInfo := (ch_ChannelInfo c)\<lparr>IsMultiKey := True, MultiKeyMode := ar_MultiKeyMode req\<rparr>\<rparr>" st]
  by (auto simp: add_keys_def Let_def split: option.split)

lemma in_sync_AddChannel:
  assumes "steady env" "in_sync st"
  shows "in_sync (snd (AddChannel env tenant req st))"
proof (cases "ar_Channel req")
  case (Some c0)
  obtain r st1 where a: "add_keys env req (c0\<lparr>ch_CreatedTime := pe_now (me_pool env)\<rparr>) st = (r, st1)" by fastforce
  have "st1 = st" using add_keys_steady [OF assms(1)] a by (metis snd_conv)
  show ?thesis
  proof (cases "validateChannel env True c0")
    case None
    show ?thesis
    proof (cases r)
      case (Ok kc)
      obtain keys c where kc: "kc = (keys, c)" by (cases kc)
      obtain ok st2 where b: "BatchInsertChannels env (add_rows (ar_BatchAddSetKeyPrefix2Name req \<and> 1 < length keys) keys
          (c\<lparr>ch_TenantId := GetTenantIdFromContext tenant\<rparr>)) st = (ok, st2)" by fastforce
      then have "in_sync st2" using in_sync_BatchInsert [OF assms(2)] by (metis snd_conv)
      then show ?thesis using None Ok Some a b kc \<open>st1 = st\<close> by (simp add: AddChannel_def split: bool.split)
    qed (use None Some a \<open>st1 = st\<close> assms(2) in \<open>simp_all add: AddChannel_def\<close>)
  qed (use Some assms(2) in \<open>simp add: AddChannel_def\<close>)
qed (use assms(2) in \<open>simp add: AddChannel_def\<close>)

lemma in_sync_CopyChannel:
  assumes "in_sync st"
  shows "in_sync (snd (CopyChannel env i suffix reset st))"
  using assms in_sync_BatchInsert [OF assms]
  by (auto simp: CopyChannel_def Let_def in_sync_finish split: option.split bool.split prod.split) (metis snd_conv)+

lemma append_keys_steady:
  assumes "steady env" "append_keys env old c st = (r, st1)"
  shows "st1 = st \<and> (\<forall>c1. r = Ok c1 \<longrightarrow> ch_Id c1 = ch_Id c)"
proof -
  obtain v where "takes_vertex_keys env c st = (v, c, st)" using takes_vertex_steady [OF assms(1)] by blast
  then show ?thesis using assms(2) by (auto simp: append_keys_def split: if_splits option.splits)
qed

lemma merged_keys_steady:
  assumes "steady env" "merged_keys env req old c st = (r, st1)"
  shows "st1 = st \<and> (\<forall>c1. r = Ok c1 \<longrightarrow> ch_Id c1 = ch_Id c)"
proof (cases "ur_KeyMode req = Some ''append'' \<and> IsMultiKey (ch_ChannelInfo c)")
  case True
  show ?thesis using append_keys_steady [OF assms(1)] assms(2) unfolding merged_keys_def if_P [OF True] by blast
next
  case False
  show ?thesis using assms(2) unfolding merged_keys_def if_not_P [OF False] by auto
qed

lemma in_sync_UpdateChannel:
  assumes "steady env" "in_sync st"
  shows "in_sync (snd (UpdateChannel env req st))"
proof (cases "validateChannel env False (ur_Channel req)")
  case None
  show ?thesis
  proof (cases "if me_read_ok env then GetChannelById (ch_Id (ur_Channel req)) st else None")
    case (Some old)
    obtain r st1 where m: "merged_keys env req old (patched req old) st = (r, st1)" by fastforce
    have st1: "st1 = st" using merged_keys_steady [OF assms(1) m] by blast
    show ?thesis
    proof (cases r)
      case (Ok c)
      have "ch_Id c = ch_Id (ur_Channel req)" using merged_keys_steady [OF assms(1) m] Ok unfolding patched_def by simp
      moreover obtain row where "gm_get (ps_channels st) (ch_Id (ur_Channel req)) = Some row"
        using Some by (auto simp: GetChannelById_def split: if_splits)
      ultimately have row: "gm_get (ps_channels st) (ch_Id c) = Some row" by (simp only:)
      obtain ok st2 where u: "ChannelUpdate env c st = (ok, st2)" by fastforce
      have "in_sync st2" using in_sync_ChannelUpdate [OF assms row] u by simp
      then show ?thesis unfolding UpdateChannel_def None option.case Some m Ok st1 u prod.case res.case
        by (cases ok) (simp_all only: bool.case in_sync_finish snd_conv)
    qed (use assms(2) in \<open>simp_all only: UpdateChannel_def None option.case Some m st1 prod.case res.case snd_conv\<close>)
  qed (use assms(2) in \<open>simp_all only: UpdateChannel_def None option.case snd_conv\<close>)
qed (use assms(2) in \<open>simp only: UpdateChannel_def option.case snd_conv\<close>)

lemma in_sync_filter:
  assumes "in_sync st"
  shows "in_sync (st\<lparr>ps_channels := filter (\<lambda>(i, c). P i) (ps_channels st), ps_abilities := filter (\<lambda>a. P (ab_ChannelId a)) (ps_abilities st)\<rparr>)"
proof -
  have ok: "gm_ok (ps_channels st)" using assms by (simp add: in_sync_def)
  have row: "gm_get (filter (\<lambda>(i, c). P i) (ps_channels st)) i = (if P i then gm_get (ps_channels st) i else None)" for i
    unfolding gm_get_filter [OF ok] by (simp split: option.split)
  show ?thesis using assms gm_ok_filter [OF ok] unfolding in_sync_def by (auto simp: row)
qed

lemma gm_del_filter: "gm_del m k = filter (\<lambda>(i, c). i \<noteq> k) m"
  by (induction m) (auto simp: gm_del_def)

lemma in_sync_DeleteChannel:
  assumes "steady env" "in_sync st"
  shows "in_sync (snd (DeleteChannel env i st))"
proof (cases "i = 0")
  case False
  then have "ChannelDelete env i st = (True, st\<lparr>ps_channels := filter (\<lambda>(j, c). j \<noteq> i) (ps_channels st),
      ps_abilities := filter (\<lambda>a. ab_ChannelId a \<noteq> i) (ps_abilities st)\<rparr>)"
    using assms(1) by (simp add: ChannelDelete_def steady_def Let_def gm_del_filter)
  then show ?thesis using in_sync_filter [OF assms(2), of "\<lambda>j. j \<noteq> i"] unfolding DeleteChannel_def by (simp add: in_sync_finish)
qed (use assms(2) in \<open>simp add: DeleteChannel_def ChannelDelete_def\<close>)

lemma in_sync_DeleteChannelBatch:
  assumes "steady env" "in_sync st"
  shows "in_sync (snd (DeleteChannelBatch env ids st))"
proof (cases "ids = []")
  case False
  then have "BatchDeleteChannels env ids st = (True, st\<lparr>ps_channels := filter (\<lambda>(j, c). j \<notin> set ids) (ps_channels st),
      ps_abilities := filter (\<lambda>a. ab_ChannelId a \<notin> set ids) (ps_abilities st)\<rparr>)"
    using assms(1) by (simp add: BatchDeleteChannels_def steady_def)
  then show ?thesis using False in_sync_filter [OF assms(2), of "\<lambda>j. j \<notin> set ids"] unfolding DeleteChannelBatch_def by (simp add: in_sync_finish)
qed (use assms(2) in \<open>simp add: DeleteChannelBatch_def\<close>)

text \<open>Rows and abilities are changed alike.\<close>

lemma in_sync_map:
  assumes "in_sync st" "\<And>c. ch_Id (F c) = ch_Id c" "\<And>a. ab_ChannelId (f a) = ab_ChannelId a"
    "\<And>c. c \<in> set (map snd (ps_channels st)) \<Longrightarrow> set (channel_abilities (F c)) = f ` set (channel_abilities c)"
  shows "in_sync (st\<lparr>ps_channels := map (\<lambda>(i, c). (i, F c)) (ps_channels st), ps_abilities := map f (ps_abilities st)\<rparr>)"
proof -
  have ok: "gm_ok (map (\<lambda>(i, c). (i, F c)) (ps_channels st))"
    using assms(1) by (simp add: in_sync_def gm_ok_def gm_keys_def comp_def case_prod_unfold)
  have row: "c \<in> set (map snd (ps_channels st))" if "gm_get (ps_channels st) i = Some c" for i c
    using gm_get_SomeD [OF that] by force
  have "a' \<in> f ` set (ps_abilities st) \<longleftrightarrow>
      (case gm_get (ps_channels st) (ab_ChannelId a') of None \<Rightarrow> False | Some c \<Rightarrow> a' \<in> set (channel_abilities (F c)))" for a'
  proof
    assume "a' \<in> f ` set (ps_abilities st)"
    then obtain a where a: "a' = f a" "a \<in> set (ps_abilities st)" by blast
    then obtain c where "gm_get (ps_channels st) (ab_ChannelId a) = Some c" "a \<in> set (channel_abilities c)"
      using assms(1) by (auto simp: in_sync_def split: option.splits)
    then show "case gm_get (ps_channels st) (ab_ChannelId a') of None \<Rightarrow> False | Some c \<Rightarrow> a' \<in> set (channel_abilities (F c))"
      using assms(3,4) row a(1) by simp
  next
    assume "case gm_get (ps_channels st) (ab_ChannelId a') of None \<Rightarrow> False | Some c \<Rightarrow> a' \<in> set (channel_abilities (F c))"
    then obtain c where c: "gm_get (ps_channels st) (ab_ChannelId a') = Some c" "a' \<in> set (channel_abilities (F c))" by (auto split: option.splits)
    then obtain a where a: "a' = f a" "a \<in> set (channel_abilities c)" using assms(4) [OF row [OF c(1)]] by blast
    then have "a \<in> set (ps_abilities st)" using assms(1,3) c(1) by (simp add: in_sync_def)
    then show "a' \<in> f ` set (ps_abilities st)" using a(1) by blast
  qed
  then show ?thesis using assms(1,2) ok by (auto simp: in_sync_def split: option.split)
qed

lemma on_rows_map: "on_rows P f st = st\<lparr>ps_channels := map (\<lambda>(i, c). (i, (if P c then f c else c))) (ps_channels st)\<rparr>"
  by (simp add: on_rows_def)

lemma channel_abilities_image:
  assumes "ch_Id d = ch_Id c" "ch_Models d = ch_Models c" "ch_Group d = ch_Group c" "\<And>g m. mk_ability d g m = f (mk_ability c g m)"
  shows "set (channel_abilities d) = f ` set (channel_abilities c)"
  using assms by (auto simp: channel_abilities_def channel_pairs_def case_prod_unfold)

lemma ability_tag: "a \<in> set (channel_abilities c) \<Longrightarrow> ab_Tag a = ch_Tag c"
  by (auto simp: channel_abilities_def mk_ability_def)

lemma in_sync_set_status:
  assumes "steady env" "in_sync st"
  shows "\<exists>st1. set_status_by_tag env tag up st = (True, st1) \<and> in_sync st1"
proof -
  let ?F = "\<lambda>c. if ch_Tag c = Some tag then c\<lparr>ch_Status := (if up then ChannelStatusEnabled else ChannelStatusManuallyDisabled)\<rparr> else c"
  let ?f = "\<lambda>a. if ab_Tag a = Some tag then a\<lparr>ab_Enabled := up\<rparr> else a"
  have "in_sync (st\<lparr>ps_channels := map (\<lambda>(i, c). (i, ?F c)) (ps_channels st), ps_abilities := map ?f (ps_abilities st)\<rparr>)"
  proof (rule in_sync_map [OF assms(2)])
    show "set (channel_abilities (?F c)) = ?f ` set (channel_abilities c)" for c
      by (rule channel_abilities_image) (auto simp: mk_ability_def GetWeight_def channel_status_defs)
  qed simp_all
  moreover have "set_status_by_tag env tag up st = (True, st\<lparr>ps_channels := map (\<lambda>(i, c). (i, ?F c)) (ps_channels st), ps_abilities := map ?f (ps_abilities st)\<rparr>)"
    using assms(1) by (simp add: set_status_by_tag_def steady_def on_rows_def UpdateAbilityStatusByTag_def)
  ultimately show ?thesis by blast
qed

lemma in_sync_TagChannels:
  assumes "steady env" "in_sync st"
  shows "in_sync (snd (EnableTagChannels env tag st))" "in_sync (snd (DisableTagChannels env tag st))"
  using in_sync_set_status [OF assms, of tag True] in_sync_set_status [OF assms, of tag False] assms(2)
  by (auto simp: EnableTagChannels_def DisableTagChannels_def in_sync_finish)

text \<open>Rows whose abilities are rebuilt are in step, the others stay as they were.\<close>

lemma refresh_abilities_set:
  assumes "me_del_ok env" "me_ins_ok env" "\<And>c. c \<in> set cs \<Longrightarrow> gm_get rows (ch_Id c) = Some c"
  shows "a \<in> set (refresh_abilities env cs ab) \<longleftrightarrow>
    (if ab_ChannelId a \<in> ch_Id ` set cs then (case gm_get rows (ab_ChannelId a) of None \<Rightarrow> False | Some c \<Rightarrow> a \<in> set (channel_abilities c)) else a \<in> set ab)"
  using assms(3)
proof (induction cs arbitrary: ab)
  case (Cons c cs)
  have row: "gm_get rows (ch_Id c) = Some c" using Cons.prems by simp
  have step: "refresh_abilities env (c # cs) ab = refresh_abilities env cs (snd (UpdateAbilities True True c ab))"
    using assms(1,2) by (simp add: refresh_abilities_def)
  have IH: "a \<in> set (refresh_abilities env cs ab') \<longleftrightarrow>
      (if ab_ChannelId a \<in> ch_Id ` set cs then (case gm_get rows (ab_ChannelId a) of None \<Rightarrow> False | Some c \<Rightarrow> a \<in> set (channel_abilities c)) else a \<in> set ab')" for ab'
    using Cons by simp
  show ?case unfolding step IH UpdateAbilities_set using row channel_abilities_id [of a c] by auto
qed (simp add: refresh_abilities_def)

definition edit_ok :: "tag_edit \<Rightarrow> bool" where
  "edit_ok e \<longleftrightarrow> (case et_Weight e of None \<Rightarrow> True | Some w \<Rightarrow> 0 < w \<and> w < 2 ^ 64)"

lemma weight_wrap: "0 \<le> w \<Longrightarrow> w < 2 ^ 64 \<Longrightarrow> wrap64 w mod 2 ^ 64 = w"
  unfolding wrap64_def by (simp add: mod_diff_left_eq)

lemma updates_fields:
  "ch_Id (updates c r) = ch_Id r" "ch_Models (updates c r) = upd_text (ch_Models c) (ch_Models r)" "ch_Group (updates c r) = upd_text (ch_Group c) (ch_Group r)"
  "ch_Status (updates c r) = upd_num (ch_Status c) (ch_Status r)" "ch_Priority (updates c r) = upd_ptr (ch_Priority c) (ch_Priority r)"
  "ch_Weight (updates c r) = upd_ptr (ch_Weight c) (ch_Weight r)" "ch_Tag (updates c r) = upd_ptr (ch_Tag c) (ch_Tag r)"
  "ch_Key (updates c r) = upd_text (ch_Key c) (ch_Key r)" "ch_Keys (updates c r) = ch_Keys r"
  "ch_ChannelInfo (updates c r) = (if ch_ChannelInfo c = zero_info then ch_ChannelInfo r else ch_ChannelInfo c)"
  by (simp_all add: updates_def)

lemma tag_update_fields:
  "ch_Id (tag_update e) = 0" "ch_Models (tag_update e) = set_opt (et_Models e) []" "ch_Group (tag_update e) = set_opt (et_Groups e) []"
  "ch_Status (tag_update e) = 0" "ch_Priority (tag_update e) = et_Priority e" "ch_Weight (tag_update e) = et_Weight e"
  "ch_Tag (tag_update e) = (if et_NewTag e = Some (et_Tag e) then None else et_NewTag e)"
  by (simp_all add: tag_update_def zero_channel_def)

lemma edited_tag: "ch_Tag c = Some (et_Tag e) \<Longrightarrow> ch_Tag (updates (tag_update e) c) = Some (set_opt (et_NewTag e) (et_Tag e))"
  by (auto simp: updates_fields tag_update_fields upd_ptr_def set_opt_def split: option.splits)

lemma rows_found:
  assumes "in_sync st" "c \<in> set (map snd (ps_channels st))"
  shows "gm_get (ps_channels st) (ch_Id c) = Some c"
proof -
  obtain i where "(i, c) \<in> set (ps_channels st)" using assms(2) by force
  then have "gm_get (ps_channels st) i = Some c" using assms(1) by (simp add: in_sync_def gm_ok_def gm_keys_def gm_get_def map_of_eq_Some_iff)
  then show ?thesis using assms(1) by (simp add: in_sync_def)
qed

lemma in_sync_edit_same:
  assumes "in_sync st" "edit_ok e" "given_text (et_Models e) = None" "given_text (et_Groups e) = None"
  shows "in_sync (st\<lparr>ps_channels := map (\<lambda>(i, c). (i, if ch_Tag c = Some (et_Tag e) then updates (tag_update e) c else c)) (ps_channels st),
     ps_abilities := UpdateAbilityByTag (et_Tag e) (et_NewTag e) (et_Priority e) (et_Weight e) (ps_abilities st)\<rparr>)"
  unfolding UpdateAbilityByTag_def
proof (rule in_sync_map [OF assms(1)], goal_cases)
  case (1 c)
  show ?case by (simp add: updates_fields)
next
  case (2 a)
  show ?case by (simp add: Let_def split: option.split)
next
  case (3 c)
  have same: "set_opt (et_Models e) [] = []" "set_opt (et_Groups e) [] = []"
    using assms(3,4) by (auto simp: given_text_def set_opt_def split: option.splits if_splits)
  show ?case
  proof (cases "ch_Tag c = Some (et_Tag e)")
    case True
    have w: "et_Weight e = Some w \<Longrightarrow> w \<noteq> 0 \<and> wrap64 w mod 18446744073709551616 = w" for w
      using assms(2) weight_wrap [of w] by (simp add: edit_ok_def)
    show ?thesis unfolding if_P [OF True]
      by (rule channel_abilities_image)
        (auto simp: updates_fields tag_update_fields same mk_ability_def GetWeight_def upd_text_def upd_num_def upd_ptr_def True w Let_def split: option.split)
  next
    case False
    show ?thesis unfolding if_not_P [OF False] by (rule channel_abilities_image) (use False in \<open>simp_all add: mk_ability_def\<close>)
  qed
qed

lemma in_sync_edit_refreshed:
  fixes e :: tag_edit
  assumes "in_sync st" "me_del_ok env" "me_ins_ok env"
  defines "rows \<equiv> map (\<lambda>(i, c). (i, if ch_Tag c = Some (et_Tag e) then updates (tag_update e) c else c)) (ps_channels st)"
  shows "in_sync (st\<lparr>ps_channels := rows, ps_abilities :=
     refresh_abilities env (filter (\<lambda>c. ch_Tag c = Some (set_opt (et_NewTag e) (et_Tag e))) (map snd rows)) (ps_abilities st)\<rparr>)"
proof -
  let ?F = "\<lambda>c. if ch_Tag c = Some (et_Tag e) then updates (tag_update e) c else c"
  let ?cs = "filter (\<lambda>c. ch_Tag c = Some (set_opt (et_NewTag e) (et_Tag e))) (map snd rows)"
  have get: "gm_get rows i = map_option ?F (gm_get (ps_channels st) i)" for i unfolding rows_def by (rule gm_get_map)
  have id: "ch_Id (?F c) = ch_Id c" for c by (simp add: updates_fields)
  have "gm_ok rows" using assms(1) by (simp add: rows_def in_sync_def gm_ok_def gm_keys_def comp_def case_prod_unfold)
  moreover have ids: "gm_get rows i = Some c \<Longrightarrow> ch_Id c = i" for i c using assms(1) id by (auto simp: get in_sync_def)
  ultimately have found: "gm_get rows (ch_Id c) = Some c" if "c \<in> set ?cs" for c
    using that by (auto simp: gm_ok_def gm_keys_def gm_get_def map_of_eq_Some_iff)
  have abs: "a \<in> set (refresh_abilities env ?cs (ps_abilities st)) \<longleftrightarrow>
      (case gm_get rows (ab_ChannelId a) of None \<Rightarrow> False | Some c \<Rightarrow> a \<in> set (channel_abilities c))" for a
  proof (cases "ab_ChannelId a \<in> ch_Id ` set ?cs")
    case False
    have "\<not> ch_Tag c = Some (et_Tag e)" if c: "gm_get (ps_channels st) (ab_ChannelId a) = Some c" for c
    proof
      assume t: "ch_Tag c = Some (et_Tag e)"
      then have "gm_get rows (ab_ChannelId a) = Some (updates (tag_update e) c)" using c by (simp add: get)
      then have "updates (tag_update e) c \<in> set ?cs" "ch_Id (updates (tag_update e) c) = ab_ChannelId a"
        using gm_get_SomeD edited_tag [OF t] ids by force+
      then show False using False by force
    qed
    moreover have "a \<in> set (refresh_abilities env ?cs (ps_abilities st)) \<longleftrightarrow> a \<in> set (ps_abilities st)"
      using refresh_abilities_set [where cs = ?cs and rows = rows and a = a and ab = "ps_abilities st", OF assms(2,3) found] False by simp
    ultimately show ?thesis using assms(1) by (auto simp: in_sync_def get split: option.split)
  next
    case True
    then show ?thesis
      using refresh_abilities_set [where cs = ?cs and rows = rows and a = a and ab = "ps_abilities st", OF assms(2,3) found] by simp
  qed
  show ?thesis using \<open>gm_ok rows\<close> ids abs by (simp add: in_sync_def)
qed

lemma in_sync_EditTagChannels:
  assumes "steady env" "in_sync st" "edit_ok e"
  shows "in_sync (snd (EditTagChannels env e st))"
proof -
  have flags: "me_read_ok env" "me_update_ok env" "me_ins_ok env" "me_del_ok env" using assms(1) by (simp_all add: steady_def)
  have edit: "\<exists>st1. EditChannelByTag env x st = (True, st1) \<and> in_sync st1" if "edit_ok x" for x
    using in_sync_edit_same [OF assms(2) that] in_sync_edit_refreshed [OF assms(2) flags(4,3), where e = x] flags
    by (simp add: EditChannelByTag_def on_rows_def Let_def)
  have "edit_ok (e\<lparr>et_ParamOverride := map_option go_trim_space (et_ParamOverride e), et_HeaderOverride := map_option go_trim_space (et_HeaderOverride e)\<rparr>)"
    using assms(3) by (simp add: edit_ok_def)
  from edit [OF this] show ?thesis using assms(2) by (auto simp: EditTagChannels_def in_sync_finish)
qed

lemma fold_AddAbilities_set:
  assumes "\<And>c. c \<in> set cs \<Longrightarrow> gm_get rows (ch_Id c) = Some c" "distinct (map ch_Id cs)" "\<forall>a \<in> set t. ab_ChannelId a \<notin> ch_Id ` set cs"
  shows "set (fold AddAbilities cs t) = set t \<union> (\<Union>c \<in> set cs. set (channel_abilities c))"
  using assms
proof (induction cs arbitrary: t)
  case (Cons c cs)
  have "set (AddAbilities c t) = set t \<union> set (channel_abilities c)" by (rule AddAbilities_set) (use Cons.prems(3) in auto)
  moreover have "set (fold AddAbilities cs (AddAbilities c t)) = set (AddAbilities c t) \<union> (\<Union>c \<in> set cs. set (channel_abilities c))"
    by (rule Cons.IH) (use Cons.prems calculation channel_abilities_id in force)+
  ultimately show ?case by auto
qed simp

definition rows_ok :: "(int, channel) gomap \<Rightarrow> bool" where
  "rows_ok rows \<longleftrightarrow> gm_ok rows \<and> list_all (\<lambda>(i, c). ch_Id c = i) rows"

lemma in_sync_FixAbility:
  assumes "steady env" "rows_ok (ps_channels st)"
  shows "in_sync (snd (FixAbility env st))"
proof -
  let ?cs = "map snd (ps_channels st)"
  have ids: "ch_Id c = i" if "(i, c) \<in> set (ps_channels st)" for i c using assms(2) that by (auto simp: rows_ok_def list_all_iff)
  have get: "gm_get (ps_channels st) i = Some c \<longleftrightarrow> (i, c) \<in> set (ps_channels st)" for i c
    using assms(2) by (simp add: rows_ok_def gm_ok_def gm_keys_def gm_get_def map_of_eq_Some_iff)
  have d: "map ch_Id ?cs = gm_keys (ps_channels st)" using ids by (auto simp: gm_keys_def)
  have s: "set (fold AddAbilities ?cs []) = (\<Union>c \<in> set ?cs. set (channel_abilities c))"
  proof -
    have "gm_get (ps_channels st) (ch_Id c) = Some c" if "c \<in> set ?cs" for c using that get ids by force
    moreover have "distinct (map ch_Id ?cs)" unfolding d using assms(2) by (simp add: rows_ok_def gm_ok_def)
    moreover have "\<forall>a \<in> set ([] :: ability list). ab_ChannelId a \<notin> ch_Id ` set ?cs" by simp
    ultimately have "set (fold AddAbilities ?cs []) = set [] \<union> (\<Union>c \<in> set ?cs. set (channel_abilities c))"
      by (rule fold_AddAbilities_set)
    then show ?thesis by simp
  qed
  have "in_sync (st\<lparr>ps_abilities := fold AddAbilities ?cs []\<rparr>)" unfolding in_sync_def
  proof (intro conjI allI impI, goal_cases)
    case 1
    show ?case using assms(2) by (simp add: rows_ok_def)
  next
    case (2 i c)
    then show ?case using get ids by simp
  next
    case (3 a)
    have "(\<exists>c. c \<in> set ?cs \<and> a \<in> set (channel_abilities c)) \<longleftrightarrow> (\<exists>c. gm_get (ps_channels st) (ab_ChannelId a) = Some c \<and> a \<in> set (channel_abilities c))"
    proof
      assume "\<exists>c. c \<in> set ?cs \<and> a \<in> set (channel_abilities c)"
      then obtain i c where c: "(i, c) \<in> set (ps_channels st)" "a \<in> set (channel_abilities c)" by auto
      then have "i = ab_ChannelId a" using ids channel_abilities_id by simp
      then show "\<exists>c. gm_get (ps_channels st) (ab_ChannelId a) = Some c \<and> a \<in> set (channel_abilities c)" using c get by blast
    next
      assume "\<exists>c. gm_get (ps_channels st) (ab_ChannelId a) = Some c \<and> a \<in> set (channel_abilities c)"
      then show "\<exists>c. c \<in> set ?cs \<and> a \<in> set (channel_abilities c)" using get by force
    qed
    moreover have "a \<in> set (fold AddAbilities ?cs []) \<longleftrightarrow> (\<exists>c. c \<in> set ?cs \<and> a \<in> set (channel_abilities c))" unfolding s by blast
    ultimately show ?case by (cases "gm_get (ps_channels st) (ab_ChannelId a)") simp_all
  qed
  moreover have "in_sync (st\<lparr>ps_abilities := []\<rparr>)" if "ps_channels st = []"
    using that by (simp add: in_sync_def)
  ultimately show ?thesis using assms(1) by (auto simp: FixAbility_def steady_def in_sync_finish Let_def)
qed

section \<open>Keys of a pool\<close>

text \<open>Keys that are lines: they survive being joined and read back.\<close>

definition plain_key :: "string \<Rightarrow> bool" where
  "plain_key k \<longleftrightarrow> k \<noteq> [] \<and> newline \<notin> set k \<and> \<not> is_space (hd k) \<and> \<not> is_space (List.last k) \<and> hd k \<noteq> CHR ''[''"

definition plain_keys :: "string list \<Rightarrow> bool" where
  "plain_keys ks \<longleftrightarrow> ks \<noteq> [] \<and> list_all plain_key ks"

lemma newline_space: "is_space newline"
  by (simp add: is_space_def newline_def)

lemma go_trim_id: "s \<noteq> [] \<Longrightarrow> \<not> P (hd s) \<Longrightarrow> \<not> P (List.last s) \<Longrightarrow> go_trim P s = s"
proof -
  assume a: "s \<noteq> []" "\<not> P (hd s)" "\<not> P (List.last s)"
  have "dropWhile P s = s" using a(1,2) by (cases s) auto
  moreover have "dropWhile P (rev s) = rev s" using a(1,3) by (cases s rule: rev_cases) auto
  ultimately show ?thesis by (simp add: go_trim_def)
qed

lemma join_ends: "plain_keys ks \<Longrightarrow> go_join newline ks \<noteq> [] \<and> hd (go_join newline ks) = hd (hd ks) \<and> List.last (go_join newline ks) = List.last (List.last ks)"
proof (induction newline ks rule: go_join.induct)
  case (3 p q ps)
  have "plain_keys (q # ps)" "p \<noteq> []" using 3(2) by (simp_all add: plain_keys_def plain_key_def)
  then show ?case using 3(1) by (simp add: last_append)
qed (simp_all add: plain_keys_def plain_key_def)

lemma plain_ends:
  assumes "plain_keys ks"
  shows "\<not> is_space (hd (go_join newline ks))" "\<not> is_space (List.last (go_join newline ks))" "hd (go_join newline ks) \<noteq> CHR ''[''"
    "go_join newline ks \<noteq> []"
proof -
  have "plain_key (hd ks)" "plain_key (List.last ks)" using assms by (simp_all add: plain_keys_def list_all_iff)
  then show "\<not> is_space (hd (go_join newline ks))" "\<not> is_space (List.last (go_join newline ks))" "hd (go_join newline ks) \<noteq> CHR ''[''"
    "go_join newline ks \<noteq> []"
    using join_ends [OF assms] by (simp_all add: plain_key_def)
qed

lemma plain_split: "plain_keys ks \<Longrightarrow> go_split newline (go_join newline ks) = ks"
  by (rule go_split_join) (auto simp: plain_keys_def plain_key_def list_all_iff)

lemma plain_read:
  assumes "plain_keys ks"
  shows "go_split newline (go_trim (\<lambda>x. x = newline) (go_join newline ks)) = ks" "\<not> go_has_prefix (go_trim_space (go_join newline ks)) ''[''"
proof -
  note e = plain_ends [OF assms]
  have t: "go_trim (\<lambda>x. x = newline) (go_join newline ks) = go_join newline ks"
    by (rule go_trim_id) (use e newline_space in \<open>metis+\<close>)
  show "go_split newline (go_trim (\<lambda>x. x = newline) (go_join newline ks)) = ks" unfolding t by (rule plain_split [OF assms])
  have "go_trim_space (go_join newline ks) = go_join newline ks" unfolding go_trim_space_def by (rule go_trim_id) (use e in simp_all)
  then show "\<not> go_has_prefix (go_trim_space (go_join newline ks)) ''[''" using e by (cases "go_join newline ks") (simp_all add: go_has_prefix_def)
qed

lemma plain_GetKeys: "plain_keys ks \<Longrightarrow> ch_Key c = go_join newline ks \<Longrightarrow> ch_Keys c = [] \<Longrightarrow> GetKeys raws c = ks"
  using plain_read plain_ends(4) by (simp add: GetKeys_def Let_def)

lemma plain_stored: "plain_keys ks \<Longrightarrow> stored_keys raws (go_join newline ks) = ks"
  using plain_read plain_ends(4) by (simp add: stored_keys_def Let_def)

lemma plain_existing: "plain_keys ks \<Longrightarrow> existing_keys env (go_join newline ks) = ks"
  using plain_read by (simp add: existing_keys_def)

lemma plain_lines: "plain_keys ks \<Longrightarrow> filter (\<lambda>k. k \<noteq> []) (map go_trim_space (go_split newline (go_join newline ks))) = ks"
proof -
  assume p: "plain_keys ks"
  have "go_trim_space k = k \<and> k \<noteq> []" if "k \<in> set ks" for k
  proof -
    have "plain_key k" using p that by (simp add: plain_keys_def list_all_iff)
    then show ?thesis unfolding go_trim_space_def plain_key_def by (metis go_trim_id)
  qed
  then have "map go_trim_space ks = ks" "filter (\<lambda>k. k \<noteq> []) ks = ks" by (auto intro: map_idI filter_True)
  then show ?thesis unfolding plain_split [OF p] by simp
qed

lemma reindex_get:
  "gm_get (concat (map (\<lambda>(j, i). case gm_get m (int i) of None \<Rightarrow> [] | Some v \<Rightarrow> if P i v then [(int j, v)] else []) (enumerate n kept))) (int k) =
     (if n \<le> k \<and> k < n + length kept then (case gm_get m (int (kept ! (k - n))) of None \<Rightarrow> None | Some v \<Rightarrow> if P (kept ! (k - n)) v then Some v else None)
      else None)"
proof (induction kept arbitrary: n)
  case (Cons i kept)
  have app: "gm_get (xs @ ys) key = (case gm_get xs key of None \<Rightarrow> gm_get ys key | Some v \<Rightarrow> Some v)" for xs ys :: "(int, 'a) gomap" and key
    by (simp add: gm_get_def map_add_def split: option.split)
  consider "k = n" | "k < n" | "n < k" by linarith
  then show ?case
  proof cases
    case 3
    then have "(i # kept) ! (k - n) = kept ! (k - Suc n)" by (metis Suc_diff_Suc nth_Cons_Suc)
    then show ?thesis using 3 unfolding enumerate_simps(2) list.map concat.simps app Cons.IH
      by (auto simp: gm_get_def split: option.split)
  qed (unfold enumerate_simps(2) list.map concat.simps app Cons.IH, auto simp: gm_get_def split: option.split)
qed (auto simp: gm_get_def)

lemma reindex_at:
  "gm_get (reindex kept P m) (int j) = (if j < length kept then (case gm_get m (int (kept ! j)) of None \<Rightarrow> None | Some v \<Rightarrow> if P (kept ! j) v then Some v else None) else None)"
  unfolding reindex_def reindex_get by (simp add: diff_zero cong: if_cong option.case_cong)

lemma reindex_keys: "(i, v) \<in> set (reindex kept P m) \<Longrightarrow> i < int (length kept)"
  by (auto simp: reindex_def in_set_enumerate_eq split: option.splits if_splits)

lemma reindex_ok: "gm_ok (reindex kept P m)"
proof -
  have "distinct (map fst (concat (map (\<lambda>(j, i). case gm_get m (int i) of None \<Rightarrow> [] | Some v \<Rightarrow> if P i v then [(int j, v)] else []) (enumerate n kept)))) \<and>
      (\<forall>x \<in> set (concat (map (\<lambda>(j, i). case gm_get m (int i) of None \<Rightarrow> [] | Some v \<Rightarrow> if P i v then [(int j, v)] else []) (enumerate n kept))). int n \<le> fst x)" for n
  proof (induction kept arbitrary: n)
    case (Cons i kept)
    show ?case using Cons.IH [of "Suc n"] by (fastforce split: option.split)
  qed simp
  then show ?thesis by (simp add: gm_ok_def gm_keys_def reindex_def)
qed

lemma reindex_status: "j < length kept \<Longrightarrow> key_status (reindex kept (\<lambda>i s. s \<noteq> 1) m) j = key_status m (kept ! j)"
  by (auto simp: key_status_def reindex_at channel_status_defs split: option.split)

lemma not_zero_info: "IsMultiKey info \<Longrightarrow> info \<noteq> zero_info"
  by (auto simp: zero_info_def)

lemma ChannelUpdate_pool:
  assumes "steady env" "ch_Id c \<noteq> 0" "gm_get (ps_channels st) (ch_Id c) = Some row" "IsMultiKey (ch_ChannelInfo c)"
  defines "key \<equiv> if ch_Key c \<noteq> [] then ch_Key c else ch_Key row"
  defines "n \<equiv> int (length (stored_keys (me_raws env) key))"
  shows "\<exists>st1 row1. ChannelUpdate env c st = (True, st1) \<and> ps_channels st1 = gm_put (ps_channels st) (ch_Id c) row1 \<and> ch_Key row1 = key \<and>
     ch_Keys row1 = ch_Keys row \<and> ch_ChannelInfo row1 = (ch_ChannelInfo c)\<lparr>MultiKeySize := n,
        MultiKeyStatusList := filter (\<lambda>(i, s). i < n) (MultiKeyStatusList (ch_ChannelInfo c))\<rparr> \<and> ch_Id row1 = ch_Id row \<and>
     ch_Status row1 = upd_num (ch_Status c) (ch_Status row)"
proof -
  have read: "me_read_ok env" using assms(1) by (simp add: steady_def)
  have key: "(if ch_Key c \<noteq> [] then ch_Key c
      else (case (if me_read_ok env then GetChannelById (ch_Id c) st else None) of None \<Rightarrow> [] | Some e \<Rightarrow> ch_Key e)) = key"
    using read assms(3) by (simp add: key_def GetChannelById_def)
  have r: "resized env st c = c\<lparr>ch_ChannelInfo := (ch_ChannelInfo c)\<lparr>MultiKeySize := n,
      MultiKeyStatusList := filter (\<lambda>(i, s). i < n) (MultiKeyStatusList (ch_ChannelInfo c))\<rparr>\<rparr>"
    unfolding resized_def Let_def key n_def [symmetric] using assms(4) by simp
  have nz: "(ch_ChannelInfo c)\<lparr>MultiKeySize := n, MultiKeyStatusList := filter (\<lambda>(i, s). i < n) (MultiKeyStatusList (ch_ChannelInfo c))\<rparr> \<noteq> zero_info"
    using assms(4) by (intro not_zero_info) simp
  show ?thesis unfolding ChannelUpdate_steady [OF assms(1-3)] r
    by (rule exI, rule exI [of _ "updates (c\<lparr>ch_ChannelInfo := (ch_ChannelInfo c)\<lparr>MultiKeySize := n,
      MultiKeyStatusList := filter (\<lambda>(i, s). i < n) (MultiKeyStatusList (ch_ChannelInfo c))\<rparr>\<rparr>) row"], intro conjI, rule refl)
      (use nz in \<open>simp_all add: updates_fields upd_text_def key_def\<close>)
qed

lemma finish_channels: "ps_channels (snd (finish env x st)) = ps_channels st"
  by (auto simp: finish_def reinit_def split: option.splits)

lemma update_keys_channels:
  assumes "ChannelUpdate env c st = (True, st1)"
  shows "ps_channels (snd (update_keys env x c st)) = ps_channels st1"
  unfolding update_keys_def assms by (simp add: finish_channels)

text \<open>A pool in the table whose keys are lines.\<close>

definition pool_of :: "pool_state \<Rightarrow> int \<Rightarrow> string list \<Rightarrow> channel \<Rightarrow> bool" where
  "pool_of st cid keys row \<longleftrightarrow> gm_get (ps_channels st) cid = Some row \<and> ch_Id row = cid \<and> cid \<noteq> 0 \<and> IsMultiKey (ch_ChannelInfo row) \<and>
     ch_Key row = go_join newline keys \<and> plain_keys keys \<and> MultiKeySize (ch_ChannelInfo row) = int (length keys) \<and>
     gm_ok (MultiKeyStatusList (ch_ChannelInfo row))"

abbreviation status_of :: "channel \<Rightarrow> nat \<Rightarrow> int" where
  "status_of row \<equiv> key_status (MultiKeyStatusList (ch_ChannelInfo row))"

lemma ManageMultiKeys_pool:
  assumes "steady env" "pool_of st cid keys row"
  shows "ManageMultiKeys env cid action st = manage_keys env action (row\<lparr>ch_Keys := []\<rparr>) st"
  using assms by (simp add: ManageMultiKeys_def steady_def pool_of_def GetChannelById_def)

lemma plain_sub: "plain_keys ks \<Longrightarrow> kept \<noteq> [] \<Longrightarrow> set kept \<subseteq> {..<length ks} \<Longrightarrow> plain_keys (map (\<lambda>i. ks ! i) kept)"
  by (auto simp: plain_keys_def list_all_iff)

text \<open>Keys are dropped: the others move up, with their statuses, and the deadlines stay where they are.\<close>

lemma keep_keys_stored:
  assumes "steady env" "pool_of st cid keys row" "kept \<noteq> []" "set kept \<subseteq> {..<length keys}"
  shows "\<exists>st1 row1. ChannelUpdate env (keep_keys keys kept noted (row\<lparr>ch_Keys := []\<rparr>)) st = (True, st1) \<and>
     ps_channels st1 = gm_put (ps_channels st) cid row1 \<and> pool_of st1 cid (map (\<lambda>i. keys ! i) kept) row1 \<and> ch_Status row1 = ch_Status row \<and>
     (\<forall>j < length kept. status_of row1 j = status_of row (kept ! j)) \<and>
     MultiKeyCooldownUntil (ch_ChannelInfo row1) = MultiKeyCooldownUntil (ch_ChannelInfo row)"
proof -
  let ?c = "keep_keys keys kept noted (row\<lparr>ch_Keys := []\<rparr>)"
  let ?l = "reindex kept (\<lambda>i s. s \<noteq> 1) (MultiKeyStatusList (ch_ChannelInfo row))"
  have p: "plain_keys (map (\<lambda>i. keys ! i) kept)" by (rule plain_sub) (use assms in \<open>simp_all add: pool_of_def\<close>)
  have row: "gm_get (ps_channels st) cid = Some row" "ch_Id row = cid" "cid \<noteq> 0" "IsMultiKey (ch_ChannelInfo row)" using assms(2) by (simp_all add: pool_of_def)
  have c: "ch_Id ?c = cid" "ch_Key ?c = go_join newline (map (\<lambda>i. keys ! i) kept)" "ch_Status ?c = ch_Status row"
    "ch_ChannelInfo ?c = (ch_ChannelInfo row)\<lparr>MultiKeySize := int (length kept), MultiKeyStatusList := ?l,
       MultiKeyDisabledTime := reindex kept (\<lambda>i t. noted i) (MultiKeyDisabledTime (ch_ChannelInfo row)),
       MultiKeyDisabledReason := reindex kept (\<lambda>i r. noted i) (MultiKeyDisabledReason (ch_ChannelInfo row))\<rparr>"
    using row(2) by (simp_all add: keep_keys_def Let_def)
  have key: "ch_Key ?c \<noteq> []" unfolding c(2) by (rule plain_ends(4) [OF p])
  have n: "length (stored_keys (me_raws env) (ch_Key ?c)) = length kept" unfolding c(2) plain_stored [OF p] by simp
  have l: "filter (\<lambda>(i, s). i < int (length kept)) ?l = ?l" using reindex_keys by (intro filter_True) fast
  obtain st1 row1 where u: "ChannelUpdate env ?c st = (True, st1)" "ps_channels st1 = gm_put (ps_channels st) cid row1" "ch_Key row1 = ch_Key ?c"
      "ch_ChannelInfo row1 = (ch_ChannelInfo ?c)\<lparr>MultiKeySize := int (length kept), MultiKeyStatusList := ?l\<rparr>"
      "ch_Id row1 = cid" "ch_Status row1 = upd_num (ch_Status ?c) (ch_Status row)"
    using ChannelUpdate_pool [OF assms(1), of ?c st row] row key n l c(1,4) by auto
  have "gm_ok ?l" by (rule reindex_ok)
  then have "pool_of st1 cid (map (\<lambda>i. keys ! i) kept) row1" using u row c p by (simp add: pool_of_def)
  moreover have "\<forall>j < length kept. status_of row1 j = status_of row (kept ! j)" using u(4) reindex_status by simp
  ultimately show ?thesis using u c by (intro exI [of _ st1] exI [of _ row1]) (simp add: upd_num_def)
qed

lemma kept_without: "d < n \<Longrightarrow> filter (\<lambda>i. int i \<noteq> int d) [0..<n] = [0..<d] @ [Suc d..<n]"
proof -
  assume d: "d < n"
  have "[0..<n] = [0..<d] @ d # [Suc d..<n]" using d upt_add_eq_append [of 0 d "n - d"] upt_conv_Cons [of d n] by simp
  moreover have "filter (\<lambda>i. int i \<noteq> int d) [0..<d] = [0..<d]" "filter (\<lambda>i. int i \<noteq> int d) [Suc d..<n] = [Suc d..<n]"
    by (auto intro: filter_True)
  ultimately show ?thesis by simp
qed

lemma kept_keys: "d < length keys \<Longrightarrow> map (\<lambda>i. keys ! i) ([0..<d] @ [Suc d..<length keys]) = take d keys @ drop (Suc d) keys"
  by (rule nth_equalityI) (auto simp: nth_append)

lemma delete_key_stored:
  assumes "steady env" "pool_of st cid keys row" "d < length keys" "1 < length keys"
  shows "\<exists>st1 row1. ps_channels (snd (ManageMultiKeys env cid (DeleteKey (Some (int d))) st)) = gm_put (ps_channels st) cid row1 \<and>
     pool_of st1 cid (take d keys @ drop (Suc d) keys) row1 \<and> ch_Status row1 = ch_Status row \<and>
     (\<forall>j < length keys - 1. status_of row1 j = status_of row (if j < d then j else Suc j)) \<and>
     MultiKeyCooldownUntil (ch_ChannelInfo row1) = MultiKeyCooldownUntil (ch_ChannelInfo row)"
proof -
  let ?kept = "[0..<d] @ [Suc d..<length keys]" and ?c = "row\<lparr>ch_Keys := []\<rparr>"
  have keys: "GetKeys (me_raws env) ?c = keys" by (rule plain_GetKeys) (use assms(2) in \<open>simp_all add: pool_of_def\<close>)
  have range: "key_in_range (Some (int d)) (ch_ChannelInfo ?c) = Some (int d)" using assms(2,3) by (simp add: key_in_range_def pool_of_def)
  have ne: "?kept \<noteq> []" "set ?kept \<subseteq> {..<length keys}" using assms(3,4) by auto
  have run: "ManageMultiKeys env cid (DeleteKey (Some (int d))) st = update_keys env KnDone (keep_keys keys ?kept (\<lambda>_. True) ?c) st"
    unfolding ManageMultiKeys_pool [OF assms(1,2)] manage_keys.simps delete_key_def range option.case Let_def keys kept_without [OF assms(3)] if_not_P [OF ne(1)]
    by (rule refl)
  obtain st1 row1 where u: "ChannelUpdate env (keep_keys keys ?kept (\<lambda>_. True) ?c) st = (True, st1)" "ps_channels st1 = gm_put (ps_channels st) cid row1"
    "pool_of st1 cid (map (\<lambda>i. keys ! i) ?kept) row1" "ch_Status row1 = ch_Status row" "\<forall>j < length ?kept. status_of row1 j = status_of row (?kept ! j)"
    "MultiKeyCooldownUntil (ch_ChannelInfo row1) = MultiKeyCooldownUntil (ch_ChannelInfo row)"
    using keep_keys_stored [OF assms(1,2) ne] by blast
  have "j < length keys - 1 \<Longrightarrow> ?kept ! j = (if j < d then j else Suc j)" for j by (simp add: nth_append)
  then have "\<forall>j < length keys - 1. status_of row1 j = status_of row (if j < d then j else Suc j)" using u(5) assms(3) by simp
  then show ?thesis using u(2,3,4,6) update_keys_channels [OF u(1)] unfolding run kept_keys [OF assms(3)]
    by (intro exI [of _ st1] exI [of _ row1]) simp
qed

lemma reap_frees:
  assumes "IsMultiKey (ch_ChannelInfo c)" "ch_Id c \<noteq> 0" "pe_save_ok pe" "gm_ok (MultiKeyCooldownUntil (ch_ChannelInfo c))" "key_expired (pe_now pe) c (int d)"
  shows "\<exists>c'. gm_get (ps_channels (snd (reapChannel pe c st))) (ch_Id c) = Some c' \<and> status_of c' d = ChannelStatusEnabled"
proof -
  let ?ex = "expired_keys (pe_now pe) (MultiKeyCooldownUntil (ch_ChannelInfo c))"
  have ex: "int d \<in> set ?ex" unfolding key_expired_set [OF assms(4)] using assms(5) by simp
  then have ne: "?ex \<noteq> []" by auto
  moreover have "gm_len (MultiKeyCooldownUntil (ch_ChannelInfo c)) \<noteq> 0" using ne by (auto simp: expired_keys_def gm_len_def)
  moreover obtain n ok st' where r: "reapChannel pe c st = ((n, ok), st')" by (metis prod.exhaust)
  ultimately have "0 < n" using assms(1) by (auto simp: reapChannel_def Let_def split: if_splits prod.splits)
  from reapChannel_store [OF r this assms(3,2)] obtain c' where c': "gm_get (ps_channels st') (ch_Id c) = Some c'"
      "ch_ChannelInfo c' = ch_ChannelInfo (fold ClearMultiKeyCooldown ?ex c)" by blast
  have "gm_get (MultiKeyStatusList (ch_ChannelInfo c')) (int d) = None" unfolding c'(2) fold_Clear_info using ex by (simp add: gm.get_fold_del)
  then show ?thesis using c'(1) r by (intro exI [of _ c']) (simp add: key_status_def)
qed

lemma refresh_same:
  assumes "in_sync st" "me_del_ok env" "me_ins_ok env" "set cs \<subseteq> set (map snd (ps_channels st))"
  shows "set (refresh_abilities env cs (ps_abilities st)) = set (ps_abilities st)"
proof -
  have found: "gm_get (ps_channels st) (ch_Id c) = Some c" if "c \<in> set cs" for c using rows_found [OF assms(1)] that assms(4) by blast
  have "a \<in> set (refresh_abilities env cs (ps_abilities st)) \<longleftrightarrow> a \<in> set (ps_abilities st)" for a
    using refresh_abilities_set [where cs = cs and rows = "ps_channels st" and a = a and ab = "ps_abilities st", OF assms(2,3) found] assms(1)
    by (auto simp: in_sync_def)
  then show ?thesis by blast
qed

lemma finish_abilities: "ps_abilities (snd (finish env x st)) = ps_abilities st"
  by (auto simp: finish_def reinit_def split: option.splits)

section \<open>Properties\<close>

datatype channel_change =
    CoAdd string add_request
  | CoCopy int string bool
  | CoUpdate update_channel_request
  | CoDelete int
  | CoDeleteBatch "int list"
  | CoDeleteDisabled
  | CoBatchTag "int list" "string option"
  | CoEnableTag string
  | CoDisableTag string
  | CoEditTag tag_edit
  | CoKeys int key_action
  | CoFix

fun channel_op :: "manage_env \<Rightarrow> channel_change \<Rightarrow> pool_state \<Rightarrow> pool_state" where
  "channel_op env (CoAdd tenant req) st = snd (AddChannel env tenant req st)"
| "channel_op env (CoCopy i suffix reset) st = snd (CopyChannel env i suffix reset st)"
| "channel_op env (CoUpdate req) st = snd (UpdateChannel env req st)"
| "channel_op env (CoDelete i) st = snd (DeleteChannel env i st)"
| "channel_op env (CoDeleteBatch ids) st = snd (DeleteChannelBatch env ids st)"
| "channel_op env CoDeleteDisabled st = snd (DeleteDisabledChannel env st)"
| "channel_op env (CoBatchTag ids tag) st = snd (BatchSetTag env ids tag st)"
| "channel_op env (CoEnableTag tag) st = snd (EnableTagChannels env tag st)"
| "channel_op env (CoDisableTag tag) st = snd (DisableTagChannels env tag st)"
| "channel_op env (CoEditTag e) st = snd (EditTagChannels env e st)"
| "channel_op env (CoKeys i action) st = snd (ManageMultiKeys env i action st)"
| "channel_op env CoFix st = snd (FixAbility env st)"

fun channel_ops :: "(manage_env \<times> channel_change) list \<Rightarrow> pool_state \<Rightarrow> pool_state" where
  "channel_ops [] st = st"
| "channel_ops ((env, op) # ops) st = channel_ops ops (channel_op env op st)"

text \<open>
  Three changes are safe only in some states. Deleting the disabled channels leaves their abilities behind, unless they have none; a
  tag set for a list of channels does not reach their abilities, unless they have it already or there are none; and the weight 0
  of a tag is written to the rows alone.
\<close>

definition op_ok :: "channel_change \<Rightarrow> pool_state \<Rightarrow> bool" where
  "op_ok op st \<longleftrightarrow> (case op of
       CoEditTag e \<Rightarrow> edit_ok e
     | CoDeleteDisabled \<Rightarrow> list_all (\<lambda>(i, c). \<not> disabled_row c \<or> channel_abilities c = []) (ps_channels st)
     | CoBatchTag ids tag \<Rightarrow> list_all (\<lambda>(i, c). i \<notin> set ids \<or> ch_Tag c = tag \<or> channel_abilities c = []) (ps_channels st)
     | _ \<Rightarrow> True)"

fun ops_ok :: "(manage_env \<times> channel_change) list \<Rightarrow> pool_state \<Rightarrow> bool" where
  "ops_ok [] st \<longleftrightarrow> True"
| "ops_ok ((env, op) # ops) st \<longleftrightarrow> steady env \<and> op_ok op st \<and> ops_ok ops (channel_op env op st)"

lemma in_sync_rows: "in_sync st \<Longrightarrow> rows_ok (ps_channels st)"
  by (auto simp: in_sync_def rows_ok_def list_all_iff gm_ok_def gm_keys_def gm_get_def map_of_eq_Some_iff)

lemma in_sync_get: "in_sync st \<Longrightarrow> (i, c) \<in> set (ps_channels st) \<longleftrightarrow> gm_get (ps_channels st) i = Some c"
  by (simp add: in_sync_def gm_ok_def gm_keys_def gm_get_def map_of_eq_Some_iff)

lemma in_sync_abilities: "in_sync st \<Longrightarrow> gm_get (ps_channels st) i = Some c \<Longrightarrow> a \<in> set (channel_abilities c) \<longleftrightarrow> a \<in> set (ps_abilities st) \<and> ab_ChannelId a = i"
  using channel_abilities_id [of a c] by (auto simp: in_sync_def)

text \<open>Deleting the disabled channels, and setting a tag, keep the tables in step exactly in those states.\<close>

lemma in_sync_DeleteDisabledChannel:
  assumes "steady env" "in_sync st"
  shows "in_sync (snd (DeleteDisabledChannel env st)) \<longleftrightarrow> op_ok CoDeleteDisabled st"
proof -
  let ?st1 = "st\<lparr>ps_channels := filter (\<lambda>(i, c). \<not> disabled_row c) (ps_channels st)\<rparr>"
  have ok: "gm_ok (ps_channels st)" using assms(2) by (simp add: in_sync_def)
  have row: "gm_get (ps_channels ?st1) i = (case gm_get (ps_channels st) i of None \<Rightarrow> None | Some c \<Rightarrow> if disabled_row c then None else Some c)" for i
    using gm_get_filter [OF ok, of "\<lambda>(i, c). \<not> disabled_row c" i] by (simp split: option.split)
  have "in_sync ?st1 \<longleftrightarrow> (\<forall>i c. gm_get (ps_channels st) i = Some c \<longrightarrow> \<not> disabled_row c \<or> channel_abilities c = [])" (is "?L \<longleftrightarrow> ?R")
  proof
    assume L: ?L
    show ?R
    proof (intro allI impI, rule ccontr)
      fix i c assume c: "gm_get (ps_channels st) i = Some c" "\<not> (\<not> disabled_row c \<or> channel_abilities c = [])"
      then obtain a where a: "a \<in> set (channel_abilities c)" by (cases "channel_abilities c") auto
      then have "a \<in> set (ps_abilities ?st1)" "ab_ChannelId a = i" using in_sync_abilities [OF assms(2) c(1)] by simp_all
      then have "gm_get (ps_channels ?st1) i \<noteq> None" using L unfolding in_sync_def by (metis option.simps(4))
      then show False using row [of i] c by simp
    qed
  next
    assume R: ?R
    have "a \<in> set (ps_abilities st) \<longleftrightarrow> (case gm_get (ps_channels ?st1) (ab_ChannelId a) of None \<Rightarrow> False | Some c \<Rightarrow> a \<in> set (channel_abilities c))" for a
      using assms(2) R unfolding row in_sync_def by (auto split: option.split)
    moreover have "gm_ok (ps_channels ?st1)" using gm_ok_filter [OF ok] by simp
    moreover have "ch_Id c = i" if "gm_get (ps_channels ?st1) i = Some c" for i c
      using that assms(2) unfolding row in_sync_def by (auto split: option.splits if_splits)
    ultimately show ?L unfolding in_sync_def by simp
  qed
  then show ?thesis
    using assms(1) by (auto simp: DeleteDisabledChannel_def steady_def in_sync_finish op_ok_def list_all_iff in_sync_get [OF assms(2)])
qed

lemma in_sync_set: "set ab = set (ps_abilities st) \<Longrightarrow> in_sync (st\<lparr>ps_abilities := ab\<rparr>) = in_sync st"
  by (simp add: in_sync_def)

lemma tagged_same: "a \<in> set (channel_abilities c) \<Longrightarrow> set (channel_abilities (c\<lparr>ch_Tag := t\<rparr>)) = set (channel_abilities c) \<Longrightarrow> ch_Tag c = t"
  using ability_tag [of a c] ability_tag [of a "c\<lparr>ch_Tag := t\<rparr>"] by simp

lemma tagged_none: "channel_abilities c = [] \<Longrightarrow> channel_abilities (c\<lparr>ch_Tag := t\<rparr>) = []"
  by (simp add: channel_abilities_def channel_pairs_def case_prod_unfold)

lemma in_sync_BatchSetTag:
  assumes "steady env" "in_sync st"
  shows "in_sync (snd (BatchSetTag env ids tag st)) \<longleftrightarrow> op_ok (CoBatchTag ids tag) st"
proof (cases "ids = []")
  case False
  let ?F = "\<lambda>c. if ch_Id c \<in> set ids then c\<lparr>ch_Tag := tag\<rparr> else c"
  let ?st1 = "st\<lparr>ps_channels := map (\<lambda>(i, c). (i, ?F c)) (ps_channels st)\<rparr>" and ?before = "filter (\<lambda>c. ch_Id c \<in> set ids) (map snd (ps_channels st))"
  have flags: "me_del_ok env" "me_ins_ok env" using assms(1) by (simp_all add: steady_def)
  have "BatchSetChannelTag env ids tag st = (True, ?st1\<lparr>ps_abilities := refresh_abilities env ?before (ps_abilities st)\<rparr>)"
    using assms(1) by (simp add: BatchSetChannelTag_def steady_def Let_def on_rows_def)
  then have run: "in_sync (snd (BatchSetTag env ids tag st)) \<longleftrightarrow> in_sync ?st1"
    using False in_sync_set [of "refresh_abilities env ?before (ps_abilities st)" ?st1] refresh_same [OF assms(2) flags, of ?before]
    by (auto simp: BatchSetTag_def in_sync_finish)
  have id: "ch_Id c = i" if "gm_get (ps_channels st) i = Some c" for i c using assms(2) that by (simp add: in_sync_def)
  have get: "gm_get (ps_channels ?st1) i = map_option ?F (gm_get (ps_channels st) i)" for i using gm_get_map [of ?F "ps_channels st" i] by simp
  have "in_sync ?st1 \<longleftrightarrow> (\<forall>i c. gm_get (ps_channels st) i = Some c \<longrightarrow> i \<notin> set ids \<or> ch_Tag c = tag \<or> channel_abilities c = [])" (is "?L \<longleftrightarrow> ?R")
  proof
    assume L: ?L
    show ?R
    proof (intro allI impI, rule ccontr)
      fix i c assume c: "gm_get (ps_channels st) i = Some c" "\<not> (i \<notin> set ids \<or> ch_Tag c = tag \<or> channel_abilities c = [])"
      then obtain a where a: "a \<in> set (channel_abilities c)" by (cases "channel_abilities c") auto
      then have "a \<in> set (ps_abilities ?st1)" "ab_ChannelId a = i" using in_sync_abilities [OF assms(2) c(1)] by simp_all
      moreover have "gm_get (ps_channels ?st1) i = Some (c\<lparr>ch_Tag := tag\<rparr>)" using c id [OF c(1)] unfolding get by simp
      ultimately have "a \<in> set (channel_abilities (c\<lparr>ch_Tag := tag\<rparr>))" using in_sync_abilities [OF L] by blast
      then show False using ability_tag [OF a] ability_tag c(2) by fastforce
    qed
  next
    assume R: ?R
    have "in_sync (st\<lparr>ps_channels := map (\<lambda>(i, c). (i, ?F c)) (ps_channels st), ps_abilities := map (\<lambda>a. a) (ps_abilities st)\<rparr>)"
    proof (rule in_sync_map [OF assms(2)])
      fix c assume "c \<in> set (map snd (ps_channels st))"
      from R [rule_format, OF rows_found [OF assms(2) this]]
      show "set (channel_abilities (?F c)) = (\<lambda>a. a) ` set (channel_abilities c)" by (auto simp: tagged_none)
    qed simp_all
    then show ?L by simp
  qed
  moreover have "op_ok (CoBatchTag ids tag) st \<longleftrightarrow> (\<forall>(i, c) \<in> set (ps_channels st). i \<notin> set ids \<or> ch_Tag c = tag \<or> channel_abilities c = [])"
    by (simp add: op_ok_def list_all_iff)
  ultimately show ?thesis unfolding run using in_sync_get [OF assms(2)] by blast
qed (use assms(2) in \<open>simp add: BatchSetTag_def op_ok_def list_all_iff case_prod_unfold\<close>)

lemma in_sync_op:
  assumes "steady env" "op_ok op st" "in_sync st"
  shows "in_sync (channel_op env op st)"
proof (cases op)
  case (CoEditTag e)
  then show ?thesis using assms by (simp add: op_ok_def in_sync_EditTagChannels)
qed (use assms in \<open>simp_all add: in_sync_AddChannel in_sync_CopyChannel in_sync_UpdateChannel in_sync_DeleteChannel in_sync_DeleteChannelBatch
      in_sync_DeleteDisabledChannel in_sync_BatchSetTag in_sync_TagChannels in_sync_ManageMultiKeys in_sync_FixAbility in_sync_rows\<close>)

text \<open>
  C21. The table of abilities, from which channels are chosen, is exactly that of the rows of the channels through any sequence of
  the changes an administrator can make, as long as every statement on the database succeeds and each change is made where it
  is safe (op_ok): the disabled channels are deleted together only when none of them has abilities, a tag is set for a list of
  channels only when they have it already or no abilities, and the weight given to the channels of a tag is not 0. Outside those states
  the first two do break the agreement (in_sync_DeleteDisabledChannel and in_sync_BatchSetTag are equivalences), which is the subject of the
  findings; rebuilding all abilities restores it in any state of the abilities (in_sync_FixAbility).
\<close>

theorem channels_in_sync:
  assumes "in_sync st" "ops_ok ops st"
  shows "in_sync (channel_ops ops st)"
  using assms
proof (induction ops arbitrary: st)
  case (Cons x ops)
  obtain env op where x: "x = (env, op)" by (cases x)
  show ?case unfolding x channel_ops.simps by (rule Cons.IH) (use Cons.prems x in \<open>simp_all add: in_sync_op\<close>)
qed simp

text \<open>
  C22. Deleting a key of a pool takes that key out and moves the ones behind it up, each with its status.
\<close>

theorem delete_key_shifts:
  assumes "steady env" "pool_of st cid keys row" "d < length keys" "1 < length keys"
  shows "\<exists>row1. gm_get (ps_channels (snd (ManageMultiKeys env cid (DeleteKey (Some (int d))) st))) cid = Some row1 \<and>
     GetKeys (me_raws env) (row1\<lparr>ch_Keys := []\<rparr>) = take d keys @ drop (Suc d) keys \<and>
     MultiKeySize (ch_ChannelInfo row1) = int (length keys) - 1 \<and>
     (\<forall>j < length keys - 1. key_status (MultiKeyStatusList (ch_ChannelInfo row1)) j =
        key_status (MultiKeyStatusList (ch_ChannelInfo row)) (if j < d then j else Suc j))"
proof -
  obtain st1 row1 where r: "ps_channels (snd (ManageMultiKeys env cid (DeleteKey (Some (int d))) st)) = gm_put (ps_channels st) cid row1"
     "pool_of st1 cid (take d keys @ drop (Suc d) keys) row1"
     "\<forall>j < length keys - 1. status_of row1 j = status_of row (if j < d then j else Suc j)"
    using delete_key_stored [OF assms] by blast
  have "GetKeys (me_raws env) (row1\<lparr>ch_Keys := []\<rparr>) = take d keys @ drop (Suc d) keys"
    by (rule plain_GetKeys) (use r(2) in \<open>simp_all add: pool_of_def\<close>)
  moreover have "MultiKeySize (ch_ChannelInfo row1) = int (length keys) - 1" using r(2) assms(3) by (simp add: pool_of_def)
  ultimately show ?thesis using r(1,3) by simp
qed

text \<open>
  The deadline of a key that is deleted stays at its place: the key that moves there is enabled by the reaper once the deadline
  has passed, even if an administrator disabled it.
\<close>

theorem deadline_left_behind:
  assumes "steady env" "pool_of st cid keys row" "Suc d < length keys" "gm_ok (MultiKeyCooldownUntil (ch_ChannelInfo row))"
    "gm_get (MultiKeyCooldownUntil (ch_ChannelInfo row)) (int d) = Some u" "0 < u" "u \<le> pe_now pe" "pe_save_ok pe"
    "gm_get (MultiKeyStatusList (ch_ChannelInfo row)) (int (Suc d)) = Some ChannelStatusManuallyDisabled"
  shows "\<exists>row1 row2. gm_get (ps_channels (snd (ManageMultiKeys env cid (DeleteKey (Some (int d))) st))) cid = Some row1 \<and>
     GetKeys (me_raws env) (row1\<lparr>ch_Keys := []\<rparr>) ! d = keys ! Suc d \<and>
     key_status (MultiKeyStatusList (ch_ChannelInfo row1)) d = ChannelStatusManuallyDisabled \<and>
     gm_get (ps_channels (snd (reapChannel pe row1 (snd (ManageMultiKeys env cid (DeleteKey (Some (int d))) st))))) cid = Some row2 \<and>
     key_status (MultiKeyStatusList (ch_ChannelInfo row2)) d = ChannelStatusEnabled"
proof -
  let ?st = "snd (ManageMultiKeys env cid (DeleteKey (Some (int d))) st)"
  obtain st1 row1 where r: "ps_channels ?st = gm_put (ps_channels st) cid row1" "pool_of st1 cid (take d keys @ drop (Suc d) keys) row1"
     "\<forall>j < length keys - 1. status_of row1 j = status_of row (if j < d then j else Suc j)"
     "MultiKeyCooldownUntil (ch_ChannelInfo row1) = MultiKeyCooldownUntil (ch_ChannelInfo row)"
    using delete_key_stored [OF assms(1,2), of d] assms(3) by auto
  have "GetKeys (me_raws env) (row1\<lparr>ch_Keys := []\<rparr>) = take d keys @ drop (Suc d) keys"
    by (rule plain_GetKeys) (use r(2) in \<open>simp_all add: pool_of_def\<close>)
  then have key: "GetKeys (me_raws env) (row1\<lparr>ch_Keys := []\<rparr>) ! d = keys ! Suc d" using assms(3) by (simp add: nth_append)
  have "\<exists>row2. gm_get (ps_channels (snd (reapChannel pe row1 ?st))) (ch_Id row1) = Some row2 \<and> status_of row2 d = ChannelStatusEnabled"
    by (rule reap_frees) (use r(2,4) assms(4-8) in \<open>simp_all add: pool_of_def key_expired_def\<close>)
  moreover have "status_of row1 d = ChannelStatusManuallyDisabled" using r(3) assms(3,9) by (simp add: key_status_def)
  ultimately show ?thesis using r(1,2) key by (auto simp: pool_of_def)
qed

text \<open>
  C40. Deleting the keys that are disabled automatically, when all are, deletes none: all of them are enabled again, and the answer
  counts them as deleted.
\<close>

theorem delete_all_disabled_enables:
  assumes "steady env" "pool_of st cid keys row" "\<forall>i < length keys. key_status (MultiKeyStatusList (ch_ChannelInfo row)) i = ChannelStatusAutoDisabled"
  shows "\<exists>row1. gm_get (ps_channels (snd (ManageMultiKeys env cid DeleteDisabledKeys st))) cid = Some row1 \<and>
     GetKeys (me_raws env) (row1\<lparr>ch_Keys := []\<rparr>) = keys \<and>
     (\<forall>i < length keys. key_status (MultiKeyStatusList (ch_ChannelInfo row1)) i = ChannelStatusEnabled) \<and>
     fst (ManageMultiKeys env cid DeleteDisabledKeys st) \<in> {Ok (KnCount (int (length keys))), Panic}"
proof -
  let ?c = "row\<lparr>ch_Keys := []\<rparr>"
  let ?noted = "\<lambda>i. key_status (MultiKeyStatusList (ch_ChannelInfo ?c)) i \<noteq> 1"
  let ?k = "keep_keys keys [] ?noted ?c"
  have p: "plain_keys keys" "ch_Key row = go_join newline keys" "gm_get (ps_channels st) cid = Some row" "ch_Id row = cid" "cid \<noteq> 0" "IsMultiKey (ch_ChannelInfo row)"
    using assms(2) by (simp_all add: pool_of_def)
  have keys: "GetKeys (me_raws env) ?c = keys" by (rule plain_GetKeys) (use p in simp_all)
  have none: "filter (\<lambda>i. key_status (MultiKeyStatusList (ch_ChannelInfo ?c)) i \<noteq> 3) [0..<length keys] = []"
    using assms(3) by (simp add: filter_empty_conv channel_status_defs)
  have ne: "int (length keys) - int (length ([] :: nat list)) \<noteq> 0" using p(1) by (simp add: plain_keys_def)
  have run: "ManageMultiKeys env cid DeleteDisabledKeys st = update_keys env (KnCount (int (length keys))) ?k st"
    unfolding ManageMultiKeys_pool [OF assms(1,2)] manage_keys.simps delete_disabled_keys_def Let_def keys none if_not_P [OF ne] by simp
  have k: "ch_Id ?k = cid" "ch_Key ?k = []" "IsMultiKey (ch_ChannelInfo ?k)" "MultiKeyStatusList (ch_ChannelInfo ?k) = []"
    using p by (simp_all add: keep_keys_def Let_def reindex_def)
  obtain st1 row1 where u: "ChannelUpdate env ?k st = (True, st1)" "ps_channels st1 = gm_put (ps_channels st) cid row1" "ch_Key row1 = ch_Key row"
      "MultiKeyStatusList (ch_ChannelInfo row1) = []"
    using ChannelUpdate_pool [OF assms(1), of ?k st row] p k by auto
  have "GetKeys (me_raws env) (row1\<lparr>ch_Keys := []\<rparr>) = keys" by (rule plain_GetKeys) (use p u(3) in simp_all)
  moreover have "fst (update_keys env (KnCount (int (length keys))) ?k st) \<in> {Ok (KnCount (int (length keys))), Panic}"
    unfolding update_keys_def u(1) by (simp add: finish_def split: option.split)
  moreover have "status_of row1 i = ChannelStatusEnabled" for i unfolding u(4) by (simp add: key_status_def gm_get_def)
  ultimately show ?thesis unfolding run update_keys_channels [OF u(1)] u(2) gm_get_put by simp
qed

text \<open>
  Keys that are appended to a pool come behind those it has, which keep their statuses.
\<close>

theorem keys_appended:
  assumes "steady env" "pool_of st cid keys row" "plain_keys new" "ur_KeyMode req = Some ''append''" "ch_Id (ur_Channel req) = cid"
    "ch_Type (ur_Channel req) \<noteq> 41" "ch_Setting (ur_Channel req) = None" "ch_Key (ur_Channel req) = go_join newline new"
  shows "\<exists>row1. gm_get (ps_channels (snd (UpdateChannel env req st))) cid = Some row1 \<and>
     GetKeys (me_raws env) (row1\<lparr>ch_Keys := []\<rparr>) = keys @ new \<and> MultiKeySize (ch_ChannelInfo row1) = int (length keys + length new) \<and>
     (\<forall>j < length keys + length new.
        key_status (MultiKeyStatusList (ch_ChannelInfo row1)) j = key_status (MultiKeyStatusList (ch_ChannelInfo row)) j)"
proof -
  have p: "plain_keys keys" "ch_Key row = go_join newline keys" "gm_get (ps_channels st) cid = Some row" "cid \<noteq> 0" "IsMultiKey (ch_ChannelInfo row)"
    "gm_ok (MultiKeyStatusList (ch_ChannelInfo row))" using assms(2) by (simp_all add: pool_of_def)
  let ?old = "row\<lparr>ch_Keys := []\<rparr>"
  let ?p = "patched req ?old"
  let ?c = "?p\<lparr>ch_Key := go_join newline (keys @ new)\<rparr>"
  have both: "plain_keys (keys @ new)" using p(1) assms(3) by (simp add: plain_keys_def)
  have info: "ch_ChannelInfo ?p = ch_ChannelInfo row \<or> (\<exists>m. ch_ChannelInfo ?p = (ch_ChannelInfo row)\<lparr>MultiKeyMode := m\<rparr>)"
    by (auto simp: patched_def split: option.split)
  then have multi: "IsMultiKey (ch_ChannelInfo ?p)" and list: "MultiKeyStatusList (ch_ChannelInfo ?p) = MultiKeyStatusList (ch_ChannelInfo row)"
    using p(5) by auto
  have pc: "ch_Id ?p = cid" "ch_Type ?p \<noteq> 41" "ch_Key ?p = go_join newline new" using assms(5,6,8) by (simp_all add: patched_def)
  have "ch_Key ?old \<noteq> []" using plain_ends(4) [OF p(1)] p(2) by simp
  moreover have "takes_vertex_keys env ?p st = (False, ?p, st)" using pc(2) by (simp add: takes_vertex_keys_def)
  ultimately have "append_keys env (ch_Key ?old) ?p st = (Ok ?c, st)"
    unfolding append_keys_def using plain_lines [OF assms(3)] plain_existing [OF p(1)] pc(3) p(2) by simp
  then have merge: "merged_keys env req ?old ?p st = (Ok ?c, st)" using assms(4) multi by (simp add: merged_keys_def)
  have key: "ch_Key ?c \<noteq> []" using plain_ends(4) [OF both] by simp
  obtain st1 row1 where u: "ChannelUpdate env ?c st = (True, st1)" "ps_channels st1 = gm_put (ps_channels st) cid row1" "ch_Key row1 = ch_Key ?c"
      "MultiKeySize (ch_ChannelInfo row1) = int (length keys + length new)"
      "MultiKeyStatusList (ch_ChannelInfo row1) = filter (\<lambda>(i, s). i < int (length keys + length new)) (MultiKeyStatusList (ch_ChannelInfo row))"
    using ChannelUpdate_pool [OF assms(1), of ?c st row] p pc multi list key plain_stored [OF both] by auto
  have "validateChannel env False (ur_Channel req) = None" using assms(6,7) by (simp add: validateChannel_def)
  moreover have "me_read_ok env" "GetChannelById (ch_Id (ur_Channel req)) st = Some ?old"
    using assms(1,5) p(3) by (simp_all add: steady_def GetChannelById_def)
  ultimately have "ps_channels (snd (UpdateChannel env req st)) = ps_channels st1"
    unfolding UpdateChannel_def using merge u(1) by (simp add: finish_channels)
  moreover have "GetKeys (me_raws env) (row1\<lparr>ch_Keys := []\<rparr>) = keys @ new" by (rule plain_GetKeys [OF both]) (use u(3) in simp_all)
  ultimately show ?thesis using u(2,4,5) by (simp add: key_status_def gm_get_filter [OF p(6)] split: option.split)
qed

lemma add_rows_names:
  assumes "list_all (\<lambda>k. k \<noteq> []) keys" "i < length keys"
  shows "length (add_rows p keys c) = length keys \<and> ch_Key (add_rows p keys c ! i) = keys ! i \<and>
    ch_Name (add_rows p keys c ! i) = ch_Name c @ (if p then concat (map (\<lambda>k. '' '' @ take 8 k) (take (Suc i) keys)) else [])"
  using assms
proof (induction keys arbitrary: c i)
  case (Cons k ks)
  show ?case
  proof (cases i)
    case 0
    have "length (add_rows p ks d) = length ks" for d
      using Cons.IH [of 0 d] Cons.prems(1) by (cases ks) auto
    then show ?thesis using Cons.prems(1) 0 by (simp add: Let_def)
  next
    case (Suc j)
    then show ?thesis using Cons.IH [of j "c\<lparr>ch_Key := k, ch_Name := (if p then ch_Name c @ '' '' @ take 8 k else ch_Name c)\<rparr>"] Cons.prems
      by (simp add: Let_def)
  qed
qed simp

text \<open>
  Channels added in a batch with the prefix of their key in the name have in it the prefixes of all keys before, too.
\<close>

theorem batch_names_accumulate:
  assumes "list_all (\<lambda>k. k \<noteq> []) keys" "i < length keys"
  shows "ch_Key (add_rows True keys c ! i) = keys ! i \<and>
    ch_Name (add_rows True keys c ! i) = ch_Name c @ concat (map (\<lambda>k. '' '' @ take 8 k) (take (Suc i) keys))"
  using add_rows_names [OF assms, of True c] by simp

text \<open>
  Abilities get the tag their channel had before: after channels are given a tag and the tag is disabled, the rows are disabled
  but all abilities of such a channel are still there and enabled.
\<close>

theorem batch_tag_stale:
  assumes "steady env" "in_sync st" "gm_get (ps_channels st) i = Some c" "i \<in> set ids" "ch_Status c = ChannelStatusEnabled" "ch_Tag c \<noteq> Some t" "t \<noteq> []"
  shows "\<exists>c2. gm_get (ps_channels (snd (DisableTagChannels env t (snd (BatchSetTag env ids (Some t) st))))) i = Some c2 \<and>
     ch_Tag c2 = Some t \<and> ch_Status c2 = ChannelStatusManuallyDisabled \<and>
     (\<forall>a \<in> set (channel_abilities c).
        a \<in> set (ps_abilities (snd (DisableTagChannels env t (snd (BatchSetTag env ids (Some t) st))))) \<and> ab_Enabled a)"
proof -
  let ?st1 = "snd (BatchSetTag env ids (Some t) st)" and ?before = "filter (\<lambda>c. ch_Id c \<in> set ids) (map snd (ps_channels st))"
  have ne: "ids \<noteq> []" using assms(4) by auto
  have id: "ch_Id c = i" using assms(2,3) by (simp add: in_sync_def)
  have flags: "me_del_ok env" "me_ins_ok env" using assms(1) by (simp_all add: steady_def)
  have b: "BatchSetChannelTag env ids (Some t) st = (True, (on_rows (\<lambda>c. ch_Id c \<in> set ids) (\<lambda>c. c\<lparr>ch_Tag := Some t\<rparr>) st)
      \<lparr>ps_abilities := refresh_abilities env ?before (ps_abilities st)\<rparr>)"
    using assms(1) by (simp add: BatchSetChannelTag_def steady_def Let_def on_rows_def)
  have one: "ps_channels ?st1 = map (\<lambda>(i, c). (i, if ch_Id c \<in> set ids then c\<lparr>ch_Tag := Some t\<rparr> else c)) (ps_channels st)"
    "ps_abilities ?st1 = refresh_abilities env ?before (ps_abilities st)"
    using ne by (simp_all add: BatchSetTag_def b finish_channels finish_abilities on_rows_def)
  have d: "set_status_by_tag env t False ?st1 = (True, (on_rows (\<lambda>c. ch_Tag c = Some t) (\<lambda>c. c\<lparr>ch_Status := ChannelStatusManuallyDisabled\<rparr>) ?st1)
      \<lparr>ps_abilities := UpdateAbilityStatusByTag t False (ps_abilities ?st1)\<rparr>)"
    using assms(1) by (simp add: set_status_by_tag_def steady_def on_rows_def)
  have two: "ps_channels (snd (DisableTagChannels env t ?st1)) =
        map (\<lambda>(i, c). (i, if ch_Tag c = Some t then c\<lparr>ch_Status := ChannelStatusManuallyDisabled\<rparr> else c)) (ps_channels ?st1)"
    "ps_abilities (snd (DisableTagChannels env t ?st1)) = UpdateAbilityStatusByTag t False (ps_abilities ?st1)"
    using assms(7) by (simp_all add: DisableTagChannels_def d finish_channels finish_abilities on_rows_def)
  have "a \<in> set (UpdateAbilityStatusByTag t False (ps_abilities ?st1)) \<and> ab_Enabled a" if a: "a \<in> set (channel_abilities c)" for a
  proof -
    have "a \<in> set (ps_abilities st)" using assms(2,3) a channel_abilities_id [OF a] id by (simp add: in_sync_def)
    then have "a \<in> set (ps_abilities ?st1)" unfolding one(2) using refresh_same [OF assms(2) flags, of ?before] by auto
    moreover have "ab_Tag a \<noteq> Some t" using ability_tag [OF a] assms(6) by simp
    moreover have "ab_Enabled a" using a assms(5) by (auto simp: channel_abilities_def mk_ability_def)
    ultimately show ?thesis by (auto simp: UpdateAbilityStatusByTag_def image_iff)
  qed
  moreover have "gm_get (ps_channels ?st1) i = Some (c\<lparr>ch_Tag := Some t\<rparr>)" using assms(3,4) id unfolding one(1) gm_get_map by simp
  then have "gm_get (ps_channels (snd (DisableTagChannels env t ?st1))) i = Some (c\<lparr>ch_Tag := Some t, ch_Status := ChannelStatusManuallyDisabled\<rparr>)"
    unfolding two(1) gm_get_map by simp
  ultimately show ?thesis unfolding two(2) by (intro exI [of _ "c\<lparr>ch_Tag := Some t, ch_Status := ChannelStatusManuallyDisabled\<rparr>"]) simp
qed

section \<open>Pages\<close>

lemma wrap_small: "0 \<le> x \<Longrightarrow> x < 2 ^ 63 \<Longrightarrow> wrap64 x = x"
  by (rule wrap64_id) (simp add: int64_ok_def)

lemma row_page_exact:
  assumes "0 < sz" "sz < 2 ^ 62" "int (length rows) < 2 ^ 62" "1 \<le> page"
  defines "pages \<equiv> max 1 ((int (length rows) + sz - 1) div sz)"
  shows "row_page rows page sz = Ok (min page pages, pages, take (nat sz) (drop (nat (min page pages - 1) * nat sz) rows))"
proof -
  let ?n = "int (length rows)" and ?p = "min page pages"
  have w: "wrap64 (wrap64 (?n + sz) - 1) = ?n + sz - 1" using assms(1-3) by (subst wrap_small, simp, simp, subst wrap_small, simp_all)
  have q: "go_quot (?n + sz - 1) sz = (?n + sz - 1) div sz" by (rule go_quot_nonneg) (use assms(1) in simp_all)
  have nn: "0 \<le> (?n + sz - 1) div sz" using assms(1) by (simp add: pos_imp_zdiv_nonneg_iff)
  have pg: "(if (?n + sz - 1) div sz = 0 then 1 else (?n + sz - 1) div sz) = pages" using nn by (simp add: pages_def)
  have p1: "(if pages < page then pages else page) = ?p" by simp
  have le: "(pages - 1) * sz \<le> ?n"
  proof (cases "(?n + sz - 1) div sz \<le> 1")
    case False
    have "((?n + sz - 1) div sz) * sz \<le> ?n + sz - 1"
      using div_mult_mod_eq [of "?n + sz - 1" sz] pos_mod_sign [OF assms(1), of "?n + sz - 1"] by linarith
    then show ?thesis using False unfolding pages_def by (simp add: algebra_simps max_def)
  qed (simp add: pages_def)
  have p: "1 \<le> ?p" using assms(4) by (simp add: pages_def)
  have start: "0 \<le> (?p - 1) * sz" "(?p - 1) * sz \<le> ?n"
  proof -
    show "0 \<le> (?p - 1) * sz" using p assms(1) by simp
    have "(?p - 1) * sz \<le> (pages - 1) * sz" using assms(1) by (intro mult_right_mono) auto
    then show "(?p - 1) * sz \<le> ?n" using le by (rule order_trans)
  qed
  have pb: "?p - 1 < 2 ^ 63" using start(2) p assms(1,3) mult_left_mono [of 1 sz "?p - 1"] by simp
  have ws: "wrap64 (wrap64 (?p - 1) * sz) = (?p - 1) * sz" using p pb start assms(3) by (simp add: wrap_small)
  have we: "wrap64 ((?p - 1) * sz + sz) = (?p - 1) * sz + sz" by (rule wrap_small) (use start assms(1-3) in simp_all)
  have nat_start: "nat ((?p - 1) * sz) = nat (?p - 1) * nat sz" using p by (simp add: nat_mult_distrib)
  have empty: "drop (nat (?p - 1) * nat sz) rows = []" if "?n \<le> (?p - 1) * sz" using that nat_start by (simp add: drop_eq_Nil le_nat_iff)
  have cut: "take (nat ((if ?n < (?p - 1) * sz + sz then ?n else (?p - 1) * sz + sz) - (?p - 1) * sz)) (drop (nat ((?p - 1) * sz)) rows) =
      take (nat sz) (drop (nat (?p - 1) * nat sz) rows)"
  proof (cases "?n < (?p - 1) * sz + sz")
    case True
    define k where "k = (?p - 1) * sz"
    have k: "0 \<le> k" "k \<le> ?n" "?n < k + sz" "nat (?p - 1) * nat sz = nat k" using True start nat_start by (simp_all add: k_def)
    then have "length (drop (nat k) rows) \<le> nat sz" "length (drop (nat k) rows) = nat (?n - k)" by (simp_all add: nat_diff_distrib)
    then show ?thesis unfolding k(4) k_def [symmetric] using k(3) by simp
  qed (simp add: nat_start)
  show ?thesis unfolding row_page_def Let_def w q pg p1 ws we
    using start cut empty assms(1) by auto
qed

lemma pages_concat: "0 < k \<Longrightarrow> length xs \<le> n * k \<Longrightarrow> concat (map (\<lambda>i. take k (drop (i * k) xs)) [0..<n]) = xs"
proof (induction n arbitrary: xs)
  case (Suc n)
  have "concat (map (\<lambda>i. take k (drop (i * k) xs)) [0..<Suc n]) = take k xs @ concat (map (\<lambda>i. take k (drop (i * k) (drop k xs))) [0..<n])"
    by (simp only: upt_conv_Cons [OF zero_less_Suc] list.map concat.simps map_Suc_upt [symmetric]) (simp add: comp_def add.commute)
  then show ?case using Suc.IH [of "drop k xs"] Suc.prems by simp
qed simp

definition page_rows :: "string list \<Rightarrow> channel_info \<Rightarrow> int \<Rightarrow> int \<Rightarrow> key_row list" where
  "page_rows keys info sz page = (case get_key_status keys info page sz None of Ok p \<Rightarrow> kp_Keys p | _ \<Rightarrow> [])"

text \<open>
  The pages of the keys of a pool, one after the other, are all its keys, each with its status, once.
\<close>

theorem key_pages_complete:
  assumes "0 < sz" "sz < 2 ^ 62" "int (length keys) < 2 ^ 62"
  shows "\<exists>p. get_key_status keys info 1 sz None = Ok p \<and> kp_Total p = int (length keys) \<and>
    concat (map (\<lambda>i. page_rows keys info sz (int i + 1)) [0..<nat (kp_TotalPages p)]) = key_rows keys info"
proof -
  define pages where "pages = max 1 ((int (length (key_rows keys info)) + sz - 1) div sz)"
  have len: "length (key_rows keys info) = length keys" by (simp add: key_rows_def)
  have page: "\<exists>q. get_key_status keys info x sz None = Ok q \<and> kp_Total q = int (length keys) \<and> kp_TotalPages q = pages \<and>
      kp_Keys q = take (nat sz) (drop (nat (min x pages - 1) * nat sz) (key_rows keys info))" if "1 \<le> x" for x
    using row_page_exact [of sz "key_rows keys info" x] assms that len by (simp add: get_key_status_def Let_def pages_def)
  have "page_rows keys info sz (int i + 1) = take (nat sz) (drop (i * nat sz) (key_rows keys info))" if "i < nat pages" for i
  proof -
    have "min (int i + 1) pages - 1 = int i" using that by simp
    then show ?thesis using page [of "int i + 1"] by (auto simp: page_rows_def)
  qed
  then have "concat (map (\<lambda>i. page_rows keys info sz (int i + 1)) [0..<nat pages]) = concat (map (\<lambda>i. take (nat sz) (drop (i * nat sz) (key_rows keys info))) [0..<nat pages])"
    by (intro arg_cong [where f = concat] map_cong refl) simp
  also have "\<dots> = key_rows keys info"
  proof (rule pages_concat)
    have "int (length keys) \<le> pages * sz"
    proof -
      have "int (length keys) + sz - 1 < ((int (length keys) + sz - 1) div sz + 1) * sz" using assms(1) pos_mod_bound [of sz "int (length keys) + sz - 1"]
        by (simp add: algebra_simps minus_mod_eq_mult_div [symmetric])
      moreover have "((int (length keys) + sz - 1) div sz) * sz \<le> pages * sz" unfolding pages_def len using assms(1) by (intro mult_right_mono) auto
      ultimately show ?thesis by (simp add: algebra_simps)
    qed
    moreover have "0 \<le> pages" by (simp add: pages_def)
    ultimately show "length (key_rows keys info) \<le> nat pages * nat sz" using assms(1) unfolding len
      by (simp add: nat_mult_distrib [symmetric] le_nat_iff)
  qed (use assms(1) in simp)
  finally show ?thesis using page [of 1] by auto
qed

section \<open>Examples\<close>

definition demo_manage :: manage_env where
  "demo_manage = \<lparr>me_pool = demo_env 1000, me_read_ok = True, me_update_ok = True, me_reload_ok = True, me_delete_ok = True, me_begin_ok = True,
     me_commit_ok = True, me_del_ok = True, me_ins_ok = True, me_new_id = (\<lambda>i. int i + 50), me_setting_ok = (\<lambda>_. True), me_regions = (\<lambda>_. None),
     me_vertex = (\<lambda>_. None), me_vertex_type = (\<lambda>_. Some []), me_json_valid = (\<lambda>_. True)\<rparr>"

definition demo_row :: "(int \<times> int) list \<Rightarrow> channel" where
  "demo_row ss = demo_channel\<lparr>ch_ChannelInfo := (ch_ChannelInfo demo_channel)\<lparr>MultiKeyStatusList := ss\<rparr>\<rparr>"

definition demo_rows :: "channel \<Rightarrow> pool_state" where
  "demo_rows c = \<lparr>ps_cache = \<lparr>group2model2channels = [], channelsIDM = []\<rparr>, ps_channels = [(ch_Id c, c)], ps_abilities = channel_abilities c\<rparr>"

lemma demo_steady: "steady demo_manage"
  by (simp add: steady_def demo_manage_def)

lemma demo_pool_of: "gm_ok ss \<Longrightarrow> pool_of (demo_rows (demo_row ss)) 7 [''a'', ''b''] (demo_row ss)"
  by (simp add: pool_of_def demo_rows_def demo_row_def demo_channel_def gm_get_def plain_keys_def plain_key_def newline_def is_space_def)

lemma demo_in_sync: "in_sync (demo_rows c)"
  by (auto simp: in_sync_def demo_rows_def gm_ok_def gm_keys_def gm_get_def dest: channel_abilities_id)

theorem channels_in_sync_witness:
  "in_sync (channel_ops [(demo_manage, CoDeleteDisabled), (demo_manage, CoBatchTag [7] None), (demo_manage, CoKeys 7 (DeleteKey (Some 0))),
      (demo_manage, CoDelete 7)] (demo_rows demo_channel))"
proof (rule channels_in_sync [OF demo_in_sync])
  have "snd (DeleteDisabledChannel demo_manage (demo_rows demo_channel)) = snd (finish demo_manage (0 :: int) (demo_rows demo_channel))"
    by (simp add: DeleteDisabledChannel_def demo_manage_def demo_rows_def demo_channel_def disabled_row_def channel_status_defs)
  then have "ps_channels (snd (DeleteDisabledChannel demo_manage (demo_rows demo_channel))) = [(7, demo_channel)]"
    by (simp add: finish_channels demo_rows_def demo_channel_def)
  then show "ops_ok [(demo_manage, CoDeleteDisabled), (demo_manage, CoBatchTag [7] None), (demo_manage, CoKeys 7 (DeleteKey (Some 0))),
      (demo_manage, CoDelete 7)] (demo_rows demo_channel)"
    by (simp add: demo_steady op_ok_def) (simp add: demo_rows_def demo_channel_def disabled_row_def channel_status_defs)
qed

theorem delete_key_shifts_witness:
  "\<exists>row1. gm_get (ps_channels (snd (ManageMultiKeys demo_manage 7 (DeleteKey (Some 0)) (demo_rows (demo_row [(1, 2)]))))) 7 = Some row1 \<and>
     GetKeys (me_raws demo_manage) (row1\<lparr>ch_Keys := []\<rparr>) = [''b''] \<and> key_status (MultiKeyStatusList (ch_ChannelInfo row1)) 0 = 2"
  using delete_key_shifts [OF demo_steady demo_pool_of [of "[(1, 2)]"], of 0]
  by (auto simp: gm_ok_def gm_keys_def demo_row_def key_status_def gm_get_def)

theorem deadline_left_behind_witness:
  "\<exists>row1 row2. gm_get (ps_channels (snd (ManageMultiKeys demo_manage 7 (DeleteKey (Some 0)) (demo_rows (demo_row [(0, 3), (1, 2)]))))) 7 = Some row1 \<and>
     key_status (MultiKeyStatusList (ch_ChannelInfo row1)) 0 = ChannelStatusManuallyDisabled \<and>
     gm_get (ps_channels (snd (reapChannel (demo_env 1000) row1
       (snd (ManageMultiKeys demo_manage 7 (DeleteKey (Some 0)) (demo_rows (demo_row [(0, 3), (1, 2)]))))))) 7 = Some row2 \<and>
     key_status (MultiKeyStatusList (ch_ChannelInfo row2)) 0 = ChannelStatusEnabled"
proof -
  have ok: "gm_ok [(0 :: int, 3 :: int), (1, 2)]" by (simp add: gm_ok_def gm_keys_def)
  show ?thesis
    using deadline_left_behind [OF demo_steady demo_pool_of [OF ok], of 0 900 "demo_env 1000"]
    by (simp add: demo_row_def demo_channel_def gm_get_def gm_ok_def gm_keys_def demo_env_def channel_status_defs) blast
qed

theorem delete_all_disabled_enables_witness:
  "\<exists>row1. gm_get (ps_channels (snd (ManageMultiKeys demo_manage 7 DeleteDisabledKeys (demo_rows (demo_row [(0, 3), (1, 3)]))))) 7 = Some row1 \<and>
     GetKeys (me_raws demo_manage) (row1\<lparr>ch_Keys := []\<rparr>) = [''a'', ''b'']"
proof -
  have ok: "gm_ok [(0 :: int, 3 :: int), (1, 3)]" by (simp add: gm_ok_def gm_keys_def)
  have "\<forall>i < length [''a'', ''b'']. key_status (MultiKeyStatusList (ch_ChannelInfo (demo_row [(0, 3), (1, 3)]))) i = ChannelStatusAutoDisabled"
    by (auto simp: demo_row_def key_status_def gm_get_def channel_status_defs less_2_cases_iff)
  from delete_all_disabled_enables [OF demo_steady demo_pool_of [OF ok] this] show ?thesis by blast
qed

theorem keys_appended_witness:
  "\<exists>row1. gm_get (ps_channels (snd (UpdateChannel demo_manage \<lparr>ur_Channel = zero_channel\<lparr>ch_Id := 7, ch_Key := ''c''\<rparr>, ur_MultiKeyMode = None,
       ur_KeyMode = Some ''append''\<rparr> (demo_rows (demo_row []))))) 7 = Some row1 \<and>
     GetKeys (me_raws demo_manage) (row1\<lparr>ch_Keys := []\<rparr>) = [''a'', ''b'', ''c'']"
proof -
  have new: "plain_keys [''c'']" by (simp add: plain_keys_def plain_key_def newline_def is_space_def)
  show ?thesis
    using keys_appended [OF demo_steady demo_pool_of [OF gm_ok_empty] new,
      of "\<lparr>ur_Channel = zero_channel\<lparr>ch_Id := 7, ch_Key := ''c''\<rparr>, ur_MultiKeyMode = None, ur_KeyMode = Some ''append''\<rparr>"]
    by (auto simp: zero_channel_def)
qed

theorem batch_names_accumulate_witness: "ch_Name (add_rows True [''k1'', ''k2''] (zero_channel\<lparr>ch_Name := ''n''\<rparr>) ! 1) = ''n k1 k2''"
  using batch_names_accumulate [of "[''k1'', ''k2'']" 1 "zero_channel\<lparr>ch_Name := ''n''\<rparr>"] by simp

theorem batch_tag_stale_witness:
  "\<exists>c2. gm_get (ps_channels (snd (DisableTagChannels demo_manage ''t'' (snd (BatchSetTag demo_manage [7] (Some ''t'') (demo_rows demo_channel)))))) 7 = Some c2 \<and>
     ch_Status c2 = ChannelStatusManuallyDisabled"
  using batch_tag_stale [OF demo_steady demo_in_sync, of demo_channel 7 demo_channel "[7]" "''t''"]
  by (auto simp: demo_rows_def demo_channel_def gm_get_def channel_status_defs)

theorem key_pages_complete_witness:
  "\<exists>p. get_key_status [''a'', ''b'', ''c''] zero_info 1 2 None = Ok p \<and> kp_Total p = 3"
  using key_pages_complete [of 2 "[''a'', ''b'', ''c'']" zero_info] by auto

end
