(* ===== verification/Spec2Isabelle.thy ===== *)
theory Spec2Isabelle
  imports Distributor Session_Auth Rate_Limit Billing_Outbox Task_Submit Midjourney Format_Convert Internal_Access Channel_Manage
begin

text \<open>
  A model of the core of the lurus-hub gateway: how a request is routed to an upstream channel,
  retried, and paid for. Every definition is translated from the Go sources under
  \<^verbatim>\<open>src/internal\<close>; names are the sources' names, with a prefix or suffix where HOL has a constant of
  that name.

  \<^bold>\<open>The program.\<close> A request carries an API key. The access middleware finds its token, checks the
  token, the client's address, the user and the group, and stores what the rest of the request reads
  in the request's context; rate limits count it. The distributor reads the model from path and body,
  checks it against the token's list and picks a channel (an upstream account) of the token's group
  that serves the model, out of an in-memory cache of the database tables or the tables themselves,
  and a key of the channel, which may hold many. The relay then takes an estimate of the cost in
  advance, computed from the ratio tables, from the token, the user and, for accounts of the billing
  platform, from the platform's wallet; tries channels until one answers, an error may not be retried,
  or the retries are used up; and settles the difference to the final cost, or refunds the estimate.
  Errors of the upstream open circuit breakers, put keys of a pool on cooldown and disable keys and
  channels; a reaper brings cooled keys back. Calls to the platform that fail are retried from an
  outbox. Quota updates may be collected in a batch that is flushed periodically. The web interface
  is reached through sessions; URLs fetched on behalf of users pass a guard against server-side
  request forgery. Videos and music are made by tasks, which a poller follows until they end. Requests, answers and
  streams are translated where the client speaks another interface than the upstream.

  \<^bold>\<open>The theories\<close>, in the order of their dependencies:

  \<^item> \<open>Hub_Prelude\<close>: Go maps as association lists, the interface \<open>keyed_store\<close> (a locale, interpreted
    on them), and generic lemmas on lists.
  \<^item> \<open>Go_Base\<close>: 64-bit wrap-around, truncating division, the result type with errors and panics, and
    the functions of the packages \<^verbatim>\<open>strings\<close> and \<^verbatim>\<open>strconv\<close> the code uses, on byte strings.
  \<^item> \<open>Circuit_Breaker\<close>: \<^verbatim>\<open>pkg/resilience/circuitbreaker.go\<close>. A breaker is a record, the registry a
    map; lemmas over all histories of outcomes; a locale states what the relay relies on.
  \<^item> \<open>Api_Error\<close>: \<^verbatim>\<open>pkg/types/error.go\<close> and the decisions taken from an error: retry
    (\<^verbatim>\<open>adapter/handler/relay.go\<close>), disable and enable a channel (\<^verbatim>\<open>app/channel.go\<close>).
  \<^item> \<open>Channel_Entity\<close>: the channel row (\<^verbatim>\<open>adapter/repo/channel.go\<close>, \<^verbatim>\<open>domain/entity/channel.go\<close>), its
    accessors, and the choice of a key, random or polling, with all its errors.
  \<^item> \<open>Channel_Cache\<close>: the ability table and the routing cache (\<^verbatim>\<open>adapter/repo/ability.go\<close>,
    \<^verbatim>\<open>channel_cache.go\<close>), their construction and updates, and the weighted choice of a channel.
  \<^item> \<open>Cooldown_Parse\<close>: deadlines from headers and bodies (\<^verbatim>\<open>app/openrouter_pool/cooldown.go\<close>).
  \<^item> \<open>Key_Pool\<close>: status changes of keys and channels (\<^verbatim>\<open>channel.go\<close>), cooldown marks
    (\<^verbatim>\<open>channel_pool.go\<close>, \<^verbatim>\<open>openrouter_pool/writer.go\<close>) and the reaper (\<^verbatim>\<open>reaper.go\<close>).
  \<^item> \<open>User_Ledger\<close>: quota updates of users, tokens and channels (\<^verbatim>\<open>user.go\<close>, \<^verbatim>\<open>token.go\<close>,
    \<^verbatim>\<open>utils.go\<close>), direct and batched. The abstract view of a ledger is what its rows will hold once the
    batch is flushed; batching refines direct updates. The locale \<open>account_ledger\<close> is the contract
    of an account, interpreted on users and tokens.
  \<^item> \<open>Daily_Quota\<close>: daily limits and fallback groups (\<^verbatim>\<open>user.go\<close>, \<^verbatim>\<open>daily_quota_cron.go\<close>).
  \<^item> \<open>Wallet_Breaker\<close>: the breaker of the platform (\<^verbatim>\<open>pkg/common/billing_breaker.go\<close>) as a step relation.
  \<^item> \<open>Usage_Pricing\<close>: estimates and final quotas (\<^verbatim>\<open>app/relay/helper/price.go\<close>,
    \<^verbatim>\<open>compatible_handler.go\<close>, \<^verbatim>\<open>app/quota.go\<close>, \<^verbatim>\<open>operation_setting/tools.go\<close>).
  \<^item> \<open>Quota_Billing\<close>: pre-consumption, settlement and refund
    (\<^verbatim>\<open>app/pre_consume_quota.go\<close>, \<^verbatim>\<open>app/quota.go\<close>), with the failures of every database write and
    platform call as arguments. \<open>Realtime_Session\<close>: sessions over a websocket
    (\<^verbatim>\<open>app/relay/websocket.go\<close>, \<^verbatim>\<open>provider/openai/relay-openai.go\<close>), which charge turn by turn while they run.
  \<^item> \<open>Billing_Outbox\<close>: the outbox and its worker (\<^verbatim>\<open>app/billing_outbox.go\<close>) as a step relation.
  \<^item> \<open>Channel_Select\<close>: groups and the walk of an automatic token over them
    (\<^verbatim>\<open>app/channel_select.go\<close>, \<^verbatim>\<open>app/group.go\<close>).
  \<^item> \<open>Relay_Loop\<close>: a whole request (\<^verbatim>\<open>adapter/handler/relay.go\<close>): checks, pre-consumption, the retry
    loop over \<open>Channel_Select\<close>, \<open>Circuit_Breaker\<close> and \<open>Api_Error\<close>, settlement by \<open>Quota_Billing\<close>, or by the
    session of \<open>Realtime_Session\<close> for the realtime interface, the deferred refund and response.
  \<^item> \<open>Net_Addr\<close>: what the code uses of Go's package \<^verbatim>\<open>net\<close>: an address is a 128-bit word; parsing and
    printing, prefixes, membership. \<open>Net_Guard\<close>: address lists (\<^verbatim>\<open>pkg/common/ip.go\<close>) and the guard of
    fetched URLs (\<^verbatim>\<open>ssrf_protection.go\<close>); the private test is shown equivalent to numeric ranges.
  \<^item> \<open>Model_Ratio\<close>: lookups in the ratio tables (\<^verbatim>\<open>pkg/setting/ratio_setting\<close>), with name matching,
    fallback families and built-in completion ratios; they provide the tables of \<open>Usage_Pricing\<close>.
  \<^item> \<open>Rate_Limit\<close>: the in-memory limiter (\<^verbatim>\<open>pkg/common/rate-limit.go\<close>), refined against a reference that
    forgets nothing, and the middlewares over it or over Redis (\<^verbatim>\<open>adapter/middleware/rate-limit.go\<close>,
    \<^verbatim>\<open>model-rate-limit.go\<close>).
  \<^item> \<open>Token_Access\<close>: tokens, their validation and the access middlewares (\<^verbatim>\<open>adapter/repo/token.go\<close>,
    \<^verbatim>\<open>adapter/middleware/auth.go\<close>), on the rows of \<open>User_Ledger\<close>. \<open>Session_Auth\<close>: sessions and access
    tokens of the web interface (\<^verbatim>\<open>authHelper\<close>); session values are dynamically typed.
  \<^item> \<open>Request_Model\<close>: relay modes, the model a request asks for (\<^verbatim>\<open>distributor.go\<close>, \<^verbatim>\<open>relay_mode.go\<close>,
    \<^verbatim>\<open>midjourney.go\<close>) and the mapping to the upstream's model (\<^verbatim>\<open>model_mapped.go\<close>).
  \<^item> \<open>Distributor\<close>: \<^verbatim>\<open>Distribute\<close>, from the context of \<open>Token_Access\<close> to the first attempt of
    \<open>Relay_Loop\<close>; its properties compose the three.
  \<^item> \<open>Task_Poll\<close>: the rows of asynchronous tasks (videos, music) and the polling round that corrects and
    refunds them (\<^verbatim>\<open>adapter/handler/task.go\<close>, \<^verbatim>\<open>task_video.go\<close>). \<open>Task_Submit\<close>: their submission and fetching
    (\<^verbatim>\<open>app/relay/relay_task.go\<close>) with the retries of \<^verbatim>\<open>RelayTask\<close>, over the state of \<open>Relay_Loop\<close>; submissions, live
    queries and rounds are a step relation; what users have plus what their tasks hold is kept by the steps labelled as good, and the
    lemmas beside it show what the others lose.
  \<^item> \<open>Midjourney\<close>: Midjourney tasks, submission and notification (\<^verbatim>\<open>app/relay/mjproxy_handler.go\<close>) and polling
    (\<^verbatim>\<open>adapter/handler/midjourney.go\<close>), on the ledger and the billing of the theories above.
  \<^item> \<open>Stream_Convert\<close>: streams of OpenAI-compatible upstreams and their translation to events of the Claude and
    Gemini interfaces (\<^verbatim>\<open>adapter/provider/openai\<close>, \<^verbatim>\<open>app/convert.go\<close>). The protocol a Claude client accepts is
    an automaton; the locale \<open>emitting\<close> turns a simulation of one chunk into one of a stream, interpreted on the
    translation. \<open>Claude_Relay\<close>: Claude as an upstream (\<^verbatim>\<open>provider/claude/relay-claude.go\<close>): its events for clients
    and the usage they are billed with. \<open>Format_Convert\<close>: requests and whole answers between the three interfaces.
  \<^item> \<open>Balance_Ops\<close>: what puts quota into accounts: redemption codes (\<^verbatim>\<open>adapter/repo/redemption.go\<close>), adjustments and
    top-ups of other services (\<^verbatim>\<open>adapter/handler/internal_api.go\<close>) with their search for the number of an order,
    transfers from the platform's wallet (\<^verbatim>\<open>v2_billing.go\<close>) and exchanges (\<^verbatim>\<open>internal_currency.go\<close>). Conservation
    laws hold over operations that run one after the other; what two requests at the same time can do is shown on their halves.
  \<^item> \<open>User_Identity\<close>: tenants (\<^verbatim>\<open>adapter/repo/tenant.go\<close>), the plugin that scopes statements to them
    (\<^verbatim>\<open>adapter/repo/tenant_plugin.go\<close>), identities (\<^verbatim>\<open>adapter/repo/user_mapping.go\<close>) and sign-in with tokens of the
    identity provider (\<^verbatim>\<open>adapter/middleware/zitadel_auth.go\<close>): a tenant's statements answer and change its rows
    alone, and an identity stays with its account while only sign-ins happen.
  \<^item> \<open>Token_Manage\<close>: how users and other services make and change tokens (\<^verbatim>\<open>adapter/handler/token.go\<close>,
    \<^verbatim>\<open>app/token_service.go\<close>, \<^verbatim>\<open>adapter/handler/internal_api_ext.go\<close>): tokens are out of reach of other users.
  \<^item> \<open>Internal_Access\<close>: keys of other services, their scopes and administration, and the routes over the operations of the
    three theories before (\<^verbatim>\<open>adapter/middleware/internal_api_auth.go\<close>, \<^verbatim>\<open>adapter/repo/internal_api_key.go\<close>): without
    the scopes that may, no sequence of requests changes a quota.
  \<^item> \<open>Channel_Manage\<close>: how administrators add, copy, change, tag and delete channels and manage the keys of a pool
    (\<^verbatim>\<open>adapter/handler/channel.go\<close>, \<^verbatim>\<open>adapter/repo/channel.go\<close>, \<^verbatim>\<open>adapter/repo/ability.go\<close>), over the rows of
    \<open>Channel_Entity\<close> and the cache and abilities of \<open>Channel_Cache\<close>: the table of abilities stays that of the rows,
    except after the changes that are shown to break it.

  \<^bold>\<open>Conventions.\<close> A database statement takes its outcome as an argument and changes nothing when it
  fails; an update of a missing row succeeds and changes nothing. Random numbers, clocks, answers of
  upstreams and of the billing platform, and the order in which Go visits a map are arguments, so
  the theorems hold for all of them. Code held under a lock is one step. A panic is a value of the
  result type. Strings are byte strings. Third-party code (JSON, decimal division, tokenizers)
  appears as function arguments.

  \<^bold>\<open>Numbers.\<close> Quotas, counters and timestamps are unbounded integers where the code does not depend on
  their width; the conversions that do are written with the wrap-around of \<open>Go_Base\<close>. Floats and
  decimals are rationals; each float operation is followed by a rounding function that is an
  argument.

  \<^bold>\<open>Loops and fuel.\<close> Loops over lists are structural. The retry loop of a request, which an automatic
  group may reset, and that of a task are \<open>partial_function\<close>s; their termination is a theorem: the groups still ahead and
  the turns left in the current one decrease lexicographically. The loop
  along a mapping of model names is a \<open>function\<close>, measured by the names not yet visited. No definition
  uses fuel.

  \<^bold>\<open>Services.\<close> Redis is a record of its commands over an abstract state; JSON decoders, name
  resolution and URL parsing are functions or decoded values given as arguments.

  \<^bold>\<open>Not modelled\<close>: wire formats as JSON, the adaptors of upstreams other than Claude and OpenAI, the request decoding and
  listings of HTTP handlers, verification of OIDC and JWT tokens (third-party libraries), Redis copies of rows, the editing of
  JSON by parameter overrides, the scores of the hub (floating point) and its periodic aggregation, the synchronisation of models,
  sensitive words (a third-party automaton), logs, metrics, tracing, and the web front end.
\<close>

end
